(* ===== verification/Prelude.thy ===== *)
theory Prelude
  imports Complex_Main "HOL-Library.AList" "HOL-Library.Monad_Syntax"
begin

text \<open>
  Shared vocabulary of the development: instants as integers, Python values, insertion-ordered
  dictionaries and SQL tables as association lists, bounded deques, and the generic lemmas about
  them that the component theories use through the collections declared here.
\<close>

named_theorems table_simps \<open>lookup laws of tables and dictionaries\<close>
named_theorems ring_simps \<open>laws of bounded deques\<close>

section \<open>Time\<close>

text \<open>
  A timezone-aware \<^verbatim>\<open>datetime\<close> is an exact number of microseconds since the epoch, and a
  \<^verbatim>\<open>timedelta\<close> a number of microseconds; both are integers. Readings of the monotonic clock and
  other Python floats are real numbers (rounding and the non-finite floats are left out).
\<close>

type_synonym datetime = int
type_synonym timedelta = int

definition seconds :: "int \<Rightarrow> timedelta" where
  "seconds n = n * 1000000"

definition days :: "int \<Rightarrow> timedelta" where
  "days n = seconds (86400 * n)"

text \<open>\<^verbatim>\<open>timedelta(seconds=s)\<close> rounds to the nearest microsecond, ties to even.\<close>

definition round_half_even :: "real \<Rightarrow> int" where
  "round_half_even x =
     (let f = \<lfloor>x\<rfloor>; d = x - of_int f
      in if d < 1 / 2 then f else if d > 1 / 2 then f + 1 else if even f then f else f + 1)"

definition timedelta_seconds :: "real \<Rightarrow> timedelta" where
  "timedelta_seconds s = round_half_even (s * 1000000)"

lemma timedelta_seconds_of_int [simp]: "timedelta_seconds (of_int n) = n * 1000000"
proof -
  have "of_int n * (1000000 :: real) = of_int (n * 1000000)" by simp
  then show ?thesis unfolding timedelta_seconds_def round_half_even_def Let_def
    by (simp only: floor_of_int) simp
qed

section \<open>Python values\<close>

datatype pyval =
    PNone
  | PBool bool
  | PInt int
  | PFloat real
  | PStr string
  | PList "pyval list"
  | PDict "(string \<times> pyval) list"
  | PTime datetime
  | POpaque string

text \<open>\<^verbatim>\<open>PTime\<close> is a \<^verbatim>\<open>datetime\<close>; \<^verbatim>\<open>POpaque\<close> is any other object, of which the code only ever
  observes its \<^verbatim>\<open>str()\<close>.\<close>

type_synonym pydict = "(string \<times> pyval) list"

text \<open>\<^verbatim>\<open>bool(v)\<close>.\<close>

fun truthy :: "pyval \<Rightarrow> bool" where
  "truthy PNone = False"
| "truthy (PBool b) = b"
| "truthy (PInt i) = (i \<noteq> 0)"
| "truthy (PFloat r) = (r \<noteq> 0)"
| "truthy (PStr s) = (s \<noteq> [])"
| "truthy (PList xs) = (xs \<noteq> [])"
| "truthy (PDict d) = (d \<noteq> [])"
| "truthy (PTime t) = True"
| "truthy (POpaque s) = True"

text \<open>\<^verbatim>\<open>d.get(k)\<close> on a dictionary, and \<^verbatim>\<open>(block or {}).get(k)\<close> on an optional one.\<close>

definition dget :: "pydict \<Rightarrow> string \<Rightarrow> pyval" where
  "dget d k = (case map_of d k of None \<Rightarrow> PNone | Some v \<Rightarrow> v)"

definition bget :: "pydict option \<Rightarrow> string \<Rightarrow> pyval" where
  "bget b k = (case b of None \<Rightarrow> PNone | Some d \<Rightarrow> dget d k)"

lemma dget_Nil [simp]: "dget [] k = PNone"
  by (simp add: dget_def)

lemma dget_Cons [simp]: "dget ((a, v) # d) k = (if k = a then v else dget d k)"
  by (simp add: dget_def)

lemma bget_simps [simp]: "bget None k = PNone" "bget (Some d) k = dget d k"
  by (simp_all add: bget_def)

section \<open>Tables\<close>

text \<open>
  A SQL table with a primary key is an association list without repeated keys, in insertion
  order. \<open>upsert\<close> is \<^verbatim>\<open>INSERT ... ON CONFLICT (key) DO UPDATE\<close>: a fresh key appends the inserted
  row, a present key rewrites its row in place.
\<close>

type_synonym ('k, 'r) table = "('k \<times> 'r) list"

definition upsert :: "'k \<Rightarrow> 'r \<Rightarrow> ('r \<Rightarrow> 'r) \<Rightarrow> ('k, 'r) table \<Rightarrow> ('k, 'r) table" where
  "upsert k ins upd t =
     (case map_of t k of None \<Rightarrow> AList.update k ins t | Some r \<Rightarrow> AList.update k (upd r) t)"

text \<open>\<^verbatim>\<open>UPDATE ... WHERE\<close> over every row, and \<^verbatim>\<open>DELETE ... WHERE\<close>.\<close>

definition update_where :: "('k \<Rightarrow> 'r \<Rightarrow> bool) \<Rightarrow> ('r \<Rightarrow> 'r) \<Rightarrow> ('k, 'r) table \<Rightarrow> ('k, 'r) table" where
  "update_where p f t = map (\<lambda>(k, r). (k, if p k r then f r else r)) t"

definition delete_where :: "('k \<Rightarrow> 'r \<Rightarrow> bool) \<Rightarrow> ('k, 'r) table \<Rightarrow> ('k, 'r) table" where
  "delete_where p t = filter (\<lambda>(k, r). \<not> p k r) t"

abbreviation keys :: "('k, 'r) table \<Rightarrow> 'k list" where
  "keys t \<equiv> map fst t"

abbreviation wf_table :: "('k, 'r) table \<Rightarrow> bool" where
  "wf_table t \<equiv> distinct (map fst t)"

lemma map_of_upsert [table_simps]:
  "map_of (upsert k ins upd t) =
     (map_of t)(k \<mapsto> (case map_of t k of None \<Rightarrow> ins | Some r \<Rightarrow> upd r))"
  by (simp add: upsert_def update_conv' split: option.split)

lemma wf_upsert [simp, intro]: "wf_table t \<Longrightarrow> wf_table (upsert k ins upd t)"
  by (simp add: upsert_def distinct_update split: option.split)

lemma keys_update_where [simp]: "map fst (update_where p f t) = map fst t"
  by (induction t) (auto simp: update_where_def)

lemma map_of_update_where [table_simps]:
  "map_of (update_where p f t) k = map_option (\<lambda>r. if p k r then f r else r) (map_of t k)"
  by (induction t) (auto simp: update_where_def)

lemma wf_delete_where [simp, intro]: "wf_table t \<Longrightarrow> wf_table (delete_where p t)"
  by (simp add: delete_where_def distinct_map_filter)

lemma map_of_delete_where [table_simps]:
  "wf_table t \<Longrightarrow> map_of (delete_where p t) k =
     (case map_of t k of None \<Rightarrow> None | Some r \<Rightarrow> if p k r then None else Some r)"
proof (induction t)
  case Nil
  then show ?case by (simp add: delete_where_def)
next
  case (Cons a t)
  obtain k' r' where [simp]: "a = (k', r')" by (cases a)
  from Cons.prems have "map_of t k' = None" by (simp add: map_of_eq_None_iff)
  with Cons show ?case by (auto simp: delete_where_def split: option.splits)
qed

lemma wf_alist_update [simp, intro]: "wf_table t \<Longrightarrow> wf_table (AList.update k r t)"
  by (rule distinct_update)

lemma map_of_alist_update [table_simps]: "map_of (AList.update k r t) = (map_of t)(k \<mapsto> r)"
  by (rule update_conv')

lemma wf_alist_delete [simp, intro]: "wf_table t \<Longrightarrow> wf_table (AList.delete k t)"
  by (rule distinct_delete)

lemma map_of_alist_delete [table_simps]: "map_of (AList.delete k t) = (map_of t)(k := None)"
  by (rule delete_conv')

section \<open>Bounded deques\<close>

text \<open>\<^verbatim>\<open>deque(maxlen=cap).append(x)\<close>: the oldest elements fall off the left end.\<close>

definition ring_push :: "nat \<Rightarrow> 'a list \<Rightarrow> 'a \<Rightarrow> 'a list" where
  "ring_push cap xs x = drop (Suc (length xs) - cap) (xs @ [x])"

text \<open>\<^verbatim>\<open>xs[-cap:]\<close> for a positive \<^verbatim>\<open>cap\<close>.\<close>

definition last_n :: "nat \<Rightarrow> 'a list \<Rightarrow> 'a list" where
  "last_n cap xs = drop (length xs - cap) xs"

lemma length_ring_push [ring_simps]: "length (ring_push cap xs x) = min cap (Suc (length xs))"
  by (simp add: ring_push_def)

lemma ring_push_le [simp, intro]: "length (ring_push cap xs x) \<le> cap"
  by (simp add: length_ring_push)

lemma ring_push_last_n [ring_simps]: "ring_push cap xs x = last_n cap (xs @ [x])"
  by (simp add: ring_push_def last_n_def)

lemma length_last_n [ring_simps]: "length (last_n cap xs) = min cap (length xs)"
  by (simp add: last_n_def)

lemma set_ring_push: "set (ring_push cap xs x) \<subseteq> insert x (set xs)"
  unfolding ring_push_def by (auto dest!: in_set_dropD)

lemma last_n_snoc: "last_n cap (last_n cap xs @ [x]) = last_n cap (xs @ [x])"
  by (cases "cap \<le> length xs") (auto simp: last_n_def Suc_diff_le)

text \<open>Pushing a whole sequence leaves the last \<open>cap\<close> elements of the history.\<close>

lemma foldl_ring_push [ring_simps]:
  "foldl (ring_push cap) (last_n cap xs) ys = last_n cap (xs @ ys)"
proof (induction ys arbitrary: xs)
  case Nil
  then show ?case by simp
next
  case (Cons y ys)
  have "ring_push cap (last_n cap xs) y = last_n cap (xs @ [y])"
    by (simp add: ring_push_last_n last_n_snoc)
  with Cons.IH [of "xs @ [y]"] show ?case by simp
qed

section \<open>Lists\<close>

text \<open>On a list sorted by time, dropping an expired prefix keeps exactly the live elements.\<close>

lemma dropWhile_sorted_filter:
  assumes "sorted xs" and "\<And>x y. x \<le> y \<Longrightarrow> P y \<Longrightarrow> P x"
  shows "dropWhile P xs = filter (\<lambda>x. \<not> P x) xs"
  using assms(1)
proof (induction xs)
  case Nil
  then show ?case by simp
next
  case (Cons x xs)
  show ?case
  proof (cases "P x")
    case True
    with Cons show ?thesis by simp
  next
    case False
    with Cons.prems assms(2) have "\<forall>y\<in>set (x # xs). \<not> P y" by auto
    then have "filter (\<lambda>x. \<not> P x) (x # xs) = x # xs" by (simp add: filter_id_conv)
    with False show ?thesis by simp
  qed
qed

lemma sorted_snocI: "sorted xs \<Longrightarrow> (\<forall>x\<in>set xs. x \<le> y) \<Longrightarrow> sorted (xs @ [y])"
  by (simp add: sorted_append)

end
