(* ===== verification/Rate_Limit.thy ===== *)
theory Rate_Limit
  imports Prelude
begin

text \<open>
  The in-process rate limiters of \<^verbatim>\<open>inspectord/ratelimit.py\<close>. Each call reads the monotonic clock
  once; the reading is an argument. The thread lock of \<^verbatim>\<open>SlidingWindowLimiter\<close> makes one call one
  atomic step, so a history of calls is a list of clock readings.
\<close>

section \<open>Token bucket\<close>

record token_bucket =
  rate_per_s :: real
  capacity :: int
  bucket_tokens :: real
  bucket_last :: real

definition token_bucket_init :: "real \<Rightarrow> int \<Rightarrow> real \<Rightarrow> token_bucket" where
  "token_bucket_init rate cap now =
     \<lparr>rate_per_s = rate, capacity = cap, bucket_tokens = of_int cap, bucket_last = now\<rparr>"

definition try_take :: "real \<Rightarrow> real \<Rightarrow> token_bucket \<Rightarrow> bool \<times> token_bucket" where
  "try_take now n b =
     (let elapsed = now - bucket_last b;
          b1 = b\<lparr>bucket_last := now\<rparr>;
          b2 = b1\<lparr>bucket_tokens :=
                    min (of_int (capacity b1)) (bucket_tokens b1 + elapsed * rate_per_s b1)\<rparr>
      in if bucket_tokens b2 \<ge> n then (True, b2\<lparr>bucket_tokens := bucket_tokens b2 - n\<rparr>)
         else (False, b2))"

text \<open>A history of calls \<open>(now, n)\<close>: the amounts granted and the final bucket.\<close>

fun take_run :: "(real \<times> real) list \<Rightarrow> token_bucket \<Rightarrow> real \<times> token_bucket" where
  "take_run [] b = (0, b)"
| "take_run ((now, n) # cs) b =
     (let (ok, b') = try_take now n b; (granted, b'') = take_run cs b'
      in ((if ok then n else 0) + granted, b''))"

text \<open>The clock readings of a history never go back, starting from a given instant.\<close>

fun clock_ok :: "real \<Rightarrow> real list \<Rightarrow> bool" where
  "clock_ok t [] = True"
| "clock_ok t (u # us) = (t \<le> u \<and> clock_ok u us)"

fun last_clock :: "real \<Rightarrow> real list \<Rightarrow> real" where
  "last_clock t [] = t"
| "last_clock t (u # us) = last_clock u us"

definition bucket_inv :: "token_bucket \<Rightarrow> bool" where
  "bucket_inv b \<longleftrightarrow> 0 \<le> rate_per_s b \<and> 0 \<le> bucket_tokens b \<and> bucket_tokens b \<le> of_int (capacity b)"

section \<open>Sliding window\<close>

record sliding_window =
  sw_limit :: int
  sw_window_s :: real
  sw_stamps :: "real list"
  sw_rejection_audited :: bool

definition sliding_window_init :: "int \<Rightarrow> real \<Rightarrow> sliding_window" where
  "sliding_window_init limit w =
     \<lparr>sw_limit = limit, sw_window_s = w, sw_stamps = [], sw_rejection_audited = False\<rparr>"

text \<open>\<^verbatim>\<open>check()\<close> returns \<^verbatim>\<open>(allowed, audit_this_rejection)\<close>.\<close>

definition sw_check :: "real \<Rightarrow> sliding_window \<Rightarrow> (bool \<times> bool) \<times> sliding_window" where
  "sw_check now s =
     (let s1 = s\<lparr>sw_stamps := dropWhile (\<lambda>t. now - t \<ge> sw_window_s s) (sw_stamps s)\<rparr>
      in if int (length (sw_stamps s1)) < sw_limit s1
         then ((True, False), s1\<lparr>sw_stamps := sw_stamps s1 @ [now], sw_rejection_audited := False\<rparr>)
         else if sw_rejection_audited s1 then ((False, False), s1)
         else ((False, True), s1\<lparr>sw_rejection_audited := True\<rparr>))"

fun sw_run :: "real list \<Rightarrow> sliding_window \<Rightarrow> (bool \<times> bool) list \<times> sliding_window" where
  "sw_run [] s = ([], s)"
| "sw_run (t # ts) s =
     (let (r, s') = sw_check t s; (rs, s'') = sw_run ts s' in (r # rs, s''))"

text \<open>The instants at which a history was allowed.\<close>

definition allowed_at :: "real list \<Rightarrow> (bool \<times> bool) list \<Rightarrow> real list" where
  "allowed_at ts rs = map fst (filter (\<lambda>(t, allowed, _). allowed) (zip ts rs))"

section \<open>Token bucket: lemmas\<close>

lemma try_take_inv:
  assumes "bucket_inv b" and "bucket_last b \<le> now" and "0 \<le> n"
  shows "bucket_inv (snd (try_take now n b))"
proof -
  have "0 \<le> (now - bucket_last b) * rate_per_s b"
    using assms by (simp add: bucket_inv_def)
  with assms show ?thesis by (auto simp: bucket_inv_def try_take_def Let_def)
qed

lemma try_take_frame:
  "rate_per_s (snd (try_take now n b)) = rate_per_s b"
  "capacity (snd (try_take now n b)) = capacity b"
  "bucket_last (snd (try_take now n b)) = now"
  by (simp_all add: try_take_def Let_def)

text \<open>One call conserves tokens: what is granted plus what is left never exceeds the refill.\<close>

lemma try_take_conserves:
  "(if fst (try_take now n b) then n else 0) + bucket_tokens (snd (try_take now n b))
     \<le> bucket_tokens b + (now - bucket_last b) * rate_per_s b"
  by (auto simp: try_take_def Let_def)

lemma take_run_conserves:
  assumes "bucket_inv b" and "clock_ok (bucket_last b) (map fst cs)" and "\<forall>(_, n)\<in>set cs. 0 \<le> n"
  shows "bucket_inv (snd (take_run cs b)) \<and>
     fst (take_run cs b) + bucket_tokens (snd (take_run cs b))
       \<le> bucket_tokens b + (last_clock (bucket_last b) (map fst cs) - bucket_last b) * rate_per_s b"
  using assms
proof (induction cs arbitrary: b)
  case Nil
  then show ?case by simp
next
  case (Cons c cs)
  obtain now n where c: "c = (now, n)" by (cases c)
  obtain ok b' where b': "try_take now n b = (ok, b')" by (cases "try_take now n b")
  obtain g b'' where b'': "take_run cs b' = (g, b'')" by (cases "take_run cs b'")
  have frame: "rate_per_s b' = rate_per_s b" "bucket_last b' = now"
    using try_take_frame [of now n b] b' by simp_all
  have inv: "bucket_inv b'"
    using try_take_inv [of b now n] Cons.prems b' c by auto
  have IH: "bucket_inv b'' \<and> g + bucket_tokens b''
      \<le> bucket_tokens b' + (last_clock now (map fst cs) - now) * rate_per_s b"
    using Cons.IH [OF inv] Cons.prems frame b'' c by auto
  have "(if ok then n else 0) + bucket_tokens b'
      \<le> bucket_tokens b + (now - bucket_last b) * rate_per_s b"
    using try_take_conserves [of now n b] b' by simp
  with IH show ?case by (simp add: c b' b'' algebra_simps)
qed

section \<open>Sliding window: lemmas\<close>

text \<open>
  The state after a history of calls, related to the instants at which calls were allowed: the
  deque holds exactly the allowed instants that are still inside the window of the last call.
\<close>

definition sw_rel :: "real \<Rightarrow> real list \<Rightarrow> sliding_window \<Rightarrow> bool" where
  "sw_rel now hist s \<longleftrightarrow>
     sorted hist \<and> (\<forall>t\<in>set hist. t \<le> now) \<and>
     sw_stamps s = filter (\<lambda>t. now - t < sw_window_s s) hist \<and>
     int (length (sw_stamps s)) \<le> max 0 (sw_limit s)"

lemma sw_check_frame:
  "sw_limit (snd (sw_check t s)) = sw_limit s" "sw_window_s (snd (sw_check t s)) = sw_window_s s"
  by (simp_all add: sw_check_def Let_def)

lemma sw_expire:
  assumes "sw_rel now hist s" and "now \<le> t"
  shows "dropWhile (\<lambda>u. t - u \<ge> sw_window_s s) (sw_stamps s)
           = filter (\<lambda>u. t - u < sw_window_s s) hist"
proof -
  have "sorted (sw_stamps s)" using assms sorted_filter [of "\<lambda>t. t" hist] by (simp add: sw_rel_def)
  then have "dropWhile (\<lambda>u. t - u \<ge> sw_window_s s) (sw_stamps s)
      = filter (\<lambda>u. \<not> t - u \<ge> sw_window_s s) (sw_stamps s)"
    by (rule dropWhile_sorted_filter) simp
  also have "\<dots> = filter (\<lambda>u. t - u < sw_window_s s) hist"
    using assms by (auto simp: sw_rel_def intro!: filter_cong)
  finally show ?thesis .
qed

lemma sw_check_rel:
  assumes rel: "sw_rel now hist s" and "now \<le> t" and w: "0 < sw_window_s s"
  shows "sw_rel t (if fst (fst (sw_check t s)) then hist @ [t] else hist) (snd (sw_check t s))"
proof -
  let ?live = "filter (\<lambda>u. t - u < sw_window_s s) hist"
  have ex: "dropWhile (\<lambda>u. sw_window_s s \<le> t - u) (sw_stamps s) = ?live"
    using sw_expire [OF rel \<open>now \<le> t\<close>] by simp
  have hist: "sorted hist" "\<forall>u\<in>set hist. u \<le> t"
    using rel \<open>now \<le> t\<close> by (auto simp: sw_rel_def)
  have "length ?live \<le> length (sw_stamps s)"
    using length_dropWhile_le [of "\<lambda>u. sw_window_s s \<le> t - u" "sw_stamps s"] ex by simp
  then have len: "int (length ?live) \<le> max 0 (sw_limit s)"
    using rel unfolding sw_rel_def by linarith
  show ?thesis
    using hist len w by (auto simp: sw_check_def Let_def ex sw_rel_def sorted_append)
qed

lemma allowed_at_simps [simp]:
  "allowed_at [] rs = []"
  "allowed_at (t # ts) ((True, a) # rs) = t # allowed_at ts rs"
  "allowed_at (t # ts) ((False, a) # rs) = allowed_at ts rs"
  by (simp_all add: allowed_at_def)

text \<open>
  Over any history, the allowed instants of a window of the configured width never exceed the
  limit. The induction carries the instants allowed before the history started.
\<close>

lemma sw_run_window:
  assumes "sw_rel now hist s" and "clock_ok now ts" and "0 < sw_window_s s"
    and "int (length (filter (\<lambda>t. a \<le> t \<and> t < a + sw_window_s s) hist)) \<le> max 0 (sw_limit s)"
  shows "int (length (filter (\<lambda>t. a \<le> t \<and> t < a + sw_window_s s)
            (hist @ allowed_at ts (fst (sw_run ts s))))) \<le> max 0 (sw_limit s)"
  using assms
proof (induction ts arbitrary: now hist s)
  case Nil
  then show ?case by simp
next
  case (Cons t ts)
  obtain allowed aud s' where c: "sw_check t s = ((allowed, aud), s')"
    by (metis prod.exhaust)
  have frame: "sw_limit s' = sw_limit s" "sw_window_s s' = sw_window_s s"
    using sw_check_frame [of t s] c by simp_all
  let ?hist = "if allowed then hist @ [t] else hist"
  have rel: "sw_rel t ?hist s'"
    using sw_check_rel [of now hist s t] Cons.prems c by simp
  have "int (length (filter (\<lambda>u. a \<le> u \<and> u < a + sw_window_s s) ?hist)) \<le> max 0 (sw_limit s)"
  proof (cases "allowed \<and> a \<le> t \<and> t < a + sw_window_s s")
    case True
    then have "filter (\<lambda>u. a \<le> u \<and> u < a + sw_window_s s) ?hist
        = filter (\<lambda>u. a \<le> u \<and> u < a + sw_window_s s) (sw_stamps s')"
      using rel frame by (auto simp: sw_rel_def intro!: filter_cong)
    moreover have "length (filter (\<lambda>u. a \<le> u \<and> u < a + sw_window_s s) (sw_stamps s'))
        \<le> length (sw_stamps s')" by (rule length_filter_le)
    moreover have "int (length (sw_stamps s')) \<le> max 0 (sw_limit s)"
      using rel unfolding sw_rel_def frame by blast
    ultimately show ?thesis by (metis of_nat_mono order_trans)
  next
    case False
    with Cons.prems(4) show ?thesis by auto
  qed
  with Cons.IH [OF rel] Cons.prems(2,3) frame
  have "int (length (filter (\<lambda>u. a \<le> u \<and> u < a + sw_window_s s)
      (?hist @ allowed_at ts (fst (sw_run ts s'))))) \<le> max 0 (sw_limit s)" by simp
  then show ?case
    by (cases allowed) (simp_all add: c split_beta)
qed

text \<open>While the flag is set no rejection is audited; an allowed call clears it.\<close>

lemma sw_run_audits:
  "(if sw_rejection_audited s then \<exists>i<j. fst (fst (sw_run ts s) ! i) else True) \<or>
     j \<ge> length ts \<or> \<not> snd (fst (sw_run ts s) ! j)"
proof (induction ts arbitrary: s j)
  case Nil
  then show ?case by simp
next
  case (Cons t ts)
  obtain al aud s' where c: "sw_check t s = ((al, aud), s')"
    by (metis prod.exhaust)
  show ?case
  proof (cases j)
    case 0
    have "sw_rejection_audited s \<Longrightarrow> \<not> aud"
      using c by (auto simp: sw_check_def Let_def split: if_splits)
    with 0 show ?thesis by (auto simp: c split_beta)
  next
    case (Suc i)
    have keep: "sw_rejection_audited s \<Longrightarrow> \<not> al \<Longrightarrow> sw_rejection_audited s'"
      using c by (auto simp: sw_check_def Let_def split: if_splits)
    have "\<exists>i<Suc i. P i" if "\<exists>k<i. P (Suc k)" for P :: "nat \<Rightarrow> bool"
      using that by auto
    with Cons.IH [of s' i] keep show ?thesis
      by (cases al) (auto simp: c Suc split_beta split: if_splits)
  qed
qed

lemma sw_audit_flag: "snd (fst (sw_check t s)) \<Longrightarrow> sw_rejection_audited (snd (sw_check t s))"
  by (auto simp: sw_check_def Let_def split: if_splits)

lemma sw_run_audit_pair:
  assumes "i < j" and "j < length ts"
    and "snd (fst (sw_run ts s) ! i)" and "snd (fst (sw_run ts s) ! j)"
  shows "\<exists>k. i < k \<and> k < j \<and> fst (fst (sw_run ts s) ! k)"
  using assms
proof (induction ts arbitrary: s i j)
  case Nil
  then show ?case by simp
next
  case (Cons t ts)
  obtain r s' where c: "sw_check t s = (r, s')" by (cases "sw_check t s")
  obtain j' where j: "j = Suc j'" using Cons.prems(1) by (cases j) auto
  have up: "\<exists>k. Suc l < k \<and> k < Suc m \<and> fst ((r # rs) ! k)"
    if "\<exists>k. l < k \<and> k < m \<and> fst (rs ! k)" for l m rs
    using that by (metis Suc_mono nth_Cons_Suc)
  show ?case
  proof (cases i)
    case 0
    then have "sw_rejection_audited s'"
      using Cons.prems sw_audit_flag [of t s] c by (simp add: split_beta)
    with sw_run_audits [of s' j' ts] Cons.prems(2,4)
    obtain k where "k < j'" "fst (fst (sw_run ts s') ! k)"
      by (auto simp: j c split_beta)
    then show ?thesis by (intro exI [of _ "Suc k"]) (simp add: 0 j c split_beta)
  next
    case (Suc i')
    with Cons.IH [of i' j' s'] Cons.prems up [of i' j' "fst (sw_run ts s')"]
    show ?thesis by (simp add: j c split_beta)
  qed
qed

section \<open>Properties\<close>

text \<open>over any history of calls with a non-decreasing clock, the amount a token bucket grants
  is at most its capacity plus the refill rate times the elapsed time.\<close>

theorem token_bucket_bounds_grants:
  assumes "0 \<le> rate" and "0 \<le> cap" and "clock_ok t0 (map fst cs)" and "\<forall>(_, n)\<in>set cs. 0 \<le> n"
  shows "fst (take_run cs (token_bucket_init rate cap t0))
           \<le> of_int cap + rate * (last_clock t0 (map fst cs) - t0)"
proof -
  let ?b = "token_bucket_init rate cap t0"
  have "bucket_inv ?b" using assms by (simp add: bucket_inv_def token_bucket_init_def)
  then have "bucket_inv (snd (take_run cs ?b)) \<and> fst (take_run cs ?b) + bucket_tokens (snd (take_run cs ?b))
      \<le> bucket_tokens ?b + (last_clock (bucket_last ?b) (map fst cs) - bucket_last ?b) * rate_per_s ?b"
    by (rule take_run_conserves) (use assms in \<open>simp_all add: token_bucket_init_def\<close>)
  then show ?thesis by (simp add: bucket_inv_def token_bucket_init_def algebra_simps)
qed

theorem token_bucket_bounds_grants_witness:
  "fst (take_run [(0, 1), (1 / 2, 1), (1, 1), (1, 1)] (token_bucket_init 1 2 0)) = 3
   \<and> (3 :: real) \<le> 2 + 1 * (1 - 0)"
  using token_bucket_bounds_grants [of 1 2 0 "[(0, 1), (1 / 2, 1), (1, 1), (1, 1)]"]
  by (simp add: token_bucket_init_def try_take_def Let_def)

text \<open>whatever the pattern of calls, no window of the configured width contains more allowed
  calls than the limit.\<close>

theorem sliding_window_never_exceeds_limit:
  assumes "0 < w" and "clock_ok t0 ts"
  shows "int (length (filter (\<lambda>t. a \<le> t \<and> t < a + w)
            (allowed_at ts (fst (sw_run ts (sliding_window_init limit w)))))) \<le> max 0 limit"
  using sw_run_window [of t0 "[]" "sliding_window_init limit w" ts a] assms
  by (simp add: sw_rel_def sliding_window_init_def)

theorem sliding_window_never_exceeds_limit_witness:
  "allowed_at [0, 1, 2, 61] (fst (sw_run [0, 1, 2, 61] (sliding_window_init 2 60))) = [0, 1, 61]
   \<and> int (length (filter (\<lambda>t. 1 \<le> t \<and> t < 1 + 60)
        (allowed_at [0, 1, 2, 61] (fst (sw_run [0, 1, 2, 61] (sliding_window_init 2 60)))))) \<le> max 0 2"
  using sliding_window_never_exceeds_limit [of 60 0 "[0, 1, 2, 61]" 1 2]
  by (simp add: sliding_window_init_def sw_check_def Let_def)

text \<open>however hard a client hammers, two audited rejections always have an allowed call between
  them, so one saturated window writes one audit row.\<close>

theorem one_audited_rejection_per_saturation:
  assumes "i < j" and "j < length ts"
    and "snd (fst (sw_run ts s) ! i)" and "snd (fst (sw_run ts s) ! j)"
  shows "\<exists>k. i < k \<and> k < j \<and> fst (fst (sw_run ts s) ! k)"
  using assms by (rule sw_run_audit_pair)

theorem one_audited_rejection_per_saturation_witness:
  "fst (sw_run [0, 1, 2, 60, 61] (sliding_window_init 1 60))
     = [(True, False), (False, True), (False, False), (True, False), (False, True)]
   \<and> (\<exists>k. 1 < k \<and> k < 4 \<and> fst (fst (sw_run [0, 1, 2, 60, 61] (sliding_window_init 1 60)) ! k))"
proof -
  have run: "fst (sw_run [0, 1, 2, 60, 61] (sliding_window_init 1 60))
     = [(True, False), (False, True), (False, False), (True, False), (False, True)]"
    by (simp add: sliding_window_init_def sw_check_def Let_def)
  show ?thesis
    using run one_audited_rejection_per_saturation
      [of 1 4 "[0, 1, 2, 60, 61]" "sliding_window_init 1 60"]
    by simp
qed

end
