(* ===== verification/Events.thy ===== *)
theory Events
  imports Prelude
begin

text \<open>
  The normalised event of \<^verbatim>\<open>inspectord/schemas/event.py\<close>, the rule match of
  \<^verbatim>\<open>inspectord/rules/base.py\<close>, the alert of \<^verbatim>\<open>inspectord/schemas/alert.py\<close> and the allowlist entry of
  \<^verbatim>\<open>inspectord/schemas/allowlist.py\<close>. Field names carry a prefix per record, because Isabelle's
  record selectors share one name space. Each optional block of an event is a dictionary or absent.
\<close>

datatype event_kind = Kind_event | Kind_alert | Kind_signal | Kind_state | Kind_metric

datatype severity = Info | Low | Medium | High | Critical

datatype outcome = Success | Failure | Unknown

text \<open>The enumerations are \<^verbatim>\<open>StrEnum\<close>s: a member is its value string.\<close>

fun event_kind_value :: "event_kind \<Rightarrow> string" where
  "event_kind_value Kind_event = ''event''"
| "event_kind_value Kind_alert = ''alert''"
| "event_kind_value Kind_signal = ''signal''"
| "event_kind_value Kind_state = ''state''"
| "event_kind_value Kind_metric = ''metric''"

fun severity_value :: "severity \<Rightarrow> string" where
  "severity_value Info = ''info''"
| "severity_value Low = ''low''"
| "severity_value Medium = ''medium''"
| "severity_value High = ''high''"
| "severity_value Critical = ''critical''"

fun outcome_value :: "outcome \<Rightarrow> string" where
  "outcome_value Success = ''success''"
| "outcome_value Failure = ''failure''"
| "outcome_value Unknown = ''unknown''"

text \<open>\<^verbatim>\<open>Severity(s)\<close> raises \<^verbatim>\<open>ValueError\<close> (here \<open>None\<close>) on any other string.\<close>

definition severity_of :: "string \<Rightarrow> severity option" where
  "severity_of s = find (\<lambda>v. severity_value v = s) [Info, Low, Medium, High, Critical]"

record event =
  ev_schema_version :: string
  ev_ts :: datetime
  ev_id :: string
  ev_kind :: event_kind
  ev_category :: "string list"
  ev_type :: "string list"
  ev_action :: string
  ev_outcome :: "outcome option"
  ev_severity :: severity
  ev_module :: string
  ev_first_seen :: bool
  ev_host :: "pydict option"
  ev_user :: "pydict option"
  ev_process :: "pydict option"
  ev_file :: "pydict option"
  ev_source :: "pydict option"
  ev_destination :: "pydict option"
  ev_network :: "pydict option"
  ev_service :: "pydict option"
  ev_package :: "pydict option"
  ev_device :: "pydict option"
  ev_persistence :: "pydict option"
  ev_vulnerability :: "pydict option"
  ev_hunt :: "pydict option"
  ev_rule :: "pydict option"
  ev_threat :: "pydict option"
  ev_baseline :: "pydict option"
  ev_evidence :: "pydict option"
  ev_raw :: "pydict option"
  ev_labels :: "string list"
  ev_message :: "string option"

text \<open>An event with every optional field at its default, the base of the concrete examples.\<close>

definition mk_event :: "datetime \<Rightarrow> string \<Rightarrow> string \<Rightarrow> string \<Rightarrow> severity \<Rightarrow> event" where
  "mk_event ts i md action sev =
     \<lparr>ev_schema_version = ''1.0.0'', ev_ts = ts, ev_id = i, ev_kind = Kind_event, ev_category = [],
      ev_type = [], ev_action = action, ev_outcome = None, ev_severity = sev, ev_module = md,
      ev_first_seen = False, ev_host = None, ev_user = None, ev_process = None, ev_file = None,
      ev_source = None, ev_destination = None, ev_network = None, ev_service = None,
      ev_package = None, ev_device = None, ev_persistence = None, ev_vulnerability = None,
      ev_hunt = None, ev_rule = None, ev_threat = None, ev_baseline = None, ev_evidence = None,
      ev_raw = None, ev_labels = [], ev_message = None\<rparr>"

lemma mk_event_simps [simp]:
  "ev_ts (mk_event ts i m a v) = ts" "ev_id (mk_event ts i m a v) = i"
  "ev_module (mk_event ts i m a v) = m" "ev_action (mk_event ts i m a v) = a"
  "ev_severity (mk_event ts i m a v) = v" "ev_first_seen (mk_event ts i m a v) = False"
  "ev_process (mk_event ts i m a v) = None" "ev_file (mk_event ts i m a v) = None"
  "ev_source (mk_event ts i m a v) = None" "ev_user (mk_event ts i m a v) = None"
  "ev_raw (mk_event ts i m a v) = None" "ev_vulnerability (mk_event ts i m a v) = None"
  "ev_baseline (mk_event ts i m a v) = None" "ev_hunt (mk_event ts i m a v) = None"
  "ev_destination (mk_event ts i m a v) = None" "ev_network (mk_event ts i m a v) = None"
  "ev_service (mk_event ts i m a v) = None" "ev_device (mk_event ts i m a v) = None"
  "ev_persistence (mk_event ts i m a v) = None" "ev_threat (mk_event ts i m a v) = None"
  "ev_category (mk_event ts i m a v) = []" "ev_message (mk_event ts i m a v) = None"
  by (simp_all add: mk_event_def)

section \<open>Matches and alerts\<close>

record rule_match =
  m_rule_id :: string
  m_severity :: string
  m_category :: string
  m_dedup_key :: string
  m_entity_kind :: string
  m_entity_key :: string
  m_short :: string
  m_detail :: string
  m_rule_name :: string
  m_why :: string
  m_false_positives :: "pyval list"
  m_event_ids :: "string list"
  m_labels :: "pyval list"
  m_dedup_window_s :: "real option"

definition mk_match :: "string \<Rightarrow> string \<Rightarrow> string \<Rightarrow> string \<Rightarrow> string \<Rightarrow> real option \<Rightarrow> rule_match" where
  "mk_match rule sev kind key dedup window =
     \<lparr>m_rule_id = rule, m_severity = sev, m_category = ''c'', m_dedup_key = dedup, m_entity_kind = kind,
      m_entity_key = key, m_short = '''', m_detail = '''', m_rule_name = rule, m_why = '''',
      m_false_positives = [], m_event_ids = [], m_labels = [], m_dedup_window_s = window\<rparr>"

record eval_context =
  ctx_event :: event
  ctx_history :: "event list"

definition recent_events :: "eval_context \<Rightarrow> timedelta \<Rightarrow> event list" where
  "recent_events ctx window =
     (let cutoff = ev_ts (ctx_event ctx) - window
      in filter (\<lambda>e. ev_ts e \<ge> cutoff) (ctx_history ctx))"

datatype alert_status = New | Acknowledged | Resolved | Suppressed

fun alert_status_value :: "alert_status \<Rightarrow> string" where
  "alert_status_value New = ''new''"
| "alert_status_value Acknowledged = ''acknowledged''"
| "alert_status_value Resolved = ''resolved''"
| "alert_status_value Suppressed = ''suppressed''"

record rule_ref =
  rr_id :: string
  rr_name :: string
  rr_ruleset :: string
  rr_version :: string
  rr_severity :: severity
  rr_why :: string
  rr_false_positives :: "string list"

record entity_ref =
  ent_kind :: string
  ent_key :: string

record rendered_alert =
  rend_short :: string
  rend_detail :: string

record alert =
  al_schema_version :: string
  al_id :: string
  al_rule :: rule_ref
  al_ts :: datetime
  al_severity :: severity
  al_status :: alert_status
  al_category :: string
  al_event_ids :: "string list"
  al_entities :: "entity_ref list"
  al_incident_id :: "string option"
  al_dedup_key :: string
  al_dedup_count :: int
  al_first_seen_at :: datetime
  al_last_seen_at :: datetime
  al_evidence_case_id :: "string option"
  al_notes :: "pydict list"
  al_labels :: "string list"
  al_rendered :: rendered_alert

section \<open>Allowlist entries\<close>

record allowlist_scope =
  sc_rule_id :: "string option"
  sc_entity :: "entity_ref option"
  sc_user_id :: "int option"
  sc_path_glob :: "string option"

record allowlist_entry =
  ae_id :: string
  ae_scope :: allowlist_scope
  ae_reason :: string
  ae_created_by :: string
  ae_created_at :: datetime
  ae_expires_at :: "datetime option"
  ae_auto_origin :: bool
  ae_suppressed_count :: int
  ae_last_suppressed_at :: "datetime option"

lemma severity_of_value [simp]: "severity_of (severity_value v) = Some v"
  by (cases v) (simp_all add: severity_of_def)

lemma severity_of_Some: "severity_of s = Some v \<Longrightarrow> severity_value v = s"
  by (auto simp: severity_of_def split: if_splits)

lemma alert_status_value_inj [simp]: "alert_status_value a = alert_status_value b \<longleftrightarrow> a = b"
  by (cases a; cases b) simp_all

lemma recent_events_subset: "set (recent_events ctx w) \<subseteq> set (ctx_history ctx)"
  by (auto simp: recent_events_def Let_def)

lemma recent_events_ts: "e \<in> set (recent_events ctx w) \<Longrightarrow> ev_ts (ctx_event ctx) - w \<le> ev_ts e"
  by (simp add: recent_events_def Let_def)

end
