(* ===== verification/Router.thy ===== *)
theory Router
  imports Events "HOL-Library.Sublist"
begin

text \<open>
  The event router of \<^verbatim>\<open>inspectord/router.py\<close>: subscriptions with bounded queues and a drop policy.
  \<open>publish\<close> visits the subscriptions in order and stops at the first one that raises
  \<^verbatim>\<open>RouterFull\<close>; the error is a value beside the subscriptions as they stand at that moment.
\<close>

datatype drop_policy = Block | Drop_oldest_non_critical

record subscription =
  sub_name :: string
  queue_size :: int
  sub_policy :: drop_policy
  filter_fn :: "(event \<Rightarrow> bool) option"
  sub_q :: "event list"
  sub_dropped :: nat
  sub_blocked :: nat

text \<open>\<^verbatim>\<open>RouterFull\<close>, with the two messages of the code.\<close>

datatype router_full = Saturated_with_criticals string | Queue_full string

definition new_subscription :: "string \<Rightarrow> int \<Rightarrow> drop_policy \<Rightarrow> (event \<Rightarrow> bool) option \<Rightarrow> subscription" where
  "new_subscription name qsize policy f =
     \<lparr>sub_name = name, queue_size = qsize, sub_policy = policy, filter_fn = f,
      sub_q = [], sub_dropped = 0, sub_blocked = 0\<rparr>"

definition subscribe ::
  "string \<Rightarrow> int \<Rightarrow> drop_policy \<Rightarrow> (event \<Rightarrow> bool) option \<Rightarrow> subscription list \<Rightarrow> subscription list" where
  "subscribe name qsize policy f subs = subs @ [new_subscription name qsize policy f]"

fun remove_first :: "('a \<Rightarrow> bool) \<Rightarrow> 'a list \<Rightarrow> 'a list" where
  "remove_first p [] = []"
| "remove_first p (x # xs) = (if p x then xs else x # remove_first p xs)"

abbreviation non_critical :: "event \<Rightarrow> bool" where
  "non_critical ev \<equiv> ev_severity ev \<noteq> Critical"

definition try_drop_oldest_non_critical :: "subscription \<Rightarrow> bool \<times> subscription" where
  "try_drop_oldest_non_critical s =
     (if \<exists>ev\<in>set (sub_q s). non_critical ev
      then (True, s\<lparr>sub_q := remove_first non_critical (sub_q s), sub_dropped := sub_dropped s + 1\<rparr>)
      else (False, s))"

text \<open>\<^verbatim>\<open>get_nowait\<close>: \<open>None\<close> is \<^verbatim>\<open>QueueEmpty\<close>.\<close>

definition get_nowait :: "subscription \<Rightarrow> (event \<times> subscription) option" where
  "get_nowait s = (case sub_q s of [] \<Rightarrow> None | e # q \<Rightarrow> Some (e, s\<lparr>sub_q := q\<rparr>))"

text \<open>The body of the loop of \<^verbatim>\<open>publish\<close> for one subscription.\<close>

definition offer :: "event \<Rightarrow> subscription \<Rightarrow> router_full option \<times> subscription" where
  "offer ev s =
     (if (case filter_fn s of None \<Rightarrow> False | Some f \<Rightarrow> \<not> f ev) then (None, s)
      else if int (length (sub_q s)) < queue_size s then (None, s\<lparr>sub_q := sub_q s @ [ev]\<rparr>)
      else case sub_policy s of
        Drop_oldest_non_critical \<Rightarrow>
          (let (dropped, s1) = try_drop_oldest_non_critical s
           in if dropped then (None, s1\<lparr>sub_q := sub_q s1 @ [ev]\<rparr>)
              else (Some (Saturated_with_criticals (sub_name s1)), s1\<lparr>sub_blocked := sub_blocked s1 + 1\<rparr>))
      | Block \<Rightarrow> (Some (Queue_full (sub_name s)), s\<lparr>sub_blocked := sub_blocked s + 1\<rparr>))"

fun publish :: "event \<Rightarrow> subscription list \<Rightarrow> router_full option \<times> subscription list" where
  "publish ev [] = (None, [])"
| "publish ev (s # subs) =
     (case offer ev s of
        (Some err, s') \<Rightarrow> (Some err, s' # subs)
      | (None, s') \<Rightarrow> (let (err, subs') = publish ev subs in (err, s' # subs')))"

text \<open>A subscription's life: events offered to it and events taken from it.\<close>

datatype sub_op = Offer event | Get

record sub_trace =
  tr_sub :: subscription
  tr_accepted :: "event list"
  tr_taken :: "event list"

fun sub_step :: "sub_op \<Rightarrow> sub_trace \<Rightarrow> sub_trace" where
  "sub_step (Offer ev) t =
     (let (err, s) = offer ev (tr_sub t);
          wanted = (case filter_fn (tr_sub t) of None \<Rightarrow> True | Some f \<Rightarrow> f ev)
      in t\<lparr>tr_sub := s,
           tr_accepted := (if err = None \<and> wanted then tr_accepted t @ [ev] else tr_accepted t)\<rparr>)"
| "sub_step Get t =
     (case get_nowait (tr_sub t) of
        None \<Rightarrow> t
      | Some (e, s) \<Rightarrow> t\<lparr>tr_sub := s, tr_taken := tr_taken t @ [e]\<rparr>)"

definition sub_run :: "sub_op list \<Rightarrow> subscription \<Rightarrow> sub_trace" where
  "sub_run ops s = fold sub_step ops \<lparr>tr_sub = s, tr_accepted = [], tr_taken = []\<rparr>"

section \<open>Lemmas\<close>

lemma remove_first_length:
  "\<exists>x\<in>set xs. p x \<Longrightarrow> Suc (length (remove_first p xs)) = length xs"
  by (induction xs) auto

lemma remove_first_id: "\<not> (\<exists>x\<in>set xs. p x) \<Longrightarrow> remove_first p xs = xs"
  by (induction xs) auto

lemma subseq_remove_first: "subseq (remove_first p xs) xs"
  by (induction xs) auto

lemma filter_remove_first: "filter (\<lambda>x. \<not> p x) (remove_first p xs) = filter (\<lambda>x. \<not> p x) xs"
  by (induction xs) auto

definition queue_inv :: "subscription \<Rightarrow> bool" where
  "queue_inv s \<longleftrightarrow> int (length (sub_q s)) \<le> max 0 (queue_size s)"

definition criticals :: "event list \<Rightarrow> event list" where
  "criticals q = filter (\<lambda>e. ev_severity e = Critical) q"

lemma criticals_simps [simp]:
  "criticals [] = []" "criticals (xs @ ys) = criticals xs @ criticals ys"
  by (simp_all add: criticals_def)

lemma criticals_remove_first [simp]: "criticals (remove_first non_critical q) = criticals q"
  using filter_remove_first [of non_critical q] by (simp add: criticals_def)

lemmas offer_defs = offer_def try_drop_oldest_non_critical_def Let_def

lemma offer_queue_inv: "queue_inv s \<Longrightarrow> queue_inv (snd (offer ev s))"
  using remove_first_length [of "sub_q s" non_critical]
  by (auto simp: queue_inv_def offer_defs split: drop_policy.splits)

lemma offer_frame:
  "queue_size (snd (offer ev s)) = queue_size s" "filter_fn (snd (offer ev s)) = filter_fn s"
  "sub_name (snd (offer ev s)) = sub_name s" "sub_policy (snd (offer ev s)) = sub_policy s"
  by (auto simp: offer_defs split: drop_policy.splits)

text \<open>A refused offer leaves the queue as it was and counts one blocked event.\<close>

lemma offer_error:
  "fst (offer ev s) = Some err \<Longrightarrow> snd (offer ev s) = s\<lparr>sub_blocked := sub_blocked s + 1\<rparr>"
  by (auto simp: offer_defs split: drop_policy.splits if_splits)

lemma publish_length [simp]: "length (snd (publish ev subs)) = length subs"
  by (induction subs) (auto simp: split_beta split: prod.splits option.splits)

lemma publish_nth:
  "i < length subs \<Longrightarrow> snd (publish ev subs) ! i \<in> {subs ! i, snd (offer ev (subs ! i))}"
proof (induction subs arbitrary: i)
  case Nil
  then show ?case by simp
next
  case (Cons s subs)
  then show ?case
    by (cases i) (auto simp: split_beta split: prod.splits option.splits)
qed

text \<open>What an accepted event does to the queue: it joins at the tail, and at most one older
  non-critical event leaves.\<close>

lemma offer_accepts:
  assumes "fst (offer ev s) = None" and "case filter_fn s of None \<Rightarrow> True | Some f \<Rightarrow> f ev"
  shows "\<exists>q. sub_q (snd (offer ev s)) = q @ [ev] \<and> subseq q (sub_q s) \<and> criticals q = criticals (sub_q s)
           \<and> sub_dropped (snd (offer ev s)) + length q = sub_dropped s + length (sub_q s)"
  using assms remove_first_length [of "sub_q s" non_critical]
  by (auto simp: offer_defs subseq_remove_first split: drop_policy.splits if_splits option.splits)

lemma offer_filtered:
  "\<not> (case filter_fn s of None \<Rightarrow> True | Some f \<Rightarrow> f ev) \<Longrightarrow> offer ev s = (None, s)"
  by (auto simp: offer_def split: option.splits)

section \<open>Conservation along a subscription's life\<close>

definition trace_inv :: "sub_trace \<Rightarrow> bool" where
  "trace_inv t \<longleftrightarrow>
     length (tr_accepted t) = length (tr_taken t) + sub_dropped (tr_sub t) + length (sub_q (tr_sub t))
     \<and> criticals (tr_accepted t) = criticals (tr_taken t) @ criticals (sub_q (tr_sub t))
     \<and> subseq (tr_taken t @ sub_q (tr_sub t)) (tr_accepted t)
     \<and> queue_inv (tr_sub t)"

lemma sub_step_inv:
  assumes inv: "trace_inv t"
  shows "trace_inv (sub_step o1 t)"
proof (cases o1)
  case Get
  then show ?thesis
    using inv by (auto simp: trace_inv_def get_nowait_def queue_inv_def criticals_def
        split: list.splits option.splits)
next
  case (Offer ev)
  let ?s = "tr_sub t" and ?s' = "snd (offer ev (tr_sub t))"
  let ?wanted = "case filter_fn ?s of None \<Rightarrow> True | Some f \<Rightarrow> f ev"
  have q: "queue_inv ?s'" using inv by (simp add: trace_inv_def offer_queue_inv)
  consider (full) err where "fst (offer ev ?s) = Some err"
    | (skip) "fst (offer ev ?s) = None" "\<not> ?wanted"
    | (ok) "fst (offer ev ?s) = None" "?wanted"
    by (cases "fst (offer ev ?s)") auto
  then show ?thesis
  proof cases
    case full
    with inv offer_error [of ev ?s err] q show ?thesis
      by (simp add: Offer split_beta trace_inv_def)
  next
    case skip
    then show ?thesis
      using inv offer_filtered [of ev ?s] q by (simp add: Offer split_beta trace_inv_def)
  next
    case ok
    from offer_accepts [OF ok] obtain q' where q':
      "sub_q ?s' = q' @ [ev]" "subseq q' (sub_q ?s)" "criticals q' = criticals (sub_q ?s)"
      "sub_dropped ?s' + length q' = sub_dropped ?s + length (sub_q ?s)" by blast
    have "subseq (tr_taken t @ q') (tr_accepted t)"
      using inv q'(2) subseq_append' [of "tr_taken t" q' "sub_q ?s"]
      by (auto simp: trace_inv_def intro: subseq_order.order_trans)
    then have "subseq ((tr_taken t @ q') @ [ev]) (tr_accepted t @ [ev])"
      by (intro list_emb_append_mono) auto
    with inv q' q ok show ?thesis
      by (simp add: Offer split_beta trace_inv_def)
  qed
qed

lemma sub_run_inv: "trace_inv t \<Longrightarrow> trace_inv (fold sub_step ops t)"
  by (induction ops arbitrary: t) (simp_all add: sub_step_inv)

lemma offer_sub_step: "snd (offer ev (tr_sub t)) = tr_sub (sub_step (Offer ev) t)"
  by (simp add: split_beta)

lemma publish_ok:
  "fst (publish ev subs) = None \<Longrightarrow>
     snd (publish ev subs) = map (\<lambda>s. snd (offer ev s)) subs \<and> (\<forall>s\<in>set subs. fst (offer ev s) = None)"
  by (induction subs) (auto simp: split_beta split: prod.splits option.splits)

lemma publish_full:
  "fst (publish ev subs) = Some err \<Longrightarrow>
     \<exists>pre s post. subs = pre @ s # post \<and> (\<forall>u\<in>set pre. fst (offer ev u) = None)
       \<and> fst (offer ev s) = Some err
       \<and> snd (publish ev subs) = map (\<lambda>u. snd (offer ev u)) pre @ s\<lparr>sub_blocked := sub_blocked s + 1\<rparr> # post"
proof (induction subs)
  case Nil
  then show ?case by simp
next
  case (Cons s subs)
  show ?case
  proof (cases "fst (offer ev s)")
    case None
    with Cons obtain pre u post where
      "subs = pre @ u # post" "\<forall>v\<in>set pre. fst (offer ev v) = None" "fst (offer ev u) = Some err"
      "snd (publish ev subs) = map (\<lambda>u. snd (offer ev u)) pre @ u\<lparr>sub_blocked := sub_blocked u + 1\<rparr> # post"
      by (auto simp: split_beta split: prod.splits option.splits)
    with None show ?thesis
      by (intro exI [of _ "s # pre"] exI [of _ u] exI [of _ post])
        (auto simp: split_beta split: prod.splits option.splits)
  next
    case (Some e)
    with Cons.prems offer_error [OF Some] show ?thesis
      by (intro exI [of _ "[]"] exI [of _ s] exI [of _ subs]) (auto split: prod.splits)
  qed
qed

section \<open>Properties\<close>

text \<open>C27: along any sequence of publications and reads on a new subscription, every critical event
  that was accepted is either already delivered or still queued, in order; deliveries follow the
  order of acceptance; and accepted = delivered + dropped + queued, with the queue within its
  bound.\<close>

theorem router_never_drops_criticals:
  "let t = sub_run ops (new_subscription name qsize policy f)
   in criticals (tr_accepted t) = criticals (tr_taken t) @ criticals (sub_q (tr_sub t))
    \<and> subseq (tr_taken t @ sub_q (tr_sub t)) (tr_accepted t)
    \<and> length (tr_accepted t) = length (tr_taken t) + sub_dropped (tr_sub t) + length (sub_q (tr_sub t))
    \<and> queue_inv (tr_sub t)"
proof -
  have "trace_inv (sub_run ops (new_subscription name qsize policy f))"
    unfolding sub_run_def
    by (rule sub_run_inv) (simp add: trace_inv_def queue_inv_def new_subscription_def)
  then show ?thesis by (simp add: trace_inv_def Let_def)
qed

text \<open>when a publication raises \<^verbatim>\<open>RouterFull\<close>, exactly the subscriptions before the failing one
  have processed the event, the failing one only counts a blocked event, and every later one is
  untouched: a saturated subscription hides the event from all that were registered after it.\<close>

theorem publish_stops_at_full_subscription:
  assumes "fst (publish ev subs) = Some err"
  shows "\<exists>pre s post. subs = pre @ s # post \<and> (\<forall>u\<in>set pre. fst (offer ev u) = None)
       \<and> fst (offer ev s) = Some err
       \<and> snd (publish ev subs) = map (\<lambda>u. snd (offer ev u)) pre @ s\<lparr>sub_blocked := sub_blocked s + 1\<rparr> # post"
  using assms by (rule publish_full)

theorem publish_stops_at_full_subscription_witness:
  "let crit = mk_event 0 ''a'' ''m'' ''x'' Critical; ev = mk_event 1 ''b'' ''m'' ''x'' High;
       full = (new_subscription ''s1'' 1 Drop_oldest_non_critical None)\<lparr>sub_q := [crit]\<rparr>;
       subs = [full, new_subscription ''s2'' 5 Block None]
   in \<exists>pre s post. subs = pre @ s # post \<and> (\<forall>u\<in>set pre. fst (offer ev u) = None)
       \<and> fst (offer ev s) = Some (Saturated_with_criticals ''s1'')
       \<and> snd (publish ev subs) = map (\<lambda>u. snd (offer ev u)) pre @ s\<lparr>sub_blocked := sub_blocked s + 1\<rparr> # post"
  unfolding Let_def
  by (rule publish_stops_at_full_subscription) (simp add: offer_defs new_subscription_def)

end
