(* ===== verification/Json.thy ===== *)
theory Json
  imports Prelude Pystring "HOL-Library.Char_ord" "HOL-Library.List_Lexorder"
begin

text \<open>
  Python's \<^verbatim>\<open>json\<close> module as the daemon uses it: \<^verbatim>\<open>json.dumps(v, sort_keys=True, separators=(",", ":"))\<close>
  and \<^verbatim>\<open>json.loads\<close>. Characters are the first 256 code points, so an escape above \<^verbatim>\<open>\u00ff\<close> is outside
  the model and is refused, and so are \<^verbatim>\<open>NaN\<close> and \<^verbatim>\<open>Infinity\<close>; the text of a float is a parameter of the printer.
\<close>

section \<open>Printing\<close>

abbreviation (input) dquote :: char where
  "dquote \<equiv> CHR 0x22"

abbreviation (input) backslash :: char where
  "backslash \<equiv> CHR 0x5C"

definition json_char :: "char \<Rightarrow> string" where
  "json_char c =
     (if c = dquote then [backslash, dquote]
      else if c = backslash then [backslash, backslash]
      else if c = CHR 0x0A then [backslash, CHR ''n'']
      else if c = CHR 0x0D then [backslash, CHR ''r'']
      else if c = CHR 0x09 then [backslash, CHR ''t'']
      else if c = CHR 0x0C then [backslash, CHR ''f'']
      else if c = CHR 0x08 then [backslash, CHR ''b'']
      else if 32 \<le> char_code c \<and> char_code c \<le> 126 then [c]
      else [backslash, CHR ''u'', CHR ''0'', CHR ''0'', hex_digit (char_code c div 16), hex_digit (char_code c mod 16)])"

definition json_body :: "string \<Rightarrow> string" where
  "json_body s = concat (map json_char s)"

definition json_str :: "string \<Rightarrow> string" where
  "json_str s = dquote # json_body s @ [dquote]"

text \<open>\<open>None\<close> is the \<^verbatim>\<open>TypeError\<close> of a value JSON does not have; \<open>dflt\<close> is the \<^verbatim>\<open>default\<close> hook (its text is
  printed as a string).\<close>

fun all_some :: "'a option list \<Rightarrow> 'a list option" where
  "all_some [] = Some []"
| "all_some (x # xs) = (case x of None \<Rightarrow> None | Some y \<Rightarrow> map_option ((#) y) (all_some xs))"

fun json_dumps :: "(real \<Rightarrow> string) \<Rightarrow> (pyval \<Rightarrow> string option) \<Rightarrow> pyval \<Rightarrow> string option" where
  "json_dumps fl dflt PNone = Some ''null''"
| "json_dumps fl dflt (PBool b) = Some (if b then ''true'' else ''false'')"
| "json_dumps fl dflt (PInt i) = Some (int_str i)"
| "json_dumps fl dflt (PFloat r) = Some (fl r)"
| "json_dumps fl dflt (PStr s) = Some (json_str s)"
| "json_dumps fl dflt (PList xs) =
     map_option (\<lambda>ts. ''['' @ join_with '','' ts @ '']'') (all_some (map (json_dumps fl dflt) xs))"
| "json_dumps fl dflt (PDict d) =
     map_option (\<lambda>ts. ''{'' @ join_with '','' ts @ ''}'')
       (all_some (map (\<lambda>(k, t). map_option (\<lambda>u. json_str k @ '':'' @ u) t)
          (sort_key fst (map (\<lambda>(k, v). (k, json_dumps fl dflt v)) d))))"
| "json_dumps fl dflt v = map_option json_str (dflt v)"

section \<open>Reading\<close>

definition hex_val :: "char \<Rightarrow> nat option" where
  "hex_val c =
     (let n = char_code c
      in if 48 \<le> n \<and> n \<le> 57 then Some (n - 48) else if 97 \<le> n \<and> n \<le> 102 then Some (n - 87)
         else if 65 \<le> n \<and> n \<le> 70 then Some (n - 55) else None)"

definition unescape :: "char \<Rightarrow> char option" where
  "unescape c =
     (if c = dquote then Some dquote else if c = backslash then Some backslash
      else if c = CHR ''/'' then Some (CHR ''/'') else if c = CHR ''n'' then Some (CHR 0x0A)
      else if c = CHR ''r'' then Some (CHR 0x0D) else if c = CHR ''t'' then Some (CHR 0x09)
      else if c = CHR ''f'' then Some (CHR 0x0C) else if c = CHR ''b'' then Some (CHR 0x08) else None)"

text \<open>The rest of a string after its opening quote: its characters and what follows the closing quote.\<close>

fun scan_string :: "string \<Rightarrow> (string \<times> string) option" where
  "scan_string [] = None"
| "scan_string (c # s) =
     (if c = dquote then Some ([], s)
      else if c = backslash then
        (case s of
           [] \<Rightarrow> None
         | d # s1 \<Rightarrow>
             if d = CHR ''u'' then
               (case s1 of
                  a # b # e # f # s2 \<Rightarrow>
                    (case (hex_val a, hex_val b, hex_val e, hex_val f) of
                       (Some 0, Some 0, Some x, Some y) \<Rightarrow>
                         map_option (\<lambda>(u, r). (char_of (16 * x + y) # u, r)) (scan_string s2)
                     | _ \<Rightarrow> None)
                | _ \<Rightarrow> None)
             else (case unescape d of
                     None \<Rightarrow> None
                   | Some e \<Rightarrow> map_option (\<lambda>(u, r). (e # u, r)) (scan_string s1)))
      else if char_code c < 32 then None
      else map_option (\<lambda>(u, r). (c # u, r)) (scan_string s))"

definition json_space :: "char \<Rightarrow> bool" where
  "json_space c = (c = CHR '' '' \<or> c = CHR 0x09 \<or> c = CHR 0x0A \<or> c = CHR 0x0D)"

abbreviation skip_ws :: "string \<Rightarrow> string" where
  "skip_ws \<equiv> dropWhile json_space"

text \<open>A number: an integer, with a fraction or an exponent a float.\<close>

definition int_prefix :: "string \<Rightarrow> string" where
  "int_prefix t = (if t \<noteq> [] \<and> hd t = CHR ''0'' then [CHR ''0''] else takeWhile ascii_digit t)"

definition frac_part :: "string \<Rightarrow> string \<times> string" where
  "frac_part r =
     (if startswith r ''.'' \<and> takeWhile ascii_digit (tl r) \<noteq> []
      then (takeWhile ascii_digit (tl r), dropWhile ascii_digit (tl r)) else ([], r))"

definition exp_part :: "string \<Rightarrow> int option \<times> string" where
  "exp_part r =
     (if startswith r ''e'' \<or> startswith r ''E'' then
        (let t = tl r;
             u = (if startswith t ''-'' \<or> startswith t ''+'' then tl t else t);
             ds = takeWhile ascii_digit u
         in if ds = [] then (None, r)
            else (Some (if startswith t ''-'' then - int (digits_value ds) else int (digits_value ds)),
                  dropWhile ascii_digit u))
      else (None, r))"

definition float_value :: "bool \<Rightarrow> string \<Rightarrow> string \<Rightarrow> int \<Rightarrow> real" where
  "float_value neg ds fs e =
     (let x = real (digits_value (ds @ fs)) / 10 ^ length fs;
          y = (if e < 0 then x / 10 ^ nat (- e) else x * 10 ^ nat e)
      in if neg then - y else y)"

definition scan_number :: "string \<Rightarrow> (pyval \<times> string) option" where
  "scan_number s =
     (let neg = (s \<noteq> [] \<and> hd s = CHR ''-'');
          t = (if neg then tl s else s);
          ds = int_prefix t;
          (fs, r1) = frac_part (drop (length ds) t);
          (ex, r) = exp_part r1
      in if ds = [] then None
         else if fs = [] \<and> ex = None
           then Some (PInt (if neg then - int (digits_value ds) else int (digits_value ds)), r)
         else Some (PFloat (float_value neg ds fs (case ex of None \<Rightarrow> 0 | Some e \<Rightarrow> e)), r))"

fun parse_value :: "nat \<Rightarrow> string \<Rightarrow> (pyval \<times> string) option"
  and parse_elems :: "nat \<Rightarrow> string \<Rightarrow> (pyval list \<times> string) option"
  and parse_members :: "nat \<Rightarrow> string \<Rightarrow> (pydict \<times> string) option" where
  "parse_value 0 s = None"
| "parse_value (Suc n) s =
     (if startswith s ''null'' then Some (PNone, drop 4 s)
      else if startswith s ''true'' then Some (PBool True, drop 4 s)
      else if startswith s ''false'' then Some (PBool False, drop 5 s)
      else (case s of
              [] \<Rightarrow> None
            | c # r \<Rightarrow>
                if c = dquote then map_option (\<lambda>(u, t). (PStr u, t)) (scan_string r)
                else if c = CHR ''['' then
                  (if startswith (skip_ws r) '']'' then Some (PList [], tl (skip_ws r))
                   else map_option (\<lambda>(vs, t). (PList vs, t)) (parse_elems n (skip_ws r)))
                else if c = CHR ''{'' then
                  (if startswith (skip_ws r) ''}'' then Some (PDict [], tl (skip_ws r))
                   else map_option (\<lambda>(d, t). (PDict d, t)) (parse_members n (skip_ws r)))
                else scan_number (c # r)))"
| "parse_elems 0 s = None"
| "parse_elems (Suc n) s =
     (case parse_value n s of
        None \<Rightarrow> None
      | Some (v, r) \<Rightarrow>
          (case skip_ws r of
             [] \<Rightarrow> None
           | c # t \<Rightarrow>
               if c = CHR '']'' then Some ([v], t)
               else if c = CHR '','' then map_option (\<lambda>(vs, u). (v # vs, u)) (parse_elems n (skip_ws t))
               else None))"
| "parse_members 0 s = None"
| "parse_members (Suc n) s =
     (if \<not> startswith s [dquote] then None
      else (case scan_string (tl s) of
              None \<Rightarrow> None
            | Some (k, r) \<Rightarrow>
                if \<not> startswith (skip_ws r) '':'' then None
                else (case parse_value n (skip_ws (tl (skip_ws r))) of
                        None \<Rightarrow> None
                      | Some (v, q) \<Rightarrow>
                          (case skip_ws q of
                             [] \<Rightarrow> None
                           | c # t \<Rightarrow>
                               if c = CHR ''}'' then Some ([(k, v)], t)
                               else if c = CHR '','' then
                                 map_option (\<lambda>(d, u). ((case map_of d k of None \<Rightarrow> (k, v) # d
                                                        | Some w \<Rightarrow> (k, w) # AList.delete k d), u))
                                   (parse_members n (skip_ws t))
                               else None))))"

text \<open>Every call consumes a character, so the length of the text is enough fuel.\<close>

definition json_loads :: "string \<Rightarrow> pyval option" where
  "json_loads s =
     (case parse_value (length s) (skip_ws s) of
        None \<Rightarrow> None
      | Some (v, r) \<Rightarrow> if skip_ws r = [] then Some v else None)"

section \<open>Round trip\<close>

lemma hex_val_digit [simp]: "n < 16 \<Longrightarrow> hex_val (hex_digit n) = Some n"
  by (simp add: hex_val_def hex_digit_def char_code_def Let_def)

lemma scan_string_char: "scan_string (json_char c @ s) = map_option (\<lambda>(u, r). (c # u, r)) (scan_string s)"
proof -
  let ?n = "char_code c"
  have n: "?n div 16 < 16" "?n mod 16 < 16" "16 * (?n div 16) + ?n mod 16 = ?n"
    using char_code_less_256 [of c] by (linarith, linarith, simp)
  have "(char_of ?n :: char) = c" by (simp add: char_code_def)
  moreover have "hex_val (CHR ''0'') = Some 0" by (simp add: hex_val_def char_code_def)
  ultimately show ?thesis
    using n by (auto simp: json_char_def unescape_def)
qed

lemma scan_json_body: "scan_string (json_body s @ dquote # r) = Some (s, r)"
  by (induction s) (simp_all add: json_body_def scan_string_char)

text \<open>A printed string is self-delimiting.\<close>

lemma json_str_append_eq: "json_str a @ x = json_str b @ y \<longleftrightarrow> a = b \<and> x = y"
proof
  assume "json_str a @ x = json_str b @ y"
  then have "scan_string (json_body a @ dquote # x) = scan_string (json_body b @ dquote # y)"
    by (simp add: json_str_def)
  then show "a = b \<and> x = y" by (simp add: scan_json_body)
qed simp

lemma json_str_inj [simp]: "json_str a = json_str b \<longleftrightarrow> a = b"
  using json_str_append_eq [of a "[]" b "[]"] by simp

fun plain_json :: "pyval \<Rightarrow> bool" where
  "plain_json PNone = True"
| "plain_json (PBool b) = True"
| "plain_json (PInt i) = True"
| "plain_json (PStr s) = True"
| "plain_json (PList xs) = list_all plain_json xs"
| "plain_json (PDict d) = (wf_table d \<and> list_all (\<lambda>(k, v). plain_json v) d)"
| "plain_json v = False"

fun canon_json :: "pyval \<Rightarrow> pyval" where
  "canon_json (PList xs) = PList (map canon_json xs)"
| "canon_json (PDict d) = PDict (sort_key fst (map (\<lambda>(k, v). (k, canon_json v)) d))"
| "canon_json v = v"

text \<open>What may follow a value inside a document.\<close>

definition json_stop :: "string \<Rightarrow> bool" where
  "json_stop r = (r = [] \<or> hd r = CHR '','' \<or> hd r = CHR '']'' \<or> hd r = CHR ''}'')"

lemma json_stop_simps [simp]: "json_stop []" "json_stop (CHR '','' # r)" "json_stop (CHR '']'' # r)" "json_stop (CHR ''}'' # r)"
  by (simp_all add: json_stop_def)

lemma takeWhile_digits: "\<forall>c\<in>set ds. ascii_digit c \<Longrightarrow> json_stop r \<Longrightarrow> takeWhile ascii_digit (ds @ r) = ds"
  by (cases r) (auto simp: json_stop_def ascii_digit_def Let_def takeWhile_append)

lemma nat_str_zero: "hd (nat_str n) = CHR ''0'' \<Longrightarrow> n = 0 \<and> nat_str n = ''0''"
proof (induction n rule: nat_str.induct)
  case (1 n)
  show ?case
  proof (cases "n < 10")
    case True
    then have one: "nat_str n = [char_of (48 + n)]" by (subst nat_str.simps) simp
    with "1.prems" have c: "char_of (48 + n) = CHR ''0''" by simp
    then have "(of_char (char_of (48 + n) :: char) :: nat) = of_char (CHR ''0'')" by (rule arg_cong)
    with True have "n = 0" by simp
    with one c show ?thesis by simp
  next
    case False
    then have "nat_str n = nat_str (n div 10) @ [char_of (48 + n mod 10)]" by (subst nat_str.simps) simp
    with 1 False have "n div 10 = 0" by (simp add: hd_append)
    with False show ?thesis by simp
  qed
qed

lemma scan_number_nat_str:
  assumes "json_stop r"
  shows "scan_number (nat_str n @ r) = Some (PInt (int n), r)"
    and "scan_number (CHR ''-'' # nat_str n @ r) = Some (PInt (- int n), r)"
proof -
  have r: "frac_part r = ([], r)" "exp_part r = (None, r)"
    using assms by (cases r; auto simp: json_stop_def frac_part_def exp_part_def)+
  have digits: "takeWhile ascii_digit (nat_str n @ r) = nat_str n"
    using takeWhile_digits [OF nat_str_digits assms] .
  have minus: "hd (nat_str n @ r) \<noteq> CHR ''-''"
    using hd_nat_str_digit [of n] by (auto simp: hd_append ascii_digit_def)
  have ds: "int_prefix (nat_str n @ r) = nat_str n"
    using nat_str_zero [of n] digits by (auto simp: hd_append int_prefix_def)
  show "scan_number (nat_str n @ r) = Some (PInt (int n), r)"
    and "scan_number (CHR ''-'' # nat_str n @ r) = Some (PInt (- int n), r)"
    unfolding scan_number_def Let_def using minus r by (simp_all add: ds)
qed

lemma scan_number_int_str: "json_stop r \<Longrightarrow> scan_number (int_str i @ r) = Some (PInt i, r)"
  by (simp add: int_str_def scan_number_nat_str)

text \<open>A text stands for a value when the reader, given at least its length as fuel, returns the value and
  stops right after the text.\<close>

definition reads_as :: "string \<Rightarrow> pyval \<Rightarrow> bool" where
  "reads_as t v \<longleftrightarrow> t \<noteq> [] \<and> \<not> json_space (hd t) \<and> hd t \<noteq> CHR '']'' \<and>
     (\<forall>r n. json_stop r \<longrightarrow> length t \<le> n \<longrightarrow> parse_value n (t @ r) = Some (v, r))"

lemma reads_asD: "reads_as t v \<Longrightarrow> json_stop r \<Longrightarrow> length t \<le> n \<Longrightarrow> parse_value n (t @ r) = Some (v, r)"
  by (simp add: reads_as_def)

lemma skip_ws_reads: "reads_as t v \<Longrightarrow> skip_ws (t @ r) = t @ r"
  by (cases t) (auto simp: reads_as_def)

lemma parse_elems_join:
  assumes "list_all2 reads_as ts vs" "ts \<noteq> []" "length (join_with '','' ts) < n"
  shows "parse_elems n (join_with '','' ts @ CHR '']'' # r) = Some (vs, r)"
  using assms
proof (induction "'',''" ts arbitrary: vs n rule: join_with.induct)
  case (2 w)
  then obtain v k where "vs = [v]" "reads_as w v" "n = Suc k" "length w \<le> k"
    by (cases n) (auto simp: list_all2_Cons1)
  then show ?case by (simp add: reads_asD json_space_def)
next
  case (3 w u ws)
  then obtain v vs' k where vs: "vs = v # vs'" "reads_as w v" "list_all2 reads_as (u # ws) vs'" "n = Suc k"
    by (cases n) (auto simp: list_all2_Cons1)
  from vs(3) obtain x where "reads_as u x" by (auto simp: list_all2_Cons1)
  then have skip: "skip_ws (join_with '','' (u # ws) @ CHR '']'' # r) = join_with '','' (u # ws) @ CHR '']'' # r"
    by (cases ws) (simp_all add: skip_ws_reads)
  have "parse_elems k (join_with '','' (u # ws) @ CHR '']'' # r) = Some (vs', r)"
    using 3 vs by (intro "3.hyps") simp_all
  moreover have "parse_value k (w @ CHR '','' # join_with '','' (u # ws) @ CHR '']'' # r)
      = Some (v, CHR '','' # join_with '','' (u # ws) @ CHR '']'' # r)"
    using 3 vs by (intro reads_asD) simp_all
  ultimately show ?case using vs(1,4) skip by (simp add: json_space_def)
qed simp

definition member_text :: "string \<times> string \<Rightarrow> string" where
  "member_text p = json_str (fst p) @ '':'' @ snd p"

lemma parse_members_join:
  assumes "list_all2 (\<lambda>(k, t) (l, v). k = l \<and> reads_as t v) ts d" "ts \<noteq> []" "distinct (map fst d)"
    "length (join_with '','' (map member_text ts)) < n"
  shows "parse_members n (join_with '','' (map member_text ts) @ CHR ''}'' # r) = Some (d, r)"
  using assms
proof (induction ts arbitrary: d n)
  case step: (Cons kt ts)
  obtain k t where kt: "kt = (k, t)" by (cases kt)
  with step.prems obtain v d' m where d: "d = (k, v) # d'" "reads_as t v" "n = Suc m"
      "list_all2 (\<lambda>(k, t) (l, v). k = l \<and> reads_as t v) ts d'"
    by (cases n) (auto simp: list_all2_Cons1)
  let ?rest = "if ts = [] then CHR ''}'' # r else CHR '','' # join_with '','' (map member_text ts) @ CHR ''}'' # r"
  have txt_eq: "join_with '','' (map member_text (kt # ts)) @ CHR ''}'' # r
      = dquote # json_body k @ dquote # CHR '':'' # t @ ?rest"
    by (cases ts) (simp_all add: kt member_text_def json_str_def)
  have "length t \<le> m"
    using step.prems(4) d(3) by (cases ts) (auto simp: kt member_text_def json_str_def)
  then have val: "parse_value m (t @ ?rest) = Some (v, ?rest)"
    using d(2) by (intro reads_asD) auto
  show ?case
  proof (cases ts)
    case Nil
    with d have "d' = []" by simp
    with Nil d val show ?thesis
      unfolding txt_eq by (simp add: scan_json_body json_space_def skip_ws_reads)
  next
    case (Cons kt' ts')
    have len: "length (join_with '','' (map member_text ts)) < m"
      using step.prems(4) d(3) by (simp add: Cons)
    have rec: "parse_members m (join_with '','' (map member_text ts) @ CHR ''}'' # r) = Some (d', r)"
      using step.prems(3) d len Cons by (intro step.IH) simp_all
    have skip: "skip_ws (join_with '','' (map member_text ts) @ CHR ''}'' # r)
        = join_with '','' (map member_text ts) @ CHR ''}'' # r"
      by (cases ts') (simp_all add: Cons member_text_def json_str_def json_space_def)
    have "map_of d' k = None" using step.prems(3) d(1) by (simp add: map_of_eq_None_iff)
    with Cons d val rec skip show ?thesis
      unfolding txt_eq by (simp add: scan_json_body json_space_def skip_ws_reads)
  qed
qed simp

lemma insort_key_map: "insort_key g (f x) (map f xs) = map f (insort_key (\<lambda>y. g (f y)) x xs)"
  by (induction xs) auto

lemma sort_key_map: "sort_key g (map f xs) = map f (sort_key (\<lambda>y. g (f y)) xs)"
  by (induction xs) (simp_all add: insort_key_map)

lemma distinct_map_fst_sort_key [simp]: "distinct (map fst (sort_key fst d)) = distinct (map fst d)"
proof -
  have "map fst (sort_key fst d) = sort (map fst d)" by (simp add: sort_key_map [of "\<lambda>x. x"])
  then show ?thesis by simp
qed

lemma all_some_map: "all_some (map f xs) = Some ys \<longleftrightarrow> list_all2 (\<lambda>x y. f x = Some y) xs ys"
  by (induction xs arbitrary: ys) (auto simp: list_all2_Cons1 split: option.splits)

lemma dumps_list: "json_dumps fl dflt (PList xs) = Some t \<longleftrightarrow>
    (\<exists>ts. list_all2 (\<lambda>x y. json_dumps fl dflt x = Some y) xs ts \<and> t = ''['' @ join_with '','' ts @ '']'')"
  by (auto simp: all_some_map)

lemma list_all2_factor:
  assumes "\<And>x y. P x y \<longleftrightarrow> (\<exists>z. Q x z \<and> y = h z)"
  shows "list_all2 P xs us \<longleftrightarrow> (\<exists>ts. list_all2 Q xs ts \<and> us = map h ts)"
proof (induction xs arbitrary: us)
  case (Cons x xs)
  have "list_all2 P (x # xs) us \<longleftrightarrow> (\<exists>z ts. Q x z \<and> list_all2 Q xs ts \<and> us = h z # map h ts)"
    by (auto simp: list_all2_Cons1 assms Cons)
  also have "\<dots> \<longleftrightarrow> (\<exists>ts. list_all2 Q (x # xs) ts \<and> us = map h ts)"
    by (fastforce simp: list_all2_Cons1)
  finally show ?case .
qed auto

lemma dumps_dict: "json_dumps fl dflt (PDict d) = Some t \<longleftrightarrow>
    (\<exists>ts. list_all2 (\<lambda>(k, v) (l, u). k = l \<and> json_dumps fl dflt v = Some u) (sort_key fst d) ts
        \<and> t = ''{'' @ join_with '','' (map member_text ts) @ ''}'')"
proof -
  let ?f = "\<lambda>(k, v). (k, json_dumps fl dflt v)" and ?g = "\<lambda>(k, t). map_option (\<lambda>u. json_str k @ '':'' @ u) t"
  have sorted: "sort_key fst (map ?f d) = map ?f (sort_key fst d)"
    by (simp add: sort_key_map case_prod_beta)
  have "(?g (?f x) = Some y) \<longleftrightarrow>
      (\<exists>z. (case x of (k, v) \<Rightarrow> \<lambda>(l, u). k = l \<and> json_dumps fl dflt v = Some u) z \<and> y = member_text z)" for x y
    by (cases x) (auto simp: member_text_def)
  then have "list_all2 (\<lambda>x y. ?g (?f x) = Some y) xs us \<longleftrightarrow>
      (\<exists>ts. list_all2 (\<lambda>(k, v) (l, u). k = l \<and> json_dumps fl dflt v = Some u) xs ts
          \<and> us = map member_text ts)" for xs us
    by (rule list_all2_factor)
  then show ?thesis
    by (simp only: json_dumps.simps sorted map_map comp_def map_option_eq_Some all_some_map) auto
qed

lemma reads_as_literal:
  "reads_as ''null'' PNone" "reads_as ''true'' (PBool True)" "reads_as ''false'' (PBool False)"
  by (auto simp: reads_as_def json_space_def less_eq_Suc_le elim!: Suc_le_D [elim_format])

lemma reads_as_str: "reads_as (json_str s) (PStr s)"
  by (auto simp: reads_as_def json_str_def json_space_def scan_json_body elim!: Suc_le_D [elim_format])

lemma reads_as_int: "reads_as (int_str i) (PInt i)"
proof -
  obtain c u where cu: "int_str i = c # u" "c = CHR ''-'' \<or> ascii_digit c"
    using hd_nat_str_digit [of "nat i"] by (cases "i < 0"; cases "nat_str (nat i)") (auto simp: int_str_def)
  then have c: "c \<noteq> dquote \<and> c \<noteq> CHR ''['' \<and> c \<noteq> CHR ''{'' \<and> c \<noteq> CHR '']'' \<and> \<not> json_space c
      \<and> c \<noteq> CHR ''n'' \<and> c \<noteq> CHR ''t'' \<and> c \<noteq> CHR ''f''"
    by (auto simp: ascii_digit_def json_space_def)
  have "parse_value n (int_str i @ r) = Some (PInt i, r)" if "json_stop r" "length (int_str i) \<le> n" for r n
    using that scan_number_int_str [of r i] c cu by (cases n) simp_all
  with cu c show ?thesis by (simp add: reads_as_def)
qed

lemma reads_as_list: "list_all2 reads_as ts vs \<Longrightarrow> reads_as (''['' @ join_with '','' ts @ '']'') (PList vs)"
proof -
  assume ts: "list_all2 reads_as ts vs"
  have "parse_value n ((''['' @ join_with '','' ts @ '']'') @ r) = Some (PList vs, r)"
    if n: "length (''['' @ join_with '','' ts @ '']'') \<le> n" for r n
  proof (cases "ts = []")
    case True
    with ts n show ?thesis by (cases n) (simp_all add: json_space_def)
  next
    case False
    then obtain t us v where "ts = t # us" "reads_as t v" using ts by (cases ts) (auto simp: list_all2_Cons1)
    then have "skip_ws (join_with '','' ts @ CHR '']'' # r) = join_with '','' ts @ CHR '']'' # r"
      "\<not> startswith (join_with '','' ts @ CHR '']'' # r) '']''"
      by (cases t; cases us; simp add: reads_as_def)+
    with parse_elems_join [OF ts False, of "n - 1" r] n show ?thesis by (cases n) simp_all
  qed
  then show ?thesis by (simp add: reads_as_def json_space_def)
qed

lemma reads_as_dict:
  assumes "list_all2 (\<lambda>(k, t) (l, v). k = l \<and> reads_as t v) ts d" "distinct (map fst d)"
  shows "reads_as (''{'' @ join_with '','' (map member_text ts) @ ''}'') (PDict d)"
proof -
  have "parse_value n ((''{'' @ join_with '','' (map member_text ts) @ ''}'') @ r) = Some (PDict d, r)"
    if n: "length (''{'' @ join_with '','' (map member_text ts) @ ''}'') \<le> n" for r n
  proof (cases "ts = []")
    case True
    with assms n show ?thesis by (cases n) (simp_all add: json_space_def)
  next
    case False
    then obtain t us where "ts = t # us" by (cases ts) auto
    then have "skip_ws (join_with '','' (map member_text ts) @ CHR ''}'' # r)
          = join_with '','' (map member_text ts) @ CHR ''}'' # r"
      "\<not> startswith (join_with '','' (map member_text ts) @ CHR ''}'' # r) ''}''"
      by (cases us; simp add: member_text_def json_str_def json_space_def)+
    with parse_members_join [OF assms(1) False assms(2), of "n - 1" r] n show ?thesis by (cases n) simp_all
  qed
  then show ?thesis by (simp add: reads_as_def json_space_def)
qed

lemma dumps_reads_as: "json_dumps fl dflt v = Some t \<Longrightarrow> plain_json v \<Longrightarrow> reads_as t (canon_json v)"
proof (induction v arbitrary: t)
  case (PList xs)
  from PList.prems(1) obtain ts where ts: "list_all2 (\<lambda>x y. json_dumps fl dflt x = Some y) xs ts"
      "t = ''['' @ join_with '','' ts @ '']''"
    unfolding dumps_list by blast
  have "list_all2 reads_as ts (map canon_json xs)"
    using ts(1) PList by (fastforce simp: list_all2_conv_all_nth list_all_length)
  then show ?case unfolding ts(2) canon_json.simps by (rule reads_as_list)
next
  case (PDict d)
  from PDict.prems(1) obtain ts where ts:
      "list_all2 (\<lambda>(k, v) (l, u). k = l \<and> json_dumps fl dflt v = Some u) (sort_key fst d) ts"
      "t = ''{'' @ join_with '','' (map member_text ts) @ ''}''"
    unfolding dumps_dict by blast
  let ?d = "map (\<lambda>(k, v). (k, canon_json v)) (sort_key fst d)"
  have d: "sort_key fst (map (\<lambda>(k, v). (k, canon_json v)) d) = ?d"
    by (simp add: sort_key_map case_prod_beta)
  have IH: "reads_as u (canon_json v)" if "(k, v) \<in> set (sort_key fst d)" "json_dumps fl dflt v = Some u" for k v u
    using that PDict.IH [of "(k, v)" v u] PDict.prems(2) by (auto simp: list_all_iff)
  have "list_all2 (\<lambda>(k, t) (l, v). k = l \<and> reads_as t v) ts ?d"
  proof -
    have "list_all2 (\<lambda>x y. fst y = fst x \<and> reads_as (snd y) (canon_json (snd x))) (sort_key fst d) ts"
      using ts(1) by (rule list.rel_mono_strong) (auto intro: IH)
    then show ?thesis by (simp add: list_all2_conv_all_nth case_prod_beta)
  qed
  moreover have "distinct (map fst ?d)"
    using PDict.prems(2) by (simp add: comp_def case_prod_beta)
  ultimately show ?case unfolding ts(2) canon_json.simps d by (rule reads_as_dict)
qed (auto intro: reads_as_literal reads_as_int reads_as_str)

lemma plain_json_dumps: "plain_json v \<Longrightarrow> \<exists>t. json_dumps fl dflt v = Some t"
proof (induction v)
  case (PList xs)
  then have "\<forall>x\<in>set xs. \<exists>y. json_dumps fl dflt x = Some y" by (simp add: list_all_iff)
  then have "\<exists>ts. list_all2 (\<lambda>x y. json_dumps fl dflt x = Some y) xs ts"
    by (intro exI [of _ "map (the \<circ> json_dumps fl dflt) xs"]) (auto simp: list_all2_map2 intro!: list.rel_refl_strong)
  then show ?case unfolding dumps_list by blast
next
  case (PDict d)
  then have "\<forall>kv\<in>set (sort_key fst d). \<exists>y. json_dumps fl dflt (snd kv) = Some y"
    by (fastforce simp: list_all_iff)
  then have "list_all2 (\<lambda>(k, v) (l, u). k = l \<and> json_dumps fl dflt v = Some u) (sort_key fst d)
      (map (\<lambda>(k, v). (k, the (json_dumps fl dflt v))) (sort_key fst d))"
    unfolding list_all2_map2 by (intro list.rel_refl_strong) force
  then show ?case unfolding dumps_dict by blast
qed auto

text \<open>Reading the printed text of a value gives the value back, its dictionaries in key order.\<close>

lemma json_roundtrip:
  assumes "plain_json v"
  shows "\<exists>t. json_dumps fl dflt v = Some t \<and> json_loads t = Some (canon_json v)"
proof -
  obtain t where t: "json_dumps fl dflt v = Some t" using plain_json_dumps [OF assms] by blast
  then have "reads_as t (canon_json v)" using assms by (rule dumps_reads_as)
  then have "skip_ws t = t" "parse_value (length t) t = Some (canon_json v, [])"
    using skip_ws_reads [of t _ "[]"] reads_asD [of t _ "[]" "length t"] by auto
  with t show ?thesis by (simp add: json_loads_def)
qed


lemma map_of_sort_key: "wf_table d \<Longrightarrow> map_of (sort_key fst d) = map_of d"
  by (rule map_of_inject_set [THEN iffD2]) (simp_all add: distinct_map_fst_sort_key)

lemma dget_canon: "wf_table d \<Longrightarrow> canon_json (PDict d) = PDict d' \<Longrightarrow> dget d' k = canon_json (dget d k)"
proof -
  assume "wf_table d" "canon_json (PDict d) = PDict d'"
  then have "map_of d' k = map_of (map (\<lambda>(k, v). (k, canon_json v)) d) k"
    using map_of_sort_key [of "map (\<lambda>(k, v). (k, canon_json v)) d"] by (simp add: case_prod_beta comp_def)
  also have "\<dots> = map_option canon_json (map_of d k)"
    by (induction d) auto
  finally show ?thesis by (simp add: dget_def split: option.split)
qed

text \<open>Two dictionaries with the same printed text have the same (canonical) value under every key.\<close>

lemma dumps_eq_dget:
  assumes "plain_json (PDict c)" "plain_json (PDict d)"
    and "the (json_dumps fl dflt (PDict c)) = the (json_dumps fl dflt (PDict d))"
  shows "canon_json (dget c k) = canon_json (dget d k)"
proof -
  have "canon_json (PDict c) = canon_json (PDict d)"
    using assms json_roundtrip [of "PDict c" fl dflt] json_roundtrip [of "PDict d" fl dflt] by force
  then show ?thesis
    using assms(1,2) dget_canon [of c _ k] dget_canon [of d _ k] by simp
qed

end
