(* ===== verification/Hash_Chain.thy ===== *)
theory Hash_Chain
  imports Json
begin

text \<open>
  The contract the audit log and the journal share: records that carry the digest of their
  predecessor, from a fixed genesis value. The digest function is any function; what tampering
  leads to is stated as a concrete pair of colliding inputs, never by assuming that there are none.
\<close>

locale hash_chain =
  fixes digest :: "'b \<Rightarrow> 'h"
    and enc :: "'row \<Rightarrow> 'b"
    and prev :: "'row \<Rightarrow> 'h"
    and genesis :: 'h
    and valid :: "'row \<Rightarrow> bool"
  assumes enc_inj: "valid r \<Longrightarrow> valid s \<Longrightarrow> enc r = enc s \<Longrightarrow> r = s"
begin

fun chained :: "'h \<Rightarrow> 'row list \<Rightarrow> bool" where
  "chained h [] = True"
| "chained h (r # rs) = (prev r = h \<and> chained (digest (enc r)) rs)"

fun head_digest :: "'h \<Rightarrow> 'row list \<Rightarrow> 'h" where
  "head_digest h [] = h"
| "head_digest h (r # rs) = head_digest (digest (enc r)) rs"

definition collision :: bool where
  "collision \<longleftrightarrow> (\<exists>a b. a \<noteq> b \<and> digest a = digest b)"

lemma chained_append: "chained h (rs @ ss) \<longleftrightarrow> chained h rs \<and> chained (head_digest h rs) ss"
  by (induction rs arbitrary: h) auto

lemma head_digest_snoc [simp]: "head_digest h (rs @ [r]) = digest (enc r)"
  by (induction rs arbitrary: h) auto

lemma chained_snoc: "chained h (rs @ [r]) \<longleftrightarrow> chained h rs \<and> prev r = head_digest h rs"
  by (auto simp: chained_append)

text \<open>Two chains of the same length with the same head digest are the same chain, unless two inputs of
  the digest collide.\<close>

lemma same_head_same_chain:
  assumes "chained h rs" "chained h ss" "length rs = length ss" "head_digest h rs = head_digest h ss"
    and "list_all valid rs" "list_all valid ss" "\<not> collision"
  shows "rs = ss"
  using assms(1-6)
proof (induction rs arbitrary: ss rule: rev_induct)
  case (snoc r rs)
  then obtain s ss' where ss: "ss = ss' @ [s]" by (metis length_append_singleton length_Suc_conv_rev)
  from snoc.prems(4) have "digest (enc r) = digest (enc s)" by (simp add: ss)
  then have "enc r = enc s" using \<open>\<not> collision\<close> by (auto simp: collision_def)
  then have "r = s" using snoc.prems(5,6) by (auto simp: ss intro: enc_inj)
  moreover have "rs = ss'" using snoc.prems \<open>r = s\<close> by (intro snoc.IH) (auto simp: ss chained_snoc)
  ultimately show ?case by (simp add: ss)
qed simp

text \<open>The same for chains of any length, when moreover no record has the genesis value as its digest.\<close>

lemma same_head_same_chain_any_length:
  assumes "chained genesis rs" "chained genesis ss" "head_digest genesis rs = head_digest genesis ss"
    and "list_all valid rs" "list_all valid ss" "\<not> collision" "\<nexists>a. digest a = genesis"
  shows "rs = ss"
  using assms(1-5)
proof (induction rs arbitrary: ss rule: rev_induct)
  case Nil
  then show ?case using assms(7) by (cases ss rule: rev_cases) (auto dest: sym)
next
  case (snoc r rs)
  then obtain s ss' where ss: "ss = ss' @ [s]" using assms(7) by (cases ss rule: rev_cases) auto
  from snoc.prems(3) have "digest (enc r) = digest (enc s)" by (simp add: ss)
  then have "enc r = enc s" using \<open>\<not> collision\<close> by (auto simp: collision_def)
  then have "r = s" using snoc.prems(4,5) by (auto simp: ss intro: enc_inj)
  moreover have "rs = ss'" using snoc.prems \<open>r = s\<close> by (intro snoc.IH) (auto simp: ss chained_snoc)
  ultimately show ?case by (simp add: ss)
qed

end

text \<open>\<^verbatim>\<open>ZERO_HASH\<close>.\<close>

definition ZERO_HASH :: string where
  "ZERO_HASH = replicate 64 (CHR ''0'')"

end
