(* ===== verification/Journal.thy ===== *)
theory Journal
  imports Hash_Chain
begin

text \<open>
  The append-only journal of \<^verbatim>\<open>inspectord/journal.py\<close>. A gzip file is the list of its lines; a date is
  an integer and the current date an argument of the operation that reads it. The digest is the
  parameter \<open>sha\<close> and the text of a float the parameter \<open>fl\<close>.
\<close>

definition JOURNAL_FORMAT_VERSION :: string where
  "JOURNAL_FORMAT_VERSION = ''1.0.0''"

record journal =
  j_files :: "(int, string list) table"
  j_open :: "int option"
  j_prev :: string
  j_closed :: bool

datatype journal_error = Journal_closed | Not_serializable

definition journal_init :: "(int, string list) table \<Rightarrow> journal" where
  "journal_init files = \<lparr>j_files = files, j_open = None, j_prev = ZERO_HASH, j_closed = False\<rparr>"

text \<open>The digest of the last non-empty line, the given one when there is none.\<close>

definition tail_hash :: "(string \<Rightarrow> string) \<Rightarrow> string \<Rightarrow> string list \<Rightarrow> string" where
  "tail_hash sha prev lines = foldl (\<lambda>h l. if l = [] then h else sha l) prev lines"

definition open_for_today :: "(string \<Rightarrow> string) \<Rightarrow> int \<Rightarrow> journal \<Rightarrow> journal" where
  "open_for_today sha today j =
     (if j_open j = Some today then j
      else (case map_of (j_files j) today of
              Some lines \<Rightarrow> j\<lparr>j_prev := tail_hash sha (j_prev j) lines, j_open := Some today\<rparr>
            | None \<Rightarrow> j\<lparr>j_prev := ZERO_HASH, j_open := Some today,
                        j_files := AList.update today [] (j_files j)\<rparr>))"

text \<open>\<^verbatim>\<open>{**payload, "journal_format_version": ..., "prev_hash": ...}\<close>.\<close>

definition journal_record :: "pydict \<Rightarrow> string \<Rightarrow> pydict" where
  "journal_record payload prev =
     AList.update ''prev_hash'' (PStr prev)
       (AList.update ''journal_format_version'' (PStr JOURNAL_FORMAT_VERSION) payload)"

definition journal_append ::
  "(string \<Rightarrow> string) \<Rightarrow> (real \<Rightarrow> string) \<Rightarrow> int \<Rightarrow> pydict \<Rightarrow> journal \<Rightarrow> journal \<times> journal_error option" where
  "journal_append sha fl today payload j =
     (if j_closed j then (j, Some Journal_closed)
      else (let k = open_for_today sha today j
            in case json_dumps fl (\<lambda>_. None) (PDict (journal_record payload (j_prev k))) of
                 None \<Rightarrow> (k, Some Not_serializable)
               | Some line \<Rightarrow>
                   (k\<lparr>j_files := AList.update today (the (map_of (j_files k) today) @ [line]) (j_files k),
                      j_prev := sha line\<rparr>, None)))"

definition journal_close :: "journal \<Rightarrow> journal" where
  "journal_close j = j\<lparr>j_open := None, j_closed := True\<rparr>"

text \<open>A line that is not JSON, or not a dictionary, makes the verifier raise (\<open>None\<close>).\<close>

fun verify_lines :: "(string \<Rightarrow> string) \<Rightarrow> string \<Rightarrow> string list \<Rightarrow> bool option" where
  "verify_lines sha prev [] = Some True"
| "verify_lines sha prev (l # ls) =
     (if l = [] then verify_lines sha prev ls
      else (case json_loads l of
              Some (PDict d) \<Rightarrow>
                if dget d ''prev_hash'' \<noteq> PStr prev then Some False else verify_lines sha (sha l) ls
            | _ \<Rightarrow> None))"

definition verify_chain :: "(string \<Rightarrow> string) \<Rightarrow> string list \<Rightarrow> bool option" where
  "verify_chain sha lines = verify_lines sha ZERO_HASH lines"

section \<open>The chain of a file\<close>

definition line_prev :: "string \<Rightarrow> pyval" where
  "line_prev l = (case json_loads l of Some (PDict d) \<Rightarrow> dget d ''prev_hash'' | _ \<Rightarrow> PNone)"

interpretation journal_chain: hash_chain "\<lambda>l. PStr (sha l)" "\<lambda>l. l" line_prev "PStr ZERO_HASH" "\<lambda>_. True" for sha
  by unfold_locales

lemma verify_lines_True:
  "verify_lines sha prev ls = Some True \<longleftrightarrow>
     journal_chain.chained sha (PStr prev) (filter (\<lambda>l. l \<noteq> []) ls)"
proof (induction ls arbitrary: prev)
  case (Cons l ls)
  show ?case
  proof (cases "json_loads l")
    case None
    then have "line_prev l = PNone" by (simp add: line_prev_def)
    with None Cons.IH show ?thesis by simp
  next
    case (Some v)
    then have "line_prev l = (case v of PDict d \<Rightarrow> dget d ''prev_hash'' | _ \<Rightarrow> PNone)" by (simp add: line_prev_def)
    with Some Cons.IH show ?thesis by (cases v) simp_all
  qed
qed simp

lemma tail_hash_head:
  "PStr (tail_hash sha prev ls) = journal_chain.head_digest sha (PStr prev) (filter (\<lambda>l. l \<noteq> []) ls)"
  unfolding tail_hash_def by (induction ls arbitrary: prev) auto

lemma journal_record_wf: "wf_table payload \<Longrightarrow> wf_table (journal_record payload h)"
  by (simp add: journal_record_def distinct_update)

lemma plain_update:
  "list_all (\<lambda>(k, v). plain_json v) d \<Longrightarrow> plain_json w \<Longrightarrow> list_all (\<lambda>(k, v). plain_json v) (AList.update k w d)"
  by (induction d) auto

text \<open>The line written for a plain payload is not empty and carries the digest it was built with.\<close>

lemma journal_line:
  assumes "plain_json (PDict payload)"
  obtains line where "json_dumps fl (\<lambda>_. None) (PDict (journal_record payload h)) = Some line"
    "line \<noteq> []" "line_prev line = PStr h"
proof -
  have plain: "plain_json (PDict (journal_record payload h))"
    using assms by (auto simp: journal_record_def distinct_update plain_update)
  from json_roundtrip [OF plain] obtain line where line:
      "json_dumps fl (\<lambda>_. None) (PDict (journal_record payload h)) = Some line"
      "json_loads line = Some (canon_json (PDict (journal_record payload h)))"
    by blast
  moreover have "dget (journal_record payload h) ''prev_hash'' = PStr h"
    by (simp add: journal_record_def dget_def update_conv')
  moreover have "line \<noteq> []" using line(1) unfolding dumps_dict by auto
  ultimately show ?thesis
    using that plain dget_canon [of "journal_record payload h" _ "''prev_hash''"] by (simp add: line_prev_def)
qed

section \<open>Histories\<close>

fun journal_run ::
  "(string \<Rightarrow> string) \<Rightarrow> (real \<Rightarrow> string) \<Rightarrow> journal \<Rightarrow> (int \<times> pydict) list \<Rightarrow> journal" where
  "journal_run sha fl j [] = j"
| "journal_run sha fl j ((today, payload) # ws) = journal_run sha fl (fst (journal_append sha fl today payload j)) ws"

definition good_file :: "(string \<Rightarrow> string) \<Rightarrow> string list \<Rightarrow> bool" where
  "good_file sha ls \<longleftrightarrow> verify_chain sha ls = Some True \<and> (\<exists>l\<in>set ls. l \<noteq> [])"

definition journal_inv :: "(string \<Rightarrow> string) \<Rightarrow> journal \<Rightarrow> bool" where
  "journal_inv sha j \<longleftrightarrow>
     (\<forall>d ls. map_of (j_files j) d = Some ls \<longrightarrow> good_file sha ls) \<and>
     (\<forall>d. j_open j = Some d \<longrightarrow> (\<exists>ls. map_of (j_files j) d = Some ls \<and> j_prev j = tail_hash sha ZERO_HASH ls))"

lemma tail_hash_snoc [simp]: "tail_hash sha h (ls @ [l]) = (if l = [] then tail_hash sha h ls else sha l)"
  by (simp add: tail_hash_def)

lemma tail_hash_independent: "\<exists>l\<in>set ls. l \<noteq> [] \<Longrightarrow> tail_hash sha h ls = tail_hash sha g ls"
  by (induction ls rule: rev_induct) auto

lemma verify_chain_snoc:
  "l \<noteq> [] \<Longrightarrow> verify_chain sha (ls @ [l]) = Some True \<longleftrightarrow>
     verify_chain sha ls = Some True \<and> line_prev l = PStr (tail_hash sha ZERO_HASH ls)"
  by (simp add: verify_chain_def verify_lines_True journal_chain.chained_snoc tail_hash_head)

lemma open_for_today_spec:
  assumes "journal_inv sha j"
  obtains ls where "map_of (j_files (open_for_today sha today j)) today = Some ls"
    "j_prev (open_for_today sha today j) = tail_hash sha ZERO_HASH ls" "verify_chain sha ls = Some True"
    "j_open (open_for_today sha today j) = Some today"
    "\<And>d. d \<noteq> today \<Longrightarrow> map_of (j_files (open_for_today sha today j)) d = map_of (j_files j) d"
proof (cases "j_open j = Some today")
  case True
  with assms obtain ls where "map_of (j_files j) today = Some ls" "j_prev j = tail_hash sha ZERO_HASH ls" "good_file sha ls"
    unfolding journal_inv_def by blast
  with True show ?thesis by (intro that [of ls]) (simp_all add: open_for_today_def good_file_def)
next
  case False
  show ?thesis
  proof (cases "map_of (j_files j) today")
    case None
    with False show ?thesis
      by (intro that [of "[]"]) (simp_all add: open_for_today_def tail_hash_def verify_chain_def update_conv')
  next
    case (Some ls)
    with assms have "good_file sha ls" by (simp add: journal_inv_def)
    with False Some show ?thesis
      by (intro that [of ls]) (simp_all add: open_for_today_def good_file_def tail_hash_independent [of ls sha "j_prev j" ZERO_HASH])
  qed
qed

lemma journal_append_inv:
  assumes "journal_inv sha j" "plain_json (PDict payload)"
  shows "journal_inv sha (fst (journal_append sha fl today payload j))"
proof (cases "j_closed j")
  case False
  let ?k = "open_for_today sha today j"
  obtain ls where k: "map_of (j_files ?k) today = Some ls" "j_prev ?k = tail_hash sha ZERO_HASH ls"
      "verify_chain sha ls = Some True" "j_open ?k = Some today"
      "\<And>d. d \<noteq> today \<Longrightarrow> map_of (j_files ?k) d = map_of (j_files j) d"
    using open_for_today_spec [OF assms(1)] by metis
  obtain line where line: "json_dumps fl (\<lambda>_. None) (PDict (journal_record payload (j_prev ?k))) = Some line"
      "line \<noteq> []" "line_prev line = PStr (j_prev ?k)"
    using journal_line [OF assms(2)] by metis
  have good: "good_file sha (ls @ [line])"
    using k(2,3) line(2,3) by (simp add: good_file_def verify_chain_snoc)
  have "journal_append sha fl today payload j =
      (?k\<lparr>j_files := AList.update today (ls @ [line]) (j_files ?k), j_prev := sha line\<rparr>, None)"
    using False line(1) k(1) by (simp add: journal_append_def Let_def del: json_dumps.simps)
  then show ?thesis
    using assms(1) good k(4,5) line(2) by (auto simp: journal_inv_def update_conv')
qed (use assms in \<open>simp add: journal_append_def\<close>)

lemma journal_run_inv:
  "journal_inv sha j \<Longrightarrow> list_all (\<lambda>(_, payload). plain_json (PDict payload)) ws \<Longrightarrow> journal_inv sha (journal_run sha fl j ws)"
  by (induction sha fl j ws rule: journal_run.induct) (auto simp: journal_append_inv)

text \<open>After any sequence of appends of JSON payloads, across any number of days and in any order of
  days, every file of the journal verifies.\<close>

theorem journal_files_verify:
  assumes "list_all (\<lambda>(_, payload). plain_json (PDict payload)) ws"
    and "map_of (j_files (journal_run sha fl (journal_init []) ws)) day = Some lines"
  shows "verify_chain sha lines = Some True"
proof -
  have "journal_inv sha (journal_init [])" by (simp add: journal_inv_def journal_init_def)
  from journal_run_inv [OF this assms(1), of fl] assms(2) show ?thesis
    by (auto simp: journal_inv_def good_file_def)
qed

lemma journal_append_file:
  "\<not> j_closed j \<Longrightarrow> j_open j \<noteq> Some today \<Longrightarrow>
     \<exists>lines. map_of (j_files (fst (journal_append sha fl today p j))) today = Some lines"
  by (auto simp: journal_append_def open_for_today_def Let_def update_conv' simp del: json_dumps.simps split: option.splits)

theorem journal_files_verify_witness:
  "verify_chain (\<lambda>s. s)
     (the (map_of (j_files (journal_run (\<lambda>s. s) (\<lambda>_. []) (journal_init []) [(1, [(''x'', PInt 2)])])) 1))
   = Some True"
proof -
  obtain lines where "map_of (j_files (journal_run (\<lambda>s. s) (\<lambda>_. []) (journal_init [])
      [(1, [(''x'', PInt 2)])])) 1 = Some lines"
    using journal_append_file [of "journal_init []" 1 "\<lambda>s. s" "\<lambda>_. []" "[(''x'', PInt 2)]"]
    by (auto simp: journal_init_def)
  then show ?thesis
    using journal_files_verify [of "[(1, [(''x'', PInt 2)])]" "\<lambda>s. s" "\<lambda>_. []" 1 lines] by simp
qed

definition sample_line :: "pydict \<Rightarrow> string" where
  "sample_line payload = the (json_dumps (\<lambda>_. []) (\<lambda>_. None) (PDict (journal_record payload ZERO_HASH)))"

lemma sample_line:
  "plain_json (PDict payload) \<Longrightarrow> sample_line payload \<noteq> [] \<and> line_prev (sample_line payload) = PStr ZERO_HASH"
  using journal_line [of payload "\<lambda>_. []" ZERO_HASH] by (metis option.sel sample_line_def)

lemma sample_line_verifies: "plain_json (PDict payload) \<Longrightarrow> verify_chain sha ([] @ [sample_line payload]) = Some True"
  unfolding verify_chain_snoc [OF conjunct1 [OF sample_line]]
  using sample_line [of payload] by (simp add: verify_chain_def tail_hash_def)

text \<open>Two files that verify and end in the same line are the same up to blank lines, or the digest has
  a collision, or some text has the all-zero digest.\<close>

theorem journal_tamper_evident:
  assumes "verify_chain sha (ls @ [l]) = Some True" "verify_chain sha (ms @ [l]) = Some True" "l \<noteq> []"
  shows "filter (\<lambda>l. l \<noteq> []) ls = filter (\<lambda>l. l \<noteq> []) ms \<or> (\<exists>x y. x \<noteq> y \<and> sha x = sha y) \<or> (\<exists>x. sha x = ZERO_HASH)"
proof (rule disjCI)
  assume "\<not> ((\<exists>x y. x \<noteq> y \<and> sha x = sha y) \<or> (\<exists>x. sha x = ZERO_HASH))"
  then have "\<not> journal_chain.collision sha" "\<nexists>a. PStr (sha a) = PStr ZERO_HASH"
    by (auto simp: journal_chain.collision_def)
  moreover have "journal_chain.head_digest sha (PStr ZERO_HASH) (filter (\<lambda>l. l \<noteq> []) ls)
      = journal_chain.head_digest sha (PStr ZERO_HASH) (filter (\<lambda>l. l \<noteq> []) ms)"
    using assms by (simp add: verify_chain_snoc tail_hash_head [symmetric])
  ultimately show "filter (\<lambda>l. l \<noteq> []) ls = filter (\<lambda>l. l \<noteq> []) ms"
    using assms by (intro journal_chain.same_head_same_chain_any_length [of sha])
      (simp_all add: verify_chain_def verify_lines_True journal_chain.chained_snoc list_all_iff)
qed

theorem journal_tamper_evident_witness:
  "filter (\<lambda>l. l \<noteq> []) [] = filter (\<lambda>l. l \<noteq> []) ([] :: string list)
     \<or> (\<exists>x y :: string. x \<noteq> y \<and> CHR ''1'' # x = CHR ''1'' # y) \<or> (\<exists>x. CHR ''1'' # x = ZERO_HASH)"
  using journal_tamper_evident [of "(#) (CHR ''1'')" "[]" "sample_line []" "[]"]
    sample_line_verifies [of "[]" "(#) (CHR ''1'')"] sample_line [of "[]"]
  by blast

text \<open>The last line of a file is not protected: any line with the same \<^verbatim>\<open>prev_hash\<close> may replace it, and
  it may be removed, without the verifier noticing.\<close>

theorem journal_last_line_unprotected:
  assumes "verify_chain sha (ls @ [l]) = Some True" "l \<noteq> []" "l' \<noteq> []" "line_prev l' = line_prev l"
  shows "verify_chain sha (ls @ [l']) = Some True \<and> verify_chain sha ls = Some True"
  using assms by (simp add: verify_chain_snoc)

theorem journal_last_line_unprotected_witness:
  "verify_chain (\<lambda>s. s) ([] @ [sample_line [(''tampered'', PBool True)]]) = Some True
   \<and> verify_chain (\<lambda>s. s) [] = Some True"
  using journal_last_line_unprotected [of "\<lambda>s. s" "[]" "sample_line []" "sample_line [(''tampered'', PBool True)]"]
    sample_line [of "[]"] sample_line [of "[(''tampered'', PBool True)]"] sample_line_verifies [of "[]" "\<lambda>s. s"]
  by simp

end
