(* ===== verification/Storage.thy ===== *)
theory Storage
  imports Events Json
begin

text \<open>
  The event table of \<^verbatim>\<open>inspectord/storage/events.py\<close> and the schema migrations of
  \<^verbatim>\<open>inspectord/storage/migrations.py\<close>. The DuckDB engine is not modelled: a table is the list of its rows
  in insertion order and a statement is a function on it.
\<close>

section \<open>Stored events\<close>

record event_row =
  er_id :: string
  er_ts :: datetime
  er_kind :: string
  er_module :: string
  er_action :: string
  er_severity :: string
  er_payload :: string
  er_seq :: nat

record event_store =
  es_rows :: "event_row list"
  es_next :: nat

text \<open>\<^verbatim>\<open>event_id\<close> is the primary key, so a repeated id raises (\<open>None\<close>).\<close>

definition insert_event :: "event \<Rightarrow> string \<Rightarrow> event_store \<Rightarrow> event_store option" where
  "insert_event e payload st =
     (if ev_id e \<in> er_id ` set (es_rows st) then None
      else Some \<lparr>es_rows = es_rows st @
                   [\<lparr>er_id = ev_id e, er_ts = ev_ts e, er_kind = event_kind_value (ev_kind e),
                     er_module = ev_module e, er_action = ev_action e,
                     er_severity = severity_value (ev_severity e), er_payload = payload,
                     er_seq = es_next st\<rparr>],
                es_next = Suc (es_next st)\<rparr>)"

section \<open>Migrations\<close>

text \<open>\<^verbatim>\<open>text.splitlines()\<close> for the line ends that occur below code point 256.\<close>

definition line_end :: "char \<Rightarrow> bool" where
  "line_end c \<longleftrightarrow> char_code c \<in> {10, 11, 12, 13, 28, 29, 30, 133}"

function splitlines :: "string \<Rightarrow> string list" where
  "splitlines s =
     (if s = [] then []
      else (let w = takeWhile (\<lambda>c. \<not> line_end c) s; r = dropWhile (\<lambda>c. \<not> line_end c) s
            in w # splitlines (if startswith r [CHR 0x0D, CHR 0x0A] then drop 2 r else drop 1 r)))"
  by pat_completeness auto
termination
proof (relation "measure length", goal_cases)
  case (2 s w r)
  then show ?case
    by (cases s) (auto simp: less_Suc_eq_le intro!: le_trans [OF diff_le_self] length_dropWhile_le)
qed simp

declare splitlines.simps [simp del]

definition split_sql :: "string \<Rightarrow> string list" where
  "split_sql s =
     (let lines = filter (\<lambda>l. \<not> startswith (strip l) ''--'') (splitlines s)
      in filter (\<lambda>p. p \<noteq> []) (map strip (split_on (CHR '';'') (join_with [CHR 0x0A] lines))))"

text \<open>\<^verbatim>\<open>^(\d{4})_.+\.sql$\<close> on a file name: the number it starts with.\<close>

definition migration_number :: "string \<Rightarrow> nat option" where
  "migration_number name =
     (let body = (if endswith name [CHR 0x0A] then butlast name else name)
      in if length (takeWhile ascii_digit (take 4 body)) = 4 \<and> startswith (drop 4 body) ''_''
            \<and> endswith body ''.sql'' \<and> length body \<ge> 10 \<and> CHR 0x0A \<notin> set body
         then Some (digits_value (take 4 body)) else None)"

definition list_migrations :: "(string \<times> string) list \<Rightarrow> (nat \<times> string \<times> string) list" where
  "list_migrations dir =
     sort_key fst (concat (map (\<lambda>(name, sql). case migration_number name of
                                               None \<Rightarrow> [] | Some n \<Rightarrow> [(n, name, sql)]) dir))"

text \<open>The database as the migrations see it: the recorded versions and the statements executed.\<close>

record schema_state =
  ss_versions :: "nat list"
  ss_executed :: "string list"

definition current_schema_version :: "schema_state \<Rightarrow> nat" where
  "current_schema_version st = foldr max (ss_versions st) 0"

fun apply_migrations :: "(nat \<times> string \<times> string) list \<Rightarrow> nat \<Rightarrow> schema_state \<Rightarrow> nat \<times> schema_state" where
  "apply_migrations [] applied st = (applied, st)"
| "apply_migrations ((num, name, sql) # ms) applied st =
     (if num \<le> applied then apply_migrations ms applied st
      else apply_migrations ms num
             \<lparr>ss_versions = ss_versions st @ [num], ss_executed = ss_executed st @ split_sql sql\<rparr>)"

definition run_migrations :: "(string \<times> string) list \<Rightarrow> schema_state \<Rightarrow> nat \<times> schema_state" where
  "run_migrations dir st = apply_migrations (list_migrations dir) (current_schema_version st) st"

section \<open>Properties\<close>

lemma foldr_max_snoc: "foldr max (vs @ [n]) 0 = max (foldr max vs 0) (n :: nat)"
  by (induction vs) (auto simp: max.assoc)

lemma apply_migrations_applied:
  "applied = current_schema_version st \<Longrightarrow> apply_migrations ms applied st = (a, st') \<Longrightarrow>
     a = current_schema_version st' \<and> applied \<le> a \<and> (\<forall>m\<in>set ms. fst m \<le> a)"
proof (induction ms applied st arbitrary: a st' rule: apply_migrations.induct)
  case (2 num name sql ms applied st)
  show ?case
  proof (cases "num \<le> applied")
    case True
    then have "apply_migrations ms applied st = (a, st')" using "2.prems"(2) by simp
    from "2.IH"(1) [OF True "2.prems"(1) this] True show ?thesis by auto
  next
    case False
    let ?new = "\<lparr>ss_versions = ss_versions st @ [num], ss_executed = ss_executed st @ split_sql sql\<rparr>"
    have "num = current_schema_version ?new"
      using False "2.prems"(1) by (simp add: current_schema_version_def foldr_max_snoc del: foldr_append)
    moreover have "apply_migrations ms num ?new = (a, st')" using False "2.prems"(2) by simp
    ultimately have "a = current_schema_version st' \<and> num \<le> a \<and> (\<forall>m\<in>set ms. fst m \<le> a)"
      by (rule "2.IH"(2) [OF False])
    with False show ?thesis by auto
  qed
qed simp

lemma apply_migrations_skip: "\<forall>m\<in>set ms. fst m \<le> a \<Longrightarrow> apply_migrations ms a st = (a, st)"
  by (induction ms a st rule: apply_migrations.induct) auto

text \<open>Running the migrations a second time changes nothing and reports the same version, which is at
  least the number of every migration file present.\<close>

theorem run_migrations_idempotent:
  "run_migrations dir (snd (run_migrations dir st)) = run_migrations dir st
   \<and> list_all (\<lambda>(n, _). n \<le> fst (run_migrations dir st)) (list_migrations dir)"
proof -
  obtain a st' where run: "run_migrations dir st = (a, st')" by (cases "run_migrations dir st")
  then have "a = current_schema_version st'" "\<forall>m\<in>set (list_migrations dir). fst m \<le> a"
    using apply_migrations_applied [OF refl] by (auto simp: run_migrations_def)
  then show ?thesis
    using apply_migrations_skip [of "list_migrations dir" a st'] run
    by (auto simp: run_migrations_def list_all_iff)
qed

end
