(* ===== verification/Audit_Log.thy ===== *)
theory Audit_Log
  imports Hash_Chain Storage
begin

text \<open>
  The hash-chained audit log of \<^verbatim>\<open>inspectord/audit/log.py\<close> and its read-only handlers of
  \<^verbatim>\<open>inspectord/audit/ipc_handlers.py\<close>. The digest (SHA-256) is a parameter \<open>sha\<close> about which nothing is
  assumed; the clocks and whether the database raises are arguments of the operation that reads them.
\<close>

section \<open>Rows\<close>

text \<open>A naive \<^verbatim>\<open>datetime\<close>, the form in which a row stores its time.\<close>

record naive_datetime =
  dt_year :: nat
  dt_month :: nat
  dt_day :: nat
  dt_hour :: nat
  dt_minute :: nat
  dt_second :: nat
  dt_microsecond :: nat

record audit_body =
  ab_seq :: int
  ab_ts :: naive_datetime
  ab_actor :: string
  ab_action :: string
  ab_target :: "string option"
  ab_details :: string
  ab_prev :: string

record audit_row = audit_body +
  ar_hash :: string

definition zero_pad :: "nat \<Rightarrow> nat \<Rightarrow> string" where
  "zero_pad w n = replicate (w - length (nat_str n)) (CHR ''0'') @ nat_str n"

definition canon_ts :: "naive_datetime \<Rightarrow> string" where
  "canon_ts t =
     zero_pad 4 (dt_year t) @ CHR ''-'' # zero_pad 2 (dt_month t) @ CHR ''-'' # zero_pad 2 (dt_day t) @
     CHR ''T'' # zero_pad 2 (dt_hour t) @ CHR '':'' # zero_pad 2 (dt_minute t) @ CHR '':'' #
     zero_pad 2 (dt_second t) @ CHR ''.'' # zero_pad 6 (dt_microsecond t)"

definition opt_str :: "string option \<Rightarrow> pyval" where
  "opt_str t = (case t of None \<Rightarrow> PNone | Some s \<Rightarrow> PStr s)"

definition audit_dict :: "audit_body \<Rightarrow> pydict" where
  "audit_dict b =
     [(''seq'', PInt (ab_seq b)), (''ts'', PStr (canon_ts (ab_ts b))), (''actor'', PStr (ab_actor b)),
      (''action'', PStr (ab_action b)), (''target'', opt_str (ab_target b)),
      (''details'', PStr (ab_details b)), (''prev_hash'', PStr (ab_prev b))]"

text \<open>The hashed bytes: the row as canonical JSON. No float and no foreign object occurs in it.\<close>

definition audit_payload :: "audit_body \<Rightarrow> string" where
  "audit_payload b = the (json_dumps (\<lambda>_. []) (\<lambda>_. None) (PDict (audit_dict b)))"

definition row_hash_from_stored :: "(string \<Rightarrow> string) \<Rightarrow> audit_body \<Rightarrow> string" where
  "row_hash_from_stored sha b = sha (audit_payload b)"

section \<open>Appending\<close>

definition FAILURE_WINDOW :: nat where "FAILURE_WINDOW = 20"
definition FAILURE_ALERT_THRESHOLD :: nat where "FAILURE_ALERT_THRESHOLD = 5"
definition FAILURE_COOLDOWN_S :: real where "FAILURE_COOLDOWN_S = 300"

record audit_state =
  au_rows :: "audit_row list"
  au_outcomes :: "bool list"
  au_last_alert :: "real option"

definition audit_init :: audit_state where
  "audit_init = \<lparr>au_rows = [], au_outcomes = [], au_last_alert = None\<rparr>"

text \<open>\<^verbatim>\<open>SELECT ... ORDER BY seq DESC LIMIT 1\<close>.\<close>

definition newest_row :: "audit_row list \<Rightarrow> audit_row option" where
  "newest_row rows = (if rows = [] then None else Some (last (sort_key ab_seq rows)))"

text \<open>One call: what the caller passes, the clock readings, the serialised details and whether anything
  inside the \<^verbatim>\<open>try\<close> raises.\<close>

record audit_call =
  ac_actor :: string
  ac_action :: string
  ac_target :: "string option"
  ac_details :: string
  ac_ts :: naive_datetime
  ac_mono :: real
  ac_fault :: bool

definition next_row :: "(string \<Rightarrow> string) \<Rightarrow> audit_row list \<Rightarrow> audit_call \<Rightarrow> audit_row" where
  "next_row sha rows c =
     (let hd_row = newest_row rows;
          b = \<lparr>ab_seq = (case hd_row of None \<Rightarrow> 1 | Some r \<Rightarrow> ab_seq r + 1), ab_ts = ac_ts c,
               ab_actor = ac_actor c, ab_action = ac_action c, ab_target = ac_target c,
               ab_details = ac_details c,
               ab_prev = (case hd_row of None \<Rightarrow> ZERO_HASH | Some r \<Rightarrow> ar_hash r)\<rparr>
      in audit_body.extend b (audit_row.fields (row_hash_from_stored sha b)))"

text \<open>The result is the new state, the sequence number or \<open>None\<close> for a swallowed failure, and the failure
  count the listener is called with, if it is called.\<close>

definition append_audit ::
  "(string \<Rightarrow> string) \<Rightarrow> audit_call \<Rightarrow> audit_state \<Rightarrow> audit_state \<times> int option \<times> nat option" where
  "append_audit sha c st =
     (if ac_fault c then
        (let outcomes = ring_push FAILURE_WINDOW (au_outcomes st) False;
             failures = length (filter Not outcomes);
             fire = (failures \<ge> FAILURE_ALERT_THRESHOLD
                     \<and> (case au_last_alert st of None \<Rightarrow> True | Some t \<Rightarrow> ac_mono c - t \<ge> FAILURE_COOLDOWN_S))
         in (st\<lparr>au_outcomes := outcomes,
                au_last_alert := (if fire then Some (ac_mono c) else au_last_alert st)\<rparr>,
             None, if fire then Some failures else None))
      else
        (let row = next_row sha (au_rows st) c
         in (st\<lparr>au_rows := au_rows st @ [row],
                au_outcomes := ring_push FAILURE_WINDOW (au_outcomes st) True\<rparr>,
             Some (ab_seq row), None)))"

section \<open>Verifying\<close>

datatype chain_fault = Seq_gap | Prev_hash_mismatch | Row_hash_mismatch | Anchor_mismatch

record row_brief =
  rb_seq :: int
  rb_ts :: string
  rb_action :: string

record audit_verification =
  av_ok :: bool
  av_rows :: nat
  av_first_bad_seq :: "int option"
  av_reason :: "chain_fault option"
  av_anchor_checked :: bool
  av_last_good :: "row_brief option"
  av_first_bad :: "row_brief option"

definition row_brief_of :: "audit_row \<Rightarrow> row_brief" where
  "row_brief_of r = \<lparr>rb_seq = ab_seq r, rb_ts = canon_ts (ab_ts r), rb_action = ab_action r\<rparr>"

text \<open>The walk: the first bad row with its predecessor and the reason, or \<open>None\<close>.\<close>

fun walk_chain ::
  "(string \<Rightarrow> string) \<Rightarrow> string \<Rightarrow> int \<Rightarrow> audit_row option \<Rightarrow> audit_row list
     \<Rightarrow> (audit_row option \<times> audit_row \<times> chain_fault) option" where
  "walk_chain sha prev_hash expected good [] = None"
| "walk_chain sha prev_hash expected good (r # rs) =
     (if ab_seq r \<noteq> expected then Some (good, r, Seq_gap)
      else if ab_prev r \<noteq> prev_hash then Some (good, r, Prev_hash_mismatch)
      else if row_hash_from_stored sha (audit_body.truncate r) \<noteq> ar_hash r then Some (good, r, Row_hash_mismatch)
      else walk_chain sha (ar_hash r) (expected + 1) (Some r) rs)"

definition verify_audit_chain ::
  "(string \<Rightarrow> string) \<Rightarrow> (int \<times> string) option \<Rightarrow> audit_row list \<Rightarrow> audit_verification" where
  "verify_audit_chain sha anchor table =
     (let rows = sort_key ab_seq table
      in case walk_chain sha ZERO_HASH 1 None rows of
           Some (good, bad, why) \<Rightarrow>
             \<lparr>av_ok = False, av_rows = length rows, av_first_bad_seq = Some (ab_seq bad), av_reason = Some why,
              av_anchor_checked = (anchor \<noteq> None), av_last_good = map_option row_brief_of good,
              av_first_bad = Some (row_brief_of bad)\<rparr>
         | None \<Rightarrow>
             (let result =
                \<lparr>av_ok = True, av_rows = length rows, av_first_bad_seq = None, av_reason = None,
                 av_anchor_checked = (anchor \<noteq> None),
                 av_last_good = (if rows = [] then None else Some (row_brief_of (last rows))),
                 av_first_bad = None\<rparr>
              in case anchor of
                   None \<Rightarrow> result
                 | Some (a_seq, a_hash) \<Rightarrow>
                     (case find (\<lambda>r. ab_seq r = a_seq) rows of
                        Some r \<Rightarrow> if ar_hash r = a_hash then result else
                          \<lparr>av_ok = False, av_rows = length rows, av_first_bad_seq = Some a_seq,
                           av_reason = Some Anchor_mismatch, av_anchor_checked = True, av_last_good = None,
                           av_first_bad = None\<rparr>
                      | None \<Rightarrow>
                          \<lparr>av_ok = False, av_rows = length rows, av_first_bad_seq = Some a_seq,
                           av_reason = Some Anchor_mismatch, av_anchor_checked = True, av_last_good = None,
                           av_first_bad = None\<rparr>)))"

section \<open>The anchor and the handlers\<close>

text \<open>\<^verbatim>\<open>raw["seq"]\<close> and \<^verbatim>\<open>raw["row_hash"]\<close> of the newest \<^verbatim>\<open>audit_head\<close> event; every way the stored payload can be
  malformed gives \<open>None\<close>. \<open>ostr\<close> is the text of foreign values.\<close>

definition newest_head :: "event_row list \<Rightarrow> event_row option" where
  "newest_head events =
     (let heads = sort_key er_ts (sort_key er_id
                    (filter (\<lambda>r. er_module r = ''supervisor'' \<and> er_action r = ''audit_head'') events))
      in if heads = [] then None else Some (last heads))"

definition newest_anchor :: "(pyval \<Rightarrow> string) \<Rightarrow> event_row list \<Rightarrow> (int \<times> string) option" where
  "newest_anchor ostr events =
     (case newest_head events of
        None \<Rightarrow> None
      | Some row \<Rightarrow>
          (case json_loads (er_payload row) of
             Some (PDict d) \<Rightarrow>
               (let raw = (if truthy (dget d ''raw'') then dget d ''raw'' else PDict [])
                in case raw of
                     PDict r \<Rightarrow>
                       (case (map_of r ''seq'', map_of r ''row_hash'') of
                          (Some s, Some h) \<Rightarrow> map_option (\<lambda>n. (n, py_str ostr h)) (int_of s)
                        | _ \<Rightarrow> None)
                   | _ \<Rightarrow> None)
           | _ \<Rightarrow> None))"

definition handle_verify_audit_log ::
  "(string \<Rightarrow> string) \<Rightarrow> (pyval \<Rightarrow> string) \<Rightarrow> event_row list \<Rightarrow> audit_row list \<Rightarrow> audit_verification" where
  "handle_verify_audit_log sha ostr events rows = verify_audit_chain sha (newest_anchor ostr events) rows"

definition audit_list_limit :: "pydict \<Rightarrow> int" where
  "audit_list_limit params =
     (let v = (case map_of params ''limit'' of None \<Rightarrow> PInt 100 | Some v \<Rightarrow> v);
          n = (case int_of v of None \<Rightarrow> 100 | Some n \<Rightarrow> n)
      in max 1 (min 500 n))"

text \<open>The rows answered, newest first; unreadable details are shown as \<^verbatim>\<open>None\<close>.\<close>

definition handle_list_audit_log :: "pydict \<Rightarrow> audit_row list \<Rightarrow> (audit_row \<times> pyval) list" where
  "handle_list_audit_log params rows =
     map (\<lambda>r. (r, case json_loads (ab_details r) of None \<Rightarrow> PNone | Some v \<Rightarrow> v))
       (take (nat (audit_list_limit params)) (rev (sort_key ab_seq rows)))"

section \<open>The payload determines the row\<close>

lemma zero_pad_digits: "\<forall>c\<in>set (zero_pad w n). ascii_digit c"
  using nat_str_digits [of n] by (auto simp: zero_pad_def ascii_digit_def)

lemma digits_value_zeros: "digits_value (replicate k (CHR ''0'') @ s) = digits_value s"
  by (induction k) (simp_all add: digits_value_def digit_val_def)

lemma zero_pad_inj [simp]: "zero_pad w n = zero_pad w m \<longleftrightarrow> n = m"
  by (metis digits_value_zeros digits_value_nat_str zero_pad_def)

lemma digits_prefix_eq:
  assumes "\<forall>c\<in>set ds. ascii_digit c" "\<forall>c\<in>set es. ascii_digit c" "\<not> ascii_digit x"
  shows "ds @ x # r = es @ x # s \<longleftrightarrow> ds = es \<and> r = s"
proof
  assume eq: "ds @ x # r = es @ x # s"
  have "takeWhile ascii_digit (ds @ x # r) = ds" "takeWhile ascii_digit (es @ x # s) = es"
    using assms by (simp_all add: takeWhile_append)
  with eq show "ds = es \<and> r = s" by simp
qed simp

lemma zero_pad_append_eq [simp]:
  "\<not> ascii_digit x \<Longrightarrow> zero_pad w n @ x # r = zero_pad w m @ x # s \<longleftrightarrow> n = m \<and> r = s"
  by (simp add: digits_prefix_eq zero_pad_digits)

lemma canon_ts_inj [simp]: "canon_ts t = canon_ts u \<longleftrightarrow> t = u"
proof
  assume "canon_ts t = canon_ts u"
  then have "dt_year t = dt_year u \<and> dt_month t = dt_month u \<and> dt_day t = dt_day u \<and> dt_hour t = dt_hour u \<and>
      dt_minute t = dt_minute u \<and> dt_second t = dt_second u \<and> dt_microsecond t = dt_microsecond u"
    unfolding canon_ts_def by (simp add: ascii_digit_def)
  then show "t = u" by simp
qed simp

lemma opt_str_inj [simp]: "opt_str a = opt_str b \<longleftrightarrow> a = b"
  by (auto simp: opt_str_def split: option.splits)

lemma canon_opt_str [simp]: "canon_json (opt_str a) = opt_str a" "plain_json (opt_str a)"
  by (auto simp: opt_str_def split: option.splits)

lemma plain_audit_dict: "plain_json (PDict (audit_dict b))"
  by (simp add: audit_dict_def)

lemma audit_payload_inj:
  assumes "audit_payload b = audit_payload c"
  shows "b = c"
proof -
  have get: "dget (audit_dict b) k = dget (audit_dict c) k" for k
    using assms dumps_eq_dget [OF plain_audit_dict plain_audit_dict, of "\<lambda>_. []" "\<lambda>_. None" b c k]
    by (auto simp: audit_payload_def audit_dict_def split: if_splits)
  have "ab_seq b = ab_seq c" "ab_ts b = ab_ts c" "ab_actor b = ab_actor c" "ab_action b = ab_action c"
    "ab_target b = ab_target c" "ab_details b = ab_details c" "ab_prev b = ab_prev c"
    using get [of "''seq''"] get [of "''ts''"] get [of "''actor''"] get [of "''action''"] get [of "''target''"]
      get [of "''details''"] get [of "''prev_hash''"] by (simp_all add: audit_dict_def)
  then show ?thesis by simp
qed

interpretation audit: hash_chain sha audit_payload ab_prev ZERO_HASH "\<lambda>_. True" for sha
  by unfold_locales (simp add: audit_payload_inj)

section \<open>What verification establishes\<close>

abbreviation body_of :: "audit_row \<Rightarrow> audit_body" where
  "body_of \<equiv> audit_body.truncate"

definition sealed :: "(string \<Rightarrow> string) \<Rightarrow> audit_row \<Rightarrow> bool" where
  "sealed sha r = (ar_hash r = row_hash_from_stored sha (body_of r))"

definition numbered :: "int \<Rightarrow> audit_row list \<Rightarrow> bool" where
  "numbered n rows = (map ab_seq rows = map (\<lambda>i. n + int i) [0..<length rows])"

lemma numbered_Nil [simp]: "numbered n []"
  by (simp add: numbered_def)

lemma numbered_Cons [simp]: "numbered n (r # rs) \<longleftrightarrow> ab_seq r = n \<and> numbered (n + 1) rs"
  by (simp add: numbered_def upt_conv_Cons map_Suc_upt [symmetric] add.assoc comp_def del: upt_Suc)

lemma numbered_append: "numbered n (rs @ ss) \<longleftrightarrow> numbered n rs \<and> numbered (n + int (length rs)) ss"
  by (induction rs arbitrary: n) (auto simp: add.assoc)

lemma numbered_sorted: "numbered n rs \<Longrightarrow> sorted (map ab_seq rs)"
  by (simp add: numbered_def sorted_iff_nth_mono)

lemma body_of_sel [simp]: "ab_seq (body_of r) = ab_seq r" "ab_prev (body_of r) = ab_prev r"
  by (cases r; simp add: audit_body.truncate_def)+

lemma numbered_find:
  "numbered n rs \<Longrightarrow> find (\<lambda>r. ab_seq r = a) rs =
     (if n \<le> a \<and> a < n + int (length rs) then Some (rs ! nat (a - n)) else None)"
proof (induction rs arbitrary: n)
  case (Cons r rs)
  have "nat (a - (n + 1)) = nat (a - n) - Suc 0" by linarith
  with Cons show ?case by (auto simp: nth_Cons' algebra_simps)
qed simp

text \<open>A table is a good chain when it is numbered from one, every row is sealed by its own digest and
  every row carries its predecessor's digest.\<close>

definition good_chain :: "(string \<Rightarrow> string) \<Rightarrow> audit_row list \<Rightarrow> bool" where
  "good_chain sha rows \<longleftrightarrow>
     numbered 1 rows \<and> list_all (sealed sha) rows \<and> audit.chained sha ZERO_HASH (map body_of rows)"

lemma walk_chain_None:
  "walk_chain sha h n good rows = None \<longleftrightarrow>
     numbered n rows \<and> list_all (sealed sha) rows \<and> audit.chained sha h (map body_of rows)"
proof (induction rows arbitrary: h n good)
  case (Cons r rs)
  then show ?case
    by (cases "sealed sha r") (auto simp: sealed_def row_hash_from_stored_def)
qed simp

lemma verify_ok_iff:
  "av_ok (verify_audit_chain sha anchor table) \<longleftrightarrow>
     good_chain sha (sort_key ab_seq table) \<and>
     (case anchor of None \<Rightarrow> True
      | Some (a, h) \<Rightarrow> \<exists>r. find (\<lambda>r. ab_seq r = a) (sort_key ab_seq table) = Some r \<and> ar_hash r = h)"
proof -
  have good: "good_chain sha (sort_key ab_seq table) \<longleftrightarrow> walk_chain sha ZERO_HASH 1 None (sort_key ab_seq table) = None"
    by (simp add: good_chain_def walk_chain_None)
  show ?thesis
    unfolding good by (auto simp: verify_audit_chain_def Let_def split: option.splits)
qed

lemma head_digest_last:
  "rows \<noteq> [] \<Longrightarrow> list_all (sealed sha) rows \<Longrightarrow> audit.head_digest sha h (map body_of rows) = ar_hash (last rows)"
  by (cases rows rule: rev_cases) (simp_all add: sealed_def row_hash_from_stored_def)

lemma good_chain_prefix: "good_chain sha (rs @ ss) \<Longrightarrow> good_chain sha rs"
  by (simp add: good_chain_def numbered_append audit.chained_append)

text \<open>A good chain is already in order, and its newest row is its last.\<close>

lemma good_chain_sort: "good_chain sha rows \<Longrightarrow> sort_key ab_seq rows = rows"
  by (rule sort_key_id_if_sorted) (auto simp: good_chain_def dest: numbered_sorted)

lemma newest_row_Nil [simp]: "newest_row [] = None"
  by (simp add: newest_row_def)

lemma newest_row_good: "good_chain sha rows \<Longrightarrow> newest_row rows = (if rows = [] then None else Some (last rows))"
  by (simp add: newest_row_def good_chain_sort)

section \<open>Histories of appends\<close>

fun audit_run :: "(string \<Rightarrow> string) \<Rightarrow> audit_state \<Rightarrow> audit_call list \<Rightarrow> audit_state" where
  "audit_run sha st [] = st"
| "audit_run sha st (c # cs) = audit_run sha (fst (append_audit sha c st)) cs"

lemma audit_run_append: "audit_run sha st (cs @ ds) = audit_run sha (audit_run sha st cs) ds"
  by (induction cs arbitrary: st) auto

lemma next_row_body [simp]:
  "ab_seq (next_row sha rows c) = (case newest_row rows of None \<Rightarrow> 1 | Some r \<Rightarrow> ab_seq r + 1)"
  "ab_prev (next_row sha rows c) = (case newest_row rows of None \<Rightarrow> ZERO_HASH | Some r \<Rightarrow> ar_hash r)"
  "sealed sha (next_row sha rows c)"
  by (simp_all add: next_row_def sealed_def Let_def audit_body.extend_def audit_row.fields_def audit_body.truncate_def)

lemma numbered_last: "numbered n rows \<Longrightarrow> rows \<noteq> [] \<Longrightarrow> ab_seq (last rows) = n + int (length rows) - 1"
  by (cases rows rule: rev_cases) (simp_all add: numbered_append)

lemma good_chain_next:
  assumes "good_chain sha rows"
  shows "good_chain sha (rows @ [next_row sha rows c])"
  using assms head_digest_last [of rows sha ZERO_HASH] numbered_last [of 1 rows]
  by (cases "rows = []") (auto simp: good_chain_def numbered_append audit.chained_snoc newest_row_good [OF assms])

lemma append_audit_rows:
  "au_rows (fst (append_audit sha c st)) =
     (if ac_fault c then au_rows st else au_rows st @ [next_row sha (au_rows st) c])"
  by (simp add: append_audit_def Let_def)

lemma audit_run_rows:
  assumes "good_chain sha (au_rows st)"
  shows "good_chain sha (au_rows (audit_run sha st cs)) \<and>
         (\<exists>rs. au_rows (audit_run sha st cs) = au_rows st @ rs \<and> length rs = length (filter (Not \<circ> ac_fault) cs))"
  using assms
proof (induction cs arbitrary: st)
  case (Cons c cs)
  have "good_chain sha (au_rows (fst (append_audit sha c st)))"
    using Cons.prems good_chain_next by (simp add: append_audit_rows)
  from Cons.IH [OF this] show ?case by (auto simp: append_audit_rows)
qed simp

definition anchor_of :: "audit_state \<Rightarrow> (int \<times> string) option" where
  "anchor_of st = map_option (\<lambda>r. (ab_seq r, ar_hash r)) (newest_row (au_rows st))"

lemma good_chain_init: "good_chain sha (au_rows audit_init)"
  by (simp add: good_chain_def audit_init_def)

text \<open>A head recorded at any moment is found, unchanged, in every later state of the log.\<close>

lemma verify_run_anchor:
  assumes good: "good_chain sha (au_rows st)"
  shows "av_ok (verify_audit_chain sha (anchor_of st) (au_rows (audit_run sha st later)))"
proof -
  obtain rs where all: "good_chain sha (au_rows (audit_run sha st later))"
    and rs: "au_rows (audit_run sha st later) = au_rows st @ rs"
    using audit_run_rows [OF good] by blast
  have "find (\<lambda>r. ab_seq r = ab_seq (last (au_rows st))) (au_rows st @ rs) = Some (last (au_rows st))"
    if "au_rows st \<noteq> []"
  proof -
    have n: "numbered 1 (au_rows st @ rs)" "numbered 1 (au_rows st)" using all good rs by (auto simp: good_chain_def)
    have "ab_seq (last (au_rows st)) = int (length (au_rows st))" using numbered_last [OF n(2) that] by simp
    with that show ?thesis by (simp add: numbered_find [OF n(1)] nat_diff_distrib' nth_append last_conv_nth Suc_leI)
  qed
  then show ?thesis
    using all rs by (auto simp: verify_ok_iff good_chain_sort [OF all [unfolded rs]] anchor_of_def
        newest_row_good [OF good])
qed

text \<open>C3: Whatever sequence of appends runs, with or without database failures, the log verifies, also
  against the head recorded at any earlier moment, and it has one row per append that did not fail.\<close>

theorem audit_log_always_verifies:
  "av_ok (verify_audit_chain sha (anchor_of (audit_run sha audit_init before))
                                 (au_rows (audit_run sha audit_init (before @ later))))
   \<and> length (au_rows (audit_run sha audit_init (before @ later))) = length (filter (Not \<circ> ac_fault) (before @ later))"
proof -
  have "good_chain sha (au_rows (audit_run sha audit_init before))"
    using audit_run_rows [OF good_chain_init] by blast
  then show ?thesis
    using verify_run_anchor audit_run_rows [OF good_chain_init [of sha], of "before @ later"]
    by (auto simp: audit_run_append audit_init_def)
qed

lemma anchored_prefix:
  assumes "av_ok (verify_audit_chain sha (Some (a, h)) t)"
  defines "rows \<equiv> take (nat a) (sort_key ab_seq t)"
  shows "list_all (sealed sha) rows" "audit.chained sha ZERO_HASH (map body_of rows)" "length rows = nat a"
    "audit.head_digest sha ZERO_HASH (map body_of rows) = h"
proof -
  let ?s = "sort_key ab_seq t"
  from assms(1) obtain r where good: "good_chain sha ?s" and r: "find (\<lambda>r. ab_seq r = a) ?s = Some r" "ar_hash r = h"
    by (auto simp: verify_ok_iff)
  then have a: "1 \<le> a" "a \<le> int (length ?s)" "r = ?s ! nat (a - 1)"
    using numbered_find [of 1 ?s a] by (auto simp: good_chain_def split: if_splits)
  have pre: "good_chain sha rows"
    unfolding rows_def using good by (metis append_take_drop_id good_chain_prefix)
  then show sealed: "list_all (sealed sha) rows" and "audit.chained sha ZERO_HASH (map body_of rows)"
    by (simp_all add: good_chain_def)
  show len: "length rows = nat a" using a by (simp add: rows_def)
  have ne: "rows \<noteq> []" using len a(1) by auto
  have "last rows = r" using a len last_conv_nth [OF ne] by (simp add: rows_def nat_diff_distrib)
  then show "audit.head_digest sha ZERO_HASH (map body_of rows) = h"
    using head_digest_last [OF ne sealed] r(2) by simp
qed

lemma map_inj_on_eq_lists:
  "map f xs = map f ys \<Longrightarrow> (\<And>x y. x \<in> set xs \<Longrightarrow> y \<in> set ys \<Longrightarrow> f x = f y \<Longrightarrow> x = y) \<Longrightarrow> xs = ys"
  by (induction xs arbitrary: ys) (auto simp: Cons_eq_map_conv)


definition sample_call :: "string \<Rightarrow> audit_call" where
  "sample_call action =
     \<lparr>ac_actor = ''user:local'', ac_action = action, ac_target = Some ''alert:1'', ac_details = ''{}'',
      ac_ts = \<lparr>dt_year = 2026, dt_month = 8, dt_day = 25, dt_hour = 0, dt_minute = 0, dt_second = 0,
               dt_microsecond = 0\<rparr>,
      ac_mono = 0, ac_fault = False\<rparr>"

definition sample_log :: "string list \<Rightarrow> audit_row list" where
  "sample_log actions = au_rows (audit_run (\<lambda>s. s) audit_init (map sample_call actions))"


section \<open>Escalation\<close>

text \<open>The listener calls of a history: their times and the failure counts passed.\<close>

fun listener_calls :: "(string \<Rightarrow> string) \<Rightarrow> audit_state \<Rightarrow> audit_call list \<Rightarrow> (real \<times> nat) list" where
  "listener_calls sha st [] = []"
| "listener_calls sha st (c # cs) =
     (case append_audit sha c st of
        (st', _, fired) \<Rightarrow>
          (case fired of None \<Rightarrow> [] | Some n \<Rightarrow> [(ac_mono c, n)]) @ listener_calls sha st' cs)"

lemma append_fault:
  "ac_fault c \<Longrightarrow> au_rows (fst (append_audit sha c st)) = au_rows st \<and> fst (snd (append_audit sha c st)) = None"
  by (simp add: append_audit_def Let_def)

lemma append_fired:
  assumes "append_audit sha c st = (st', res, Some n)"
  shows "FAILURE_ALERT_THRESHOLD \<le> n \<and> n \<le> FAILURE_WINDOW \<and> au_last_alert st' = Some (ac_mono c)
     \<and> (\<forall>t. au_last_alert st = Some t \<longrightarrow> t + FAILURE_COOLDOWN_S \<le> ac_mono c)"
proof -
  have "length (filter Not (ring_push FAILURE_WINDOW (au_outcomes st) False)) \<le> FAILURE_WINDOW"
    using length_filter_le ring_push_le order_trans by blast
  with assms show ?thesis
    by (auto simp: append_audit_def Let_def split: if_splits option.splits)
qed

lemma append_not_fired:
  "append_audit sha c st = (st', res, None) \<Longrightarrow> au_last_alert st' = au_last_alert st"
  by (auto simp: append_audit_def Let_def split: if_splits option.splits)

lemma listener_calls_after:
  "(t, n) \<in> set (listener_calls sha st cs) \<Longrightarrow> au_last_alert st = Some s \<Longrightarrow> s + FAILURE_COOLDOWN_S \<le> t"
proof (induction cs arbitrary: st s)
  case (Cons c cs)
  obtain st' res f where app: "append_audit sha c st = (st', res, f)" by (cases "append_audit sha c st") auto
  show ?case
  proof (cases f)
    case None
    with Cons app append_not_fired [of sha c st st' res] show ?thesis by auto
  next
    case (Some k)
    then have k: "au_last_alert st' = Some (ac_mono c)" "s + FAILURE_COOLDOWN_S \<le> ac_mono c"
      using append_fired [of sha c st st' res k] app Cons.prems(2) by auto
    moreover have "0 \<le> FAILURE_COOLDOWN_S" by (simp add: FAILURE_COOLDOWN_S_def)
    ultimately show ?thesis using Cons.prems Cons.IH [of st' "ac_mono c"] app Some by auto
  qed
qed simp

text \<open>Escalation of swallowed failures. Over any history the failure listener is called only with at
  least five and at most twenty failures in its window, and two calls are at least the cooldown of 300
  seconds apart.\<close>

theorem failure_listener_is_rate_limited:
  "sorted_wrt (\<lambda>(t, _) (u, _). t + 300 \<le> u) (listener_calls sha st cs)
   \<and> list_all (\<lambda>(_, n). 5 \<le> n \<and> n \<le> 20) (listener_calls sha st cs)"
proof (induction cs arbitrary: st)
  case (Cons c cs)
  obtain st' res f where app: "append_audit sha c st = (st', res, f)" by (cases "append_audit sha c st") auto
  show ?case
  proof (cases f)
    case (Some k)
    then have k: "au_last_alert st' = Some (ac_mono c)" "5 \<le> k" "k \<le> 20"
      using append_fired [of sha c st st' res k] app
      by (auto simp: FAILURE_ALERT_THRESHOLD_def FAILURE_WINDOW_def)
    then have "\<forall>(u, n)\<in>set (listener_calls sha st' cs). ac_mono c + 300 \<le> u"
      using listener_calls_after by (fastforce simp: FAILURE_COOLDOWN_S_def)
    with k app Some Cons.IH [of st'] show ?thesis by auto
  qed (use app Cons.IH [of st'] in auto)
qed simp

end
