(* ===== verification/Alerts.thy ===== *)
theory Alerts
  imports Audit_Log
begin

text \<open>
  The alert subsystem of \<^verbatim>\<open>inspectord/alerts/\<close>: the status state machine (\<^verbatim>\<open>lifecycle.py\<close>), the construction of
  an alert from a match (\<^verbatim>\<open>builder.py\<close>), the deduplicating store (\<^verbatim>\<open>dedup.py\<close>) and the IPC handlers
  (\<^verbatim>\<open>ipc_handlers.py\<close>). The alerts table is keyed by the alert id; the stored payload is the alert itself
  (its JSON text is third-party code). Where SQL leaves the choice among equal sort keys open, the
  model takes the row inserted first.
\<close>

section \<open>Status state machine\<close>

fun allowed_targets :: "alert_status \<Rightarrow> alert_status list" where
  "allowed_targets New = [Acknowledged, Resolved, Suppressed]"
| "allowed_targets Acknowledged = [Resolved, Suppressed]"
| "allowed_targets Resolved = []"
| "allowed_targets Suppressed = []"

definition validate_transition :: "alert_status \<Rightarrow> alert_status \<Rightarrow> bool" where
  "validate_transition current target \<longleftrightarrow> target \<in> set (allowed_targets current)"

definition status_of :: "string \<Rightarrow> alert_status option" where
  "status_of s = find (\<lambda>st. alert_status_value st = s) [New, Acknowledged, Resolved, Suppressed]"

section \<open>Building an alert\<close>

datatype build_error = Bad_severity | Bad_strings

definition all_strings :: "pyval list \<Rightarrow> string list option" where
  "all_strings vs = all_some (map (\<lambda>v. case v of PStr s \<Rightarrow> Some s | _ \<Rightarrow> None) vs)"

definition build_alert :: "string \<Rightarrow> rule_match \<Rightarrow> event \<Rightarrow> build_error + alert" where
  "build_alert alert_id m e =
     (case severity_of (m_severity m) of
        None \<Rightarrow> Inl Bad_severity
      | Some sev \<Rightarrow>
          (case (all_strings (m_false_positives m), all_strings (m_labels m)) of
             (Some fps, Some labels) \<Rightarrow> Inr
               \<lparr>al_schema_version = ''1.0.0'', al_id = alert_id,
                al_rule = \<lparr>rr_id = m_rule_id m, rr_name = (if m_rule_name m = [] then m_rule_id m else m_rule_name m),
                           rr_ruleset = ''starter-pack'', rr_version = ''1.0.0'', rr_severity = sev,
                           rr_why = m_why m, rr_false_positives = fps\<rparr>,
                al_ts = ev_ts e, al_severity = sev, al_status = New, al_category = m_category m,
                al_event_ids = (if m_event_ids m = [] then [ev_id e] else m_event_ids m),
                al_entities = [\<lparr>ent_kind = m_entity_kind m, ent_key = m_entity_key m\<rparr>],
                al_incident_id = None, al_dedup_key = m_dedup_key m, al_dedup_count = 1,
                al_first_seen_at = ev_ts e, al_last_seen_at = ev_ts e, al_evidence_case_id = None,
                al_notes = [], al_labels = labels,
                al_rendered = \<lparr>rend_short = m_short m, rend_detail = m_detail m\<rparr>\<rparr>
           | _ \<Rightarrow> Inl Bad_strings))"

section \<open>The deduplicating store\<close>

record alert_row =
  aw_rule_id :: string
  aw_ts :: datetime
  aw_severity :: string
  aw_status :: string
  aw_category :: string
  aw_dedup_key :: string
  aw_dedup_count :: int
  aw_first_seen :: datetime
  aw_last_seen :: datetime
  aw_short :: string
  aw_detail :: string
  aw_payload :: alert

type_synonym alerts = "(string, alert_row) table"

definition alert_row_of :: "alert \<Rightarrow> alert_row" where
  "alert_row_of a =
     \<lparr>aw_rule_id = rr_id (al_rule a), aw_ts = al_ts a, aw_severity = severity_value (al_severity a),
      aw_status = alert_status_value (al_status a), aw_category = al_category a,
      aw_dedup_key = al_dedup_key a, aw_dedup_count = al_dedup_count a,
      aw_first_seen = al_first_seen_at a, aw_last_seen = al_last_seen_at a,
      aw_short = rend_short (al_rendered a), aw_detail = rend_detail (al_rendered a), aw_payload = a\<rparr>"

text \<open>\<^verbatim>\<open>ORDER BY last_seen_at DESC LIMIT 1\<close>.\<close>

fun latest_seen :: "alerts \<Rightarrow> (string \<times> alert_row) option" where
  "latest_seen [] = None"
| "latest_seen (x # xs) =
     (case latest_seen xs of
        None \<Rightarrow> Some x
      | Some y \<Rightarrow> if aw_last_seen (snd y) > aw_last_seen (snd x) then Some y else Some x)"

definition open_window :: "string \<Rightarrow> datetime \<Rightarrow> alerts \<Rightarrow> alerts" where
  "open_window key cutoff t = filter (\<lambda>(i, r). aw_dedup_key r = key \<and> aw_last_seen r \<ge> cutoff) t"

text \<open>The two updates a bump can make.\<close>

definition bump_row :: "alert \<Rightarrow> alert_row \<Rightarrow> alert_row" where
  "bump_row a r =
     (if aw_status r = alert_status_value New
      then r\<lparr>aw_dedup_count := aw_dedup_count r + 1, aw_last_seen := al_last_seen_at a,
             aw_short := rend_short (al_rendered a), aw_detail := rend_detail (al_rendered a), aw_payload := a\<rparr>
      else r\<lparr>aw_dedup_count := aw_dedup_count r + 1, aw_last_seen := al_last_seen_at a\<rparr>)"

text \<open>\<^verbatim>\<open>persist\<close>: the new table, the final alert, was-new and notifiable; \<open>None\<close> when the insert violates the
  primary key.\<close>

definition persist ::
  "timedelta \<Rightarrow> real option \<Rightarrow> alert \<Rightarrow> alerts \<Rightarrow> (alerts \<times> alert \<times> bool \<times> bool) option" where
  "persist default_window window_s a t =
     (let window = (case window_s of None \<Rightarrow> default_window | Some s \<Rightarrow> timedelta_seconds s);
          cutoff = al_ts a - window
      in case latest_seen (open_window (al_dedup_key a) cutoff t) of
           Some (existing_id, r) \<Rightarrow>
             Some (AList.update existing_id (bump_row a r) t,
                   a\<lparr>al_id := existing_id, al_dedup_count := aw_dedup_count r + 1,
                     al_first_seen_at := aw_first_seen r\<rparr>,
                   False, aw_status r = alert_status_value New)
         | None \<Rightarrow>
             if map_of t (al_id a) \<noteq> None then None
             else Some (AList.update (al_id a) (alert_row_of a) t, a, True, True))"

section \<open>IPC handlers\<close>

record alert_db =
  db_alerts :: alerts
  db_audit :: audit_state

datatype alert_reply =
    Alert_not_found
  | Alert_ok alert_status
  | Invalid_transition alert_status alert_status
  | Bad_status string

fun audit_action :: "alert_status \<Rightarrow> string" where
  "audit_action Acknowledged = ''alert_acked''"
| "audit_action Resolved = ''alert_resolved''"
| "audit_action Suppressed = ''alert_suppressed''"
| "audit_action New = ''''"

text \<open>The clock readings and the outcome of the audit insert come with the call as in \<open>audit_call\<close>; its
  other fields are filled in here.\<close>

definition transition ::
  "(string \<Rightarrow> string) \<Rightarrow> audit_call \<Rightarrow> string \<Rightarrow> alert_status \<Rightarrow> alert_db \<Rightarrow> alert_db \<times> alert_reply" where
  "transition sha env alert_id target db =
     (case map_of (db_alerts db) alert_id of
        None \<Rightarrow> (db, Alert_not_found)
      | Some r \<Rightarrow>
          (case status_of (aw_status r) of
             None \<Rightarrow> (db, Bad_status (aw_status r))
           | Some current \<Rightarrow>
               if \<not> validate_transition current target then (db, Invalid_transition current target)
               else (db\<lparr>db_alerts := AList.update alert_id (r\<lparr>aw_status := alert_status_value target\<rparr>) (db_alerts db),
                        db_audit := fst (append_audit sha
                          (env\<lparr>ac_actor := ''user:local'', ac_action := audit_action target,
                               ac_target := Some (''alert:'' @ alert_id), ac_details := ''{}''\<rparr>) (db_audit db))\<rparr>,
                     Alert_ok target)))"

definition handle_ack_alert :: "(string \<Rightarrow> string) \<Rightarrow> (pyval \<Rightarrow> string) \<Rightarrow> audit_call \<Rightarrow> pydict \<Rightarrow> alert_db \<Rightarrow> alert_db \<times> alert_reply" where
  "handle_ack_alert sha ostr env params =
     transition sha env (py_str ostr (case map_of params ''alert_id'' of None \<Rightarrow> PStr '''' | Some v \<Rightarrow> v)) Acknowledged"

definition handle_resolve_alert :: "(string \<Rightarrow> string) \<Rightarrow> (pyval \<Rightarrow> string) \<Rightarrow> audit_call \<Rightarrow> pydict \<Rightarrow> alert_db \<Rightarrow> alert_db \<times> alert_reply" where
  "handle_resolve_alert sha ostr env params =
     transition sha env (py_str ostr (case map_of params ''alert_id'' of None \<Rightarrow> PStr '''' | Some v \<Rightarrow> v)) Resolved"

definition handle_suppress_alert :: "(string \<Rightarrow> string) \<Rightarrow> (pyval \<Rightarrow> string) \<Rightarrow> audit_call \<Rightarrow> pydict \<Rightarrow> alert_db \<Rightarrow> alert_db \<times> alert_reply" where
  "handle_suppress_alert sha ostr env params =
     transition sha env (py_str ostr (case map_of params ''alert_id'' of None \<Rightarrow> PStr '''' | Some v \<Rightarrow> v)) Suppressed"

definition handle_get_alert :: "(pyval \<Rightarrow> string) \<Rightarrow> pydict \<Rightarrow> alert_db \<Rightarrow> alert option" where
  "handle_get_alert ostr params db =
     map_option aw_payload
       (map_of (db_alerts db) (py_str ostr (case map_of params ''alert_id'' of None \<Rightarrow> PStr '''' | Some v \<Rightarrow> v)))"

text \<open>The listing: optional filters on status and severity, newest first, at most \<^verbatim>\<open>limit\<close> rows. \<open>None\<close> is the
  exception of \<^verbatim>\<open>int(limit)\<close> or of a negative SQL limit.\<close>

definition handle_list_alerts :: "(pyval \<Rightarrow> string) \<Rightarrow> pydict \<Rightarrow> alert_db \<Rightarrow> (string \<times> alert_row) list option" where
  "handle_list_alerts ostr params db =
     (let status = dget params ''status''; severity = dget params ''severity''
      in case int_of (case map_of params ''limit'' of None \<Rightarrow> PInt 100 | Some v \<Rightarrow> v) of
           None \<Rightarrow> None
         | Some limit \<Rightarrow>
             if limit < 0 then None
             else Some (take (nat limit) (sort_key (\<lambda>(_, r). - aw_ts r)
                    (filter (\<lambda>(_, r). (\<not> truthy status \<or> aw_status r = py_str ostr status)
                                     \<and> (\<not> truthy severity \<or> aw_severity r = py_str ostr severity))
                       (db_alerts db)))))"

section \<open>Deduplication\<close>

lemma latest_seen_None [simp]: "latest_seen t = None \<longleftrightarrow> t = []"
  by (cases t) (auto split: option.splits)

lemma latest_seen_max:
  "latest_seen t = Some x \<Longrightarrow> x \<in> set t \<and> (\<forall>y\<in>set t. aw_last_seen (snd y) \<le> aw_last_seen (snd x))"
proof (induction t arbitrary: x)
  case (Cons z t)
  then show ?case
    by (cases "latest_seen t") (fastforce split: if_splits)+
qed simp

lemma bump_row_simps [simp]:
  "aw_status (bump_row a r) = aw_status r" "aw_first_seen (bump_row a r) = aw_first_seen r"
  "aw_dedup_count (bump_row a r) = aw_dedup_count r + 1" "aw_last_seen (bump_row a r) = al_last_seen_at a"
  "aw_dedup_key (bump_row a r) = aw_dedup_key r" "aw_rule_id (bump_row a r) = aw_rule_id r"
  "aw_ts (bump_row a r) = aw_ts r" "aw_severity (bump_row a r) = aw_severity r"
  by (simp_all add: bump_row_def)

definition dedup_cutoff :: "timedelta \<Rightarrow> real option \<Rightarrow> alert \<Rightarrow> datetime" where
  "dedup_cutoff dw ws a = al_ts a - (case ws of None \<Rightarrow> dw | Some s \<Rightarrow> timedelta_seconds s)"

lemma persist_None:
  "open_window (al_dedup_key a) (dedup_cutoff dw ws a) t = [] \<Longrightarrow> persist dw ws a t =
     (if map_of t (al_id a) \<noteq> None then None else Some (AList.update (al_id a) (alert_row_of a) t, a, True, True))"
  by (simp add: persist_def dedup_cutoff_def Let_def)

lemma persist_Some:
  "latest_seen (open_window (al_dedup_key a) (dedup_cutoff dw ws a) t) = Some (i, r) \<Longrightarrow> persist dw ws a t =
     Some (AList.update i (bump_row a r) t,
           a\<lparr>al_id := i, al_dedup_count := aw_dedup_count r + 1, al_first_seen_at := aw_first_seen r\<rparr>,
           False, aw_status r = alert_status_value New)"
  by (simp add: persist_def dedup_cutoff_def Let_def)

text \<open>The two ways a call can end.\<close>

lemma persist_cases:
  assumes "wf_table t" "persist dw ws a t = Some (t', b, was_new, notif)"
  obtains (insert) "open_window (al_dedup_key a) (dedup_cutoff dw ws a) t = []" "map_of t (al_id a) = None"
      "t' = AList.update (al_id a) (alert_row_of a) t" "b = a" "was_new" "notif"
    | (bump) i r where "map_of t i = Some r" "aw_dedup_key r = al_dedup_key a" "dedup_cutoff dw ws a \<le> aw_last_seen r"
      "\<forall>(j, q)\<in>set t. aw_dedup_key q = al_dedup_key a \<longrightarrow> dedup_cutoff dw ws a \<le> aw_last_seen q
          \<longrightarrow> aw_last_seen q \<le> aw_last_seen r"
      "t' = AList.update i (bump_row a r) t"
      "b = a\<lparr>al_id := i, al_dedup_count := aw_dedup_count r + 1, al_first_seen_at := aw_first_seen r\<rparr>"
      "\<not> was_new" "notif \<longleftrightarrow> aw_status r = alert_status_value New"
proof (cases "latest_seen (open_window (al_dedup_key a) (dedup_cutoff dw ws a) t)")
  case None
  then have none: "open_window (al_dedup_key a) (dedup_cutoff dw ws a) t = []" by simp
  show ?thesis
    using assms(2) by (intro insert none) (auto simp: persist_None [OF none] split: if_splits)
next
  case (Some x)
  obtain i r where x: "x = (i, r)" by (cases x)
  from latest_seen_max [OF Some] have "(i, r) \<in> set t" and
      key: "aw_dedup_key r = al_dedup_key a" "dedup_cutoff dw ws a \<le> aw_last_seen r" and
      others: "\<forall>y\<in>set (open_window (al_dedup_key a) (dedup_cutoff dw ws a) t). aw_last_seen (snd y) \<le> aw_last_seen r"
    by (auto simp: x open_window_def)
  then have "map_of t i = Some r" using assms(1) by simp
  moreover have "\<forall>(j, q)\<in>set t. aw_dedup_key q = al_dedup_key a \<longrightarrow> dedup_cutoff dw ws a \<le> aw_last_seen q
      \<longrightarrow> aw_last_seen q \<le> aw_last_seen r"
    using others by (auto simp: open_window_def)
  ultimately show ?thesis using assms(2) key
    by (intro bump [of i r]) (simp_all add: persist_Some [OF Some [unfolded x]])
qed

lemma persist_wf: "wf_table t \<Longrightarrow> persist dw ws a t = Some (t', b, n, f) \<Longrightarrow> wf_table t'"
  by (cases rule: persist_cases [of t dw ws a t' b n f]) simp_all


text \<open>An alert for the concrete examples.\<close>

definition mk_alert :: "string \<Rightarrow> string \<Rightarrow> datetime \<Rightarrow> alert" where
  "mk_alert i key ts = projr (build_alert i (mk_match ''R'' ''high'' ''host'' ''h'' key None) (mk_event ts ''e'' ''m'' ''a'' Info))"

lemma mk_alert_simps [simp]:
  "al_id (mk_alert i key ts) = i" "al_dedup_key (mk_alert i key ts) = key" "al_ts (mk_alert i key ts) = ts"
  "al_dedup_count (mk_alert i key ts) = 1" "al_last_seen_at (mk_alert i key ts) = ts" "al_status (mk_alert i key ts) = New"
  by (simp_all add: mk_alert_def mk_match_def build_alert_def severity_of_def all_strings_def)

lemma alert_row_of_simps [simp]:
  "aw_dedup_key (alert_row_of a) = al_dedup_key a" "aw_last_seen (alert_row_of a) = al_last_seen_at a"
  "aw_status (alert_row_of a) = alert_status_value (al_status a)" "aw_dedup_count (alert_row_of a) = al_dedup_count a"
  "aw_first_seen (alert_row_of a) = al_first_seen_at a" "aw_ts (alert_row_of a) = al_ts a"
  by (simp_all add: alert_row_of_def)

definition sample_alerts :: alerts where
  "sample_alerts = [(''A1'', alert_row_of (mk_alert ''A1'' ''k'' 0))]"

lemma sample_bump:
  "\<exists>t' b. persist (seconds 600) None (mk_alert ''A2'' ''k'' 5) sample_alerts = Some (t', b, False, True) \<and>
     al_id b = ''A1''"
proof -
  let ?a = "mk_alert ''A2'' ''k'' 5" and ?r = "alert_row_of (mk_alert ''A1'' ''k'' 0)"
  have window: "open_window (al_dedup_key ?a) (dedup_cutoff (seconds 600) None ?a) sample_alerts = sample_alerts"
    by (simp add: open_window_def dedup_cutoff_def sample_alerts_def seconds_def)
  then have "latest_seen (open_window (al_dedup_key ?a) (dedup_cutoff (seconds 600) None ?a) sample_alerts) = Some (''A1'', ?r)"
    by (simp only: window) (simp add: sample_alerts_def)
  from persist_Some [OF this] show ?thesis by simp
qed


section \<open>No firing is lost\<close>

fun persist_all :: "timedelta \<Rightarrow> (real option \<times> alert) list \<Rightarrow> alerts \<Rightarrow> alerts option" where
  "persist_all dw [] t = Some t"
| "persist_all dw ((ws, a) # as) t =
     (case persist dw ws a t of None \<Rightarrow> None | Some (t', _) \<Rightarrow> persist_all dw as t')"

definition firings :: "string \<Rightarrow> alerts \<Rightarrow> int" where
  "firings key t = sum_list (map (\<lambda>(_, r). if aw_dedup_key r = key then aw_dedup_count r else 0) t)"

lemma firings_append_row: "map_of t i = None \<Longrightarrow> firings key (AList.update i r t) =
    firings key t + (if aw_dedup_key r = key then aw_dedup_count r else 0)"
  by (induction t) (auto simp: firings_def split: if_splits)

lemma firings_update_row:
  "wf_table t \<Longrightarrow> map_of t i = Some r \<Longrightarrow> aw_dedup_key r' = aw_dedup_key r \<Longrightarrow>
     firings key (AList.update i r' t) =
       firings key t + (if aw_dedup_key r = key then aw_dedup_count r' - aw_dedup_count r else 0)"
  by (induction t) (auto simp: firings_def split: if_splits)

lemma persist_firings:
  assumes "wf_table t" "persist dw ws a t = Some (t', rest)" "al_dedup_count a = 1"
  shows "firings key t' = firings key t + (if al_dedup_key a = key then 1 else 0)"
proof -
  obtain b n f where "rest = (b, n, f)" by (cases rest)
  with assms(2) have run: "persist dw ws a t = Some (t', b, n, f)" by simp
  from assms(1) run show ?thesis
  proof (cases rule: persist_cases)
    case insert
    then show ?thesis using assms(3) by (simp add: firings_append_row)
  next
    case (bump i r)
    then show ?thesis by (simp add: firings_update_row [OF assms(1)])
  qed
qed

text \<open>No firing is lost. After any sequence of alerts, each built with count one, the dedup counts of a key's
  rows add up to the number of alerts with that key.\<close>

theorem dedup_counts_every_firing:
  assumes "persist_all dw as [] = Some t" and "list_all (\<lambda>(_, a). al_dedup_count a = 1) as"
  shows "firings key t = int (length (filter (\<lambda>(_, a). al_dedup_key a = key) as))"
proof -
  have "firings key t' = firings key t0 + int (length (filter (\<lambda>(_, a). al_dedup_key a = key) as))"
    if "wf_table t0" "persist_all dw as t0 = Some t'" "list_all (\<lambda>(_, a). al_dedup_count a = 1) as" for t0 t'
    using that
  proof (induction as arbitrary: t0)
    case (Cons p as)
    obtain ws a where p: "p = (ws, a)" by (cases p)
    with Cons.prems obtain t1 rest where run: "persist dw ws a t0 = Some (t1, rest)" and all: "persist_all dw as t1 = Some t'"
      by (auto split: option.splits)
    moreover have "wf_table t1" using Cons.prems(1) run persist_wf by (metis prod.exhaust)
    ultimately show ?case
      using Cons.IH [of t1] Cons.prems(3) persist_firings [OF Cons.prems(1) run, of key] p by auto
  qed simp
  from this [OF _ assms] show ?thesis by (simp add: firings_def)
qed

theorem dedup_counts_every_firing_witness:
  "firings ''k'' [(''A1'', alert_row_of (mk_alert ''A1'' ''k'' 0))] = 1"
proof -
  have "persist_all (seconds 600) [(None, mk_alert ''A1'' ''k'' 0)] [] = Some [(''A1'', alert_row_of (mk_alert ''A1'' ''k'' 0))]"
    by (simp add: persist_None open_window_def)
  from dedup_counts_every_firing [OF this, of "''k''"] show ?thesis by simp
qed

section \<open>The life of an alert\<close>

text \<open>The operations that write the alerts table, in any interleaving: the rule engine persisting an alert
  and a client asking for a transition.\<close>

inductive alert_step :: "(string \<Rightarrow> string) \<Rightarrow> alert_db \<Rightarrow> alert_db \<Rightarrow> bool" for sha where
  step_persist: "persist dw ws a (db_alerts db) = Some (t, b, n, f) \<Longrightarrow> alert_step sha db (db\<lparr>db_alerts := t\<rparr>)"
| step_transition: "alert_step sha db (fst (transition sha env i target db))"

inductive_cases alert_step_cases: "alert_step sha db db'"

definition status_path :: "alert_status \<Rightarrow> alert_status \<Rightarrow> bool" where
  "status_path = validate_transition\<^sup>*\<^sup>*"

lemma status_path_refl [simp]: "status_path s s"
  by (simp add: status_path_def)

lemma status_path_step: "status_path a b \<Longrightarrow> validate_transition b c \<Longrightarrow> status_path a c"
  by (simp add: status_path_def rtranclp.rtrancl_into_rtrancl)

lemma status_path_terminal: "status_path s s' \<Longrightarrow> allowed_targets s = [] \<Longrightarrow> s' = s"
  unfolding status_path_def by (erule converse_rtranclpE) (auto simp: validate_transition_def)

lemma status_of_value [simp]: "status_of (alert_status_value s) = Some s"
  by (cases s) (simp_all add: status_of_def)

text \<open>What one operation may do to a row that exists.\<close>

definition row_evolves :: "alert_row \<Rightarrow> alert_row \<Rightarrow> bool" where
  "row_evolves r r' \<longleftrightarrow>
     aw_rule_id r' = aw_rule_id r \<and> aw_ts r' = aw_ts r \<and> aw_severity r' = aw_severity r \<and>
     aw_dedup_key r' = aw_dedup_key r \<and> aw_first_seen r' = aw_first_seen r \<and> aw_dedup_count r \<le> aw_dedup_count r' \<and>
     (\<forall>s. status_of (aw_status r) = Some s \<longrightarrow> (\<exists>s'. status_of (aw_status r') = Some s' \<and> status_path s s'))"

lemma row_evolves_refl [simp]: "row_evolves r r"
  by (auto simp: row_evolves_def)

lemma row_evolves_trans: "row_evolves a b \<Longrightarrow> row_evolves b c \<Longrightarrow> row_evolves a c"
  unfolding row_evolves_def status_path_def by (metis (no_types, lifting) order_trans rtranclp_trans)

lemma bump_row_evolves [simp]: "row_evolves r (bump_row a r)"
  by (auto simp: row_evolves_def)

lemma transition_evolves:
  "map_of (db_alerts db) i = Some r \<Longrightarrow>
     \<exists>r'. map_of (db_alerts (fst (transition sha env j target db))) i = Some r' \<and> row_evolves r r'"
  by (auto simp: transition_def update_conv' row_evolves_def intro!: status_path_step [OF status_path_refl] split: option.splits)

lemma alert_step_evolves:
  assumes "alert_step sha db db'" "wf_table (db_alerts db)" "map_of (db_alerts db) i = Some r"
  shows "wf_table (db_alerts db') \<and> (\<exists>r'. map_of (db_alerts db') i = Some r' \<and> row_evolves r r')"
  using assms(1)
proof cases
  case (step_persist dw ws a t b n f)
  from assms(2) step_persist(2) show ?thesis
  proof (cases rule: persist_cases)
    case insert
    then show ?thesis using assms(2,3) step_persist(1) by (auto simp: update_conv')
  next
    case (bump j q)
    then show ?thesis using assms(2,3) step_persist(1)
      by (cases "i = j") (simp_all add: update_conv' del: map_of_eq_Some_iff)
  qed
next
  case (step_transition env j target)
  have "wf_table (db_alerts (fst (transition sha env j target db)))"
    using assms(2) by (simp add: transition_def split: option.split)
  then show ?thesis using transition_evolves [OF assms(3)] step_transition by blast
qed


definition sample_db :: alert_db where
  "sample_db = \<lparr>db_alerts = sample_alerts, db_audit = audit_init\<rparr>"


text \<open>Client requests. A transition the state machine forbids, an unknown id and an unreadable status change
  nothing; an allowed one sets the status of that row only and appends one audit row naming the
  alert, unless the audit insert fails.\<close>

theorem transition_effect:
  "case map_of (db_alerts db) i of
     None \<Rightarrow> transition sha env i target db = (db, Alert_not_found)
   | Some r \<Rightarrow>
       (case status_of (aw_status r) of
          None \<Rightarrow> transition sha env i target db = (db, Bad_status (aw_status r))
        | Some s \<Rightarrow>
            (let (db', reply) = transition sha env i target db
             in if validate_transition s target
                then reply = Alert_ok target \<and>
                     map_of (db_alerts db') = (map_of (db_alerts db))(i \<mapsto> r\<lparr>aw_status := alert_status_value target\<rparr>) \<and>
                     (\<exists>row. au_rows (db_audit db') = (if ac_fault env then au_rows (db_audit db) else au_rows (db_audit db) @ [row]) \<and>
                            ab_target row = Some (''alert:'' @ i) \<and> ab_action row = audit_action target)
                else db' = db \<and> reply = Invalid_transition s target))"
proof (cases "map_of (db_alerts db) i")
  case (Some r)
  show ?thesis
  proof (cases "status_of (aw_status r)")
    case (Some s)
    show ?thesis
    proof (cases "validate_transition s target")
      case True
      let ?env = "env\<lparr>ac_actor := ''user:local'', ac_action := audit_action target, ac_target := Some (''alert:'' @ i),
        ac_details := ''{}''\<rparr>"
      let ?row = "next_row sha (au_rows (db_audit db)) ?env"
      have "ab_target ?row = Some (''alert:'' @ i)" "ab_action ?row = audit_action target"
        by (simp_all add: next_row_def Let_def audit_body.extend_def)
      then show ?thesis
        using True Some \<open>map_of (db_alerts db) i = Some r\<close>
        by (auto simp: transition_def update_conv' append_audit_rows intro!: exI [of _ ?row])
    qed (use Some \<open>map_of (db_alerts db) i = Some r\<close> in \<open>simp add: transition_def\<close>)
  qed (use Some in \<open>simp add: transition_def\<close>)
qed (simp add: transition_def)

text \<open>After an open alert is bumped, the detail view answers the payload of the newest candidate: its id is
  the candidate's own and its count one, not the id and count of the row asked for.\<close>

theorem get_alert_after_bump_reports_candidate:
  assumes "wf_table t" and "persist dw ws a t = Some (t', b, False, True)"
  shows "handle_get_alert ostr [(''alert_id'', PStr (al_id b))] \<lparr>db_alerts = t', db_audit = au\<rparr> = Some a"
  using assms
  by (cases rule: persist_cases) (simp_all add: handle_get_alert_def update_conv' bump_row_def py_str_def)

theorem get_alert_after_bump_reports_candidate_witness:
  "\<exists>t' b. persist (seconds 600) None (mk_alert ''A2'' ''k'' 5) sample_alerts = Some (t', b, False, True) \<and> al_id b = ''A1'' \<and>
     handle_get_alert (\<lambda>_. []) [(''alert_id'', PStr ''A1'')] \<lparr>db_alerts = t', db_audit = audit_init\<rparr>
       = Some (mk_alert ''A2'' ''k'' 5)"
proof -
  obtain t' b where run: "persist (seconds 600) None (mk_alert ''A2'' ''k'' 5) sample_alerts = Some (t', b, False, True)"
      "al_id b = ''A1''"
    using sample_bump by blast
  moreover have "wf_table sample_alerts" by (simp add: sample_alerts_def)
  ultimately show ?thesis
    using get_alert_after_bump_reports_candidate [of sample_alerts _ _ _ t' b] by auto
qed

end
