(* ===== verification/Allowlist.thy ===== *)
theory Allowlist
  imports Events Pystring
begin

text \<open>
  The allowlist evaluator of \<^verbatim>\<open>inspectord/allowlist/evaluator.py\<close>, with the shell patterns of Python's
  \<^verbatim>\<open>fnmatch\<close> it relies on. The file loader (YAML and pydantic) is not modelled: entries are given.
\<close>

section \<open>Shell patterns\<close>

text \<open>The pieces of a translated pattern. A set is a list of chunks; the hyphen between two chunks
  spans the last character of the first and the first character of the second.\<close>

datatype glob_item = GStar | GAny | GChar char | GSet bool "string list"

fun in_chunks :: "char \<Rightarrow> string list \<Rightarrow> bool" where
  "in_chunks c [] = False"
| "in_chunks c [ch] = (c \<in> set ch)"
| "in_chunks c (ch # dh # rest) =
     (c \<in> set (butlast ch) \<or> (char_code (last ch) \<le> char_code c \<and> char_code c \<le> char_code (hd dh))
      \<or> in_chunks c (tl dh # rest))"

fun item_matches :: "glob_item \<Rightarrow> char \<Rightarrow> bool" where
  "item_matches GStar c = True"
| "item_matches GAny c = True"
| "item_matches (GChar d) c = (c = d)"
| "item_matches (GSet neg chunks) c = (if neg then \<not> in_chunks c chunks else in_chunks c chunks)"

text \<open>Splitting the inside of a bracket at its range hyphens: none of the first \<open>skip\<close> characters
  counts, and a hyphen is never directly after another one's right end.\<close>

function split_ranges :: "nat \<Rightarrow> string \<Rightarrow> string list" where
  "split_ranges skip s =
     (if CHR ''-'' \<in> set (drop skip s) then
        (let n = skip + length (takeWhile (\<lambda>c. c \<noteq> CHR ''-'') (drop skip s))
         in take n s # split_ranges 2 (drop (Suc n) s))
      else [s])"
  by pat_completeness auto
termination
  by (relation "measure (\<lambda>(_, s). length s)") (auto, metis (no_types) diff_less length_greater_0_conv drop_Nil list.set(1) empty_iff zero_less_Suc)

declare split_ranges.simps [simp del]

definition close_ranges :: "string list \<Rightarrow> string list" where
  "close_ranges chunks =
     (if length chunks > 1 \<and> last chunks = []
      then (let init = butlast chunks in butlast init @ [last init @ ''-'']) else chunks)"

text \<open>Empty ranges are removed from the right.\<close>

fun fix_ranges :: "string list \<Rightarrow> string list" where
  "fix_ranges [] = []"
| "fix_ranges [c] = [c]"
| "fix_ranges (c # d # cs) =
     (let ds = fix_ranges (d # cs)
      in if char_code (last c) > char_code (hd (hd ds)) then (butlast c @ tl (hd ds)) # tl ds else c # ds)"

definition bracket_item :: "string \<Rightarrow> glob_item" where
  "bracket_item stuff =
     (let skip = (if startswith stuff ''!'' then 2 else 1);
          chunks = (if CHR ''-'' \<notin> set stuff then [stuff]
                    else fix_ranges (close_ranges (split_ranges skip stuff)));
          neg = (case chunks of (c # _) \<Rightarrow> startswith c ''!'' | [] \<Rightarrow> False)
      in GSet neg (if neg then tl (hd chunks) # tl chunks else chunks))"

text \<open>Where the bracket opened before \<open>s\<close> closes: a leading \<^verbatim>\<open>!\<close> and a leading \<^verbatim>\<open>]\<close> belong to the set.\<close>

definition bracket_end :: "string \<Rightarrow> nat option" where
  "bracket_end s =
     (let j0 = (if startswith s ''!'' then 1 else 0);
          j1 = (if startswith (drop j0 s) '']'' then Suc j0 else j0);
          rest = drop j1 s
      in if CHR '']'' \<in> set rest then Some (j1 + length (takeWhile (\<lambda>c. c \<noteq> CHR '']'') rest)) else None)"

function glob_items :: "string \<Rightarrow> glob_item list" where
  "glob_items [] = []"
| "glob_items (c # s) =
     (if c = CHR ''*'' then GStar # glob_items s
      else if c = CHR ''?'' then GAny # glob_items s
      else if c = CHR ''['' then
        (case bracket_end s of
           None \<Rightarrow> GChar c # glob_items s
         | Some j \<Rightarrow> bracket_item (take j s) # glob_items (drop (Suc j) s))
      else GChar c # glob_items s)"
  by pat_completeness auto
termination by (relation "measure length") auto

fun glob_match :: "glob_item list \<Rightarrow> string \<Rightarrow> bool" where
  "glob_match [] s = (s = [])"
| "glob_match (GStar # items) [] = glob_match items []"
| "glob_match (GStar # items) (c # s) = (glob_match items (c # s) \<or> glob_match (GStar # items) s)"
| "glob_match (item # items) [] = False"
| "glob_match (item # items) (c # s) = (item_matches item c \<and> glob_match items s)"

definition fnmatch :: "string \<Rightarrow> string \<Rightarrow> bool" where
  "fnmatch name pat = glob_match (glob_items pat) name"

section \<open>The evaluator\<close>

text \<open>\<^verbatim>\<open>glob.replace("**", "*")\<close>: left to right, not overlapping.\<close>

fun glob_to_fnmatch :: "string \<Rightarrow> string" where
  "glob_to_fnmatch [] = []"
| "glob_to_fnmatch [c] = [c]"
| "glob_to_fnmatch (c # d # s) =
     (if c = CHR ''*'' \<and> d = CHR ''*'' then CHR ''*'' # glob_to_fnmatch s
      else c # glob_to_fnmatch (d # s))"

definition entry_matches :: "rule_match \<Rightarrow> allowlist_entry \<Rightarrow> bool" where
  "entry_matches m entry =
     (let scope = ae_scope entry
      in if (case sc_rule_id scope of None \<Rightarrow> False | Some r \<Rightarrow> r \<noteq> m_rule_id m) then False
         else if (case sc_entity scope of None \<Rightarrow> False
                  | Some en \<Rightarrow> ent_kind en \<noteq> m_entity_kind m \<or> ent_key en \<noteq> m_entity_key m) then False
         else if (case sc_path_glob scope of None \<Rightarrow> False
                  | Some g \<Rightarrow> m_entity_kind m \<noteq> ''file''
                      \<or> \<not> fnmatch (m_entity_key m) (glob_to_fnmatch g)) then False
         else sc_rule_id scope \<noteq> None \<or> sc_entity scope \<noteq> None \<or> sc_path_glob scope \<noteq> None
              \<or> sc_user_id scope \<noteq> None)"

definition is_suppressed :: "rule_match \<Rightarrow> allowlist_entry list \<Rightarrow> bool" where
  "is_suppressed m entries = (\<exists>entry\<in>set entries. entry_matches m entry)"

section \<open>What a pattern means\<close>

definition glob_special :: "char \<Rightarrow> bool" where
  "glob_special c = (c = CHR ''*'' \<or> c = CHR ''?'' \<or> c = CHR ''['')"

lemma glob_items_literal [simp]:
  "list_all (\<lambda>c. \<not> glob_special c) d \<Longrightarrow> glob_items (d @ p) = map GChar d @ glob_items p"
  by (induction d) (auto simp: glob_special_def)

lemma glob_match_literal [simp]:
  "glob_match (map GChar d @ items) s = (\<exists>t. s = d @ t \<and> glob_match items t)"
proof (induction d arbitrary: s)
  case (Cons c d)
  then show ?case by (cases s) auto
qed simp

lemma glob_match_star: "glob_match (GStar # items) s = (\<exists>u t. s = u @ t \<and> glob_match items t)"
proof (induction s)
  case step: (Cons c s)
  show ?case
  proof
    assume "glob_match (GStar # items) (c # s)"
    then consider "glob_match items (c # s)" | "glob_match (GStar # items) s" by auto
    then show "\<exists>u t. c # s = u @ t \<and> glob_match items t"
    proof cases
      case 2
      then obtain u t where "s = u @ t" "glob_match items t" using step by blast
      then show ?thesis by (intro exI [of _ "c # u"] exI [of _ t]) simp
    qed force
  next
    assume "\<exists>u t. c # s = u @ t \<and> glob_match items t"
    then obtain u t where ut: "c # s = u @ t" "glob_match items t" by blast
    show "glob_match (GStar # items) (c # s)"
    proof (cases u)
      case Nil
      with ut have "glob_match items (c # s)" by simp
      then show ?thesis by simp
    next
      case (Cons d v)
      with ut have "\<exists>u t. s = u @ t \<and> glob_match items t" by auto
      then show ?thesis using step.IH by simp
    qed
  qed
qed simp

text \<open>Consecutive stars collapse, so a star means the same however often it is repeated.\<close>

lemma glob_match_star_star [simp]: "glob_match (GStar # GStar # items) s = glob_match (GStar # items) s"
  unfolding glob_match_star [of "GStar # items"] unfolding glob_match_star [of items]
  by (metis append.assoc append_Nil)

lemma glob_match_GStar_only [simp]: "glob_match [GStar] s"
  by (induction s) auto

lemma glob_to_fnmatch_literal:
  "list_all (\<lambda>c. \<not> glob_special c) d \<Longrightarrow> glob_to_fnmatch (d @ CHR ''*'' # p) = d @ glob_to_fnmatch (CHR ''*'' # p)"
proof (induction d rule: glob_to_fnmatch.induct)
  case (2 c)
  then show ?case by (auto simp: glob_special_def)
next
  case (3 c d s)
  then show ?case by (auto simp: glob_special_def)
qed simp

section \<open>Suppression\<close>

lemma is_suppressed_Cons [simp]: "is_suppressed m (e # es) = (entry_matches m e \<or> is_suppressed m es)"
  by (simp add: is_suppressed_def)

lemma is_suppressed_Nil [simp]: "\<not> is_suppressed m []"
  by (simp add: is_suppressed_def)

lemma is_suppressed_append [simp]:
  "is_suppressed m (es @ fs) = (is_suppressed m es \<or> is_suppressed m fs)"
  by (auto simp: is_suppressed_def)

definition path_scope :: "string \<Rightarrow> allowlist_scope" where
  "path_scope g = \<lparr>sc_rule_id = None, sc_entity = None, sc_user_id = None, sc_path_glob = Some g\<rparr>"

definition user_scope :: "int \<Rightarrow> allowlist_scope" where
  "user_scope u = \<lparr>sc_rule_id = None, sc_entity = None, sc_user_id = Some u, sc_path_glob = None\<rparr>"

text \<open>A path scope of a literal directory prefix followed by \<^verbatim>\<open>**\<close> suppresses exactly the file
  matches under that prefix; a single \<^verbatim>\<open>*\<close> has the same reach, it crosses directory separators too.\<close>

theorem path_glob_suppresses_subtree:
  assumes "list_all (\<lambda>c. \<not> glob_special c) d" and "stars = ''*'' \<or> stars = ''**''"
    and "ae_scope e = path_scope (d @ stars)"
  shows "is_suppressed m [e] = (m_entity_kind m = ''file'' \<and> startswith (m_entity_key m) d)"
proof -
  have "glob_to_fnmatch (d @ stars) = d @ ''*''"
    using assms(2) glob_to_fnmatch_literal [OF assms(1)] by (elim disjE) simp_all
  then show ?thesis
    by (simp add: assms(3) path_scope_def entry_matches_def fnmatch_def glob_items_literal [OF assms(1)]
        startswith_append)
qed

theorem path_glob_suppresses_subtree_witness:
  "is_suppressed (mk_match ''R'' ''low'' ''file'' ''/opt/app/lib/x.so'' ''k'' None)
     [allowlist_entry.make ''A'' (path_scope ''/opt/app/**'') ''r'' ''u'' 0 None False 0 None]"
  using path_glob_suppresses_subtree [where d = "''/opt/app/''" and stars = "''**''"
      and e = "allowlist_entry.make ''A'' (path_scope ''/opt/app/**'') ''r'' ''u'' 0 None False 0 None"
      and m = "mk_match ''R'' ''low'' ''file'' ''/opt/app/lib/x.so'' ''k'' None"]
  by (simp add: glob_special_def mk_match_def allowlist_entry.make_def)

text \<open>An entry whose scope names only a user suppresses every match of every rule: the user id is
  tested for presence and never compared, although a scope is documented as the conjunction of its
  fields.\<close>

theorem user_scope_suppresses_everything:
  "is_suppressed m (es @ [e\<lparr>ae_scope := user_scope u\<rparr>])"
  by (simp add: entry_matches_def user_scope_def)

end
