(* ===== verification/Expr.thy ===== *)
theory Expr
  imports Pystring
begin

text \<open>
  The rule and hunt expression grammar of \<^verbatim>\<open>inspectord/expr.py\<close>: the tokeniser, the leaf parser and
  the OR-of-AND fold shared by the rule evaluator and the hunt compiler. The two regular expressions
  of the source are written out as the (deterministic) scanners they describe.
\<close>

datatype literal = LStr string | LInt int | LBool bool

definition leaf_ops :: "string list" where
  "leaf_ops = [''=='', ''!='', ''IN'', ''NOT IN'', ''STARTSWITH'', ''ENDSWITH'', ''CONTAINS'', ''MATCHES'']"

text \<open>\<^verbatim>\<open>Leaf(path, op, rhs, negated)\<close> and \<^verbatim>\<open>InvalidLeaf(text, negated)\<close>.\<close>

datatype node =
    Leaf string string string bool
  | InvalidLeaf string bool

text \<open>\<^verbatim>\<open>ParsedExpression.groups\<close>: an OR of AND groups.\<close>

type_synonym parsed = "node list list"

section \<open>Tokeniser\<close>

text \<open>\<^verbatim>\<open>\b\<close> after a word character.\<close>

fun boundary :: "string \<Rightarrow> bool" where
  "boundary [] = True"
| "boundary (c # s) = (\<not> word_char c)"

text \<open>\<^verbatim>\<open>\s+IN\b\<close> at the start of the text.\<close>

definition in_follows :: "string \<Rightarrow> bool" where
  "in_follows s =
     (head_space s \<and> (let r = lstrip s in startswith r ''IN'' \<and> boundary (drop 2 r)))"

text \<open>
  \<^verbatim>\<open>_BOOL_TOKEN_RE\<close> at one position: \<open>prev\<close> is the character before it, if any.
\<close>

definition bool_token :: "char option \<Rightarrow> string \<Rightarrow> string option" where
  "bool_token prev s =
     (if (case prev of None \<Rightarrow> False | Some c \<Rightarrow> word_char c) then None
      else if startswith s ''AND'' \<and> boundary (drop 3 s) then Some ''AND''
      else if startswith s ''OR'' \<and> boundary (drop 2 s) then Some ''OR''
      else if startswith s ''NOT'' \<and> boundary (drop 3 s) \<and> \<not> in_follows (drop 3 s) then Some ''NOT''
      else None)"

lemma bool_token_length: "bool_token prev s = Some kw \<Longrightarrow> 0 < length kw \<and> length kw \<le> length s"
  by (auto simp: bool_token_def startswith_append split: if_splits option.splits)

text \<open>
  The loop over \<^verbatim>\<open>finditer\<close>: \<open>acc\<close> is the text since the last match, reversed. A piece of text is
  stripped and kept when it is not empty; the final filter drops pieces that were only white space.
\<close>

definition flush_piece :: "string \<Rightarrow> string list" where
  "flush_piece acc = (if acc = [] then [] else [strip (rev acc)])"

function token_pieces :: "char option \<Rightarrow> string \<Rightarrow> string \<Rightarrow> string list" where
  "token_pieces prev acc [] = flush_piece acc"
| "token_pieces prev acc (c # s) =
     (case bool_token prev (c # s) of
        Some kw \<Rightarrow> flush_piece acc @ kw # token_pieces (Some (last kw)) [] (drop (length kw) (c # s))
      | None \<Rightarrow> token_pieces (Some c) (c # acc) s)"
  by pat_completeness auto
termination
  by (relation "measure (\<lambda>(_, _, s). length s)") (auto dest!: bool_token_length)

definition tokenize :: "string \<Rightarrow> string list" where
  "tokenize expr = filter (\<lambda>p. p \<noteq> []) (token_pieces None [] expr)"

section \<open>Leaves\<close>

definition path_head :: "char \<Rightarrow> bool" where
  "path_head c = (ascii_letter c \<or> c = CHR ''_'')"

definition path_char :: "char \<Rightarrow> bool" where
  "path_char c = (ascii_letter c \<or> ascii_digit c \<or> c = CHR ''_'' \<or> c = CHR ''.'')"

text \<open>The operator alternation of \<^verbatim>\<open>_LEAF_OP\<close>: the normalised operator and the text after it.\<close>

definition leaf_op :: "string \<Rightarrow> (string \<times> string) option" where
  "leaf_op s =
     (if startswith s ''=='' then Some (''=='', drop 2 s)
      else if startswith s ''!='' then Some (''!='', drop 2 s)
      else if startswith s ''IN'' then Some (''IN'', drop 2 s)
      else if startswith s ''NOT'' \<and> head_space (drop 3 s) \<and> startswith (lstrip (drop 3 s)) ''IN''
        then Some (''NOT IN'', drop 2 (lstrip (drop 3 s)))
      else if startswith s ''STARTSWITH'' then Some (''STARTSWITH'', drop 10 s)
      else if startswith s ''ENDSWITH'' then Some (''ENDSWITH'', drop 8 s)
      else if startswith s ''CONTAINS'' then Some (''CONTAINS'', drop 8 s)
      else if startswith s ''MATCHES'' then Some (''MATCHES'', drop 7 s)
      else None)"

text \<open>
  \<^verbatim>\<open>\s+(?P<rhs>.+?)\s*$\<close>: white space, then at least one character, no line feed in the shortest
  right-hand side after which only white space is left. When everything after the operator is white
  space, the first run gives characters back until the right-hand side can be one of them. The
  result is stripped, as \<^verbatim>\<open>parse_leaf\<close> does.
\<close>

definition leaf_rhs :: "string \<Rightarrow> string option" where
  "leaf_rhs s =
     (if \<not> head_space s then None
      else let r = strip s
           in if r \<noteq> [] then (if CHR 0x0A \<in> set r then None else Some r)
              else if \<exists>c\<in>set (tl s). c \<noteq> CHR 0x0A then Some [] else None)"

definition parse_leaf :: "string \<Rightarrow> bool \<Rightarrow> node" where
  "parse_leaf text negated =
     (let invalid = InvalidLeaf (strip text) negated;
          s = lstrip text;
          path = takeWhile path_char s;
          rest = dropWhile path_char s
      in if s = [] \<or> \<not> path_head (hd s) \<or> \<not> head_space rest then invalid
         else case leaf_op (lstrip rest) of
                None \<Rightarrow> invalid
              | Some (oper, after) \<Rightarrow>
                  (case leaf_rhs after of
                     None \<Rightarrow> invalid
                   | Some rhs \<Rightarrow> Leaf path oper rhs negated))"

section \<open>Expressions\<close>

text \<open>\<^verbatim>\<open>groups[-1].append(n)\<close>.\<close>

definition add_to_last :: "node \<Rightarrow> parsed \<Rightarrow> parsed" where
  "add_to_last n gs = butlast gs @ [last gs @ [n]]"

text \<open>\<^verbatim>\<open>NOT\<close> consumes exactly the next token, whatever it is, or the empty text at the end.\<close>

fun fold_tokens :: "string list \<Rightarrow> parsed \<Rightarrow> parsed" where
  "fold_tokens [] gs = gs"
| "fold_tokens [t] gs =
     (if t = ''NOT'' then add_to_last (parse_leaf [] True) gs
      else if t = ''AND'' then gs
      else if t = ''OR'' then gs @ [[]]
      else add_to_last (parse_leaf t False) gs)"
| "fold_tokens (t # u # ts) gs =
     (if t = ''NOT'' then fold_tokens ts (add_to_last (parse_leaf u True) gs)
      else if t = ''AND'' then fold_tokens (u # ts) gs
      else if t = ''OR'' then fold_tokens (u # ts) (gs @ [[]])
      else fold_tokens (u # ts) (add_to_last (parse_leaf t False) gs))"

definition parse_expression :: "string \<Rightarrow> parsed" where
  "parse_expression expr =
     (let gs = fold_tokens (tokenize expr) [[]]
      in if gs \<noteq> [] \<and> last gs = [] then butlast gs else gs)"

definition nodes :: "parsed \<Rightarrow> node list" where
  "nodes gs = concat gs"

section \<open>Literals, lists, paths\<close>

definition parse_literal :: "string \<Rightarrow> literal" where
  "parse_literal raw0 =
     (let raw = strip raw0
      in if startswith raw [CHR 0x22] \<and> endswith raw [CHR 0x22] then LStr (inner raw)
         else if startswith raw [CHR 0x27] \<and> endswith raw [CHR 0x27] then LStr (inner raw)
         else if raw = ''true'' then LBool True
         else if raw = ''false'' then LBool False
         else case py_int raw of Some i \<Rightarrow> LInt i | None \<Rightarrow> LStr raw)"

definition parse_list :: "string \<Rightarrow> literal list" where
  "parse_list raw0 =
     (let raw = strip raw0
      in if \<not> (startswith raw ''['' \<and> endswith raw '']'') then []
         else let body = strip (inner raw)
              in if body = [] then []
                 else map (\<lambda>p. parse_literal (strip p)) (split_on (CHR '','') body))"

definition path_segments :: "string \<Rightarrow> string list" where
  "path_segments path = split_on (CHR ''.'') path"

section \<open>Rendering, the reference for the parser\<close>

text \<open>
  The grammar read the other way: an OR of AND groups of leaves as text. A leaf is well formed when
  its parts have the documented shape and its text, on its own, contains no boolean keyword.
\<close>

definition leaf_text :: "string \<Rightarrow> string \<Rightarrow> string \<Rightarrow> string" where
  "leaf_text path oper rhs = path @ '' '' @ oper @ '' '' @ rhs"

fun render_node :: "node \<Rightarrow> string" where
  "render_node (Leaf path oper rhs neg) = (if neg then ''NOT '' else []) @ leaf_text path oper rhs"
| "render_node (InvalidLeaf t neg) = (if neg then ''NOT '' else []) @ t"

definition render :: "parsed \<Rightarrow> string" where
  "render gs = join_with '' OR '' (map (\<lambda>g. join_with '' AND '' (map render_node g)) gs)"

fun no_keyword :: "char option \<Rightarrow> string \<Rightarrow> bool" where
  "no_keyword prev [] = True"
| "no_keyword prev (c # s) = (bool_token prev (c # s) = None \<and> no_keyword (Some c) s)"

fun wf_node :: "node \<Rightarrow> bool" where
  "wf_node (Leaf path oper rhs neg) =
     (path \<noteq> [] \<and> path_head (hd path) \<and> list_all path_char path \<and> oper \<in> set leaf_ops
      \<and> rhs \<noteq> [] \<and> \<not> py_space (hd rhs) \<and> \<not> py_space (last rhs) \<and> CHR 0x0A \<notin> set rhs
      \<and> no_keyword None (leaf_text path oper rhs)
      \<and> (neg \<longrightarrow> \<not> in_follows (CHR '' '' # leaf_text path oper rhs)))"
| "wf_node (InvalidLeaf t neg) = False"

section \<open>The leaf parser inverts rendering\<close>

lemma path_head_not_space: "path_head c \<Longrightarrow> \<not> py_space c"
  by (auto simp: path_head_def ascii_letter_def py_space_def Let_def)

lemma space_classes [simp]:
  "py_space (CHR '' '')" "\<not> path_char (CHR '' '')" "\<not> word_char (CHR '' '')"
  by (simp_all add: py_space_def path_char_def ascii_letter_def ascii_digit_def word_char_def)

lemma lstrip_simps [simp]:
  "lstrip (c # s) = (if py_space c then lstrip s else c # s)" "lstrip [] = []"
  by (simp_all add: lstrip_def)

lemma lstrip_id: "s \<noteq> [] \<Longrightarrow> \<not> py_space (hd s) \<Longrightarrow> lstrip (s @ t) = s @ t"
  by (cases s) simp_all

lemma strip_space: "s \<noteq> [] \<Longrightarrow> \<not> py_space (hd s) \<Longrightarrow> \<not> py_space (last s) \<Longrightarrow> strip (CHR '' '' # s) = s"
  using strip_id [of s] by (cases s) (simp_all add: strip_def)

lemma letter_classes [simp]:
  "\<not> py_space (CHR ''I'')" "\<not> py_space (CHR ''N'')" "\<not> py_space (CHR ''='')" "\<not> py_space (CHR ''!'')"
  "\<not> py_space (CHR ''S'')" "\<not> py_space (CHR ''E'')" "\<not> py_space (CHR ''C'')" "\<not> py_space (CHR ''M'')"
  "\<not> py_space (CHR ''A'')" "\<not> py_space (CHR ''O'')"
  by (simp_all add: py_space_def)

lemma leaf_op_all: "list_all (\<lambda>oper. leaf_op (oper @ CHR '' '' # r) = Some (oper, CHR '' '' # r)) leaf_ops"
  by (simp add: leaf_ops_def leaf_op_def)

lemma leaf_op_render: "oper \<in> set leaf_ops \<Longrightarrow> leaf_op (oper @ CHR '' '' # r) = Some (oper, CHR '' '' # r)"
  using leaf_op_all [of r] by (simp only: list_all_iff)

lemma leaf_op_head_all: "list_all (\<lambda>oper. oper \<noteq> [] \<and> \<not> py_space (hd oper)) leaf_ops"
  by (simp add: leaf_ops_def)

lemma leaf_op_head: "oper \<in> set leaf_ops \<Longrightarrow> oper \<noteq> [] \<and> \<not> py_space (hd oper)"
  using leaf_op_head_all by (auto simp: list_all_iff)

lemma takeWhile_path:
  "list_all path_char p \<Longrightarrow> takeWhile path_char (p @ CHR '' '' # r) = p"
  "list_all path_char p \<Longrightarrow> dropWhile path_char (p @ CHR '' '' # r) = CHR '' '' # r"
  by (induction p) simp_all

lemma parse_leaf_render:
  assumes "wf_node (Leaf path oper rhs neg')"
  shows "parse_leaf (leaf_text path oper rhs) neg = Leaf path oper rhs neg"
proof -
  have path: "path \<noteq> []" "path_head (hd path)" "\<not> py_space (hd path)" "list_all path_char path"
    using assms path_head_not_space by auto
  have rhs: "leaf_rhs (CHR '' '' # rhs) = Some rhs"
    using assms strip_space [of rhs] by (simp add: leaf_rhs_def Let_def)
  have "lstrip (leaf_text path oper rhs) = leaf_text path oper rhs"
    unfolding leaf_text_def by (rule lstrip_id) (use path in simp_all)
  moreover have "lstrip (CHR '' '' # oper @ CHR '' '' # rhs) = oper @ CHR '' '' # rhs"
    using lstrip_id [of oper "CHR '' '' # rhs"] leaf_op_head [of oper] assms by simp
  ultimately show ?thesis
    using path rhs leaf_op_render [of oper rhs] assms
    by (simp add: parse_leaf_def leaf_text_def Let_def takeWhile_path)
qed

section \<open>The tokeniser inverts rendering\<close>

lemma startswith_app:
  "u = [] \<or> hd u \<notin> set p \<Longrightarrow> startswith (t @ u) p = startswith t p"
proof (induction t p rule: startswith.induct)
  case (2 p ps)
  then show ?case by (cases u) auto
qed auto

lemma boundary_app: "u = [] \<or> head_space u \<Longrightarrow> boundary (t @ u) = boundary t"
proof -
  have "py_space c \<Longrightarrow> \<not> word_char c" for c
    by (auto simp: py_space_def word_char_def Let_def)
  then show "u = [] \<or> head_space u \<Longrightarrow> boundary (t @ u) = boundary t"
    by (cases t; cases u) auto
qed

lemma boundary_drop_app:
  assumes "u = [] \<or> head_space u" and "startswith t kw" and "n = length kw"
  shows "boundary (drop n (t @ u)) = boundary (drop n t)"
proof -
  from assms(2) obtain r where "t = kw @ r" by (auto simp: startswith_append)
  with boundary_app [OF assms(1), of r] assms(3) show ?thesis by simp
qed

lemma lstrip_app: "t \<noteq> [] \<Longrightarrow> \<not> py_space (last t) \<Longrightarrow> lstrip (t @ u) = lstrip t @ u"
  by (induction t) (auto split: if_splits)

lemma in_follows_app:
  assumes "t \<noteq> []" and "\<not> py_space (last t)" and "u = [] \<or> hd u = CHR '' ''"
  shows "in_follows (t @ u) = in_follows t"
proof -
  have u: "u = [] \<or> head_space u" "u = [] \<or> hd u \<notin> set ''IN''"
    using assms(3) by (cases u; auto)+
  have "head_space (t @ u) = head_space t" using assms(1) by (cases t) auto
  moreover have "startswith (lstrip t @ u) ''IN'' = startswith (lstrip t) ''IN''"
    using u(2) by (rule startswith_app)
  moreover have "boundary (drop 2 (lstrip t @ u)) = boundary (drop 2 (lstrip t))"
    if "startswith (lstrip t) ''IN''"
    using u(1) that by (rule boundary_drop_app) simp
  ultimately show ?thesis
    using assms by (auto simp: in_follows_def Let_def lstrip_app)
qed

text \<open>A keyword is found in a piece of text exactly when it is found with a space after it.\<close>

lemma bool_token_app:
  assumes "t \<noteq> []" and "\<not> py_space (last t)" and "u = [] \<or> hd u = CHR '' ''" and "\<not> in_follows u"
  shows "bool_token prev (t @ u) = bool_token prev t"
proof -
  have u: "u = [] \<or> head_space u" "u = [] \<or> hd u \<notin> set ''AND''" "u = [] \<or> hd u \<notin> set ''OR''"
    "u = [] \<or> hd u \<notin> set ''NOT''"
    using assms(3) by (cases u; auto)+
  have sw: "startswith (t @ u) kw = startswith t kw" if "kw \<in> {''AND'', ''OR'', ''NOT''}" for kw
    using that u by (auto simp: startswith_app)
  have bd: "boundary (drop n (t @ u)) = boundary (drop n t)"
    if "startswith t kw" "n = length kw" for kw n
    using u(1) that by (rule boundary_drop_app)
  have nf: "in_follows (drop n (t @ u)) = in_follows (drop n t)"
    if "startswith t kw" "n = length kw" for kw n
  proof -
    from that(1) obtain r where r: "t = kw @ r" by (auto simp: startswith_append)
    show ?thesis
    proof (cases "r = []")
      case True
      with assms(4) that(2) show ?thesis by (simp add: r in_follows_def)
    next
      case False
      with assms(2,3) that(2) show ?thesis by (simp add: r in_follows_app)
    qed
  qed
  have "(startswith (t @ u) ''AND'' \<and> boundary (drop 3 (t @ u)))
      = (startswith t ''AND'' \<and> boundary (drop 3 t))"
    using sw [of "''AND''"] bd [of "''AND''" 3] by auto
  moreover have "(startswith (t @ u) ''OR'' \<and> boundary (drop 2 (t @ u)))
      = (startswith t ''OR'' \<and> boundary (drop 2 t))"
    using sw [of "''OR''"] bd [of "''OR''" 2] by auto
  moreover have "(startswith (t @ u) ''NOT'' \<and> boundary (drop 3 (t @ u)) \<and> \<not> in_follows (drop 3 (t @ u)))
      = (startswith t ''NOT'' \<and> boundary (drop 3 t) \<and> \<not> in_follows (drop 3 t))"
    using sw [of "''NOT''"] bd [of "''NOT''" 3] nf [of "''NOT''" 3] by auto
  ultimately show ?thesis unfolding bool_token_def by (simp only:)
qed

lemma no_keyword_scan:
  assumes "no_keyword prev t" and "t = [] \<or> \<not> py_space (last t)"
    and "u = [] \<or> hd u = CHR '' ''" and "\<not> in_follows u" and "t \<noteq> []"
  shows "token_pieces prev acc (t @ u) = token_pieces (Some (last t)) (rev t @ acc) u"
  using assms
proof (induction t arbitrary: prev acc)
  case Nil
  then show ?case by simp
next
  case (Cons c t)
  have none: "bool_token prev (c # t @ u) = None"
    using bool_token_app [of "c # t" u prev] Cons.prems by simp
  show ?case
  proof (cases "t = []")
    case True
    with none show ?thesis by simp
  next
    case False
    with Cons.IH [of "Some c" "c # acc"] Cons.prems none show ?thesis by simp
  qed
qed

lemma no_keyword_prev: "no_keyword None t \<Longrightarrow> no_keyword (Some (CHR '' '')) t"
  by (cases t) (auto simp: bool_token_def)

text \<open>The scanner between two leaves: at the very start, or just after a space.\<close>

definition at_gap :: "char option \<Rightarrow> string \<Rightarrow> bool" where
  "at_gap prev acc \<longleftrightarrow> (prev = None \<and> acc = []) \<or> (prev = Some (CHR '' '') \<and> acc = '' '')"

abbreviation toks :: "char option \<Rightarrow> string \<Rightarrow> string \<Rightarrow> string list" where
  "toks prev acc s \<equiv> filter (\<lambda>p. p \<noteq> []) (token_pieces prev acc s)"

lemma flush_text:
  assumes "at_gap prev acc" and "t \<noteq> []" and "\<not> py_space (hd t)" and "\<not> py_space (last t)"
  shows "flush_piece (rev t @ acc) = [t]"
  using assms strip_id [of t] strip_space [of t] by (auto simp: flush_piece_def at_gap_def)

lemma flush_gap: "at_gap prev acc \<Longrightarrow> filter (\<lambda>p. p \<noteq> []) (flush_piece acc) = []"
  by (auto simp: flush_piece_def at_gap_def strip_def lstrip_def rstrip_def)

text \<open>A leaf text at a gap, followed by the end or by a spaced keyword.\<close>

lemma toks_text_end:
  assumes "at_gap prev acc" and "no_keyword None t" and "t \<noteq> []" and "\<not> py_space (hd t)" and "\<not> py_space (last t)"
  shows "toks prev acc t = [t]"
proof -
  have "no_keyword prev t"
    using assms(1,2) no_keyword_prev by (auto simp: at_gap_def)
  with assms have "token_pieces prev acc (t @ []) = token_pieces (Some (last t)) (rev t @ acc) []"
    by (intro no_keyword_scan) (auto simp: in_follows_def)
  with assms show ?thesis by (simp add: flush_text)
qed

lemma toks_text_keyword:
  assumes "at_gap prev acc" and "no_keyword None t" and "t \<noteq> []" and "\<not> py_space (hd t)" and "\<not> py_space (last t)"
    and "kw \<in> {''AND'', ''OR''}"
  shows "toks prev acc (t @ CHR '' '' # kw @ CHR '' '' # r) = t # kw # toks (Some (CHR '' '')) '' '' r"
proof -
  let ?u = "CHR '' '' # kw @ CHR '' '' # r"
  have "no_keyword prev t"
    using assms(1,2) no_keyword_prev by (auto simp: at_gap_def)
  moreover have "\<not> in_follows ?u"
    using assms(6) by (auto simp: in_follows_def Let_def py_space_def)
  ultimately have scan: "token_pieces prev acc (t @ ?u) = token_pieces (Some (last t)) (rev t @ acc) ?u"
    using assms by (intro no_keyword_scan) auto
  have sp: "bool_token p (CHR '' '' # s) = None" for p s
    by (auto simp: bool_token_def)
  have kw: "bool_token (Some (CHR '' '')) (kw @ CHR '' '' # r) = Some kw" and "kw \<noteq> []"
    using assms(6) by (auto simp: bool_token_def)
  then obtain k ks where k: "kw = k # ks" by (cases kw) auto
  have flush: "flush_piece (CHR '' '' # rev t @ acc) = [t]"
  proof -
    have "rstrip (t @ '' '') = rstrip t" by (simp add: rstrip_def)
    then have "strip (t @ '' '') = t"
      using assms strip_id [of t] by (cases t) (simp_all add: strip_def)
    moreover have "lstrip (CHR '' '' # t @ '' '') = lstrip (t @ '' '')" by simp
    ultimately show ?thesis
      using assms(1) by (auto simp: flush_piece_def at_gap_def strip_def)
  qed
  have "token_pieces (Some (last t)) (rev t @ acc) ?u
      = flush_piece (CHR '' '' # rev t @ acc) @ kw # token_pieces (Some (last kw)) [] (CHR '' '' # r)"
    using kw by (simp add: sp k)
  then show ?thesis
    using assms scan \<open>kw \<noteq> []\<close> by (simp add: sp flush)
qed

lemma toks_not:
  assumes "at_gap prev acc" and "\<not> in_follows (CHR '' '' # r)"
  shows "toks prev acc (''NOT '' @ r) = ''NOT'' # toks (Some (CHR '' '')) '' '' r"
proof -
  have "bool_token prev (''NOT '' @ r) = Some ''NOT''"
    using assms by (auto simp: bool_token_def at_gap_def)
  moreover have "bool_token p (CHR '' '' # s) = None" for p s
    by (auto simp: bool_token_def)
  ultimately show ?thesis
    using flush_gap [OF assms(1)] by simp
qed

section \<open>Tokens of a rendered expression\<close>

fun node_tokens :: "node \<Rightarrow> string list" where
  "node_tokens (Leaf path oper rhs neg) = (if neg then [''NOT''] else []) @ [leaf_text path oper rhs]"
| "node_tokens (InvalidLeaf t neg) = (if neg then [''NOT''] else []) @ [t]"

definition group_tokens :: "node list \<Rightarrow> string list" where
  "group_tokens g = join_with [''AND''] (map node_tokens g)"

lemma wf_leaf_text:
  assumes "wf_node (Leaf path oper rhs neg)"
  defines "t \<equiv> leaf_text path oper rhs"
  shows "t \<noteq> []" "\<not> py_space (hd t)" "\<not> py_space (last t)" "no_keyword None t"
    "t \<notin> {''NOT'', ''AND'', ''OR''}"
proof -
  show "t \<noteq> []" "\<not> py_space (hd t)" "\<not> py_space (last t)" and free: "no_keyword None t"
    using assms path_head_not_space by (auto simp: leaf_text_def)
  show "t \<notin> {''NOT'', ''AND'', ''OR''}"
  proof
    assume "t \<in> {''NOT'', ''AND'', ''OR''}"
    with free show False by (auto simp: bool_token_def in_follows_def)
  qed
qed

lemma toks_node_end:
  assumes "wf_node n" and "at_gap prev acc"
  shows "toks prev acc (render_node n) = node_tokens n"
proof (cases n)
  case (Leaf path oper rhs neg)
  have gap: "at_gap (Some (CHR '' '')) '' ''" by (simp add: at_gap_def)
  note t = wf_leaf_text [of path oper rhs neg]
  show ?thesis
  proof (cases neg)
    case True
    then have "\<not> in_follows (CHR '' '' # leaf_text path oper rhs)" using assms Leaf by simp
    from toks_not [OF assms(2) this] toks_text_end [OF gap] t assms(1) Leaf True
    show ?thesis by simp
  next
    case False
    with toks_text_end [OF assms(2)] t assms(1) Leaf show ?thesis by simp
  qed
qed (use assms in simp)

lemma in_follows_cong: "t \<noteq> [] \<Longrightarrow> \<not> py_space (last t) \<Longrightarrow>
    in_follows (CHR '' '' # t @ CHR '' '' # r) = in_follows (CHR '' '' # t)"
  using in_follows_app [of "CHR '' '' # t" "CHR '' '' # r"] by simp

lemma toks_node_keyword:
  assumes "wf_node n" and "at_gap prev acc" and "kw \<in> {''AND'', ''OR''}"
  shows "toks prev acc (render_node n @ CHR '' '' # kw @ CHR '' '' # r)
           = node_tokens n @ kw # toks (Some (CHR '' '')) '' '' r"
proof (cases n)
  case (Leaf path oper rhs neg)
  let ?t = "leaf_text path oper rhs"
  have gap: "at_gap (Some (CHR '' '')) '' ''" by (simp add: at_gap_def)
  note t = wf_leaf_text [of path oper rhs neg]
  note kw = toks_text_keyword [where t = ?t and kw = kw and r = r]
  show ?thesis
  proof (cases neg)
    case True
    have "\<not> in_follows (CHR '' '' # ?t @ CHR '' '' # kw @ CHR '' '' # r)"
      using assms Leaf True t in_follows_cong [of ?t] by simp
    from toks_not [OF assms(2) this] kw [OF gap] t assms Leaf True
    show ?thesis by simp
  next
    case False
    with kw [OF assms(2)] t assms Leaf show ?thesis by simp
  qed
qed (use assms in simp)

lemma toks_group:
  assumes "g \<noteq> []" and "\<forall>n\<in>set g. wf_node n" and "at_gap prev acc"
  shows "toks prev acc (join_with '' AND '' (map render_node g)) = group_tokens g"
    and "toks prev acc (join_with '' AND '' (map render_node g) @ CHR '' '' # ''OR'' @ CHR '' '' # r)
           = group_tokens g @ ''OR'' # toks (Some (CHR '' '')) '' '' r"
  using assms
proof (induction g arbitrary: prev acc)
  case Nil
  {
    case 1
    then show ?case by simp
  next
    case 2
    then show ?case by simp
  }
next
  case (Cons n g)
  have gap: "at_gap (Some (CHR '' '')) '' ''" by (simp add: at_gap_def)
  {
    case 1
    then show ?case
      using Cons.IH(1) [OF _ _ gap] toks_node_end [of n prev acc]
        toks_node_keyword [of n prev acc "''AND''" "join_with '' AND '' (map render_node g)"]
      by (cases g) (simp_all add: group_tokens_def)
  next
    case 2
    then show ?case
      using Cons.IH(2) [OF _ _ gap] toks_node_keyword [of n prev acc "''OR''" r]
        toks_node_keyword [of n prev acc "''AND''" "join_with '' AND '' (map render_node g) @ CHR '' '' # ''OR'' @ CHR '' '' # r"]
      by (cases g) (simp_all add: group_tokens_def)
  }
qed

lemma toks_render:
  assumes "gs \<noteq> []" and "\<forall>g\<in>set gs. g \<noteq> [] \<and> (\<forall>n\<in>set g. wf_node n)" and "at_gap prev acc"
  shows "toks prev acc (render gs) = join_with [''OR''] (map group_tokens gs)"
  using assms
proof (induction gs arbitrary: prev acc)
  case Nil
  then show ?case by simp
next
  case (Cons g gs)
  have gap: "at_gap (Some (CHR '' '')) '' ''" by (simp add: at_gap_def)
  from Cons.prems Cons.IH [OF _ _ gap] toks_group(1) [of g prev acc] toks_group(2) [of g prev acc "render gs"]
  show ?case by (cases gs) (simp_all add: render_def)
qed

section \<open>The fold rebuilds the groups\<close>

lemma fold_tokens_Cons:
  "fold_tokens (t # ts) gs =
     (if t = ''NOT'' then
        (case ts of [] \<Rightarrow> add_to_last (parse_leaf [] True) gs
         | u # us \<Rightarrow> fold_tokens us (add_to_last (parse_leaf u True) gs))
      else if t = ''AND'' then fold_tokens ts gs
      else if t = ''OR'' then fold_tokens ts (gs @ [[]])
      else fold_tokens ts (add_to_last (parse_leaf t False) gs))"
  by (cases ts) simp_all

declare fold_tokens.simps(2,3) [simp del]

lemma fold_node:
  assumes "wf_node n"
  shows "fold_tokens (node_tokens n @ ts) gs = fold_tokens ts (add_to_last n gs)"
proof (cases n)
  case (Leaf path oper rhs neg)
  with assms wf_leaf_text [of path oper rhs neg] parse_leaf_render [of path oper rhs neg neg]
  show ?thesis by (cases neg) (simp_all add: fold_tokens_Cons)
qed (use assms in simp)

lemma add_to_last_snoc [simp]: "add_to_last n (gs @ [g]) = gs @ [g @ [n]]"
  by (simp add: add_to_last_def)

lemma fold_group:
  "g \<noteq> [] \<Longrightarrow> \<forall>n\<in>set g. wf_node n \<Longrightarrow>
     fold_tokens (group_tokens g @ ts) (gs @ [h]) = fold_tokens ts (gs @ [h @ g])"
proof (induction g arbitrary: h)
  case Nil
  then show ?case by simp
next
  case (Cons n g)
  then show ?case
    by (cases g) (simp_all add: group_tokens_def fold_node fold_tokens_Cons [of "''AND''"])
qed

lemma fold_groups:
  "gs' \<noteq> [] \<Longrightarrow> \<forall>g\<in>set gs'. g \<noteq> [] \<and> (\<forall>n\<in>set g. wf_node n) \<Longrightarrow>
     fold_tokens (join_with [''OR''] (map group_tokens gs')) (gs @ [[]]) = gs @ gs'"
proof (induction gs' arbitrary: gs)
  case Nil
  then show ?case by simp
next
  case (Cons g gs')
  show ?case
  proof (cases gs')
    case Nil
    with Cons.prems fold_group [of g "[]" gs "[]"] show ?thesis by simp
  next
    case (Cons h hs)
    then have "fold_tokens (join_with [''OR''] (map group_tokens (g # gs'))) (gs @ [[]])
        = fold_tokens (''OR'' # join_with [''OR''] (map group_tokens gs')) (gs @ [g])"
      using Cons.prems fold_group [of g "''OR'' # join_with [''OR''] (map group_tokens gs')" gs "[]"]
      by simp
    with Cons Cons.prems Cons.IH [of "gs @ [g]"] show ?thesis
      by (simp add: fold_tokens_Cons [of "''OR''"])
  qed
qed

section \<open>Properties\<close>

text \<open>C31: parsing inverts rendering. Any OR of AND groups of well-formed leaves, negated or not, written
  out with the keywords between them, parses back to exactly those groups: AND binds tighter than OR,
  NOT binds to its leaf, and no leaf is cut or merged.\<close>

theorem parse_expression_roundtrip:
  assumes "gs \<noteq> []" and "\<forall>g\<in>set gs. g \<noteq> [] \<and> (\<forall>n\<in>set g. wf_node n)"
  shows "parse_expression (render gs) = gs"
proof -
  have "tokenize (render gs) = join_with [''OR''] (map group_tokens gs)"
    using toks_render [OF assms, of None "[]"] by (simp add: tokenize_def at_gap_def)
  with fold_groups [OF assms, of "[]"]
  have fold: "fold_tokens (tokenize (render gs)) [[]] = gs" by simp
  have "last gs \<noteq> []" using assms by simp
  with fold show ?thesis by (simp add: parse_expression_def)
qed

theorem parse_expression_roundtrip_witness:
  "parse_expression ''NOT a.b NOT IN [1, 2] AND c == x OR d MATCHES ^ORA''
     = [[Leaf ''a.b'' ''NOT IN'' ''[1, 2]'' True, Leaf ''c'' ''=='' ''x'' False],
        [Leaf ''d'' ''MATCHES'' ''^ORA'' False]]"
  using parse_expression_roundtrip
    [of "[[Leaf ''a.b'' ''NOT IN'' ''[1, 2]'' True, Leaf ''c'' ''=='' ''x'' False],
          [Leaf ''d'' ''MATCHES'' ''^ORA'' False]]"]
  by (simp add: render_def leaf_text_def leaf_ops_def path_head_def path_char_def ascii_letter_def
      ascii_digit_def py_space_def word_char_def bool_token_def in_follows_def)

end
