(* ===== verification/Yaml_Rules.thy ===== *)
theory Yaml_Rules
  imports Events Expr
begin

text \<open>
  The YAML rule loader and evaluator of \<^verbatim>\<open>inspectord/rules/yaml_loader.py\<close>. Evaluation may raise
  (a string operator with a non-string literal, a bad regular expression), so it returns a sum.
  Three things are parameters: \<open>base\<close>, the attributes an event inherits from the pydantic base class;
  \<open>re_search\<close>, Python's regular-expression search; and \<open>ostr\<close>, the \<^verbatim>\<open>str()\<close> of floats, datetimes and
  other objects, which only appears in rendered text.
\<close>

datatype eval_error = TypeError | RegexError

section \<open>Paths into an event\<close>

definition opt_dict :: "pydict option \<Rightarrow> pyval" where
  "opt_dict b = (case b of None \<Rightarrow> PNone | Some d \<Rightarrow> PDict d)"

text \<open>\<^verbatim>\<open>getattr(event, name, None)\<close>: the declared fields, else what the base class has.\<close>

definition event_fields :: "event \<Rightarrow> (string \<times> pyval) list" where
  "event_fields e =
     [(''schema_version'', PStr (ev_schema_version e)), (''ts'', PTime (ev_ts e)),
      (''event_id'', PStr (ev_id e)), (''kind'', PStr (event_kind_value (ev_kind e))),
      (''category'', PList (map PStr (ev_category e))), (''type'', PList (map PStr (ev_type e))),
      (''action'', PStr (ev_action e)),
      (''outcome'', case ev_outcome e of None \<Rightarrow> PNone | Some v \<Rightarrow> PStr (outcome_value v)),
      (''severity'', PStr (severity_value (ev_severity e))), (''module'', PStr (ev_module e)),
      (''first_seen'', PBool (ev_first_seen e)), (''host'', opt_dict (ev_host e)),
      (''user'', opt_dict (ev_user e)), (''process'', opt_dict (ev_process e)),
      (''file'', opt_dict (ev_file e)), (''source'', opt_dict (ev_source e)),
      (''destination'', opt_dict (ev_destination e)), (''network'', opt_dict (ev_network e)),
      (''service'', opt_dict (ev_service e)), (''package'', opt_dict (ev_package e)),
      (''device'', opt_dict (ev_device e)), (''persistence'', opt_dict (ev_persistence e)),
      (''vulnerability'', opt_dict (ev_vulnerability e)), (''hunt'', opt_dict (ev_hunt e)),
      (''rule'', opt_dict (ev_rule e)), (''threat'', opt_dict (ev_threat e)),
      (''baseline'', opt_dict (ev_baseline e)), (''evidence'', opt_dict (ev_evidence e)),
      (''raw'', opt_dict (ev_raw e)), (''labels'', PList (map PStr (ev_labels e))),
      (''message'', case ev_message e of None \<Rightarrow> PNone | Some m \<Rightarrow> PStr m)]"

definition event_attr :: "(string \<Rightarrow> pyval) \<Rightarrow> event \<Rightarrow> string \<Rightarrow> pyval" where
  "event_attr base e name =
     (case map_of (event_fields e) name of Some v \<Rightarrow> v | None \<Rightarrow> base name)"

fun walk_dict :: "pyval \<Rightarrow> string list \<Rightarrow> pyval" where
  "walk_dict v [] = v"
| "walk_dict (PDict d) (seg # segs) = walk_dict (dget d seg) segs"
| "walk_dict v (seg # segs) = PNone"

text \<open>\<^verbatim>\<open>_enum_value\<close> is the identity on every value of the model: enumeration members are strings.\<close>

definition resolve_path :: "(string \<Rightarrow> pyval) \<Rightarrow> string \<Rightarrow> event \<Rightarrow> pyval" where
  "resolve_path base path e =
     (case path_segments path of
        [] \<Rightarrow> PNone
      | head # rest \<Rightarrow>
          if head = ''event'' then
            (case rest of [] \<Rightarrow> PNone | a # segs \<Rightarrow> walk_dict (event_attr base e a) segs)
          else case event_attr base e head of
                 PDict d \<Rightarrow> walk_dict (PDict d) rest
               | _ \<Rightarrow> PNone)"

section \<open>Leaves and expressions\<close>

text \<open>\<^verbatim>\<open>lhs == literal\<close>: Python compares booleans, integers and floats as numbers.\<close>

fun num_value :: "pyval \<Rightarrow> real option" where
  "num_value (PBool b) = Some (if b then 1 else 0)"
| "num_value (PInt i) = Some (of_int i)"
| "num_value (PFloat r) = Some r"
| "num_value _ = None"

fun lit_number :: "literal \<Rightarrow> real option" where
  "lit_number (LBool b) = Some (if b then 1 else 0)"
| "lit_number (LInt i) = Some (of_int i)"
| "lit_number (LStr s) = None"

definition eq_literal :: "pyval \<Rightarrow> literal \<Rightarrow> bool" where
  "eq_literal v l =
     (case l of
        LStr t \<Rightarrow> v = PStr t
      | _ \<Rightarrow> num_value v \<noteq> None \<and> num_value v = lit_number l)"

text \<open>\<^verbatim>\<open>_STR_OPS\<close>; an integer or boolean operand makes the string method raise \<^verbatim>\<open>TypeError\<close>.\<close>

definition str_op ::
  "(string \<Rightarrow> string \<Rightarrow> eval_error + bool) \<Rightarrow> string \<Rightarrow> string \<Rightarrow> literal \<Rightarrow> eval_error + bool" where
  "str_op re_search oper lhs rhs =
     (case rhs of
        LStr t \<Rightarrow>
          (if oper = ''STARTSWITH'' then Inr (startswith lhs t)
           else if oper = ''ENDSWITH'' then Inr (endswith lhs t)
           else if oper = ''CONTAINS'' then Inr (contains lhs t)
           else re_search t lhs)
      | _ \<Rightarrow> Inl TypeError)"

definition eval_leaf ::
  "(string \<Rightarrow> pyval) \<Rightarrow> (string \<Rightarrow> string \<Rightarrow> eval_error + bool)
     \<Rightarrow> string \<Rightarrow> string \<Rightarrow> string \<Rightarrow> event \<Rightarrow> eval_error + bool" where
  "eval_leaf base re_search path oper rhs e =
     (let lhs = resolve_path base path e
      in if oper = ''=='' then Inr (eq_literal lhs (parse_literal rhs))
         else if oper = ''!='' then Inr (\<not> eq_literal lhs (parse_literal rhs))
         else if oper = ''IN'' \<or> oper = ''NOT IN'' then
           (let result = (\<exists>l\<in>set (parse_list rhs). eq_literal lhs l)
            in Inr (if oper = ''IN'' then result else \<not> result))
         else if oper \<in> {''STARTSWITH'', ''ENDSWITH'', ''CONTAINS'', ''MATCHES''} then
           (case lhs of
              PStr s \<Rightarrow> str_op re_search oper s (parse_literal rhs)
            | _ \<Rightarrow> Inr False)
         else Inr False)"

fun eval_node ::
  "(string \<Rightarrow> pyval) \<Rightarrow> (string \<Rightarrow> string \<Rightarrow> eval_error + bool) \<Rightarrow> event \<Rightarrow> node \<Rightarrow> eval_error + bool" where
  "eval_node base re_search e (Leaf path oper rhs negated) =
     map_sum id (\<lambda>b. if negated then \<not> b else b) (eval_leaf base re_search path oper rhs e)"
| "eval_node base re_search e (InvalidLeaf t negated) = Inr (if negated then \<not> False else False)"

text \<open>\<^verbatim>\<open>all(...)\<close> and \<^verbatim>\<open>any(...)\<close> over a generator: left to right, stopping at the first decisive value
  or the first exception.\<close>

fun eval_group ::
  "(string \<Rightarrow> pyval) \<Rightarrow> (string \<Rightarrow> string \<Rightarrow> eval_error + bool) \<Rightarrow> event \<Rightarrow> node list \<Rightarrow> eval_error + bool" where
  "eval_group base re_search e [] = Inr True"
| "eval_group base re_search e (n # ns) =
     (case eval_node base re_search e n of
        Inl err \<Rightarrow> Inl err
      | Inr b \<Rightarrow> if b then eval_group base re_search e ns else Inr False)"

fun evaluate_parsed ::
  "(string \<Rightarrow> pyval) \<Rightarrow> (string \<Rightarrow> string \<Rightarrow> eval_error + bool) \<Rightarrow> event \<Rightarrow> parsed \<Rightarrow> eval_error + bool" where
  "evaluate_parsed base re_search e [] = Inr False"
| "evaluate_parsed base re_search e (g # gs) =
     (case eval_group base re_search e g of
        Inl err \<Rightarrow> Inl err
      | Inr b \<Rightarrow> if b then Inr True else evaluate_parsed base re_search e gs)"

definition evaluate_expression ::
  "(string \<Rightarrow> pyval) \<Rightarrow> (string \<Rightarrow> string \<Rightarrow> eval_error + bool) \<Rightarrow> string \<Rightarrow> event \<Rightarrow> eval_error + bool" where
  "evaluate_expression base re_search expr e =
     evaluate_parsed base re_search e (parse_expression expr)"

section \<open>Text of values and templates\<close>

text \<open>\<^verbatim>\<open>_FIELD_RE.sub(replace, tpl)\<close>: \<^verbatim>\<open>{path}\<close> becomes the value's text, the empty text when missing.\<close>

function interpolate :: "(string \<Rightarrow> pyval) \<Rightarrow> (pyval \<Rightarrow> string) \<Rightarrow> event \<Rightarrow> string \<Rightarrow> string" where
  "interpolate base ostr e [] = []"
| "interpolate base ostr e (c # s) =
     (let path = takeWhile path_char s; after = dropWhile path_char s
      in if c = CHR ''{'' \<and> path \<noteq> [] \<and> path_head (hd path) \<and> startswith after ''}'' then
           (case resolve_path base path e of PNone \<Rightarrow> [] | v \<Rightarrow> py_str ostr v)
             @ interpolate base ostr e (drop 1 after)
         else c # interpolate base ostr e s)"
  by pat_completeness auto
termination
  by (relation "measure (\<lambda>(_, _, _, s). length s)")
    (auto intro: le_imp_less_Suc order.trans [OF diff_le_self length_dropWhile_le])

section \<open>Rules\<close>

record yaml_rule =
  yr_rule_id :: string
  yr_name :: string
  yr_severity :: string
  yr_category :: string
  yr_why :: string
  yr_false_positives :: "pyval list"
  yr_detect_any_of :: "string list"
  yr_short_tpl :: string
  yr_detail_tpl :: string
  yr_version :: string
  yr_labels :: "pyval list"
  yr_dedup_window_s :: "real option"

datatype yaml_rule_error =
    Missing_field string
  | Detect_not_mapping
  | Any_of_not_strings
  | Bad_dedup_window pyval
  | Not_iterable pyval

text \<open>\<^verbatim>\<open>list(v or [])\<close>: iterating a string gives its characters, a dictionary its keys; iterating a
  number or another object raises.\<close>

definition list_or_empty :: "pyval \<Rightarrow> yaml_rule_error + pyval list" where
  "list_or_empty v =
     (if \<not> truthy v then Inr []
      else case v of
             PList xs \<Rightarrow> Inr xs
           | PStr s \<Rightarrow> Inr (map (\<lambda>c. PStr [c]) s)
           | PDict d \<Rightarrow> Inr (map (\<lambda>(k, _). PStr k) d)
           | _ \<Rightarrow> Inl (Not_iterable v))"

definition parse_dedup_window :: "pydict \<Rightarrow> yaml_rule_error + real option" where
  "parse_dedup_window data =
     (case dget data ''dedup_window_s'' of
        PNone \<Rightarrow> Inr None
      | PInt i \<Rightarrow> if i \<le> 0 then Inl (Bad_dedup_window (PInt i)) else Inr (Some (of_int i))
      | PFloat r \<Rightarrow> if r \<le> 0 then Inl (Bad_dedup_window (PFloat r)) else Inr (Some r)
      | v \<Rightarrow> Inl (Bad_dedup_window v))"

definition is_str :: "pyval \<Rightarrow> bool" where
  "is_str v = (case v of PStr _ \<Rightarrow> True | _ \<Rightarrow> False)"

definition the_str :: "pyval \<Rightarrow> string" where
  "the_str v = (case v of PStr s \<Rightarrow> s | _ \<Rightarrow> [])"

definition required_fields :: "string list" where
  "required_fields = [''id'', ''name'', ''severity'', ''category'', ''detect'', ''short'', ''detail'']"

definition has_key :: "pydict \<Rightarrow> string \<Rightarrow> bool" where
  "has_key d k = (map_of d k \<noteq> None)"

definition get_default :: "pydict \<Rightarrow> string \<Rightarrow> pyval \<Rightarrow> pyval" where
  "get_default d k v = (case map_of d k of None \<Rightarrow> v | Some w \<Rightarrow> w)"

definition load_yaml_rule_from_dict :: "(pyval \<Rightarrow> string) \<Rightarrow> pydict \<Rightarrow> yaml_rule_error + yaml_rule" where
  "load_yaml_rule_from_dict ostr data =
     (case find (\<lambda>k. \<not> has_key data k) required_fields of
        Some k \<Rightarrow> Inl (Missing_field k)
      | None \<Rightarrow>
        (case (if truthy (dget data ''detect'') then dget data ''detect'' else PDict []) of
           PDict detect \<Rightarrow>
             if \<not> has_key detect ''any_of'' then Inl Detect_not_mapping
             else (case dget detect ''any_of'' of
                PList any_of \<Rightarrow>
                  if \<not> list_all is_str any_of then Inl Any_of_not_strings
                  else (case list_or_empty (dget data ''false_positives'') of
                     Inl err \<Rightarrow> Inl err
                   | Inr fps \<Rightarrow>
                     (case list_or_empty (dget data ''labels'') of
                        Inl err \<Rightarrow> Inl err
                      | Inr labels \<Rightarrow>
                        (case parse_dedup_window data of
                           Inl err \<Rightarrow> Inl err
                         | Inr window \<Rightarrow> Inr
                             \<lparr>yr_rule_id = py_str ostr (dget data ''id''),
                              yr_name = py_str ostr (dget data ''name''),
                              yr_severity = py_str ostr (dget data ''severity''),
                              yr_category = py_str ostr (dget data ''category''),
                              yr_why = py_str ostr (get_default data ''why'' (PStr [])),
                              yr_false_positives = fps,
                              yr_detect_any_of = map the_str any_of,
                              yr_short_tpl = py_str ostr (dget data ''short''),
                              yr_detail_tpl = py_str ostr (dget data ''detail''),
                              yr_version = py_str ostr (get_default data ''version'' (PStr ''1.0.0'')),
                              yr_labels = labels,
                              yr_dedup_window_s = window\<rparr>)))
              | _ \<Rightarrow> Inl Any_of_not_strings)
         | _ \<Rightarrow> Inl Detect_not_mapping))"

section \<open>Matches\<close>

text \<open>\<^verbatim>\<open>block and key in block\<close>: \<^verbatim>\<open>Some\<close> of the block when it is non-empty and has the key.\<close>

definition block_has :: "pydict option \<Rightarrow> string \<Rightarrow> bool" where
  "block_has b k = (case b of None \<Rightarrow> False | Some d \<Rightarrow> has_key d k)"

definition primary_entity_for :: "(pyval \<Rightarrow> string) \<Rightarrow> event \<Rightarrow> string \<times> string" where
  "primary_entity_for ostr e =
     (if block_has (ev_vulnerability e) ''avg_id'' \<and> block_has (ev_vulnerability e) ''package'' then
        (''package'', py_str ostr (bget (ev_vulnerability e) ''avg_id'') @ ''/''
                        @ py_str ostr (bget (ev_vulnerability e) ''package''))
      else if ev_module e = ''hunt_scheduler'' \<and> block_has (ev_hunt e) ''name'' then
        (''hunt'', py_str ostr (bget (ev_hunt e) ''name''))
      else if block_has (ev_process e) ''pid'' then
        (''process'', ''pid:'' @ py_str ostr (bget (ev_process e) ''pid''))
      else if block_has (ev_process e) ''name'' then
        (''process'', ''name:'' @ py_str ostr (bget (ev_process e) ''name''))
      else if block_has (ev_file e) ''path'' then (''file'', py_str ostr (bget (ev_file e) ''path''))
      else if block_has (ev_user e) ''name'' then (''user'', py_str ostr (bget (ev_user e) ''name''))
      else if block_has (ev_source e) ''ip'' then (''ip'', py_str ostr (bget (ev_source e) ''ip''))
      else (''event'', ev_id e))"

definition rule_match_of ::
  "(string \<Rightarrow> pyval) \<Rightarrow> (pyval \<Rightarrow> string) \<Rightarrow> yaml_rule \<Rightarrow> event \<Rightarrow> rule_match" where
  "rule_match_of base ostr r e =
     (let (kind, key) = primary_entity_for ostr e
      in \<lparr>m_rule_id = yr_rule_id r, m_severity = yr_severity r, m_category = yr_category r,
          m_dedup_key = yr_rule_id r @ '':'' @ kind @ '':'' @ key,
          m_entity_kind = kind, m_entity_key = key,
          m_short = interpolate base ostr e (yr_short_tpl r),
          m_detail = interpolate base ostr e (yr_detail_tpl r),
          m_rule_name = yr_name r, m_why = yr_why r,
          m_false_positives = yr_false_positives r,
          m_event_ids = [ev_id e], m_labels = yr_labels r,
          m_dedup_window_s = yr_dedup_window_s r\<rparr>)"

fun first_true ::
  "(string \<Rightarrow> pyval) \<Rightarrow> (string \<Rightarrow> string \<Rightarrow> eval_error + bool) \<Rightarrow> string list \<Rightarrow> event \<Rightarrow> eval_error + bool" where
  "first_true base re_search [] e = Inr False"
| "first_true base re_search (x # xs) e =
     (case evaluate_expression base re_search x e of
        Inl err \<Rightarrow> Inl err
      | Inr b \<Rightarrow> if b then Inr True else first_true base re_search xs e)"

definition evaluate_yaml_rule ::
  "(string \<Rightarrow> pyval) \<Rightarrow> (string \<Rightarrow> string \<Rightarrow> eval_error + bool) \<Rightarrow> (pyval \<Rightarrow> string)
     \<Rightarrow> yaml_rule \<Rightarrow> eval_context \<Rightarrow> eval_error + rule_match list" where
  "evaluate_yaml_rule base re_search ostr r ctx =
     (case first_true base re_search (yr_detect_any_of r) (ctx_event ctx) of
        Inl err \<Rightarrow> Inl err
      | Inr b \<Rightarrow> Inr (if b then [rule_match_of base ostr r (ctx_event ctx)] else []))"

section \<open>Lemmas\<close>

text \<open>A node that cannot raise: its string operator has a string literal and its pattern compiles.\<close>

fun safe_node :: "(string \<Rightarrow> string \<Rightarrow> eval_error + bool) \<Rightarrow> node \<Rightarrow> bool" where
  "safe_node re_search (Leaf path oper rhs neg) =
     (oper \<in> {''STARTSWITH'', ''ENDSWITH'', ''CONTAINS'', ''MATCHES''} \<longrightarrow>
        (\<exists>t. parse_literal rhs = LStr t \<and> (oper = ''MATCHES'' \<longrightarrow> (\<forall>s. \<exists>b. re_search t s = Inr b))))"
| "safe_node re_search (InvalidLeaf t neg) = True"

lemma str_op_safe:
  "(oper = ''MATCHES'' \<longrightarrow> (\<forall>s. \<exists>b. re_search t s = Inr b)) \<Longrightarrow>
     oper = ''STARTSWITH'' \<or> oper = ''ENDSWITH'' \<or> oper = ''CONTAINS'' \<or> oper = ''MATCHES'' \<Longrightarrow>
     \<exists>b. str_op re_search oper s (LStr t) = Inr b"
  by (elim disjE) (simp_all add: str_op_def)

lemma eval_leaf_str_op:
  "oper = ''STARTSWITH'' \<or> oper = ''ENDSWITH'' \<or> oper = ''CONTAINS'' \<or> oper = ''MATCHES'' \<Longrightarrow>
     eval_leaf base re_search path oper rhs e =
       (case resolve_path base path e of
          PStr s \<Rightarrow> str_op re_search oper s (parse_literal rhs) | _ \<Rightarrow> Inr False)"
  by (elim disjE; hypsubst) (simp_all add: eval_leaf_def)

lemma safe_eval_leaf:
  assumes "safe_node re_search (Leaf path oper rhs neg)"
  shows "\<exists>b. eval_leaf base re_search path oper rhs e = Inr b"
proof (cases "oper \<in> {''STARTSWITH'', ''ENDSWITH'', ''CONTAINS'', ''MATCHES''}")
  case True
  then have oper: "oper = ''STARTSWITH'' \<or> oper = ''ENDSWITH'' \<or> oper = ''CONTAINS'' \<or> oper = ''MATCHES''"
    by blast
  from assms True obtain t where t: "parse_literal rhs = LStr t"
    "oper = ''MATCHES'' \<longrightarrow> (\<forall>s. \<exists>b. re_search t s = Inr b)"
    unfolding safe_node.simps by blast
  show ?thesis
    unfolding eval_leaf_str_op [OF oper] t(1)
    using str_op_safe [where re_search = re_search and t = t and oper = oper, OF t(2) oper]
    by (cases "resolve_path base path e") auto
next
  case False
  then show ?thesis by (simp add: eval_leaf_def Let_def) blast
qed

lemma safe_eval_node:
  assumes "safe_node re_search n"
  shows "\<exists>b. eval_node base re_search e n = Inr b"
proof (cases n)
  case (Leaf path oper rhs neg)
  then obtain b where "eval_leaf base re_search path oper rhs e = Inr b"
    using safe_eval_leaf assms by blast
  with Leaf show ?thesis by simp
qed simp

lemma eval_group_sem:
  "eval_group base re_search e g = Inr b \<Longrightarrow> b = (\<forall>n\<in>set g. eval_node base re_search e n = Inr True)"
  by (induction g) (auto split: sum.splits if_splits)

lemma evaluate_parsed_sem:
  "evaluate_parsed base re_search e gs = Inr b \<Longrightarrow>
     b = (\<exists>g\<in>set gs. \<forall>n\<in>set g. eval_node base re_search e n = Inr True)"
  by (induction gs) (auto split: sum.splits if_splits dest: eval_group_sem)

lemma safe_eval_group:
  "\<forall>n\<in>set g. safe_node re_search n \<Longrightarrow> \<exists>b. eval_group base re_search e g = Inr b"
  by (induction g) (auto split: sum.splits dest: safe_eval_node [of re_search _ base e])

lemma safe_evaluate_parsed:
  "\<forall>g\<in>set gs. \<forall>n\<in>set g. safe_node re_search n \<Longrightarrow> \<exists>b. evaluate_parsed base re_search e gs = Inr b"
  by (induction gs) (auto split: sum.splits dest: safe_eval_group [of _ re_search base e])

lemma first_true_sem:
  "first_true base re_search xs e = Inr True \<longleftrightarrow>
     (\<exists>ys x zs. xs = ys @ x # zs \<and> (\<forall>y\<in>set ys. evaluate_expression base re_search y e = Inr False)
        \<and> evaluate_expression base re_search x e = Inr True)" (is "_ \<longleftrightarrow> ?R xs")
proof (induction xs)
  case Nil
  then show ?case by simp
next
  case (Cons x xs)
  have "?R (x # xs) \<longleftrightarrow> evaluate_expression base re_search x e = Inr True
      \<or> (evaluate_expression base re_search x e = Inr False \<and> ?R xs)"
  proof
    assume "?R (x # xs)"
    then obtain ys y zs where *: "x # xs = ys @ y # zs"
      "\<forall>u\<in>set ys. evaluate_expression base re_search u e = Inr False"
      "evaluate_expression base re_search y e = Inr True" by blast
    then show "evaluate_expression base re_search x e = Inr True
        \<or> (evaluate_expression base re_search x e = Inr False \<and> ?R xs)"
      by (cases ys) auto
  next
    assume "evaluate_expression base re_search x e = Inr True
        \<or> (evaluate_expression base re_search x e = Inr False \<and> ?R xs)"
    then show "?R (x # xs)"
    proof
      assume "evaluate_expression base re_search x e = Inr True"
      then show ?thesis by (intro exI [of _ "[]"] exI [of _ x] exI [of _ xs]) simp
    next
      assume "evaluate_expression base re_search x e = Inr False \<and> ?R xs"
      then obtain ys y zs where "xs = ys @ y # zs" "evaluate_expression base re_search x e = Inr False"
        "\<forall>u\<in>set ys. evaluate_expression base re_search u e = Inr False"
        "evaluate_expression base re_search y e = Inr True" by blast
      then show ?thesis by (intro exI [of _ "x # ys"] exI [of _ y] exI [of _ zs]) simp
    qed
  qed
  with Cons show ?case by (auto split: sum.splits)
qed

lemma first_true_False:
  "first_true base re_search xs e = Inr False \<longleftrightarrow>
     (\<forall>x\<in>set xs. evaluate_expression base re_search x e = Inr False)"
  by (induction xs) (auto split: sum.splits)

section \<open>Properties\<close>

text \<open>the short-circuiting evaluation of a parsed expression in which no node can raise always
  returns, and its value is the denotation: some group has all its nodes true.\<close>

theorem evaluate_parsed_denotation:
  assumes "\<forall>g\<in>set gs. \<forall>n\<in>set g. safe_node re_search n"
  shows "evaluate_parsed base re_search e gs
           = Inr (\<exists>g\<in>set gs. \<forall>n\<in>set g. eval_node base re_search e n = Inr True)"
proof -
  obtain b where b: "evaluate_parsed base re_search e gs = Inr b"
    using safe_evaluate_parsed [OF assms] by blast
  with evaluate_parsed_sem [OF b] show ?thesis by simp
qed

theorem evaluate_parsed_denotation_witness:
  "evaluate_parsed (\<lambda>_. PNone) (\<lambda>p s. Inr (contains s p))
     ((mk_event 0 ''i'' ''m'' ''a'' High)\<lparr>ev_process := Some [(''name'', PStr ''bash''), (''pid'', PInt 7)]\<rparr>)
     [[Leaf ''process.name'' ''STARTSWITH'' ''ba'' False, Leaf ''process.pid'' ''IN'' ''[1, 7]'' True],
      [Leaf ''process.pid'' ''=='' ''7'' False]] = Inr True"
proof -
  let ?e = "(mk_event 0 ''i'' ''m'' ''a'' High)\<lparr>ev_process := Some [(''name'', PStr ''bash''), (''pid'', PInt 7)]\<rparr>"
  let ?gs = "[[Leaf ''process.name'' ''STARTSWITH'' ''ba'' False, Leaf ''process.pid'' ''IN'' ''[1, 7]'' True],
      [Leaf ''process.pid'' ''=='' ''7'' False]]"
  have lits: "parse_literal ''ba'' = LStr ''ba''" "parse_literal ''7'' = LInt 7"
    by code_simp+
  have "resolve_path (\<lambda>_. PNone) ''process.pid'' ?e = PInt 7"
    by (simp add: resolve_path_def path_segments_def event_attr_def event_fields_def opt_dict_def mk_event_def)
  then have "eval_node (\<lambda>_. PNone) (\<lambda>p s. Inr (contains s p)) ?e (Leaf ''process.pid'' ''=='' ''7'' False) = Inr True"
    by (simp add: eval_leaf_def lits eq_literal_def)
  then show ?thesis
    using evaluate_parsed_denotation [of ?gs "\<lambda>p s. Inr (contains s p)" "\<lambda>_. PNone" ?e]
    by (simp add: lits del: eval_node.simps evaluate_parsed.simps)
qed

text \<open>a YAML rule fires exactly when one of its expressions is true and every earlier one is
  false; it then yields one match, whose dedup key is built from the rule id and the event's
  primary entity.\<close>

theorem yaml_rule_fires_iff:
  "evaluate_yaml_rule base re_search ostr r ctx = Inr [rule_match_of base ostr r (ctx_event ctx)] \<longleftrightarrow>
     (\<exists>ys x zs. yr_detect_any_of r = ys @ x # zs
        \<and> list_all (\<lambda>y. evaluate_expression base re_search y (ctx_event ctx) = Inr False) ys
        \<and> evaluate_expression base re_search x (ctx_event ctx) = Inr True)"
proof -
  have "evaluate_yaml_rule base re_search ostr r ctx = Inr [rule_match_of base ostr r (ctx_event ctx)]
      \<longleftrightarrow> first_true base re_search (yr_detect_any_of r) (ctx_event ctx) = Inr True"
    by (auto simp: evaluate_yaml_rule_def split: sum.splits)
  then show ?thesis by (simp only: first_true_sem list_all_iff)
qed

text \<open>on every event the complementary operators are complements: \<^verbatim>\<open>!=\<close> of \<^verbatim>\<open>==\<close>, \<^verbatim>\<open>NOT IN\<close> of \<^verbatim>\<open>IN\<close>, and a
  negated leaf of the leaf. In particular a missing field satisfies every \<^verbatim>\<open>!=\<close> and every \<^verbatim>\<open>NOT IN\<close>.\<close>

theorem complementary_operators:
  "eval_node base re_search e (Leaf path ''!='' rhs neg)
     = eval_node base re_search e (Leaf path ''=='' rhs (\<not> neg))
   \<and> eval_node base re_search e (Leaf path ''NOT IN'' rhs neg)
     = eval_node base re_search e (Leaf path ''IN'' rhs (\<not> neg))
   \<and> eval_node base re_search e (Leaf path oper rhs True)
     = map_sum id Not (eval_node base re_search e (Leaf path oper rhs False))
   \<and> (resolve_path base path e = PNone \<longrightarrow>
        eval_node base re_search e (Leaf path ''!='' rhs False) = Inr True
        \<and> eval_node base re_search e (Leaf path ''NOT IN'' rhs False) = Inr True)"
proof (intro conjI impI)
  show "eval_node base re_search e (Leaf path ''!='' rhs neg)
     = eval_node base re_search e (Leaf path ''=='' rhs (\<not> neg))"
    by (simp add: eval_leaf_def)
  show "eval_node base re_search e (Leaf path ''NOT IN'' rhs neg)
     = eval_node base re_search e (Leaf path ''IN'' rhs (\<not> neg))"
    by (simp add: eval_leaf_def)
  show "eval_node base re_search e (Leaf path oper rhs True)
     = map_sum id Not (eval_node base re_search e (Leaf path oper rhs False))"
    by (cases "eval_leaf base re_search path oper rhs e") simp_all
next
  assume "resolve_path base path e = PNone"
  then have "\<not> eq_literal (resolve_path base path e) l" for l
    by (cases l) (simp_all add: eq_literal_def)
  then show "eval_node base re_search e (Leaf path ''!='' rhs False) = Inr True"
    and "eval_node base re_search e (Leaf path ''NOT IN'' rhs False) = Inr True"
    by (simp_all add: eval_leaf_def)
qed

theorem complementary_operators_witness:
  "eval_node (\<lambda>_. PNone) (\<lambda>p s. Inr False) (mk_event 0 ''i'' ''m'' ''a'' High)
     (Leaf ''process.name'' ''!='' ''bash'' False) = Inr True"
proof -
  have "resolve_path (\<lambda>_. PNone) ''process.name'' (mk_event 0 ''i'' ''m'' ''a'' High) = PNone"
    by (simp add: resolve_path_def path_segments_def event_attr_def event_fields_def opt_dict_def mk_event_def)
  with complementary_operators [of "\<lambda>_. PNone" "\<lambda>p s. Inr False" "mk_event 0 ''i'' ''m'' ''a'' High"
      "''process.name''" "''bash''" False]
  show ?thesis by blast
qed

end
