(* ===== verification/Rule_Engine.thy ===== *)
theory Rule_Engine
  imports Alerts Allowlist Yaml_Rules
begin

text \<open>
  The detection pipeline: the rule registry of \<^verbatim>\<open>inspectord/rules/registry.py\<close> and the engine of
  \<^verbatim>\<open>inspectord/rule_engine.py\<close>, which evaluates an event against the rules and its recent history, drops
  allowlisted matches and persists the rest.
\<close>

section \<open>Registry\<close>

text \<open>A Python rule is any function of the context; it may raise (\<open>Inl\<close>).\<close>

record registry =
  rg_yaml :: "yaml_rule list"
  rg_python :: "(string \<times> (eval_context \<Rightarrow> unit + rule_match list)) list"

definition or_empty :: "'e + 'a list \<Rightarrow> 'a list" where
  "or_empty r = (case r of Inl _ \<Rightarrow> [] | Inr xs \<Rightarrow> xs)"

text \<open>A rule that raises is skipped.\<close>

definition registry_evaluate ::
  "(string \<Rightarrow> pyval) \<Rightarrow> (string \<Rightarrow> string \<Rightarrow> eval_error + bool) \<Rightarrow> (pyval \<Rightarrow> string) \<Rightarrow> registry \<Rightarrow> eval_context
     \<Rightarrow> rule_match list" where
  "registry_evaluate base re_search ostr reg ctx =
     concat (map (\<lambda>yr. or_empty (evaluate_yaml_rule base re_search ostr yr ctx)) (rg_yaml reg)) @
     concat (map (\<lambda>(_, pr). or_empty (pr ctx)) (rg_python reg))"

definition rule_ids :: "registry \<Rightarrow> string list" where
  "rule_ids reg = map yr_rule_id (rg_yaml reg) @ map fst (rg_python reg)"

section \<open>Engine\<close>

definition HISTORY_WINDOW :: timedelta where "HISTORY_WINDOW = seconds 300"
definition HISTORY_MAX :: nat where "HISTORY_MAX = 5000"

record rule_engine =
  re_allowlist :: "allowlist_entry list"
  re_window :: timedelta
  re_history :: "event list"

definition rule_engine_init :: "allowlist_entry list \<Rightarrow> real \<Rightarrow> rule_engine" where
  "rule_engine_init entries dedup_window_s =
     \<lparr>re_allowlist = entries, re_window = timedelta_seconds dedup_window_s, re_history = []\<rparr>"

definition trim_history :: "datetime \<Rightarrow> event list \<Rightarrow> event list" where
  "trim_history now h = dropWhile (\<lambda>e. ev_ts e < now - HISTORY_WINDOW) h"

datatype process_error = Build_failed build_error | Duplicate_alert_id

text \<open>The loop over the matches. \<open>fresh\<close> supplies the alert id of the n-th candidate; an exception ends the
  loop with what has been persisted so far.\<close>

fun process_matches ::
  "timedelta \<Rightarrow> allowlist_entry list \<Rightarrow> event \<Rightarrow> (nat \<Rightarrow> string) \<Rightarrow> nat \<Rightarrow> rule_match list \<Rightarrow> alerts \<Rightarrow> alert list
     \<Rightarrow> alerts \<times> (process_error + alert list)" where
  "process_matches dw entries e fresh n [] t out = (t, Inr out)"
| "process_matches dw entries e fresh n (m # ms) t out =
     (if is_suppressed m entries then process_matches dw entries e fresh n ms t out
      else (case build_alert (fresh n) m e of
              Inl err \<Rightarrow> (t, Inl (Build_failed err))
            | Inr candidate \<Rightarrow>
                (case persist dw (m_dedup_window_s m) candidate t of
                   None \<Rightarrow> (t, Inl Duplicate_alert_id)
                 | Some (t', persisted, _, notifiable) \<Rightarrow>
                     process_matches dw entries e fresh (Suc n) ms t' (if notifiable then out @ [persisted] else out))))"

definition process_event ::
  "(eval_context \<Rightarrow> rule_match list) \<Rightarrow> (nat \<Rightarrow> string) \<Rightarrow> event \<Rightarrow> rule_engine \<Rightarrow> alerts
     \<Rightarrow> rule_engine \<times> alerts \<times> (process_error + alert list)" where
  "process_event evaluate fresh e eng t =
     (if ev_first_seen e then (eng, t, Inr [])
      else (let h = trim_history (ev_ts e) (ring_push HISTORY_MAX (re_history eng) e);
                ctx = \<lparr>ctx_event = e, ctx_history = h\<rparr>;
                (t', result) = process_matches (re_window eng) (re_allowlist eng) e fresh 0 (evaluate ctx) t []
            in (eng\<lparr>re_history := h\<rparr>, t', result)))"

section \<open>A bad rule\<close>

text \<open>A rule that raises does not affect the others: with it or without it the registry returns the same
  matches.\<close>

lemma raising_rule_is_isolated:
  assumes "isl (evaluate_yaml_rule base re_search ostr bad ctx)" and "isl (bad_py ctx)"
  shows "registry_evaluate base re_search ostr \<lparr>rg_yaml = ys @ bad # zs, rg_python = ps @ (i, bad_py) # qs\<rparr> ctx
       = registry_evaluate base re_search ostr \<lparr>rg_yaml = ys @ zs, rg_python = ps @ qs\<rparr> ctx"
  using assms by (auto simp: registry_evaluate_def or_empty_def isl_def)

lemma process_matches_append:
  "process_matches dw entries e fresh n (ms @ ns) t out =
     (case process_matches dw entries e fresh n ms t out of
        (t1, Inl err) \<Rightarrow> (t1, Inl err)
      | (t1, Inr out1) \<Rightarrow>
          process_matches dw entries e fresh
            (n + length (filter (\<lambda>m. \<not> is_suppressed m entries) ms)) ns t1 out1)"
  by (induction dw entries e fresh n ms t out rule: process_matches.induct)
    (auto split: sum.splits option.splits)

text \<open>One match whose severity is not a severity aborts the whole event: the matches after it are never
  considered, and the alerts already persisted for the matches before it are not returned, so they are
  neither notified nor get evidence.\<close>

theorem invalid_severity_aborts_event:
  assumes "process_matches dw entries e fresh 0 before t [] = (t1, Inr alerts)"
    and "\<not> is_suppressed m entries" and "severity_of (m_severity m) = None"
  shows "process_matches dw entries e fresh 0 (before @ m # after) t [] = (t1, Inl (Build_failed Bad_severity))"
  using assms by (simp add: process_matches_append build_alert_def)

section \<open>Every match is accounted for\<close>

lemma build_alert_simps:
  "build_alert i m e = Inr a \<Longrightarrow> al_dedup_key a = m_dedup_key m \<and> al_dedup_count a = 1 \<and> al_id a = i
     \<and> al_ts a = ev_ts e \<and> al_last_seen_at a = ev_ts e \<and> al_status a = New"
  by (auto simp: build_alert_def split: option.splits)

lemma process_matches_firings:
  assumes "wf_table t" "process_matches dw entries e fresh n ms t out = (t', Inr alerts)"
  shows "wf_table t' \<and> firings key t' = firings key t +
           int (length (filter (\<lambda>m. \<not> is_suppressed m entries \<and> m_dedup_key m = key) ms))"
  using assms
proof (induction dw entries e fresh n ms t out rule: process_matches.induct)
  case (2 dw entries e fresh n m ms t out)
  show ?case
  proof (cases "is_suppressed m entries")
    case True
    with 2 show ?thesis by simp
  next
    case False
    then obtain a t1 b w f where a: "build_alert (fresh n) m e = Inr a"
        and run: "persist dw (m_dedup_window_s m) a t = Some (t1, b, w, f)"
        and rec: "process_matches dw entries e fresh (Suc n) ms t1 (if f then out @ [b] else out) = (t', Inr alerts)"
      using "2.prems"(2) by (auto split: sum.splits option.splits)
    have "wf_table t1" by (rule persist_wf [OF "2.prems"(1) run])
    moreover have "firings key t1 = firings key t + (if m_dedup_key m = key then 1 else 0)"
      using persist_firings [OF "2.prems"(1) run] build_alert_simps [OF a] by simp
    ultimately show ?thesis
      using "2.IH"(2) [OF False a run refl refl refl _ rec] False by simp
  qed
qed simp


section \<open>The correlation history\<close>

fun history_run :: "event list \<Rightarrow> event list \<Rightarrow> event list" where
  "history_run h [] = h"
| "history_run h (e # es) =
     history_run (if ev_first_seen e then h else trim_history (ev_ts e) (ring_push HISTORY_MAX h e)) es"

lemma process_event_history:
  "re_history (fst (process_event evaluate fresh e eng t)) = history_run (re_history eng) [e]"
  by (simp add: process_event_def Let_def split: prod.splits)

lemma last_n_prefix_drop:
  assumes "\<forall>y\<in>set ys. Q y"
  shows "dropWhile Q (last_n n (ys @ ws)) = dropWhile Q (last_n n ws)"
proof (cases "length ws \<ge> n")
  case True
  then show ?thesis by (simp add: last_n_def)
next
  case False
  then have "last_n n (ys @ ws) = drop (length ys + length ws - n) ys @ ws" "last_n n ws = ws"
    by (simp_all add: last_n_def)
  moreover have "\<forall>y\<in>set (drop (length ys + length ws - n) ys). Q y" using assms by (meson in_set_dropD)
  ultimately show ?thesis by (simp add: dropWhile_append2)
qed

lemma trim_push:
  assumes "t \<le> u"
  shows "trim_history u (ring_push HISTORY_MAX (trim_history t (last_n HISTORY_MAX es)) e)
       = trim_history u (last_n HISTORY_MAX (es @ [e]))"
proof -
  let ?Q = "\<lambda>c e. ev_ts e < c - HISTORY_WINDOW" and ?L = "last_n HISTORY_MAX"
  have split: "?L es = takeWhile (?Q t) (?L es) @ dropWhile (?Q t) (?L es)" by simp
  have "\<forall>y\<in>set (takeWhile (?Q t) (?L es)). ?Q u y" using assms by (auto dest: set_takeWhileD)
  from last_n_prefix_drop [OF this, of HISTORY_MAX "dropWhile (?Q t) (?L es) @ [e]"]
  have "dropWhile (?Q u) (?L (?L es @ [e])) = dropWhile (?Q u) (?L (dropWhile (?Q t) (?L es) @ [e]))"
    by (metis append_assoc split)
  then show ?thesis by (simp add: trim_history_def ring_push_last_n last_n_snoc)
qed

lemma history_run_trim:
  "\<lbrakk>sorted (map ev_ts (es @ fs)); es \<noteq> []; list_all (\<lambda>e. \<not> ev_first_seen e) fs\<rbrakk> \<Longrightarrow>
     history_run (trim_history (ev_ts (last es)) (last_n HISTORY_MAX es)) fs
       = trim_history (ev_ts (last (es @ fs))) (last_n HISTORY_MAX (es @ fs))"
proof (induction fs arbitrary: es)
  case (Cons f fs)
  have "ev_ts (last es) \<le> ev_ts f" using Cons.prems by (auto simp: sorted_append)
  then have "history_run (trim_history (ev_ts (last es)) (last_n HISTORY_MAX es)) (f # fs)
      = history_run (trim_history (ev_ts (last (es @ [f]))) (last_n HISTORY_MAX (es @ [f]))) fs"
    using Cons.prems(3) by (simp add: trim_push)
  also have "\<dots> = trim_history (ev_ts (last ((es @ [f]) @ fs))) (last_n HISTORY_MAX ((es @ [f]) @ fs))"
    using Cons.prems by (intro Cons.IH) simp_all
  finally show ?case by simp
qed simp

lemma history_run_live: "history_run h es = history_run h (filter (\<lambda>e. \<not> ev_first_seen e) es)"
  by (induction h es rule: history_run.induct) auto

lemma dropWhile_less_sorted: "sorted (map f xs) \<Longrightarrow> dropWhile (\<lambda>x. f x < (c :: 'b :: linorder)) xs = filter (\<lambda>x. c \<le> f x) xs"
proof (induction xs)
  case (Cons x xs)
  show ?case
  proof (cases "f x < c")
    case False
    then have "\<forall>y\<in>set (x # xs). c \<le> f y" using Cons.prems by force
    then show ?thesis using False by (simp add: filter_id_conv)
  qed (use Cons in simp)
qed simp

lemma history_run_window:
  assumes "sorted (map ev_ts (es @ [e]))" and "\<not> ev_first_seen e"
  shows "history_run [] (es @ [e]) =
    filter (\<lambda>x. ev_ts e - seconds 300 \<le> ev_ts x) (last_n 5000 (filter (\<lambda>x. \<not> ev_first_seen x) (es @ [e])))"
proof -
  define live where "live = filter (\<lambda>x. \<not> ev_first_seen x) (es @ [e])"
  have sorted: "sorted (map ev_ts live)" unfolding live_def using assms(1) by (rule sorted_filter)
  obtain f fs where live: "live = f # fs" using assms(2) by (cases live) (auto simp: live_def)
  have last: "last live = e" using assms(2) by (simp add: live_def)
  have "\<forall>x\<in>set live. \<not> ev_first_seen x" by (simp add: live_def)
  then have "\<not> ev_first_seen f" "list_all (\<lambda>e. \<not> ev_first_seen e) fs" by (simp_all add: live list_all_iff)
  then have "history_run [] live = trim_history (ev_ts e) (last_n HISTORY_MAX live)"
    using history_run_trim [of "[f]" fs] sorted last
    by (simp add: live ring_push_last_n [of HISTORY_MAX "[]"])
  moreover have "sorted (map ev_ts (last_n HISTORY_MAX live))"
    using sorted by (simp add: last_n_def drop_map [symmetric] sorted_wrt_drop)
  ultimately show ?thesis
    unfolding history_run_live [of "[]" "es @ [e]"] live_def [symmetric]
    by (simp add: trim_history_def HISTORY_WINDOW_def HISTORY_MAX_def dropWhile_less_sorted)
qed

text \<open>The engine over a sequence of events; each event has its own supply of alert ids.\<close>

fun engine_run ::
  "(eval_context \<Rightarrow> rule_match list) \<Rightarrow> (event \<Rightarrow> nat \<Rightarrow> string) \<Rightarrow> event list \<Rightarrow> rule_engine \<Rightarrow> alerts \<Rightarrow> rule_engine \<times> alerts" where
  "engine_run evaluate fresh [] eng t = (eng, t)"
| "engine_run evaluate fresh (e # es) eng t =
     (case process_event evaluate (fresh e) e eng t of (eng', t', _) \<Rightarrow> engine_run evaluate fresh es eng' t')"

lemma engine_run_history: "re_history (fst (engine_run evaluate fresh es eng t)) = history_run (re_history eng) es"
proof (induction es arbitrary: eng t)
  case (Cons e es)
  obtain eng' t' r where run: "process_event evaluate (fresh e) e eng t = (eng', t', r)" by (metis prod_cases3)
  have "re_history eng' = history_run (re_history eng) [e]"
    using process_event_history [of evaluate "fresh e" e eng t] by (simp add: run)
  with Cons.IH run show ?case by simp
qed simp

text \<open>With non-decreasing event times the correlation history the rules see is exactly the events of the
  last 300 seconds, among the 5000 most recent ones; baseline events never enter it.\<close>

theorem history_is_recent_window:
  assumes "sorted (map ev_ts (es @ [e]))" and "\<not> ev_first_seen e"
  shows "re_history (fst (engine_run evaluate fresh (es @ [e]) (rule_engine_init entries w) t)) =
    filter (\<lambda>x. ev_ts e - seconds 300 \<le> ev_ts x) (last_n 5000 (filter (\<lambda>x. \<not> ev_first_seen x) (es @ [e])))"
proof -
  have "re_history (rule_engine_init entries w) = []" by (simp add: rule_engine_init_def)
  then show ?thesis by (simp only: engine_run_history history_run_window [OF assms])
qed

theorem history_is_recent_window_witness:
  "re_history (fst (engine_run (\<lambda>_. []) (\<lambda>_ _. ''A'')
      ([mk_event 0 ''a'' ''m'' ''x'' Low] @ [mk_event (seconds 400) ''b'' ''m'' ''x'' Low]) (rule_engine_init [] 600) []))
     = [mk_event (seconds 400) ''b'' ''m'' ''x'' Low]"
  by (subst history_is_recent_window) (simp_all add: seconds_def last_n_def)

text \<open>Concrete runs of the engine.\<close>

definition sample_match :: rule_match where
  "sample_match = mk_match ''R'' ''high'' ''host'' ''h'' ''k'' None"

definition sample_event :: event where
  "sample_event = mk_event 7 ''e1'' ''m'' ''a'' Info"

lemma build_sample: "build_alert i sample_match sample_event = Inr (projr (build_alert i sample_match sample_event))"
  by (simp add: sample_match_def mk_match_def build_alert_def severity_of_def all_strings_def)

lemma process_sample:
  "process_matches dw [] sample_event fresh 0 [sample_match] [] [] =
     ([(fresh 0, alert_row_of (projr (build_alert (fresh 0) sample_match sample_event)))],
      Inr [projr (build_alert (fresh 0) sample_match sample_event)])"
proof -
  let ?a = "projr (build_alert (fresh 0) sample_match sample_event)"
  have "al_id ?a = fresh 0" using build_alert_simps [OF build_sample] by simp
  then have "persist dw (m_dedup_window_s sample_match) ?a [] = Some ([(fresh 0, alert_row_of ?a)], ?a, True, True)"
    by (simp add: persist_None open_window_def)
  then show ?thesis by (subst process_matches.simps, subst build_sample) simp
qed

theorem invalid_severity_aborts_event_witness:
  "process_matches 0 [] sample_event (\<lambda>n. ''A'') 0 ([sample_match] @ sample_match\<lparr>m_severity := ''hgh''\<rparr> # []) [] []
     = ([(''A'', alert_row_of (projr (build_alert ''A'' sample_match sample_event)))], Inl (Build_failed Bad_severity))"
  using invalid_severity_aborts_event [OF process_sample, where m = "sample_match\<lparr>m_severity := ''hgh''\<rparr>" and after = "[]"]
  by (simp add: severity_of_def)


end
