(* ===== verification/Projector.thy ===== *)
theory Projector
  imports Storage
begin

text \<open>
  The projection of the event stream into the entity-state tables (\<^verbatim>\<open>inspectord/state/projector.py\<close>), the
  boot reconciliation of processes (\<^verbatim>\<open>state/reconcile.py\<close>) and the baseline store (\<^verbatim>\<open>state/baseline.py\<close>).
  A column holds the Python value that is bound to it: the casts of the database engine are left out.
  \<open>ostr\<close> is the text of foreign values and \<open>fromiso\<close> stands for \<^verbatim>\<open>datetime.fromisoformat\<close>. An exception is
  \<open>None\<close>.
\<close>

section \<open>Rows\<close>

record service_row =
  sv_active :: pyval
  sv_sub :: pyval
  sv_load :: pyval
  sv_first_seen :: datetime
  sv_last_seen :: datetime
  sv_event :: string

record device_row =
  dv_vendor :: pyval
  dv_product :: pyval
  dv_serial :: pyval
  dv_subsystem :: pyval
  dv_devnode :: pyval
  dv_status :: string
  dv_first_seen :: datetime
  dv_last_seen :: datetime
  dv_event :: string

record process_row =
  pr_ppid :: pyval
  pr_comm :: pyval
  pr_exe_path :: pyval
  pr_exe_sha256 :: pyval
  pr_uid :: pyval
  pr_cmdline :: pyval
  pr_status :: string
  pr_exit_code :: pyval
  pr_first_seen :: datetime
  pr_last_seen :: datetime
  pr_event :: string

record connection_row =
  cn_pid :: pyval
  cn_comm :: pyval
  cn_saddr :: pyval
  cn_sport :: pyval
  cn_daddr :: pyval
  cn_dport :: pyval
  cn_proto :: pyval
  cn_family :: string
  cn_status :: string
  cn_first_seen :: datetime
  cn_last_seen :: datetime
  cn_event :: string

record listener_row =
  ln_family :: string
  ln_first_seen :: datetime
  ln_last_seen :: datetime
  ln_snapshot_gen :: int

record file_row =
  fl_change_type :: string
  fl_first_seen :: datetime
  fl_last_seen :: datetime
  fl_event :: string

record persistence_row =
  ps_kind :: pyval
  ps_name :: pyval
  ps_source_path :: pyval
  ps_details :: pyval
  ps_first_seen :: datetime
  ps_last_seen :: datetime
  ps_event :: string

record scan_row =
  sr_scanner :: string
  sr_status :: string
  sr_reason :: pyval
  sr_exit_code :: pyval
  sr_duration_s :: pyval
  sr_finding_count :: pyval
  sr_findings_dropped :: pyval
  sr_truncated :: "bool option"
  sr_output_truncated :: "bool option"
  sr_output_excerpt :: pyval
  sr_started_at :: datetime
  sr_completed_at :: "datetime option"
  sr_event :: string

record vuln_row =
  vu_installed :: pyval
  vu_fixed :: pyval
  vu_severity :: pyval
  vu_status :: pyval
  vu_fix_in_testing :: bool
  vu_first_seen_at :: datetime
  vu_last_seen :: datetime
  vu_event :: string
  vu_resolved_at :: "datetime option"
  vu_acked_at :: "datetime option"
  vu_acked_note :: "string option"

record entity_state =
  st_service :: "(pyval, service_row) table"
  st_device :: "(pyval, device_row) table"
  st_process :: "(pyval \<times> string, process_row) table"
  st_connection :: "(string, connection_row) table"
  st_listener :: "(pyval \<times> pyval \<times> pyval, listener_row) table"
  st_file :: "(pyval, file_row) table"
  st_persistence :: "(pyval, persistence_row) table"
  st_scan :: "(string, scan_row) table"
  st_vuln :: "(pyval \<times> pyval \<times> pyval, vuln_row) table"

section \<open>Values of an event\<close>

text \<open>\<^verbatim>\<open>(v or {}).get(k)\<close> on a value that need not be a dictionary.\<close>

definition value_get :: "pyval \<Rightarrow> string \<Rightarrow> pyval option" where
  "value_get v k =
     (if \<not> truthy v then Some PNone else case v of PDict d \<Rightarrow> Some (dget d k) | _ \<Rightarrow> None)"

definition family :: "pyval \<Rightarrow> string option" where
  "family addr = (case addr of PStr s \<Rightarrow> Some (if contains s '':'' then ''ipv6'' else ''ipv4'') | _ \<Rightarrow> None)"

text \<open>\<^verbatim>\<open>int(ts.timestamp())\<close>: whole seconds, towards zero.\<close>

definition epoch_seconds :: "datetime \<Rightarrow> int" where
  "epoch_seconds ts = (if ts < 0 then - ((- ts) div 1000000) else ts div 1000000)"

definition parse_uid :: "pydict option \<Rightarrow> pyval option" where
  "parse_uid user =
     (case bget user ''id'' of
        PStr s \<Rightarrow> if s \<noteq> [] \<and> list_all py_digit s then map_option PInt (py_int s) else Some PNone
      | PInt i \<Rightarrow> Some (PInt i)
      | PBool b \<Rightarrow> Some (PBool b)
      | _ \<Rightarrow> Some PNone)"

definition coalesce :: "pyval \<Rightarrow> pyval \<Rightarrow> pyval" where
  "coalesce a b = (if a = PNone then b else a)"

definition py_or :: "pyval \<Rightarrow> pyval \<Rightarrow> pyval" where
  "py_or a b = (if truthy a then a else b)"

section \<open>One operation per table\<close>

definition connection_ins :: "event \<Rightarrow> connection_row" where
  "connection_ins e =
     \<lparr>cn_pid = bget (ev_process e) ''pid'', cn_comm = bget (ev_process e) ''name'', cn_saddr = bget (ev_source e) ''ip'',
      cn_sport = bget (ev_source e) ''port'', cn_daddr = bget (ev_destination e) ''ip'',
      cn_dport = bget (ev_destination e) ''port'', cn_proto = bget (ev_network e) ''transport'',
      cn_family = the (family (bget (ev_destination e) ''ip'')), cn_status = ''observed'',
      cn_first_seen = ev_ts e, cn_last_seen = ev_ts e, cn_event = ev_id e\<rparr>"

definition connection_upd :: "event \<Rightarrow> connection_row \<Rightarrow> connection_row" where
  "connection_upd e r =
     r\<lparr>cn_comm := bget (ev_process e) ''name'', cn_saddr := bget (ev_source e) ''ip'',
       cn_sport := bget (ev_source e) ''port'', cn_daddr := bget (ev_destination e) ''ip'',
       cn_dport := bget (ev_destination e) ''port'', cn_proto := bget (ev_network e) ''transport'',
       cn_family := the (family (bget (ev_destination e) ''ip'')), cn_last_seen := ev_ts e, cn_event := ev_id e\<rparr>"

definition conn_key :: "(pyval \<Rightarrow> string) \<Rightarrow> event \<Rightarrow> string" where
  "conn_key ostr e =
     py_str ostr (bget (ev_process e) ''pid'') @ '':'' @ py_str ostr (bget (ev_destination e) ''ip'') @ '':'' @
     py_str ostr (bget (ev_destination e) ''port'') @ '':'' @ py_str ostr (bget (ev_network e) ''transport'')"

definition project_connection :: "(pyval \<Rightarrow> string) \<Rightarrow> event \<Rightarrow> entity_state \<Rightarrow> entity_state option" where
  "project_connection ostr e st =
     (let pid = bget (ev_process e) ''pid''; daddr = bget (ev_destination e) ''ip''
      in if pid = PNone \<or> daddr = PNone then Some st
         else if family daddr = None then None
         else Some (st\<lparr>st_connection := upsert (conn_key ostr e) (connection_ins e) (connection_upd e) (st_connection st)\<rparr>))"

definition listener_ins :: "event \<Rightarrow> listener_row" where
  "listener_ins e =
     \<lparr>ln_family = the (family (bget (ev_source e) ''ip'')), ln_first_seen = ev_ts e, ln_last_seen = ev_ts e,
      ln_snapshot_gen = epoch_seconds (ev_ts e)\<rparr>"

definition listener_upd :: "event \<Rightarrow> listener_row \<Rightarrow> listener_row" where
  "listener_upd e r =
     r\<lparr>ln_family := the (family (bget (ev_source e) ''ip'')), ln_last_seen := ev_ts e,
       ln_snapshot_gen := epoch_seconds (ev_ts e)\<rparr>"

definition project_listener :: "event \<Rightarrow> entity_state \<Rightarrow> entity_state option" where
  "project_listener e st =
     (let addr = bget (ev_source e) ''ip''; port = bget (ev_source e) ''port'';
          proto = bget (ev_network e) ''transport''
      in if addr = PNone \<or> port = PNone \<or> proto = PNone then Some st
         else if ev_action e = ''listener_removed''
           then Some (st\<lparr>st_listener := AList.delete (addr, port, proto) (st_listener st)\<rparr>)
         else if family addr = None then None
         else Some (st\<lparr>st_listener := upsert (addr, port, proto) (listener_ins e) (listener_upd e) (st_listener st)\<rparr>))"

definition service_ins :: "event \<Rightarrow> service_row" where
  "service_ins e =
     \<lparr>sv_active = bget (ev_raw e) ''active'', sv_sub = bget (ev_raw e) ''sub'', sv_load = bget (ev_raw e) ''load'',
      sv_first_seen = ev_ts e, sv_last_seen = ev_ts e, sv_event = ev_id e\<rparr>"

definition service_upd :: "event \<Rightarrow> service_row \<Rightarrow> service_row" where
  "service_upd e r =
     r\<lparr>sv_active := bget (ev_raw e) ''active'', sv_sub := bget (ev_raw e) ''sub'', sv_load := bget (ev_raw e) ''load'',
       sv_last_seen := ev_ts e, sv_event := ev_id e\<rparr>"

definition project_service :: "event \<Rightarrow> entity_state \<Rightarrow> entity_state option" where
  "project_service e st =
     (let u = bget (ev_service e) ''name''
      in if \<not> truthy u then Some st
         else if ev_action e = ''service_removed'' then Some (st\<lparr>st_service := AList.delete u (st_service st)\<rparr>)
         else Some (st\<lparr>st_service := upsert u (service_ins e) (service_upd e) (st_service st)\<rparr>))"

definition file_ins :: "event \<Rightarrow> file_row" where
  "file_ins e =
     \<lparr>fl_change_type = removeprefix (ev_action e) ''file_'', fl_first_seen = ev_ts e, fl_last_seen = ev_ts e,
      fl_event = ev_id e\<rparr>"

definition file_upd :: "event \<Rightarrow> file_row \<Rightarrow> file_row" where
  "file_upd e r =
     r\<lparr>fl_change_type := removeprefix (ev_action e) ''file_'', fl_last_seen := ev_ts e, fl_event := ev_id e\<rparr>"

definition project_file :: "event \<Rightarrow> entity_state \<Rightarrow> entity_state option" where
  "project_file e st =
     (let path = bget (ev_file e) ''path''
      in if path = PNone then Some st
         else Some (st\<lparr>st_file := upsert path (file_ins e) (file_upd e) (st_file st)\<rparr>))"

definition persistence_ins :: "event \<Rightarrow> persistence_row" where
  "persistence_ins e =
     (let p = ev_persistence e
      in \<lparr>ps_kind = bget p ''kind'', ps_name = bget p ''name'', ps_source_path = bget p ''source_path'',
          ps_details = bget p ''details'', ps_first_seen = ev_ts e, ps_last_seen = ev_ts e, ps_event = ev_id e\<rparr>)"

definition persistence_upd :: "event \<Rightarrow> persistence_row \<Rightarrow> persistence_row" where
  "persistence_upd e r =
     (let p = ev_persistence e
      in r\<lparr>ps_kind := bget p ''kind'', ps_name := bget p ''name'', ps_source_path := bget p ''source_path'',
           ps_details := bget p ''details'', ps_last_seen := ev_ts e, ps_event := ev_id e\<rparr>)"

text \<open>The column \<^verbatim>\<open>kind\<close> of \<^verbatim>\<open>persistence_state\<close> is \<^verbatim>\<open>NOT NULL\<close>.\<close>

definition project_persistence :: "event \<Rightarrow> entity_state \<Rightarrow> entity_state option" where
  "project_persistence e st =
     (let p = ev_persistence e; key = bget p ''key''
      in if \<not> truthy key then Some st
         else if ev_action e = ''persistence_removed''
           then Some (st\<lparr>st_persistence := AList.delete key (st_persistence st)\<rparr>)
         else if bget p ''kind'' = PNone then None
         else Some (st\<lparr>st_persistence := upsert key (persistence_ins e) (persistence_upd e) (st_persistence st)\<rparr>))"

definition project_process :: "string \<Rightarrow> event \<Rightarrow> entity_state \<Rightarrow> entity_state option" where
  "project_process boot_id e st =
     (let p = ev_process e; pid = bget p ''pid''; comm = bget p ''name''
      in if pid = PNone then Some st
         else if ev_action e = ''process_exit'' then
           Some (st\<lparr>st_process := upsert (pid, boot_id)
             \<lparr>pr_ppid = PNone, pr_comm = comm, pr_exe_path = PNone, pr_exe_sha256 = PNone, pr_uid = PNone,
              pr_cmdline = PNone, pr_status = ''exited'', pr_exit_code = bget p ''exit_code'',
              pr_first_seen = ev_ts e, pr_last_seen = ev_ts e, pr_event = ev_id e\<rparr>
             (\<lambda>r. r\<lparr>pr_status := ''exited'', pr_exit_code := bget p ''exit_code'', pr_last_seen := ev_ts e,
                   pr_event := ev_id e\<rparr>)
             (st_process st)\<rparr>)
         else (case (value_get (bget p ''parent'') ''pid'', value_get (bget p ''hash'') ''sha256'', parse_uid (ev_user e)) of
                 (Some ppid, Some sha256, Some uid) \<Rightarrow>
                   Some (st\<lparr>st_process := upsert (pid, boot_id)
                     \<lparr>pr_ppid = ppid, pr_comm = comm, pr_exe_path = bget p ''executable'', pr_exe_sha256 = sha256,
                      pr_uid = uid, pr_cmdline = bget p ''command_line'', pr_status = ''running'',
                      pr_exit_code = PNone, pr_first_seen = ev_ts e, pr_last_seen = ev_ts e, pr_event = ev_id e\<rparr>
                     (\<lambda>r. r\<lparr>pr_ppid := ppid, pr_comm := comm,
                           pr_exe_path := coalesce (bget p ''executable'') (pr_exe_path r),
                           pr_exe_sha256 := coalesce sha256 (pr_exe_sha256 r), pr_uid := uid,
                           pr_cmdline := bget p ''command_line'', pr_last_seen := ev_ts e, pr_event := ev_id e,
                           pr_status := ''running''\<rparr>)
                     (st_process st)\<rparr>)
               | _ \<Rightarrow> None))"

definition device_key :: "(pyval \<Rightarrow> string) \<Rightarrow> event \<Rightarrow> pyval" where
  "device_key ostr e =
     (let d = ev_device e; vendor = bget d ''vendor''; product = bget d ''product''; serial = bget d ''serial'';
          shown = (\<lambda>v. py_str ostr (py_or v (PStr '''')))
      in if truthy vendor \<or> truthy product \<or> truthy serial
         then PStr (shown vendor @ '':'' @ shown product @ '':'' @ shown serial)
         else py_or (bget (ev_raw e) ''DEVPATH'') (py_or (bget d ''name'') PNone))"

definition project_device :: "(pyval \<Rightarrow> string) \<Rightarrow> event \<Rightarrow> entity_state \<Rightarrow> entity_state option" where
  "project_device ostr e st =
     (let key = device_key ostr e; d = ev_device e; raw = ev_raw e
      in if \<not> truthy key then Some st
         else if ev_action e = ''device_removed'' then
           Some (st\<lparr>st_device := update_where (\<lambda>k _. k = key)
                   (\<lambda>r. r\<lparr>dv_status := ''removed'', dv_last_seen := ev_ts e, dv_event := ev_id e\<rparr>) (st_device st)\<rparr>)
         else Some (st\<lparr>st_device := upsert key
                \<lparr>dv_vendor = bget d ''vendor'', dv_product = bget d ''product'', dv_serial = bget d ''serial'',
                 dv_subsystem = bget raw ''SUBSYSTEM'', dv_devnode = bget raw ''DEVNAME'', dv_status = ''present'',
                 dv_first_seen = ev_ts e, dv_last_seen = ev_ts e, dv_event = ev_id e\<rparr>
                (\<lambda>r. r\<lparr>dv_vendor := bget d ''vendor'', dv_product := bget d ''product'', dv_serial := bget d ''serial'',
                      dv_subsystem := bget raw ''SUBSYSTEM'', dv_devnode := bget raw ''DEVNAME'',
                      dv_status := ''present'', dv_last_seen := ev_ts e, dv_event := ev_id e\<rparr>)
                (st_device st)\<rparr>))"

section \<open>Scanner runs\<close>

definition project_scan_started :: "(pyval \<Rightarrow> string) \<Rightarrow> string \<Rightarrow> event \<Rightarrow> entity_state \<Rightarrow> entity_state" where
  "project_scan_started ostr scanner e st =
     (let run_id = bget (ev_raw e) ''run_id''
      in if \<not> truthy run_id then st
         else st\<lparr>st_scan := upsert (py_str ostr run_id)
                \<lparr>sr_scanner = scanner, sr_status = ''running'', sr_reason = PNone, sr_exit_code = PNone,
                 sr_duration_s = PNone, sr_finding_count = PNone, sr_findings_dropped = PNone, sr_truncated = None,
                 sr_output_truncated = None, sr_output_excerpt = PNone, sr_started_at = ev_ts e,
                 sr_completed_at = None, sr_event = ev_id e\<rparr>
                (\<lambda>r. r\<lparr>sr_scanner := scanner, sr_started_at := ev_ts e, sr_event := ev_id e\<rparr>)
                (st_scan st)\<rparr>)"

definition duration_of :: "pyval \<Rightarrow> timedelta" where
  "duration_of v =
     (case v of PInt i \<Rightarrow> timedelta_seconds (of_int i) | PFloat r \<Rightarrow> timedelta_seconds r
      | PBool b \<Rightarrow> timedelta_seconds (if b then 1 else 0) | _ \<Rightarrow> 0)"

definition project_scan_completed :: "(pyval \<Rightarrow> string) \<Rightarrow> string \<Rightarrow> event \<Rightarrow> entity_state \<Rightarrow> entity_state" where
  "project_scan_completed ostr scanner e st =
     (let raw = ev_raw e; run_id = bget raw ''run_id'';
          status = (if bget raw ''scan_outcome'' = PStr ''failure'' then ''failure'' else ''success'')
      in if \<not> truthy run_id then st
         else st\<lparr>st_scan := upsert (py_str ostr run_id)
                \<lparr>sr_scanner = scanner, sr_status = status, sr_reason = bget raw ''reason'',
                 sr_exit_code = bget raw ''exit_code'', sr_duration_s = bget raw ''duration_s'',
                 sr_finding_count = bget raw ''finding_count'', sr_findings_dropped = bget raw ''findings_dropped'',
                 sr_truncated = Some (truthy (bget raw ''truncated'')),
                 sr_output_truncated = Some (truthy (bget raw ''output_truncated'')),
                 sr_output_excerpt = bget raw ''output_excerpt'',
                 sr_started_at = ev_ts e - duration_of (bget raw ''duration_s''),
                 sr_completed_at = Some (ev_ts e), sr_event = ev_id e\<rparr>
                (\<lambda>r. r\<lparr>sr_scanner := scanner, sr_status := status, sr_reason := bget raw ''reason'',
                      sr_exit_code := bget raw ''exit_code'', sr_duration_s := bget raw ''duration_s'',
                      sr_finding_count := bget raw ''finding_count'', sr_findings_dropped := bget raw ''findings_dropped'',
                      sr_truncated := Some (truthy (bget raw ''truncated'')),
                      sr_output_truncated := Some (truthy (bget raw ''output_truncated'')),
                      sr_output_excerpt := bget raw ''output_excerpt'',
                      sr_completed_at := Some (ev_ts e), sr_event := ev_id e\<rparr>)
                (st_scan st)\<rparr>)"

definition project_scan_skipped :: "string \<Rightarrow> event \<Rightarrow> entity_state \<Rightarrow> entity_state" where
  "project_scan_skipped scanner e st =
     st\<lparr>st_scan := upsert (''skip:'' @ ev_id e)
          \<lparr>sr_scanner = scanner, sr_status = ''skipped'', sr_reason = bget (ev_raw e) ''reason'', sr_exit_code = PNone,
           sr_duration_s = PNone, sr_finding_count = PNone, sr_findings_dropped = PNone, sr_truncated = None,
           sr_output_truncated = None, sr_output_excerpt = PNone, sr_started_at = ev_ts e,
           sr_completed_at = Some (ev_ts e), sr_event = ev_id e\<rparr>
          (\<lambda>r. r) (st_scan st)\<rparr>"

definition project_scan_run :: "(pyval \<Rightarrow> string) \<Rightarrow> event \<Rightarrow> entity_state \<Rightarrow> entity_state" where
  "project_scan_run ostr e st =
     (let scanner = bget (ev_raw e) ''scanner''
      in if \<not> truthy scanner then st
         else if ev_action e = ''scan_started'' then project_scan_started ostr (py_str ostr scanner) e st
         else if ev_action e = ''scan_completed'' then project_scan_completed ostr (py_str ostr scanner) e st
         else if ev_action e = ''scan_skipped'' then project_scan_skipped (py_str ostr scanner) e st
         else st)"

section \<open>Vulnerabilities\<close>

definition project_vulnerability_found :: "event \<Rightarrow> entity_state \<Rightarrow> entity_state" where
  "project_vulnerability_found e st =
     (let v = ev_vulnerability e; avg_id = bget v ''avg_id''; cve_id = bget v ''cve_id''; package = bget v ''package''
      in if \<not> truthy avg_id \<or> \<not> truthy cve_id \<or> \<not> truthy package then st
         else st\<lparr>st_vuln := upsert (avg_id, cve_id, package)
                \<lparr>vu_installed = bget v ''installed_version'', vu_fixed = bget v ''fixed_version'',
                 vu_severity = bget v ''severity'', vu_status = bget v ''status'',
                 vu_fix_in_testing = truthy (bget v ''fix_in_testing''), vu_first_seen_at = ev_ts e,
                 vu_last_seen = ev_ts e, vu_event = ev_id e, vu_resolved_at = None, vu_acked_at = None,
                 vu_acked_note = None\<rparr>
                (\<lambda>r. r\<lparr>vu_installed := bget v ''installed_version'', vu_fixed := bget v ''fixed_version'',
                      vu_severity := bget v ''severity'', vu_status := bget v ''status'',
                      vu_fix_in_testing := truthy (bget v ''fix_in_testing''), vu_last_seen := ev_ts e,
                      vu_event := ev_id e, vu_resolved_at := None\<rparr>)
                (st_vuln st)\<rparr>)"

text \<open>The strings among the items of \<^verbatim>\<open>raw.get("skipped_avg_ids") or []\<close>; a value that cannot be iterated raises,
  a string is iterated by character and a dictionary by key.\<close>

definition skipped_avgs :: "pyval \<Rightarrow> string list option" where
  "skipped_avgs v =
     (if \<not> truthy v then Some []
      else case v of
             PList xs \<Rightarrow> Some (concat (map (\<lambda>x. case x of PStr s \<Rightarrow> [s] | _ \<Rightarrow> []) xs))
           | PStr s \<Rightarrow> Some (map (\<lambda>c. [c]) s)
           | PDict d \<Rightarrow> Some (map fst d)
           | _ \<Rightarrow> None)"

definition project_vulnerability_sweep :: "(string \<Rightarrow> datetime option) \<Rightarrow> event \<Rightarrow> entity_state \<Rightarrow> entity_state option" where
  "project_vulnerability_sweep fromiso e st =
     (case bget (ev_raw e) ''scan_started_at'' of
        PStr s \<Rightarrow>
          (case fromiso s of
             None \<Rightarrow> Some st
           | Some started \<Rightarrow>
               (case skipped_avgs (bget (ev_raw e) ''skipped_avg_ids'') of
                  None \<Rightarrow> None
                | Some skipped \<Rightarrow>
                    Some (st\<lparr>st_vuln := update_where
                            (\<lambda>(avg_id, _, _) r. vu_resolved_at r = None \<and> vu_last_seen r < started
                                               \<and> avg_id \<notin> PStr ` set skipped)
                            (\<lambda>r. r\<lparr>vu_resolved_at := Some (ev_ts e)\<rparr>) (st_vuln st)\<rparr>)))
      | _ \<Rightarrow> Some st)"

definition project_vulnerability :: "(string \<Rightarrow> datetime option) \<Rightarrow> event \<Rightarrow> entity_state \<Rightarrow> entity_state option" where
  "project_vulnerability fromiso e st =
     (if ev_action e = ''vulnerability_found'' then Some (project_vulnerability_found e st)
      else if ev_action e = ''vuln_scan_completed'' then project_vulnerability_sweep fromiso e st
      else Some st)"

section \<open>The projection\<close>

definition project ::
  "(pyval \<Rightarrow> string) \<Rightarrow> (string \<Rightarrow> datetime option) \<Rightarrow> string option \<Rightarrow> event \<Rightarrow> entity_state \<Rightarrow> entity_state option" where
  "project ostr fromiso boot_id e st =
     (if ev_module e = ''services_monitor'' then project_service e st
      else if ev_module e = ''udev_monitor'' then project_device ostr e st
      else if (ev_module e = ''process_collector'' \<or> ev_module e = ''process_collector_exit'') \<and> boot_id \<noteq> None
        then project_process (the boot_id) e st
      else if ev_module e = ''outbound_connection_tracker'' \<or> ev_module e = ''outbound_connection_tracker6''
        then project_connection ostr e st
      else if ev_module e = ''listening_socket_snapshotter'' then project_listener e st
      else if ev_module e = ''fim_watcher'' then project_file e st
      else if ev_module e = ''persistence_snapshotter'' then project_persistence e st
      else if ev_module e = ''scanner_runner'' then Some (project_scan_run ostr e st)
      else if ev_module e = ''vuln_scanner'' then project_vulnerability fromiso e st
      else Some st)"

text \<open>The persist path runs the projection on one event after the other; an exception leaves the state as it
  was (each projection is one statement).\<close>

fun project_all ::
  "(pyval \<Rightarrow> string) \<Rightarrow> (string \<Rightarrow> datetime option) \<Rightarrow> string option \<Rightarrow> event list \<Rightarrow> entity_state \<Rightarrow> entity_state" where
  "project_all ostr fromiso boot [] st = st"
| "project_all ostr fromiso boot (e # es) st =
     project_all ostr fromiso boot es (case project ostr fromiso boot e st of None \<Rightarrow> st | Some st' \<Rightarrow> st')"

section \<open>Reconciliation and baselines\<close>

definition reconcile_processes :: "string \<Rightarrow> entity_state \<Rightarrow> entity_state" where
  "reconcile_processes boot_id st =
     st\<lparr>st_process := update_where (\<lambda>(_, b) r. b \<noteq> boot_id \<and> pr_status r = ''running'')
          (\<lambda>r. r\<lparr>pr_status := ''exited''\<rparr>) (st_process st)\<rparr>"

record baseline_row =
  bl_attrs :: pydict
  bl_captured_at :: datetime

type_synonym baselines = "(string \<times> pyval, baseline_row) table"

datatype baseline_error = Unsupported_kind string

text \<open>\<^verbatim>\<open>attrs_json\<close> is kept as the dictionary it is the text of; \<open>now\<close> is \<^verbatim>\<open>CURRENT_TIMESTAMP\<close>.\<close>

definition capture_baseline ::
  "(pyval \<Rightarrow> string) \<Rightarrow> datetime \<Rightarrow> string \<Rightarrow> entity_state \<Rightarrow> baselines \<Rightarrow> baseline_error + baselines \<times> nat" where
  "capture_baseline ostr now kind st b =
     (if kind \<noteq> ''service'' \<and> kind \<noteq> ''persistence'' then Inl (Unsupported_kind kind)
      else (let kept = delete_where (\<lambda>(k, _) _. k = kind) b;
                rows = (if kind = ''persistence''
                        then map (\<lambda>(k, r). ((kind, k),
                               \<lparr>bl_attrs = [(''kind'', ps_kind r), (''name'', ps_name r),
                                            (''source_path'', ps_source_path r), (''details'', ps_details r)],
                                bl_captured_at = now\<rparr>)) (st_persistence st)
                        else map (\<lambda>(u, r). ((kind, PStr (''svc:'' @ py_str ostr u)),
                               \<lparr>bl_attrs = [(''active_state'', sv_active r), (''sub_state'', sv_sub r),
                                            (''load_state'', sv_load r)],
                                bl_captured_at = now\<rparr>)) (st_service st))
            in Inr (kept @ rows, length rows)))"

end
