(* ===== verification/Entity_State.thy ===== *)
theory Entity_State
  imports Projector
begin

text \<open>
  What the projected tables mean. The tables that record when an entity was first and last seen share
  one contract, the locale \<open>tracked_table\<close>; it is interpreted on the row operations of each of them.
\<close>

named_theorems frame \<open>what a projection leaves alone\<close>

section \<open>Each projection writes one table\<close>

lemma service_frame [frame]:
  "project_service e st = Some st' \<Longrightarrow> st_device st' = st_device st \<and> st_process st' = st_process st \<and> st_connection st' = st_connection st \<and> st_listener st' = st_listener st \<and> st_file st' = st_file st \<and> st_persistence st' = st_persistence st \<and> st_scan st' = st_scan st \<and> st_vuln st' = st_vuln st"
  by (auto simp: project_service_def Let_def split: if_splits)

lemma device_frame [frame]:
  "project_device ostr e st = Some st' \<Longrightarrow> st_service st' = st_service st \<and> st_process st' = st_process st \<and> st_connection st' = st_connection st \<and> st_listener st' = st_listener st \<and> st_file st' = st_file st \<and> st_persistence st' = st_persistence st \<and> st_scan st' = st_scan st \<and> st_vuln st' = st_vuln st"
  by (auto simp: project_device_def Let_def split: if_splits)

lemma process_frame [frame]:
  "project_process boot e st = Some st' \<Longrightarrow> st_service st' = st_service st \<and> st_device st' = st_device st \<and> st_connection st' = st_connection st \<and> st_listener st' = st_listener st \<and> st_file st' = st_file st \<and> st_persistence st' = st_persistence st \<and> st_scan st' = st_scan st \<and> st_vuln st' = st_vuln st"
  by (auto simp: project_process_def Let_def split: if_splits option.splits pyval.splits)

lemma connection_frame [frame]:
  "project_connection ostr e st = Some st' \<Longrightarrow> st_service st' = st_service st \<and> st_device st' = st_device st \<and> st_process st' = st_process st \<and> st_listener st' = st_listener st \<and> st_file st' = st_file st \<and> st_persistence st' = st_persistence st \<and> st_scan st' = st_scan st \<and> st_vuln st' = st_vuln st"
  by (auto simp: project_connection_def Let_def split: if_splits)

lemma listener_frame [frame]:
  "project_listener e st = Some st' \<Longrightarrow> st_service st' = st_service st \<and> st_device st' = st_device st \<and> st_process st' = st_process st \<and> st_connection st' = st_connection st \<and> st_file st' = st_file st \<and> st_persistence st' = st_persistence st \<and> st_scan st' = st_scan st \<and> st_vuln st' = st_vuln st"
  by (auto simp: project_listener_def Let_def split: if_splits)

lemma file_frame [frame]:
  "project_file e st = Some st' \<Longrightarrow> st_service st' = st_service st \<and> st_device st' = st_device st \<and> st_process st' = st_process st \<and> st_connection st' = st_connection st \<and> st_listener st' = st_listener st \<and> st_persistence st' = st_persistence st \<and> st_scan st' = st_scan st \<and> st_vuln st' = st_vuln st"
  by (auto simp: project_file_def Let_def split: if_splits)

lemma persistence_frame [frame]:
  "project_persistence e st = Some st' \<Longrightarrow> st_service st' = st_service st \<and> st_device st' = st_device st \<and> st_process st' = st_process st \<and> st_connection st' = st_connection st \<and> st_listener st' = st_listener st \<and> st_file st' = st_file st \<and> st_scan st' = st_scan st \<and> st_vuln st' = st_vuln st"
  by (auto simp: project_persistence_def Let_def split: if_splits)

lemma scan_frame [frame]:
  "project_scan_run ostr e st = st' \<Longrightarrow> st_service st' = st_service st \<and> st_device st' = st_device st \<and> st_process st' = st_process st \<and> st_connection st' = st_connection st \<and> st_listener st' = st_listener st \<and> st_file st' = st_file st \<and> st_persistence st' = st_persistence st \<and> st_vuln st' = st_vuln st"
  by (auto simp: project_scan_run_def project_scan_started_def project_scan_completed_def project_scan_skipped_def Let_def split: if_splits)

lemma vuln_frame [frame]:
  "project_vulnerability fromiso e st = Some st' \<Longrightarrow> st_service st' = st_service st \<and> st_device st' = st_device st \<and> st_process st' = st_process st \<and> st_connection st' = st_connection st \<and> st_listener st' = st_listener st \<and> st_file st' = st_file st \<and> st_persistence st' = st_persistence st \<and> st_scan st' = st_scan st"
  by (auto simp: project_vulnerability_def project_vulnerability_found_def project_vulnerability_sweep_def Let_def split: if_splits option.splits pyval.splits)

section \<open>Tables that track sightings\<close>

text \<open>The sightings of one entity since it was last removed. \<open>subject\<close> says which entity an event is about and
  whether it removes it.\<close>

definition live_events :: "(event \<Rightarrow> ('k \<times> bool) option) \<Rightarrow> 'k \<Rightarrow> event list \<Rightarrow> event list" where
  "live_events subject k es =
     foldl (\<lambda>acc e. case subject e of
                      None \<Rightarrow> acc
                    | Some (k', gone) \<Rightarrow> if k' \<noteq> k then acc else if gone then [] else acc @ [e]) [] es"

lemma live_events_snoc:
  "live_events subject k (es @ [e]) =
     (case subject e of
        None \<Rightarrow> live_events subject k es
      | Some (k', gone) \<Rightarrow>
          if k' \<noteq> k then live_events subject k es else if gone then [] else live_events subject k es @ [e])"
  by (auto simp: live_events_def split: option.split)

locale tracked_table =
  fixes ins :: "event \<Rightarrow> 'r"
    and upd :: "event \<Rightarrow> 'r \<Rightarrow> 'r"
    and first_at :: "'r \<Rightarrow> datetime"
    and last_at :: "'r \<Rightarrow> datetime"
    and subject :: "event \<Rightarrow> ('k \<times> bool) option"
  assumes first_ins: "first_at (ins e) = ev_ts e"
    and last_ins: "last_at (ins e) = ev_ts e"
    and first_upd: "first_at (upd e r) = first_at r"
    and last_upd: "last_at (upd e r) = ev_ts e"
begin

definition observe :: "('k, 'r) table \<Rightarrow> event \<Rightarrow> ('k, 'r) table" where
  "observe t e =
     (case subject e of
        None \<Rightarrow> t
      | Some (k, gone) \<Rightarrow> if gone then AList.delete k t else upsert k (ins e) (upd e) t)"

definition row_of :: "event list \<Rightarrow> 'r option" where
  "row_of es = (case es of [] \<Rightarrow> None | e # es' \<Rightarrow> Some (foldl (\<lambda>r e. upd e r) (ins e) es'))"

lemma row_of_snoc: "row_of (es @ [e]) = Some (case row_of es of None \<Rightarrow> ins e | Some r \<Rightarrow> upd e r)"
  by (cases es) (simp_all add: row_of_def)

text \<open>The row of an entity is built from its live sightings, in order.\<close>

lemma observe_all: "map_of (foldl observe [] es) k = row_of (live_events subject k es)"
proof (induction es rule: rev_induct)
  case Nil
  then show ?case by (simp add: row_of_def live_events_def)
next
  case (snoc e es)
  then show ?case
    by (auto simp: observe_def live_events_snoc map_of_alist_delete map_of_upsert row_of_snoc row_of_def [of "[]"]
        split: option.splits)
qed

lemma row_of_times: "row_of es = Some r \<Longrightarrow> es \<noteq> [] \<and> first_at r = ev_ts (hd es) \<and> last_at r = ev_ts (last es)"
proof (induction es arbitrary: r rule: rev_induct)
  case (snoc e es)
  show ?case
  proof (cases "row_of es")
    case None
    then have "es = []" by (cases es) (simp_all add: row_of_def)
    with snoc.prems show ?thesis by (auto simp: row_of_def first_ins last_ins)
  next
    case (Some q)
    then have "es \<noteq> []" by (auto simp: row_of_def)
    with snoc Some show ?thesis by (auto simp: row_of_snoc first_upd last_upd)
  qed
qed (simp add: row_of_def)

lemma tracks:
  "case map_of (foldl observe [] es) k of
     None \<Rightarrow> live_events subject k es = []
   | Some r \<Rightarrow> live_events subject k es \<noteq> [] \<and> first_at r = ev_ts (hd (live_events subject k es))
               \<and> last_at r = ev_ts (last (live_events subject k es))"
  using row_of_times [of "live_events subject k es"]
  by (cases "live_events subject k es") (auto simp: observe_all row_of_def split: option.split)

end

section \<open>Which entity an event is about\<close>

definition service_subject :: "event \<Rightarrow> (pyval \<times> bool) option" where
  "service_subject e =
     (let u = bget (ev_service e) ''name''
      in if ev_module e = ''services_monitor'' \<and> truthy u then Some (u, ev_action e = ''service_removed'') else None)"

definition listener_subject :: "event \<Rightarrow> ((pyval \<times> pyval \<times> pyval) \<times> bool) option" where
  "listener_subject e =
     (let addr = bget (ev_source e) ''ip''; port = bget (ev_source e) ''port''; proto = bget (ev_network e) ''transport''
      in if ev_module e = ''listening_socket_snapshotter'' \<and> addr \<noteq> PNone \<and> port \<noteq> PNone \<and> proto \<noteq> PNone
            \<and> (ev_action e = ''listener_removed'' \<or> family addr \<noteq> None)
         then Some ((addr, port, proto), ev_action e = ''listener_removed'') else None)"

definition persistence_subject :: "event \<Rightarrow> (pyval \<times> bool) option" where
  "persistence_subject e =
     (let key = bget (ev_persistence e) ''key''
      in if ev_module e = ''persistence_snapshotter'' \<and> truthy key
            \<and> (ev_action e = ''persistence_removed'' \<or> bget (ev_persistence e) ''kind'' \<noteq> PNone)
         then Some (key, ev_action e = ''persistence_removed'') else None)"

definition file_subject :: "event \<Rightarrow> (pyval \<times> bool) option" where
  "file_subject e =
     (let path = bget (ev_file e) ''path''
      in if ev_module e = ''fim_watcher'' \<and> path \<noteq> PNone then Some (path, False) else None)"

definition connection_subject :: "(pyval \<Rightarrow> string) \<Rightarrow> event \<Rightarrow> (string \<times> bool) option" where
  "connection_subject ostr e =
     (let pid = bget (ev_process e) ''pid''; daddr = bget (ev_destination e) ''ip''
      in if (ev_module e = ''outbound_connection_tracker'' \<or> ev_module e = ''outbound_connection_tracker6'')
            \<and> pid \<noteq> PNone \<and> daddr \<noteq> PNone \<and> family daddr \<noteq> None
         then Some (conn_key ostr e, False) else None)"

interpretation services: tracked_table service_ins service_upd sv_first_seen sv_last_seen service_subject
  by unfold_locales (simp_all add: service_ins_def service_upd_def)

interpretation listeners: tracked_table listener_ins listener_upd ln_first_seen ln_last_seen listener_subject
  by unfold_locales (simp_all add: listener_ins_def listener_upd_def)

interpretation persistence: tracked_table persistence_ins persistence_upd ps_first_seen ps_last_seen persistence_subject
  by unfold_locales (simp_all add: persistence_ins_def persistence_upd_def Let_def)

interpretation files: tracked_table file_ins file_upd fl_first_seen fl_last_seen file_subject
  by unfold_locales (simp_all add: file_ins_def file_upd_def)

interpretation connections: tracked_table connection_ins connection_upd cn_first_seen cn_last_seen "connection_subject ostr" for ostr
  by unfold_locales (simp_all add: connection_ins_def connection_upd_def)

section \<open>The stream and the tables\<close>

definition project_step ::
  "(pyval \<Rightarrow> string) \<Rightarrow> (string \<Rightarrow> datetime option) \<Rightarrow> string option \<Rightarrow> entity_state \<Rightarrow> event \<Rightarrow> entity_state" where
  "project_step ostr fromiso boot st e = (case project ostr fromiso boot e st of None \<Rightarrow> st | Some st' \<Rightarrow> st')"

lemma project_all_foldl: "project_all ostr fromiso boot es st = foldl (project_step ostr fromiso boot) st es"
  by (induction es arbitrary: st) (simp_all add: project_step_def)

text \<open>Which operation handled an event.\<close>

lemma project_cases:
  assumes "project ostr fromiso boot e st = Some st'"
  obtains "ev_module e = ''services_monitor''" "project_service e st = Some st'"
  | "ev_module e = ''udev_monitor''" "project_device ostr e st = Some st'"
  | "ev_module e = ''process_collector'' \<or> ev_module e = ''process_collector_exit''" "project_process (the boot) e st = Some st'"
  | "ev_module e = ''outbound_connection_tracker'' \<or> ev_module e = ''outbound_connection_tracker6''"
      "project_connection ostr e st = Some st'"
  | "ev_module e = ''listening_socket_snapshotter''" "project_listener e st = Some st'"
  | "ev_module e = ''fim_watcher''" "project_file e st = Some st'"
  | "ev_module e = ''persistence_snapshotter''" "project_persistence e st = Some st'"
  | "ev_module e = ''scanner_runner''" "project_scan_run ostr e st = st'"
  | "ev_module e = ''vuln_scanner''" "project_vulnerability fromiso e st = Some st'"
  | "st' = st"
  using assms unfolding project_def by (simp split: if_split_asm)

text \<open>A table is untouched by the events of the other modules.\<close>

lemma project_frame_service:
  "project ostr fromiso boot e st = Some st' \<Longrightarrow> ev_module e \<noteq> ''services_monitor'' \<Longrightarrow> st_service st' = st_service st"
  by (elim project_cases; (drule frame)?; simp)

lemma project_frame_listener:
  "project ostr fromiso boot e st = Some st' \<Longrightarrow> ev_module e \<noteq> ''listening_socket_snapshotter'' \<Longrightarrow> st_listener st' = st_listener st"
  by (elim project_cases; (drule frame)?; simp)

lemma project_frame_persistence:
  "project ostr fromiso boot e st = Some st' \<Longrightarrow> ev_module e \<noteq> ''persistence_snapshotter'' \<Longrightarrow> st_persistence st' = st_persistence st"
  by (elim project_cases; (drule frame)?; simp)

lemma project_frame_file:
  "project ostr fromiso boot e st = Some st' \<Longrightarrow> ev_module e \<noteq> ''fim_watcher'' \<Longrightarrow> st_file st' = st_file st"
  by (elim project_cases; (drule frame)?; simp)

lemma project_frame_scan:
  "project ostr fromiso boot e st = Some st' \<Longrightarrow> ev_module e \<noteq> ''scanner_runner'' \<Longrightarrow> st_scan st' = st_scan st"
  by (elim project_cases; (drule frame)?; simp)

lemma project_frame_vuln:
  "project ostr fromiso boot e st = Some st' \<Longrightarrow> ev_module e \<noteq> ''vuln_scanner'' \<Longrightarrow> st_vuln st' = st_vuln st"
  by (elim project_cases; (drule frame)?; simp)

lemma project_frame_connection:
  "project ostr fromiso boot e st = Some st' \<Longrightarrow> \<not> (ev_module e = ''outbound_connection_tracker'' \<or> ev_module e = ''outbound_connection_tracker6'') \<Longrightarrow> st_connection st' = st_connection st"
  by (elim project_cases; (drule frame)?; simp)

lemmas project_frame = project_frame_service project_frame_listener project_frame_persistence project_frame_file project_frame_scan project_frame_vuln project_frame_connection

lemma step_frame:
  "ev_module e \<noteq> ''services_monitor'' \<Longrightarrow> st_service (project_step ostr fromiso boot st e) = st_service st"
  "ev_module e \<noteq> ''listening_socket_snapshotter'' \<Longrightarrow> st_listener (project_step ostr fromiso boot st e) = st_listener st"
  "ev_module e \<noteq> ''persistence_snapshotter'' \<Longrightarrow> st_persistence (project_step ostr fromiso boot st e) = st_persistence st"
  "ev_module e \<noteq> ''fim_watcher'' \<Longrightarrow> st_file (project_step ostr fromiso boot st e) = st_file st"
  "ev_module e \<noteq> ''scanner_runner'' \<Longrightarrow> st_scan (project_step ostr fromiso boot st e) = st_scan st"
  "ev_module e \<noteq> ''vuln_scanner'' \<Longrightarrow> st_vuln (project_step ostr fromiso boot st e) = st_vuln st"
  "\<not> (ev_module e = ''outbound_connection_tracker'' \<or> ev_module e = ''outbound_connection_tracker6'') \<Longrightarrow> st_connection (project_step ostr fromiso boot st e) = st_connection st"
  by (simp_all add: project_step_def project_frame split: option.split)

text \<open>On its own module's events a table makes exactly the step of its contract.\<close>

lemma observe_step:
  "st_service (project_step ostr fromiso boot st e) = services.observe (st_service st) e"
  "st_listener (project_step ostr fromiso boot st e) = listeners.observe (st_listener st) e"
  "st_persistence (project_step ostr fromiso boot st e) = persistence.observe (st_persistence st) e"
  "st_file (project_step ostr fromiso boot st e) = files.observe (st_file st) e"
  "st_connection (project_step ostr fromiso boot st e) = connections.observe ostr (st_connection st) e"
  subgoal
    by (cases "ev_module e = ''services_monitor''")
      (simp add: services.observe_def service_subject_def project_step_def project_def project_service_def Let_def,
        simp add: step_frame services.observe_def service_subject_def Let_def)
  subgoal
    by (cases "ev_module e = ''listening_socket_snapshotter''")
      (simp add: listeners.observe_def listener_subject_def project_step_def project_def project_listener_def Let_def,
        simp add: step_frame listeners.observe_def listener_subject_def Let_def)
  subgoal
    by (cases "ev_module e = ''persistence_snapshotter''")
      (simp add: persistence.observe_def persistence_subject_def project_step_def project_def project_persistence_def Let_def,
        simp add: step_frame persistence.observe_def persistence_subject_def Let_def)
  subgoal
    by (cases "ev_module e = ''fim_watcher''")
      (simp add: files.observe_def file_subject_def project_step_def project_def project_file_def Let_def,
        simp add: step_frame files.observe_def file_subject_def Let_def)
  subgoal
  proof -
    consider "ev_module e = ''outbound_connection_tracker''" | "ev_module e = ''outbound_connection_tracker6''"
      | (other) "\<not> (ev_module e = ''outbound_connection_tracker'' \<or> ev_module e = ''outbound_connection_tracker6'')"
      by blast
    then show ?thesis
    proof cases
      case other
      then show ?thesis by (simp add: step_frame(7) connections.observe_def connection_subject_def)
    qed (simp_all add: connections.observe_def connection_subject_def project_step_def project_def
          project_connection_def Let_def)
  qed
  done

definition empty_state :: entity_state where
  "empty_state = \<lparr>st_service = [], st_device = [], st_process = [], st_connection = [], st_listener = [], st_file = [],
                  st_persistence = [], st_scan = [], st_vuln = []\<rparr>"

lemma foldl_commute: "(\<And>s x. g (f s x) = h (g s) x) \<Longrightarrow> g (foldl f s xs) = foldl h (g s) xs"
  by (induction xs arbitrary: s) simp_all

lemma tables_after:
  "st_service (project_all ostr fromiso boot es empty_state) = foldl services.observe [] es"
  "st_listener (project_all ostr fromiso boot es empty_state) = foldl listeners.observe [] es"
  "st_persistence (project_all ostr fromiso boot es empty_state) = foldl persistence.observe [] es"
  "st_file (project_all ostr fromiso boot es empty_state) = foldl files.observe [] es"
  "st_connection (project_all ostr fromiso boot es empty_state) = foldl (connections.observe ostr) [] es"
  unfolding project_all_foldl
  subgoal by (subst foldl_commute [where g = st_service and h = "services.observe"]) (simp_all add: observe_step empty_state_def)
  subgoal by (subst foldl_commute [where g = st_listener and h = "listeners.observe"]) (simp_all add: observe_step empty_state_def)
  subgoal by (subst foldl_commute [where g = st_persistence and h = "persistence.observe"]) (simp_all add: observe_step empty_state_def)
  subgoal by (subst foldl_commute [where g = st_file and h = "files.observe"]) (simp_all add: observe_step empty_state_def)
  subgoal by (subst foldl_commute [where g = st_connection and h = "connections.observe ostr"]) (simp_all add: observe_step empty_state_def)
  done

text \<open>C17: The projected tables mirror the event stream. For every stream and every service, listener,
  persistence mechanism, changed file and connection: it has a row exactly when it has been sighted since its
  last removal, the row's first-seen time is that of the first such sighting and its last-seen time that of
  the latest.\<close>

theorem projected_tables_mirror_stream:
  "let st = project_all ostr fromiso boot es empty_state
   in (case map_of (st_service st) u of
            None \<Rightarrow> live_events service_subject u es = []
          | Some r \<Rightarrow> live_events service_subject u es \<noteq> []
              \<and> sv_first_seen r = ev_ts (hd (live_events service_subject u es))
              \<and> sv_last_seen r = ev_ts (last (live_events service_subject u es)))
       \<and> (case map_of (st_listener st) l of
            None \<Rightarrow> live_events listener_subject l es = []
          | Some r \<Rightarrow> live_events listener_subject l es \<noteq> []
              \<and> ln_first_seen r = ev_ts (hd (live_events listener_subject l es))
              \<and> ln_last_seen r = ev_ts (last (live_events listener_subject l es)))
       \<and> (case map_of (st_persistence st) p of
            None \<Rightarrow> live_events persistence_subject p es = []
          | Some r \<Rightarrow> live_events persistence_subject p es \<noteq> []
              \<and> ps_first_seen r = ev_ts (hd (live_events persistence_subject p es))
              \<and> ps_last_seen r = ev_ts (last (live_events persistence_subject p es)))
       \<and> (case map_of (st_file st) f of
            None \<Rightarrow> live_events file_subject f es = []
          | Some r \<Rightarrow> live_events file_subject f es \<noteq> []
              \<and> fl_first_seen r = ev_ts (hd (live_events file_subject f es))
              \<and> fl_last_seen r = ev_ts (last (live_events file_subject f es)))
       \<and> (case map_of (st_connection st) c of
            None \<Rightarrow> live_events (connection_subject ostr) c es = []
          | Some r \<Rightarrow> live_events (connection_subject ostr) c es \<noteq> []
              \<and> cn_first_seen r = ev_ts (hd (live_events (connection_subject ostr) c es))
              \<and> cn_last_seen r = ev_ts (last (live_events (connection_subject ostr) c es)))"
  unfolding Let_def tables_after
  by (intro conjI services.tracks listeners.tracks persistence.tracks files.tracks connections.tracks)

section \<open>Scanner runs\<close>

lemma scan_step:
  "ev_module e = ''scanner_runner'' \<Longrightarrow> project_step ostr fromiso boot st e = project_scan_run ostr e st"
  by (simp add: project_step_def project_def)

definition finished :: "scan_row \<Rightarrow> bool" where
  "finished r \<longleftrightarrow> sr_status r \<noteq> ''running'' \<and> sr_completed_at r \<noteq> None"

lemma scan_run_finished:
  assumes "map_of (st_scan st) k = Some r" "finished r"
  shows "\<exists>r'. map_of (st_scan (project_scan_run ostr e st)) k = Some r' \<and> finished r'"
  using assms
  by (auto simp: project_scan_run_def project_scan_started_def project_scan_completed_def project_scan_skipped_def
      map_of_upsert finished_def Let_def split: option.split)

lemma scan_step_finished:
  assumes "map_of (st_scan st) k = Some r" "finished r"
  shows "\<exists>r'. map_of (st_scan (project_step ostr fromiso boot st e)) k = Some r' \<and> finished r'"
proof (cases "ev_module e = ''scanner_runner''")
  case True
  then show ?thesis using scan_run_finished [OF assms] by (simp add: scan_step)
qed (use assms in \<open>simp add: step_frame\<close>)

text \<open>A finished scanner run stays finished. Whatever events follow, in whatever order they are replayed, the
  run keeps its row, is never shown as running again and keeps a completion time.\<close>

theorem finished_scan_never_reopens:
  assumes "map_of (st_scan st) k = Some r" and "finished r"
  shows "\<exists>r'. map_of (st_scan (project_all ostr fromiso boot es st)) k = Some r' \<and> finished r'"
  using assms unfolding project_all_foldl
proof (induction es arbitrary: st r)
  case (Cons e es)
  from scan_step_finished [OF Cons.prems] show ?case using Cons.IH by (metis foldl_Cons)
qed auto

definition scan_event :: "string \<Rightarrow> datetime \<Rightarrow> string \<Rightarrow> event" where
  "scan_event action ts i =
     (mk_event ts i ''scanner_runner'' action Info)\<lparr>ev_raw := Some [(''scanner'', PStr ''aide''), (''run_id'', PStr ''r1'')]\<rparr>"

lemma scan_event_simps [simp]:
  "ev_module (scan_event a t i) = ''scanner_runner''" "ev_action (scan_event a t i) = a" "ev_ts (scan_event a t i) = t"
  "ev_raw (scan_event a t i) = Some [(''scanner'', PStr ''aide''), (''run_id'', PStr ''r1'')]" "ev_id (scan_event a t i) = i"
  by (simp_all add: scan_event_def)

theorem finished_scan_never_reopens_witness:
  "\<exists>r'. map_of (st_scan (project_all (\<lambda>_. []) (\<lambda>_. None) None [scan_event ''scan_started'' 12 ''e3'']
           (project_scan_completed (\<lambda>_. []) ''aide'' (scan_event ''scan_completed'' 9 ''e2'') empty_state))) ''r1'' = Some r'
        \<and> finished r'"
  by (rule finished_scan_never_reopens [where r = "the (map_of (st_scan (project_scan_completed (\<lambda>_. []) ''aide''
          (scan_event ''scan_completed'' 9 ''e2'') empty_state)) ''r1'')"])
    (simp_all add: project_scan_completed_def Let_def map_of_upsert py_str_def empty_state_def finished_def)

text \<open>The start and the completion of a run may be replayed in either order: the resulting rows agree in every
  column but the id of the last event.\<close>

theorem scan_events_commute:
  assumes "ev_action s = ''scan_started''" and "ev_action c = ''scan_completed''"
    and "bget (ev_raw s) ''scanner'' = bget (ev_raw c) ''scanner''" and "bget (ev_raw s) ''run_id'' = bget (ev_raw c) ''run_id''"
  shows "map_option (\<lambda>r. r\<lparr>sr_event := ''''\<rparr>) (map_of (st_scan (project_scan_run ostr s (project_scan_run ostr c st))) k)
       = map_option (\<lambda>r. r\<lparr>sr_event := ''''\<rparr>) (map_of (st_scan (project_scan_run ostr c (project_scan_run ostr s st))) k)"
  using assms
  by (simp add: project_scan_run_def project_scan_started_def project_scan_completed_def Let_def map_of_upsert split: option.split)

theorem scan_events_commute_witness:
  "map_option (\<lambda>r. r\<lparr>sr_event := ''''\<rparr>) (map_of (st_scan (project_scan_run (\<lambda>_. []) (scan_event ''scan_started'' 3 ''e1'')
       (project_scan_run (\<lambda>_. []) (scan_event ''scan_completed'' 9 ''e2'') empty_state))) ''r1'')
   = map_option (\<lambda>r. r\<lparr>sr_event := ''''\<rparr>) (map_of (st_scan (project_scan_run (\<lambda>_. []) (scan_event ''scan_completed'' 9 ''e2'')
       (project_scan_run (\<lambda>_. []) (scan_event ''scan_started'' 3 ''e1'') empty_state))) ''r1'')"
  by (rule scan_events_commute) simp_all

section \<open>Processes and boots\<close>

definition stale_running :: "string \<Rightarrow> entity_state \<Rightarrow> bool" where
  "stale_running boot st = (\<exists>pid b r. map_of (st_process st) (pid, b) = Some r \<and> b \<noteq> boot \<and> pr_status r = ''running'')"

lemma process_step_boot:
  assumes "project ostr fromiso (Some boot) e st = Some st'" "b \<noteq> boot"
  shows "map_of (st_process st') (pid, b) = map_of (st_process st) (pid, b)"
  using assms(1)
proof (cases rule: project_cases)
  case 3
  then show ?thesis using assms(2)
    by (auto simp: project_process_def Let_def map_of_upsert split: if_splits option.splits)
qed ((drule frame)?, simp)+

text \<open>Boot reconciliation. After the reconciliation at startup, and for as long as events are projected under
  the same boot id, no process of another boot is shown as running.\<close>

theorem no_running_process_of_another_boot:
  "\<not> stale_running boot (project_all ostr fromiso (Some boot) es (reconcile_processes boot st))"
proof -
  have "\<not> stale_running boot (project_step ostr fromiso (Some boot) s e)" if "\<not> stale_running boot s" for s e
  proof (cases "project ostr fromiso (Some boot) e s")
    case (Some s')
    then have "map_of (st_process s') (pid, b) = map_of (st_process s) (pid, b)" if "b \<noteq> boot" for pid b
      using process_step_boot that by blast
    with that Some show ?thesis unfolding stale_running_def project_step_def by (metis option.simps(5))
  qed (use that in \<open>simp add: project_step_def\<close>)
  then have "\<not> stale_running boot s \<Longrightarrow> \<not> stale_running boot (foldl (project_step ostr fromiso (Some boot)) s es)" for s
    by (induction es arbitrary: s) simp_all
  moreover have "\<not> stale_running boot (reconcile_processes boot st)"
    by (auto simp: stale_running_def reconcile_processes_def map_of_update_where)
  ultimately show ?thesis by (simp add: project_all_foldl)
qed

text \<open>A reused pid. When a process starts under a pid that has exited in the same boot, the row is shown as running
  but keeps the exit code and the first-seen time of the process that had the pid before.\<close>

theorem pid_reuse_keeps_exit_code:
  assumes "map_of (st_process st) (pid, boot) = Some r" and "bget (ev_process e) ''pid'' = pid" and "pid \<noteq> PNone"
    and "ev_action e = ''process_start''" and "project_process boot e st = Some st'"
  shows "\<exists>r'. map_of (st_process st') (pid, boot) = Some r' \<and> pr_status r' = ''running''
           \<and> pr_exit_code r' = pr_exit_code r \<and> pr_first_seen r' = pr_first_seen r"
  using assms by (auto simp: project_process_def Let_def map_of_upsert split: option.splits)

definition process_event_sample :: "string \<Rightarrow> datetime \<Rightarrow> event" where
  "process_event_sample action ts =
     (mk_event ts ''e'' ''process_collector'' action Info)\<lparr>ev_process := Some [(''pid'', PInt 7), (''exit_code'', PInt 3)]\<rparr>"

theorem pid_reuse_keeps_exit_code_witness:
  "\<exists>st1 st2 r'. project_process ''b'' (process_event_sample ''process_exit'' 1) empty_state = Some st1
     \<and> project_process ''b'' (process_event_sample ''process_start'' 2) st1 = Some st2
     \<and> map_of (st_process st2) (PInt 7, ''b'') = Some r' \<and> pr_status r' = ''running'' \<and> pr_exit_code r' = PInt 3"
proof -
  obtain st1 r where st1: "project_process ''b'' (process_event_sample ''process_exit'' 1) empty_state = Some st1"
      "map_of (st_process st1) (PInt 7, ''b'') = Some r" "pr_exit_code r = PInt 3"
    by (simp add: project_process_def process_event_sample_def empty_state_def map_of_upsert)
  moreover obtain st2 where st2: "project_process ''b'' (process_event_sample ''process_start'' 2) st1 = Some st2"
    by (simp add: project_process_def process_event_sample_def value_get_def parse_uid_def)
  ultimately show ?thesis
    using pid_reuse_keeps_exit_code [OF st1(2) _ _ _ st2] by (auto simp: process_event_sample_def)
qed

end
