(* ===== verification/Vuln_Scan.thy ===== *)
theory Vuln_Scan
  imports Entity_State Audit_Log
begin

text \<open>
  The vulnerability scanner: parsing of the advisory dump (\<^verbatim>\<open>inspectord/vuln/advisories.py\<close>), matching against
  the installed packages (\<^verbatim>\<open>vuln/matching.py\<close>), the worker's schedule and scan
  (\<^verbatim>\<open>workers/vuln_scanner/worker.py\<close>) and the panel's handlers (\<^verbatim>\<open>vuln/ipc_handlers.py\<close>). Clocks, file
  status, the output of \<^verbatim>\<open>pacman -Q\<close> and the \<^verbatim>\<open>vercmp\<close> binary are arguments.
\<close>

section \<open>Advisories\<close>

definition MAX_FILE_BYTES :: nat where "MAX_FILE_BYTES = 64 * 1024 * 1024"
definition MAX_ADVISORIES :: nat where "MAX_ADVISORIES = 50000"
definition MAX_ITEMS_PER_AVG :: nat where "MAX_ITEMS_PER_AVG = 64"
definition MAX_STRING_LEN :: nat where "MAX_STRING_LEN = 256"

record advisory =
  adv_id :: string
  adv_packages :: "string list"
  adv_status :: string
  adv_severity :: string
  adv_fixed :: "string option"
  adv_affected :: "string option"
  adv_issues :: "string list"

record parsed_advisories =
  pa_advisories :: "advisory list"
  pa_skipped :: "string list"
  pa_warnings :: nat

definition clean :: "string \<Rightarrow> string" where
  "clean s =
     take MAX_STRING_LEN (filter (\<lambda>c. 32 \<le> char_code c \<and> char_code c \<noteq> 127) (take (4 * MAX_STRING_LEN) s))"

text \<open>\<open>None\<close> is the sentinel for a field of the wrong shape.\<close>

definition clean_optional :: "pyval \<Rightarrow> string option option" where
  "clean_optional v = (case v of PNone \<Rightarrow> Some None | PStr s \<Rightarrow> Some (Some (clean s)) | _ \<Rightarrow> None)"

definition clean_item :: "pyval \<Rightarrow> string option" where
  "clean_item v = (case v of PStr s \<Rightarrow> if clean s = [] then None else Some (clean s) | _ \<Rightarrow> None)"

definition clean_str_list :: "pyval \<Rightarrow> string list option" where
  "clean_str_list v =
     (case v of
        PList xs \<Rightarrow> if xs = [] \<or> length xs > MAX_ITEMS_PER_AVG then None else all_some (map clean_item xs)
      | _ \<Rightarrow> None)"

text \<open>\<^verbatim>\<open>^AVG-[0-9]+$\<close>; a cleaned string has no line feed.\<close>

definition avg_id_ok :: "string \<Rightarrow> bool" where
  "avg_id_ok s = (startswith s ''AVG-'' \<and> drop 4 s \<noteq> [] \<and> list_all ascii_digit (drop 4 s))"

datatype parse_outcome = Parsed advisory | Skip_avg string | No_id

definition parse_one :: "pyval \<Rightarrow> parse_outcome" where
  "parse_one entry =
     (case entry of
        PDict d \<Rightarrow>
          (case dget d ''name'' of
             PStr raw_id \<Rightarrow>
               (let avg_id = clean raw_id
                in if \<not> avg_id_ok avg_id then No_id
                   else (case (clean_str_list (dget d ''packages''), clean_str_list (dget d ''issues''), dget d ''status'',
                               dget d ''severity'', clean_optional (dget d ''fixed''), clean_optional (dget d ''affected'')) of
                           (Some packages, Some issues, PStr status, PStr severity, Some fixed, Some affected) \<Rightarrow>
                             Parsed \<lparr>adv_id = avg_id, adv_packages = packages, adv_status = clean status,
                                     adv_severity = clean severity, adv_fixed = fixed, adv_affected = affected,
                                     adv_issues = issues\<rparr>
                         | _ \<Rightarrow> Skip_avg avg_id))
           | _ \<Rightarrow> No_id)
      | _ \<Rightarrow> No_id)"

fun collect_advisories :: "parse_outcome list \<Rightarrow> parsed_advisories" where
  "collect_advisories [] = \<lparr>pa_advisories = [], pa_skipped = [], pa_warnings = 0\<rparr>"
| "collect_advisories (o1 # os) =
     (let r = collect_advisories os
      in case o1 of
           Parsed a \<Rightarrow> r\<lparr>pa_advisories := a # pa_advisories r\<rparr>
         | Skip_avg i \<Rightarrow> r\<lparr>pa_skipped := i # pa_skipped r, pa_warnings := Suc (pa_warnings r)\<rparr>
         | No_id \<Rightarrow> r\<lparr>pa_warnings := Suc (pa_warnings r)\<rparr>)"

definition parse_advisories :: "string \<Rightarrow> string + parsed_advisories" where
  "parse_advisories data =
     (case json_loads data of
        Some (PList doc) \<Rightarrow>
          if doc = [] then Inl ''advisories_empty''
          else if length doc > MAX_ADVISORIES then Inl ''parse_failed''
          else Inr (collect_advisories (map parse_one doc))
      | _ \<Rightarrow> Inl ''parse_failed'')"

text \<open>The file: its size at the stat and its bytes at the read, \<open>None\<close> when the call raises.\<close>

definition load_advisories :: "nat \<Rightarrow> nat option \<Rightarrow> string option \<Rightarrow> string + parsed_advisories" where
  "load_advisories max_bytes stat_size contents =
     (case stat_size of
        None \<Rightarrow> Inl ''advisories_missing''
      | Some sz \<Rightarrow>
          if sz > max_bytes then Inl ''file_too_large''
          else (case contents of
                  None \<Rightarrow> Inl ''advisories_missing''
                | Some bytes \<Rightarrow>
                    if length (take (max_bytes + 1) bytes) > max_bytes then Inl ''file_too_large''
                    else parse_advisories (take (max_bytes + 1) bytes)))"

section \<open>Installed packages and version comparison\<close>

text \<open>\<^verbatim>\<open>str.split()\<close>.\<close>

function py_split :: "string \<Rightarrow> string list" where
  "py_split s =
     (let t = lstrip s
      in if t = [] then [] else takeWhile (\<lambda>c. \<not> py_space c) t # py_split (dropWhile (\<lambda>c. \<not> py_space c) t))"
  by pat_completeness auto
termination
proof (relation "measure length", goal_cases)
  case (2 s t)
  then have ts: "t = dropWhile py_space s" and "t \<noteq> []" by (simp_all add: lstrip_def)
  then obtain c u where t: "t = c # u" "t = dropWhile py_space s" using ts by (cases t) blast+
  then have "\<not> py_space c" by (metis dropWhile_eq_Cons_conv)
  moreover have "length t \<le> length s" using length_dropWhile_le [of py_space s] t(2) by simp
  ultimately have "t = c # u" "\<not> py_space c" "length t \<le> length s" using t(1) by simp_all
  then show ?case using length_dropWhile_le [of "\<lambda>c. \<not> py_space c" u] by simp
qed simp

declare py_split.simps [simp del]

fun parse_lines :: "string list \<Rightarrow> (string, string) table \<Rightarrow> nat \<Rightarrow> (string, string) table \<times> nat" where
  "parse_lines [] installed bad = (installed, bad)"
| "parse_lines (l # ls) installed bad =
     (if strip l = [] then parse_lines ls installed bad
      else (case py_split l of
              [name, version] \<Rightarrow> parse_lines ls (AList.update name version installed) bad
            | _ \<Rightarrow> parse_lines ls installed (Suc bad)))"

definition parse_installed :: "string \<Rightarrow> (string, string) table \<times> nat" where
  "parse_installed output = parse_lines (splitlines output) [] 0"

text \<open>What running the \<^verbatim>\<open>vercmp\<close> binary can give.\<close>

datatype vercmp_run = Ran string | Not_runnable

type_synonym vercmp_cache = "(string \<times> string, int) table"

definition vercmp ::
  "(string \<Rightarrow> string \<Rightarrow> vercmp_run) \<Rightarrow> string \<Rightarrow> string \<Rightarrow> vercmp_cache \<Rightarrow> (int \<times> vercmp_cache) option" where
  "vercmp run a b cache =
     (case map_of cache (a, b) of
        Some r \<Rightarrow> Some (r, cache)
      | None \<Rightarrow>
          (case run a b of
             Not_runnable \<Rightarrow> None
           | Ran out \<Rightarrow>
               (case py_int (strip out) of
                  None \<Rightarrow> None
                | Some r \<Rightarrow> Some (r, AList.update (a, b) r cache))))"

section \<open>Matching\<close>

definition KNOWN_STATUSES :: "string list" where
  "KNOWN_STATUSES = [''Not affected'', ''Vulnerable'', ''Fixed'', ''Testing'', ''Unknown'']"

record vuln_match =
  vm_avg_id :: string
  vm_cve_id :: string
  vm_package :: string
  vm_installed :: string
  vm_fixed :: "string option"
  vm_severity :: string
  vm_status :: string
  vm_fix_in_testing :: bool
  vm_url :: string

record match_result =
  mr_matches :: "vuln_match list"
  mr_skipped :: "string list"
  mr_warnings :: nat

text \<open>The comparison raises (\<open>None\<close>) when \<^verbatim>\<open>vercmp\<close> does.\<close>

definition is_vulnerable :: "(string \<Rightarrow> string \<Rightarrow> int option) \<Rightarrow> advisory \<Rightarrow> string \<Rightarrow> bool option" where
  "is_vulnerable vc a installed_version =
     (case adv_fixed a of
        Some fixed \<Rightarrow> map_option (\<lambda>r. r < 0) (vc installed_version fixed)
      | None \<Rightarrow> Some (adv_status a = ''Vulnerable'' \<or> adv_status a = ''Unknown''))"

definition vuln_match_of :: "advisory \<Rightarrow> string \<Rightarrow> string \<Rightarrow> string \<Rightarrow> vuln_match" where
  "vuln_match_of a package installed_version cve =
     \<lparr>vm_avg_id = adv_id a, vm_cve_id = cve, vm_package = package, vm_installed = installed_version,
      vm_fixed = adv_fixed a, vm_severity = adv_severity a, vm_status = adv_status a,
      vm_fix_in_testing = (adv_status a = ''Testing''), vm_url = ''https://security.archlinux.org/'' @ adv_id a\<rparr>"

fun match_packages ::
  "(string \<Rightarrow> string \<Rightarrow> int option) \<Rightarrow> (string, string) table \<Rightarrow> advisory \<Rightarrow> string list \<Rightarrow> vuln_match list option" where
  "match_packages vc installed a [] = Some []"
| "match_packages vc installed a (p # ps) =
     (case map_of installed p of
        None \<Rightarrow> match_packages vc installed a ps
      | Some v \<Rightarrow>
          (case is_vulnerable vc a v of
             None \<Rightarrow> None
           | Some False \<Rightarrow> match_packages vc installed a ps
           | Some True \<Rightarrow> map_option ((@) (map (vuln_match_of a p v) (adv_issues a))) (match_packages vc installed a ps)))"

fun match_advisories ::
  "(string \<Rightarrow> string \<Rightarrow> int option) \<Rightarrow> (string, string) table \<Rightarrow> advisory list \<Rightarrow> match_result option" where
  "match_advisories vc installed [] = Some \<lparr>mr_matches = [], mr_skipped = [], mr_warnings = 0\<rparr>"
| "match_advisories vc installed (a # as) =
     (if adv_status a = ''Not affected'' then match_advisories vc installed as
      else if adv_status a \<notin> set KNOWN_STATUSES then
        map_option (\<lambda>r. r\<lparr>mr_skipped := adv_id a # mr_skipped r, mr_warnings := Suc (mr_warnings r)\<rparr>)
          (match_advisories vc installed as)
      else (case match_packages vc installed a (adv_packages a) of
              None \<Rightarrow> None
            | Some ms \<Rightarrow> map_option (\<lambda>r. r\<lparr>mr_matches := ms @ mr_matches r\<rparr>) (match_advisories vc installed as)))"

section \<open>The worker\<close>

definition FILE_TRIGGER_MIN_INTERVAL_S :: real where "FILE_TRIGGER_MIN_INTERVAL_S = 300"
definition MAX_SKIPPED_AVG_IDS :: nat where "MAX_SKIPPED_AVG_IDS = 500"

type_synonym vuln_key = "string \<times> string \<times> string"

record vuln_worker =
  vw_prev_keys :: "vuln_key set option"
  vw_next_due :: "real option"
  vw_pending_file :: bool
  vw_last_file_scan :: "real option"
  vw_advisory_stat :: "(real \<times> int) option"
  vw_pacman_mtime :: "real option"
  vw_stats_observed :: bool
  vw_lock_reported :: bool
  vw_rescan :: bool

definition vuln_worker_init :: vuln_worker where
  "vuln_worker_init =
     \<lparr>vw_prev_keys = None, vw_next_due = None, vw_pending_file = False, vw_last_file_scan = None,
      vw_advisory_stat = None, vw_pacman_mtime = None, vw_stats_observed = False, vw_lock_reported = False,
      vw_rescan = False\<rparr>"

text \<open>What one poll finds outside the worker. \<open>se_stamp n\<close> is the time and id of the n-th event it builds.\<close>

record scan_env =
  se_now :: real
  se_advisory_stat :: "(real \<times> int) option"
  se_pacman_mtime :: "real option"
  se_locked :: bool
  se_interval_s :: real
  se_advisories :: "string + parsed_advisories"
  se_pacman_q :: "int \<times> string"
  se_vercmp :: "string \<Rightarrow> string \<Rightarrow> int option"
  se_started_iso :: string
  se_mtime_iso :: pyval
  se_duration_ms :: int
  se_stamp :: "nat \<Rightarrow> datetime \<times> string"
  se_host :: string

text \<open>\<^verbatim>\<open>handle_command\<close> of the worker.\<close>

definition vuln_handle_command :: "string \<Rightarrow> vuln_worker \<Rightarrow> vuln_worker \<times> bool" where
  "vuln_handle_command command w = (if command \<noteq> ''rescan'' then (w, False) else (w\<lparr>vw_rescan := True\<rparr>, True))"

definition scan_due :: "real \<Rightarrow> vuln_worker \<Rightarrow> bool" where
  "scan_due now w =
     (if vw_rescan w then True
      else if (case vw_next_due w of None \<Rightarrow> True | Some t \<Rightarrow> now \<ge> t) then True
      else if vw_pending_file w
        then (case vw_last_file_scan w of None \<Rightarrow> True | Some t \<Rightarrow> now - t \<ge> FILE_TRIGGER_MIN_INTERVAL_S)
      else False)"

definition observe_files :: "scan_env \<Rightarrow> vuln_worker \<Rightarrow> vuln_worker" where
  "observe_files env w =
     w\<lparr>vw_pending_file := vw_pending_file w \<or>
         (vw_stats_observed w \<and> (se_advisory_stat env \<noteq> vw_advisory_stat w \<or> se_pacman_mtime env \<noteq> vw_pacman_mtime w)),
       vw_advisory_stat := se_advisory_stat env, vw_pacman_mtime := se_pacman_mtime env, vw_stats_observed := True\<rparr>"

text \<open>The events a scan emits.\<close>

definition failed_event :: "string \<Rightarrow> datetime \<times> string \<Rightarrow> string \<Rightarrow> event" where
  "failed_event host stamp reason =
     (mk_event (fst stamp) (snd stamp) ''vuln_scanner'' ''vuln_scan_failed'' Info)
       \<lparr>ev_host := Some [(''name'', PStr host)], ev_category := [''package''], ev_type := [''end''], ev_outcome := Some Failure,
        ev_message := Some (''vulnerability scan failed: '' @ reason), ev_labels := [''vuln''],
        ev_raw := Some [(''reason'', PStr reason)]\<rparr>"

definition match_key :: "vuln_match \<Rightarrow> vuln_key" where
  "match_key m = (vm_avg_id m, vm_cve_id m, vm_package m)"

definition found_event :: "string \<Rightarrow> datetime \<times> string \<Rightarrow> bool \<Rightarrow> bool \<Rightarrow> vuln_match \<Rightarrow> event" where
  "found_event host stamp first_scan new m =
     (mk_event (fst stamp) (snd stamp) ''vuln_scanner'' ''vulnerability_found'' Low)
       \<lparr>ev_host := Some [(''name'', PStr host)], ev_kind := Kind_state, ev_category := [''package''], ev_type := [''info''], ev_labels := [''vuln''],
        ev_message := Some (vm_package m @ '' '' @ vm_installed m @ '' affected by '' @ vm_cve_id m @ '' ('' @
                            vm_avg_id m @ '', '' @ vm_severity m @ '')''),
        ev_vulnerability := Some
          [(''avg_id'', PStr (vm_avg_id m)), (''cve_id'', PStr (vm_cve_id m)), (''package'', PStr (vm_package m)),
           (''installed_version'', PStr (vm_installed m)), (''fixed_version'', opt_str (vm_fixed m)),
           (''severity'', PStr (vm_severity m)), (''status'', PStr (vm_status m)),
           (''fix_in_testing'', PBool (vm_fix_in_testing m)), (''new'', PBool new), (''advisory_url'', PStr (vm_url m))],
        ev_first_seen := first_scan\<rparr>"

definition completed_event ::
  "datetime \<times> string \<Rightarrow> scan_env \<Rightarrow> nat \<Rightarrow> nat \<Rightarrow> nat \<Rightarrow> nat \<Rightarrow> string list \<Rightarrow> event" where
  "completed_event stamp env advisories matched new warnings skipped =
     (mk_event (fst stamp) (snd stamp) ''vuln_scanner'' ''vuln_scan_completed'' Info)
       \<lparr>ev_host := Some [(''name'', PStr (se_host env))], ev_category := [''package''], ev_type := [''end''], ev_outcome := Some Success, ev_labels := [''vuln''],
        ev_message := Some (''vulnerability scan completed: '' @ nat_str matched @ '' matched''),
        ev_raw := Some
          [(''scan_started_at'', PStr (se_started_iso env)), (''advisories'', PInt (int advisories)),
           (''matched'', PInt (int matched)), (''new'', PInt (int new)), (''warnings'', PInt (int warnings)),
           (''skipped_avg_ids'', PList (map PStr skipped)), (''advisory_mtime'', se_mtime_iso env),
           (''duration_ms'', PInt (se_duration_ms env))]\<rparr>"

fun found_events :: "string \<Rightarrow> (nat \<Rightarrow> datetime \<times> string) \<Rightarrow> nat \<Rightarrow> bool \<Rightarrow> vuln_key set \<Rightarrow> vuln_match list \<Rightarrow> event list" where
  "found_events host stamp n first_scan new_keys [] = []"
| "found_events host stamp n first_scan new_keys (m # ms) =
     found_event host (stamp n) first_scan (match_key m \<in> new_keys) m # found_events host stamp (Suc n) first_scan new_keys ms"

text \<open>\<^verbatim>\<open>_scan\<close>: the failure reason, or the emitted events and the keys of this scan.\<close>

definition scan :: "scan_env \<Rightarrow> vuln_worker \<Rightarrow> string + event list \<times> vuln_key set" where
  "scan env w =
     (case se_advisories env of
        Inl reason \<Rightarrow> Inl reason
      | Inr parsed \<Rightarrow>
          if fst (se_pacman_q env) \<noteq> 0 then Inl ''pacman_failed''
          else (case parse_installed (snd (se_pacman_q env)) of
                  (installed, unparseable) \<Rightarrow>
                    (case match_advisories (se_vercmp env) installed (pa_advisories parsed) of
                       None \<Rightarrow> Inl ''vercmp_missing''
                     | Some result \<Rightarrow>
                         (let skipped = pa_skipped parsed @ mr_skipped result
                          in if length skipped > MAX_SKIPPED_AVG_IDS then Inl ''parse_failed''
                             else (let first_scan = (vw_prev_keys w = None);
                                       ks = set (map match_key (mr_matches result));
                                       new_keys = (case vw_prev_keys w of None \<Rightarrow> {} | Some prev \<Rightarrow> ks - prev);
                                       n = length (mr_matches result)
                                   in Inr (found_events (se_host env) (se_stamp env) 0 first_scan new_keys (mr_matches result) @
                                             [completed_event (se_stamp env n) env (length (pa_advisories parsed)) n
                                                (card new_keys) (pa_warnings parsed + mr_warnings result + unparseable) skipped],
                                           ks))))))"

definition run_scan :: "scan_env \<Rightarrow> vuln_worker \<Rightarrow> vuln_worker \<times> event list" where
  "run_scan env w =
     (let w1 = w\<lparr>vw_rescan := False, vw_pending_file := False, vw_lock_reported := False,
                 vw_next_due := Some (se_now env + se_interval_s env),
                 vw_last_file_scan := (if vw_pending_file w then Some (se_now env) else vw_last_file_scan w)\<rparr>
      in case scan env w1 of
           Inl reason \<Rightarrow> (w1, [failed_event (se_host env) (se_stamp env 0) reason])
         | Inr (events, ks) \<Rightarrow> (w1\<lparr>vw_prev_keys := Some ks\<rparr>, events))"

definition vuln_step :: "scan_env \<Rightarrow> vuln_worker \<Rightarrow> vuln_worker \<times> event list" where
  "vuln_step env w0 =
     (let w = observe_files env w0
      in if \<not> scan_due (se_now env) w then (w, [])
         else if se_locked env then
           (if vw_lock_reported w then (w, [])
            else (w\<lparr>vw_lock_reported := True\<rparr>, [failed_event (se_host env) (se_stamp env 0) ''pacman_db_locked'']))
         else run_scan env w)"

section \<open>The panel's handlers\<close>

record vuln_db =
  vd_rows :: "(pyval \<times> pyval \<times> pyval, vuln_row) table"
  vd_audit :: audit_state

definition param_str :: "(pyval \<Rightarrow> string) \<Rightarrow> pydict \<Rightarrow> string \<Rightarrow> string" where
  "param_str ostr params k = py_str ostr (case map_of params k of None \<Rightarrow> PStr '''' | Some v \<Rightarrow> v)"

text \<open>\<open>now\<close> is the wall clock; the audit call carries its own clock readings.\<close>

definition handle_ack_vulnerability ::
  "(string \<Rightarrow> string) \<Rightarrow> (pyval \<Rightarrow> string) \<Rightarrow> audit_call \<Rightarrow> datetime \<Rightarrow> pydict \<Rightarrow> vuln_db \<Rightarrow> vuln_db \<times> bool" where
  "handle_ack_vulnerability sha ostr env now params db =
     (let avg_id = param_str ostr params ''avg_id''; cve_id = param_str ostr params ''cve_id'';
          package = param_str ostr params ''package'';
          raw_note = dget params ''note'';
          note = (if truthy raw_note then Some (py_str ostr raw_note) else None);
          key = (PStr avg_id, PStr cve_id, PStr package)
      in case map_of (vd_rows db) key of
           None \<Rightarrow> (db, False)
         | Some r \<Rightarrow>
             (let rows = AList.update key (r\<lparr>vu_acked_at := Some now, vu_acked_note := note\<rparr>) (vd_rows db);
                  details = (case note of None \<Rightarrow> ''{}''
                             | Some t \<Rightarrow> the (json_dumps (\<lambda>_. []) (\<lambda>_. None) (PDict [(''note'', PStr t)])));
                  audit = (if vu_acked_at r = None
                           then fst (append_audit sha
                             (env\<lparr>ac_actor := ''user:local'', ac_action := ''vulnerability_acked'',
                                  ac_target := Some (''vuln:'' @ avg_id @ ''/'' @ cve_id @ ''/'' @ package),
                                  ac_details := details\<rparr>) (vd_audit db))
                           else vd_audit db)
              in (\<lparr>vd_rows = rows, vd_audit = audit\<rparr>, True)))"

definition vuln_list_limit :: "pydict \<Rightarrow> int" where
  "vuln_list_limit params =
     (let n = (case int_of (case map_of params ''limit'' of None \<Rightarrow> PInt 100 | Some v \<Rightarrow> v) of None \<Rightarrow> 100 | Some n \<Rightarrow> n)
      in max 1 (min 500 n))"

definition handle_list_vulnerabilities ::
  "(pyval \<Rightarrow> string) \<Rightarrow> pydict \<Rightarrow> (pyval \<times> pyval \<times> pyval, vuln_row) table \<Rightarrow> ((pyval \<times> pyval \<times> pyval) \<times> vuln_row) list" where
  "handle_list_vulnerabilities ostr params rows =
     (let severity = dget params ''severity'';
          include_acked = truthy (case map_of params ''include_acked'' of None \<Rightarrow> PBool True | Some v \<Rightarrow> v);
          include_resolved = truthy (case map_of params ''include_resolved'' of None \<Rightarrow> PBool False | Some v \<Rightarrow> v)
      in take (nat (vuln_list_limit params))
           (sort_key (\<lambda>(_, r). - vu_first_seen_at r)
              (filter (\<lambda>(_, r). (\<not> truthy severity \<or> vu_severity r = PStr (py_str ostr severity))
                               \<and> (include_acked \<or> vu_acked_at r = None)
                               \<and> (include_resolved \<or> vu_resolved_at r = None)) rows)))"

text \<open>The freshness line: the newest completed or failed scan in the event store.\<close>

record last_scan_info =
  ls_action :: string
  ls_ts :: datetime
  ls_reason :: pyval
  ls_advisory_mtime :: pyval
  ls_counts :: pydict

definition last_scan :: "event_row list \<Rightarrow> last_scan_info option" where
  "last_scan events =
     (let rows = sort_key er_ts (sort_key er_id (filter (\<lambda>r. er_module r = ''vuln_scanner'' \<and>
                   (er_action r = ''vuln_scan_completed'' \<or> er_action r = ''vuln_scan_failed'')) events))
      in if rows = [] then None
         else (let row = last rows;
                   raw = (case json_loads (er_payload row) of
                            Some (PDict d) \<Rightarrow> (case dget d ''raw'' of PDict r \<Rightarrow> r | _ \<Rightarrow> []) | _ \<Rightarrow> [])
               in Some (if er_action row = ''vuln_scan_failed''
                        then \<lparr>ls_action = er_action row, ls_ts = er_ts row, ls_reason = dget raw ''reason'',
                              ls_advisory_mtime = PNone, ls_counts = []\<rparr>
                        else \<lparr>ls_action = er_action row, ls_ts = er_ts row, ls_reason = PNone,
                              ls_advisory_mtime = dget raw ''advisory_mtime'',
                              ls_counts = map (\<lambda>k. (k, dget raw k)) [''advisories'', ''matched'', ''new'', ''warnings'']\<rparr>)))"

section \<open>What a scan reports\<close>

definition package_hits :: "(string \<Rightarrow> string \<Rightarrow> int option) \<Rightarrow> (string, string) table \<Rightarrow> advisory \<Rightarrow> string \<Rightarrow> vuln_match set" where
  "package_hits vc installed a p =
     (case map_of installed p of
        None \<Rightarrow> {}
      | Some v \<Rightarrow> if is_vulnerable vc a v = Some True then vuln_match_of a p v ` set (adv_issues a) else {})"

lemma match_packages_set:
  "match_packages vc installed a ps = Some ms \<Longrightarrow> set ms = \<Union> (package_hits vc installed a ` set ps)"
proof (induction ps arbitrary: ms)
  case (Cons p ps)
  show ?case
  proof (cases "map_of installed p")
    case None
    then have "package_hits vc installed a p = {}" by (simp add: package_hits_def)
    with None Cons show ?thesis by simp
  next
    case (Some v)
    with Cons.prems obtain b where b: "is_vulnerable vc a v = Some b" by (auto split: option.splits)
    then have "package_hits vc installed a p = (if b then vuln_match_of a p v ` set (adv_issues a) else {})"
      by (simp add: package_hits_def Some)
    with Some b Cons show ?thesis by (cases b) auto
  qed
qed simp

definition counts_for_match :: "advisory \<Rightarrow> bool" where
  "counts_for_match a \<longleftrightarrow> adv_status a \<noteq> ''Not affected'' \<and> adv_status a \<in> set KNOWN_STATUSES"

lemma match_advisories_sets:
  "match_advisories vc installed as = Some r \<Longrightarrow>
     set (mr_matches r) = (\<Union>a\<in>Set.filter counts_for_match (set as). \<Union> (package_hits vc installed a ` set (adv_packages a)))
     \<and> set (mr_skipped r) = adv_id ` Set.filter (\<lambda>a. adv_status a \<notin> set KNOWN_STATUSES) (set as)"
proof (induction as arbitrary: r)
  case (Cons a as)
  show ?case
  proof (cases "match_advisories vc installed as")
    case None
    with Cons.prems show ?thesis by (simp split: if_splits option.splits)
  next
    case (Some r')
    note IH = Cons.IH [OF Some]
    show ?thesis
    proof (cases "counts_for_match a")
      case True
      then obtain ms where ms: "match_packages vc installed a (adv_packages a) = Some ms"
          "r = r'\<lparr>mr_matches := ms @ mr_matches r'\<rparr>"
        using Cons.prems Some by (auto simp: counts_for_match_def split: if_splits option.splits)
      then show ?thesis using IH True by (auto simp: match_packages_set [OF ms(1)] counts_for_match_def)
    next
      case False
      then have filter: "Set.filter counts_for_match (set (a # as)) = Set.filter counts_for_match (set as)" by auto
      have known: "''Not affected'' \<in> set KNOWN_STATUSES" by (simp add: KNOWN_STATUSES_def)
      show ?thesis
      proof (cases "adv_status a = ''Not affected''")
        case True
        then have "Set.filter (\<lambda>a. adv_status a \<notin> set KNOWN_STATUSES) (set (a # as))
            = Set.filter (\<lambda>a. adv_status a \<notin> set KNOWN_STATUSES) (set as)" using known by auto
        with True Cons.prems Some IH show ?thesis by (simp only: filter) simp
      next
        case na: False
        then have "adv_status a \<notin> set KNOWN_STATUSES" using False by (simp add: counts_for_match_def)
        moreover from this have "Set.filter (\<lambda>a. adv_status a \<notin> set KNOWN_STATUSES) (set (a # as))
            = insert a (Set.filter (\<lambda>a. adv_status a \<notin> set KNOWN_STATUSES) (set as))" by auto
        ultimately show ?thesis using na Cons.prems Some IH by (simp only: filter) auto
      qed
    qed
  qed
qed simp

lemma package_hits_iff:
  "m \<in> package_hits vc installed a p \<longleftrightarrow>
     (\<exists>v c. map_of installed p = Some v \<and> is_vulnerable vc a v = Some True \<and> c \<in> set (adv_issues a) \<and> m = vuln_match_of a p v c)"
  by (auto simp: package_hits_def split: option.splits)

text \<open>The match set is exact. When version comparison works, a match is reported for an advisory, package and CVE
  exactly when the advisory's status is recognised and not \<^verbatim>\<open>Not affected\<close>, the package is installed, the
  installed version is older than the fix (or there is no fix and the advisory is open) and the CVE is one of
  the advisory's; an advisory with an unrecognised status is listed as skipped instead.\<close>

theorem match_advisories_exact:
  assumes "match_advisories vc installed as = Some r"
  shows "(m \<in> set (mr_matches r) \<longleftrightarrow>
      (\<exists>a p v c. a \<in> set as \<and> adv_status a \<noteq> ''Not affected'' \<and> adv_status a \<in> set KNOWN_STATUSES \<and>
         p \<in> set (adv_packages a) \<and> map_of installed p = Some v \<and> is_vulnerable vc a v = Some True \<and>
         c \<in> set (adv_issues a) \<and> m = vuln_match_of a p v c))
    \<and> (i \<in> set (mr_skipped r) \<longleftrightarrow> (\<exists>a. a \<in> set as \<and> adv_id a = i \<and> adv_status a \<notin> set KNOWN_STATUSES))"
  using match_advisories_sets [OF assms]
  by (auto simp: package_hits_iff counts_for_match_def)

section \<open>Scan, stream and table\<close>

definition open_vuln :: "entity_state \<Rightarrow> vuln_key \<Rightarrow> bool" where
  "open_vuln st k =
     (case k of (a, c, p) \<Rightarrow>
        (case map_of (st_vuln st) (PStr a, PStr c, PStr p) of None \<Rightarrow> False | Some r \<Rightarrow> vu_resolved_at r = None))"

text \<open>A row that the running scan has reported.\<close>

definition reported :: "datetime \<Rightarrow> entity_state \<Rightarrow> vuln_key \<Rightarrow> bool" where
  "reported started st k =
     (case k of (a, c, p) \<Rightarrow>
        (case map_of (st_vuln st) (PStr a, PStr c, PStr p) of
           None \<Rightarrow> False | Some r \<Rightarrow> vu_resolved_at r = None \<and> started \<le> vu_last_seen r))"

lemma vuln_step_project:
  "ev_module e = ''vuln_scanner'' \<Longrightarrow> ev_action e = ''vulnerability_found'' \<Longrightarrow>
     project_step ostr fromiso boot st e = project_vulnerability_found e st"
  by (simp add: project_step_def project_def project_vulnerability_def)

lemma found_event_simps [simp]:
  "ev_module (found_event h t f n m) = ''vuln_scanner''" "ev_action (found_event h t f n m) = ''vulnerability_found''"
  "ev_ts (found_event h t f n m) = fst t" "ev_id (found_event h t f n m) = snd t"
  "bget (ev_vulnerability (found_event h t f n m)) ''avg_id'' = PStr (vm_avg_id m)"
  "bget (ev_vulnerability (found_event h t f n m)) ''cve_id'' = PStr (vm_cve_id m)"
  "bget (ev_vulnerability (found_event h t f n m)) ''package'' = PStr (vm_package m)"
  by (simp_all add: found_event_def)

definition named :: "vuln_match \<Rightarrow> bool" where
  "named m \<longleftrightarrow> vm_avg_id m \<noteq> [] \<and> vm_cve_id m \<noteq> [] \<and> vm_package m \<noteq> []"

lemma project_found:
  assumes "named m"
  shows "map_of (st_vuln (project_step ostr fromiso boot st (found_event h t f n m))) k =
    (if k = (PStr (vm_avg_id m), PStr (vm_cve_id m), PStr (vm_package m))
     then map_of (st_vuln (project_vulnerability_found (found_event h t f n m) st)) k else map_of (st_vuln st) k)"
  and "match_key m = k' \<Longrightarrow> started \<le> fst t \<Longrightarrow> reported started (project_step ostr fromiso boot st (found_event h t f n m)) k'"
  using assms
  by (auto simp: vuln_step_project project_vulnerability_found_def Let_def map_of_upsert named_def reported_def match_key_def
      split: option.split)

lemma found_events_reported:
  assumes "list_all named ms" "\<And>n. started \<le> fst (stamp n)"
  shows "(k \<in> match_key ` set ms \<or> reported started st k \<longrightarrow>
            reported started (project_all ostr fromiso boot (found_events h stamp n f nk ms) st) k)
       \<and> (k \<notin> match_key ` set ms \<longrightarrow> (case k of (a, c, p) \<Rightarrow>
            map_of (st_vuln (project_all ostr fromiso boot (found_events h stamp n f nk ms) st)) (PStr a, PStr c, PStr p)
              = map_of (st_vuln st) (PStr a, PStr c, PStr p)))"
  using assms(1) unfolding project_all_foldl
proof (induction ms arbitrary: n st)
  case (Cons m ms)
  let ?e = "found_event h (stamp n) f (match_key m \<in> nk) m"
  let ?st = "project_step ostr fromiso boot st ?e"
  have m: "named m" and ms: "list_all named ms" using Cons.prems by simp_all
  have new: "reported started ?st k" if "match_key m = k" using project_found(2) [OF m that assms(2)] .
  obtain a c p where k: "k = (a, c, p)" by (cases k)
  have same: "map_of (st_vuln ?st) (PStr a, PStr c, PStr p) = map_of (st_vuln st) (PStr a, PStr c, PStr p)" if "match_key m \<noteq> k"
    using that by (auto simp: project_found(1) [OF m] match_key_def k)
  then have old: "reported started ?st k" if "reported started st k"
    using that new by (cases "match_key m = k") (auto simp: reported_def k)
  show ?case using Cons.IH [OF ms, of ?st "Suc n"] new old same by (auto simp: k)
qed auto

lemma clean_str_list_nonempty: "clean_str_list v = Some ys \<Longrightarrow> [] \<notin> set ys"
proof -
  assume "clean_str_list v = Some ys"
  then obtain xs where "list_all2 (\<lambda>x y. clean_item x = Some y) xs ys"
    by (auto simp: clean_str_list_def all_some_map split: pyval.splits if_splits)
  moreover have "clean_item x = Some y \<Longrightarrow> y \<noteq> []" for x y
    by (cases x) (auto simp: clean_item_def split: if_splits)
  ultimately show ?thesis by (induction xs ys rule: list_all2_induct) auto
qed

lemma parse_one_named:
  assumes "parse_one e = Parsed a"
  shows "adv_id a \<noteq> [] \<and> [] \<notin> set (adv_packages a) \<and> [] \<notin> set (adv_issues a)"
proof -
  obtain d where e: "e = PDict d" using assms by (cases e) (simp_all add: parse_one_def)
  obtain raw where raw: "dget d ''name'' = PStr raw" using assms e by (cases "dget d ''name''") (simp_all add: parse_one_def)
  have ok: "avg_id_ok (clean raw)" using assms e raw by (auto simp: parse_one_def Let_def split: if_splits)
  obtain packages issues where lists: "clean_str_list (dget d ''packages'') = Some packages"
      "clean_str_list (dget d ''issues'') = Some issues"
    using assms e raw ok by (cases "clean_str_list (dget d ''packages'')"; cases "clean_str_list (dget d ''issues'')")
      (simp_all add: parse_one_def)
  obtain status where status: "dget d ''status'' = PStr status"
    using assms e raw ok lists by (cases "dget d ''status''") (simp_all add: parse_one_def)
  obtain severity where severity: "dget d ''severity'' = PStr severity"
    using assms e raw ok lists status by (cases "dget d ''severity''") (simp_all add: parse_one_def)
  have "adv_id a = clean raw" "adv_packages a = packages" "adv_issues a = issues"
    using assms e raw ok lists status severity by (auto simp: parse_one_def Let_def split: option.splits)
  then show ?thesis
    using ok clean_str_list_nonempty [OF lists(1)] clean_str_list_nonempty [OF lists(2)] by (auto simp: avg_id_ok_def)
qed

lemma collect_parsed: "a \<in> set (pa_advisories (collect_advisories os)) \<Longrightarrow> Parsed a \<in> set os"
  by (induction os) (auto simp: Let_def split: parse_outcome.splits)

lemma matches_named:
  assumes "parse_advisories data = Inr parsed" "match_advisories vc installed (pa_advisories parsed) = Some r"
  shows "list_all named (mr_matches r)"
proof -
  obtain doc where parsed: "parsed = collect_advisories (map parse_one doc)"
    using assms(1) by (auto simp: parse_advisories_def split: option.splits pyval.splits if_splits)
  have "named m" if "m \<in> set (mr_matches r)" for m
  proof -
    from that obtain a p v c where a: "a \<in> set (pa_advisories parsed)" "p \<in> set (adv_packages a)" "c \<in> set (adv_issues a)"
        "m = vuln_match_of a p v c"
      using match_advisories_sets [OF assms(2)] by (auto simp: package_hits_iff)
    then obtain e where "parse_one e = Parsed a" using collect_parsed parsed by fastforce
    from parse_one_named [OF this] a show ?thesis by (auto simp: named_def vuln_match_of_def)
  qed
  then show ?thesis by (simp add: list_all_iff)
qed

lemma completed_event_simps [simp]:
  "ev_module (completed_event t env a b c d sk) = ''vuln_scanner''" "ev_action (completed_event t env a b c d sk) = ''vuln_scan_completed''"
  "bget (ev_raw (completed_event t env a b c d sk)) ''scan_started_at'' = PStr (se_started_iso env)"
  "bget (ev_raw (completed_event t env a b c d sk)) ''skipped_avg_ids'' = PList (map PStr sk)"
  by (simp_all add: completed_event_def)

lemma skipped_avgs_strings: "skipped_avgs (PList (map PStr sk)) = Some sk"
proof -
  have "concat (map (\<lambda>x. case x of PStr s \<Rightarrow> [s] | _ \<Rightarrow> []) (map PStr sk)) = sk" by (induction sk) simp_all
  then show ?thesis by (cases sk) (simp_all add: skipped_avgs_def)
qed

lemma scan_InrE:
  assumes "scan env w = Inr (events, ks)" "se_advisories env = Inr parsed"
  obtains installed un r f nk q u v x where
    "match_advisories (se_vercmp env) installed (pa_advisories parsed) = Some r"
    "ks = match_key ` set (mr_matches r)"
    "events = found_events (se_host env) (se_stamp env) 0 f nk (mr_matches r) @
       [completed_event q env u v x (pa_warnings parsed + mr_warnings r + un) (pa_skipped parsed @ mr_skipped r)]"
proof -
  obtain installed un where inst: "parse_installed (snd (se_pacman_q env)) = (installed, un)" by fastforce
  obtain r where r: "match_advisories (se_vercmp env) installed (pa_advisories parsed) = Some r"
    using assms inst by (cases "match_advisories (se_vercmp env) installed (pa_advisories parsed)")
      (simp_all add: scan_def split: if_splits)
  show ?thesis
    using assms inst r by (intro that [OF r]) (auto simp: scan_def Let_def split: if_splits)
qed

lemma project_completed:
  assumes "fromiso (se_started_iso env) = Some started"
  shows "open_vuln (project_step ostr fromiso boot st (completed_event t env a b c d sk)) (x, y, z) \<longleftrightarrow>
    reported started st (x, y, z) \<or> (open_vuln st (x, y, z) \<and> x \<in> set sk)"
  using assms
  by (auto simp: project_step_def project_def project_vulnerability_def project_vulnerability_sweep_def
      skipped_avgs_strings open_vuln_def reported_def map_of_update_where split: option.splits)

text \<open>C19: From advisory file to panel. After the events of a successful scan have been projected, the open
  vulnerabilities are exactly the ones the scan matched, together with the previously open ones of advisories the
  scan had to skip: nothing that disappeared stays open, and nothing is resolved because its advisory failed
  to parse or has an unrecognised status.\<close>

theorem scan_resolves_exactly_the_absent:
  assumes "se_advisories env = parse_advisories data" and "parse_advisories data = Inr parsed"
    and "scan env w = Inr (events, ks)"
    and "fromiso (se_started_iso env) = Some started" and "\<forall>n. started \<le> fst (se_stamp env n)"
    and "\<forall>r \<in> ran (map_of (st_vuln st)). vu_last_seen r < started"
  shows "open_vuln (project_all ostr fromiso boot events st) (a, c, p) \<longleftrightarrow>
     (a, c, p) \<in> ks \<or>
     (open_vuln st (a, c, p) \<and>
      (a \<in> set (pa_skipped parsed) \<or>
       (\<exists>adv. adv \<in> set (pa_advisories parsed) \<and> adv_id adv = a \<and> adv_status adv \<notin> set KNOWN_STATUSES)))"
proof -
  let ?k = "(a, c, p)"
  have adv: "se_advisories env = Inr parsed" using assms(1,2) by simp
  from scan_InrE [OF assms(3) adv] obtain installed un r f nk q u v x where
      r: "match_advisories (se_vercmp env) installed (pa_advisories parsed) = Some r" and
      ks: "ks = match_key ` set (mr_matches r)" and
      events: "events = found_events (se_host env) (se_stamp env) 0 f nk (mr_matches r) @
         [completed_event q env u v x (pa_warnings parsed + mr_warnings r + un) (pa_skipped parsed @ mr_skipped r)]" .
  let ?st1 = "project_all ostr fromiso boot (found_events (se_host env) (se_stamp env) 0 f nk (mr_matches r)) st"
  have "list_all named (mr_matches r)" using matches_named [OF assms(2) r] .
  note found = found_events_reported [OF this, of started "se_stamp env" ?k st ostr fromiso boot "se_host env" 0 f nk]
  have after: "open_vuln (project_all ostr fromiso boot events st) ?k \<longleftrightarrow>
      reported started ?st1 ?k \<or> (open_vuln ?st1 ?k \<and> a \<in> set (pa_skipped parsed @ mr_skipped r))"
    unfolding events project_all_foldl foldl_append foldl_Cons foldl_Nil by (rule project_completed) (rule assms(4))
  have skipped: "a \<in> set (mr_skipped r) \<longleftrightarrow>
      (\<exists>adv. adv \<in> set (pa_advisories parsed) \<and> adv_id adv = a \<and> adv_status adv \<notin> set KNOWN_STATUSES)"
    using match_advisories_sets [OF r] by auto
  show ?thesis
  proof (cases "?k \<in> ks")
    case True
    then have "reported started ?st1 ?k" using found assms(5) by (auto simp: ks)
    with after True show ?thesis by simp
  next
    case False
    then have same: "map_of (st_vuln ?st1) (PStr a, PStr c, PStr p) = map_of (st_vuln st) (PStr a, PStr c, PStr p)"
      using found assms(5) by (simp add: ks)
    then have "open_vuln ?st1 ?k = open_vuln st ?k" by (simp add: open_vuln_def)
    moreover have "\<not> reported started ?st1 ?k"
    proof (cases "map_of (st_vuln st) (PStr a, PStr c, PStr p)")
      case (Some q)
      then have "vu_last_seen q < started" using assms(6) ranI [of "map_of (st_vuln st)"] by blast
      with Some same show ?thesis by (simp add: reported_def)
    qed (simp add: reported_def same)
    ultimately show ?thesis using after False skipped by auto
  qed
qed

text \<open>A concrete scan: one installed package, one advisory with an unknown version of the fix.\<close>

definition sample_env :: scan_env where
  "sample_env =
     \<lparr>se_now = 0, se_advisory_stat = None, se_pacman_mtime = None, se_locked = False, se_interval_s = 60,
      se_advisories = parse_advisories ''[0]'', se_pacman_q = (0, []), se_vercmp = (\<lambda>_ _. Some 0),
      se_started_iso = ''t'', se_mtime_iso = PNone, se_duration_ms = 1, se_stamp = (\<lambda>n. (5, ''e'')), se_host = ''h''\<rparr>"

definition sample_parsed :: parsed_advisories where
  "sample_parsed = \<lparr>pa_advisories = [], pa_skipped = [], pa_warnings = 1\<rparr>"

lemma sample_parse: "parse_advisories ''[0]'' = Inr sample_parsed"
  by (simp add: parse_advisories_def json_loads_def scan_number_def int_prefix_def frac_part_def exp_part_def json_space_def
      digits_value_def digit_val_def parse_one_def sample_parsed_def MAX_ADVISORIES_def)

lemma parse_installed_Nil: "parse_installed [] = ([], 0)"
  by (simp add: parse_installed_def splitlines.simps)

definition sample_vuln_state :: entity_state where
  "sample_vuln_state = empty_state\<lparr>st_vuln :=
     [((PStr ''AVG-1'', PStr ''CVE-1'', PStr ''vim''),
       \<lparr>vu_installed = PNone, vu_fixed = PNone, vu_severity = PNone, vu_status = PNone, vu_fix_in_testing = False,
        vu_first_seen_at = 1, vu_last_seen = 1, vu_event = ''e0'', vu_resolved_at = None, vu_acked_at = None,
        vu_acked_note = None\<rparr>)]\<rparr>"

theorem scan_resolves_exactly_the_absent_witness:
  "\<not> open_vuln (project_all (\<lambda>_. []) (\<lambda>_. Some 4) None
       (fst (projr (scan sample_env vuln_worker_init))) sample_vuln_state) (''AVG-1'', ''CVE-1'', ''vim'')"
proof -
  have run: "scan sample_env vuln_worker_init =
      Inr (fst (projr (scan sample_env vuln_worker_init)), {})"
    by (simp add: scan_def sample_env_def sample_parse sample_parsed_def parse_installed_Nil vuln_worker_init_def
        MAX_SKIPPED_AVG_IDS_def)
  have "se_advisories sample_env = parse_advisories ''[0]''" by (simp add: sample_env_def)
  from scan_resolves_exactly_the_absent [OF this sample_parse run, where fromiso = "\<lambda>_. Some 4" and started = 4
      and st = sample_vuln_state]
  show ?thesis
    by (simp add: sample_env_def sample_vuln_state_def sample_parsed_def)
qed

theorem match_advisories_exact_witness:
  "vuln_match_of \<lparr>adv_id = ''AVG-1'', adv_packages = [''vim''], adv_status = ''Vulnerable'', adv_severity = ''High'',
                  adv_fixed = None, adv_affected = None, adv_issues = [''CVE-1'']\<rparr> ''vim'' ''9'' ''CVE-1''
   \<in> set (mr_matches (the (match_advisories (\<lambda>_ _. None) [(''vim'', ''9'')]
       [\<lparr>adv_id = ''AVG-1'', adv_packages = [''vim''], adv_status = ''Vulnerable'', adv_severity = ''High'',
         adv_fixed = None, adv_affected = None, adv_issues = [''CVE-1'']\<rparr>])))"
proof -
  let ?a = "\<lparr>adv_id = ''AVG-1'', adv_packages = [''vim''], adv_status = ''Vulnerable'', adv_severity = ''High'',
     adv_fixed = None, adv_affected = None, adv_issues = [''CVE-1'']\<rparr>"
  obtain r where r: "match_advisories (\<lambda>_ _. None) [(''vim'', ''9'')] [?a] = Some r"
    by (simp add: is_vulnerable_def KNOWN_STATUSES_def)
  show ?thesis
    unfolding r option.sel
    using match_advisories_exact [OF r, of "vuln_match_of ?a ''vim'' ''9'' ''CVE-1''"]
    by (auto simp: is_vulnerable_def KNOWN_STATUSES_def)
qed

section \<open>Acknowledgements\<close>

definition same_history :: "vuln_row \<Rightarrow> vuln_row \<Rightarrow> bool" where
  "same_history r r' \<longleftrightarrow>
     vu_first_seen_at r' = vu_first_seen_at r \<and> vu_acked_at r' = vu_acked_at r \<and> vu_acked_note r' = vu_acked_note r"

lemma found_history:
  "map_of (st_vuln st) k = Some r \<Longrightarrow> \<exists>r'. map_of (st_vuln (project_vulnerability_found e st)) k = Some r' \<and> same_history r r'"
  by (auto simp: project_vulnerability_found_def Let_def map_of_upsert same_history_def)

lemma sweep_effect:
  "project_vulnerability_sweep fromiso e st = Some st' \<Longrightarrow>
     st' = st \<or> (\<exists>p t. st' = st\<lparr>st_vuln := update_where p (\<lambda>r. r\<lparr>vu_resolved_at := Some t\<rparr>) (st_vuln st)\<rparr>)"
  unfolding project_vulnerability_sweep_def by (cases "bget (ev_raw e) ''scan_started_at''") (auto split: option.splits)

lemma sweep_history:
  "map_of (st_vuln st) k = Some r \<Longrightarrow> project_vulnerability_sweep fromiso e st = Some st' \<Longrightarrow>
     \<exists>r'. map_of (st_vuln st') k = Some r' \<and> same_history r r'"
  by (drule sweep_effect) (auto simp: map_of_update_where same_history_def)

lemma vuln_step_history:
  assumes "map_of (st_vuln st) k = Some r"
  shows "\<exists>r'. map_of (st_vuln (project_step ostr fromiso boot st e)) k = Some r' \<and> same_history r r'"
proof (cases "ev_module e = ''vuln_scanner''")
  case True
  then have step: "project_step ostr fromiso boot st e = (case project_vulnerability fromiso e st of None \<Rightarrow> st | Some st' \<Rightarrow> st')"
    by (simp add: project_step_def project_def)
  have refl: "same_history r r" by (simp add: same_history_def)
  consider "ev_action e = ''vulnerability_found''" | "ev_action e = ''vuln_scan_completed''"
    | "ev_action e \<noteq> ''vulnerability_found''" "ev_action e \<noteq> ''vuln_scan_completed''" by blast
  then show ?thesis
  proof cases
    case 1
    then show ?thesis using found_history [OF assms] by (simp add: step project_vulnerability_def)
  next
    case 2
    then have "project_vulnerability fromiso e st = project_vulnerability_sweep fromiso e st"
      by (simp add: project_vulnerability_def)
    then show ?thesis
      using sweep_history [OF assms] assms refl by (cases "project_vulnerability_sweep fromiso e st") (auto simp: step)
  next
    case 3
    then show ?thesis using assms refl by (simp add: step project_vulnerability_def)
  qed
qed (use assms in \<open>simp add: step_frame same_history_def\<close>)

text \<open>Acknowledgements survive. Whatever events are projected, a vulnerability row is never deleted and keeps its
  first sighting, its acknowledgement time and its note.\<close>

theorem vulnerability_ack_survives:
  assumes "map_of (st_vuln st) k = Some r"
  shows "\<exists>r'. map_of (st_vuln (project_all ostr fromiso boot es st)) k = Some r' \<and> same_history r r'"
  using assms unfolding project_all_foldl
proof (induction es arbitrary: st r)
  case (Cons e es)
  from vuln_step_history [OF Cons.prems, of ostr fromiso boot e] obtain r' where
    r': "map_of (st_vuln (project_step ostr fromiso boot st e)) k = Some r'" "same_history r r'" by blast
  from Cons.IH [OF r'(1)] r'(2) show ?case by (auto simp: same_history_def)
qed (simp add: same_history_def)

theorem vulnerability_ack_survives_witness:
  "\<exists>r'. map_of (st_vuln (project_all (\<lambda>_. []) (\<lambda>_. Some 4) None (fst (projr (scan sample_env vuln_worker_init)))
           sample_vuln_state)) (PStr ''AVG-1'', PStr ''CVE-1'', PStr ''vim'') = Some r'
      \<and> same_history (the (map_of (st_vuln sample_vuln_state) (PStr ''AVG-1'', PStr ''CVE-1'', PStr ''vim''))) r'"
  by (rule vulnerability_ack_survives) (simp add: sample_vuln_state_def)

section \<open>Requested rescans\<close>

fun vuln_steps :: "scan_env list \<Rightarrow> vuln_worker \<Rightarrow> vuln_worker \<times> event list" where
  "vuln_steps [] w = (w, [])"
| "vuln_steps (env # envs) w =
     (case vuln_step env w of (w', out) \<Rightarrow> case vuln_steps envs w' of (w'', out') \<Rightarrow> (w'', out @ out'))"

lemma locked_step:
  assumes "vw_rescan w" "se_locked env"
  shows "vw_rescan (fst (vuln_step env w)) \<and> vw_lock_reported (fst (vuln_step env w))
     \<and> length (snd (vuln_step env w)) = (if vw_lock_reported w then 0 else 1)"
  using assms by (simp add: vuln_step_def observe_files_def scan_due_def)

text \<open>A requested rescan is neither lost nor repeated. While the package database is locked the request stays
  pending over any number of polls and at most one failure is reported for it; the first poll that finds the
  database unlocked runs the scan and consumes the request.\<close>

theorem rescan_waits_for_the_lock:
  assumes "vw_rescan w" and "list_all se_locked envs" and "\<not> se_locked env"
  shows "length (snd (vuln_steps envs w)) \<le> 1
       \<and> vuln_step env (fst (vuln_steps envs w)) = run_scan env (observe_files env (fst (vuln_steps envs w)))
       \<and> \<not> vw_rescan (fst (vuln_step env (fst (vuln_steps envs w))))"
proof -
  have pending: "vw_rescan (fst (vuln_steps envs w)) \<and>
      length (snd (vuln_steps envs w)) \<le> (if vw_lock_reported w then 0 else 1)"
    using assms(1,2)
  proof (induction envs arbitrary: w)
    case (Cons e envs)
    from locked_step [of w e] Cons.prems Cons.IH [of "fst (vuln_step e w)"] show ?case
      by (auto simp: case_prod_beta)
  qed simp
  then have run: "vuln_step env (fst (vuln_steps envs w)) = run_scan env (observe_files env (fst (vuln_steps envs w)))"
    using assms(3) by (simp add: vuln_step_def scan_due_def observe_files_def)
  have "\<not> vw_rescan (fst (run_scan env v))" for v
    by (simp add: run_scan_def Let_def split: sum.split prod.split)
  with run pending show ?thesis by (auto split: if_splits)
qed

theorem rescan_waits_for_the_lock_witness:
  "\<not> vw_rescan (fst (vuln_step sample_env (fst (vuln_steps [sample_env\<lparr>se_locked := True\<rparr>, sample_env\<lparr>se_locked := True\<rparr>]
      (fst (vuln_handle_command ''rescan'' vuln_worker_init))))))"
  by (rule rescan_waits_for_the_lock [THEN conjunct2, THEN conjunct2]) (simp_all add: vuln_handle_command_def sample_env_def)

end
