(* ===== verification/Cases.thy ===== *)
theory Cases
  imports Alerts
begin

text \<open>
  Cases and forensic evidence: the tables of \<^verbatim>\<open>cases/store.py\<close> with the operations on them and their IPC
  handlers (\<^verbatim>\<open>cases/ipc_handlers.py\<close>), the content-addressed blob store (\<^verbatim>\<open>evidence/store.py\<close>) and the
  collector that captures evidence for a severe alert (\<^verbatim>\<open>evidence/collector.py\<close>).

  A blob is its bytes, the store maps the digest to them, and the digest function is an argument
  (\<open>sha\<close>). Everything read from the host while capturing (sockets, processes, files, clocks) is a
  field of \<open>capture_env\<close>.
\<close>

section \<open>Tables\<close>

record case_row =
  cs_title :: string
  cs_status :: string
  cs_opened_at :: datetime
  cs_closed_at :: "datetime option"

record case_event =
  ce_case :: string
  ce_ts :: datetime
  ce_seq :: int
  ce_kind :: string
  ce_text :: "string option"

record evidence_row =
  ew_captured_at :: datetime
  ew_meta :: "string option"

text \<open>The key of an evidence row: case, kind, digest, original path.\<close>

type_synonym evidence_key = "string \<times> string \<times> string \<times> string"

abbreviation ek_sha :: "evidence_key \<Rightarrow> string" where
  "ek_sha k \<equiv> fst (snd (snd k))"

abbreviation ek_case :: "evidence_key \<Rightarrow> string" where
  "ek_case k \<equiv> fst k"

text \<open>A row of the quarantine table; the status is one of isolating, active, failed, restoring, restored,
  deleting and deleted.\<close>

record quarantine_row =
  qr_sha :: string
  qr_path :: string
  qr_mode :: int
  qr_uid :: int
  qr_gid :: int
  qr_size :: nat
  qr_pkg_owner :: "string option"
  qr_note :: "string option"
  qr_alert_id :: "string option"
  qr_case_id :: "string option"
  qr_status :: string
  qr_quarantined_at :: datetime
  qr_restored_at :: "datetime option"
  qr_deleted_at :: "datetime option"

record case_db =
  cd_alerts :: alerts
  cd_cases :: "(string, case_row) table"
  cd_links :: "(string \<times> string, datetime) table"
  cd_events :: "case_event list"
  cd_evidence :: "(evidence_key, evidence_row) table"
  cd_blobs :: "(string, string) table"
  cd_quarantine :: "(string, quarantine_row) table"
  cd_audit :: audit_state

section \<open>The case store\<close>

definition MAX_TEXT :: nat where "MAX_TEXT = 16384"

definition bound :: "string option \<Rightarrow> string option" where
  "bound t = map_option (take MAX_TEXT) t"

definition append_event ::
  "string \<Rightarrow> datetime \<Rightarrow> int \<Rightarrow> string \<Rightarrow> string option \<Rightarrow> case_db \<Rightarrow> case_db" where
  "append_event case_id ts sq kind txt db =
     db\<lparr>cd_events := cd_events db @
          [\<lparr>ce_case = case_id, ce_ts = ts, ce_seq = sq, ce_kind = kind, ce_text = bound txt\<rparr>]\<rparr>"

definition case_exists :: "string \<Rightarrow> case_db \<Rightarrow> bool" where
  "case_exists case_id db = (map_of (cd_cases db) case_id \<noteq> None)"

definition link_exists :: "string \<Rightarrow> string \<Rightarrow> case_db \<Rightarrow> bool" where
  "link_exists case_id alert_id db = (map_of (cd_links db) (case_id, alert_id) \<noteq> None)"

definition attach :: "string \<Rightarrow> string \<Rightarrow> datetime \<Rightarrow> int \<Rightarrow> case_db \<Rightarrow> bool \<times> case_db" where
  "attach case_id alert_id ts sq db =
     (if link_exists case_id alert_id db then (False, db)
      else (True, append_event case_id ts sq ''alert_attached'' (Some alert_id)
                    (db\<lparr>cd_links := AList.update (case_id, alert_id) ts (cd_links db)\<rparr>)))"

text \<open>A repeated case id violates the primary key: the transaction is rolled back and the call raises
  (\<open>None\<close>).\<close>

definition open_case ::
  "string \<Rightarrow> datetime \<Rightarrow> string \<Rightarrow> string option \<Rightarrow> case_db \<Rightarrow> case_db option" where
  "open_case case_id now alert_id title db =
     (let t = (case title of
                 Some t \<Rightarrow> t
               | None \<Rightarrow> (case map_of (cd_alerts db) alert_id of
                            Some r \<Rightarrow> aw_short r
                          | None \<Rightarrow> ''Case '' @ take 8 case_id))
      in if case_exists case_id db then None
         else Some (snd (attach case_id alert_id now 1
                (append_event case_id now 0 ''opened'' None
                  (db\<lparr>cd_cases := AList.update case_id
                       \<lparr>cs_title = take MAX_TEXT t, cs_status = ''open'', cs_opened_at = now,
                        cs_closed_at = None\<rparr> (cd_cases db)\<rparr>)))))"

definition attach_alert :: "datetime \<Rightarrow> string \<Rightarrow> string \<Rightarrow> case_db \<Rightarrow> case_db" where
  "attach_alert now case_id alert_id db =
     (if \<not> case_exists case_id db then db else snd (attach case_id alert_id now 0 db))"

definition add_note :: "datetime \<Rightarrow> string \<Rightarrow> string \<Rightarrow> case_db \<Rightarrow> case_db" where
  "add_note now case_id txt db =
     (if \<not> case_exists case_id db then db else append_event case_id now 0 ''note'' (Some txt) db)"

definition append_timeline :: "datetime \<Rightarrow> string \<Rightarrow> string \<Rightarrow> string option \<Rightarrow> case_db \<Rightarrow> case_db" where
  "append_timeline now case_id kind txt db =
     (if \<not> case_exists case_id db then db else append_event case_id now 0 kind txt db)"

definition close_case :: "datetime \<Rightarrow> string \<Rightarrow> case_db \<Rightarrow> case_db" where
  "close_case now case_id db =
     (case map_of (cd_cases db) case_id of
        None \<Rightarrow> db
      | Some r \<Rightarrow>
          if cs_status r = ''closed'' then db
          else append_event case_id now 0 ''closed'' None
                 (db\<lparr>cd_cases := AList.update case_id
                      (r\<lparr>cs_status := ''closed'', cs_closed_at := Some now\<rparr>) (cd_cases db)\<rparr>))"

text \<open>The listing, newest first, with the number of linked alerts.\<close>

definition list_cases :: "case_db \<Rightarrow> (string \<times> case_row \<times> nat) list" where
  "list_cases db =
     map (\<lambda>(i, r). (i, r, length (filter (\<lambda>((c, _), _). c = i) (cd_links db))))
       (sort_key (\<lambda>(_, r). - cs_opened_at r) (cd_cases db))"

text \<open>One alert of a case: the left join keeps a link whose alert was pruned.\<close>

record case_alert =
  ca_id :: string
  ca_row :: "alert_row option"

record case_detail =
  dt_case :: case_row
  dt_alerts :: "case_alert list"
  dt_timeline :: "case_event list"
  dt_evidence :: "(evidence_key \<times> datetime \<times> pyval option) list"

definition get_case :: "string \<Rightarrow> case_db \<Rightarrow> case_detail option" where
  "get_case case_id db =
     map_option (\<lambda>r.
       \<lparr>dt_case = r,
        dt_alerts = map (\<lambda>((_, a), _). \<lparr>ca_id = a, ca_row = map_of (cd_alerts db) a\<rparr>)
          (sort_key snd (filter (\<lambda>((c, _), _). c = case_id) (cd_links db))),
        dt_timeline = sort_key ce_ts (sort_key ce_seq (filter (\<lambda>e. ce_case e = case_id) (cd_events db))),
        dt_evidence = map (\<lambda>(k, e). (k, ew_captured_at e,
             case ew_meta e of
               None \<Rightarrow> Some (PDict [])
             | Some m \<Rightarrow> if m = [] then Some (PDict []) else json_loads m))
          (sort_key (\<lambda>(_, e). ew_captured_at e)
            (sort_key (\<lambda>(k, _). fst (snd k)) (sort_key (\<lambda>(k, _). ek_sha k)
              (filter (\<lambda>(k, _). ek_case k = case_id) (cd_evidence db)))))\<rparr>)
       (map_of (cd_cases db) case_id)"

section \<open>IPC handlers\<close>

text \<open>\<open>None\<close> is the client-facing \<^verbatim>\<open>IpcParamError\<close> naming the missing parameter.\<close>

definition required :: "(pyval \<Rightarrow> string) \<Rightarrow> pydict \<Rightarrow> string \<Rightarrow> string option" where
  "required ostr params key =
     (let v = dget params key in if v = PNone \<or> v = PStr '''' then None else Some (py_str ostr v))"

definition audit_note ::
  "(string \<Rightarrow> string) \<Rightarrow> audit_call \<Rightarrow> string \<Rightarrow> string \<Rightarrow> string \<Rightarrow> string \<Rightarrow> case_db \<Rightarrow> case_db" where
  "audit_note sha env actor act target details db =
     db\<lparr>cd_audit := fst (append_audit sha
          (env\<lparr>ac_actor := actor, ac_action := act, ac_target := Some target, ac_details := details\<rparr>)
          (cd_audit db))\<rparr>"

datatype case_reply = Missing_param | Case_raised | Case_ok | Case_opened string

text \<open>\<open>details\<close> is the text of \<^verbatim>\<open>json.dumps\<close> on the details dictionary, as in \<open>append_audit\<close>.\<close>

definition details_of :: "pydict \<Rightarrow> string" where
  "details_of d = (case json_dumps (\<lambda>_. '''') (\<lambda>_. None) (PDict d) of None \<Rightarrow> '''' | Some t \<Rightarrow> t)"

definition handle_open_case ::
  "(string \<Rightarrow> string) \<Rightarrow> (pyval \<Rightarrow> string) \<Rightarrow> audit_call \<Rightarrow> string \<Rightarrow> datetime \<Rightarrow> pydict \<Rightarrow> case_db \<Rightarrow> case_db \<times> case_reply" where
  "handle_open_case sha ostr env case_id now params db =
     (case required ostr params ''alert_id'' of
        None \<Rightarrow> (db, Missing_param)
      | Some alert_id \<Rightarrow>
          (case (case dget params ''title'' of PNone \<Rightarrow> Inr None | PStr t \<Rightarrow> Inr (Some t) | _ \<Rightarrow> Inl ()) of
             Inl _ \<Rightarrow> (db, Case_raised)
           | Inr title \<Rightarrow>
               (case open_case case_id now alert_id title db of
                  None \<Rightarrow> (db, Case_raised)
                | Some db' \<Rightarrow>
                    (audit_note sha env ''user:local'' ''case_opened'' (''case:'' @ case_id)
                       (details_of [(''title'', case map_of (cd_cases db') case_id of
                                                  None \<Rightarrow> PNone | Some r \<Rightarrow> PStr (cs_title r))]) db',
                     Case_opened case_id))))"

text \<open>The store ignores an unknown case and the reply is the same; only the audit row depends on it.\<close>

definition audit_if_exists ::
  "(string \<Rightarrow> string) \<Rightarrow> audit_call \<Rightarrow> string \<Rightarrow> string \<Rightarrow> string \<Rightarrow> bool \<Rightarrow> case_db \<Rightarrow> case_db" where
  "audit_if_exists sha env act case_id details existed db =
     (if existed then audit_note sha env ''user:local'' act (''case:'' @ case_id) details db else db)"

definition handle_attach_alert ::
  "(string \<Rightarrow> string) \<Rightarrow> (pyval \<Rightarrow> string) \<Rightarrow> audit_call \<Rightarrow> datetime \<Rightarrow> pydict \<Rightarrow> case_db \<Rightarrow> case_db \<times> case_reply" where
  "handle_attach_alert sha ostr env now params db =
     (case (required ostr params ''case_id'', required ostr params ''alert_id'') of
        (Some case_id, Some alert_id) \<Rightarrow>
          (audit_if_exists sha env ''case_alert_attached'' case_id (details_of [(''alert_id'', PStr alert_id)])
             (case_exists case_id db) (attach_alert now case_id alert_id db), Case_ok)
      | _ \<Rightarrow> (db, Missing_param))"

definition handle_add_note ::
  "(string \<Rightarrow> string) \<Rightarrow> (pyval \<Rightarrow> string) \<Rightarrow> audit_call \<Rightarrow> datetime \<Rightarrow> pydict \<Rightarrow> case_db \<Rightarrow> case_db \<times> case_reply" where
  "handle_add_note sha ostr env now params db =
     (case (required ostr params ''case_id'', required ostr params ''text'') of
        (Some case_id, Some txt) \<Rightarrow>
          (audit_if_exists sha env ''case_note_added'' case_id (details_of [])
             (case_exists case_id db) (add_note now case_id txt db), Case_ok)
      | _ \<Rightarrow> (db, Missing_param))"

definition handle_close_case ::
  "(string \<Rightarrow> string) \<Rightarrow> (pyval \<Rightarrow> string) \<Rightarrow> audit_call \<Rightarrow> datetime \<Rightarrow> pydict \<Rightarrow> case_db \<Rightarrow> case_db \<times> case_reply" where
  "handle_close_case sha ostr env now params db =
     (case required ostr params ''case_id'' of
        None \<Rightarrow> (db, Missing_param)
      | Some case_id \<Rightarrow>
          (audit_if_exists sha env ''case_closed'' case_id (details_of [])
             (case_exists case_id db) (close_case now case_id db), Case_ok))"

definition handle_list_cases :: "case_db \<Rightarrow> (string \<times> case_row \<times> nat) list" where
  "handle_list_cases db = list_cases db"

definition handle_get_case :: "(pyval \<Rightarrow> string) \<Rightarrow> pydict \<Rightarrow> case_db \<Rightarrow> case_detail option option" where
  "handle_get_case ostr params db =
     map_option (\<lambda>case_id. get_case case_id db) (required ostr params ''case_id'')"

end
