(* ===== verification/Evidence.thy ===== *)
theory Evidence
  imports Cases
begin

text \<open>
  Forensic evidence: the content-addressed blob store (\<^verbatim>\<open>evidence/store.py\<close>), the guarded read of an
  implicated file (\<^verbatim>\<open>evidence/capture.py\<close>) and the collector that opens a case for a severe alert and
  records what it could capture (\<^verbatim>\<open>evidence/collector.py\<close>).
\<close>

section \<open>JSON text with the default separators\<close>

text \<open>\<^verbatim>\<open>json.dumps(v)\<close>: insertion order, \<^verbatim>\<open>", "\<close> and \<^verbatim>\<open>": "\<close>. It is used on JSON values only (literals of the
  collector and parsed text), so the last equation is never reached.\<close>

fun json_text :: "(real \<Rightarrow> string) \<Rightarrow> pyval \<Rightarrow> string" where
  "json_text fl PNone = ''null''"
| "json_text fl (PBool b) = (if b then ''true'' else ''false'')"
| "json_text fl (PInt i) = int_str i"
| "json_text fl (PFloat r) = fl r"
| "json_text fl (PStr s) = json_str s"
| "json_text fl (PList xs) = ''['' @ join_with '', '' (map (json_text fl) xs) @ '']''"
| "json_text fl (PDict d) =
     ''{'' @ join_with '', '' (map (\<lambda>(k, v). json_str k @ '': '' @ json_text fl v) d) @ ''}''"
| "json_text fl v = ''''"

section \<open>The blob store\<close>

text \<open>\<^verbatim>\<open>path_for(sha).exists()\<close>, and \<^verbatim>\<open>put\<close>: identical content is stored once.\<close>

definition has_blob :: "case_db \<Rightarrow> string \<Rightarrow> bool" where
  "has_blob db h = (map_of (cd_blobs db) h \<noteq> None)"

definition store_put :: "(string \<Rightarrow> string) \<Rightarrow> string \<Rightarrow> case_db \<Rightarrow> string \<times> case_db" where
  "store_put sha data db =
     (let h = sha data
      in (h, if has_blob db h then db else db\<lparr>cd_blobs := AList.update h data (cd_blobs db)\<rparr>))"

text \<open>The streaming loop over the chunks \<^verbatim>\<open>os.read\<close> returns; an empty chunk is the end of the file and
  \<open>None\<close> is \<^verbatim>\<open>BlobTooLarge\<close>.\<close>

fun read_chunks :: "nat \<Rightarrow> string list \<Rightarrow> string \<Rightarrow> string option" where
  "read_chunks max_bytes [] acc = Some acc"
| "read_chunks max_bytes (c # cs) acc =
     (if c = [] then Some acc
      else if length acc + length c > max_bytes then None
      else read_chunks max_bytes cs (acc @ c))"

definition put_stream ::
  "(string \<Rightarrow> string) \<Rightarrow> nat \<Rightarrow> string list \<Rightarrow> case_db \<Rightarrow> (string \<times> nat \<times> case_db) option" where
  "put_stream sha max_bytes chunks db =
     (case read_chunks max_bytes chunks [] of
        None \<Rightarrow> None
      | Some data \<Rightarrow> (case store_put sha data db of (h, db') \<Rightarrow> Some (h, length data, db')))"

section \<open>Reading an implicated file\<close>

definition MAX_CAPTURE_BYTES :: nat where "MAX_CAPTURE_BYTES = 32 * 1024 * 1024"

definition DENY_PREFIXES :: "string list" where
  "DENY_PREFIXES = [''/proc'', ''/sys'', ''/dev'', ''/etc/shadow'', ''/etc/gshadow'', ''/root/.ssh'']"

text \<open>\<open>realpath\<close> is the resolution of symbolic links by the file system.\<close>

definition path_allowed :: "(string \<Rightarrow> string) \<Rightarrow> string \<Rightarrow> bool" where
  "path_allowed realpath path =
     (startswith path ''/'' \<and> ''..'' \<notin> set (split_on (CHR ''/'') path)
      \<and> list_all (\<lambda>d. realpath path \<noteq> d \<and> \<not> startswith (realpath path) (d @ ''/'')) DENY_PREFIXES)"

datatype read_result = Chunk string | Would_block | Read_error

text \<open>The bounded loop: \<open>rs\<close> are the results of the successive \<^verbatim>\<open>os.read\<close> calls, \<open>None\<close> is an \<^verbatim>\<open>OSError\<close>.\<close>

fun read_loop :: "int \<Rightarrow> read_result list \<Rightarrow> string \<Rightarrow> string option" where
  "read_loop remaining [] acc = Some acc"
| "read_loop remaining (r # rs) acc =
     (if remaining \<le> 0 then Some acc
      else case r of
             Would_block \<Rightarrow> Some acc
           | Read_error \<Rightarrow> None
           | Chunk c \<Rightarrow> if c = [] then Some acc else read_loop (remaining - int (length c)) rs (acc @ c))"

text \<open>What the file system answers for a path.\<close>

record file_probe =
  fp_opens :: bool
  fp_regular :: bool
  fp_reads :: "read_result list"

definition read_capture :: "(string \<Rightarrow> string) \<Rightarrow> nat \<Rightarrow> file_probe \<Rightarrow> string \<Rightarrow> string option" where
  "read_capture realpath max_bytes fp path =
     (if \<not> path_allowed realpath path \<or> \<not> fp_opens fp \<or> \<not> fp_regular fp then None
      else read_loop (int max_bytes) (fp_reads fp) [])"

section \<open>The collector\<close>

definition MAX_FILES :: nat where "MAX_FILES = 16"
definition MAX_TOTAL_BYTES :: nat where "MAX_TOTAL_BYTES = 128 * 1024 * 1024"

definition severe :: "severity \<Rightarrow> bool" where
  "severe s = (s \<in> {High, Critical})"

fun keep_first :: "'a list \<Rightarrow> 'a list \<Rightarrow> 'a list" where
  "keep_first seen [] = []"
| "keep_first seen (x # xs) = (if x \<in> set seen then keep_first seen xs else x # keep_first (x # seen) xs)"

definition event_paths :: "pyval list \<Rightarrow> string list" where
  "event_paths vs = concat (map (\<lambda>v. case v of PStr p \<Rightarrow> if p \<noteq> [] then [p] else [] | _ \<Rightarrow> []) vs)"

definition implicated_paths :: "alert \<Rightarrow> event \<Rightarrow> string list" where
  "implicated_paths a e =
     keep_first []
       (event_paths [bget (ev_file e) ''path'', bget (ev_persistence e) ''source_path'']
        @ map ent_key (filter (\<lambda>n. ent_kind n = ''file'' \<and> ent_key n \<noteq> []) (al_entities a)))"

definition event_pid :: "event \<Rightarrow> int option" where
  "event_pid e = (case bget (ev_process e) ''pid'' of PNone \<Rightarrow> None | v \<Rightarrow> int_of v)"

text \<open>
  One capture: the fresh case id, clock readings, and what the host yields. \<open>None\<close> for the snapshots
  and \<open>File_raises\<close> for a file are exceptions the collector logs and survives; \<open>File_none\<close> is a refused or
  unreadable path.
\<close>

datatype file_read = File_none | File_raises | File_data string

record capture_env =
  cv_case_id :: string
  cv_clock :: "nat \<Rightarrow> datetime"
  cv_audit :: audit_call
  cv_net :: "(string \<times> int \<times> bool) option"
  cv_bundle :: "string option"
  cv_tree :: "int \<Rightarrow> (string \<times> int \<times> bool) option"
  cv_realpath :: "string \<Rightarrow> string"
  cv_probe :: "string \<Rightarrow> file_probe"
  cv_raises :: "string \<Rightarrow> bool"
  cv_late :: "nat \<Rightarrow> bool"

definition meta_text :: "pydict \<Rightarrow> string option" where
  "meta_text d = Some (json_text (\<lambda>_. '''') (PDict d))"

text \<open>\<^verbatim>\<open>INSERT ... ON CONFLICT DO NOTHING\<close>.\<close>

definition insert_evidence ::
  "datetime \<Rightarrow> string \<Rightarrow> string \<Rightarrow> string \<Rightarrow> string \<Rightarrow> pydict \<Rightarrow> case_db \<Rightarrow> case_db" where
  "insert_evidence now case_id kind h path meta db =
     (let k = (case_id, kind, h, path)
      in if map_of (cd_evidence db) k \<noteq> None then db
         else db\<lparr>cd_evidence := AList.update k
                  \<lparr>ew_captured_at = now, ew_meta = meta_text meta\<rparr> (cd_evidence db)\<rparr>)"

text \<open>Store a blob and record it: the step every artefact shares.\<close>

definition record_blob ::
  "(string \<Rightarrow> string) \<Rightarrow> datetime \<Rightarrow> string \<Rightarrow> string \<Rightarrow> string \<Rightarrow> pydict \<Rightarrow> string \<Rightarrow> case_db \<Rightarrow> case_db" where
  "record_blob sha now case_id kind path meta data db =
     (case store_put sha data db of (h, db') \<Rightarrow> insert_evidence now case_id kind h path meta db')"

definition capture_net :: "(string \<Rightarrow> string) \<Rightarrow> capture_env \<Rightarrow> string \<Rightarrow> case_db \<Rightarrow> bool \<times> case_db" where
  "capture_net sha env aid db =
     (case cv_net env of
        None \<Rightarrow> (False, db)
      | Some (data, n, tr) \<Rightarrow>
          (True, record_blob sha (cv_clock env 1) (cv_case_id env) ''net_state'' ''''
             [(''socket_count'', PInt n), (''truncated'', PBool tr), (''alert_id'', PStr aid)] data db))"

definition capture_bundle :: "(string \<Rightarrow> string) \<Rightarrow> capture_env \<Rightarrow> event \<Rightarrow> string \<Rightarrow> case_db \<Rightarrow> bool \<times> case_db" where
  "capture_bundle sha env e aid db =
     (case cv_bundle env of
        None \<Rightarrow> (False, db)
      | Some data \<Rightarrow>
          (True, record_blob sha (cv_clock env 2) (cv_case_id env) ''event_bundle'' ''''
             [(''event_id'', PStr (ev_id e)), (''alert_id'', PStr aid)] data db))"

definition capture_tree :: "(string \<Rightarrow> string) \<Rightarrow> capture_env \<Rightarrow> event \<Rightarrow> string \<Rightarrow> case_db \<Rightarrow> int option \<times> case_db" where
  "capture_tree sha env e aid db =
     (case event_pid e of
        None \<Rightarrow> (None, db)
      | Some pid \<Rightarrow>
          (case cv_tree env pid of
             None \<Rightarrow> (None, db)
           | Some (data, n, tr) \<Rightarrow>
               (Some n, record_blob sha (cv_clock env 3) (cv_case_id env) ''process_tree'' ''''
                  [(''root_pid'', PInt pid), (''nodes'', PInt n), (''truncated'', PBool tr),
                   (''alert_id'', PStr aid)] data db)))"

definition file_read_of :: "capture_env \<Rightarrow> string \<Rightarrow> file_read" where
  "file_read_of env p =
     (if cv_raises env p then File_raises
      else case read_capture (cv_realpath env) MAX_CAPTURE_BYTES (cv_probe env p) p of
             None \<Rightarrow> File_none | Some data \<Rightarrow> File_data data)"

text \<open>The loop over the implicated files: number captured, bytes captured, bounds hit.\<close>

fun capture_files ::
  "(string \<Rightarrow> string) \<Rightarrow> capture_env \<Rightarrow> string \<Rightarrow> nat \<Rightarrow> string list \<Rightarrow> nat \<Rightarrow> nat \<Rightarrow> case_db \<Rightarrow> nat \<times> nat \<times> bool \<times> case_db" where
  "capture_files sha env aid i [] n tot db = (n, tot, False, db)"
| "capture_files sha env aid i (p # ps) n tot db =
     (if n \<ge> MAX_FILES \<or> tot \<ge> MAX_TOTAL_BYTES \<or> cv_late env i then (n, tot, True, db)
      else case file_read_of env p of
             File_data data \<Rightarrow>
               capture_files sha env aid (Suc i) ps (Suc n) (tot + length data)
                 (record_blob sha (cv_clock env (4 + i)) (cv_case_id env) ''file'' p
                    [(''size'', PInt (int (length data))),
                     (''truncated'', PBool (length data \<ge> MAX_CAPTURE_BYTES)), (''alert_id'', PStr aid)] data db)
           | _ \<Rightarrow> capture_files sha env aid (Suc i) ps n tot db)"

text \<open>The dash of the summary is U+2014 in the source, which \<open>char\<close> does not have.\<close>

definition capture_summary :: "nat \<Rightarrow> bool \<Rightarrow> bool \<Rightarrow> int option \<Rightarrow> bool \<Rightarrow> string" where
  "capture_summary n net bundle tree partial =
     ''captured '' @ join_with '', ''
       ([nat_str n @ '' file(s)''] @ (if net then [''net snapshot''] else [])
        @ (if bundle then [''event bundle''] else [])
        @ (case tree of None \<Rightarrow> [] | Some k \<Rightarrow> [''process tree ('' @ int_str k @ '' nodes)'']))
     @ (if partial then '' (partial - bounds hit)'' else '''')"

text \<open>
  \<^verbatim>\<open>_capture\<close> under the collector's lock. An alert that is already linked to a case is left alone;
  otherwise a case is opened (and stays, whatever fails later), the opening is audited and each
  artefact is captured on its own. \<open>None\<close> is an exception of \<open>open_case\<close>.
\<close>

definition collect ::
  "(string \<Rightarrow> string) \<Rightarrow> capture_env \<Rightarrow> alert \<Rightarrow> event \<Rightarrow> case_db \<Rightarrow> case_db option" where
  "collect sha env a e db =
     (if list_ex (\<lambda>((_, x), _). x = al_id a) (cd_links db) then Some db
      else case open_case (cv_case_id env) (cv_clock env 0) (al_id a) (Some (rend_short (al_rendered a))) db of
             None \<Rightarrow> None
           | Some db0 \<Rightarrow>
               (let aid = al_id a;
                    db1 = audit_note sha (cv_audit env) ''auto:evidence_collector'' ''case_opened''
                            (''case:'' @ cv_case_id env) (details_of [(''auto'', PBool True), (''alert_id'', PStr aid)]) db0;
                    (net, db2) = capture_net sha env aid db1;
                    (bundle, db3) = capture_bundle sha env e aid db2;
                    (tree, db4) = capture_tree sha env e aid db3;
                    (n, tot, partial, db5) = capture_files sha env aid 0 (implicated_paths a e) 0 0 db4
                in Some (append_timeline (cv_clock env (4 + length (implicated_paths a e))) (cv_case_id env)
                           ''evidence_captured'' (Some (capture_summary n net bundle tree partial)) db5)))"

text \<open>\<^verbatim>\<open>capture\<close>: only severe alerts, and no exception reaches the fan-out.\<close>

definition capture :: "(string \<Rightarrow> string) \<Rightarrow> capture_env \<Rightarrow> alert \<Rightarrow> event \<Rightarrow> case_db \<Rightarrow> case_db" where
  "capture sha env a e db =
     (if \<not> severe (al_severity a) then db
      else case collect sha env a e db of None \<Rightarrow> db | Some db' \<Rightarrow> db')"

end
