(* ===== verification/Retention.thy ===== *)
theory Retention
  imports Evidence Storage "HOL-Library.Product_Lexorder" "HOL-Library.Multiset"
begin

text \<open>
  The retention pruners of \<^verbatim>\<open>retention/engine.py\<close>: events, journal files, alerts and forensic blobs, and
  the run that calls them one after the other. Times are UTC, so the check that \<^verbatim>\<open>now\<close> carries a time
  zone is left out. A date is its proleptic ordinal (\<^verbatim>\<open>date.toordinal\<close>).

  SQL leaves the order in which a query without \<^verbatim>\<open>ORDER BY\<close> yields rows open: \<open>scan\<close> is that order, any
  permutation.
\<close>

section \<open>Dates\<close>

definition day_of :: "datetime \<Rightarrow> int" where
  "day_of t = t div days 1 + 719163"

definition is_leap :: "int \<Rightarrow> bool" where
  "is_leap y = (4 dvd y \<and> (\<not> 100 dvd y \<or> 400 dvd y))"

definition days_in_month :: "int \<Rightarrow> int \<Rightarrow> int" where
  "days_in_month y m = (if m = 2 then (if is_leap y then 29 else 28) else if m \<in> {4, 6, 9, 11} then 30 else 31)"

definition ymd_ordinal :: "int \<Rightarrow> int \<Rightarrow> int \<Rightarrow> int" where
  "ymd_ordinal y m d =
     (y - 1) * 365 + (y - 1) div 4 - (y - 1) div 100 + (y - 1) div 400
     + sum_list (map (days_in_month y) [1..m - 1]) + d"

definition date_of_ymd :: "int \<Rightarrow> int \<Rightarrow> int \<Rightarrow> int option" where
  "date_of_ymd y m d =
     (if 1 \<le> y \<and> 1 \<le> m \<and> m \<le> 12 \<and> 1 \<le> d \<and> d \<le> days_in_month y m then Some (ymd_ordinal y m d) else None)"

text \<open>The Monday of ISO week 1, and a date given by ISO year, week and day.\<close>

definition iso_week1_monday :: "int \<Rightarrow> int" where
  "iso_week1_monday y =
     (let first = ymd_ordinal y 1 1; wd = (first + 6) mod 7
      in if wd > 3 then first - wd + 7 else first - wd)"

definition date_of_week :: "int \<Rightarrow> int \<Rightarrow> int \<Rightarrow> int option" where
  "date_of_week y w d =
     (let wd = (ymd_ordinal y 1 1 + 6) mod 7;
          long = (wd = 3 \<or> (wd = 2 \<and> is_leap y));
          r = iso_week1_monday y + (w - 1) * 7 + d - 1
      in if 1 \<le> y \<and> 1 \<le> w \<and> (w \<le> 52 \<or> (w = 53 \<and> long)) \<and> 1 \<le> d \<and> d \<le> 7
            \<and> 1 \<le> r \<and> r \<le> 3652059 then Some r else None)"

text \<open>\<^verbatim>\<open>date.fromisoformat\<close>: \<^verbatim>\<open>YYYY-MM-DD\<close>, \<^verbatim>\<open>YYYYMMDD\<close>, and the week forms.\<close>

definition num_at :: "string \<Rightarrow> nat \<Rightarrow> nat \<Rightarrow> int option" where
  "num_at s i n =
     (let t = take n (drop i s)
      in if length t = n \<and> list_all ascii_digit t then Some (int (digits_value t)) else None)"

definition char_at :: "string \<Rightarrow> nat \<Rightarrow> char \<Rightarrow> bool" where
  "char_at s i c = (i < length s \<and> s ! i = c)"

definition fromisoformat :: "string \<Rightarrow> int option" where
  "fromisoformat s =
     (let dash = char_at s 4 (CHR ''-''); p = (if dash then 5 else 4); week = char_at s p (CHR ''W'')
      in if week then
           (case (num_at s 0 4, num_at s (p + 1) 2) of
              (Some y, Some w) \<Rightarrow>
                if length s = p + 3 then date_of_week y w 1
                else if dash \<and> length s = 10 \<and> char_at s 8 (CHR ''-'')
                  then Option.bind (num_at s 9 1) (date_of_week y w)
                else if \<not> dash \<and> length s = 8 then Option.bind (num_at s 7 1) (date_of_week y w)
                else None
            | _ \<Rightarrow> None)
         else if dash \<and> length s = 10 \<and> char_at s 7 (CHR ''-'') then
           (case (num_at s 0 4, num_at s 5 2, num_at s 8 2) of
              (Some y, Some m, Some d) \<Rightarrow> date_of_ymd y m d | _ \<Rightarrow> None)
         else if \<not> dash \<and> length s = 8 then
           (case (num_at s 0 4, num_at s 4 2, num_at s 6 2) of
              (Some y, Some m, Some d) \<Rightarrow> date_of_ymd y m d | _ \<Rightarrow> None)
         else None)"

section \<open>Events\<close>

definition EVENTS_DELETE_CHUNK :: nat where "EVENTS_DELETE_CHUNK = 10000"

text \<open>The rows a chunk may delete: expired, and not the newest audit anchor.\<close>

definition prunable :: "datetime \<Rightarrow> event_row list \<Rightarrow> event_row list" where
  "prunable cutoff rows =
     filter (\<lambda>r. er_ts r < cutoff \<and> map_option er_id (newest_head rows) \<noteq> Some (er_id r)) rows"

definition delete_chunk ::
  "(event_row list \<Rightarrow> event_row list) \<Rightarrow> datetime \<Rightarrow> nat \<Rightarrow> event_row list \<Rightarrow> event_row list" where
  "delete_chunk scan cutoff limit rows =
     (let victims = er_id ` set (take limit (scan (prunable cutoff rows)))
      in filter (\<lambda>r. er_id r \<notin> victims) rows)"

function prune_loop ::
  "(event_row list \<Rightarrow> event_row list) \<Rightarrow> datetime \<Rightarrow> nat \<Rightarrow> nat \<Rightarrow> event_row list \<Rightarrow> nat \<times> event_row list" where
  "prune_loop scan cutoff max_rows deleted rows =
     (if deleted < max_rows then
        (let limit = min EVENTS_DELETE_CHUNK (max_rows - deleted);
             rows' = delete_chunk scan cutoff limit rows;
             chunk = length rows - length rows'
         in if chunk < limit then (deleted + chunk, rows')
            else prune_loop scan cutoff max_rows (deleted + chunk) rows')
      else (deleted, rows))"
  by pat_completeness auto
termination
  by (relation "measure (\<lambda>(_, _, m, d, _). m - d)") (auto simp: EVENTS_DELETE_CHUNK_def)

declare prune_loop.simps [simp del]

definition prune_events ::
  "(event_row list \<Rightarrow> event_row list) \<Rightarrow> datetime \<Rightarrow> int \<Rightarrow> nat \<Rightarrow> event_row list \<Rightarrow> nat \<times> event_row list" where
  "prune_events scan now keep_days max_rows rows = prune_loop scan (now - days keep_days) max_rows 0 rows"

section \<open>Journal files\<close>

definition JOURNAL_SUFFIX :: string where "JOURNAL_SUFFIX = ''.jsonl.gz''"

record dir_entry =
  de_is_file :: bool
  de_size :: nat

type_synonym directory = "(string, dir_entry) table"

record journal_prune_result =
  jp_files_deleted :: nat
  jp_skipped_files :: "string list"
  jp_quota_overage_bytes :: int

definition removesuffix :: "string \<Rightarrow> string \<Rightarrow> string" where
  "removesuffix s suf = (if endswith s suf then take (length s - length suf) s else s)"

definition critical_alert_days :: "alerts \<Rightarrow> int list" where
  "critical_alert_days t =
     map (\<lambda>(_, r). day_of (aw_ts r)) (filter (\<lambda>(_, r). aw_severity r = ''critical'') t)"

definition journal_names :: "directory \<Rightarrow> string list" where
  "journal_names dir =
     map fst (filter (\<lambda>(n, d). endswith n JOURNAL_SUFFIX \<and> de_is_file d) (sort_key fst dir))"

definition file_date :: "string \<Rightarrow> int option" where
  "file_date name = fromisoformat (removesuffix name JOURNAL_SUFFIX)"

definition dated_files :: "directory \<Rightarrow> (int \<times> string) list" where
  "dated_files dir = concat (map (\<lambda>n. case file_date n of None \<Rightarrow> [] | Some d \<Rightarrow> [(d, n)]) (journal_names dir))"

definition unparseable :: "directory \<Rightarrow> string list" where
  "unparseable dir = filter (\<lambda>n. file_date n = None) (journal_names dir)"

definition file_size :: "directory \<Rightarrow> string \<Rightarrow> nat" where
  "file_size dir n = (case map_of dir n of None \<Rightarrow> 0 | Some d \<Rightarrow> de_size d)"

text \<open>
  The age pass; \<open>busy\<close> are the names whose \<^verbatim>\<open>unlink\<close> raises, which ends the whole pruner with the
  deletions made so far (flag \<open>True\<close>).
\<close>

fun age_pass ::
  "(string \<Rightarrow> bool) \<Rightarrow> (int \<Rightarrow> bool) \<Rightarrow> (int \<times> string) list \<Rightarrow> nat \<Rightarrow> directory \<Rightarrow> bool \<times> nat \<times> (int \<times> string) list \<times> directory" where
  "age_pass busy expired [] n dir = (False, n, [], dir)"
| "age_pass busy expired ((d, f) # fs) n dir =
     (if expired d then
        (if busy f then (True, n, [], dir)
         else age_pass busy expired fs (Suc n) (delete_where (\<lambda>k _. k = f) dir))
      else (case age_pass busy expired fs n dir of (err, m, rest, dir') \<Rightarrow> (err, m, (d, f) # rest, dir')))"

fun quota_pass ::
  "(string \<Rightarrow> bool) \<Rightarrow> int \<Rightarrow> (int \<times> string) list \<Rightarrow> int \<Rightarrow> nat \<Rightarrow> directory \<Rightarrow> bool \<times> int \<times> nat \<times> directory" where
  "quota_pass busy quota [] usage n dir = (False, usage, n, dir)"
| "quota_pass busy quota ((d, f) # fs) usage n dir =
     (if usage \<le> quota then (False, usage, n, dir)
      else if busy f then (True, usage, n, dir)
      else quota_pass busy quota fs (usage - int (file_size dir f)) (Suc n) (delete_where (\<lambda>k _. k = f) dir))"

definition prune_journal_files ::
  "(string \<Rightarrow> bool) \<Rightarrow> datetime \<Rightarrow> int \<Rightarrow> int \<Rightarrow> int \<Rightarrow> alerts \<Rightarrow> directory \<Rightarrow> directory \<times> journal_prune_result option" where
  "prune_journal_files busy now keep_days quota_mb floor_days al dir =
     (let today = day_of now;
          protected = (\<lambda>d. d \<in> set (critical_alert_days al) \<or> d = today);
          (err1, n, remaining, dir1) =
            age_pass busy (\<lambda>d. d < today - keep_days \<and> \<not> protected d) (dated_files dir) 0 dir
      in if err1 then (dir1, None)
         else
           (let quota = quota_mb * 2 ^ 20;
                usage = int (sum_list (map (\<lambda>(_, f). file_size dir1 f) remaining)
                             + sum_list (map (file_size dir1) (unparseable dir)));
                deletable = sort (filter (\<lambda>(d, _). d < today - floor_days \<and> \<not> protected d) remaining);
                (err2, usage', n', dir2) = quota_pass busy quota deletable usage n dir1
            in if err2 then (dir2, None)
               else (dir2, Some \<lparr>jp_files_deleted = n', jp_skipped_files = unparseable dir,
                                 jp_quota_overage_bytes = (if usage' > quota then usage' - quota else 0)\<rparr>)))"

section \<open>Alerts\<close>

definition in_open_case :: "case_db \<Rightarrow> string \<Rightarrow> bool" where
  "in_open_case db alert_id =
     list_ex (\<lambda>((c, a), _). a = alert_id \<and>
        (case map_of (cd_cases db) c of None \<Rightarrow> False | Some r \<Rightarrow> cs_status r = ''open'')) (cd_links db)"

definition prune_alerts :: "datetime \<Rightarrow> int \<Rightarrow> case_db \<Rightarrow> nat \<times> case_db" where
  "prune_alerts now keep_days db =
     (let cutoff = now - days keep_days;
          t = delete_where (\<lambda>i r. aw_last_seen r < cutoff \<and> aw_severity r \<noteq> ''critical'' \<and> \<not> in_open_case db i)
                (cd_alerts db)
      in (length (cd_alerts db) - length t, db\<lparr>cd_alerts := t\<rparr>))"

section \<open>Evidence\<close>

text \<open>\<^verbatim>\<open>meta_json LIKE '%"pruned_at"%'\<close>; in a \<^verbatim>\<open>LIKE\<close> pattern the underscore matches any character.\<close>

fun pruned_mark :: "string \<Rightarrow> bool" where
  "pruned_mark [] = False"
| "pruned_mark (c # s) =
     ((take 7 (c # s) = dquote # ''pruned'' \<and> length s \<ge> 10 \<and> take 3 (drop 8 (c # s)) = ''at'' @ [dquote])
      \<or> pruned_mark s)"

definition marked :: "evidence_row \<Rightarrow> bool" where
  "marked e = (case ew_meta e of None \<Rightarrow> False | Some m \<Rightarrow> pruned_mark m)"

definition protecting_statuses :: "string list" where
  "protecting_statuses = [''isolating'', ''active'', ''failed'', ''restoring'']"

definition has_younger_row :: "string \<Rightarrow> datetime \<Rightarrow> case_db \<Rightarrow> bool" where
  "has_younger_row h cutoff db = list_ex (\<lambda>(k, e). ek_sha k = h \<and> ew_captured_at e \<ge> cutoff) (cd_evidence db)"

definition in_unclosed_case :: "string \<Rightarrow> case_db \<Rightarrow> bool" where
  "in_unclosed_case h db =
     list_ex (\<lambda>(k, _). ek_sha k = h \<and>
        (case map_of (cd_cases db) (ek_case k) of None \<Rightarrow> False | Some r \<Rightarrow> cs_status r \<noteq> ''closed''))
       (cd_evidence db)"

definition in_critical_case :: "string \<Rightarrow> case_db \<Rightarrow> bool" where
  "in_critical_case h db =
     list_ex (\<lambda>(k, _). ek_sha k = h \<and>
        list_ex (\<lambda>((c, a), _). c = ek_case k \<and>
          (case map_of (cd_alerts db) a of None \<Rightarrow> False | Some r \<Rightarrow> aw_severity r = ''critical''))
          (cd_links db))
       (cd_evidence db)"

definition quarantine_holds :: "string \<Rightarrow> case_db \<Rightarrow> bool" where
  "quarantine_holds h db =
     list_ex (\<lambda>(_, q). qr_sha q = h \<and> qr_status q \<in> set protecting_statuses) (cd_quarantine db)"

definition evidence_candidates :: "datetime \<Rightarrow> case_db \<Rightarrow> string list" where
  "evidence_candidates cutoff db =
     sort (remdups (map (\<lambda>(k, _). ek_sha k)
       (filter (\<lambda>(k, e). ew_captured_at e < cutoff \<and> \<not> marked e \<and> \<not> quarantine_holds (ek_sha k) db)
          (cd_evidence db))))"

definition stamp_meta :: "(real \<Rightarrow> string) \<Rightarrow> string \<Rightarrow> string option \<Rightarrow> string option" where
  "stamp_meta fl pruned_at m =
     (let meta = (case m of
                    None \<Rightarrow> []
                  | Some t \<Rightarrow> (if t = [] then []
                              else case json_loads t of Some (PDict d) \<Rightarrow> d | _ \<Rightarrow> []))
      in Some (json_text fl (PDict (AList.update ''pruned_by'' (PStr ''auto:retention'')
                                     (AList.update ''pruned_at'' (PStr pruned_at) meta)))))"

definition stamp_tombstones :: "(real \<Rightarrow> string) \<Rightarrow> string \<Rightarrow> string \<Rightarrow> case_db \<Rightarrow> case_db" where
  "stamp_tombstones fl h pruned_at db =
     db\<lparr>cd_evidence := update_where (\<lambda>k _. ek_sha k = h)
          (\<lambda>e. e\<lparr>ew_meta := stamp_meta fl pruned_at (ew_meta e)\<rparr>) (cd_evidence db)\<rparr>"

definition unlink_blob :: "string \<Rightarrow> case_db \<Rightarrow> case_db" where
  "unlink_blob h db = db\<lparr>cd_blobs := delete_where (\<lambda>k _. k = h) (cd_blobs db)\<rparr>"

definition spared :: "datetime \<Rightarrow> string \<Rightarrow> case_db \<Rightarrow> bool" where
  "spared cutoff h db = (has_younger_row h cutoff db \<or> in_unclosed_case h db \<or> in_critical_case h db)"

text \<open>
  The loop over the candidates: an exception (\<open>busy\<close>, the digests whose \<^verbatim>\<open>unlink\<close> raises) ends it with the
  work done so far and the flag \<open>True\<close>; \<open>shas\<close> are the digests pruned.
\<close>

fun prune_blobs ::
  "(real \<Rightarrow> string) \<Rightarrow> (string \<Rightarrow> bool) \<Rightarrow> datetime \<Rightarrow> string \<Rightarrow> string list \<Rightarrow> case_db \<Rightarrow> bool \<times> string list \<times> case_db" where
  "prune_blobs fl busy cutoff pruned_at [] db = (False, [], db)"
| "prune_blobs fl busy cutoff pruned_at (h # hs) db =
     (if spared cutoff h db then prune_blobs fl busy cutoff pruned_at hs db
      else if has_blob db h then
        (if has_younger_row h cutoff db then prune_blobs fl busy cutoff pruned_at hs db
         else if busy h then (True, [], db)
         else (case prune_blobs fl busy cutoff pruned_at hs
                      (stamp_tombstones fl h pruned_at (unlink_blob h db)) of
                 (err, shas, db') \<Rightarrow> (err, h # shas, db')))
      else prune_blobs fl busy cutoff pruned_at hs (stamp_tombstones fl h pruned_at db))"

text \<open>Debris of crashed writes: temporary files older than a day, with their modification times.\<close>

definition TMP_DEBRIS_MAX_AGE_S :: real where "TMP_DEBRIS_MAX_AGE_S = 86400"

type_synonym debris = "(string, real) table"

definition sweep_debris :: "real \<Rightarrow> (string \<Rightarrow> bool) \<Rightarrow> debris \<Rightarrow> debris" where
  "sweep_debris clock busy t = delete_where (\<lambda>n mt. mt < clock - TMP_DEBRIS_MAX_AGE_S \<and> \<not> busy n) t"

section \<open>The daily run\<close>

record retention_config =
  rc_events_days :: int
  rc_events_max_rows :: nat
  rc_journal_days :: int
  rc_journal_quota_mb :: int
  rc_journal_floor_days :: int
  rc_alerts_days :: int
  rc_evidence_days :: int

record retention_report =
  rp_events_deleted :: nat
  rp_journal_files_deleted :: nat
  rp_alerts_deleted :: nat
  rp_evidence_blobs_deleted :: nat
  rp_pruned_shas :: "string list"
  rp_skipped_files :: "string list"
  rp_errors :: "string list"
  rp_quota_overage_bytes :: int

definition any_deletions :: "retention_report \<Rightarrow> bool" where
  "any_deletions r = (rp_events_deleted r > 0 \<or> rp_journal_files_deleted r > 0
     \<or> rp_alerts_deleted r > 0 \<or> rp_evidence_blobs_deleted r > 0)"

record retention_state =
  rs_db :: case_db
  rs_events :: event_store
  rs_journal :: directory
  rs_debris :: debris

text \<open>What the run meets: clocks, the row order, files and blobs that cannot be removed, and the text of
  the exception of each surface that fails before it starts.\<close>

record retention_env =
  rv_now :: datetime
  rv_now_iso :: string
  rv_clock :: real
  rv_scan :: "event_row list \<Rightarrow> event_row list"
  rv_float :: "real \<Rightarrow> string"
  rv_busy :: "string \<Rightarrow> bool"
  rv_fault :: "string \<Rightarrow> string option"

definition surface_error :: "string \<Rightarrow> string option \<Rightarrow> string list" where
  "surface_error surface e = (case e of None \<Rightarrow> [] | Some t \<Rightarrow> [surface @ '': '' @ t])"

definition empty_report :: retention_report where
  "empty_report =
     \<lparr>rp_events_deleted = 0, rp_journal_files_deleted = 0, rp_alerts_deleted = 0,
      rp_evidence_blobs_deleted = 0, rp_pruned_shas = [], rp_skipped_files = [], rp_errors = [],
      rp_quota_overage_bytes = 0\<rparr>"

definition run_events ::
  "retention_env \<Rightarrow> retention_config \<Rightarrow> retention_report \<times> retention_state \<Rightarrow> retention_report \<times> retention_state" where
  "run_events env cfg = (\<lambda>(rp, st).
     case rv_fault env ''events'' of
       Some t \<Rightarrow> (rp\<lparr>rp_errors := rp_errors rp @ surface_error ''events'' (Some t)\<rparr>, st)
     | None \<Rightarrow>
         (case prune_events (rv_scan env) (rv_now env) (rc_events_days cfg) (rc_events_max_rows cfg)
                 (es_rows (rs_events st)) of
            (n, rows) \<Rightarrow> (rp\<lparr>rp_events_deleted := n\<rparr>, st\<lparr>rs_events := (rs_events st)\<lparr>es_rows := rows\<rparr>\<rparr>)))"

definition run_journal ::
  "retention_env \<Rightarrow> retention_config \<Rightarrow> retention_report \<times> retention_state \<Rightarrow> retention_report \<times> retention_state" where
  "run_journal env cfg = (\<lambda>(rp, st).
     case rv_fault env ''journal'' of
       Some t \<Rightarrow> (rp\<lparr>rp_errors := rp_errors rp @ surface_error ''journal'' (Some t)\<rparr>, st)
     | None \<Rightarrow>
         (case prune_journal_files (rv_busy env) (rv_now env) (rc_journal_days cfg) (rc_journal_quota_mb cfg)
                 (rc_journal_floor_days cfg) (cd_alerts (rs_db st)) (rs_journal st) of
            (dir, None) \<Rightarrow> (rp\<lparr>rp_errors := rp_errors rp @ [''journal: OSError'']\<rparr>, st\<lparr>rs_journal := dir\<rparr>)
          | (dir, Some j) \<Rightarrow>
              (rp\<lparr>rp_journal_files_deleted := jp_files_deleted j, rp_skipped_files := jp_skipped_files j,
                  rp_quota_overage_bytes := jp_quota_overage_bytes j\<rparr>, st\<lparr>rs_journal := dir\<rparr>)))"

definition run_alerts ::
  "retention_env \<Rightarrow> retention_config \<Rightarrow> retention_report \<times> retention_state \<Rightarrow> retention_report \<times> retention_state" where
  "run_alerts env cfg = (\<lambda>(rp, st).
     case rv_fault env ''alerts'' of
       Some t \<Rightarrow> (rp\<lparr>rp_errors := rp_errors rp @ surface_error ''alerts'' (Some t)\<rparr>, st)
     | None \<Rightarrow>
         (case prune_alerts (rv_now env) (rc_alerts_days cfg) (rs_db st) of
            (n, db) \<Rightarrow> (rp\<lparr>rp_alerts_deleted := n\<rparr>, st\<lparr>rs_db := db\<rparr>)))"

text \<open>An exception inside \<^verbatim>\<open>prune_evidence\<close> also loses the counts of the blobs it had already removed.\<close>

definition run_evidence ::
  "retention_env \<Rightarrow> retention_config \<Rightarrow> retention_report \<times> retention_state \<Rightarrow> retention_report \<times> retention_state" where
  "run_evidence env cfg = (\<lambda>(rp, st).
     case rv_fault env ''evidence'' of
       Some t \<Rightarrow> (rp\<lparr>rp_errors := rp_errors rp @ surface_error ''evidence'' (Some t)\<rparr>, st)
     | None \<Rightarrow>
         (let cutoff = rv_now env - days (rc_evidence_days cfg)
          in case prune_blobs (rv_float env) (rv_busy env) cutoff (rv_now_iso env)
                    (evidence_candidates cutoff (rs_db st)) (rs_db st) of
               (True, _, db) \<Rightarrow> (rp\<lparr>rp_errors := rp_errors rp @ [''evidence: OSError'']\<rparr>, st\<lparr>rs_db := db\<rparr>)
             | (False, shas, db) \<Rightarrow>
                 (rp\<lparr>rp_evidence_blobs_deleted := length shas, rp_pruned_shas := shas\<rparr>,
                  st\<lparr>rs_db := db, rs_debris := sweep_debris (rv_clock env) (rv_busy env) (rs_debris st)\<rparr>)))"

definition run_checkpoint :: "retention_env \<Rightarrow> retention_report \<times> retention_state \<Rightarrow> retention_report \<times> retention_state" where
  "run_checkpoint env = (\<lambda>(rp, st).
     if rp_events_deleted rp \<noteq> 0 \<or> rp_alerts_deleted rp \<noteq> 0 \<or> rp_evidence_blobs_deleted rp \<noteq> 0
     then (rp\<lparr>rp_errors := rp_errors rp @ surface_error ''checkpoint'' (rv_fault env ''checkpoint'')\<rparr>, st)
     else (rp, st))"

definition run_retention ::
  "retention_env \<Rightarrow> retention_config \<Rightarrow> retention_state \<Rightarrow> retention_report \<times> retention_state" where
  "run_retention env cfg st =
     run_checkpoint env (run_evidence env cfg (run_alerts env cfg (run_journal env cfg
       (run_events env cfg (empty_report, st)))))"

section \<open>What pruning events does\<close>

definition perm_scan :: "('a list \<Rightarrow> 'a list) \<Rightarrow> bool" where
  "perm_scan scan \<longleftrightarrow> (\<forall>xs. mset (scan xs) = mset xs)"

lemma perm_scanD: "perm_scan scan \<Longrightarrow> set (scan xs) = set xs" "perm_scan scan \<Longrightarrow> length (scan xs) = length xs"
  unfolding perm_scan_def by (metis set_mset_mset, metis size_mset)

lemma perm_scan_distinct: "perm_scan scan \<Longrightarrow> distinct (map f (scan xs)) = distinct (map f xs)"
  unfolding perm_scan_def by (metis mset_map mset_eq_imp_distinct_iff)

text \<open>Dropping rows that are not the newest anchor leaves the newest anchor in place.\<close>

lemma last_filter_eq: "xs \<noteq> [] \<Longrightarrow> P (last xs) \<Longrightarrow> filter P xs \<noteq> [] \<and> last (filter P xs) = last xs"
  by (induction xs) (auto split: if_splits)

lemma newest_head_filter:
  assumes "\<And>r. newest_head rows = Some r \<Longrightarrow> P r"
  shows "newest_head (filter P rows) = newest_head rows"
proof -
  let ?H = "\<lambda>r. er_module r = ''supervisor'' \<and> er_action r = ''audit_head''"
  let ?s = "\<lambda>xs. sort_key er_ts (sort_key er_id (filter ?H xs))"
  have eq: "?s (filter P rows) = filter P (?s rows)"
    by (simp add: filter_sort conj_commute)
  show ?thesis
  proof (cases "?s rows = []")
    case False
    then have "P (last (?s rows))" using assms by (auto simp: newest_head_def Let_def)
    then show ?thesis using False last_filter_eq[of "?s rows" P] eq
      by (simp add: newest_head_def Let_def)
  qed (use eq in \<open>simp add: newest_head_def\<close>)
qed

abbreviation victims :: "(event_row list \<Rightarrow> event_row list) \<Rightarrow> datetime \<Rightarrow> nat \<Rightarrow> event_row list \<Rightarrow> string set" where
  "victims scan cutoff limit rows \<equiv> er_id ` set (take limit (scan (prunable cutoff rows)))"

lemma prunable_spares_head: "newest_head rows = Some r \<Longrightarrow> er_id r \<notin> er_id ` set (prunable cutoff rows)"
  by (auto simp: prunable_def)

lemma victims_prunable: "perm_scan scan \<Longrightarrow> victims scan cutoff limit rows \<subseteq> er_id ` set (prunable cutoff rows)"
  using perm_scanD(1)[of scan "prunable cutoff rows"] by (auto dest: in_set_takeD)

lemma newest_head_delete_chunk:
  "perm_scan scan \<Longrightarrow> newest_head (delete_chunk scan cutoff limit rows) = newest_head rows"
  unfolding delete_chunk_def Let_def
  by (rule newest_head_filter) (use victims_prunable prunable_spares_head in blast)

lemma prunable_delete_chunk:
  assumes "perm_scan scan"
  shows "prunable cutoff (delete_chunk scan cutoff limit rows) =
    filter (\<lambda>r. er_id r \<notin> victims scan cutoff limit rows) (prunable cutoff rows)"
  by (subst prunable_def, subst newest_head_delete_chunk[OF assms])
     (auto simp: delete_chunk_def prunable_def intro: filter_cong)

lemma length_filter_victims:
  assumes "distinct (map f xs)" "set ys \<subseteq> set xs" "distinct (map f ys)"
  shows "length (filter (\<lambda>x. f x \<notin> f ` set ys) xs) = length xs - length ys"
proof -
  have inj: "inj_on f (set xs)" and dx: "distinct xs" and dy: "distinct ys"
    using assms by (auto simp: distinct_map)
  have "set (filter (\<lambda>x. f x \<notin> f ` set ys) xs) = set xs - set ys"
    using inj assms(2) by (auto simp: inj_on_def)
  moreover have "distinct (filter (\<lambda>x. f x \<notin> f ` set ys) xs)" using dx by simp
  ultimately have "length (filter (\<lambda>x. f x \<notin> f ` set ys) xs) = card (set xs - set ys)"
    by (metis distinct_card)
  then show ?thesis using assms(2) dx dy by (simp add: card_Diff_subset distinct_card)
qed

lemma distinct_prunable: "distinct (map er_id rows) \<Longrightarrow> distinct (map er_id (prunable cutoff rows))"
  unfolding prunable_def by (rule distinct_map_filter)

lemma chunk_facts:
  assumes "perm_scan scan" "distinct (map er_id rows)"
  shows "set (take limit (scan (prunable cutoff rows))) \<subseteq> set (prunable cutoff rows)"
    "distinct (map er_id (take limit (scan (prunable cutoff rows))))"
    "length (take limit (scan (prunable cutoff rows))) = min limit (length (prunable cutoff rows))"
  using perm_scanD[OF assms(1), of "prunable cutoff rows"] distinct_prunable[OF assms(2), of cutoff]
    perm_scan_distinct[OF assms(1), of er_id "prunable cutoff rows"]
  by (auto simp: take_map[symmetric] min.commute dest: in_set_takeD)

lemma length_delete_chunk:
  assumes "perm_scan scan" "distinct (map er_id rows)"
  shows "length (delete_chunk scan cutoff limit rows) = length rows - min limit (length (prunable cutoff rows))"
    and "length (prunable cutoff (delete_chunk scan cutoff limit rows)) =
         length (prunable cutoff rows) - min limit (length (prunable cutoff rows))"
proof -
  note cf = chunk_facts[OF assms, of limit cutoff]
  have "set (prunable cutoff rows) \<subseteq> set rows" by (auto simp: prunable_def)
  then show "length (delete_chunk scan cutoff limit rows) = length rows - min limit (length (prunable cutoff rows))"
    unfolding delete_chunk_def Let_def using length_filter_victims[OF assms(2) order_trans[OF cf(1)] cf(2)] cf(3)
    by simp
  show "length (prunable cutoff (delete_chunk scan cutoff limit rows)) =
        length (prunable cutoff rows) - min limit (length (prunable cutoff rows))"
    unfolding prunable_delete_chunk[OF assms(1)] using length_filter_victims[OF distinct_prunable[OF assms(2)] cf(1,2)] cf(3) by simp
qed

lemma prunable_le: "length (prunable cutoff rows) \<le> length rows"
  by (simp add: prunable_def)

lemma distinct_delete_chunk:
  "distinct (map er_id rows) \<Longrightarrow> distinct (map er_id (delete_chunk scan cutoff limit rows))"
  by (simp add: delete_chunk_def Let_def distinct_map_filter)

lemma min_split_off: "(l :: nat) \<le> k \<Longrightarrow> l \<le> r \<Longrightarrow> l + min (r - l) (k - l) = min r k"
  by (auto simp: min_def)

lemma prune_loop_result:
  assumes "perm_scan scan" "distinct (map er_id rows)" "deleted \<le> m"
  shows "\<exists>P. prune_loop scan cutoff m deleted rows =
      (deleted + min (m - deleted) (length (prunable cutoff rows)), filter P rows)
    \<and> (\<forall>r\<in>set rows. r \<notin> set (prunable cutoff rows) \<longrightarrow> P r)
    \<and> length (filter P rows) = length rows - min (m - deleted) (length (prunable cutoff rows))
    \<and> newest_head (filter P rows) = newest_head rows"
  using assms
proof (induction scan cutoff m deleted rows rule: prune_loop.induct)
  case (1 scan cutoff m deleted rows)
  let ?lim = "min EVENTS_DELETE_CHUNK (m - deleted)"
  let ?k = "length (prunable cutoff rows)"
  let ?rows = "delete_chunk scan cutoff ?lim rows"
  let ?Q = "\<lambda>r. er_id r \<notin> victims scan cutoff ?lim rows"
  note len = length_delete_chunk[OF "1.prems"(1,2), of cutoff ?lim]
  have chunk: "length rows - length ?rows = min ?lim ?k"
    using len(1) prunable_le[of cutoff rows] by simp
  have rows_eq: "?rows = filter ?Q rows" by (simp add: delete_chunk_def)
  have keep: "\<forall>r\<in>set rows. r \<notin> set (prunable cutoff rows) \<longrightarrow> ?Q r"
  proof (intro ballI impI)
    fix r assume r: "r \<in> set rows" "r \<notin> set (prunable cutoff rows)"
    show "?Q r"
    proof
      assume "er_id r \<in> victims scan cutoff ?lim rows"
      then obtain r' where "r' \<in> set (prunable cutoff rows)" "er_id r' = er_id r"
        using victims_prunable[OF "1.prems"(1)] by (metis (no_types, lifting) imageE subsetD)
      moreover from this have "r' \<in> set rows" by (simp add: prunable_def)
      ultimately show False using r "1.prems"(2) by (metis distinct_map inj_on_def)
    qed
  qed
  show ?case
  proof (cases "deleted < m \<and> \<not> length rows - length ?rows < ?lim")
    case False
    show ?thesis
    proof (cases "deleted < m")
      case True
      with False have few: "?k < ?lim" using chunk by linarith
      then have "prune_loop scan cutoff m deleted rows = (deleted + ?k, filter ?Q rows)"
        using True chunk rows_eq by (subst prune_loop.simps) (simp add: Let_def)
      moreover have "min (m - deleted) ?k = ?k" using few by simp
      moreover have "length (filter ?Q rows) = length rows - ?k" using len(1) few rows_eq by simp
      moreover have "newest_head (filter ?Q rows) = newest_head rows"
        using newest_head_delete_chunk[OF "1.prems"(1)] rows_eq by metis
      ultimately show ?thesis using keep by (intro exI[of _ ?Q]) simp
    next
      case False
      then have "prune_loop scan cutoff m deleted rows = (deleted, rows)" by (subst prune_loop.simps) simp
      then show ?thesis using False by (intro exI[of _ "\<lambda>_. True"]) simp
    qed
  next
    case True
    then have full: "?lim \<le> ?k" using chunk by linarith
    have cl: "length rows - length ?rows = ?lim" using chunk full by simp
    have le: "deleted + (length rows - length ?rows) \<le> m" using cl True by simp
    note ih = "1.IH"[OF conjunct1[OF True] refl refl refl conjunct2[OF True] "1.prems"(1)
        distinct_delete_chunk[OF "1.prems"(2)] le, unfolded cl]
    from ih obtain P where P:
      "prune_loop scan cutoff m (deleted + ?lim) ?rows =
         (deleted + ?lim + min (m - (deleted + ?lim)) (length (prunable cutoff ?rows)), filter P ?rows)"
      "\<forall>r\<in>set ?rows. r \<notin> set (prunable cutoff ?rows) \<longrightarrow> P r"
      "length (filter P ?rows) = length ?rows - min (m - (deleted + ?lim)) (length (prunable cutoff ?rows))"
      "newest_head (filter P ?rows) = newest_head ?rows" by (elim exE conjE)
    have loop: "prune_loop scan cutoff m deleted rows = prune_loop scan cutoff m (deleted + ?lim) ?rows"
      using True cl by (subst prune_loop.simps) (simp add: Let_def)
    have filt: "filter P ?rows = filter (\<lambda>r. ?Q r \<and> P r) rows" using rows_eq by (simp add: conj_commute)
    have keep': "\<forall>r\<in>set rows. r \<notin> set (prunable cutoff rows) \<longrightarrow> ?Q r \<and> P r"
    proof (intro ballI impI)
      fix r assume r: "r \<in> set rows" "r \<notin> set (prunable cutoff rows)"
      then have q: "?Q r" using keep by blast
      then have "r \<in> set ?rows" using r(1) by (subst rows_eq) simp
      moreover have "r \<notin> set (prunable cutoff ?rows)"
        unfolding prunable_delete_chunk[OF "1.prems"(1)] using r(2) by auto
      ultimately show "?Q r \<and> P r" using P(2) q by blast
    qed
    have k: "length (prunable cutoff ?rows) = ?k - ?lim" "length ?rows = length rows - ?lim"
      using len by (simp_all only: min_absorb1[OF full])
    have amount: "?lim + min (m - (deleted + ?lim)) (?k - ?lim) = min (m - deleted) ?k"
      using min_split_off[OF full, of "m - deleted"] by (simp only: diff_diff_left min.cobounded2)
    show ?thesis
    proof (intro exI[of _ "\<lambda>r. ?Q r \<and> P r"] conjI keep')
      show "prune_loop scan cutoff m deleted rows =
          (deleted + min (m - deleted) ?k, filter (\<lambda>r. ?Q r \<and> P r) rows)"
        by (simp only: loop P(1) filt k(1) add.assoc amount)
      show "length (filter (\<lambda>r. ?Q r \<and> P r) rows) = length rows - min (m - deleted) ?k"
        by (simp only: filt[symmetric] P(3) k diff_diff_left amount)
      show "newest_head (filter (\<lambda>r. ?Q r \<and> P r) rows) = newest_head rows"
        using P(4) filt newest_head_delete_chunk[OF "1.prems"(1)] by metis
    qed
  qed
qed


text \<open>C28: For every event store with distinct event ids, every row order of the database and every budget,
  \<^verbatim>\<open>prune_events\<close> ends; it deletes exactly as many rows as the budget or the expired rows allow, whichever is
  less, and reports that number; only expired rows other than the newest audit anchor are deleted, and the
  newest anchor row is still the newest one. The loop ends because every full chunk uses up budget.\<close>

theorem prune_events_exact:
  assumes "perm_scan scan" "distinct (map er_id rows)"
  shows "case prune_events scan now keep_days max_rows rows of (n, rows') \<Rightarrow>
    n = min max_rows (length (prunable (now - days keep_days) rows))
    \<and> length rows' = length rows - n
    \<and> set rows - set (prunable (now - days keep_days) rows) \<subseteq> set rows' \<and> set rows' \<subseteq> set rows
    \<and> newest_head rows' = newest_head rows"
proof -
  obtain P where "prune_events scan now keep_days max_rows rows =
      (min max_rows (length (prunable (now - days keep_days) rows)), filter P rows)"
    "\<forall>r\<in>set rows. r \<notin> set (prunable (now - days keep_days) rows) \<longrightarrow> P r"
    "length (filter P rows) = length rows - min max_rows (length (prunable (now - days keep_days) rows))"
    "newest_head (filter P rows) = newest_head rows"
    using prune_loop_result[OF assms, of 0 max_rows "now - days keep_days"] unfolding prune_events_def by auto
  then show ?thesis by auto
qed

definition sample_rows :: "event_row list" where
  "sample_rows =
     map (\<lambda>(i, t, a). \<lparr>er_id = i, er_ts = t, er_kind = ''event'', er_module = ''supervisor'', er_action = a,
                       er_severity = ''info'', er_payload = ''{}'', er_seq = 0\<rparr>)
       [(''a'', 1, ''audit_head''), (''b'', 2, ''audit_head''), (''c'', 3, ''worker_died''),
        (''d'', days 40, ''worker_died'')]"

theorem prune_events_exact_witness:
  "distinct (map er_id sample_rows)
   \<and> map er_id (prunable (days 40 - days 30) sample_rows) = [''a'', ''c'']
   \<and> (case prune_events rev (days 40) 30 1 sample_rows of (n, rows') \<Rightarrow>
        n = 1 \<and> length rows' = 3 \<and> map_option er_id (newest_head rows') = Some ''b'')"
proof -
  have d: "distinct (map er_id sample_rows)" by (simp add: sample_rows_def)
  have p: "map er_id (prunable (days 40 - days 30) sample_rows) = [''a'', ''c'']"
    and h: "map_option er_id (newest_head sample_rows) = Some ''b''"
    by (simp_all add: prunable_def newest_head_def sample_rows_def days_def seconds_def)
  have s: "perm_scan rev" by (simp add: perm_scan_def)
  have l: "length (prunable (days 40 - days 30) sample_rows) = 2"
    using arg_cong[OF p, of length] by simp
  show ?thesis using prune_events_exact[OF s d, of 1 "days 40" 30] d p h l
    by (auto simp: sample_rows_def split: prod.splits)
qed


section \<open>What a whole run leaves alone\<close>

lemmas run_defs = run_events_def run_journal_def run_alerts_def run_evidence_def run_checkpoint_def

lemma run_journal_frame [simp]: "rs_db (snd (run_journal env cfg x)) = rs_db (snd x)"
  "rs_events (snd (run_journal env cfg x)) = rs_events (snd x)"
  by (auto simp: run_journal_def split: prod.split option.split)

lemma run_events_frame [simp]: "rs_db (snd (run_events env cfg x)) = rs_db (snd x)"
  "rs_journal (snd (run_events env cfg x)) = rs_journal (snd x)"
  by (auto simp: run_events_def split: prod.split option.split)

lemma run_alerts_frame [simp]: "rs_events (snd (run_alerts env cfg x)) = rs_events (snd x)"
  "rs_journal (snd (run_alerts env cfg x)) = rs_journal (snd x)"
  by (auto simp: run_alerts_def split: prod.split option.split)

lemma run_evidence_frame [simp]: "rs_events (snd (run_evidence env cfg x)) = rs_events (snd x)"
  "rs_journal (snd (run_evidence env cfg x)) = rs_journal (snd x)"
  by (auto simp: run_evidence_def Let_def split: prod.split option.split bool.split)

lemma run_checkpoint_frame [simp]: "snd (run_checkpoint env x) = snd x"
  by (auto simp: run_checkpoint_def split: prod.split)

text \<open>The tables evidence pruning does not touch, and the keys it keeps.\<close>

definition same_but_evidence :: "case_db \<Rightarrow> case_db \<Rightarrow> bool" where
  "same_but_evidence db db' \<longleftrightarrow>
     cd_alerts db' = cd_alerts db \<and> cd_cases db' = cd_cases db \<and> cd_links db' = cd_links db
     \<and> cd_events db' = cd_events db \<and> cd_quarantine db' = cd_quarantine db \<and> cd_audit db' = cd_audit db
     \<and> map (\<lambda>(k, e). (k, ew_captured_at e)) (cd_evidence db') = map (\<lambda>(k, e). (k, ew_captured_at e)) (cd_evidence db)"

lemma same_but_evidence_refl [simp]: "same_but_evidence db db"
  by (simp add: same_but_evidence_def)

lemma same_but_evidence_trans: "same_but_evidence a b \<Longrightarrow> same_but_evidence b c \<Longrightarrow> same_but_evidence a c"
  by (simp add: same_but_evidence_def)

lemma stamp_same: "same_but_evidence db (stamp_tombstones fl h t db)"
  by (auto simp: same_but_evidence_def stamp_tombstones_def update_where_def)

lemma unlink_same: "same_but_evidence db (unlink_blob h db)"
  by (simp add: same_but_evidence_def unlink_blob_def)

lemma prune_blobs_same: "same_but_evidence db (snd (snd (prune_blobs fl busy cutoff t hs db)))"
proof (induction fl busy cutoff t hs db rule: prune_blobs.induct)
  case (2 fl busy cutoff pruned_at h hs db)
  then show ?case
    using same_but_evidence_trans[OF unlink_same stamp_same]
    by (auto split: prod.split intro: same_but_evidence_trans stamp_same)
       (metis same_but_evidence_trans snd_conv stamp_same unlink_same)+
qed simp

lemma run_evidence_same: "same_but_evidence (rs_db (snd x)) (rs_db (snd (run_evidence env cfg x)))"
  using prune_blobs_same by (auto simp: run_evidence_def Let_def split: prod.split option.split bool.split)
    (metis snd_conv)+

lemma run_alerts_db: "rs_db (snd (run_alerts env cfg x)) =
    (if rv_fault env ''alerts'' = None then snd (prune_alerts (rv_now env) (rc_alerts_days cfg) (rs_db (snd x)))
     else rs_db (snd x))"
  by (auto simp: run_alerts_def split: prod.split option.split)

lemma run_retention_db:
  "same_but_evidence
     (if rv_fault env ''alerts'' = None then snd (prune_alerts (rv_now env) (rc_alerts_days cfg) (rs_db st))
      else rs_db st)
     (rs_db (snd (run_retention env cfg st)))"
  unfolding run_retention_def run_checkpoint_frame
  by (rule same_but_evidence_trans[OF _ run_evidence_same]) (simp add: run_alerts_db)

lemma run_retention_events:
  "es_rows (rs_events (snd (run_retention env cfg st))) =
     (if rv_fault env ''events'' = None
      then snd (prune_events (rv_scan env) (rv_now env) (rc_events_days cfg) (rc_events_max_rows cfg)
                  (es_rows (rs_events st)))
      else es_rows (rs_events st))"
  unfolding run_retention_def by (auto simp: run_events_def split: option.split prod.split)

lemma prune_alerts_audit [simp]: "cd_audit (snd (prune_alerts now d db)) = cd_audit db"
  by (simp add: prune_alerts_def Let_def)


text \<open>C24: A retention run never changes what audit verification answers: the newest anchor event survives event
  pruning whatever its age and the budget, and the audit rows are not touched, so \<^verbatim>\<open>verify_audit_log\<close> after
  the run gives exactly the verdict it gave before.\<close>

theorem retention_keeps_audit_verdict:
  assumes "perm_scan (rv_scan env)" "distinct (map er_id (es_rows (rs_events st)))"
  shows "handle_verify_audit_log sha ostr (es_rows (rs_events (snd (run_retention env cfg st))))
           (au_rows (cd_audit (rs_db (snd (run_retention env cfg st))))) =
         handle_verify_audit_log sha ostr (es_rows (rs_events st)) (au_rows (cd_audit (rs_db st)))"
proof -
  obtain P where "snd (prune_events (rv_scan env) (rv_now env) (rc_events_days cfg) (rc_events_max_rows cfg)
      (es_rows (rs_events st))) = filter P (es_rows (rs_events st))"
    "newest_head (filter P (es_rows (rs_events st))) = newest_head (es_rows (rs_events st))"
    using prune_loop_result[OF assms, of 0 "rc_events_max_rows cfg" "rv_now env - days (rc_events_days cfg)"]
    unfolding prune_events_def by auto
  then have "newest_head (es_rows (rs_events (snd (run_retention env cfg st)))) = newest_head (es_rows (rs_events st))"
    by (simp add: run_retention_events)
  moreover have "cd_audit (rs_db (snd (run_retention env cfg st))) = cd_audit (rs_db st)"
    using run_retention_db[of env cfg st] by (simp add: same_but_evidence_def split: if_splits)
  ultimately show ?thesis by (simp add: handle_verify_audit_log_def newest_anchor_def)
qed

definition sample_case_db :: case_db where
  "sample_case_db =
     \<lparr>cd_alerts = [], cd_cases = [], cd_links = [], cd_events = [], cd_evidence = [], cd_blobs = [],
      cd_quarantine = [], cd_audit = audit_init\<rparr>"

definition sample_retention :: retention_state where
  "sample_retention =
     \<lparr>rs_db = sample_case_db, rs_events = \<lparr>es_rows = sample_rows, es_next = 4\<rparr>, rs_journal = [], rs_debris = []\<rparr>"

definition sample_retention_env :: "(string \<Rightarrow> string option) \<Rightarrow> retention_env" where
  "sample_retention_env fault =
     \<lparr>rv_now = days 40, rv_now_iso = ''now'', rv_clock = 0, rv_scan = rev, rv_float = (\<lambda>_. ''0.0''),
      rv_busy = (\<lambda>_. False), rv_fault = fault\<rparr>"

definition sample_retention_config :: retention_config where
  "sample_retention_config =
     \<lparr>rc_events_days = 30, rc_events_max_rows = 1000, rc_journal_days = 30, rc_journal_quota_mb = 500,
      rc_journal_floor_days = 7, rc_alerts_days = 365, rc_evidence_days = 365\<rparr>"

theorem retention_keeps_audit_verdict_witness:
  "map er_id (prunable (days 40 - days 30) (es_rows (rs_events sample_retention))) = [''a'', ''c'']
   \<and> handle_verify_audit_log id (\<lambda>_. '''')
       (es_rows (rs_events (snd (run_retention (sample_retention_env (\<lambda>_. None)) sample_retention_config sample_retention))))
       (au_rows (cd_audit (rs_db (snd (run_retention (sample_retention_env (\<lambda>_. None)) sample_retention_config sample_retention)))))
     = handle_verify_audit_log id (\<lambda>_. '''') sample_rows []"
proof -
  have s: "perm_scan (rv_scan (sample_retention_env (\<lambda>_. None)))"
    by (simp add: perm_scan_def sample_retention_env_def)
  have d: "distinct (map er_id (es_rows (rs_events sample_retention)))"
    by (simp add: sample_retention_def sample_rows_def)
  have p: "map er_id (prunable (days 40 - days 30) sample_rows) = [''a'', ''c'']"
    by (simp add: prunable_def newest_head_def sample_rows_def days_def seconds_def)
  show ?thesis using retention_keeps_audit_verdict[OF s d, of id "\<lambda>_. ''''" sample_retention_config] p
    by (simp add: sample_retention_def sample_case_db_def audit_init_def)
qed

section \<open>What a run deletes of alerts\<close>

text \<open>Alert retention is exact: of the alerts a run loses precisely those last seen before the cutoff that
  are neither critical nor linked to an open case (none when the surface fails), and cases, links, timelines,
  evidence rows, quarantine rows and audit rows keep their contents.\<close>

theorem retention_deletes_only_stale_alerts:
  assumes "wf_table (cd_alerts (rs_db st))"
  shows "map_of (cd_alerts (rs_db (snd (run_retention env cfg st)))) i =
      (case map_of (cd_alerts (rs_db st)) i of
         None \<Rightarrow> None
       | Some r \<Rightarrow>
           if rv_fault env ''alerts'' = None \<and> aw_last_seen r < rv_now env - days (rc_alerts_days cfg)
              \<and> aw_severity r \<noteq> ''critical'' \<and> \<not> in_open_case (rs_db st) i
           then None else Some r)
    \<and> (let db' = rs_db (snd (run_retention env cfg st)); db = rs_db st
       in cd_cases db' = cd_cases db \<and> cd_links db' = cd_links db \<and> cd_events db' = cd_events db
          \<and> cd_quarantine db' = cd_quarantine db \<and> cd_audit db' = cd_audit db
          \<and> keys (cd_evidence db') = keys (cd_evidence db))"
proof -
  let ?db = "rs_db (snd (run_retention env cfg st))"
  have same: "same_but_evidence
     (if rv_fault env ''alerts'' = None then snd (prune_alerts (rv_now env) (rc_alerts_days cfg) (rs_db st))
      else rs_db st) ?db"
    by (rule run_retention_db)
  have "keys (cd_evidence ?db) = map fst (map (\<lambda>(k, e). (k, ew_captured_at e)) (cd_evidence ?db))"
    by (simp add: case_prod_beta' comp_def)
  also have "\<dots> = keys (cd_evidence (rs_db st))"
    using same by (simp add: same_but_evidence_def prune_alerts_def Let_def case_prod_beta' comp_def split: if_splits)
  finally show ?thesis
    using same assms by (auto simp: same_but_evidence_def prune_alerts_def Let_def map_of_delete_where
        split: if_splits option.splits)
qed

lemma severity_of_sample_alert [simp]: "aw_severity (alert_row_of (mk_alert i key ts)) = ''high''"
  by (simp add: alert_row_of_def mk_alert_def mk_match_def build_alert_def severity_of_def all_strings_def)

definition stale_alert_db :: case_db where
  "stale_alert_db = sample_case_db\<lparr>cd_alerts :=
     [(''a'', (alert_row_of (mk_alert ''a'' ''k'' 0))),
      (''b'', (alert_row_of (mk_alert ''b'' ''k'' 0))\<lparr>aw_severity := ''critical''\<rparr>),
      (''c'', (alert_row_of (mk_alert ''c'' ''k'' 0))),
      (''d'', (alert_row_of (mk_alert ''d'' ''k'' 0))\<lparr>aw_last_seen := days 39\<rparr>)],
     cd_cases := [(''x'', \<lparr>cs_title = '''', cs_status = ''open'', cs_opened_at = 0, cs_closed_at = None\<rparr>)],
     cd_links := [((''x'', ''c''), 0)]\<rparr>"

theorem retention_deletes_only_stale_alerts_witness:
  "let cfg = sample_retention_config\<lparr>rc_alerts_days := 30\<rparr>;
       db' = rs_db (snd (run_retention (sample_retention_env (\<lambda>_. None)) cfg (sample_retention\<lparr>rs_db := stale_alert_db\<rparr>)))
   in map (map_of (cd_alerts db')) [''a'', ''b'', ''c'', ''d''] =
      None # map (map_of (cd_alerts stale_alert_db)) [''b'', ''c'', ''d'']"
proof -
  have wf: "wf_table (cd_alerts (rs_db (sample_retention\<lparr>rs_db := stale_alert_db\<rparr>)))"
    by (simp add: stale_alert_db_def)
  note r = retention_deletes_only_stale_alerts[OF wf, of "sample_retention_env (\<lambda>_. None)"
      "sample_retention_config\<lparr>rc_alerts_days := 30\<rparr>"]
  show ?thesis
    unfolding Let_def using r[of "''a''"] r[of "''b''"] r[of "''c''"] r[of "''d''"]
    by (simp add: stale_alert_db_def sample_retention_env_def sample_retention_config_def sample_case_db_def
        in_open_case_def days_def seconds_def)
qed

end
