(* ===== verification/Retention_Journal.thy ===== *)
theory Retention_Journal
  imports Retention
begin

text \<open>
  What the journal pruner of \<^verbatim>\<open>retention/engine.py\<close> keeps and how far it gets: protected files, the quota and
  the floor.
\<close>

section \<open>The two passes\<close>

definition without :: "string set \<Rightarrow> directory \<Rightarrow> directory" where
  "without D dir = filter (\<lambda>(k, _). k \<notin> D) dir"

lemma without_empty [simp]: "without {} dir = dir"
  by (simp add: without_def case_prod_beta')

lemma without_twice [simp]: "without D (without E dir) = without (D \<union> E) dir"
  by (simp add: without_def case_prod_beta') (metis (no_types, lifting) UnE UnI1 UnI2)

lemma without_one: "delete_where (\<lambda>k _. k = f) dir = without {f} dir"
  by (simp add: delete_where_def without_def)

lemma file_size_without: "f \<notin> D \<Longrightarrow> file_size (without D dir) f = file_size dir f"
  by (induction dir) (auto simp: file_size_def without_def split: option.split)

definition expired_names :: "(int \<Rightarrow> bool) \<Rightarrow> (int \<times> string) list \<Rightarrow> string set" where
  "expired_names ex fs = snd ` {x \<in> set fs. ex (fst x)}"

lemma expired_names_simps [simp]: "expired_names ex [] = {}"
  "expired_names ex ((d, f) # fs) = (if ex d then insert f (expired_names ex fs) else expired_names ex fs)"
  by (auto simp: expired_names_def intro: image_eqI[of _ _ "(d, f)"])

lemma expired_namesD: "f \<in> expired_names ex fs \<Longrightarrow> \<exists>d. (d, f) \<in> set fs \<and> ex d"
  by (auto simp: expired_names_def)

text \<open>A finished age pass removes exactly the expired files; an interrupted one removes some of them.\<close>

lemma age_pass_done:
  "age_pass busy ex fs n dir = (False, m, rest, dir') \<Longrightarrow>
     rest = filter (\<lambda>(d, _). \<not> ex d) fs \<and> dir' = without (expired_names ex fs) dir"
proof (induction busy ex fs n dir arbitrary: m rest dir' rule: age_pass.induct)
  case (2 busy ex d f fs n dir)
  show ?case
  proof (cases "ex d")
    case True
    then have "age_pass busy ex fs (Suc n) (delete_where (\<lambda>k _. k = f) dir) = (False, m, rest, dir')" "\<not> busy f"
      using "2.prems" by (auto split: if_splits)
    from "2.IH"(1)[OF True this(2) this(1)] show ?thesis using True by (simp add: without_one)
  next
    case False
    then obtain r where "age_pass busy ex fs n dir = (False, m, r, dir')" "rest = (d, f) # r"
      using "2.prems" by (auto split: prod.splits)
    with "2.IH"(2)[OF False this(1)] False show ?thesis by simp
  qed
qed simp

lemma age_pass_some:
  "age_pass busy ex fs n dir = (err, m, rest, dir') \<Longrightarrow>
     \<exists>D \<subseteq> expired_names ex fs. dir' = without D dir"
proof (induction busy ex fs n dir arbitrary: err m rest dir' rule: age_pass.induct)
  case (1 busy ex n dir)
  then show ?case by (intro exI[of _ "{}"]) simp
next
  case (2 busy ex d f fs n dir)
  consider "ex d" "busy f" | "ex d" "\<not> busy f" | "\<not> ex d" by blast
  then show ?case
  proof cases
    case 1
    then show ?thesis using "2.prems" by (intro exI[of _ "{}"]) simp
  next
    case 2
    then obtain D where "D \<subseteq> expired_names ex fs" "dir' = without D (without {f} dir)"
      using "2.IH"(1)[OF 2, of err m rest dir'] "2.prems" by (auto simp: without_one)
    then show ?thesis using 2 by (intro exI[of _ "D \<union> {f}"]) auto
  next
    case 3
    then obtain D where "D \<subseteq> expired_names ex fs" "dir' = without D dir"
      using "2.IH"(2)[OF 3] "2.prems" by (auto split: prod.splits)
    then show ?thesis using 3 by (intro exI[of _ D]) simp
  qed
qed

text \<open>The quota pass evicts a prefix of its list, and stops only at the quota or at the end of the list.\<close>

lemma quota_pass_prefix:
  "quota_pass busy quota fs usage n dir = (err, usage', m, dir') \<Longrightarrow> distinct (map snd fs) \<Longrightarrow>
     \<exists>pre suf. fs = pre @ suf \<and> dir' = without (snd ` set pre) dir
       \<and> usage' = usage - int (sum_list (map (\<lambda>(_, f). file_size dir f) pre))
       \<and> (\<not> err \<longrightarrow> suf = [] \<or> usage' \<le> quota)"
proof (induction busy quota fs usage n dir arbitrary: err usage' m dir' rule: quota_pass.induct)
  case (1 busy quota usage n dir)
  then show ?case by simp
next
  case (2 busy quota d f fs usage n dir)
  show ?case
  proof (cases "usage \<le> quota \<or> busy f")
    case True
    then have "usage' = usage" "dir' = dir" "\<not> err \<longrightarrow> usage \<le> quota" using "2.prems"(1) by (auto split: if_splits)
    then show ?thesis by (intro exI[of _ "[]"] exI[of _ "(d, f) # fs"]) simp
  next
    case False
    then obtain pre suf where ps: "fs = pre @ suf" "dir' = without (snd ` set pre) (without {f} dir)"
      "usage' = usage - int (file_size dir f) - int (sum_list (map (\<lambda>(_, g). file_size (without {f} dir) g) pre))"
      "\<not> err \<longrightarrow> suf = [] \<or> usage' \<le> quota"
      using "2.IH"[of err usage' m dir'] "2.prems" by (auto simp: without_one)
    have sizes: "map (\<lambda>(_, g). file_size (without {f} dir) g) pre = map (\<lambda>(_, g). file_size dir g) pre"
      using "2.prems"(2) ps(1) by (intro map_cong[OF refl]) (force intro!: file_size_without)
    show ?thesis
    proof (rule exI[of _ "(d, f) # pre"], rule exI[of _ suf], intro conjI)
      show "(d, f) # fs = ((d, f) # pre) @ suf" using ps(1) by simp
      show "dir' = without (snd ` set ((d, f) # pre)) dir" using ps(2) by simp
      show "usage' = usage - int (sum_list (map (\<lambda>(_, f). file_size dir f) ((d, f) # pre)))"
        using ps(3) unfolding sizes by simp
      show "\<not> err \<longrightarrow> suf = [] \<or> usage' \<le> quota" by (rule ps(4))
    qed
  qed
qed

section \<open>The pruner\<close>

definition journal_usage :: "directory \<Rightarrow> nat" where
  "journal_usage dir = sum_list (map (file_size dir) (journal_names dir))"

definition protected_day :: "datetime \<Rightarrow> alerts \<Rightarrow> int \<Rightarrow> bool" where
  "protected_day now al d \<longleftrightarrow> d \<in> set (critical_alert_days al) \<or> d = day_of now"

definition expired_day :: "datetime \<Rightarrow> int \<Rightarrow> alerts \<Rightarrow> int \<Rightarrow> bool" where
  "expired_day now keep_days al d \<longleftrightarrow> d < day_of now - keep_days \<and> \<not> protected_day now al d"

lemma journal_names_without: "journal_names (without D dir) = filter (\<lambda>n. n \<notin> D) (journal_names dir)"
  by (simp add: journal_names_def without_def filter_map comp_def case_prod_beta' filter_sort[symmetric] conj_commute)

lemma distinct_journal_names: "wf_table dir \<Longrightarrow> distinct (journal_names dir)"
  by (simp add: journal_names_def distinct_map_filter)

lemma dated_files_mem: "(d, f) \<in> set (dated_files dir) \<longleftrightarrow> f \<in> set (journal_names dir) \<and> file_date f = Some d"
  by (auto simp: dated_files_def split: option.splits)

lemma map_snd_dated: "map snd (dated_files dir) = filter (\<lambda>n. file_date n \<noteq> None) (journal_names dir)"
proof -
  have "map snd (concat (map (\<lambda>n. case file_date n of None \<Rightarrow> [] | Some d \<Rightarrow> [(d, n)]) ns))
      = filter (\<lambda>n. file_date n \<noteq> None) ns" for ns
    by (induction ns) (auto split: option.split)
  then show ?thesis by (simp only: dated_files_def)
qed

lemma dated_sizes:
  "map (\<lambda>(_, f). g f) (filter (\<lambda>(d, _). P d)
       (concat (map (\<lambda>n. case file_date n of None \<Rightarrow> [] | Some d \<Rightarrow> [(d, n)]) ns)))
   = map g (filter (\<lambda>f. case file_date f of None \<Rightarrow> False | Some d \<Rightarrow> P d) ns)"
  by (induction ns) (auto split: option.split)

lemma sum_list_partition:
  "sum_list (map g (filter P xs)) + sum_list (map g (filter (\<lambda>x. \<not> P x) xs)) = (sum_list (map g xs) :: nat)"
  by (induction xs) auto

text \<open>The bytes the quota pass starts from are those of the journal files left.\<close>

lemma usage_after_age:
  assumes "wf_table dir" and "D = expired_names ex (dated_files dir)"
  shows "sum_list (map (\<lambda>(_, f). file_size (without D dir) f) (filter (\<lambda>(d, _). \<not> ex d) (dated_files dir)))
      + sum_list (map (file_size (without D dir)) (unparseable dir)) = journal_usage (without D dir)"
proof -
  let ?N = "journal_names dir" and ?g = "file_size (without D dir)"
  have inD: "f \<in> D \<longleftrightarrow> f \<in> set ?N \<and> (\<exists>d. file_date f = Some d \<and> ex d)" for f
  proof -
    have "f \<in> D \<longleftrightarrow> (\<exists>d. (d, f) \<in> set (dated_files dir) \<and> ex d)"
      unfolding assms(2) expired_names_def image_iff by auto
    then show ?thesis by (auto simp: dated_files_mem)
  qed
  have "map (\<lambda>(_, f). ?g f) (filter (\<lambda>(d, _). \<not> ex d) (dated_files dir))
      = map ?g (filter (\<lambda>f. \<not> f \<in> D \<and> file_date f \<noteq> None) ?N)"
    unfolding dated_files_def dated_sizes
    by (intro arg_cong[of _ _ "map ?g"] filter_cong refl) (auto simp: inD split: option.split)
  moreover have "unparseable dir = filter (\<lambda>f. \<not> (file_date f \<noteq> None)) (filter (\<lambda>f. f \<notin> D) ?N)"
    unfolding unparseable_def by (auto simp: inD intro: filter_cong)
  moreover have "filter (\<lambda>f. \<not> f \<in> D \<and> file_date f \<noteq> None) ?N
      = filter (\<lambda>f. file_date f \<noteq> None) (filter (\<lambda>f. f \<notin> D) ?N)"
    by (auto intro: filter_cong)
  ultimately show ?thesis
    unfolding journal_usage_def journal_names_without by (simp only: sum_list_partition)
qed

lemma usage_without:
  assumes "distinct fs" "set fs \<subseteq> set (journal_names dir)" "wf_table dir"
  shows "journal_usage dir = journal_usage (without (set fs) dir) + sum_list (map (file_size dir) fs)"
proof -
  let ?N = "journal_names dir"
  have "mset (filter (\<lambda>f. f \<in> set fs) ?N) = mset fs"
    using assms distinct_journal_names by (intro set_eq_iff_mset_eq_distinct[THEN iffD1]) auto
  then have "sum_list (map (file_size dir) (filter (\<lambda>f. f \<in> set fs) ?N)) = sum_list (map (file_size dir) fs)"
    by (metis mset_map sum_mset_sum_list)
  moreover have "map (file_size (without (set fs) dir)) (filter (\<lambda>f. \<not> f \<in> set fs) ?N)
      = map (file_size dir) (filter (\<lambda>f. \<not> f \<in> set fs) ?N)"
    by (rule map_cong) (auto simp: file_size_without)
  ultimately show ?thesis
    unfolding journal_usage_def journal_names_without
    using sum_list_partition[of "file_size dir" "\<lambda>f. f \<in> set fs" ?N] by (simp only: add.commute)
qed

lemma wf_without: "wf_table dir \<Longrightarrow> wf_table (without D dir)"
  by (simp add: without_def distinct_map_filter)

lemma distinct_snd_sort: "distinct (map snd (sort xs)) = distinct (map snd xs)"
  by (rule mset_eq_imp_distinct_iff) simp

lemma journal_names_subset: "set dir' \<subseteq> set dir \<Longrightarrow> set (journal_names dir') \<subseteq> set (journal_names dir)"
  by (auto simp: journal_names_def)

text \<open>A finished run: the files deleted by age, then a prefix of the rest, oldest first.\<close>

lemma prune_journal_unfold:
  assumes "age_pass busy (expired_day now keep_days al) (dated_files dir) 0 dir = (err1, n, rest, dir1)"
    and "quota_pass busy (quota_mb * 2 ^ 20) (sort (filter (\<lambda>(d, _). expired_day now floor_days al d) rest))
           (int (sum_list (map (\<lambda>(_, f). file_size dir1 f) rest) + sum_list (map (file_size dir1) (unparseable dir))))
           n dir1 = (err2, u', n', dir2)"
  shows "prune_journal_files busy now keep_days quota_mb floor_days al dir =
      (if err1 then (dir1, None) else if err2 then (dir2, None)
       else (dir2, Some \<lparr>jp_files_deleted = n', jp_skipped_files = unparseable dir,
               jp_quota_overage_bytes = (if u' > quota_mb * 2 ^ 20 then u' - quota_mb * 2 ^ 20 else 0)\<rparr>))"
proof -
  have ab: "(\<lambda>d. d < day_of now - keep_days \<and> \<not> protected_day now al d) = expired_day now keep_days al"
    "\<And>d. (d < day_of now - floor_days \<and> \<not> protected_day now al d) = expired_day now floor_days al d"
    by (simp_all add: expired_day_def fun_eq_iff)
  show ?thesis
    unfolding prune_journal_files_def Let_def protected_day_def[symmetric] ab assms(1) prod.case assms(2)
    by (simp only:)
qed

lemma prune_journal_done:
  assumes "wf_table dir"
    and "prune_journal_files busy now keep_days quota_mb floor_days al dir = (dir', Some r)"
  obtains pre suf where
    "pre @ suf = sort (filter (\<lambda>(d, _). expired_day now floor_days al d)
                   (filter (\<lambda>(d, _). \<not> expired_day now keep_days al d) (dated_files dir)))"
    "dir' = without (snd ` set pre \<union> expired_names (expired_day now keep_days al) (dated_files dir)) dir"
    "suf = [] \<or> int (journal_usage dir') \<le> quota_mb * 2 ^ 20"
    "jp_quota_overage_bytes r = max 0 (int (journal_usage dir') - quota_mb * 2 ^ 20)"
proof -
  let ?ex = "expired_day now keep_days al" and ?q = "quota_mb * 2 ^ 20 :: int"
  let ?D = "expired_names ?ex (dated_files dir)" and ?rest = "filter (\<lambda>(d, _). \<not> ?ex d) (dated_files dir)"
  let ?del = "sort (filter (\<lambda>(d, _). expired_day now floor_days al d) ?rest)"
  obtain err1 n rest dir1 where age: "age_pass busy ?ex (dated_files dir) 0 dir = (err1, n, rest, dir1)"
    by (metis prod_cases4)
  let ?u = "int (sum_list (map (\<lambda>(_, f). file_size dir1 f) rest) + sum_list (map (file_size dir1) (unparseable dir)))"
  obtain err2 u' n' dir2 where quota:
    "quota_pass busy ?q (sort (filter (\<lambda>(d, _). expired_day now floor_days al d) rest)) ?u n dir1 = (err2, u', n', dir2)"
    by (metis prod_cases4)
  from prune_journal_unfold[OF age quota]
  have noerr: "\<not> err1" and res: "\<not> err2" "dir' = dir2" "jp_quota_overage_bytes r = (if u' > ?q then u' - ?q else 0)"
    using assms(2) by (auto split: if_splits)
  have dir1: "dir1 = without ?D dir" and rest: "rest = ?rest" using age_pass_done age noerr by auto
  have u: "?u = int (journal_usage dir1)"
    unfolding dir1 rest using usage_after_age[OF assms(1) refl, of ?ex] by simp
  have names: "distinct (map snd (sort (filter (\<lambda>(d, _). expired_day now floor_days al d) rest)))"
    unfolding distinct_snd_sort rest by (intro distinct_map_filter)
      (simp add: map_snd_dated distinct_journal_names[OF assms(1)])
  from quota_pass_prefix[OF quota names] obtain pre suf where
    ps: "sort (filter (\<lambda>(d, _). expired_day now floor_days al d) rest) = pre @ suf"
    "dir2 = without (snd ` set pre) dir1" "u' = ?u - int (sum_list (map (\<lambda>(_, f). file_size dir1 f) pre))"
    and stop: "\<not> err2 \<longrightarrow> suf = [] \<or> u' \<le> ?q" by (elim exE conjE)
  have del: "?del = pre @ suf" using ps(1) unfolding rest .
  have "set (map snd pre) \<subseteq> set (journal_names dir1)"
  proof
    fix f assume "f \<in> set (map snd pre)"
    then obtain d where "(d, f) \<in> set pre" by auto
    then have "(d, f) \<in> set ?del" unfolding del by simp
    then have "(d, f) \<in> set (dated_files dir)" "\<not> ?ex d" by auto
    then show "f \<in> set (journal_names dir1)"
      by (auto simp: dir1 journal_names_without dated_files_mem expired_names_def)
  qed
  then have "journal_usage dir1 = journal_usage dir' + sum_list (map (file_size dir1) (map snd pre))"
    using usage_without[of "map snd pre" dir1] names ps(1,2) wf_without[OF assms(1)] dir1 res(2) by simp
  then have u': "u' = int (journal_usage dir')"
    using ps(3) u by (simp add: comp_def case_prod_beta')
  show thesis
  proof (rule that[of pre suf])
    show "pre @ suf = ?del" by (rule del[symmetric])
    show "dir' = without (snd ` set pre \<union> ?D) dir" using ps(2) dir1 res(2) by simp
    show "suf = [] \<or> int (journal_usage dir') \<le> ?q" using stop res(1) u' by simp
    show "jp_quota_overage_bytes r = max 0 (int (journal_usage dir') - ?q)" using res(3) u' by simp
  qed
qed

lemma prune_journal_some:
  assumes "wf_table dir"
    and "prune_journal_files busy now keep_days quota_mb floor_days al dir = (dir', res)"
  obtains D where "dir' = without D dir"
    "\<And>f. f \<in> D \<Longrightarrow> \<exists>d. (d, f) \<in> set (dated_files dir) \<and> (expired_day now keep_days al d \<or> expired_day now floor_days al d)"
proof -
  obtain err1 n rest dir1 where
    age: "age_pass busy (expired_day now keep_days al) (dated_files dir) 0 dir = (err1, n, rest, dir1)"
    by (metis prod_cases4)
  obtain err2 u' n' dir2 where quota:
    "quota_pass busy (quota_mb * 2 ^ 20) (sort (filter (\<lambda>(d, _). expired_day now floor_days al d) rest))
       (int (sum_list (map (\<lambda>(_, f). file_size dir1 f) rest) + sum_list (map (file_size dir1) (unparseable dir))))
       n dir1 = (err2, u', n', dir2)"
    by (metis prod_cases4)
  obtain D where D: "D \<subseteq> expired_names (expired_day now keep_days al) (dated_files dir)" "dir1 = without D dir"
    using age_pass_some[OF age] by blast
  show thesis
  proof (cases err1)
    case True
    with prune_journal_unfold[OF age quota] assms(2) have "dir' = dir1" by simp
    then show thesis using D by (intro that[of D]) (auto dest!: subsetD expired_namesD)
  next
    case False
    then have rest: "rest = filter (\<lambda>(d, _). \<not> expired_day now keep_days al d) (dated_files dir)"
      using age_pass_done age by auto
    have "distinct (map snd (sort (filter (\<lambda>(d, _). expired_day now floor_days al d) rest)))"
      unfolding distinct_snd_sort rest by (intro distinct_map_filter)
        (simp add: map_snd_dated distinct_journal_names[OF assms(1)])
    from quota_pass_prefix[OF quota this] obtain pre suf where
      ps: "sort (filter (\<lambda>(d, _). expired_day now floor_days al d) rest) = pre @ suf"
      "dir2 = without (snd ` set pre) dir1" by (elim exE conjE)
    have "set pre \<subseteq> set (sort (filter (\<lambda>(d, _). expired_day now floor_days al d) rest))" unfolding ps(1) by simp
    then have "\<exists>d. (d, f) \<in> set (dated_files dir) \<and> expired_day now floor_days al d" if "f \<in> snd ` set pre" for f
      using that rest by auto
    moreover have "dir' = dir2" using prune_journal_unfold[OF age quota] assms(2) False by (auto split: if_splits)
    ultimately show thesis using D ps(2)
      by (intro that[of "snd ` set pre \<union> D"]) (auto dest!: subsetD expired_namesD)
  qed
qed

text \<open>The journal pruner never deletes a file that is not a dated journal file, today's file, the file of a
  day on which a critical alert first fired, or a file at least as young as both the age limit and the floor,
  and it adds nothing. If it runs to the end, every unprotected file past the age limit is gone, the overage
  it reports is exactly the excess of the remaining journal bytes over the quota, and an overage is left only
  when no unprotected file older than the floor remains.\<close>

theorem journal_pruner_respects_protection:
  assumes "wf_table dir"
    and "prune_journal_files busy now keep_days quota_mb floor_days al dir = (dir', res)"
  shows "set dir' \<subseteq> set dir
    \<and> (\<forall>f e. (f, e) \<in> set dir - set dir' \<longrightarrow>
         f \<in> set (journal_names dir) \<and> (\<exists>d. file_date f = Some d \<and> \<not> protected_day now al d
           \<and> (d < day_of now - keep_days \<or> d < day_of now - floor_days)))
    \<and> (case res of None \<Rightarrow> True | Some r \<Rightarrow>
         jp_quota_overage_bytes r = max 0 (int (journal_usage dir') - quota_mb * 2 ^ 20)
         \<and> (\<forall>f d. f \<in> set (journal_names dir') \<and> file_date f = Some d \<and> \<not> protected_day now al d \<longrightarrow>
              d \<ge> day_of now - keep_days
              \<and> (jp_quota_overage_bytes r > 0 \<longrightarrow> d \<ge> day_of now - floor_days)))"
proof (intro conjI)
  obtain D where D: "dir' = without D dir"
    "\<And>f. f \<in> D \<Longrightarrow> \<exists>d. (d, f) \<in> set (dated_files dir) \<and> (expired_day now keep_days al d \<or> expired_day now floor_days al d)"
    using prune_journal_some[OF assms] by blast
  show "set dir' \<subseteq> set dir" using D(1) by (auto simp: without_def)
  show "\<forall>f e. (f, e) \<in> set dir - set dir' \<longrightarrow>
         f \<in> set (journal_names dir) \<and> (\<exists>d. file_date f = Some d \<and> \<not> protected_day now al d
           \<and> (d < day_of now - keep_days \<or> d < day_of now - floor_days))"
  proof (intro allI impI)
    fix f e assume "(f, e) \<in> set dir - set dir'"
    then have "f \<in> D" using D(1) by (auto simp: without_def)
    from D(2)[OF this] show "f \<in> set (journal_names dir) \<and> (\<exists>d. file_date f = Some d \<and> \<not> protected_day now al d
           \<and> (d < day_of now - keep_days \<or> d < day_of now - floor_days))"
      by (auto simp: dated_files_mem expired_day_def)
  qed
  show "case res of None \<Rightarrow> True | Some r \<Rightarrow>
         jp_quota_overage_bytes r = max 0 (int (journal_usage dir') - quota_mb * 2 ^ 20)
         \<and> (\<forall>f d. f \<in> set (journal_names dir') \<and> file_date f = Some d \<and> \<not> protected_day now al d \<longrightarrow>
              d \<ge> day_of now - keep_days
              \<and> (jp_quota_overage_bytes r > 0 \<longrightarrow> d \<ge> day_of now - floor_days))"
  proof (cases res)
    case (Some r)
    obtain pre suf where ps:
      "pre @ suf = sort (filter (\<lambda>(d, _). expired_day now floor_days al d)
                   (filter (\<lambda>(d, _). \<not> expired_day now keep_days al d) (dated_files dir)))"
      "dir' = without (snd ` set pre \<union> expired_names (expired_day now keep_days al) (dated_files dir)) dir"
      "suf = [] \<or> int (journal_usage dir') \<le> quota_mb * 2 ^ 20"
      "jp_quota_overage_bytes r = max 0 (int (journal_usage dir') - quota_mb * 2 ^ 20)"
      using prune_journal_done[OF assms(1) assms(2)[unfolded Some]] .
    have "d \<ge> day_of now - keep_days \<and> (jp_quota_overage_bytes r > 0 \<longrightarrow> d \<ge> day_of now - floor_days)"
      if f: "f \<in> set (journal_names dir')" "file_date f = Some d" "\<not> protected_day now al d" for f d
    proof -
      have mem: "(d, f) \<in> set (dated_files dir)" and kept: "f \<notin> snd ` set pre"
        and ne: "f \<notin> expired_names (expired_day now keep_days al) (dated_files dir)"
        using f ps(2) by (auto simp: journal_names_without dated_files_mem)
      have live: "\<not> expired_day now keep_days al d" using mem ne by (force simp: expired_names_def)
      moreover have "jp_quota_overage_bytes r > 0 \<longrightarrow> \<not> expired_day now floor_days al d"
      proof (intro impI notI)
        assume "jp_quota_overage_bytes r > 0" "expired_day now floor_days al d"
        then have "pre = sort (filter (\<lambda>(d, _). expired_day now floor_days al d)
            (filter (\<lambda>(d, _). \<not> expired_day now keep_days al d) (dated_files dir)))"
          and "(d, f) \<in> set (filter (\<lambda>(d, _). expired_day now floor_days al d)
            (filter (\<lambda>(d, _). \<not> expired_day now keep_days al d) (dated_files dir)))"
          using ps(1,3,4) mem live by auto
        then have "(d, f) \<in> set pre" by (metis set_sort)
        then show False using kept by force
      qed
      ultimately show ?thesis using f(3) by (auto simp: expired_day_def)
    qed
    then show ?thesis unfolding Some option.case using ps(4) by blast
  qed simp
qed

definition sample_dir :: directory where
  "sample_dir =
     map (\<lambda>(n, b). (n, \<lparr>de_is_file = True, de_size = b\<rparr>))
       [(''1970-01-02.jsonl.gz'', 5), (''1970-04-11.jsonl.gz'', 7), (''1970-04-01.jsonl.gz'', 3 * 2 ^ 20),
        (''notes.jsonl.gz'', 9), (''README'', 1)]"

theorem journal_pruner_respects_protection_witness:
  "let dir' = fst (prune_journal_files (\<lambda>_. False) (days 100) 30 1 7 [] sample_dir)
   in set dir' \<subseteq> set sample_dir \<and> (''README'', \<lparr>de_is_file = True, de_size = 1\<rparr>) \<in> set dir'"
proof -
  have wf: "wf_table sample_dir" by (simp add: sample_dir_def)
  have "''README'' \<notin> set (journal_names sample_dir)"
    by (auto simp: journal_names_def JOURNAL_SUFFIX_def endswith_def)
  moreover have "(''README'', \<lparr>de_is_file = True, de_size = 1\<rparr>) \<in> set sample_dir"
    by (simp add: sample_dir_def)
  ultimately show ?thesis
    using journal_pruner_respects_protection[OF wf surjective_pairing, of "\<lambda>_. False" "days 100" 30 1 7 "[]"]
    unfolding Let_def by blast
qed

section \<open>A finding\<close>

text \<open>A repeated firing never protects a journal day: bumping an alert, on whatever day it fires again,
  leaves the set of protected days unchanged, because the row keeps the time of its first firing.\<close>

theorem refiring_protects_no_day:
  assumes "map_of t i = Some r" "wf_table t"
  shows "set (critical_alert_days (AList.update i (bump_row a r) t)) = set (critical_alert_days t)"
proof -
  have same: "aw_ts (bump_row a r) = aw_ts r" "aw_severity (bump_row a r) = aw_severity r"
    by (simp_all add: bump_row_def)
  have mem: "d \<in> set (critical_alert_days u) \<longleftrightarrow>
      (\<exists>k q. map_of u k = Some q \<and> aw_severity q = ''critical'' \<and> d = day_of (aw_ts q))" if "wf_table u" for u d
    using that by (force simp: critical_alert_days_def)
  have wf: "wf_table (AList.update i (bump_row a r) t)" using assms(2) by (simp add: distinct_update)
  show ?thesis
  proof (rule set_eqI)
    fix d
    have "(\<exists>k q. map_of (AList.update i (bump_row a r) t) k = Some q \<and> aw_severity q = ''critical'' \<and> d = day_of (aw_ts q))
      \<longleftrightarrow> (\<exists>k q. map_of t k = Some q \<and> aw_severity q = ''critical'' \<and> d = day_of (aw_ts q))" (is "?l \<longleftrightarrow> ?r")
    proof
      assume ?l
      then obtain k q where "map_of (AList.update i (bump_row a r) t) k = Some q" "aw_severity q = ''critical''"
        "d = day_of (aw_ts q)" by blast
      then show ?r using assms(1) same by (cases "k = i") (auto simp: update_conv')
    next
      assume ?r
      then obtain k q where q: "map_of t k = Some q" "aw_severity q = ''critical''" "d = day_of (aw_ts q)" by blast
      then show ?l using assms(1) same
        by (cases "k = i") (auto simp: update_conv' intro!: exI[of _ k])
    qed
    then show "d \<in> set (critical_alert_days (AList.update i (bump_row a r) t)) \<longleftrightarrow> d \<in> set (critical_alert_days t)"
      using mem[OF wf] mem[OF assms(2)] by blast
  qed
qed

theorem refiring_protects_no_day_witness:
  "let r = (alert_row_of (mk_alert ''i'' ''k'' 0))\<lparr>aw_severity := ''critical''\<rparr>;
       t' = AList.update ''i'' (bump_row (mk_alert ''j'' ''k'' (days 50)) r) [(''i'', r)]
   in aw_last_seen (the (map_of t' ''i'')) = days 50 \<and> set (critical_alert_days t') = {day_of 0}"
  using refiring_protects_no_day[of "[(''i'', (alert_row_of (mk_alert ''i'' ''k'' 0))\<lparr>aw_severity := ''critical''\<rparr>)]"
      "''i''" "(alert_row_of (mk_alert ''i'' ''k'' 0))\<lparr>aw_severity := ''critical''\<rparr>" "mk_alert ''j'' ''k'' (days 50)"]
  by (simp add: Let_def critical_alert_days_def bump_row_def Collect_conv_if2 cong: conj_cong)

end
