(* ===== verification/Quarantine.thy ===== *)
theory Quarantine
  imports Retention
begin

text \<open>
  Quarantine (\<^verbatim>\<open>quarantine/ops.py\<close>, \<^verbatim>\<open>paths.py\<close>, \<^verbatim>\<open>errors.py\<close>, \<^verbatim>\<open>ipc_handlers.py\<close>): isolating a file into the
  forensic store and unlinking the original, restoring it, deleting it, and the listing.

  The file system is a table from (directory, name) to inodes; a directory descriptor is the identity of
  the directory, so what happens to its path afterwards does not matter, as with the descriptors of the
  source. What the host does while an operation runs is in \<open>quarantine_env\<close>: other processes changing the
  directory between two calls (\<open>qe_meanwhile\<close>), calls that fail (\<open>qe_fault\<close> gives the error text), status
  updates that lose a race (\<open>qe_conflict\<close>), short writes (\<open>qe_accept\<close>).
\<close>

section \<open>Errors\<close>

datatype quarantine_kind =
    Q_request | Q_denied | Q_not_found | Q_not_regular | Q_too_large | Q_swapped | Q_isolation_failed
  | Q_io_error | Q_not_active | Q_bad_status | Q_path_occupied | Q_restore_no_parent | Q_blob_missing
  | Q_sha_mismatch

fun error_kind :: "quarantine_kind \<Rightarrow> string" where
  "error_kind Q_request = ''request''"
| "error_kind Q_denied = ''denied''"
| "error_kind Q_not_found = ''not_found''"
| "error_kind Q_not_regular = ''not_regular''"
| "error_kind Q_too_large = ''too_large''"
| "error_kind Q_swapped = ''swapped''"
| "error_kind Q_isolation_failed = ''isolation_failed''"
| "error_kind Q_io_error = ''io_error''"
| "error_kind Q_not_active = ''not_active''"
| "error_kind Q_bad_status = ''bad_status''"
| "error_kind Q_path_occupied = ''path_occupied''"
| "error_kind Q_restore_no_parent = ''restore_no_parent''"
| "error_kind Q_blob_missing = ''blob_missing''"
| "error_kind Q_sha_mismatch = ''sha_mismatch''"

type_synonym quarantine_error = "quarantine_kind \<times> string"

text \<open>An operation succeeds, is refused with a typed error, or ends with another exception.\<close>

datatype 'a outcome = Done 'a | Refused quarantine_error | Crashed

section \<open>The file system\<close>

datatype node_kind = Regular | Symlink | Directory nat | Special

record inode =
  in_dev :: int
  in_ino :: int
  in_kind :: node_kind
  in_mode :: int
  in_uid :: int
  in_gid :: int
  in_data :: string

type_synonym fsys = "(nat \<times> string, inode) table"

datatype os_error = ENOENT | ENOTDIR | ELOOP | Errno string

text \<open>\<^verbatim>\<open>_open_component\<close> and \<^verbatim>\<open>open_parent_dirfd\<close>: the walk from the root, directory 0, that follows no symbolic
  link. \<open>fault\<close> is an error such as a missing permission.\<close>

definition open_component :: "fsys \<Rightarrow> nat \<Rightarrow> string \<Rightarrow> os_error + nat" where
  "open_component fs fd component =
     (case map_of fs (fd, component) of
        None \<Rightarrow> Inl ENOENT
      | Some n \<Rightarrow> (case in_kind n of Directory d \<Rightarrow> Inr d | Symlink \<Rightarrow> Inl ELOOP | _ \<Rightarrow> Inl ENOTDIR))"

fun walk :: "fsys \<Rightarrow> nat \<Rightarrow> string list \<Rightarrow> os_error + nat" where
  "walk fs fd [] = Inr fd"
| "walk fs fd (c # cs) =
     (if c = [] then walk fs fd cs
      else case open_component fs fd c of Inl e \<Rightarrow> Inl e | Inr d \<Rightarrow> walk fs d cs)"

definition basename :: "string \<Rightarrow> string" where
  "basename p = rev (takeWhile (\<lambda>c. c \<noteq> CHR ''/'') (rev p))"

text \<open>\<^verbatim>\<open>os.path.dirname\<close>; the components are the same with and without its trailing slashes.\<close>

definition dirname :: "string \<Rightarrow> string" where
  "dirname p =
     (let h = take (length p - length (basename p)) p
      in if list_all (\<lambda>c. c = CHR ''/'') h then h
         else rev (dropWhile (\<lambda>c. c = CHR ''/'') (rev h)))"

definition open_parent_dirfd :: "string option \<Rightarrow> fsys \<Rightarrow> string \<Rightarrow> os_error + nat" where
  "open_parent_dirfd fault fs path =
     (case fault of
        Some e \<Rightarrow> Inl (Errno e)
      | None \<Rightarrow> walk fs 0 (split_on (CHR ''/'') (dirname path)))"

record quarantine_paths =
  qp_state_dir :: string
  qp_socket_dir :: string
  qp_config_path :: "string option"

definition POLKIT_DIR :: string where "POLKIT_DIR = ''/usr/share/polkit-1''"

definition rstrip_slash :: "string \<Rightarrow> string" where
  "rstrip_slash s = rev (dropWhile (\<lambda>c. c = CHR ''/'') (rev s))"

definition quarantine_deny :: "string \<Rightarrow> quarantine_paths \<Rightarrow> bool" where
  "quarantine_deny resolved paths =
     list_ex (\<lambda>entry. resolved = entry \<or> startswith resolved (rstrip_slash entry @ ''/''))
       (DENY_PREFIXES @ [POLKIT_DIR, qp_state_dir paths, qp_socket_dir paths]
        @ (case qp_config_path paths of None \<Rightarrow> [] | Some c \<Rightarrow> [c]))"

section \<open>State and environment\<close>

record quarantine_state =
  qs_db :: case_db
  qs_fs :: fsys

record quarantine_env =
  qe_id :: string
  qe_now :: datetime
  qe_realpath :: "string \<Rightarrow> string"
  qe_pacman :: "string \<Rightarrow> (int \<times> string) option"
  qe_procs :: "(string \<times> (int \<times> int) option \<times> string) list"
  qe_blob_stat :: "string \<Rightarrow> (int \<times> int) option"
  qe_store_root :: string
  qe_meanwhile :: "fsys \<Rightarrow> fsys"
  qe_fault :: "string \<Rightarrow> string option"
  qe_conflict :: "string \<Rightarrow> bool"
  qe_accept :: "nat \<Rightarrow> nat \<Rightarrow> nat"
  qe_new_inode :: "int \<times> int"
  qe_audit :: audit_call

definition MAX_QUARANTINE_BYTES :: nat where "MAX_QUARANTINE_BYTES = 256 * 1024 * 1024"
definition STREAM_CHUNK_BYTES :: nat where "STREAM_CHUNK_BYTES = 1024 * 1024"

function chunks_of :: "nat \<Rightarrow> string \<Rightarrow> string list" where
  "chunks_of n s = (if s = [] \<or> n = 0 then [] else take n s # chunks_of n (drop n s))"
  by pat_completeness auto
termination
  by (relation "measure (\<lambda>(n, s). length s)") auto

declare chunks_of.simps [simp del]

section \<open>Guarded status updates\<close>

datatype ts_column = No_ts | Restored_at | Deleted_at

fun stamp :: "ts_column \<Rightarrow> datetime \<Rightarrow> quarantine_row \<Rightarrow> quarantine_row" where
  "stamp No_ts now r = r"
| "stamp Restored_at now r = r\<lparr>qr_restored_at := Some now\<rparr>"
| "stamp Deleted_at now r = r\<lparr>qr_deleted_at := Some now\<rparr>"

definition cas ::
  "quarantine_env \<Rightarrow> string \<Rightarrow> string list \<Rightarrow> string \<Rightarrow> ts_column \<Rightarrow> case_db \<Rightarrow> bool \<times> case_db" where
  "cas env qid from_statuses to_status col db =
     (case map_of (cd_quarantine db) qid of
        None \<Rightarrow> (False, db)
      | Some r \<Rightarrow>
          if qe_conflict env to_status \<or> qr_status r \<notin> set from_statuses then (False, db)
          else (True, db\<lparr>cd_quarantine :=
                  AList.update qid (stamp col (qe_now env) (r\<lparr>qr_status := to_status\<rparr>)) (cd_quarantine db)\<rparr>))"

section \<open>Isolation\<close>

text \<open>The owner is the first line \<^verbatim>\<open>pacman -Qqo\<close> prints on exit 0; the argument is the exit code and the
  output, \<open>None\<close> when it could not run.\<close>

definition pacman_owner :: "(int \<times> string) option \<Rightarrow> string option" where
  "pacman_owner res =
     (case res of
        None \<Rightarrow> None
      | Some (rc, out) \<Rightarrow>
          if rc \<noteq> 0 then None
          else (case splitlines (strip out) of [] \<Rightarrow> None | l # _ \<Rightarrow> if l = [] then None else Some l))"

text \<open>The entries of \<^verbatim>\<open>/proc\<close> with the inode of their \<^verbatim>\<open>exe\<close> (\<open>None\<close>: unreadable) and their command name.\<close>

definition running_from_inode ::
  "(string \<times> (int \<times> int) option \<times> string) list \<Rightarrow> int \<Rightarrow> int \<Rightarrow> (int \<times> string) list" where
  "running_from_inode procs dev ino =
     concat (map (\<lambda>(name, exe, comm).
        if name \<noteq> [] \<and> list_all ascii_digit name \<and> exe = Some (dev, ino)
        then [(int (digits_value name), strip comm)] else []) procs)"

definition validate_target :: "quarantine_env \<Rightarrow> quarantine_paths \<Rightarrow> string \<Rightarrow> quarantine_error option" where
  "validate_target env paths path =
     (if \<not> startswith path ''/'' \<or> ''..'' \<in> set (split_on (CHR ''/'') path)
        then Some (Q_denied, ''path must be absolute, without '' @ [CHR 0x27] @ ''..'' @ [CHR 0x27] @ '': '' @ repr_str path)
      else if basename path = [] then Some (Q_not_regular, ''directories cannot be quarantined'')
      else if quarantine_deny (qe_realpath env path) paths
        then Some (Q_denied, ''path is on the quarantine deny-list: '' @ repr_str path)
      else None)"

definition open_parent :: "quarantine_env \<Rightarrow> fsys \<Rightarrow> string \<Rightarrow> quarantine_error + nat" where
  "open_parent env fs path =
     (case open_parent_dirfd (qe_fault env ''open_parent'') fs path of
        Inr fd \<Rightarrow> Inr fd
      | Inl ELOOP \<Rightarrow> Inl (Q_denied, ''parent path of '' @ repr_str path @ '' contains a symlink component'')
      | Inl (Errno e) \<Rightarrow> Inl (Q_io_error, ''cannot open parent directory of '' @ repr_str path)
      | Inl _ \<Rightarrow> Inl (Q_not_found, ''parent directory of '' @ repr_str path @ '' does not exist''))"

definition open_target :: "quarantine_env \<Rightarrow> fsys \<Rightarrow> nat \<Rightarrow> string \<Rightarrow> quarantine_error + inode" where
  "open_target env fs dirfd path =
     (case qe_fault env ''open_target'' of
        Some e \<Rightarrow> Inl (Q_io_error, ''cannot open '' @ repr_str path @ '': '' @ e)
      | None \<Rightarrow>
          (case map_of fs (dirfd, basename path) of
             None \<Rightarrow> Inl (Q_not_found, ''no such file: '' @ repr_str path)
           | Some n \<Rightarrow>
               if in_kind n = Symlink
               then Inl (Q_not_regular, repr_str path @ '' is a symlink; quarantining it would leave the target in place'')
               else Inr n))"

record isolate_args =
  ia_path :: string
  ia_alert_id :: "string option"
  ia_case_id :: "string option"
  ia_note :: "string option"

definition isolating_row ::
  "quarantine_env \<Rightarrow> isolate_args \<Rightarrow> inode \<Rightarrow> string option \<Rightarrow> string \<Rightarrow> nat \<Rightarrow> quarantine_row" where
  "isolating_row env args st pkg h sz =
     \<lparr>qr_sha = h, qr_path = ia_path args, qr_mode = in_mode st mod 4096, qr_uid = in_uid st,
      qr_gid = in_gid st, qr_size = sz, qr_pkg_owner = pkg, qr_note = ia_note args,
      qr_alert_id = ia_alert_id args, qr_case_id = ia_case_id args, qr_status = ''isolating'',
      qr_quarantined_at = qe_now env, qr_restored_at = None, qr_deleted_at = None\<rparr>"

text \<open>Streaming and the \<^verbatim>\<open>isolating\<close> row, under the capture lock. A blob that was stored stays when the
  capture is refused afterwards.\<close>

definition quarantine_capture ::
  "(string \<Rightarrow> string) \<Rightarrow> quarantine_env \<Rightarrow> nat \<Rightarrow> isolate_args \<Rightarrow> inode \<Rightarrow> string option \<Rightarrow> case_db \<Rightarrow> (string \<times> nat) outcome \<times> case_db" where
  "quarantine_capture sha env max_bytes args st pkg db =
     (case put_stream sha max_bytes (chunks_of STREAM_CHUNK_BYTES (in_data st)) db of
        None \<Rightarrow> (Refused (Q_too_large, repr_str (ia_path args) @ '' exceeds the '' @ nat_str max_bytes
                   @ ''-byte quarantine cap; nothing was stored''), db)
      | Some (h, sz, db1) \<Rightarrow>
          if qe_blob_stat env h = Some (in_dev st, in_ino st)
             \<or> startswith (qe_realpath env (ia_path args)) (rstrip_slash (qe_store_root env) @ ''/'')
          then (Refused (Q_denied, repr_str (ia_path args) @ '' is inside the forensic store''), db1)
          else if map_of (cd_quarantine db1) (qe_id env) \<noteq> None then (Crashed, db1)
          else (Done (h, sz),
                db1\<lparr>cd_quarantine := AList.update (qe_id env)
                  (isolating_row env args st pkg h sz) (cd_quarantine db1)\<rparr>))"

definition unlink_guarded ::
  "quarantine_env \<Rightarrow> nat \<Rightarrow> string \<Rightarrow> inode \<Rightarrow> quarantine_state \<Rightarrow> unit outcome \<times> quarantine_state" where
  "unlink_guarded env dirfd path st s =
     (let key = (dirfd, basename path);
          same = (case map_of (qs_fs s) key of
                    None \<Rightarrow> False
                  | Some n \<Rightarrow> (in_dev n, in_ino n) = (in_dev st, in_ino st))
      in if \<not> same then
           (Refused (Q_swapped, repr_str path @ '' changed between capture and unlink; nothing was removed (the captured copy is in the forensic store)''),
            s\<lparr>qs_db := snd (cas env (qe_id env) [''isolating''] ''failed'' No_ts (qs_db s))\<rparr>)
         else (case qe_fault env ''unlink'' of
                 Some e \<Rightarrow>
                   (Refused (Q_isolation_failed, ''could not remove '' @ repr_str path @ '' ('' @ e
                      @ ''); the captured copy IS in the forensic store''),
                    s\<lparr>qs_db := snd (cas env (qe_id env) [''isolating''] ''failed'' No_ts (qs_db s))\<rparr>)
               | None \<Rightarrow>
                   (case cas env (qe_id env) [''isolating''] ''active'' No_ts (qs_db s) of
                      (ok, db') \<Rightarrow>
                        (if ok then Done () else Refused (Q_io_error, ''quarantine row changed status mid-isolation''),
                         s\<lparr>qs_fs := delete_where (\<lambda>k _. k = key) (qs_fs s), qs_db := db'\<rparr>))))"

record isolate_result =
  ir_id :: string
  ir_sha :: string
  ir_pkg_owner :: "string option"
  ir_running :: "(int \<times> string) list"
  ir_warnings :: "string list"

definition RUNNING_WARNING :: string where
  "RUNNING_WARNING = ''processes already running from this file are NOT stopped''"

definition isolate_inner ::
  "(string \<Rightarrow> string) \<Rightarrow> quarantine_env \<Rightarrow> quarantine_paths \<Rightarrow> nat \<Rightarrow> isolate_args \<Rightarrow> quarantine_state
   \<Rightarrow> isolate_result outcome \<times> quarantine_state" where
  "isolate_inner sha env paths max_bytes args s =
     (case validate_target env paths (ia_path args) of
        Some e \<Rightarrow> (Refused e, s)
      | None \<Rightarrow>
     (case open_parent env (qs_fs s) (ia_path args) of
        Inl e \<Rightarrow> (Refused e, s)
      | Inr dirfd \<Rightarrow>
     (case open_target env (qs_fs s) dirfd (ia_path args) of
        Inl e \<Rightarrow> (Refused e, s)
      | Inr st \<Rightarrow>
          if in_kind st \<noteq> Regular
          then (Refused (Q_not_regular, repr_str (ia_path args) @ '' is not a regular file''), s)
          else
     (let pkg = pacman_owner (qe_pacman env (ia_path args))
      in case quarantine_capture sha env max_bytes args st pkg (qs_db s) of
           (Refused e, db1) \<Rightarrow> (Refused e, s\<lparr>qs_db := db1\<rparr>)
         | (Crashed, db1) \<Rightarrow> (Crashed, s\<lparr>qs_db := db1\<rparr>)
         | (Done (h, _), db1) \<Rightarrow>
             (case unlink_guarded env dirfd (ia_path args) st \<lparr>qs_db = db1, qs_fs = qe_meanwhile env (qs_fs s)\<rparr> of
                (Refused e, s2) \<Rightarrow> (Refused e, s2)
              | (Crashed, s2) \<Rightarrow> (Crashed, s2)
              | (Done _, s2) \<Rightarrow>
                  (let running = running_from_inode (qe_procs env) (in_dev st) (in_ino st)
                   in (Done \<lparr>ir_id = qe_id env, ir_sha = h, ir_pkg_owner = pkg, ir_running = running,
                             ir_warnings =
                               (case pkg of None \<Rightarrow> [] | Some p \<Rightarrow> [''file is owned by package '' @ p])
                               @ (if running \<noteq> [] then [RUNNING_WARNING] else [])\<rparr>, s2)))))))"

definition q_audit :: "(string \<Rightarrow> string) \<Rightarrow> quarantine_env \<Rightarrow> string \<Rightarrow> string \<Rightarrow> string \<Rightarrow> pydict \<Rightarrow> quarantine_state \<Rightarrow> quarantine_state" where
  "q_audit sha env actor act target details s =
     s\<lparr>qs_db := audit_note sha (qe_audit env) actor act target (details_of details) (qs_db s)\<rparr>"

definition q_refused :: "(string \<Rightarrow> string) \<Rightarrow> quarantine_env \<Rightarrow> string \<Rightarrow> string \<Rightarrow> string \<Rightarrow> quarantine_error \<Rightarrow> quarantine_state \<Rightarrow> quarantine_state" where
  "q_refused sha env actor verb target e =
     q_audit sha env actor ''quarantine_refused'' target
       [(''verb'', PStr verb), (''error_kind'', PStr (error_kind (fst e))), (''error'', PStr (snd e))]"

definition q_timeline :: "quarantine_env \<Rightarrow> string option \<Rightarrow> string \<Rightarrow> string \<Rightarrow> quarantine_state \<Rightarrow> quarantine_state" where
  "q_timeline env case_id kind txt s =
     (case case_id of
        None \<Rightarrow> s
      | Some c \<Rightarrow> s\<lparr>qs_db := append_timeline (qe_now env) c kind (Some txt) (qs_db s)\<rparr>)"

definition opt_pstr :: "string option \<Rightarrow> pyval" where
  "opt_pstr x = (case x of None \<Rightarrow> PNone | Some v \<Rightarrow> PStr v)"

definition isolate ::
  "(string \<Rightarrow> string) \<Rightarrow> quarantine_env \<Rightarrow> quarantine_paths \<Rightarrow> nat \<Rightarrow> string \<Rightarrow> isolate_args \<Rightarrow> quarantine_state
   \<Rightarrow> isolate_result outcome \<times> quarantine_state" where
  "isolate sha env paths max_bytes actor args s =
     (case isolate_inner sha env paths max_bytes args s of
        (Crashed, s1) \<Rightarrow> (Crashed, s1)
      | (Refused e, s1) \<Rightarrow> (Refused e, q_refused sha env actor ''quarantine'' (ia_path args) e s1)
      | (Done r, s1) \<Rightarrow>
          (Done r, q_timeline env (ia_case_id args) ''file_quarantined'' (ia_path args)
             (q_audit sha env actor ''file_quarantined'' (ia_path args)
                [(''quarantine_id'', PStr (ir_id r)), (''sha256'', PStr (ir_sha r)),
                 (''pkg_owner'', opt_pstr (ir_pkg_owner r)),
                 (''running_pids'', PList (map (\<lambda>(p, _). PInt p) (ir_running r))),
                 (''alert_id'', opt_pstr (ia_alert_id args)), (''case_id'', opt_pstr (ia_case_id args))] s1)))"

section \<open>Restoring\<close>

record restore_result =
  rr_qid :: string
  rr_path :: string
  rr_sha :: string
  rr_setuid_warning :: bool

definition verify_blob :: "(string \<Rightarrow> string) \<Rightarrow> string \<Rightarrow> case_db \<Rightarrow> quarantine_error + string" where
  "verify_blob sha h db =
     (case map_of (cd_blobs db) h of
        None \<Rightarrow> Inl (Q_blob_missing, ''stored blob for sha256 '' @ h @ '' is missing from the forensic store (backup/store drift?)'')
      | Some data \<Rightarrow>
          if sha data \<noteq> h
          then Inl (Q_sha_mismatch, ''stored blob content does not match the recorded sha256 '' @ h)
          else Inr data)"

text \<open>The dash of this message is U+2014 in the source.\<close>

definition open_parent_for_restore :: "quarantine_env \<Rightarrow> fsys \<Rightarrow> string \<Rightarrow> quarantine_error + nat" where
  "open_parent_for_restore env fs path =
     (case open_parent_dirfd (qe_fault env ''open_parent'') fs path of
        Inr fd \<Rightarrow> Inr fd
      | Inl ELOOP \<Rightarrow> Inl (Q_denied, ''parent path of '' @ repr_str path @ '' contains a symlink component'')
      | Inl (Errno e) \<Rightarrow> Inl (Q_io_error, ''cannot open parent directory of '' @ repr_str path)
      | Inl _ \<Rightarrow> Inl (Q_restore_no_parent, ''parent directory '' @ repr_str (dirname path)
           @ '' no longer exists - recreate it, then retry (quarantine records no directory metadata to recreate it faithfully)''))"

text \<open>
  The bytes that reach the temporary file: \<^verbatim>\<open>os.write\<close> may accept fewer bytes than it is given, and the
  loop does not look at its result. \<open>qe_accept k n\<close> is the number accepted of the \<open>n\<close> bytes of chunk \<open>k\<close>.
\<close>

fun write_chunks :: "(nat \<Rightarrow> nat \<Rightarrow> nat) \<Rightarrow> nat \<Rightarrow> string list \<Rightarrow> string" where
  "write_chunks accept k [] = []"
| "write_chunks accept k (c # cs) = take (accept k (length c)) c @ write_chunks accept (Suc k) cs"

text \<open>The commit links without replacing; the temporary name is gone on every path.\<close>

definition write_and_commit ::
  "quarantine_env \<Rightarrow> nat \<Rightarrow> string \<Rightarrow> quarantine_row \<Rightarrow> string \<Rightarrow> fsys \<Rightarrow> quarantine_error option \<times> fsys" where
  "write_and_commit env dirfd path r data fs =
     (case qe_fault env ''write'' of
        Some e \<Rightarrow> (Some (Q_io_error, ''restore failed: '' @ e), fs)
      | None \<Rightarrow>
          (if map_of fs (dirfd, basename path) \<noteq> None
           then (Some (Q_path_occupied, repr_str path @ '' already exists; something re-created it after quarantine. The existing file is untouched - that re-creation is evidence''), fs)
           else (None, AList.update (dirfd, basename path)
                   \<lparr>in_dev = fst (qe_new_inode env), in_ino = snd (qe_new_inode env), in_kind = Regular, in_mode = qr_mode r, in_uid = qr_uid r,
                    in_gid = qr_gid r, in_data = write_chunks (qe_accept env) 0 (chunks_of STREAM_CHUNK_BYTES data)\<rparr> fs)))"

definition restore_disk ::
  "(string \<Rightarrow> string) \<Rightarrow> quarantine_env \<Rightarrow> quarantine_paths \<Rightarrow> quarantine_row \<Rightarrow> quarantine_state \<Rightarrow> quarantine_error option \<times> fsys" where
  "restore_disk sha env paths r s =
     (case verify_blob sha (qr_sha r) (qs_db s) of
        Inl e \<Rightarrow> (Some e, qs_fs s)
      | Inr data \<Rightarrow>
          if quarantine_deny (qe_realpath env (qr_path r)) paths
          then (Some (Q_denied, ''restore path is on the quarantine deny-list: '' @ repr_str (qr_path r)), qs_fs s)
          else (case open_parent_for_restore env (qs_fs s) (qr_path r) of
                  Inl e \<Rightarrow> (Some e, qs_fs s)
                | Inr dirfd \<Rightarrow> write_and_commit env dirfd (qr_path r) r data (qs_fs s)))"

definition quoted_status :: "string \<Rightarrow> case_db \<Rightarrow> string" where
  "quoted_status qid db = (case map_of (cd_quarantine db) qid of None \<Rightarrow> '''' | Some r \<Rightarrow> qr_status r)"

definition restore_inner ::
  "(string \<Rightarrow> string) \<Rightarrow> quarantine_env \<Rightarrow> quarantine_paths \<Rightarrow> string \<Rightarrow> quarantine_state
   \<Rightarrow> (restore_result \<times> string option) outcome \<times> quarantine_state" where
  "restore_inner sha env paths qid s =
     (case map_of (cd_quarantine (qs_db s)) qid of
        None \<Rightarrow> (Refused (Q_not_found, ''no quarantine row with id '' @ repr_str qid), s)
      | Some r \<Rightarrow>
     (case cas env qid [''active''] ''restoring'' No_ts (qs_db s) of
        (False, db1) \<Rightarrow>
          (Refused (Q_not_active, ''quarantine '' @ qid @ '' is not active (status: '' @ quoted_status qid db1
             @ ''); nothing restored''), s\<lparr>qs_db := db1\<rparr>)
      | (True, db1) \<Rightarrow>
          (case restore_disk sha env paths r (s\<lparr>qs_db := db1\<rparr>) of
             (Some e, fs1) \<Rightarrow>
               (Refused e, \<lparr>qs_db = snd (cas env qid [''restoring''] ''active'' No_ts db1), qs_fs = fs1\<rparr>)
           | (None, fs1) \<Rightarrow>
               (case cas env qid [''restoring''] ''restored'' Restored_at db1 of
                  (False, db2) \<Rightarrow>
                    (Refused (Q_io_error, ''quarantine row changed status mid-restore''), \<lparr>qs_db = db2, qs_fs = fs1\<rparr>)
                | (True, db2) \<Rightarrow>
                    (Done (\<lparr>rr_qid = qid, rr_path = qr_path r, rr_sha = qr_sha r,
                            rr_setuid_warning = (qr_mode r div 1024 mod 4 \<noteq> 0)\<rparr>, qr_case_id r),
                     \<lparr>qs_db = db2, qs_fs = fs1\<rparr>)))))"

definition restore ::
  "(string \<Rightarrow> string) \<Rightarrow> quarantine_env \<Rightarrow> quarantine_paths \<Rightarrow> string \<Rightarrow> string \<Rightarrow> quarantine_state
   \<Rightarrow> restore_result outcome \<times> quarantine_state" where
  "restore sha env paths actor qid s =
     (case restore_inner sha env paths qid s of
        (Crashed, s1) \<Rightarrow> (Crashed, s1)
      | (Refused e, s1) \<Rightarrow> (Refused e, q_refused sha env actor ''restore'' qid e s1)
      | (Done (r, case_id), s1) \<Rightarrow>
          (Done r, q_timeline env case_id ''quarantine_restored'' (rr_path r)
             (q_audit sha env actor ''quarantine_restored'' (rr_path r)
                [(''quarantine_id'', PStr (rr_qid r)), (''sha256'', PStr (rr_sha r)),
                 (''setuid_warning'', PBool (rr_setuid_warning r))] s1)))"

section \<open>Deleting\<close>

record delete_result =
  dr_qid :: string
  dr_path :: string
  dr_blob_removed :: bool

text \<open>The section under the capture lock: the blob goes only when nothing else refers to its digest.\<close>

definition blob_held :: "string \<Rightarrow> string \<Rightarrow> case_db \<Rightarrow> bool" where
  "blob_held qid h db =
     (list_ex (\<lambda>(k, _). ek_sha k = h) (cd_evidence db)
      \<or> list_ex (\<lambda>(i, q). qr_sha q = h \<and> i \<noteq> qid \<and> qr_status q \<noteq> ''deleted'') (cd_quarantine db))"

definition delete_locked :: "string \<Rightarrow> string \<Rightarrow> case_db \<Rightarrow> bool \<times> case_db" where
  "delete_locked qid h db =
     (if \<not> blob_held qid h db \<and> has_blob db h then (True, unlink_blob h db) else (False, db))"

definition delete_inner ::
  "quarantine_env \<Rightarrow> string \<Rightarrow> quarantine_state \<Rightarrow> (delete_result \<times> string option) outcome \<times> quarantine_state" where
  "delete_inner env qid s =
     (case map_of (cd_quarantine (qs_db s)) qid of
        None \<Rightarrow> (Refused (Q_not_found, ''no quarantine row with id '' @ repr_str qid), s)
      | Some r \<Rightarrow>
     (case cas env qid [''active'', ''restored'', ''failed''] ''deleting'' No_ts (qs_db s) of
        (False, db1) \<Rightarrow>
          (Refused (Q_bad_status, ''quarantine '' @ qid @ '' cannot be deleted from status ''
             @ repr_str (quoted_status qid db1)), s\<lparr>qs_db := db1\<rparr>)
      | (True, db1) \<Rightarrow>
          if qe_fault env ''unlink_blob'' \<noteq> None \<and> fst (delete_locked qid (qr_sha r) db1)
          then (Crashed, s\<lparr>qs_db := db1\<rparr>)
          else
          (case delete_locked qid (qr_sha r) db1 of
             (removed, db2) \<Rightarrow>
               (case cas env qid [''deleting''] ''deleted'' Deleted_at db2 of
                  (False, db3) \<Rightarrow>
                    (Refused (Q_io_error, ''quarantine row changed status mid-delete''), s\<lparr>qs_db := db3\<rparr>)
                | (True, db3) \<Rightarrow>
                    (Done (\<lparr>dr_qid = qid, dr_path = qr_path r, dr_blob_removed = removed\<rparr>, qr_case_id r),
                     s\<lparr>qs_db := db3\<rparr>)))))"

definition delete_quarantined ::
  "(string \<Rightarrow> string) \<Rightarrow> quarantine_env \<Rightarrow> string \<Rightarrow> string \<Rightarrow> quarantine_state \<Rightarrow> delete_result outcome \<times> quarantine_state" where
  "delete_quarantined sha env actor qid s =
     (case delete_inner env qid s of
        (Crashed, s1) \<Rightarrow> (Crashed, s1)
      | (Refused e, s1) \<Rightarrow> (Refused e, q_refused sha env actor ''delete'' qid e s1)
      | (Done (r, case_id), s1) \<Rightarrow>
          (Done r, q_timeline env case_id ''quarantine_deleted'' (dr_path r)
             (q_audit sha env actor ''quarantine_deleted'' (dr_path r)
                [(''quarantine_id'', PStr (dr_qid r)), (''blob_removed'', PBool (dr_blob_removed r))] s1)))"

section \<open>Listing and reconciliation\<close>

text \<open>\<open>lexists\<close> tells whether a path exists on disk.\<close>

definition health_flags :: "(string \<Rightarrow> bool) \<Rightarrow> case_db \<Rightarrow> quarantine_row \<Rightarrow> string list" where
  "health_flags lexists db r =
     (if qr_status r \<in> {''isolating'', ''failed''} then [''isolation_incomplete''] else [])
     @ (if qr_status r = ''active'' \<and> lexists (qr_path r) then [''file_still_present''] else [])
     @ (if qr_status r \<noteq> ''deleted'' \<and> \<not> has_blob db (qr_sha r) then [''blob_missing''] else [])"

definition LIST_LIMIT_DEFAULT :: int where "LIST_LIMIT_DEFAULT = 200"
definition LIST_LIMIT_MAX :: int where "LIST_LIMIT_MAX = 1000"

definition list_quarantine ::
  "(string \<Rightarrow> bool) \<Rightarrow> int \<Rightarrow> case_db \<Rightarrow> (string \<times> quarantine_row \<times> string list) list \<times> int" where
  "list_quarantine lexists limit db =
     (let lim = max 1 (min limit LIST_LIMIT_MAX)
      in (map (\<lambda>(i, r). (i, r, health_flags lexists db r))
            (take (nat lim) (rev (sort_key (\<lambda>(_, r). qr_quarantined_at r) (sort_key fst (cd_quarantine db))))), lim))"

definition log_incomplete_isolations :: "case_db \<Rightarrow> nat" where
  "log_incomplete_isolations db = length (filter (\<lambda>(_, r). qr_status r = ''isolating'') (cd_quarantine db))"

section \<open>IPC handlers\<close>

datatype quarantine_reply =
    Q_failure quarantine_error
  | Q_isolated isolate_result
  | Q_restored restore_result
  | Q_deleted delete_result
  | Q_listing "(string \<times> quarantine_row \<times> string list) list" int
  | Q_raised

definition TARGET_AUDIT_MAX_CHARS :: nat where "TARGET_AUDIT_MAX_CHARS = 512"

definition required_str :: "pydict \<Rightarrow> string \<Rightarrow> quarantine_error + string" where
  "required_str params key =
     (case dget params key of PStr s \<Rightarrow> if s = [] then Inl (Q_request, key @ '' is required'') else Inr s
      | _ \<Rightarrow> Inl (Q_request, key @ '' is required''))"

definition optional_str :: "pydict \<Rightarrow> string \<Rightarrow> quarantine_error + string option" where
  "optional_str params key =
     (case dget params key of PNone \<Rightarrow> Inr None | PStr s \<Rightarrow> Inr (Some s)
      | _ \<Rightarrow> Inl (Q_request, key @ '' must be a string''))"

definition check_reference :: "bool \<Rightarrow> string \<Rightarrow> string \<Rightarrow> quarantine_error option" where
  "check_reference present what v =
     (if present then None else Some (Q_request, ''no such '' @ what @ '': '' @ repr_str v))"

text \<open>The peer the server injected, as uid and pid.\<close>

definition q_actor :: "(int \<times> int) option \<Rightarrow> string" where
  "q_actor peer = (case peer of None \<Rightarrow> ''user:local'' | Some (u, p) \<Rightarrow> ''uid:'' @ int_str u @ '':pid:'' @ int_str p)"

definition audit_refusal ::
  "(string \<Rightarrow> string) \<Rightarrow> quarantine_env \<Rightarrow> string \<Rightarrow> string \<Rightarrow> string \<Rightarrow> quarantine_error \<Rightarrow> quarantine_state \<Rightarrow> quarantine_state" where
  "audit_refusal sha env actor verb target e = q_refused sha env actor verb (take TARGET_AUDIT_MAX_CHARS target) e"

definition isolate_request :: "pydict \<Rightarrow> case_db \<Rightarrow> quarantine_error + isolate_args" where
  "isolate_request params db =
     (case required_str params ''path'' of
        Inl e \<Rightarrow> Inl e
      | Inr path \<Rightarrow>
          if \<not> startswith path ''/'' then Inl (Q_request, ''path must be absolute: '' @ repr_str path)
          else (case (optional_str params ''note'', optional_str params ''alert_id'', optional_str params ''case_id'') of
                  (Inl e, _, _) \<Rightarrow> Inl e
                | (_, Inl e, _) \<Rightarrow> Inl e
                | (_, _, Inl e) \<Rightarrow> Inl e
                | (Inr note, Inr alert_id, Inr case_id) \<Rightarrow>
                    (case (case alert_id of None \<Rightarrow> None
                           | Some a \<Rightarrow> check_reference (map_of (cd_alerts db) a \<noteq> None) ''alert'' a) of
                       Some e \<Rightarrow> Inl e
                     | None \<Rightarrow>
                         (case (case case_id of None \<Rightarrow> None
                                | Some c \<Rightarrow> check_reference (case_exists c db) ''case'' c) of
                            Some e \<Rightarrow> Inl e
                          | None \<Rightarrow> Inr \<lparr>ia_path = path, ia_alert_id = alert_id, ia_case_id = case_id,
                                         ia_note = note\<rparr>))))"

definition handle_quarantine_file ::
  "(string \<Rightarrow> string) \<Rightarrow> quarantine_env \<Rightarrow> quarantine_paths \<Rightarrow> (int \<times> int) option \<Rightarrow> pydict \<Rightarrow> quarantine_state
   \<Rightarrow> quarantine_reply \<times> quarantine_state" where
  "handle_quarantine_file sha env paths peer params s =
     (case isolate_request params (qs_db s) of
        Inl e \<Rightarrow>
          (Q_failure e, audit_refusal sha env (q_actor peer) ''quarantine''
             (case required_str params ''path'' of Inl _ \<Rightarrow> ''?'' | Inr p \<Rightarrow> p) e s)
      | Inr args \<Rightarrow>
          (case isolate sha env paths MAX_QUARANTINE_BYTES (q_actor peer) args s of
             (Refused e, s1) \<Rightarrow> (Q_failure e, s1)
           | (Crashed, s1) \<Rightarrow> (Q_raised, s1)
           | (Done r, s1) \<Rightarrow> (Q_isolated r, s1)))"

definition handle_list_quarantine ::
  "(pyval \<Rightarrow> string) \<Rightarrow> (string \<Rightarrow> bool) \<Rightarrow> pydict \<Rightarrow> quarantine_state \<Rightarrow> quarantine_reply" where
  "handle_list_quarantine ostr lexists params s =
     (case dget params ''limit'' of
        PNone \<Rightarrow> (case list_quarantine lexists LIST_LIMIT_DEFAULT (qs_db s) of (rows, l) \<Rightarrow> Q_listing rows l)
      | v \<Rightarrow>
          (case int_of v of
             None \<Rightarrow> Q_failure (Q_request, ''limit must be a whole number, got '' @ py_repr ostr v)
           | Some n \<Rightarrow> (case list_quarantine lexists n (qs_db s) of (rows, l) \<Rightarrow> Q_listing rows l)))"

definition handle_restore_quarantined ::
  "(string \<Rightarrow> string) \<Rightarrow> quarantine_env \<Rightarrow> quarantine_paths \<Rightarrow> (int \<times> int) option \<Rightarrow> pydict \<Rightarrow> quarantine_state
   \<Rightarrow> quarantine_reply \<times> quarantine_state" where
  "handle_restore_quarantined sha env paths peer params s =
     (case required_str params ''quarantine_id'' of
        Inl e \<Rightarrow> (Q_failure e, audit_refusal sha env (q_actor peer) ''restore'' ''?'' e s)
      | Inr qid \<Rightarrow>
          (case restore sha env paths (q_actor peer) qid s of
             (Refused e, s1) \<Rightarrow> (Q_failure e, s1)
           | (Crashed, s1) \<Rightarrow> (Q_raised, s1)
           | (Done r, s1) \<Rightarrow> (Q_restored r, s1)))"

definition handle_delete_quarantined ::
  "(string \<Rightarrow> string) \<Rightarrow> quarantine_env \<Rightarrow> (int \<times> int) option \<Rightarrow> pydict \<Rightarrow> quarantine_state
   \<Rightarrow> quarantine_reply \<times> quarantine_state" where
  "handle_delete_quarantined sha env peer params s =
     (case required_str params ''quarantine_id'' of
        Inl e \<Rightarrow> (Q_failure e, audit_refusal sha env (q_actor peer) ''delete'' ''?'' e s)
      | Inr qid \<Rightarrow>
          (case delete_quarantined sha env (q_actor peer) qid s of
             (Refused e, s1) \<Rightarrow> (Q_failure e, s1)
           | (Crashed, s1) \<Rightarrow> (Q_raised, s1)
           | (Done r, s1) \<Rightarrow> (Q_deleted r, s1)))"

end
