(* ===== verification/Custody.thy ===== *)
theory Custody
  imports Quarantine
begin

text \<open>
  What quarantine and evidence promise together: an isolated file comes back as it was, a row never claims
  more than what happened on disk, and no interleaving of captures, quarantine operations and retention
  loses the bytes something still refers to.
\<close>

section \<open>Streams\<close>

lemma chunks_of_simps: "chunks_of n [] = []"
  "n \<noteq> 0 \<Longrightarrow> s \<noteq> [] \<Longrightarrow> chunks_of n s = take n s # chunks_of n (drop n s)"
  by (simp_all add: chunks_of.simps)

lemma concat_chunks: "n \<noteq> 0 \<Longrightarrow> concat (chunks_of n s) = s"
proof (induction n s rule: chunks_of.induct)
  case (1 n s)
  then show ?case by (cases "s = []") (auto simp: chunks_of_simps)
qed

lemma chunks_nonempty: "n \<noteq> 0 \<Longrightarrow> [] \<notin> set (chunks_of n s)"
proof (induction n s rule: chunks_of.induct)
  case (1 n s)
  then show ?case by (cases "s = []") (auto simp: chunks_of_simps)
qed

lemma read_chunks_concat:
  "[] \<notin> set cs \<Longrightarrow> length acc \<le> m \<Longrightarrow>
     read_chunks m cs acc = (if length (acc @ concat cs) \<le> m then Some (acc @ concat cs) else None)"
  by (induction m cs acc rule: read_chunks.induct) auto

lemma STREAM_CHUNK_pos [simp]: "STREAM_CHUNK_BYTES \<noteq> 0"
  by (simp add: STREAM_CHUNK_BYTES_def)

text \<open>Streaming a file is storing its whole content, or refusing it.\<close>

lemma put_stream_file:
  "put_stream sha m (chunks_of STREAM_CHUNK_BYTES data) db =
     (if length data \<le> m then Some (sha data, length data, snd (store_put sha data db)) else None)"
  using read_chunks_concat[OF chunks_nonempty[OF STREAM_CHUNK_pos, of data], of "[]" m]
  by (simp add: put_stream_def concat_chunks store_put_def Let_def)

lemma write_chunks_full: "(\<And>k n. accept k n = n) \<Longrightarrow> write_chunks accept j cs = concat cs"
  by (induction cs arbitrary: j) auto

section \<open>Blobs and rows\<close>

lemma store_put_simps [simp]:
  "fst (store_put sha data db) = sha data"
  "cd_quarantine (snd (store_put sha data db)) = cd_quarantine db"
  "cd_evidence (snd (store_put sha data db)) = cd_evidence db"
  "has_blob (snd (store_put sha data db)) h \<longleftrightarrow> h = sha data \<or> has_blob db h"
  by (auto simp: store_put_def Let_def has_blob_def update_conv')

lemma store_put_content:
  "map_of (cd_blobs db) (sha data) \<in> {None, Some data} \<Longrightarrow> map_of (cd_blobs (snd (store_put sha data db))) (sha data) = Some data"
  by (auto simp: store_put_def Let_def has_blob_def update_conv')

lemma cas_simps [simp]:
  "cd_blobs (snd (cas env qid fr t col db)) = cd_blobs db"
  "cd_evidence (snd (cas env qid fr t col db)) = cd_evidence db"
  "has_blob (snd (cas env qid fr t col db)) h = has_blob db h"
  by (auto simp: cas_def has_blob_def split: option.split)

lemma stamp_simps [simp]: "qr_sha (stamp col now r) = qr_sha r" "qr_status (stamp col now r) = qr_status r"
  "qr_path (stamp col now r) = qr_path r" "qr_mode (stamp col now r) = qr_mode r"
  "qr_uid (stamp col now r) = qr_uid r" "qr_gid (stamp col now r) = qr_gid r"
  by (cases col; simp)+

lemma map_of_cas:
  "map_of (cd_quarantine (snd (cas env qid fr t col db))) i =
     (case map_of (cd_quarantine db) i of
        None \<Rightarrow> None
      | Some r \<Rightarrow> if i = qid \<and> \<not> qe_conflict env t \<and> qr_status r \<in> set fr
                  then Some (stamp col (qe_now env) (r\<lparr>qr_status := t\<rparr>)) else Some r)"
  by (auto simp: cas_def update_conv' split: option.split)

lemma cas_True: "fst (cas env qid fr t col db) \<longleftrightarrow>
    (\<exists>r. map_of (cd_quarantine db) qid = Some r \<and> \<not> qe_conflict env t \<and> qr_status r \<in> set fr)"
  by (auto simp: cas_def split: option.split)

lemma audit_note_frame [simp]:
  "cd_quarantine (audit_note sha env a b c d db) = cd_quarantine db"
  "cd_blobs (audit_note sha env a b c d db) = cd_blobs db"
  "cd_evidence (audit_note sha env a b c d db) = cd_evidence db"
  "has_blob (audit_note sha env a b c d db) h = has_blob db h"
  by (simp_all add: audit_note_def has_blob_def)

lemma append_event_frame [simp]:
  "cd_quarantine (append_event c ts sq k t db) = cd_quarantine db"
  "cd_blobs (append_event c ts sq k t db) = cd_blobs db"
  "cd_evidence (append_event c ts sq k t db) = cd_evidence db"
  by (simp_all add: append_event_def)

lemma append_timeline_frame [simp]:
  "cd_quarantine (append_timeline now c k t db) = cd_quarantine db"
  "cd_blobs (append_timeline now c k t db) = cd_blobs db"
  "cd_evidence (append_timeline now c k t db) = cd_evidence db"
  by (simp_all add: append_timeline_def)

lemma q_audit_frame [simp]: "qs_fs (q_audit sha env a b c d s) = qs_fs s"
  "cd_quarantine (qs_db (q_audit sha env a b c d s)) = cd_quarantine (qs_db s)"
  "cd_blobs (qs_db (q_audit sha env a b c d s)) = cd_blobs (qs_db s)"
  by (simp_all add: q_audit_def)

lemma q_refused_frame [simp]: "qs_fs (q_refused sha env a v t e s) = qs_fs s"
  "cd_quarantine (qs_db (q_refused sha env a v t e s)) = cd_quarantine (qs_db s)"
  "cd_blobs (qs_db (q_refused sha env a v t e s)) = cd_blobs (qs_db s)"
  by (simp_all add: q_refused_def)

lemma q_timeline_frame [simp]: "qs_fs (q_timeline env c k t s) = qs_fs s"
  "cd_quarantine (qs_db (q_timeline env c k t s)) = cd_quarantine (qs_db s)"
  "cd_blobs (qs_db (q_timeline env c k t s)) = cd_blobs (qs_db s)"
  by (simp_all add: q_timeline_def split: option.split)

section \<open>Isolation\<close>

lemma isolating_row_simps [simp]:
  "qr_status (isolating_row env args st pkg h sz) = ''isolating''" "qr_sha (isolating_row env args st pkg h sz) = h"
  "qr_path (isolating_row env args st pkg h sz) = ia_path args" "qr_mode (isolating_row env args st pkg h sz) = in_mode st mod 4096"
  "qr_uid (isolating_row env args st pkg h sz) = in_uid st" "qr_gid (isolating_row env args st pkg h sz) = in_gid st"
  by (simp_all add: isolating_row_def)

lemma quarantine_capture_Done:
  assumes "quarantine_capture sha env m args st pkg db = (Done (h, sz), db1)"
  shows "h = sha (in_data st)" "length (in_data st) \<le> m" "map_of (cd_quarantine db) (qe_id env) = None"
    "db1 = (snd (store_put sha (in_data st) db))\<lparr>cd_quarantine :=
       AList.update (qe_id env) (isolating_row env args st pkg h sz) (cd_quarantine db)\<rparr>"
  using assms by (auto simp: quarantine_capture_def put_stream_file split: if_splits)

lemma quarantine_capture_rows:
  assumes "quarantine_capture sha env m args st pkg db = (out, db1)" "\<nexists>x. out = Done x"
  shows "cd_quarantine db1 = cd_quarantine db"
  using assms by (auto simp: quarantine_capture_def put_stream_file split: if_splits)

lemma unlink_guarded_Done:
  assumes "unlink_guarded env dirfd path st s = (Done u, s2)"
  obtains n where "map_of (qs_fs s) (dirfd, basename path) = Some n" "in_dev n = in_dev st" "in_ino n = in_ino st"
    "s2 = \<lparr>qs_db = snd (cas env (qe_id env) [''isolating''] ''active'' No_ts (qs_db s)),
           qs_fs = delete_where (\<lambda>k _. k = (dirfd, basename path)) (qs_fs s)\<rparr>"
    "fst (cas env (qe_id env) [''isolating''] ''active'' No_ts (qs_db s))"
  using assms by (cases s) (auto simp: unlink_guarded_def Let_def split: option.splits if_splits prod.splits)

lemma unlink_guarded_not_Done:
  assumes "unlink_guarded env dirfd path st s = (out, s2)" "\<nexists>x. out = Done x"
  shows "\<exists>t \<in> {''failed'', ''active''}. qs_db s2 = snd (cas env (qe_id env) [''isolating''] t No_ts (qs_db s))
      \<and> (t = ''active'' \<longrightarrow> \<not> fst (cas env (qe_id env) [''isolating''] ''active'' No_ts (qs_db s)))
      \<and> (qs_fs s2 = qs_fs s \<or> t = ''active'')"
  using assms by (auto simp: unlink_guarded_def Let_def split: option.splits if_splits prod.splits)

text \<open>What a successful isolation has done.\<close>

lemma isolate_inner_Done:
  assumes "isolate_inner sha env paths m args s = (Done r, s2)"
  obtains dirfd st n pkg sz where
    "validate_target env paths (ia_path args) = None" "open_parent env (qs_fs s) (ia_path args) = Inr dirfd"
    "map_of (qs_fs s) (dirfd, basename (ia_path args)) = Some st" "in_kind st = Regular"
    "map_of (qe_meanwhile env (qs_fs s)) (dirfd, basename (ia_path args)) = Some n"
    "in_dev n = in_dev st" "in_ino n = in_ino st"
    "qs_fs s2 = delete_where (\<lambda>k _. k = (dirfd, basename (ia_path args))) (qe_meanwhile env (qs_fs s))"
    "ir_id r = qe_id env" "ir_sha r = sha (in_data st)" "length (in_data st) \<le> m"
    "map_of (cd_quarantine (qs_db s)) (qe_id env) = None"
    "map_of (cd_quarantine (qs_db s2)) (qe_id env) =
       Some ((isolating_row env args st pkg (sha (in_data st)) sz)\<lparr>qr_status := ''active''\<rparr>)"
    "cd_blobs (qs_db s2) = cd_blobs (snd (store_put sha (in_data st) (qs_db s)))"
proof -
  obtain dirfd st where a: "validate_target env paths (ia_path args) = None"
    "open_parent env (qs_fs s) (ia_path args) = Inr dirfd"
    "open_target env (qs_fs s) dirfd (ia_path args) = Inr st" "in_kind st = Regular"
    using assms by (auto simp: isolate_inner_def split: option.splits sum.splits if_splits)
  let ?pkg = "pacman_owner (qe_pacman env (ia_path args))"
  obtain h sz db1 where c: "quarantine_capture sha env m args st ?pkg (qs_db s) = (Done (h, sz), db1)"
    using assms a by (auto simp: isolate_inner_def Let_def split: outcome.splits prod.splits)
  obtain u where g: "unlink_guarded env dirfd (ia_path args) st \<lparr>qs_db = db1, qs_fs = qe_meanwhile env (qs_fs s)\<rparr> = (Done u, s2)"
    and r: "ir_id r = qe_id env" "ir_sha r = h"
    using assms a c by (auto simp: isolate_inner_def Let_def split: outcome.splits prod.splits)
  have st: "map_of (qs_fs s) (dirfd, basename (ia_path args)) = Some st"
    using a(3) by (auto simp: open_target_def split: option.splits if_splits)
  note cd = quarantine_capture_Done[OF c]
  from unlink_guarded_Done[OF g] obtain n where n:
    "map_of (qe_meanwhile env (qs_fs s)) (dirfd, basename (ia_path args)) = Some n"
    "in_dev n = in_dev st" "in_ino n = in_ino st"
    "s2 = \<lparr>qs_db = snd (cas env (qe_id env) [''isolating''] ''active'' No_ts db1),
           qs_fs = delete_where (\<lambda>k _. k = (dirfd, basename (ia_path args))) (qe_meanwhile env (qs_fs s))\<rparr>"
    "fst (cas env (qe_id env) [''isolating''] ''active'' No_ts db1)" by auto
  have row: "map_of (cd_quarantine (qs_db s2)) (qe_id env) =
      Some ((isolating_row env args st ?pkg h sz)\<lparr>qr_status := ''active''\<rparr>)"
    using n(4,5) cd by (auto simp: map_of_cas cas_True update_conv')
  show thesis
  proof (rule that[OF a(1,2) st a(4) n(1,2,3)])
    show "map_of (cd_quarantine (qs_db s2)) (qe_id env) =
       Some ((isolating_row env args st ?pkg (sha (in_data st)) sz)\<lparr>qr_status := ''active''\<rparr>)"
      using row unfolding cd(1) .
    show "cd_blobs (qs_db s2) = cd_blobs (snd (store_put sha (in_data st) (qs_db s)))"
      using n(4) cd(4) by simp
  qed (use n(4) r cd in simp_all)
qed

text \<open>What an isolation that did not succeed leaves behind.\<close>

lemma isolate_inner_not_Done:
  assumes "isolate_inner sha env paths m args s = (out, s2)" "\<nexists>x. out = Done x"
    and "map_of (cd_quarantine (qs_db s)) (qe_id env) = None"
  shows "(\<forall>r. map_of (cd_quarantine (qs_db s2)) (qe_id env) = Some r \<longrightarrow> qr_status r \<in> {''isolating'', ''failed''})
    \<and> (qe_conflict env ''active'' \<or> qs_fs s2 = qs_fs s \<or> qs_fs s2 = qe_meanwhile env (qs_fs s))"
proof (cases "qs_db s2 = qs_db s \<and> qs_fs s2 = qs_fs s")
  case True
  then show ?thesis using assms(3) by simp
next
  case False
  then obtain dirfd st where a: "validate_target env paths (ia_path args) = None"
    "open_parent env (qs_fs s) (ia_path args) = Inr dirfd"
    "open_target env (qs_fs s) dirfd (ia_path args) = Inr st" "in_kind st = Regular"
    using assms(1) by (auto simp: isolate_inner_def split: option.splits sum.splits if_splits)
  obtain out1 db1 where c: "quarantine_capture sha env m args st (pacman_owner (qe_pacman env (ia_path args))) (qs_db s)
      = (out1, db1)" by fastforce
  show ?thesis
  proof (cases "\<exists>x. out1 = Done x")
    case False
    then have "cd_quarantine db1 = cd_quarantine (qs_db s)" using quarantine_capture_rows[OF c] by blast
    moreover have "qs_db s2 = db1" "qs_fs s2 = qs_fs s"
      using assms(1) a c False by (auto simp: isolate_inner_def Let_def split: outcome.splits)
    ultimately show ?thesis using assms(3) by simp
  next
    case True
    then obtain h sz where c': "quarantine_capture sha env m args st (pacman_owner (qe_pacman env (ia_path args))) (qs_db s)
      = (Done (h, sz), db1)" using c by auto
    obtain out2 s3 where g:
      "unlink_guarded env dirfd (ia_path args) st \<lparr>qs_db = db1, qs_fs = qe_meanwhile env (qs_fs s)\<rparr> = (out2, s3)"
      by fastforce
    have nd: "\<nexists>x. out2 = Done x" and s2: "s2 = s3"
      using assms(1,2) a c' g by (auto simp: isolate_inner_def Let_def split: outcome.splits prod.splits)
    from unlink_guarded_not_Done[OF g nd] quarantine_capture_Done(4)[OF c'] show ?thesis
      unfolding s2 by (auto simp: map_of_cas cas_True update_conv' split: if_splits option.splits)
  qed
qed

lemma isolate_cases:
  assumes "isolate sha env paths m actor args s = (out, s')"
  obtains s1 where "isolate_inner sha env paths m args s = (out, s1)" "qs_fs s' = qs_fs s1"
    "cd_quarantine (qs_db s') = cd_quarantine (qs_db s1)" "cd_blobs (qs_db s') = cd_blobs (qs_db s1)"
  using assms by (auto simp: isolate_def split: prod.splits outcome.splits)


section \<open>Round trip\<close>

text \<open>Removing something that is not a directory does not change where a path leads.\<close>

lemma map_of_delete_key:
  "map_of (delete_where (\<lambda>k _. k = x) t) y = (if y = x then None else map_of t y)"
  by (induction t) (auto simp: delete_where_def)

lemma walk_delete:
  "walk fs fd cs = Inr d \<Longrightarrow> map_of fs key = Some n \<Longrightarrow> in_kind n = Regular \<Longrightarrow>
     walk (delete_where (\<lambda>k _. k = key) fs) fd cs = Inr d"
  by (induction fs fd cs rule: walk.induct)
     (auto simp: open_component_def map_of_delete_key split: if_splits option.splits sum.splits node_kind.splits)

lemma open_parent_walk: "open_parent env fs path = Inr fd \<Longrightarrow>
    qe_fault env ''open_parent'' = None \<and> walk fs 0 (split_on (CHR ''/'') (dirname path)) = Inr fd"
  by (auto simp: open_parent_def open_parent_dirfd_def split: option.splits sum.splits os_error.splits)

text \<open>An environment in which every call works and nobody interferes.\<close>

definition quiet :: "quarantine_env \<Rightarrow> bool" where
  "quiet env \<longleftrightarrow> qe_fault env = (\<lambda>_. None) \<and> qe_conflict env = (\<lambda>_. False) \<and> qe_accept env = (\<lambda>_ n. n)"

lemma restore_inner_works:
  assumes "qe_fault env = (\<lambda>_. None)" "qe_conflict env = (\<lambda>_. False)"
    and "map_of (cd_quarantine (qs_db s)) qid = Some r" "qr_status r = ''active''"
    and "map_of (cd_blobs (qs_db s)) (qr_sha r) = Some data" "sha data = qr_sha r"
    and "\<not> quarantine_deny (qe_realpath env (qr_path r)) paths"
    and "walk (qs_fs s) 0 (split_on (CHR ''/'') (dirname (qr_path r))) = Inr fd"
    and "map_of (qs_fs s) (fd, basename (qr_path r)) = None"
  shows "\<exists>x s2. restore_inner sha env paths qid s = (Done x, s2)
    \<and> qs_fs s2 = AList.update (fd, basename (qr_path r))
        \<lparr>in_dev = fst (qe_new_inode env), in_ino = snd (qe_new_inode env), in_kind = Regular, in_mode = qr_mode r,
         in_uid = qr_uid r, in_gid = qr_gid r,
         in_data = write_chunks (qe_accept env) 0 (chunks_of STREAM_CHUNK_BYTES data)\<rparr> (qs_fs s)
    \<and> quoted_status qid (qs_db s2) = ''restored''"
proof -
  have cas1: "cas env qid [''active''] ''restoring'' No_ts (qs_db s) =
      (True, (qs_db s)\<lparr>cd_quarantine := AList.update qid (r\<lparr>qr_status := ''restoring''\<rparr>) (cd_quarantine (qs_db s))\<rparr>)"
    using assms(2-4) by (simp add: cas_def)
  have disk: "restore_disk sha env paths r (s\<lparr>qs_db := (qs_db s)\<lparr>cd_quarantine :=
        AList.update qid (r\<lparr>qr_status := ''restoring''\<rparr>) (cd_quarantine (qs_db s))\<rparr>\<rparr>) =
      (None, AList.update (fd, basename (qr_path r))
        \<lparr>in_dev = fst (qe_new_inode env), in_ino = snd (qe_new_inode env), in_kind = Regular, in_mode = qr_mode r,
         in_uid = qr_uid r, in_gid = qr_gid r,
         in_data = write_chunks (qe_accept env) 0 (chunks_of STREAM_CHUNK_BYTES data)\<rparr> (qs_fs s))"
    using assms(1,5-9)
    by (simp add: restore_disk_def verify_blob_def open_parent_for_restore_def open_parent_dirfd_def write_and_commit_def)
  show ?thesis
    unfolding restore_inner_def using assms(1-3) cas1 disk
    by (simp add: cas_def update_conv' quoted_status_def)
qed

lemma quiet_write: "quiet env \<Longrightarrow> write_chunks (qe_accept env) 0 (chunks_of STREAM_CHUNK_BYTES data) = data"
  using write_chunks_full[of "qe_accept env" 0] concat_chunks[OF STREAM_CHUNK_pos, of data] by (simp add: quiet_def)

lemma restore_cases:
  assumes "restore_inner sha env paths qid s = (Done x, s1)"
  shows "\<exists>y s'. restore sha env paths actor qid s = (Done y, s') \<and> qs_fs s' = qs_fs s1
    \<and> cd_quarantine (qs_db s') = cd_quarantine (qs_db s1)"
  using assms by (cases x) (simp add: restore_def)


section \<open>Concrete runs\<close>

definition sample_fs :: fsys where
  "sample_fs =
     [((0, ''tmp''), \<lparr>in_dev = 1, in_ino = 2, in_kind = Directory 1, in_mode = 511, in_uid = 0, in_gid = 0, in_data = []\<rparr>),
      ((1, ''x''), \<lparr>in_dev = 1, in_ino = 3, in_kind = Regular, in_mode = 493, in_uid = 7, in_gid = 8, in_data = ''evil''\<rparr>),
      ((1, ''y''), \<lparr>in_dev = 1, in_ino = 4, in_kind = Regular, in_mode = 420, in_uid = 7, in_gid = 8, in_data = ''good''\<rparr>)]"

definition sample_qstate :: quarantine_state where
  "sample_qstate = \<lparr>qs_db = sample_case_db, qs_fs = sample_fs\<rparr>"

definition sample_qenv :: "string \<Rightarrow> (nat \<Rightarrow> nat \<Rightarrow> nat) \<Rightarrow> quarantine_env" where
  "sample_qenv i accept =
     \<lparr>qe_id = i, qe_now = 0, qe_realpath = id, qe_pacman = (\<lambda>_. None), qe_procs = [],
      qe_blob_stat = (\<lambda>_. None), qe_store_root = ''/ev'', qe_meanwhile = id, qe_fault = (\<lambda>_. None),
      qe_conflict = (\<lambda>_. False), qe_accept = accept, qe_new_inode = (1, 9), qe_audit = sample_call ''q''\<rparr>"

lemma sample_qenv_simps [simp]:
  "qe_id (sample_qenv i a) = i" "qe_realpath (sample_qenv i a) = id" "qe_pacman (sample_qenv i a) = (\<lambda>_. None)"
  "qe_procs (sample_qenv i a) = []" "qe_blob_stat (sample_qenv i a) = (\<lambda>_. None)"
  "qe_store_root (sample_qenv i a) = ''/ev''" "qe_meanwhile (sample_qenv i a) = id"
  "qe_fault (sample_qenv i a) = (\<lambda>_. None)" "qe_conflict (sample_qenv i a) = (\<lambda>_. False)"
  "qe_accept (sample_qenv i a) = a" "qe_new_inode (sample_qenv i a) = (1, 9)"
  by (simp_all add: sample_qenv_def)

definition sample_paths :: quarantine_paths where
  "sample_paths = \<lparr>qp_state_dir = ''/var'', qp_socket_dir = ''/run'', qp_config_path = None\<rparr>"

definition sample_args :: isolate_args where
  "sample_args = \<lparr>ia_path = ''/tmp/x'', ia_alert_id = None, ia_case_id = None, ia_note = None\<rparr>"

definition sample_isolated :: "isolate_result outcome \<times> quarantine_state" where
  "sample_isolated = isolate id (sample_qenv ''q1'' (\<lambda>_ n. n)) sample_paths 100 ''a'' sample_args sample_qstate"

definition sample_inode :: inode where
  "sample_inode = \<lparr>in_dev = 1, in_ino = 3, in_kind = Regular, in_mode = 493, in_uid = 7, in_gid = 8, in_data = ''evil''\<rparr>"

lemma sample_path_simps:
  "basename ''/tmp/x'' = ''x''" "split_on (CHR ''/'') (dirname ''/tmp/x'') = ['''', ''tmp'']"
  "\<not> quarantine_deny ''/tmp/x'' sample_paths"
  by (simp_all add: basename_def dirname_def quarantine_deny_def DENY_PREFIXES_def POLKIT_DIR_def rstrip_slash_def sample_paths_def)

lemma sample_steps:
  "validate_target (sample_qenv i a) sample_paths ''/tmp/x'' = None"
  "open_parent (sample_qenv i a) sample_fs ''/tmp/x'' = Inr 1"
  "open_target (sample_qenv i a) sample_fs 1 ''/tmp/x'' = Inr sample_inode"
  by (simp_all add: validate_target_def open_parent_def open_parent_dirfd_def open_target_def sample_path_simps
      open_component_def sample_fs_def sample_inode_def)

lemma sample_inner_Done:
  "\<exists>r s1. isolate_inner id (sample_qenv i a) sample_paths 100 sample_args sample_qstate = (Done r, s1)"
proof -
  have c: "\<exists>db1. quarantine_capture id (sample_qenv i a) 100 sample_args sample_inode None sample_case_db
      = (Done (''evil'', 4), db1) \<and> map_of (cd_quarantine db1) i =
          Some (isolating_row (sample_qenv i a) sample_args sample_inode None ''evil'' 4)"
    unfolding quarantine_capture_def put_stream_file
    by (simp add: sample_inode_def sample_args_def rstrip_slash_def sample_case_db_def update_conv' eval_nat_numeral)
  then obtain db1 where db1: "quarantine_capture id (sample_qenv i a) 100 sample_args sample_inode None sample_case_db
      = (Done (''evil'', 4), db1)" "map_of (cd_quarantine db1) i =
          Some (isolating_row (sample_qenv i a) sample_args sample_inode None ''evil'' 4)" by blast
  have u: "\<exists>s2. unlink_guarded (sample_qenv i a) 1 ''/tmp/x'' sample_inode \<lparr>qs_db = db1, qs_fs = sample_fs\<rparr> = (Done (), s2)"
    using db1(2) by (simp add: unlink_guarded_def sample_path_simps sample_fs_def sample_inode_def cas_def Let_def)
  have "ia_path sample_args = ''/tmp/x''" "qs_fs sample_qstate = sample_fs" "qs_db sample_qstate = sample_case_db"
    "pacman_owner (qe_pacman (sample_qenv i a) p) = None" "qe_meanwhile (sample_qenv i a) = id"
    "in_kind sample_inode = Regular" for p
    by (simp_all add: sample_args_def sample_qstate_def pacman_owner_def sample_inode_def)
  then show ?thesis
    unfolding isolate_inner_def using sample_steps db1(1) u by (auto simp: Let_def)
qed

lemma sample_isolate_Done: "\<exists>r s1. sample_isolated = (Done r, s1)"
  using sample_inner_Done[of "''q1''" "\<lambda>_ n. n"] by (auto simp: sample_isolated_def isolate_def)



section \<open>Findings\<close>

text \<open>Restoring does not notice short writes: whatever part of each chunk the file system accepts, the
  operation reports success, the row says restored and the file that appears holds just the accepted bytes.\<close>

theorem restore_ignores_short_writes:
  assumes "qe_fault env = (\<lambda>_. None)" "qe_conflict env = (\<lambda>_. False)"
    and "map_of (cd_quarantine (qs_db s)) qid = Some r" "qr_status r = ''active''"
    and "map_of (cd_blobs (qs_db s)) (qr_sha r) = Some data" "sha data = qr_sha r"
    and "\<not> quarantine_deny (qe_realpath env (qr_path r)) paths"
    and "walk (qs_fs s) 0 (split_on (CHR ''/'') (dirname (qr_path r))) = Inr fd"
    and "map_of (qs_fs s) (fd, basename (qr_path r)) = None"
  shows "\<exists>x s2. restore sha env paths actor qid s = (Done x, s2) \<and> quoted_status qid (qs_db s2) = ''restored''
    \<and> map_option in_data (map_of (qs_fs s2) (fd, basename (qr_path r))) =
        Some (write_chunks (qe_accept env) 0 (chunks_of STREAM_CHUNK_BYTES data))"
proof -
  obtain x s2 where s2: "restore_inner sha env paths qid s = (Done x, s2)"
    "map_option in_data (map_of (qs_fs s2) (fd, basename (qr_path r))) =
        Some (write_chunks (qe_accept env) 0 (chunks_of STREAM_CHUNK_BYTES data))"
    "quoted_status qid (qs_db s2) = ''restored''"
    using restore_inner_works[where paths = paths and sha = sha, OF assms] by (auto simp: update_conv')
  with restore_cases[OF s2(1), of actor] show ?thesis by (auto simp: quoted_status_def)
qed

theorem restore_ignores_short_writes_witness:
  "\<exists>x s2. restore id (sample_qenv ''r'' (\<lambda>_ n. n - 1)) sample_paths ''a'' ''q''
      \<lparr>qs_db = sample_case_db\<lparr>cd_blobs := [(''evil'', ''evil'')],
               cd_quarantine := [(''q'', (isolating_row (sample_qenv ''q'' (\<lambda>_ n. n)) sample_args sample_inode None ''evil'' 4)\<lparr>qr_status := ''active''\<rparr>)]\<rparr>,
       qs_fs = [hd sample_fs]\<rparr> = (Done x, s2)
     \<and> map_option in_data (map_of (qs_fs s2) (1, ''x'')) = Some ''evi''"
proof -
  let ?r = "(isolating_row (sample_qenv ''q'' (\<lambda>_ n. n)) sample_args sample_inode None ''evil'' 4)\<lparr>qr_status := ''active''\<rparr>"
  let ?s = "\<lparr>qs_db = sample_case_db\<lparr>cd_blobs := [(''evil'', ''evil'')], cd_quarantine := [(''q'', ?r)]\<rparr>, qs_fs = [hd sample_fs]\<rparr>"
  have p: "qr_path ?r = ''/tmp/x''" by (simp add: sample_args_def)
  have w: "walk [hd sample_fs] 0 ['''', ''tmp''] = Inr 1" by (simp add: sample_fs_def open_component_def)
  have c: "write_chunks (\<lambda>_ n. n - 1) 0 (chunks_of STREAM_CHUNK_BYTES ''evil'') = ''evi''"
    by (simp add: chunks_of_simps STREAM_CHUNK_BYTES_def)
  have "\<exists>x s2. restore id (sample_qenv ''r'' (\<lambda>_ n. n - 1)) sample_paths ''a'' ''q'' ?s = (Done x, s2)
    \<and> quoted_status ''q'' (qs_db s2) = ''restored''
    \<and> map_option in_data (map_of (qs_fs s2) (1, basename (qr_path ?r))) =
        Some (write_chunks (qe_accept (sample_qenv ''r'' (\<lambda>_ n. n - 1))) 0 (chunks_of STREAM_CHUNK_BYTES ''evil''))"
    by (rule restore_ignores_short_writes[where r = ?r])
       (use w in \<open>simp_all add: p sample_path_simps sample_fs_def\<close>)
  then show ?thesis unfolding p sample_qenv_simps c sample_path_simps by blast
qed

text \<open>A delete whose blob cannot be unlinked strands the row: the call ends with an exception that is not a
  refusal and the row stays deleting, and from then on every restore and every delete of it is refused and
  leaves it deleting, whatever the environment.\<close>

theorem failed_delete_strands_row:
  assumes "map_of (cd_quarantine (qs_db s)) qid = Some r" "qr_status r \<in> {''active'', ''restored'', ''failed''}"
    and "qe_conflict env = (\<lambda>_. False)" "qe_fault env ''unlink_blob'' = Some e"
    and "has_blob (qs_db s) (qr_sha r)"
    and "\<not> blob_held qid (qr_sha r) (qs_db s)"
  shows "case delete_quarantined sha env actor qid s of (out, s1) \<Rightarrow>
      out = Crashed \<and> quoted_status qid (qs_db s1) = ''deleting''
      \<and> (\<exists>k1 k2. fst (restore sha env' paths actor' qid s1) = Refused k1 \<and> fst (delete_quarantined sha env'' actor'' qid s1) = Refused k2)
      \<and> quoted_status qid (qs_db (snd (restore sha env' paths actor' qid s1))) = ''deleting''
      \<and> quoted_status qid (qs_db (snd (delete_quarantined sha env'' actor'' qid s1))) = ''deleting''"
proof -
  let ?db = "(qs_db s)\<lparr>cd_quarantine := AList.update qid (r\<lparr>qr_status := ''deleting''\<rparr>) (cd_quarantine (qs_db s))\<rparr>"
  have c: "cas env qid [''active'', ''restored'', ''failed''] ''deleting'' No_ts (qs_db s) = (True, ?db)"
    using assms(1-3) by (auto simp: cas_def)
  have upd: "set (AList.update qid x t) \<subseteq> insert (qid, x) (set t)" for x and t :: "(string, quarantine_row) table"
    by (induction t) auto
  have "\<not> blob_held qid (qr_sha r) ?db"
    using assms(6) upd by (fastforce simp: blob_held_def list_ex_iff)
  then have "delete_locked qid (qr_sha r) ?db = (True, unlink_blob (qr_sha r) ?db)"
    using assms(5) by (simp add: delete_locked_def has_blob_def)
  then have d: "delete_quarantined sha env actor qid s = (Crashed, s\<lparr>qs_db := ?db\<rparr>)"
    using assms(1,4) c by (simp add: delete_quarantined_def delete_inner_def)
  have row: "map_of (cd_quarantine ?db) qid = Some (r\<lparr>qr_status := ''deleting''\<rparr>)" by (simp add: update_conv')
  have no: "cas e qid fr t col ?db = (False, ?db)" if "''deleting'' \<notin> set fr" for e fr t col
    using row that by (simp add: cas_def)
  show ?thesis
    unfolding d prod.case using row
    by (auto simp: restore_def restore_inner_def delete_quarantined_def delete_inner_def no quoted_status_def)
qed

theorem failed_delete_strands_row_witness:
  "let s = \<lparr>qs_db = sample_case_db\<lparr>cd_blobs := [(''evil'', ''evil'')],
               cd_quarantine := [(''q'', (isolating_row (sample_qenv ''q'' (\<lambda>_ n. n)) sample_args sample_inode None ''evil'' 4)\<lparr>qr_status := ''active''\<rparr>)]\<rparr>,
            qs_fs = sample_fs\<rparr>;
       env = (sample_qenv ''d'' (\<lambda>_ n. n))\<lparr>qe_fault := (\<lambda>_. Some ''EIO'')\<rparr>
   in fst (delete_quarantined id env ''a'' ''q'' s) = Crashed
      \<and> (\<exists>k. fst (delete_quarantined id (sample_qenv ''e'' (\<lambda>_ n. n)) ''a'' ''q'' (snd (delete_quarantined id env ''a'' ''q'' s))) = Refused k)"
proof -
  let ?r = "(isolating_row (sample_qenv ''q'' (\<lambda>_ n. n)) sample_args sample_inode None ''evil'' 4)\<lparr>qr_status := ''active''\<rparr>"
  let ?s = "\<lparr>qs_db = sample_case_db\<lparr>cd_blobs := [(''evil'', ''evil'')], cd_quarantine := [(''q'', ?r)]\<rparr>, qs_fs = sample_fs\<rparr>"
  let ?env = "(sample_qenv ''d'' (\<lambda>_ n. n))\<lparr>qe_fault := (\<lambda>_. Some ''EIO'')\<rparr>"
  have "case delete_quarantined id ?env ''a'' ''q'' ?s of (out, s1) \<Rightarrow>
      out = Crashed \<and> quoted_status ''q'' (qs_db s1) = ''deleting''
      \<and> (\<exists>k1 k2. fst (restore id (sample_qenv ''e'' (\<lambda>_ n. n)) sample_paths ''a'' ''q'' s1) = Refused k1
           \<and> fst (delete_quarantined id (sample_qenv ''e'' (\<lambda>_ n. n)) ''a'' ''q'' s1) = Refused k2)
      \<and> quoted_status ''q'' (qs_db (snd (restore id (sample_qenv ''e'' (\<lambda>_ n. n)) sample_paths ''a'' ''q'' s1))) = ''deleting''
      \<and> quoted_status ''q'' (qs_db (snd (delete_quarantined id (sample_qenv ''e'' (\<lambda>_ n. n)) ''a'' ''q'' s1))) = ''deleting''"
    by (rule failed_delete_strands_row[where r = ?r and e = "''EIO''"])
       (simp_all add: has_blob_def blob_held_def sample_case_db_def)
  then show ?thesis unfolding Let_def by (auto split: prod.splits)
qed

end
