(* ===== verification/Custody_Steps.thy ===== *)
theory Custody_Steps
  imports Custody
begin

text \<open>
  The concurrent use of the forensic store. Evidence capture, the capture section of quarantine, the
  blob section of delete and the evidence pruner run under one lock (\<^verbatim>\<open>EvidenceCollector.capture_lock\<close>);
  status updates of quarantine rows and everything else run at any time in between. A step is one such
  section; the pruner holds the lock from its candidate scan to its last candidate and is interrupted by
  status updates after every digest.
\<close>

section \<open>Steps\<close>

datatype capture_lock = Free | Pruning datetime string "string list"

record custody =
  cu_db :: case_db
  cu_lock :: capture_lock

text \<open>The guarded updates of \<^verbatim>\<open>ops.py\<close>: the statuses they start from and the one they set.\<close>

definition cas_sites :: "(string list \<times> string) list" where
  "cas_sites =
     [([''isolating''], ''failed''), ([''isolating''], ''active''), ([''active''], ''restoring''),
      ([''restoring''], ''active''), ([''restoring''], ''restored''),
      ([''active'', ''restored'', ''failed''], ''deleting''), ([''deleting''], ''deleted'')]"

inductive custody_step :: "(string \<Rightarrow> string) \<Rightarrow> (real \<Rightarrow> string) \<Rightarrow> custody \<Rightarrow> custody \<Rightarrow> bool" for sha fl where
  Capture: "cu_lock c = Free \<Longrightarrow> custody_step sha fl c (c\<lparr>cu_db := capture sha env a e (cu_db c)\<rparr>)"
| Isolate: "cu_lock c = Free \<Longrightarrow>
    custody_step sha fl c (c\<lparr>cu_db := snd (quarantine_capture sha qenv m args st pkg (cu_db c))\<rparr>)"
| Status: "(fr, t) \<in> set cas_sites \<Longrightarrow>
    custody_step sha fl c (c\<lparr>cu_db := snd (cas qenv qid fr t col (cu_db c))\<rparr>)"
| Delete: "cu_lock c = Free \<Longrightarrow> map_of (cd_quarantine (cu_db c)) qid = Some r \<Longrightarrow> qr_status r = ''deleting'' \<Longrightarrow>
    custody_step sha fl c (c\<lparr>cu_db := snd (delete_locked qid (qr_sha r) (cu_db c))\<rparr>)"
| Prune_scan: "cu_lock c = Free \<Longrightarrow>
    custody_step sha fl c (c\<lparr>cu_lock := Pruning cutoff t (evidence_candidates cutoff (cu_db c))\<rparr>)"
| Prune_one: "cu_lock c = Pruning cutoff t (h # hs) \<Longrightarrow> prune_blobs fl busy cutoff t [h] (cu_db c) = (err, shas, db') \<Longrightarrow>
    custody_step sha fl c \<lparr>cu_db = db', cu_lock = (if err then Free else Pruning cutoff t hs)\<rparr>"
| Prune_end: "cu_lock c = Pruning cutoff t [] \<Longrightarrow> custody_step sha fl c (c\<lparr>cu_lock := Free\<rparr>)"
| Other: "cd_quarantine db' = cd_quarantine (cu_db c) \<Longrightarrow> cd_evidence db' = cd_evidence (cu_db c) \<Longrightarrow>
    cd_blobs db' = cd_blobs (cu_db c) \<Longrightarrow> custody_step sha fl c (c\<lparr>cu_db := db'\<rparr>)"

inductive_cases custody_stepE: "custody_step sha fl c c'"

text \<open>The pruner's loop is the sequence of its single steps.\<close>

lemma prune_blobs_Cons:
  "prune_blobs fl busy cutoff t (h # hs) db =
     (case prune_blobs fl busy cutoff t [h] db of
        (True, shas, db1) \<Rightarrow> (True, shas, db1)
      | (False, shas, db1) \<Rightarrow>
          (case prune_blobs fl busy cutoff t hs db1 of (err, shas', db2) \<Rightarrow> (err, shas @ shas', db2)))"
  by (auto split: prod.split bool.split)

section \<open>The provenance mark\<close>

lemma pruned_mark_append: "pruned_mark s \<Longrightarrow> pruned_mark (l @ s)"
  by (induction l) auto

lemma pruned_mark_key: "pruned_mark (json_str ''pruned_at'' @ r)"
proof -
  have "json_str ''pruned_at'' = dquote # ''pruned_at'' @ [dquote]"
    by (simp add: json_str_def json_body_def json_char_def char_code_def)
  then show ?thesis by simp
qed

lemma join_with_mem: "x \<in> set ts \<Longrightarrow> \<exists>l r. join_with sep ts = l @ x @ r"
proof (induction sep ts rule: join_with.induct)
  case (3 sep a b ts)
  then consider "x = a" | "x \<in> set (b # ts)" by auto
  then show ?case
  proof cases
    case 1
    then show ?thesis by (intro exI[of _ "[]"] exI) simp
  next
    case 2
    then obtain l r where "join_with sep (b # ts) = l @ x @ r" using "3.IH" by blast
    then show ?thesis by (intro exI[of _ "a @ sep @ l"] exI[of _ r]) simp
  qed
next
  case (2 sep a)
  then show ?case by (intro exI[of _ "[]"]) simp
qed simp

lemma stamp_marks: "marked (e\<lparr>ew_meta := stamp_meta fl t (ew_meta e)\<rparr>)"
proof -
  obtain d where d: "stamp_meta fl t (ew_meta e) =
      Some (json_text fl (PDict (AList.update ''pruned_by'' (PStr ''auto:retention'') (AList.update ''pruned_at'' (PStr t) d))))"
    unfolding stamp_meta_def Let_def by blast
  let ?d = "AList.update ''pruned_by'' (PStr ''auto:retention'') (AList.update ''pruned_at'' (PStr t) d)"
  have "map_of ?d ''pruned_at'' = Some (PStr t)" by (simp add: update_conv')
  then have "json_str ''pruned_at'' @ '': '' @ json_text fl (PStr t) \<in>
      set (map (\<lambda>(k, v). json_str k @ '': '' @ json_text fl v) ?d)"
    unfolding set_map by (intro image_eqI[of _ _ "(''pruned_at'', PStr t)"]) (simp_all add: map_of_SomeD)
  from join_with_mem[OF this] obtain l r where
    j: "join_with '', '' (map (\<lambda>(k, v). json_str k @ '': '' @ json_text fl v) ?d) =
        l @ (json_str ''pruned_at'' @ '': '' @ json_text fl (PStr t)) @ r" by blast
  have "json_text fl (PDict ?d) = (''{'' @ l) @ json_str ''pruned_at'' @ ('': '' @ json_text fl (PStr t) @ r @ ''}'')"
    unfolding json_text.simps j by simp
  then have "pruned_mark (json_text fl (PDict ?d))"
    by (metis pruned_mark_append pruned_mark_key)
  then show ?thesis by (simp add: marked_def d)
qed

section \<open>The invariant\<close>

abbreviation protecting :: "quarantine_row \<Rightarrow> bool" where
  "protecting r \<equiv> qr_status r \<in> set protecting_statuses"

definition rows_backed :: "case_db \<Rightarrow> bool" where
  "rows_backed db \<longleftrightarrow> (\<forall>qid r. map_of (cd_quarantine db) qid = Some r \<and> protecting r \<longrightarrow> has_blob db (qr_sha r))"

definition evidence_backed :: "case_db \<Rightarrow> bool" where
  "evidence_backed db \<longleftrightarrow> (\<forall>(k, e) \<in> set (cd_evidence db). marked e \<or> has_blob db (ek_sha k))"

definition unprotected :: "case_db \<Rightarrow> string \<Rightarrow> bool" where
  "unprotected db h \<longleftrightarrow> (\<forall>qid r. map_of (cd_quarantine db) qid = Some r \<and> qr_sha r = h \<longrightarrow> \<not> protecting r)"

fun lock_ok :: "case_db \<Rightarrow> capture_lock \<Rightarrow> bool" where
  "lock_ok db Free = True"
| "lock_ok db (Pruning cutoff t hs) = (\<forall>h \<in> set hs. unprotected db h)"

definition custody_inv :: "custody \<Rightarrow> bool" where
  "custody_inv c \<longleftrightarrow> rows_backed (cu_db c) \<and> evidence_backed (cu_db c) \<and> wf_table (cd_quarantine (cu_db c))
     \<and> lock_ok (cu_db c) (cu_lock c)"

lemma rows_backedI [intro?]:
  "(\<And>qid r. map_of (cd_quarantine db) qid = Some r \<Longrightarrow> protecting r \<Longrightarrow> has_blob db (qr_sha r)) \<Longrightarrow> rows_backed db"
  by (auto simp: rows_backed_def)

text \<open>What adding evidence does to the tables: rows of quarantine stay, blobs only come, evidence stays backed.\<close>

definition grows :: "case_db \<Rightarrow> case_db \<Rightarrow> bool" where
  "grows db db' \<longleftrightarrow> cd_quarantine db' = cd_quarantine db \<and> (\<forall>h. has_blob db h \<longrightarrow> has_blob db' h)
     \<and> (evidence_backed db \<longrightarrow> evidence_backed db')"

lemma grows_refl [simp]: "grows db db" by (simp add: grows_def)

lemma grows_trans: "grows a b \<Longrightarrow> grows b c \<Longrightarrow> grows a c" by (simp add: grows_def)

lemma grows_same:
  "cd_quarantine db' = cd_quarantine db \<Longrightarrow> cd_blobs db' = cd_blobs db \<Longrightarrow> cd_evidence db' = cd_evidence db \<Longrightarrow> grows db db'"
  by (auto simp: grows_def evidence_backed_def has_blob_def)

lemma evidence_backedI:
  "(\<And>k e. (k, e) \<in> set (cd_evidence db) \<Longrightarrow> \<not> marked e \<Longrightarrow> has_blob db (ek_sha k)) \<Longrightarrow> evidence_backed db"
  unfolding evidence_backed_def by fastforce

lemma evidence_backedD:
  "evidence_backed db \<Longrightarrow> (k, e) \<in> set (cd_evidence db) \<Longrightarrow> \<not> marked e \<Longrightarrow> has_blob db (ek_sha k)"
  by (fastforce simp: evidence_backed_def)

lemma grows_store_put: "grows db (snd (store_put sha data db))"
proof -
  have "evidence_backed (snd (store_put sha data db))" if "evidence_backed db"
    by (rule evidence_backedI) (use that in \<open>auto dest: evidence_backedD\<close>)
  then show ?thesis by (simp add: grows_def)
qed

lemma set_update_subset: "set (AList.update k v t) \<subseteq> insert (k, v) (set t)"
  by (induction t) auto

lemma grows_record_blob: "grows db (record_blob sha now c kind path meta data db)"
proof -
  let ?db = "snd (store_put sha data db)"
  have "evidence_backed (insert_evidence now c kind (sha data) path meta ?db)" if "evidence_backed db"
    unfolding evidence_backed_def
  proof (intro ballI, clarify)
    fix i kd h p e
    assume mem: "((i, kd, h, p), e) \<in> set (cd_evidence (insert_evidence now c kind (sha data) path meta ?db))"
      and nb: "\<not> has_blob (insert_evidence now c kind (sha data) path meta ?db) (ek_sha (i, kd, h, p))"
    have hb: "has_blob (insert_evidence now c kind (sha data) path meta ?db) x = has_blob ?db x" for x
      by (simp add: insert_evidence_def Let_def has_blob_def)
    have "((i, kd, h, p), e) \<in> set (cd_evidence db) \<or> h = sha data"
      using mem set_update_subset by (fastforce simp: insert_evidence_def Let_def split: if_splits)
    then show "marked e" using that nb unfolding hb store_put_simps(4) evidence_backed_def by fastforce
  qed
  then show ?thesis
    by (auto simp: grows_def record_blob_def insert_evidence_def Let_def has_blob_def store_put_def update_conv' split: prod.splits)
qed

lemma open_case_frame:
  "open_case c now a t db = Some db' \<Longrightarrow> cd_quarantine db' = cd_quarantine db \<and> cd_blobs db' = cd_blobs db \<and> cd_evidence db' = cd_evidence db"
  by (auto simp: open_case_def attach_def split: if_splits)

lemma grows_files: "grows db (snd (snd (snd (capture_files sha env aid i ps n tot db))))"
proof (induction sha env aid i ps n tot db rule: capture_files.induct)
  case (2 sha env aid i p ps n tot db)
  show ?case
  proof (cases "n \<ge> MAX_FILES \<or> tot \<ge> MAX_TOTAL_BYTES \<or> cv_late env i")
    case False
    show ?thesis
    proof (cases "file_read_of env p")
      case (File_data data)
      show ?thesis using False File_data grows_trans[OF grows_record_blob "2.IH"(3)[OF False File_data]] by simp
    qed (use False 2 in simp_all)
  qed simp
qed simp

lemma grows_capture: "grows db (capture sha env a e db)"
proof -
  have "grows db db'" if col: "collect sha env a e db = Some db'" for db'
  proof (cases "list_ex (\<lambda>((_, x), _). x = al_id a) (cd_links db)")
    case True
    then show ?thesis using col by (simp add: collect_def)
  next
    case False
    then obtain db0 where db0: "open_case (cv_case_id env) (cv_clock env 0) (al_id a) (Some (rend_short (al_rendered a))) db = Some db0"
      using col
      by (cases "open_case (cv_case_id env) (cv_clock env 0) (al_id a) (Some (rend_short (al_rendered a))) db")
         (simp_all add: collect_def)
    define db1 where "db1 = audit_note sha (cv_audit env) ''auto:evidence_collector'' ''case_opened''
      (''case:'' @ cv_case_id env) (details_of [(''auto'', PBool True), (''alert_id'', PStr (al_id a))]) db0"
    define db2 where "db2 = snd (capture_net sha env (al_id a) db1)"
    define db3 where "db3 = snd (capture_bundle sha env e (al_id a) db2)"
    define db4 where "db4 = snd (capture_tree sha env e (al_id a) db3)"
    define db5 where "db5 = snd (snd (snd (capture_files sha env (al_id a) 0 (implicated_paths a e) 0 0 db4)))"
    have "grows db db1" using open_case_frame[OF db0] by (intro grows_same) (simp_all add: db1_def)
    moreover have "grows db1 db2" by (simp add: db2_def capture_net_def grows_record_blob split: option.split prod.split)
    moreover have "grows db2 db3" by (simp add: db3_def capture_bundle_def grows_record_blob split: option.split)
    moreover have "grows db3 db4" by (simp add: db4_def capture_tree_def grows_record_blob split: option.split prod.split)
    moreover have "grows db4 db5" unfolding db5_def by (rule grows_files)
    moreover have "grows db5 db'"
      using col False db0 unfolding db5_def db4_def db3_def db2_def db1_def
      by (intro grows_same) (auto simp: collect_def Let_def case_prod_beta)
    ultimately show ?thesis by (blast intro: grows_trans)
  qed
  then show ?thesis by (auto simp: capture_def split: option.split)
qed

lemma grows_inv:
  assumes "custody_inv c" "grows (cu_db c) db'"
  shows "custody_inv (c\<lparr>cu_db := db'\<rparr>)"
proof -
  have "lock_ok db' (cu_lock c)" using assms
    by (cases "cu_lock c") (auto simp: custody_inv_def grows_def unprotected_def)
  then show ?thesis using assms by (auto simp: custody_inv_def grows_def rows_backed_def)
qed


section \<open>Preservation\<close>

lemma cas_sites_protect: "(fr, t) \<in> set cas_sites \<Longrightarrow> t \<in> set protecting_statuses \<Longrightarrow> set fr \<subseteq> set protecting_statuses"
  by (auto simp: cas_sites_def protecting_statuses_def)

lemma map_of_cas_site:
  assumes "(fr, t) \<in> set cas_sites" "map_of (cd_quarantine (snd (cas env qid fr t col db))) i = Some r'" "protecting r'"
  shows "\<exists>r. map_of (cd_quarantine db) i = Some r \<and> qr_sha r = qr_sha r' \<and> protecting r"
  using assms cas_sites_protect[OF assms(1)]
  by (auto simp: map_of_cas split: option.splits if_splits)

lemma status_inv:
  assumes "custody_inv c" "(fr, t) \<in> set cas_sites"
  shows "custody_inv (c\<lparr>cu_db := snd (cas env qid fr t col (cu_db c))\<rparr>)"
proof -
  let ?db = "snd (cas env qid fr t col (cu_db c))"
  have "rows_backed ?db"
    using assms(1) map_of_cas_site[OF assms(2)] by (fastforce simp: custody_inv_def rows_backed_def)
  moreover have "evidence_backed ?db" using assms(1) by (simp add: custody_inv_def evidence_backed_def)
  moreover have "wf_table (cd_quarantine ?db)"
    using assms(1) by (auto simp: custody_inv_def cas_def distinct_update split: option.split)
  moreover have "lock_ok ?db (cu_lock c)"
  proof (cases "cu_lock c")
    case (Pruning cutoff p hs)
    then show ?thesis using assms(1) map_of_cas_site[OF assms(2)] by (fastforce simp: custody_inv_def unprotected_def)
  qed simp
  ultimately show ?thesis by (simp add: custody_inv_def)
qed

lemma isolate_inv:
  assumes "custody_inv c" "cu_lock c = Free"
  shows "custody_inv (c\<lparr>cu_db := snd (quarantine_capture sha env m args st pkg (cu_db c))\<rparr>)"
proof -
  obtain out db1 where q: "quarantine_capture sha env m args st pkg (cu_db c) = (out, db1)" by fastforce
  show ?thesis
  proof (cases "\<exists>x. out = Done x")
    case True
    then obtain h sz where "quarantine_capture sha env m args st pkg (cu_db c) = (Done (h, sz), db1)" using q by auto
    note d = quarantine_capture_Done[OF this]
    have hb: "has_blob db1 x \<longleftrightarrow> x = h \<or> has_blob (cu_db c) x" for x
      unfolding d(4) using store_put_simps(4)[of sha "in_data st" "cu_db c" x] d(1) by (simp add: has_blob_def)
    have ev: "cd_evidence db1 = cd_evidence (cu_db c)"
      and rows: "cd_quarantine db1 = AList.update (qe_id env) (isolating_row env args st pkg h sz) (cd_quarantine (cu_db c))"
      unfolding d(4) by simp_all
    have old: "rows_backed (cu_db c)" "evidence_backed (cu_db c)" "wf_table (cd_quarantine (cu_db c))"
      using assms(1) by (auto simp: custody_inv_def)
    have "rows_backed db1"
    proof
      fix i q assume "map_of (cd_quarantine db1) i = Some q" "protecting q"
      then show "has_blob db1 (qr_sha q)"
        using old(1) unfolding hb rows rows_backed_def update_conv' by (cases "i = qe_id env") auto
    qed
    moreover have "evidence_backed db1" using old(2) unfolding evidence_backed_def ev hb by fastforce
    moreover have "wf_table (cd_quarantine db1)" unfolding rows using old(3) by (simp add: distinct_update)
    ultimately show ?thesis using q assms(2) by (simp add: custody_inv_def)
  next
    case False
    have "db1 = cu_db c \<or> db1 = snd (store_put sha (in_data st) (cu_db c))"
      using q False by (auto simp: quarantine_capture_def put_stream_file split: if_splits)
    then have "grows (cu_db c) db1" using grows_store_put by auto
    then show ?thesis using q grows_inv[OF assms(1)] by simp
  qed
qed

lemma delete_inv:
  assumes "custody_inv c" "cu_lock c = Free" "map_of (cd_quarantine (cu_db c)) qid = Some r" "qr_status r = ''deleting''"
  shows "custody_inv (c\<lparr>cu_db := snd (delete_locked qid (qr_sha r) (cu_db c))\<rparr>)"
proof (cases "blob_held qid (qr_sha r) (cu_db c) \<or> \<not> has_blob (cu_db c) (qr_sha r)")
  case True
  then show ?thesis using assms(1) by (auto simp: delete_locked_def)
next
  case False
  let ?db = "unlink_blob (qr_sha r) (cu_db c)"
  have hb: "has_blob ?db x \<longleftrightarrow> x \<noteq> qr_sha r \<and> has_blob (cu_db c) x" for x
    by (simp add: unlink_blob_def has_blob_def map_of_delete_key)
  have "rows_backed ?db"
  proof
    fix i q assume q: "map_of (cd_quarantine ?db) i = Some q" "protecting q"
    then have mem: "(i, q) \<in> set (cd_quarantine (cu_db c))" by (simp add: unlink_blob_def map_of_SomeD)
    have "qr_sha q \<noteq> qr_sha r"
    proof
      assume eq: "qr_sha q = qr_sha r"
      have "i \<noteq> qid" using q assms(3,4) by (auto simp: unlink_blob_def protecting_statuses_def)
      moreover have "qr_status q \<noteq> ''deleted''" using q(2) by (auto simp: protecting_statuses_def)
      ultimately have "blob_held qid (qr_sha r) (cu_db c)" using mem eq by (fastforce simp: blob_held_def list_ex_iff)
      then show False using False by simp
    qed
    moreover have "has_blob (cu_db c) (qr_sha q)"
      using q assms(1) by (auto simp: custody_inv_def rows_backed_def unlink_blob_def)
    ultimately show "has_blob ?db (qr_sha q)" using hb by blast
  qed
  moreover have "evidence_backed ?db"
  proof (rule evidence_backedI)
    fix k e assume ke: "(k, e) \<in> set (cd_evidence ?db)" "\<not> marked e"
    then have "(k, e) \<in> set (cd_evidence (cu_db c))" by (simp add: unlink_blob_def)
    moreover from this have "ek_sha k \<noteq> qr_sha r" using False by (auto simp: blob_held_def list_ex_iff)
    ultimately show "has_blob ?db (ek_sha k)"
      using assms(1) ke(2) hb evidence_backedD unfolding custody_inv_def by blast
  qed
  ultimately show ?thesis
    using False assms(1,2) by (simp add: custody_inv_def delete_locked_def unlink_blob_def)
qed

lemma scan_inv:
  assumes "custody_inv c" "cu_lock c = Free"
  shows "custody_inv (c\<lparr>cu_lock := Pruning cutoff t (evidence_candidates cutoff (cu_db c))\<rparr>)"
proof -
  have "unprotected (cu_db c) h" if "h \<in> set (evidence_candidates cutoff (cu_db c))" for h
    using that by (auto simp: evidence_candidates_def unprotected_def quarantine_holds_def list_ex_iff dest!: map_of_SomeD)
  then show ?thesis using assms(1) by (simp add: custody_inv_def)
qed

lemma prune_inv:
  assumes "custody_inv c" "cu_lock c = Pruning cutoff t (h # hs)" "prune_blobs fl busy cutoff t [h] (cu_db c) = (err, shas, db')"
  shows "custody_inv \<lparr>cu_db = db', cu_lock = (if err then Free else Pruning cutoff t hs)\<rparr>"
proof -
  let ?db = "cu_db c"
  have up: "unprotected ?db h" and inv: "rows_backed ?db" "evidence_backed ?db"
    and wf: "wf_table (cd_quarantine ?db)" and rest: "\<forall>h\<in>set hs. unprotected ?db h"
    using assms(1,2) by (auto simp: custody_inv_def)
  have qsame: "cd_quarantine db' = cd_quarantine ?db"
    using prune_blobs_same[of ?db fl busy cutoff t "[h]"] assms(3) by (simp add: same_but_evidence_def)
  have cases: "db' = ?db \<or> db' = stamp_tombstones fl h t ?db \<and> \<not> has_blob ?db h \<or> db' = stamp_tombstones fl h t (unlink_blob h ?db)"
    using assms(3) by (auto split: if_splits)
  have "rows_backed db'"
    using cases inv(1) up
    by (auto simp: rows_backed_def unprotected_def stamp_tombstones_def unlink_blob_def has_blob_def map_of_delete_key)
  moreover have "evidence_backed db'"
    using cases
  proof (elim disjE conjE)
    assume "db' = stamp_tombstones fl h t ?db"
    then show ?thesis using inv(2) stamp_marks
      by (fastforce simp: evidence_backed_def stamp_tombstones_def update_where_def has_blob_def)
  next
    assume "db' = stamp_tombstones fl h t (unlink_blob h ?db)"
    then show ?thesis using inv(2) stamp_marks
      by (fastforce simp: evidence_backed_def stamp_tombstones_def unlink_blob_def update_where_def has_blob_def map_of_delete_key)
  qed (use inv(2) in simp)
  moreover have "\<forall>h\<in>set hs. unprotected db' h" using rest qsame by (simp add: unprotected_def)
  ultimately show ?thesis using qsame wf by (simp add: custody_inv_def)
qed

lemma custody_step_inv: "custody_step sha fl c c' \<Longrightarrow> custody_inv c \<Longrightarrow> custody_inv c'"
proof (induction rule: custody_step.induct)
  case (Capture c env a e)
  then show ?case by (simp add: grows_inv grows_capture)
next
  case (Isolate c qenv m args st pkg)
  then show ?case by (simp add: isolate_inv)
next
  case (Status fr t c qenv qid col)
  then show ?case by (simp add: status_inv)
next
  case (Delete c qid r)
  then show ?case by (simp add: delete_inv)
next
  case (Prune_scan c cutoff t)
  then show ?case by (simp add: scan_inv)
next
  case (Prune_one c cutoff t h hs busy err shas db')
  then show ?case by (simp add: prune_inv)
next
  case (Prune_end c cutoff t)
  then show ?case by (simp add: custody_inv_def)
next
  case (Other db' c)
  then show ?case by (intro grows_inv grows_same)
qed


lemma custody_steps_inv: "(custody_step sha fl)\<^sup>*\<^sup>* c c' \<Longrightarrow> custody_inv c \<Longrightarrow> custody_inv c'"
  by (induction rule: rtranclp_induct) (auto intro: custody_step_inv)

lemma custody_inv_empty:
  "cd_quarantine (cu_db c) = [] \<Longrightarrow> cd_evidence (cu_db c) = [] \<Longrightarrow> cu_lock c = Free \<Longrightarrow> custody_inv c"
  by (simp add: custody_inv_def rows_backed_def evidence_backed_def)


definition sample_custody :: custody where
  "sample_custody = \<lparr>cu_db = sample_case_db, cu_lock = Free\<rparr>"

definition isolated_db :: case_db where
  "isolated_db = snd (quarantine_capture id (sample_qenv ''q'' (\<lambda>_ n. n)) 100 sample_args sample_inode None sample_case_db)"

definition active_db :: case_db where
  "active_db = snd (cas (sample_qenv ''q'' (\<lambda>_ n. n)) ''q'' [''isolating''] ''active'' No_ts isolated_db)"

lemma sample_custody_run: "(custody_step id fl)\<^sup>*\<^sup>* sample_custody (sample_custody\<lparr>cu_db := active_db\<rparr>)"
proof -
  have 1: "custody_step id fl sample_custody (sample_custody\<lparr>cu_db := isolated_db\<rparr>)"
    using custody_step.Isolate[of sample_custody id fl "sample_qenv ''q'' (\<lambda>_ n. n)" 100 sample_args sample_inode None]
    by (simp add: sample_custody_def isolated_db_def)
  have 2: "custody_step id fl (sample_custody\<lparr>cu_db := isolated_db\<rparr>) (sample_custody\<lparr>cu_db := active_db\<rparr>)"
    using custody_step.Status[of "[''isolating'']" "''active''" id fl "sample_custody\<lparr>cu_db := isolated_db\<rparr>"
        "sample_qenv ''q'' (\<lambda>_ n. n)" "''q''" No_ts]
    by (simp add: cas_sites_def active_db_def sample_custody_def)
  show ?thesis by (rule converse_rtranclp_into_rtranclp, rule 1, rule r_into_rtranclp, rule 2)
qed


section \<open>Two deletions of the same content\<close>

text \<open>Two concurrent deletions of rows with the same digest can each see the other row as not yet deleted; then
  both end, both rows are deleted, and the blob stays with nothing referring to it.\<close>

theorem concurrent_deletes_keep_blob:
  assumes "cd_quarantine (cu_db c) = [(a, ra), (b, rb)]" "a \<noteq> b" "qr_sha ra = h" "qr_sha rb = h"
    and "qr_status ra = ''active''" "qr_status rb = ''active''" "cu_lock c = Free" "has_blob (cu_db c) h"
  shows "\<exists>c'. (custody_step sha fl)\<^sup>*\<^sup>* c c' \<and> has_blob (cu_db c') h
    \<and> list_all (\<lambda>(_, q). qr_status q = ''deleted'') (cd_quarantine (cu_db c'))"
proof -
  let ?env = "sample_qenv ''x'' (\<lambda>_ n. n)"
  let ?fr = "[''active'', ''restored'', ''failed'']"
  define st where "st t r = (r\<lparr>qr_status := t\<rparr>)" for t and r :: quarantine_row
  define pt where "pt ra rb = c\<lparr>cu_db := (cu_db c)\<lparr>cd_quarantine := [(a, ra), (b, rb)]\<rparr>\<rparr>" for ra rb
  have start: "pt ra rb = c" using assms(1) by (cases c, cases "cu_db c") (simp add: pt_def)
  have mvA: "custody_step sha fl (pt x y) (pt (stamp col 0 (st t x)) y)"
    if "(fr, t) \<in> set cas_sites" "qr_status x \<in> set fr" for x y t fr col
    using custody_step.Status[OF that(1), of sha fl "pt x y" ?env a col] that(2)
    by (simp add: pt_def st_def cas_def sample_qenv_def)
  have mvB: "custody_step sha fl (pt x y) (pt x (stamp col 0 (st t y)))"
    if "(fr, t) \<in> set cas_sites" "qr_status y \<in> set fr" for x y t fr col
    using custody_step.Status[OF that(1), of sha fl "pt x y" ?env b col] that(2) assms(2)
    by (simp add: pt_def st_def cas_def sample_qenv_def)
  let ?A = "st ''deleting'' ra" and ?B = "st ''deleting'' rb"
  have 1: "custody_step sha fl (pt ra rb) (pt ?A rb)"
    using mvA[of ?fr "''deleting''" ra rb No_ts] assms(5) by (simp add: cas_sites_def)
  have 2: "custody_step sha fl (pt ?A rb) (pt ?A ?B)"
    using mvB[of ?fr "''deleting''" rb ?A No_ts] assms(6) by (simp add: cas_sites_def)
  have heldA: "delete_locked a h (cu_db (pt ?A ?B)) = (False, cu_db (pt ?A ?B))"
    using assms(2,4) by (simp add: delete_locked_def blob_held_def pt_def st_def)
  have heldB: "delete_locked b h (cu_db (pt ?A ?B)) = (False, cu_db (pt ?A ?B))"
    using assms(2,3) by (simp add: delete_locked_def blob_held_def pt_def st_def)
  have 3: "custody_step sha fl (pt ?A ?B) (pt ?A ?B)"
    using custody_step.Delete[of "pt ?A ?B" a ?A sha fl] heldA assms(3,7) by (simp add: pt_def st_def)
  have 4: "custody_step sha fl (pt ?A ?B) (pt ?A ?B)"
    using custody_step.Delete[of "pt ?A ?B" b ?B sha fl] heldB assms(2,4,7) by (simp add: pt_def st_def)
  have 5: "custody_step sha fl (pt ?A ?B) (pt (stamp Deleted_at 0 (st ''deleted'' ?A)) ?B)"
    using mvA[of "[''deleting'']" "''deleted''" ?A ?B Deleted_at] by (simp add: cas_sites_def st_def)
  have 6: "custody_step sha fl (pt (stamp Deleted_at 0 (st ''deleted'' ?A)) ?B)
      (pt (stamp Deleted_at 0 (st ''deleted'' ?A)) (stamp Deleted_at 0 (st ''deleted'' ?B)))"
    using mvB[of "[''deleting'']" "''deleted''" ?B "stamp Deleted_at 0 (st ''deleted'' ?A)" Deleted_at]
    by (simp add: cas_sites_def st_def)
  let ?c = "pt (stamp Deleted_at 0 (st ''deleted'' ?A)) (stamp Deleted_at 0 (st ''deleted'' ?B))"
  have "(custody_step sha fl)\<^sup>*\<^sup>* c ?c"
    unfolding start[symmetric]
    by (rule converse_rtranclp_into_rtranclp, rule 1, rule converse_rtranclp_into_rtranclp, rule 2,
        rule converse_rtranclp_into_rtranclp, rule 3, rule converse_rtranclp_into_rtranclp, rule 4,
        rule converse_rtranclp_into_rtranclp, rule 5, rule r_into_rtranclp, rule 6)
  moreover have "has_blob (cu_db ?c) h" using assms(8) by (simp add: pt_def has_blob_def)
  moreover have "list_all (\<lambda>(_, q). qr_status q = ''deleted'') (cd_quarantine (cu_db ?c))"
    by (simp add: pt_def st_def)
  ultimately show ?thesis by blast
qed

end
