(* ===== verification/Enrichment.thy ===== *)
theory Enrichment
  imports Projector
begin

text \<open>
  What happens to an event before the rules see it: construction (\<^verbatim>\<open>parsers/base.py\<close>), the three
  enrichers (\<^verbatim>\<open>enrichment/process.py\<close>, \<^verbatim>\<open>enrichment/file.py\<close>, \<^verbatim>\<open>enrichment/user.py\<close>) and the first-sighting
  tracker (\<^verbatim>\<open>anomaly/first_sighting.py\<close>).

  The host the enrichers read (\<^verbatim>\<open>/proc\<close>, the file system, the password database) is the record \<open>host\<close>.
  An enricher that raises is \<open>None\<close>; the digest caches are threaded through as state.
\<close>

section \<open>Construction\<close>

definition EVENT_SCHEMA_VERSION :: string where "EVENT_SCHEMA_VERSION = ''1.0.0''"

text \<open>The blocks a caller may pass, all absent by default.\<close>

record event_blocks =
  eb_host :: "pydict option"
  eb_process :: "pydict option"
  eb_file :: "pydict option"
  eb_user :: "pydict option"
  eb_source :: "pydict option"
  eb_destination :: "pydict option"
  eb_network :: "pydict option"
  eb_service :: "pydict option"
  eb_package :: "pydict option"
  eb_device :: "pydict option"
  eb_persistence :: "pydict option"
  eb_vulnerability :: "pydict option"
  eb_hunt :: "pydict option"
  eb_threat :: "pydict option"
  eb_raw :: "pydict option"

definition no_blocks :: event_blocks where
  "no_blocks =
     \<lparr>eb_host = None, eb_process = None, eb_file = None, eb_user = None, eb_source = None,
      eb_destination = None, eb_network = None, eb_service = None, eb_package = None, eb_device = None,
      eb_persistence = None, eb_vulnerability = None, eb_hunt = None, eb_threat = None, eb_raw = None\<rparr>"

text \<open>\<^verbatim>\<open>EventKind(k)\<close> and \<^verbatim>\<open>Outcome(o)\<close>; \<open>None\<close> is a \<^verbatim>\<open>ValueError\<close>.\<close>

definition event_kind_of :: "string \<Rightarrow> event_kind option" where
  "event_kind_of s =
     find (\<lambda>v. event_kind_value v = s) [Kind_event, Kind_alert, Kind_signal, Kind_state, Kind_metric]"

definition outcome_of :: "string \<Rightarrow> outcome option" where
  "outcome_of s = find (\<lambda>v. outcome_value v = s) [Success, Failure, Unknown]"

text \<open>\<open>now\<close> is \<^verbatim>\<open>datetime.now(UTC)\<close> and \<open>eid\<close> the fresh \<^verbatim>\<open>uuid7()\<close>.\<close>

definition build_event ::
  "datetime \<Rightarrow> string \<Rightarrow> string \<Rightarrow> string \<Rightarrow> string list \<Rightarrow> string list \<Rightarrow> string \<Rightarrow> string \<Rightarrow> string option
     \<Rightarrow> string option \<Rightarrow> event_blocks \<Rightarrow> string list option \<Rightarrow> datetime option \<Rightarrow> bool \<Rightarrow> event option" where
  "build_event now eid md action category types sev kind outc message b labels ts first_seen =
     (case (severity_of sev, event_kind_of kind,
            case outc of None \<Rightarrow> Some None | Some s \<Rightarrow> map_option Some (outcome_of s)) of
        (Some v, Some k, Some oc) \<Rightarrow>
          Some \<lparr>ev_schema_version = EVENT_SCHEMA_VERSION, ev_ts = (case ts of None \<Rightarrow> now | Some t \<Rightarrow> t),
                ev_id = eid, ev_kind = k, ev_category = category, ev_type = types, ev_action = action,
                ev_outcome = oc, ev_severity = v, ev_module = md, ev_first_seen = first_seen,
                ev_host = eb_host b, ev_user = eb_user b, ev_process = eb_process b, ev_file = eb_file b,
                ev_source = eb_source b, ev_destination = eb_destination b, ev_network = eb_network b,
                ev_service = eb_service b, ev_package = eb_package b, ev_device = eb_device b,
                ev_persistence = eb_persistence b, ev_vulnerability = eb_vulnerability b,
                ev_hunt = eb_hunt b, ev_rule = None, ev_threat = eb_threat b, ev_baseline = None,
                ev_evidence = None, ev_raw = eb_raw b,
                ev_labels = (case labels of None \<Rightarrow> [] | Some ls \<Rightarrow> ls), ev_message = message\<rparr>
      | _ \<Rightarrow> None)"

section \<open>The host\<close>

text \<open>A read that works, one that ends in \<^verbatim>\<open>PermissionError\<close> or \<^verbatim>\<open>FileNotFoundError\<close>, and one that raises anything
  else.\<close>

datatype 'a io = Io_ok 'a | Io_denied | Io_raises

text \<open>
  One process directory: the resolved executable with, when the path exists, its modification time and
  bytes; the NUL-separated command line; the \<^verbatim>\<open>stat\<close> line; and \<^verbatim>\<open>comm\<close>.
\<close>

record proc_entry =
  pe_exe :: "(string \<times> (real \<times> string io) io option) io"
  pe_cmdline :: "string io"
  pe_stat :: "string io"
  pe_comm :: "string io"

text \<open>One regular file: inode, modification time, size, mode, owner and bytes.\<close>

record file_entry =
  fe_ino :: int
  fe_mtime :: real
  fe_bytes_len :: int
  fe_mode :: nat
  fe_owner :: int
  fe_bytes :: "string io"

record host =
  h_proc :: "int \<Rightarrow> proc_entry option"
  h_file :: "string \<Rightarrow> file_entry io option"
  h_user :: "int \<Rightarrow> string option"
  h_sha :: "string \<Rightarrow> string"

record hash_caches =
  hc_exe :: "(string \<times> real, string) table"
  hc_file :: "(string \<times> int \<times> real \<times> int, string) table"

section \<open>Processes\<close>

text \<open>\<^verbatim>\<open>text.split()\<close>: the maximal runs of characters that are not white space.\<close>

fun split_ws :: "string \<Rightarrow> string \<Rightarrow> string list" where
  "split_ws acc [] = (if acc = [] then [] else [acc])"
| "split_ws acc (c # cs) =
     (if py_space c then (if acc = [] then split_ws [] cs else acc # split_ws [] cs)
      else split_ws (acc @ [c]) cs)"

text \<open>\<^verbatim>\<open>text[text.rfind(")") + 1:]\<close>, when the last bracket is not the first character.\<close>

definition after_last_paren :: "string \<Rightarrow> string option" where
  "after_last_paren s =
     (let tl_part = rev (takeWhile (\<lambda>c. c \<noteq> CHR '')'') (rev s))
      in if length tl_part + 1 < length s then Some tl_part else None)"

text \<open>The executable: its path is reported as soon as it exists, its digest when it can be read.\<close>

definition read_exe ::
  "(string \<Rightarrow> string) \<Rightarrow> (string \<times> (real \<times> string io) io option) io \<Rightarrow> hash_caches \<Rightarrow> pydict option \<times> hash_caches" where
  "read_exe sha r c =
     (case r of
        Io_raises \<Rightarrow> (None, c)
      | Io_denied \<Rightarrow> (Some [], c)
      | Io_ok (path, None) \<Rightarrow> (Some [], c)
      | Io_ok (path, Some Io_raises) \<Rightarrow> (None, c)
      | Io_ok (path, Some Io_denied) \<Rightarrow> (Some [(''exe'', PStr path)], c)
      | Io_ok (path, Some (Io_ok (mtime, content))) \<Rightarrow>
          (case map_of (hc_exe c) (path, mtime) of
             Some d \<Rightarrow> (Some [(''exe'', PStr path), (''exe_sha256'', PStr d)], c)
           | None \<Rightarrow>
               (case content of
                  Io_raises \<Rightarrow> (None, c)
                | Io_denied \<Rightarrow> (Some [(''exe'', PStr path)], c)
                | Io_ok bs \<Rightarrow>
                    (Some [(''exe'', PStr path), (''exe_sha256'', PStr (sha bs))],
                     c\<lparr>hc_exe := AList.update (path, mtime) (sha bs) (hc_exe c)\<rparr>))))"

definition read_cmdline :: "string io \<Rightarrow> pydict option" where
  "read_cmdline r =
     (case r of
        Io_raises \<Rightarrow> None
      | Io_denied \<Rightarrow> Some []
      | Io_ok raw \<Rightarrow>
          (let cmdline = strip (map (\<lambda>c. if c = CHR 0x00 then CHR '' '' else c) raw)
           in Some (if cmdline = [] then [] else [(''cmdline'', PStr cmdline)])))"

text \<open>The parent: the second field after the bracketed name; a value that is no integer is ignored.\<close>

definition read_ppid :: "string io \<Rightarrow> int option option" where
  "read_ppid r =
     (case r of
        Io_raises \<Rightarrow> None
      | Io_denied \<Rightarrow> Some None
      | Io_ok txt \<Rightarrow>
          Some (case after_last_paren txt of
                  None \<Rightarrow> None
                | Some rest \<Rightarrow>
                    (let fields = split_ws [] rest
                     in if length fields \<ge> 2 then py_int (fields ! 1) else None)))"

definition read_parent :: "host \<Rightarrow> int option \<Rightarrow> pydict option" where
  "read_parent h ppid =
     (case ppid of
        None \<Rightarrow> Some []
      | Some p \<Rightarrow>
          if p = 0 then Some [(''ppid'', PInt p)]
          else (case h_proc h p of
                  None \<Rightarrow> Some [(''ppid'', PInt p)]
                | Some e \<Rightarrow>
                    (case pe_comm e of
                       Io_raises \<Rightarrow> None
                     | Io_denied \<Rightarrow> Some [(''ppid'', PInt p)]
                     | Io_ok txt \<Rightarrow>
                         Some ((''ppid'', PInt p) #
                           (if strip txt = [] then [] else [(''parent_comm'', PStr (strip txt))])))))"

text \<open>The outer \<open>None\<close> is an exception; the inner one a process that is gone or says nothing.\<close>

definition read_pid :: "host \<Rightarrow> int \<Rightarrow> hash_caches \<Rightarrow> pydict option option \<times> hash_caches" where
  "read_pid h pid c =
     (case h_proc h pid of
        None \<Rightarrow> (Some None, c)
      | Some e \<Rightarrow>
          (case read_exe (h_sha h) (pe_exe e) c of
             (exe, c') \<Rightarrow>
               (case exe \<bind> (\<lambda>x. read_cmdline (pe_cmdline e) \<bind> (\<lambda>cmd. read_ppid (pe_stat e) \<bind> (\<lambda>ppid.
                        map_option (\<lambda>par. x @ cmd @ par) (read_parent h ppid)))) of
                  None \<Rightarrow> (None, c')
                | Some out \<Rightarrow> (Some (if out = [] then None else Some out), c'))))"

text \<open>\<^verbatim>\<open>dict(v)\<close>: a mapping, or a sequence of pairs with string keys; anything else raises.\<close>

fun dict_pair :: "pyval \<Rightarrow> (string \<times> pyval) option" where
  "dict_pair (PList [PStr k, v]) = Some (k, v)"
| "dict_pair (PStr [a, b]) = Some ([a], PStr [b])"
| "dict_pair _ = None"

fun dict_of :: "pyval \<Rightarrow> pydict option" where
  "dict_of (PDict d) = Some d"
| "dict_of (PList xs) =
     (case those (map dict_pair xs) of
        None \<Rightarrow> None
      | Some kvs \<Rightarrow> Some (foldl (\<lambda>d (k, v). AList.update k v d) [] kvs))"
| "dict_of (PStr []) = Some []"
| "dict_of _ = None"

definition has_key :: "pydict \<Rightarrow> string \<Rightarrow> bool" where
  "has_key d k = (map_of d k \<noteq> None)"

text \<open>\<^verbatim>\<open>block = dict(d.get("hash", {})); block["sha256"] = digest; d["hash"] = block\<close>.\<close>

definition set_digest :: "pyval \<Rightarrow> pydict \<Rightarrow> pydict option" where
  "set_digest digest d =
     (case dict_of (case map_of d ''hash'' of None \<Rightarrow> PDict [] | Some v \<Rightarrow> v) of
        None \<Rightarrow> None
      | Some block \<Rightarrow> Some (AList.update ''hash'' (PDict (AList.update ''sha256'' digest block)) d))"

definition set_absent :: "string \<Rightarrow> pydict \<Rightarrow> string \<Rightarrow> pydict \<Rightarrow> pydict" where
  "set_absent k d src data =
     (if has_key data src \<and> \<not> has_key d k then AList.update k (dget data src) d else d)"

definition set_parent :: "pydict \<Rightarrow> pydict \<Rightarrow> pydict" where
  "set_parent data d =
     (if has_key data ''ppid''
      then AList.update ''parent''
             (PDict ((''pid'', dget data ''ppid'') #
                (if has_key data ''parent_comm'' then [(''name'', dget data ''parent_comm'')] else []))) d
      else d)"

definition fill_process :: "pydict \<Rightarrow> pydict \<Rightarrow> pydict option" where
  "fill_process data p =
     (let p1 = set_absent ''executable'' p ''exe'' data
      in map_option (\<lambda>p2. set_parent data (set_absent ''command_line'' p2 ''cmdline'' data))
           (if has_key data ''exe_sha256'' then set_digest (dget data ''exe_sha256'') p1 else Some p1))"

definition enrich_process :: "host \<Rightarrow> event \<Rightarrow> hash_caches \<Rightarrow> event option \<times> hash_caches" where
  "enrich_process h e c =
     (case ev_process e of
        None \<Rightarrow> (Some e, c)
      | Some p \<Rightarrow>
          (case map_option int_of (map_of p ''pid'') of
             Some (Some pid) \<Rightarrow>
               (case read_pid h pid c of
                  (None, c') \<Rightarrow> (None, c')
                | (Some None, c') \<Rightarrow> (Some e, c')
                | (Some (Some data), c') \<Rightarrow>
                    (map_option (\<lambda>q. e\<lparr>ev_process := Some q\<rparr>) (fill_process data p), c'))
           | _ \<Rightarrow> (Some e, c)))"

section \<open>Files\<close>

fun octal_digits :: "nat \<Rightarrow> string" where
  "octal_digits n = (if n < 8 then [hex_digit n] else octal_digits (n div 8) @ [hex_digit (n mod 8)])"

declare octal_digits.simps [simp del]

text \<open>\<^verbatim>\<open>oct(n)\<close>.\<close>

definition oct_str :: "nat \<Rightarrow> string" where
  "oct_str n = ''0o'' @ octal_digits n"

definition S_ISUID :: nat where "S_ISUID = 2048"
definition S_ISGID :: nat where "S_ISGID = 1024"

definition mode_bit :: "nat \<Rightarrow> nat \<Rightarrow> bool" where
  "mode_bit mode b = odd (mode div b)"

definition stat_fields :: "file_entry \<Rightarrow> pydict \<Rightarrow> pydict" where
  "stat_fields s f =
     AList.update ''setgid'' (PBool (mode_bit (fe_mode s) S_ISGID))
       (AList.update ''setuid'' (PBool (mode_bit (fe_mode s) S_ISUID))
         (AList.update ''owner'' (PInt (fe_owner s))
           (AList.update ''mode'' (PStr (oct_str (fe_mode s mod 4096)))
             (AList.update ''mtime'' (PFloat (fe_mtime s))
               (AList.update ''size'' (PInt (fe_bytes_len s)) f)))))"

text \<open>\<^verbatim>\<open>_sha256\<close> with its cache; \<open>Io_denied\<close> stands for the \<^verbatim>\<open>OSError\<close>s, all of which the caller ignores.\<close>

definition file_sha256 :: "host \<Rightarrow> string \<Rightarrow> file_entry \<Rightarrow> hash_caches \<Rightarrow> string io \<times> hash_caches" where
  "file_sha256 h path s c =
     (let key = (path, fe_ino s, fe_mtime s, fe_bytes_len s)
      in case map_of (hc_file c) key of
           Some d \<Rightarrow> (Io_ok d, c)
         | None \<Rightarrow>
             (case fe_bytes s of
                Io_ok bs \<Rightarrow> (Io_ok (h_sha h bs), c\<lparr>hc_file := AList.update key (h_sha h bs) (hc_file c)\<rparr>)
              | Io_denied \<Rightarrow> (Io_denied, c)
              | Io_raises \<Rightarrow> (Io_raises, c)))"

definition enrich_file :: "host \<Rightarrow> event \<Rightarrow> hash_caches \<Rightarrow> event option \<times> hash_caches" where
  "enrich_file h e c =
     (case ev_file e of
        None \<Rightarrow> (Some e, c)
      | Some f \<Rightarrow>
          (case dget f ''path'' of
             PStr path \<Rightarrow>
               (case h_file h path of
                  None \<Rightarrow> (Some e, c)
                | Some Io_raises \<Rightarrow> (None, c)
                | Some Io_denied \<Rightarrow> (Some e, c)
                | Some (Io_ok s) \<Rightarrow>
                    (case file_sha256 h path s c of
                       (Io_raises, c') \<Rightarrow> (None, c')
                     | (Io_denied, c') \<Rightarrow> (Some (e\<lparr>ev_file := Some (stat_fields s f)\<rparr>), c')
                     | (Io_ok d, c') \<Rightarrow>
                         (map_option (\<lambda>g. e\<lparr>ev_file := Some g\<rparr>) (set_digest (PStr d) (stat_fields s f)), c')))
           | _ \<Rightarrow> (Some e, c)))"

section \<open>Users\<close>

definition enrich_user :: "host \<Rightarrow> event \<Rightarrow> event" where
  "enrich_user h e =
     (case ev_user e of
        None \<Rightarrow> e
      | Some u \<Rightarrow>
          (case int_of (dget u ''id'') of
             None \<Rightarrow> e
           | Some uid \<Rightarrow>
               (case h_user h uid of
                  None \<Rightarrow> e
                | Some name \<Rightarrow>
                    e\<lparr>ev_user := Some (if has_key u ''name'' then u else AList.update ''name'' (PStr name) u)\<rparr>)))"

definition enrich :: "host \<Rightarrow> event \<Rightarrow> hash_caches \<Rightarrow> event option \<times> hash_caches" where
  "enrich h e c =
     (case enrich_process h e c of
        (None, c1) \<Rightarrow> (None, c1)
      | (Some e1, c1) \<Rightarrow>
          (case enrich_file h e1 c1 of
             (e2, c2) \<Rightarrow> (map_option (enrich_user h) e2, c2)))"

section \<open>First sightings\<close>

text \<open>The category, entity kind and entity key of one sighting.\<close>

type_synonym sighting_key = "string \<times> string \<times> string"

definition process_start_key :: "(pyval \<Rightarrow> string) \<Rightarrow> event \<Rightarrow> sighting_key list option" where
  "process_start_key ostr e =
     (case value_get (bget (ev_process e) ''hash'') ''sha256'' of
        None \<Rightarrow> None
      | Some d \<Rightarrow>
          (let ident = py_or d (bget (ev_process e) ''executable'')
           in Some (if truthy ident then [(''process'', ''binary'', py_str ostr ident)] else [])))"

definition outbound_connection_key :: "(pyval \<Rightarrow> string) \<Rightarrow> event \<Rightarrow> sighting_key list" where
  "outbound_connection_key ostr e =
     (let name = bget (ev_process e) ''name''; ip = bget (ev_destination e) ''ip''; port = bget (ev_destination e) ''port''
      in if truthy name \<and> truthy ip \<and> port \<noteq> PNone
         then [(''network'', ''proc_dest'', py_str ostr name @ ''->'' @ py_str ostr ip @ '':'' @ py_str ostr port)]
         else [])"

definition ssh_login_key :: "(pyval \<Rightarrow> string) \<Rightarrow> event \<Rightarrow> sighting_key list" where
  "ssh_login_key ostr e =
     (let ip = bget (ev_source e) ''ip''
      in if truthy ip then [(''authentication'', ''login_ip'', py_str ostr ip)] else [])"

definition kmod_key :: "(pyval \<Rightarrow> string) \<Rightarrow> event \<Rightarrow> sighting_key list" where
  "kmod_key ostr e =
     (let name = bget (ev_raw e) ''module_name''
      in if truthy name then [(''driver'', ''kmod'', py_str ostr name)] else [])"

definition suid_key :: "(pyval \<Rightarrow> string) \<Rightarrow> event \<Rightarrow> sighting_key list" where
  "suid_key ostr e =
     (if bget (ev_file e) ''setuid'' = PBool True \<and> truthy (bget (ev_file e) ''path'')
      then [(''file'', ''suid'', py_str ostr (bget (ev_file e) ''path''))] else [])"

definition sighting_keys :: "(pyval \<Rightarrow> string) \<Rightarrow> event \<Rightarrow> sighting_key list option" where
  "sighting_keys ostr e =
     (if ev_action e = ''process_start'' then process_start_key ostr e
      else if ev_action e = ''outbound_connection'' then Some (outbound_connection_key ostr e)
      else if ev_action e = ''ssh_login_succeeded'' then Some (ssh_login_key ostr e)
      else if ev_action e = ''kmod_loaded'' then Some (kmod_key ostr e)
      else if ev_module e = ''fim_watcher''
              \<and> (ev_action e = ''file_created'' \<or> ev_action e = ''file_attributes_changed'')
        then Some (suid_key ostr e)
      else Some [])"

record sighting_tracker =
  st_seen :: "sighting_key list"
  st_pending :: "(sighting_key \<times> datetime \<times> string) list"

type_synonym first_seen_table = "(sighting_key, datetime \<times> string) table"

definition tracker_init :: sighting_tracker where
  "tracker_init = \<lparr>st_seen = [], st_pending = []\<rparr>"

definition tracker_load :: "first_seen_table \<Rightarrow> sighting_tracker \<Rightarrow> sighting_tracker" where
  "tracker_load rows t = t\<lparr>st_seen := map fst rows\<rparr>"

text \<open>One key of the loop under the lock: the flag says whether it was new.\<close>

definition note_key :: "event \<Rightarrow> sighting_key \<Rightarrow> bool \<times> sighting_tracker \<Rightarrow> bool \<times> sighting_tracker" where
  "note_key e k = (\<lambda>(new, t).
     if k \<in> set (st_seen t) then (new, t)
     else (True, t\<lparr>st_seen := k # st_seen t, st_pending := st_pending t @ [(k, ev_ts e, ev_id e)]\<rparr>))"

definition mark_sighting :: "event \<Rightarrow> event" where
  "mark_sighting e =
     e\<lparr>ev_baseline := Some (AList.update ''first_sighting'' (PBool True)
          (case ev_baseline e of None \<Rightarrow> [] | Some d \<Rightarrow> d))\<rparr>"

text \<open>\<open>None\<close> is an exception while the keys are derived.\<close>

definition tracker_observe ::
  "(pyval \<Rightarrow> string) \<Rightarrow> event \<Rightarrow> sighting_tracker \<Rightarrow> (event \<times> sighting_tracker) option" where
  "tracker_observe ostr e t =
     (case sighting_keys ostr e of
        None \<Rightarrow> None
      | Some ks \<Rightarrow>
          (case fold (note_key e) ks (False, t) of
             (new, t') \<Rightarrow> Some (if new then mark_sighting e else e, t')))"

text \<open>\<^verbatim>\<open>INSERT OR IGNORE\<close> for the queued rows; the first \<open>ok\<close> of them are written, and a flush that stops
  before the last one raises, with the queue already empty.\<close>

definition insert_ignore :: "'k \<Rightarrow> 'r \<Rightarrow> ('k, 'r) table \<Rightarrow> ('k, 'r) table" where
  "insert_ignore k r t = (if map_of t k = None then t @ [(k, r)] else t)"

definition tracker_flush ::
  "nat \<Rightarrow> sighting_tracker \<Rightarrow> first_seen_table \<Rightarrow> nat option \<times> sighting_tracker \<times> first_seen_table" where
  "tracker_flush ok t rows =
     (let pending = st_pending t
      in (if length pending \<le> ok then Some (length pending) else None,
          t\<lparr>st_pending := []\<rparr>,
          fold (\<lambda>(k, ts, eid). insert_ignore k (ts, eid)) (take ok pending) rows))"

definition pending_count :: "sighting_tracker \<Rightarrow> nat" where
  "pending_count t = length (st_pending t)"

section \<open>What enrichment keeps\<close>

text \<open>Everything but the blocks an enricher or the tracker may write.\<close>

definition event_core :: "event \<Rightarrow> event" where
  "event_core e = e\<lparr>ev_process := None, ev_file := None, ev_user := None, ev_baseline := None\<rparr>"

lemma event_core_eqD:
  "event_core e = event_core e' \<Longrightarrow> ev_id e = ev_id e' \<and> ev_ts e = ev_ts e' \<and> ev_module e = ev_module e'
     \<and> ev_action e = ev_action e' \<and> ev_severity e = ev_severity e' \<and> ev_first_seen e = ev_first_seen e'
     \<and> ev_raw e = ev_raw e'"
  by (cases e; cases e') (simp add: event_core_def)

lemma enrich_process_frame:
  "fst (enrich_process h e c) = Some e' \<Longrightarrow> \<exists>q. e' = e\<lparr>ev_process := q\<rparr> \<and>
     (\<forall>p. ev_process e = Some p \<longrightarrow> (\<exists>p'. q = Some p' \<and> (p' = p \<or> (\<exists>data. fill_process data p = Some p'))))"
  by (cases e) (auto simp: enrich_process_def split: option.splits prod.splits)

lemma enrich_file_frame:
  "fst (enrich_file h e c) = Some e' \<Longrightarrow> \<exists>q. e' = e\<lparr>ev_file := q\<rparr> \<and>
     (\<forall>f. ev_file e = Some f \<longrightarrow> (\<exists>f'. q = Some f' \<and> (f' = f \<or> (\<exists>s. f' = stat_fields s f)
        \<or> (\<exists>s d. set_digest d (stat_fields s f) = Some f'))))"
  by (cases e) (auto simp: enrich_file_def split: option.splits prod.splits io.splits pyval.splits)

lemma enrich_user_frame:
  "\<exists>q. enrich_user h e = e\<lparr>ev_user := q\<rparr> \<and>
     (\<forall>u. ev_user e = Some u \<longrightarrow> (\<exists>u'. q = Some u' \<and> (\<forall>k v. map_of u k = Some v \<longrightarrow> map_of u' k = Some v)))"
  by (cases e) (auto simp: enrich_user_def has_key_def table_simps split: option.splits)

lemma set_digest_keeps:
  "set_digest g d = Some d' \<Longrightarrow> k \<noteq> ''hash'' \<Longrightarrow> map_of d' k = map_of d k"
  by (auto simp: set_digest_def table_simps split: option.splits)

lemma set_absent_keeps: "map_of d k = Some v \<Longrightarrow> map_of (set_absent x d src data) k = Some v"
  by (auto simp: set_absent_def has_key_def table_simps)

lemma set_parent_keeps: "k \<noteq> ''parent'' \<Longrightarrow> map_of (set_parent data d) k = map_of d k"
  by (auto simp: set_parent_def table_simps)

lemma fill_process_keeps:
  assumes "fill_process data p = Some p'" "map_of p k = Some v" "k \<noteq> ''hash''" "k \<noteq> ''parent''"
  shows "map_of p' k = Some v"
  using assms
  by (auto simp: fill_process_def Let_def set_parent_keeps set_absent_keeps set_digest_keeps split: if_splits)

lemma stat_fields_keeps:
  "k \<notin> {''size'', ''mtime'', ''mode'', ''owner'', ''setuid'', ''setgid''} \<Longrightarrow> map_of (stat_fields s f) k = map_of f k"
  by (simp add: stat_fields_def table_simps)

lemma enrich_Some:
  assumes "fst (enrich h e c) = Some e'"
  obtains e1 e2 c1 where "fst (enrich_process h e c) = Some e1" "fst (enrich_file h e1 c1) = Some e2"
    "e' = enrich_user h e2"
proof -
  obtain r c1 where p: "enrich_process h e c = (r, c1)" by (cases "enrich_process h e c")
  with assms obtain e1 where r: "r = Some e1" by (cases r) (auto simp: enrich_def)
  obtain r2 c2 where f: "enrich_file h e1 c1 = (r2, c2)" by (cases "enrich_file h e1 c1")
  with assms p r obtain e2 where "r2 = Some e2" "e' = enrich_user h e2" by (auto simp: enrich_def)
  with p r f show thesis by (intro that[of e1 c1 e2]) simp_all
qed

lemma enrich_core:
  assumes "fst (enrich h e c) = Some e'"
  shows "event_core e' = event_core e"
proof -
  obtain e1 e2 c1 where s: "fst (enrich_process h e c) = Some e1" "fst (enrich_file h e1 c1) = Some e2"
    "e' = enrich_user h e2" by (rule enrich_Some[OF assms])
  obtain q where "e1 = e\<lparr>ev_process := q\<rparr>" using enrich_process_frame[OF s(1)] by blast
  moreover obtain f where "e2 = e1\<lparr>ev_file := f\<rparr>" using enrich_file_frame[OF s(2)] by blast
  moreover obtain u where "e' = e2\<lparr>ev_user := u\<rparr>" using enrich_user_frame[of h e2] s(3) by blast
  ultimately show ?thesis by (simp add: event_core_def)
qed

section \<open>Sightings are flagged once\<close>

text \<open>A run of the tracker: each event with its flag.\<close>

fun observe_run :: "(pyval \<Rightarrow> string) \<Rightarrow> event list \<Rightarrow> sighting_tracker \<Rightarrow> bool list \<times> sighting_tracker" where
  "observe_run ostr [] t = ([], t)"
| "observe_run ostr (e # es) t =
     (case tracker_observe ostr e t of
        None \<Rightarrow> (case observe_run ostr es t of (fs, t') \<Rightarrow> (False # fs, t'))
      | Some (e', t1) \<Rightarrow>
          (case observe_run ostr es t1 of (fs, t') \<Rightarrow> ((bget (ev_baseline e') ''first_sighting'' = PBool True) # fs, t')))"

definition keys_of :: "(pyval \<Rightarrow> string) \<Rightarrow> event \<Rightarrow> sighting_key list" where
  "keys_of ostr e = (case sighting_keys ostr e of None \<Rightarrow> [] | Some ks \<Rightarrow> ks)"

text \<open>The specification: an event is flagged when one of its keys is neither known nor carried by an earlier
  event.\<close>

fun novel :: "(pyval \<Rightarrow> string) \<Rightarrow> sighting_key set \<Rightarrow> event list \<Rightarrow> bool list" where
  "novel ostr known [] = []"
| "novel ostr known (e # es) =
     (\<not> set (keys_of ostr e) \<subseteq> known) # novel ostr (known \<union> set (keys_of ostr e)) es"

lemma fold_note_key:
  "fold (note_key e) ks (b, t) = (b', t') \<Longrightarrow>
     b' = (b \<or> \<not> set ks \<subseteq> set (st_seen t)) \<and> set (st_seen t') = set (st_seen t) \<union> set ks"
proof (induction ks arbitrary: b t)
  case Nil
  then show ?case by simp
next
  case (Cons k ks)
  show ?case
  proof (cases "k \<in> set (st_seen t)")
    case True
    then show ?thesis using Cons.IH[of b t] Cons.prems by (auto simp: note_key_def)
  next
    case False
    then show ?thesis
      using Cons.IH[of True "t\<lparr>st_seen := k # st_seen t, st_pending := st_pending t @ [(k, ev_ts e, ev_id e)]\<rparr>"]
        Cons.prems by (auto simp: note_key_def)
  qed
qed

lemma mark_sighting_flag: "bget (ev_baseline (mark_sighting e)) ''first_sighting'' = PBool True"
  by (simp add: mark_sighting_def dget_def table_simps)

lemma tracker_observe_cases:
  assumes "tracker_observe ostr e t = Some (e', t')"
  shows "sighting_keys ostr e = Some (keys_of ostr e)" "set (st_seen t') = set (st_seen t) \<union> set (keys_of ostr e)"
    "e' = (if set (keys_of ostr e) \<subseteq> set (st_seen t) then e else mark_sighting e)"
proof -
  obtain ks where ks: "sighting_keys ostr e = Some ks" using assms by (auto simp: tracker_observe_def split: option.splits)
  then have k: "keys_of ostr e = ks" by (simp add: keys_of_def)
  obtain b u where f: "fold (note_key e) ks (False, t) = (b, u)" by (cases "fold (note_key e) ks (False, t)")
  from assms ks f have "u = t'" "e' = (if b then mark_sighting e else e)" by (auto simp: tracker_observe_def)
  with fold_note_key[OF f] ks k show "sighting_keys ostr e = Some (keys_of ostr e)"
    "set (st_seen t') = set (st_seen t) \<union> set (keys_of ostr e)"
    "e' = (if set (keys_of ostr e) \<subseteq> set (st_seen t) then e else mark_sighting e)" by auto
qed

lemma tracker_observe_None: "tracker_observe ostr e t = None \<Longrightarrow> keys_of ostr e = []"
  by (auto simp: tracker_observe_def keys_of_def split: option.splits prod.splits)

text \<open>For every stream of events that carry no baseline verdict of their own, the tracker flags an event
  as a first sighting exactly when one of its keys was neither loaded from the database nor carried by an
  earlier event of the stream. In particular no key is flagged twice, whatever the interleaving of actions
  that derive it.\<close>

theorem first_sighting_exact:
  assumes "\<forall>e\<in>set es. ev_baseline e = None"
  shows "fst (observe_run ostr es t) = novel ostr (set (st_seen t)) es"
  using assms
proof (induction es arbitrary: t)
  case Nil
  then show ?case by simp
next
  case (Cons e es)
  show ?case
  proof (cases "tracker_observe ostr e t")
    case None
    moreover have "fst (observe_run ostr es t) = novel ostr (set (st_seen t)) es" using Cons by simp
    ultimately show ?thesis using tracker_observe_None[OF None] by (simp split: prod.split) auto
  next
    case (Some r)
    obtain e' t' where r: "tracker_observe ostr e t = Some (e', t')" using Some by (cases r) auto
    note c = tracker_observe_cases[OF r]
    have "(bget (ev_baseline e') ''first_sighting'' = PBool True) = (\<not> set (keys_of ostr e) \<subseteq> set (st_seen t))"
      using c(3) Cons.prems by (simp add: mark_sighting_flag)
    moreover have "fst (observe_run ostr es t') = novel ostr (set (st_seen t) \<union> set (keys_of ostr e)) es"
      using Cons.IH[of t'] Cons.prems c(2) by simp
    ultimately show ?thesis using r by (auto split: prod.splits)
  qed
qed

definition login_from :: "string \<Rightarrow> string \<Rightarrow> event" where
  "login_from i ip =
     (mk_event 0 i ''log_tailer'' ''ssh_login_succeeded'' Info)\<lparr>ev_source := Some [(''ip'', PStr ip)]\<rparr>"

theorem first_sighting_exact_witness:
  "fst (observe_run (\<lambda>_. '''') [login_from ''e1'' ''10.0.0.1'', login_from ''e2'' ''10.0.0.2'', login_from ''e3'' ''10.0.0.1'']
     (tracker_load [((''authentication'', ''login_ip'', ''10.0.0.2''), (0, ''e0''))] tracker_init))
   = [True, False, False]"
proof -
  let ?es = "[login_from ''e1'' ''10.0.0.1'', login_from ''e2'' ''10.0.0.2'', login_from ''e3'' ''10.0.0.1'']"
  have "\<forall>e\<in>set ?es. ev_baseline e = None" by (simp add: login_from_def)
  then show ?thesis
    unfolding first_sighting_exact[OF \<open>\<forall>e\<in>set ?es. ev_baseline e = None\<close>]
    by (simp add: login_from_def keys_of_def sighting_keys_def ssh_login_key_def tracker_load_def tracker_init_def
        py_str_def Let_def)
qed

end
