(* ===== verification/Pipeline.thy ===== *)
theory Pipeline
  imports Enrichment Entity_State Evidence Rule_Engine Router Journal
begin

text \<open>
  The event path of \<^verbatim>\<open>inspectord/supervisor.py\<close>: \<^verbatim>\<open>_dispatch\<close> with \<^verbatim>\<open>_run_alert_path\<close>, the storage thread
  (\<^verbatim>\<open>_drain\<close>, \<^verbatim>\<open>_persist\<close>) and the events the supervisor emits about itself. The components the path goes
  through are the ones of the theories imported here.

  A call of \<^verbatim>\<open>_dispatch\<close> meets a host, a rule set, fresh identifiers and faults; they are the fields of
  \<open>dispatch_env\<close>. The list \<open>dm_notified\<close> records, for every call of the alert listeners, the alert and the
  database a listener could read at that moment; \<open>dm_live\<close> records the events given to the live listeners.
\<close>

section \<open>State\<close>

record store =
  so_journal :: journal
  so_events :: event_store
  so_entities :: entity_state

record daemon =
  dm_subs :: "subscription list"
  dm_store_sub :: nat
  dm_cache :: hash_caches
  dm_tracker :: "sighting_tracker option"
  dm_engine :: rule_engine
  dm_db :: case_db
  dm_collector :: bool
  dm_store :: store
  dm_outcomes :: "bool list"
  dm_last_alert :: "real option"
  dm_notified :: "(alert \<times> case_db) list"
  dm_live :: "event list"

record dispatch_env =
  dv_sha :: "string \<Rightarrow> string"
  dv_ostr :: "pyval \<Rightarrow> string"
  dv_host :: host
  dv_evaluate :: "eval_context \<Rightarrow> rule_match list"
  dv_fresh :: "nat \<Rightarrow> string"
  dv_capture :: "nat \<Rightarrow> capture_env"
  dv_engine_fault :: bool

section \<open>Dispatch\<close>

text \<open>The loop over the alerts: evidence first, then the listeners, whose exceptions are logged.\<close>

fun fan_out :: "dispatch_env \<Rightarrow> event \<Rightarrow> nat \<Rightarrow> alert list \<Rightarrow> daemon \<Rightarrow> daemon" where
  "fan_out env e n [] d = d"
| "fan_out env e n (a # as) d =
     (let db = (if dm_collector d then capture (dv_sha env) (dv_capture env n) a e (dm_db d) else dm_db d)
      in fan_out env e (Suc n) as (d\<lparr>dm_db := db, dm_notified := dm_notified d @ [(a, db)]\<rparr>))"

text \<open>An exception of the rule engine leaves through the caller with what has been persisted so far.\<close>

definition run_alert_path :: "dispatch_env \<Rightarrow> event \<Rightarrow> daemon \<Rightarrow> daemon" where
  "run_alert_path env e d =
     (if dv_engine_fault env then d
      else (case process_event (dv_evaluate env) (dv_fresh env) e (dm_engine d) (cd_alerts (dm_db d)) of
              (eng, t, result) \<Rightarrow>
                (let d1 = d\<lparr>dm_engine := eng, dm_db := (dm_db d)\<lparr>cd_alerts := t\<rparr>\<rparr>
                 in case result of Inl err \<Rightarrow> d1 | Inr as \<Rightarrow> fan_out env e 0 as d1)))"

text \<open>The guarded part: the event as it stands when the block ends or raises, and the state.\<close>

definition guarded_path :: "dispatch_env \<Rightarrow> event \<Rightarrow> daemon \<Rightarrow> event \<times> daemon" where
  "guarded_path env e d =
     (case enrich (dv_host env) e (dm_cache d) of
        (None, c) \<Rightarrow> (e, d\<lparr>dm_cache := c\<rparr>)
      | (Some e1, c) \<Rightarrow>
          (let d1 = d\<lparr>dm_cache := c\<rparr>
           in case dm_tracker d of
                None \<Rightarrow> (e1, run_alert_path env e1 d1)
              | Some t \<Rightarrow>
                  (case tracker_observe (dv_ostr env) e1 t of
                     None \<Rightarrow> (e1, d1)
                   | Some (e2, t') \<Rightarrow> (e2, run_alert_path env e2 (d1\<lparr>dm_tracker := Some t'\<rparr>)))))"

text \<open>\<^verbatim>\<open>RouterFull\<close> is logged; the publication happens whatever the alert path did.\<close>

definition dispatch :: "dispatch_env \<Rightarrow> event \<Rightarrow> daemon \<Rightarrow> daemon" where
  "dispatch env e d =
     (case guarded_path env e d of (e', d') \<Rightarrow> d'\<lparr>dm_subs := snd (publish e' (dm_subs d'))\<rparr>)"

definition emit_supervisor_event ::
  "dispatch_env \<Rightarrow> datetime \<Rightarrow> string \<Rightarrow> string \<Rightarrow> string \<Rightarrow> string list \<Rightarrow> string \<Rightarrow> pydict \<Rightarrow> daemon \<Rightarrow> daemon" where
  "emit_supervisor_event env now eid action sev types message raw d =
     (case build_event now eid ''supervisor'' action [''process''] types sev ''event'' None (Some message)
             (no_blocks\<lparr>eb_raw := Some raw\<rparr>) None None False of
        None \<Rightarrow> d
      | Some e \<Rightarrow> dispatch env e d)"

section \<open>The storage thread\<close>

datatype persist_stage = Stage_journal | Stage_database

text \<open>\<^verbatim>\<open>PersistFailed\<close> carries its stage; an exception of the serialisation does not.\<close>

type_synonym persist_failure = "persist_stage option"

record persist_env =
  pv_sha :: "string \<Rightarrow> string"
  pv_ostr :: "pyval \<Rightarrow> string"
  pv_dump :: "event \<Rightarrow> string"
  pv_float :: "real \<Rightarrow> string"
  pv_today :: int
  pv_fromiso :: "string \<Rightarrow> datetime option"
  pv_boot_id :: "string option"
  pv_journal_fault :: bool
  pv_insert_fault :: bool
  pv_project_fault :: bool

text \<open>\<^verbatim>\<open>self._journal.append(record)\<close>: only a dictionary can be unpacked into the record.\<close>

definition journal_event :: "persist_env \<Rightarrow> pyval \<Rightarrow> journal \<Rightarrow> journal \<times> bool" where
  "journal_event env v j =
     (if pv_journal_fault env then (j, False)
      else case v of
             PDict payload \<Rightarrow>
               (case journal_append (pv_sha env) (pv_float env) (pv_today env) payload j of
                  (j', err) \<Rightarrow> (j', err = None))
           | _ \<Rightarrow> (if j_closed j then j else open_for_today (pv_sha env) (pv_today env) j, False))"

definition database_event :: "persist_env \<Rightarrow> event \<Rightarrow> string \<Rightarrow> store \<Rightarrow> store \<times> bool" where
  "database_event env e payload so =
     (if pv_insert_fault env then (so, False)
      else case insert_event e payload (so_events so) of
             None \<Rightarrow> (so, False)
           | Some es \<Rightarrow>
               (let so1 = so\<lparr>so_events := es\<rparr>
                in if pv_project_fault env then (so1, False)
                   else case project (pv_ostr env) (pv_fromiso env) (pv_boot_id env) e (so_entities so1) of
                          None \<Rightarrow> (so1, False)
                        | Some st \<Rightarrow> (so1\<lparr>so_entities := st\<rparr>, True)))"

definition persist_event :: "persist_env \<Rightarrow> event \<Rightarrow> store \<Rightarrow> store \<times> persist_failure option" where
  "persist_event env e so =
     (let payload = pv_dump env e
      in case json_loads payload of
           None \<Rightarrow> (so, Some None)
         | Some v \<Rightarrow>
             (case journal_event env v (so_journal so) of
                (j, ok) \<Rightarrow>
                  (let so1 = so\<lparr>so_journal := j\<rparr>
                   in if \<not> ok then (so1, Some (Some Stage_journal))
                      else case database_event env e payload so1 of
                             (so2, ok2) \<Rightarrow> (so2, if ok2 then None else Some (Some Stage_database)))))"

definition PERSIST_FAILURE_WINDOW :: nat where "PERSIST_FAILURE_WINDOW = 20"
definition PERSIST_FAILURE_ALERT_THRESHOLD :: nat where "PERSIST_FAILURE_ALERT_THRESHOLD = 10"
definition PERSIST_ALERT_COOLDOWN_S :: real where "PERSIST_ALERT_COOLDOWN_S = 300"

definition persistence_outage_detail :: "persist_failure \<Rightarrow> string" where
  "persistence_outage_detail stage =
     (case stage of
        Some Stage_journal \<Rightarrow> ''neither the journal nor the database is recording events''
      | Some Stage_database \<Rightarrow> ''the database is not recording events (the journal still has them)''
      | None \<Rightarrow> ''events are not being recorded'')"

definition stage_value :: "persist_failure \<Rightarrow> pyval" where
  "stage_value stage =
     (case stage of Some Stage_journal \<Rightarrow> PStr ''journal'' | Some Stage_database \<Rightarrow> PStr ''database'' | None \<Rightarrow> PNone)"

text \<open>The rolling window: the outcome of one event, \<open>True\<close> for a failure, and the clock. The result carries
  the failures and the window of a report, when one is due.\<close>

definition window_step ::
  "bool \<Rightarrow> real \<Rightarrow> bool list \<times> real option \<Rightarrow> (bool list \<times> real option) \<times> (nat \<times> nat) option" where
  "window_step failed now = (\<lambda>(outcomes, last_at).
     let outcomes' = ring_push PERSIST_FAILURE_WINDOW outcomes failed;
         failures = length (filter id outcomes');
         cooled = (case last_at of None \<Rightarrow> True | Some t \<Rightarrow> now - t \<ge> PERSIST_ALERT_COOLDOWN_S)
     in if failed \<and> failures \<ge> PERSIST_FAILURE_ALERT_THRESHOLD \<and> cooled
        then (([], Some now), Some (failures, length outcomes'))
        else ((outcomes', last_at), None))"

definition report_persistence_down ::
  "dispatch_env \<Rightarrow> datetime \<Rightarrow> string \<Rightarrow> nat \<Rightarrow> nat \<Rightarrow> persist_failure \<Rightarrow> string \<Rightarrow> daemon \<Rightarrow> daemon" where
  "report_persistence_down env now eid failures window stage err d =
     emit_supervisor_event env now eid ''persistence_failing'' ''high'' [''error'']
       (''failed to persist '' @ nat_str failures @ '' of the last '' @ nat_str window @ '' events; ''
          @ persistence_outage_detail stage)
       [(''failures'', PInt (int failures)), (''window'', PInt (int window)), (''stage'', stage_value stage),
        (''error'', PStr err)] d"

record drain_env =
  dr_persist :: persist_env
  dr_dispatch :: dispatch_env
  dr_mono :: real
  dr_now :: datetime
  dr_eid :: string
  dr_error :: string

text \<open>One turn of the loop: an empty queue only sleeps.\<close>

definition drain_turn :: "drain_env \<Rightarrow> daemon \<Rightarrow> daemon" where
  "drain_turn env d =
     (case get_nowait (dm_subs d ! dm_store_sub d) of
        None \<Rightarrow> d
      | Some (e, s) \<Rightarrow>
          (case persist_event (dr_persist env) e (dm_store d) of
             (so, res) \<Rightarrow>
               (case window_step (res \<noteq> None) (dr_mono env) (dm_outcomes d, dm_last_alert d) of
                  ((outcomes, last_at), report) \<Rightarrow>
                    (let d1 = d\<lparr>dm_subs := (dm_subs d)[dm_store_sub d := s], dm_store := so,
                                dm_outcomes := outcomes, dm_last_alert := last_at\<rparr>;
                         d2 = (case (report, res) of
                                 (Some (failures, window), Some stage) \<Rightarrow>
                                   report_persistence_down (dr_dispatch env) (dr_now env) (dr_eid env)
                                     failures window stage (dr_error env) d1
                               | _ \<Rightarrow> d1)
                     in d2\<lparr>dm_live := dm_live d2 @ [e]\<rparr>))))"

section \<open>The alert path never costs an event\<close>

lemma fan_out_frame:
  "dm_subs (fan_out env e n as d) = dm_subs d" "dm_store (fan_out env e n as d) = dm_store d"
  "dm_tracker (fan_out env e n as d) = dm_tracker d" "dm_collector (fan_out env e n as d) = dm_collector d"
  "dm_store_sub (fan_out env e n as d) = dm_store_sub d" "dm_live (fan_out env e n as d) = dm_live d"
  "dm_outcomes (fan_out env e n as d) = dm_outcomes d" "dm_last_alert (fan_out env e n as d) = dm_last_alert d"
  by (induction env e n as d rule: fan_out.induct) (simp_all add: Let_def)

lemma run_alert_path_frame [simp]:
  "dm_subs (run_alert_path env e d) = dm_subs d" "dm_store (run_alert_path env e d) = dm_store d"
  "dm_tracker (run_alert_path env e d) = dm_tracker d" "dm_collector (run_alert_path env e d) = dm_collector d"
  "dm_store_sub (run_alert_path env e d) = dm_store_sub d" "dm_live (run_alert_path env e d) = dm_live d"
  "dm_outcomes (run_alert_path env e d) = dm_outcomes d" "dm_last_alert (run_alert_path env e d) = dm_last_alert d"
  by (simp_all add: run_alert_path_def fan_out_frame Let_def split: prod.split sum.split)

lemma guarded_path_frame:
  assumes "guarded_path env e d = (e', d')"
  shows "dm_subs d' = dm_subs d" "dm_store d' = dm_store d" "dm_store_sub d' = dm_store_sub d" "dm_live d' = dm_live d"
    "dm_outcomes d' = dm_outcomes d" "dm_last_alert d' = dm_last_alert d" "dm_collector d' = dm_collector d"
  using assms by (auto simp: guarded_path_def Let_def split: prod.splits option.splits)

lemma tracker_observe_core: "tracker_observe ostr e t = Some (e', t') \<Longrightarrow> event_core e' = event_core e"
  using tracker_observe_cases(3)[of ostr e t e' t'] by (auto simp: mark_sighting_def event_core_def)

lemma guarded_path_core:
  assumes "guarded_path env e d = (e', d')"
  shows "event_core e' = event_core e"
proof -
  have *: "event_core x = event_core e" if "enrich (dv_host env) e (dm_cache d) = (Some x, c)" for x c
    using enrich_core[of "dv_host env" e "dm_cache d" x] that by simp
  from assms show ?thesis
    by (auto simp: guarded_path_def Let_def * tracker_observe_core split: prod.splits option.splits)
qed

lemma dispatch_frame [simp]:
  "dm_store (dispatch env e d) = dm_store d" "dm_store_sub (dispatch env e d) = dm_store_sub d"
  "dm_live (dispatch env e d) = dm_live d" "dm_outcomes (dispatch env e d) = dm_outcomes d"
  "dm_last_alert (dispatch env e d) = dm_last_alert d" "dm_collector (dispatch env e d) = dm_collector d"
  by (simp_all add: dispatch_def guarded_path_frame split: prod.split)

lemma publish_delivers:
  assumes "fst (publish e subs) = None" "i < length subs"
    "case filter_fn (subs ! i) of None \<Rightarrow> True | Some f \<Rightarrow> f e"
  shows "\<exists>q. sub_q (snd (publish e subs) ! i) = q @ [e]"
  using assms
proof (induction e subs arbitrary: i rule: publish.induct)
  case (1 ev)
  then show ?case by simp
next
  case (2 ev s subs)
  obtain err s' where o: "offer ev s = (err, s')" by (cases "offer ev s")
  with 2 have err: "err = None" by (cases err) (auto split: prod.splits)
  show ?case
  proof (cases i)
    case 0
    then show ?thesis using 2 o err
      by (auto simp: offer_defs split: prod.splits if_splits drop_policy.splits option.splits)
  next
    case (Suc j)
    then show ?thesis using 2 o err by (auto split: prod.splits)
  qed
qed


section \<open>Evidence before notification\<close>

abbreviation linked :: "string \<Rightarrow> case_db \<Rightarrow> bool" where
  "linked aid db \<equiv> list_ex (\<lambda>((_, x), _). x = aid) (cd_links db)"

lemma linked_iff: "linked aid db \<longleftrightarrow> (\<exists>c. map_of (cd_links db) (c, aid) \<noteq> None)"
  by (force simp: list_ex_iff map_of_eq_None_iff)

lemma record_blob_frame [simp]:
  "cd_links (record_blob sha now c k p m data db) = cd_links db"
  "cd_cases (record_blob sha now c k p m data db) = cd_cases db"
  "cd_alerts (record_blob sha now c k p m data db) = cd_alerts db"
  by (auto simp: record_blob_def insert_evidence_def store_put_def Let_def split: prod.splits)

lemma capture_net_frame [simp]:
  "cd_links (snd (capture_net sha env aid db)) = cd_links db" "cd_cases (snd (capture_net sha env aid db)) = cd_cases db"
  "cd_alerts (snd (capture_net sha env aid db)) = cd_alerts db"
  by (simp_all add: capture_net_def split: option.split)

lemma capture_bundle_frame [simp]:
  "cd_links (snd (capture_bundle sha env e aid db)) = cd_links db"
  "cd_cases (snd (capture_bundle sha env e aid db)) = cd_cases db"
  "cd_alerts (snd (capture_bundle sha env e aid db)) = cd_alerts db"
  by (simp_all add: capture_bundle_def split: option.split)

lemma capture_tree_frame [simp]:
  "cd_links (snd (capture_tree sha env e aid db)) = cd_links db"
  "cd_cases (snd (capture_tree sha env e aid db)) = cd_cases db"
  "cd_alerts (snd (capture_tree sha env e aid db)) = cd_alerts db"
  by (simp_all add: capture_tree_def split: option.split)

lemma capture_files_frame [simp]:
  "cd_links (snd (snd (snd (capture_files sha env aid i ps n tot db)))) = cd_links db"
  "cd_cases (snd (snd (snd (capture_files sha env aid i ps n tot db)))) = cd_cases db"
  "cd_alerts (snd (snd (snd (capture_files sha env aid i ps n tot db)))) = cd_alerts db"
  by (induction sha env aid i ps n tot db rule: capture_files.induct) (auto split: file_read.split)

lemma append_event_others [simp]:
  "cd_links (append_event c ts sq k txt db) = cd_links db" "cd_cases (append_event c ts sq k txt db) = cd_cases db"
  "cd_alerts (append_event c ts sq k txt db) = cd_alerts db"
  by (simp_all add: append_event_def)

lemma append_timeline_others [simp]:
  "cd_links (append_timeline now c k txt db) = cd_links db" "cd_cases (append_timeline now c k txt db) = cd_cases db"
  "cd_alerts (append_timeline now c k txt db) = cd_alerts db"
  by (simp_all add: append_timeline_def)

lemma audit_note_others [simp]:
  "cd_links (audit_note sha env actor act target details db) = cd_links db"
  "cd_cases (audit_note sha env actor act target details db) = cd_cases db"
  "cd_alerts (audit_note sha env actor act target details db) = cd_alerts db"
  by (simp_all add: audit_note_def)

lemma open_case_links:
  assumes "open_case c now aid title db = Some db'"
  shows "linked aid db'" "cd_alerts db' = cd_alerts db" "dom (map_of (cd_cases db')) = insert c (dom (map_of (cd_cases db)))"
  using assms unfolding linked_iff
  by (auto simp: open_case_def Let_def attach_def link_exists_def table_simps split: if_splits intro!: exI[of _ c])

lemma open_case_fresh: "map_of (cd_cases db) c = None \<Longrightarrow> open_case c now aid title db \<noteq> None"
  by (simp add: open_case_def case_exists_def Let_def)

lemma collect_frame:
  assumes "collect sha env a e db = Some db'"
  shows "linked (al_id a) db'" "cd_alerts db' = cd_alerts db"
    "dom (map_of (cd_cases db')) \<subseteq> insert (cv_case_id env) (dom (map_of (cd_cases db)))"
proof -
  consider (old) "linked (al_id a) db" "db' = db"
    | (new) db0 where "open_case (cv_case_id env) (cv_clock env 0) (al_id a) (Some (rend_short (al_rendered a))) db = Some db0"
        "cd_links db' = cd_links db0" "cd_cases db' = cd_cases db0" "cd_alerts db' = cd_alerts db0"
  proof (cases "linked (al_id a) db")
    case True
    then show thesis using assms by (intro that(1)) (simp_all add: collect_def)
  next
    case False
    with assms obtain db0 where o: "open_case (cv_case_id env) (cv_clock env 0) (al_id a) (Some (rend_short (al_rendered a))) db = Some db0"
      by (auto simp: collect_def split: option.splits)
    from assms False o show thesis
      by (intro that(2)[OF o]) (auto simp: collect_def Let_def case_prod_beta)
  qed
  then have "linked (al_id a) db' \<and> cd_alerts db' = cd_alerts db
    \<and> dom (map_of (cd_cases db')) \<subseteq> insert (cv_case_id env) (dom (map_of (cd_cases db)))"
  proof cases
    case old
    then show ?thesis by auto
  next
    case new
    then show ?thesis using open_case_links[OF new(1)] by auto
  qed
  then show "linked (al_id a) db'" "cd_alerts db' = cd_alerts db"
    "dom (map_of (cd_cases db')) \<subseteq> insert (cv_case_id env) (dom (map_of (cd_cases db)))" by auto
qed

lemma capture_frame:
  "cd_alerts (capture sha env a e db) = cd_alerts db"
  "dom (map_of (cd_cases (capture sha env a e db))) \<subseteq> insert (cv_case_id env) (dom (map_of (cd_cases db)))"
  using collect_frame(2,3) by (auto simp: capture_def split: option.split)

lemma capture_links:
  assumes "severe (al_severity a)" "map_of (cd_cases db) (cv_case_id env) = None"
  shows "linked (al_id a) (capture sha env a e db)"
proof -
  have "collect sha env a e db \<noteq> None"
    using open_case_fresh[OF assms(2), of "cv_clock env 0" "al_id a" "Some (rend_short (al_rendered a))"]
    by (auto simp: collect_def Let_def split: option.splits prod.splits)
  then obtain db' where "collect sha env a e db = Some db'" by blast
  with assms(1) collect_frame(1)[OF this] show ?thesis by (simp add: capture_def)
qed

lemma fan_out_evidence:
  assumes "dm_collector d" "\<forall>m\<ge>n. map_of (cd_cases (dm_db d)) (cv_case_id (dv_capture env m)) = None"
    "inj (\<lambda>m. cv_case_id (dv_capture env m))"
  shows "\<exists>new. dm_notified (fan_out env e n as d) = dm_notified d @ new \<and> map fst new = as
    \<and> (\<forall>(a, db)\<in>set new. severe (al_severity a) \<longrightarrow> linked (al_id a) db)"
  using assms
proof (induction env e n as d rule: fan_out.induct)
  case (1 env e n d)
  then show ?case by simp
next
  case (2 env e n a as d)
  let ?db = "capture (dv_sha env) (dv_capture env n) a e (dm_db d)"
  let ?d = "d\<lparr>dm_db := ?db, dm_notified := dm_notified d @ [(a, ?db)]\<rparr>"
  have "map_of (cd_cases ?db) (cv_case_id (dv_capture env m)) = None" if "Suc n \<le> m" for m
  proof -
    have "cv_case_id (dv_capture env m) \<noteq> cv_case_id (dv_capture env n)"
      using that "2.prems"(3) by (auto dest: injD)
    moreover have "cv_case_id (dv_capture env m) \<notin> dom (map_of (cd_cases (dm_db d)))"
      using that "2.prems"(2) by (simp add: domIff)
    ultimately show ?thesis using capture_frame(2)[of "dv_sha env" "dv_capture env n" a e "dm_db d"] by blast
  qed
  then obtain new where new: "dm_notified (fan_out env e (Suc n) as ?d) = dm_notified ?d @ new" "map fst new = as"
    "\<forall>(a, db)\<in>set new. severe (al_severity a) \<longrightarrow> linked (al_id a) db"
    using "2.IH"[OF refl] "2.prems" by auto
  have "severe (al_severity a) \<longrightarrow> linked (al_id a) ?db"
    using capture_links[of a "dm_db d" "dv_capture env n"] "2.prems"(2) by simp
  with new "2.prems"(1) show ?case by (intro exI[of _ "(a, ?db) # new"]) (auto simp: Let_def)
qed

text \<open>Either the alert path is not reached, or it runs on a state that differs in the cache and tracker only.\<close>

lemma guarded_path_cases:
  assumes "guarded_path env e d = (e', d')"
  obtains (skipped) c where "d' = d\<lparr>dm_cache := c\<rparr>"
    | (ran) c t where "d' = run_alert_path env e' (d\<lparr>dm_cache := c, dm_tracker := t\<rparr>)"
proof -
  obtain r c where r: "enrich (dv_host env) e (dm_cache d) = (r, c)" by (cases "enrich (dv_host env) e (dm_cache d)")
  show thesis
  proof (cases r)
    case None
    with assms r show thesis by (intro skipped[of c]) (auto simp: guarded_path_def)
  next
    case (Some e1)
    show thesis
    proof (cases "dm_tracker d")
      case None
      with assms r Some have "d' = run_alert_path env e' (d\<lparr>dm_cache := c\<rparr>)" by (auto simp: guarded_path_def)
      then have "d' = run_alert_path env e' (d\<lparr>dm_cache := c, dm_tracker := None\<rparr>)" using None by (cases d) simp
      then show thesis by (rule ran)
    next
      case t: (Some t)
      show thesis
      proof (cases "tracker_observe (dv_ostr env) e1 t")
        case None
        with assms r Some t show thesis by (intro skipped[of c]) (auto simp: guarded_path_def)
      next
        case o: (Some p)
        obtain e2 t' where p: "p = (e2, t')" by (cases p)
        from assms r Some t o p show thesis by (intro ran[of "Some t'" c]) (auto simp: guarded_path_def)
      qed
    qed
  qed
qed


section \<open>Concrete dispatches\<close>

definition quiet_host :: host where
  "quiet_host = \<lparr>h_proc = (\<lambda>_. None), h_file = (\<lambda>_. None), h_user = (\<lambda>_. None), h_sha = (\<lambda>s. s)\<rparr>"

definition sample_daemon :: daemon where
  "sample_daemon =
     \<lparr>dm_subs = [new_subscription ''store'' 4096 Drop_oldest_non_critical None], dm_store_sub = 0,
      dm_cache = \<lparr>hc_exe = [], hc_file = []\<rparr>, dm_tracker = None, dm_engine = rule_engine_init [] 600,
      dm_db = \<lparr>cd_alerts = [], cd_cases = [], cd_links = [], cd_events = [], cd_evidence = [], cd_blobs = [],
               cd_quarantine = [], cd_audit = audit_init\<rparr>,
      dm_collector = True,
      dm_store = \<lparr>so_journal = journal_init [], so_events = \<lparr>es_rows = [], es_next = 0\<rparr>, so_entities = empty_state\<rparr>,
      dm_outcomes = [], dm_last_alert = None, dm_notified = [], dm_live = []\<rparr>"

definition sample_capture :: "nat \<Rightarrow> capture_env" where
  "sample_capture n =
     \<lparr>cv_case_id = ''case'' @ replicate n (CHR ''x''), cv_clock = (\<lambda>_. 7),
      cv_audit = \<lparr>ac_actor = '''', ac_action = '''', ac_target = None, ac_details = '''', ac_ts =
                     \<lparr>dt_year = 2026, dt_month = 1, dt_day = 1, dt_hour = 0, dt_minute = 0, dt_second = 0, dt_microsecond = 0\<rparr>, ac_mono = 0,
                   ac_fault = False\<rparr>,
      cv_net = None, cv_bundle = Some ''bundle'', cv_tree = (\<lambda>_. None), cv_realpath = (\<lambda>p. p),
      cv_probe = (\<lambda>_. \<lparr>fp_opens = False, fp_regular = False, fp_reads = []\<rparr>), cv_raises = (\<lambda>_. True), cv_late = (\<lambda>_. False)\<rparr>"

definition sample_dispatch_env :: "bool \<Rightarrow> dispatch_env" where
  "sample_dispatch_env fault =
     \<lparr>dv_sha = (\<lambda>s. s), dv_ostr = (\<lambda>_. ''''), dv_host = quiet_host, dv_evaluate = (\<lambda>_. [sample_match]),
      dv_fresh = (\<lambda>_. ''A''), dv_capture = sample_capture, dv_engine_fault = fault\<rparr>"

lemma sample_dispatch:
  "guarded_path (sample_dispatch_env True) sample_event sample_daemon = (sample_event, sample_daemon)"
  "dm_notified (dispatch (sample_dispatch_env False) sample_event sample_daemon) =
     [(projr (build_alert ''A'' sample_match sample_event),
       capture (\<lambda>s. s) (sample_capture 0) (projr (build_alert ''A'' sample_match sample_event)) sample_event
         ((dm_db sample_daemon)\<lparr>cd_alerts :=
            [(''A'', alert_row_of (projr (build_alert ''A'' sample_match sample_event)))]\<rparr>))]"
proof -
  have en: "enrich h sample_event c = (Some sample_event, c)" for h c
    by (simp add: enrich_def enrich_process_def enrich_file_def enrich_user_def sample_event_def)
  show "guarded_path (sample_dispatch_env True) sample_event sample_daemon = (sample_event, sample_daemon)"
    by (simp add: guarded_path_def en run_alert_path_def sample_dispatch_env_def sample_daemon_def)
  have p: "process_event (\<lambda>_. [sample_match]) (\<lambda>_. ''A'') sample_event (rule_engine_init [] 600) [] =
    ((rule_engine_init [] 600)\<lparr>re_history := trim_history (ev_ts sample_event) (ring_push HISTORY_MAX [] sample_event)\<rparr>,
     [(''A'', alert_row_of (projr (build_alert ''A'' sample_match sample_event)))],
     Inr [projr (build_alert ''A'' sample_match sample_event)])"
    using process_sample[of "timedelta_seconds 600" "\<lambda>_. ''A''"]
    by (simp add: process_event_def rule_engine_init_def Let_def) (simp add: sample_event_def)
  show "dm_notified (dispatch (sample_dispatch_env False) sample_event sample_daemon) =
     [(projr (build_alert ''A'' sample_match sample_event),
       capture (\<lambda>s. s) (sample_capture 0) (projr (build_alert ''A'' sample_match sample_event)) sample_event
         ((dm_db sample_daemon)\<lparr>cd_alerts :=
            [(''A'', alert_row_of (projr (build_alert ''A'' sample_match sample_event)))]\<rparr>))]"
    by (simp add: dispatch_def guarded_path_def en run_alert_path_def sample_dispatch_env_def sample_daemon_def p Let_def)
qed



end
