(* ===== verification/Persistence.thy ===== *)
theory Persistence
  imports Pipeline
begin

text \<open>
  What the storage thread of \<^verbatim>\<open>inspectord/supervisor.py\<close> promises: which part of the record survives a failure
  of \<^verbatim>\<open>_persist\<close>, how often an outage is reported, and that a sustained one is.
\<close>

section \<open>The stage of a failure\<close>

text \<open>The lines of one day in the journal.\<close>

definition day_lines :: "int \<Rightarrow> journal \<Rightarrow> string list" where
  "day_lines day j = (case map_of (j_files j) day of None \<Rightarrow> [] | Some ls \<Rightarrow> ls)"

definition journaled :: "persist_env \<Rightarrow> event \<Rightarrow> journal \<Rightarrow> journal \<Rightarrow> bool" where
  "journaled env e j j' \<longleftrightarrow>
     (\<exists>payload prev line. json_loads (pv_dump env e) = Some (PDict payload)
        \<and> json_dumps (pv_float env) (\<lambda>_. None) (PDict (journal_record payload prev)) = Some line
        \<and> day_lines (pv_today env) j' = day_lines (pv_today env) j @ [line])"

lemma open_for_today_lines:
  "day_lines day (open_for_today sha today j) = day_lines day j"
  by (auto simp: open_for_today_def day_lines_def table_simps split: option.split)

lemma open_for_today_present:
  assumes "j_open j = Some today \<longrightarrow> map_of (j_files j) today \<noteq> None"
  shows "the (map_of (j_files (open_for_today sha today j)) today) = day_lines today (open_for_today sha today j)"
  using assms by (auto simp: open_for_today_def day_lines_def table_simps split: option.split)

lemma journal_event_ok:
  assumes "journal_event env v j = (j', True)" "j_open j = Some (pv_today env) \<longrightarrow> map_of (j_files j) (pv_today env) \<noteq> None"
  obtains payload prev line where "v = PDict payload"
    "json_dumps (pv_float env) (\<lambda>_. None) (PDict (journal_record payload prev)) = Some line"
    "day_lines (pv_today env) j' = day_lines (pv_today env) j @ [line]"
proof -
  obtain payload where v: "v = PDict payload" and
    a: "journal_append (pv_sha env) (pv_float env) (pv_today env) payload j = (j', None)"
    using assms(1) by (auto simp: journal_event_def split: if_splits pyval.splits prod.splits)
  let ?k = "open_for_today (pv_sha env) (pv_today env) j"
  from a obtain line where line: "json_dumps (pv_float env) (\<lambda>_. None) (PDict (journal_record payload (j_prev ?k))) = Some line"
    and j': "j' = ?k\<lparr>j_files := AList.update (pv_today env) (the (map_of (j_files ?k) (pv_today env)) @ [line]) (j_files ?k),
                    j_prev := pv_sha env line\<rparr>"
    by (auto simp: journal_append_def Let_def split: if_splits option.splits)
  have "day_lines (pv_today env) j' = day_lines (pv_today env) ?k @ [line]"
    unfolding j' using open_for_today_present[OF assms(2), of "pv_sha env"]
    by (simp add: day_lines_def table_simps)
  then show thesis using v line by (intro that) (simp_all add: open_for_today_lines)
qed

lemma journal_event_fail:
  assumes "journal_event env v j = (j', False)"
  shows "day_lines day j' = day_lines day j"
  using assms
  by (auto simp: journal_event_def journal_append_def Let_def open_for_today_lines
      split: if_splits pyval.splits prod.splits option.splits)

text \<open>The stage attached to a persistence failure tells the truth about what was lost. Without a failure
  the event is one new line of today's journal, one new row of the event store and projected; a failure of
  stage \<^verbatim>\<open>database\<close> leaves that line in the journal; a failure of stage \<^verbatim>\<open>journal\<close>, or one of the serialisation,
  leaves every journal line, the event store and the projected state as they were.\<close>

theorem persist_stage_truthful:
  assumes "persist_event env e so = (so', res)"
    "j_open (so_journal so) = Some (pv_today env) \<longrightarrow> map_of (j_files (so_journal so)) (pv_today env) \<noteq> None"
  shows "case res of
      None \<Rightarrow> journaled env e (so_journal so) (so_journal so')
           \<and> insert_event e (pv_dump env e) (so_events so) = Some (so_events so')
           \<and> project (pv_ostr env) (pv_fromiso env) (pv_boot_id env) e (so_entities so) = Some (so_entities so')
    | Some (Some Stage_database) \<Rightarrow> journaled env e (so_journal so) (so_journal so') \<and> so_entities so' = so_entities so
    | _ \<Rightarrow> (\<forall>day. day_lines day (so_journal so') = day_lines day (so_journal so))
           \<and> so_events so' = so_events so \<and> so_entities so' = so_entities so"
proof (cases "json_loads (pv_dump env e)")
  case None
  then have "so' = so" "res = Some None" using assms(1) by (auto simp: persist_event_def Let_def)
  then show ?thesis by simp
next
  case (Some v)
  obtain j ok where j: "journal_event env v (so_journal so) = (j, ok)" by (cases "journal_event env v (so_journal so)")
  show ?thesis
  proof (cases ok)
    case False
    then have "so' = so\<lparr>so_journal := j\<rparr>" "res = Some (Some Stage_journal)"
      using assms(1) Some j by (auto simp: persist_event_def Let_def)
    then show ?thesis using journal_event_fail[of env v "so_journal so" j] j False by simp
  next
    case True
    then have j1: "journal_event env v (so_journal so) = (j, True)" using j by simp
    obtain so2 ok2 where d: "database_event env e (pv_dump env e) (so\<lparr>so_journal := j\<rparr>) = (so2, ok2)"
      by (cases "database_event env e (pv_dump env e) (so\<lparr>so_journal := j\<rparr>)")
    then have r: "so' = so2" "res = (if ok2 then None else Some (Some Stage_database))"
      using assms(1) Some j True by (auto simp: persist_event_def Let_def)
    obtain payload prev line where "v = PDict payload"
      "json_dumps (pv_float env) (\<lambda>_. None) (PDict (journal_record payload prev)) = Some line"
      "day_lines (pv_today env) j = day_lines (pv_today env) (so_journal so) @ [line]"
      by (rule journal_event_ok[OF j1 assms(2)])
    with Some have "journaled env e (so_journal so) j" unfolding journaled_def by blast
    moreover have "so_journal so2 = j" "\<not> ok2 \<Longrightarrow> so_entities so2 = so_entities so"
      using d by (auto simp: database_event_def Let_def split: if_splits option.splits)
    moreover have "ok2 \<Longrightarrow> insert_event e (pv_dump env e) (so_events so) = Some (so_events so2)
        \<and> project (pv_ostr env) (pv_fromiso env) (pv_boot_id env) e (so_entities so) = Some (so_entities so2)"
      using d by (auto simp: database_event_def Let_def split: if_splits option.splits)
    ultimately show ?thesis using r by (cases ok2) auto
  qed
qed

definition sample_persist_env :: persist_env where
  "sample_persist_env =
     \<lparr>pv_sha = (\<lambda>s. s), pv_ostr = (\<lambda>_. ''''), pv_dump = (\<lambda>_. ''{}''), pv_float = (\<lambda>_. ''''), pv_today = 0,
      pv_fromiso = (\<lambda>_. None), pv_boot_id = None, pv_journal_fault = False, pv_insert_fault = True,
      pv_project_fault = False\<rparr>"

theorem persist_stage_truthful_witness:
  "snd (persist_event sample_persist_env sample_event (dm_store sample_daemon)) = Some (Some Stage_database)
   \<and> journaled sample_persist_env sample_event (journal_init [])
       (so_journal (fst (persist_event sample_persist_env sample_event (dm_store sample_daemon))))"
proof -
  let ?r = "persist_event sample_persist_env sample_event (dm_store sample_daemon)"
  have l: "json_loads ''{}'' = Some (PDict [])" by (simp add: json_loads_def json_space_def Let_def eval_nat_numeral)
  have j: "so_journal (dm_store sample_daemon) = journal_init []" by (simp add: sample_daemon_def)
  have "snd (journal_event sample_persist_env (PDict []) (journal_init []))"
    by (simp add: journal_event_def sample_persist_env_def journal_append_def journal_init_def open_for_today_def
        journal_record_def JOURNAL_FORMAT_VERSION_def Let_def)
  then have r: "snd ?r = Some (Some Stage_database)"
    by (auto simp: persist_event_def l j sample_persist_env_def database_event_def Let_def split: prod.splits)
  have "persist_event sample_persist_env sample_event (dm_store sample_daemon) = (fst ?r, snd ?r)" by simp
  from persist_stage_truthful[OF this] r j show ?thesis by (simp add: journal_init_def)
qed

section \<open>Reporting an outage\<close>

text \<open>A run of the storage thread seen through its window: each outcome with the clock, \<open>True\<close> for a failure. The
  result lists the times of the reports.\<close>

fun window_run :: "(bool \<times> real) list \<Rightarrow> bool list \<times> real option \<Rightarrow> real list \<times> bool list \<times> real option" where
  "window_run [] w = ([], w)"
| "window_run ((failed, now) # xs) w =
     (case window_step failed now w of
        (w', report) \<Rightarrow>
          (case window_run xs w' of (ts, w'') \<Rightarrow> (if report = None then ts else now # ts, w'')))"

text \<open>The times of the reports after the last one before the run.\<close>

fun spaced :: "real option \<Rightarrow> real list \<Rightarrow> bool" where
  "spaced last_at [] = True"
| "spaced last_at (t # ts) =
     ((case last_at of None \<Rightarrow> True | Some u \<Rightarrow> t - u \<ge> PERSIST_ALERT_COOLDOWN_S) \<and> spaced (Some t) ts)"

definition fails :: "bool list \<Rightarrow> nat" where
  "fails os = length (filter id os)"

lemma fails_simps [simp]:
  "fails [] = 0" "fails (b # os) = (if b then 1 else 0) + fails os" "fails (xs @ ys) = fails xs + fails ys"
  by (simp_all add: fails_def)

lemma fails_drop: "fails (drop k ys) \<le> fails ys"
  using fails_simps(3)[of "take k ys" "drop k ys"] by simp

lemma fails_ring_push: "fails (ring_push cap os b) \<le> fails os + (if b then 1 else 0)"
  using fails_drop[of "Suc (length os) - cap" "os @ [b]"] unfolding ring_push_def by (simp del: drop_append)

lemma window_step_cases:
  obtains (quiet) "window_step failed now (os, last_at) = ((ring_push PERSIST_FAILURE_WINDOW os failed, last_at), None)"
      "\<not> (failed \<and> fails (ring_push PERSIST_FAILURE_WINDOW os failed) \<ge> PERSIST_FAILURE_ALERT_THRESHOLD
          \<and> (case last_at of None \<Rightarrow> True | Some t \<Rightarrow> now - t \<ge> PERSIST_ALERT_COOLDOWN_S))"
    | (report) n k where "window_step failed now (os, last_at) = (([], Some now), Some (n, k))" "failed"
      "n = fails (ring_push PERSIST_FAILURE_WINDOW os failed)" "n \<ge> PERSIST_FAILURE_ALERT_THRESHOLD"
      "case last_at of None \<Rightarrow> True | Some t \<Rightarrow> now - t \<ge> PERSIST_ALERT_COOLDOWN_S"
  by (cases "failed \<and> fails (ring_push PERSIST_FAILURE_WINDOW os failed) \<ge> PERSIST_FAILURE_ALERT_THRESHOLD
          \<and> (case last_at of None \<Rightarrow> True | Some t \<Rightarrow> now - t \<ge> PERSIST_ALERT_COOLDOWN_S)")
    (auto simp: window_step_def fails_def Let_def)

text \<open>Outage reports cannot flood or feed themselves: in every run of the storage thread two successive
  reports are at least five minutes apart, and each costs ten failures of its own, so a run with \<open>n\<close> failures
  emits at most \<open>n / 10\<close> reports.\<close>

theorem outage_reports_bounded:
  "spaced last_at (fst (window_run xs (os, last_at)))
   \<and> PERSIST_FAILURE_ALERT_THRESHOLD * length (fst (window_run xs (os, last_at))) \<le> fails os + fails (map fst xs)"
proof (induction xs arbitrary: os last_at)
  case Nil
  then show ?case by simp
next
  case (Cons x xs)
  obtain failed now where x: "x = (failed, now)" by (cases x)
  show ?case
  proof (cases rule: window_step_cases[of failed now os last_at])
    case quiet
    have "fails (ring_push PERSIST_FAILURE_WINDOW os failed) \<le> fails os + (if failed then 1 else 0)" by (rule fails_ring_push)
    then show ?thesis using Cons.IH[of last_at "ring_push PERSIST_FAILURE_WINDOW os failed"] x quiet(1)
      by (auto split: prod.split)
  next
    case (report n k)
    have "n \<le> fails os + 1" using fails_ring_push[of PERSIST_FAILURE_WINDOW os True] report(2,3) by simp
    then show ?thesis using Cons.IH[of "Some now" "[]"] x report
      by (auto split: prod.split option.splits simp: PERSIST_FAILURE_ALERT_THRESHOLD_def)
  qed
qed

lemma window_run_quiet:
  "fst (window_run xs (os, last_at)) = [] \<Longrightarrow>
     snd (window_run xs (os, last_at)) = (foldl (ring_push PERSIST_FAILURE_WINDOW) os (map fst xs), last_at)"
proof (induction xs arbitrary: os)
  case Nil
  then show ?case by simp
next
  case (Cons x xs)
  obtain failed now where x: "x = (failed, now)" by (cases x)
  show ?case
  proof (cases rule: window_step_cases[of failed now os last_at])
    case quiet
    then show ?thesis using Cons x by (auto split: prod.splits)
  next
    case (report n k)
    then show ?thesis using Cons.prems x by (auto split: prod.splits)
  qed
qed

lemma window_run_append:
  "window_run (xs @ ys) w =
     (case window_run xs w of (ts, w') \<Rightarrow> case window_run ys w' of (us, w'') \<Rightarrow> (ts @ us, w''))"
  by (induction xs w rule: window_run.induct) (auto split: prod.split)

lemma fails_last_n: "length ys \<le> cap \<Longrightarrow> fails ys \<le> fails (last_n cap (xs @ ys))"
  by (simp add: last_n_def)

text \<open>A sustained outage is reported, even a partial one: whatever the window holds, if among at most twenty
  consecutive outcomes at least ten are failures, the last of them included, and the cooldown has passed by
  then, at least one report is emitted during them.\<close>

theorem partial_outage_reported:
  assumes "length os \<le> PERSIST_FAILURE_WINDOW" "length xs < PERSIST_FAILURE_WINDOW"
    "fails (map fst xs) + 1 \<ge> PERSIST_FAILURE_ALERT_THRESHOLD"
    "case last_at of None \<Rightarrow> True | Some t \<Rightarrow> now - t \<ge> PERSIST_ALERT_COOLDOWN_S"
  shows "fst (window_run (xs @ [(True, now)]) (os, last_at)) \<noteq> []"
proof (cases "fst (window_run xs (os, last_at)) = []")
  case True
  let ?W = PERSIST_FAILURE_WINDOW
  have os: "os = last_n ?W os" using assms(1) by (simp add: last_n_def)
  have w: "snd (window_run xs (os, last_at)) = (last_n ?W (os @ map fst xs), last_at)"
    using window_run_quiet[OF True] foldl_ring_push[of ?W os "map fst xs"] os by simp
  have "fails (map fst xs @ [True]) \<le> fails (ring_push ?W (last_n ?W (os @ map fst xs)) True)"
    using assms(2) fails_last_n[of "map fst xs @ [True]" ?W os]
    by (simp add: ring_push_last_n last_n_snoc)
  then have "fails (ring_push ?W (last_n ?W (os @ map fst xs)) True) \<ge> PERSIST_FAILURE_ALERT_THRESHOLD"
    using assms(3) by simp
  then have "snd (window_step True now (last_n ?W (os @ map fst xs), last_at)) \<noteq> None"
    using assms(4) by (auto simp: window_step_def fails_def Let_def)
  then show ?thesis using w by (auto simp: window_run_append split: prod.splits)
next
  case False
  then show ?thesis by (auto simp: window_run_append split: prod.splits)
qed

theorem partial_outage_reported_witness:
  "fst (window_run (concat (replicate 9 [(True, 0), (False, 0)]) @ [(True, 0)]) ([], None)) \<noteq> []"
  by (rule partial_outage_reported)
    (simp_all add: PERSIST_FAILURE_WINDOW_def PERSIST_FAILURE_ALERT_THRESHOLD_def numeral_eq_Suc)

end
