(* ===== verification/Workers.thy ===== *)
theory Workers
  imports Pipeline
begin

text \<open>
  The worker processes of \<^verbatim>\<open>inspectord/supervisor.py\<close>: the command channel (\<^verbatim>\<open>send_worker_command\<close>,
  \<^verbatim>\<open>_fulfill_command_result\<close>, \<^verbatim>\<open>_fail_pending\<close>) and the restart policy of the monitor thread
  (\<^verbatim>\<open>_monitor_tick\<close>, \<^verbatim>\<open>_handle_dead_worker\<close>, \<^verbatim>\<open>_respawn\<close>).

  A \<^verbatim>\<open>_WorkerProc\<close> object is shared between the worker list, the reader threads and the senders that looked it
  up, so the objects live in a store keyed by the incarnation and the worker list holds the keys. A
  \<^verbatim>\<open>_PendingCommand\<close> object is shared between its sender and the worker's pending map and lives in a store
  keyed by its request id. Operating system answers (\<^verbatim>\<open>poll\<close>, a spawn, a write) are arguments.
\<close>

section \<open>Objects\<close>

datatype command_reply =
    Timed_out
  | Accepted string
  | Rejected string
  | Worker_died
  | Unavailable string

record pending_command =
  pc_set :: bool
  pc_result :: command_reply

definition new_pending :: pending_command where
  "new_pending = \<lparr>pc_set = False, pc_result = Timed_out\<rparr>"

definition fulfill :: "command_reply \<Rightarrow> pending_command \<Rightarrow> pending_command" where
  "fulfill r pc = (if pc_set pc then pc else \<lparr>pc_set = True, pc_result = r\<rparr>)"

record worker_proc =
  w_name :: string
  w_pending :: "string list"
  w_started_at :: real
  w_restarts :: nat
  w_restart_at :: "real option"
  w_exhausted :: bool
  w_died_reported :: bool

definition new_worker :: "string \<Rightarrow> real \<Rightarrow> worker_proc" where
  "new_worker name started =
     \<lparr>w_name = name, w_pending = [], w_started_at = started, w_restarts = 0, w_restart_at = None,
      w_exhausted = False, w_died_reported = False\<rparr>"

type_synonym entries = "(string, pending_command) table"

record channel =
  ch_stop :: bool
  ch_workers :: "(nat, worker_proc) table"
  ch_procs :: "nat list"
  ch_entries :: entries

definition worker :: "channel \<Rightarrow> nat \<Rightarrow> worker_proc" where
  "worker ch inc = the (map_of (ch_workers ch) inc)"

definition set_worker :: "nat \<Rightarrow> worker_proc \<Rightarrow> channel \<Rightarrow> channel" where
  "set_worker inc w ch = ch\<lparr>ch_workers := AList.update inc w (ch_workers ch)\<rparr>"

definition update_entry :: "string \<Rightarrow> (pending_command \<Rightarrow> pending_command) \<Rightarrow> entries \<Rightarrow> entries" where
  "update_entry rid f es = update_where (\<lambda>k _. k = rid) f es"

section \<open>The command channel\<close>

definition COMMAND_TIMEOUT_S :: real where "COMMAND_TIMEOUT_S = 10"
definition MAX_INFLIGHT_COMMANDS_PER_WORKER :: nat where "MAX_INFLIGHT_COMMANDS_PER_WORKER = 32"

text \<open>Sending runs in phases, between which other threads run: the look-up, the registration of the pending
  entry, the write, and the wake-up after the wait. \<open>Inl\<close> is an immediate answer.\<close>

definition find_worker :: "string \<Rightarrow> channel \<Rightarrow> nat option" where
  "find_worker name ch = find (\<lambda>inc. w_name (worker ch inc) = name) (ch_procs ch)"

definition send_lookup :: "string \<Rightarrow> channel \<Rightarrow> command_reply + nat" where
  "send_lookup name ch =
     (if ch_stop ch then Inl (Unavailable ''shutting_down'')
      else case find_worker name ch of
             None \<Rightarrow> Inl (Unavailable (''no such worker: '' @ name))
           | Some inc \<Rightarrow> Inr inc)"

definition send_register :: "string \<Rightarrow> nat \<Rightarrow> channel \<Rightarrow> command_reply + channel" where
  "send_register rid inc ch =
     (let w = worker ch inc
      in if length (w_pending w) \<ge> MAX_INFLIGHT_COMMANDS_PER_WORKER
         then Inl (Unavailable ''too many in-flight commands'')
         else Inr ((set_worker inc (w\<lparr>w_pending := w_pending w @ [rid]\<rparr>) ch)
                     \<lparr>ch_entries := (rid, new_pending) # ch_entries ch\<rparr>))"

definition unregister :: "string \<Rightarrow> nat \<Rightarrow> channel \<Rightarrow> channel" where
  "unregister rid inc ch =
     (let w = worker ch inc in set_worker inc (w\<lparr>w_pending := filter (\<lambda>k. k \<noteq> rid) (w_pending w)\<rparr>) ch)"

text \<open>The re-check of the stop flag and the write; an answer here leaves through the \<^verbatim>\<open>finally\<close>.\<close>

definition send_write :: "bool \<Rightarrow> string \<Rightarrow> nat \<Rightarrow> channel \<Rightarrow> command_reply option \<times> channel" where
  "send_write writable rid inc ch =
     (if ch_stop ch then (Some (Unavailable ''shutting_down''), unregister rid inc ch)
      else if \<not> writable then (Some (Unavailable ''worker stdin unwritable''), unregister rid inc ch)
      else (None, ch))"

text \<open>The wait is over, fulfilled or not.\<close>

definition send_wake :: "string \<Rightarrow> nat \<Rightarrow> channel \<Rightarrow> command_reply \<times> channel" where
  "send_wake rid inc ch = (pc_result (the (map_of (ch_entries ch) rid)), unregister rid inc ch)"

text \<open>The verdict a \<^verbatim>\<open>command_result\<close> event carries, with the request it names.\<close>

definition command_verdict :: "(pyval \<Rightarrow> string) \<Rightarrow> event \<Rightarrow> (string \<times> command_reply) option" where
  "command_verdict ostr e =
     (if ev_action e \<noteq> ''command_result'' then None
      else case ev_raw e of
             None \<Rightarrow> None
           | Some raw \<Rightarrow>
               (case dget raw ''request_id'' of
                  PStr rid \<Rightarrow>
                    (let detail = (case map_of raw ''detail'' of None \<Rightarrow> '''' | Some v \<Rightarrow> py_str ostr v)
                     in Some (rid, if dget raw ''status'' = PStr ''accepted'' then Accepted detail else Rejected detail))
                | _ \<Rightarrow> None))"

definition fulfill_command_result :: "(pyval \<Rightarrow> string) \<Rightarrow> nat \<Rightarrow> event \<Rightarrow> channel \<Rightarrow> channel" where
  "fulfill_command_result ostr inc e ch =
     (case command_verdict ostr e of
        None \<Rightarrow> ch
      | Some (rid, v) \<Rightarrow>
          if rid \<in> set (w_pending (worker ch inc))
          then ch\<lparr>ch_entries := update_entry rid (fulfill v) (ch_entries ch)\<rparr> else ch)"

definition fail_pending :: "nat \<Rightarrow> command_reply \<Rightarrow> channel \<Rightarrow> channel" where
  "fail_pending inc r ch =
     (let w = worker ch inc
      in (set_worker inc (w\<lparr>w_pending := []\<rparr>) ch)
           \<lparr>ch_entries := update_where (\<lambda>k _. k \<in> set (w_pending w)) (fulfill r) (ch_entries ch)\<rparr>)"

text \<open>The first lines of \<^verbatim>\<open>stop\<close>: the flag, then a sweep over the current incarnations.\<close>

definition stop_sweep :: "channel \<Rightarrow> channel" where
  "stop_sweep ch = fold (\<lambda>inc. fail_pending inc (Unavailable ''shutting_down'')) (ch_procs ch) (ch\<lparr>ch_stop := True\<rparr>)"

section \<open>The restart policy\<close>

definition MONITOR_POLL_INTERVAL_S :: real where "MONITOR_POLL_INTERVAL_S = 1"
definition RESTART_BASE_DELAY_S :: real where "RESTART_BASE_DELAY_S = 1"
definition RESTART_MAX_DELAY_S :: real where "RESTART_MAX_DELAY_S = 60"
definition RESTART_HEALTHY_AFTER_S :: real where "RESTART_HEALTHY_AFTER_S = 60"
definition RESTART_MAX_ATTEMPTS :: nat where "RESTART_MAX_ATTEMPTS = 8"

definition backoff_delay :: "real \<Rightarrow> real \<Rightarrow> nat \<Rightarrow> real" where
  "backoff_delay base cap attempt = min (base * 2 ^ (attempt - 1)) cap"

record restart_policy =
  rs_base :: real
  rs_cap :: real
  rs_healthy_after :: real
  rs_max_attempts :: nat

definition default_policy :: restart_policy where
  "default_policy =
     \<lparr>rs_base = RESTART_BASE_DELAY_S, rs_cap = RESTART_MAX_DELAY_S, rs_healthy_after = RESTART_HEALTHY_AFTER_S,
      rs_max_attempts = RESTART_MAX_ATTEMPTS\<rparr>"

definition policy_delay :: "restart_policy \<Rightarrow> nat \<Rightarrow> real" where
  "policy_delay p attempt = backoff_delay (rs_base p) (rs_cap p) attempt"

text \<open>
  What one tick meets: the clocks, the exit status of each incarnation, whether a spawn works and when the
  new process starts, the stop flag at the three places that read it, fresh identifiers and the text of a
  float. A spawned process gets the next unused incarnation.
\<close>

record tick_env =
  te_mono :: real
  te_wall :: datetime
  te_eid :: "string \<Rightarrow> nat \<Rightarrow> string"
  te_poll :: "nat \<Rightarrow> int option"
  te_spawns :: "nat \<Rightarrow> bool"
  te_started :: real
  te_stop_loop :: "nat \<Rightarrow> bool"
  te_stop_pre :: "nat \<Rightarrow> bool"
  te_stop_post :: "nat \<Rightarrow> bool"
  te_dispatch :: dispatch_env
  te_float :: "real \<Rightarrow> string"

text \<open>The monitor's view: the channel, the daemon its events go to, and the attempts made so far, newest first, as
  the position in the worker list, the number of the attempt and the time.\<close>

record monitor =
  mo_channel :: channel
  mo_daemon :: daemon
  mo_attempts :: "(nat \<times> nat \<times> real) list"

definition mo_worker :: "nat \<Rightarrow> monitor \<Rightarrow> worker_proc" where
  "mo_worker inc m = worker (mo_channel m) inc"

definition put_worker :: "nat \<Rightarrow> worker_proc \<Rightarrow> monitor \<Rightarrow> monitor" where
  "put_worker inc w m = m\<lparr>mo_channel := set_worker inc w (mo_channel m)\<rparr>"

definition emit :: "tick_env \<Rightarrow> nat \<Rightarrow> string \<Rightarrow> string \<Rightarrow> string list \<Rightarrow> string \<Rightarrow> pydict \<Rightarrow> monitor \<Rightarrow> monitor" where
  "emit env i action sev types message raw m =
     m\<lparr>mo_daemon := emit_supervisor_event (te_dispatch env) (te_wall env) (te_eid env action i)
          action sev types message raw (mo_daemon m)\<rparr>"

definition next_inc :: "channel \<Rightarrow> nat" where
  "next_inc ch = Suc (Max (insert 0 (set (map fst (ch_workers ch)))))"

text \<open>The attempt is counted on the old incarnation before the spawn.\<close>

definition count_attempt :: "tick_env \<Rightarrow> nat \<Rightarrow> nat \<Rightarrow> nat \<Rightarrow> monitor \<Rightarrow> monitor" where
  "count_attempt env i inc attempt m =
     (put_worker inc ((mo_worker inc m)\<lparr>w_restarts := attempt, w_restart_at := None\<rparr>) m)
       \<lparr>mo_attempts := (i, attempt, te_mono env) # mo_attempts m\<rparr>"

text \<open>A new incarnation at position \<open>i\<close>.\<close>

definition install :: "nat \<Rightarrow> worker_proc \<Rightarrow> monitor \<Rightarrow> monitor" where
  "install i new m =
     (let ch = mo_channel m; k = next_inc ch
      in m\<lparr>mo_channel := (set_worker k new ch)\<lparr>ch_procs := (ch_procs ch)[i := k]\<rparr>\<rparr>)"

definition respawn :: "tick_env \<Rightarrow> nat \<Rightarrow> nat \<Rightarrow> nat \<Rightarrow> real \<Rightarrow> monitor \<Rightarrow> monitor" where
  "respawn env i inc attempt delay m =
     (let name = w_name (mo_worker inc m); m1 = count_attempt env i inc attempt m
      in if te_stop_pre env i then m1
         else if \<not> te_spawns env i then m1
         else (let m2 = install i ((new_worker name (te_started env))\<lparr>w_restarts := attempt\<rparr>) m1
               in if te_stop_post env i then m2
                  else emit env i ''worker_restarted'' ''info'' [''start'']
                         (''restarted worker '' @ name @ '' (attempt '' @ nat_str attempt @ '', ''
                            @ te_float env delay @ ''s backoff)'')
                         [(''worker'', PStr name), (''attempt'', PInt (int attempt)), (''backoff_s'', PFloat delay)] m2))"

definition report_death :: "tick_env \<Rightarrow> nat \<Rightarrow> nat \<Rightarrow> int \<Rightarrow> monitor \<Rightarrow> monitor" where
  "report_death env i inc rc m =
     (let w = mo_worker inc m
      in if w_died_reported w then m
         else (let m1 = put_worker inc (w\<lparr>w_died_reported := True\<rparr>) m;
                   m2 = m1\<lparr>mo_channel := fail_pending inc Worker_died (mo_channel m1)\<rparr>
               in emit env i ''worker_died'' ''medium'' [''end'']
                    (''worker '' @ w_name w @ '' exited with code '' @ int_str rc)
                    [(''worker'', PStr (w_name w)), (''exit_code'', PInt rc),
                     (''signal'', if rc < 0 then PInt (- rc) else PNone), (''restarts'', PInt (int (w_restarts w)))] m2))"

definition give_up :: "tick_env \<Rightarrow> nat \<Rightarrow> nat \<Rightarrow> monitor \<Rightarrow> monitor" where
  "give_up env i inc m =
     (let w = mo_worker inc m
      in emit env i ''worker_restart_exhausted'' ''high'' [''error'']
           (''worker '' @ w_name w @ '' stayed down after '' @ nat_str (w_restarts w)
              @ '' restarts; its telemetry is missing until inspectord is restarted'')
           [(''worker'', PStr (w_name w)), (''attempts'', PInt (int (w_restarts w)))]
           (put_worker inc (w\<lparr>w_exhausted := True\<rparr>) m))"

definition handle_dead_worker :: "restart_policy \<Rightarrow> tick_env \<Rightarrow> nat \<Rightarrow> nat \<Rightarrow> int \<Rightarrow> monitor \<Rightarrow> monitor" where
  "handle_dead_worker p env i inc rc m =
     (let m1 = report_death env i inc rc m; w = mo_worker inc m1; now = te_mono env
      in if w_restarts w \<ge> rs_max_attempts p then give_up env i inc m1
         else (let attempt = w_restarts w + 1; delay = policy_delay p attempt;
                   due = (case w_restart_at w of None \<Rightarrow> now + delay | Some t \<Rightarrow> t);
                   m2 = put_worker inc (w\<lparr>w_restart_at := Some due\<rparr>) m1
               in if now < due then m2 else respawn env i inc attempt delay m2))"

definition visit_worker :: "restart_policy \<Rightarrow> tick_env \<Rightarrow> nat \<Rightarrow> nat \<Rightarrow> monitor \<Rightarrow> monitor" where
  "visit_worker p env i inc m =
     (let w = mo_worker inc m
      in if w_exhausted w then m
         else case te_poll env inc of
                None \<Rightarrow> (if w_restarts w \<noteq> 0 \<and> te_mono env - w_started_at w \<ge> rs_healthy_after p
                         then put_worker inc (w\<lparr>w_restarts := 0\<rparr>) m else m)
              | Some rc \<Rightarrow> handle_dead_worker p env i inc rc m)"

text \<open>The loop over the snapshot; the flag tells whether the tick goes on to its periodic duties.\<close>

fun visit_workers :: "restart_policy \<Rightarrow> tick_env \<Rightarrow> (nat \<times> nat) list \<Rightarrow> monitor \<Rightarrow> bool \<times> monitor" where
  "visit_workers p env [] m = (True, m)"
| "visit_workers p env ((i, inc) # rest) m =
     (if te_stop_loop env i then (False, m) else visit_workers p env rest (visit_worker p env i inc m))"

definition monitor_workers :: "restart_policy \<Rightarrow> tick_env \<Rightarrow> monitor \<Rightarrow> bool \<times> monitor" where
  "monitor_workers p env m = visit_workers p env (enumerate 0 (ch_procs (mo_channel m))) m"

end
