(* ===== verification/Restart_Policy.thy ===== *)
theory Restart_Policy
  imports Workers
begin

text \<open>
  The restart policy of the monitor thread as an abstract retry machine per position of the worker list, the
  proof that the monitor of \<^verbatim>\<open>inspectord/supervisor.py\<close> refines it, and what the machine guarantees: restarts are
  numbered, backed off and bounded, and giving up is final.
\<close>

section \<open>The abstract machine\<close>

datatype sighting = Left_alone | Healthy | Dead

record retry =
  rt_restarts :: nat
  rt_due :: "real option"
  rt_exhausted :: bool
  rt_log :: "(nat \<times> real) list"

definition retry_step :: "restart_policy \<Rightarrow> real \<Rightarrow> sighting \<Rightarrow> retry \<Rightarrow> retry" where
  "retry_step p now s rt =
     (if rt_exhausted rt then rt
      else case s of
             Left_alone \<Rightarrow> rt
           | Healthy \<Rightarrow> rt\<lparr>rt_restarts := 0\<rparr>
           | Dead \<Rightarrow>
               if rt_restarts rt \<ge> rs_max_attempts p then rt\<lparr>rt_exhausted := True\<rparr>
               else (let attempt = rt_restarts rt + 1;
                         due = (case rt_due rt of None \<Rightarrow> now + policy_delay p attempt | Some t \<Rightarrow> t)
                     in if now < due then rt\<lparr>rt_due := Some due\<rparr>
                        else rt\<lparr>rt_restarts := attempt, rt_due := None, rt_log := (attempt, now) # rt_log rt\<rparr>))"

text \<open>A log of attempts, newest first: each is within the bound, continues the count or starts it again, and
  comes at least its own delay after the one before it.\<close>

fun paced :: "restart_policy \<Rightarrow> (nat \<times> real) list \<Rightarrow> bool" where
  "paced p [] = True"
| "paced p [(b, u)] = (b = 1 \<and> b \<le> rs_max_attempts p)"
| "paced p ((b, u) # (a, t) # past) =
     (1 \<le> b \<and> b \<le> rs_max_attempts p \<and> (b = a + 1 \<or> b = 1) \<and> u \<ge> t + policy_delay p b \<and> paced p ((a, t) # past))"

definition retry_inv :: "restart_policy \<Rightarrow> real \<Rightarrow> retry \<Rightarrow> bool" where
  "retry_inv p now rt \<longleftrightarrow>
     paced p (rt_log rt) \<and> rt_restarts rt \<le> rs_max_attempts p
     \<and> (case rt_log rt of
          [] \<Rightarrow> rt_restarts rt = 0
        | (a, t) # _ \<Rightarrow> (rt_restarts rt = a \<or> rt_restarts rt = 0) \<and> t \<le> now
            \<and> (\<forall>r. rt_due rt = Some r \<longrightarrow> t + policy_delay p (rt_restarts rt + 1) \<le> r))"

lemma policy_delay_first:
  assumes "0 \<le> rs_base p"
  shows "policy_delay p 1 \<le> policy_delay p n"
proof -
  have "rs_base p * 1 \<le> rs_base p * 2 ^ (n - 1)" using assms by (intro mult_left_mono) simp_all
  then show ?thesis by (auto simp: policy_delay_def backoff_delay_def min_def)
qed

lemma paced_snoc:
  assumes "paced p past" "1 \<le> b" "b \<le> rs_max_attempts p"
    "case past of [] \<Rightarrow> b = 1 | (a, t) # _ \<Rightarrow> (b = a + 1 \<or> b = 1) \<and> t + policy_delay p b \<le> u"
  shows "paced p ((b, u) # past)"
  using assms by (cases past) auto

lemma retry_step_inv:
  assumes "retry_inv p now rt" "now \<le> now'" "0 \<le> rs_base p"
  shows "retry_inv p now' (retry_step p now' s rt)"
proof -
  have later: "retry_inv p now' rt"
    using assms(1,2) unfolding retry_inv_def by (auto split: list.splits)
  consider (kept) "retry_step p now' s rt = rt" | (healthy) "retry_step p now' s rt = rt\<lparr>rt_restarts := 0\<rparr>"
    | (gone) "retry_step p now' s rt = rt\<lparr>rt_exhausted := True\<rparr>"
    | (wait) due where "retry_step p now' s rt = rt\<lparr>rt_due := Some due\<rparr>"
        "due = (case rt_due rt of None \<Rightarrow> now' + policy_delay p (rt_restarts rt + 1) | Some t \<Rightarrow> t)"
    | (again) due where "retry_step p now' s rt =
          rt\<lparr>rt_restarts := rt_restarts rt + 1, rt_due := None, rt_log := (rt_restarts rt + 1, now') # rt_log rt\<rparr>"
        "due = (case rt_due rt of None \<Rightarrow> now' + policy_delay p (rt_restarts rt + 1) | Some t \<Rightarrow> t)"
        "due \<le> now'" "rt_restarts rt < rs_max_attempts p"
    unfolding retry_step_def Let_def by (fastforce split: if_splits sighting.splits)
  then show ?thesis
  proof cases
    case kept
    then show ?thesis using later by simp
  next
    case healthy
    have "t + policy_delay p 1 \<le> r" if "t + policy_delay p (rt_restarts rt + 1) \<le> r" for t r
      using that policy_delay_first[OF assms(3), of "rt_restarts rt + 1"] by linarith
    then show ?thesis using later healthy unfolding retry_inv_def by (auto split: list.splits)
  next
    case gone
    then show ?thesis using later unfolding retry_inv_def by (auto split: list.splits)
  next
    case wait
    then show ?thesis using later unfolding retry_inv_def by (auto split: list.splits option.splits)
  next
    case again
    have "paced p ((rt_restarts rt + 1, now') # rt_log rt)"
      by (rule paced_snoc) (use later again in \<open>auto simp: retry_inv_def split: list.splits option.splits\<close>)
    then show ?thesis using again unfolding retry_inv_def by simp
  qed
qed

section \<open>The monitor refines it\<close>

abbreviation procs_of :: "monitor \<Rightarrow> nat list" where
  "procs_of m \<equiv> ch_procs (mo_channel m)"

definition retry_of :: "worker_proc \<Rightarrow> (nat \<times> real) list \<Rightarrow> retry" where
  "retry_of w past = \<lparr>rt_restarts = w_restarts w, rt_due = w_restart_at w, rt_exhausted = w_exhausted w, rt_log = past\<rparr>"

definition attempts_at :: "nat \<Rightarrow> monitor \<Rightarrow> (nat \<times> real) list" where
  "attempts_at i m = map snd (filter (\<lambda>a. fst a = i) (mo_attempts m))"

definition slot :: "nat \<Rightarrow> monitor \<Rightarrow> retry" where
  "slot i m = retry_of (mo_worker (procs_of m ! i) m) (attempts_at i m)"

definition known :: "monitor \<Rightarrow> nat set" where
  "known m = dom (map_of (ch_workers (mo_channel m)))"

definition monitor_wf :: "monitor \<Rightarrow> bool" where
  "monitor_wf m \<longleftrightarrow> distinct (procs_of m) \<and> set (procs_of m) \<subseteq> known m"

definition sighting_of :: "restart_policy \<Rightarrow> tick_env \<Rightarrow> nat \<Rightarrow> monitor \<Rightarrow> sighting" where
  "sighting_of p env inc m =
     (case te_poll env inc of
        None \<Rightarrow> (if w_restarts (mo_worker inc m) \<noteq> 0
                    \<and> te_mono env - w_started_at (mo_worker inc m) \<ge> rs_healthy_after p then Healthy else Left_alone)
      | Some rc \<Rightarrow> Dead)"

lemma put_worker_simps [simp]:
  "mo_worker k (put_worker inc w m) = (if k = inc then w else mo_worker k m)"
  "procs_of (put_worker inc w m) = procs_of m" "mo_attempts (put_worker inc w m) = mo_attempts m"
  "known (put_worker inc w m) = insert inc (known m)"
  by (auto simp: known_def put_worker_def set_worker_def mo_worker_def worker_def table_simps)

lemma emit_simps [simp]:
  "mo_channel (emit env i action sev types msg raw m) = mo_channel m"
  "mo_attempts (emit env i action sev types msg raw m) = mo_attempts m"
  "mo_worker k (emit env i action sev types msg raw m) = mo_worker k m"
  "known (emit env i action sev types msg raw m) = known m"
  by (simp_all add: emit_def mo_worker_def known_def)

lemma fail_pending_simps [simp]:
  "worker (fail_pending inc r ch) k = (if k = inc then (worker ch inc)\<lparr>w_pending := []\<rparr> else worker ch k)"
  "ch_procs (fail_pending inc r ch) = ch_procs ch"
  "dom (map_of (ch_workers (fail_pending inc r ch))) = insert inc (dom (map_of (ch_workers ch)))"
  by (auto simp: fail_pending_def set_worker_def worker_def Let_def table_simps)

lemma mo_worker_folds [simp]:
  "mo_worker k (m\<lparr>mo_channel := c\<rparr>) = worker c k" "worker (mo_channel m) k = mo_worker k m"
  "mo_worker k (m\<lparr>mo_attempts := as\<rparr>) = mo_worker k m" "known (m\<lparr>mo_attempts := as\<rparr>) = known m"
  "known (m\<lparr>mo_channel := fail_pending inc r (mo_channel m)\<rparr>) = insert inc (known m)"
  by (simp_all add: mo_worker_def known_def)

lemma report_death_simps [simp]:
  "procs_of (report_death env i inc rc m) = procs_of m" "mo_attempts (report_death env i inc rc m) = mo_attempts m"
  "k \<noteq> inc \<Longrightarrow> mo_worker k (report_death env i inc rc m) = mo_worker k m"
  "w_restarts (mo_worker inc (report_death env i inc rc m)) = w_restarts (mo_worker inc m)"
  "w_restart_at (mo_worker inc (report_death env i inc rc m)) = w_restart_at (mo_worker inc m)"
  "w_exhausted (mo_worker inc (report_death env i inc rc m)) = w_exhausted (mo_worker inc m)"
  "known m \<subseteq> known (report_death env i inc rc m)"
  by (auto simp: report_death_def Let_def)

lemma next_inc_fresh: "next_inc (mo_channel m) \<notin> known m"
proof
  assume "next_inc (mo_channel m) \<in> known m"
  then have "next_inc (mo_channel m) \<in> set (map fst (ch_workers (mo_channel m)))"
    by (simp add: known_def dom_map_of_conv_image_fst)
  then have "next_inc (mo_channel m) \<le> Max (insert 0 (set (map fst (ch_workers (mo_channel m)))))"
    by (intro Max_ge) auto
  then show False by (simp add: next_inc_def)
qed

text \<open>One visit changes its own position only.\<close>

definition visits_only :: "nat \<Rightarrow> monitor \<Rightarrow> monitor \<Rightarrow> bool" where
  "visits_only i m m' \<longleftrightarrow> monitor_wf m' \<and> length (procs_of m') = length (procs_of m)
     \<and> (\<forall>j<length (procs_of m). j \<noteq> i \<longrightarrow> procs_of m' ! j = procs_of m ! j
          \<and> mo_worker (procs_of m ! j) m' = mo_worker (procs_of m ! j) m \<and> attempts_at j m' = attempts_at j m)"

lemma visits_only_refl: "monitor_wf m \<Longrightarrow> visits_only i m m"
  by (simp add: visits_only_def)

lemma visits_only_trans:
  assumes "visits_only i m m'" "visits_only i m' m''"
  shows "visits_only i m m''"
  using assms unfolding visits_only_def by simp

lemma visits_only_same_procs:
  assumes "monitor_wf m" "i < length (procs_of m)" "procs_of m' = procs_of m"
    "\<And>k. k \<noteq> procs_of m ! i \<Longrightarrow> mo_worker k m' = mo_worker k m"
    "mo_attempts m' = mo_attempts m \<or> (\<exists>a. mo_attempts m' = (i, a) # mo_attempts m)" "known m \<subseteq> known m'"
  shows "visits_only i m m'"
  using assms by (auto simp: visits_only_def monitor_wf_def attempts_at_def nth_eq_iff_index_eq)

lemma visits_only_put: "monitor_wf m \<Longrightarrow> i < length (procs_of m) \<Longrightarrow> visits_only i m (put_worker (procs_of m ! i) w m)"
  by (rule visits_only_same_procs) auto

lemma emit_transparent [simp]:
  "visits_only i m (emit env k action sev types msg raw m') = visits_only i m m'"
  "slot i (emit env k action sev types msg raw m') = slot i m'"
  by (simp_all add: visits_only_def monitor_wf_def slot_def attempts_at_def)

lemma install_slot:
  assumes "monitor_wf m" "i < length (procs_of m)"
  shows "visits_only i m (install i new m)" "slot i (install i new m) = retry_of new (attempts_at i m)"
proof -
  let ?k = "next_inc (mo_channel m)"
  have fresh: "?k \<notin> set (procs_of m)" using next_inc_fresh[of m] assms(1) by (auto simp: monitor_wf_def)
  have w: "mo_worker x (install i new m) = (if x = ?k then new else mo_worker x m)" for x
    by (simp add: install_def Let_def set_worker_def worker_def table_simps mo_worker_def)
  have p: "procs_of (install i new m) = (procs_of m)[i := ?k]" "mo_attempts (install i new m) = mo_attempts m"
    and k: "known (install i new m) = insert ?k (known m)"
    by (auto simp: install_def Let_def known_def set_worker_def table_simps)
  have "monitor_wf (install i new m)"
    using assms(1) fresh p k set_update_subset_insert[of "procs_of m" i ?k]
    by (auto simp: monitor_wf_def distinct_list_update)
  moreover have "procs_of m ! j \<noteq> ?k" if "j < length (procs_of m)" for j using fresh that nth_mem by metis
  ultimately show "visits_only i m (install i new m)" using p w by (auto simp: visits_only_def attempts_at_def)
  show "slot i (install i new m) = retry_of new (attempts_at i m)"
    using assms(2) p w by (simp add: slot_def attempts_at_def)
qed

lemma count_attempt_slot:
  assumes "monitor_wf m" "i < length (procs_of m)" "inc = procs_of m ! i"
  shows "visits_only i m (count_attempt env i inc attempt m)"
    "slot i (count_attempt env i inc attempt m) =
       (slot i m)\<lparr>rt_restarts := attempt, rt_due := None, rt_log := (attempt, te_mono env) # rt_log (slot i m)\<rparr>"
    "attempts_at i (count_attempt env i inc attempt m) = (attempt, te_mono env) # attempts_at i m"
  using assms
  by (auto intro!: visits_only_same_procs simp: count_attempt_def slot_def retry_of_def attempts_at_def)

text \<open>The daemon is not part of what a position observes.\<close>

lemma same_channel:
  assumes "mo_channel m' = mo_channel m''" "mo_attempts m' = mo_attempts m''"
  shows "visits_only i m m' = visits_only i m m''" "slot i m' = slot i m''"
  using assms by (simp_all add: visits_only_def monitor_wf_def slot_def attempts_at_def known_def mo_worker_def del: mo_worker_folds)

lemma respawn_cases:
  obtains (kept) "respawn env i inc attempt delay m = count_attempt env i inc attempt m"
  | (fresh) new where "w_restarts new = attempt" "w_restart_at new = None" "\<not> w_exhausted new"
      "mo_channel (respawn env i inc attempt delay m) = mo_channel (install i new (count_attempt env i inc attempt m))"
      "mo_attempts (respawn env i inc attempt delay m) = mo_attempts (install i new (count_attempt env i inc attempt m))"
proof -
  let ?new = "(new_worker (w_name (mo_worker inc m)) (te_started env))\<lparr>w_restarts := attempt\<rparr>"
  let ?c = "count_attempt env i inc attempt m"
  have r: "respawn env i inc attempt delay m = ?c \<or> respawn env i inc attempt delay m = install i ?new ?c
    \<or> (\<exists>msg raw. respawn env i inc attempt delay m = emit env i ''worker_restarted'' ''info'' [''start''] msg raw (install i ?new ?c))"
    unfolding respawn_def Let_def by metis
  have new: "w_restarts ?new = attempt" "w_restart_at ?new = None" "\<not> w_exhausted ?new" by (simp_all add: new_worker_def)
  from r show thesis
    by (elim disjE exE) (rule kept, assumption, rule fresh[OF new], simp, simp, rule fresh[OF new], simp, simp)
qed

lemma respawn_slot:
  assumes "monitor_wf m" "i < length (procs_of m)" "inc = procs_of m ! i" "\<not> w_exhausted (mo_worker inc m)"
  shows "visits_only i m (respawn env i inc attempt delay m)
    \<and> slot i (respawn env i inc attempt delay m) =
       (slot i m)\<lparr>rt_restarts := attempt, rt_due := None, rt_log := (attempt, te_mono env) # rt_log (slot i m)\<rparr>"
proof (cases rule: respawn_cases[of env i inc attempt delay m])
  case kept
  then show ?thesis using count_attempt_slot[OF assms(1-3)] by simp
next
  case (fresh new)
  let ?c = "count_attempt env i inc attempt m"
  note c = count_attempt_slot[OF assms(1-3), of env attempt]
  have wf: "monitor_wf ?c" "i < length (procs_of ?c)" using c(1) assms(2) by (simp_all add: visits_only_def)
  note n = install_slot[OF wf, of new]
  have "slot i (install i new ?c) =
      (slot i m)\<lparr>rt_restarts := attempt, rt_due := None, rt_log := (attempt, te_mono env) # rt_log (slot i m)\<rparr>"
    using fresh(1-3) assms(3,4) c(3) n(2) by (simp add: slot_def retry_of_def)
  with visits_only_trans[OF c(1) n(1)] same_channel[OF fresh(4,5)] show ?thesis by simp
qed

lemma handle_dead_slot:
  assumes "monitor_wf m" "i < length (procs_of m)" "inc = procs_of m ! i" "\<not> w_exhausted (mo_worker inc m)"
  shows "visits_only i m (handle_dead_worker p env i inc rc m)
    \<and> slot i (handle_dead_worker p env i inc rc m) = retry_step p (te_mono env) Dead (slot i m)"
proof -
  let ?m1 = "report_death env i inc rc m"
  have v1: "visits_only i m ?m1" by (rule visits_only_same_procs) (use assms in simp_all)
  have s1: "slot i ?m1 = slot i m" using assms(3) by (simp add: slot_def retry_of_def attempts_at_def)
  have wf1: "monitor_wf ?m1" using v1 by (simp add: visits_only_def)
  let ?w = "mo_worker inc ?m1"
  show ?thesis
  proof (cases "rs_max_attempts p \<le> w_restarts ?w")
    case True
    let ?m2 = "put_worker inc (?w\<lparr>w_exhausted := True\<rparr>) ?m1"
    have "visits_only i m ?m2" using visits_only_trans[OF v1 visits_only_put[OF wf1]] assms(2,3) by simp
    moreover have "slot i ?m2 = (slot i m)\<lparr>rt_exhausted := True\<rparr>"
      using assms(3) by (simp add: slot_def retry_of_def attempts_at_def)
    ultimately show ?thesis using True assms(3,4)
      by (simp add: handle_dead_worker_def give_up_def Let_def retry_step_def slot_def retry_of_def attempts_at_def)
  next
    case False
    define a where "a = w_restarts ?w + 1"
    define due where "due = (case w_restart_at ?w of None \<Rightarrow> te_mono env + policy_delay p a | Some t \<Rightarrow> t)"
    let ?m2 = "put_worker inc (?w\<lparr>w_restart_at := Some due\<rparr>) ?m1"
    have v2: "visits_only i m ?m2" using visits_only_trans[OF v1 visits_only_put[OF wf1]] assms(2,3) by simp
    then have wf2: "monitor_wf ?m2" by (simp add: visits_only_def)
    have s2: "slot i ?m2 = (slot i m)\<lparr>rt_due := Some due\<rparr>"
      using assms(3) by (simp add: slot_def retry_of_def attempts_at_def)
    have h: "handle_dead_worker p env i inc rc m =
        (if te_mono env < due then ?m2 else respawn env i inc a (policy_delay p a) ?m2)"
      unfolding handle_dead_worker_def Let_def a_def due_def by (simp only: False if_False)
    have st: "retry_step p (te_mono env) Dead (slot i m) =
        (if te_mono env < due then (slot i m)\<lparr>rt_due := Some due\<rparr>
         else (slot i m)\<lparr>rt_restarts := a, rt_due := None, rt_log := (a, te_mono env) # rt_log (slot i m)\<rparr>)"
      using False assms(3,4) unfolding due_def a_def by (simp add: retry_step_def Let_def slot_def retry_of_def split: option.split)
    have i2: "i < length (procs_of ?m2)" "inc = procs_of ?m2 ! i" "\<not> w_exhausted (mo_worker inc ?m2)"
      using assms(2-4) by simp_all
    note r = respawn_slot[OF wf2 i2, of env a "policy_delay p a"]
    show ?thesis
    proof (cases "te_mono env < due")
      case True
      then show ?thesis using h st v2 s2 by simp
    next
      case later: False
      have "visits_only i m (respawn env i inc a (policy_delay p a) ?m2)" using visits_only_trans[OF v2] r by blast
      then show ?thesis using h st r s2 later by simp
    qed
  qed
qed

lemma visit_worker_slot:
  assumes "monitor_wf m" "i < length (procs_of m)" "inc = procs_of m ! i"
  shows "visits_only i m (visit_worker p env i inc m)
    \<and> slot i (visit_worker p env i inc m) = retry_step p (te_mono env) (sighting_of p env inc m) (slot i m)"
proof (cases "w_exhausted (mo_worker inc m)")
  case True
  then show ?thesis using assms visits_only_refl[of m i]
    by (simp add: visit_worker_def retry_step_def slot_def retry_of_def)
next
  case False
  show ?thesis
  proof (cases "te_poll env inc")
    case None
    have "visits_only i m (put_worker inc ((mo_worker inc m)\<lparr>w_restarts := 0\<rparr>) m)"
      using visits_only_put[OF assms(1,2)] assms(3) by simp
    with None False show ?thesis using assms visits_only_refl[of m i]
      by (auto simp: visit_worker_def Let_def sighting_of_def retry_step_def slot_def retry_of_def attempts_at_def)
  next
    case (Some rc)
    with False handle_dead_slot[OF assms False, of p env rc] show ?thesis
      by (simp add: visit_worker_def sighting_of_def)
  qed
qed

lemma visits_only_elsewhere:
  assumes "visits_only i m m'" "j < length (procs_of m)" "j \<noteq> i"
  shows "procs_of m' ! j = procs_of m ! j" "slot j m' = slot j m"
    "sighting_of p env (procs_of m ! j) m' = sighting_of p env (procs_of m ! j) m"
  using assms by (auto simp: visits_only_def slot_def sighting_of_def)

lemma visit_workers_slots:
  assumes "monitor_wf m" "distinct (map fst xs)" "\<forall>(i, inc)\<in>set xs. i < length (procs_of m) \<and> inc = procs_of m ! i"
  shows "monitor_wf (snd (visit_workers p env xs m)) \<and> length (procs_of (snd (visit_workers p env xs m))) = length (procs_of m)
    \<and> (\<forall>j<length (procs_of m). slot j (snd (visit_workers p env xs m)) =
         (if j \<in> fst ` set (takeWhile (\<lambda>x. \<not> te_stop_loop env (fst x)) xs)
          then retry_step p (te_mono env) (sighting_of p env (procs_of m ! j) m) (slot j m)
          else slot j m))"
  using assms
proof (induction xs arbitrary: m)
  case Nil
  then show ?case by simp
next
  case (Cons x xs)
  obtain i inc where x: "x = (i, inc)" by (cases x)
  show ?case
  proof (cases "te_stop_loop env i")
    case True
    then show ?thesis using Cons.prems(1) x by simp
  next
    case False
    let ?m1 = "visit_worker p env i inc m"
    have i: "i < length (procs_of m)" "inc = procs_of m ! i" using Cons.prems(3) x by auto
    have v: "visits_only i m ?m1"
      and s: "slot i ?m1 = retry_step p (te_mono env) (sighting_of p env inc m) (slot i m)"
      using visit_worker_slot[OF Cons.prems(1) i, of p env] by auto
    have l: "length (procs_of ?m1) = length (procs_of m)" and wf: "monitor_wf ?m1" using v by (simp_all add: visits_only_def)
    have ni: "i \<notin> fst ` set xs" using Cons.prems(2) x by simp
    have "\<forall>(j, k)\<in>set xs. j < length (procs_of ?m1) \<and> k = procs_of ?m1 ! j"
    proof (clarify)
      fix j k assume jk: "(j, k) \<in> set xs"
      then have "j \<noteq> i" "j < length (procs_of m)" "k = procs_of m ! j"
        using ni Cons.prems(3) by (auto simp: image_iff)
      then show "j < length (procs_of ?m1) \<and> k = procs_of ?m1 ! j"
        using visits_only_elsewhere(1)[OF v] l by simp
    qed
    note ih = Cons.IH[OF wf _ this]
    have "i \<notin> fst ` set (takeWhile (\<lambda>x. \<not> te_stop_loop env (fst x)) xs)" using ni by (auto dest: set_takeWhileD)
    then show ?thesis using ih Cons.prems(2) x False l s i visits_only_elsewhere[OF v] by (auto simp: image_iff)
  qed
qed

lemma takeWhile_enumerate:
  assumes "k \<le> j" "j < k + length xs"
  shows "j \<in> fst ` set (takeWhile (\<lambda>x. P (fst x)) (enumerate k xs)) \<longleftrightarrow> (\<forall>i\<in>{k..j}. P i)"
  using assms
proof (induction xs arbitrary: k)
  case Nil
  then show ?case by simp
next
  case (Cons x xs)
  show ?case
  proof (cases "j = k")
    case True
    have "k \<notin> fst ` set (takeWhile (\<lambda>x. P (fst x)) (enumerate (Suc k) xs))"
      by (auto dest!: set_takeWhileD simp: in_set_enumerate_eq)
    with True show ?thesis by (auto intro!: image_eqI[where x = "(k, x)"])
  next
    case False
    with Cons have "{k..j} = insert k {Suc k..j}" by auto
    moreover have "j \<in> fst ` set (takeWhile (\<lambda>x. P (fst x)) (enumerate (Suc k) xs)) \<longleftrightarrow> (\<forall>i\<in>{Suc k..j}. P i)"
      using False Cons by simp
    ultimately show ?thesis using False by auto
  qed
qed

lemma monitor_slot:
  assumes "monitor_wf m" "j < length (procs_of m)"
  shows "slot j (snd (monitor_workers p env m)) =
    (if \<exists>i\<le>j. te_stop_loop env i then slot j m
     else retry_step p (te_mono env) (sighting_of p env (procs_of m ! j) m) (slot j m))"
proof -
  let ?xs = "enumerate 0 (procs_of m)"
  have "distinct (map fst ?xs)" by (simp add: map_fst_enumerate)
  moreover have "\<forall>(i, inc)\<in>set ?xs. i < length (procs_of m) \<and> inc = procs_of m ! i"
    by (auto simp: in_set_enumerate_eq)
  ultimately have "slot j (snd (visit_workers p env ?xs m)) =
      (if j \<in> fst ` set (takeWhile (\<lambda>x. \<not> te_stop_loop env (fst x)) ?xs)
       then retry_step p (te_mono env) (sighting_of p env (procs_of m ! j) m) (slot j m) else slot j m)"
    using visit_workers_slots[OF assms(1), of ?xs p env] assms(2) by blast
  moreover have "j \<in> fst ` set (takeWhile (\<lambda>x. \<not> te_stop_loop env (fst x)) ?xs) \<longleftrightarrow> \<not> (\<exists>i\<le>j. te_stop_loop env i)"
    using takeWhile_enumerate[of 0 j "procs_of m" "\<lambda>i. \<not> te_stop_loop env i"] assms(2) by auto
  ultimately show ?thesis by (auto simp: monitor_workers_def)
qed

text \<open>C32: The monitor thread implements the retry machine: for every worker list, every answer of the operating
  system and every moment at which the daemon is stopped, one tick performs on each position of the worker
  list exactly one step of the machine on what the tick saw of that worker, and none at all on the positions
  after the stop was noticed.\<close>

theorem monitor_refines_retry:
  assumes "monitor_wf m" "j < length (procs_of m)"
  shows "slot j (snd (monitor_workers p env m)) =
    (if \<exists>i\<le>j. te_stop_loop env i then slot j m
     else retry_step p (te_mono env) (sighting_of p env (procs_of m ! j) m) (slot j m))"
  by (rule monitor_slot[OF assms])

lemma monitor_workers_wf:
  assumes "monitor_wf m"
  shows "monitor_wf (snd (monitor_workers p env m))" "length (procs_of (snd (monitor_workers p env m))) = length (procs_of m)"
proof -
  let ?xs = "enumerate 0 (procs_of m)"
  have "distinct (map fst ?xs)" by (simp add: map_fst_enumerate)
  moreover have "\<forall>(i, inc)\<in>set ?xs. i < length (procs_of m) \<and> inc = procs_of m ! i"
    by (auto simp: in_set_enumerate_eq)
  ultimately show "monitor_wf (snd (monitor_workers p env m))"
    "length (procs_of (snd (monitor_workers p env m))) = length (procs_of m)"
    using visit_workers_slots[OF assms, of ?xs p env] by (simp_all add: monitor_workers_def)
qed

section \<open>Runs of the monitor\<close>

definition monitor_run :: "restart_policy \<Rightarrow> tick_env list \<Rightarrow> monitor \<Rightarrow> monitor" where
  "monitor_run p envs m = fold (\<lambda>env m. snd (monitor_workers p env m)) envs m"

definition fresh_monitor :: "monitor \<Rightarrow> bool" where
  "fresh_monitor m \<longleftrightarrow> monitor_wf m \<and> mo_attempts m = []
     \<and> (\<forall>i<length (procs_of m). w_restarts (mo_worker (procs_of m ! i) m) = 0)"

lemma monitor_run_wf:
  "monitor_wf m \<Longrightarrow> monitor_wf (monitor_run p envs m) \<and> length (procs_of (monitor_run p envs m)) = length (procs_of m)"
  unfolding monitor_run_def by (induction envs arbitrary: m) (simp_all add: monitor_workers_wf)

lemma monitor_run_inv:
  assumes "monitor_wf m" "j < length (procs_of m)" "0 \<le> rs_base p" "sorted (now # map te_mono envs)" "retry_inv p now (slot j m)"
  shows "retry_inv p (last (now # map te_mono envs)) (slot j (monitor_run p envs m))"
  using assms
proof (induction envs arbitrary: m now)
  case Nil
  then show ?case by (simp add: monitor_run_def)
next
  case (Cons env envs)
  let ?m = "snd (monitor_workers p env m)"
  have le: "now \<le> te_mono env" using Cons.prems(4) by simp
  have "retry_inv p (te_mono env) (retry_step p (te_mono env) s (slot j m))" for s
    by (rule retry_step_inv[OF Cons.prems(5) le Cons.prems(3)])
  from this[of Left_alone] this have "retry_inv p (te_mono env) (slot j ?m)"
    unfolding monitor_slot[OF Cons.prems(1,2)]
    by (auto simp: retry_step_def[of _ _ Left_alone] split: if_splits)
  then have "retry_inv p (last (te_mono env # map te_mono envs)) (slot j (monitor_run p envs ?m))"
    using Cons.prems monitor_workers_wf[OF Cons.prems(1), of p env] by (intro Cons.IH) auto
  then show ?case by (simp add: monitor_run_def)
qed


text \<open>Giving up is final: once a worker is marked exhausted, no later tick changes its restart count, its
  schedule or its mark, or attempts another restart.\<close>

theorem exhaustion_is_final:
  assumes "monitor_wf m" "j < length (procs_of m)" "w_exhausted (mo_worker (procs_of m ! j) m)"
  shows "slot j (monitor_run p envs m) = slot j m"
  using assms
proof (induction envs arbitrary: m)
  case Nil
  then show ?case by (simp add: monitor_run_def)
next
  case (Cons env envs)
  let ?m = "snd (monitor_workers p env m)"
  have "rt_exhausted (slot j m)" using Cons.prems(3) by (simp add: slot_def retry_of_def)
  then have same: "slot j ?m = slot j m"
    unfolding monitor_slot[OF Cons.prems(1,2)] by (simp add: retry_step_def)
  then have "w_exhausted (mo_worker (procs_of ?m ! j) ?m)"
    using Cons.prems(3) by (simp add: slot_def retry_of_def)
  with Cons.IH[of ?m] same Cons.prems(2) monitor_workers_wf[OF Cons.prems(1), of p env] show ?case
    by (simp add: monitor_run_def)
qed

section \<open>Concrete runs\<close>

definition crash_tick :: "real \<Rightarrow> tick_env" where
  "crash_tick now =
     \<lparr>te_mono = now, te_wall = 0, te_eid = (\<lambda>a i. a), te_poll = (\<lambda>_. Some 1), te_spawns = (\<lambda>_. False), te_started = now,
      te_stop_loop = (\<lambda>_. False), te_stop_pre = (\<lambda>_. False), te_stop_post = (\<lambda>_. False),
      te_dispatch = sample_dispatch_env True, te_float = (\<lambda>_. '''')\<rparr>"

definition sample_monitor :: "worker_proc \<Rightarrow> monitor" where
  "sample_monitor w =
     \<lparr>mo_channel = \<lparr>ch_stop = False, ch_workers = [(1, w)], ch_procs = [1], ch_entries = []\<rparr>,
      mo_daemon = sample_daemon, mo_attempts = []\<rparr>"

lemma sample_monitor_simps [simp]:
  "monitor_wf (sample_monitor w)" "procs_of (sample_monitor w) = [1]" "mo_worker 1 (sample_monitor w) = w"
  "mo_worker (Suc 0) (sample_monitor w) = w"
  "attempts_at i (sample_monitor w) = []"
  by (simp_all add: monitor_wf_def known_def mo_worker_def worker_def sample_monitor_def attempts_at_def del: mo_worker_folds)

lemma crash_tick_slot:
  assumes "monitor_wf m" "j < length (procs_of m)"
  shows "slot j (snd (monitor_workers p (crash_tick now) m)) = retry_step p now Dead (slot j m)"
  using monitor_slot[OF assms, of p "crash_tick now"] by (simp add: crash_tick_def sighting_of_def)

theorem monitor_refines_retry_witness:
  "slot 0 (snd (monitor_workers default_policy (crash_tick 5) (sample_monitor (new_worker ''w'' 0)))) =
     \<lparr>rt_restarts = 0, rt_due = Some 6, rt_exhausted = False, rt_log = []\<rparr>"
  using monitor_refines_retry[of "sample_monitor (new_worker ''w'' 0)" 0 default_policy "crash_tick 5"]
  by (simp add: crash_tick_def sighting_of_def retry_step_def slot_def retry_of_def new_worker_def policy_delay_def
      backoff_delay_def default_policy_def RESTART_MAX_ATTEMPTS_def RESTART_BASE_DELAY_S_def RESTART_MAX_DELAY_S_def Let_def)


theorem exhaustion_is_final_witness:
  "slot 0 (monitor_run default_policy [crash_tick 5, crash_tick 600]
       (sample_monitor ((new_worker ''w'' 0)\<lparr>w_restarts := 8, w_exhausted := True\<rparr>))) =
     \<lparr>rt_restarts = 8, rt_due = None, rt_exhausted = True, rt_log = []\<rparr>"
  by (subst exhaustion_is_final) (simp_all add: slot_def retry_of_def new_worker_def)

end
