(* ===== verification/Command_Channel.thy ===== *)
theory Command_Channel
  imports Restart_Policy
begin

text \<open>
  The command channel under concurrency. Senders (IPC threads), the reader thread of each incarnation, the
  monitor thread and the thread that stops the daemon interleave; each step below is one critical section of
  \<^verbatim>\<open>inspectord/supervisor.py\<close>, given by the operation of the theory of the workers that models it.

  \<open>co_senders\<close> is the local state of each call of \<^verbatim>\<open>send_worker_command\<close>, keyed by its request id;
  \<open>co_replies\<close>, \<open>co_heard\<close> and \<open>co_swept\<close> record what the calls returned, which verdicts were read on which pipe,
  and which incarnations the stopping thread has swept.
\<close>

datatype sender = Looked nat | Registered nat | Waiting nat | Answered "nat option"

record comms =
  co_ch :: channel
  co_senders :: "(string, sender) table"
  co_replies :: "(string \<times> command_reply) list"
  co_heard :: "(nat \<times> string \<times> command_reply) list"
  co_swept :: "nat list"

definition advance :: "string \<Rightarrow> sender \<Rightarrow> channel \<Rightarrow> comms \<Rightarrow> comms" where
  "advance rid s ch c = c\<lparr>co_ch := ch, co_senders := AList.update rid s (co_senders c)\<rparr>"

definition answer :: "string \<Rightarrow> nat option \<Rightarrow> command_reply \<Rightarrow> channel \<Rightarrow> comms \<Rightarrow> comms" where
  "answer rid inc r ch c =
     (advance rid (Answered inc) ch c)\<lparr>co_replies := (rid, r) # co_replies c\<rparr>"

definition known_incs :: "channel \<Rightarrow> nat set" where
  "known_incs ch = dom (map_of (ch_workers ch))"

inductive comms_step :: "(pyval \<Rightarrow> string) \<Rightarrow> comms \<Rightarrow> comms \<Rightarrow> bool" for ostr where
  step_lookup: "map_of (co_senders c) rid = None \<Longrightarrow> send_lookup name (co_ch c) = Inr inc \<Longrightarrow>
     comms_step ostr c (advance rid (Looked inc) (co_ch c) c)"
| step_refuse: "map_of (co_senders c) rid = None \<Longrightarrow> send_lookup name (co_ch c) = Inl r \<Longrightarrow>
     comms_step ostr c (answer rid None r (co_ch c) c)"
| step_register: "map_of (co_senders c) rid = Some (Looked inc) \<Longrightarrow> send_register rid inc (co_ch c) = Inr ch \<Longrightarrow>
     comms_step ostr c (advance rid (Registered inc) ch c)"
| step_overflow: "map_of (co_senders c) rid = Some (Looked inc) \<Longrightarrow> send_register rid inc (co_ch c) = Inl r \<Longrightarrow>
     comms_step ostr c (answer rid (Some inc) r (co_ch c) c)"
| step_write: "map_of (co_senders c) rid = Some (Registered inc) \<Longrightarrow> send_write writable rid inc (co_ch c) = (None, ch) \<Longrightarrow>
     comms_step ostr c (advance rid (Waiting inc) ch c)"
| step_unwritable: "map_of (co_senders c) rid = Some (Registered inc) \<Longrightarrow> send_write writable rid inc (co_ch c) = (Some r, ch) \<Longrightarrow>
     comms_step ostr c (answer rid (Some inc) r ch c)"
| step_wake: "map_of (co_senders c) rid = Some (Waiting inc) \<Longrightarrow> send_wake rid inc (co_ch c) = (r, ch) \<Longrightarrow>
     comms_step ostr c (answer rid (Some inc) r ch c)"
| step_result: "inc \<in> known_incs (co_ch c) \<Longrightarrow> command_verdict ostr e = Some (rid, v) \<Longrightarrow>
     comms_step ostr c (c\<lparr>co_ch := fulfill_command_result ostr inc e (co_ch c), co_heard := (inc, rid, v) # co_heard c\<rparr>)"
| step_died: "inc \<in> known_incs (co_ch c) \<Longrightarrow> comms_step ostr c (c\<lparr>co_ch := fail_pending inc Worker_died (co_ch c)\<rparr>)"
| step_stop: "comms_step ostr c (c\<lparr>co_ch := (co_ch c)\<lparr>ch_stop := True\<rparr>\<rparr>)"
| step_sweep: "ch_stop (co_ch c) \<Longrightarrow> inc \<in> set (ch_procs (co_ch c)) \<Longrightarrow>
     comms_step ostr c (c\<lparr>co_ch := fail_pending inc (Unavailable ''shutting_down'') (co_ch c), co_swept := inc # co_swept c\<rparr>)"
| step_respawn: "i < length (ch_procs (co_ch c)) \<Longrightarrow> k = next_inc (co_ch c) \<Longrightarrow>
     comms_step ostr c (c\<lparr>co_ch := (set_worker k ((new_worker name started)\<lparr>w_restarts := attempt\<rparr>) (co_ch c))
        \<lparr>ch_procs := (ch_procs (co_ch c))[i := k]\<rparr>\<rparr>)"

inductive_cases comms_step_cases: "comms_step ostr c c'"

section \<open>Invariants\<close>

definition inc_of :: "sender \<Rightarrow> nat option" where
  "inc_of s = (case s of Looked i \<Rightarrow> Some i | Registered i \<Rightarrow> Some i | Waiting i \<Rightarrow> Some i | Answered i \<Rightarrow> i)"

fun verdict :: "command_reply \<Rightarrow> bool" where
  "verdict (Accepted d) = True"
| "verdict (Rejected d) = True"
| "verdict _ = False"

definition in_flight :: "sender option \<Rightarrow> nat \<Rightarrow> bool" where
  "in_flight s inc \<longleftrightarrow> s = Some (Registered inc) \<or> s = Some (Waiting inc)"

text \<open>The worker list and the stores are well formed, and every pending entry belongs to a call that registered
  with that incarnation.\<close>

definition channel_inv :: "comms \<Rightarrow> bool" where
  "channel_inv c \<longleftrightarrow>
     set (ch_procs (co_ch c)) \<subseteq> known_incs (co_ch c)
     \<and> (\<forall>rid s inc. map_of (co_senders c) rid = Some s \<and> inc_of s = Some inc \<longrightarrow> inc \<in> known_incs (co_ch c))
     \<and> (\<forall>inc\<in>known_incs (co_ch c). length (w_pending (worker (co_ch c) inc)) \<le> MAX_INFLIGHT_COMMANDS_PER_WORKER
          \<and> (\<forall>rid\<in>set (w_pending (worker (co_ch c) inc)). in_flight (map_of (co_senders c) rid) inc))
     \<and> (\<forall>rid. map_of (ch_entries (co_ch c)) rid \<noteq> None \<longrightarrow>
          (\<exists>s. map_of (co_senders c) rid = Some s \<and> (\<forall>i. s \<noteq> Looked i)))"

text \<open>A call in flight has an entry that is still pending or already fulfilled.\<close>

definition flight_ok :: "comms \<Rightarrow> string \<Rightarrow> nat \<Rightarrow> bool" where
  "flight_ok c rid inc \<longleftrightarrow>
     (case map_of (ch_entries (co_ch c)) rid of
        None \<Rightarrow> False
      | Some pc \<Rightarrow> (pc_set pc \<or> rid \<in> set (w_pending (worker (co_ch c) inc)))
          \<and> (map_of (co_senders c) rid = Some (Waiting inc) \<and> inc \<in> set (co_swept c) \<longrightarrow> pc_set pc))"

definition entry_inv :: "comms \<Rightarrow> bool" where
  "entry_inv c \<longleftrightarrow> (\<forall>rid inc. in_flight (map_of (co_senders c) rid) inc \<longrightarrow> flight_ok c rid inc)
     \<and> (co_swept c \<noteq> [] \<longrightarrow> ch_stop (co_ch c))"

text \<open>A verdict in an entry or a reply was read on the pipe of the incarnation the call registered with.\<close>

definition heard_by :: "comms \<Rightarrow> string \<Rightarrow> command_reply \<Rightarrow> bool" where
  "heard_by c rid v \<longleftrightarrow>
     (\<exists>s inc. map_of (co_senders c) rid = Some s \<and> inc_of s = Some inc \<and> (inc, rid, v) \<in> set (co_heard c))"

definition verdict_inv :: "comms \<Rightarrow> bool" where
  "verdict_inv c \<longleftrightarrow>
     (\<forall>rid pc. map_of (ch_entries (co_ch c)) rid = Some pc \<and> verdict (pc_result pc) \<longrightarrow> heard_by c rid (pc_result pc))
     \<and> (\<forall>rid r. (rid, r) \<in> set (co_replies c) \<longrightarrow>
          (\<exists>i. map_of (co_senders c) rid = Some (Answered i)) \<and> (verdict r \<longrightarrow> heard_by c rid r))
     \<and> distinct (map fst (co_replies c))"

section \<open>Effects on the channel\<close>

named_theorems channel_effects \<open>what the operations do to the stores\<close>

lemma set_worker_effect [channel_effects]:
  "worker (set_worker inc w ch) x = (if x = inc then w else worker ch x)"
  "known_incs (set_worker inc w ch) = insert inc (known_incs ch)"
  "ch_procs (set_worker inc w ch) = ch_procs ch" "ch_entries (set_worker inc w ch) = ch_entries ch"
  "ch_stop (set_worker inc w ch) = ch_stop ch"
  by (auto simp: known_incs_def set_worker_def worker_def table_simps)

lemma worker_frame [channel_effects]:
  "worker (ch\<lparr>ch_entries := es\<rparr>) x = worker ch x" "worker (ch\<lparr>ch_stop := b\<rparr>) x = worker ch x"
  "worker (ch\<lparr>ch_procs := ps\<rparr>) x = worker ch x" "known_incs (ch\<lparr>ch_entries := es\<rparr>) = known_incs ch"
  "known_incs (ch\<lparr>ch_stop := b\<rparr>) = known_incs ch" "known_incs (ch\<lparr>ch_procs := ps\<rparr>) = known_incs ch"
  by (simp_all add: worker_def known_incs_def)

lemma register_effect [channel_effects]:
  assumes "send_register rid inc ch = Inr ch'"
  shows "w_pending (worker ch' x) = (if x = inc then w_pending (worker ch inc) @ [rid] else w_pending (worker ch x))"
    "map_of (ch_entries ch') = (map_of (ch_entries ch))(rid \<mapsto> new_pending)"
    "known_incs ch' = insert inc (known_incs ch)" "ch_procs ch' = ch_procs ch" "ch_stop ch' = ch_stop ch"
    "length (w_pending (worker ch inc)) < MAX_INFLIGHT_COMMANDS_PER_WORKER"
  using assms by (auto simp: send_register_def Let_def channel_effects split: if_splits)

lemma unregister_effect [channel_effects]:
  "w_pending (worker (unregister rid inc ch) x) =
     (if x = inc then filter (\<lambda>k. k \<noteq> rid) (w_pending (worker ch inc)) else w_pending (worker ch x))"
  "ch_entries (unregister rid inc ch) = ch_entries ch" "known_incs (unregister rid inc ch) = insert inc (known_incs ch)"
  "ch_procs (unregister rid inc ch) = ch_procs ch" "ch_stop (unregister rid inc ch) = ch_stop ch"
  by (simp_all add: unregister_def Let_def channel_effects)

lemma send_write_effect:
  assumes "send_write writable rid inc ch = (r, ch')"
  shows "if r = None then ch' = ch \<and> \<not> ch_stop ch else ch' = unregister rid inc ch \<and> \<not> verdict (the r)"
  using assms by (auto simp: send_write_def split: if_splits)

lemma fail_pending_effect [channel_effects]:
  "w_pending (worker (fail_pending inc r ch) x) = (if x = inc then [] else w_pending (worker ch x))"
  "map_of (ch_entries (fail_pending inc r ch)) k =
     map_option (\<lambda>pc. if k \<in> set (w_pending (worker ch inc)) then fulfill r pc else pc) (map_of (ch_entries ch) k)"
  "ch_stop (fail_pending inc r ch) = ch_stop ch" "known_incs (fail_pending inc r ch) = insert inc (known_incs ch)"
  by (simp_all add: fail_pending_def Let_def channel_effects table_simps)

lemma fulfill_effect [channel_effects]:
  assumes "command_verdict ostr e = Some (rid, v)"
  shows "worker (fulfill_command_result ostr inc e ch) x = worker ch x"
    "map_of (ch_entries (fulfill_command_result ostr inc e ch)) k =
       map_option (\<lambda>pc. if k = rid \<and> rid \<in> set (w_pending (worker ch inc)) then fulfill v pc else pc) (map_of (ch_entries ch) k)"
    "known_incs (fulfill_command_result ostr inc e ch) = known_incs ch"
    "ch_procs (fulfill_command_result ostr inc e ch) = ch_procs ch" "ch_stop (fulfill_command_result ostr inc e ch) = ch_stop ch"
  using assms
  by (auto simp: fulfill_command_result_def update_entry_def channel_effects table_simps option.map_ident)

lemma advance_simps [simp]:
  "co_ch (advance rid s ch c) = ch" "map_of (co_senders (advance rid s ch c)) = (map_of (co_senders c))(rid \<mapsto> s)"
  "co_replies (advance rid s ch c) = co_replies c" "co_heard (advance rid s ch c) = co_heard c"
  "co_swept (advance rid s ch c) = co_swept c"
  by (simp_all add: advance_def table_simps)

lemma answer_simps [simp]:
  "co_ch (answer rid i r ch c) = ch" "map_of (co_senders (answer rid i r ch c)) = (map_of (co_senders c))(rid \<mapsto> Answered i)"
  "co_replies (answer rid i r ch c) = (rid, r) # co_replies c" "co_heard (answer rid i r ch c) = co_heard c"
  "co_swept (answer rid i r ch c) = co_swept c"
  by (simp_all add: answer_def)

lemma next_inc_new: "next_inc ch \<notin> known_incs ch"
  using next_inc_fresh[of "\<lparr>mo_channel = ch, mo_daemon = d, mo_attempts = []\<rparr>" for d] by (simp add: known_def known_incs_def)

lemma send_lookup_procs: "send_lookup name ch = Inr inc \<Longrightarrow> inc \<in> set (ch_procs ch)"
  by (auto simp: send_lookup_def find_worker_def find_Some_iff split: if_splits option.splits)

lemma send_lookup_verdict: "send_lookup name ch = Inl r \<Longrightarrow> \<not> verdict r"
  by (auto simp: send_lookup_def split: if_splits option.splits)

lemma send_register_verdict: "send_register rid inc ch = Inl r \<Longrightarrow> \<not> verdict r"
  by (auto simp: send_register_def Let_def split: if_splits)

section \<open>Preservation\<close>

lemma channel_invD:
  assumes "channel_inv c"
  shows "set (ch_procs (co_ch c)) \<subseteq> known_incs (co_ch c)"
    "map_of (co_senders c) rid = Some s \<Longrightarrow> inc_of s = Some inc \<Longrightarrow> inc \<in> known_incs (co_ch c)"
    "inc \<in> known_incs (co_ch c) \<Longrightarrow> length (w_pending (worker (co_ch c) inc)) \<le> MAX_INFLIGHT_COMMANDS_PER_WORKER"
    "inc \<in> known_incs (co_ch c) \<Longrightarrow> rid \<in> set (w_pending (worker (co_ch c) inc)) \<Longrightarrow> in_flight (map_of (co_senders c) rid) inc"
    "map_of (ch_entries (co_ch c)) rid = Some pc \<Longrightarrow> \<exists>s. map_of (co_senders c) rid = Some s \<and> (\<forall>i. s \<noteq> Looked i)"
  using assms unfolding channel_inv_def by blast+

lemma channel_invI:
  assumes "set (ch_procs (co_ch c)) \<subseteq> known_incs (co_ch c)"
    "\<And>rid s inc. map_of (co_senders c) rid = Some s \<Longrightarrow> inc_of s = Some inc \<Longrightarrow> inc \<in> known_incs (co_ch c)"
    "\<And>inc. inc \<in> known_incs (co_ch c) \<Longrightarrow> length (w_pending (worker (co_ch c) inc)) \<le> MAX_INFLIGHT_COMMANDS_PER_WORKER"
    "\<And>inc rid. inc \<in> known_incs (co_ch c) \<Longrightarrow> rid \<in> set (w_pending (worker (co_ch c) inc)) \<Longrightarrow> in_flight (map_of (co_senders c) rid) inc"
    "\<And>rid pc. map_of (ch_entries (co_ch c)) rid = Some pc \<Longrightarrow> \<exists>s. map_of (co_senders c) rid = Some s \<and> (\<forall>i. s \<noteq> Looked i)"
  shows "channel_inv c"
  using assms unfolding channel_inv_def by blast

lemma in_flight_simps [simp]:
  "in_flight None inc = False" "in_flight (Some (Looked i)) inc = False" "in_flight (Some (Answered a)) inc = False"
  "in_flight (Some (Registered i)) inc = (i = inc)" "in_flight (Some (Waiting i)) inc = (i = inc)"
  by (auto simp: in_flight_def)

lemma inc_of_simps [simp]:
  "inc_of (Looked i) = Some i" "inc_of (Registered i) = Some i" "inc_of (Waiting i) = Some i" "inc_of (Answered a) = a"
  by (simp_all add: inc_of_def)

text \<open>The two changes several steps share: a call that leaves through its \<^verbatim>\<open>finally\<close>, and a sweep.\<close>

lemma answered_inv:
  assumes "channel_inv c" "map_of (co_senders c) rid = Some s" "in_flight (Some s) inc"
  shows "channel_inv (answer rid (Some inc) r (unregister rid inc (co_ch c)) c)"
proof -
  have k: "inc \<in> known_incs (co_ch c)" using channel_invD(2)[OF assms(1,2)] assms(3) by (cases s) auto
  moreover have "i = inc" if "i \<in> known_incs (co_ch c)" "rid \<in> set (w_pending (worker (co_ch c) i))" for i
    using channel_invD(4)[OF assms(1) that] assms(2,3) by (cases s) auto
  moreover have "length (filter (\<lambda>k. k \<noteq> rid) (w_pending (worker (co_ch c) inc))) \<le> MAX_INFLIGHT_COMMANDS_PER_WORKER"
    using channel_invD(3)[OF assms(1) k] length_filter_le order_trans by blast
  ultimately show ?thesis using channel_invD[OF assms(1)]
    by (intro channel_invI) (auto simp: channel_effects split: if_splits)
qed

lemma fail_pending_inv:
  assumes "channel_inv c" "inc \<in> known_incs (co_ch c)"
  shows "channel_inv (c\<lparr>co_ch := fail_pending inc r (co_ch c)\<rparr>)"
  using channel_invD[OF assms(1)] assms(2) by (intro channel_invI) (auto simp: channel_effects split: if_splits)

lemma channel_inv_step:
  assumes "comms_step ostr c c'" "channel_inv c"
  shows "channel_inv c'"
  using assms(1)
proof (cases rule: comms_step.cases)
  case (step_lookup rid name inc)
  have "inc \<in> known_incs (co_ch c)" using send_lookup_procs[OF step_lookup(3)] channel_invD(1)[OF assms(2)] by blast
  moreover have "map_of (ch_entries (co_ch c)) rid = None" using channel_invD(5)[OF assms(2), of rid] step_lookup(2) by fastforce
  moreover have "rid \<notin> set (w_pending (worker (co_ch c) i))" if "i \<in> known_incs (co_ch c)" for i
    using channel_invD(4)[OF assms(2) that, of rid] step_lookup(2) by auto
  ultimately show ?thesis using step_lookup channel_invD[OF assms(2)]
    by (intro channel_invI) (auto split: if_splits)
next
  case (step_refuse rid name r)
  have "map_of (ch_entries (co_ch c)) rid = None" using channel_invD(5)[OF assms(2), of rid] step_refuse(2) by fastforce
  moreover have "rid \<notin> set (w_pending (worker (co_ch c) i))" if "i \<in> known_incs (co_ch c)" for i
    using channel_invD(4)[OF assms(2) that, of rid] step_refuse(2) by auto
  ultimately show ?thesis using step_refuse channel_invD[OF assms(2)]
    by (intro channel_invI) (auto split: if_splits)
next
  case (step_register rid inc ch)
  have "inc \<in> known_incs (co_ch c)" using channel_invD(2)[OF assms(2) step_register(2)] by simp
  moreover have "rid \<notin> set (w_pending (worker (co_ch c) i))" if "i \<in> known_incs (co_ch c)" for i
    using channel_invD(4)[OF assms(2) that, of rid] step_register(2) by auto
  ultimately show ?thesis using step_register channel_invD[OF assms(2)] register_effect[OF step_register(3)]
    by (intro channel_invI) (auto split: if_splits)
next
  case (step_overflow rid inc r)
  have "inc \<in> known_incs (co_ch c)" using channel_invD(2)[OF assms(2) step_overflow(2)] by simp
  moreover have "rid \<notin> set (w_pending (worker (co_ch c) i))" if "i \<in> known_incs (co_ch c)" for i
    using channel_invD(4)[OF assms(2) that, of rid] step_overflow(2) by auto
  ultimately show ?thesis using step_overflow channel_invD[OF assms(2)]
    by (intro channel_invI) (auto split: if_splits)
next
  case (step_write rid inc writable ch)
  have "ch = co_ch c" using send_write_effect[OF step_write(3)] by simp
  moreover have "inc \<in> known_incs (co_ch c)" using channel_invD(2)[OF assms(2) step_write(2)] by simp
  moreover have "i = inc" if "i \<in> known_incs (co_ch c)" "rid \<in> set (w_pending (worker (co_ch c) i))" for i
    using channel_invD(4)[OF assms(2) that] step_write(2) by auto
  ultimately show ?thesis using step_write channel_invD[OF assms(2)]
    by (intro channel_invI) (auto split: if_splits)
next
  case (step_unwritable rid inc writable r ch)
  have "ch = unregister rid inc (co_ch c)" using send_write_effect[OF step_unwritable(3)] by simp
  then show ?thesis using answered_inv[OF assms(2) step_unwritable(2)] step_unwritable by simp
next
  case (step_wake rid inc r ch)
  have "ch = unregister rid inc (co_ch c)" using step_wake(3) by (simp add: send_wake_def)
  then show ?thesis using answered_inv[OF assms(2) step_wake(2)] step_wake by simp
next
  case (step_result inc e rid v)
  then show ?thesis using channel_invD[OF assms(2)] fulfill_effect[OF step_result(3)]
    by (intro channel_invI) auto
next
  case (step_died inc)
  then show ?thesis using fail_pending_inv[OF assms(2)] by simp
next
  case step_stop
  then show ?thesis using channel_invD[OF assms(2)] by (intro channel_invI) (auto simp: channel_effects)
next
  case (step_sweep inc)
  then have "inc \<in> known_incs (co_ch c)" using channel_invD(1)[OF assms(2)] by blast
  from fail_pending_inv[OF assms(2) this] step_sweep show ?thesis by (simp add: channel_inv_def)
next
  case (step_respawn i k name started attempt)
  have "set ((ch_procs (co_ch c))[i := k]) \<subseteq> insert k (known_incs (co_ch c))"
    using set_update_subset_insert[of "ch_procs (co_ch c)" i k] channel_invD(1)[OF assms(2)] by blast
  then show ?thesis using step_respawn channel_invD[OF assms(2)] next_inc_new[of "co_ch c"]
    by (intro channel_invI) (auto simp: channel_effects new_worker_def split: if_splits)
qed

lemma pc_set_fulfill [simp]: "pc_set (fulfill r pc)"
  by (simp add: fulfill_def)

lemma entry_inv_step:
  assumes "comms_step ostr c c'" "channel_inv c" "entry_inv c"
  shows "entry_inv c'"
proof -
  have old: "flight_ok c rid inc" if "in_flight (map_of (co_senders c) rid) inc" for rid inc
    using assms(3) that by (simp add: entry_inv_def)
  have sw: "co_swept c \<noteq> [] \<longrightarrow> ch_stop (co_ch c)" using assms(3) by (simp add: entry_inv_def)
  from assms(1) show ?thesis
  proof (cases rule: comms_step.cases)
    case (step_lookup rid name inc)
    have "flight_ok c' k i" if "in_flight (map_of (co_senders c') k) i" for k i
      using old[of k i] that step_lookup(1) by (cases "k = rid") (auto simp: flight_ok_def split: option.splits)
    then show ?thesis using sw step_lookup(1) by (simp add: entry_inv_def)
  next
    case (step_refuse rid name r)
    have "flight_ok c' k i" if "in_flight (map_of (co_senders c') k) i" for k i
      using old[of k i] that step_refuse(1) by (cases "k = rid") (auto simp: flight_ok_def split: option.splits)
    then show ?thesis using sw step_refuse(1) by (simp add: entry_inv_def)
  next
    case (step_register rid inc ch)
    have "flight_ok c' rid inc" unfolding step_register(1) flight_ok_def
      by (simp add: register_effect[OF step_register(3)] new_pending_def)
    moreover have "flight_ok c' k i" if "k \<noteq> rid" "in_flight (map_of (co_senders c) k) i" for k i
      using old[OF that(2)] that(1) unfolding flight_ok_def step_register(1) by (auto simp: register_effect[OF step_register(3)] split: option.splits)
    ultimately show ?thesis unfolding entry_inv_def
      using sw by (auto simp: step_register(1) register_effect[OF step_register(3)])
  next
    case (step_overflow rid inc r)
    have "flight_ok c' k i" if "in_flight (map_of (co_senders c') k) i" for k i
      using old[of k i] that step_overflow(1) by (cases "k = rid") (auto simp: flight_ok_def split: option.splits)
    then show ?thesis using sw step_overflow(1) by (simp add: entry_inv_def)
  next
    case (step_write rid inc writable ch)
    have e: "ch = co_ch c" "\<not> ch_stop (co_ch c)" using send_write_effect[OF step_write(3)] by auto
    then have none: "co_swept c = []" using sw by auto
    have "flight_ok c' k i" if "in_flight (map_of (co_senders c') k) i" for k i
    proof -
      have "in_flight (map_of (co_senders c) k) i" using that step_write(1,2) by (cases "k = rid") simp_all
      then show ?thesis using old[of k i] none e(1) step_write(1) by (auto simp: flight_ok_def split: option.splits)
    qed
    then show ?thesis using none step_write(1) by (simp add: entry_inv_def)
  next
    case (step_unwritable rid inc writable r ch)
    have ch: "ch = unregister rid inc (co_ch c)" using send_write_effect[OF step_unwritable(3)] by simp
    have "flight_ok c' k i" if "in_flight (map_of (co_senders c') k) i" for k i
      using old[of k i] that step_unwritable(1) by (cases "k = rid") (auto simp: flight_ok_def ch channel_effects split: option.splits)
    then show ?thesis using sw step_unwritable(1) by (simp add: entry_inv_def ch channel_effects)
  next
    case (step_wake rid inc r ch)
    have ch: "ch = unregister rid inc (co_ch c)" using step_wake(3) by (simp add: send_wake_def)
    have "flight_ok c' k i" if "in_flight (map_of (co_senders c') k) i" for k i
      using old[of k i] that step_wake(1) by (cases "k = rid") (auto simp: flight_ok_def ch channel_effects split: option.splits)
    then show ?thesis using sw step_wake(1) by (simp add: entry_inv_def ch channel_effects)
  next
    case (step_result inc e rid v)
    have "flight_ok c' k i" if "in_flight (map_of (co_senders c) k) i" for k i
      using old[OF that] unfolding flight_ok_def step_result(1) by (auto simp: fulfill_effect[OF step_result(3)] split: option.splits)
    then show ?thesis using sw step_result(1) by (simp add: entry_inv_def fulfill_effect[OF step_result(3)])
  next
    case (step_died inc)
    have "flight_ok c' k i" if "in_flight (map_of (co_senders c) k) i" for k i
      using old[OF that] unfolding flight_ok_def step_died(1) by (auto simp: channel_effects split: option.splits)
    then show ?thesis using sw step_died(1) by (simp add: entry_inv_def channel_effects)
  next
    case step_stop
    have "flight_ok c' k i" if "in_flight (map_of (co_senders c) k) i" for k i
      using old[OF that] unfolding flight_ok_def step_stop by (auto simp: channel_effects split: option.splits)
    then show ?thesis using step_stop by (simp add: entry_inv_def)
  next
    case (step_sweep inc)
    have "flight_ok c' k i" if "in_flight (map_of (co_senders c) k) i" for k i
      using old[OF that] unfolding flight_ok_def step_sweep(1) by (auto simp: channel_effects split: option.splits)
    then show ?thesis using step_sweep by (simp add: entry_inv_def channel_effects)
  next
    case (step_respawn i k name started attempt)
    have new: "j \<noteq> k" if f: "in_flight (map_of (co_senders c) x) j" for x j
    proof -
      from f obtain s where "map_of (co_senders c) x = Some s" "inc_of s = Some j"
        by (auto simp: in_flight_def)
      then show ?thesis using channel_invD(2)[OF assms(2)] next_inc_new[of "co_ch c"] step_respawn(3) by blast
    qed
    have "flight_ok c' x j" if "in_flight (map_of (co_senders c) x) j" for x j
      using old[OF that] new[OF that] unfolding flight_ok_def step_respawn(1) by (auto simp: channel_effects split: option.splits)
    then show ?thesis using sw step_respawn(1) by (simp add: entry_inv_def channel_effects)
  qed
qed

text \<open>The calls may move on and more may be heard; a verdict that was heard by its incarnation stays so.\<close>

lemma heard_by_advance:
  assumes "heard_by c rid v" "\<And>s. map_of (co_senders c) k = Some s \<Longrightarrow> inc_of s' = inc_of s"
    "map_of (co_senders c') = (map_of (co_senders c))(k \<mapsto> s')" "set (co_heard c) \<subseteq> set (co_heard c')"
  shows "heard_by c' rid v"
  using assms unfolding heard_by_def by (cases "rid = k") fastforce+

lemma verdict_inv_advance:
  assumes "verdict_inv c" "\<And>s. map_of (co_senders c) k = Some s \<Longrightarrow> inc_of s' = inc_of s \<and> (\<forall>i. s \<noteq> Answered i)"
    "map_of (co_senders c') = (map_of (co_senders c))(k \<mapsto> s')" "co_heard c' = co_heard c"
    "\<And>rid pc. map_of (ch_entries (co_ch c')) rid = Some pc \<Longrightarrow> verdict (pc_result pc) \<Longrightarrow> map_of (ch_entries (co_ch c)) rid = Some pc"
    "co_replies c' = co_replies c \<or> (\<exists>r i. co_replies c' = (k, r) # co_replies c \<and> s' = Answered i \<and> (verdict r \<longrightarrow> heard_by c k r))"
  shows "verdict_inv c'"
proof -
  have h: "heard_by c' rid v" if "heard_by c rid v" for rid v
    by (rule heard_by_advance[OF that, of k s']) (use assms(2-4) in auto)
  have k: "rid \<noteq> k" if "(rid, r) \<in> set (co_replies c)" for rid r
    using that assms(1,2) unfolding verdict_inv_def by blast
  then have fresh: "k \<notin> fst ` set (co_replies c)" by force
  have "\<forall>rid pc. map_of (ch_entries (co_ch c')) rid = Some pc \<and> verdict (pc_result pc) \<longrightarrow> heard_by c' rid (pc_result pc)"
    using assms(1,5) h unfolding verdict_inv_def by blast
  moreover have "(\<exists>i. map_of (co_senders c') rid = Some (Answered i)) \<and> (verdict r \<longrightarrow> heard_by c' rid r)"
    if "(rid, r) \<in> set (co_replies c')" for rid r
  proof (cases "(rid, r) \<in> set (co_replies c)")
    case True
    then show ?thesis using assms(1,3) h k[OF True] unfolding verdict_inv_def by auto
  next
    case False
    then show ?thesis using that assms(3,6) h by auto
  qed
  moreover have "distinct (map fst (co_replies c'))"
    using assms(1,6) fresh unfolding verdict_inv_def by auto
  ultimately show ?thesis unfolding verdict_inv_def by blast
qed

lemma verdict_inv_entries:
  assumes "verdict_inv c" "co_senders c' = co_senders c" "co_replies c' = co_replies c" "set (co_heard c) \<subseteq> set (co_heard c')"
    "\<And>rid pc. map_of (ch_entries (co_ch c')) rid = Some pc \<Longrightarrow> verdict (pc_result pc) \<Longrightarrow>
       map_of (ch_entries (co_ch c)) rid = Some pc \<or> heard_by c' rid (pc_result pc)"
  shows "verdict_inv c'"
proof -
  have h: "heard_by c' rid v" if "heard_by c rid v" for rid v
    using that assms(2,4) unfolding heard_by_def by auto
  then show ?thesis using assms unfolding verdict_inv_def by metis
qed

lemma verdict_inv_step:
  assumes "comms_step ostr c c'" "channel_inv c" "entry_inv c" "verdict_inv c"
  shows "verdict_inv c'"
  using assms(1)
proof (cases rule: comms_step.cases)
  case (step_lookup rid name inc)
  then show ?thesis by (intro verdict_inv_advance[OF assms(4), of rid "Looked inc"]) simp_all
next
  case (step_refuse rid name r)
  then show ?thesis using send_lookup_verdict[OF step_refuse(3)]
    by (intro verdict_inv_advance[OF assms(4), of rid "Answered None"]) auto
next
  case (step_register rid inc ch)
  then show ?thesis using register_effect(2)[OF step_register(3)]
    by (intro verdict_inv_advance[OF assms(4), of rid "Registered inc"]) (auto simp: new_pending_def split: if_splits)
next
  case (step_overflow rid inc r)
  then show ?thesis using send_register_verdict[OF step_overflow(3)]
    by (intro verdict_inv_advance[OF assms(4), of rid "Answered (Some inc)"]) auto
next
  case (step_write rid inc writable ch)
  then show ?thesis using send_write_effect[OF step_write(3)]
    by (intro verdict_inv_advance[OF assms(4), of rid "Waiting inc"]) auto
next
  case (step_unwritable rid inc writable r ch)
  then show ?thesis using send_write_effect[OF step_unwritable(3)]
    by (intro verdict_inv_advance[OF assms(4), of rid "Answered (Some inc)"]) (auto simp: channel_effects)
next
  case (step_wake rid inc r ch)
  have "flight_ok c rid inc" using assms(3) step_wake(2) by (simp add: entry_inv_def)
  then obtain pc where pc: "map_of (ch_entries (co_ch c)) rid = Some pc" by (auto simp: flight_ok_def split: option.splits)
  then have "r = pc_result pc" "ch = unregister rid inc (co_ch c)" using step_wake(3) by (simp_all add: send_wake_def)
  moreover have "verdict (pc_result pc) \<longrightarrow> heard_by c rid (pc_result pc)" using assms(4) pc by (simp add: verdict_inv_def)
  ultimately show ?thesis using step_wake(1,2)
    by (intro verdict_inv_advance[OF assms(4), of rid "Answered (Some inc)"]) (auto simp: channel_effects)
next
  case (step_result inc e rid v)
  have "heard_by c' rid v" if "rid \<in> set (w_pending (worker (co_ch c) inc))"
    using channel_invD(4)[OF assms(2) step_result(2) that] unfolding heard_by_def in_flight_def step_result(1) by auto
  then show ?thesis using step_result(1) fulfill_effect(2)[OF step_result(3), of inc "co_ch c"]
    by (intro verdict_inv_entries[OF assms(4)]) (auto simp: fulfill_def split: if_splits)
next
  case (step_died inc)
  then show ?thesis
    by (intro verdict_inv_entries[OF assms(4)]) (auto simp: channel_effects fulfill_def split: if_splits)
next
  case step_stop
  then show ?thesis by (intro verdict_inv_entries[OF assms(4)]) auto
next
  case (step_sweep inc)
  then show ?thesis
    by (intro verdict_inv_entries[OF assms(4)]) (auto simp: channel_effects fulfill_def split: if_splits)
next
  case (step_respawn i k name started attempt)
  then show ?thesis by (intro verdict_inv_entries[OF assms(4)]) (auto simp: channel_effects)
qed

section \<open>What a caller can rely on\<close>

definition comms_init :: "channel \<Rightarrow> bool" where
  "comms_init ch \<longleftrightarrow> set (ch_procs ch) \<subseteq> known_incs ch \<and> ch_entries ch = []
     \<and> (\<forall>inc\<in>known_incs ch. w_pending (worker ch inc) = [])"

definition comms_start :: "channel \<Rightarrow> comms" where
  "comms_start ch = \<lparr>co_ch = ch, co_senders = [], co_replies = [], co_heard = [], co_swept = []\<rparr>"

lemma comms_steps_snoc:
  "(comms_step ostr)\<^sup>*\<^sup>* a b \<Longrightarrow> comms_step ostr b c \<Longrightarrow> (comms_step ostr)\<^sup>*\<^sup>* a c"
  by (rule rtranclp.rtrancl_into_rtrancl)

lemma comms_reachable_inv:
  assumes "(comms_step ostr)\<^sup>*\<^sup>* (comms_start ch) c" "comms_init ch"
  shows "channel_inv c \<and> entry_inv c \<and> verdict_inv c"
  using assms(1)
proof (induction rule: rtranclp_induct)
  case base
  then show ?case using assms(2)
    by (auto simp: channel_inv_def entry_inv_def verdict_inv_def comms_init_def comms_start_def)
next
  case (step c c')
  then show ?case using channel_inv_step entry_inv_step verdict_inv_step by blast
qed

text \<open>C10: A command verdict is authentic: whatever the interleaving of senders, reader threads, deaths, respawns
  and shutdown, a call of \<^verbatim>\<open>send_worker_command\<close> that returns accepted or rejected registered with one
  incarnation of the worker, and a \<^verbatim>\<open>command_result\<close> with that request id and that verdict was read on that
  incarnation's own pipe; no call is answered twice, and no incarnation ever has more than 32 commands in
  flight.\<close>

theorem command_verdict_authentic:
  assumes "(comms_step ostr)\<^sup>*\<^sup>* (comms_start ch) c" "comms_init ch"
  shows "(\<forall>rid r. (rid, r) \<in> set (co_replies c) \<and> verdict r \<longrightarrow>
            (\<exists>inc. map_of (co_senders c) rid = Some (Answered (Some inc)) \<and> (inc, rid, r) \<in> set (co_heard c)))
         \<and> distinct (map fst (co_replies c))
         \<and> (\<forall>inc\<in>known_incs (co_ch c). length (w_pending (worker (co_ch c) inc)) \<le> MAX_INFLIGHT_COMMANDS_PER_WORKER)"
proof -
  note inv = comms_reachable_inv[OF assms]
  have "\<exists>inc. map_of (co_senders c) rid = Some (Answered (Some inc)) \<and> (inc, rid, r) \<in> set (co_heard c)"
    if reply: "(rid, r) \<in> set (co_replies c)" "verdict r" for rid r
  proof -
    obtain i where "map_of (co_senders c) rid = Some (Answered i)" "heard_by c rid r"
      using inv reply unfolding verdict_inv_def by blast
    then show ?thesis by (auto simp: heard_by_def)
  qed
  then show ?thesis using inv by (auto simp: verdict_inv_def dest: channel_invD(3))
qed

text \<open>Shutdown leaves no caller waiting: once the stopping thread has swept an incarnation, the entry of
  every call that waits on it is fulfilled, so the wait returns at once instead of sitting out its timeout;
  no call can start waiting on it afterwards.\<close>

theorem stop_releases_waiters:
  assumes "(comms_step ostr)\<^sup>*\<^sup>* (comms_start ch) c" "comms_init ch" "inc \<in> set (co_swept c)"
  shows "(\<forall>rid. map_of (co_senders c) rid = Some (Waiting inc) \<longrightarrow>
            (\<exists>pc. map_of (ch_entries (co_ch c)) rid = Some pc \<and> pc_set pc))
         \<and> (\<forall>writable rid. fst (send_write writable rid inc (co_ch c)) = Some (Unavailable ''shutting_down''))"
proof -
  note inv = comms_reachable_inv[OF assms(1,2)]
  have "\<exists>pc. map_of (ch_entries (co_ch c)) rid = Some pc \<and> pc_set pc" if "map_of (co_senders c) rid = Some (Waiting inc)" for rid
  proof -
    have "flight_ok c rid inc" using inv that by (simp add: entry_inv_def)
    then show ?thesis using that assms(3) by (auto simp: flight_ok_def split: option.splits)
  qed
  moreover have "ch_stop (co_ch c)" using inv assms(3) by (auto simp: entry_inv_def)
  ultimately show ?thesis by (simp add: send_write_def)
qed

section \<open>A concrete session\<close>

definition sample_channel :: channel where
  "sample_channel = \<lparr>ch_stop = False, ch_workers = [(1, new_worker ''scanner'' 0)], ch_procs = [1], ch_entries = []\<rparr>"

definition result_event :: "string \<Rightarrow> event" where
  "result_event rid =
     (mk_event 0 ''e'' ''scanner'' ''command_result'' Info)
       \<lparr>ev_raw := Some [(''request_id'', PStr rid), (''status'', PStr ''accepted''), (''detail'', PStr ''ok'')]\<rparr>"

definition no_text :: "pyval \<Rightarrow> string" where
  "no_text v = ''''"

definition busy_channel :: channel where
  "busy_channel =
     \<lparr>ch_stop = False, ch_workers = [(1, (new_worker ''scanner'' 0)\<lparr>w_pending := [''r1'']\<rparr>)], ch_procs = [1],
      ch_entries = [(''r1'', new_pending)]\<rparr>"

definition waiting_session :: comms where
  "waiting_session =
     \<lparr>co_ch = busy_channel, co_senders = [(''r1'', Waiting 1)], co_replies = [], co_heard = [], co_swept = []\<rparr>"

lemma sample_init: "comms_init sample_channel"
  by (simp add: comms_init_def sample_channel_def known_incs_def worker_def new_worker_def)

lemma waiting_session_reachable: "(comms_step ostr)\<^sup>*\<^sup>* (comms_start sample_channel) waiting_session"
proof -
  let ?c0 = "comms_start sample_channel"
  let ?c1 = "advance ''r1'' (Looked 1) sample_channel ?c0"
  let ?c2 = "advance ''r1'' (Registered 1) busy_channel ?c1"
  have "comms_step ostr ?c0 ?c1"
    using comms_step.step_lookup[of ?c0 "''r1''" "''scanner''" 1 ostr]
    by (simp add: comms_start_def send_lookup_def find_worker_def worker_def sample_channel_def new_worker_def)
  moreover have "comms_step ostr ?c1 ?c2"
    using comms_step.step_register[of ?c1 "''r1''" 1 busy_channel ostr]
    by (simp add: advance_def comms_start_def send_register_def set_worker_def worker_def sample_channel_def busy_channel_def
        new_worker_def MAX_INFLIGHT_COMMANDS_PER_WORKER_def Let_def)
  moreover have "comms_step ostr ?c2 (advance ''r1'' (Waiting 1) busy_channel ?c2)"
    using comms_step.step_write[of ?c2 "''r1''" 1 True busy_channel ostr]
    by (simp add: advance_def comms_start_def send_write_def busy_channel_def)
  moreover have "advance ''r1'' (Waiting 1) busy_channel ?c2 = waiting_session"
    by (simp add: advance_def comms_start_def waiting_session_def)
  ultimately show ?thesis by (metis rtranclp.rtrancl_refl rtranclp.rtrancl_into_rtrancl)
qed

theorem command_verdict_authentic_witness:
  "\<exists>c. (comms_step no_text)\<^sup>*\<^sup>* (comms_start sample_channel) c \<and> (''r1'', Accepted ''ok'') \<in> set (co_replies c)
     \<and> (\<exists>inc. map_of (co_senders c) ''r1'' = Some (Answered (Some inc)) \<and> (inc, ''r1'', Accepted ''ok'') \<in> set (co_heard c))"
proof -
  have v: "command_verdict no_text (result_event ''r1'') = Some (''r1'', Accepted ''ok'')"
    by (simp add: command_verdict_def result_event_def py_str_def)
  let ?c4 = "waiting_session\<lparr>co_ch := fulfill_command_result no_text 1 (result_event ''r1'') busy_channel,
      co_heard := [(1, ''r1'', Accepted ''ok'')]\<rparr>"
  have s4: "comms_step no_text waiting_session ?c4"
    using comms_step.step_result[of 1 waiting_session no_text "result_event ''r1''" "''r1''" "Accepted ''ok''"] v
    by (simp add: waiting_session_def busy_channel_def known_incs_def)
  obtain r ch where w: "send_wake ''r1'' 1 (co_ch ?c4) = (r, ch)" by (cases "send_wake ''r1'' 1 (co_ch ?c4)")
  have r: "r = Accepted ''ok''"
    using w fulfill_effect(2)[OF v, of 1 busy_channel "''r1''"]
    by (simp add: send_wake_def) (simp add: busy_channel_def worker_def new_pending_def fulfill_def)
  have s5: "comms_step no_text ?c4 (answer ''r1'' (Some 1) r ch ?c4)"
    using comms_step.step_wake[of ?c4 "''r1''" 1 r ch no_text] w by (simp add: waiting_session_def)
  have reach: "(comms_step no_text)\<^sup>*\<^sup>* (comms_start sample_channel) (answer ''r1'' (Some 1) (Accepted ''ok'') ch ?c4)"
    by (rule comms_steps_snoc, rule comms_steps_snoc, rule waiting_session_reachable, rule s4, rule s5[unfolded r])
  have rep: "(''r1'', Accepted ''ok'') \<in> set (co_replies (answer ''r1'' (Some 1) (Accepted ''ok'') ch ?c4))" by simp
  with command_verdict_authentic[OF reach sample_init] reach show ?thesis by (meson verdict.simps(1))
qed

theorem stop_releases_waiters_witness:
  "\<exists>c pc. (comms_step no_text)\<^sup>*\<^sup>* (comms_start sample_channel) c \<and> 1 \<in> set (co_swept c)
     \<and> map_of (co_senders c) ''r1'' = Some (Waiting 1) \<and> map_of (ch_entries (co_ch c)) ''r1'' = Some pc \<and> pc_set pc"
proof -
  let ?c4 = "waiting_session\<lparr>co_ch := busy_channel\<lparr>ch_stop := True\<rparr>\<rparr>"
  let ?c5 = "?c4\<lparr>co_ch := fail_pending 1 (Unavailable ''shutting_down'') (busy_channel\<lparr>ch_stop := True\<rparr>), co_swept := [1]\<rparr>"
  have s4: "comms_step no_text waiting_session ?c4"
    using comms_step.step_stop[of no_text waiting_session] by (simp add: waiting_session_def)
  have s5: "comms_step no_text ?c4 ?c5"
    using comms_step.step_sweep[of ?c4 1 no_text] by (simp add: waiting_session_def busy_channel_def)
  have reach: "(comms_step no_text)\<^sup>*\<^sup>* (comms_start sample_channel) ?c5"
    by (rule comms_steps_snoc, rule comms_steps_snoc, rule waiting_session_reachable, rule s4, rule s5)
  have "1 \<in> set (co_swept ?c5)" "map_of (co_senders ?c5) ''r1'' = Some (Waiting 1)" by (simp_all add: waiting_session_def)
  with stop_releases_waiters[OF reach sample_init] reach show ?thesis by blast
qed

end
