(* ===== verification/Supervisor.thy ===== *)
theory Supervisor
  imports Command_Channel Persistence Retention Quarantine
begin

text \<open>
  The rest of \<^verbatim>\<open>inspectord/supervisor.py\<close>: start and stop, one monitor tick with its daily duties (verification and
  anchoring of the audit chain, retention), the reader threads of a worker and its heartbeats. The duties work on
  the database, journal and event path of the earlier theories.
\<close>

section \<open>State\<close>

definition AUDIT_TICK_INTERVAL_S :: real where "AUDIT_TICK_INTERVAL_S = 86400"
definition RETENTION_TICK_INTERVAL_S :: real where "RETENTION_TICK_INTERVAL_S = 86400"

record health_row =
  hr_worker :: string
  hr_ts :: real
  hr_events_processed :: int
  hr_queue_depth :: int
  hr_last_error :: pyval
  hr_uptime_s :: real

record supervisor =
  sv_monitor :: monitor
  sv_last_audit :: "real option"
  sv_last_retention :: "real option"
  sv_debris :: debris
  sv_health :: "health_row list"

record supervisor_config =
  sc_policy :: restart_policy
  sc_audit_interval :: real
  sc_retention_interval :: real
  sc_retention_enabled :: bool
  sc_retention :: retention_config

text \<open>What the duties meet: faults outside the model, the clock and fault of the audit append, the retention
  environment, what the journal directory shows and the name of the file of a day.\<close>

record duty_env =
  du_tick :: tick_env
  du_sha :: "string \<Rightarrow> string"
  du_ostr :: "pyval \<Rightarrow> string"
  du_audit_fault :: bool
  du_retention_fault :: bool
  du_append :: audit_call
  du_retention :: retention_env
  du_listing :: "journal \<Rightarrow> directory"
  du_day_name :: "int \<Rightarrow> string"

section \<open>Anchoring the audit chain\<close>

fun chain_fault_value :: "chain_fault \<Rightarrow> string" where
  "chain_fault_value Seq_gap = ''seq_gap''"
| "chain_fault_value Prev_hash_mismatch = ''prev_hash_mismatch''"
| "chain_fault_value Row_hash_mismatch = ''row_hash_mismatch''"
| "chain_fault_value Anchor_mismatch = ''anchor_mismatch''"

definition brief_value :: "row_brief option \<Rightarrow> pyval" where
  "brief_value b =
     (case b of
        None \<Rightarrow> PNone
      | Some r \<Rightarrow> PDict [(''seq'', PInt (rb_seq r)), (''ts'', PStr (rb_ts r)), (''action'', PStr (rb_action r))])"

definition verification_as_dict :: "audit_verification \<Rightarrow> pydict" where
  "verification_as_dict v =
     [(''ok'', PBool (av_ok v)), (''rows'', PInt (int (av_rows v))),
      (''first_bad_seq'', case av_first_bad_seq v of None \<Rightarrow> PNone | Some n \<Rightarrow> PInt n),
      (''reason'', case av_reason v of None \<Rightarrow> PNone | Some r \<Rightarrow> PStr (chain_fault_value r)),
      (''anchor_checked'', PBool (av_anchor_checked v)), (''last_good'', brief_value (av_last_good v)),
      (''first_bad'', brief_value (av_first_bad v))]"

text \<open>\<^verbatim>\<open>verify_audit_chain(db, anchor=newest_anchor(db))\<close>.\<close>

definition tick_verification :: "duty_env \<Rightarrow> daemon \<Rightarrow> audit_verification" where
  "tick_verification env d =
     verify_audit_chain (du_sha env) (newest_anchor (du_ostr env) (es_rows (so_events (dm_store d))))
       (au_rows (cd_audit (dm_db d)))"

definition audit_tick :: "duty_env \<Rightarrow> monitor \<Rightarrow> monitor" where
  "audit_tick env m =
     (if du_audit_fault env then m
      else (let v = tick_verification env (mo_daemon m)
            in if \<not> av_ok v then
                 emit (du_tick env) 0 ''audit_chain_broken'' ''high'' [''error'']
                   (''audit chain verification FAILED at seq ''
                      @ (case av_first_bad_seq v of None \<Rightarrow> ''None'' | Some n \<Rightarrow> int_str n) @ '' (''
                      @ (case av_reason v of None \<Rightarrow> ''None'' | Some r \<Rightarrow> chain_fault_value r) @ '')'')
                   (verification_as_dict v) m
               else case newest_row (au_rows (cd_audit (dm_db (mo_daemon m)))) of
                      None \<Rightarrow> m
                    | Some r \<Rightarrow>
                        emit (du_tick env) 0 ''audit_head'' ''info'' [''info''] (''audit chain head seq='' @ int_str (ab_seq r))
                          [(''seq'', PInt (ab_seq r)), (''row_hash'', PStr (ar_hash r))] m))"

section \<open>Retention\<close>

definition report_audit_log_failing :: "duty_env \<Rightarrow> nat \<Rightarrow> nat \<Rightarrow> monitor \<Rightarrow> monitor" where
  "report_audit_log_failing env failures window m =
     emit (du_tick env) 0 ''audit_log_failing'' ''high'' [''error'']
       (''failed to write '' @ nat_str failures @ '' of the last '' @ nat_str window @ '' audit rows'')
       [(''failures'', PInt (int failures)), (''window'', PInt (int window))] m"

definition retention_details :: "retention_report \<Rightarrow> pydict" where
  "retention_details rp =
     [(''events_deleted'', PInt (int (rp_events_deleted rp))),
      (''journal_files_deleted'', PInt (int (rp_journal_files_deleted rp))),
      (''alerts_deleted'', PInt (int (rp_alerts_deleted rp))),
      (''evidence_blobs_deleted'', PInt (int (rp_evidence_blobs_deleted rp))),
      (''pruned_shas'', PList (map PStr (take 50 (rp_pruned_shas rp)))),
      (''skipped_files'', PList (map PStr (rp_skipped_files rp))),
      (''quota_overage_bytes'', PInt (rp_quota_overage_bytes rp))]
     @ (if length (rp_pruned_shas rp) > 50 then [(''more'', PInt (int (length (rp_pruned_shas rp)) - 50))] else [])"

text \<open>The append, and the listener it calls when appends keep failing.\<close>

definition audit_retention :: "duty_env \<Rightarrow> retention_report \<Rightarrow> monitor \<Rightarrow> monitor" where
  "audit_retention env rp m =
     (let d = mo_daemon m;
          call = (du_append env)\<lparr>ac_actor := ''auto:retention'', ac_action := ''retention_pruned'',
                                 ac_target := Some ''retention:daily'', ac_details := details_of (retention_details rp)\<rparr>
      in case append_audit (du_sha env) call (cd_audit (dm_db d)) of
           (au, seq, fired) \<Rightarrow>
             (let m1 = m\<lparr>mo_daemon := d\<lparr>dm_db := (dm_db d)\<lparr>cd_audit := au\<rparr>\<rparr>\<rparr>
              in case fired of
                   None \<Rightarrow> m1
                 | Some failures \<Rightarrow> report_audit_log_failing env failures (length (au_outcomes au)) m1))"

definition report_retention_errors :: "duty_env \<Rightarrow> retention_report \<Rightarrow> monitor \<Rightarrow> monitor" where
  "report_retention_errors env rp m =
     (let errs = rp_errors rp
      in emit (du_tick env) 0 ''retention_failed'' ''medium'' [''error'']
           (join_with ''; '' (take 5 errs)
              @ (if length errs > 5 then '' and '' @ nat_str (length errs - 5) @ '' more'' else ''''))
           [(''errors'', PList (map PStr (take 20 errs)))] m)"

text \<open>The run sees the journal directory through its listing; the days whose file it removed leave the journal.\<close>

definition retention_view :: "duty_env \<Rightarrow> debris \<Rightarrow> daemon \<Rightarrow> retention_state" where
  "retention_view env deb d =
     \<lparr>rs_db = dm_db d, rs_events = so_events (dm_store d), rs_journal = du_listing env (so_journal (dm_store d)),
      rs_debris = deb\<rparr>"

definition retention_apply :: "duty_env \<Rightarrow> retention_state \<Rightarrow> daemon \<Rightarrow> daemon" where
  "retention_apply env st d =
     (let so = dm_store d; j = so_journal so; before = map fst (du_listing env j); after = map fst (rs_journal st);
          gone = (\<lambda>day. du_day_name env day \<in> set before \<and> du_day_name env day \<notin> set after)
      in d\<lparr>dm_db := rs_db st,
           dm_store := so\<lparr>so_events := rs_events st, so_journal := j\<lparr>j_files := delete_where (\<lambda>day _. gone day) (j_files j)\<rparr>\<rparr>\<rparr>)"

definition retention_tick :: "duty_env \<Rightarrow> retention_config \<Rightarrow> debris \<Rightarrow> monitor \<Rightarrow> debris \<times> monitor" where
  "retention_tick env cfg deb m =
     (if du_retention_fault env then (deb, m)
      else case run_retention (du_retention env) cfg (retention_view env deb (mo_daemon m)) of
             (rp, st) \<Rightarrow>
               (let m1 = m\<lparr>mo_daemon := retention_apply env st (mo_daemon m)\<rparr>;
                    m2 = (if any_deletions rp then audit_retention env rp m1 else m1);
                    m3 = (if rp_errors rp = [] then m2 else report_retention_errors env rp m2)
                in (rs_debris st, m3)))"

section \<open>One tick\<close>

definition due :: "real option \<Rightarrow> real \<Rightarrow> real \<Rightarrow> bool" where
  "due last_at interval now = (case last_at of None \<Rightarrow> True | Some t \<Rightarrow> now - t \<ge> interval)"

definition audit_duty :: "supervisor_config \<Rightarrow> duty_env \<Rightarrow> supervisor \<Rightarrow> supervisor" where
  "audit_duty cfg env sv =
     (if due (sv_last_audit sv) (sc_audit_interval cfg) (te_mono (du_tick env))
      then sv\<lparr>sv_last_audit := Some (te_mono (du_tick env)), sv_monitor := audit_tick env (sv_monitor sv)\<rparr>
      else sv)"

definition retention_duty :: "supervisor_config \<Rightarrow> duty_env \<Rightarrow> supervisor \<Rightarrow> supervisor" where
  "retention_duty cfg env sv =
     (if sc_retention_enabled cfg \<and> due (sv_last_retention sv) (sc_retention_interval cfg) (te_mono (du_tick env))
      then (case retention_tick env (sc_retention cfg) (sv_debris sv) (sv_monitor sv) of
              (deb, m) \<Rightarrow> sv\<lparr>sv_last_retention := Some (te_mono (du_tick env)), sv_debris := deb, sv_monitor := m\<rparr>)
      else sv)"

definition monitor_tick :: "supervisor_config \<Rightarrow> duty_env \<Rightarrow> supervisor \<Rightarrow> supervisor" where
  "monitor_tick cfg env sv =
     (case monitor_workers (sc_policy cfg) (du_tick env) (sv_monitor sv) of
        (go_on, m) \<Rightarrow>
          (let sv1 = sv\<lparr>sv_monitor := m\<rparr>
           in if go_on then retention_duty cfg env (audit_duty cfg env sv1) else sv1))"

section \<open>Readers\<close>

text \<open>One line of a worker's standard output: a line that is not JSON or that the event schema (\<open>validate\<close>) rejects
  is logged and skipped; a command result is looked up on this worker before the event is dispatched.\<close>

definition read_stdout_line ::
  "dispatch_env \<Rightarrow> (pyval \<Rightarrow> event option) \<Rightarrow> nat \<Rightarrow> string \<Rightarrow> monitor \<Rightarrow> monitor" where
  "read_stdout_line env validate inc line m =
     (let stripped = rev (dropWhile (\<lambda>c. c = CHR 0x0A) (rev line))
      in if ch_stop (mo_channel m) \<or> stripped = [] then m
         else case json_loads stripped of
                None \<Rightarrow> m
              | Some payload \<Rightarrow>
                  (case validate payload of
                     None \<Rightarrow> m
                   | Some e \<Rightarrow>
                       m\<lparr>mo_channel := fulfill_command_result (dv_ostr env) inc e (mo_channel m),
                         mo_daemon := dispatch env e (mo_daemon m)\<rparr>))"

text \<open>\<^verbatim>\<open>float(v)\<close>; the text of a float is read by \<open>fstr\<close>.\<close>

fun float_of :: "(string \<Rightarrow> real option) \<Rightarrow> pyval \<Rightarrow> real option" where
  "float_of fstr (PBool b) = Some (if b then 1 else 0)"
| "float_of fstr (PInt i) = Some (of_int i)"
| "float_of fstr (PFloat r) = Some r"
| "float_of fstr (PStr s) = fstr s"
| "float_of fstr v = None"

definition dget_default :: "pydict \<Rightarrow> string \<Rightarrow> pyval \<Rightarrow> pyval" where
  "dget_default d k v = (case map_of d k of None \<Rightarrow> v | Some x \<Rightarrow> x)"

text \<open>Any exception, of a conversion or of the database (\<open>fault\<close>), is logged.\<close>

definition record_heartbeat ::
  "(string \<Rightarrow> real option) \<Rightarrow> bool \<Rightarrow> real \<Rightarrow> string \<Rightarrow> pyval \<Rightarrow> health_row list \<Rightarrow> health_row list" where
  "record_heartbeat fstr fault clock name hb rows =
     (case hb of
        PDict d \<Rightarrow>
          (case (float_of fstr (dget_default d ''ts'' (PFloat clock)), int_of (dget_default d ''events_processed'' (PInt 0)),
                 int_of (dget_default d ''queue_depth'' (PInt 0)), float_of fstr (dget_default d ''uptime_s'' (PFloat 0))) of
             (Some ts, Some n, Some q, Some up) \<Rightarrow>
               if fault then rows
               else rows @ [\<lparr>hr_worker = name, hr_ts = ts, hr_events_processed = n, hr_queue_depth = q,
                             hr_last_error = dget d ''last_error'', hr_uptime_s = up\<rparr>]
           | _ \<Rightarrow> rows)
      | _ \<Rightarrow> rows)"

definition read_stderr_line ::
  "(string \<Rightarrow> real option) \<Rightarrow> bool \<Rightarrow> real \<Rightarrow> nat \<Rightarrow> string \<Rightarrow> supervisor \<Rightarrow> supervisor" where
  "read_stderr_line fstr fault clock inc line sv =
     (let stripped = rev (dropWhile (\<lambda>c. c = CHR 0x0A) (rev line)); ch = mo_channel (sv_monitor sv)
      in if ch_stop ch \<or> stripped = [] then sv
         else case json_loads stripped of
                None \<Rightarrow> sv
              | Some hb \<Rightarrow> sv\<lparr>sv_health := record_heartbeat fstr fault clock (w_name (worker ch inc)) hb (sv_health sv)\<rparr>)"

section \<open>Start and stop\<close>

text \<open>The storage subscription, at the end of the list.\<close>

definition subscribe_storage :: "daemon \<Rightarrow> daemon" where
  "subscribe_storage d =
     d\<lparr>dm_store_sub := length (dm_subs d),
       dm_subs := subscribe ''store'' 4096 Drop_oldest_non_critical None (dm_subs d)\<rparr>"

text \<open>One configured worker; a spawn that fails raises out of \<^verbatim>\<open>start\<close> (\<open>None\<close>).\<close>

definition spawn_worker :: "(string \<Rightarrow> bool) \<Rightarrow> real \<Rightarrow> string \<Rightarrow> channel \<Rightarrow> channel option" where
  "spawn_worker spawns started name ch =
     (if spawns name
      then (let k = next_inc ch in Some ((set_worker k (new_worker name started) ch)\<lparr>ch_procs := ch_procs ch @ [k]\<rparr>))
      else None)"

fun spawn_workers :: "(string \<Rightarrow> bool) \<Rightarrow> real \<Rightarrow> string list \<Rightarrow> channel \<Rightarrow> channel option" where
  "spawn_workers spawns started [] ch = Some ch"
| "spawn_workers spawns started (n # ns) ch =
     (case spawn_worker spawns started n ch of None \<Rightarrow> None | Some ch' \<Rightarrow> spawn_workers spawns started ns ch')"

text \<open>The database is open and migrated; the rows left in state isolating are logged, the evidence collector
  exists, the processes of an earlier boot are closed when the boot id can be read, the seen-set is loaded,
  the store subscribes and the workers are spawned.\<close>

definition start_supervisor ::
  "string option \<Rightarrow> first_seen_table \<Rightarrow> (string \<Rightarrow> bool) \<Rightarrow> real \<Rightarrow> string list \<Rightarrow> supervisor
     \<Rightarrow> (nat \<times> supervisor) option" where
  "start_supervisor boot_id seen spawns started names sv =
     (let m = sv_monitor sv; d = mo_daemon m; so = dm_store d;
          warnings = log_incomplete_isolations (dm_db d);
          so1 = (case boot_id of None \<Rightarrow> so | Some b \<Rightarrow> so\<lparr>so_entities := reconcile_processes b (so_entities so)\<rparr>);
          d1 = subscribe_storage (d\<lparr>dm_collector := True, dm_store := so1,
                 dm_tracker := map_option (tracker_load seen) (dm_tracker d)\<rparr>)
      in case spawn_workers spawns started names (mo_channel m) of
           None \<Rightarrow> None
         | Some ch \<Rightarrow> Some (warnings, sv\<lparr>sv_monitor := m\<lparr>mo_channel := ch, mo_daemon := d1\<rparr>\<rparr>))"

text \<open>Of the shutdown, the parts that change modelled state: the flag and the sweep, and the closed journal.\<close>

definition stop_supervisor :: "supervisor \<Rightarrow> supervisor" where
  "stop_supervisor sv =
     (let m = sv_monitor sv; d = mo_daemon m; so = dm_store d
      in sv\<lparr>sv_monitor := m\<lparr>mo_channel := stop_sweep (mo_channel m),
                             mo_daemon := d\<lparr>dm_store := so\<lparr>so_journal := journal_close (so_journal so)\<rparr>\<rparr>\<rparr>\<rparr>)"

end
