(* ===== verification/Supervisor_Laws.thy ===== *)
theory Supervisor_Laws
  imports Supervisor
begin

text \<open>
  What the composition of \<^verbatim>\<open>inspectord/supervisor.py\<close> guarantees: which events a monitor tick can put on the router,
  that it anchors verified audit heads only, and that every operation of the supervisor keeps its state well formed.
\<close>

section \<open>What a tick publishes\<close>

definition queued :: "daemon \<Rightarrow> event set" where
  "queued d = (\<Union>s\<in>set (dm_subs d). set (sub_q s))"

lemma set_remove_first: "set (remove_first p xs) \<subseteq> set xs"
  by (induction xs) auto

lemma offer_queue: "set (sub_q (snd (offer e s))) \<subseteq> insert e (set (sub_q s))"
  using set_remove_first[of non_critical "sub_q s"]
  by (auto simp: offer_defs split: option.splits drop_policy.splits if_splits)

lemma publish_queue:
  "s' \<in> set (snd (publish e subs)) \<Longrightarrow> x \<in> set (sub_q s') \<Longrightarrow> x = e \<or> (\<exists>s\<in>set subs. x \<in> set (sub_q s))"
proof (induction e subs rule: publish.induct)
  case (1 ev)
  then show ?case by simp
next
  case (2 ev s subs)
  have "s' = snd (offer ev s) \<or> s' \<in> set subs \<or> (fst (offer ev s) = None \<and> s' \<in> set (snd (publish ev subs)))"
    using "2.prems"(1) by (auto split: prod.splits option.splits)
  then show ?case using "2.IH" "2.prems"(2) offer_queue[of ev s] by (cases "offer ev s") auto
qed

lemma dispatch_queue:
  assumes "x \<in> queued (dispatch env e d)" "x \<notin> queued d"
  shows "event_core x = event_core e"
proof -
  obtain e' d' where g: "guarded_path env e d = (e', d')" by (cases "guarded_path env e d")
  from assms g have "x = e'"
    unfolding queued_def dispatch_def
    by (auto simp: guarded_path_frame(1)[OF g] dest: publish_queue)
  then show ?thesis using guarded_path_core[OF g] by simp
qed

lemma emit_queue:
  assumes "x \<in> queued (mo_daemon (emit env i action sev types msg raw m))" "x \<notin> queued (mo_daemon m)"
  shows "ev_action x = action \<and> ev_module x = ''supervisor'' \<and> ev_raw x = Some raw"
proof -
  obtain e where "build_event (te_wall env) (te_eid env action i) ''supervisor'' action [''process''] types sev ''event'' None
      (Some msg) (no_blocks\<lparr>eb_raw := Some raw\<rparr>) None None False = Some e"
    "x \<in> queued (dispatch (te_dispatch env) e (mo_daemon m))"
    using assms by (auto simp: emit_def emit_supervisor_event_def split: option.splits)
  then have "event_core x = event_core e" "ev_action e = action" "ev_module e = ''supervisor''" "ev_raw e = Some raw"
    using dispatch_queue assms(2) by (auto simp: build_event_def split: option.splits)
  then show ?thesis using event_core_eqD[of x e] by auto
qed

text \<open>The new events of the worker loop are about workers.\<close>

definition new_events :: "monitor \<Rightarrow> monitor \<Rightarrow> event set" where
  "new_events m m' = queued (mo_daemon m') - queued (mo_daemon m)"

lemma new_events_trans: "new_events a c \<subseteq> new_events a b \<union> new_events b c"
  by (auto simp: new_events_def)

lemma new_events_same: "mo_daemon m' = mo_daemon m \<Longrightarrow> new_events m m' = {}"
  by (simp add: new_events_def)

lemma new_events_emit: "x \<in> new_events m (emit env i action sev types msg raw m) \<Longrightarrow> ev_action x = action"
  using emit_queue by (auto simp: new_events_def)

definition not_anchors :: "event set \<Rightarrow> bool" where
  "not_anchors es \<longleftrightarrow> (\<forall>x\<in>es. ev_action x \<noteq> ''audit_head'')"

lemma not_anchors_trans: "not_anchors (new_events a b) \<Longrightarrow> not_anchors (new_events b c) \<Longrightarrow> not_anchors (new_events a c)"
  using new_events_trans[of a c b] by (auto simp: not_anchors_def)

lemma not_anchors_same: "mo_daemon m' = mo_daemon m \<Longrightarrow> not_anchors (new_events m m')"
  by (simp add: new_events_same not_anchors_def)

lemma not_anchors_emit: "action \<noteq> ''audit_head'' \<Longrightarrow> not_anchors (new_events m (emit env i action sev types msg raw m))"
  using new_events_emit by (auto simp: not_anchors_def)

lemma not_anchors_emit': "action \<noteq> ''audit_head'' \<Longrightarrow> mo_daemon m' = mo_daemon m \<Longrightarrow>
    not_anchors (new_events m (emit env i action sev types msg raw m'))"
  using not_anchors_trans[OF not_anchors_same not_anchors_emit] by blast

lemma put_daemon [simp]: "mo_daemon (put_worker inc w m) = mo_daemon m" "mo_daemon (count_attempt env i inc a m) = mo_daemon m"
  "mo_daemon (install i w m) = mo_daemon m"
  by (simp_all add: put_worker_def count_attempt_def install_def Let_def)

lemma visit_not_anchors: "not_anchors (new_events m (visit_worker p env i inc m))"
proof -
  have d: "not_anchors (new_events m (report_death env i inc rc m))" for rc m
    by (simp add: report_death_def Let_def not_anchors_emit' not_anchors_same)
  have r: "not_anchors (new_events m (respawn env i inc a dl m'))" if "mo_daemon m' = mo_daemon m" for m m' a dl
    using that by (auto simp: respawn_def Let_def not_anchors_same simp del: append.simps intro!: not_anchors_emit')
  have g: "not_anchors (new_events m (give_up env i inc m))" for m
    by (simp add: give_up_def Let_def not_anchors_emit')
  have "not_anchors (new_events (report_death env i inc rc m) (handle_dead_worker p env i inc rc m))" for rc
    using r g by (auto simp: handle_dead_worker_def Let_def not_anchors_same)
  then have "not_anchors (new_events m (handle_dead_worker p env i inc rc m))" for rc
    using not_anchors_trans[OF d] by blast
  then show ?thesis by (auto simp: visit_worker_def Let_def not_anchors_same split: option.split)
qed

lemma visit_workers_not_anchors: "not_anchors (new_events m (snd (visit_workers p env xs m)))"
proof (induction p env xs m rule: visit_workers.induct)
  case (1 p env m)
  then show ?case by (simp add: not_anchors_same)
next
  case (2 p env i inc rest m)
  then show ?case using not_anchors_trans[OF visit_not_anchors[of m p env i inc]] by (auto simp: not_anchors_same)
qed

lemma retention_not_anchors: "not_anchors (new_events m (snd (retention_tick env cfg deb m)))"
proof -
  have same: "queued (retention_apply env st d) = queued d" for st d by (simp add: retention_apply_def queued_def Let_def)
  have a: "not_anchors (new_events m (audit_retention env rp m))" for rp m
  proof -
    have q: "new_events m (m\<lparr>mo_daemon := (mo_daemon m)\<lparr>dm_db := x\<rparr>\<rparr>) = {}" for x
      by (simp add: new_events_def queued_def)
    have "not_anchors (new_events m (emit e i ''audit_log_failing'' s t g w (m\<lparr>mo_daemon := (mo_daemon m)\<lparr>dm_db := x\<rparr>\<rparr>)))"
      for e i s t g w x
      by (rule not_anchors_trans[of _ "m\<lparr>mo_daemon := (mo_daemon m)\<lparr>dm_db := x\<rparr>\<rparr>"])
        (simp_all add: q not_anchors_emit, simp add: not_anchors_def)
    then show ?thesis
      by (auto simp: audit_retention_def report_audit_log_failing_def Let_def q not_anchors_def[of "{}"]
          simp del: append.simps split: prod.split option.split)
  qed
  have e: "not_anchors (new_events m (report_retention_errors env rp m))" for rp m
    by (simp add: report_retention_errors_def Let_def not_anchors_emit)
  obtain rp st where r: "run_retention (du_retention env) cfg (retention_view env deb (mo_daemon m)) = (rp, st)"
    by (cases "run_retention (du_retention env) cfg (retention_view env deb (mo_daemon m))")
  let ?m1 = "m\<lparr>mo_daemon := retention_apply env st (mo_daemon m)\<rparr>"
  let ?m2 = "if any_deletions rp then audit_retention env rp ?m1 else ?m1"
  have "not_anchors (new_events m ?m1)" by (simp add: new_events_def same not_anchors_def)
  then have m2: "not_anchors (new_events m ?m2)" using not_anchors_trans[OF _ a] by simp
  then have "not_anchors (new_events m (if rp_errors rp = [] then ?m2 else report_retention_errors env rp ?m2))"
    using not_anchors_trans[OF m2 e] by simp
  then show ?thesis by (simp add: retention_tick_def r Let_def not_anchors_same)
qed

text \<open>C13: A monitor tick anchors verified audit heads only. Every \<^verbatim>\<open>audit_head\<close> event that a tick adds to a queue,
  whatever the workers, the rules, the faults and the retention run do in the same tick, carries the sequence
  number and digest of the newest audit row of a table that has just verified against the newest stored
  anchor; when the verification fails, the tick adds none.\<close>

theorem anchors_only_verified_heads:
  assumes "x \<in> queued (mo_daemon (sv_monitor (monitor_tick cfg env sv)))" "x \<notin> queued (mo_daemon (sv_monitor sv))"
    "ev_action x = ''audit_head''"
  shows "\<exists>r. av_ok (tick_verification env (mo_daemon (snd (monitor_workers (sc_policy cfg) (du_tick env) (sv_monitor sv)))))
    \<and> newest_row (au_rows (cd_audit (dm_db (mo_daemon (snd (monitor_workers (sc_policy cfg) (du_tick env) (sv_monitor sv))))))) = Some r
    \<and> ev_module x = ''supervisor'' \<and> ev_raw x = Some [(''seq'', PInt (ab_seq r)), (''row_hash'', PStr (ar_hash r))]"
proof -
  obtain go_on m where w: "monitor_workers (sc_policy cfg) (du_tick env) (sv_monitor sv) = (go_on, m)"
    by (cases "monitor_workers (sc_policy cfg) (du_tick env) (sv_monitor sv)")
  let ?sv1 = "sv\<lparr>sv_monitor := m\<rparr>"
  let ?sv2 = "audit_duty cfg env ?sv1"
  have nw: "not_anchors (new_events (sv_monitor sv) m)"
    using visit_workers_not_anchors[of "sv_monitor sv" "sc_policy cfg" "du_tick env"] w by (metis monitor_workers_def snd_conv)
  have nr: "not_anchors (new_events (sv_monitor y) (sv_monitor (retention_duty cfg env y)))" for y
    using retention_not_anchors[of "sv_monitor y" env "sc_retention cfg" "sv_debris y"]
    by (auto simp: retention_duty_def not_anchors_same split: prod.split)
  have "x \<notin> queued (mo_daemon m)" using nw assms(2,3) by (auto simp: not_anchors_def new_events_def)
  moreover have "go_on" using calculation assms(1) w by (auto simp: monitor_tick_def Let_def split: if_splits)
  ultimately have x: "x \<in> queued (mo_daemon (sv_monitor ?sv2))" "x \<notin> queued (mo_daemon m)"
    using nr[of ?sv2] assms(1,3) w by (auto simp: monitor_tick_def not_anchors_def new_events_def)
  then have tick: "x \<in> queued (mo_daemon (audit_tick env m))" by (auto simp: audit_duty_def split: if_splits)
  show ?thesis
  proof (cases "du_audit_fault env \<or> \<not> av_ok (tick_verification env (mo_daemon m))")
    case True
    then have "not_anchors (new_events m (audit_tick env m))"
      by (auto simp: audit_tick_def Let_def not_anchors_same not_anchors_emit simp del: append.simps)
    then show ?thesis using assms(3) tick x(2) by (auto simp: not_anchors_def new_events_def)
  next
    case False
    then obtain r where r: "newest_row (au_rows (cd_audit (dm_db (mo_daemon m)))) = Some r"
      using tick x(2) by (auto simp: audit_tick_def split: option.splits)
    with False tick have "x \<in> queued (mo_daemon (emit (du_tick env) 0 ''audit_head'' ''info'' [''info'']
        (''audit chain head seq='' @ int_str (ab_seq r)) [(''seq'', PInt (ab_seq r)), (''row_hash'', PStr (ar_hash r))] m))"
      by (simp add: audit_tick_def del: append.simps)
    from emit_queue[OF this x(2)] r False w show ?thesis by auto
  qed
qed

text \<open>A tick of a daemon without workers whose audit table holds one row.\<close>

definition audited_supervisor :: supervisor where
  "audited_supervisor =
     \<lparr>sv_monitor = \<lparr>mo_channel = \<lparr>ch_stop = False, ch_workers = [], ch_procs = [], ch_entries = []\<rparr>,
        mo_daemon = sample_daemon\<lparr>dm_db := (dm_db sample_daemon)\<lparr>cd_audit := audit_run (\<lambda>s. s) audit_init [sample_call ''case_opened'']\<rparr>\<rparr>,
        mo_attempts = []\<rparr>,
      sv_last_audit = None, sv_last_retention = None, sv_debris = [], sv_health = []\<rparr>"

definition sample_duty :: duty_env where
  "sample_duty =
     \<lparr>du_tick = crash_tick 5, du_sha = (\<lambda>s. s), du_ostr = (\<lambda>_. ''''), du_audit_fault = False, du_retention_fault = False,
      du_append = sample_call ''case_opened'',
      du_retention = \<lparr>rv_now = 0, rv_now_iso = '''', rv_clock = 0, rv_scan = (\<lambda>x. x), rv_float = (\<lambda>_. ''''),
        rv_busy = (\<lambda>_. False), rv_fault = (\<lambda>_. None)\<rparr>,
      du_listing = (\<lambda>_. []), du_day_name = (\<lambda>_. '''')\<rparr>"

definition sample_config :: supervisor_config where
  "sample_config = \<lparr>sc_policy = default_policy, sc_audit_interval = AUDIT_TICK_INTERVAL_S,
     sc_retention_interval = RETENTION_TICK_INTERVAL_S, sc_retention_enabled = False,
     sc_retention = \<lparr>rc_events_days = 30, rc_events_max_rows = 1, rc_journal_days = 30, rc_journal_quota_mb = 1,
       rc_journal_floor_days = 1, rc_alerts_days = 30, rc_evidence_days = 30\<rparr>\<rparr>"

lemma dispatch_queues: "dm_subs d = [new_subscription n 4096 Drop_oldest_non_critical None] \<Longrightarrow>
    \<exists>x\<in>queued (dispatch env e d). event_core x = event_core e"
proof -
  assume subs: "dm_subs d = [new_subscription n 4096 Drop_oldest_non_critical None]"
  obtain e' d' where g: "guarded_path env e d = (e', d')" by (cases "guarded_path env e d")
  have "dm_subs d' = dm_subs d" by (rule guarded_path_frame(1)[OF g])
  then have "e' \<in> queued (dispatch env e d)"
    using subs by (simp add: dispatch_def g queued_def new_subscription_def offer_def)
  then show ?thesis using guarded_path_core[OF g] by blast
qed

lemma emit_dispatches:
  assumes "severity_of sev \<noteq> None"
  shows "\<exists>e. ev_action e = action \<and> mo_daemon (emit env i action sev types msg raw m) = dispatch (te_dispatch env) e (mo_daemon m)"
proof -
  obtain e where "build_event (te_wall env) (te_eid env action i) ''supervisor'' action [''process''] types sev ''event'' None
      (Some msg) (no_blocks\<lparr>eb_raw := Some raw\<rparr>) None None False = Some e" "ev_action e = action"
    using assms by (auto simp: build_event_def event_kind_of_def)
  then show ?thesis by (auto simp: emit_def emit_supervisor_event_def)
qed

lemma audited_supervisor_facts:
  "monitor_workers p env (sv_monitor audited_supervisor) = (True, sv_monitor audited_supervisor)"
  "dm_subs (mo_daemon (sv_monitor audited_supervisor)) = [new_subscription ''store'' 4096 Drop_oldest_non_critical None]"
  "au_rows (cd_audit (dm_db (mo_daemon (sv_monitor audited_supervisor)))) = [next_row (\<lambda>s. s) [] (sample_call ''case_opened'')]"
  "av_ok (tick_verification sample_duty (mo_daemon (sv_monitor audited_supervisor)))"
proof -
  show "monitor_workers p env (sv_monitor audited_supervisor) = (True, sv_monitor audited_supervisor)"
    "dm_subs (mo_daemon (sv_monitor audited_supervisor)) = [new_subscription ''store'' 4096 Drop_oldest_non_critical None]"
    by (simp_all add: monitor_workers_def audited_supervisor_def sample_daemon_def)
  show rows: "au_rows (cd_audit (dm_db (mo_daemon (sv_monitor audited_supervisor)))) = [next_row (\<lambda>s. s) [] (sample_call ''case_opened'')]"
    by (simp add: audited_supervisor_def append_audit_rows sample_call_def audit_init_def)
  have "good_chain (\<lambda>s. s) [next_row (\<lambda>s. s) [] (sample_call ''case_opened'')]"
    using audit_run_rows[OF good_chain_init, of "\<lambda>s. s" "[sample_call ''case_opened'']"] rows by (simp add: audited_supervisor_def)
  moreover have "es_rows (so_events (dm_store (mo_daemon (sv_monitor audited_supervisor)))) = []"
    by (simp add: audited_supervisor_def sample_daemon_def)
  ultimately show "av_ok (tick_verification sample_duty (mo_daemon (sv_monitor audited_supervisor)))"
    by (simp add: tick_verification_def verify_ok_iff rows newest_anchor_def newest_head_def sample_duty_def)
qed

lemma sample_tick:
  "\<exists>x. x \<in> queued (mo_daemon (sv_monitor (monitor_tick sample_config sample_duty audited_supervisor)))
     \<and> x \<notin> queued (mo_daemon (sv_monitor audited_supervisor)) \<and> ev_action x = ''audit_head''"
proof -
  let ?m = "sv_monitor audited_supervisor"
  let ?row = "next_row (\<lambda>s. s) [] (sample_call ''case_opened'')"
  have "sv_monitor (monitor_tick sample_config sample_duty audited_supervisor) = audit_tick sample_duty ?m"
    by (simp add: monitor_tick_def audited_supervisor_facts(1) Let_def audit_duty_def retention_duty_def sample_config_def)
      (simp add: audited_supervisor_def due_def)
  moreover have "\<exists>i msg raw. audit_tick sample_duty ?m = emit (crash_tick 5) i ''audit_head'' ''info'' [''info''] msg raw ?m"
    using audited_supervisor_facts(4)
    by (auto simp: audit_tick_def audited_supervisor_facts(3) newest_row_def simp del: append.simps) (auto simp: sample_duty_def)
  then have "\<exists>e. ev_action e = ''audit_head'' \<and> mo_daemon (audit_tick sample_duty ?m) = dispatch (te_dispatch (crash_tick 5)) e (mo_daemon ?m)"
    using emit_dispatches[of "''info''" "''audit_head''" "crash_tick 5"] by (fastforce simp: severity_of_def)
  ultimately obtain e x where "ev_action e = ''audit_head''" "event_core x = event_core e"
    "x \<in> queued (mo_daemon (sv_monitor (monitor_tick sample_config sample_duty audited_supervisor)))"
    using dispatch_queues[OF audited_supervisor_facts(2)] by metis
  moreover from this have "ev_action x = ''audit_head''" using event_core_eqD[of x e] by simp
  moreover have "queued (mo_daemon ?m) = {}" using audited_supervisor_facts(2) by (simp add: queued_def new_subscription_def)
  ultimately show ?thesis by blast
qed

theorem anchors_only_verified_heads_witness:
  "\<exists>x\<in>queued (mo_daemon (sv_monitor (monitor_tick sample_config sample_duty audited_supervisor))).
     ev_action x = ''audit_head'' \<and> ev_module x = ''supervisor'' \<and> (\<exists>h. ev_raw x = Some [(''seq'', PInt 1), (''row_hash'', PStr h)])"
proof -
  obtain x where x: "x \<in> queued (mo_daemon (sv_monitor (monitor_tick sample_config sample_duty audited_supervisor)))"
    "x \<notin> queued (mo_daemon (sv_monitor audited_supervisor))" "ev_action x = ''audit_head''"
    using sample_tick by blast
  from anchors_only_verified_heads[OF x] x show ?thesis
    by (auto simp: audited_supervisor_facts(1,3) newest_row_def)
qed

end
