(* ===== verification/Well_Formed.thy ===== *)
theory Well_Formed
  imports Supervisor_Laws
begin

text \<open>
  The typing of the daemon's state: every SQL table has unique keys, event ids are unique, every queue respects its
  size, every bounded deque its bound, and the worker list refers to known incarnations. Every operation of the
  supervisor keeps it.
\<close>

section \<open>The invariant\<close>

definition db_wf :: "case_db \<Rightarrow> bool" where
  "db_wf db \<longleftrightarrow> wf_table (cd_alerts db) \<and> wf_table (cd_cases db) \<and> wf_table (cd_links db)
     \<and> wf_table (cd_evidence db) \<and> wf_table (cd_blobs db) \<and> wf_table (cd_quarantine db)
     \<and> length (au_outcomes (cd_audit db)) \<le> FAILURE_WINDOW"

definition entities_wf :: "entity_state \<Rightarrow> bool" where
  "entities_wf st \<longleftrightarrow> wf_table (st_service st) \<and> wf_table (st_device st) \<and> wf_table (st_process st)
     \<and> wf_table (st_connection st) \<and> wf_table (st_listener st) \<and> wf_table (st_file st)
     \<and> wf_table (st_persistence st) \<and> wf_table (st_scan st) \<and> wf_table (st_vuln st)"

definition store_wf :: "store \<Rightarrow> bool" where
  "store_wf so \<longleftrightarrow> wf_table (j_files (so_journal so)) \<and> distinct (map er_id (es_rows (so_events so)))
     \<and> entities_wf (so_entities so)"

definition daemon_wf :: "daemon \<Rightarrow> bool" where
  "daemon_wf d \<longleftrightarrow> db_wf (dm_db d) \<and> store_wf (dm_store d) \<and> (\<forall>s\<in>set (dm_subs d). queue_inv s)
     \<and> dm_store_sub d < length (dm_subs d) \<and> length (dm_outcomes d) \<le> PERSIST_FAILURE_WINDOW
     \<and> length (re_history (dm_engine d)) \<le> HISTORY_MAX"

definition supervisor_wf :: "supervisor \<Rightarrow> bool" where
  "supervisor_wf sv \<longleftrightarrow> daemon_wf (mo_daemon (sv_monitor sv)) \<and> monitor_wf (sv_monitor sv)"

section \<open>The database\<close>

lemma db_wf_append_event [simp]: "db_wf (append_event c ts sq k txt db) = db_wf db"
  by (simp add: db_wf_def append_event_def)

lemma db_wf_attach: "db_wf db \<Longrightarrow> db_wf (snd (attach c a ts sq db))"
  by (auto simp: attach_def db_wf_def append_event_def)

lemma db_wf_open_case: "db_wf db \<Longrightarrow> open_case c now a title db = Some db' \<Longrightarrow> db_wf db'"
  by (auto simp: open_case_def Let_def split: if_splits intro!: db_wf_attach) (auto simp: db_wf_def append_event_def)

lemma append_audit_outcomes:
  "length (au_outcomes st) \<le> FAILURE_WINDOW \<Longrightarrow> length (au_outcomes (fst (append_audit sha call st))) \<le> FAILURE_WINDOW"
  by (simp add: append_audit_def Let_def length_ring_push)

lemma db_wf_audit: "db_wf db \<Longrightarrow> db_wf (db\<lparr>cd_audit := fst (append_audit sha call (cd_audit db))\<rparr>)"
  by (simp add: db_wf_def append_audit_outcomes)

lemma db_wf_audit_note: "db_wf db \<Longrightarrow> db_wf (audit_note sha env actor act target details db)"
  by (simp add: audit_note_def db_wf_audit)

lemma db_wf_record_blob: "db_wf db \<Longrightarrow> db_wf (record_blob sha now c k p meta data db)"
  by (auto simp: record_blob_def insert_evidence_def store_put_def db_wf_def Let_def split: prod.splits)

lemma db_wf_capture_files: "db_wf db \<Longrightarrow> db_wf (snd (snd (snd (capture_files sha env aid i ps n tot db))))"
  by (induction sha env aid i ps n tot db rule: capture_files.induct) (auto simp: db_wf_record_blob split: file_read.split)

lemma db_wf_collect:
  assumes "db_wf db" "collect sha env a e db = Some db'"
  shows "db_wf db'"
proof (cases "linked (al_id a) db")
  case True
  then show ?thesis using assms by (simp add: collect_def)
next
  case False
  with assms(2) obtain db0 where o: "open_case (cv_case_id env) (cv_clock env 0) (al_id a) (Some (rend_short (al_rendered a))) db = Some db0"
    by (auto simp: collect_def split: option.splits)
  have n: "db_wf (snd (capture_net sha env aid x))" if "db_wf x" for aid x
    using that by (auto simp: capture_net_def db_wf_record_blob split: option.split)
  have b: "db_wf (snd (capture_bundle sha env e aid x))" if "db_wf x" for aid x
    using that by (auto simp: capture_bundle_def db_wf_record_blob split: option.split)
  have t: "db_wf (snd (capture_tree sha env e aid x))" if "db_wf x" for aid x
    using that by (auto simp: capture_tree_def db_wf_record_blob split: option.split)
  have l: "db_wf (append_timeline now c k tx x)" if "db_wf x" for now c k tx x
    using that by (simp add: append_timeline_def)
  have "db_wf db0" by (rule db_wf_open_case[OF assms(1) o])
  let ?d1 = "audit_note sha (cv_audit env) ''auto:evidence_collector'' ''case_opened'' (''case:'' @ cv_case_id env)
    (details_of [(''auto'', PBool True), (''alert_id'', PStr (al_id a))]) db0"
  let ?d2 = "snd (capture_net sha env (al_id a) ?d1)"
  let ?d3 = "snd (capture_bundle sha env e (al_id a) ?d2)"
  let ?d4 = "snd (capture_tree sha env e (al_id a) ?d3)"
  let ?d5 = "snd (snd (snd (capture_files sha env (al_id a) 0 (implicated_paths a e) 0 0 ?d4)))"
  have "db_wf ?d4" by (intro t b n db_wf_audit_note) fact
  then have "db_wf ?d5" by (rule db_wf_capture_files)
  moreover have "\<exists>now c k txt. db' = append_timeline now c k txt ?d5"
    using False o assms(2) unfolding collect_def Let_def case_prod_beta by (auto simp del: append.simps)
  ultimately show ?thesis using l by blast
qed

lemma db_wf_capture: "db_wf db \<Longrightarrow> db_wf (capture sha env a e db)"
  using db_wf_collect by (auto simp: capture_def split: option.split)

section \<open>The event path\<close>

lemma process_matches_wf:
  "wf_table t \<Longrightarrow> wf_table (fst (process_matches dw entries e fresh n ms t out))"
proof (induction dw entries e fresh n ms t out rule: process_matches.induct)
  case (1 dw entries e fresh n t out)
  then show ?case by simp
next
  case (2 dw entries e fresh n m ms t out)
  then show ?case using persist_wf by (auto split: sum.split option.split)
qed

lemma process_event_wf:
  assumes "process_event evaluate fresh e eng t = (eng', t', r)" "wf_table t" "length (re_history eng) \<le> HISTORY_MAX"
  shows "wf_table t'" "length (re_history eng') \<le> HISTORY_MAX"
proof -
  let ?h = "trim_history (ev_ts e) (ring_push HISTORY_MAX (re_history eng) e)"
  have "length ?h \<le> HISTORY_MAX"
    using length_dropWhile_le[of _ "ring_push HISTORY_MAX (re_history eng) e"] ring_push_le[of HISTORY_MAX "re_history eng" e]
    unfolding trim_history_def by (meson order_trans)
  moreover have "ev_first_seen e \<Longrightarrow> eng' = eng \<and> t' = t" using assms(1) by (simp add: process_event_def)
  moreover have "\<not> ev_first_seen e \<Longrightarrow> re_history eng' = ?h
      \<and> t' = fst (process_matches (re_window eng) (re_allowlist eng) e fresh 0 (evaluate \<lparr>ctx_event = e, ctx_history = ?h\<rparr>) t [])"
    using assms(1) by (auto simp: process_event_def Let_def split: prod.splits)
  ultimately show "wf_table t'" "length (re_history eng') \<le> HISTORY_MAX"
    using assms(2,3) process_matches_wf[OF assms(2)] by (cases "ev_first_seen e"; simp)+
qed

lemma fan_out_wf: "daemon_wf d \<Longrightarrow> daemon_wf (fan_out env e n as d)"
proof (induction env e n as d rule: fan_out.induct)
  case (1 env e n d)
  then show ?case by simp
next
  case (2 env e n a as d)
  have "db_wf (dm_db d)" using "2.prems" by (simp add: daemon_wf_def)
  then show ?case using "2.IH"[OF refl] "2.prems" db_wf_capture by (simp add: daemon_wf_def Let_def)
qed

lemma run_alert_path_wf:
  assumes "daemon_wf d"
  shows "daemon_wf (run_alert_path env e d)"
proof -
  obtain eng t r where p: "process_event (dv_evaluate env) (dv_fresh env) e (dm_engine d) (cd_alerts (dm_db d)) = (eng, t, r)"
    by (rule prod_cases3)
  have "wf_table (cd_alerts (dm_db d))" "length (re_history (dm_engine d)) \<le> HISTORY_MAX"
    using assms by (simp_all add: daemon_wf_def db_wf_def)
  from process_event_wf[OF p this] have "daemon_wf (d\<lparr>dm_engine := eng, dm_db := (dm_db d)\<lparr>cd_alerts := t\<rparr>\<rparr>)"
    using assms by (simp add: daemon_wf_def db_wf_def)
  then show ?thesis using assms fan_out_wf p by (auto simp: run_alert_path_def Let_def split: sum.split)
qed

lemma publish_wf: "\<forall>s\<in>set subs. queue_inv s \<Longrightarrow> \<forall>s\<in>set (snd (publish e subs)). queue_inv s"
proof (induction e subs rule: publish.induct)
  case (1 ev)
  then show ?case by simp
next
  case (2 ev s subs)
  have "queue_inv (snd (offer ev s))" using "2.prems" offer_queue_inv by simp
  then show ?case using 2 by (auto split: prod.split option.split)
qed

lemma dispatch_wf:
  assumes "daemon_wf d"
  shows "daemon_wf (dispatch env e d)"
proof -
  obtain e' d' where g: "guarded_path env e d = (e', d')" by (cases "guarded_path env e d")
  then have "daemon_wf d'"
  proof (cases rule: guarded_path_cases)
    case (skipped c)
    then show ?thesis using assms by (simp add: daemon_wf_def)
  next
    case (ran c t)
    have "daemon_wf (d\<lparr>dm_cache := c, dm_tracker := t\<rparr>)" using assms by (simp add: daemon_wf_def)
    then show ?thesis using ran run_alert_path_wf by simp
  qed
  then show ?thesis using publish_wf[of "dm_subs d'" e'] by (simp add: dispatch_def g daemon_wf_def)
qed

lemma emit_supervisor_wf: "daemon_wf d \<Longrightarrow> daemon_wf (emit_supervisor_event env now eid action sev types msg raw d)"
  by (simp add: emit_supervisor_event_def dispatch_wf split: option.split)

section \<open>The store\<close>

lemmas project_table_defs =
  project_service_def project_device_def project_process_def project_connection_def project_listener_def project_file_def
  project_persistence_def project_scan_run_def project_scan_started_def project_scan_completed_def project_scan_skipped_def
  project_vulnerability_def project_vulnerability_found_def project_vulnerability_sweep_def

lemma entities_wf_cases:
  "entities_wf st \<Longrightarrow> project_service e st = Some st' \<Longrightarrow> entities_wf st'"
  "entities_wf st \<Longrightarrow> project_device ostr e st = Some st' \<Longrightarrow> entities_wf st'"
  "entities_wf st \<Longrightarrow> project_process b e st = Some st' \<Longrightarrow> entities_wf st'"
  "entities_wf st \<Longrightarrow> project_connection ostr e st = Some st' \<Longrightarrow> entities_wf st'"
  "entities_wf st \<Longrightarrow> project_listener e st = Some st' \<Longrightarrow> entities_wf st'"
  "entities_wf st \<Longrightarrow> project_file e st = Some st' \<Longrightarrow> entities_wf st'"
  "entities_wf st \<Longrightarrow> project_persistence e st = Some st' \<Longrightarrow> entities_wf st'"
  "entities_wf st \<Longrightarrow> entities_wf (project_scan_run ostr e st)"
  "entities_wf st \<Longrightarrow> project_vulnerability fromiso e st = Some st' \<Longrightarrow> entities_wf st'"
  by (auto simp: entities_wf_def project_table_defs Let_def split: if_splits option.splits pyval.splits)

lemma project_wf:
  assumes "project ostr fromiso boot e st = Some st'" "entities_wf st"
  shows "entities_wf st'"
proof -
  have "project_service e st = Some st' \<or> project_device ostr e st = Some st' \<or> project_process (the boot) e st = Some st'
    \<or> project_connection ostr e st = Some st' \<or> project_listener e st = Some st' \<or> project_file e st = Some st'
    \<or> project_persistence e st = Some st' \<or> project_scan_run ostr e st = st' \<or> project_vulnerability fromiso e st = Some st' \<or> st' = st"
    using assms(1) unfolding project_def by (simp only: split: if_splits) auto
  then show ?thesis using entities_wf_cases[OF assms(2)] assms(2) by (elim disjE) auto
qed

lemma open_for_today_wf: "wf_table (j_files j) \<Longrightarrow> wf_table (j_files (open_for_today sha today j))"
  by (auto simp: open_for_today_def split: option.split)

lemma journal_event_wf: "wf_table (j_files j) \<Longrightarrow> wf_table (j_files (fst (journal_event env v j)))"
  by (auto simp: journal_event_def journal_append_def open_for_today_wf Let_def
      split: pyval.split prod.split option.split)

lemma insert_event_wf:
  "insert_event e payload es = Some es' \<Longrightarrow> distinct (map er_id (es_rows es)) \<Longrightarrow> distinct (map er_id (es_rows es'))"
  by (auto simp: insert_event_def split: if_splits)

lemma persist_wf_store:
  assumes "store_wf so"
  shows "store_wf (fst (persist_event env e so))"
proof -
  have d: "store_wf (fst (database_event env e payload x))" if "store_wf x" for payload x
    using that insert_event_wf project_wf
    by (auto simp: database_event_def store_wf_def Let_def split: option.split)
  have "store_wf (so\<lparr>so_journal := fst (journal_event env v (so_journal so))\<rparr>)" for v
    using assms journal_event_wf by (simp add: store_wf_def)
  then have "store_wf (fst (database_event env e payload (so\<lparr>so_journal := fst (journal_event env v (so_journal so))\<rparr>)))"
    "store_wf (so\<lparr>so_journal := fst (journal_event env v (so_journal so))\<rparr>)" for v payload
    using d by blast+
  then show ?thesis using assms
    by (auto simp: persist_event_def Let_def case_prod_beta split: option.split)
qed

lemma window_step_bound:
  "length os \<le> PERSIST_FAILURE_WINDOW \<Longrightarrow> window_step f now (os, l) = ((os', l'), r) \<Longrightarrow> length os' \<le> PERSIST_FAILURE_WINDOW"
  by (auto simp: window_step_def Let_def length_ring_push split: if_splits)

lemma drain_turn_wf:
  assumes "daemon_wf d"
  shows "daemon_wf (drain_turn env d)"
proof (cases "get_nowait (dm_subs d ! dm_store_sub d)")
  case None
  then show ?thesis using assms by (simp add: drain_turn_def)
next
  case (Some r)
  obtain e s where r: "get_nowait (dm_subs d ! dm_store_sub d) = Some (e, s)" using Some by (cases r) auto
  obtain so res where p: "persist_event (dr_persist env) e (dm_store d) = (so, res)"
    by (cases "persist_event (dr_persist env) e (dm_store d)")
  obtain os l report where w: "window_step (res \<noteq> None) (dr_mono env) (dm_outcomes d, dm_last_alert d) = ((os, l), report)"
    by (metis prod.exhaust)
  let ?d1 = "d\<lparr>dm_subs := (dm_subs d)[dm_store_sub d := s], dm_store := so, dm_outcomes := os, dm_last_alert := l\<rparr>"
  have k: "dm_store_sub d < length (dm_subs d)" and sub: "\<forall>s\<in>set (dm_subs d). queue_inv s" using assms by (simp_all add: daemon_wf_def)
  have "queue_inv s"
    using r sub nth_mem[OF k] by (auto simp: get_nowait_def queue_inv_def split: list.splits)
  then have "\<forall>x\<in>set ((dm_subs d)[dm_store_sub d := s]). queue_inv x"
    using sub set_update_subset_insert[of "dm_subs d" "dm_store_sub d" s] by blast
  moreover have "store_wf so" using persist_wf_store[of "dm_store d" "dr_persist env" e] assms p by (simp add: daemon_wf_def)
  moreover have "length os \<le> PERSIST_FAILURE_WINDOW" using window_step_bound[OF _ w] assms by (simp add: daemon_wf_def)
  ultimately have d1: "daemon_wf ?d1" using assms by (simp add: daemon_wf_def)
  then have "daemon_wf (report_persistence_down (dr_dispatch env) (dr_now env) (dr_eid env) f n st (dr_error env) ?d1)" for f n st
    by (simp add: report_persistence_down_def emit_supervisor_wf)
  moreover have l: "daemon_wf (x\<lparr>dm_live := dm_live x @ [e]\<rparr>) = daemon_wf x" for x by (simp add: daemon_wf_def)
  ultimately have rep: "daemon_wf (x\<lparr>dm_live := dm_live x @ [e]\<rparr>)"
    if "x = report_persistence_down (dr_dispatch env) (dr_now env) (dr_eid env) f n st (dr_error env) ?d1" for x f n st
    using that by blast
  have "daemon_wf (?d1\<lparr>dm_live := dm_live ?d1 @ [e]\<rparr>)" using d1 l by blast
  then show ?thesis unfolding drain_turn_def r p w option.case prod.case Let_def by (auto simp: rep split: option.split)
qed

section \<open>Ticks\<close>

lemma emit_wf: "daemon_wf (mo_daemon m) \<Longrightarrow> daemon_wf (mo_daemon (emit env i action sev types msg raw m))"
  by (simp add: emit_def emit_supervisor_wf)

lemma emit_monitor_wf [simp]: "monitor_wf (emit env i action sev types msg raw m) = monitor_wf m"
  by (simp add: monitor_wf_def)

lemma visit_worker_wf:
  assumes "daemon_wf (mo_daemon m)"
  shows "daemon_wf (mo_daemon (visit_worker p env i inc m))"
proof -
  have d: "daemon_wf (mo_daemon (report_death env i inc rc m))" for rc
    using assms by (simp add: report_death_def Let_def emit_wf)
  have r: "daemon_wf (mo_daemon x) \<Longrightarrow> daemon_wf (mo_daemon (respawn env i inc a dl x))" for x a dl
    by (auto simp: respawn_def Let_def simp del: append.simps intro!: emit_wf)
  have g: "daemon_wf (mo_daemon x) \<Longrightarrow> daemon_wf (mo_daemon (give_up env i inc x))" for x
    by (simp add: give_up_def Let_def emit_wf)
  have "daemon_wf (mo_daemon (handle_dead_worker p env i inc rc m))" for rc
    using d r g by (simp add: handle_dead_worker_def Let_def)
  then show ?thesis using assms by (auto simp: visit_worker_def Let_def split: option.split)
qed

lemma visit_workers_wf: "daemon_wf (mo_daemon m) \<Longrightarrow> daemon_wf (mo_daemon (snd (visit_workers p env xs m)))"
  by (induction p env xs m rule: visit_workers.induct) (simp_all add: visit_worker_wf)

lemma audit_tick_wf:
  "daemon_wf (mo_daemon m) \<Longrightarrow> daemon_wf (mo_daemon (audit_tick env m))" "monitor_wf m \<Longrightarrow> monitor_wf (audit_tick env m)"
  by (auto simp: audit_tick_def Let_def simp del: append.simps split: option.split intro!: emit_wf)

lemma delete_chunk_ids: "distinct (map er_id rows) \<Longrightarrow> distinct (map er_id (delete_chunk scan cutoff limit rows))"
  by (rule distinct_delete_chunk)

lemma prune_loop_ids:
  "distinct (map er_id rows) \<Longrightarrow> distinct (map er_id (snd (prune_loop scan cutoff m deleted rows)))"
proof (induction scan cutoff m deleted rows rule: prune_loop.induct)
  case (1 scan cutoff m deleted rows)
  then show ?case by (subst prune_loop.simps) (simp add: Let_def delete_chunk_ids)
qed

lemma db_wf_prune_blobs: "db_wf db \<Longrightarrow> db_wf (snd (snd (prune_blobs fl busy cutoff pat hs db)))"
proof (induction fl busy cutoff pat hs db rule: prune_blobs.induct)
  case (1 fl busy cutoff pat db)
  then show ?case by simp
next
  case (2 fl busy cutoff pat h hs db)
  have s: "db_wf (stamp_tombstones fl h pat x)" if "db_wf x" for x using that by (simp add: stamp_tombstones_def db_wf_def)
  have u: "db_wf (unlink_blob h db)" using "2.prems" by (auto simp: unlink_blob_def db_wf_def)
  from 2 s u show ?case by (auto simp: case_prod_beta)
qed

lemma db_wf_prune_alerts: "db_wf db \<Longrightarrow> db_wf (snd (prune_alerts now keep db))"
  by (auto simp: prune_alerts_def db_wf_def Let_def)

lemma run_retention_wf:
  assumes "db_wf (rs_db st)" "distinct (map er_id (es_rows (rs_events st)))"
  shows "db_wf (rs_db (snd (run_retention env cfg st)))"
    "distinct (map er_id (es_rows (rs_events (snd (run_retention env cfg st)))))"
proof -
  have e: "db_wf (rs_db (snd (run_events env cfg x))) = db_wf (rs_db (snd x))" for x by simp
  have "distinct (map er_id (es_rows (rs_events (snd (run_events env cfg (empty_report, st))))))"
    using assms(2) prune_loop_ids by (simp add: run_events_def prune_events_def case_prod_beta split: option.split)
  then show "distinct (map er_id (es_rows (rs_events (snd (run_retention env cfg st)))))"
    by (simp add: run_retention_def)
  have a: "db_wf (rs_db (snd (run_alerts env cfg x)))" if "db_wf (rs_db (snd x))" for x
    using that by (simp add: run_alerts_db db_wf_prune_alerts)
  have v: "db_wf (rs_db (snd (run_evidence env cfg x)))" if "db_wf (rs_db (snd x))" for x
    using db_wf_prune_blobs[OF that] by (simp add: run_evidence_def Let_def case_prod_beta that split: option.split bool.split)
  show "db_wf (rs_db (snd (run_retention env cfg st)))"
    unfolding run_retention_def run_checkpoint_frame by (intro v a) (simp add: assms(1))
qed

lemma retention_apply_wf:
  assumes "daemon_wf d" "db_wf (rs_db st)" "distinct (map er_id (es_rows (rs_events st)))"
  shows "daemon_wf (retention_apply env st d)"
  using assms by (simp add: retention_apply_def Let_def daemon_wf_def store_wf_def)

lemma audit_retention_wf: "daemon_wf (mo_daemon m) \<Longrightarrow> daemon_wf (mo_daemon (audit_retention env rp m))"
proof -
  assume wf: "daemon_wf (mo_daemon m)"
  let ?call = "(du_append env)\<lparr>ac_actor := ''auto:retention'', ac_action := ''retention_pruned'',
    ac_target := Some ''retention:daily'', ac_details := details_of (retention_details rp)\<rparr>"
  have "db_wf ((dm_db (mo_daemon m))\<lparr>cd_audit := fst (append_audit (du_sha env) ?call (cd_audit (dm_db (mo_daemon m))))\<rparr>)"
    using wf by (intro db_wf_audit) (simp add: daemon_wf_def)
  with wf show ?thesis
    by (auto simp: audit_retention_def report_audit_log_failing_def Let_def daemon_wf_def
        simp del: append.simps split: prod.split option.split intro!: emit_wf[unfolded daemon_wf_def])
qed

lemma monitor_wf_daemon [simp]: "monitor_wf (m\<lparr>mo_daemon := d\<rparr>) = monitor_wf m"
  by (simp add: monitor_wf_def known_def)

lemma retention_tick_wf:
  assumes "daemon_wf (mo_daemon m)"
  shows "daemon_wf (mo_daemon (snd (retention_tick env cfg deb m)))"
proof -
  let ?view = "retention_view env deb (mo_daemon m)"
  obtain rp st where r: "run_retention (du_retention env) cfg ?view = (rp, st)"
    by (cases "run_retention (du_retention env) cfg ?view")
  have "db_wf (rs_db ?view)" "distinct (map er_id (es_rows (rs_events ?view)))"
    using assms by (simp_all add: retention_view_def daemon_wf_def store_wf_def)
  from run_retention_wf[OF this, of "du_retention env" cfg] r
  have "daemon_wf (retention_apply env st (mo_daemon m))" using retention_apply_wf[OF assms] by simp
  then show ?thesis using assms
    by (auto simp: retention_tick_def r Let_def report_retention_errors_def simp del: append.simps
        intro!: audit_retention_wf emit_wf)
qed

lemma retention_tick_monitor_wf: "monitor_wf m \<Longrightarrow> monitor_wf (snd (retention_tick env cfg deb m))"
  by (auto simp: retention_tick_def audit_retention_def report_audit_log_failing_def report_retention_errors_def Let_def
      simp del: append.simps split: prod.split option.split)

lemma monitor_tick_wf:
  assumes "supervisor_wf sv"
  shows "supervisor_wf (monitor_tick cfg env sv)"
proof -
  obtain go_on m where w: "monitor_workers (sc_policy cfg) (du_tick env) (sv_monitor sv) = (go_on, m)"
    by (cases "monitor_workers (sc_policy cfg) (du_tick env) (sv_monitor sv)")
  have "monitor_wf m" "daemon_wf (mo_daemon m)"
    using monitor_workers_wf[of "sv_monitor sv" "sc_policy cfg" "du_tick env"]
      visit_workers_wf[of "sv_monitor sv" "sc_policy cfg" "du_tick env" "enumerate 0 (procs_of (sv_monitor sv))"] assms w
    by (auto simp: supervisor_wf_def monitor_workers_def)
  then have 1: "supervisor_wf (sv\<lparr>sv_monitor := m\<rparr>)" by (simp add: supervisor_wf_def)
  have 2: "supervisor_wf (audit_duty cfg env x)" if "supervisor_wf x" for x
    using that audit_tick_wf by (simp add: audit_duty_def supervisor_wf_def)
  have 3: "supervisor_wf (retention_duty cfg env x)" if "supervisor_wf x" for x
    using that retention_tick_wf[of "sv_monitor x" env "sc_retention cfg" "sv_debris x"]
      retention_tick_monitor_wf[of "sv_monitor x" env "sc_retention cfg" "sv_debris x"]
    by (auto simp: retention_duty_def supervisor_wf_def split: prod.split)
  show ?thesis using 1 2 3 by (simp add: monitor_tick_def w Let_def)
qed

section \<open>Readers\<close>

lemma fulfill_monitor_wf: "monitor_wf m \<Longrightarrow> monitor_wf (m\<lparr>mo_channel := fulfill_command_result ostr inc e (mo_channel m)\<rparr>)"
  by (auto simp: fulfill_command_result_def monitor_wf_def known_def split: option.split)

lemma read_stdout_line_wf:
  assumes "daemon_wf (mo_daemon m)" "monitor_wf m"
  shows "daemon_wf (mo_daemon (read_stdout_line env validate inc line m))" "monitor_wf (read_stdout_line env validate inc line m)"
proof -
  have "monitor_wf (m\<lparr>mo_channel := fulfill_command_result (dv_ostr env) inc e (mo_channel m), mo_daemon := dispatch env e (mo_daemon m)\<rparr>)" for e
    using fulfill_monitor_wf[OF assms(2), of "dv_ostr env" inc e] by (simp add: monitor_wf_def known_def)
  then show "daemon_wf (mo_daemon (read_stdout_line env validate inc line m))" "monitor_wf (read_stdout_line env validate inc line m)"
    using assms dispatch_wf by (auto simp: read_stdout_line_def Let_def split: option.split)
qed

section \<open>Start\<close>

text \<open>The supervisor as its constructor leaves it, over the database and journal an earlier run left on disk.\<close>

definition constructed :: "supervisor \<Rightarrow> bool" where
  "constructed sv \<longleftrightarrow>
     (let m = sv_monitor sv; d = mo_daemon m
      in db_wf (dm_db d) \<and> store_wf (dm_store d) \<and> dm_subs d = [] \<and> dm_outcomes d = [] \<and> re_history (dm_engine d) = []
         \<and> ch_procs (mo_channel m) = [] \<and> ch_workers (mo_channel m) = [])"

lemma reconcile_processes_wf: "entities_wf st \<Longrightarrow> entities_wf (reconcile_processes b st)"
  by (simp add: entities_wf_def reconcile_processes_def)

lemma spawn_workers_wf:
  assumes "spawn_workers spawns started names (mo_channel m) = Some ch" "monitor_wf m"
  shows "monitor_wf (m\<lparr>mo_channel := ch\<rparr>)"
  using assms
proof (induction names arbitrary: m)
  case Nil
  then show ?case by (auto simp: monitor_wf_def known_def)
next
  case (Cons n ns)
  let ?k = "next_inc (mo_channel m)"
  let ?ch = "(set_worker ?k (new_worker n started) (mo_channel m))\<lparr>ch_procs := ch_procs (mo_channel m) @ [?k]\<rparr>"
  have s: "spawn_workers spawns started ns ?ch = Some ch"
    using Cons.prems(1) by (auto simp: spawn_worker_def Let_def split: if_splits)
  have "?k \<notin> known m" by (rule next_inc_fresh)
  then have "monitor_wf (m\<lparr>mo_channel := ?ch\<rparr>)"
    using Cons.prems(2) by (auto simp: monitor_wf_def known_def set_worker_def table_simps)
  then show ?case using Cons.IH[of "m\<lparr>mo_channel := ?ch\<rparr>"] s by simp
qed

lemma start_wf:
  assumes "constructed sv" "start_supervisor boot seen spawns started names sv = Some (n, sv')"
  shows "supervisor_wf sv'"
proof -
  let ?m = "sv_monitor sv"
  obtain ch d where s: "spawn_workers spawns started names (mo_channel ?m) = Some ch"
    "sv_monitor sv' = ?m\<lparr>mo_channel := ch, mo_daemon := d\<rparr>" "daemon_wf d"
    using assms reconcile_processes_wf
    by (auto simp: start_supervisor_def Let_def constructed_def daemon_wf_def subscribe_storage_def subscribe_def
        new_subscription_def queue_inv_def store_wf_def split: option.splits)
  have "monitor_wf ?m" using assms(1) by (simp add: constructed_def Let_def monitor_wf_def)
  from spawn_workers_wf[OF s(1) this] have "monitor_wf (sv_monitor sv')" using s(2) by (simp add: monitor_wf_def known_def)
  then show ?thesis using s by (simp add: supervisor_wf_def)
qed

section \<open>Every run\<close>

text \<open>What the threads of a started supervisor do, one call at a time: a line on a worker's output or error stream,
  a turn of the drain thread, a tick of the monitor thread.\<close>

datatype supervisor_op =
    Op_stdout dispatch_env "pyval \<Rightarrow> event option" nat string
  | Op_stderr "string \<Rightarrow> real option" bool real nat string
  | Op_drain drain_env
  | Op_tick supervisor_config duty_env

fun run_op :: "supervisor_op \<Rightarrow> supervisor \<Rightarrow> supervisor" where
  "run_op (Op_stdout env validate inc line) sv = sv\<lparr>sv_monitor := read_stdout_line env validate inc line (sv_monitor sv)\<rparr>"
| "run_op (Op_stderr fstr fault clock inc line) sv = read_stderr_line fstr fault clock inc line sv"
| "run_op (Op_drain env) sv =
     sv\<lparr>sv_monitor := (sv_monitor sv)\<lparr>mo_daemon := drain_turn env (mo_daemon (sv_monitor sv))\<rparr>\<rparr>"
| "run_op (Op_tick cfg env) sv = monitor_tick cfg env sv"

lemma run_op_wf: "supervisor_wf sv \<Longrightarrow> supervisor_wf (run_op op sv)"
  by (cases op) (auto simp: supervisor_wf_def read_stdout_line_wf drain_turn_wf monitor_tick_wf[unfolded supervisor_wf_def]
      read_stderr_line_def Let_def split: option.split)

lemma run_ops_wf: "supervisor_wf sv \<Longrightarrow> supervisor_wf (fold run_op ops sv)"
  by (induction ops arbitrary: sv) (simp_all add: run_op_wf)


definition sample_supervisor :: supervisor where
  "sample_supervisor =
     \<lparr>sv_monitor = \<lparr>mo_channel = \<lparr>ch_stop = False, ch_workers = [], ch_procs = [], ch_entries = []\<rparr>,
        mo_daemon = sample_daemon\<lparr>dm_subs := []\<rparr>, mo_attempts = []\<rparr>,
      sv_last_audit = None, sv_last_retention = None, sv_debris = [], sv_health = []\<rparr>"


end
