(* ===== verification/Hunt_Compiler.thy ===== *)
theory Hunt_Compiler
  imports Storage Yaml_Rules "HOL-Library.Product_Lexorder"
begin

text \<open>
  The hunt compiler \<^verbatim>\<open>inspectord/hunt/compiler.py\<close> and the execution of its queries in \<^verbatim>\<open>hunt/execute.py\<close>. The
  compiler builds SQL text; here it builds a syntax tree, and \<open>sql_text\<close> writes the tree as the text the code
  emits. A placeholder carries its position in the parameter list; in the text it is a question mark.
  \<^verbatim>\<open>re.compile\<close> (\<open>re_error\<close>: the message it raises with) and \<^verbatim>\<open>datetime.isoformat\<close> (\<open>isof\<close>) are parameters.
\<close>

section \<open>Errors\<close>

datatype hunt_error_kind =
    HuntSyntaxError | HuntPathError | HuntUnsupportedError | HuntBoundsError | HuntExecutionError
  | HuntNameError | HuntQueryExists | HuntQueryNotFound | HuntRequestError | HuntScheduledError

datatype hunt_error = Hunt_error hunt_error_kind string

section \<open>SQL\<close>

definition COLUMN_PATHS :: "(string \<times> string) list" where
  "COLUMN_PATHS = [(''kind'', ''kind''), (''module'', ''module''), (''action'', ''action''), (''severity'', ''severity'')]"

definition DEFAULT_LIMIT :: int where "DEFAULT_LIMIT = 500"
definition MAX_LIMIT :: int where "MAX_LIMIT = 5000"

datatype param = P_text string | P_double real | P_int int | P_time datetime

text \<open>\<^verbatim>\<open>_Operand\<close>: a column, a path into the payload, or a path that never resolves.\<close>

datatype operand = Column string | Json_path "string list" | Missing

datatype sql =
    S_true
  | S_false
  | S_type_eq "string list" string
  | S_type_number "string list"
  | S_text_eq operand nat
  | S_double_eq operand nat
  | S_call string operand nat
  | S_guarded sql sql
  | S_or "sql list"
  | S_is bool sql
  | S_not sql

definition quote_sql :: "string \<Rightarrow> string" where
  "quote_sql s = CHR 0x27 # s @ [CHR 0x27]"

definition json_path_text :: "string list \<Rightarrow> string" where
  "json_path_text segs = quote_sql (''$.'' @ join_with ''.'' segs)"

fun operand_text :: "operand \<Rightarrow> string" where
  "operand_text (Column c) = c"
| "operand_text (Json_path segs) = ''json_extract_string(payload_json, '' @ json_path_text segs @ '')''"
| "operand_text Missing = []"

definition type_text :: "string list \<Rightarrow> string" where
  "type_text segs = ''json_type(payload_json, '' @ json_path_text segs @ '')''"

definition JSON_NUMBER_TYPES :: "string list" where
  "JSON_NUMBER_TYPES = [''BIGINT'', ''UBIGINT'', ''DOUBLE'']"

definition JSON_INTEGER_TOKEN :: string where
  "JSON_INTEGER_TOKEN = ''^-?[0-9]+$''"

fun sql_text :: "sql \<Rightarrow> string" where
  "sql_text S_true = ''TRUE''"
| "sql_text S_false = ''FALSE''"
| "sql_text (S_type_eq segs t) = type_text segs @ '' = '' @ quote_sql t"
| "sql_text (S_type_number segs) =
     type_text segs @ '' IN ('' @ join_with '', '' (map quote_sql JSON_NUMBER_TYPES) @ '')''"
| "sql_text (S_text_eq oper n) = operand_text oper @ '' = ?''"
| "sql_text (S_double_eq oper n) =
     ''(NOT regexp_matches('' @ operand_text oper @ '', '' @ quote_sql JSON_INTEGER_TOKEN @ '') AND TRY_CAST(''
       @ operand_text oper @ '' AS DOUBLE) = ?)''"
| "sql_text (S_call f oper n) = f @ ''('' @ operand_text oper @ '', ?)''"
| "sql_text (S_guarded g b) = ''('' @ sql_text g @ '' AND '' @ sql_text b @ '')''"
| "sql_text (S_or parts) = ''('' @ join_with '' OR '' (map sql_text parts) @ '')''"
| "sql_text (S_is positive p) = ''(('' @ sql_text p @ '') IS '' @ (if positive then ''TRUE'' else ''NOT TRUE'') @ '')''"
| "sql_text (S_not p) = ''NOT ('' @ sql_text p @ '')''"

text \<open>\<^verbatim>\<open>_Binder.bind\<close>: the placeholder's position and the parameters with the value appended.\<close>

definition bind :: "param \<Rightarrow> param list \<Rightarrow> nat \<times> param list" where
  "bind v ps = (length ps, ps @ [v])"

section \<open>Operands\<close>

definition plain_segment :: "string \<Rightarrow> bool" where
  "plain_segment s = (s \<noteq> [] \<and> path_head (hd s) \<and> list_all (\<lambda>c. path_char c \<and> c \<noteq> CHR ''.'') s)"

text \<open>\<^verbatim>\<open>_SEGMENT_RE\<close>; its dollar also matches before a line feed at the end.\<close>

definition segment_ok :: "string \<Rightarrow> bool" where
  "segment_ok s = (plain_segment s \<or> (s \<noteq> [] \<and> last s = CHR 0x0A \<and> plain_segment (butlast s)))"

definition bad_segment :: "string \<Rightarrow> string \<Rightarrow> hunt_error" where
  "bad_segment seg path =
     Hunt_error HuntPathError (''invalid path segment '' @ repr_str seg @ '' in '' @ repr_str path
       @ '': segments must match [A-Za-z_][A-Za-z0-9_]*'')"

definition TS_UNSUPPORTED :: string where
  "TS_UNSUPPORTED = ''event.ts cannot appear in a hunt expression: the evaluator compares it as a ''
     @ ''datetime and never matches a text literal. Use the since/until time bound.''"

definition operand_for :: "string \<Rightarrow> hunt_error + operand" where
  "operand_for path =
     (let segments = path_segments path
      in case find (\<lambda>s. \<not> segment_ok s) segments of
           Some seg \<Rightarrow> Inl (bad_segment seg path)
         | None \<Rightarrow>
             (case segments of
                [] \<Rightarrow> Inr Missing
              | [_] \<Rightarrow> Inr Missing
              | head # a # deeper \<Rightarrow>
                  if head = ''event'' then
                    (if a = ''ts'' then Inl (Hunt_error HuntUnsupportedError TS_UNSUPPORTED)
                     else case (deeper, map_of COLUMN_PATHS a) of
                            ([], Some c) \<Rightarrow> Inr (Column c)
                          | _ \<Rightarrow> Inr (Json_path (a # deeper)))
                  else Inr (Json_path segments)))"

fun is_string :: "operand \<Rightarrow> sql" where
  "is_string (Column c) = S_true"
| "is_string (Json_path segs) = S_type_eq segs ''VARCHAR''"
| "is_string Missing = S_false"

fun is_number :: "operand \<Rightarrow> sql" where
  "is_number (Json_path segs) = S_type_number segs"
| "is_number _ = S_false"

fun is_boolean :: "operand \<Rightarrow> sql" where
  "is_boolean (Json_path segs) = S_type_eq segs ''BOOLEAN''"
| "is_boolean _ = S_false"

definition guarded :: "sql \<Rightarrow> sql \<Rightarrow> sql" where
  "guarded guard body = (if guard = S_true then body else S_guarded guard body)"

definition disjoin :: "sql list \<Rightarrow> sql" where
  "disjoin parts = (case parts of [] \<Rightarrow> S_false | [p] \<Rightarrow> p | _ \<Rightarrow> S_or parts)"

section \<open>Operators\<close>

definition append_typed :: "sql \<Rightarrow> operand \<Rightarrow> string \<Rightarrow> sql list \<times> param list \<Rightarrow> sql list \<times> param list" where
  "append_typed guard oper v = (\<lambda>(parts, ps).
     if guard = S_false then (parts, ps)
     else (case bind (P_text v) ps of (n, ps') \<Rightarrow> (parts @ [guarded guard (S_text_eq oper n)], ps')))"

text \<open>An integer is a double when at most 53 bits of it are significant and it is in range.\<close>

function odd_part :: "nat \<Rightarrow> nat" where
  "odd_part n = (if 0 < n \<and> even n then odd_part (n div 2) else n)"
  by pat_completeness auto
termination
  by (relation "measure id") auto

declare odd_part.simps [simp del]

definition is_double :: "int \<Rightarrow> bool" where
  "is_double i = (odd_part (nat \<bar>i\<bar>) < 2 ^ 53 \<and> \<bar>i\<bar> < 2 ^ 1024)"

definition lossless_double :: "int \<Rightarrow> real option" where
  "lossless_double v = (if is_double v then Some (of_int v) else None)"

definition append_numeric :: "operand \<Rightarrow> int \<Rightarrow> sql list \<times> param list \<Rightarrow> sql list \<times> param list" where
  "append_numeric oper v = (\<lambda>(parts, ps).
     let guard = is_number oper
     in if guard = S_false then (parts, ps)
        else (case bind (P_text (int_str v)) ps of
                (n, ps1) \<Rightarrow>
                  (case lossless_double v of
                     None \<Rightarrow> (parts @ [guarded guard (disjoin [S_text_eq oper n])], ps1)
                   | Some d \<Rightarrow>
                       (case bind (P_double d) ps1 of
                          (k, ps2) \<Rightarrow> (parts @ [guarded guard (disjoin [S_text_eq oper n, S_double_eq oper k])], ps2)))))"

definition bool_text :: "bool \<Rightarrow> string" where
  "bool_text b = (if b then ''true'' else ''false'')"

definition equals :: "operand \<Rightarrow> literal \<Rightarrow> param list \<Rightarrow> sql \<times> param list" where
  "equals oper lit ps =
     (if oper = Missing then (S_false, ps)
      else (case (case lit of
                    LBool b \<Rightarrow>
                      append_numeric oper (if b then 1 else 0) (append_typed (is_boolean oper) oper (bool_text b) ([], ps))
                  | LInt i \<Rightarrow>
                      (let acc = append_numeric oper i ([], ps)
                       in if i = 0 \<or> i = 1 then append_typed (is_boolean oper) oper (bool_text (i = 1)) acc else acc)
                  | LStr s \<Rightarrow> append_typed (is_string oper) oper s ([], ps)) of
              (parts, ps') \<Rightarrow> (disjoin parts, ps')))"

fun equals_each :: "operand \<Rightarrow> literal list \<Rightarrow> param list \<Rightarrow> sql list \<times> param list" where
  "equals_each oper [] ps = ([], ps)"
| "equals_each oper (l # ls) ps =
     (case equals oper l ps of
        (p, ps1) \<Rightarrow> (case equals_each oper ls ps1 of (qs, ps2) \<Rightarrow> (if p = S_false then qs else p # qs, ps2)))"

definition in_list :: "operand \<Rightarrow> string \<Rightarrow> param list \<Rightarrow> sql \<times> param list" where
  "in_list oper rhs ps = (case equals_each oper (parse_list rhs) ps of (parts, ps') \<Rightarrow> (disjoin parts, ps'))"

definition STRING_FUNCS :: "(string \<times> string) list" where
  "STRING_FUNCS = [(''STARTSWITH'', ''starts_with''), (''ENDSWITH'', ''ends_with''), (''CONTAINS'', ''contains'')]"

definition literal_type :: "literal \<Rightarrow> string" where
  "literal_type l = (case l of LStr _ \<Rightarrow> ''str'' | LInt _ \<Rightarrow> ''int'' | LBool _ \<Rightarrow> ''bool'')"

definition string_literal :: "string \<Rightarrow> string \<Rightarrow> hunt_error + string" where
  "string_literal oper rhs =
     (case parse_literal rhs of
        LStr s \<Rightarrow> Inr s
      | l \<Rightarrow> Inl (Hunt_error HuntUnsupportedError
               (oper @ '' needs a string on the right-hand side, got '' @ repr_str rhs @ '' ('' @ literal_type l
                @ ''); quote it as '' @ CHR 0x22 # rhs @ [CHR 0x22])))"

definition string_call :: "operand \<Rightarrow> string \<Rightarrow> string \<Rightarrow> string \<Rightarrow> param list \<Rightarrow> hunt_error + sql \<times> param list" where
  "string_call oper op func rhs ps =
     (case string_literal op rhs of
        Inl e \<Rightarrow> Inl e
      | Inr s \<Rightarrow>
          let guard = is_string oper
          in if guard = S_false then Inr (S_false, ps)
             else (case bind (P_text s) ps of (n, ps') \<Rightarrow> Inr (guarded guard (S_call func oper n), ps')))"

section \<open>Regular expressions\<close>

definition RE2_UNSUPPORTED :: "(string \<times> string) list" where
  "RE2_UNSUPPORTED =
     [(''(?='', ''lookahead''), (''(?!'', ''negative lookahead''), (''(?<='', ''lookbehind''),
      (''(?<!'', ''negative lookbehind''), (''(?>'', ''atomic group''), (''(?P='', ''named backreference''),
      (''(?('', ''conditional''), ([CHR 0x5C, CHR ''Z''], CHR 0x5C # ''Z (RE2 has no '' @ CHR 0x5C # ''Z; use $)'')]"

text \<open>\<^verbatim>\<open>_BACKREFERENCE_RE\<close>: a backslash that does not follow a backslash, then a digit from 1 to 9.\<close>

fun has_backreference :: "char option \<Rightarrow> string \<Rightarrow> bool" where
  "has_backreference prev (c # d # s) =
     ((c = CHR 0x5C \<and> prev \<noteq> Some (CHR 0x5C) \<and> ascii_digit d \<and> d \<noteq> CHR ''0'') \<or> has_backreference (Some c) (d # s))"
| "has_backreference prev _ = False"

definition validate_regex :: "(string \<Rightarrow> string option) \<Rightarrow> string \<Rightarrow> hunt_error option" where
  "validate_regex re_error pattern =
     (case re_error pattern of
        Some msg \<Rightarrow> Some (Hunt_error HuntSyntaxError (''invalid regular expression '' @ repr_str pattern @ '': '' @ msg))
      | None \<Rightarrow>
          (case find (\<lambda>(c, _). contains pattern c) RE2_UNSUPPORTED of
             Some (_, name) \<Rightarrow>
               Some (Hunt_error HuntUnsupportedError (''regular expression '' @ repr_str pattern @ '' uses '' @ name
                       @ '', which DuckDB'' @ CHR 0x27 # ''s RE2 engine does not support''))
           | None \<Rightarrow>
               if has_backreference None pattern
               then Some (Hunt_error HuntUnsupportedError (''regular expression '' @ repr_str pattern
                       @ '' uses a backreference, which DuckDB'' @ CHR 0x27 # ''s RE2 engine does not support''))
               else None))"

definition compile_matches ::
  "(string \<Rightarrow> string option) \<Rightarrow> operand \<Rightarrow> string \<Rightarrow> param list \<Rightarrow> hunt_error + sql \<times> param list" where
  "compile_matches re_error oper rhs ps =
     (case string_literal ''MATCHES'' rhs of
        Inl e \<Rightarrow> Inl e
      | Inr pattern \<Rightarrow>
          (case validate_regex re_error pattern of
             Some e \<Rightarrow> Inl e
           | None \<Rightarrow>
               let guard = is_string oper
               in if guard = S_false then Inr (S_false, ps)
                  else (case bind (P_text pattern) ps of
                          (n, ps') \<Rightarrow> Inr (guarded guard (S_call ''regexp_matches'' oper n), ps'))))"

section \<open>Leaves, nodes, expressions\<close>

definition truth :: "bool \<Rightarrow> sql \<times> param list \<Rightarrow> sql \<times> param list" where
  "truth positive = map_prod (S_is positive) id"

definition compile_leaf ::
  "(string \<Rightarrow> string option) \<Rightarrow> string \<Rightarrow> string \<Rightarrow> string \<Rightarrow> param list \<Rightarrow> hunt_error + sql \<times> param list" where
  "compile_leaf re_error path op rhs ps =
     (case operand_for path of
        Inl e \<Rightarrow> Inl e
      | Inr oper \<Rightarrow>
          if op = ''=='' \<or> op = ''!='' then Inr (truth (op = ''=='') (equals oper (parse_literal rhs) ps))
          else if op = ''IN'' \<or> op = ''NOT IN'' then Inr (truth (op = ''IN'') (in_list oper rhs ps))
          else (case map_of STRING_FUNCS op of
                  Some func \<Rightarrow> map_sum id (truth True) (string_call oper op func rhs ps)
                | None \<Rightarrow>
                    if op = ''MATCHES'' then map_sum id (truth True) (compile_matches re_error oper rhs ps)
                    else Inl (Hunt_error HuntUnsupportedError (''operator '' @ repr_str op @ '' has no SQL compilation''))))"

fun compile_node :: "(string \<Rightarrow> string option) \<Rightarrow> node \<Rightarrow> param list \<Rightarrow> hunt_error + sql \<times> param list" where
  "compile_node re_error (InvalidLeaf t negated) ps =
     Inl (Hunt_error HuntSyntaxError (''cannot parse '' @ repr_str t
            @ '': expected '' @ quote_sql ''<path> <operator> <value>'' @ '' with an operator from ''
            @ join_with '', '' leaf_ops))"
| "compile_node re_error (Leaf path op rhs negated) ps =
     map_sum id (map_prod (\<lambda>p. if negated then S_not p else p) id) (compile_leaf re_error path op rhs ps)"

fun compile_group :: "(string \<Rightarrow> string option) \<Rightarrow> node list \<Rightarrow> param list \<Rightarrow> hunt_error + sql list \<times> param list" where
  "compile_group re_error [] ps = Inr ([], ps)"
| "compile_group re_error (n # ns) ps =
     (case compile_node re_error n ps of
        Inl e \<Rightarrow> Inl e
      | Inr (p, ps1) \<Rightarrow> map_sum id (map_prod ((#) p) id) (compile_group re_error ns ps1))"

fun compile_parsed :: "(string \<Rightarrow> string option) \<Rightarrow> parsed \<Rightarrow> param list \<Rightarrow> hunt_error + sql list list \<times> param list" where
  "compile_parsed re_error [] ps = Inr ([], ps)"
| "compile_parsed re_error (g # gs) ps =
     (case compile_group re_error g ps of
        Inl e \<Rightarrow> Inl e
      | Inr (q, ps1) \<Rightarrow> map_sum id (map_prod ((#) q) id) (compile_parsed re_error gs ps1))"

text \<open>An empty group is the text \<^verbatim>\<open>TRUE\<close>.\<close>

definition groups_text :: "sql list list \<Rightarrow> string" where
  "groups_text gs =
     join_with '' OR '' (map (\<lambda>g. ''('' @ (if g = [] then ''TRUE'' else join_with '' AND '' (map sql_text g)) @ '')'') gs)"

section \<open>Queries\<close>

datatype clause = C_match "sql list list" | C_since nat | C_until nat | C_ingest nat nat

fun clause_text :: "clause \<Rightarrow> string" where
  "clause_text (C_match gs) = ''('' @ groups_text gs @ '')''"
| "clause_text (C_since n) = ''ts >= ?''"
| "clause_text (C_until n) = ''ts <= ?''"
| "clause_text (C_ingest n k) = ''(ingest_seq > ? AND ingest_seq <= ?)''"

record compiled_query =
  cq_expression :: string
  cq_clauses :: "clause list"
  cq_limit_at :: nat
  cq_params :: "param list"
  cq_limit :: int
  cq_since :: "datetime option"
  cq_until :: "datetime option"
  cq_ingest :: "(int \<times> int) option"

definition SELECT :: string where
  "SELECT = ''SELECT event_id, ts, kind, module, action, severity, payload_json''"

definition cq_sql :: "compiled_query \<Rightarrow> string" where
  "cq_sql q =
     SELECT @ [CHR 0x0A] @ ''FROM events_enriched'' @ [CHR 0x0A]
     @ ''WHERE '' @ join_with '' AND '' (map clause_text (cq_clauses q)) @ [CHR 0x0A]
     @ ''ORDER BY ts DESC, event_id DESC'' @ [CHR 0x0A] @ ''LIMIT ?''"

definition resolve_limit :: "int option \<Rightarrow> hunt_error + int" where
  "resolve_limit limit =
     (case limit of
        None \<Rightarrow> Inr DEFAULT_LIMIT
      | Some n \<Rightarrow>
          if n \<le> 0 then Inl (Hunt_error HuntBoundsError (''limit must be positive, got '' @ int_str n))
          else Inr (min n MAX_LIMIT))"

definition EMPTY_QUERY :: string where
  "EMPTY_QUERY = ''empty query: write a predicate, for example '' @ quote_sql (''process.name == '' @ CHR 0x22 # ''curl'' @ [CHR 0x22])"

definition add_clause :: "('a \<Rightarrow> param list \<Rightarrow> clause \<times> param list) \<Rightarrow> 'a option \<Rightarrow> clause list \<times> param list \<Rightarrow> clause list \<times> param list" where
  "add_clause f x = (\<lambda>(cs, ps).
     case x of None \<Rightarrow> (cs, ps) | Some v \<Rightarrow> (case f v ps of (c, ps') \<Rightarrow> (cs @ [c], ps')))"

definition ingest_clause :: "int \<times> int \<Rightarrow> param list \<Rightarrow> clause \<times> param list" where
  "ingest_clause b ps =
     (case bind (P_int (fst b)) ps of (n, ps1) \<Rightarrow> (case bind (P_int (snd b)) ps1 of (k, ps2) \<Rightarrow> (C_ingest n k, ps2)))"

definition compile_window ::
  "(string \<Rightarrow> string option) \<Rightarrow> string \<Rightarrow> datetime option \<Rightarrow> datetime option \<Rightarrow> int
     \<Rightarrow> (int \<times> int) option \<Rightarrow> hunt_error + compiled_query" where
  "compile_window re_error expression since until lim_n ingest =
     (let parsed = parse_expression expression
      in if parsed = [] then Inl (Hunt_error HuntSyntaxError EMPTY_QUERY)
         else case compile_parsed re_error parsed [] of
                Inl e \<Rightarrow> Inl e
              | Inr (gs, ps) \<Rightarrow>
                  (case add_clause ingest_clause ingest
                          (add_clause (\<lambda>v ps. map_prod C_until id (bind (P_time v) ps)) until
                            (add_clause (\<lambda>v ps. map_prod C_since id (bind (P_time v) ps)) since ([C_match gs], ps))) of
                     (cs, ps1) \<Rightarrow>
                       (case bind (P_int (lim_n + 1)) ps1 of
                          (n, ps2) \<Rightarrow>
                            Inr \<lparr>cq_expression = expression, cq_clauses = cs, cq_limit_at = n, cq_params = ps2,
                                 cq_limit = lim_n, cq_since = since, cq_until = until, cq_ingest = ingest\<rparr>)))"

definition compile_hunt_query ::
  "(string \<Rightarrow> string option) \<Rightarrow> (datetime \<Rightarrow> string) \<Rightarrow> string \<Rightarrow> datetime option \<Rightarrow> datetime option \<Rightarrow> int option
     \<Rightarrow> (int \<times> int) option \<Rightarrow> hunt_error + compiled_query" where
  "compile_hunt_query re_error isof expression since until limit ingest =
     (case resolve_limit limit of
        Inl e \<Rightarrow> Inl e
      | Inr lim_n \<Rightarrow>
          (case (since, until) of
             (Some s, Some u) \<Rightarrow>
               if s > u then Inl (Hunt_error HuntBoundsError (''since ('' @ isof s @ '') is after until ('' @ isof u @ '')''))
               else compile_window re_error expression since until lim_n ingest
           | _ \<Rightarrow> compile_window re_error expression since until lim_n ingest))"

section \<open>Running a query\<close>

text \<open>
  The functions of DuckDB a query calls: the JSON type and text at a path of the payload, \<^verbatim>\<open>regexp_matches\<close>,
  \<^verbatim>\<open>TRY_CAST(... AS DOUBLE)\<close>, the string functions, and whether the engine refuses a statement. The dash of the
  error message is outside the character model and written as a hyphen.
\<close>

record duckdb =
  db_json_type :: "string \<Rightarrow> string list \<Rightarrow> string option"
  db_json_text :: "string \<Rightarrow> string list \<Rightarrow> string option"
  db_regexp_matches :: "string \<Rightarrow> string \<Rightarrow> bool"
  db_try_double :: "string \<Rightarrow> real option"
  db_string_call :: "string \<Rightarrow> string \<Rightarrow> string \<Rightarrow> bool"
  db_refuses :: "string \<Rightarrow> param list \<Rightarrow> bool"

text \<open>SQL's three-valued logic.\<close>

fun and3 :: "bool option \<Rightarrow> bool option \<Rightarrow> bool option" where
  "and3 (Some False) y = Some False"
| "and3 x (Some False) = Some False"
| "and3 (Some True) (Some True) = Some True"
| "and3 _ _ = None"

fun or3 :: "bool option \<Rightarrow> bool option \<Rightarrow> bool option" where
  "or3 (Some True) y = Some True"
| "or3 x (Some True) = Some True"
| "or3 (Some False) (Some False) = Some False"
| "or3 _ _ = None"

definition column_value :: "string \<Rightarrow> event_row \<Rightarrow> string option" where
  "column_value c r =
     (if c = ''kind'' then Some (er_kind r) else if c = ''module'' then Some (er_module r)
      else if c = ''action'' then Some (er_action r) else if c = ''severity'' then Some (er_severity r) else None)"

fun operand_value :: "duckdb \<Rightarrow> event_row \<Rightarrow> operand \<Rightarrow> string option" where
  "operand_value D r (Column c) = column_value c r"
| "operand_value D r (Json_path segs) = db_json_text D (er_payload r) segs"
| "operand_value D r Missing = None"

fun text_param :: "param list \<Rightarrow> nat \<Rightarrow> string option" where
  "text_param ps n = (if n < length ps then (case ps ! n of P_text s \<Rightarrow> Some s | _ \<Rightarrow> None) else None)"

fun double_param :: "param list \<Rightarrow> nat \<Rightarrow> real option" where
  "double_param ps n = (if n < length ps then (case ps ! n of P_double d \<Rightarrow> Some d | _ \<Rightarrow> None) else None)"

fun int_param :: "param list \<Rightarrow> nat \<Rightarrow> int option" where
  "int_param ps n = (if n < length ps then (case ps ! n of P_int i \<Rightarrow> Some i | _ \<Rightarrow> None) else None)"

fun time_param :: "param list \<Rightarrow> nat \<Rightarrow> datetime option" where
  "time_param ps n = (if n < length ps then (case ps ! n of P_time t \<Rightarrow> Some t | _ \<Rightarrow> None) else None)"

definition lift2 :: "('a \<Rightarrow> 'b \<Rightarrow> 'c option) \<Rightarrow> 'a option \<Rightarrow> 'b option \<Rightarrow> 'c option" where
  "lift2 f x y = (case (x, y) of (Some a, Some b) \<Rightarrow> f a b | _ \<Rightarrow> None)"

fun sql_eval :: "duckdb \<Rightarrow> event_row \<Rightarrow> param list \<Rightarrow> sql \<Rightarrow> bool option" where
  "sql_eval D r ps S_true = Some True"
| "sql_eval D r ps S_false = Some False"
| "sql_eval D r ps (S_type_eq segs t) = map_option (\<lambda>u. u = t) (db_json_type D (er_payload r) segs)"
| "sql_eval D r ps (S_type_number segs) = map_option (\<lambda>u. u \<in> set JSON_NUMBER_TYPES) (db_json_type D (er_payload r) segs)"
| "sql_eval D r ps (S_text_eq oper n) = lift2 (\<lambda>u s. Some (u = s)) (operand_value D r oper) (text_param ps n)"
| "sql_eval D r ps (S_double_eq oper n) =
     and3 (map_option (\<lambda>u. \<not> db_regexp_matches D u JSON_INTEGER_TOKEN) (operand_value D r oper))
       (lift2 (\<lambda>x d. Some (x = d)) (Option.bind (operand_value D r oper) (db_try_double D)) (double_param ps n))"
| "sql_eval D r ps (S_call f oper n) =
     lift2 (\<lambda>u s. Some (if f = ''regexp_matches'' then db_regexp_matches D u s else db_string_call D f u s))
       (operand_value D r oper) (text_param ps n)"
| "sql_eval D r ps (S_guarded g b) = and3 (sql_eval D r ps g) (sql_eval D r ps b)"
| "sql_eval D r ps (S_or parts) = foldr or3 (map (sql_eval D r ps) parts) (Some False)"
| "sql_eval D r ps (S_is positive p) = Some ((sql_eval D r ps p = Some True) = positive)"
| "sql_eval D r ps (S_not p) = map_option Not (sql_eval D r ps p)"

definition groups_eval :: "duckdb \<Rightarrow> event_row \<Rightarrow> param list \<Rightarrow> sql list list \<Rightarrow> bool option" where
  "groups_eval D r ps gs =
     foldr or3 (map (\<lambda>g. foldr and3 (map (sql_eval D r ps) g) (Some True)) gs) (Some False)"

fun clause_eval :: "duckdb \<Rightarrow> event_row \<Rightarrow> param list \<Rightarrow> clause \<Rightarrow> bool option" where
  "clause_eval D r ps (C_match gs) = groups_eval D r ps gs"
| "clause_eval D r ps (C_since n) = map_option (\<lambda>t. er_ts r \<ge> t) (time_param ps n)"
| "clause_eval D r ps (C_until n) = map_option (\<lambda>t. er_ts r \<le> t) (time_param ps n)"
| "clause_eval D r ps (C_ingest n k) =
     and3 (map_option (\<lambda>low. int (er_seq r) > low) (int_param ps n)) (map_option (\<lambda>high. int (er_seq r) \<le> high) (int_param ps k))"

definition newest_first :: "event_row list \<Rightarrow> event_row list" where
  "newest_first rows = rev (sort_key (\<lambda>r. (er_ts r, er_id r)) rows)"

definition fetch_rows :: "duckdb \<Rightarrow> compiled_query \<Rightarrow> event_row list \<Rightarrow> event_row list" where
  "fetch_rows D q rows =
     (let selected = filter (\<lambda>r. foldr and3 (map (clause_eval D r (cq_params q)) (cq_clauses q)) (Some True) = Some True) rows
      in case int_param (cq_params q) (cq_limit_at q) of
           None \<Rightarrow> newest_first selected
         | Some n \<Rightarrow> take (nat n) (newest_first selected))"

record hunt_result =
  hres_rows :: "event_row list"
  hres_truncated :: bool
  hres_limit :: int

definition run_hunt_query :: "duckdb \<Rightarrow> event_row list \<Rightarrow> compiled_query \<Rightarrow> hunt_error + hunt_result" where
  "run_hunt_query D rows q =
     (if db_refuses D (cq_sql q) (cq_params q)
      then Inl (Hunt_error HuntExecutionError (''the database could not run this query: '' @ cq_expression q
             @ ''. It compiled, so this is a limit of the query engine rather than a syntax problem ''
             @ ''- check any regular expression in it. The daemon log has the database'' @ CHR 0x27 # ''s own message.''))
      else (let fetched = fetch_rows D q rows
            in Inr \<lparr>hres_rows = take (nat (cq_limit q)) fetched, hres_truncated = (int (length fetched) > cq_limit q),
                    hres_limit = cq_limit q\<rparr>))"

end
