(* ===== verification/Hunt_Fidelity.thy ===== *)
theory Hunt_Fidelity
  imports Hunt_Compiler
begin

text \<open>
  Semantic fidelity of the hunt compiler: a hunt selects the events that the rule engine, given the same expression,
  matches in memory.
\<close>

section \<open>What the database promises\<close>

text \<open>The JSON functions at a path that holds the value \<open>v\<close>. A number that was a Python float is written with a point or
  an exponent and read back as the same double.\<close>

definition int_token :: "string \<Rightarrow> bool" where
  "int_token u = (let t = (if startswith u ''-'' then tl u else u) in t \<noteq> [] \<and> list_all ascii_digit t)"

fun json_view :: "duckdb \<Rightarrow> string \<Rightarrow> string list \<Rightarrow> pyval \<Rightarrow> bool" where
  "json_view D p segs (PStr s) = (db_json_type D p segs = Some ''VARCHAR'' \<and> db_json_text D p segs = Some s)"
| "json_view D p segs (PBool b) = (db_json_type D p segs = Some ''BOOLEAN'' \<and> db_json_text D p segs = Some (bool_text b))"
| "json_view D p segs (PInt i) =
     ((\<exists>t\<in>set JSON_NUMBER_TYPES. db_json_type D p segs = Some t) \<and> db_json_text D p segs = Some (int_str i))"
| "json_view D p segs (PFloat x) =
     (db_json_type D p segs = Some ''DOUBLE''
      \<and> (\<exists>t. db_json_text D p segs = Some t \<and> \<not> int_token t \<and> db_try_double D t = Some x)
      \<and> (\<forall>i. x = of_int i \<longrightarrow> is_double i))"
| "json_view D p segs PNone = (db_json_type D p segs \<in> {None, Some ''NULL''})"
| "json_view D p segs (PList xs) = (db_json_type D p segs = Some ''ARRAY'')"
| "json_view D p segs (PDict d) = (db_json_type D p segs = Some ''OBJECT'')"
| "json_view D p segs v = False"

definition engine_laws :: "duckdb \<Rightarrow> bool" where
  "engine_laws D \<longleftrightarrow>
     (\<forall>u. db_regexp_matches D u JSON_INTEGER_TOKEN = int_token u)
     \<and> (\<forall>u s. db_string_call D ''starts_with'' u s = startswith u s)
     \<and> (\<forall>u s. db_string_call D ''ends_with'' u s = endswith u s)
     \<and> (\<forall>u s. db_string_call D ''contains'' u s = contains u s)"

text \<open>A row that stores an event: the columns \<open>insert_event\<close> writes, and a payload in which the JSON functions see the
  event's fields. The time stamp is text in the payload and a point in time in memory, so it is left out.\<close>

definition stores :: "duckdb \<Rightarrow> event \<Rightarrow> event_row \<Rightarrow> bool" where
  "stores D e r \<longleftrightarrow>
     er_id r = ev_id e \<and> er_ts r = ev_ts e \<and> er_kind r = event_kind_value (ev_kind e) \<and> er_module r = ev_module e
     \<and> er_action r = ev_action e \<and> er_severity r = severity_value (ev_severity e)
     \<and> (\<forall>segs. segs \<noteq> [] \<and> segs \<noteq> [''ts''] \<longrightarrow> json_view D (er_payload r) segs (walk_dict (PDict (event_fields e)) segs))"

section \<open>Which expressions\<close>

text \<open>Every path starts at a field of the event schema.\<close>

definition FIELDS :: "string list" where
  "FIELDS = [''schema_version'', ''ts'', ''event_id'', ''kind'', ''category'', ''type'', ''action'', ''outcome'', ''severity'',
     ''module'', ''first_seen'', ''host'', ''user'', ''process'', ''file'', ''source'', ''destination'', ''network'',
     ''service'', ''package'', ''device'', ''persistence'', ''vulnerability'', ''hunt'', ''rule'', ''threat'', ''baseline'',
     ''evidence'', ''raw'', ''labels'', ''message'']"

definition declared_path :: "string \<Rightarrow> bool" where
  "declared_path path =
     (case path_segments path of
        a # b # _ \<Rightarrow> (if a = ''event'' then b \<in> set FIELDS else a \<in> set FIELDS)
      | _ \<Rightarrow> True)"

fun declared_node :: "node \<Rightarrow> bool" where
  "declared_node (Leaf path op rhs neg) = declared_path path"
| "declared_node (InvalidLeaf t neg) = True"

fun node_patterns :: "node \<Rightarrow> string list" where
  "node_patterns (Leaf path op rhs neg) = (if op = ''MATCHES'' then (case parse_literal rhs of LStr s \<Rightarrow> [s] | _ \<Rightarrow> []) else [])"
| "node_patterns (InvalidLeaf t neg) = []"

text \<open>The two regular expression engines agree on the patterns the expression uses.\<close>

definition regex_agree :: "duckdb \<Rightarrow> (string \<Rightarrow> string \<Rightarrow> eval_error + bool) \<Rightarrow> node list \<Rightarrow> bool" where
  "regex_agree D re_search ns \<longleftrightarrow>
     (\<forall>n\<in>set ns. \<forall>pat\<in>set (node_patterns n). \<forall>s. re_search pat s = Inr (db_regexp_matches D s pat))"

section \<open>Three-valued logic\<close>

lemma and3_True [simp]: "and3 x y = Some True \<longleftrightarrow> x = Some True \<and> y = Some True"
  by (cases "(x, y)" rule: and3.cases) auto

lemma or3_True [simp]: "or3 x y = Some True \<longleftrightarrow> x = Some True \<or> y = Some True"
  by (cases "(x, y)" rule: or3.cases) auto

lemma foldr_or3_True [simp]: "foldr or3 xs (Some False) = Some True \<longleftrightarrow> Some True \<in> set xs"
  by (induction xs) auto

lemma foldr_and3_True [simp]: "foldr and3 xs (Some True) = Some True \<longleftrightarrow> set xs \<subseteq> {Some True}"
  by (induction xs) auto

section \<open>Placeholders\<close>

lemma text_param_bound [simp]: "text_param (ps @ P_text s # qs) (length ps) = Some s"
  by simp

lemma double_param_bound [simp]: "double_param (ps @ P_double d # qs) (length ps) = Some d"
  by simp

declare text_param.simps [simp del] double_param.simps [simp del]

abbreviation is_true :: "duckdb \<Rightarrow> event_row \<Rightarrow> param list \<Rightarrow> sql \<Rightarrow> bool" where
  "is_true D r ps p \<equiv> sql_eval D r ps p = Some True"

definition any_true :: "duckdb \<Rightarrow> event_row \<Rightarrow> param list \<Rightarrow> sql list \<Rightarrow> bool" where
  "any_true D r ps parts \<longleftrightarrow> (\<exists>p\<in>set parts. is_true D r ps p)"

lemma any_true_simps [simp]:
  "any_true D r ps [] = False" "any_true D r ps (p # parts) = (is_true D r ps p \<or> any_true D r ps parts)"
  "any_true D r ps (xs @ ys) = (any_true D r ps xs \<or> any_true D r ps ys)"
  by (auto simp: any_true_def)

lemma disjoin_True [simp]: "is_true D r ps (disjoin parts) \<longleftrightarrow> any_true D r ps parts"
proof (cases parts rule: remdups_adj.cases)
  case (3 x y zs)
  then show ?thesis by (auto simp: disjoin_def any_true_def image_iff) metis+
qed (simp_all add: disjoin_def)

lemma guarded_True [simp]: "is_true D r ps (guarded g b) \<longleftrightarrow> is_true D r ps g \<and> is_true D r ps b"
  by (simp add: guarded_def)

text \<open>Guards bind nothing.\<close>

fun guard_holds :: "duckdb \<Rightarrow> event_row \<Rightarrow> sql \<Rightarrow> bool" where
  "guard_holds D r S_true = True"
| "guard_holds D r (S_type_eq segs t) = (db_json_type D (er_payload r) segs = Some t)"
| "guard_holds D r (S_type_number segs) = (\<exists>t\<in>set JSON_NUMBER_TYPES. db_json_type D (er_payload r) segs = Some t)"
| "guard_holds D r _ = False"

definition guard :: "sql \<Rightarrow> bool" where
  "guard g \<longleftrightarrow> (case g of S_true \<Rightarrow> True | S_false \<Rightarrow> True | S_type_eq _ _ \<Rightarrow> True | S_type_number _ \<Rightarrow> True | _ \<Rightarrow> False)"

lemma guards [simp]: "guard (is_string oper)" "guard (is_number oper)" "guard (is_boolean oper)"
  by (cases oper; simp add: guard_def)+

lemma guard_True: "guard g \<Longrightarrow> is_true D r ps g \<longleftrightarrow> guard_holds D r g"
  by (cases g) (auto simp: guard_def)

lemma append_typed_meaning:
  assumes "append_typed g oper v (parts, ps) = (parts', ps')" "guard g"
  shows "\<exists>new. ps' = ps @ new \<and> (\<forall>qs. any_true D r (ps' @ qs) parts' \<longleftrightarrow>
    any_true D r (ps' @ qs) parts \<or> guard_holds D r g \<and> operand_value D r oper = Some v)"
  using assms
  by (auto simp: append_typed_def bind_def lift2_def guard_True split: if_splits option.splits)

lemma append_numeric_meaning:
  assumes "append_numeric oper v (parts, ps) = (parts', ps')"
  shows "\<exists>new. ps' = ps @ new \<and> (\<forall>qs. any_true D r (ps' @ qs) parts' \<longleftrightarrow>
    any_true D r (ps' @ qs) parts \<or> guard_holds D r (is_number oper) \<and> (operand_value D r oper = Some (int_str v)
      \<or> is_double v \<and> (\<exists>t. operand_value D r oper = Some t \<and> \<not> db_regexp_matches D t JSON_INTEGER_TOKEN
          \<and> db_try_double D t = Some (of_int v))))"
proof (cases "is_number oper = S_false \<or> lossless_double v = None")
  case True
  then show ?thesis using assms
    by (auto simp: append_numeric_def bind_def lift2_def guard_True Let_def lossless_double_def split: if_splits option.splits)
next
  case False
  then have d: "is_double v" by (auto simp: lossless_double_def split: if_splits)
  have "ps @ P_text (int_str v) # P_double (real_of_int v) # qs = (ps @ [P_text (int_str v)]) @ P_double (real_of_int v) # qs" for qs
    by simp
  then have "double_param (ps @ P_text (int_str v) # P_double (real_of_int v) # qs) (Suc (length ps)) = Some (real_of_int v)" for qs
    using double_param_bound[of "ps @ [P_text (int_str v)]"] by simp
  then show ?thesis using assms False d
    by (auto simp: append_numeric_def bind_def lift2_def guard_True Let_def lossless_double_def bind_eq_Some_conv split: option.splits)
qed

section \<open>Operators\<close>

text \<open>What an operand stands for.\<close>

fun denotes :: "duckdb \<Rightarrow> event_row \<Rightarrow> operand \<Rightarrow> pyval \<Rightarrow> bool" where
  "denotes D r (Column c) v = (\<exists>s. v = PStr s \<and> column_value c r = Some s)"
| "denotes D r (Json_path segs) v = json_view D (er_payload r) segs v"
| "denotes D r Missing v = (v = PNone \<or> (\<exists>d. v = PDict d))"

lemma int_token_int_str: "int_token (int_str i)"
proof -
  have d: "nat_str n \<noteq> [] \<and> list_all ascii_digit (nat_str n)" for n using nat_str_digits[of n] nat_str_nonempty[of n] by (auto simp: list_all_iff)
  moreover have "\<not> startswith (nat_str n) ''-''" for n
    using d[of n] by (cases "nat_str n") (auto simp: ascii_digit_def)
  ultimately show ?thesis by (simp add: int_token_def int_str_def Let_def)
qed

lemma operand_string:
  "denotes D r oper v \<Longrightarrow> guard_holds D r (is_string oper) \<and> operand_value D r oper = Some s \<longleftrightarrow> v = PStr s"
  by (cases oper; cases v) (auto simp: JSON_NUMBER_TYPES_def)

lemma operand_boolean:
  "denotes D r oper v \<Longrightarrow> guard_holds D r (is_boolean oper) \<and> operand_value D r oper = Some (bool_text b) \<longleftrightarrow> v = PBool b"
  by (cases oper; cases v) (auto simp: JSON_NUMBER_TYPES_def bool_text_def)

lemma operand_number:
  assumes "denotes D r oper v" "engine_laws D"
  shows "guard_holds D r (is_number oper) \<and> (operand_value D r oper = Some (int_str i)
      \<or> is_double i \<and> (\<exists>t. operand_value D r oper = Some t \<and> \<not> db_regexp_matches D t JSON_INTEGER_TOKEN
          \<and> db_try_double D t = Some (of_int i)))
    \<longleftrightarrow> v = PInt i \<or> v = PFloat (of_int i)"
proof -
  have token: "db_regexp_matches D u JSON_INTEGER_TOKEN = int_token u" for u using assms(2) by (simp add: engine_laws_def)
  have num_text: "int_str a = int_str b \<longleftrightarrow> a = b" for a b using int_str_inj by (auto dest: injD)
  show ?thesis using assms(1)
    by (cases oper; cases v) (auto simp: JSON_NUMBER_TYPES_def token num_text int_token_int_str)
qed

lemma eq_literal_number:
  "eq_literal v (LInt i) \<longleftrightarrow> v = PInt i \<or> v = PFloat (of_int i) \<or> (i = 1 \<and> v = PBool True) \<or> (i = 0 \<and> v = PBool False)"
  "eq_literal v (LBool b) \<longleftrightarrow> v = PBool b \<or> v = PInt (if b then 1 else 0) \<or> v = PFloat (if b then 1 else 0)"
  by (cases v; auto simp: eq_literal_def)+

lemma equals_meaning:
  assumes "equals oper lit ps = (p, ps')" "denotes D r oper v" "engine_laws D"
  shows "\<exists>new. ps' = ps @ new \<and> (\<forall>qs. is_true D r (ps' @ qs) p \<longleftrightarrow> eq_literal v lit)"
proof (cases "oper = Missing")
  case True
  then show ?thesis using assms by (cases lit) (auto simp: equals_def eq_literal_def)
next
  case False
  note num = operand_number[OF assms(2,3)] and bool = operand_boolean[OF assms(2)]
  show ?thesis
  proof (cases lit)
    case (LStr s)
    obtain parts where a: "append_typed (is_string oper) oper s ([], ps) = (parts, ps')" "p = disjoin parts"
      using assms(1) False LStr by (auto simp: equals_def split: prod.splits)
    from append_typed_meaning[OF a(1), of D r] a(2) operand_string[OF assms(2)] show ?thesis
      by (auto simp: LStr eq_literal_def)
  next
    case (LInt i)
    obtain parts1 ps1 where a: "append_numeric oper i ([], ps) = (parts1, ps1)" by (cases "append_numeric oper i ([], ps)")
    from append_numeric_meaning[OF this, of D r] obtain new1 where n1: "ps1 = ps @ new1"
      "\<And>qs. any_true D r (ps1 @ qs) parts1 \<longleftrightarrow> v = PInt i \<or> v = PFloat (of_int i)" using num[of i] by auto
    show ?thesis
    proof (cases "i = 0 \<or> i = 1")
      case True
      obtain parts where b: "append_typed (is_boolean oper) oper (bool_text (i = 1)) (parts1, ps1) = (parts, ps')" "p = disjoin parts"
        using assms(1) False LInt True a by (auto simp: equals_def Let_def split: prod.splits)
      from append_typed_meaning[OF b(1), of D r] obtain new2 where n2: "ps' = ps1 @ new2"
        "\<And>qs. any_true D r (ps' @ qs) parts \<longleftrightarrow> any_true D r (ps' @ qs) parts1 \<or> v = PBool (i = 1)" using bool by auto
      then show ?thesis using n1 True b(2) by (auto simp: LInt eq_literal_number)
    next
      case F: False
      then show ?thesis using assms(1) False LInt a n1 by (auto simp: equals_def Let_def eq_literal_number)
    qed
  next
    case (LBool b)
    obtain parts1 ps1 where a: "append_typed (is_boolean oper) oper (bool_text b) ([], ps) = (parts1, ps1)"
      by (cases "append_typed (is_boolean oper) oper (bool_text b) ([], ps)")
    from append_typed_meaning[OF this, of D r] obtain new1 where n1: "ps1 = ps @ new1"
      "\<And>qs. any_true D r (ps1 @ qs) parts1 \<longleftrightarrow> v = PBool b" using bool by auto
    obtain parts where c: "append_numeric oper (if b then 1 else 0) (parts1, ps1) = (parts, ps')" "p = disjoin parts"
      using assms(1) False LBool a by (auto simp: equals_def split: prod.splits)
    from append_numeric_meaning[OF c(1), of D r] obtain new2 where n2: "ps' = ps1 @ new2"
      "\<And>qs. any_true D r (ps' @ qs) parts \<longleftrightarrow> any_true D r (ps' @ qs) parts1
         \<or> v = PInt (if b then 1 else 0) \<or> v = PFloat (of_int (if b then 1 else 0))" using num by auto
    then show ?thesis using n1 c(2) by (auto simp: LBool eq_literal_number)
  qed
qed

lemma equals_each_meaning:
  assumes "equals_each oper ls ps = (parts, ps')" "denotes D r oper v" "engine_laws D"
  shows "\<exists>new. ps' = ps @ new \<and> (\<forall>qs. any_true D r (ps' @ qs) parts \<longleftrightarrow> (\<exists>l\<in>set ls. eq_literal v l))"
  using assms(1,2)
proof (induction oper ls ps arbitrary: parts ps' rule: equals_each.induct)
  case (1 oper ps)
  then show ?case by simp
next
  case (2 oper l ls ps)
  obtain p ps1 where p: "equals oper l ps = (p, ps1)" by (cases "equals oper l ps")
  obtain qs1 ps2 where q: "equals_each oper ls ps1 = (qs1, ps2)" by (cases "equals_each oper ls ps1")
  from equals_meaning[OF p] "2.prems"(2) assms(3) obtain new1 where n1: "ps1 = ps @ new1"
    "\<And>qs. is_true D r (ps1 @ qs) p \<longleftrightarrow> eq_literal v l" by blast
  from "2.IH"[OF p[symmetric] q] "2.prems"(2) obtain new2 where n2: "ps2 = ps1 @ new2"
    "\<And>qs. any_true D r (ps2 @ qs) qs1 \<longleftrightarrow> (\<exists>l\<in>set ls. eq_literal v l)" by blast
  have "parts = (if p = S_false then qs1 else p # qs1)" "ps' = ps2" using "2.prems"(1) p q by auto
  then show ?case using n1 n2 by auto
qed

section \<open>Paths\<close>

lemma map_fst_event_fields: "map fst (event_fields e) = FIELDS"
  by (simp add: event_fields_def FIELDS_def)

lemma event_attr_declared: "a \<in> set FIELDS \<Longrightarrow> event_attr base e a = dget (event_fields e) a"
proof -
  assume "a \<in> set FIELDS"
  then obtain v where "map_of (event_fields e) a = Some v"
    unfolding map_fst_event_fields[of e, symmetric] by (metis image_set map_of_eq_None_iff not_None_eq)
  then show ?thesis by (simp add: event_attr_def dget_def)
qed

lemma walk_dict_non_dict: "\<forall>d. v \<noteq> PDict d \<Longrightarrow> walk_dict v (s # segs) = PNone"
  by (cases v) auto

lemma dget_columns:
  "dget (event_fields e) ''kind'' = PStr (event_kind_value (ev_kind e))" "dget (event_fields e) ''module'' = PStr (ev_module e)"
  "dget (event_fields e) ''action'' = PStr (ev_action e)" "dget (event_fields e) ''severity'' = PStr (severity_value (ev_severity e))"
  by (simp_all add: event_fields_def)

lemma operand_for_denotes:
  assumes "operand_for path = Inr oper" "stores D e r" "declared_path path"
  shows "denotes D r oper (resolve_path base path e)"
proof (cases "path_segments path")
  case Nil
  then show ?thesis using assms(1) by (simp add: operand_for_def resolve_path_def)
next
  case (Cons a rest)
  show ?thesis
  proof (cases rest)
    case Nil
    have "oper = Missing" using assms(1) Cons Nil by (auto simp: operand_for_def Let_def split: option.splits if_splits)
    then show ?thesis using Cons Nil by (auto simp: resolve_path_def split: pyval.splits)
  next
    case (Cons b deeper)
    note segs = \<open>path_segments path = a # rest\<close> Cons
    have view: "json_view D (er_payload r) (x # xs) (walk_dict (dget (event_fields e) x) xs)" if "x \<noteq> ''ts'' \<or> xs \<noteq> []" for x xs
      using assms(2) that unfolding stores_def by (metis list.distinct(1) list.inject walk_dict.simps(2))
    show ?thesis
    proof (cases "a = ''event''")
      case True
      have b: "b \<in> set FIELDS" using assms(3) segs True by (simp add: declared_path_def)
      have r: "resolve_path base path e = walk_dict (dget (event_fields e) b) deeper"
        using segs True event_attr_declared[OF b] by (simp add: resolve_path_def)
      show ?thesis
      proof (cases "deeper = [] \<and> map_of COLUMN_PATHS b \<noteq> None")
        case True
        then show ?thesis using assms(1,2) segs \<open>a = ''event''\<close> r
          by (auto simp: operand_for_def Let_def COLUMN_PATHS_def column_value_def stores_def dget_columns
              split: option.splits if_splits)
      next
        case False
        then have "oper = Json_path (b # deeper)" "b \<noteq> ''ts''"
          using assms(1) segs \<open>a = ''event''\<close> by (auto simp: operand_for_def Let_def split: option.splits if_splits list.splits)
        then show ?thesis using view r by simp
      qed
    next
      case False
      have a: "a \<in> set FIELDS" using assms(3) segs False by (simp add: declared_path_def)
      have o: "oper = Json_path (a # b # deeper)"
        using assms(1) segs False by (auto simp: operand_for_def Let_def split: option.splits)
      have r: "resolve_path base path e = walk_dict (dget (event_fields e) a) (b # deeper)"
        using segs False event_attr_declared[OF a, of base e] walk_dict_non_dict[of "dget (event_fields e) a"]
        by (auto simp: resolve_path_def split: pyval.splits)
      show ?thesis using view o r by simp
    qed
  qed
qed

section \<open>Leaves, groups, expressions\<close>

lemma truth_True: "truth positive (p, ps) = (S_is positive p, ps)"
  by (simp add: truth_def)

definition sql_call :: "duckdb \<Rightarrow> string \<Rightarrow> string \<Rightarrow> string \<Rightarrow> bool" where
  "sql_call D f u s = (if f = ''regexp_matches'' then db_regexp_matches D u s else db_string_call D f u s)"

lemma call_meaning:
  assumes "denotes D r oper v"
  shows "is_true D r (ps @ P_text s # qs) (guarded (is_string oper) (S_call f oper (length ps)))
    \<longleftrightarrow> (\<exists>u. v = PStr u \<and> sql_call D f u s)"
proof -
  have "is_true D r (ps @ P_text s # qs) (guarded (is_string oper) (S_call f oper (length ps)))
    \<longleftrightarrow> (\<exists>u. (guard_holds D r (is_string oper) \<and> operand_value D r oper = Some u) \<and> sql_call D f u s)"
    by (cases "operand_value D r oper") (simp_all add: lift2_def guard_True sql_call_def)
  then show ?thesis unfolding operand_string[OF assms] .
qed

text \<open>A compiled string operator: nothing for an operand that is never a string, else a call with the literal bound.\<close>

lemma string_op_meaning:
  assumes "(if is_string oper = S_false then (S_false, ps) else (guarded (is_string oper) (S_call f oper (length ps)), ps @ [P_text s]))
      = (p, ps')" "denotes D r oper v" "\<And>u. G u = Inr (sql_call D f u s)"
  shows "\<exists>new b. ps' = ps @ new \<and> (\<forall>qs. is_true D r (ps' @ qs) p \<longleftrightarrow> b) \<and> (case v of PStr u \<Rightarrow> G u | _ \<Rightarrow> Inr False) = Inr b"
proof (cases "is_string oper = S_false")
  case True
  then have "p = S_false" "ps' = ps" "\<forall>u. v \<noteq> PStr u" using assms(1) operand_string[OF assms(2)] by auto
  then show ?thesis by (auto split: pyval.split)
next
  case False
  then have p: "p = guarded (is_string oper) (S_call f oper (length ps))" "ps' = ps @ [P_text s]" using assms(1) by auto
  let ?b = "\<exists>u. v = PStr u \<and> sql_call D f u s"
  have "\<forall>qs. is_true D r (ps' @ qs) p \<longleftrightarrow> ?b" using call_meaning[OF assms(2)] by (simp add: p)
  moreover have "(case v of PStr u \<Rightarrow> G u | _ \<Rightarrow> Inr False) = Inr ?b" using assms(3) by (cases v) auto
  ultimately show ?thesis using p(2) by blast
qed

lemma string_call_meaning:
  assumes "string_call oper op func rhs ps = Inr (p, ps')" "denotes D r oper v" "engine_laws D" "map_of STRING_FUNCS op = Some func"
  shows "\<exists>new b. ps' = ps @ new \<and> (\<forall>qs. is_true D r (ps' @ qs) p \<longleftrightarrow> b)
    \<and> (case v of PStr u \<Rightarrow> str_op re_search op u (parse_literal rhs) | _ \<Rightarrow> Inr False) = Inr b"
proof -
  obtain s where s: "parse_literal rhs = LStr s" using assms(1) by (auto simp: string_call_def string_literal_def split: literal.splits)
  have g: "str_op re_search op u (parse_literal rhs) = Inr (sql_call D func u s)" for u
    using assms(3,4) by (auto simp: engine_laws_def str_op_def s sql_call_def STRING_FUNCS_def split: if_splits)
  have c: "(if is_string oper = S_false then (S_false, ps)
      else (guarded (is_string oper) (S_call func oper (length ps)), ps @ [P_text s])) = (p, ps')"
    using assms(1) by (simp add: string_call_def string_literal_def s bind_def Let_def split: if_splits)
  show ?thesis by (rule string_op_meaning[OF c assms(2) g])
qed

lemma matches_meaning:
  assumes "compile_matches re_error oper rhs ps = Inr (p, ps')" "denotes D r oper v"
    "\<forall>pat\<in>set (node_patterns (Leaf path ''MATCHES'' rhs neg)). \<forall>s. re_search pat s = Inr (db_regexp_matches D s pat)"
  shows "\<exists>new b. ps' = ps @ new \<and> (\<forall>qs. is_true D r (ps' @ qs) p \<longleftrightarrow> b)
    \<and> (case v of PStr u \<Rightarrow> str_op re_search ''MATCHES'' u (parse_literal rhs) | _ \<Rightarrow> Inr False) = Inr b"
proof -
  obtain s where s: "parse_literal rhs = LStr s" using assms(1) by (auto simp: compile_matches_def string_literal_def split: literal.splits)
  have g: "str_op re_search ''MATCHES'' u (parse_literal rhs) = Inr (sql_call D ''regexp_matches'' u s)" for u
    using assms(3) by (simp add: s str_op_def sql_call_def)
  have c: "(if is_string oper = S_false then (S_false, ps)
      else (guarded (is_string oper) (S_call ''regexp_matches'' oper (length ps)), ps @ [P_text s])) = (p, ps')"
    using assms(1) by (simp add: compile_matches_def string_literal_def s bind_def Let_def split: if_splits option.splits)
  show ?thesis by (rule string_op_meaning[OF c assms(2) g])
qed

lemma compile_leaf_meaning:
  assumes c: "compile_leaf re_error path op rhs ps = Inr (p, ps')" and st: "stores D e r" and en: "engine_laws D"
    and path: "declared_path path"
    and re: "\<forall>pat\<in>set (node_patterns (Leaf path op rhs neg)). \<forall>s. re_search pat s = Inr (db_regexp_matches D s pat)"
  shows "\<exists>new b. ps' = ps @ new \<and> (\<forall>qs. sql_eval D r (ps' @ qs) p = Some b) \<and> eval_leaf base re_search path op rhs e = Inr b"
proof -
  obtain oper where o: "operand_for path = Inr oper" using c by (auto simp: compile_leaf_def split: sum.splits)
  let ?v = "resolve_path base path e"
  have v: "denotes D r oper ?v" by (rule operand_for_denotes[OF o st path])
  consider "op = ''=='' \<or> op = ''!=''" | "op = ''IN'' \<or> op = ''NOT IN''" | func where "map_of STRING_FUNCS op = Some func" | "op = ''MATCHES''"
    using c o by (auto simp: compile_leaf_def split: if_splits option.splits)
  then show ?thesis
  proof cases
    case 1
    obtain q where q: "equals oper (parse_literal rhs) ps = (q, ps')" "p = S_is (op = ''=='') q"
      using c o 1 by (cases "equals oper (parse_literal rhs) ps") (auto simp: compile_leaf_def truth_def)
    from equals_meaning[OF q(1) v en] show ?thesis using 1 q(2) by (auto simp: eval_leaf_def Let_def)
  next
    case 2
    obtain parts where q: "equals_each oper (parse_list rhs) ps = (parts, ps')" "p = S_is (op = ''IN'') (disjoin parts)"
      using c o 2 by (cases "equals_each oper (parse_list rhs) ps") (auto simp: compile_leaf_def truth_def in_list_def)
    from equals_each_meaning[OF q(1) v en] show ?thesis using 2 q(2) by (auto simp: eval_leaf_def Let_def)
  next
    case (3 func)
    then have op: "op \<in> {''STARTSWITH'', ''ENDSWITH'', ''CONTAINS''}" by (auto simp: STRING_FUNCS_def split: if_splits)
    obtain q where q: "string_call oper op func rhs ps = Inr (q, ps')" "p = S_is True q"
      using c o 3 op by (cases "string_call oper op func rhs ps") (auto simp: compile_leaf_def truth_def)
    from string_call_meaning[OF q(1) v en 3, of re_search] obtain new b where n: "ps' = ps @ new"
      "\<forall>qs. is_true D r (ps' @ qs) q \<longleftrightarrow> b" "(case ?v of PStr u \<Rightarrow> str_op re_search op u (parse_literal rhs) | _ \<Rightarrow> Inr False) = Inr b"
      by blast
    moreover have "eval_leaf base re_search path op rhs e = (case ?v of PStr u \<Rightarrow> str_op re_search op u (parse_literal rhs) | _ \<Rightarrow> Inr False)"
      using op by (auto simp: eval_leaf_def Let_def)
    ultimately show ?thesis using q(2) by auto
  next
    case 4
    obtain q where q: "compile_matches re_error oper rhs ps = Inr (q, ps')" "p = S_is True q"
      using c o 4 by (cases "compile_matches re_error oper rhs ps") (auto simp: compile_leaf_def truth_def STRING_FUNCS_def)
    from matches_meaning[OF q(1) v re[unfolded 4]] obtain new b where "ps' = ps @ new"
      "\<forall>qs. is_true D r (ps' @ qs) q \<longleftrightarrow> b" "(case ?v of PStr u \<Rightarrow> str_op re_search op u (parse_literal rhs) | _ \<Rightarrow> Inr False) = Inr b"
      using 4 by blast
    moreover have "eval_leaf base re_search path op rhs e = (case ?v of PStr u \<Rightarrow> str_op re_search op u (parse_literal rhs) | _ \<Rightarrow> Inr False)"
      unfolding 4 by (simp add: eval_leaf_def Let_def)
    ultimately show ?thesis using q(2) by auto
  qed
qed

text \<open>The sense of two-valued nodes: compiled and evaluated node agree, and the parameters only grow.\<close>

lemma compile_node_meaning:
  assumes "compile_node re_error n ps = Inr (p, ps')" "stores D e r" "engine_laws D" "declared_node n" "regex_agree D re_search [n]"
  shows "\<exists>new b. ps' = ps @ new \<and> (\<forall>qs. sql_eval D r (ps' @ qs) p = Some b) \<and> eval_node base re_search e n = Inr b"
proof (cases n)
  case (Leaf path op rhs neg)
  obtain q where q: "compile_leaf re_error path op rhs ps = Inr (q, ps')" "p = (if neg then S_not q else q)"
    using assms(1) Leaf by (cases "compile_leaf re_error path op rhs ps") auto
  have path: "declared_path path" using assms(4) Leaf by simp
  have re: "\<forall>pat\<in>set (node_patterns (Leaf path op rhs neg)). \<forall>s. re_search pat s = Inr (db_regexp_matches D s pat)"
    using assms(5) unfolding Leaf regex_agree_def by (rule bspec) (rule list.set_intros(1))
  from compile_leaf_meaning[OF q(1) assms(2,3) path re, of base] show ?thesis using q(2) by (auto simp: Leaf)
next
  case (InvalidLeaf t neg)
  then show ?thesis using assms(1) by simp
qed

lemma compile_group_meaning:
  assumes "compile_group re_error ns ps = Inr (g, ps')" "stores D e r" "engine_laws D" "list_all declared_node ns" "regex_agree D re_search ns"
  shows "\<exists>new b. ps' = ps @ new \<and> (\<forall>qs. (\<forall>p\<in>set g. is_true D r (ps' @ qs) p) \<longleftrightarrow> b) \<and> eval_group base re_search e ns = Inr b"
  using assms(1,4,5)
proof (induction re_error ns ps arbitrary: g ps' rule: compile_group.induct)
  case (1 re_error ps)
  then show ?case by auto
next
  case (2 re_error n ns ps)
  obtain p ps1 where p: "compile_node re_error n ps = Inr (p, ps1)"
    using "2.prems"(1) by (auto split: sum.splits)
  obtain g1 where g: "compile_group re_error ns ps1 = Inr (g1, ps')" "g = p # g1"
    using "2.prems"(1) p by (cases "compile_group re_error ns ps1") auto
  have 1: "declared_node n" "list_all declared_node ns" "regex_agree D re_search [n]" "regex_agree D re_search ns"
    using "2.prems"(2,3) by (auto simp: regex_agree_def)
  from compile_node_meaning[OF p assms(2,3) 1(1,3), of base] obtain new1 b1 where n1: "ps1 = ps @ new1"
    "\<And>qs. sql_eval D r (ps1 @ qs) p = Some b1" "eval_node base re_search e n = Inr b1" by blast
  from "2.IH"[OF p refl g(1) 1(2,4)] obtain new2 b2 where n2: "ps' = ps1 @ new2"
    "\<And>qs. (\<forall>p\<in>set g1. is_true D r (ps' @ qs) p) \<longleftrightarrow> b2" "eval_group base re_search e ns = Inr b2" by blast
  have "(\<forall>p\<in>set g. is_true D r (ps' @ qs) p) \<longleftrightarrow> b1 \<and> b2" for qs
    using n1(2)[of "new2 @ qs"] n2(1) n2(2)[of qs] g(2) by simp
  moreover have "eval_group base re_search e (n # ns) = Inr (b1 \<and> b2)" using n1(3) n2(3) by simp
  moreover have "ps' = ps @ (new1 @ new2)" using n1(1) n2(1) by simp
  ultimately show ?case by blast
qed

lemma compile_parsed_meaning:
  assumes "compile_parsed re_error gs ps = Inr (qss, ps')" "stores D e r" "engine_laws D"
    "list_all declared_node (concat gs)" "regex_agree D re_search (concat gs)"
  shows "\<exists>new b. ps' = ps @ new \<and> (\<forall>qs. (\<exists>g\<in>set qss. \<forall>p\<in>set g. is_true D r (ps' @ qs) p) \<longleftrightarrow> b)
    \<and> evaluate_parsed base re_search e gs = Inr b"
  using assms(1,4,5)
proof (induction re_error gs ps arbitrary: qss ps' rule: compile_parsed.induct)
  case (1 re_error ps)
  then show ?case by auto
next
  case (2 re_error g gs ps)
  obtain q ps1 where q: "compile_group re_error g ps = Inr (q, ps1)" using "2.prems"(1) by (auto split: sum.splits)
  obtain qss1 where qs: "compile_parsed re_error gs ps1 = Inr (qss1, ps')" "qss = q # qss1"
    using "2.prems"(1) q by (cases "compile_parsed re_error gs ps1") auto
  have 1: "list_all declared_node g" "list_all declared_node (concat gs)" "regex_agree D re_search g" "regex_agree D re_search (concat gs)"
    using "2.prems"(2,3) by (auto simp: regex_agree_def)
  from compile_group_meaning[OF q assms(2,3) 1(1,3), of base] obtain new1 b1 where n1: "ps1 = ps @ new1"
    "\<And>qs. (\<forall>p\<in>set q. is_true D r (ps1 @ qs) p) \<longleftrightarrow> b1" "eval_group base re_search e g = Inr b1" by blast
  from "2.IH"[OF q refl qs(1) 1(2,4)] obtain new2 b2 where n2: "ps' = ps1 @ new2"
    "\<And>qs. (\<exists>g\<in>set qss1. \<forall>p\<in>set g. is_true D r (ps' @ qs) p) \<longleftrightarrow> b2" "evaluate_parsed base re_search e gs = Inr b2" by blast
  have "(\<exists>g\<in>set qss. \<forall>p\<in>set g. is_true D r (ps' @ qs') p) \<longleftrightarrow> b1 \<or> b2" for qs'
    using n1(2)[of "new2 @ qs'"] n2(1) n2(2)[of qs'] qs(2) by simp
  moreover have "evaluate_parsed base re_search e (g # gs) = Inr (b1 \<or> b2)" using n1(3) n2(3) by simp
  moreover have "ps' = ps @ (new1 @ new2)" using n1(1) n2(1) by simp
  ultimately show ?case by blast
qed

section \<open>Queries\<close>

text \<open>The time and ingest window of a query.\<close>

definition in_window :: "datetime option \<Rightarrow> datetime option \<Rightarrow> (int \<times> int) option \<Rightarrow> event_row \<Rightarrow> bool" where
  "in_window since until ingest r \<longleftrightarrow>
     (case since of None \<Rightarrow> True | Some t \<Rightarrow> t \<le> er_ts r) \<and> (case until of None \<Rightarrow> True | Some t \<Rightarrow> er_ts r \<le> t)
     \<and> (case ingest of None \<Rightarrow> True | Some (low, high) \<Rightarrow> low < int (er_seq r) \<and> int (er_seq r) \<le> high)"

lemma groups_eval_True: "groups_eval D r ps gs = Some True \<longleftrightarrow> (\<exists>g\<in>set gs. \<forall>p\<in>set g. is_true D r ps p)"
proof -
  have "foldr and3 (map (sql_eval D r ps) g) (Some True) = Some True \<longleftrightarrow> (\<forall>p\<in>set g. is_true D r ps p)" for g by auto
  then show ?thesis unfolding groups_eval_def foldr_or3_True set_map by (metis (no_types, lifting) image_iff)
qed

lemma time_param_bound [simp]: "time_param (ps @ P_time t # qs) (length ps) = Some t"
  by simp

lemma int_param_bound [simp]: "int_param (ps @ P_int i # qs) (length ps) = Some i"
  by simp

declare time_param.simps [simp del] int_param.simps [simp del]

lemma int_param_second [simp]: "int_param (ps @ x # P_int i # qs) (Suc (length ps)) = Some i"
  using int_param_bound[of "ps @ [x]" i qs] by simp

text \<open>Each optional clause says what its bound says, whatever is bound later.\<close>

definition all_true :: "duckdb \<Rightarrow> event_row \<Rightarrow> param list \<Rightarrow> clause list \<Rightarrow> bool" where
  "all_true D r ps cs \<longleftrightarrow> (\<forall>c\<in>set cs. clause_eval D r ps c = Some True)"

lemma add_since_meaning:
  assumes "add_clause (\<lambda>v ps. map_prod C_since id (bind (P_time v) ps)) since (cs, ps) = (cs', ps')"
  shows "\<exists>new. ps' = ps @ new \<and> (\<forall>qs. all_true D r (ps' @ qs) cs' \<longleftrightarrow> all_true D r (ps' @ qs) cs \<and>
    (case since of None \<Rightarrow> True | Some t \<Rightarrow> t \<le> er_ts r))"
  using assms by (auto simp: add_clause_def bind_def all_true_def split: option.splits)

lemma add_until_meaning:
  assumes "add_clause (\<lambda>v ps. map_prod C_until id (bind (P_time v) ps)) until (cs, ps) = (cs', ps')"
  shows "\<exists>new. ps' = ps @ new \<and> (\<forall>qs. all_true D r (ps' @ qs) cs' \<longleftrightarrow> all_true D r (ps' @ qs) cs \<and>
    (case until of None \<Rightarrow> True | Some t \<Rightarrow> er_ts r \<le> t))"
  using assms by (auto simp: add_clause_def bind_def all_true_def split: option.splits)

lemma add_ingest_meaning:
  assumes "add_clause ingest_clause ingest (cs, ps) = (cs', ps')"
  shows "\<exists>new. ps' = ps @ new \<and> (\<forall>qs. all_true D r (ps' @ qs) cs' \<longleftrightarrow> all_true D r (ps' @ qs) cs \<and>
    (case ingest of None \<Rightarrow> True | Some (low, high) \<Rightarrow> low < int (er_seq r) \<and> int (er_seq r) \<le> high))"
  using assms by (auto simp: add_clause_def ingest_clause_def bind_def all_true_def split: option.splits)

text \<open>A compiled query, taken apart.\<close>

lemma compile_hunt_queryE:
  assumes "compile_hunt_query re_error isof expr since until limit ingest = Inr q"
  obtains n gs ps cs ps1 where "resolve_limit limit = Inr n" "compile_parsed re_error (parse_expression expr) [] = Inr (gs, ps)"
    "add_clause ingest_clause ingest
       (add_clause (\<lambda>v ps. map_prod C_until id (bind (P_time v) ps)) until
         (add_clause (\<lambda>v ps. map_prod C_since id (bind (P_time v) ps)) since ([C_match gs], ps))) = (cs, ps1)"
    "q = \<lparr>cq_expression = expr, cq_clauses = cs, cq_limit_at = length ps1, cq_params = ps1 @ [P_int (n + 1)],
          cq_limit = n, cq_since = since, cq_until = until, cq_ingest = ingest\<rparr>"
proof -
  obtain n where n: "resolve_limit limit = Inr n" "compile_window re_error expr since until n ingest = Inr q"
    using assms by (auto simp: compile_hunt_query_def split: sum.splits option.splits if_splits)
  then show ?thesis using that
    by (auto simp: compile_window_def Let_def bind_def split: if_splits sum.splits prod.splits)
qed

lemma query_selects:
  assumes c: "compile_hunt_query re_error isof expr since until limit ingest = Inr q" and st: "stores D e r" and en: "engine_laws D"
    and decl: "list_all declared_node (concat (parse_expression expr))"
    and re: "regex_agree D re_search (concat (parse_expression expr))"
  shows "\<exists>b. evaluate_expression base re_search expr e = Inr b
    \<and> (all_true D r (cq_params q) (cq_clauses q) \<longleftrightarrow> b \<and> in_window since until ingest r)"
proof -
  from c obtain n gs ps cs ps3 where q: "compile_parsed re_error (parse_expression expr) [] = Inr (gs, ps)"
    "add_clause ingest_clause ingest
       (add_clause (\<lambda>v ps. map_prod C_until id (bind (P_time v) ps)) until
         (add_clause (\<lambda>v ps. map_prod C_since id (bind (P_time v) ps)) since ([C_match gs], ps))) = (cs, ps3)"
    "cq_clauses q = cs" "cq_params q = ps3 @ [P_int (n + 1)]"
    by (elim compile_hunt_queryE) auto
  obtain c1 ps1 where 1: "add_clause (\<lambda>v ps. map_prod C_since id (bind (P_time v) ps)) since ([C_match gs], ps) = (c1, ps1)"
    by (meson prod.exhaust)
  obtain c2 ps2 where 2: "add_clause (\<lambda>v ps. map_prod C_until id (bind (P_time v) ps)) until (c1, ps1) = (c2, ps2)"
    by (meson prod.exhaust)
  have 3: "add_clause ingest_clause ingest (c2, ps2) = (cs, ps3)" using q(2) 1 2 by simp
  from compile_parsed_meaning[OF q(1) st en decl re, of base] obtain b where
    b: "\<And>qs. (\<exists>g\<in>set gs. \<forall>p\<in>set g. is_true D r (ps @ qs) p) \<longleftrightarrow> b"
      "evaluate_parsed base re_search e (parse_expression expr) = Inr b" by auto
  from add_since_meaning[OF 1, of D r] obtain n1 where n1: "ps1 = ps @ n1" "\<And>qs. all_true D r (ps1 @ qs) c1 \<longleftrightarrow>
    all_true D r (ps1 @ qs) [C_match gs] \<and> (case since of None \<Rightarrow> True | Some t \<Rightarrow> t \<le> er_ts r)" by blast
  from add_until_meaning[OF 2, of D r] obtain n2 where n2: "ps2 = ps1 @ n2" "\<And>qs. all_true D r (ps2 @ qs) c2 \<longleftrightarrow>
    all_true D r (ps2 @ qs) c1 \<and> (case until of None \<Rightarrow> True | Some t \<Rightarrow> er_ts r \<le> t)" by blast
  from add_ingest_meaning[OF 3, of D r] obtain n3 where n3: "ps3 = ps2 @ n3" "\<And>qs. all_true D r (ps3 @ qs) cs \<longleftrightarrow>
    all_true D r (ps3 @ qs) c2 \<and> (case ingest of None \<Rightarrow> True | Some (low, high) \<Rightarrow> low < int (er_seq r) \<and> int (er_seq r) \<le> high)" by blast
  have "all_true D r (ps @ qs) [C_match gs] \<longleftrightarrow> b" for qs by (simp add: all_true_def groups_eval_True b(1))
  then have "all_true D r (ps3 @ qs) cs \<longleftrightarrow> b \<and> in_window since until ingest r" for qs
    using n3(2)[of qs] n2(2)[of "n3 @ qs"] n1(2)[of "n2 @ n3 @ qs"] by (auto simp: n1(1) n2(1) n3(1) in_window_def)
  then show ?thesis using b(2) q(3,4) by (simp add: evaluate_expression_def)
qed

lemma resolve_limit_range: "resolve_limit limit = Inr n \<Longrightarrow> 1 \<le> n \<and> n \<le> MAX_LIMIT"
  by (auto simp: resolve_limit_def DEFAULT_LIMIT_def MAX_LIMIT_def split: option.splits if_splits)


section \<open>A concrete engine\<close>

text \<open>JSON functions that read one event's fields; only its regular expressions are fixed to the integer token.\<close>

fun value_type :: "pyval \<Rightarrow> string option" where
  "value_type (PStr s) = Some ''VARCHAR''"
| "value_type (PBool b) = Some ''BOOLEAN''"
| "value_type (PInt i) = Some ''BIGINT''"
| "value_type (PFloat x) = Some ''DOUBLE''"
| "value_type (PList xs) = Some ''ARRAY''"
| "value_type (PDict d) = Some ''OBJECT''"
| "value_type _ = None"

fun value_text :: "pyval \<Rightarrow> string option" where
  "value_text (PStr s) = Some s"
| "value_text (PBool b) = Some (bool_text b)"
| "value_text (PInt i) = Some (int_str i)"
| "value_text _ = None"

definition event_engine :: "event \<Rightarrow> duckdb" where
  "event_engine e =
     \<lparr>db_json_type = (\<lambda>_ segs. value_type (walk_dict (PDict (event_fields e)) segs)),
      db_json_text = (\<lambda>_ segs. value_text (walk_dict (PDict (event_fields e)) segs)),
      db_regexp_matches = (\<lambda>u _. int_token u), db_try_double = (\<lambda>_. None),
      db_string_call = (\<lambda>f u s. if f = ''starts_with'' then startswith u s else if f = ''ends_with'' then endswith u s else contains u s),
      db_refuses = (\<lambda>_ _. False)\<rparr>"

fun no_floats :: "pyval \<Rightarrow> bool" where
  "no_floats (PFloat x) = False"
| "no_floats (PTime t) = False"
| "no_floats (POpaque s) = False"
| "no_floats (PDict d) = (\<forall>(k, v)\<in>set d. no_floats v)"
| "no_floats _ = True"

lemma no_floats_dget: "\<forall>(k, v)\<in>set d. no_floats v \<Longrightarrow> no_floats (dget d k)"
  by (auto simp: dget_def split: option.split dest!: map_of_SomeD)

lemma no_floats_walk: "no_floats v \<Longrightarrow> no_floats (walk_dict v segs)"
  by (induction v segs rule: walk_dict.induct) (auto intro: no_floats_dget)

definition curl_event :: event where
  "curl_event = (mk_event 7 ''e1'' ''auditd'' ''process_start'' Info)\<lparr>ev_process := Some [(''name'', PStr ''curl''), (''pid'', PInt 42)]\<rparr>"

definition curl_row :: event_row where
  "curl_row = \<lparr>er_id = ''e1'', er_ts = 7, er_kind = event_kind_value (ev_kind curl_event), er_module = ''auditd'',
     er_action = ''process_start'', er_severity = ''info'', er_payload = '''', er_seq = 1\<rparr>"

lemma event_engine_stores: "stores (event_engine curl_event) curl_event curl_row"
proof -
  have plain: "no_floats (walk_dict (PDict (event_fields curl_event)) segs)" if ne: "segs \<noteq> []" and nts: "segs \<noteq> [''ts'']" for segs
  proof -
    obtain a rest where s: "segs = a # rest" using ne by (cases segs) auto
    show ?thesis
    proof (cases "a = ''ts''")
      case True
      then obtain b more_segs where "rest = b # more_segs" using s True nts by (cases rest) auto
      then show ?thesis using s True by (simp add: event_fields_def)
    next
      case False
      then have "no_floats (dget (event_fields curl_event) a)"
        by (simp add: event_fields_def curl_event_def mk_event_def opt_dict_def split: option.split)
      then show ?thesis using s no_floats_walk by simp
    qed
  qed
  have "json_view (event_engine curl_event) p segs (walk_dict (PDict (event_fields curl_event)) segs)" if "segs \<noteq> []" "segs \<noteq> [''ts'']" for p segs
    using plain[OF that] by (cases "walk_dict (PDict (event_fields curl_event)) segs") (simp_all add: event_engine_def JSON_NUMBER_TYPES_def)
  then show ?thesis by (simp add: stores_def curl_row_def) (simp add: curl_event_def mk_event_def)
qed

lemma event_engine_laws: "engine_laws (event_engine e)"
  by (simp add: engine_laws_def event_engine_def)

definition curl_hunt :: string where
  "curl_hunt = ''process.name == '' @ CHR 0x22 # ''curl'' @ [CHR 0x22] @ '' AND process.pid IN [41, 42]''"

lemma curl_parsed:
  "parse_expression curl_hunt = [[Leaf ''process.name'' ''=='' (CHR 0x22 # ''curl'' @ [CHR 0x22]) False, Leaf ''process.pid'' ''IN'' ''[41, 42]'' False]]"
  unfolding curl_hunt_def by code_simp

lemma curl_operands:
  "operand_for ''process.name'' = Inr (Json_path [''process'', ''name''])" "operand_for ''process.pid'' = Inr (Json_path [''process'', ''pid''])"
  by code_simp+

lemma curl_compiles:
  "\<exists>q. compile_hunt_query (\<lambda>_. None) (\<lambda>_. '''') curl_hunt None None (Some 10) None = Inr q \<and> cq_limit q = 10"
proof -
  let ?c = "compile_leaf (\<lambda>_. None)"
  have "\<exists>x. ?c ''process.name'' ''=='' rhs ps = Inr x" "\<exists>x. ?c ''process.pid'' ''IN'' rhs ps = Inr x" for rhs ps
    by (simp_all add: compile_leaf_def curl_operands)
  then have pairs: "\<exists>x ps1. ?c ''process.name'' ''=='' rhs ps = Inr (x, ps1)" "\<exists>y ps2. ?c ''process.pid'' ''IN'' rhs ps = Inr (y, ps2)" for rhs ps
    by auto
  obtain x ps1 where "?c ''process.name'' ''=='' (CHR 0x22 # ''curl'' @ [CHR 0x22]) [] = Inr (x, ps1)" using pairs(1) by blast
  moreover obtain y ps2 where "?c ''process.pid'' ''IN'' ''[41, 42]'' ps1 = Inr (y, ps2)" using pairs(2) by blast
  ultimately have "compile_parsed (\<lambda>_. None) (parse_expression curl_hunt) [] = Inr ([[x, y]], ps2)"
    unfolding curl_parsed by (simp del: append.simps)
  then show ?thesis
    by (simp add: compile_hunt_query_def resolve_limit_def MAX_LIMIT_def compile_window_def add_clause_def bind_def curl_parsed)
qed

lemma curl_matches: "evaluate_expression (\<lambda>_. PNone) (\<lambda>_ _. Inr False) curl_hunt curl_event = Inr True"
proof -
  have p: "path_segments ''process.name'' = [''process'', ''name'']" "path_segments ''process.pid'' = [''process'', ''pid'']"
    "parse_literal (CHR 0x22 # ''curl'' @ [CHR 0x22]) = LStr ''curl''" "parse_list ''[41, 42]'' = [LInt 41, LInt 42]"
    by code_simp+
  then show ?thesis
    by (simp add: evaluate_expression_def curl_parsed eval_leaf_def resolve_path_def event_attr_def event_fields_def curl_event_def
        opt_dict_def eq_literal_def del: append.simps)
qed


text \<open>Fidelity ends at the schema: \<^verbatim>\<open>getattr\<close> also finds the attributes a class inherits, so a rule can match on the name
  of the module an event class is defined in, while a hunt with the same text finds nothing.\<close>

lemma hunt_misses_inherited_attributes:
  assumes "base ''__module__'' = PStr ''inspectord.schemas.event''"
  shows "eval_leaf base re_search ''event.__module__'' ''STARTSWITH'' ''inspectord'' e = Inr True"
    and "json_view D p [''__module__''] (walk_dict (PDict (event_fields e)) [''__module__'']) \<Longrightarrow>
      operand_for ''event.__module__'' = Inr (Json_path [''__module__'']) \<and> db_json_type D p [''__module__''] \<in> {None, Some ''NULL''}"
proof -
  have p: "path_segments ''event.__module__'' = [''event'', ''__module__'']" "parse_literal ''inspectord'' = LStr ''inspectord''"
    "operand_for ''event.__module__'' = Inr (Json_path [''__module__''])" by code_simp+
  have "map_of (event_fields e) ''__module__'' = None" by (simp add: event_fields_def)
  then show "eval_leaf base re_search ''event.__module__'' ''STARTSWITH'' ''inspectord'' e = Inr True"
    using assms by (simp add: eval_leaf_def p resolve_path_def event_attr_def str_op_def Let_def)
  show "json_view D p [''__module__''] (walk_dict (PDict (event_fields e)) [''__module__'']) \<Longrightarrow>
      operand_for ''event.__module__'' = Inr (Json_path [''__module__'']) \<and> db_json_type D p [''__module__''] \<in> {None, Some ''NULL''}"
    by (simp add: p event_fields_def)
qed

end
