(* ===== verification/Hunt_Injection.thy ===== *)
theory Hunt_Injection
  imports Hunt_Fidelity
begin

text \<open>
  The injection promise of the hunt compiler: no literal of an expression reaches the SQL text.
\<close>

section \<open>Injection\<close>

text \<open>What of a literal the compiler looks at: its type, and of an integer whether it is a double and whether it is a
  truth value.\<close>

datatype literal_shape = Sh_text | Sh_bool | Sh_int bool bool

fun literal_shape_of :: "literal \<Rightarrow> literal_shape" where
  "literal_shape_of (LStr s) = Sh_text"
| "literal_shape_of (LBool b) = Sh_bool"
| "literal_shape_of (LInt i) = Sh_int (is_double i) (i = 0 \<or> i = 1)"

fun node_shape :: "node \<Rightarrow> string \<times> string \<times> bool \<times> literal_shape list" where
  "node_shape (Leaf path op rhs neg) =
     (path, op, neg, if op = ''=='' \<or> op = ''!='' then [literal_shape_of (parse_literal rhs)]
                     else if op = ''IN'' \<or> op = ''NOT IN'' then map literal_shape_of (parse_list rhs) else [])"
| "node_shape (InvalidLeaf t neg) = ([], [], neg, [])"

text \<open>Two runs of the binder that have bound equally many values so far.\<close>

definition same_sql :: "'a \<times> param list \<Rightarrow> 'a \<times> param list \<Rightarrow> bool" where
  "same_sql x y \<longleftrightarrow> fst x = fst y \<and> length (snd x) = length (snd y)"

lemma append_typed_shape: "same_sql a b \<Longrightarrow> same_sql (append_typed g oper v a) (append_typed g oper w b)"
  by (cases a; cases b) (auto simp: same_sql_def append_typed_def bind_def)

lemma append_numeric_shape:
  "same_sql a b \<Longrightarrow> is_double v = is_double w \<Longrightarrow> same_sql (append_numeric oper v a) (append_numeric oper w b)"
  by (cases a; cases b) (auto simp: same_sql_def append_numeric_def bind_def lossless_double_def Let_def)

lemma is_double_bit [simp]: "is_double 0" "is_double 1"
  by (simp_all add: is_double_def odd_part.simps)

lemma equals_shape:
  assumes "literal_shape_of l = literal_shape_of k" "length ps = length qs"
  shows "same_sql (equals oper l ps) (equals oper k qs)"
proof -
  have s: "same_sql ([], ps) (([] :: sql list), qs)" using assms(2) by (simp add: same_sql_def)
  have d: "same_sql (map_prod disjoin id x) (map_prod disjoin id y)" if "same_sql x y" for x y
    using that by (cases x; cases y) (simp add: same_sql_def)
  have m: "(case x of (parts, ps') \<Rightarrow> (disjoin parts, ps')) = map_prod disjoin id x" for x :: "sql list \<times> param list"
    by (cases x) simp
  show ?thesis using assms s
    by (cases l; cases k)
      (auto simp: equals_def m Let_def same_sql_def[of "(S_false, _)"] intro!: d append_typed_shape append_numeric_shape)
qed

lemma equals_each_shape:
  "map literal_shape_of ls = map literal_shape_of ks \<Longrightarrow> length ps = length qs \<Longrightarrow>
     same_sql (equals_each oper ls ps) (equals_each oper ks qs)"
proof (induction ls arbitrary: ks ps qs)
  case Nil
  then show ?case by (simp add: same_sql_def)
next
  case (Cons l ls)
  then obtain k ks' where k: "ks = k # ks'" "literal_shape_of l = literal_shape_of k" "map literal_shape_of ls = map literal_shape_of ks'"
    by auto
  obtain p ps1 q qs1 where e: "equals oper l ps = (p, ps1)" "equals oper k qs = (q, qs1)" by (meson prod.exhaust)
  have "p = q" "length ps1 = length qs1" using equals_shape[OF k(2) Cons.prems(2), of oper] e by (simp_all add: same_sql_def)
  then show ?case using Cons.IH[OF k(3), of ps1 qs1] k(1) e by (auto simp: same_sql_def split: prod.split)
qed

lemma compile_leaf_shape:
  assumes "compile_leaf re_error path op rhs ps = Inr x" "compile_leaf re_error path op rhs' qs = Inr y"
    "node_shape (Leaf path op rhs neg) = node_shape (Leaf path op rhs' neg)" "length ps = length qs"
  shows "same_sql x y"
proof -
  obtain oper where o: "operand_for path = Inr oper" using assms(1) by (auto simp: compile_leaf_def split: sum.splits)
  have t: "same_sql (truth b u) (truth b v)" if "same_sql u v" for b u v
    using that by (cases u; cases v) (simp add: same_sql_def truth_def)
  have d: "same_sql (in_list oper rhs ps) (in_list oper rhs' qs)" if "same_sql (equals_each oper (parse_list rhs) ps) (equals_each oper (parse_list rhs') qs)"
    using that by (auto simp: in_list_def same_sql_def split: prod.splits)
  consider "op = ''=='' \<or> op = ''!=''" | "op = ''IN'' \<or> op = ''NOT IN''" | func where "map_of STRING_FUNCS op = Some func" | "op = ''MATCHES''"
    using assms(1) o by (auto simp: compile_leaf_def split: if_splits option.splits)
  then show ?thesis
  proof cases
    case 1
    then show ?thesis using assms o by (auto simp: compile_leaf_def intro!: t equals_shape)
  next
    case 2
    then show ?thesis using assms o by (auto simp: compile_leaf_def intro!: t d equals_each_shape)
  next
    case (3 func)
    then have op: "op \<in> {''STARTSWITH'', ''ENDSWITH'', ''CONTAINS''}" by (auto simp: STRING_FUNCS_def split: if_splits)
    then have "op \<noteq> ''=='' \<and> op \<noteq> ''!='' \<and> op \<noteq> ''IN'' \<and> op \<noteq> ''NOT IN''" by auto
    then obtain u v where "string_call oper op func rhs ps = Inr u" "x = truth True u" "string_call oper op func rhs' qs = Inr v" "y = truth True v"
      using assms(1,2) o 3 by (cases "string_call oper op func rhs ps"; cases "string_call oper op func rhs' qs") (auto simp: compile_leaf_def)
    then show ?thesis using assms(4)
      by (auto simp: string_call_def bind_def same_sql_def Let_def truth_def split: sum.splits if_splits)
  next
    case 4
    then obtain u v where "compile_matches re_error oper rhs ps = Inr u" "x = truth True u" "compile_matches re_error oper rhs' qs = Inr v" "y = truth True v"
      using assms(1,2) o by (cases "compile_matches re_error oper rhs ps"; cases "compile_matches re_error oper rhs' qs")
        (auto simp: compile_leaf_def STRING_FUNCS_def)
    then show ?thesis using assms(4)
      by (auto simp: compile_matches_def bind_def same_sql_def Let_def truth_def split: sum.splits if_splits option.splits)
  qed
qed

lemma compile_node_shape:
  assumes "compile_node re_error n ps = Inr x" "compile_node re_error k qs = Inr y" "node_shape n = node_shape k" "length ps = length qs"
  shows "same_sql x y"
proof -
  obtain path op rhs neg where n: "n = Leaf path op rhs neg" using assms(1) by (cases n) auto
  obtain path' op' rhs' neg' where k: "k = Leaf path' op' rhs' neg'" using assms(2) by (cases k) auto
  have same: "path' = path" "op' = op" "neg' = neg" using assms(3) n k by auto
  obtain u v where u: "compile_leaf re_error path op rhs ps = Inr u" "x = map_prod (\<lambda>p. if neg then S_not p else p) id u"
    and v: "compile_leaf re_error path op rhs' qs = Inr v" "y = map_prod (\<lambda>p. if neg then S_not p else p) id v"
    using assms(1,2) n k same
    by (cases "compile_leaf re_error path op rhs ps"; cases "compile_leaf re_error path op rhs' qs") auto
  have "same_sql u v" using compile_leaf_shape[OF u(1) v(1) _ assms(4)] assms(3) n k same by simp
  then show ?thesis using u(2) v(2) by (cases u; cases v) (simp add: same_sql_def)
qed

lemma compile_group_shape:
  "compile_group re_error ns ps = Inr x \<Longrightarrow> compile_group re_error ks qs = Inr y \<Longrightarrow> map node_shape ns = map node_shape ks \<Longrightarrow>
     length ps = length qs \<Longrightarrow> same_sql x y"
proof (induction ns arbitrary: ks ps qs x y)
  case Nil
  then show ?case by (auto simp: same_sql_def)
next
  case (Cons n ns)
  then obtain k ks' where k: "ks = k # ks'" "node_shape n = node_shape k" "map node_shape ns = map node_shape ks'" by auto
  obtain u v where u: "compile_node re_error n ps = Inr u" "compile_node re_error k qs = Inr v"
    using Cons.prems(1,2) k(1) by (auto split: sum.splits)
  have s: "same_sql u v" using compile_node_shape[OF u k(2) Cons.prems(4)] .
  obtain x' y' where "compile_group re_error ns (snd u) = Inr x'" "compile_group re_error ks' (snd v) = Inr y'"
    "x = map_prod ((#) (fst u)) id x'" "y = map_prod ((#) (fst v)) id y'"
    using Cons.prems(1,2) k(1) u
    by (cases u; cases v; cases "compile_group re_error ns (snd u)"; cases "compile_group re_error ks' (snd v)") auto
  then show ?case using Cons.IH[OF _ _ k(3), of "snd u" x' "snd v" y'] s by (cases x'; cases y') (auto simp: same_sql_def)
qed

lemma compile_parsed_shape:
  "compile_parsed re_error gs ps = Inr x \<Longrightarrow> compile_parsed re_error hs qs = Inr y \<Longrightarrow>
     map (map node_shape) gs = map (map node_shape) hs \<Longrightarrow> length ps = length qs \<Longrightarrow> same_sql x y"
proof (induction gs arbitrary: hs ps qs x y)
  case Nil
  then show ?case by (auto simp: same_sql_def)
next
  case (Cons g gs)
  then obtain h hs' where h: "hs = h # hs'" "map node_shape g = map node_shape h" "map (map node_shape) gs = map (map node_shape) hs'" by auto
  obtain u v where u: "compile_group re_error g ps = Inr u" "compile_group re_error h qs = Inr v"
    using Cons.prems(1,2) h(1) by (auto split: sum.splits)
  have s: "same_sql u v" using compile_group_shape[OF u h(2) Cons.prems(4)] .
  obtain x' y' where "compile_parsed re_error gs (snd u) = Inr x'" "compile_parsed re_error hs' (snd v) = Inr y'"
    "x = map_prod ((#) (fst u)) id x'" "y = map_prod ((#) (fst v)) id y'"
    using Cons.prems(1,2) h(1) u
    by (cases u; cases v; cases "compile_parsed re_error gs (snd u)"; cases "compile_parsed re_error hs' (snd v)") auto
  then show ?case using Cons.IH[OF _ _ h(3), of "snd u" x' "snd v" y'] s by (cases x'; cases y') (auto simp: same_sql_def)
qed


text \<open>A harmless hunt and one that tries to close a quote and a statement.\<close>

definition name_hunt :: "string \<Rightarrow> string" where
  "name_hunt s = ''process.name == '' @ CHR 0x22 # s @ [CHR 0x22]"

definition hostile :: string where
  "hostile = CHR 0x27 # '') ; DROP TABLE alerts --''"

lemma hostile_compiles:
  "case compile_hunt_query (\<lambda>_. None) (\<lambda>_. '''') (name_hunt ''curl'') None None None None of Inl _ \<Rightarrow> False | Inr q \<Rightarrow> True"
  "case compile_hunt_query (\<lambda>_. None) (\<lambda>_. '''') (name_hunt hostile) None None None None of Inl _ \<Rightarrow> False | Inr q \<Rightarrow> True"
  "map (map node_shape) (parse_expression (name_hunt ''curl'')) = map (map node_shape) (parse_expression (name_hunt hostile))"
  unfolding name_hunt_def hostile_def by code_simp+


end
