(* ===== verification/Hunt_Store.thy ===== *)
theory Hunt_Store
  imports Hunt_Compiler Rate_Limit Cases Enrichment
begin

text \<open>
  Saved hunts: the table and its operations (\<^verbatim>\<open>inspectord/hunt/store.py\<close>), the scheduler that runs them
  (\<^verbatim>\<open>hunt/scheduler.py\<close>) and the handlers of the Hunt panel (\<^verbatim>\<open>hunt/ipc_handlers.py\<close>). Errors are values: an
  operation that raises leaves the database as it was. \<^verbatim>\<open>SELECT MAX(ingest_seq)\<close> ranges over rows inserted since
  that column exists.
\<close>

section \<open>Bounds and names\<close>

definition MAX_NAME_CHARS :: nat where "MAX_NAME_CHARS = 64"
definition MAX_EXPRESSION_CHARS :: nat where "MAX_EXPRESSION_CHARS = 4096"
definition MAX_DESCRIPTION_CHARS :: nat where "MAX_DESCRIPTION_CHARS = 512"
definition SCHEDULE_MIN_INTERVAL_S :: int where "SCHEDULE_MIN_INTERVAL_S = 300"
definition SCHEDULE_SEVERITIES :: "string list" where "SCHEDULE_SEVERITIES = [''low'', ''medium'', ''high'']"
definition NAME_PATTERN :: string where "NAME_PATTERN = ''[A-Za-z0-9][A-Za-z0-9._-]{0,63}''"

definition name_char :: "char \<Rightarrow> bool" where
  "name_char c = (ascii_letter c \<or> ascii_digit c \<or> c = CHR ''.'' \<or> c = CHR ''_'' \<or> c = CHR ''-'')"

definition plain_name :: "string \<Rightarrow> bool" where
  "plain_name s = (s \<noteq> [] \<and> (ascii_letter (hd s) \<or> ascii_digit (hd s)) \<and> list_all name_char s \<and> length s \<le> 64)"

text \<open>\<^verbatim>\<open>_NAME_RE.match\<close>: the dollar at the end also matches before a line feed that ends the text.\<close>

definition name_match :: "string \<Rightarrow> bool" where
  "name_match s = (plain_name s \<or> (s \<noteq> [] \<and> last s = CHR 0x0A \<and> plain_name (butlast s)))"

definition validate_name :: "string \<Rightarrow> hunt_error option" where
  "validate_name name =
     (if name = [] then Some (Hunt_error HuntNameError
           (''a saved query needs a name: 1 to '' @ nat_str MAX_NAME_CHARS @ '' characters matching '' @ NAME_PATTERN))
      else if length name > MAX_NAME_CHARS then Some (Hunt_error HuntNameError
           (''saved query name is '' @ nat_str (length name) @ '' characters; the limit is '' @ nat_str MAX_NAME_CHARS))
      else if \<not> name_match name then Some (Hunt_error HuntNameError
           (''invalid saved query name '' @ repr_str name @ '': start with a letter or digit, then use letters, digits, ''
            @ quote_sql ''.'' @ '', '' @ quote_sql ''_'' @ '' or '' @ quote_sql ''-'' @ '' only''))
      else None)"

definition check_expression_length :: "string \<Rightarrow> hunt_error option" where
  "check_expression_length e =
     (if length e > MAX_EXPRESSION_CHARS then Some (Hunt_error HuntBoundsError
           (''query is '' @ nat_str (length e) @ '' characters; the limit is '' @ nat_str MAX_EXPRESSION_CHARS))
      else None)"

definition check_description :: "string option \<Rightarrow> hunt_error option" where
  "check_description d =
     (case d of
        None \<Rightarrow> None
      | Some t \<Rightarrow>
          if length t > MAX_DESCRIPTION_CHARS then Some (Hunt_error HuntBoundsError
              (''description is '' @ nat_str (length t) @ '' characters; the limit is '' @ nat_str MAX_DESCRIPTION_CHARS))
          else None)"

section \<open>The table\<close>

record hunt_query =
  hq_expression :: string
  hq_description :: "string option"
  hq_created :: datetime
  hq_updated :: datetime
  hq_interval :: "int option"
  hq_severity :: "string option"
  hq_watermark :: "int option"
  hq_last_run :: "datetime option"
  hq_last_status :: "string option"

type_synonym hunt_table = "(string, hunt_query) table"

record scheduled_query =
  sq_name :: string
  sq_expression :: string
  sq_interval :: int
  sq_severity :: string
  sq_watermark :: "int option"
  sq_last_run :: "datetime option"
  sq_last_status :: "string option"

record save_outcome =
  so_name :: string
  so_expression :: string
  so_created :: datetime
  so_updated :: datetime
  so_replaced :: bool
  so_previous :: "string option"

definition not_found :: "string \<Rightarrow> hunt_error" where
  "not_found name = Hunt_error HuntQueryNotFound (''no saved query named '' @ repr_str name)"

definition get_query :: "string \<Rightarrow> hunt_table \<Rightarrow> hunt_error + hunt_query option" where
  "get_query name t = (case validate_name name of Some e \<Rightarrow> Inl e | None \<Rightarrow> Inr (map_of t name))"

definition list_queries :: "hunt_table \<Rightarrow> (string \<times> hunt_query) list" where
  "list_queries t = sort_key fst t"

text \<open>Saving compiles the expression first; the schedule columns of a replaced query stay.\<close>

definition save_query ::
  "(string \<Rightarrow> string option) \<Rightarrow> (datetime \<Rightarrow> string) \<Rightarrow> datetime \<Rightarrow> string \<Rightarrow> string \<Rightarrow> string option \<Rightarrow> bool
     \<Rightarrow> hunt_table \<Rightarrow> hunt_table \<times> (hunt_error + save_outcome)" where
  "save_query re_error isof now name expr desc replace t =
     (case validate_name name of Some e \<Rightarrow> (t, Inl e) | None \<Rightarrow>
      case check_expression_length expr of Some e \<Rightarrow> (t, Inl e) | None \<Rightarrow>
      case check_description desc of Some e \<Rightarrow> (t, Inl e) | None \<Rightarrow>
      case compile_hunt_query re_error isof expr None None None None of Inl e \<Rightarrow> (t, Inl e) | Inr _ \<Rightarrow>
      case map_of t name of
        None \<Rightarrow>
          (AList.update name \<lparr>hq_expression = expr, hq_description = desc, hq_created = now, hq_updated = now, hq_interval = None,
                              hq_severity = None, hq_watermark = None, hq_last_run = None, hq_last_status = None\<rparr> t,
           Inr \<lparr>so_name = name, so_expression = expr, so_created = now, so_updated = now, so_replaced = False, so_previous = None\<rparr>)
      | Some q \<Rightarrow>
          if \<not> replace then
            (t, Inl (Hunt_error HuntQueryExists (''a saved query named '' @ repr_str name @ '' already exists (its expression is: ''
                   @ hq_expression q @ ''). Pass replace to overwrite it, or choose another name.'')))
          else
            (AList.update name (q\<lparr>hq_expression := expr, hq_description := desc, hq_updated := now\<rparr>) t,
             Inr \<lparr>so_name = name, so_expression = expr, so_created = hq_created q, so_updated = now, so_replaced = True,
                  so_previous = Some (hq_expression q)\<rparr>))"

definition delete_query :: "string \<Rightarrow> hunt_table \<Rightarrow> hunt_table \<times> (hunt_error + hunt_query)" where
  "delete_query name t =
     (case get_query name t of
        Inl e \<Rightarrow> (t, Inl e)
      | Inr None \<Rightarrow> (t, Inl (not_found name))
      | Inr (Some q) \<Rightarrow> (delete_where (\<lambda>n _. n = name) t, Inr q))"

section \<open>Schedules\<close>

definition to_scheduled :: "string \<Rightarrow> hunt_query \<Rightarrow> hunt_error + scheduled_query" where
  "to_scheduled name q =
     (case (hq_interval q, hq_severity q) of
        (Some i, Some s) \<Rightarrow>
          Inr \<lparr>sq_name = name, sq_expression = hq_expression q, sq_interval = i, sq_severity = s,
               sq_watermark = hq_watermark q, sq_last_run = hq_last_run q, sq_last_status = hq_last_status q\<rparr>
      | _ \<Rightarrow> Inl (Hunt_error HuntRequestError (''saved query '' @ repr_str name @ '' is not scheduled'')))"

definition coalesce :: "'a option \<Rightarrow> 'a option \<Rightarrow> 'a option" where
  "coalesce x y = (case x of None \<Rightarrow> y | Some v \<Rightarrow> Some v)"

definition schedule_query ::
  "string \<Rightarrow> int \<Rightarrow> string \<Rightarrow> int \<Rightarrow> hunt_table \<Rightarrow> hunt_table \<times> (hunt_error + scheduled_query)" where
  "schedule_query name interval sev max_seq t =
     (if interval < SCHEDULE_MIN_INTERVAL_S then
        (t, Inl (Hunt_error HuntBoundsError (''schedule interval is '' @ int_str interval @ ''s; the floor is ''
               @ int_str SCHEDULE_MIN_INTERVAL_S @ ''s'')))
      else if sev \<notin> set SCHEDULE_SEVERITIES then
        (t, Inl (Hunt_error HuntRequestError (''schedule severity must be one of '' @ join_with '', '' SCHEDULE_SEVERITIES
               @ '', got '' @ repr_str sev)))
      else case get_query name t of
             Inl e \<Rightarrow> (t, Inl e)
           | Inr None \<Rightarrow> (t, Inl (not_found name))
           | Inr (Some q) \<Rightarrow>
               (let q' = q\<lparr>hq_interval := Some interval, hq_severity := Some sev,
                           hq_watermark := coalesce (hq_watermark q) (Some max_seq)\<rparr>
                in (AList.update name q' t, to_scheduled name q')))"

definition unschedule_query :: "string \<Rightarrow> hunt_table \<Rightarrow> hunt_table \<times> (hunt_error + scheduled_query)" where
  "unschedule_query name t =
     (case get_query name t of
        Inl e \<Rightarrow> (t, Inl e)
      | Inr None \<Rightarrow> (t, Inl (not_found name))
      | Inr (Some q) \<Rightarrow>
          (case to_scheduled name q of
             Inl e \<Rightarrow> (t, Inl e)
           | Inr prior \<Rightarrow> (AList.update name (q\<lparr>hq_interval := None, hq_severity := None\<rparr>) t, Inr prior)))"

definition due_at :: "datetime \<Rightarrow> hunt_query \<Rightarrow> bool" where
  "due_at now q =
     (case hq_interval q of
        None \<Rightarrow> False
      | Some i \<Rightarrow> (case hq_last_run q of None \<Rightarrow> True | Some t \<Rightarrow> t + seconds i \<le> now))"

text \<open>A row with an interval and no severity makes the whole call raise.\<close>

fun all_scheduled :: "(string \<times> hunt_query) list \<Rightarrow> hunt_error + scheduled_query list" where
  "all_scheduled [] = Inr []"
| "all_scheduled ((n, q) # rest) =
     (case to_scheduled n q of Inl e \<Rightarrow> Inl e | Inr s \<Rightarrow> map_sum id ((#) s) (all_scheduled rest))"

definition due_queries :: "datetime \<Rightarrow> hunt_table \<Rightarrow> hunt_error + scheduled_query list" where
  "due_queries now t = all_scheduled (sort_key fst (filter (\<lambda>(_, q). due_at now q) t))"

text \<open>The guarded stamp: \<open>False\<close> when no scheduled row has this name any more.\<close>

definition record_run :: "string \<Rightarrow> int option \<Rightarrow> string \<Rightarrow> datetime \<Rightarrow> hunt_table \<Rightarrow> hunt_table \<times> bool" where
  "record_run name watermark status now t =
     (case map_of t name of
        None \<Rightarrow> (t, False)
      | Some q \<Rightarrow>
          if hq_interval q = None then (t, False)
          else (AList.update name (q\<lparr>hq_last_run := Some now, hq_last_status := Some status,
                                     hq_watermark := coalesce watermark (hq_watermark q)\<rparr>) t, True))"

section \<open>The scheduler\<close>

definition SAMPLE_MAX :: nat where "SAMPLE_MAX = 20"
definition FAILURE_BACKOFF_AFTER :: nat where "FAILURE_BACKOFF_AFTER = 3"
definition FAILURE_BACKOFF_S :: int where "FAILURE_BACKOFF_S = 3600"
definition EPOCH :: datetime where "EPOCH = 0"

definition error_kind_value :: "hunt_error_kind \<Rightarrow> string" where
  "error_kind_value k =
     (case k of HuntSyntaxError \<Rightarrow> ''syntax'' | HuntPathError \<Rightarrow> ''path'' | HuntUnsupportedError \<Rightarrow> ''unsupported''
      | HuntBoundsError \<Rightarrow> ''bounds'' | HuntExecutionError \<Rightarrow> ''execution'' | HuntNameError \<Rightarrow> ''name''
      | HuntQueryExists \<Rightarrow> ''exists'' | HuntQueryNotFound \<Rightarrow> ''not_found'' | HuntRequestError \<Rightarrow> ''request''
      | HuntScheduledError \<Rightarrow> ''scheduled'')"

record hunt_scheduler =
  hs_queries :: hunt_table
  hs_streaks :: "(string, nat) table"
  hs_last_tick :: "datetime option"
  hs_emitted :: "event list"

text \<open>What one run meets: the clock, the engine, the event rows, the stop flag after the query ran, its duration (the
  difference of two clock readings, rounded), the ids of new events and whether something outside the hunt code
  raises.\<close>

record run_env =
  rn_now :: datetime
  rn_db :: duckdb
  rn_re_error :: "string \<Rightarrow> string option"
  rn_iso :: "datetime \<Rightarrow> string"
  rn_rows :: "event_row list"
  rn_stop_before :: bool
  rn_stop_after :: bool
  rn_duration :: real
  rn_event_id :: string
  rn_fault :: bool

definition streak :: "hunt_scheduler \<Rightarrow> string \<Rightarrow> nat" where
  "streak hs name = (case map_of (hs_streaks hs) name of None \<Rightarrow> 0 | Some n \<Rightarrow> n)"

definition in_backoff :: "datetime \<Rightarrow> scheduled_query \<Rightarrow> hunt_scheduler \<Rightarrow> bool" where
  "in_backoff now q hs =
     (if streak hs (sq_name q) < FAILURE_BACKOFF_AFTER then False
      else case sq_last_run q of
             None \<Rightarrow> False
           | Some t \<Rightarrow> now < t + seconds (max (sq_interval q) FAILURE_BACKOFF_S))"

text \<open>\<^verbatim>\<open>build_event\<close> of the two events the scheduler emits; severities of a schedule are severities of an event.\<close>

definition emit_hunt :: "event option \<Rightarrow> hunt_scheduler \<Rightarrow> hunt_scheduler" where
  "emit_hunt e hs = (case e of None \<Rightarrow> hs | Some v \<Rightarrow> hs\<lparr>hs_emitted := hs_emitted hs @ [v]\<rparr>)"

definition failure_event :: "run_env \<Rightarrow> scheduled_query \<Rightarrow> string \<Rightarrow> event option" where
  "failure_event env q kind =
     build_event (rn_now env) (rn_event_id env) ''hunt_scheduler'' ''hunt_run_failed'' [''hunt''] [''error''] (sq_severity q) ''signal''
       None None (no_blocks\<lparr>eb_hunt := Some [(''name'', PStr (sq_name q)), (''severity'', PStr (sq_severity q)),
         (''error_kind'', PStr kind)]\<rparr>) None (Some (rn_now env)) False"

definition match_event :: "run_env \<Rightarrow> scheduled_query \<Rightarrow> hunt_result \<Rightarrow> int \<Rightarrow> bool \<Rightarrow> event option" where
  "match_event env q res upper pruned_gap =
     build_event (rn_now env) (rn_event_id env) ''hunt_scheduler'' ''hunt_match'' [''hunt''] [''info''] (sq_severity q) ''signal''
       None (Some (''scheduled hunt '' @ sq_name q @ '': '' @ nat_str (length (hres_rows res)) @ '' new match(es)''))
       (no_blocks\<lparr>eb_hunt := Some [(''name'', PStr (sq_name q)), (''severity'', PStr (sq_severity q)),
         (''match_count'', PInt (int (length (hres_rows res)))),
         (''sample_event_ids'', PList (map (\<lambda>r. PStr (er_id r)) (take SAMPLE_MAX (hres_rows res)))),
         (''window_upper_seq'', PInt upper), (''run_duration_s'', PFloat (rn_duration env)),
         (''truncated'', PBool (hres_truncated res)), (''pruned_gap'', PBool pruned_gap)]\<rparr>) None (Some (rn_now env)) False"

definition record_failure :: "run_env \<Rightarrow> scheduled_query \<Rightarrow> string \<Rightarrow> hunt_scheduler \<Rightarrow> hunt_scheduler" where
  "record_failure env q kind hs =
     (let transition = \<not> startswith (case sq_last_status q of None \<Rightarrow> [] | Some s \<Rightarrow> s) ''failed''
      in case record_run (sq_name q) None (''failed:'' @ kind) (rn_now env) (hs_queries hs) of
           (t, False) \<Rightarrow> hs
         | (t, True) \<Rightarrow>
             (let hs1 = hs\<lparr>hs_queries := t, hs_streaks := AList.update (sq_name q) (streak hs (sq_name q) + 1) (hs_streaks hs)\<rparr>
              in if transition then emit_hunt (failure_event env q kind) hs1 else hs1))"

text \<open>The bounds of a run: the newest sequence number and whether rows above the watermark may be gone already.\<close>

definition max_seq :: "event_row list \<Rightarrow> int option" where
  "max_seq rows = (if rows = [] then None else Some (Max (set (map (\<lambda>r. int (er_seq r)) rows))))"

definition min_seq :: "event_row list \<Rightarrow> int option" where
  "min_seq rows = (if rows = [] then None else Some (Min (set (map (\<lambda>r. int (er_seq r)) rows))))"

definition watermark_of :: "scheduled_query \<Rightarrow> int" where
  "watermark_of q = (case sq_watermark q of None \<Rightarrow> 0 | Some w \<Rightarrow> w)"

text \<open>The first half of \<^verbatim>\<open>_run_one\<close>, up to the result of the query: no new rows, a failure, or the newest sequence
  number, the gap flag and the result.\<close>

datatype scan_outcome = Nothing_new | Scan_failed string | Scanned int bool hunt_result

definition scan_window :: "run_env \<Rightarrow> scheduled_query \<Rightarrow> scan_outcome" where
  "scan_window env q =
     (case max_seq (rn_rows env) of
        None \<Rightarrow> Nothing_new
      | Some upper \<Rightarrow>
          if upper \<le> watermark_of q then Nothing_new
          else (let gap = (case min_seq (rn_rows env) of None \<Rightarrow> False | Some old \<Rightarrow> old > watermark_of q + 1)
                in case compile_hunt_query (rn_re_error env) (rn_iso env) (sq_expression q) (Some EPOCH) None (Some MAX_LIMIT)
                          (Some (watermark_of q, upper)) of
                     Inl (Hunt_error k _) \<Rightarrow> Scan_failed (error_kind_value k)
                   | Inr cq \<Rightarrow>
                       (case run_hunt_query (rn_db env) (rn_rows env) cq of
                          Inl (Hunt_error k _) \<Rightarrow> Scan_failed (error_kind_value k)
                        | Inr res \<Rightarrow> Scanned upper gap res)))"

text \<open>The second half: the stop check, the guarded stamp and the event.\<close>

definition finish_run :: "run_env \<Rightarrow> scheduled_query \<Rightarrow> scan_outcome \<Rightarrow> hunt_scheduler \<Rightarrow> hunt_scheduler" where
  "finish_run env q sc hs =
     (case sc of
        Nothing_new \<Rightarrow> hs
      | Scan_failed kind \<Rightarrow> record_failure env q kind hs
      | Scanned upper gap res \<Rightarrow>
          if rn_stop_after env then hs
          else (case record_run (sq_name q) (Some upper) ''ok'' (rn_now env) (hs_queries hs) of
                  (t, False) \<Rightarrow> hs
                | (t, True) \<Rightarrow>
                    (let hs1 = hs\<lparr>hs_queries := t, hs_streaks := AList.delete (sq_name q) (hs_streaks hs)\<rparr>
                     in if hres_rows res \<noteq> [] then emit_hunt (match_event env q res upper gap) hs1 else hs1)))"

definition run_one :: "run_env \<Rightarrow> scheduled_query \<Rightarrow> hunt_scheduler \<Rightarrow> hunt_scheduler" where
  "run_one env q hs = finish_run env q (scan_window env q) hs"

fun run_due :: "(nat \<Rightarrow> run_env) \<Rightarrow> nat \<Rightarrow> scheduled_query list \<Rightarrow> hunt_scheduler \<Rightarrow> hunt_scheduler" where
  "run_due env i [] hs = hs"
| "run_due env i (q # qs) hs =
     (if rn_stop_before (env i) then hs
      else if in_backoff (rn_now (env i)) q hs then run_due env (Suc i) qs hs
      else run_due env (Suc i) qs
             (if rn_fault (env i) then record_failure (env i) q ''internal'' hs else run_one (env i) q hs))"

definition tick :: "(nat \<Rightarrow> run_env) \<Rightarrow> datetime \<Rightarrow> hunt_scheduler \<Rightarrow> hunt_scheduler" where
  "tick env now hs =
     (let hs1 = hs\<lparr>hs_last_tick := Some now\<rparr>
      in case due_queries now (hs_queries hs1) of
           Inl _ \<Rightarrow> hs1
         | Inr qs \<Rightarrow> run_due env 0 qs hs1)"

end
