(* ===== verification/Hunt_Handlers.thy ===== *)
theory Hunt_Handlers
  imports Hunt_Store
begin

text \<open>
  The handlers of \<^verbatim>\<open>inspectord/hunt/ipc_handlers.py\<close> over the saved queries, the stored events, the audit log and the
  limiter that all mutating methods share.
\<close>

section \<open>Requests and replies\<close>

record hunt_service =
  hv_queries :: hunt_table
  hv_events :: "event_row list"
  hv_audit :: audit_state
  hv_limiter :: "sliding_window option"

record handler_env =
  he_now :: datetime
  he_mono :: real
  he_sha :: "string \<Rightarrow> string"
  he_call :: audit_call
  he_re_error :: "string \<Rightarrow> string option"
  he_iso :: "datetime \<Rightarrow> string"
  he_fromiso :: "string \<Rightarrow> datetime option"
  he_ostr :: "pyval \<Rightarrow> string"
  he_db :: duckdb

text \<open>The replies, without the schema version. \<open>Hunt_failure\<close> is the message and the machine-readable kind.\<close>

datatype hunt_reply =
    Hunt_failure string string
  | Hunt_rows "string option" string "datetime option" "datetime option" "datetime option" hunt_result "pydict list"
  | Hunt_saved save_outcome
  | Hunt_list "(string \<times> hunt_query) list"
  | Hunt_one "hunt_query option"
  | Hunt_deleted string hunt_query
  | Hunt_scheduled scheduled_query
  | Hunt_unscheduled scheduled_query

definition MUTATION_RATE_LIMIT_PER_MIN :: int where "MUTATION_RATE_LIMIT_PER_MIN = 12"
definition DEFAULT_WINDOW :: timedelta where "DEFAULT_WINDOW = days 7"

definition failure :: "hunt_error \<Rightarrow> hunt_reply" where
  "failure e = (case e of Hunt_error k msg \<Rightarrow> Hunt_failure msg (error_kind_value k))"

definition hunt_required_str :: "pydict \<Rightarrow> string \<Rightarrow> hunt_error + string" where
  "hunt_required_str params key =
     (case dget params key of
        PStr s \<Rightarrow> if s = [] then Inl (Hunt_error HuntRequestError (key @ '' is required'')) else Inr s
      | _ \<Rightarrow> Inl (Hunt_error HuntRequestError (key @ '' is required'')))"

definition hunt_optional_str :: "pydict \<Rightarrow> string \<Rightarrow> hunt_error + string option" where
  "hunt_optional_str params key =
     (case dget params key of
        PNone \<Rightarrow> Inr None
      | PStr s \<Rightarrow> Inr (Some s)
      | _ \<Rightarrow> Inl (Hunt_error HuntRequestError (key @ '' must be a string'')))"

definition timestamp :: "handler_env \<Rightarrow> pydict \<Rightarrow> string \<Rightarrow> hunt_error + datetime option" where
  "timestamp env params key =
     (case hunt_optional_str params key of
        Inl e \<Rightarrow> Inl e
      | Inr None \<Rightarrow> Inr None
      | Inr (Some raw) \<Rightarrow>
          (case he_fromiso env raw of
             Some t \<Rightarrow> Inr (Some t)
           | None \<Rightarrow> Inl (Hunt_error HuntBoundsError (''could not read '' @ key @ ''='' @ repr_str raw
                      @ '': give an ISO-8601 timestamp, for example 2026-08-20T00:00:00+00:00''))))"

definition limit_param :: "handler_env \<Rightarrow> pydict \<Rightarrow> hunt_error + int option" where
  "limit_param env params =
     (case dget params ''limit'' of
        PNone \<Rightarrow> Inr None
      | v \<Rightarrow> (case int_of v of
                Some n \<Rightarrow> Inr (Some n)
              | None \<Rightarrow> Inl (Hunt_error HuntBoundsError (''limit must be a whole number, got '' @ py_repr (he_ostr env) v))))"

definition hunt_audit :: "handler_env \<Rightarrow> string \<Rightarrow> string \<Rightarrow> pydict \<Rightarrow> hunt_service \<Rightarrow> hunt_service" where
  "hunt_audit env act target details hv =
     hv\<lparr>hv_audit := fst (append_audit (he_sha env)
          ((he_call env)\<lparr>ac_actor := ''user:local'', ac_action := act, ac_target := Some target, ac_details := details_of details\<rparr>)
          (hv_audit hv))\<rparr>"

text \<open>The gate of every mutating method.\<close>

definition rate_limited :: "handler_env \<Rightarrow> pydict \<Rightarrow> hunt_service \<Rightarrow> hunt_service \<times> hunt_reply option" where
  "rate_limited env params hv =
     (case hv_limiter hv of
        None \<Rightarrow> (hv, None)
      | Some lim_s \<Rightarrow>
          (case sw_check (he_mono env) lim_s of
             ((allowed, audit_rejection), lim') \<Rightarrow>
               (let hv1 = hv\<lparr>hv_limiter := Some lim'\<rparr>
                in if allowed then (hv1, None)
                   else (if audit_rejection
                         then hunt_audit env ''hunt_mutation_rate_limited''
                                (''hunt:'' @ take 64 (case map_of params ''name'' of None \<Rightarrow> [] | Some v \<Rightarrow> py_str (he_ostr env) v))
                                [(''reason'', PStr ''rate_limited'')] hv1
                         else hv1,
                         Some (Hunt_failure (''hunt mutation rate limit exceeded ('' @ int_str MUTATION_RATE_LIMIT_PER_MIN @ ''/min)'')
                                 ''rate_limited'')))))"

section \<open>Running\<close>

definition row_payload :: "event_row \<Rightarrow> pydict" where
  "row_payload r = (case json_loads (er_payload r) of Some (PDict d) \<Rightarrow> d | _ \<Rightarrow> [])"

definition data_horizon :: "event_row list \<Rightarrow> datetime option" where
  "data_horizon rows = (if rows = [] then None else Some (Min (set (map er_ts rows))))"

text \<open>The text to run: the expression of the request, or that of the saved query it names.\<close>

definition query_text :: "string option \<Rightarrow> string option \<Rightarrow> hunt_table \<Rightarrow> hunt_error + string" where
  "query_text expression name t =
     (case name of
        Some n \<Rightarrow>
          (case get_query n t of
             Inl e \<Rightarrow> Inl e
           | Inr None \<Rightarrow> Inl (not_found n)
           | Inr (Some q) \<Rightarrow> Inr (hq_expression q))
      | None \<Rightarrow>
          (case expression of
             Some e \<Rightarrow> Inr e
           | None \<Rightarrow> Inl (Hunt_error HuntRequestError ''pass an expression to run, or the name of a saved query'')))"

definition run_text ::
  "handler_env \<Rightarrow> string option \<Rightarrow> string \<Rightarrow> datetime \<Rightarrow> datetime option \<Rightarrow> int option \<Rightarrow> event_row list \<Rightarrow> hunt_error + hunt_reply" where
  "run_text env name expr since until limit rows =
     (case check_expression_length expr of Some e \<Rightarrow> Inl e | None \<Rightarrow>
      case compile_hunt_query (he_re_error env) (he_iso env) expr (Some since) until limit None of Inl e \<Rightarrow> Inl e | Inr q \<Rightarrow>
      case run_hunt_query (he_db env) rows q of Inl e \<Rightarrow> Inl e | Inr res \<Rightarrow>
      Inr (Hunt_rows name expr (Some since) until (data_horizon rows) res (map row_payload (hres_rows res))))"

definition handle_run_hunt_query :: "handler_env \<Rightarrow> pydict \<Rightarrow> hunt_service \<Rightarrow> hunt_reply" where
  "handle_run_hunt_query env params hv =
     (case hunt_optional_str params ''expression'' of Inl e \<Rightarrow> failure e | Inr expression \<Rightarrow>
      case hunt_optional_str params ''name'' of Inl e \<Rightarrow> failure e | Inr name \<Rightarrow>
      if expression \<noteq> None \<and> name \<noteq> None then
        failure (Hunt_error HuntRequestError ''pass expression or name, not both: a saved query already has an expression'')
      else
      case limit_param env params of Inl e \<Rightarrow> failure e | Inr limit \<Rightarrow>
      case timestamp env params ''until'' of Inl e \<Rightarrow> failure e | Inr until \<Rightarrow>
      case timestamp env params ''since'' of Inl e \<Rightarrow> failure e | Inr since0 \<Rightarrow>
      let since = (case since0 of None \<Rightarrow> he_now env - DEFAULT_WINDOW | Some t \<Rightarrow> t)
      in case query_text expression name (hv_queries hv) of Inl e \<Rightarrow> failure e | Inr expr \<Rightarrow>
         (case run_text env name expr since until limit (hv_events hv) of Inl e \<Rightarrow> failure e | Inr reply \<Rightarrow> reply))"

section \<open>Saving and deleting\<close>

definition is_scheduled :: "hunt_query option \<Rightarrow> bool" where
  "is_scheduled q = (case q of None \<Rightarrow> False | Some r \<Rightarrow> hq_interval r \<noteq> None)"

definition sha_value :: "handler_env \<Rightarrow> string option \<Rightarrow> pyval" where
  "sha_value env e = (case e of None \<Rightarrow> PNone | Some t \<Rightarrow> PStr (he_sha env t))"

definition save_hunt :: "handler_env \<Rightarrow> pydict \<Rightarrow> hunt_service \<Rightarrow> hunt_service \<times> hunt_reply" where
  "save_hunt env params hv =
     (case hunt_required_str params ''name'' of Inl e \<Rightarrow> (hv, failure e) | Inr name \<Rightarrow>
      case hunt_required_str params ''expression'' of Inl e \<Rightarrow> (hv, failure e) | Inr expr \<Rightarrow>
      case hunt_optional_str params ''description'' of Inl e \<Rightarrow> (hv, failure e) | Inr desc \<Rightarrow>
      let replace = truthy (case map_of params ''replace'' of None \<Rightarrow> PBool False | Some v \<Rightarrow> v)
      in case get_query name (hv_queries hv) of Inl e \<Rightarrow> (hv, failure e) | Inr existing \<Rightarrow>
         if is_scheduled existing \<and> replace \<and> dget params ''scheduled_ok'' \<noteq> PBool True then
           (hv, failure (Hunt_error HuntScheduledError (repr_str name
              @ '' is a scheduled standing detection; replacing it rewrites what that detection matches. Pass scheduled_ok to confirm.'')))
         else case save_query (he_re_error env) (he_iso env) (he_now env) name expr desc replace (hv_queries hv) of
                (t, Inl e) \<Rightarrow> (hv, failure e)
              | (t, Inr out) \<Rightarrow>
                  (hunt_audit env ''hunt_query_saved'' (''hunt:'' @ so_name out)
                     [(''replaced'', PBool (so_replaced out)), (''was_scheduled'', PBool (is_scheduled existing)),
                      (''old_expression_sha256'', sha_value env (so_previous out)),
                      (''new_expression_sha256'', PStr (he_sha env (so_expression out)))] (hv\<lparr>hv_queries := t\<rparr>),
                   Hunt_saved out))"

definition delete_hunt :: "handler_env \<Rightarrow> pydict \<Rightarrow> hunt_service \<Rightarrow> hunt_service \<times> hunt_reply" where
  "delete_hunt env params hv =
     (case hunt_required_str params ''name'' of Inl e \<Rightarrow> (hv, failure e) | Inr name \<Rightarrow>
      case get_query name (hv_queries hv) of Inl e \<Rightarrow> (hv, failure e) | Inr existing \<Rightarrow>
      if is_scheduled existing \<and> dget params ''scheduled_ok'' \<noteq> PBool True then
        (hv, failure (Hunt_error HuntScheduledError (repr_str name
           @ '' is a scheduled standing detection; deleting it destroys that detection AND its watermark. Pass scheduled_ok to confirm.'')))
      else case delete_query name (hv_queries hv) of
             (t, Inl e) \<Rightarrow> (hv, failure e)
           | (t, Inr q) \<Rightarrow>
               (hunt_audit env ''hunt_query_deleted'' (''hunt:'' @ name)
                  [(''expression_sha256'', PStr (he_sha env (hq_expression q))), (''was_scheduled'', PBool (is_scheduled existing)),
                   (''schedule_interval_s'', case hq_interval q of None \<Rightarrow> PNone | Some i \<Rightarrow> PInt i)] (hv\<lparr>hv_queries := t\<rparr>),
                Hunt_deleted name q))"

section \<open>Scheduling\<close>

definition schedule_hunt :: "handler_env \<Rightarrow> pydict \<Rightarrow> hunt_service \<Rightarrow> hunt_service \<times> hunt_reply" where
  "schedule_hunt env params hv =
     (case hunt_required_str params ''name'' of Inl e \<Rightarrow> (hv, failure e) | Inr name \<Rightarrow>
      case int_of (dget params ''interval_s'') of
        None \<Rightarrow> (hv, failure (Hunt_error HuntRequestError (''interval_s must be a whole number of seconds, got ''
                     @ py_repr (he_ostr env) (dget params ''interval_s''))))
      | Some interval \<Rightarrow>
      case hunt_optional_str params ''severity'' of Inl e \<Rightarrow> (hv, failure e) | Inr sev0 \<Rightarrow>
      let sev = (case sev0 of None \<Rightarrow> ''medium'' | Some s \<Rightarrow> if s = [] then ''medium'' else s)
      in case get_query name (hv_queries hv) of Inl e \<Rightarrow> (hv, failure e) | Inr existing \<Rightarrow>
         let preserved = (case existing of None \<Rightarrow> False | Some q \<Rightarrow> hq_watermark q \<noteq> None);
             newest = (case max_seq (hv_events hv) of None \<Rightarrow> 0 | Some n \<Rightarrow> n)
         in case schedule_query name interval sev newest (hv_queries hv) of
              (t, Inl e) \<Rightarrow> (hv, failure e)
            | (t, Inr s) \<Rightarrow>
                (hunt_audit env ''hunt_query_scheduled'' (''hunt:'' @ sq_name s)
                   [(''interval_s'', PInt (sq_interval s)), (''severity'', PStr (sq_severity s)),
                    (''watermark_preserved'', PBool preserved)] (hv\<lparr>hv_queries := t\<rparr>),
                 Hunt_scheduled s))"

definition unschedule_hunt :: "handler_env \<Rightarrow> pydict \<Rightarrow> hunt_service \<Rightarrow> hunt_service \<times> hunt_reply" where
  "unschedule_hunt env params hv =
     (case hunt_required_str params ''name'' of Inl e \<Rightarrow> (hv, failure e) | Inr name \<Rightarrow>
      case unschedule_query name (hv_queries hv) of
        (t, Inl e) \<Rightarrow> (hv, failure e)
      | (t, Inr prior) \<Rightarrow>
          (hunt_audit env ''hunt_query_unscheduled'' (''hunt:'' @ sq_name prior)
             [(''interval_s'', PInt (sq_interval prior)), (''severity'', PStr (sq_severity prior))] (hv\<lparr>hv_queries := t\<rparr>),
           Hunt_unscheduled prior))"

section \<open>The methods\<close>

datatype hunt_method = Save_hunt | Delete_hunt | Schedule_hunt | Unschedule_hunt

fun mutate :: "hunt_method \<Rightarrow> handler_env \<Rightarrow> pydict \<Rightarrow> hunt_service \<Rightarrow> hunt_service \<times> hunt_reply" where
  "mutate Save_hunt = save_hunt"
| "mutate Delete_hunt = delete_hunt"
| "mutate Schedule_hunt = schedule_hunt"
| "mutate Unschedule_hunt = unschedule_hunt"

text \<open>\<^verbatim>\<open>handle_save_hunt_query\<close>, \<^verbatim>\<open>handle_delete_hunt_query\<close>, \<^verbatim>\<open>handle_schedule_hunt_query\<close> and
  \<^verbatim>\<open>handle_unschedule_hunt_query\<close>: the gate, then the method.\<close>

definition handle_mutation :: "hunt_method \<Rightarrow> handler_env \<Rightarrow> pydict \<Rightarrow> hunt_service \<Rightarrow> hunt_service \<times> hunt_reply" where
  "handle_mutation mt env params hv =
     (case rate_limited env params hv of
        (hv1, Some rejection) \<Rightarrow> (hv1, rejection)
      | (hv1, None) \<Rightarrow> mutate mt env params hv1)"

definition handle_list_hunt_queries :: "hunt_service \<Rightarrow> hunt_reply" where
  "handle_list_hunt_queries hv = Hunt_list (list_queries (hv_queries hv))"

definition handle_get_hunt_query :: "pydict \<Rightarrow> hunt_service \<Rightarrow> hunt_reply" where
  "handle_get_hunt_query params hv =
     (case hunt_required_str params ''name'' of Inl e \<Rightarrow> failure e | Inr name \<Rightarrow>
      case get_query name (hv_queries hv) of Inl e \<Rightarrow> failure e | Inr q \<Rightarrow> Hunt_one q)"

end
