(* ===== verification/Hunt_Schedule.thy ===== *)
theory Hunt_Schedule
  imports Hunt_Handlers Hunt_Fidelity
begin

text \<open>
  What a scheduled hunt guarantees. The scheduler thread, the handlers of the clients, the storage thread and the
  retention run share the database, so a run of the scheduler is cut where another thread can get in between: the
  list of due queries is read, a window is scanned, the result is stamped. Every interleaving is a sequence of steps.
\<close>

section \<open>The world\<close>

record hunt_log =
  hl_name :: string
  hl_low :: int
  hl_high :: int
  hl_rows :: "event_row list"

text \<open>The due list that is left, the run in flight, and the log of the runs that were stamped ok.\<close>

record hunt_world =
  hw_hv :: hunt_service
  hw_streaks :: "(string, nat) table"
  hw_emitted :: "event list"
  hw_pending :: "scheduled_query list"
  hw_flight :: "(scheduled_query \<times> scan_outcome) option"
  hw_log :: "hunt_log list"

definition scheduler_of :: "hunt_world \<Rightarrow> hunt_scheduler" where
  "scheduler_of w =
     \<lparr>hs_queries = hv_queries (hw_hv w), hs_streaks = hw_streaks w, hs_last_tick = None, hs_emitted = hw_emitted w\<rparr>"

definition put_scheduler :: "hunt_scheduler \<Rightarrow> hunt_world \<Rightarrow> hunt_world" where
  "put_scheduler hs w =
     w\<lparr>hw_hv := (hw_hv w)\<lparr>hv_queries := hs_queries hs\<rparr>, hw_streaks := hs_streaks hs, hw_emitted := hs_emitted hs\<rparr>"

abbreviation queries :: "hunt_world \<Rightarrow> hunt_table" where
  "queries w \<equiv> hv_queries (hw_hv w)"

definition busy_names :: "hunt_world \<Rightarrow> string list" where
  "busy_names w = (case hw_flight w of None \<Rightarrow> [] | Some (q, _) \<Rightarrow> [sq_name q]) @ map sq_name (hw_pending w)"

text \<open>The log grows when the stamp of a scanned window takes.\<close>

definition stamped :: "run_env \<Rightarrow> scheduled_query \<Rightarrow> scan_outcome \<Rightarrow> hunt_world \<Rightarrow> hunt_log list" where
  "stamped env q sc w =
     (case sc of
        Scanned upper gap res \<Rightarrow>
          if \<not> rn_stop_after env \<and> snd (record_run (sq_name q) (Some upper) ''ok'' (rn_now env) (queries w))
          then [\<lparr>hl_name = sq_name q, hl_low = watermark_of q, hl_high = upper, hl_rows = hres_rows res\<rparr>] else []
      | _ \<Rightarrow> [])"

inductive hunt_step :: "hunt_world \<Rightarrow> hunt_world \<Rightarrow> bool" where
  step_mutate: "handle_mutation mt env params (hw_hv w) = (hv', reply) \<Longrightarrow>
     (mt = Delete_hunt \<Longrightarrow> \<forall>n\<in>set (busy_names w). dget params ''name'' \<noteq> PStr n) \<Longrightarrow>
     hunt_step w (w\<lparr>hw_hv := hv', hw_log := filter (\<lambda>l. map_of (hv_queries hv') (hl_name l) \<noteq> None) (hw_log w)\<rparr>)"
| step_ingest: "\<forall>x\<in>set (hv_events (hw_hv w)). er_seq x < er_seq r \<Longrightarrow>
     hunt_step w (w\<lparr>hw_hv := (hw_hv w)\<lparr>hv_events := hv_events (hw_hv w) @ [r]\<rparr>\<rparr>)"
| step_prune: "set rows \<subseteq> set (hv_events (hw_hv w)) \<Longrightarrow> hunt_step w (w\<lparr>hw_hv := (hw_hv w)\<lparr>hv_events := rows\<rparr>\<rparr>)"
| step_due: "hw_pending w = [] \<Longrightarrow> hw_flight w = None \<Longrightarrow> due_queries now (queries w) = Inr qs \<Longrightarrow>
     hunt_step w (w\<lparr>hw_pending := qs\<rparr>)"
| step_drop: "hw_pending w = q # qs \<Longrightarrow> hw_flight w = None \<Longrightarrow> hunt_step w (w\<lparr>hw_pending := qs\<rparr>)"
| step_fault: "hw_pending w = q # qs \<Longrightarrow> hw_flight w = None \<Longrightarrow>
     hunt_step w ((put_scheduler (record_failure env q ''internal'' (scheduler_of w)) w)\<lparr>hw_pending := qs\<rparr>)"
| step_scan: "hw_pending w = q # qs \<Longrightarrow> hw_flight w = None \<Longrightarrow> rn_rows env = hv_events (hw_hv w) \<Longrightarrow>
     hunt_step w (w\<lparr>hw_pending := qs, hw_flight := Some (q, scan_window env q)\<rparr>)"
| step_finish: "hw_flight w = Some (q, sc) \<Longrightarrow>
     hunt_step w ((put_scheduler (finish_run env q sc (scheduler_of w)) w)
        \<lparr>hw_flight := None, hw_log := hw_log w @ stamped env q sc w\<rparr>)"

inductive_cases hunt_step_cases: "hunt_step w w'"

section \<open>Windows\<close>

text \<open>Windows that follow each other without gap or overlap.\<close>

fun chained :: "int \<Rightarrow> (int \<times> int) list \<Rightarrow> int \<Rightarrow> bool" where
  "chained b [] w = (b = w)"
| "chained b ((l, h) # rs) w = (l = b \<and> l < h \<and> chained h rs w)"

lemma windows_snoc: "chained b rs w \<Longrightarrow> w < h \<Longrightarrow> chained b (rs @ [(w, h)]) h"
  by (induction b rs w rule: chained.induct) auto

lemma chained_le: "chained b rs w \<Longrightarrow> b \<le> w"
  by (induction b rs w rule: chained.induct) auto

lemma chained_above: "chained b rs w \<Longrightarrow> (l, h) \<in> set rs \<Longrightarrow> b \<le> l"
  by (induction b rs w rule: chained.induct) force+

lemma chained_covers: "chained b rs w \<Longrightarrow> b < n \<Longrightarrow> n \<le> w \<Longrightarrow> \<exists>!i. i < length rs \<and> fst (rs ! i) < n \<and> n \<le> snd (rs ! i)"
proof (induction b rs w rule: chained.induct)
  case (1 b w)
  then show ?case by simp
next
  case (2 b l h rs w)
  show ?case
  proof (cases "n \<le> h")
    case True
    have "\<not> fst (rs ! i) < n" if "i < length rs" for i
      using chained_above[of h rs w "fst (rs ! i)" "snd (rs ! i)"] "2.prems"(1) that True by (simp add: nth_mem)
    then show ?thesis using "2.prems" True by (intro ex1I[of _ 0]) (auto simp: nth_Cons split: nat.splits)
  next
    case False
    then obtain i where i: "i < length rs \<and> fst (rs ! i) < n \<and> n \<le> snd (rs ! i)"
      "\<And>j. j < length rs \<and> fst (rs ! j) < n \<and> n \<le> snd (rs ! j) \<Longrightarrow> j = i"
      using "2.IH" "2.prems" by (auto elim!: ex1E)
    show ?thesis
    proof (rule ex1I[of _ "Suc i"])
      show "Suc i < length ((l, h) # rs) \<and> fst (((l, h) # rs) ! Suc i) < n \<and> n \<le> snd (((l, h) # rs) ! Suc i)" using i(1) by simp
      show "j = Suc i" if "j < length ((l, h) # rs) \<and> fst (((l, h) # rs) ! j) < n \<and> n \<le> snd (((l, h) # rs) ! j)" for j
        using that i(2) False by (cases j) auto
    qed
  qed
qed

definition windows :: "string \<Rightarrow> hunt_log list \<Rightarrow> (int \<times> int) list" where
  "windows name log_rows = map (\<lambda>l. (hl_low l, hl_high l)) (filter (\<lambda>l. hl_name l = name) log_rows)"

section \<open>What the operations do to a row\<close>

text \<open>A handler leaves a row alone, creates one that has never been scheduled, keeps the watermark or sets the first one;
  only a delete removes one, the one it names.\<close>

definition sev_fine :: "string option \<Rightarrow> bool" where
  "sev_fine x \<longleftrightarrow> (case x of None \<Rightarrow> True | Some v \<Rightarrow> v \<in> set SCHEDULE_SEVERITIES)"

definition row_change :: "hunt_query option \<Rightarrow> hunt_query option \<Rightarrow> bool" where
  "row_change x y \<longleftrightarrow>
     (case (x, y) of
        (None, None) \<Rightarrow> True
      | (None, Some q) \<Rightarrow> hq_watermark q = None \<and> hq_interval q = None \<and> hq_severity q = None
      | (Some q, Some q') \<Rightarrow> (hq_watermark q' = hq_watermark q \<or> hq_watermark q = None)
           \<and> (hq_interval q' \<noteq> None \<longrightarrow> hq_watermark q' \<noteq> None \<or> (hq_interval q \<noteq> None \<and> hq_watermark q = None))
           \<and> (sev_fine (hq_severity q) \<longrightarrow> sev_fine (hq_severity q'))
      | (Some q, None) \<Rightarrow> False)"

lemma row_change_refl [simp]: "row_change x x"
  by (auto simp: row_change_def split: option.split)

lemma rate_limited_queries:
  "hv_queries (fst (rate_limited env params hv)) = hv_queries hv" "hv_events (fst (rate_limited env params hv)) = hv_events hv"
  by (auto simp: rate_limited_def hunt_audit_def Let_def split: option.split prod.split)

definition table_change :: "hunt_table \<Rightarrow> hunt_table \<Rightarrow> bool" where
  "table_change t t' \<longleftrightarrow> wf_table t' \<and> (\<forall>n. row_change (map_of t n) (map_of t' n))"

lemma table_change_refl: "wf_table t \<Longrightarrow> table_change t t"
  by (simp add: table_change_def)

lemma table_change_update: "wf_table t \<Longrightarrow> row_change (map_of t n) (Some q) \<Longrightarrow> table_change t (AList.update n q t)"
  by (simp add: table_change_def table_simps)

lemma save_query_table: "wf_table t \<Longrightarrow> table_change t (fst (save_query re_error isof now name expr desc replace t))"
  by (auto simp: save_query_def table_change_refl row_change_def simp del: map_of_eq_Some_iff append.simps split: option.split sum.split
      intro!: table_change_update)

lemma schedule_query_table: "wf_table t \<Longrightarrow> table_change t (fst (schedule_query name interval sev newest t))"
  by (auto simp: schedule_query_def get_query_def Let_def table_change_refl coalesce_def simp del: append.simps split: option.split
      intro!: table_change_update) (auto simp: row_change_def sev_fine_def split: option.split)

lemma unschedule_query_table: "wf_table t \<Longrightarrow> table_change t (fst (unschedule_query name t))"
  by (auto simp: unschedule_query_def get_query_def table_change_refl simp del: append.simps split: option.split sum.split
      intro!: table_change_update) (auto simp: row_change_def sev_fine_def split: option.split)

lemma hunt_audit_queries [simp]: "hv_queries (hunt_audit env act target d hv) = hv_queries hv" "hv_events (hunt_audit env act target d hv) = hv_events hv"
  by (simp_all add: hunt_audit_def)

text \<open>The same for a whole handler, and for a delete: it removes the row it names.\<close>

definition deletes :: "pydict \<Rightarrow> hunt_table \<Rightarrow> hunt_table \<Rightarrow> bool" where
  "deletes params t t' \<longleftrightarrow>
     wf_table t' \<and> (\<forall>n. map_of t' n = map_of t n \<or> (dget params ''name'' = PStr n \<and> map_of t' n = None))"

lemma save_hunt_table: "wf_table (hv_queries hv) \<Longrightarrow> table_change (hv_queries hv) (hv_queries (fst (save_hunt env params hv)))"
proof -
  assume wf: "wf_table (hv_queries hv)"
  have "table_change (hv_queries hv) (hv_queries (fst (case save_query a b c n x y z (hv_queries hv) of
      (t, Inl e) \<Rightarrow> (hv, failure e) | (t, Inr out) \<Rightarrow> (hunt_audit env act (f out) (d out) (hv\<lparr>hv_queries := t\<rparr>), Hunt_saved out))))"
    for a b c n x y z act f d
    using save_query_table[OF wf, of a b c n x y z] table_change_refl[OF wf] by (auto split: prod.split sum.split)
  then show ?thesis unfolding save_hunt_def Let_def using table_change_refl[OF wf]
    by (auto simp del: append.simps split: sum.split)
qed

lemma schedule_hunt_table: "wf_table (hv_queries hv) \<Longrightarrow> table_change (hv_queries hv) (hv_queries (fst (schedule_hunt env params hv)))"
proof -
  assume wf: "wf_table (hv_queries hv)"
  have "table_change (hv_queries hv) (hv_queries (fst (case schedule_query n i v k (hv_queries hv) of
      (t, Inl e) \<Rightarrow> (hv, failure e) | (t, Inr out) \<Rightarrow> (hunt_audit env act (f out) (d out) (hv\<lparr>hv_queries := t\<rparr>), Hunt_scheduled out))))"
    for n i v k act f d
    using schedule_query_table[OF wf, of n i v k] table_change_refl[OF wf] by (auto split: prod.split sum.split)
  then show ?thesis unfolding schedule_hunt_def Let_def using table_change_refl[OF wf]
    by (auto simp del: append.simps split: sum.split option.split)
qed

lemma unschedule_hunt_table: "wf_table (hv_queries hv) \<Longrightarrow> table_change (hv_queries hv) (hv_queries (fst (unschedule_hunt env params hv)))"
proof -
  assume wf: "wf_table (hv_queries hv)"
  have "table_change (hv_queries hv) (hv_queries (fst (case unschedule_query n (hv_queries hv) of
      (t, Inl e) \<Rightarrow> (hv, failure e) | (t, Inr out) \<Rightarrow> (hunt_audit env act (f out) (d out) (hv\<lparr>hv_queries := t\<rparr>), Hunt_unscheduled out))))"
    for n act f d
    using unschedule_query_table[OF wf, of n] table_change_refl[OF wf] by (auto split: prod.split sum.split)
  then show ?thesis unfolding unschedule_hunt_def using table_change_refl[OF wf]
    by (auto simp del: append.simps split: sum.split)
qed

lemma delete_hunt_table: "wf_table (hv_queries hv) \<Longrightarrow> deletes params (hv_queries hv) (hv_queries (fst (delete_hunt env params hv)))"
proof -
  assume wf: "wf_table (hv_queries hv)"
  have same: "deletes params (hv_queries hv) (hv_queries hv)" using wf by (simp add: deletes_def)
  have gone: "deletes params (hv_queries hv) (delete_where (\<lambda>k _. k = n) (hv_queries hv))" if "dget params ''name'' = PStr n" for n
    using wf that by (auto simp: deletes_def map_of_delete_where split: option.split)
  have "deletes params (hv_queries hv) (hv_queries (fst (case delete_query n (hv_queries hv) of
      (t, Inl e) \<Rightarrow> (hv, failure e) | (t, Inr out) \<Rightarrow> (hunt_audit env act (f out) (d out) (hv\<lparr>hv_queries := t\<rparr>), Hunt_deleted n out))))"
    if "dget params ''name'' = PStr n" for n act f d
    using gone[OF that] same by (auto simp: delete_query_def get_query_def split: option.split)
  then show ?thesis unfolding delete_hunt_def using same
    by (auto simp: hunt_required_str_def simp del: append.simps split: sum.split pyval.splits if_splits)
qed

lemma handle_mutation_table:
  assumes "handle_mutation mt env params hv = (hv', r)" "wf_table (hv_queries hv)"
  shows "if mt = Delete_hunt then deletes params (hv_queries hv) (hv_queries hv') else table_change (hv_queries hv) (hv_queries hv')"
proof (cases "snd (rate_limited env params hv)")
  case None
  let ?hv1 = "fst (rate_limited env params hv)"
  have hv': "hv' = fst (mutate mt env params ?hv1)" and q: "hv_queries ?hv1 = hv_queries hv"
    using assms(1) None rate_limited_queries by (auto simp: handle_mutation_def split: prod.splits)
  have wf: "wf_table (hv_queries ?hv1)" using q assms(2) by simp
  from save_hunt_table[OF wf] schedule_hunt_table[OF wf] unschedule_hunt_table[OF wf] delete_hunt_table[OF wf]
  show ?thesis unfolding hv' q by (cases mt) simp_all
next
  case (Some rej)
  then have "hv' = fst (rate_limited env params hv)" using assms(1) by (auto simp: handle_mutation_def split: prod.splits)
  then have "hv_queries hv' = hv_queries hv" by (simp add: rate_limited_queries)
  then show ?thesis using assms(2) table_change_refl by (simp add: deletes_def)
qed

lemma record_run_table:
  assumes "record_run name wm status now t = (t', ok)" "wf_table t"
  shows "wf_table t'" "n \<noteq> name \<Longrightarrow> map_of t' n = map_of t n" "map_of t name = None \<Longrightarrow> t' = t \<and> \<not> ok"
    "map_of t name = Some q \<Longrightarrow> (\<not> ok \<and> t' = t) \<or> (ok \<and> hq_interval q \<noteq> None \<and> (\<exists>q'. map_of t' name = Some q' \<and> hq_interval q' = hq_interval q \<and> hq_severity q' = hq_severity q
       \<and> hq_watermark q' = coalesce wm (hq_watermark q)))"
  using assms by (auto simp: record_run_def table_simps split: option.splits if_splits)

section \<open>The invariant\<close>

definition table_inv :: "hunt_table \<Rightarrow> bool" where
  "table_inv t \<longleftrightarrow> wf_table t \<and> (\<forall>n q. map_of t n = Some q \<longrightarrow> (hq_interval q \<noteq> None \<longrightarrow> hq_watermark q \<noteq> None) \<and> sev_fine (hq_severity q))"

text \<open>A query in the due list or in flight still has the watermark it was read with.\<close>

definition snapshot_ok :: "hunt_table \<Rightarrow> scheduled_query \<Rightarrow> bool" where
  "snapshot_ok t q \<longleftrightarrow> sq_severity q \<in> set SCHEDULE_SEVERITIES
     \<and> (\<exists>row w. map_of t (sq_name q) = Some row \<and> hq_watermark row = Some w \<and> sq_watermark q = Some w)"

definition active :: "hunt_world \<Rightarrow> scheduled_query list" where
  "active w = (case hw_flight w of None \<Rightarrow> [] | Some (q, _) \<Rightarrow> [q]) @ hw_pending w"

definition flight_fresh :: "hunt_world \<Rightarrow> bool" where
  "flight_fresh w \<longleftrightarrow> (\<forall>q u g res. hw_flight w = Some (q, Scanned u g res) \<longrightarrow> watermark_of q < u)"

definition tiled :: "hunt_table \<Rightarrow> hunt_log list \<Rightarrow> bool" where
  "tiled t ls \<longleftrightarrow> (\<forall>n. case Option.bind (map_of t n) hq_watermark of
     None \<Rightarrow> windows n ls = [] | Some x \<Rightarrow> \<exists>b. chained b (windows n ls) x)"

definition announced :: "event list \<Rightarrow> hunt_log \<Rightarrow> bool" where
  "announced es l \<longleftrightarrow> (\<exists>e\<in>set es. \<exists>h. ev_action e = ''hunt_match'' \<and> ev_hunt e = Some h \<and> dget h ''name'' = PStr (hl_name l)
     \<and> dget h ''window_upper_seq'' = PInt (hl_high l) \<and> dget h ''match_count'' = PInt (int (length (hl_rows l))))"

definition all_announced :: "event list \<Rightarrow> hunt_log list \<Rightarrow> bool" where
  "all_announced es ls \<longleftrightarrow> (\<forall>l\<in>set ls. hl_rows l \<noteq> [] \<longrightarrow> announced es l)"

definition hunt_inv :: "hunt_world \<Rightarrow> bool" where
  "hunt_inv w \<longleftrightarrow> table_inv (queries w) \<and> distinct (map sq_name (active w)) \<and> (\<forall>q\<in>set (active w). snapshot_ok (queries w) q)
     \<and> flight_fresh w \<and> tiled (queries w) (hw_log w) \<and> all_announced (hw_emitted w) (hw_log w)"

lemma busy_active: "busy_names w = map sq_name (active w)"
  by (auto simp: busy_names_def active_def split: option.split)

lemma windows_append [simp]: "windows n (xs @ ys) = windows n xs @ windows n ys"
  by (simp add: windows_def)

lemma windows_filter: "windows n (filter (\<lambda>l. P (hl_name l)) ls) = (if P n then windows n ls else [])"
  by (induction ls) (auto simp: windows_def)

lemma all_announced_mono: "all_announced es ls \<Longrightarrow> set es \<subseteq> set es' \<Longrightarrow> set ks \<subseteq> set ls \<Longrightarrow> all_announced es' ks"
  by (fastforce simp: all_announced_def announced_def)

lemma table_change_inv:
  assumes "table_change t t'" "table_inv t"
  shows "table_inv t'" "snapshot_ok t q \<Longrightarrow> snapshot_ok t' q" "tiled t ls \<Longrightarrow> tiled t' ls"
    "\<forall>n. map_of t' n = None \<longrightarrow> map_of t n = None"
proof -
  have c: "row_change (map_of t n) (map_of t' n)" for n using assms(1) by (simp add: table_change_def)
  have r: "case map_of t' n of None \<Rightarrow> map_of t n = None
    | Some q' \<Rightarrow> (hq_interval q' \<noteq> None \<longrightarrow> hq_watermark q' \<noteq> None) \<and> sev_fine (hq_severity q')
        \<and> (case map_of t n of None \<Rightarrow> hq_watermark q' = None | Some q \<Rightarrow> hq_watermark q' = hq_watermark q \<or> hq_watermark q = None)" for n
    using c[of n] assms(2) unfolding table_inv_def row_change_def sev_fine_def
    by (cases "map_of t n"; cases "map_of t' n") fastforce+
  have "(hq_interval q \<noteq> None \<longrightarrow> hq_watermark q \<noteq> None) \<and> sev_fine (hq_severity q)" if "map_of t' n = Some q" for n q
    using r[of n] that by (simp del: map_of_eq_Some_iff)
  then show "table_inv t'" using assms(1) unfolding table_inv_def table_change_def by blast
  show "\<forall>n. map_of t' n = None \<longrightarrow> map_of t n = None"
  proof (intro allI impI)
    fix n
    assume "map_of t' n = None"
    then show "map_of t n = None" using r[of n] by (simp only: option.case)
  qed
  show "snapshot_ok t' q" if "snapshot_ok t q"
    using that r[of "sq_name q"] by (auto simp: snapshot_ok_def split: option.splits)
  show "tiled t' ls" if tl: "tiled t ls"
    unfolding tiled_def
  proof
    fix n
    have "case Option.bind (map_of t n) hq_watermark of None \<Rightarrow> windows n ls = [] | Some x \<Rightarrow> \<exists>b. chained b (windows n ls) x"
      using tl by (simp add: tiled_def)
    then show "case Option.bind (map_of t' n) hq_watermark of None \<Rightarrow> windows n ls = [] | Some x \<Rightarrow> \<exists>b. chained b (windows n ls) x"
      using r[of n] by (cases "map_of t n"; cases "map_of t' n") (auto split: option.splits)
  qed
qed

lemma hunt_delete_inv:
  assumes "deletes params t t'" "table_inv t"
  shows "table_inv t'" "snapshot_ok t q \<Longrightarrow> dget params ''name'' \<noteq> PStr (sq_name q) \<Longrightarrow> snapshot_ok t' q"
    "tiled t ls \<Longrightarrow> tiled t' (filter (\<lambda>l. map_of t' (hl_name l) \<noteq> None) ls)"
proof -
  have d: "map_of t' n = map_of t n \<or> (dget params ''name'' = PStr n \<and> map_of t' n = None)" for n
    using assms(1) by (simp add: deletes_def)
  have "(hq_interval q \<noteq> None \<longrightarrow> hq_watermark q \<noteq> None) \<and> sev_fine (hq_severity q)" if m: "map_of t' n = Some q" for n q
  proof -
    have "map_of t n = Some q" using d[of n] m by auto
    then show ?thesis using assms(2) unfolding table_inv_def by blast
  qed
  then show "table_inv t'" using assms(1) unfolding table_inv_def deletes_def by blast
  show "snapshot_ok t' q" if "snapshot_ok t q" "dget params ''name'' \<noteq> PStr (sq_name q)"
    using that d[of "sq_name q"] by (simp add: snapshot_ok_def)
  show "tiled t' (filter (\<lambda>l. map_of t' (hl_name l) \<noteq> None) ls)" if tl: "tiled t ls"
    unfolding tiled_def
  proof
    fix n
    have "case Option.bind (map_of t n) hq_watermark of None \<Rightarrow> windows n ls = [] | Some x \<Rightarrow> \<exists>b. chained b (windows n ls) x"
      using tl by (simp add: tiled_def)
    then show "case Option.bind (map_of t' n) hq_watermark of
        None \<Rightarrow> windows n (filter (\<lambda>l. map_of t' (hl_name l) \<noteq> None) ls) = []
      | Some x \<Rightarrow> \<exists>b. chained b (windows n (filter (\<lambda>l. map_of t' (hl_name l) \<noteq> None) ls)) x"
      using d[of n] unfolding windows_filter[of n "\<lambda>n. map_of t' n \<noteq> None"] by (auto split: option.splits)
  qed
qed

text \<open>A stamp that leaves the watermark.\<close>

lemma record_failure_effect:
  assumes "table_inv (hs_queries hs)"
  shows "table_change (hs_queries hs) (hs_queries (record_failure env q kind hs)) \<and> set (hs_emitted hs) \<subseteq> set (hs_emitted (record_failure env q kind hs))"
proof -
  obtain t ok where r: "record_run (sq_name q) None (''failed:'' @ kind) (rn_now env) (hs_queries hs) = (t, ok)"
    by (cases "record_run (sq_name q) None (''failed:'' @ kind) (rn_now env) (hs_queries hs)")
  have wf: "wf_table (hs_queries hs)" using assms by (simp add: table_inv_def)
  have "table_change (hs_queries hs) t"
    unfolding table_change_def
  proof (intro conjI allI)
    show "wf_table t" by (rule record_run_table(1)[OF r wf])
    fix n
    show "row_change (map_of (hs_queries hs) n) (map_of t n)"
    proof (cases "n = sq_name q")
      case True
      then show ?thesis using record_run_table(3)[OF r wf] record_run_table(4)[OF r wf]
        by (cases "map_of (hs_queries hs) (sq_name q)") (fastforce simp: row_change_def coalesce_def)+
    next
      case False
      then show ?thesis using record_run_table(2)[OF r wf, of n] by simp
    qed
  qed
  then show ?thesis using r table_change_refl[OF wf]
    by (auto simp: record_failure_def Let_def emit_hunt_def simp del: append.simps split: bool.split option.split)
qed

section \<open>Preservation\<close>

lemma all_scheduled_names:
  "all_scheduled xs = Inr qs \<Longrightarrow> map sq_name qs = map fst xs \<and> (\<forall>q\<in>set qs. \<exists>row. (sq_name q, row) \<in> set xs \<and> to_scheduled (sq_name q) row = Inr q)"
proof (induction xs arbitrary: qs rule: all_scheduled.induct)
  case 1
  then show ?case by simp
next
  case (2 n q rest)
  obtain sch qs' where s: "to_scheduled n q = Inr sch" "all_scheduled rest = Inr qs'" "qs = sch # qs'"
    using "2.prems" by (cases "all_scheduled rest") (auto split: sum.splits)
  have "sq_name sch = n" using s(1) by (auto simp: to_scheduled_def split: option.splits)
  then show ?case using "2.IH"[OF s(1,2)] s by fastforce
qed

lemma to_scheduled_row:
  "to_scheduled n row = Inr q \<Longrightarrow> hq_interval row = Some (sq_interval q) \<and> hq_severity row = Some (sq_severity q) \<and> sq_watermark q = hq_watermark row"
  by (auto simp: to_scheduled_def split: option.splits)

lemma due_queries_ok:
  assumes "due_queries now t = Inr qs" "table_inv t"
  shows "distinct (map sq_name qs) \<and> (\<forall>q\<in>set qs. snapshot_ok t q)"
proof -
  let ?xs = "sort_key fst (filter (\<lambda>(_, q). due_at now q) t)"
  have a: "map sq_name qs = map fst ?xs" "\<forall>q\<in>set qs. \<exists>row. (sq_name q, row) \<in> set ?xs \<and> to_scheduled (sq_name q) row = Inr q"
    using all_scheduled_names[of ?xs qs] assms(1) unfolding due_queries_def by blast+
  have wf: "wf_table t" using assms(2) by (simp add: table_inv_def)
  have "distinct (map fst (filter (\<lambda>(_, q). due_at now q) t))" using wf by (simp add: distinct_map_filter)
  then have "distinct (map fst ?xs)" by (metis distinct_map_fst_sort_key)
  moreover have "snapshot_ok t q" if q: "q \<in> set qs" for q
  proof -
    obtain row where "(sq_name q, row) \<in> set t" "to_scheduled (sq_name q) row = Inr q" using a(2) q by auto
    then have row: "map_of t (sq_name q) = Some row" "to_scheduled (sq_name q) row = Inr q" using wf by simp_all
    then have "(hq_interval row \<noteq> None \<longrightarrow> hq_watermark row \<noteq> None) \<and> sev_fine (hq_severity row)"
      using assms(2) unfolding table_inv_def by blast
    then show ?thesis using row(1) to_scheduled_row[OF row(2)] by (auto simp: snapshot_ok_def sev_fine_def)
  qed
  ultimately show ?thesis using a(1) by simp
qed

lemma match_event_announces:
  assumes "sq_severity q \<in> set SCHEDULE_SEVERITIES"
  shows "announced (hs_emitted (emit_hunt (match_event env q res upper gap) hs))
    \<lparr>hl_name = sq_name q, hl_low = low, hl_high = upper, hl_rows = hres_rows res\<rparr>"
proof -
  obtain v where "severity_of (sq_severity q) = Some v"
    using assms by (auto simp: SCHEDULE_SEVERITIES_def severity_of_def)
  then obtain e h where "match_event env q res upper gap = Some e" "ev_action e = ''hunt_match''" "ev_hunt e = Some h"
    "dget h ''name'' = PStr (sq_name q)" "dget h ''window_upper_seq'' = PInt upper" "dget h ''match_count'' = PInt (int (length (hres_rows res)))"
    by (auto simp: match_event_def build_event_def event_kind_of_def)
  then show ?thesis by (auto simp: announced_def emit_hunt_def)
qed

lemma emit_hunt_grows: "set (hs_emitted hs) \<subseteq> set (hs_emitted (emit_hunt e hs))" "hs_queries (emit_hunt e hs) = hs_queries hs"
  by (auto simp: emit_hunt_def split: option.split)

text \<open>The stamp of a window moves the watermark of its query and nothing else.\<close>

lemma stamp_inv:
  assumes "record_run (sq_name q) (Some upper) status now t = (t', True)" "table_inv t" "snapshot_ok t q"
    "watermark_of q < upper" "tiled t ls" "hl_name l = sq_name q" "hl_low l = watermark_of q" "hl_high l = upper"
  shows "table_inv t'" "tiled t' (ls @ [l])" "snapshot_ok t p \<Longrightarrow> sq_name p \<noteq> sq_name q \<Longrightarrow> snapshot_ok t' p"
proof -
  have wf: "wf_table t" using assms(2) by (simp add: table_inv_def)
  note rr = record_run_table[OF assms(1) wf]
  obtain row where row: "map_of t (sq_name q) = Some row" "hq_watermark row = Some (watermark_of q)"
    using assms(3) by (auto simp: snapshot_ok_def watermark_of_def)
  obtain row' where row': "map_of t' (sq_name q) = Some row'" "hq_interval row' = hq_interval row" "hq_severity row' = hq_severity row" "hq_watermark row' = Some upper"
    using rr(4)[OF row(1)] by (auto simp: coalesce_def)
  have "(hq_interval x \<noteq> None \<longrightarrow> hq_watermark x \<noteq> None) \<and> sev_fine (hq_severity x)" if x: "map_of t' n = Some x" for n x
  proof (cases "n = sq_name q")
    case True
    then have "x = row'" using x row'(1) by simp
    then show ?thesis using assms(2) row(1) row' unfolding table_inv_def by (metis option.distinct(1))
  next
    case False
    then have "map_of t n = Some x" using x rr(2) by simp
    then show ?thesis using assms(2) unfolding table_inv_def by blast
  qed
  then show "table_inv t'" using rr(1) unfolding table_inv_def by blast
  show "tiled t' (ls @ [l])"
    unfolding tiled_def
  proof
    fix n
    have old: "case Option.bind (map_of t n) hq_watermark of None \<Rightarrow> windows n ls = [] | Some x \<Rightarrow> \<exists>b. chained b (windows n ls) x"
      using assms(5) by (simp add: tiled_def)
    show "case Option.bind (map_of t' n) hq_watermark of None \<Rightarrow> windows n (ls @ [l]) = [] | Some x \<Rightarrow> \<exists>b. chained b (windows n (ls @ [l])) x"
    proof (cases "n = sq_name q")
      case True
      then have "windows n (ls @ [l]) = windows n ls @ [(watermark_of q, upper)]" using assms(6-8) by (simp add: windows_def)
      then show ?thesis using old True row row' windows_snoc[OF _ assms(4)] by auto
    next
      case False
      then have "windows n (ls @ [l]) = windows n ls" using assms(6) by (simp add: windows_def)
      then show ?thesis using old unfolding rr(2)[OF False] by (auto split: option.splits)
    qed
  qed
  show "snapshot_ok t' p" if "snapshot_ok t p" "sq_name p \<noteq> sq_name q" using that rr(2) by (simp add: snapshot_ok_def)
qed

lemma active_simps [simp]:
  "active (w\<lparr>hw_hv := hv\<rparr>) = active w" "active (w\<lparr>hw_log := ls\<rparr>) = active w" "active (put_scheduler hs w) = active w"
  "hw_flight (put_scheduler hs w) = hw_flight w" "hw_pending (put_scheduler hs w) = hw_pending w" "hw_log (put_scheduler hs w) = hw_log w"
  "queries (put_scheduler hs w) = hs_queries hs" "hw_emitted (put_scheduler hs w) = hs_emitted hs"
  "hs_queries (scheduler_of w) = queries w" "hs_emitted (scheduler_of w) = hw_emitted w"
  by (simp_all add: active_def put_scheduler_def scheduler_of_def)

lemma finish_inv:
  assumes inv: "hunt_inv w" and fl: "hw_flight w = Some (q, sc)"
  shows "hunt_inv ((put_scheduler (finish_run env q sc (scheduler_of w)) w)\<lparr>hw_flight := None, hw_log := hw_log w @ stamped env q sc w\<rparr>)"
    (is "hunt_inv ?w")
proof -
  let ?hs = "finish_run env q sc (scheduler_of w)"
  have act: "active w = q # hw_pending w" "active ?w = hw_pending w" using fl by (simp_all add: active_def)
  have i: "table_inv (queries w)" "snapshot_ok (queries w) q" "\<forall>p\<in>set (hw_pending w). snapshot_ok (queries w) p \<and> sq_name p \<noteq> sq_name q"
    "distinct (map sq_name (hw_pending w))" "tiled (queries w) (hw_log w)" "all_announced (hw_emitted w) (hw_log w)" "flight_fresh w"
    using inv by (auto simp: hunt_inv_def act image_iff)
  have main: "table_inv (hs_queries ?hs) \<and> (\<forall>p\<in>set (hw_pending w). snapshot_ok (hs_queries ?hs) p)
    \<and> tiled (hs_queries ?hs) (hw_log w @ stamped env q sc w) \<and> all_announced (hs_emitted ?hs) (hw_log w @ stamped env q sc w)"
  proof (cases "sc = Nothing_new \<or> (\<exists>u g res. sc = Scanned u g res \<and> (rn_stop_after env
      \<or> \<not> snd (record_run (sq_name q) (Some u) ''ok'' (rn_now env) (queries w))))")
    case True
    then have "?hs = scheduler_of w" "stamped env q sc w = []"
      by (auto simp: finish_run_def stamped_def scheduler_of_def split: prod.splits)
    then show ?thesis using i by simp
  next
    case False
    show ?thesis
    proof (cases sc)
      case (Scan_failed kind)
      have "table_change (queries w) (hs_queries ?hs)" "set (hw_emitted w) \<subseteq> set (hs_emitted ?hs)" "stamped env q sc w = []"
        using record_failure_effect[of "scheduler_of w" env q kind] i(1) Scan_failed by (simp_all add: finish_run_def stamped_def)
      then show ?thesis using table_change_inv[OF _ i(1)] i all_announced_mono[OF i(6)] by auto
    next
      case (Scanned u g res)
      obtain t where r: "record_run (sq_name q) (Some u) ''ok'' (rn_now env) (queries w) = (t, True)" "\<not> rn_stop_after env"
        using False Scanned by (cases "record_run (sq_name q) (Some u) ''ok'' (rn_now env) (queries w)") auto
      let ?l = "\<lparr>hl_name = sq_name q, hl_low = watermark_of q, hl_high = u, hl_rows = hres_rows res\<rparr>"
      let ?h1 = "(scheduler_of w)\<lparr>hs_queries := t, hs_streaks := AList.delete (sq_name q) (hs_streaks (scheduler_of w))\<rparr>"
      have st: "stamped env q sc w = [?l]" using r Scanned by (simp add: stamped_def)
      have hs: "?hs = (if hres_rows res \<noteq> [] then emit_hunt (match_event env q res u g) ?h1 else ?h1)"
        using r Scanned by (simp add: finish_run_def Let_def)
      have "watermark_of q < u" using i(7) fl Scanned by (simp add: flight_fresh_def)
      note si = stamp_inv[OF r(1) i(1,2) this i(5), of ?l]
      have sev: "sq_severity q \<in> set SCHEDULE_SEVERITIES" using i(2) by (simp add: snapshot_ok_def)
      have "all_announced (hs_emitted ?hs) (hw_log w @ [?l])"
        using all_announced_mono[OF i(6), of "hs_emitted ?hs" "hw_log w"] emit_hunt_grows(1)[of ?h1 "match_event env q res u g"]
          match_event_announces[OF sev, of env res u g ?h1] unfolding hs by (auto simp: all_announced_def)
      moreover have "hs_queries ?hs = t" by (simp add: hs emit_hunt_grows)
      ultimately show ?thesis using si i(3) unfolding st by simp
    qed (use False in auto)
  qed
  then show ?thesis using i(4) unfolding hunt_inv_def act(2) by (simp add: flight_fresh_def)
qed

lemma hunt_step_inv:
  assumes "hunt_step w w'" "hunt_inv w"
  shows "hunt_inv w'"
  using assms(1)
proof (cases rule: hunt_step.cases)
  case (step_mutate mt env params hv' reply)
  have old: "table_inv (queries w)" "tiled (queries w) (hw_log w)" using assms(2) by (simp_all add: hunt_inv_def)
  have "wf_table (queries w)" using old(1) by (simp add: table_inv_def)
  note h = handle_mutation_table[OF step_mutate(2) this]
  let ?log = "filter (\<lambda>l. map_of (hv_queries hv') (hl_name l) \<noteq> None) (hw_log w)"
  have tab: "table_inv (hv_queries hv') \<and> tiled (hv_queries hv') ?log \<and> (\<forall>q\<in>set (active w). snapshot_ok (hv_queries hv') q)"
  proof (cases "mt = Delete_hunt")
    case True
    then have "\<forall>q\<in>set (active w). dget params ''name'' \<noteq> PStr (sq_name q)" using step_mutate(3) by (auto simp: busy_active)
    then show ?thesis using h True hunt_delete_inv[OF _ old(1)] old(2) assms(2) unfolding hunt_inv_def by (simp add: Ball_def)
  next
    case False
    note c = table_change_inv[OF _ old(1), of "hv_queries hv'"]
    have same: "windows n ?log = windows n (hw_log w)" for n
    proof (cases "map_of (hv_queries hv') n = None")
      case True
      then have "map_of (queries w) n = None" using c(4) h False by simp
      then have "windows n (hw_log w) = []" using old(2) unfolding tiled_def by (auto dest: spec[of _ n])
      then show ?thesis unfolding windows_filter[of n "\<lambda>n. map_of (hv_queries hv') n \<noteq> None"] by simp
    next
      case False
      then show ?thesis unfolding windows_filter[of n "\<lambda>n. map_of (hv_queries hv') n \<noteq> None"] by simp
    qed
    have "tiled (hv_queries hv') ?log = tiled (hv_queries hv') (hw_log w)" unfolding tiled_def same ..
    then show ?thesis using h False c old assms(2) by (auto simp: hunt_inv_def)
  qed
  have "all_announced (hw_emitted w) ?log" using assms(2) by (auto simp: hunt_inv_def all_announced_def)
  then show ?thesis using tab assms(2) unfolding step_mutate(1) hunt_inv_def by (simp add: flight_fresh_def active_def)
next
  case (step_ingest r)
  then show ?thesis using assms(2) by (simp add: hunt_inv_def flight_fresh_def active_def)
next
  case (step_prune rows)
  then show ?thesis using assms(2) by (simp add: hunt_inv_def flight_fresh_def active_def)
next
  case (step_due now qs)
  then show ?thesis using assms(2) due_queries_ok[OF step_due(4)] by (simp add: hunt_inv_def flight_fresh_def active_def)
next
  case (step_drop q qs)
  then show ?thesis using assms(2) by (simp add: hunt_inv_def flight_fresh_def active_def)
next
  case (step_fault q qs env)
  have "table_inv (queries w)" using assms(2) by (simp add: hunt_inv_def)
  moreover from this have e: "table_change (queries w) (hs_queries (record_failure env q ''internal'' (scheduler_of w)))"
    "set (hw_emitted w) \<subseteq> set (hs_emitted (record_failure env q ''internal'' (scheduler_of w)))"
    using record_failure_effect[of "scheduler_of w" env q "''internal''"] by simp_all
  ultimately show ?thesis using assms(2) step_fault table_change_inv[OF e(1)] all_announced_mono[OF _ e(2), of "hw_log w" "hw_log w"]
    by (simp add: hunt_inv_def flight_fresh_def active_def)
next
  case (step_scan q qs env)
  have "watermark_of q < u" if "scan_window env q = Scanned u g res" for u g res
    using that by (auto simp: scan_window_def Let_def split: option.splits if_splits sum.splits hunt_error.splits)
  then show ?thesis using assms(2) step_scan by (auto simp: hunt_inv_def flight_fresh_def active_def)
next
  case (step_finish q sc env)
  then show ?thesis using step_finish(1) finish_inv[OF assms(2) step_finish(2)] by simp
qed

text \<open>A daemon that starts with a table an earlier run left.\<close>

definition hunt_boot :: "hunt_world \<Rightarrow> bool" where
  "hunt_boot w \<longleftrightarrow> table_inv (queries w) \<and> hw_pending w = [] \<and> hw_flight w = None \<and> hw_log w = []"

lemma hunt_reachable_inv: "hunt_step\<^sup>*\<^sup>* w w' \<Longrightarrow> hunt_boot w \<Longrightarrow> hunt_inv w'"
proof (induction rule: rtranclp_induct)
  case base
  then show ?case by (auto simp: hunt_boot_def hunt_inv_def active_def flight_fresh_def tiled_def windows_def all_announced_def split: option.split)
next
  case (step y z)
  then show ?case using hunt_step_inv by blast
qed


section \<open>A concrete run\<close>

definition curl_query :: hunt_query where
  "curl_query = \<lparr>hq_expression = curl_hunt, hq_description = None, hq_created = 0, hq_updated = 0, hq_interval = Some 300,
     hq_severity = Some ''high'', hq_watermark = Some 0, hq_last_run = None, hq_last_status = None\<rparr>"

definition curl_schedule :: scheduled_query where
  "curl_schedule = \<lparr>sq_name = ''curl'', sq_expression = curl_hunt, sq_interval = 300, sq_severity = ''high'', sq_watermark = Some 0,
     sq_last_run = None, sq_last_status = None\<rparr>"

definition curl_world :: hunt_world where
  "curl_world = \<lparr>hw_hv = \<lparr>hv_queries = [(''curl'', curl_query)], hv_events = [], hv_audit = audit_init, hv_limiter = None\<rparr>,
     hw_streaks = [], hw_emitted = [], hw_pending = [], hw_flight = None, hw_log = []\<rparr>"

definition curl_env :: run_env where
  "curl_env = \<lparr>rn_now = 9, rn_db = event_engine curl_event, rn_re_error = (\<lambda>_. None), rn_iso = (\<lambda>_. ''''), rn_rows = [curl_row],
     rn_stop_before = False, rn_stop_after = False, rn_duration = 0, rn_event_id = ''h1'', rn_fault = False\<rparr>"

lemma curl_nonempty: "parse_expression curl_hunt \<noteq> []"
  by (simp add: curl_parsed)

lemma curl_scan: "\<exists>g res. scan_window curl_env curl_schedule = Scanned 1 g res"
proof -
  obtain q gs ps where "compile_parsed (\<lambda>_. None) (parse_expression curl_hunt) [] = Inr (gs, ps)"
    using curl_compiles by (auto elim!: compile_hunt_queryE)
  then obtain cq where "compile_hunt_query (\<lambda>_. None) (\<lambda>_. '''') curl_hunt (Some EPOCH) None (Some MAX_LIMIT) (Some (0, 1)) = Inr cq"
    using curl_nonempty by (simp add: compile_hunt_query_def resolve_limit_def MAX_LIMIT_def compile_window_def add_clause_def ingest_clause_def bind_def)
  moreover obtain res where "run_hunt_query (event_engine curl_event) [curl_row] cq = Inr res"
    by (simp add: run_hunt_query_def event_engine_def Let_def)
  ultimately show ?thesis
    by (auto simp: scan_window_def curl_env_def curl_schedule_def max_seq_def min_seq_def watermark_of_def curl_row_def Let_def)
qed

lemma curl_reached:
  "\<exists>w'. hunt_step\<^sup>*\<^sup>* curl_world w' \<and> windows ''curl'' (hw_log w') = [(0, 1)]
     \<and> (\<exists>q. map_of (queries w') ''curl'' = Some q \<and> hq_watermark q = Some 1)"
proof -
  obtain g res where sc: "scan_window curl_env curl_schedule = Scanned 1 g res" using curl_scan by blast
  let ?w1 = "curl_world\<lparr>hw_hv := (hw_hv curl_world)\<lparr>hv_events := hv_events (hw_hv curl_world) @ [curl_row]\<rparr>\<rparr>"
  let ?w2 = "?w1\<lparr>hw_pending := [curl_schedule]\<rparr>"
  let ?w3 = "?w2\<lparr>hw_pending := [], hw_flight := Some (curl_schedule, scan_window curl_env curl_schedule)\<rparr>"
  let ?w4 = "(put_scheduler (finish_run curl_env curl_schedule (scan_window curl_env curl_schedule) (scheduler_of ?w3)) ?w3)
    \<lparr>hw_flight := None, hw_log := hw_log ?w3 @ stamped curl_env curl_schedule (scan_window curl_env curl_schedule) ?w3\<rparr>"
  have 1: "hunt_step curl_world ?w1" by (rule step_ingest) (simp add: curl_world_def)
  have 2: "hunt_step ?w1 ?w2"
    by (rule step_due[of _ 9]) (simp_all add: curl_world_def due_queries_def due_at_def curl_query_def to_scheduled_def curl_schedule_def)
  have 3: "hunt_step ?w2 ?w3" by (rule step_scan) (simp_all add: curl_world_def curl_env_def)
  have 4: "hunt_step ?w3 ?w4" by (rule step_finish) simp
  have "hunt_step\<^sup>*\<^sup>* curl_world ?w4"
    by (rule converse_rtranclp_into_rtranclp, rule 1, rule converse_rtranclp_into_rtranclp, rule 2,
        rule converse_rtranclp_into_rtranclp, rule 3, rule r_into_rtranclp, rule 4)
  moreover have "record_run ''curl'' (Some 1) ''ok'' 9 [(''curl'', curl_query)] =
      ([(''curl'', curl_query\<lparr>hq_last_run := Some 9, hq_last_status := Some ''ok'', hq_watermark := Some 1\<rparr>)], True)"
    by (simp add: record_run_def curl_query_def coalesce_def)
  then have "windows ''curl'' (hw_log ?w4) = [(0, 1)]" "\<exists>q. map_of (queries ?w4) ''curl'' = Some q \<and> hq_watermark q = Some 1"
    unfolding sc
    by (simp_all add: finish_run_def stamped_def curl_world_def curl_schedule_def curl_env_def scheduler_of_def put_scheduler_def
        windows_def watermark_of_def emit_hunt_grows Let_def)
  ultimately show ?thesis by blast
qed


end
