(* ===== verification/Hunt_Consent.thy ===== *)
theory Hunt_Consent
  imports Hunt_Schedule
begin

text \<open>
  What the handlers of saved hunts protect: a scheduled query is a standing detection, and changing or destroying it
  takes an explicit confirmation and leaves an audit row.
\<close>

definition audited :: "audit_call \<Rightarrow> audit_state \<Rightarrow> audit_state \<Rightarrow> string \<Rightarrow> bool" where
  "audited call st st' act \<longleftrightarrow>
     (ac_fault call \<and> au_rows st' = au_rows st) \<or> (\<exists>r. au_rows st' = au_rows st @ [r] \<and> ab_action r = act)"

lemma hunt_audit_audited: "audited (he_call env) (hv_audit hv) (hv_audit (hunt_audit env act target d hv)) act"
  by (auto simp: audited_def hunt_audit_def append_audit_rows next_row_def Let_def audit_body.defs)

lemma save_effect:
  assumes "save_query re_error isof now name expr desc replace t = (t', Inr out)"
  shows "\<exists>q'. t' = AList.update name q' t \<and> (\<forall>q. map_of t name = Some q \<longrightarrow> replace
    \<and> hq_interval q' = hq_interval q \<and> hq_watermark q' = hq_watermark q)"
  using assms by (auto simp: save_query_def split: option.splits sum.splits if_splits)

lemma save_hunt_consent:
  assumes "save_hunt env params hv = (hv', r)" "map_of (hv_queries hv) n = Some q" "hq_interval q \<noteq> None"
    "map_of (hv_queries hv') n \<noteq> Some q"
  shows "dget params ''name'' = PStr n \<and> dget params ''scheduled_ok'' = PBool True
    \<and> audited (he_call env) (hv_audit hv) (hv_audit hv') ''hunt_query_saved''
    \<and> (\<exists>q'. map_of (hv_queries hv') n = Some q' \<and> hq_interval q' = hq_interval q \<and> hq_watermark q' = hq_watermark q)"
proof -
  have ne: "hv_queries hv' \<noteq> hv_queries hv" using assms(2,4) by auto
  obtain name where name: "hunt_required_str params ''name'' = Inr name" using assms(1) ne by (auto simp: save_hunt_def split: sum.splits)
  obtain expr where expr: "hunt_required_str params ''expression'' = Inr expr" using assms(1) ne name by (auto simp: save_hunt_def split: sum.splits)
  obtain desc where desc: "hunt_optional_str params ''description'' = Inr desc" using assms(1) ne name expr by (auto simp: save_hunt_def split: sum.splits)
  obtain existing where ex: "get_query name (hv_queries hv) = Inr existing"
    using assms(1) ne name expr desc by (auto simp: save_hunt_def Let_def split: sum.splits)
  let ?replace = "truthy (case map_of params ''replace'' of None \<Rightarrow> PBool False | Some v \<Rightarrow> v)"
  let ?save = "save_query (he_re_error env) (he_iso env) (he_now env) name expr desc ?replace (hv_queries hv)"
  have ok: "\<not> (is_scheduled existing \<and> ?replace \<and> dget params ''scheduled_ok'' \<noteq> PBool True)"
    using assms(1) ne unfolding save_hunt_def name expr desc ex sum.case Let_def by (auto simp del: append.simps split: if_splits)
  obtain t out where out: "?save = (t, Inr out)" "hv_queries hv' = t" "audited (he_call env) (hv_audit hv) (hv_audit hv') ''hunt_query_saved''"
  proof (cases "snd ?save")
    case (Inl e)
    then show ?thesis using assms(1) ne ok unfolding save_hunt_def name expr desc ex sum.case Let_def
      by (cases ?save) (auto simp del: append.simps)
  next
    case (Inr x)
    then obtain t where s: "?save = (t, Inr x)" by (metis prod.collapse)
    have "hv' = fst (save_hunt env params hv)" using assms(1) by simp
    then have "hv_queries hv' = t" "audited (he_call env) (hv_audit hv) (hv_audit hv') ''hunt_query_saved''"
      using ok hunt_audit_audited[of env "hv\<lparr>hv_queries := t\<rparr>"]
      unfolding save_hunt_def name expr desc ex sum.case Let_def s prod.case by (simp_all del: append.simps)
    then show ?thesis using that s by blast
  qed
  from save_effect[OF out(1)] obtain q' where q': "t = AList.update name q' (hv_queries hv)"
    "\<And>q. map_of (hv_queries hv) name = Some q \<Longrightarrow> ?replace \<and> hq_interval q' = hq_interval q \<and> hq_watermark q' = hq_watermark q" by blast
  have n: "n = name" using assms(2,4) out(2) q'(1) by (auto simp: table_simps split: if_splits)
  moreover have "existing = map_of (hv_queries hv) name" using ex by (auto simp: get_query_def split: option.splits)
  ultimately have "?replace" "is_scheduled existing" using q'(2) assms(2,3) by (simp_all add: is_scheduled_def)
  then have "dget params ''scheduled_ok'' = PBool True" using ok by blast
  moreover have "dget params ''name'' = PStr n" using name n by (auto simp: hunt_required_str_def split: pyval.splits if_splits)
  moreover have "map_of (hv_queries hv') n = Some q'" using out(2) q'(1) n by (simp add: table_simps)
  ultimately show ?thesis using out(3) q'(2) assms(2) n by auto
qed

lemma delete_hunt_consent:
  assumes "delete_hunt env params hv = (hv', r)" "map_of (hv_queries hv) n = Some q" "hq_interval q \<noteq> None"
    "map_of (hv_queries hv') n \<noteq> Some q" "wf_table (hv_queries hv)"
  shows "dget params ''name'' = PStr n \<and> dget params ''scheduled_ok'' = PBool True
    \<and> audited (he_call env) (hv_audit hv) (hv_audit hv') ''hunt_query_deleted'' \<and> map_of (hv_queries hv') n = None"
proof -
  have ne: "hv_queries hv' \<noteq> hv_queries hv" using assms(2,4) by auto
  obtain name where name: "hunt_required_str params ''name'' = Inr name" using assms(1) ne by (auto simp: delete_hunt_def split: sum.splits)
  obtain existing where ex: "get_query name (hv_queries hv) = Inr existing"
    using assms(1) ne name by (auto simp: delete_hunt_def split: sum.splits)
  have ok: "\<not> (is_scheduled existing \<and> dget params ''scheduled_ok'' \<noteq> PBool True)"
    using assms(1) ne unfolding delete_hunt_def name ex sum.case by (auto simp del: append.simps split: if_splits)
  have em: "existing = map_of (hv_queries hv) name" using ex by (auto simp: get_query_def split: option.splits)
  obtain x where x: "existing = Some x"
  proof (cases existing)
    case None
    have "hv' = hv" using assms(1) unfolding delete_hunt_def name ex[unfolded None] sum.case delete_query_def option.case prod.case
      by (auto simp del: append.simps split: if_splits)
    then show ?thesis using ne by simp
  qed (rule that)
  have "hv' = fst (delete_hunt env params hv)" using assms(1) by simp
  then have out: "hv_queries hv' = delete_where (\<lambda>k _. k = name) (hv_queries hv)" "audited (he_call env) (hv_audit hv) (hv_audit hv') ''hunt_query_deleted''"
    using ok hunt_audit_audited[of env "hv\<lparr>hv_queries := delete_where (\<lambda>k _. k = name) (hv_queries hv)\<rparr>"]
    unfolding delete_hunt_def name ex sum.case delete_query_def x option.case prod.case by (simp_all del: append.simps)
  have n: "n = name" using assms(2,4,5) out(1) by (auto simp: map_of_delete_where split: if_splits)
  then have "dget params ''scheduled_ok'' = PBool True" using ok em assms(2,3) by (auto simp: is_scheduled_def)
  moreover have "dget params ''name'' = PStr n" using name n by (auto simp: hunt_required_str_def split: pyval.splits if_splits)
  moreover have "map_of (hv_queries hv') n = None" using out(1) n assms(5) by (simp add: map_of_delete_where split: option.split)
  ultimately show ?thesis using out(2) by blast
qed

text \<open>Scheduling and unscheduling never touch the expression.\<close>

lemma schedule_keeps_expression:
  "map_of t n = Some q \<Longrightarrow> \<exists>q'. map_of (fst (schedule_query name i v k t)) n = Some q' \<and> hq_expression q' = hq_expression q"
  "map_of t n = Some q \<Longrightarrow> \<exists>q'. map_of (fst (unschedule_query name t)) n = Some q' \<and> hq_expression q' = hq_expression q"
  by (auto simp: schedule_query_def unschedule_query_def get_query_def Let_def table_simps simp del: append.simps split: option.splits sum.splits)

lemma schedule_hunt_keeps:
  assumes "map_of (hv_queries hv) n = Some q"
  shows "\<exists>q'. map_of (hv_queries (fst (schedule_hunt env params hv))) n = Some q' \<and> hq_expression q' = hq_expression q"
    "\<exists>q'. map_of (hv_queries (fst (unschedule_hunt env params hv))) n = Some q' \<and> hq_expression q' = hq_expression q"
proof -
  have same: "\<exists>q'. map_of (hv_queries hv) n = Some q' \<and> hq_expression q' = hq_expression q" using assms by blast
  have a: "\<exists>q'. map_of (hv_queries (fst (case schedule_query name i v k (hv_queries hv) of
      (t, Inl e) \<Rightarrow> (hv, failure e) | (t, Inr out) \<Rightarrow> (hunt_audit env act (f out) (d out) (hv\<lparr>hv_queries := t\<rparr>), Hunt_scheduled out)))) n = Some q'
      \<and> hq_expression q' = hq_expression q" for name i v k act f d
    using schedule_keeps_expression(1)[OF assms, of name i v k] same by (auto split: prod.split sum.split)
  have b: "\<exists>q'. map_of (hv_queries (fst (case unschedule_query name (hv_queries hv) of
      (t, Inl e) \<Rightarrow> (hv, failure e) | (t, Inr out) \<Rightarrow> (hunt_audit env act (f out) (d out) (hv\<lparr>hv_queries := t\<rparr>), Hunt_unscheduled out)))) n = Some q'
      \<and> hq_expression q' = hq_expression q" for name act f d
    using schedule_keeps_expression(2)[OF assms, of name] same by (auto split: prod.split sum.split)
  show "\<exists>q'. map_of (hv_queries (fst (schedule_hunt env params hv))) n = Some q' \<and> hq_expression q' = hq_expression q"
    unfolding schedule_hunt_def Let_def using same a by (auto simp del: append.simps split: sum.split option.split)
  show "\<exists>q'. map_of (hv_queries (fst (unschedule_hunt env params hv))) n = Some q' \<and> hq_expression q' = hq_expression q"
    unfolding unschedule_hunt_def using same b by (auto simp del: append.simps split: sum.split)
qed

text \<open>C39: A standing detection changes only with consent. When a request of any mutating method, rate limited or not, leaves
  a scheduled query gone or with another expression, that request named the query, carried scheduled_ok: true
  and appended an audit row of the change (unless the audit append itself failed); a replaced query keeps its
  schedule and its watermark.\<close>

theorem standing_detections_need_consent:
  assumes "handle_mutation mt env params hv = (hv', r)" "wf_table (hv_queries hv)"
    and "map_of (hv_queries hv) n = Some q" "hq_interval q \<noteq> None"
    and "case map_of (hv_queries hv') n of None \<Rightarrow> True | Some q' \<Rightarrow> hq_expression q' \<noteq> hq_expression q"
  shows "dget params ''name'' = PStr n \<and> dget params ''scheduled_ok'' = PBool True
    \<and> audited (he_call env) (hv_audit hv) (hv_audit hv') (if mt = Delete_hunt then ''hunt_query_deleted'' else ''hunt_query_saved'')
    \<and> (case map_of (hv_queries hv') n of None \<Rightarrow> mt = Delete_hunt
       | Some q' \<Rightarrow> hq_interval q' = hq_interval q \<and> hq_watermark q' = hq_watermark q)"
proof -
  let ?hv1 = "fst (rate_limited env params hv)"
  have q1: "hv_queries ?hv1 = hv_queries hv" by (simp add: rate_limited_queries)
  have ne: "map_of (hv_queries hv') n \<noteq> Some q" using assms(5) by (auto split: option.splits)
  have pass: "snd (rate_limited env params hv) = None"
  proof (rule ccontr)
    assume "snd (rate_limited env params hv) \<noteq> None"
    then have "hv' = ?hv1" using assms(1) by (auto simp: handle_mutation_def split: prod.splits option.splits)
    then show False using ne assms(3) q1 by simp
  qed
  then have m: "mutate mt env params ?hv1 = (hv', r)" using assms(1) by (auto simp: handle_mutation_def split: prod.splits)
  have au: "hv_audit ?hv1 = hv_audit hv"
    using pass by (auto simp: rate_limited_def Let_def split: option.splits prod.splits if_splits)
  note row = assms(3)[folded q1]
  show ?thesis
  proof (cases mt)
    case Save_hunt
    then have "save_hunt env params ?hv1 = (hv', r)" using m by simp
    note saved = save_hunt_consent[OF this row assms(4) ne]
    then obtain q' where "map_of (hv_queries hv') n = Some q'" "hq_interval q' = hq_interval q" "hq_watermark q' = hq_watermark q"
      by blast
    then show ?thesis using saved au Save_hunt by simp
  next
    case Delete_hunt
    then show ?thesis using delete_hunt_consent[OF _ row assms(4) ne] m au assms(2) q1 by auto
  next
    case Schedule_hunt
    then show ?thesis using schedule_hunt_keeps(1)[OF row, of env params] m assms(5) by auto
  next
    case Unschedule_hunt
    then show ?thesis using schedule_hunt_keeps(2)[OF row, of env params] m assms(5) by auto
  qed
qed

definition curl_service :: hunt_service where
  "curl_service = hw_hv curl_world"

definition curl_request :: handler_env where
  "curl_request = \<lparr>he_now = 9, he_mono = 0, he_sha = (\<lambda>s. s), he_call = sample_call ''x'', he_re_error = (\<lambda>_. None), he_iso = (\<lambda>_. ''''),
     he_fromiso = (\<lambda>_. None), he_ostr = (\<lambda>_. ''''), he_db = event_engine curl_event\<rparr>"

theorem standing_detections_need_consent_witness:
  "\<exists>hv' r. handle_mutation Delete_hunt curl_request [(''name'', PStr ''curl''), (''scheduled_ok'', PBool True)] curl_service = (hv', r)
     \<and> map_of (hv_queries hv') ''curl'' = None
     \<and> audited (he_call curl_request) (hv_audit curl_service) (hv_audit hv') ''hunt_query_deleted''"
proof -
  let ?p = "[(''name'', PStr ''curl''), (''scheduled_ok'', PBool True)]"
  obtain hv' r where h: "handle_mutation Delete_hunt curl_request ?p curl_service = (hv', r)" by (meson prod.exhaust)
  have v: "validate_name ''curl'' = None" by code_simp
  have t: "hv_queries curl_service = [(''curl'', curl_query)]" "hv_limiter curl_service = None" by (simp_all add: curl_service_def curl_world_def)
  have gone: "map_of (hv_queries hv') ''curl'' = None"
    using h by (auto simp: handle_mutation_def rate_limited_def t delete_hunt_def hunt_required_str_def get_query_def v is_scheduled_def
        delete_query_def delete_where_def)
  then have "audited (he_call curl_request) (hv_audit curl_service) (hv_audit hv') ''hunt_query_deleted''"
    using standing_detections_need_consent[OF h, of "''curl''" curl_query] t by (simp add: curl_query_def)
  then show ?thesis using h gone by blast
qed

section \<open>Names\<close>

text \<open>The name pattern means to exclude every control character, but its dollar accepts a line feed at the end, so a
  name that ends in one is stored and echoed.\<close>

lemma saved_names_may_end_in_line_feed: "validate_name (''curl'' @ [CHR 0x0A]) = None"
  by code_simp

end
