(* ===== verification/Authz.thy ===== *)
theory Authz
  imports Enrichment
begin

text \<open>
  The polkit gate of \<^verbatim>\<open>authz.py\<close>: the peer snapshotted when a connection is accepted, the command line of
  \<^verbatim>\<open>pkcheck\<close> and the reading of its result. What \<^verbatim>\<open>pkcheck\<close> answers is an argument of the model.
\<close>

section \<open>Identities and results\<close>

record peer_identity =
  pi_pid :: int
  pi_uid :: int
  pi_start :: int

record authz_result =
  az_outcome :: string
  az_detail :: string

definition authorized :: "authz_result \<Rightarrow> bool" where
  "authorized r = (az_outcome r = ''authorized'')"

text \<open>\<^verbatim>\<open>raw.rsplit(")", 1)[-1]\<close>: the whole line when it has no closing parenthesis.\<close>

definition rsplit_paren :: "string \<Rightarrow> string" where
  "rsplit_paren s = rev (takeWhile (\<lambda>c. c \<noteq> CHR '')'') (rev s))"

definition parse_start_time :: "string \<Rightarrow> int option" where
  "parse_start_time raw =
     (let tl_fields = split_ws [] (rsplit_paren raw)
      in if 19 < length tl_fields then py_int (tl_fields ! 19) else None)"

text \<open>The argument is the content of \<^verbatim>\<open>/proc/<pid>/stat\<close>, \<open>None\<close> when it cannot be read.\<close>

definition proc_start_time :: "string option \<Rightarrow> int option" where
  "proc_start_time stat = Option.bind stat parse_start_time"

section \<open>Running pkcheck\<close>

text \<open>How a run of \<^verbatim>\<open>pkcheck\<close> ends: an exit code with the text of its standard error, one of the exceptions the
  gate handles, or any other exception.\<close>

datatype pk_run = Pk_exit int string | Pk_not_found | Pk_timeout | Pk_os_error string | Pk_raised string

definition PKCHECK_TIMEOUT_S :: real where "PKCHECK_TIMEOUT_S = 60"

definition pkcheck_argv :: "string \<Rightarrow> peer_identity \<Rightarrow> string option \<Rightarrow> bool \<Rightarrow> string list" where
  "pkcheck_argv action_id peer target interactive =
     [''pkcheck'', ''--action-id'', action_id, ''--process'', int_str (pi_pid peer) @ '','' @ int_str (pi_start peer)]
     @ (if interactive then [''--allow-user-interaction''] else [])
     @ (case target of None \<Rightarrow> [] | Some t \<Rightarrow> [''--detail'', ''path'', t])"

definition lower_char :: "char \<Rightarrow> char" where
  "lower_char c = (if 65 \<le> char_code c \<and> char_code c \<le> 90 then char_of (char_code c + 32) else c)"

definition classify :: "int \<Rightarrow> string \<Rightarrow> authz_result" where
  "classify returncode raw_stderr =
     (if returncode = 0 then \<lparr>az_outcome = ''authorized'', az_detail = ''''\<rparr>
      else let stderr = strip raw_stderr;
               low = map lower_char stderr
           in if contains low ''no agent is available'' then \<lparr>az_outcome = ''agent_missing'', az_detail = stderr\<rparr>
              else if contains low ''is not registered'' then \<lparr>az_outcome = ''action_unknown'', az_detail = stderr\<rparr>
              else \<lparr>az_outcome = ''denied'', az_detail = stderr\<rparr>)"

text \<open>\<open>Inl\<close> is an exception the gate does not handle.\<close>

definition pk_result :: "pk_run \<Rightarrow> string + authz_result" where
  "pk_result run =
     (case run of
        Pk_exit rc err \<Rightarrow> Inr (classify rc err)
      | Pk_not_found \<Rightarrow> Inr \<lparr>az_outcome = ''polkit_unavailable'', az_detail = ''pkcheck is not installed''\<rparr>
      | Pk_timeout \<Rightarrow> Inr \<lparr>az_outcome = ''timeout'', az_detail = ''no answer to the authorization prompt in 60s''\<rparr>
      | Pk_os_error m \<Rightarrow> Inr \<lparr>az_outcome = ''error'', az_detail = ''pkcheck could not run: '' @ m\<rparr>
      | Pk_raised m \<Rightarrow> Inl m)"

text \<open>\<^verbatim>\<open>subprocess.run\<close> refuses an argument with an embedded NUL before it starts anything.\<close>

definition subprocess_run :: "(string list \<Rightarrow> pk_run) \<Rightarrow> string list \<Rightarrow> pk_run" where
  "subprocess_run os argv = (if list_ex (\<lambda>a. CHR 0x00 \<in> set a) argv then Pk_raised ''embedded null byte'' else os argv)"

text \<open>The semaphore is a flag of the server; it is taken without waiting and released on every way out, so a call that
  is not interrupted leaves it as it was.\<close>

definition check_polkit ::
  "bool \<Rightarrow> (string list \<Rightarrow> pk_run) \<Rightarrow> string \<Rightarrow> peer_identity \<Rightarrow> string option \<Rightarrow> string + authz_result" where
  "check_polkit busy runner action_id peer target =
     (if busy then Inr \<lparr>az_outcome = ''authz_busy'', az_detail = ''''\<rparr>
      else pk_result (runner (pkcheck_argv action_id peer target True)))"

section \<open>Lemmas\<close>

lemma classify_authorized [simp]: "authorized (classify rc err) \<longleftrightarrow> rc = 0"
  by (simp add: classify_def authorized_def Let_def)

lemma pk_result_authorized: "pk_result run = Inr r \<Longrightarrow> authorized r \<longleftrightarrow> (\<exists>err. run = Pk_exit 0 err)"
proof (cases run)
  case (Pk_exit rc err)
  assume "pk_result run = Inr r"
  then have "r = classify rc err" using Pk_exit by (simp add: pk_result_def)
  then show ?thesis using Pk_exit by simp
qed (auto simp: pk_result_def authorized_def)

end
