(* ===== verification/Ipc.thy ===== *)
theory Ipc
  imports Authz Rate_Limit Cases
begin

text \<open>
  The JSON-RPC server of \<^verbatim>\<open>ipc_server.py\<close>: accepting a connection, the gate of the polkit methods, the dispatch
  of a request and its answer. A request is cut where the code waits for \<^verbatim>\<open>pkcheck\<close>, so that the requests of several
  connections interleave; \<^verbatim>\<open>gate\<close> and \<^verbatim>\<open>dispatch\<close> are the uncut functions.
\<close>

section \<open>Methods and parameters\<close>

text \<open>Parameters come from JSON, except the peer identity the server adds.\<close>

datatype param_value = Val pyval | Peer peer_identity

type_synonym params = "(string \<times> param_value) list"

definition PEER_PARAM :: string where "PEER_PARAM = ''_peer''"
definition AUTHZ_DENIED_CODE :: int where "AUTHZ_DENIED_CODE = - 32001"
definition IPC_PROTOCOL_VERSION :: string where "IPC_PROTOCOL_VERSION = ''1.0.0''"

text \<open>A handler returns a value, raises a \<^verbatim>\<open>ClientFacingError\<close> or raises anything else.\<close>

datatype handler_result = Returned pyval | Client_error string | Raised string

text \<open>Limiters are objects that methods may share, so a method names its limiter.\<close>

record 's ipc_method =
  mt_name :: string
  mt_handler :: "params \<Rightarrow> 's \<times> audit_state \<Rightarrow> ('s \<times> audit_state) \<times> handler_result"
  mt_mutates :: bool
  mt_polkit_action :: "string option"
  mt_limiter :: "nat option"
  mt_polkit_target :: "(params \<Rightarrow> string option) option"

record 's ipc_config =
  ic_methods :: "'s ipc_method list"
  ic_allowed_uids :: "int list"
  ic_authz :: bool
  ic_audit :: bool

record 's server =
  sv_daemon :: 's
  sv_audit :: audit_state
  sv_limiters :: "nat \<Rightarrow> sliding_window"
  sv_prompt :: bool

text \<open>What one request meets: the clock, the digest and the audit append, and the reference of a failure.\<close>

record request_env =
  rv_mono :: real
  rv_sha :: "string \<Rightarrow> string"
  rv_call :: audit_call
  rv_ref :: string

section \<open>Replies\<close>

definition err_reply :: "pyval \<Rightarrow> int \<Rightarrow> string \<Rightarrow> pyval" where
  "err_reply rid code msg =
     PDict [(''jsonrpc'', PStr ''2.0''), (''id'', rid), (''error'', PDict [(''code'', PInt code), (''message'', PStr msg)])]"

definition ok_reply :: "pyval \<Rightarrow> pyval \<Rightarrow> pyval" where
  "ok_reply rid res = PDict [(''jsonrpc'', PStr ''2.0''), (''id'', rid), (''result'', res)]"

definition INTERNAL_ERROR :: "string \<Rightarrow> string" where
  "INTERNAL_ERROR ref = ''internal error (error_ref='' @ ref @ ''); the daemon log has the details''"

definition DENIAL_MESSAGES :: "(string \<times> string) list" where
  "DENIAL_MESSAGES =
     [(''rate_limited'', ''too many requests; retry in a minute''),
      (''peer_gone'', ''peer process identity could not be captured at connect; reconnect and retry''),
      (''polkit_unavailable'', ''polkit is unavailable; the daemon cannot authorize this action''),
      (''agent_missing'', ''no polkit agent in this session - use a desktop terminal, or run pkttyagent --process <your pid> --fallback''),
      (''action_unknown'', ''polkit policy not installed - run: sudo cp packaging/polkit/org.inspectord.policy /usr/share/polkit-1/actions/''),
      (''timeout'', ''no answer to the authorization prompt in 60s''),
      (''authz_busy'', ''another authorization prompt is in progress; retry in a moment''),
      (''denied'', ''authorization denied'')]"

definition denial_message :: "string \<Rightarrow> string" where
  "denial_message oc = oc @ '': '' @ (case map_of DENIAL_MESSAGES oc of None \<Rightarrow> ''authorization failed'' | Some m \<Rightarrow> m)"

text \<open>\<^verbatim>\<open>json.dumps\<close> raises on any other object.\<close>

fun serializable :: "pyval \<Rightarrow> bool" where
  "serializable (PList xs) = list_all serializable xs"
| "serializable (PDict d) = list_all (\<lambda>(k, v). serializable v) d"
| "serializable (PTime t) = False"
| "serializable (POpaque s) = False"
| "serializable v = True"

definition response :: "string \<Rightarrow> pyval \<Rightarrow> handler_result \<Rightarrow> pyval" where
  "response ref rid res =
     (case res of
        Returned v \<Rightarrow> if serializable v then ok_reply rid v else err_reply rid (- 32000) (INTERNAL_ERROR ref)
      | Client_error msg \<Rightarrow> err_reply rid (- 32000) msg
      | Raised m \<Rightarrow> err_reply rid (- 32000) (INTERNAL_ERROR ref))"

section \<open>The gate\<close>

text \<open>The audit sink: the actor is the peer, and a failed append is swallowed.\<close>

definition denial_details :: "string \<Rightarrow> int \<Rightarrow> int \<Rightarrow> string \<Rightarrow> string option \<Rightarrow> pydict" where
  "denial_details action_id pid uid reason target =
     [(''action_id'', PStr action_id), (''peer_pid'', PInt pid), (''peer_uid'', PInt uid), (''reason'', PStr reason)]
     @ (case target of None \<Rightarrow> [] | Some t \<Rightarrow> [(''path'', PStr t)])"

definition audit_denial ::
  "request_env \<Rightarrow> 's ipc_config \<Rightarrow> 's ipc_method \<Rightarrow> string \<Rightarrow> int \<Rightarrow> int \<Rightarrow> string \<Rightarrow> string option \<Rightarrow> 's server \<Rightarrow> 's server" where
  "audit_denial env cfg m action_id pid uid reason target sv =
     (if \<not> ic_audit cfg then sv
      else sv\<lparr>sv_audit := fst (append_audit (rv_sha env)
             ((rv_call env)\<lparr>ac_actor := ''uid:'' @ int_str uid @ '':pid:'' @ int_str pid, ac_action := ''polkit_denied'',
                ac_target := Some (mt_name m), ac_details := details_of (denial_details action_id pid uid reason target)\<rparr>)
             (sv_audit sv))\<rparr>)"

definition target_of :: "'s ipc_method \<Rightarrow> params \<Rightarrow> string option" where
  "target_of m ps = (case mt_polkit_target m of None \<Rightarrow> None | Some f \<Rightarrow> f ps)"

definition limiter_check :: "request_env \<Rightarrow> 's ipc_method \<Rightarrow> 's server \<Rightarrow> (bool \<times> bool) \<times> 's server" where
  "limiter_check env m sv =
     (case mt_limiter m of
        None \<Rightarrow> ((True, False), sv)
      | Some l \<Rightarrow> (case sw_check (rv_mono env) (sv_limiters sv l) of
                    (r, w) \<Rightarrow> (r, sv\<lparr>sv_limiters := (sv_limiters sv)(l := w)\<rparr>)))"

text \<open>The whole gate: \<open>None\<close> lets the request pass, \<open>Inl\<close> is an exception that leaves it.\<close>

definition gate ::
  "request_env \<Rightarrow> 's ipc_config \<Rightarrow> (string list \<Rightarrow> pk_run) \<Rightarrow> 's ipc_method \<Rightarrow> string \<Rightarrow> int \<Rightarrow> int \<Rightarrow> peer_identity option
     \<Rightarrow> params \<Rightarrow> 's server \<Rightarrow> 's server \<times> (string + string option)" where
  "gate env cfg runner m action_id pid uid peer ps sv =
     (let target = target_of m ps;
          refuse = (\<lambda>oc s. (audit_denial env cfg m action_id pid uid oc target s, Inr (Some (denial_message oc))))
      in case limiter_check env m sv of ((allowed, audit_this), sv1) \<Rightarrow>
         if \<not> allowed then
           (if audit_this then refuse ''rate_limited'' sv1 else (sv1, Inr (Some (denial_message ''rate_limited''))))
         else case peer of None \<Rightarrow> refuse ''peer_gone'' sv1 | Some p \<Rightarrow>
         if \<not> ic_authz cfg then refuse ''polkit_unavailable'' sv1
         else case check_polkit (sv_prompt sv1) runner action_id p target of
                Inl e \<Rightarrow> (sv1, Inl e)
              | Inr r \<Rightarrow> if authorized r then (sv1, Inr None) else refuse (az_outcome r) sv1)"

text \<open>Its two halves: everything up to the start of \<^verbatim>\<open>pkcheck\<close>, and what follows its end.\<close>

definition gate_open ::
  "request_env \<Rightarrow> 's ipc_config \<Rightarrow> 's ipc_method \<Rightarrow> string \<Rightarrow> int \<Rightarrow> int \<Rightarrow> peer_identity option \<Rightarrow> params \<Rightarrow> 's server
     \<Rightarrow> 's server \<times> (string + peer_identity)" where
  "gate_open env cfg m action_id pid uid peer ps sv =
     (let target = target_of m ps;
          refuse = (\<lambda>oc s. (audit_denial env cfg m action_id pid uid oc target s, Inl (denial_message oc)))
      in case limiter_check env m sv of ((allowed, audit_this), sv1) \<Rightarrow>
         if \<not> allowed then
           (if audit_this then refuse ''rate_limited'' sv1 else (sv1, Inl (denial_message ''rate_limited'')))
         else case peer of None \<Rightarrow> refuse ''peer_gone'' sv1 | Some p \<Rightarrow>
         if \<not> ic_authz cfg then refuse ''polkit_unavailable'' sv1
         else if sv_prompt sv1 then refuse ''authz_busy'' sv1
         else (sv1\<lparr>sv_prompt := True\<rparr>, Inr p))"

definition gate_close ::
  "request_env \<Rightarrow> 's ipc_config \<Rightarrow> pk_run \<Rightarrow> 's ipc_method \<Rightarrow> string \<Rightarrow> int \<Rightarrow> int \<Rightarrow> params \<Rightarrow> 's server
     \<Rightarrow> 's server \<times> (string + string option)" where
  "gate_close env cfg run m action_id pid uid ps sv =
     (let sv1 = sv\<lparr>sv_prompt := False\<rparr>
      in case pk_result run of
           Inl e \<Rightarrow> (sv1, Inl e)
         | Inr r \<Rightarrow> if authorized r then (sv1, Inr None)
                    else (audit_denial env cfg m action_id pid uid (az_outcome r) (target_of m ps) sv1,
                          Inr (Some (denial_message (az_outcome r)))))"

section \<open>Dispatch\<close>

text \<open>Where a request has got to: answered, its connection dropped by an exception, at the prompt, or about to run
  its handler (with the \<^verbatim>\<open>pkcheck\<close> run that let it pass).\<close>

datatype 's stage =
    Answered pyval
  | Dropped
  | Prompting "'s ipc_method" pyval params peer_identity
  | Ready "'s ipc_method" pyval params "(string list \<times> pk_run) option"

text \<open>\<^verbatim>\<open>dict(params or {})\<close>; \<open>None\<close> is the \<^verbatim>\<open>TypeError\<close> or \<^verbatim>\<open>ValueError\<close> of anything that is no sequence of
  pairs. Handlers read parameters by string keys, so other keys are left out.\<close>

fun pair_of :: "pyval \<Rightarrow> (pyval \<times> pyval) option" where
  "pair_of (PList [k, v]) = (case k of PList _ \<Rightarrow> None | PDict _ \<Rightarrow> None | _ \<Rightarrow> Some (k, v))"
| "pair_of (PStr [a, b]) = Some (PStr [a], PStr [b])"
| "pair_of (PDict [(k, _), (l, _)]) = Some (PStr k, PStr l)"
| "pair_of v = None"

fun dict_of_pairs :: "pyval list \<Rightarrow> pydict \<Rightarrow> pydict option" where
  "dict_of_pairs [] d = Some d"
| "dict_of_pairs (x # xs) d =
     (case pair_of x of
        None \<Rightarrow> None
      | Some (k, v) \<Rightarrow> dict_of_pairs xs (case k of PStr s \<Rightarrow> AList.update s v d | _ \<Rightarrow> d))"

definition params_dict :: "pyval \<Rightarrow> pydict option" where
  "params_dict v =
     (if \<not> truthy v then Some []
      else case v of
             PDict d \<Rightarrow> Some d
           | PList xs \<Rightarrow> dict_of_pairs xs []
           | PStr s \<Rightarrow> None
           | _ \<Rightarrow> None)"

definition strip_peer :: "pydict \<Rightarrow> params" where
  "strip_peer d = AList.delete PEER_PARAM (map (\<lambda>(k, v). (k, Val v)) d)"

definition method_named :: "'s ipc_config \<Rightarrow> string \<Rightarrow> 's ipc_method option" where
  "method_named cfg n = map_of (rev (map (\<lambda>m. (mt_name m, m)) (ic_methods cfg))) n"

text \<open>A method name that is a list or an object is unhashable and raises; any other value is no name.\<close>

datatype 's lookup = Unhashable | Not_found | Found "'s ipc_method"

definition find_method :: "'s ipc_config \<Rightarrow> pyval \<Rightarrow> 's lookup" where
  "find_method cfg v =
     (case v of
        PStr n \<Rightarrow> (case method_named cfg n of None \<Rightarrow> Not_found | Some m \<Rightarrow> Found m)
      | PList _ \<Rightarrow> Unhashable
      | PDict _ \<Rightarrow> Unhashable
      | _ \<Rightarrow> Not_found)"

text \<open>Everything before the gate: a final stage, or the method with the request's id and its cleaned parameters.\<close>

definition validate_request :: "'s ipc_config \<Rightarrow> pyval \<Rightarrow> 's stage + 's ipc_method \<times> pyval \<times> params" where
  "validate_request cfg req =
     (case req of
        PDict r \<Rightarrow>
          (let rid = dget r ''id''
           in if dget r ''jsonrpc'' \<noteq> PStr ''2.0'' then Inl (Answered (err_reply rid (- 32600) ''invalid request''))
              else if dget r ''schema_version'' \<noteq> PStr IPC_PROTOCOL_VERSION then
                Inl (Answered (err_reply rid (- 32602) (''unsupported schema_version, expected '' @ IPC_PROTOCOL_VERSION)))
              else case find_method cfg (case map_of r ''method'' of None \<Rightarrow> PStr '''' | Some v \<Rightarrow> v) of
                     Unhashable \<Rightarrow> Inl Dropped
                   | Not_found \<Rightarrow> Inl (Answered (err_reply rid (- 32601) ''method not found''))
                   | Found m \<Rightarrow>
                       (case params_dict (dget r ''params'') of
                          None \<Rightarrow> Inl Dropped
                        | Some d \<Rightarrow> Inr (m, rid, strip_peer d)))
      | _ \<Rightarrow> Inl Dropped)"

definition with_peer :: "peer_identity \<Rightarrow> params \<Rightarrow> params" where
  "with_peer p ps = AList.update PEER_PARAM (Peer p) ps"

definition open_request ::
  "request_env \<Rightarrow> 's ipc_config \<Rightarrow> int \<Rightarrow> int \<Rightarrow> peer_identity option \<Rightarrow> pyval \<Rightarrow> 's server \<Rightarrow> 's server \<times> 's stage" where
  "open_request env cfg pid uid peer req sv =
     (case validate_request cfg req of
        Inl st \<Rightarrow> (sv, st)
      | Inr (m, rid, ps) \<Rightarrow>
          (case mt_polkit_action m of
             None \<Rightarrow> (sv, Ready m rid ps None)
           | Some a \<Rightarrow>
               (case gate_open env cfg m a pid uid peer ps sv of
                  (sv1, Inl denial) \<Rightarrow> (sv1, Answered (err_reply rid AUTHZ_DENIED_CODE denial))
                | (sv1, Inr p) \<Rightarrow> (sv1, Prompting m rid ps p))))"

definition prompt_argv :: "'s ipc_method \<Rightarrow> peer_identity \<Rightarrow> params \<Rightarrow> string list" where
  "prompt_argv m p ps = pkcheck_argv (case mt_polkit_action m of None \<Rightarrow> '''' | Some a \<Rightarrow> a) p (target_of m ps) True"

definition close_prompt ::
  "request_env \<Rightarrow> 's ipc_config \<Rightarrow> pk_run \<Rightarrow> int \<Rightarrow> int \<Rightarrow> 's ipc_method \<Rightarrow> pyval \<Rightarrow> params \<Rightarrow> peer_identity \<Rightarrow> 's server
     \<Rightarrow> 's server \<times> 's stage" where
  "close_prompt env cfg run pid uid m rid ps p sv =
     (case gate_close env cfg run m (case mt_polkit_action m of None \<Rightarrow> '''' | Some a \<Rightarrow> a) pid uid ps sv of
        (sv1, Inl e) \<Rightarrow> (sv1, Dropped)
      | (sv1, Inr (Some denial)) \<Rightarrow> (sv1, Answered (err_reply rid AUTHZ_DENIED_CODE denial))
      | (sv1, Inr None) \<Rightarrow> (sv1, Ready m rid (with_peer p ps) (Some (prompt_argv m p ps, run))))"

definition run_handler :: "request_env \<Rightarrow> 's ipc_method \<Rightarrow> pyval \<Rightarrow> params \<Rightarrow> 's server \<Rightarrow> 's server \<times> pyval" where
  "run_handler env m rid ps sv =
     (case mt_handler m ps (sv_daemon sv, sv_audit sv) of
        ((d, a), res) \<Rightarrow> (sv\<lparr>sv_daemon := d, sv_audit := a\<rparr>, response (rv_ref env) rid res))"

text \<open>The whole of \<^verbatim>\<open>_dispatch\<close>, when no other request comes between; \<open>None\<close> is the dropped connection.\<close>

definition dispatch_request ::
  "request_env \<Rightarrow> 's ipc_config \<Rightarrow> (string list \<Rightarrow> pk_run) \<Rightarrow> int \<Rightarrow> int \<Rightarrow> peer_identity option \<Rightarrow> pyval \<Rightarrow> 's server
     \<Rightarrow> 's server \<times> pyval option" where
  "dispatch_request env cfg runner pid uid peer req sv =
     (case validate_request cfg req of
        Inl (Answered r) \<Rightarrow> (sv, Some r)
      | Inl _ \<Rightarrow> (sv, None)
      | Inr (m, rid, ps) \<Rightarrow>
          (case mt_polkit_action m of
             None \<Rightarrow> map_prod id Some (run_handler env m rid ps sv)
           | Some a \<Rightarrow>
               (case gate env cfg runner m a pid uid peer ps sv of
                  (sv1, Inl e) \<Rightarrow> (sv1, None)
                | (sv1, Inr (Some denial)) \<Rightarrow> (sv1, Some (err_reply rid AUTHZ_DENIED_CODE denial))
                | (sv1, Inr None) \<Rightarrow>
                    map_prod id Some (run_handler env m rid (case peer of None \<Rightarrow> ps | Some p \<Rightarrow> with_peer p ps) sv1))))"

section \<open>Connections\<close>

record 's connection =
  cn_pid :: int
  cn_uid :: int
  cn_peer :: "peer_identity option"
  cn_stage :: "'s stage option"
  cn_open :: bool
  cn_sent :: "pyval list"

text \<open>The peer's credentials and \<^verbatim>\<open>/proc\<close> entry are read once, here.\<close>

definition accept_peer :: "int \<Rightarrow> int \<Rightarrow> string option \<Rightarrow> peer_identity option" where
  "accept_peer pid uid stat = map_option (\<lambda>t. \<lparr>pi_pid = pid, pi_uid = uid, pi_start = t\<rparr>) (proc_start_time stat)"

definition accept_connection :: "'s ipc_config \<Rightarrow> int \<Rightarrow> int \<Rightarrow> string option \<Rightarrow> 's connection" where
  "accept_connection cfg pid uid stat =
     (if ic_allowed_uids cfg \<noteq> [] \<and> uid \<notin> set (ic_allowed_uids cfg) then
        \<lparr>cn_pid = pid, cn_uid = uid, cn_peer = None, cn_stage = None, cn_open = False,
         cn_sent = [err_reply PNone (- 32000) ''peer uid not allowed'']\<rparr>
      else \<lparr>cn_pid = pid, cn_uid = uid, cn_peer = accept_peer pid uid stat, cn_stage = None, cn_open = True, cn_sent = []\<rparr>)"

definition settle :: "'s stage \<Rightarrow> 's connection \<Rightarrow> 's connection" where
  "settle st c =
     (case st of
        Answered r \<Rightarrow> c\<lparr>cn_stage := None, cn_sent := cn_sent c @ [r]\<rparr>
      | Dropped \<Rightarrow> c\<lparr>cn_stage := None, cn_open := False\<rparr>
      | _ \<Rightarrow> c\<lparr>cn_stage := Some st\<rparr>)"

text \<open>One line of the socket; \<open>None\<close> is a line that is no UTF-8.\<close>

definition receive_line ::
  "request_env \<Rightarrow> 's ipc_config \<Rightarrow> string option \<Rightarrow> 's connection \<Rightarrow> 's server \<Rightarrow> 's server \<times> 's connection" where
  "receive_line env cfg line c sv =
     (if map_option (rev \<circ> dropWhile (\<lambda>ch. ch = CHR 0x0A) \<circ> rev) line = Some [] then (sv, c)
      else case Option.bind line json_loads of
             None \<Rightarrow> (sv, c\<lparr>cn_sent := cn_sent c @ [err_reply PNone (- 32700) ''parse error'']\<rparr>)
           | Some req \<Rightarrow>
               (case open_request env cfg (cn_pid c) (cn_uid c) (cn_peer c) req sv of
                  (sv1, st) \<Rightarrow> (sv1, settle st c)))"

end
