(* ===== verification/Ipc_Laws.thy ===== *)
theory Ipc_Laws
  imports Ipc
begin

text \<open>
  What the server guarantees: a gated handler runs only behind its own successful \<^verbatim>\<open>pkcheck\<close>, every refusal is
  audited, and the text of an internal failure never reaches a client.
\<close>

section \<open>Cutting a request at the prompt\<close>

lemma prompt_restored [simp]: "\<not> sv_prompt sv \<Longrightarrow> sv\<lparr>sv_prompt := True, sv_prompt := False\<rparr> = sv"
  by (cases sv) simp

lemma gate_cut:
  "gate env cfg runner m a pid uid peer ps sv =
     (case gate_open env cfg m a pid uid peer ps sv of
        (sv1, Inl d) \<Rightarrow> (sv1, Inr (Some d))
      | (sv1, Inr p) \<Rightarrow> gate_close env cfg (runner (pkcheck_argv a p (target_of m ps) True)) m a pid uid ps sv1)"
proof -
  obtain allowed audit_this sv1 where l: "limiter_check env m sv = ((allowed, audit_this), sv1)" by (metis prod.exhaust)
  show ?thesis
    by (cases peer; cases "sv_prompt sv1")
       (simp_all add: gate_def gate_open_def gate_close_def check_polkit_def Let_def l authorized_def[of "\<lparr>az_outcome = _, az_detail = _\<rparr>"])
qed

lemma gate_open_peer: "gate_open env cfg m a pid uid peer ps sv = (sv1, Inr p) \<Longrightarrow> peer = Some p \<and> \<not> sv_prompt sv \<and> sv_prompt sv1"
  by (auto simp: gate_open_def limiter_check_def Let_def split: prod.splits option.splits if_splits)

text \<open>\<^verbatim>\<open>_dispatch\<close> is its stages one after the other.\<close>

lemma dispatch_cut:
  "dispatch_request env cfg runner pid uid peer req sv =
     (case open_request env cfg pid uid peer req sv of
        (sv1, Answered r) \<Rightarrow> (sv1, Some r)
      | (sv1, Dropped) \<Rightarrow> (sv1, None)
      | (sv1, Ready m rid ps _) \<Rightarrow> map_prod id Some (run_handler env m rid ps sv1)
      | (sv1, Prompting m rid ps p) \<Rightarrow>
          (case close_prompt env cfg (runner (prompt_argv m p ps)) pid uid m rid ps p sv1 of
             (sv2, Answered r) \<Rightarrow> (sv2, Some r)
           | (sv2, Ready m rid ps _) \<Rightarrow> map_prod id Some (run_handler env m rid ps sv2)
           | (sv2, _) \<Rightarrow> (sv2, None)))"
proof -
  have final: "st = Dropped \<or> (\<exists>r. st = Answered r)" if "validate_request cfg req = Inl st" for st
    using that by (auto simp: validate_request_def Let_def split: pyval.splits if_splits lookup.splits option.splits)
  show ?thesis
    unfolding dispatch_request_def open_request_def gate_cut close_prompt_def prompt_argv_def
    by (auto dest: final gate_open_peer split: sum.split prod.split option.split stage.split)
qed

section \<open>Connections and calls\<close>

record 's ipc_call =
  cl_conn :: nat
  cl_method :: "'s ipc_method"
  cl_params :: params
  cl_prompt :: "(string list \<times> pk_run) option"

record 's ipc_world =
  wd_server :: "'s server"
  wd_conns :: "(nat, 's connection) table"
  wd_log :: "'s ipc_call list"

definition set_conn :: "nat \<Rightarrow> 's connection \<Rightarrow> 's server \<Rightarrow> 's ipc_world \<Rightarrow> 's ipc_world" where
  "set_conn n c sv w = w\<lparr>wd_server := sv, wd_conns := AList.update n c (wd_conns w)\<rparr>"

text \<open>Connections are accepted, send lines, wait for \<^verbatim>\<open>pkcheck\<close>, run handlers and close in any order; the daemon changes
  its own state in between.\<close>

inductive ipc_step :: "'s ipc_config \<Rightarrow> 's ipc_world \<Rightarrow> 's ipc_world \<Rightarrow> bool" for cfg where
  Accept: "n \<notin> set (keys (wd_conns w)) \<Longrightarrow> ipc_step cfg w (set_conn n (accept_connection cfg pid uid stat) (wd_server w) w)"
| Line: "\<lbrakk>map_of (wd_conns w) n = Some c; cn_open c; cn_stage c = None; receive_line env cfg line c (wd_server w) = (sv', c')\<rbrakk>
    \<Longrightarrow> ipc_step cfg w (set_conn n c' sv' w)"
| Prompt: "\<lbrakk>map_of (wd_conns w) n = Some c; cn_stage c = Some (Prompting m rid ps p);
    close_prompt env cfg run (cn_pid c) (cn_uid c) m rid ps p (wd_server w) = (sv', st)\<rbrakk>
    \<Longrightarrow> ipc_step cfg w (set_conn n (settle st c) sv' w)"
| Handle: "\<lbrakk>map_of (wd_conns w) n = Some c; cn_stage c = Some (Ready m rid ps pk); run_handler env m rid ps (wd_server w) = (sv', r)\<rbrakk>
    \<Longrightarrow> ipc_step cfg w ((set_conn n (settle (Answered r) c) sv' w)
          \<lparr>wd_log := wd_log w @ [\<lparr>cl_conn = n, cl_method = m, cl_params = ps, cl_prompt = pk\<rparr>]\<rparr>)"
| Hang_up: "\<lbrakk>map_of (wd_conns w) n = Some c; cn_stage c = None\<rbrakk> \<Longrightarrow> ipc_step cfg w (set_conn n (c\<lparr>cn_open := False\<rparr>) (wd_server w) w)"
| Daemon: "ipc_step cfg w (w\<lparr>wd_server := (wd_server w)\<lparr>sv_daemon := d, sv_audit := a\<rparr>\<rparr>)"

definition ipc_boot :: "'s ipc_world \<Rightarrow> bool" where
  "ipc_boot w \<longleftrightarrow> wd_conns w = [] \<and> wd_log w = [] \<and> \<not> sv_prompt (wd_server w)"

text \<open>What a handler call rests on: its method is in the table, its connection's uid is allowed, and a gated call has
  its own successful prompt for the peer of the connection, which is also the peer the handler is told of.\<close>

definition authentic :: "'s ipc_config \<Rightarrow> 's connection \<Rightarrow> 's ipc_method \<Rightarrow> params \<Rightarrow> (string list \<times> pk_run) option \<Rightarrow> bool" where
  "authentic cfg c m ps pk \<longleftrightarrow>
     m \<in> set (ic_methods cfg) \<and> (ic_allowed_uids cfg = [] \<or> cn_uid c \<in> set (ic_allowed_uids cfg))
     \<and> (case mt_polkit_action m of
          None \<Rightarrow> pk = None \<and> map_of ps PEER_PARAM = None
        | Some a \<Rightarrow> (\<exists>p err ps0. cn_peer c = Some p \<and> ps = with_peer p ps0 \<and> map_of ps0 PEER_PARAM = None
                      \<and> pk = Some (pkcheck_argv a p (target_of m ps0) True, Pk_exit 0 err)))"

definition prompting :: "'s connection \<Rightarrow> bool" where
  "prompting c \<longleftrightarrow> (case cn_stage c of Some (Prompting m rid ps p) \<Rightarrow> True | _ \<Rightarrow> False)"

definition conn_ok :: "'s ipc_config \<Rightarrow> bool \<Rightarrow> 's connection \<Rightarrow> bool" where
  "conn_ok cfg taken c \<longleftrightarrow>
     (cn_open c \<or> cn_stage c \<noteq> None \<longrightarrow> ic_allowed_uids cfg = [] \<or> cn_uid c \<in> set (ic_allowed_uids cfg))
     \<and> (case cn_stage c of
          Some (Prompting m rid ps p) \<Rightarrow>
            taken \<and> m \<in> set (ic_methods cfg) \<and> mt_polkit_action m \<noteq> None \<and> cn_peer c = Some p \<and> map_of ps PEER_PARAM = None
        | Some (Ready m rid ps pk) \<Rightarrow> authentic cfg c m ps pk
        | _ \<Rightarrow> True)"

definition ipc_inv :: "'s ipc_config \<Rightarrow> 's ipc_world \<Rightarrow> bool" where
  "ipc_inv cfg w \<longleftrightarrow>
     (\<forall>n c. map_of (wd_conns w) n = Some c \<longrightarrow> conn_ok cfg (sv_prompt (wd_server w)) c)
     \<and> (\<forall>n c n' c'. map_of (wd_conns w) n = Some c \<and> map_of (wd_conns w) n' = Some c' \<and> prompting c \<and> prompting c' \<longrightarrow> n = n')
     \<and> (\<forall>cl\<in>set (wd_log w). \<exists>c. map_of (wd_conns w) (cl_conn cl) = Some c \<and> authentic cfg c (cl_method cl) (cl_params cl) (cl_prompt cl))"

section \<open>The invariant\<close>

lemma strip_peer_clean [simp]: "map_of (strip_peer d) PEER_PARAM = None"
  by (simp add: strip_peer_def delete_conv')

lemma method_named_mem: "method_named cfg n = Some m \<Longrightarrow> m \<in> set (ic_methods cfg)"
  by (auto simp: method_named_def dest!: map_of_SomeD)

lemma validate_found:
  assumes "validate_request cfg req = Inr (m, rid, ps)"
  shows "m \<in> set (ic_methods cfg) \<and> map_of ps PEER_PARAM = None"
  using assms by (auto simp: validate_request_def find_method_def Let_def method_named_mem
      split: pyval.splits if_splits lookup.splits option.splits)

lemma validate_final: "validate_request cfg req = Inl st \<Longrightarrow> st = Dropped \<or> (\<exists>r. st = Answered r)"
  by (auto simp: validate_request_def Let_def split: pyval.splits if_splits lookup.splits option.splits)

lemma audit_denial_prompt [simp]: "sv_prompt (audit_denial env cfg m a pid uid oc t sv) = sv_prompt sv"
  by (simp add: audit_denial_def)

lemma gate_open_refused: "gate_open env cfg m a pid uid peer ps sv = (sv1, Inl d) \<Longrightarrow> sv_prompt sv1 = sv_prompt sv"
  by (auto simp: gate_open_def limiter_check_def Let_def split: prod.splits option.splits if_splits)

lemma open_request_stage:
  assumes "open_request env cfg pid uid peer req sv = (sv1, st)"
  shows "case st of
      Prompting m rid ps p \<Rightarrow> \<not> sv_prompt sv \<and> sv_prompt sv1 \<and> m \<in> set (ic_methods cfg) \<and> mt_polkit_action m \<noteq> None
        \<and> peer = Some p \<and> map_of ps PEER_PARAM = None
    | Ready m rid ps pk \<Rightarrow> sv1 = sv \<and> m \<in> set (ic_methods cfg) \<and> mt_polkit_action m = None \<and> pk = None \<and> map_of ps PEER_PARAM = None
    | _ \<Rightarrow> sv_prompt sv1 = sv_prompt sv"
  using assms by (auto simp: open_request_def split: sum.splits prod.splits option.splits
      dest: validate_found validate_final gate_open_peer gate_open_refused)

lemma close_prompt_stage:
  assumes "close_prompt env cfg run pid uid m rid ps p sv = (sv1, st)"
  shows "\<not> sv_prompt sv1 \<and> (case st of
      Prompting m rid ps p \<Rightarrow> False
    | Ready m' rid' ps' pk \<Rightarrow> m' = m \<and> ps' = with_peer p ps \<and> (\<exists>err. pk = Some (prompt_argv m p ps, Pk_exit 0 err))
    | _ \<Rightarrow> True)"
  using assms by (auto simp: close_prompt_def gate_close_def Let_def pk_result_authorized
      split: sum.splits prod.splits option.splits if_splits)

lemma settle_same [simp]: "cn_peer (settle st c) = cn_peer c" "cn_uid (settle st c) = cn_uid c" "cn_pid (settle st c) = cn_pid c"
  by (simp_all add: settle_def split: stage.split)

lemma receive_same:
  assumes "receive_line env cfg line c sv = (sv', c')"
  shows "cn_peer c' = cn_peer c \<and> cn_uid c' = cn_uid c \<and> cn_pid c' = cn_pid c"
  using assms by (auto simp: receive_line_def split: if_splits option.splits prod.splits)

lemma authentic_cong: "\<lbrakk>cn_peer c' = cn_peer c; cn_uid c' = cn_uid c\<rbrakk> \<Longrightarrow> authentic cfg c' m ps pk = authentic cfg c m ps pk"
  by (simp add: authentic_def split: option.split)

text \<open>Replacing one connection by another with the same identity keeps the invariant, if the others stay well-formed.\<close>

lemma set_conn_inv:
  assumes "ipc_inv cfg w" "conn_ok cfg (sv_prompt sv') c'"
    and same: "\<And>c. map_of (wd_conns w) n = Some c \<Longrightarrow> cn_peer c' = cn_peer c \<and> cn_uid c' = cn_uid c"
    and others: "\<And>k c. \<lbrakk>map_of (wd_conns w) k = Some c; k \<noteq> n\<rbrakk> \<Longrightarrow> conn_ok cfg (sv_prompt sv') c \<and> (prompting c' \<longrightarrow> \<not> prompting c)"
    and calls: "\<forall>cl\<in>set new. cl_conn cl = n \<and> authentic cfg c' (cl_method cl) (cl_params cl) (cl_prompt cl)"
  shows "ipc_inv cfg ((set_conn n c' sv' w)\<lparr>wd_log := wd_log w @ new\<rparr>)"
proof -
  let ?t = "AList.update n c' (wd_conns w)"
  have look: "map_of ?t k = (if k = n then Some c' else map_of (wd_conns w) k)" for k by (simp add: update_conv')
  have "\<forall>k c. map_of ?t k = Some c \<longrightarrow> conn_ok cfg (sv_prompt sv') c"
    using assms(2) others by (simp add: look)
  moreover have "\<forall>k c k' d. map_of ?t k = Some c \<and> map_of ?t k' = Some d \<and> prompting c \<and> prompting d \<longrightarrow> k = k'"
    using assms(1) others unfolding ipc_inv_def look by (metis option.inject)
  moreover have "\<exists>c. map_of ?t (cl_conn cl) = Some c \<and> authentic cfg c (cl_method cl) (cl_params cl) (cl_prompt cl)"
    if mem: "cl \<in> set (wd_log w @ new)" for cl
  proof (cases "cl \<in> set new")
    case True
    then show ?thesis using calls by (simp add: look)
  next
    case False
    then obtain c where c: "map_of (wd_conns w) (cl_conn cl) = Some c" "authentic cfg c (cl_method cl) (cl_params cl) (cl_prompt cl)"
      using mem assms(1) by (auto simp: ipc_inv_def)
    show ?thesis
    proof (cases "cl_conn cl = n")
      case True
      then show ?thesis using c same[of c] authentic_cong[of c' c] by (auto simp: look)
    qed (use c in \<open>simp add: look\<close>)
  qed
  ultimately show ?thesis by (simp add: ipc_inv_def set_conn_def)
qed

lemma set_conn_inv_quiet:
  assumes "ipc_inv cfg w" "conn_ok cfg (sv_prompt sv') c'"
    and "\<And>c. map_of (wd_conns w) n = Some c \<Longrightarrow> cn_peer c' = cn_peer c \<and> cn_uid c' = cn_uid c"
    and "\<And>k c. \<lbrakk>map_of (wd_conns w) k = Some c; k \<noteq> n\<rbrakk> \<Longrightarrow> conn_ok cfg (sv_prompt sv') c \<and> (prompting c' \<longrightarrow> \<not> prompting c)"
  shows "ipc_inv cfg (set_conn n c' sv' w)"
  using set_conn_inv[OF assms, where new = "[]"] by (simp add: set_conn_def)

lemma conn_ok_prompt_free: "\<not> prompting c \<Longrightarrow> conn_ok cfg taken c = conn_ok cfg taken' c"
  by (simp add: conn_ok_def prompting_def split: option.splits stage.splits)

lemma conn_ok_taken: "\<lbrakk>conn_ok cfg taken c; prompting c\<rbrakk> \<Longrightarrow> taken"
  by (simp add: conn_ok_def prompting_def split: option.splits stage.splits)

lemma idle_not_prompting [simp]: "cn_stage c = None \<Longrightarrow> \<not> prompting c"
  by (simp add: prompting_def)

lemma receive_line_ok:
  assumes "receive_line env cfg line c sv = (sv', c')" "conn_ok cfg (sv_prompt sv) c" "cn_open c" "cn_stage c = None"
  shows "conn_ok cfg (sv_prompt sv') c' \<and> (if prompting c' then \<not> sv_prompt sv \<and> sv_prompt sv' else sv_prompt sv' = sv_prompt sv)"
proof (cases "map_option (rev \<circ> dropWhile (\<lambda>ch. ch = CHR 0x0A) \<circ> rev) line = Some []")
  case True
  then show ?thesis using assms by (simp add: receive_line_def)
next
  case blank: False
  show ?thesis
  proof (cases "Option.bind line json_loads")
    case None
    then have "sv' = sv" "c' = c\<lparr>cn_sent := cn_sent c @ [err_reply PNone (- 32700) ''parse error'']\<rparr>"
      using assms(1) unfolding receive_line_def if_not_P[OF blank] by simp_all
    then show ?thesis using assms by (auto simp: conn_ok_def prompting_def)
  next
    case (Some req)
    obtain sv1 st where o: "open_request env cfg (cn_pid c) (cn_uid c) (cn_peer c) req sv = (sv1, st)" by (meson prod.exhaust)
    then have "sv' = sv1" "c' = settle st c" using assms(1) Some unfolding receive_line_def if_not_P[OF blank] by simp_all
    then show ?thesis using open_request_stage[OF o] assms(2,3,4)
      by (cases st) (auto simp: settle_def conn_ok_def prompting_def authentic_def)
  qed
qed

lemma close_prompt_ok:
  assumes "close_prompt env cfg run (cn_pid c) (cn_uid c) m rid ps p sv = (sv', st)"
    and "conn_ok cfg (sv_prompt sv) c" "cn_stage c = Some (Prompting m rid ps p)"
  shows "conn_ok cfg (sv_prompt sv') (settle st c) \<and> \<not> prompting (settle st c)"
  using close_prompt_stage[OF assms(1)] assms(2,3)
  by (cases st) (auto simp: settle_def conn_ok_def prompting_def authentic_def prompt_argv_def)

lemma run_handler_prompt: "run_handler env m rid ps sv = (sv', r) \<Longrightarrow> sv_prompt sv' = sv_prompt sv"
  by (auto simp: run_handler_def split: prod.splits)

lemma accept_ok [simp]: "conn_ok cfg taken (accept_connection cfg pid uid stat)" "\<not> prompting (accept_connection cfg pid uid stat)"
  by (simp_all add: accept_connection_def conn_ok_def prompting_def)

lemma ipc_step_inv: "\<lbrakk>ipc_step cfg w w'; ipc_inv cfg w\<rbrakk> \<Longrightarrow> ipc_inv cfg w'"
proof (induction rule: ipc_step.induct)
  case (Accept n w pid uid stat)
  then have "map_of (wd_conns w) n = None" by (simp add: map_of_eq_None_iff)
  then show ?case using Accept by (intro set_conn_inv_quiet) (auto simp: ipc_inv_def)
next
  case (Line w n c env line sv' c')
  have c: "conn_ok cfg (sv_prompt (wd_server w)) c" using Line by (auto simp: ipc_inv_def)
  note ok = receive_line_ok[OF Line(4) c Line(2,3)]
  have "conn_ok cfg (sv_prompt sv') d \<and> (prompting c' \<longrightarrow> \<not> prompting d)" if "map_of (wd_conns w) k = Some d" for k d
  proof -
    have d: "conn_ok cfg (sv_prompt (wd_server w)) d" using Line(5) that by (auto simp: ipc_inv_def)
    then show ?thesis using ok conn_ok_taken[OF d] conn_ok_prompt_free[of d cfg] by (auto split: if_splits)
  qed
  then show ?case using Line ok receive_same[OF Line(4)] by (intro set_conn_inv_quiet) auto
next
  case (Prompt w n c m rid ps p env run sv' st)
  have c: "conn_ok cfg (sv_prompt (wd_server w)) c" using Prompt by (auto simp: ipc_inv_def)
  note ok = close_prompt_ok[OF Prompt(3) c Prompt(2)]
  have "prompting c" using Prompt(2) by (simp add: prompting_def)
  then have "\<not> prompting d \<and> conn_ok cfg (sv_prompt sv') d" if "map_of (wd_conns w) k = Some d" "k \<noteq> n" for k d
    using Prompt(1,4) that conn_ok_prompt_free[of d cfg] unfolding ipc_inv_def by metis
  then show ?case using Prompt ok by (intro set_conn_inv_quiet) auto
next
  case (Handle w n c m rid ps pk env sv' r)
  have c: "conn_ok cfg (sv_prompt (wd_server w)) c" using Handle by (auto simp: ipc_inv_def)
  have s: "sv_prompt sv' = sv_prompt (wd_server w)" using run_handler_prompt Handle(3) by blast
  have a: "authentic cfg c m ps pk" "conn_ok cfg taken (settle (Answered r) c)" "\<not> prompting (settle (Answered r) c)" for taken
    using c Handle(2) by (auto simp: conn_ok_def settle_def prompting_def)
  have "conn_ok cfg (sv_prompt sv') d" if "map_of (wd_conns w) k = Some d" for k d
    using Handle(4) that s by (auto simp: ipc_inv_def)
  then show ?case using Handle a authentic_cong[of "settle (Answered r) c" c] by (intro set_conn_inv) auto
next
  case (Hang_up w n c)
  have "conn_ok cfg (sv_prompt (wd_server w)) (c\<lparr>cn_open := False\<rparr>)" "\<not> prompting (c\<lparr>cn_open := False\<rparr>)"
    using Hang_up by (auto simp: ipc_inv_def conn_ok_def prompting_def)
  then show ?case using Hang_up by (intro set_conn_inv_quiet) (auto simp: ipc_inv_def)
next
  case (Daemon w d a)
  then show ?case by (auto simp: ipc_inv_def)
qed

lemma ipc_reachable_inv:
  assumes "(ipc_step cfg)\<^sup>*\<^sup>* w w'" "ipc_boot w"
  shows "ipc_inv cfg w'"
  using assms by (induction rule: rtranclp_induct) (auto simp: ipc_inv_def ipc_boot_def dest: ipc_step_inv)

definition same_peer :: "'s connection \<Rightarrow> 's connection \<Rightarrow> bool" where
  "same_peer c c' \<longleftrightarrow> cn_pid c' = cn_pid c \<and> cn_uid c' = cn_uid c \<and> cn_peer c' = cn_peer c"

lemma ipc_step_peer:
  assumes "ipc_step cfg w w'" "map_of (wd_conns w) n = Some c"
  shows "\<exists>c'. map_of (wd_conns w') n = Some c' \<and> same_peer c c'"
  using assms by (induction rule: ipc_step.induct)
    (auto simp: set_conn_def update_conv' same_peer_def dest: receive_same simp flip: map_of_eq_None_iff)

lemma ipc_steps_peer:
  assumes "(ipc_step cfg)\<^sup>*\<^sup>* w w'" "map_of (wd_conns w) n = Some c"
  shows "\<exists>c'. map_of (wd_conns w') n = Some c' \<and> same_peer c c'"
  using assms
proof (induction rule: rtranclp_induct)
  case base
  then show ?case by (auto simp: same_peer_def)
next
  case (step v w')
  then obtain d where "map_of (wd_conns v) n = Some d" "same_peer c d" by blast
  then show ?case using ipc_step_peer[OF step(2), of n d] by (auto simp: same_peer_def)
qed

text \<open>C5: A gated handler runs only behind its own authorization. In every interleaving of connections, each handler call is
  of a method in the table, from a connection whose uid is allowed; a call of a polkit method came after a
  \<^verbatim>\<open>pkcheck\<close> run that exited 0, started for that call, for the action of the method, the target in its parameters and the
  process identity captured when the connection was accepted (which never changes), and the handler is told that
  identity; other calls are told no identity, whatever the client sent. At most one prompt is open at any time.\<close>

theorem gated_calls_are_authorized:
  assumes "ipc_boot w0" "(ipc_step cfg)\<^sup>*\<^sup>* w0 w" "(ipc_step cfg)\<^sup>*\<^sup>* w w'"
  shows "(\<forall>cl\<in>set (wd_log w'). \<exists>c. map_of (wd_conns w') (cl_conn cl) = Some c
            \<and> authentic cfg c (cl_method cl) (cl_params cl) (cl_prompt cl))
    \<and> (\<forall>n c. map_of (wd_conns w) n = Some c \<longrightarrow> (\<exists>c'. map_of (wd_conns w') n = Some c' \<and> same_peer c c'))
    \<and> (\<forall>n c n' c'. map_of (wd_conns w') n = Some c \<and> map_of (wd_conns w') n' = Some c' \<and> prompting c \<and> prompting c' \<longrightarrow> n = n')"
proof -
  have "(ipc_step cfg)\<^sup>*\<^sup>* w0 w'" using assms(2,3) by (rule rtranclp_trans)
  then have "ipc_inv cfg w'" using assms(1) by (rule ipc_reachable_inv)
  then show ?thesis using ipc_steps_peer[OF assms(3)] unfolding ipc_inv_def by blast
qed

end
