(* ===== verification/Ipc_Methods.thy ===== *)
theory Ipc_Methods
  imports Ipc_Laws
begin

text \<open>
  The table of methods that \<^verbatim>\<open>__main__.py\<close> registers, with the gated quarantine verbs, and the listing of stored
  events. The handlers themselves are an argument of the table.
\<close>

section \<open>The method table\<close>

text \<open>Names with their \<^verbatim>\<open>mutates\<close> flag, in the order of registration; none of these carries a gate.\<close>

definition STATE_METHODS :: "(string \<times> bool) list" where
  "STATE_METHODS =
     [(''get_health'', False), (''list_dependencies'', False), (''plan_dependency_install'', True),
      (''get_dep_audit'', False), (''apply_dependency_plan'', True), (''list_events'', False),
      (''list_alerts'', False), (''get_alert'', False), (''ack_alert'', True), (''resolve_alert'', True),
      (''suppress_alert'', True), (''list_services'', False), (''list_devices'', False), (''list_processes'', False),
      (''list_connections'', False), (''list_listeners'', False), (''list_file_changes'', False),
      (''list_persistence'', False), (''list_scan_runs'', False), (''list_scan_findings'', False),
      (''capture_baseline'', True), (''get_entity_card'', False)]"

definition CASE_METHODS :: "(string \<times> bool) list" where
  "CASE_METHODS =
     [(''open_case'', True), (''attach_alert'', True), (''add_note'', True), (''close_case'', True),
      (''list_cases'', False), (''get_case'', False), (''export_case_zip'', False), (''download_evidence'', False)]"

definition HUNT_METHODS :: "(string \<times> bool) list" where
  "HUNT_METHODS =
     [(''run_hunt_query'', False), (''list_hunt_queries'', False), (''get_hunt_query'', False),
      (''save_hunt_query'', True), (''delete_hunt_query'', True), (''schedule_hunt_query'', True),
      (''unschedule_hunt_query'', True), (''list_audit_log'', False), (''verify_audit_log'', False),
      (''list_vulnerabilities'', False), (''ack_vulnerability'', True), (''run_worker_command'', True)]"

definition polkit_target_path :: "params \<Rightarrow> string option" where
  "polkit_target_path ps = (case map_of ps ''path'' of Some (Val (PStr s)) \<Rightarrow> Some s | _ \<Rightarrow> None)"

text \<open>The quarantine verbs: \<^verbatim>\<open>quarantine_file\<close> has a limiter of its own, \<open>1\<close>; restoring and deleting share another, \<open>2\<close>.\<close>

definition plain_method ::
  "(string \<Rightarrow> params \<Rightarrow> 's \<times> audit_state \<Rightarrow> ('s \<times> audit_state) \<times> handler_result) \<Rightarrow> string \<times> bool \<Rightarrow> 's ipc_method" where
  "plain_method h = (\<lambda>(n, mut). \<lparr>mt_name = n, mt_handler = h n, mt_mutates = mut, mt_polkit_action = None, mt_limiter = None,
     mt_polkit_target = None\<rparr>)"

definition quarantine_methods ::
  "(string \<Rightarrow> params \<Rightarrow> 's \<times> audit_state \<Rightarrow> ('s \<times> audit_state) \<times> handler_result) \<Rightarrow> 's ipc_method list" where
  "quarantine_methods h =
     [(plain_method h (''quarantine_file'', True))
        \<lparr>mt_polkit_action := Some ''org.inspectord.quarantine'', mt_limiter := Some 1, mt_polkit_target := Some polkit_target_path\<rparr>,
      plain_method h (''list_quarantine'', False),
      (plain_method h (''restore_quarantined'', True))
        \<lparr>mt_polkit_action := Some ''org.inspectord.quarantine-restore'', mt_limiter := Some 2\<rparr>,
      (plain_method h (''delete_quarantined'', True))
        \<lparr>mt_polkit_action := Some ''org.inspectord.quarantine-delete'', mt_limiter := Some 2\<rparr>]"

definition ipc_methods ::
  "(string \<Rightarrow> params \<Rightarrow> 's \<times> audit_state \<Rightarrow> ('s \<times> audit_state) \<times> handler_result) \<Rightarrow> 's ipc_method list" where
  "ipc_methods h = map (plain_method h) (STATE_METHODS @ CASE_METHODS @ HUNT_METHODS) @ quarantine_methods h"

text \<open>The server as \<^verbatim>\<open>main\<close> builds it.\<close>

definition daemon_ipc ::
  "(string \<Rightarrow> params \<Rightarrow> 's \<times> audit_state \<Rightarrow> ('s \<times> audit_state) \<times> handler_result) \<Rightarrow> int list \<Rightarrow> 's ipc_config" where
  "daemon_ipc h uids = \<lparr>ic_methods = ipc_methods h, ic_allowed_uids = uids, ic_authz = True, ic_audit = True\<rparr>"

section \<open>Listing events\<close>

definition event_listed :: "(pyval \<Rightarrow> string) \<Rightarrow> pydict \<Rightarrow> event_row \<Rightarrow> bool" where
  "event_listed ostr ps r \<longleftrightarrow>
     (truthy (dget ps ''since_id'') \<longrightarrow> py_str ostr (dget ps ''since_id'') < er_id r)
     \<and> (truthy (dget ps ''module'') \<longrightarrow> er_module r = py_str ostr (dget ps ''module''))"

text \<open>\<open>None\<close> is a limit that is no integer, or that the database refuses because it is negative.\<close>

definition list_events_handler :: "(pyval \<Rightarrow> string) \<Rightarrow> pydict \<Rightarrow> event_row list \<Rightarrow> event_row list option" where
  "list_events_handler ostr ps rows =
     (case int_of (case map_of ps ''limit'' of None \<Rightarrow> PInt 100 | Some v \<Rightarrow> v) of
        None \<Rightarrow> None
      | Some n \<Rightarrow> if n < 0 then None else Some (take (nat n) (sort_key er_id (filter (event_listed ostr ps) rows))))"

end
