(* ===== verification/Ipc_Refusals.thy ===== *)
theory Ipc_Refusals
  imports Ipc_Methods
begin

text \<open>
  The answers of the server: which outcome of the gate lets a request pass, how every other is reported and audited,
  and what a client can learn from an internal failure.
\<close>

section \<open>Refusals\<close>

lemma audit_denial_row:
  assumes "ic_audit cfg" "\<not> ac_fault (rv_call env)"
  shows "\<exists>r. au_rows (sv_audit (audit_denial env cfg m a pid uid oc t sv)) = au_rows (sv_audit sv) @ [r]
    \<and> ab_action r = ''polkit_denied'' \<and> ab_target r = Some (mt_name m) \<and> ab_actor r = ''uid:'' @ int_str uid @ '':pid:'' @ int_str pid
    \<and> ab_details r = details_of (denial_details a pid uid oc t)"
  using assms by (simp add: audit_denial_def append_audit_rows next_row_def Let_def audit_body.defs)

lemma limiter_check_audit [simp]: "limiter_check env m sv = (r, sv1) \<Longrightarrow> sv_audit sv1 = sv_audit sv \<and> sv_prompt sv1 = sv_prompt sv"
  by (auto simp: limiter_check_def split: option.splits prod.splits)


section \<open>What a client learns from a failure\<close>

definition hush_result :: "handler_result \<Rightarrow> handler_result" where
  "hush_result r = (case r of Raised m \<Rightarrow> Raised '''' | _ \<Rightarrow> r)"

definition hush_method :: "'s ipc_method \<Rightarrow> 's ipc_method" where
  "hush_method m = m\<lparr>mt_handler := (\<lambda>ps st. map_prod id hush_result (mt_handler m ps st))\<rparr>"

definition hush_config :: "'s ipc_config \<Rightarrow> 's ipc_config" where
  "hush_config cfg = cfg\<lparr>ic_methods := map hush_method (ic_methods cfg)\<rparr>"

definition hush_run :: "pk_run \<Rightarrow> pk_run" where
  "hush_run run = (case run of Pk_os_error m \<Rightarrow> Pk_os_error '''' | Pk_raised m \<Rightarrow> Pk_raised '''' | _ \<Rightarrow> run)"

lemma hush_method_simps [simp]:
  "mt_name (hush_method m) = mt_name m" "mt_polkit_action (hush_method m) = mt_polkit_action m"
  "mt_limiter (hush_method m) = mt_limiter m" "mt_polkit_target (hush_method m) = mt_polkit_target m"
  by (simp_all add: hush_method_def)

lemma hush_config_simps [simp]: "ic_authz (hush_config cfg) = ic_authz cfg" "ic_audit (hush_config cfg) = ic_audit cfg"
  by (simp_all add: hush_config_def)

lemma method_named_hush: "method_named (hush_config cfg) n = map_option hush_method (method_named cfg n)"
proof -
  have "map_of (map (\<lambda>m. (mt_name m, hush_method m)) ms) n = map_option hush_method (map_of (map (\<lambda>m. (mt_name m, m)) ms) n)"
    for ms :: "'a ipc_method list" by (induction ms) auto
  then show ?thesis by (simp add: method_named_def hush_config_def comp_def rev_map)
qed

lemma hush_response [simp]: "response ref rid (hush_result res) = response ref rid res"
  by (simp add: response_def hush_result_def split: handler_result.split)

lemma run_handler_hush: "run_handler env (hush_method m) rid ps sv = run_handler env m rid ps sv"
  by (simp add: run_handler_def hush_method_def split: prod.split)

lemma limiter_check_hush: "limiter_check env (hush_method m) sv = limiter_check env m sv"
  by (simp add: limiter_check_def)

lemma audit_denial_hush: "audit_denial env (hush_config cfg) (hush_method m) a pid uid oc t sv = audit_denial env cfg m a pid uid oc t sv"
  by (simp add: audit_denial_def)

definition gate_end :: "'s server \<times> (string + string option) \<Rightarrow> 's server \<times> string option option" where
  "gate_end r = (case r of (sv, Inl e) \<Rightarrow> (sv, None) | (sv, Inr d) \<Rightarrow> (sv, Some d))"

lemma pk_result_hush:
  "case pk_result (hush_run run) of
     Inl _ \<Rightarrow> (\<exists>e. pk_result run = Inl e)
   | Inr r \<Rightarrow> (\<exists>r'. pk_result run = Inr r' \<and> az_outcome r' = az_outcome r)"
  by (simp add: pk_result_def hush_run_def split: pk_run.split)

lemma gate_hush:
  "gate_end (gate env (hush_config cfg) (\<lambda>av. hush_run (runner av)) (hush_method m) a pid uid peer ps sv)
   = gate_end (gate env cfg runner m a pid uid peer ps sv)"
proof (cases peer)
  case None
  then show ?thesis by (simp add: gate_def limiter_check_hush audit_denial_hush target_of_def Let_def split: prod.split)
next
  case (Some p)
  obtain allowed audit_this sv1 where l: "limiter_check env m sv = ((allowed, audit_this), sv1)" by (metis prod.exhaust)
  show ?thesis
    using pk_result_hush[of "runner (pkcheck_argv a p (target_of m ps) True)"]
    by (cases "sv_prompt sv1")
       (auto simp: gate_def limiter_check_hush audit_denial_hush target_of_def Let_def l Some check_polkit_def gate_end_def authorized_def
         split: sum.splits if_splits)
qed

lemma validate_hush:
  "validate_request (hush_config cfg) req =
     (case validate_request cfg req of
        Inl (Answered r) \<Rightarrow> Inl (Answered r)
      | Inl _ \<Rightarrow> Inl Dropped
      | Inr (m, rid, ps) \<Rightarrow> Inr (hush_method m, rid, ps))"
  by (auto simp: validate_request_def find_method_def method_named_hush Let_def split: pyval.split option.split)

lemma dispatch_by_gate_end:
  "dispatch_request env cfg runner pid uid peer req sv =
     (case validate_request cfg req of
        Inl (Answered r) \<Rightarrow> (sv, Some r)
      | Inl _ \<Rightarrow> (sv, None)
      | Inr (m, rid, ps) \<Rightarrow>
          (case mt_polkit_action m of
             None \<Rightarrow> map_prod id Some (run_handler env m rid ps sv)
           | Some a \<Rightarrow>
               (case gate_end (gate env cfg runner m a pid uid peer ps sv) of
                  (sv1, None) \<Rightarrow> (sv1, None)
                | (sv1, Some (Some denial)) \<Rightarrow> (sv1, Some (err_reply rid AUTHZ_DENIED_CODE denial))
                | (sv1, Some None) \<Rightarrow>
                    map_prod id Some (run_handler env m rid (case peer of None \<Rightarrow> ps | Some p \<Rightarrow> with_peer p ps) sv1))))"
  unfolding dispatch_request_def gate_end_def by (auto split: sum.split stage.split prod.split option.split)

text \<open>C30: The text of an internal failure never reaches a client. A server whose handlers raise exceptions without any
  text, and whose \<^verbatim>\<open>pkcheck\<close> fails without any, gives the same answer to every request as the server itself and
  ends in the same state: only messages written for the client, results and fixed texts are sent.\<close>

theorem failure_texts_unobservable:
  "dispatch_request env (hush_config cfg) (\<lambda>av. hush_run (runner av)) pid uid peer req sv
   = dispatch_request env cfg runner pid uid peer req sv"
  unfolding dispatch_by_gate_end validate_hush
  by (auto simp: gate_hush run_handler_hush split: sum.split stage.split prod.split option.split)

section \<open>A concrete exchange\<close>

definition quarantine_request :: pyval where
  "quarantine_request = PDict [(''id'', PInt 7), (''jsonrpc'', PStr ''2.0''), (''method'', PStr ''quarantine_file''),
     (''params'', PDict [(''_peer'', PStr ''root''), (''path'', PStr ''/tmp/x'')]), (''schema_version'', PStr ''1.0.0'')]"

definition sample_peer :: peer_identity where
  "sample_peer = \<lparr>pi_pid = 42, pi_uid = 1000, pi_start = 99\<rparr>"

definition sample_ipc :: "unit ipc_config" where
  "sample_ipc = daemon_ipc (\<lambda>n ps st. (st, Returned PNone)) [1000]"

definition sample_server :: "unit server" where
  "sample_server = \<lparr>sv_daemon = (), sv_audit = audit_init, sv_limiters = (\<lambda>_. sliding_window_init 12 60), sv_prompt = False\<rparr>"

definition sample_request :: request_env where
  "sample_request = \<lparr>rv_mono = 0, rv_sha = (\<lambda>s. s), rv_call = sample_call ''x'', rv_ref = ''ref''\<rparr>"

definition file_method :: "unit ipc_method" where
  "file_method = (quarantine_methods (\<lambda>n ps st. (st, Returned PNone))) ! 0"


lemma json_loads_not_blank: "json_loads t = Some v \<Longrightarrow> \<not> (\<forall>x\<in>set t. x = CHR 0x0A)"
proof
  assume v: "json_loads t = Some v" and "\<forall>x\<in>set t. x = CHR 0x0A"
  then have s: "skip_ws t = []" by (induction t) (auto simp: json_space_def)
  have "parse_value n [] = None" for n by (cases n) simp_all
  then show False using v unfolding json_loads_def s by simp
qed

text \<open>The connection's request, its prompt and its handler, with the peer the client did not choose.\<close>

definition asked :: "params" where
  "asked = [(''path'', Val (PStr ''/tmp/x''))]"

definition sample_conn :: "unit connection" where
  "sample_conn = \<lparr>cn_pid = 42, cn_uid = 1000, cn_peer = Some sample_peer, cn_stage = None, cn_open = True, cn_sent = []\<rparr>"

definition sample_stat :: string where
  "sample_stat = ''42 (sh) S 1 2 3 4 5 6 7 8 9 10 11 12 13 14 15 16 17 18 99 1''"

lemma sample_accept: "accept_connection sample_ipc 42 1000 (Some sample_stat) = sample_conn"
proof -
  have "proc_start_time (Some sample_stat) = Some 99" by code_simp
  then show ?thesis
    by (simp add: accept_connection_def accept_peer_def sample_ipc_def daemon_ipc_def sample_conn_def sample_peer_def)
qed

lemma quarantine_line:
  "\<exists>t sv'. receive_line sample_request sample_ipc (Some t) sample_conn sample_server
     = (sv', sample_conn\<lparr>cn_stage := Some (Prompting file_method (PInt 7) asked sample_peer)\<rparr>)"
proof -
  have "plain_json quarantine_request" "canon_json quarantine_request = quarantine_request" by code_simp+
  then obtain t where t: "json_loads t = Some quarantine_request" using json_roundtrip[of quarantine_request] by auto
  have m: "method_named sample_ipc ''quarantine_file'' = Some file_method"
    unfolding method_named_def sample_ipc_def daemon_ipc_def ipc_methods_def file_method_def
    by (simp add: quarantine_methods_def plain_method_def)
  have v: "validate_request sample_ipc quarantine_request = Inr (file_method, PInt 7, asked)"
    by (simp add: validate_request_def quarantine_request_def dget_def find_method_def m IPC_PROTOCOL_VERSION_def params_dict_def
        strip_peer_def PEER_PARAM_def asked_def)
  have "mt_polkit_action file_method = Some ''org.inspectord.quarantine''" "mt_limiter file_method = Some 1" "ic_authz sample_ipc"
    by (simp_all add: file_method_def quarantine_methods_def sample_ipc_def daemon_ipc_def)
  then have "\<exists>sv'. open_request sample_request sample_ipc 42 1000 (Some sample_peer) quarantine_request sample_server
      = (sv', Prompting file_method (PInt 7) asked sample_peer)"
    by (simp add: open_request_def v gate_open_def limiter_check_def sample_server_def sw_check_def sliding_window_init_def Let_def)
  then obtain sv' where o: "open_request sample_request sample_ipc 42 1000 (Some sample_peer) quarantine_request sample_server
      = (sv', Prompting file_method (PInt 7) asked sample_peer)" by blast
  have nb: "map_option (rev \<circ> dropWhile (\<lambda>ch. ch = CHR 0x0A) \<circ> rev) (Some t) \<noteq> Some []" using json_loads_not_blank[OF t] by simp
  have "receive_line sample_request sample_ipc (Some t) sample_conn sample_server
      = (sv', settle (Prompting file_method (PInt 7) asked sample_peer) sample_conn)"
    unfolding receive_line_def if_not_P[OF nb] by (simp add: t o sample_conn_def)
  then show ?thesis by (auto simp: settle_def)
qed

theorem gated_calls_are_authorized_witness:
  "\<exists>w cl. (ipc_step sample_ipc)\<^sup>*\<^sup>* \<lparr>wd_server = sample_server, wd_conns = [], wd_log = []\<rparr> w \<and> wd_log w = [cl]
     \<and> cl_method cl = file_method \<and> (\<exists>c. map_of (wd_conns w) 0 = Some c \<and> authentic sample_ipc c file_method (cl_params cl) (cl_prompt cl))"
proof -
  let ?w0 = "\<lparr>wd_server = sample_server, wd_conns = [], wd_log = []\<rparr> :: unit ipc_world"
  obtain t sv1 where l: "receive_line sample_request sample_ipc (Some t) sample_conn sample_server
     = (sv1, sample_conn\<lparr>cn_stage := Some (Prompting file_method (PInt 7) asked sample_peer)\<rparr>)" using quarantine_line by blast
  let ?c1 = "sample_conn\<lparr>cn_stage := Some (Prompting file_method (PInt 7) asked sample_peer)\<rparr>"
  let ?w1 = "set_conn 0 sample_conn sample_server ?w0"
  let ?w2 = "set_conn 0 ?c1 sv1 ?w1"
  have c: "cn_open sample_conn" "cn_stage sample_conn = None" "connection.cn_pid sample_conn = 42" "cn_uid sample_conn = 1000"
    by (simp_all add: sample_conn_def)
  have s1: "ipc_step sample_ipc ?w0 ?w1" using ipc_step.Accept[of 0 ?w0 sample_ipc 42 1000 "Some sample_stat"] by (simp add: sample_accept)
  have s2: "ipc_step sample_ipc ?w1 ?w2"
    by (rule ipc_step.Line[where c = sample_conn and env = sample_request and line = "Some t"]) (simp_all add: c set_conn_def l)
  let ?ps = "with_peer sample_peer asked" and ?pk = "Some (prompt_argv file_method sample_peer asked, Pk_exit 0 '''')"
  let ?sv2 = "sv1\<lparr>sv_prompt := False\<rparr>"
  have p: "close_prompt sample_request sample_ipc (Pk_exit 0 '''') 42 1000 file_method (PInt 7) asked sample_peer sv1
      = (?sv2, Ready file_method (PInt 7) ?ps ?pk)" by (simp add: close_prompt_def gate_close_def pk_result_def Let_def)
  let ?c3 = "settle (Ready file_method (PInt 7) ?ps ?pk) ?c1" and ?w3 = "set_conn 0 (settle (Ready file_method (PInt 7) ?ps ?pk) ?c1) ?sv2 ?w2"
  have s3: "ipc_step sample_ipc ?w2 ?w3"
    by (rule ipc_step.Prompt[where c = ?c1 and env = sample_request and run = "Pk_exit 0 ''''"]) (simp_all add: c set_conn_def, rule p)
  obtain sv4 r where h: "run_handler sample_request file_method (PInt 7) ?ps ?sv2 = (sv4, r)" by (meson prod.exhaust)
  let ?cl = "\<lparr>cl_conn = 0, cl_method = file_method, cl_params = ?ps, cl_prompt = ?pk\<rparr> :: unit ipc_call"
  let ?w4 = "(set_conn 0 (settle (Answered r) ?c3) sv4 ?w3)\<lparr>wd_log := wd_log ?w3 @ [?cl]\<rparr>"
  have s4: "ipc_step sample_ipc ?w3 ?w4"
    by (rule ipc_step.Handle[where c = ?c3 and env = sample_request]) (simp_all add: set_conn_def, simp add: settle_def, rule h)
  have steps: "(ipc_step sample_ipc)\<^sup>*\<^sup>* ?w0 ?w4" using s1 s2 s3 s4 by (meson rtranclp.rtrancl_into_rtrancl rtranclp.rtrancl_refl)
  have "ipc_boot ?w0" by (simp add: ipc_boot_def sample_server_def)
  from gated_calls_are_authorized[OF this steps rtranclp.rtrancl_refl]
  have "\<exists>c. map_of (wd_conns ?w4) 0 = Some c \<and> authentic sample_ipc c file_method ?ps ?pk" by (simp add: set_conn_def)
  moreover have "wd_log ?w4 = [?cl]" by (simp add: set_conn_def)
  ultimately show ?thesis using steps by (intro exI[of _ ?w4] exI[of _ ?cl]) simp
qed

section \<open>An outcome that is neither answered nor audited\<close>

text \<open>A path with a NUL makes \<^verbatim>\<open>subprocess.run\<close> raise a \<^verbatim>\<open>ValueError\<close>, which the gate does not handle: the request is not
  authorized, but the connection is dropped without an answer and without an audit row.\<close>

lemma nul_in_target_escapes_the_gate:
  assumes "limiter_check env m sv = ((True, False), sv1)" "ic_authz cfg" "\<not> sv_prompt sv"
    and "target_of m ps = Some t" "CHR 0x00 \<in> set t"
  shows "gate env cfg (subprocess_run os) m a pid uid (Some p) ps sv = (sv1, Inl ''embedded null byte'') \<and> sv_audit sv1 = sv_audit sv"
  using assms limiter_check_audit[OF assms(1)]
  by (simp add: gate_def Let_def check_polkit_def subprocess_run_def pkcheck_argv_def pk_result_def)

end
