(* ===== verification/Worker_Contract.thy ===== *)
theory Worker_Contract
  imports Workers Rate_Limit
begin

text \<open>
  The worker base class of \<^verbatim>\<open>workers/contract.py\<close>: the bounded reader of the command stream, the handling of one
  command line, the \<^verbatim>\<open>command_result\<close> event, and the run loop with its stop and wake flags.
\<close>

section \<open>Bounds\<close>

definition HEARTBEAT_INTERVAL_S :: real where "HEARTBEAT_INTERVAL_S = 10"
definition COMMAND_LINE_MAX_BYTES :: nat where "COMMAND_LINE_MAX_BYTES = 65536"
definition COMMAND_ARGS_MAX_BYTES :: nat where "COMMAND_ARGS_MAX_BYTES = 4096"
definition REJECTED_EMIT_MAX_PER_WINDOW :: int where "REJECTED_EMIT_MAX_PER_WINDOW = 30"
definition REJECTED_EMIT_WINDOW_S :: real where "REJECTED_EMIT_WINDOW_S = 60"

text \<open>\<^verbatim>\<open>fullmatch\<close> of lower-case letters and underscores, 1 to 64 of them.\<close>

definition command_name :: "string \<Rightarrow> bool" where
  "command_name s \<longleftrightarrow> 1 \<le> length s \<and> length s \<le> 64 \<and> list_all (\<lambda>c. 97 \<le> char_code c \<and> char_code c \<le> 122 \<or> c = CHR ''_'') s"

section \<open>The worker\<close>

record 's base_worker =
  wk_name :: string
  wk_stop :: bool
  wk_wake :: bool
  wk_processed :: nat
  wk_rejected :: "real list"
  wk_emitted :: "event list"
  wk_consumer :: 's

text \<open>What a subclass's handler does: return any value, or raise (with the \<^verbatim>\<open>repr\<close> of the exception).\<close>

datatype command_outcome = Cmd_returned pyval | Cmd_raised string

type_synonym 's command_handler = "string \<Rightarrow> pydict \<Rightarrow> 's \<Rightarrow> 's \<times> command_outcome"

text \<open>What the handling of one line meets: the clocks, the id of the event, \<^verbatim>\<open>str\<close>, \<^verbatim>\<open>repr\<close> and \<^verbatim>\<open>type\<close> of an
  object (\<open>None\<close> is a \<^verbatim>\<open>str\<close> that raises) and whether the write fails.\<close>

record command_env =
  ce_now :: datetime
  ce_mono :: real
  ce_event_id :: string
  ce_str :: "pyval \<Rightarrow> string option"
  ce_repr :: "pyval \<Rightarrow> string"
  ce_type :: "pyval \<Rightarrow> string"
  ce_float :: "real \<Rightarrow> string"
  ce_write_fails :: bool

text \<open>The inherited handler.\<close>

definition default_handle_command :: "'s command_handler" where
  "default_handle_command command args s = (s, Cmd_returned (PDict [(''status'', PStr ''rejected''), (''detail'', PStr ''commands not supported'')]))"

definition emit_worker_event :: "event \<Rightarrow> 's base_worker \<Rightarrow> 's base_worker" where
  "emit_worker_event e w = w\<lparr>wk_emitted := wk_emitted w @ [e], wk_processed := Suc (wk_processed w)\<rparr>"

definition rejected_emit_allowed :: "real \<Rightarrow> real list \<Rightarrow> bool \<times> real list" where
  "rejected_emit_allowed now stamps =
     (let live = dropWhile (\<lambda>t. now - t \<ge> REJECTED_EMIT_WINDOW_S) stamps
      in if int (length live) \<ge> REJECTED_EMIT_MAX_PER_WINDOW then (False, live) else (True, live @ [now]))"

definition result_event :: "command_env \<Rightarrow> string \<Rightarrow> string \<Rightarrow> string \<Rightarrow> string \<Rightarrow> event option" where
  "result_event env name request_id status detail =
     build_event (ce_now env) (ce_event_id env) name ''command_result'' [''process''] [''info''] ''info'' ''state'' None
       (Some (''command result: '' @ status))
       (no_blocks\<lparr>eb_raw := Some [(''request_id'', PStr request_id), (''status'', PStr status), (''detail'', PStr detail)]\<rparr>)
       None None False"

definition COMMAND_STATUSES :: "string list" where "COMMAND_STATUSES = [''accepted'', ''rejected'']"

definition detail_text :: "command_env \<Rightarrow> pyval \<Rightarrow> string" where
  "detail_text env d = (case ce_str env d of None \<Rightarrow> ''<unrepresentable detail>'' | Some s \<Rightarrow> s)"

definition emit_command_result :: "command_env \<Rightarrow> string \<Rightarrow> string \<Rightarrow> pyval \<Rightarrow> 's base_worker \<Rightarrow> 's base_worker" where
  "emit_command_result env request_id status detail w =
     (let st = (if status \<in> set COMMAND_STATUSES then status else ''rejected'');
          (allowed, stamps) = (if st = ''rejected'' then rejected_emit_allowed (ce_mono env) (wk_rejected w) else (True, wk_rejected w));
          w1 = w\<lparr>wk_rejected := stamps\<rparr>
      in if \<not> allowed then w1
         else case result_event env (wk_name w) request_id st (detail_text env detail) of
                None \<Rightarrow> w1
              | Some e \<Rightarrow> if ce_write_fails env then w1 else emit_worker_event e w1)"

section \<open>One command line\<close>

definition command_validation_error :: "(real \<Rightarrow> string) \<Rightarrow> pyval \<Rightarrow> pyval \<Rightarrow> string option" where
  "command_validation_error fl command args =
     (case command of
        PStr c \<Rightarrow>
          if \<not> command_name c then Some ''invalid command name''
          else (case args of
                  PDict d \<Rightarrow>
                    (case json_dumps fl (\<lambda>_. None) args of
                       None \<Rightarrow> None
                     | Some t \<Rightarrow> if length t > COMMAND_ARGS_MAX_BYTES
                                 then Some (''args over '' @ nat_str COMMAND_ARGS_MAX_BYTES @ '' bytes'') else None)
                | _ \<Rightarrow> Some ''args must be an object'')
      | _ \<Rightarrow> Some ''invalid command name'')"

definition coerce_command_result :: "command_env \<Rightarrow> pyval \<Rightarrow> string \<times> pyval" where
  "coerce_command_result env res =
     (case res of
        PDict d \<Rightarrow>
          (let status = dget d ''status'';
               detail = (\<lambda>dflt. case map_of d ''detail'' of None \<Rightarrow> PStr dflt | Some v \<Rightarrow> v)
           in case status of
                PStr s \<Rightarrow> if s \<in> set COMMAND_STATUSES then (s, detail '''')
                          else (''rejected'', detail (''handler returned invalid status: '' @ ce_repr env status))
              | _ \<Rightarrow> (''rejected'', detail (''handler returned invalid status: '' @ ce_repr env status)))
      | _ \<Rightarrow> (''rejected'', PStr (''handler returned '' @ ce_type env res @ '', expected dict'')))"

text \<open>\<^verbatim>\<open>payload.get(k) or default\<close>.\<close>

definition get_or :: "pydict \<Rightarrow> string \<Rightarrow> pyval \<Rightarrow> pyval" where
  "get_or d k dflt = (if truthy (dget d k) then dget d k else dflt)"

definition wake_if :: "bool \<Rightarrow> 's base_worker \<Rightarrow> 's base_worker" where
  "wake_if b w = (if b then w\<lparr>wk_wake := True\<rparr> else w)"

definition handle_command_line :: "'s command_handler \<Rightarrow> command_env \<Rightarrow> string \<Rightarrow> 's base_worker \<Rightarrow> 's base_worker" where
  "handle_command_line hc env line w =
     (case json_loads line of
        Some (PDict payload) \<Rightarrow>
          (case dget payload ''request_id'' of
             PStr request_id \<Rightarrow>
               (let command = get_or payload ''command'' (PStr ''''); args = get_or payload ''args'' (PDict [])
                in case command_validation_error (ce_float env) command args of
                     Some e \<Rightarrow> emit_command_result env request_id ''rejected'' (PStr e) w
                   | None \<Rightarrow>
                       (case (command, args) of
                          (PStr c, PDict d) \<Rightarrow>
                            (case hc c d (wk_consumer w) of
                               (s, Cmd_raised e) \<Rightarrow>
                                 emit_command_result env request_id ''rejected'' (PStr (''handler error: '' @ e)) (w\<lparr>wk_consumer := s\<rparr>)
                             | (s, Cmd_returned res) \<Rightarrow>
                                 (case coerce_command_result env res of
                                    (status, detail) \<Rightarrow>
                                      emit_command_result env request_id status detail
                                        (wake_if (status = ''accepted'') (w\<lparr>wk_consumer := s\<rparr>))))
                        | _ \<Rightarrow> w))
           | _ \<Rightarrow> w)
      | _ \<Rightarrow> w)"

section \<open>The reader\<close>

definition newline :: char where "newline = CHR 0x0A"

text \<open>\<^verbatim>\<open>readline(n)\<close>: up to and with the next line feed, at most \<open>n\<close> bytes; empty at the end of the stream.\<close>

definition readline :: "nat \<Rightarrow> string \<Rightarrow> string \<times> string" where
  "readline n s =
     (let body = takeWhile (\<lambda>c. c \<noteq> newline) s;
          chunk = take n (if length body < length s then body @ [newline] else body)
      in (chunk, drop (length chunk) s))"

definition ends_line :: "string \<Rightarrow> bool" where
  "ends_line l \<longleftrightarrow> l \<noteq> [] \<and> last l = newline"

lemma readline_shrinks: "\<lbrakk>readline n s = (l, r); l \<noteq> []\<rbrakk> \<Longrightarrow> length r < length s"
proof -
  assume a: "readline n s = (l, r)" "l \<noteq> []"
  then have "s \<noteq> []" "r = drop (length l) s" by (auto simp: readline_def Let_def)
  then show ?thesis using a(2) by simp
qed

function drain_overlong :: "string \<Rightarrow> string" where
  "drain_overlong s =
     (case readline COMMAND_LINE_MAX_BYTES s of
        (chunk, rest) \<Rightarrow> if chunk = [] \<or> ends_line chunk then rest else drain_overlong rest)"
  by auto
termination
  by (relation "measure length") (auto dest: readline_shrinks[OF sym])

declare drain_overlong.simps [simp del]

lemma readline_le: "readline n s = (l, r) \<Longrightarrow> length r \<le> length s"
  by (auto simp: readline_def Let_def)

lemma drain_le: "length (drain_overlong s) \<le> length s"
proof (induction s rule: drain_overlong.induct)
  case (1 s)
  obtain c r where r: "readline COMMAND_LINE_MAX_BYTES s = (c, r)" by (meson prod.exhaust)
  then show ?case using 1[OF r[symmetric]] readline_le[OF r] by (subst drain_overlong.simps) auto
qed

text \<open>The lines are handled one after the other, the \<open>i\<close>-th in its own environment, until the stream ends.\<close>

function command_reader ::
  "'s command_handler \<Rightarrow> (nat \<Rightarrow> command_env) \<Rightarrow> nat \<Rightarrow> string \<Rightarrow> 's base_worker \<Rightarrow> 's base_worker" where
  "command_reader hc env i s w =
     (case readline (COMMAND_LINE_MAX_BYTES + 1) s of
        (line, rest) \<Rightarrow>
          if line = [] then w
          else if length line > COMMAND_LINE_MAX_BYTES then
            command_reader hc env i (if ends_line line then rest else drain_overlong rest) w
          else command_reader hc env (Suc i) rest (handle_command_line hc (env i) line w))"
  by auto
termination
  by (relation "measure (\<lambda>(hc, env, i, s, w). length s)")
     (auto dest!: readline_shrinks[OF sym] intro: le_less_trans[OF drain_le])

declare command_reader.simps [simp del]

section \<open>The reader against its specification\<close>

text \<open>The lines of a stream with their line feeds, the last one possibly without.\<close>

function lines_of :: "string \<Rightarrow> string list" where
  "lines_of s =
     (if s = [] then []
      else let body = takeWhile (\<lambda>c. c \<noteq> newline) s
           in if length body < length s then (body @ [newline]) # lines_of (drop (Suc (length body)) s) else [body])"
  by auto
termination by (relation "measure length") auto

declare lines_of.simps [simp del]

text \<open>The first line of a stream, and what is behind it.\<close>

definition first_line :: "string \<Rightarrow> string" where
  "first_line s = (let body = takeWhile (\<lambda>c. c \<noteq> newline) s in if length body < length s then body @ [newline] else body)"

lemma lines_first: "s \<noteq> [] \<Longrightarrow> lines_of s = first_line s # lines_of (drop (length (first_line s)) s)"
  by (subst lines_of.simps) (auto simp: first_line_def Let_def not_less lines_of.simps[of "[]"])

lemma readline_first: "readline n s = (take n (first_line s), drop (length (take n (first_line s))) s)"
  by (simp add: readline_def first_line_def Let_def)

lemma take_to_newline: "newline \<notin> set b \<Longrightarrow> takeWhile (\<lambda>c. c \<noteq> newline) (b @ newline # r) = b"
  by (induction b) auto

lemma first_line_cases:
  obtains (final) "newline \<notin> set s" "first_line s = s"
  | (more) b r where "s = b @ newline # r" "newline \<notin> set b" "first_line s = b @ [newline]"
proof (cases "newline \<in> set s")
  case True
  then obtain b r where "s = b @ newline # r" "newline \<notin> set b" by (meson split_list_first)
  moreover from this have "takeWhile (\<lambda>c. c \<noteq> newline) s = b" by (simp add: take_to_newline)
  ultimately show thesis using more by (simp add: first_line_def Let_def)
next
  case False
  then have t: "takeWhile (\<lambda>c. c \<noteq> newline) s = s" by (auto simp: takeWhile_eq_all_conv)
  have "first_line s = s" unfolding first_line_def Let_def t by simp
  then show thesis using final False by blast
qed

lemma first_line_empty [simp]: "first_line s = [] \<longleftrightarrow> s = []"
  by (cases s rule: first_line_cases) auto

lemma first_line_nil [simp]: "first_line [] = []"
  by simp

lemma first_line_length: "length (first_line s) \<le> length s"
  by (cases s rule: first_line_cases) auto

lemma first_line_drop: "k < length (first_line s) \<Longrightarrow> first_line (drop k s) = drop k (first_line s)"
proof (cases s rule: first_line_cases)
  case final
  then have "newline \<notin> set (drop k s)" by (meson in_set_dropD)
  then show ?thesis using final by (cases "drop k s" rule: first_line_cases) auto
next
  case (more b r)
  moreover assume "k < length (first_line s)"
  ultimately have d: "drop k s = drop k b @ newline # r" "drop k (first_line s) = drop k b @ [newline]" by auto
  have t: "takeWhile (\<lambda>c. c \<noteq> newline) (drop k b @ newline # r) = drop k b" using more(2) by (intro take_to_newline) (auto dest: in_set_dropD)
  show ?thesis unfolding d(2) unfolding d(1) first_line_def t Let_def by simp
qed

lemma ends_line_take:
  assumes "0 < n" "s \<noteq> []"
  shows "ends_line (take n (first_line s)) \<longleftrightarrow> length (first_line s) \<le> n \<and> newline \<in> set s"
proof (cases s rule: first_line_cases)
  case final
  have "last (take n s) \<in> set (take n s)" using assms by (intro last_in_set) simp
  then have "last (take n s) \<in> set s" by (rule in_set_takeD)
  then show ?thesis using final by (auto simp: ends_line_def)
next
  case (more b r)
  have "last (take n b) \<in> set b" if "n \<le> length b"
  proof -
    have "last (take n b) \<in> set (take n b)" using assms that by (intro last_in_set) auto
    then show ?thesis by (rule in_set_takeD)
  qed
  then show ?thesis using more assms by (cases "n \<le> length b") (auto simp: ends_line_def)
qed

lemma unterminated_last: "newline \<notin> set s \<Longrightarrow> first_line s = s"
  by (cases s rule: first_line_cases) auto

lemma drain_nil: "drain_overlong [] = []"
  by (subst drain_overlong.simps) (simp add: readline_def)

lemma drain_first: "drain_overlong s = drop (length (first_line s)) s"
proof (induction s rule: drain_overlong.induct)
  case (1 s)
  let ?n = COMMAND_LINE_MAX_BYTES and ?f = "first_line s"
  have n: "0 < ?n" by (simp add: COMMAND_LINE_MAX_BYTES_def)
  show ?case
  proof (cases "s = [] \<or> length ?f \<le> ?n")
    case True
    then have r: "readline ?n s = (?f, drop (length ?f) s)" using n by (cases "s = []") (simp_all add: readline_first)
    have "?f = s" if "\<not> ends_line ?f" "s \<noteq> []"
      using True that ends_line_take[OF n, of s] unterminated_last[of s] by auto
    then show ?thesis unfolding drain_overlong.simps[of s] r prod.case
      by (cases "?f = [] \<or> ends_line ?f") (simp_all add: drain_nil)
  next
    case False
    then have e: "\<not> ends_line (take ?n ?f)" "take ?n ?f \<noteq> []" using ends_line_take[OF n, of s] n by auto
    have r: "readline ?n s = (take ?n ?f, drop ?n s)" using False by (simp add: readline_first)
    have "drain_overlong (drop ?n s) = drop (length (drop ?n ?f)) (drop ?n s)"
      using 1[OF r[symmetric]] e False first_line_drop[of ?n s] by simp
    moreover have "drop (length ?f - ?n) (drop ?n s) = drop (length ?f) s" using False by (simp only: drop_drop) simp
    ultimately show ?thesis unfolding drain_overlong.simps[of s] r prod.case using e by simp
  qed
qed

fun feed_lines :: "'s command_handler \<Rightarrow> (nat \<Rightarrow> command_env) \<Rightarrow> nat \<Rightarrow> string list \<Rightarrow> 's base_worker \<Rightarrow> 's base_worker" where
  "feed_lines hc env i [] w = w"
| "feed_lines hc env i (l # ls) w = feed_lines hc env (Suc i) ls (handle_command_line hc (env i) l w)"

text \<open>The bounded reader handles exactly the lines within the cap. Whatever bytes arrive, reading them in bounded
  chunks and draining what is over the limit ends, and it has handled, in order, precisely those lines of the
  stream whose length with the line feed is at most the cap: an over-long line never hides, splits or swallows a
  neighbouring command.\<close>

theorem command_reader_frames_lines:
  "command_reader hc env i s w = feed_lines hc env i (filter (\<lambda>l. length l \<le> COMMAND_LINE_MAX_BYTES) (lines_of s)) w"
proof (induction hc env i s w rule: command_reader.induct)
  case (1 hc env i s w)
  let ?n = COMMAND_LINE_MAX_BYTES and ?f = "first_line s"
  let ?rest = "drop (length ?f) s"
  show ?case
  proof (cases "s = []")
    case True
    then show ?thesis by (subst command_reader.simps) (simp add: readline_first lines_of.simps[of "[]"])
  next
    case ne: False
    note lines = lines_first[OF ne]
    show ?thesis
    proof (cases "length ?f \<le> ?n")
      case True
      then have r: "readline (?n + 1) s = (?f, ?rest)" by (simp add: readline_first)
      then show ?thesis using 1(2)[OF r[symmetric]] True ne by (subst command_reader.simps) (simp add: lines)
    next
      case False
      let ?line = "take (?n + 1) ?f" and ?r = "drop (?n + 1) s"
      have r: "readline (?n + 1) s = (?line, ?r)" using False by (simp add: readline_first)
      have skip: "(if ends_line ?line then ?r else drain_overlong ?r) = ?rest"
      proof (cases "ends_line ?line")
        case True
        then show ?thesis using False ends_line_take[of "?n + 1" s] ne by (simp add: le_Suc_eq)
      next
        case tail: False
        show ?thesis
        proof (cases "length ?f = ?n + 1")
          case True
          then have "?rest = []" using tail ends_line_take[of "?n + 1" s] ne unterminated_last[of s] by auto
          then show ?thesis using tail True by (simp add: drain_first)
        next
          case longer: False
          then have "?n + 1 \<le> length ?f" using False by simp
          then have "drop (length ?f - (?n + 1)) ?r = ?rest" by (simp only: drop_drop le_add_diff_inverse2)
          then show ?thesis using longer False tail first_line_drop[of "?n + 1" s] by (simp add: drain_first)
        qed
      qed
      have l: "?line \<noteq> []" "?n < length ?line" using False ne by simp_all
      show ?thesis using 1(1)[OF r[symmetric] l] False l
        unfolding command_reader.simps[of hc env i s w] r prod.case skip by (simp add: lines)
    qed
  qed
qed

section \<open>Answers\<close>

text \<open>The bound on rejections is a sliding window.\<close>

lemma rejected_emit_is_sliding_window:
  assumes "sw_limit s = REJECTED_EMIT_MAX_PER_WINDOW" "sw_window_s s = REJECTED_EMIT_WINDOW_S" "sw_stamps s = stamps"
  shows "rejected_emit_allowed now stamps = (fst (fst (sw_check now s)), sw_stamps (snd (sw_check now s)))"
  using assms by (simp add: rejected_emit_allowed_def sw_check_def Let_def)

lemma result_event_verdict:
  "\<exists>e. result_event env name rid st d = Some e \<and> command_verdict ostr e
     = Some (rid, if st = ''accepted'' then Accepted d else Rejected d)"
  by (simp add: result_event_def build_event_def severity_of_def event_kind_of_def command_verdict_def dget_def py_str_def)

definition rejections_saturated :: "real \<Rightarrow> 's base_worker \<Rightarrow> bool" where
  "rejections_saturated now w \<longleftrightarrow>
     int (length (dropWhile (\<lambda>t. now - t \<ge> REJECTED_EMIT_WINDOW_S) (wk_rejected w))) \<ge> REJECTED_EMIT_MAX_PER_WINDOW"

lemma emit_command_result_effect:
  fixes w :: "'s base_worker"
  assumes "st \<in> set COMMAND_STATUSES" "\<not> ce_write_fails env"
  shows "if st = ''rejected'' \<and> rejections_saturated (ce_mono env) w
    then wk_emitted (emit_command_result env rid st d w) = wk_emitted w
    else \<exists>e. wk_emitted (emit_command_result env rid st d w) = wk_emitted w @ [e]
      \<and> command_verdict ostr e = Some (rid, if st = ''accepted'' then Accepted (detail_text env d) else Rejected (detail_text env d))"
proof -
  obtain e where e: "result_event env (wk_name w) rid st (detail_text env d) = Some e" "command_verdict ostr e
     = Some (rid, if st = ''accepted'' then Accepted (detail_text env d) else Rejected (detail_text env d))"
    using result_event_verdict by blast
  show ?thesis using assms e
    by (auto simp: emit_command_result_def Let_def rejected_emit_allowed_def rejections_saturated_def emit_worker_event_def)
qed

lemma emit_command_result_frame [simp]:
  "wk_consumer (emit_command_result env rid st d w) = wk_consumer w" "wk_wake (emit_command_result env rid st d w) = wk_wake w"
  "wk_name (emit_command_result env rid st d w) = wk_name w"
  by (simp_all add: emit_command_result_def Let_def emit_worker_event_def split: option.split prod.split)

lemma coerce_status: "fst (coerce_command_result env res) \<in> set COMMAND_STATUSES"
  by (simp add: coerce_command_result_def COMMAND_STATUSES_def Let_def split: pyval.split)

text \<open>The verdict on a command: why it is refused, or what the handler makes of it.\<close>

definition command_decision :: "'s command_handler \<Rightarrow> command_env \<Rightarrow> pydict \<Rightarrow> 's \<Rightarrow> 's \<times> string \<times> string" where
  "command_decision hc env payload s =
     (let command = get_or payload ''command'' (PStr ''''); args = get_or payload ''args'' (PDict [])
      in case (command_validation_error (ce_float env) command args, command, args) of
           (None, PStr c, PDict d) \<Rightarrow>
             (case hc c d s of
                (s', Cmd_raised e) \<Rightarrow> (s', ''rejected'', detail_text env (PStr (''handler error: '' @ e)))
              | (s', Cmd_returned res) \<Rightarrow> (s', fst (coerce_command_result env res), detail_text env (snd (coerce_command_result env res))))
         | (Some e, _) \<Rightarrow> (s, ''rejected'', detail_text env (PStr e))
         | _ \<Rightarrow> (s, ''rejected'', ''''))"

lemma validated_shape:
  "command_validation_error fl c a = None \<Longrightarrow> \<exists>s d. c = PStr s \<and> a = PDict d"
  by (auto simp: command_validation_error_def split: pyval.splits if_splits)

lemma handle_line_by_decision:
  assumes "json_loads line = Some (PDict payload)" "dget payload ''request_id'' = PStr rid"
    and "command_decision hc env payload (wk_consumer w) = (s', st, txt')"
  shows "\<exists>d. txt' = detail_text env d \<and> st \<in> set COMMAND_STATUSES
    \<and> handle_command_line hc env line w = emit_command_result env rid st d (wake_if (st = ''accepted'') (w\<lparr>wk_consumer := s'\<rparr>))"
proof -
  let ?c = "get_or payload ''command'' (PStr '''')" and ?a = "get_or payload ''args'' (PDict [])"
  show ?thesis
  proof (cases "command_validation_error (ce_float env) ?c ?a")
    case (Some e)
    then show ?thesis using assms by (auto simp: handle_command_line_def command_decision_def Let_def wake_if_def COMMAND_STATUSES_def)
  next
    case None
    then obtain c d where cd: "?c = PStr c" "?a = PDict d" using validated_shape by blast
    obtain s1 o1 where h: "hc c d (wk_consumer w) = (s1, o1)" by (meson prod.exhaust)
    show ?thesis
    proof (cases o1)
      case (Cmd_raised e)
      then show ?thesis using assms None cd h
        by (auto simp: handle_command_line_def command_decision_def Let_def wake_if_def COMMAND_STATUSES_def)
    next
      case (Cmd_returned res)
      obtain st1 d1 where co: "coerce_command_result env res = (st1, d1)" by (meson prod.exhaust)
      then show ?thesis using assms None cd h Cmd_returned coerce_status[of env res]
        by (auto simp: handle_command_line_def command_decision_def Let_def)
    qed
  qed
qed

text \<open>C38: Every addressed command is answered once, and the supervisor reads the answer as the worker meant it. A line that
  carries a request id makes the worker emit exactly one \<^verbatim>\<open>command_result\<close> event, whose verdict as the supervisor reads
  it is accepted or rejected for that request with the worker's detail text (rejected for an invalid name, oversized
  arguments, a handler that raises or returns anything malformed), unless it is a rejection beyond the flood bound;
  an accepted command wakes the run loop. Any other line changes nothing.\<close>

theorem commands_are_answered:
  fixes w :: "'s base_worker"
  assumes "\<not> ce_write_fails env"
  shows "case json_loads line of
      Some (PDict payload) \<Rightarrow>
        (case dget payload ''request_id'' of
           PStr rid \<Rightarrow>
             (case command_decision hc env payload (wk_consumer w) of
                (s', st, detail) \<Rightarrow>
                  wk_consumer (handle_command_line hc env line w) = s'
                  \<and> (st = ''accepted'' \<longrightarrow> wk_wake (handle_command_line hc env line w))
                  \<and> (if st = ''rejected'' \<and> rejections_saturated (ce_mono env) w
                      then wk_emitted (handle_command_line hc env line w) = wk_emitted w
                      else \<exists>e. wk_emitted (handle_command_line hc env line w) = wk_emitted w @ [e]
                        \<and> command_verdict ostr e = Some (rid, if st = ''accepted'' then Accepted detail else Rejected detail)))
         | _ \<Rightarrow> handle_command_line hc env line w = w)
    | _ \<Rightarrow> handle_command_line hc env line w = w"
proof (cases "\<exists>payload rid. json_loads line = Some (PDict payload) \<and> dget payload ''request_id'' = PStr rid")
  case True
  then obtain payload rid where p: "json_loads line = Some (PDict payload)" "dget payload ''request_id'' = PStr rid" by blast
  obtain s' st txt' where d: "command_decision hc env payload (wk_consumer w) = (s', st, txt')" by (metis prod.exhaust)
  define w1 where "w1 = wake_if (st = ''accepted'') (w\<lparr>wk_consumer := s'\<rparr>)"
  obtain v where v: "txt' = detail_text env v" "st \<in> set COMMAND_STATUSES" "handle_command_line hc env line w = emit_command_result env rid st v w1"
    using handle_line_by_decision[OF p d] unfolding w1_def by blast
  have frame: "rejections_saturated now w1 = rejections_saturated now w" "wk_emitted w1 = wk_emitted w" "wk_consumer w1 = s'"
    "st = ''accepted'' \<longrightarrow> wk_wake w1" for now by (simp_all add: w1_def wake_if_def rejections_saturated_def)
  then show ?thesis using p d v emit_command_result_effect[OF v(2) assms, where rid = rid and d = v and w = w1 and ostr = ostr]
    by (cases "st = ''accepted''") auto
next
  case False
  then show ?thesis by (auto simp: handle_command_line_def split: option.split pyval.split)
qed

text \<open>A concrete command: the inherited handler refuses it.\<close>

definition plain_env :: command_env where
  "plain_env = \<lparr>ce_now = 0, ce_mono = 0, ce_event_id = ''e'', ce_str = (\<lambda>v. case v of PStr s \<Rightarrow> Some s | _ \<Rightarrow> None), ce_repr = (\<lambda>_. ''''),
     ce_type = (\<lambda>_. ''''), ce_float = (\<lambda>_. ''''), ce_write_fails = False\<rparr>"

definition idle_worker :: "unit base_worker" where
  "idle_worker = \<lparr>wk_name = ''w'', wk_stop = False, wk_wake = False, wk_processed = 0, wk_rejected = [], wk_emitted = [], wk_consumer = ()\<rparr>"

definition rescan_request :: pydict where
  "rescan_request = [(''command'', PStr ''rescan''), (''request_id'', PStr ''r1'')]"

theorem commands_are_answered_witness:
  "\<exists>line e. json_loads line = Some (PDict rescan_request)
     \<and> wk_emitted (handle_command_line default_handle_command plain_env line idle_worker) = [e]
     \<and> command_verdict (\<lambda>_. '''') e = Some (''r1'', Rejected ''commands not supported'')"
proof -
  have "plain_json (PDict rescan_request)" "canon_json (PDict rescan_request) = PDict rescan_request" by code_simp+
  then obtain t where t: "json_loads t = Some (PDict rescan_request)" using json_roundtrip[of "PDict rescan_request"] by auto
  have v: "command_validation_error (\<lambda>_. '''') (PStr ''rescan'') (PDict []) = None" by code_simp
  have d: "command_decision default_handle_command plain_env rescan_request () = ((), ''rejected'', ''commands not supported'')"
    by (simp add: command_decision_def get_or_def rescan_request_def dget_def plain_env_def v[simplified] default_handle_command_def
        coerce_command_result_def COMMAND_STATUSES_def detail_text_def)
  have "dget rescan_request ''request_id'' = PStr ''r1''" "\<not> ce_write_fails plain_env" "wk_consumer idle_worker = ()" "wk_emitted idle_worker = []"
    "\<not> rejections_saturated (ce_mono plain_env) idle_worker"
    by (simp_all add: rescan_request_def dget_def plain_env_def idle_worker_def rejections_saturated_def REJECTED_EMIT_MAX_PER_WINDOW_def)
  then show ?thesis using commands_are_answered[where env = plain_env and line = t and hc = default_handle_command and w = idle_worker
      and ostr = "\<lambda>_. ''''"] t d by auto
qed

end
