(* ===== verification/Ipc_Commands.thy ===== *)
theory Ipc_Commands
  imports Ipc Worker_Contract
begin

text \<open>
  The \<^verbatim>\<open>run_worker_command\<close> method of \<^verbatim>\<open>ipc_commands.py\<close>: the rate limit, the allowlist and the caps in front of the
  supervisor's command channel, and the audit row of every attempt.
\<close>

section \<open>The handler\<close>

definition ALLOWED_WORKER_COMMANDS :: "(string \<times> string) list" where
  "ALLOWED_WORKER_COMMANDS = [(''vuln_scanner'', ''rescan''), (''scanner_runner'', ''run_scanner'')]"

definition RATE_LIMIT_PER_MIN :: nat where "RATE_LIMIT_PER_MIN = 12"
definition ARGS_REPR_MAX_CHARS :: nat where "ARGS_REPR_MAX_CHARS = 200"
definition NAME_AUDIT_MAX_CHARS :: nat where "NAME_AUDIT_MAX_CHARS = 64"
definition DETAIL_AUDIT_MAX_CHARS :: nat where "DETAIL_AUDIT_MAX_CHARS = 500"

text \<open>The handler's state: its limiter, the audit log, the supervisor and the commands passed on to it.\<close>

record 'd command_service =
  rc_limiter :: sliding_window
  rc_audit :: audit_state
  rc_daemon :: 'd
  rc_sent :: "(string \<times> string \<times> pydict) list"

record attempt_env =
  at_mono :: real
  at_sha :: "string \<Rightarrow> string"
  at_call :: audit_call
  at_ostr :: "pyval \<Rightarrow> string"
  at_float :: "real \<Rightarrow> string"

definition truncated_repr :: "(pyval \<Rightarrow> string) \<Rightarrow> pyval \<Rightarrow> string" where
  "truncated_repr ostr v =
     (let t = py_repr ostr v
      in if length t > ARGS_REPR_MAX_CHARS then take ARGS_REPR_MAX_CHARS t @ ''...[truncated]'' else t)"

definition audit_command :: "attempt_env \<Rightarrow> string \<Rightarrow> pydict \<Rightarrow> 'd command_service \<Rightarrow> 'd command_service" where
  "audit_command env worker_name details sv =
     sv\<lparr>rc_audit := fst (append_audit (at_sha env)
          ((at_call env)\<lparr>ac_actor := ''user:local'', ac_action := ''worker_command_sent'',
             ac_target := Some (''worker:'' @ take NAME_AUDIT_MAX_CHARS worker_name), ac_details := details_of details\<rparr>)
          (rc_audit sv))\<rparr>"

definition str_param :: "attempt_env \<Rightarrow> pydict \<Rightarrow> string \<Rightarrow> string" where
  "str_param env ps k = (case map_of ps k of None \<Rightarrow> '''' | Some v \<Rightarrow> py_str (at_ostr env) v)"

definition rejected_details :: "attempt_env \<Rightarrow> string \<Rightarrow> pyval \<Rightarrow> string \<Rightarrow> pydict" where
  "rejected_details env command args reason =
     [(''command'', PStr (take NAME_AUDIT_MAX_CHARS command)), (''args'', PStr (truncated_repr (at_ostr env) args)),
      (''status'', PStr ''rejected''), (''reason'', PStr reason)]"

text \<open>Passing the command on, and the row of its outcome. The supervisor's answer is a dictionary.\<close>

definition forward_command ::
  "attempt_env \<Rightarrow> (string \<Rightarrow> string \<Rightarrow> pydict \<Rightarrow> 'd \<Rightarrow> 'd \<times> pydict) \<Rightarrow> string \<Rightarrow> string \<Rightarrow> pydict \<Rightarrow> 'd command_service
     \<Rightarrow> 'd command_service \<times> handler_result" where
  "forward_command env send worker_name command args sv =
     (case send worker_name command args (rc_daemon sv) of
        (d, res) \<Rightarrow>
          (let status = (case map_of res ''status'' of None \<Rightarrow> ''worker_unavailable'' | Some v \<Rightarrow> py_str (at_ostr env) v);
               detail = str_param env res ''detail''
           in (audit_command env worker_name
                 [(''command'', PStr (take NAME_AUDIT_MAX_CHARS command)), (''args'', PDict args), (''status'', PStr status),
                  (''detail'', PStr (take DETAIL_AUDIT_MAX_CHARS detail))]
                 (sv\<lparr>rc_daemon := d, rc_sent := rc_sent sv @ [(worker_name, command, args)]\<rparr>),
               Returned (PDict [(''schema_version'', PStr ''1.0.0''), (''ok'', PBool (status = ''accepted'')),
                                (''status'', PStr status), (''detail'', PStr detail)]))))"

definition serialized :: "attempt_env \<Rightarrow> pydict \<Rightarrow> string option" where
  "serialized env args = json_dumps (at_float env) (\<lambda>_. None) (PDict args)"

definition handle_run_worker_command ::
  "attempt_env \<Rightarrow> (string \<Rightarrow> string \<Rightarrow> pydict \<Rightarrow> 'd \<Rightarrow> 'd \<times> pydict) \<Rightarrow> pydict \<Rightarrow> 'd command_service
     \<Rightarrow> 'd command_service \<times> handler_result" where
  "handle_run_worker_command env send ps sv =
     (let worker_name = str_param env ps ''worker''; command = str_param env ps ''command''; raw_args = dget ps ''args'';
          refuse = (\<lambda>args reason msg s. (audit_command env worker_name (rejected_details env command args reason) s, Client_error msg))
      in case sw_check (at_mono env) (rc_limiter sv) of ((allowed, audit_rejection), lim_s) \<Rightarrow>
         let sv1 = sv\<lparr>rc_limiter := lim_s\<rparr>
         in if \<not> allowed then
              (if audit_rejection then
                 audit_command env worker_name
                   [(''command'', PStr (take NAME_AUDIT_MAX_CHARS command)), (''status'', PStr ''rejected''), (''reason'', PStr ''rate_limited'')] sv1
               else sv1,
               Client_error (''run_worker_command rate limit exceeded ('' @ nat_str RATE_LIMIT_PER_MIN @ ''/min)''))
            else if (worker_name, command) \<notin> set ALLOWED_WORKER_COMMANDS then
              refuse raw_args ''not_allowlisted'' (''command not allowed: '' @ worker_name @ ''/'' @ command) sv1
            else case (if raw_args = PNone then PDict [] else raw_args) of
                   PDict args \<Rightarrow>
                     (case serialized env args of
                        None \<Rightarrow> (sv1, Raised ''TypeError'')
                      | Some t \<Rightarrow>
                          if length t > COMMAND_ARGS_MAX_BYTES then
                            refuse (PDict args) ''args_too_large'' (''args over '' @ nat_str COMMAND_ARGS_MAX_BYTES @ '' bytes'') sv1
                          else forward_command env send worker_name command args sv1)
                 | _ \<Rightarrow> refuse raw_args ''args_not_object'' ''args must be an object'' sv1)"

section \<open>Policing\<close>

lemma audit_command_row:
  assumes "\<not> ac_fault (at_call env)"
  shows "\<exists>r. au_rows (rc_audit (audit_command env wn d sv)) = au_rows (rc_audit sv) @ [r] \<and> ab_action r = ''worker_command_sent''
    \<and> ab_target r = Some (''worker:'' @ take NAME_AUDIT_MAX_CHARS wn) \<and> ab_details r = details_of d"
  using assms by (simp add: audit_command_def append_audit_rows next_row_def Let_def audit_body.defs)

lemma audit_command_frame [simp]:
  "rc_sent (audit_command env wn d sv) = rc_sent sv" "rc_daemon (audit_command env wn d sv) = rc_daemon sv"
  by (simp_all add: audit_command_def)

text \<open>Everything an attempt may leave in its audit row is bounded, except the arguments of a command within the cap.\<close>

lemma truncated_repr_bounded: "length (truncated_repr ostr v) \<le> ARGS_REPR_MAX_CHARS + 14"
  by (simp add: truncated_repr_def Let_def)

lemma serializable_dumps: "serializable v \<Longrightarrow> \<exists>t. json_dumps fl dflt v = Some t"
proof (induction v rule: serializable.induct)
  case (1 xs)
  then have "\<forall>x\<in>set xs. \<exists>t. json_dumps fl dflt x = Some t" by (auto simp: list_all_iff)
  then have "\<exists>ts. all_some (map (json_dumps fl dflt) xs) = Some ts" by (induction xs) auto
  then show ?case by auto
next
  case (2 d)
  let ?f = "\<lambda>(k, t). map_option (\<lambda>u. json_str k @ '':'' @ u) t"
  have "\<exists>ts. all_some (map ?f kts) = Some ts" if "\<forall>(k, t)\<in>set kts. t \<noteq> None" for kts using that by (induction kts) auto
  moreover have "\<forall>(k, t)\<in>set (sort_key fst (map (\<lambda>(k, v). (k, json_dumps fl dflt v)) d)). t \<noteq> None"
    using 2 by (fastforce simp: list_all_iff)
  ultimately show ?case by fastforce
qed simp_all

text \<open>The arguments a request may pass on, if it may pass on any.\<close>

definition admitted :: "attempt_env \<Rightarrow> pydict \<Rightarrow> sliding_window \<Rightarrow> pydict option" where
  "admitted env ps limiter =
     (if fst (fst (sw_check (at_mono env) limiter)) \<and> (str_param env ps ''worker'', str_param env ps ''command'') \<in> set ALLOWED_WORKER_COMMANDS
      then case (if dget ps ''args'' = PNone then PDict [] else dget ps ''args'') of
             PDict args \<Rightarrow> (case serialized env args of
                              Some t \<Rightarrow> if length t \<le> COMMAND_ARGS_MAX_BYTES then Some args else None | None \<Rightarrow> None)
           | _ \<Rightarrow> None
      else None)"

lemma not_admitted:
  assumes "handle_run_worker_command env send ps sv = (sv', res)" "serializable (dget ps ''args'')" "admitted env ps (rc_limiter sv) = None"
  shows "(\<exists>m. res = Client_error m) \<and> rc_sent sv' = rc_sent sv \<and> rc_daemon sv' = rc_daemon sv
    \<and> ((\<exists>d. sv' = audit_command env (str_param env ps ''worker'') d (sv\<lparr>rc_limiter := snd (sw_check (at_mono env) (rc_limiter sv))\<rparr>))
       \<or> fst (sw_check (at_mono env) (rc_limiter sv)) = (False, False) \<and> rc_audit sv' = rc_audit sv)"
proof -
  obtain allowed rej lim_s where l: "sw_check (at_mono env) (rc_limiter sv) = ((allowed, rej), lim_s)" by (metis prod.exhaust)
  let ?a = "if dget ps ''args'' = PNone then PDict [] else dget ps ''args''"
  have sa: "serializable ?a" using assms(2) by simp
  have ser: "\<exists>t. serialized env d = Some t" if d: "?a = PDict d" for d
    using serializable_dumps[of "PDict d"] sa unfolding d serialized_def by blast
  let ?pair = "(str_param env ps ''worker'', str_param env ps ''command'') \<in> set ALLOWED_WORKER_COMMANDS"
  consider "\<not> allowed" | "allowed" "\<not> ?pair" | "allowed" ?pair "\<forall>d. ?a \<noteq> PDict d"
    | d where "allowed" ?pair "?a = PDict d" by blast
  then show ?thesis
  proof cases
    case 4
    then obtain t where t: "serialized env d = Some t" using ser by blast
    then have "COMMAND_ARGS_MAX_BYTES < length t" using assms(3) 4 l by (auto simp: admitted_def split: if_splits)
    then show ?thesis using 4 t l assms(1) unfolding handle_run_worker_command_def Let_def l prod.case by auto
  next
    case 3
    then show ?thesis using l assms(1) unfolding handle_run_worker_command_def Let_def l prod.case by (auto split: pyval.splits)
  qed (use l assms(1) in \<open>auto simp: handle_run_worker_command_def Let_def simp del: append.simps split: if_splits\<close>)
qed

lemma forward_shape:
  "\<exists>details v. forward_command env send wn c args sv = (audit_command env wn details
     (sv\<lparr>rc_daemon := fst (send wn c args (rc_daemon sv)), rc_sent := rc_sent sv @ [(wn, c, args)]\<rparr>), Returned v)"
  by (simp add: forward_command_def Let_def split: prod.split) blast

lemma is_admitted:
  assumes "handle_run_worker_command env send ps sv = (sv', res)" "admitted env ps (rc_limiter sv) = Some args"
  shows "(sv', res) = forward_command env send (str_param env ps ''worker'') (str_param env ps ''command'') args
    (sv\<lparr>rc_limiter := snd (sw_check (at_mono env) (rc_limiter sv))\<rparr>)"
proof -
  obtain allowed rej lim_s where l: "sw_check (at_mono env) (rc_limiter sv) = ((allowed, rej), lim_s)" by (metis prod.exhaust)
  let ?a = "if dget ps ''args'' = PNone then PDict [] else dget ps ''args''"
  obtain t where "allowed" "(str_param env ps ''worker'', str_param env ps ''command'') \<in> set ALLOWED_WORKER_COMMANDS" "?a = PDict args"
    "serialized env args = Some t" "\<not> COMMAND_ARGS_MAX_BYTES < length t"
    using assms(2) l by (auto simp: admitted_def split: if_splits pyval.splits option.splits)
  then show ?thesis using assms(1) unfolding handle_run_worker_command_def Let_def l prod.case by simp
qed

text \<open>C29: Worker commands are policed. Only a request that the limiter allows, that names a pair of the closed allowlist and
  whose arguments are an object of at most the cap's size reaches the supervisor, with exactly these arguments;
  every other request leaves the supervisor untouched and is refused to the client. With the audit append
  working, each attempt leaves one row that names its worker, except the repeated attempts of a saturation that
  is already on record.\<close>

theorem worker_commands_are_policed:
  assumes "handle_run_worker_command env send ps sv = (sv', res)" "serializable (dget ps ''args'')" "\<not> ac_fault (at_call env)"
  shows "(case admitted env ps (rc_limiter sv) of
        Some args \<Rightarrow>
          rc_sent sv' = rc_sent sv @ [(str_param env ps ''worker'', str_param env ps ''command'', args)]
          \<and> rc_daemon sv' = fst (send (str_param env ps ''worker'') (str_param env ps ''command'') args (rc_daemon sv))
          \<and> (\<exists>v. res = Returned v)
      | None \<Rightarrow> rc_sent sv' = rc_sent sv \<and> rc_daemon sv' = rc_daemon sv \<and> (\<exists>m. res = Client_error m))
    \<and> (fst (sw_check (at_mono env) (rc_limiter sv)) = (False, False) \<and> rc_audit sv' = rc_audit sv
       \<or> (\<exists>r. au_rows (rc_audit sv') = au_rows (rc_audit sv) @ [r] \<and> ab_action r = ''worker_command_sent''
            \<and> ab_target r = Some (''worker:'' @ take NAME_AUDIT_MAX_CHARS (str_param env ps ''worker''))))"
proof (cases "admitted env ps (rc_limiter sv)")
  case None
  note r = not_admitted[OF assms(1,2) None]
  have "fst (sw_check (at_mono env) (rc_limiter sv)) = (False, False) \<and> rc_audit sv' = rc_audit sv
       \<or> (\<exists>r. au_rows (rc_audit sv') = au_rows (rc_audit sv) @ [r] \<and> ab_action r = ''worker_command_sent''
            \<and> ab_target r = Some (''worker:'' @ take NAME_AUDIT_MAX_CHARS (str_param env ps ''worker'')))"
    using r audit_command_row[OF assms(3), of "str_param env ps ''worker''" _ "sv\<lparr>rc_limiter := snd (sw_check (at_mono env) (rc_limiter sv))\<rparr>"]
    by fastforce
  then show ?thesis using None r by simp
next
  case (Some args)
  let ?wn = "str_param env ps ''worker''" and ?c = "str_param env ps ''command''"
  let ?sv = "sv\<lparr>rc_limiter := snd (sw_check (at_mono env) (rc_limiter sv))\<rparr>"
  let ?sv1 = "?sv\<lparr>rc_daemon := fst (send ?wn ?c args (rc_daemon ?sv)), rc_sent := rc_sent ?sv @ [(?wn, ?c, args)]\<rparr>"
  obtain details v where f: "sv' = audit_command env ?wn details ?sv1" "res = Returned v"
    using is_admitted[OF assms(1) Some] forward_shape[of env send ?wn ?c args ?sv] by auto
  have "\<exists>r. au_rows (rc_audit sv') = au_rows (rc_audit sv) @ [r] \<and> ab_action r = ''worker_command_sent''
      \<and> ab_target r = Some (''worker:'' @ take NAME_AUDIT_MAX_CHARS ?wn)"
    using audit_command_row[OF assms(3), of ?wn details ?sv1] unfolding f by (simp del: append.simps) blast
  then show ?thesis unfolding Some option.case using f by simp
qed

definition rescan_attempt :: attempt_env where
  "rescan_attempt = \<lparr>at_mono = 0, at_sha = (\<lambda>s. s), at_call = sample_call ''x'', at_ostr = (\<lambda>_. ''''), at_float = (\<lambda>_. '''')\<rparr>"

definition rescan_service :: "unit command_service" where
  "rescan_service = \<lparr>rc_limiter = sliding_window_init 12 60, rc_audit = audit_init, rc_daemon = (), rc_sent = []\<rparr>"

theorem worker_commands_are_policed_witness:
  "\<exists>sv' res. handle_run_worker_command rescan_attempt (\<lambda>w c a d. (d, [(''status'', PStr ''accepted'')]))
       [(''worker'', PStr ''vuln_scanner''), (''command'', PStr ''rescan'')] rescan_service = (sv', res)
     \<and> rc_sent sv' = [(''vuln_scanner'', ''rescan'', [])] \<and> length (au_rows (rc_audit sv')) = 1"
proof -
  let ?ps = "[(''worker'', PStr ''vuln_scanner''), (''command'', PStr ''rescan'')]"
  obtain sv' res where h: "handle_run_worker_command rescan_attempt (\<lambda>w c a d. (d, [(''status'', PStr ''accepted'')])) ?ps rescan_service = (sv', res)"
    by (meson prod.exhaust)
  have l: "sw_check (at_mono rescan_attempt) (rc_limiter rescan_service) = ((True, False), snd (sw_check 0 (sliding_window_init 12 60)))"
    by (simp add: rescan_attempt_def rescan_service_def sliding_window_init_def sw_check_def Let_def)
  have a: "admitted rescan_attempt ?ps (rc_limiter rescan_service) = Some []"
    by (simp add: admitted_def l str_param_def py_str_def ALLOWED_WORKER_COMMANDS_def dget_def serialized_def COMMAND_ARGS_MAX_BYTES_def)
  have f: "\<not> ac_fault (at_call rescan_attempt)" "serializable (dget ?ps ''args'')" "rc_sent rescan_service = []" "au_rows (rc_audit rescan_service) = []"
    "str_param rescan_attempt ?ps ''worker'' = ''vuln_scanner''" "str_param rescan_attempt ?ps ''command'' = ''rescan''"
    by (simp_all add: dget_def rescan_attempt_def sample_call_def rescan_service_def audit_init_def str_param_def py_str_def)
  note policed = worker_commands_are_policed[OF h f(2,1), unfolded a option.case l fst_conv f(3,4,5,6)]
  then have "rc_sent sv' = [(''vuln_scanner'', ''rescan'', [])]" by simp
  moreover have "length (au_rows (rc_audit sv')) = 1" using policed by auto
  ultimately show ?thesis using h by blast
qed

end
