(* ===== verification/Worker_Loop.thy ===== *)
theory Worker_Loop
  imports Worker_Contract
begin

text \<open>
  The run loop of a worker against the threads that set its two flags: \<^verbatim>\<open>request_stop\<close> (a signal handler) sets the stop
  flag and then the wake flag, and the command reader records an accepted command and then sets the wake flag.
\<close>

section \<open>The loop\<close>

text \<open>The points of \<^verbatim>\<open>run\<close> between which other threads may act.\<close>

datatype run_point = Loop_test | Clear_wake | Recheck_stop | Do_step | Do_heartbeat | Wait_wake | After_wait | Finish | Stopped

record run_loop =
  rl_point :: run_point
  rl_stop :: bool
  rl_wake :: bool
  rl_stopping :: nat
  rl_waking :: nat
  rl_command :: bool
  rl_steps :: nat
  rl_last_heartbeat :: real
  rl_heartbeats :: nat
  rl_torn_down :: bool

definition run_start :: "real \<Rightarrow> run_loop" where
  "run_start now = \<lparr>rl_point = Loop_test, rl_stop = False, rl_wake = False, rl_stopping = 0, rl_waking = 0, rl_command = False,
     rl_steps = 0, rl_last_heartbeat = now, rl_heartbeats = 0, rl_torn_down = False\<rparr>"

text \<open>The loop's own next move, given the clock and whether the wait has timed out; a wait that has neither timed out nor
  been woken stays where it is. A step acts on any command recorded before it, and its exceptions are caught.\<close>

definition run_next :: "real \<Rightarrow> bool \<Rightarrow> run_loop \<Rightarrow> run_loop" where
  "run_next now timed_out r =
     (case rl_point r of
        Loop_test \<Rightarrow> r\<lparr>rl_point := (if rl_stop r then Finish else Clear_wake)\<rparr>
      | Clear_wake \<Rightarrow> r\<lparr>rl_wake := False, rl_point := Recheck_stop\<rparr>
      | Recheck_stop \<Rightarrow> r\<lparr>rl_point := (if rl_stop r then Finish else Do_step)\<rparr>
      | Do_step \<Rightarrow> r\<lparr>rl_steps := Suc (rl_steps r), rl_command := False, rl_point := Do_heartbeat\<rparr>
      | Do_heartbeat \<Rightarrow>
          (if now - rl_last_heartbeat r \<ge> HEARTBEAT_INTERVAL_S
           then r\<lparr>rl_heartbeats := Suc (rl_heartbeats r), rl_last_heartbeat := now, rl_point := Wait_wake\<rparr>
           else r\<lparr>rl_point := Wait_wake\<rparr>)
      | Wait_wake \<Rightarrow> if rl_wake r \<or> timed_out then r\<lparr>rl_point := After_wait\<rparr> else r
      | After_wait \<Rightarrow> r\<lparr>rl_point := (if rl_stop r then Finish else Loop_test)\<rparr>
      | Finish \<Rightarrow> r\<lparr>rl_heartbeats := Suc (rl_heartbeats r), rl_torn_down := True, rl_point := Stopped\<rparr>
      | Stopped \<Rightarrow> r)"

text \<open>\<^verbatim>\<open>request_stop\<close> and the accepting reader, each cut between its two moves.\<close>

definition request_stop_first :: "run_loop \<Rightarrow> run_loop" where
  "request_stop_first r = r\<lparr>rl_stop := True, rl_stopping := Suc (rl_stopping r)\<rparr>"

definition request_stop_second :: "run_loop \<Rightarrow> run_loop" where
  "request_stop_second r = r\<lparr>rl_wake := True, rl_stopping := rl_stopping r - 1\<rparr>"

definition accept_first :: "run_loop \<Rightarrow> run_loop" where
  "accept_first r = r\<lparr>rl_command := True, rl_waking := Suc (rl_waking r)\<rparr>"

definition accept_second :: "run_loop \<Rightarrow> run_loop" where
  "accept_second r = r\<lparr>rl_wake := True, rl_waking := rl_waking r - 1\<rparr>"

inductive run_step :: "run_loop \<Rightarrow> run_loop \<Rightarrow> bool" where
  Own: "run_step r (run_next now timed_out r)"
| Stop1: "run_step r (request_stop_first r)"
| Stop2: "0 < rl_stopping r \<Longrightarrow> run_step r (request_stop_second r)"
| Command1: "run_step r (accept_first r)"
| Command2: "0 < rl_waking r \<Longrightarrow> run_step r (accept_second r)"

section \<open>No wake-up is lost\<close>

lemmas loop_moves = run_next_def request_stop_first_def request_stop_second_def accept_first_def accept_second_def

definition stop_seen :: "run_loop \<Rightarrow> bool" where
  "stop_seen r \<longleftrightarrow> (rl_stop r \<and> rl_stopping r = 0 \<and> rl_point r \<in> {Do_step, Do_heartbeat, Wait_wake} \<longrightarrow> rl_wake r)"

definition command_seen :: "run_loop \<Rightarrow> bool" where
  "command_seen r \<longleftrightarrow> (rl_command r \<and> rl_waking r = 0 \<and> rl_point r \<in> {Do_heartbeat, Wait_wake} \<longrightarrow> rl_wake r)"

definition finished_after_stop :: "run_loop \<Rightarrow> bool" where
  "finished_after_stop r \<longleftrightarrow> (rl_point r \<in> {Finish, Stopped} \<longrightarrow> rl_stop r) \<and> (rl_torn_down r \<longleftrightarrow> rl_point r = Stopped)"

definition loop_inv :: "run_loop \<Rightarrow> bool" where
  "loop_inv r \<longleftrightarrow> stop_seen r \<and> command_seen r \<and> finished_after_stop r"

lemmas loop_inv_defs = loop_inv_def stop_seen_def command_seen_def finished_after_stop_def

lemma run_next_inv: "loop_inv r \<Longrightarrow> loop_inv (run_next now timed_out r)"
  by (cases "rl_point r") (auto simp: loop_inv_defs run_next_def)

lemma run_step_inv: "\<lbrakk>run_step r r'; loop_inv r\<rbrakk> \<Longrightarrow> loop_inv r'"
proof (induction rule: run_step.induct)
  case (Own r now timed_out)
  then show ?case by (rule run_next_inv)
qed (auto simp: loop_inv_defs loop_moves)

lemma run_reachable_inv: "run_step\<^sup>*\<^sup>* (run_start now) r \<Longrightarrow> loop_inv r"
proof (induction rule: rtranclp_induct)
  case base
  show ?case by (simp add: loop_inv_defs run_start_def)
qed (rule run_step_inv)

text \<open>Steps still owed once the stop flag is set.\<close>

definition owed_steps :: "run_loop \<Rightarrow> nat" where
  "owed_steps r = (if rl_point r = Do_step then 1 else 0)"

lemma stopped_steps:
  assumes "run_step r r'" "rl_stop r"
  shows "rl_stop r' \<and> rl_steps r' + owed_steps r' \<le> rl_steps r + owed_steps r"
  using assms
proof (induction rule: run_step.induct)
  case (Own r now timed_out)
  then show ?case by (cases "rl_point r") (auto simp: run_next_def owed_steps_def)
qed (auto simp: loop_moves owed_steps_def)

lemma stopped_run:
  assumes "run_step\<^sup>*\<^sup>* r r'" "rl_stop r"
  shows "rl_stop r' \<and> rl_steps r' + owed_steps r' \<le> rl_steps r + owed_steps r"
  using assms by (induction rule: rtranclp_induct) (auto dest: stopped_steps intro: order_trans)

text \<open>Moves of the loop from a point to the end, once it is stopping and every wait is already woken.\<close>

definition moves_left :: "run_point \<Rightarrow> nat" where
  "moves_left p = (case p of Stopped \<Rightarrow> 0 | Finish \<Rightarrow> 1 | Recheck_stop \<Rightarrow> 2 | Loop_test \<Rightarrow> 2 | After_wait \<Rightarrow> 2 | Clear_wake \<Rightarrow> 3
     | Wait_wake \<Rightarrow> 3 | Do_heartbeat \<Rightarrow> 4 | Do_step \<Rightarrow> 5)"

lemma stopping_move:
  assumes "loop_inv r" "rl_stop r" "rl_stopping r = 0" "rl_point r \<noteq> Stopped"
  shows "moves_left (rl_point (run_next now False r)) < moves_left (rl_point r)
    \<and> rl_stop (run_next now False r) \<and> rl_stopping (run_next now False r) = 0"
  using assms by (cases "rl_point r") (auto simp: run_next_def moves_left_def loop_inv_defs)

lemma stopping_run:
  assumes "loop_inv r" "rl_stop r" "rl_stopping r = 0" "moves_left (rl_point r) \<le> n"
  shows "rl_point ((run_next now False ^^ n) r) = Stopped"
  using assms
proof (induction n arbitrary: r)
  case 0
  then show ?case by (cases "rl_point r") (auto simp: moves_left_def)
next
  case (Suc n)
  show ?case
  proof (cases "rl_point r = Stopped")
    case True
    then have "run_next now False r = r" by (simp add: run_next_def)
    then have "(run_next now False ^^ k) r = r" for k by (induction k) auto
    then show ?thesis using True by metis
  next
    case False
    note m = stopping_move[OF Suc.prems(1,2,3) False, of now]
    have "rl_point ((run_next now False ^^ n) (run_next now False r)) = Stopped"
      using Suc.prems m by (intro Suc.IH run_next_inv) auto
    then show ?thesis by (simp add: funpow_swap1)
  qed
qed

lemma moves_left_le: "moves_left p \<le> 5"
  by (cases p) (simp_all add: moves_left_def)

text \<open>C33: A worker never sleeps on a stop or on an accepted command. In every interleaving of the run loop with stop requests and
  accepted commands: at the wait, a completed stop request or a recorded command whose wake-up is complete has
  left the wake flag set, so the wait returns at once; after the stop flag is set at most one more step runs; and
  once the request is complete the loop reaches its end, with the final heartbeat and the teardown, within five
  moves of its own and no wait that times out.\<close>

theorem worker_stops_promptly:
  assumes "run_step\<^sup>*\<^sup>* (run_start t0) r"
  shows "(rl_point r = Wait_wake \<and> (rl_stop r \<and> rl_stopping r = 0 \<or> rl_command r \<and> rl_waking r = 0) \<longrightarrow> rl_wake r)
    \<and> (\<forall>r'. rl_stop r \<and> run_step\<^sup>*\<^sup>* r r' \<longrightarrow> rl_steps r' \<le> Suc (rl_steps r))
    \<and> (rl_stop r \<and> rl_stopping r = 0 \<longrightarrow>
         rl_point ((run_next now False ^^ 5) r) = Stopped \<and> rl_torn_down ((run_next now False ^^ 5) r))"
proof -
  have inv: "loop_inv r" by (rule run_reachable_inv[OF assms])
  have many: "loop_inv ((run_next now False ^^ n) r)" for n by (induction n) (auto intro: inv run_next_inv)
  have "rl_steps r' \<le> Suc (rl_steps r)" if "rl_stop r" "run_step\<^sup>*\<^sup>* r r'" for r'
    using stopped_run[OF that(2,1)] by (simp add: owed_steps_def split: if_splits)
  moreover have "rl_point ((run_next now False ^^ 5) r) = Stopped" if "rl_stop r" "rl_stopping r = 0"
    using stopping_run[OF inv that moves_left_le] by blast
  moreover have "rl_torn_down ((run_next now False ^^ 5) r)" if "rl_point ((run_next now False ^^ 5) r) = Stopped"
    using many[of 5] that by (simp only: loop_inv_def finished_after_stop_def)
  moreover have "rl_wake r" if "rl_point r = Wait_wake" "rl_stop r \<and> rl_stopping r = 0 \<or> rl_command r \<and> rl_waking r = 0"
    using inv that by (auto simp: loop_inv_defs)
  ultimately show ?thesis by blast
qed

theorem worker_stops_promptly_witness:
  "\<exists>r. run_step\<^sup>*\<^sup>* (run_start 0) r \<and> rl_stop r \<and> rl_point ((run_next 0 False ^^ 5) r) = Stopped"
proof -
  let ?r1 = "request_stop_first (run_start 0)"
  have "run_step (run_start 0) ?r1" "run_step ?r1 (request_stop_second ?r1)"
    by (rule run_step.Stop1, rule run_step.Stop2, simp add: request_stop_first_def)
  then have "run_step\<^sup>*\<^sup>* (run_start 0) (request_stop_second ?r1)" by (meson rtranclp.rtrancl_into_rtrancl rtranclp.rtrancl_refl)
  moreover from this have "rl_point ((run_next 0 False ^^ 5) (request_stop_second ?r1)) = Stopped"
    using worker_stops_promptly[of 0 "request_stop_second ?r1" 0] by (simp add: request_stop_first_def request_stop_second_def run_start_def)
  ultimately show ?thesis by (auto simp: request_stop_first_def request_stop_second_def)
qed

end
