(* ===== verification/Anomaly_Stats.thy ===== *)
theory Anomaly_Stats
  imports Pystring
begin

text \<open>
  The rolling statistics of \<^verbatim>\<open>anomaly/stats.py\<close>: the three rings of one entity-metric, and the engine that owns all
  entity-metrics and their open minute buckets. Floating-point numbers are reals; a checkpoint blob is the JSON
  value it holds, \<open>None\<close> when it is no JSON at all.
\<close>

section \<open>Configuration and windows\<close>

record anomaly_config =
  an_enabled :: bool
  an_tick_s :: real
  an_z_threshold :: real
  an_min_samples :: int
  an_checkpoint_interval_s :: real
  an_max_entities :: int
  an_beacon_min_events :: int
  an_beacon_min_interval_s :: real
  an_beacon_max_interval_s :: real
  an_beacon_max_cv :: real
  an_resource_tick_s :: real
  an_sustained_factor :: real
  an_sustained_ticks :: int

definition default_anomaly_config :: anomaly_config where
  "default_anomaly_config =
     \<lparr>an_enabled = True, an_tick_s = 60, an_z_threshold = 3, an_min_samples = 50, an_checkpoint_interval_s = 300,
      an_max_entities = 512, an_beacon_min_events = 12, an_beacon_min_interval_s = 5, an_beacon_max_interval_s = 3600,
      an_beacon_max_cv = 1 / 10, an_resource_tick_s = 30, an_sustained_factor = 5, an_sustained_ticks = 6\<rparr>"

definition WINDOWS :: "(string \<times> nat \<times> nat) list" where
  "WINDOWS = [(''1h'', 60, 1), (''24h'', 288, 5), (''7d'', 672, 15)]"

definition window_capacity :: "string \<Rightarrow> nat" where
  "window_capacity name = (case map_of WINDOWS name of None \<Rightarrow> 0 | Some (c, w) \<Rightarrow> c)"

definition window_width :: "string \<Rightarrow> nat" where
  "window_width name = (case map_of WINDOWS name of None \<Rightarrow> 0 | Some (c, w) \<Rightarrow> w)"

definition MIN_STDDEV :: real where "MIN_STDDEV = 1 / 10 ^ 9"

lemma window_simps [simp]:
  "window_capacity ''1h'' = 60" "window_capacity ''24h'' = 288" "window_capacity ''7d'' = 672"
  "window_width ''24h'' = 5" "window_width ''7d'' = 15"
  by (simp_all add: window_capacity_def window_width_def WINDOWS_def)

section \<open>Judging one bucket\<close>

record window_deviation =
  wd_window :: string
  wd_observed :: real
  wd_mean :: real
  wd_stddev :: real
  wd_z :: real

definition mean_of :: "real list \<Rightarrow> real" where
  "mean_of xs = sum_list xs / real (length xs)"

definition variance_of :: "real list \<Rightarrow> real" where
  "variance_of xs = (\<Sum>x\<leftarrow>xs. (x - mean_of xs)\<^sup>2) / real (length xs)"

text \<open>\<open>None\<close> is a ring that is too short, constant, or close enough. \<^verbatim>\<open>min_samples\<close> of zero with an empty ring divides
  by zero in the code; the engine's rings are judged with the configured positive value.\<close>

definition evaluate_bucket :: "int \<Rightarrow> real \<Rightarrow> string \<Rightarrow> real list \<Rightarrow> real \<Rightarrow> window_deviation option" where
  "evaluate_bucket min_samples z_threshold window ring v =
     (if int (length ring) < min_samples then None
      else let mean = mean_of ring; stddev = sqrt (variance_of ring)
           in if stddev < MIN_STDDEV then None
              else let z = (v - mean) / stddev
                   in if \<bar>z\<bar> < z_threshold then None
                      else Some \<lparr>wd_window = window, wd_observed = v, wd_mean = mean, wd_stddev = stddev, wd_z = z\<rparr>)"

section \<open>The rings of one entity-metric\<close>

record windowed_stats =
  ws_rings :: "string \<Rightarrow> real list"
  ws_accum :: "string \<Rightarrow> real \<times> int"

definition new_stats :: windowed_stats where
  "new_stats = \<lparr>ws_rings = (\<lambda>_. []), ws_accum = (\<lambda>_. (0, 0))\<rparr>"

definition ACCUM_WINDOWS :: "string list" where "ACCUM_WINDOWS = [''24h'', ''7d'']"

definition push_ring :: "string \<Rightarrow> real \<Rightarrow> windowed_stats \<Rightarrow> windowed_stats" where
  "push_ring name v ws = ws\<lparr>ws_rings := (ws_rings ws)(name := ring_push (window_capacity name) (ws_rings ws name) v)\<rparr>"

text \<open>A wider window takes the minute and closes its bucket when it has its width of them.\<close>

definition push_wide :: "int \<Rightarrow> real \<Rightarrow> real \<Rightarrow> string \<Rightarrow> windowed_stats \<Rightarrow> windowed_stats \<times> window_deviation list" where
  "push_wide min_samples z_threshold v name ws =
     (let total_v = fst (ws_accum ws name) + v; minutes = snd (ws_accum ws name) + 1
      in if minutes \<ge> int (window_width name)
         then ((push_ring name total_v ws)\<lparr>ws_accum := (ws_accum ws)(name := (0, 0))\<rparr>,
               case evaluate_bucket min_samples z_threshold name (ws_rings ws name) total_v of None \<Rightarrow> [] | Some d \<Rightarrow> [d])
         else (ws\<lparr>ws_accum := (ws_accum ws)(name := (total_v, minutes))\<rparr>, []))"

definition push_minute :: "int \<Rightarrow> real \<Rightarrow> real \<Rightarrow> windowed_stats \<Rightarrow> windowed_stats \<times> window_deviation list" where
  "push_minute min_samples z_threshold v ws =
     (let d1 = (case evaluate_bucket min_samples z_threshold ''1h'' (ws_rings ws ''1h'') v of None \<Rightarrow> [] | Some d \<Rightarrow> [d]);
          ws1 = push_ring ''1h'' v ws;
          (ws2, d2) = push_wide min_samples z_threshold v ''24h'' ws1;
          (ws3, d3) = push_wide min_samples z_threshold v ''7d'' ws2
      in (ws3, d1 @ d2 @ d3))"

section \<open>Checkpoints of one window\<close>

definition serialize_window :: "string \<Rightarrow> windowed_stats \<Rightarrow> pyval" where
  "serialize_window name ws =
     PDict ([(''ring'', PList (map PFloat (ws_rings ws name)))]
       @ (if name \<in> set ACCUM_WINDOWS then [(''accum'', PList [PFloat (fst (ws_accum ws name)), PInt (snd (ws_accum ws name))])] else []))"

text \<open>How a restore ends: done, refused, or an exception that is not among those it handles.\<close>

datatype 'a load = Load_ok 'a | Load_refused | Load_raises

text \<open>\<^verbatim>\<open>float(v)\<close>: an integer that rounds beyond the largest double raises \<^verbatim>\<open>OverflowError\<close>, which no restore handles;
  the parser of a number in a string is an argument.\<close>

fun py_float :: "(string \<Rightarrow> real option) \<Rightarrow> pyval \<Rightarrow> real load" where
  "py_float pf (PBool b) = Load_ok (if b then 1 else 0)"
| "py_float pf (PInt i) = (if \<bar>i\<bar> \<ge> 2 ^ 1024 - 2 ^ 970 then Load_raises else Load_ok (of_int i))"
| "py_float pf (PFloat r) = Load_ok r"
| "py_float pf (PStr s) = (case pf s of None \<Rightarrow> Load_refused | Some r \<Rightarrow> Load_ok r)"
| "py_float pf v = Load_refused"

fun py_floats :: "(string \<Rightarrow> real option) \<Rightarrow> pyval list \<Rightarrow> real list load" where
  "py_floats pf [] = Load_ok []"
| "py_floats pf (v # vs) =
     (case py_float pf v of
        Load_raises \<Rightarrow> Load_raises | Load_refused \<Rightarrow> Load_refused
      | Load_ok x \<Rightarrow> (case py_floats pf vs of Load_ok xs \<Rightarrow> Load_ok (x # xs) | Load_refused \<Rightarrow> Load_refused | Load_raises \<Rightarrow> Load_raises))"

text \<open>The elements a \<^verbatim>\<open>for\<close> loop sees, and \<^verbatim>\<open>v[i]\<close>; \<open>None\<close> is a \<^verbatim>\<open>TypeError\<close>, \<^verbatim>\<open>KeyError\<close> or \<^verbatim>\<open>IndexError\<close>.\<close>

fun iterate :: "pyval \<Rightarrow> pyval list option" where
  "iterate (PList xs) = Some xs"
| "iterate (PStr s) = Some (map (\<lambda>c. PStr [c]) s)"
| "iterate (PDict d) = Some (map (PStr \<circ> fst) d)"
| "iterate v = None"

fun index_at :: "pyval \<Rightarrow> nat \<Rightarrow> pyval option" where
  "index_at (PList xs) i = (if i < length xs then Some (xs ! i) else None)"
| "index_at (PStr s) i = (if i < length s then Some (PStr [s ! i]) else None)"
| "index_at v i = None"

definition load_accum :: "(string \<Rightarrow> real option) \<Rightarrow> pyval \<Rightarrow> (real \<times> int) load" where
  "load_accum pf raw =
     (case index_at raw 0 of
        None \<Rightarrow> Load_refused
      | Some a \<Rightarrow>
          (case py_float pf a of
             Load_raises \<Rightarrow> Load_raises | Load_refused \<Rightarrow> Load_refused
           | Load_ok t \<Rightarrow>
               (case Option.bind (index_at raw 1) int_of of None \<Rightarrow> Load_refused | Some n \<Rightarrow> Load_ok (t, n))))"

definition load_window :: "(string \<Rightarrow> real option) \<Rightarrow> string \<Rightarrow> pyval option \<Rightarrow> windowed_stats \<Rightarrow> windowed_stats load" where
  "load_window pf name blob ws =
     (if name \<notin> fst ` set WINDOWS then Load_refused
      else case blob of
             Some (PDict state) \<Rightarrow>
               (case Option.bind (map_of state ''ring'') iterate of
                  None \<Rightarrow> Load_refused
                | Some vs \<Rightarrow>
                    (case py_floats pf vs of
                       Load_raises \<Rightarrow> Load_raises | Load_refused \<Rightarrow> Load_refused
                     | Load_ok ring \<Rightarrow>
                         (let restored = ws\<lparr>ws_rings := (ws_rings ws)(name := last_n (window_capacity name) ring)\<rparr>
                          in if name \<notin> set ACCUM_WINDOWS then Load_ok restored
                             else case load_accum pf (case map_of state ''accum'' of None \<Rightarrow> PList [PFloat 0, PInt 0] | Some r \<Rightarrow> r) of
                                    Load_raises \<Rightarrow> Load_raises | Load_refused \<Rightarrow> Load_refused
                                  | Load_ok acc \<Rightarrow> Load_ok (restored\<lparr>ws_accum := (ws_accum ws)(name := acc)\<rparr>))))
           | _ \<Rightarrow> Load_refused)"

section \<open>The rings against the history of minutes\<close>

text \<open>The sums of the complete groups of \<open>w\<close> minutes, and the minutes after them.\<close>

definition chunk_sums :: "nat \<Rightarrow> real list \<Rightarrow> real list" where
  "chunk_sums w vs = map (\<lambda>i. sum_list (take w (drop (w * i) vs))) [0..<length vs div w]"

definition leftover :: "nat \<Rightarrow> real list \<Rightarrow> real list" where
  "leftover w vs = drop (w * (length vs div w)) vs"

definition pushes :: "int \<Rightarrow> real \<Rightarrow> real list \<Rightarrow> windowed_stats \<Rightarrow> windowed_stats" where
  "pushes min_samples z_threshold vs ws = foldl (\<lambda>s v. fst (push_minute min_samples z_threshold v s)) ws vs"

lemma length_leftover: "0 < w \<Longrightarrow> length (leftover w vs) = length vs mod w"
  by (simp add: leftover_def minus_mult_div_eq_mod)

lemma chunk_sums_snoc:
  assumes "0 < w"
  shows "chunk_sums w (vs @ [v]) = (if Suc (length vs) mod w = 0 then chunk_sums w vs @ [sum_list (leftover w vs) + v] else chunk_sums w vs)"
proof -
  let ?q = "length vs div w"
  have old: "take w (drop (w * i) (vs @ [v])) = take w (drop (w * i) vs)" if "i < ?q" for i
  proof -
    have "w * i + w \<le> w * ?q" using that by (metis Suc_leI mult_Suc_right mult_le_mono2 add.commute)
    also have "\<dots> \<le> length vs" by simp
    finally show ?thesis by simp
  qed
  show ?thesis
  proof (cases "Suc (length vs) mod w = 0")
    case True
    then have q: "Suc (length vs) div w = Suc ?q" using assms by (simp add: div_Suc)
    have "length (leftover w vs) + 1 = w"
      using True assms length_leftover[OF assms, of vs] by (metis Suc_eq_plus1 mod_Suc Zero_not_Suc)
    then have "take w (drop (w * ?q) (vs @ [v])) = leftover w vs @ [v]" by (simp add: leftover_def)
    then show ?thesis using True q old by (simp add: chunk_sums_def del: take_append drop_append)
  next
    case False
    then have "Suc (length vs) div w = ?q" using assms by (simp add: div_Suc)
    then show ?thesis using False old by (simp add: chunk_sums_def del: take_append drop_append)
  qed
qed

lemma leftover_snoc:
  assumes "0 < w"
  shows "leftover w (vs @ [v]) = (if Suc (length vs) mod w = 0 then [] else leftover w vs @ [v])"
proof (cases "Suc (length vs) mod w = 0")
  case True
  then have "w * (Suc (length vs) div w) = Suc (length vs)" by (metis mod_0_imp_dvd dvd_mult_div_cancel)
  then show ?thesis using True by (simp add: leftover_def)
next
  case False
  then show ?thesis using assms by (simp add: leftover_def div_Suc)
qed

definition wide_ok :: "nat \<Rightarrow> string \<Rightarrow> real list \<Rightarrow> windowed_stats \<Rightarrow> bool" where
  "wide_ok w name vs ws \<longleftrightarrow> ws_rings ws name = last_n (window_capacity name) (chunk_sums w vs)
     \<and> ws_accum ws name = (sum_list (leftover w vs), int (length vs mod w))"

lemma push_wide_ok:
  assumes "wide_ok w name vs ws" "window_width name = w" "0 < w"
  shows "wide_ok w name (vs @ [v]) (fst (push_wide ms z v name ws))
    \<and> snd (push_wide ms z v name ws) = (if Suc (length vs) mod w = 0
        then (case evaluate_bucket ms z name (last_n (window_capacity name) (chunk_sums w vs)) (sum_list (leftover w vs) + v) of
                None \<Rightarrow> [] | Some d \<Rightarrow> [d]) else [])"
proof -
  have "int (length vs mod w) + 1 \<ge> int w \<longleftrightarrow> Suc (length vs) mod w = 0"
    using assms(3) mod_less_divisor[OF assms(3), of "length vs"] by (auto simp: mod_Suc)
  moreover have "int (length vs mod w) + 1 = int (Suc (length vs) mod w)" if "Suc (length vs) mod w \<noteq> 0"
    using that by (auto simp: mod_Suc)
  ultimately show ?thesis using assms
    by (simp add: wide_ok_def push_wide_def push_ring_def Let_def chunk_sums_snoc leftover_snoc ring_push_last_n last_n_snoc)
qed

text \<open>The judgement of a window whose bucket closes: of the closing sum, against the ring before it.\<close>

definition judged :: "int \<Rightarrow> real \<Rightarrow> string \<Rightarrow> real list \<Rightarrow> real \<Rightarrow> window_deviation list" where
  "judged ms z name ring v = (case evaluate_bucket ms z name ring v of None \<Rightarrow> [] | Some d \<Rightarrow> [d])"

definition stats_of :: "real list \<Rightarrow> windowed_stats \<Rightarrow> bool" where
  "stats_of vs ws \<longleftrightarrow> ws_rings ws ''1h'' = last_n 60 vs \<and> wide_ok 5 ''24h'' vs ws \<and> wide_ok 15 ''7d'' vs ws"

lemma wide_ok_cong: "\<lbrakk>ws_rings ws' name = ws_rings ws name; ws_accum ws' name = ws_accum ws name\<rbrakk> \<Longrightarrow> wide_ok w name vs ws' = wide_ok w name vs ws"
  by (simp add: wide_ok_def)

lemma push_wide_frame:
  "n \<noteq> name \<Longrightarrow> ws_rings (fst (push_wide ms z v name ws)) n = ws_rings ws n"
  "n \<noteq> name \<Longrightarrow> ws_accum (fst (push_wide ms z v name ws)) n = ws_accum ws n"
  by (simp_all add: push_wide_def push_ring_def Let_def)

lemma push_ring_frame [simp]: "n \<noteq> name \<Longrightarrow> ws_rings (push_ring name v ws) n = ws_rings ws n" "ws_accum (push_ring name v ws) = ws_accum ws"
  by (simp_all add: push_ring_def)

lemma push_minute_ok:
  assumes "stats_of vs ws"
  shows "stats_of (vs @ [v]) (fst (push_minute ms z v ws))
    \<and> snd (push_minute ms z v ws) = judged ms z ''1h'' (last_n 60 vs) v
        @ (if Suc (length vs) mod 5 = 0 then judged ms z ''24h'' (last_n 288 (chunk_sums 5 vs)) (sum_list (leftover 5 vs) + v) else [])
        @ (if Suc (length vs) mod 15 = 0 then judged ms z ''7d'' (last_n 672 (chunk_sums 15 vs)) (sum_list (leftover 15 vs) + v) else [])"
proof -
  let ?w1 = "push_ring ''1h'' v ws"
  let ?w2 = "fst (push_wide ms z v ''24h'' ?w1)"
  let ?w3 = "fst (push_wide ms z v ''7d'' ?w2)"
  have w1: "wide_ok 5 ''24h'' vs ?w1" "wide_ok 15 ''7d'' vs ?w1" "ws_rings ?w1 ''1h'' = last_n 60 (vs @ [v])"
    using assms by (auto simp: stats_of_def wide_ok_def push_ring_def ring_push_last_n last_n_snoc)
  note a = push_wide_ok[OF w1(1), of v ms z]
  have w2: "wide_ok 15 ''7d'' vs ?w2" using w1(2) by (simp add: wide_ok_cong[of ?w2 "''7d''" ?w1] push_wide_frame)
  note b = push_wide_ok[OF w2, of v ms z]
  have "wide_ok 5 ''24h'' (vs @ [v]) ?w3" using a by (simp add: wide_ok_cong[of ?w3 "''24h''" ?w2] push_wide_frame)
  moreover have "ws_rings ?w3 ''1h'' = last_n 60 (vs @ [v])" using w1(3) by (simp add: push_wide_frame)
  moreover have "push_minute ms z v ws = (?w3, judged ms z ''1h'' (last_n 60 vs) v @ snd (push_wide ms z v ''24h'' ?w1) @ snd (push_wide ms z v ''7d'' ?w2))"
    using assms by (simp add: push_minute_def Let_def judged_def stats_of_def split: prod.split)
  ultimately show ?thesis using a b by (simp add: stats_of_def judged_def)
qed

lemma pushes_ok: "stats_of vs (pushes ms z vs new_stats)"
proof (induction vs rule: rev_induct)
  case Nil
  show ?case by (simp add: stats_of_def pushes_def new_stats_def wide_ok_def chunk_sums_def leftover_def last_n_def)
next
  case (snoc v vs)
  then show ?case using push_minute_ok[of vs _ v] by (simp add: pushes_def)
qed

text \<open>C40: The windows aggregate the history exactly and judge before they learn. After any sequence of minute values, the
  one-hour ring holds the last 60 of them, the wider rings hold the last 288 sums of 5 minutes and the last 672
  sums of 15 minutes, and the open buckets hold the sums of the minutes not yet complete; the next minute is judged
  against exactly these rings, so that a spike never dilutes the baseline it is judged against, and a wider window
  is judged precisely when its bucket closes.\<close>

theorem windows_aggregate_exactly:
  "stats_of vs (pushes ms z vs new_stats)
   \<and> snd (push_minute ms z v (pushes ms z vs new_stats)) = judged ms z ''1h'' (last_n 60 vs) v
        @ (if Suc (length vs) mod 5 = 0 then judged ms z ''24h'' (last_n 288 (chunk_sums 5 vs)) (sum_list (leftover 5 vs) + v) else [])
        @ (if Suc (length vs) mod 15 = 0 then judged ms z ''7d'' (last_n 672 (chunk_sums 15 vs)) (sum_list (leftover 15 vs) + v) else [])"
  using pushes_ok push_minute_ok by blast

section \<open>Restoring a window\<close>

lemma py_floats_map [simp]: "py_floats pf (map PFloat xs) = Load_ok xs"
  by (induction xs) auto

lemma load_serialized:
  assumes "name \<in> fst ` set WINDOWS" "length (ws_rings ws name) \<le> window_capacity name"
  shows "\<exists>ws'. load_window pf name (Some (serialize_window name ws)) ws0 = Load_ok ws'
    \<and> ws_rings ws' = (ws_rings ws0)(name := ws_rings ws name)
    \<and> ws_accum ws' = (if name \<in> set ACCUM_WINDOWS then (ws_accum ws0)(name := ws_accum ws name) else ws_accum ws0)"
  using assms by (auto simp: load_window_def serialize_window_def load_accum_def last_n_def Let_def)

end
