(* ===== verification/Anomaly_Engine.thy ===== *)
theory Anomaly_Engine
  imports Anomaly_Stats
begin

text \<open>
  The metric engine of \<^verbatim>\<open>anomaly/stats.py\<close>: which entities are tracked, the open minute buckets, the closing of
  minutes and the restore from checkpoints.
\<close>

section \<open>State\<close>

type_synonym metric_key = "string \<times> string"

record metric_sample =
  sm_kind :: string
  sm_key :: string
  sm_entity :: pydict
  sm_value :: real

record signal_data =
  sg_kind :: string
  sg_key :: string
  sg_entity :: pydict
  sg_deviation :: window_deviation

record metric_engine =
  en_stats :: "(metric_key, windowed_stats) table"
  en_entities :: "(metric_key, pydict) table"
  en_last_active :: "(metric_key, int) table"
  en_buckets :: "(int \<times> metric_key, real) table"
  en_last_closed :: "int option"
  en_evicted :: "metric_key list"

definition new_engine :: metric_engine where
  "new_engine = \<lparr>en_stats = [], en_entities = [], en_last_active = [], en_buckets = [], en_last_closed = None, en_evicted = []\<rparr>"

definition MAX_CATCHUP_MINUTES :: int where "MAX_CATCHUP_MINUTES = 180"

text \<open>\<^verbatim>\<open>int(ts.timestamp()) // 60\<close> of a time in microseconds.\<close>

definition minute_of :: "datetime \<Rightarrow> int" where
  "minute_of ts = (if ts < 0 then - (- ts div 1000000) else ts div 1000000) div 60"

section \<open>Admission\<close>

definition tracked :: "string \<Rightarrow> metric_engine \<Rightarrow> metric_key list" where
  "tracked kind en = filter (\<lambda>k. fst k = kind) (keys (en_stats en))"

definition last_active :: "metric_engine \<Rightarrow> metric_key \<Rightarrow> int" where
  "last_active en k = (case map_of (en_last_active en) k of None \<Rightarrow> - 1 | Some m \<Rightarrow> m)"

definition evict :: "metric_key \<Rightarrow> metric_engine \<Rightarrow> metric_engine" where
  "evict victim en =
     en\<lparr>en_stats := AList.delete victim (en_stats en), en_entities := AList.delete victim (en_entities en),
        en_last_active := AList.delete victim (en_last_active en), en_evicted := en_evicted en @ [victim],
        en_buckets := delete_where (\<lambda>b _. snd b = victim) (en_buckets en)\<rparr>"

definition enter :: "metric_key \<Rightarrow> pydict \<Rightarrow> metric_engine \<Rightarrow> metric_engine" where
  "enter k entity en =
     en\<lparr>en_stats := AList.update k new_stats (en_stats en), en_entities := AList.update k entity (en_entities en),
        en_last_active := (if k \<in> set (keys (en_last_active en)) then en_last_active en else AList.update k (- 1) (en_last_active en))\<rparr>"

text \<open>\<open>None\<close> is the \<^verbatim>\<open>ValueError\<close> of a minimum over nothing, when the cap is not positive.\<close>

definition admit :: "anomaly_config \<Rightarrow> metric_key \<Rightarrow> pydict \<Rightarrow> metric_engine \<Rightarrow> metric_engine option" where
  "admit cfg k entity en =
     (let ks = tracked (fst k) en
      in if int (length ks) \<ge> an_max_entities cfg
         then (if ks = [] then None else Some (enter k entity (evict (arg_min_list (last_active en) ks) en)))
         else Some (enter k entity en))"

section \<open>Ingesting and closing\<close>

definition heal :: "metric_key \<Rightarrow> pydict \<Rightarrow> metric_engine \<Rightarrow> metric_engine" where
  "heal k entity en = (if map_of (en_entities en) k = Some [] then en\<lparr>en_entities := AList.update k entity (en_entities en)\<rparr> else en)"

definition count_sample :: "metric_key \<Rightarrow> real \<Rightarrow> int \<Rightarrow> metric_engine \<Rightarrow> metric_engine" where
  "count_sample k v minute en =
     (let m = (case en_last_closed en of Some c \<Rightarrow> if minute \<le> c then c + 1 else minute | None \<Rightarrow> minute)
      in en\<lparr>en_last_active := AList.update k m (en_last_active en),
            en_buckets := AList.update (m, k) ((case map_of (en_buckets en) (m, k) of None \<Rightarrow> 0 | Some b \<Rightarrow> b) + v) (en_buckets en)\<rparr>)"

definition ingest :: "anomaly_config \<Rightarrow> metric_sample \<Rightarrow> datetime \<Rightarrow> metric_engine \<Rightarrow> metric_engine option" where
  "ingest cfg sm ts en =
     (let k = (sm_kind sm, sm_key sm)
      in map_option (count_sample k (sm_value sm) (minute_of ts))
           (if k \<notin> set (keys (en_stats en)) then admit cfg k (sm_entity sm) en else Some (heal k (sm_entity sm) en)))"

definition bucket_value :: "metric_engine \<Rightarrow> int \<Rightarrow> metric_key \<Rightarrow> real" where
  "bucket_value en m k = (case map_of (en_buckets en) (m, k) of None \<Rightarrow> 0 | Some v \<Rightarrow> v)"

definition entity_of :: "metric_engine \<Rightarrow> metric_key \<Rightarrow> pydict" where
  "entity_of en k = (case map_of (en_entities en) k of None \<Rightarrow> [] | Some e \<Rightarrow> e)"

text \<open>One minute: every tracked entity is pushed its bucket or zero. The entities are independent of each other, so the
  buckets of the minute leave together.\<close>

definition push_entity :: "anomaly_config \<Rightarrow> metric_engine \<Rightarrow> int \<Rightarrow> metric_key \<times> windowed_stats \<Rightarrow> windowed_stats \<times> window_deviation list" where
  "push_entity cfg en m = (\<lambda>(k, ws). push_minute (an_min_samples cfg) (an_z_threshold cfg) (bucket_value en m k) ws)"

definition minute_signals :: "anomaly_config \<Rightarrow> metric_engine \<Rightarrow> int \<Rightarrow> signal_data list" where
  "minute_signals cfg en m =
     concat (map (\<lambda>kw. map (\<lambda>d. \<lparr>sg_kind = fst (fst kw), sg_key = snd (fst kw), sg_entity = entity_of en (fst kw), sg_deviation = d\<rparr>)
                         (snd (push_entity cfg en m kw))) (en_stats en))"

definition close_minute :: "anomaly_config \<Rightarrow> int \<Rightarrow> metric_engine \<Rightarrow> metric_engine" where
  "close_minute cfg m en =
     en\<lparr>en_stats := map (\<lambda>kw. (fst kw, fst (push_entity cfg en m kw))) (en_stats en),
        en_buckets := delete_where (\<lambda>b _. fst b = m \<and> snd b \<in> set (keys (en_stats en))) (en_buckets en),
        en_last_closed := Some m\<rparr>"

fun close_minutes :: "anomaly_config \<Rightarrow> nat \<Rightarrow> int \<Rightarrow> metric_engine \<Rightarrow> metric_engine \<times> signal_data list" where
  "close_minutes cfg 0 m en = (en, [])"
| "close_minutes cfg (Suc n) m en =
     (case close_minutes cfg n (m + 1) (close_minute cfg m en) of (en', sigs) \<Rightarrow> (en', minute_signals cfg en m @ sigs))"

text \<open>Where the closing starts: on the first tick at the earliest open bucket.\<close>

definition first_open :: "int \<Rightarrow> metric_engine \<Rightarrow> int" where
  "first_open current en =
     (case en_last_closed en of
        Some c \<Rightarrow> c + 1
      | None \<Rightarrow> if en_buckets en = [] then current else Min ((fst \<circ> fst) ` set (en_buckets en)))"

definition skip_downtime :: "int \<Rightarrow> metric_engine \<Rightarrow> metric_engine" where
  "skip_downtime current en =
     en\<lparr>en_buckets := delete_where (\<lambda>b _. fst b < current) (en_buckets en), en_last_closed := Some (current - 1)\<rparr>"

definition engine_tick :: "anomaly_config \<Rightarrow> datetime \<Rightarrow> metric_engine \<Rightarrow> metric_engine \<times> signal_data list" where
  "engine_tick cfg now en =
     (let current = minute_of now; start = first_open current en
      in if current - start > MAX_CATCHUP_MINUTES then (skip_downtime current en, [])
         else close_minutes cfg (nat (current - start)) start (en\<lparr>en_last_closed := Some (start - 1)\<rparr>))"

definition drain_evicted :: "metric_engine \<Rightarrow> metric_engine \<times> metric_key list" where
  "drain_evicted en = (en\<lparr>en_evicted := []\<rparr>, en_evicted en)"

section \<open>Checkpoints\<close>

type_synonym checkpoint_row = "string \<times> string \<times> string \<times> pyval"

definition engine_rows :: "metric_engine \<Rightarrow> checkpoint_row list" where
  "engine_rows en =
     concat (map (\<lambda>((kind, key), ws).
        map (\<lambda>(name, _). (kind, key, name, serialize_window name ws)) WINDOWS
        @ (if entity_of en (kind, key) = [] then [] else [(kind, key, ''entity'', PDict (entity_of en (kind, key)))])) (en_stats en))"

definition entity_blob :: "pyval option \<Rightarrow> pydict option" where
  "entity_blob blob =
     (case blob of
        Some (PDict e) \<Rightarrow> if list_all (\<lambda>(_, v). case v of PDict _ \<Rightarrow> True | _ \<Rightarrow> False) e then Some e else None
      | _ \<Rightarrow> None)"

definition load_entity_row :: "anomaly_config \<Rightarrow> metric_key \<Rightarrow> pyval option \<Rightarrow> metric_engine \<Rightarrow> metric_engine load" where
  "load_entity_row cfg k blob en =
     (case entity_blob blob of
        None \<Rightarrow> Load_refused
      | Some e \<Rightarrow>
          if k \<notin> set (keys (en_stats en)) then (case admit cfg k e en of None \<Rightarrow> Load_raises | Some en' \<Rightarrow> Load_ok en')
          else Load_ok (en\<lparr>en_entities := AList.update k e (en_entities en)\<rparr>))"

definition forget :: "metric_key \<Rightarrow> metric_engine \<Rightarrow> metric_engine" where
  "forget k en = en\<lparr>en_stats := AList.delete k (en_stats en), en_entities := AList.delete k (en_entities en),
     en_last_active := AList.delete k (en_last_active en)\<rparr>"

text \<open>The state is returned also with a refusal: admitting a new key may have evicted another before its window turned
  out to be unreadable.\<close>

definition load_engine_row ::
  "(string \<Rightarrow> real option) \<Rightarrow> anomaly_config \<Rightarrow> metric_key \<Rightarrow> string \<Rightarrow> pyval option \<Rightarrow> metric_engine \<Rightarrow> metric_engine \<times> unit load" where
  "load_engine_row pf cfg k window blob en =
     (if window = ''entity'' then
        (case load_entity_row cfg k blob en of Load_ok en' \<Rightarrow> (en', Load_ok ()) | Load_refused \<Rightarrow> (en, Load_refused) | Load_raises \<Rightarrow> (en, Load_raises))
      else let created = (k \<notin> set (keys (en_stats en)))
           in case (if created then admit cfg k [] en else Some en) of
                None \<Rightarrow> (en, Load_raises)
              | Some en1 \<Rightarrow>
                  (case load_window pf window blob (case map_of (en_stats en1) k of None \<Rightarrow> new_stats | Some ws \<Rightarrow> ws) of
                     Load_ok ws \<Rightarrow> (en1\<lparr>en_stats := AList.update k ws (en_stats en1)\<rparr>, Load_ok ())
                   | Load_refused \<Rightarrow> (if created then forget k en1 else en1, Load_refused)
                   | Load_raises \<Rightarrow> (en1, Load_raises)))"

section \<open>The invariant\<close>

text \<open>The tables agree on the tracked keys, no metric tracks more than the cap, every open bucket belongs to a tracked key and
  to a minute that is still open, and rings respect their capacities.\<close>

definition rings_ok :: "windowed_stats \<Rightarrow> bool" where
  "rings_ok ws \<longleftrightarrow> (\<forall>name\<in>fst ` set WINDOWS. length (ws_rings ws name) \<le> window_capacity name)"

definition buckets_open :: "metric_engine \<Rightarrow> bool" where
  "buckets_open en \<longleftrightarrow> wf_table (en_buckets en) \<and> (\<forall>b. b \<in> set (keys (en_buckets en)) \<longrightarrow>
     snd b \<in> set (keys (en_stats en)) \<and> (\<forall>c. en_last_closed en = Some c \<longrightarrow> c < fst b))"

lemma buckets_openD:
  assumes "buckets_open en" "b \<in> fst ` set (en_buckets en)"
  shows "snd b \<in> fst ` set (en_stats en) \<and> (\<forall>c. en_last_closed en = Some c \<longrightarrow> c < fst b)"
  using assms unfolding buckets_open_def set_map by blast

lemma buckets_openI:
  assumes "wf_table (en_buckets en)"
    and "\<And>b. b \<in> fst ` set (en_buckets en) \<Longrightarrow> snd b \<in> fst ` set (en_stats en) \<and> (\<forall>c. en_last_closed en = Some c \<longrightarrow> c < fst b)"
  shows "buckets_open en"
  using assms unfolding buckets_open_def set_map by blast

definition engine_inv :: "anomaly_config \<Rightarrow> metric_engine \<Rightarrow> bool" where
  "engine_inv cfg en \<longleftrightarrow>
     wf_table (en_stats en) \<and> wf_table (en_entities en) \<and> set (keys (en_entities en)) = set (keys (en_stats en))
     \<and> set (keys (en_last_active en)) = set (keys (en_stats en))
     \<and> (\<forall>kind. int (length (tracked kind en)) \<le> max 0 (an_max_entities cfg))
     \<and> (\<forall>ws\<in>snd ` set (en_stats en). rings_ok ws) \<and> buckets_open en"

lemma new_stats_ok [simp]: "rings_ok new_stats"
  by (simp add: rings_ok_def new_stats_def)

lemma push_ring_ok: "rings_ok ws \<Longrightarrow> rings_ok (push_ring name v ws)"
  by (auto simp: rings_ok_def push_ring_def)

lemma rings_ok_accum [simp]: "rings_ok (ws\<lparr>ws_accum := a\<rparr>) = rings_ok ws"
  by (simp add: rings_ok_def)

lemma push_wide_rings: "rings_ok ws \<Longrightarrow> rings_ok (fst (push_wide ms z v name ws))"
  by (simp add: push_wide_def Let_def push_ring_ok)

lemma push_minute_rings: "rings_ok ws \<Longrightarrow> rings_ok (fst (push_minute ms z v ws))"
proof -
  assume "rings_ok ws"
  then have "rings_ok (fst (push_wide ms z v ''7d'' (fst (push_wide ms z v ''24h'' (push_ring ''1h'' v ws)))))"
    by (intro push_wide_rings push_ring_ok)
  then show ?thesis by (auto simp: push_minute_def Let_def split: prod.split)
qed

lemma load_window_rings: "\<lbrakk>load_window pf name blob ws = Load_ok ws'; rings_ok ws\<rbrakk> \<Longrightarrow> rings_ok ws'"
  by (auto simp: load_window_def rings_ok_def Let_def length_last_n split: if_splits option.splits pyval.splits load.splits)

section \<open>Admission keeps the invariant\<close>

lemma tracked_update_new: "k \<notin> set (keys t) \<Longrightarrow> keys (AList.update k v t) = keys t @ [k]"
  by (induction t) auto

lemma tracked_enter:
  "k \<notin> set (keys (en_stats en)) \<Longrightarrow> tracked kind (enter k e en) = tracked kind en @ (if fst k = kind then [k] else [])"
  by (simp add: tracked_def enter_def tracked_update_new)

lemma keys_delete: "keys (AList.delete k t) = filter (\<lambda>x. x \<noteq> k) (keys t)"
  by (induction t) auto

lemma keys_delete_set: "fst ` set (AList.delete k t) = fst ` set t - {k}"
  by (induction t) auto

lemma keys_delete_where: "fst ` set (delete_where (\<lambda>b _. P b) t) = {b \<in> fst ` set t. \<not> P b}"
  by (induction t) (auto simp: delete_where_def)

lemma keys_update: "fst ` set (AList.update k v t) = insert k (fst ` set t)"
  by (induction t) auto

lemma tracked_evict: "tracked kind (evict v en) = filter (\<lambda>x. x \<noteq> v) (tracked kind en)"
  by (simp add: tracked_def evict_def keys_delete conj_commute)

lemma rings_update: "\<lbrakk>\<forall>x\<in>set t. rings_ok (snd x); rings_ok w\<rbrakk> \<Longrightarrow> \<forall>x\<in>set (AList.update k w t). rings_ok (snd x)"
  by (induction t) auto

lemma rings_delete: "\<forall>x\<in>set t. rings_ok (snd x) \<Longrightarrow> \<forall>x\<in>set (AList.delete k t). rings_ok (snd x)"
  by (induction t) auto

lemmas engine_keys = keys_delete_set keys_delete_where keys_update

text \<open>Eviction keeps everything but the victim.\<close>

lemma evict_inv: "engine_inv cfg en \<Longrightarrow> engine_inv cfg (evict v en)"
proof -
  assume inv: "engine_inv cfg en"
  have "int (length (tracked kind (evict v en))) \<le> max 0 (an_max_entities cfg)" for kind
  proof -
    have "length (tracked kind (evict v en)) \<le> length (tracked kind en)" by (simp add: tracked_evict)
    then show ?thesis using inv unfolding engine_inv_def by (meson of_nat_le_iff order_trans)
  qed
  moreover have "buckets_open (evict v en)"
  proof (rule buckets_openI)
    show "wf_table (en_buckets (evict v en))" using inv by (simp add: engine_inv_def buckets_open_def evict_def)
    fix b assume "b \<in> fst ` set (en_buckets (evict v en))"
    then have "b \<in> fst ` set (en_buckets en)" "snd b \<noteq> v" by (simp_all add: evict_def engine_keys)
    then show "snd b \<in> fst ` set (en_stats (evict v en)) \<and> (\<forall>c. en_last_closed (evict v en) = Some c \<longrightarrow> c < fst b)"
      using inv buckets_openD[of en b] by (simp add: engine_inv_def evict_def engine_keys)
  qed
  moreover have "\<forall>ws\<in>snd ` set (en_stats (evict v en)). rings_ok ws"
    using inv rings_delete[of "en_stats en" v] by (simp add: engine_inv_def evict_def)
  ultimately show ?thesis using inv by (auto simp: engine_inv_def evict_def engine_keys)
qed

lemma enter_inv:
  assumes "engine_inv cfg en" "k \<notin> set (keys (en_stats en))" "int (length (tracked (fst k) en)) < an_max_entities cfg"
  shows "engine_inv cfg (enter k e en)"
proof -
  have "int (length (tracked kind (enter k e en))) \<le> max 0 (an_max_entities cfg)" for kind
    using assms by (cases "kind = fst k") (auto simp: tracked_enter engine_inv_def)
  moreover have "buckets_open (enter k e en)" using assms(1) by (auto simp: engine_inv_def buckets_open_def enter_def engine_keys)
  moreover have "\<forall>ws\<in>snd ` set (en_stats (enter k e en)). rings_ok ws"
    using assms(1) rings_update[of "en_stats en" new_stats k] by (simp add: engine_inv_def enter_def)
  ultimately show ?thesis using assms(1) by (auto simp: engine_inv_def enter_def engine_keys)
qed

lemma arg_min_list_mem: "xs \<noteq> [] \<Longrightarrow> arg_min_list f xs \<in> set xs"
  by (rule arg_min_list_in)

lemma admit_cases:
  assumes "admit cfg k e en = Some en'" "engine_inv cfg en" "k \<notin> set (keys (en_stats en))"
  shows "\<exists>en1. en' = enter k e en1 \<and> engine_inv cfg en1 \<and> k \<notin> set (keys (en_stats en1))
    \<and> int (length (tracked (fst k) en1)) < an_max_entities cfg \<and> (en1 = en \<or> (\<exists>v. en1 = evict v en))"
proof (cases "int (length (tracked (fst k) en)) \<ge> an_max_entities cfg")
  case False
  then show ?thesis using assms by (auto simp: admit_def Let_def)
next
  case True
  let ?ks = "tracked (fst k) en"
  let ?v = "arg_min_list (last_active en) ?ks"
  have ne: "?ks \<noteq> []" and en': "en' = enter k e (evict ?v en)" using assms(1) True by (auto simp: admit_def Let_def split: if_splits)
  have v: "?v \<in> set ?ks" by (rule arg_min_list_mem[OF ne])
  have "length (filter (\<lambda>x. x \<noteq> ?v) ?ks) < length ?ks" using v by (rule length_filter_less) simp
  moreover have "int (length ?ks) \<le> max 0 (an_max_entities cfg)" using assms(2) by (simp add: engine_inv_def)
  then have "int (length ?ks) \<le> an_max_entities cfg" using ne by (auto simp: max_def split: if_splits)
  ultimately have "int (length (tracked (fst k) (evict ?v en))) < an_max_entities cfg" by (simp add: tracked_evict)
  moreover have "k \<notin> set (keys (en_stats (evict ?v en)))" using assms(3) by (auto simp: evict_def engine_keys)
  ultimately show ?thesis using en' evict_inv[OF assms(2)] by blast
qed

lemma admit_inv: "\<lbrakk>admit cfg k e en = Some en'; engine_inv cfg en; k \<notin> set (keys (en_stats en))\<rbrakk> \<Longrightarrow> engine_inv cfg en' \<and> k \<in> set (keys (en_stats en'))"
  by (auto dest!: admit_cases intro!: enter_inv simp: enter_def engine_keys)

section \<open>The other operations\<close>

lemma heal_inv: "\<lbrakk>engine_inv cfg en; k \<in> set (keys (en_stats en))\<rbrakk> \<Longrightarrow> engine_inv cfg (heal k e en)"
  by (auto simp: heal_def engine_inv_def tracked_def buckets_open_def engine_keys)

lemma count_sample_inv: "\<lbrakk>engine_inv cfg en; k \<in> set (keys (en_stats en))\<rbrakk> \<Longrightarrow> engine_inv cfg (count_sample k v m en)"
  by (auto simp: count_sample_def engine_inv_def tracked_def buckets_open_def engine_keys Let_def split: option.splits)

lemma heal_keys [simp]: "en_stats (heal k e en) = en_stats en"
  by (simp add: heal_def)

lemma ingest_inv:
  assumes "ingest cfg sm ts en = Some en'" "engine_inv cfg en"
  shows "engine_inv cfg en'"
proof -
  let ?k = "(sm_kind sm, sm_key sm)"
  obtain en1 where en1: "en' = count_sample ?k (sm_value sm) (minute_of ts) en1"
    "(if ?k \<notin> set (keys (en_stats en)) then admit cfg ?k (sm_entity sm) en else Some (heal ?k (sm_entity sm) en)) = Some en1"
    using assms(1) by (auto simp: ingest_def Let_def)
  have "engine_inv cfg en1 \<and> ?k \<in> set (keys (en_stats en1))"
    using en1(2) assms(2) admit_inv[of cfg ?k "sm_entity sm" en en1] heal_inv[of cfg en ?k "sm_entity sm"]
    by (cases "?k \<in> set (keys (en_stats en))") auto
  then show ?thesis using en1(1) count_sample_inv by blast
qed

section \<open>Closing minutes\<close>

lemma close_minute_keys [simp]: "keys (en_stats (close_minute cfg m en)) = keys (en_stats en)"
  "en_entities (close_minute cfg m en) = en_entities en" "en_last_active (close_minute cfg m en) = en_last_active en"
  "en_last_closed (close_minute cfg m en) = Some m"
  by (simp_all add: close_minute_def comp_def)

lemma tracked_close [simp]: "tracked kind (close_minute cfg m en) = tracked kind en"
  by (simp add: tracked_def)

text \<open>Minutes are closed in order: before minute \<open>m\<close> everything earlier is closed.\<close>

definition closing_at :: "int \<Rightarrow> metric_engine \<Rightarrow> bool" where
  "closing_at m en \<longleftrightarrow> en_last_closed en = Some (m - 1)"

lemma close_minute_inv:
  assumes "engine_inv cfg en" "closing_at m en"
  shows "engine_inv cfg (close_minute cfg m en)"
proof -
  have b: "buckets_open en" using assms(1) by (simp add: engine_inv_def)
  have "buckets_open (close_minute cfg m en)"
  proof (rule buckets_openI)
    show "wf_table (en_buckets (close_minute cfg m en))" using b by (simp add: buckets_open_def close_minute_def)
    fix x assume "x \<in> fst ` set (en_buckets (close_minute cfg m en))"
    then have "x \<in> fst ` set (en_buckets en)" "\<not> (fst x = m \<and> snd x \<in> fst ` set (en_stats en))" by (simp_all add: close_minute_def engine_keys)
    then show "snd x \<in> fst ` set (en_stats (close_minute cfg m en)) \<and> (\<forall>c. en_last_closed (close_minute cfg m en) = Some c \<longrightarrow> c < fst x)"
      using buckets_openD[OF b, of x] assms(2) by (auto simp: closing_at_def close_minute_def image_image)
  qed
  moreover have "\<forall>ws\<in>snd ` set (en_stats (close_minute cfg m en)). rings_ok ws"
    using assms(1) by (auto simp: engine_inv_def close_minute_def push_entity_def intro!: push_minute_rings)
  ultimately show ?thesis using assms(1) by (simp add: engine_inv_def)
qed

lemma close_minute_stats:
  "map_of (en_stats (close_minute cfg m en)) k = map_option (\<lambda>ws. fst (push_minute (an_min_samples cfg) (an_z_threshold cfg) (bucket_value en m k) ws))
     (map_of (en_stats en) k)"
proof -
  have "map_of (map (\<lambda>kw. (fst kw, fst (push_entity cfg en m kw))) t) k
      = map_option (\<lambda>ws. fst (push_minute (an_min_samples cfg) (an_z_threshold cfg) (bucket_value en m k) ws)) (map_of t k)" for t
    by (induction t) (auto simp: push_entity_def)
  then show ?thesis by (simp add: close_minute_def)
qed

lemma close_minute_buckets:
  assumes "engine_inv cfg en" "m' \<noteq> m"
  shows "bucket_value (close_minute cfg m en) m' k = bucket_value en m' k"
  using assms by (simp add: bucket_value_def close_minute_def map_of_delete_where engine_inv_def buckets_open_def split: option.split)

lemma close_minute_drops:
  assumes "engine_inv cfg en"
  shows "en_buckets (close_minute cfg m en) = delete_where (\<lambda>b _. fst b = m) (en_buckets en)"
proof -
  have "snd (fst x) \<in> set (keys (en_stats en))" if "x \<in> set (en_buckets en)" for x
    using assms buckets_openD[of en "fst x"] that by (simp add: engine_inv_def)
  then have "filter (\<lambda>(b, r). \<not> (fst b = m \<and> snd b \<in> set (keys (en_stats en)))) (en_buckets en) = filter (\<lambda>(b, r). fst b \<noteq> m) (en_buckets en)"
    by (intro filter_cong) fastforce+
  then show ?thesis by (simp add: close_minute_def delete_where_def)
qed

text \<open>A whole span: every entity is pushed its bucket of every minute in order, and exactly the buckets of the span are gone.\<close>

lemma close_minutes_effect:
  assumes "engine_inv cfg en" "closing_at m en" "close_minutes cfg n m en = (en', sigs)"
  shows "engine_inv cfg en' \<and> en_last_closed en' = Some (m + int n - 1) \<and> keys (en_stats en') = keys (en_stats en)
    \<and> en_entities en' = en_entities en
    \<and> (\<forall>k. map_of (en_stats en') k = map_option (pushes (an_min_samples cfg) (an_z_threshold cfg)
          (map (\<lambda>i. bucket_value en (m + int i) k) [0..<n])) (map_of (en_stats en) k))
    \<and> en_buckets en' = delete_where (\<lambda>b _. m \<le> fst b \<and> fst b < m + int n) (en_buckets en)"
  using assms
proof (induction n arbitrary: m en en' sigs)
  case 0
  then show ?case by (simp add: pushes_def closing_at_def delete_where_def option.map_ident)
next
  case (Suc n)
  let ?e1 = "close_minute cfg m en"
  obtain sigs1 where c: "close_minutes cfg n (m + 1) ?e1 = (en', sigs1)" using Suc.prems(3) by (auto split: prod.splits)
  have inv1: "engine_inv cfg ?e1" by (rule close_minute_inv[OF Suc.prems(1,2)])
  have "closing_at (m + 1) ?e1" by (simp add: closing_at_def)
  note ih = Suc.IH[OF inv1 this c]
  have vals: "bucket_value ?e1 (m + 1 + int i) k = bucket_value en (m + int (Suc i)) k" for i k
    using close_minute_buckets[OF Suc.prems(1), of "m + 1 + int i" m k] by (simp add: algebra_simps)
  have "[0..<Suc n] = 0 # map Suc [0..<n]" by (simp add: upt_conv_Cons map_Suc_upt del: upt_Suc)
  then have step: "pushes ms z (map (\<lambda>i. bucket_value en (m + int i) k) [0..<Suc n]) ws
      = pushes ms z (map (\<lambda>i. bucket_value ?e1 (m + 1 + int i) k) [0..<n]) (fst (push_minute ms z (bucket_value en m k) ws))" for ms z k ws
    by (simp add: pushes_def vals comp_def)
  have "map_of (en_stats en') k = map_option (pushes (an_min_samples cfg) (an_z_threshold cfg)
      (map (\<lambda>i. bucket_value ?e1 (m + 1 + int i) k) [0..<n])) (map_of (en_stats ?e1) k)" for k using ih by blast
  then have stats: "map_of (en_stats en') k = map_option (pushes (an_min_samples cfg) (an_z_threshold cfg)
          (map (\<lambda>i. bucket_value en (m + int i) k) [0..<Suc n])) (map_of (en_stats en) k)" for k
    unfolding step close_minute_stats by (simp add: option.map_comp comp_def)
  have "en_buckets en' = delete_where (\<lambda>b _. m \<le> fst b \<and> fst b < m + int (Suc n)) (en_buckets en)"
    using ih by (auto simp: close_minute_drops[OF Suc.prems(1)] delete_where_def intro!: filter_cong)
  then show ?case using ih stats by (simp del: upt_Suc)
qed

section \<open>A tick\<close>

lemma first_open_inv: "engine_inv cfg en \<Longrightarrow> engine_inv cfg (en\<lparr>en_last_closed := Some (first_open current en - 1)\<rparr>)"
proof -
  assume inv: "engine_inv cfg en"
  let ?e = "en\<lparr>en_last_closed := Some (first_open current en - 1)\<rparr>"
  have b: "buckets_open en" using inv by (simp add: engine_inv_def)
  have "buckets_open ?e"
  proof (rule buckets_openI)
    show "wf_table (en_buckets ?e)" using b by (simp add: buckets_open_def)
    fix x assume x: "x \<in> fst ` set (en_buckets ?e)"
    then have "fst x \<in> (fst \<circ> fst) ` set (en_buckets en)" by (auto simp: image_comp[symmetric])
    then have "Min ((fst \<circ> fst) ` set (en_buckets en)) \<le> fst x" by (intro Min_le) auto
    then show "snd x \<in> fst ` set (en_stats ?e) \<and> (\<forall>c. en_last_closed ?e = Some c \<longrightarrow> c < fst x)"
      using buckets_openD[OF b, of x] x by (auto simp: first_open_def split: option.splits)
  qed
  then show ?thesis using inv by (simp add: engine_inv_def tracked_def)
qed

lemma skip_inv: "engine_inv cfg en \<Longrightarrow> engine_inv cfg (skip_downtime current en)"
proof -
  assume inv: "engine_inv cfg en"
  then have b: "buckets_open en" by (simp add: engine_inv_def)
  have "buckets_open (skip_downtime current en)"
  proof (rule buckets_openI)
    show "wf_table (en_buckets (skip_downtime current en))" using b by (simp add: buckets_open_def skip_downtime_def)
    fix x assume "x \<in> fst ` set (en_buckets (skip_downtime current en))"
    then have "x \<in> fst ` set (en_buckets en)" "current \<le> fst x" by (simp_all add: skip_downtime_def engine_keys)
    then show "snd x \<in> fst ` set (en_stats (skip_downtime current en)) \<and> (\<forall>c. en_last_closed (skip_downtime current en) = Some c \<longrightarrow> c < fst x)"
      using buckets_openD[OF b, of x] by (simp add: skip_downtime_def)
  qed
  then show ?thesis using inv by (simp add: engine_inv_def tracked_def skip_downtime_def)
qed

lemma buckets_not_before: "\<lbrakk>engine_inv cfg en; x \<in> set (en_buckets en)\<rbrakk> \<Longrightarrow> first_open current en \<le> fst (fst x)"
  using buckets_openD[of "en\<lparr>en_last_closed := Some (first_open current en - 1)\<rparr>" "fst x"] first_open_inv[of cfg en current]
  by (simp add: engine_inv_def)

lemma engine_tick_effect:
  assumes "engine_inv cfg en" "engine_tick cfg now en = (en', sigs)"
  shows "engine_inv cfg en'
    \<and> en_last_closed en' = Some (max (first_open (minute_of now) en) (minute_of now) - 1)
    \<and> en_buckets en' = delete_where (\<lambda>b _. fst b < minute_of now) (en_buckets en)
    \<and> (if minute_of now - first_open (minute_of now) en \<le> MAX_CATCHUP_MINUTES
       then \<forall>k. map_of (en_stats en') k = map_option (pushes (an_min_samples cfg) (an_z_threshold cfg)
              (map (\<lambda>i. bucket_value en (first_open (minute_of now) en + int i) k) [0..<nat (minute_of now - first_open (minute_of now) en)]))
              (map_of (en_stats en) k)
       else en_stats en' = en_stats en \<and> sigs = [])"
proof (cases "minute_of now - first_open (minute_of now) en \<le> MAX_CATCHUP_MINUTES")
  case False
  then show ?thesis using assms skip_inv[OF assms(1), of "minute_of now"] by (auto simp: engine_tick_def Let_def skip_downtime_def MAX_CATCHUP_MINUTES_def)
next
  case True
  let ?s = "first_open (minute_of now) en" and ?n = "nat (minute_of now - first_open (minute_of now) en)"
  let ?e = "en\<lparr>en_last_closed := Some (?s - 1)\<rparr>"
  have c: "close_minutes cfg ?n ?s ?e = (en', sigs)" using assms(2) True by (simp add: engine_tick_def Let_def)
  have "closing_at ?s ?e" by (simp add: closing_at_def)
  note eff = close_minutes_effect[OF first_open_inv[OF assms(1)] this c]
  have vals: "bucket_value ?e m k = bucket_value en m k" for m k by (simp add: bucket_value_def)
  have "delete_where (\<lambda>b _. ?s \<le> fst b \<and> fst b < ?s + int ?n) (en_buckets en) = delete_where (\<lambda>b _. fst b < minute_of now) (en_buckets en)"
    unfolding delete_where_def
  proof (rule filter_cong[OF refl])
    fix x assume "x \<in> set (en_buckets en)"
    then have "?s \<le> fst (fst x)" by (rule buckets_not_before[OF assms(1)])
    then show "(case x of (b, _) \<Rightarrow> \<not> (?s \<le> fst b \<and> fst b < ?s + int ?n)) = (case x of (b, _) \<Rightarrow> \<not> fst b < minute_of now)"
      by (cases x) auto
  qed
  moreover have "?s + int ?n - 1 = max ?s (minute_of now) - 1" by simp
  ultimately show ?thesis using eff True by (simp add: vals)
qed

section \<open>Restoring keeps the invariant\<close>

lemma update_keys_old: "k \<in> fst ` set t \<Longrightarrow> keys (AList.update k v t) = keys t"
  by (induction t) auto

lemma delete_update_new: "k \<notin> fst ` set t \<Longrightarrow> AList.delete k (AList.update k v t) = t"
  by (induction t) auto

lemma update_stats_inv:
  assumes "engine_inv cfg en" "k \<in> set (keys (en_stats en))" "rings_ok ws"
  shows "engine_inv cfg (en\<lparr>en_stats := AList.update k ws (en_stats en)\<rparr>)"
proof -
  have "keys (AList.update k ws (en_stats en)) = keys (en_stats en)" using assms(2) by (simp add: update_keys_old)
  moreover have "\<forall>w\<in>snd ` set (AList.update k ws (en_stats en)). rings_ok w"
    using assms rings_update[of "en_stats en" ws k] by (simp add: engine_inv_def)
  ultimately show ?thesis using assms unfolding engine_inv_def tracked_def buckets_open_def by simp
qed

lemma forget_new:
  assumes "engine_inv cfg en1" "k \<notin> set (keys (en_stats en1))"
  shows "engine_inv cfg (forget k (enter k e en1))"
proof -
  have "forget k (enter k e en1) = en1"
    using assms by (simp add: forget_def enter_def engine_inv_def delete_update_new)
  then show ?thesis using assms(1) by simp
qed

lemma load_engine_row_inv: "engine_inv cfg en \<Longrightarrow> engine_inv cfg (fst (load_engine_row pf cfg k window blob en))"
proof -
  assume inv: "engine_inv cfg en"
  show ?thesis
  proof (cases "window = ''entity''")
    case True
    have "engine_inv cfg (en\<lparr>en_entities := AList.update k e (en_entities en)\<rparr>)" if "k \<in> set (keys (en_stats en))" for e
      using inv that by (simp add: engine_inv_def tracked_def buckets_open_def engine_keys) blast
    then show ?thesis using True inv admit_inv[OF _ inv, of k]
      by (auto simp: load_engine_row_def load_entity_row_def split: option.split load.splits if_splits)
  next
    case window: False
    let ?adm = "if k \<notin> set (keys (en_stats en)) then admit cfg k [] en else Some en"
    show ?thesis
    proof (cases ?adm)
      case None
      then show ?thesis using window inv by (simp add: load_engine_row_def Let_def)
    next
      case (Some en1)
      have e1: "engine_inv cfg en1 \<and> k \<in> set (keys (en_stats en1))"
        using Some inv admit_inv[of cfg k "[]" en en1] by (auto split: if_splits)
      let ?ws = "case map_of (en_stats en1) k of None \<Rightarrow> new_stats | Some ws \<Rightarrow> ws"
      have "rings_ok ?ws" using e1 by (auto simp: engine_inv_def split: option.split)
      then have "engine_inv cfg (en1\<lparr>en_stats := AList.update k ws (en_stats en1)\<rparr>)" if "load_window pf window blob ?ws = Load_ok ws" for ws
        using that e1 load_window_rings update_stats_inv by blast
      moreover have "engine_inv cfg (forget k en1)" if "k \<notin> set (keys (en_stats en))"
      proof -
        have "admit cfg k [] en = Some en1" using Some that by simp
        from admit_cases[OF this inv that] show ?thesis using forget_new by blast
      qed
      ultimately show ?thesis using e1 Some window
        by (auto simp: load_engine_row_def Let_def split: load.splits if_splits)
    qed
  qed
qed

section \<open>Histories of the engine\<close>

datatype engine_op =
    Ingest metric_sample datetime
  | Close datetime
  | Restore metric_key string "pyval option"
  | Drain_evicted

text \<open>An operation that raises leaves the state it had reached.\<close>

fun engine_step :: "anomaly_config \<Rightarrow> (string \<Rightarrow> real option) \<Rightarrow> metric_engine \<Rightarrow> engine_op \<Rightarrow> metric_engine" where
  "engine_step cfg pf en (Ingest sm ts) = (case ingest cfg sm ts en of None \<Rightarrow> en | Some en' \<Rightarrow> en')"
| "engine_step cfg pf en (Close now) = fst (engine_tick cfg now en)"
| "engine_step cfg pf en (Restore k window blob) = fst (load_engine_row pf cfg k window blob en)"
| "engine_step cfg pf en Drain_evicted = fst (drain_evicted en)"

definition engine_after :: "anomaly_config \<Rightarrow> (string \<Rightarrow> real option) \<Rightarrow> engine_op list \<Rightarrow> metric_engine" where
  "engine_after cfg pf ops = foldl (engine_step cfg pf) new_engine ops"

lemma engine_step_inv: "engine_inv cfg en \<Longrightarrow> engine_inv cfg (engine_step cfg pf en opn)"
proof (cases opn)
  case (Close now)
  assume "engine_inv cfg en"
  then show ?thesis using engine_tick_effect[of cfg en now] Close by (cases "engine_tick cfg now en") auto
next
  case Drain_evicted
  assume "engine_inv cfg en"
  then show ?thesis using Drain_evicted by (simp add: drain_evicted_def engine_inv_def tracked_def buckets_open_def)
qed (auto simp: load_engine_row_inv dest: ingest_inv split: option.split)

lemma engine_run_inv: "engine_inv cfg (engine_after cfg pf ops)"
  unfolding engine_after_def
proof (induction ops rule: rev_induct)
  case Nil
  show ?case by (simp add: engine_inv_def new_engine_def tracked_def buckets_open_def)
qed (simp add: engine_step_inv)


section \<open>Restores that do more, or less, than refuse\<close>

text \<open>At the cap, restoring an unreadable window of an unknown entity first evicts a tracked one and then refuses, so the
  healthy entity is gone.\<close>

lemma refused_restore_evicts:
  "(case load_engine_row pf (default_anomaly_config\<lparr>an_max_entities := 1\<rparr>) (''m'', ''b'') ''1h'' None (enter (''m'', ''a'') [] new_engine) of
      (en, r) \<Rightarrow> r = Load_refused \<and> en_stats en = [])"
  by (simp add: load_engine_row_def enter_def new_engine_def admit_def tracked_def evict_def forget_def load_window_def Let_def
      default_anomaly_config_def WINDOWS_def)

text \<open>An integer beyond the doubles raises an \<^verbatim>\<open>OverflowError\<close> that the restore does not handle.\<close>

lemma restore_may_raise:
  "load_window pf ''1h'' (Some (PDict [(''ring'', PList [PInt (2 ^ 1024)])])) ws = Load_raises"
  by (simp add: load_window_def WINDOWS_def)

end
