(* ===== verification/Anomaly_Sources.thy ===== *)
theory Anomaly_Sources
  imports Anomaly_Engine Enrichment Quarantine Storage "HOL-Library.Option_ord"
begin

text \<open>
  What feeds the anomaly detector: the samples an event contributes (\<^verbatim>\<open>anomaly/metrics.py\<close>), the tracker of periodic
  connections (\<^verbatim>\<open>anomaly/beacon.py\<close>) and the sampler of resource usage (\<^verbatim>\<open>anomaly/entity_baseline.py\<close>).
\<close>

section \<open>Samples\<close>

definition FIM_WRITE_ACTIONS :: "string list" where
  "FIM_WRITE_ACTIONS = [''file_created'', ''file_modified'', ''file_attributes_changed'']"

definition plain_sample :: "string \<Rightarrow> string \<Rightarrow> string \<Rightarrow> string \<Rightarrow> string \<Rightarrow> real \<Rightarrow> metric_sample" where
  "plain_sample kind key block field v x = \<lparr>sm_kind = kind, sm_key = key, sm_entity = [(block, PDict [(field, PStr v)])], sm_value = x\<rparr>"

text \<open>Python's booleans are integers, so a boolean byte count is taken as 0 or 1.\<close>

fun number_of :: "pyval \<Rightarrow> real option" where
  "number_of (PBool b) = Some (if b then 1 else 0)"
| "number_of (PInt i) = Some (of_int i)"
| "number_of (PFloat r) = Some r"
| "number_of v = None"

definition connection_samples :: "(pyval \<Rightarrow> string) \<Rightarrow> event \<Rightarrow> pyval \<Rightarrow> metric_sample list" where
  "connection_samples ostr e name =
     (if ev_action e = ''outbound_connection'' \<and> truthy name then
        plain_sample ''new_conn_per_min'' (py_str ostr name) ''process'' ''name'' (py_str ostr name) 1
        # (case number_of (bget (ev_network e) ''bytes'') of
             None \<Rightarrow> []
           | Some b \<Rightarrow> [plain_sample ''egress_bytes_per_min'' (py_str ostr name) ''process'' ''name'' (py_str ostr name) b])
      else [])"

definition user_sample :: "(pyval \<Rightarrow> string) \<Rightarrow> event \<Rightarrow> string \<Rightarrow> string \<Rightarrow> metric_sample list" where
  "user_sample ostr e action kind =
     (let name = bget (ev_user e) ''name''
      in if ev_action e = action \<and> truthy name then [plain_sample kind (py_str ostr name) ''user'' ''name'' (py_str ostr name) 1] else [])"

definition write_sample :: "(pyval \<Rightarrow> string) \<Rightarrow> event \<Rightarrow> metric_sample list" where
  "write_sample ostr e =
     (let path = bget (ev_file e) ''path''
      in if ev_module e = ''fim_watcher'' \<and> ev_action e \<in> set FIM_WRITE_ACTIONS \<and> truthy path then
           (let parent = dirname (py_str ostr path)
            in if parent = [] then [] else [plain_sample ''file_writes_per_min'' parent ''file'' ''path'' parent 1])
         else [])"

definition extract_samples :: "(pyval \<Rightarrow> string) \<Rightarrow> event \<Rightarrow> metric_sample list" where
  "extract_samples ostr e =
     (if ev_module e = ''anomaly_detector'' then []
      else let name = bget (ev_process e) ''name''
           in (if truthy name \<and> ev_category e \<noteq> []
               then [plain_sample ''events_per_min'' (py_str ostr name @ '':'' @ hd (ev_category e)) ''process'' ''name'' (py_str ostr name) 1] else [])
              @ connection_samples ostr e name
              @ user_sample ostr e ''ssh_login_succeeded'' ''logins_per_min''
              @ user_sample ostr e ''sudo_invoked'' ''sudo_per_min''
              @ write_sample ostr e)"

section \<open>Beacons\<close>

definition RING_SIZE :: nat where "RING_SIZE = 32"

record beacon_hit =
  bh_process :: string
  bh_ip :: string
  bh_port :: int
  bh_key :: string
  bh_count :: nat
  bh_mean :: real
  bh_stddev :: real
  bh_cv :: real

record key_state =
  ks_last_ts :: "real option"
  ks_intervals :: "real list"

definition new_key :: key_state where
  "new_key = \<lparr>ks_last_ts = None, ks_intervals = []\<rparr>"

definition beacon_key :: "string \<Rightarrow> string \<Rightarrow> int \<Rightarrow> string" where
  "beacon_key name ip port = name @ ''->'' @ ip @ '':'' @ int_str port"

text \<open>The instants of the last observations decide the eviction; \<open>None\<close> is minus infinity, the least.\<close>

record beacon_tracker =
  bt_keys :: "(string, key_state) table"
  bt_last_seen :: "(string, real option) table"

definition new_beacon_tracker :: beacon_tracker where
  "new_beacon_tracker = \<lparr>bt_keys = [], bt_last_seen = []\<rparr>"

definition last_seen :: "beacon_tracker \<Rightarrow> string \<Rightarrow> real option" where
  "last_seen bt k = (case map_of (bt_last_seen bt) k of None \<Rightarrow> None | Some t \<Rightarrow> t)"

text \<open>\<open>None\<close> is the \<^verbatim>\<open>ValueError\<close> of a minimum over nothing.\<close>

definition admit_key :: "anomaly_config \<Rightarrow> string \<Rightarrow> beacon_tracker \<Rightarrow> beacon_tracker option" where
  "admit_key cfg k bt =
     (if k \<in> set (keys (bt_keys bt)) then Some bt
      else let enter_key = (\<lambda>b. b\<lparr>bt_keys := AList.update k new_key (bt_keys b)\<rparr>)
           in if int (length (bt_keys bt)) \<ge> an_max_entities cfg
              then (if bt_keys bt = [] then None
                    else let victim = arg_min_list (last_seen bt) (keys (bt_keys bt))
                         in Some (enter_key (bt\<lparr>bt_keys := AList.delete victim (bt_keys bt), bt_last_seen := AList.delete victim (bt_last_seen bt)\<rparr>)))
              else Some (enter_key bt))"

definition evaluate_beacon :: "anomaly_config \<Rightarrow> real list \<Rightarrow> string \<Rightarrow> string \<Rightarrow> int \<Rightarrow> beacon_hit option" where
  "evaluate_beacon cfg intervals name ip port =
     (if int (length intervals) < an_beacon_min_events cfg then None
      else let mean = mean_of intervals
           in if mean \<le> 0 then None
              else if \<not> (an_beacon_min_interval_s cfg \<le> mean \<and> mean \<le> an_beacon_max_interval_s cfg) then None
              else let stddev = sqrt (variance_of intervals); cv = stddev / mean
                   in if cv \<ge> an_beacon_max_cv cfg then None
                      else Some \<lparr>bh_process = name, bh_ip = ip, bh_port = port, bh_key = beacon_key name ip port, bh_count = length intervals,
                                 bh_mean = mean, bh_stddev = stddev, bh_cv = cv\<rparr>)"

definition beacon_epoch :: "datetime \<Rightarrow> real" where
  "beacon_epoch ts = of_int ts / 1000000"

definition see_connection :: "real \<Rightarrow> key_state \<Rightarrow> key_state" where
  "see_connection epoch st =
     \<lparr>ks_last_ts = Some epoch,
      ks_intervals = (case ks_last_ts st of None \<Rightarrow> ks_intervals st | Some t \<Rightarrow> ring_push RING_SIZE (ks_intervals st) (epoch - t))\<rparr>"

definition state_of :: "string \<Rightarrow> beacon_tracker \<Rightarrow> key_state" where
  "state_of k bt = (case map_of (bt_keys bt) k of None \<Rightarrow> new_key | Some st \<Rightarrow> st)"

definition observe_beacon ::
  "anomaly_config \<Rightarrow> string \<Rightarrow> string \<Rightarrow> int \<Rightarrow> datetime \<Rightarrow> beacon_tracker \<Rightarrow> (beacon_tracker \<times> beacon_hit option) option" where
  "observe_beacon cfg name ip port ts bt =
     (let k = beacon_key name ip port
      in case admit_key cfg k bt of
           None \<Rightarrow> None
         | Some bt1 \<Rightarrow>
             (let st = see_connection (beacon_epoch ts) (state_of k bt1)
              in Some (bt1\<lparr>bt_keys := AList.update k st (bt_keys bt1), bt_last_seen := AList.update k (Some (beacon_epoch ts)) (bt_last_seen bt1)\<rparr>,
                       evaluate_beacon cfg (ks_intervals st) name ip port)))"

definition beacon_rows :: "beacon_tracker \<Rightarrow> checkpoint_row list" where
  "beacon_rows bt =
     map (\<lambda>(k, st). (''beacon'', k, ''beacon'',
       PDict [(''last_ts'', case ks_last_ts st of None \<Rightarrow> PNone | Some t \<Rightarrow> PFloat t), (''intervals'', PList (map PFloat (ks_intervals st)))])) (bt_keys bt)"

definition load_last_ts :: "(string \<Rightarrow> real option) \<Rightarrow> pyval \<Rightarrow> real option load" where
  "load_last_ts pf v =
     (if v = PNone then Load_ok None
      else case py_float pf v of Load_ok t \<Rightarrow> Load_ok (Some t) | Load_refused \<Rightarrow> Load_refused | Load_raises \<Rightarrow> Load_raises)"

definition beacon_blob :: "(string \<Rightarrow> real option) \<Rightarrow> pyval option \<Rightarrow> (real option \<times> real list) load" where
  "beacon_blob pf blob =
     (case blob of
        Some (PDict raw) \<Rightarrow>
          (case map_of raw ''last_ts'' of
             None \<Rightarrow> Load_refused
           | Some v \<Rightarrow>
               (case load_last_ts pf v of
                  Load_refused \<Rightarrow> Load_refused | Load_raises \<Rightarrow> Load_raises
                | Load_ok last_v \<Rightarrow>
                    (case Option.bind (map_of raw ''intervals'') iterate of
                       None \<Rightarrow> Load_refused
                     | Some vs \<Rightarrow>
                         (case py_floats pf vs of
                            Load_ok xs \<Rightarrow> Load_ok (last_v, xs) | Load_refused \<Rightarrow> Load_refused | Load_raises \<Rightarrow> Load_raises))))
      | _ \<Rightarrow> Load_refused)"

definition load_beacon_row ::
  "(string \<Rightarrow> real option) \<Rightarrow> anomaly_config \<Rightarrow> string \<Rightarrow> pyval option \<Rightarrow> beacon_tracker \<Rightarrow> beacon_tracker \<times> unit load" where
  "load_beacon_row pf cfg k blob bt =
     (case beacon_blob pf blob of
        Load_refused \<Rightarrow> (bt, Load_refused) | Load_raises \<Rightarrow> (bt, Load_raises)
      | Load_ok (last_v, xs) \<Rightarrow>
          (case admit_key cfg k bt of
             None \<Rightarrow> (bt, Load_raises)
           | Some bt1 \<Rightarrow>
               (bt1\<lparr>bt_keys := AList.update k \<lparr>ks_last_ts = None, ks_intervals = last_n RING_SIZE xs\<rparr> (bt_keys bt1),
                    bt_last_seen := AList.update k last_v (bt_last_seen bt1)\<rparr>, Load_ok ())))"

section \<open>Resource usage\<close>

definition METRICS :: "string list" where "METRICS = [''cpu_pct'', ''rss_bytes'']"

record resource_signal =
  rg_key :: string
  rg_unit :: "string option"
  rg_metric :: string
  rg_observed :: real
  rg_mean :: real
  rg_factor :: real
  rg_is_self :: bool

record entity_usage =
  eu_pid :: "int option"
  eu_prev_ticks :: "int option"
  eu_prev_t :: "real option"
  eu_baselines :: "string \<Rightarrow> windowed_stats"
  eu_streaks :: "string \<Rightarrow> int"

definition new_usage :: entity_usage where
  "new_usage = \<lparr>eu_pid = None, eu_prev_ticks = None, eu_prev_t = None, eu_baselines = (\<lambda>_. new_stats), eu_streaks = (\<lambda>_. 0)\<rparr>"

type_synonym resource_sampler = "(string, entity_usage) table"

text \<open>The fields of \<^verbatim>\<open>/proc/<pid>/stat\<close> after the last parenthesis; \<open>None\<close> is an \<^verbatim>\<open>IndexError\<close> or \<^verbatim>\<open>ValueError\<close>.\<close>

definition cpu_ticks :: "string \<Rightarrow> int option" where
  "cpu_ticks stat =
     (if CHR '')'' \<notin> set stat then None
      else let rest = split_ws [] (rev (takeWhile (\<lambda>c. c \<noteq> CHR '')'') (rev stat)))
           in if length rest \<le> 12 then None
              else (case (py_int (rest ! 11), py_int (rest ! 12)) of (Some u, Some v) \<Rightarrow> Some (u + v) | _ \<Rightarrow> None))"

definition rss_bytes :: "string \<Rightarrow> int option" where
  "rss_bytes status =
     (case find (\<lambda>l. startswith l ''VmRSS:'') (splitlines status) of
        None \<Rightarrow> None
      | Some l \<Rightarrow> (let ws = split_ws [] l in if length ws < 2 then None else map_option (\<lambda>n. n * 1024) (py_int (ws ! 1))))"

text \<open>The first all-digit line of \<^verbatim>\<open>cgroup.procs\<close>; \<open>Some None\<close> is no such line or no such file, \<open>None\<close> the \<^verbatim>\<open>ValueError\<close> of digits
  that \<^verbatim>\<open>int\<close> does not take.\<close>

definition main_pid_of :: "string option \<Rightarrow> int option option" where
  "main_pid_of procs =
     (case procs of
        None \<Rightarrow> Some None
      | Some t \<Rightarrow>
          (case find (\<lambda>l. l \<noteq> [] \<and> list_all py_digit l) (map strip (splitlines t)) of
             None \<Rightarrow> Some None
           | Some l \<Rightarrow> (case py_int l of None \<Rightarrow> None | Some n \<Rightarrow> Some (Some n))))"

text \<open>The sustained rule. The rings do not depend on the threshold, which the code sets to infinity here.\<close>

definition breaches :: "anomaly_config \<Rightarrow> real list \<Rightarrow> real \<Rightarrow> bool" where
  "breaches cfg ring v \<longleftrightarrow> int (length ring) \<ge> an_min_samples cfg \<and> mean_of ring > 0 \<and> v > an_sustained_factor cfg * mean_of ring"

definition next_streak :: "anomaly_config \<Rightarrow> real list \<Rightarrow> real \<Rightarrow> int \<Rightarrow> int" where
  "next_streak cfg ring v n =
     (if int (length ring) \<ge> an_min_samples cfg then (if breaches cfg ring v then n + 1 else 0) else n)"

definition observe_usage ::
  "anomaly_config \<Rightarrow> string \<Rightarrow> string option \<Rightarrow> string \<Rightarrow> real \<Rightarrow> entity_usage \<Rightarrow> entity_usage \<times> resource_signal option" where
  "observe_usage cfg key unit metric v st =
     (let ws = eu_baselines st metric; ring = ws_rings ws ''1h''; n = next_streak cfg ring v (eu_streaks st metric);
          fired = (if breaches cfg ring v \<and> n = an_sustained_ticks cfg
                   then Some \<lparr>rg_key = key, rg_unit = unit, rg_metric = metric, rg_observed = v, rg_mean = mean_of ring,
                              rg_factor = v / mean_of ring, rg_is_self = (key = ''self'')\<rparr> else None);
          st1 = st\<lparr>eu_streaks := (eu_streaks st)(metric := n)\<rparr>
      in (if 0 < n \<and> n < an_sustained_ticks cfg then st1
          else st1\<lparr>eu_baselines := (eu_baselines st)(metric := fst (push_minute (an_min_samples cfg) 0 v ws))\<rparr>,
          fired))"

fun observe_samples ::
  "anomaly_config \<Rightarrow> string \<Rightarrow> string option \<Rightarrow> (string \<times> real) list \<Rightarrow> entity_usage \<Rightarrow> entity_usage \<times> resource_signal list" where
  "observe_samples cfg key unit [] st = (st, [])"
| "observe_samples cfg key unit ((metric, v) # xs) st =
     (case observe_usage cfg key unit metric v st of
        (st1, fired) \<Rightarrow>
          (case observe_samples cfg key unit xs st1 of
             (st2, sigs) \<Rightarrow> (st2, (case fired of None \<Rightarrow> [] | Some g \<Rightarrow> [g]) @ sigs)))"

definition cpu_sample :: "int \<Rightarrow> int \<Rightarrow> int option \<Rightarrow> real \<Rightarrow> entity_usage \<Rightarrow> (string \<times> real) list" where
  "cpu_sample clk pid ticks now st =
     (case (ticks, eu_prev_ticks st, eu_prev_t st) of
        (Some n, Some p, Some t) \<Rightarrow>
          if eu_pid st = Some pid \<and> now > t
          then (let pct = of_int (n - p) / of_int clk / (now - t) * 100 in if pct \<ge> 0 then [(''cpu_pct'', pct)] else [])
          else []
      | _ \<Rightarrow> [])"

text \<open>The texts of \<^verbatim>\<open>stat\<close> and \<^verbatim>\<open>status\<close> are \<open>None\<close> for a process that is gone.\<close>

definition sample_one ::
  "anomaly_config \<Rightarrow> int \<Rightarrow> (int \<Rightarrow> (string \<times> string) option) \<Rightarrow> real \<Rightarrow> string \<times> string option \<times> int \<Rightarrow> resource_sampler
     \<Rightarrow> resource_sampler \<times> resource_signal list" where
  "sample_one cfg clk proc now = (\<lambda>(key, unit, pid) t.
     let st = (case map_of t key of None \<Rightarrow> new_usage | Some st \<Rightarrow> st)
     in case proc pid of
          None \<Rightarrow> (AList.update key (st\<lparr>eu_pid := None, eu_prev_ticks := None\<rparr>) t, [])
        | Some (stat, status) \<Rightarrow>
            (let rss = (case rss_bytes status of None \<Rightarrow> [] | Some n \<Rightarrow> [(''rss_bytes'', of_int n)]);
                 ticks = cpu_ticks stat;
                 cpu = cpu_sample clk pid ticks now st;
                 st1 = (case ticks of None \<Rightarrow> st | Some n \<Rightarrow> st\<lparr>eu_pid := Some pid, eu_prev_ticks := Some n, eu_prev_t := Some now\<rparr>)
             in case observe_samples cfg key unit (rss @ cpu) st1 of (st2, sigs) \<Rightarrow> (AList.update key st2 t, sigs)))"

fun sample_each ::
  "anomaly_config \<Rightarrow> int \<Rightarrow> (int \<Rightarrow> (string \<times> string) option) \<Rightarrow> real \<Rightarrow> (string \<times> string option \<times> int) list \<Rightarrow> resource_sampler
     \<Rightarrow> resource_sampler \<times> resource_signal list" where
  "sample_each cfg clk proc now [] t = (t, [])"
| "sample_each cfg clk proc now (x # xs) t =
     (case sample_one cfg clk proc now x t of
        (t1, g1) \<Rightarrow> (case sample_each cfg clk proc now xs t1 of (t2, g2) \<Rightarrow> (t2, g1 @ g2)))"

text \<open>\<^verbatim>\<open>units[:cap]\<close>, with Python's meaning of a negative bound.\<close>

definition slice_to :: "int \<Rightarrow> 'a list \<Rightarrow> 'a list" where
  "slice_to n xs = (if n < 0 then take (length xs - nat (- n)) xs else take (nat n) xs)"

fun unit_targets :: "(string \<Rightarrow> string option) \<Rightarrow> string list \<Rightarrow> (string \<times> string option \<times> int) list option" where
  "unit_targets cgroup [] = Some []"
| "unit_targets cgroup (u # us) =
     (case main_pid_of (cgroup u) of
        None \<Rightarrow> None
      | Some p \<Rightarrow> map_option (\<lambda>ts. (case p of None \<Rightarrow> ts | Some n \<Rightarrow> (''svc:'' @ u, Some u, n) # ts)) (unit_targets cgroup us))"

definition sample_resources ::
  "anomaly_config \<Rightarrow> int \<Rightarrow> int \<Rightarrow> (string \<Rightarrow> string option) \<Rightarrow> (int \<Rightarrow> (string \<times> string) option) \<Rightarrow> string list \<Rightarrow> real \<Rightarrow> resource_sampler
     \<Rightarrow> (resource_sampler \<times> resource_signal list) option" where
  "sample_resources cfg clk self_pid cgroup proc units now t =
     (case unit_targets cgroup (slice_to (an_max_entities cfg) units) of
        None \<Rightarrow> None
      | Some ts \<Rightarrow> Some (sample_each cfg clk proc now ((''self'', None, self_pid) # ts) t))"

definition resource_rows :: "resource_sampler \<Rightarrow> checkpoint_row list" where
  "resource_rows t =
     concat (map (\<lambda>(key, st). concat (map (\<lambda>metric. if ws_rings (eu_baselines st metric) ''1h'' = [] then []
        else [(''resource.'' @ metric, key, ''1h'', serialize_window ''1h'' (eu_baselines st metric))]) METRICS)) t)"

definition load_resource_row ::
  "(string \<Rightarrow> real option) \<Rightarrow> string \<Rightarrow> string \<Rightarrow> string \<Rightarrow> pyval option \<Rightarrow> resource_sampler \<Rightarrow> resource_sampler \<times> unit load" where
  "load_resource_row pf kind key window blob t =
     (let metric = drop (length ''resource.'') kind
      in if \<not> startswith kind ''resource.'' \<or> window \<noteq> ''1h'' \<or> metric \<notin> set METRICS then (t, Load_refused)
         else let st = (case map_of t key of None \<Rightarrow> new_usage | Some st \<Rightarrow> st)
              in case load_window pf ''1h'' blob (eu_baselines st metric) of
                   Load_ok ws \<Rightarrow> (AList.update key (st\<lparr>eu_baselines := (eu_baselines st)(metric := ws)\<rparr>) t, Load_ok ())
                 | Load_refused \<Rightarrow> (t, Load_refused)
                 | Load_raises \<Rightarrow> (t, Load_raises))"

end
