(* ===== verification/Anomaly_Laws.thy ===== *)
theory Anomaly_Laws
  imports Anomaly_Sources "HOL-Library.Sublist"
begin

text \<open>
  What the resource sampler guarantees: a resource signal stands for a whole streak of breaches against one frozen baseline.
\<close>

section \<open>The sustained rule\<close>

text \<open>One entity-metric under a sequence of samples: its state after them, and whether each fired.\<close>

definition usage_after :: "anomaly_config \<Rightarrow> string \<Rightarrow> string option \<Rightarrow> string \<Rightarrow> real list \<Rightarrow> entity_usage \<Rightarrow> entity_usage" where
  "usage_after cfg key unit metric vs st = foldl (\<lambda>s v. fst (observe_usage cfg key unit metric v s)) st vs"

abbreviation usage_ring :: "entity_usage \<Rightarrow> string \<Rightarrow> real list" where
  "usage_ring st metric \<equiv> ws_rings (eu_baselines st metric) ''1h''"

lemma usage_after_snoc [simp]: "usage_after cfg key unit metric (vs @ [v]) st = fst (observe_usage cfg key unit metric v (usage_after cfg key unit metric vs st))"
  by (simp add: usage_after_def)

lemma observe_streak [simp]: "eu_streaks (fst (observe_usage cfg key unit metric v st)) metric = next_streak cfg (usage_ring st metric) v (eu_streaks st metric)"
  by (simp add: observe_usage_def Let_def)

lemma observe_frozen:
  "\<lbrakk>n = next_streak cfg (usage_ring st metric) v (eu_streaks st metric); 0 < n; n < an_sustained_ticks cfg\<rbrakk>
     \<Longrightarrow> usage_ring (fst (observe_usage cfg key unit metric v st)) metric = usage_ring st metric"
  by (simp add: observe_usage_def Let_def)

lemma fired_iff: "snd (observe_usage cfg key unit metric v st) \<noteq> None \<longleftrightarrow>
    breaches cfg (usage_ring st metric) v \<and> eu_streaks st metric + 1 = an_sustained_ticks cfg"
  by (auto simp: observe_usage_def Let_def next_streak_def breaches_def)

text \<open>While a streak accumulates, its samples all breach the ring that is still the baseline.\<close>

definition streak_inv :: "anomaly_config \<Rightarrow> string \<Rightarrow> real list \<Rightarrow> entity_usage \<Rightarrow> bool" where
  "streak_inv cfg metric vs st \<longleftrightarrow> 0 \<le> eu_streaks st metric \<and> (eu_streaks st metric < an_sustained_ticks cfg \<longrightarrow>
     (\<exists>pre xs. vs = pre @ xs \<and> int (length xs) = eu_streaks st metric \<and> list_all (breaches cfg (usage_ring st metric)) xs))"

lemma streak_step:
  assumes "streak_inv cfg metric vs st"
  shows "streak_inv cfg metric (vs @ [v]) (fst (observe_usage cfg key unit metric v st))"
proof -
  let ?r = "usage_ring st metric" and ?n = "eu_streaks st metric" and ?st = "fst (observe_usage cfg key unit metric v st)"
  have n0: "0 \<le> ?n" using assms by (simp add: streak_inv_def)
  consider (short) "\<not> int (length ?r) \<ge> an_min_samples cfg" | (breach) "breaches cfg ?r v" | (calm) "int (length ?r) \<ge> an_min_samples cfg" "\<not> breaches cfg ?r v"
    by blast
  then show ?thesis
  proof cases
    case breach
    then have n: "next_streak cfg ?r v ?n = ?n + 1" by (simp add: next_streak_def breaches_def)
    show ?thesis
    proof (cases "?n + 1 < an_sustained_ticks cfg")
      case True
      then obtain pre xs where x: "vs = pre @ xs" "int (length xs) = ?n" "list_all (breaches cfg ?r) xs"
        using assms by (auto simp: streak_inv_def)
      have "usage_ring ?st metric = ?r" using observe_frozen[OF n[symmetric]] n0 True by simp
      then show ?thesis unfolding streak_inv_def using x n n0 breach by (intro conjI impI exI[of _ pre] exI[of _ "xs @ [v]"]) auto
    qed (use n n0 in \<open>auto simp: streak_inv_def\<close>)
  next
    case calm
    then have "next_streak cfg ?r v ?n = 0" by (simp add: next_streak_def)
    then show ?thesis by (auto simp: streak_inv_def)
  next
    case short
    then have n: "next_streak cfg ?r v ?n = ?n" by (simp add: next_streak_def)
    show ?thesis
    proof (cases "?n < an_sustained_ticks cfg \<and> ?n \<noteq> 0")
      case True
      then obtain pre xs where x: "vs = pre @ xs" "int (length xs) = ?n" "list_all (breaches cfg ?r) xs"
        using assms by (auto simp: streak_inv_def)
      have "xs \<noteq> []" using x(2) True by auto
      then show ?thesis using short x(3) by (cases xs) (auto simp: breaches_def)
    next
      case False
      then show ?thesis using n n0 by (auto simp: streak_inv_def)
    qed
  qed
qed

lemma streak_reachable: "eu_streaks st metric = 0 \<Longrightarrow> streak_inv cfg metric vs (usage_after cfg key unit metric vs st)"
proof (induction vs rule: rev_induct)
  case Nil
  then show ?case by (simp add: streak_inv_def usage_after_def)
qed (simp add: streak_step)

text \<open>A run of breaching samples against a frozen baseline.\<close>

lemma streak_builds:
  assumes "eu_streaks st metric = 0" "list_all (breaches cfg (usage_ring st metric)) xs" "int (length xs) < an_sustained_ticks cfg"
  shows "eu_streaks (usage_after cfg key unit metric xs st) metric = int (length xs)
    \<and> usage_ring (usage_after cfg key unit metric xs st) metric = usage_ring st metric"
  using assms
proof (induction xs rule: rev_induct)
  case Nil
  then show ?case by (simp add: usage_after_def)
next
  case (snoc x xs)
  let ?s = "usage_after cfg key unit metric xs st"
  have ih: "eu_streaks ?s metric = int (length xs)" "usage_ring ?s metric = usage_ring st metric" using snoc by auto
  have n: "next_streak cfg (usage_ring ?s metric) x (eu_streaks ?s metric) = int (length xs) + 1"
    using ih snoc.prems(2) by (simp add: next_streak_def breaches_def)
  then show ?case using observe_frozen[OF n[symmetric], of key unit] ih snoc.prems(3) by simp
qed

text \<open>Above the threshold a streak fires no more until it is broken.\<close>

lemma no_second_firing:
  assumes "eu_streaks st metric \<ge> an_sustained_ticks cfg"
  shows "snd (observe_usage cfg key unit metric v st) = None"
  using fired_iff[of cfg key unit metric v st] assms by auto

lemma usage_after_append: "usage_after cfg key unit metric (us @ ws) st = usage_after cfg key unit metric ws (usage_after cfg key unit metric us st)"
  by (simp add: usage_after_def)

lemma unbroken_streak:
  assumes "eu_streaks st metric \<ge> an_sustained_ticks cfg"
    and "\<And>p. \<lbrakk>prefix p ws; p \<noteq> []\<rbrakk> \<Longrightarrow> eu_streaks (usage_after cfg key unit metric p st) metric \<noteq> 0"
  shows "eu_streaks (usage_after cfg key unit metric ws st) metric \<ge> an_sustained_ticks cfg"
  using assms(2)
proof (induction ws rule: rev_induct)
  case Nil
  then show ?case using assms(1) by (simp add: usage_after_def)
next
  case (snoc w ws)
  let ?s = "usage_after cfg key unit metric ws st"
  have "eu_streaks ?s metric \<ge> an_sustained_ticks cfg" using snoc by auto
  moreover have "next_streak cfg (usage_ring ?s metric) w (eu_streaks ?s metric) \<noteq> 0" using snoc.prems[of "ws @ [w]"] by simp
  ultimately show ?case by (auto simp: next_streak_def split: if_splits)
qed

text \<open>A resource signal stands for a full streak against one frozen baseline, and fires once. From a fresh streak, after any
  history: when a sample fires, the last \<^verbatim>\<open>sustained_ticks\<close> samples all exceeded the factor times the positive mean of
  one and the same ring of at least \<^verbatim>\<open>min_samples\<close>; conversely, from an idle state that many breaching samples in a row fire
  on the last one and not before; and between two firings the streak was broken.\<close>

theorem sustained_rule:
  assumes "eu_streaks st metric = 0"
  shows "(snd (observe_usage cfg key unit metric v (usage_after cfg key unit metric vs st)) \<noteq> None \<longrightarrow>
           (\<exists>pre xs. vs @ [v] = pre @ xs \<and> int (length xs) = an_sustained_ticks cfg
              \<and> list_all (breaches cfg (usage_ring (usage_after cfg key unit metric vs st) metric)) xs))
    \<and> (list_all (breaches cfg (usage_ring st metric)) (vs @ [v]) \<and> int (length vs) < an_sustained_ticks cfg \<longrightarrow>
         (snd (observe_usage cfg key unit metric v (usage_after cfg key unit metric vs st)) \<noteq> None
            \<longleftrightarrow> int (length vs) + 1 = an_sustained_ticks cfg))
    \<and> (snd (observe_usage cfg key unit metric v (usage_after cfg key unit metric vs st)) \<noteq> None
         \<and> snd (observe_usage cfg key unit metric w (usage_after cfg key unit metric (vs @ [v] @ ws) st)) \<noteq> None \<longrightarrow>
         (\<exists>p. prefix p ws \<and> p \<noteq> [] \<and> eu_streaks (usage_after cfg key unit metric (vs @ [v] @ p) st) metric = 0))"
proof -
  let ?s = "usage_after cfg key unit metric vs st"
  let ?r = "usage_ring ?s metric" and ?s1 = "usage_after cfg key unit metric (vs @ [v]) st"
  have inv: "streak_inv cfg metric vs ?s" by (rule streak_reachable[OF assms(1)])
  have one: "\<exists>pre xs. vs @ [v] = pre @ xs \<and> int (length xs) = an_sustained_ticks cfg \<and> list_all (breaches cfg ?r) xs"
    if "snd (observe_usage cfg key unit metric v ?s) \<noteq> None"
  proof -
    have b: "breaches cfg ?r v" "eu_streaks ?s metric + 1 = an_sustained_ticks cfg" using that fired_iff by blast+
    then obtain pre xs where "vs = pre @ xs" "int (length xs) = eu_streaks ?s metric" "list_all (breaches cfg ?r) xs"
      using inv by (auto simp: streak_inv_def)
    then show ?thesis using b by (intro exI[of _ pre] exI[of _ "xs @ [v]"]) auto
  qed
  have two: "snd (observe_usage cfg key unit metric v ?s) \<noteq> None \<longleftrightarrow> int (length vs) + 1 = an_sustained_ticks cfg"
    if "list_all (breaches cfg (usage_ring st metric)) (vs @ [v])" "int (length vs) < an_sustained_ticks cfg"
    using streak_builds[OF assms(1), of cfg vs key unit] that fired_iff[of cfg key unit metric v ?s] by auto
  have three: "\<exists>p. prefix p ws \<and> p \<noteq> [] \<and> eu_streaks (usage_after cfg key unit metric (vs @ [v] @ p) st) metric = 0"
    if f: "snd (observe_usage cfg key unit metric v ?s) \<noteq> None"
      "snd (observe_usage cfg key unit metric w (usage_after cfg key unit metric (vs @ [v] @ ws) st)) \<noteq> None"
  proof (rule ccontr)
    assume "\<not> ?thesis"
    then have no: "eu_streaks (usage_after cfg key unit metric p ?s1) metric \<noteq> 0" if "prefix p ws" "p \<noteq> []" for p
      using that usage_after_append[of cfg key unit metric "vs @ [v]" p st] by auto
    have "eu_streaks ?s1 metric \<ge> an_sustained_ticks cfg"
      using f(1) fired_iff[of cfg key unit metric v ?s] by (auto simp: next_streak_def breaches_def)
    from unbroken_streak[OF this, of ws key unit] no
    have "eu_streaks (usage_after cfg key unit metric (vs @ [v] @ ws) st) metric \<ge> an_sustained_ticks cfg"
      using usage_after_append[of cfg key unit metric "vs @ [v]" ws st] by simp
    from no_second_firing[OF this, of key unit w] f(2) show False by simp
  qed
  show ?thesis using one two three by blast
qed

theorem sustained_rule_witness:
  "eu_streaks (new_usage\<lparr>eu_baselines := (\<lambda>_. new_stats\<lparr>ws_rings := (\<lambda>_. [1])\<rparr>)\<rparr>) ''rss_bytes'' = 0
   \<and> snd (observe_usage (default_anomaly_config\<lparr>an_min_samples := 1, an_sustained_ticks := 1\<rparr>) ''self'' None ''rss_bytes'' 7
         (new_usage\<lparr>eu_baselines := (\<lambda>_. new_stats\<lparr>ws_rings := (\<lambda>_. [1])\<rparr>)\<rparr>)) \<noteq> None"
  using sustained_rule[of "new_usage\<lparr>eu_baselines := (\<lambda>_. new_stats\<lparr>ws_rings := (\<lambda>_. [1])\<rparr>)\<rparr>" "''rss_bytes''"
      "default_anomaly_config\<lparr>an_min_samples := 1, an_sustained_ticks := 1\<rparr>" "''self''" None 7 "[]"]
  by (simp add: new_usage_def usage_after_def default_anomaly_config_def breaches_def mean_of_def)

end
