(* ===== verification/Anomaly_Detector.thy ===== *)
theory Anomaly_Detector
  imports Anomaly_Laws Router
begin

text \<open>
  The anomaly detector thread of \<^verbatim>\<open>anomaly/detector.py\<close>: the events it emits, its tick, the checkpoints in the table
  \<^verbatim>\<open>metric_baseline\<close> and the restore at start. Calls that may fail (statements of the database, the emission of an
  event) take their outcome as an argument. A dash sign outside ASCII in a message is written as a plain dash.
\<close>

section \<open>Numbers in messages\<close>

text \<open>\<^verbatim>\<open>round(x, n)\<close>, \<^verbatim>\<open>{x:.nf}\<close> and \<^verbatim>\<open>{x:g}\<close> of a real: halves go to the even neighbour.\<close>

definition half_even :: "real \<Rightarrow> int" where
  "half_even y = (let f = \<lfloor>y\<rfloor>; d = y - of_int f in if d < 1 / 2 then f else if d > 1 / 2 then f + 1 else if even f then f else f + 1)"

definition round_to :: "nat \<Rightarrow> real \<Rightarrow> real" where
  "round_to n x = of_int (half_even (x * 10 ^ n)) / 10 ^ n"

definition pad_zeros :: "nat \<Rightarrow> string \<Rightarrow> string" where
  "pad_zeros n s = replicate (n - length s) (CHR ''0'') @ s"

definition decimals :: "nat \<Rightarrow> nat \<Rightarrow> string" where
  "decimals n m = int_str (int (m div 10 ^ n)) @ (if n = 0 then [] else CHR ''.'' # pad_zeros n (int_str (int (m mod 10 ^ n))))"

definition fixed :: "nat \<Rightarrow> real \<Rightarrow> string" where
  "fixed n x = (if x < 0 then ''-'' else []) @ decimals n (nat (half_even (\<bar>x\<bar> * 10 ^ n)))"

definition strip_zeros :: "string \<Rightarrow> string" where
  "strip_zeros s = (if CHR ''.'' \<in> set s then (let r = rev (dropWhile (\<lambda>c. c = CHR ''0'') (rev s)) in if r \<noteq> [] \<and> last r = CHR ''.'' then butlast r else r) else s)"

text \<open>Six significant digits: the exponent and the digits after rounding.\<close>

definition significant :: "real \<Rightarrow> int \<times> nat" where
  "significant x = (let e = \<lfloor>log 10 x\<rfloor>; m = nat (half_even (x * 10 powr of_int (5 - e))) in if m = 1000000 then (e + 1, 100000) else (e, m))"

definition general :: "real \<Rightarrow> string" where
  "general x =
     (if x = 0 then ''0''
      else (if x < 0 then ''-'' else [])
        @ (case significant \<bar>x\<bar> of
             (e, m) \<Rightarrow>
               if e < - 4 \<or> e \<ge> 6
               then strip_zeros (decimals 5 m) @ ''e'' @ (if e < 0 then ''-'' else ''+'') @ pad_zeros 2 (int_str \<bar>e\<bar>)
               else strip_zeros (decimals (nat (5 - e)) m)))"

section \<open>The events\<close>

definition BUCKET_LABEL :: "(string \<times> string) list" where
  "BUCKET_LABEL = [(''1h'', ''per minute''), (''24h'', ''per 5 min''), (''7d'', ''per 15 min'')]"

definition bucket_label :: "string \<Rightarrow> string" where
  "bucket_label w = (case map_of BUCKET_LABEL w of None \<Rightarrow> w | Some l \<Rightarrow> l)"

text \<open>\<^verbatim>\<open>build_event\<close> for an event of the detector; its kind and severity are constants, so it does not raise.\<close>

definition anomaly_event :: "string \<Rightarrow> datetime \<Rightarrow> string \<Rightarrow> string \<Rightarrow> event_blocks \<Rightarrow> pydict \<Rightarrow> event option" where
  "anomaly_event eid now action message b baseline =
     map_option (\<lambda>e. e\<lparr>ev_baseline := Some baseline\<rparr>)
       (build_event now eid ''anomaly_detector'' action [''anomaly''] [''info''] ''info'' ''signal'' None (Some message) b None (Some now) False)"

definition block_of :: "pydict \<Rightarrow> string \<Rightarrow> pydict option" where
  "block_of d k = (case map_of d k of Some (PDict b) \<Rightarrow> Some b | _ \<Rightarrow> None)"

definition signal_event :: "string \<Rightarrow> datetime \<Rightarrow> signal_data \<Rightarrow> event option" where
  "signal_event eid now g =
     (let d = sg_deviation g
      in anomaly_event eid now ''metric_anomaly''
           (sg_kind g @ '' for '' @ sg_key g @ '' deviates from baseline: observed '' @ general (wd_observed d) @ '' vs mean '' @ general (wd_mean d)
             @ '' ('' @ bucket_label (wd_window d) @ '', z='' @ fixed 1 (wd_z d) @ '', '' @ wd_window d @ '' window)'')
           (no_blocks\<lparr>eb_process := block_of (sg_entity g) ''process'', eb_user := block_of (sg_entity g) ''user'', eb_file := block_of (sg_entity g) ''file''\<rparr>)
           [(''metric_kind'', PStr (sg_kind g)), (''entity_key'', PStr (sg_key g)), (''window'', PStr (wd_window d)), (''bucket_label'', PStr (bucket_label (wd_window d))),
            (''observed'', PFloat (wd_observed d)), (''mean'', PFloat (wd_mean d)), (''stddev'', PFloat (wd_stddev d)), (''deviation'', PFloat (round_to 2 (wd_z d)))])"

definition beacon_event :: "string \<Rightarrow> datetime \<Rightarrow> beacon_hit \<Rightarrow> event option" where
  "beacon_event eid now h =
     anomaly_event eid now ''beacon_signature''
       (bh_process h @ '' connects to '' @ bh_ip h @ '':'' @ int_str (bh_port h) @ '' every ~'' @ fixed 0 (bh_mean h) @ ''s (cv='' @ fixed 3 (bh_cv h)
         @ '', n='' @ int_str (int (bh_count h)) @ '') - low-variance periodic egress'')
       (no_blocks\<lparr>eb_process := Some [(''name'', PStr (bh_process h))], eb_destination := Some [(''ip'', PStr (bh_ip h)), (''port'', PInt (bh_port h))]\<rparr>)
       [(''metric_kind'', PStr ''beacon''), (''entity_key'', PStr (bh_key h)), (''count'', PInt (int (bh_count h))),
        (''interval_mean_s'', PFloat (round_to 1 (bh_mean h))), (''interval_stddev_s'', PFloat (round_to 2 (bh_stddev h))), (''cv'', PFloat (round_to 3 (bh_cv h)))]"

definition resource_detail :: "resource_signal \<Rightarrow> string" where
  "resource_detail g =
     (if rg_metric g = ''cpu_pct'' then ''CPU '' @ fixed 1 (rg_observed g) @ ''% vs baseline '' @ fixed 1 (rg_mean g) @ ''%''
      else ''RSS '' @ fixed 0 (rg_observed g / 1048576) @ '' MiB vs baseline '' @ fixed 0 (rg_mean g / 1048576) @ '' MiB'')"

text \<open>An empty unit name is falsy, like an absent one.\<close>

definition named_unit :: "resource_signal \<Rightarrow> string option" where
  "named_unit g = (case rg_unit g of Some u \<Rightarrow> if u = [] then None else Some u | None \<Rightarrow> None)"

definition resource_event :: "string \<Rightarrow> datetime \<Rightarrow> resource_signal \<Rightarrow> event option" where
  "resource_event eid now g =
     anomaly_event eid now (if rg_is_self g then ''monitor_health_anomaly'' else ''resource_deviation'')
       ((if rg_is_self g then ''inspectord'' else case named_unit g of None \<Rightarrow> rg_key g | Some u \<Rightarrow> u)
         @ '': sustained resource deviation - '' @ resource_detail g @ '' ('' @ fixed 1 (rg_factor g) @ ''x baseline)'')
       (no_blocks\<lparr>eb_service := map_option (\<lambda>u. [(''name'', PStr u)]) (named_unit g),
                  eb_process := (if rg_is_self g then Some [(''name'', PStr ''inspectord'')] else None)\<rparr>)
       [(''metric_kind'', PStr (rg_metric g)), (''entity_key'', PStr (rg_key g)), (''observed'', PFloat (round_to 2 (rg_observed g))),
        (''mean'', PFloat (round_to 2 (rg_mean g))), (''deviation'', PFloat (round_to 2 (rg_factor g)))]"

section \<open>The detector\<close>

record detector =
  dt_engine :: metric_engine
  dt_beacon :: beacon_tracker
  dt_sampler :: resource_sampler
  dt_last_checkpoint :: real

definition new_detector :: "real \<Rightarrow> detector" where
  "new_detector now = \<lparr>dt_engine = new_engine, dt_beacon = new_beacon_tracker, dt_sampler = [], dt_last_checkpoint = now\<rparr>"

text \<open>The key of a row of \<^verbatim>\<open>metric_baseline\<close> is its kind, entity and window; a row has its blob and the time of its writing.\<close>

type_synonym baseline_key = "string \<times> string \<times> string"
type_synonym baseline_table = "(baseline_key, pyval option \<times> datetime) table"

definition RESOURCE_CHECKPOINT_MAX_AGE_S :: int where "RESOURCE_CHECKPOINT_MAX_AGE_S = 86400"

definition delete_checkpoint_row :: "(baseline_key \<Rightarrow> bool) \<Rightarrow> baseline_key \<Rightarrow> baseline_table \<Rightarrow> baseline_table" where
  "delete_checkpoint_row del_ok k t = (if del_ok k then AList.delete k t else t)"

text \<open>\<^verbatim>\<open>date_diff('second', a, b)\<close> counts the second boundaries between two times.\<close>

definition age_s :: "datetime \<Rightarrow> datetime \<Rightarrow> int" where
  "age_s now updated_at = now div 1000000 - updated_at div 1000000"

definition stale_resource :: "datetime \<Rightarrow> baseline_key \<Rightarrow> datetime \<Rightarrow> bool" where
  "stale_resource now k updated_at \<longleftrightarrow> startswith (fst k) ''resource.'' \<and> age_s now updated_at > RESOURCE_CHECKPOINT_MAX_AGE_S"

definition load_checkpoint_row ::
  "(string \<Rightarrow> real option) \<Rightarrow> anomaly_config \<Rightarrow> baseline_key \<Rightarrow> pyval option \<Rightarrow> detector \<Rightarrow> detector \<times> unit load" where
  "load_checkpoint_row pf cfg = (\<lambda>(kind, key, window) blob dt.
     if startswith kind ''resource.'' then (case load_resource_row pf kind key window blob (dt_sampler dt) of (s, r) \<Rightarrow> (dt\<lparr>dt_sampler := s\<rparr>, r))
     else if window = ''beacon'' then (case load_beacon_row pf cfg key blob (dt_beacon dt) of (b, r) \<Rightarrow> (dt\<lparr>dt_beacon := b\<rparr>, r))
     else (case load_engine_row pf cfg (kind, key) window blob (dt_engine dt) of (e, r) \<Rightarrow> (dt\<lparr>dt_engine := e\<rparr>, r)))"

text \<open>The loop over the rows in the order the query returns them; \<open>None\<close> is an exception that leaves it, the number counts the
  restored rows.\<close>

fun load_rows ::
  "(string \<Rightarrow> real option) \<Rightarrow> anomaly_config \<Rightarrow> (baseline_key \<Rightarrow> bool) \<Rightarrow> datetime \<Rightarrow> baseline_table \<Rightarrow> nat \<Rightarrow> detector \<times> baseline_table
     \<Rightarrow> (detector \<times> baseline_table) \<times> nat option" where
  "load_rows pf cfg del_ok now [] n (dt, t) = ((dt, t), Some n)"
| "load_rows pf cfg del_ok now ((k, blob, updated_at) # rows) n (dt, t) =
     (if stale_resource now k updated_at then load_rows pf cfg del_ok now rows n (dt, delete_checkpoint_row del_ok k t)
      else case load_checkpoint_row pf cfg k blob dt of
             (dt1, Load_ok _) \<Rightarrow> load_rows pf cfg del_ok now rows (Suc n) (dt1, t)
           | (dt1, Load_refused) \<Rightarrow> load_rows pf cfg del_ok now rows n (dt1, delete_checkpoint_row del_ok k t)
           | (dt1, Load_raises) \<Rightarrow> ((dt1, t), None))"

text \<open>\<open>rows\<close> is what the query returns, \<open>None\<close> when it fails.\<close>

definition load_checkpoints ::
  "(string \<Rightarrow> real option) \<Rightarrow> anomaly_config \<Rightarrow> (baseline_key \<Rightarrow> bool) \<Rightarrow> datetime \<Rightarrow> baseline_table option \<Rightarrow> detector \<times> baseline_table
     \<Rightarrow> (detector \<times> baseline_table) \<times> nat option" where
  "load_checkpoints pf cfg del_ok now rows s = (case rows of None \<Rightarrow> (s, Some 0) | Some rs \<Rightarrow> load_rows pf cfg del_ok now rs 0 s)"

definition all_rows :: "detector \<Rightarrow> checkpoint_row list" where
  "all_rows dt = engine_rows (dt_engine dt) @ beacon_rows (dt_beacon dt) @ resource_rows (dt_sampler dt)"

text \<open>The rewrite in one transaction; a repeated key violates the primary key. \<open>None\<close> is the exception that is raised again after
  the roll-back. The evicted list is drained before the transaction.\<close>

definition checkpoint ::
  "bool \<Rightarrow> datetime \<Rightarrow> real \<Rightarrow> detector \<times> baseline_table \<Rightarrow> (detector \<times> baseline_table) \<times> unit option" where
  "checkpoint db_ok wall now = (\<lambda>(dt, t).
     let rows = all_rows dt; dt1 = dt\<lparr>dt_engine := fst (drain_evicted (dt_engine dt))\<rparr>
     in if db_ok \<and> distinct (map (\<lambda>(a, b, c, _). (a, b, c)) rows)
        then ((dt1\<lparr>dt_last_checkpoint := now\<rparr>, map (\<lambda>(a, b, c, blob). ((a, b, c), Some blob, wall)) rows), Some ())
        else ((dt1, t), None))"

section \<open>One tick\<close>

definition observe_connection :: "(pyval \<Rightarrow> string) \<Rightarrow> anomaly_config \<Rightarrow> event \<Rightarrow> beacon_tracker \<Rightarrow> (beacon_tracker \<times> beacon_hit option) option" where
  "observe_connection ostr cfg e bt =
     (if ev_action e \<noteq> ''outbound_connection'' then Some (bt, None)
      else let name = bget (ev_process e) ''name''; ip = bget (ev_destination e) ''ip''
           in case bget (ev_destination e) ''port'' of
                PInt p \<Rightarrow> if truthy name \<and> truthy ip then observe_beacon cfg (py_str ostr name) (py_str ostr ip) p (ev_ts e) bt else Some (bt, None)
              | PBool b \<Rightarrow> if truthy name \<and> truthy ip then observe_beacon cfg (py_str ostr name) (py_str ostr ip) (if b then 1 else 0) (ev_ts e) bt else Some (bt, None)
              | _ \<Rightarrow> Some (bt, None))"

fun ingest_all :: "anomaly_config \<Rightarrow> datetime \<Rightarrow> metric_sample list \<Rightarrow> metric_engine \<Rightarrow> metric_engine \<times> bool" where
  "ingest_all cfg ts [] en = (en, True)"
| "ingest_all cfg ts (x # xs) en = (case ingest cfg x ts en of None \<Rightarrow> (en, False) | Some en1 \<Rightarrow> ingest_all cfg ts xs en1)"

text \<open>One drained event; the flag is \<open>False\<close> when an exception ends the drain.\<close>

definition drain_event :: "(pyval \<Rightarrow> string) \<Rightarrow> anomaly_config \<Rightarrow> event \<Rightarrow> detector \<times> (string, beacon_hit) table \<Rightarrow> (detector \<times> (string, beacon_hit) table) \<times> bool" where
  "drain_event ostr cfg e = (\<lambda>(dt, hits).
     case ingest_all cfg (ev_ts e) (extract_samples ostr e) (dt_engine dt) of
       (en, False) \<Rightarrow> ((dt\<lparr>dt_engine := en\<rparr>, hits), False)
     | (en, True) \<Rightarrow>
         (case observe_connection ostr cfg e (dt_beacon dt) of
            None \<Rightarrow> ((dt\<lparr>dt_engine := en\<rparr>, hits), False)
          | Some (bt, hit) \<Rightarrow>
              ((dt\<lparr>dt_engine := en, dt_beacon := bt\<rparr>, case hit of None \<Rightarrow> hits | Some h \<Rightarrow> AList.update (bh_key h) h hits), True)))"

text \<open>The drain takes what the queue holds.\<close>

function drain :: "(pyval \<Rightarrow> string) \<Rightarrow> anomaly_config \<Rightarrow> subscription \<Rightarrow> detector \<times> (string, beacon_hit) table \<Rightarrow> (detector \<times> (string, beacon_hit) table) \<times> subscription \<times> bool" where
  "drain ostr cfg sub s =
     (case get_nowait sub of
        None \<Rightarrow> (s, sub, True)
      | Some (e, sub1) \<Rightarrow>
          (case drain_event ostr cfg e s of
             (s1, False) \<Rightarrow> (s1, sub1, False)
           | (s1, True) \<Rightarrow> drain ostr cfg sub1 s1))"
  by pat_completeness auto
termination
  by (relation "measure (\<lambda>(_, _, sub, _). length (sub_q sub))") (auto simp: get_nowait_def split: list.splits)

declare drain.simps [simp del]

text \<open>What the surroundings of a tick decide: the outcome of the flush and of the transaction, the clocks, the identifiers of events, and which
  emission raises.\<close>

record detector_env =
  ti_now :: datetime
  ti_monotonic :: real
  ti_eid :: "nat \<Rightarrow> string"
  ti_flush_ok :: nat
  ti_emit_ok :: "event \<Rightarrow> bool"
  ti_db_ok :: bool

text \<open>Emitting until one emission raises; the flag is \<open>False\<close> when one did.\<close>

fun emit_all :: "(event \<Rightarrow> bool) \<Rightarrow> event list \<Rightarrow> event list \<times> bool" where
  "emit_all ok [] = ([], True)"
| "emit_all ok (e # es) = (if ok e then (case emit_all ok es of (out, r) \<Rightarrow> (e # out, r)) else ([], False))"

definition tick_events :: "detector_env \<Rightarrow> signal_data list \<Rightarrow> (string, beacon_hit) table \<Rightarrow> event list" where
  "tick_events env sigs hits =
     List.map_filter (\<lambda>(i, g). signal_event (ti_eid env i) (ti_now env) g) (enumerate 0 sigs)
     @ List.map_filter (\<lambda>(i, h). beacon_event (ti_eid env i) (ti_now env) h) (enumerate (length sigs) (map snd hits))"

text \<open>The tables of first sightings and of checkpoints, the router's queue and the detector; the events are those handed to the
  supervisor. An exception after the flush is logged and ends the tick.\<close>

record detector_state =
  ds_detector :: detector
  ds_tracker :: sighting_tracker
  ds_first_seen :: first_seen_table
  ds_baseline :: baseline_table
  ds_sub :: subscription

definition flush_sightings :: "nat \<Rightarrow> detector_state \<Rightarrow> detector_state" where
  "flush_sightings ok s =
     (case tracker_flush ok (ds_tracker s) (ds_first_seen s) of (_, tr, fs) \<Rightarrow> s\<lparr>ds_tracker := tr, ds_first_seen := fs\<rparr>)"

definition checkpoint_now :: "bool \<Rightarrow> datetime \<Rightarrow> real \<Rightarrow> detector_state \<Rightarrow> detector_state" where
  "checkpoint_now db_ok wall now s =
     (case fst (checkpoint db_ok wall now (ds_detector s, ds_baseline s)) of (dt, t) \<Rightarrow> s\<lparr>ds_detector := dt, ds_baseline := t\<rparr>)"

definition detector_tick :: "(pyval \<Rightarrow> string) \<Rightarrow> anomaly_config \<Rightarrow> detector_env \<Rightarrow> detector_state \<Rightarrow> detector_state \<times> event list" where
  "detector_tick ostr cfg env s0 =
     (let s = flush_sightings (ti_flush_ok env) s0
      in case drain ostr cfg (ds_sub s) (ds_detector s, []) of
           ((dt, hits), sub, ok) \<Rightarrow>
             (if \<not> ok then (s\<lparr>ds_detector := dt, ds_sub := sub\<rparr>, [])
              else case engine_tick cfg (ti_now env) (dt_engine dt) of
                     (en, sigs) \<Rightarrow>
                       (let s1 = s\<lparr>ds_detector := dt\<lparr>dt_engine := en\<rparr>, ds_sub := sub\<rparr>
                        in case emit_all (ti_emit_ok env) (tick_events env sigs hits) of
                             (out, emitted) \<Rightarrow>
                               (if emitted \<and> ti_monotonic env - dt_last_checkpoint dt \<ge> an_checkpoint_interval_s cfg
                                then checkpoint_now (ti_db_ok env) (ti_now env) (ti_monotonic env) s1 else s1, out))))"

text \<open>The resource round: \<open>services\<close> is the query of active units, \<open>None\<close> when it fails, and \<open>sampled\<close> the sampler's round.\<close>

definition resource_round ::
  "detector_env \<Rightarrow> string list option \<Rightarrow> (string list \<Rightarrow> resource_sampler \<Rightarrow> (resource_sampler \<times> resource_signal list) option) \<Rightarrow> detector_state \<Rightarrow> detector_state \<times> event list" where
  "resource_round env services sampled s =
     (case sampled (case services of None \<Rightarrow> [] | Some us \<Rightarrow> us) (dt_sampler (ds_detector s)) of
        None \<Rightarrow> (s, [])
      | Some (t, sigs) \<Rightarrow>
          (s\<lparr>ds_detector := (ds_detector s)\<lparr>dt_sampler := t\<rparr>\<rparr>,
           fst (emit_all (ti_emit_ok env) (List.map_filter (\<lambda>(i, g). resource_event (ti_eid env i) (ti_now env) g) (enumerate 0 sigs)))))"

section \<open>The thread\<close>

text \<open>A wake of the loop at monotonic time \<open>now\<close>: which rounds run, and the next deadlines.\<close>

definition wake :: "anomaly_config \<Rightarrow> real \<Rightarrow> real \<times> real \<Rightarrow> (bool \<times> bool) \<times> real \<times> real" where
  "wake cfg now = (\<lambda>(next_tick, next_res).
     ((now \<ge> next_res, now \<ge> next_tick),
      if now \<ge> next_tick then now + an_tick_s cfg else next_tick,
      if now \<ge> next_res then now + an_resource_tick_s cfg else next_res))"

definition wake_delay :: "real \<Rightarrow> real \<times> real \<Rightarrow> real" where
  "wake_delay now = (\<lambda>(next_tick, next_res). max (min next_tick next_res - now) 0)"

text \<open>Stopping: a thread that did not end in time keeps the tables to itself.\<close>

definition stop_detector :: "bool \<Rightarrow> nat \<Rightarrow> bool \<Rightarrow> datetime \<Rightarrow> real \<Rightarrow> detector_state \<Rightarrow> detector_state" where
  "stop_detector alive flush_ok db_ok wall now s =
     (if alive then s else checkpoint_now db_ok wall now (flush_sightings flush_ok s))"

end
