(* ===== verification/Anomaly_Checkpoint.thy ===== *)
theory Anomaly_Checkpoint
  imports Anomaly_Detector
begin

text \<open>
  The contract of a store that is checkpointed and restored row by row, in any order, and its interpretation on the metric engine,
  the beacon tracker and the resource sampler.
\<close>

section \<open>Restoring row by row\<close>

text \<open>A store whose rows can be loaded one at a time: \<open>saved p\<close> are the states that may have been written, \<open>rows p\<close> their rows, and
  \<open>restored p W s\<close> says that \<open>s\<close> is a fresh store after the rows \<open>W\<close>. The one law is that any row may come next.\<close>

fun load_run :: "('r \<Rightarrow> 's \<Rightarrow> 's \<times> unit load) \<Rightarrow> 'r list \<Rightarrow> 's \<Rightarrow> 's option" where
  "load_run ld [] s = Some s"
| "load_run ld (r # rs) s = (case ld r s of (s1, Load_ok _) \<Rightarrow> load_run ld rs s1 | _ \<Rightarrow> None)"

locale restorable =
  fixes ld :: "'r \<Rightarrow> 's \<Rightarrow> 's \<times> unit load" and saved :: "'p \<Rightarrow> bool" and rows :: "'p \<Rightarrow> 'r set" and restored :: "'p \<Rightarrow> 'r set \<Rightarrow> 's \<Rightarrow> bool"
  assumes any_row_next: "\<lbrakk>saved p; r \<in> rows p; W \<subseteq> rows p; restored p W s\<rbrakk> \<Longrightarrow> \<exists>s1. ld r s = (s1, Load_ok ()) \<and> restored p (insert r W) s1"
begin

lemma any_order_after:
  assumes "saved p" "set rs \<subseteq> rows p" "W \<subseteq> rows p" "restored p W s"
  shows "\<exists>s1. load_run ld rs s = Some s1 \<and> restored p (W \<union> set rs) s1"
  using assms(2-4)
proof (induction rs arbitrary: W s)
  case (Cons r rs)
  then obtain s1 where s1: "ld r s = (s1, Load_ok ())" "restored p (insert r W) s1" using any_row_next[OF assms(1)] by (metis list.set_intros(1) subsetD)
  then show ?case using Cons.IH[of "insert r W" s1] Cons.prems by auto
qed simp

lemma any_order: "\<lbrakk>saved p; set rs = rows p; restored p {} s\<rbrakk> \<Longrightarrow> \<exists>s1. load_run ld rs s = Some s1 \<and> restored p (rows p) s1"
  using any_order_after[of p rs "{}" s] by auto

end

section \<open>The metric engine\<close>

definition window_names :: "string set" where "window_names = fst ` set WINDOWS"

text \<open>What the rows of the windows \<open>N\<close> carry of an entity's statistics.\<close>

definition stats_core :: "string set \<Rightarrow> windowed_stats \<Rightarrow> windowed_stats" where
  "stats_core N ws = \<lparr>ws_rings = (\<lambda>n. if n \<in> N \<inter> window_names then ws_rings ws n else []),
     ws_accum = (\<lambda>n. if n \<in> N \<inter> set ACCUM_WINDOWS then ws_accum ws n else (0, 0))\<rparr>"

lemma stats_core_empty [simp]: "N \<inter> window_names = {} \<Longrightarrow> stats_core N ws = new_stats"
  by (auto simp: stats_core_def new_stats_def window_names_def WINDOWS_def ACCUM_WINDOWS_def fun_eq_iff)

lemma load_core:
  assumes "name \<in> window_names" "rings_ok ws"
  shows "load_window pf name (Some (serialize_window name ws)) (stats_core N ws) = Load_ok (stats_core (insert name N) ws)"
proof -
  have len: "length (ws_rings ws name) \<le> window_capacity name" using assms unfolding rings_ok_def window_names_def by blast
  obtain w where w: "load_window pf name (Some (serialize_window name ws)) (stats_core N ws) = Load_ok w"
    "ws_rings w = (ws_rings (stats_core N ws))(name := ws_rings ws name)"
    "ws_accum w = (if name \<in> set ACCUM_WINDOWS then (ws_accum (stats_core N ws))(name := ws_accum ws name) else ws_accum (stats_core N ws))"
    using load_serialized[OF assms(1)[unfolded window_names_def] len, of pf "stats_core N ws"] by blast
  have "w = stats_core (insert name N) ws"
    using w(2,3) assms(1) by (intro windowed_stats.equality) (auto simp: stats_core_def fun_eq_iff)
  then show ?thesis using w(1) by simp
qed

definition windows_in :: "checkpoint_row set \<Rightarrow> metric_key \<Rightarrow> string set" where
  "windows_in W k = {w. \<exists>b. (fst k, snd k, w, b) \<in> W}"

lemma windows_insert: "windows_in (insert (a, b, w, x) W) k = (if k = (a, b) then insert w (windows_in W k) else windows_in W k)"
  by (cases k) (auto simp: windows_in_def)

definition dict_values :: "pydict \<Rightarrow> bool" where
  "dict_values e \<longleftrightarrow> list_all (\<lambda>(_, v). case v of PDict _ \<Rightarrow> True | _ \<Rightarrow> False) e"

definition engine_shape :: "metric_engine \<Rightarrow> bool" where
  "engine_shape en \<longleftrightarrow> (\<forall>e\<in>snd ` set (en_entities en). dict_values e) \<and> (\<forall>k\<in>fst ` set (en_stats en). \<not> startswith (fst k) ''resource.'')"

definition engine_saved :: "anomaly_config \<Rightarrow> metric_engine \<Rightarrow> bool" where
  "engine_saved cfg en \<longleftrightarrow> engine_inv cfg en \<and> engine_shape en"

text \<open>The engine after the rows \<open>W\<close>, with the keys \<open>K\<close> admitted.\<close>

definition engine_part :: "metric_engine \<Rightarrow> metric_key set \<Rightarrow> checkpoint_row set \<Rightarrow> metric_engine \<Rightarrow> bool" where
  "engine_part en0 K W en \<longleftrightarrow>
     wf_table (en_stats en) \<and> set (keys (en_stats en)) = K
     \<and> (\<forall>k\<in>K. map_of (en_stats en) k = Some (stats_core (windows_in W k) (the (map_of (en_stats en0) k)))
          \<and> map_of (en_entities en) k = Some (if ''entity'' \<in> windows_in W k then entity_of en0 k else []))"

definition engine_restored :: "metric_engine \<Rightarrow> checkpoint_row set \<Rightarrow> metric_engine \<Rightarrow> bool" where
  "engine_restored en0 W en \<longleftrightarrow> engine_part en0 {k. windows_in W k \<noteq> {}} W en"

lemma engine_row_cases:
  assumes "(kind, key, w, b) \<in> set (engine_rows en)"
  obtains (window) ws where "((kind, key), ws) \<in> set (en_stats en)" "w \<in> window_names" "b = serialize_window w ws"
    | (entity) ws where "((kind, key), ws) \<in> set (en_stats en)" "w = ''entity''" "b = PDict (entity_of en (kind, key))" "entity_of en (kind, key) \<noteq> []"
  using assms by (auto simp: engine_rows_def window_names_def split: if_splits) force+

lemma room_for_key:
  assumes "engine_inv cfg en0" "wf_table (en_stats en)" "set (keys (en_stats en)) \<subseteq> set (keys (en_stats en0))"
    "k \<in> set (keys (en_stats en0))" "k \<notin> set (keys (en_stats en))"
  shows "int (length (tracked (fst k) en)) < an_max_entities cfg"
proof -
  have d: "distinct (tracked (fst k) en)" using assms(2) by (simp add: tracked_def)
  have s: "set (tracked (fst k) en) \<subset> set (tracked (fst k) en0)" using assms(3-5) by (auto simp: tracked_def)
  have "length (tracked (fst k) en) = card (set (tracked (fst k) en))" using d by (simp add: distinct_card)
  also have "\<dots> < card (set (tracked (fst k) en0))" using s by (simp add: psubset_card_mono)
  also have "\<dots> \<le> length (tracked (fst k) en0)" by (rule card_length)
  finally have "length (tracked (fst k) en) < length (tracked (fst k) en0)" .
  moreover have "int (length (tracked (fst k) en0)) \<le> max 0 (an_max_entities cfg)" using assms(1) by (simp add: engine_inv_def)
  ultimately show ?thesis by auto
qed

lemma update_update [simp]: "AList.update k v (AList.update k u t) = AList.update k v t"
  by (induction t) auto

lemma part_admitted:
  assumes "engine_part en0 K W en" "k \<notin> K" "windows_in W k = {}"
  shows "engine_part en0 (insert k K) W (enter k [] en)"
  using assms by (auto simp: engine_part_def enter_def engine_keys update_conv')

lemma part_window:
  assumes "engine_part en0 K W en" "(kind, key) \<in> K" "w \<noteq> ''entity''"
  shows "engine_part en0 K (insert (kind, key, w, b) W)
    (en\<lparr>en_stats := AList.update (kind, key) (stats_core (insert w (windows_in W (kind, key))) (the (map_of (en_stats en0) (kind, key)))) (en_stats en)\<rparr>)"
  using assms by (auto simp: engine_part_def engine_keys update_conv' windows_insert)

lemma part_entity:
  assumes "engine_part en0 K W en" "(kind, key) \<in> K"
  shows "engine_part en0 K (insert (kind, key, ''entity'', b) W) (en\<lparr>en_entities := AList.update (kind, key) (entity_of en0 (kind, key)) (en_entities en)\<rparr>)"
proof -
  have "stats_core (insert ''entity'' N) ws = stats_core N ws" for N ws
    by (auto simp: stats_core_def window_names_def WINDOWS_def ACCUM_WINDOWS_def fun_eq_iff)
  then show ?thesis using assms by (auto simp: engine_part_def engine_keys update_conv' windows_insert)
qed

text \<open>Admitting the key of a row never evicts: the saved engine had room for it.\<close>

lemma part_room:
  assumes "engine_saved cfg en0" "engine_part en0 K W en" "K \<subseteq> set (keys (en_stats en0))" "k \<in> set (keys (en_stats en0))" "windows_in W k \<noteq> {} \<Longrightarrow> k \<in> K"
  shows "\<exists>en1. (if k \<notin> set (keys (en_stats en)) then admit cfg k [] en else Some en) = Some en1 \<and> engine_part en0 (insert k K) W en1"
proof (cases "k \<in> K")
  case True
  then show ?thesis using assms(2) by (simp add: engine_part_def insert_absorb)
next
  case False
  have keys: "set (keys (en_stats en)) = K" "wf_table (en_stats en)" using assms(2) by (simp_all add: engine_part_def)
  have "int (length (tracked (fst k) en)) < an_max_entities cfg"
    using assms False keys by (intro room_for_key[of cfg en0]) (simp_all add: engine_saved_def)
  then have "admit cfg k [] en = Some (enter k [] en)" by (simp add: admit_def Let_def)
  then show ?thesis using part_admitted[OF assms(2) False] assms(5) False keys(1) by auto
qed

lemma admit_entity: "admit cfg k e en = map_option (\<lambda>en1. en1\<lparr>en_entities := AList.update k e (en_entities en1)\<rparr>) (admit cfg k [] en)"
  by (simp add: admit_def Let_def enter_def)

lemma load_entity_after_admit:
  "\<lbrakk>entity_blob blob = Some e; (if k \<notin> set (keys (en_stats en)) then admit cfg k [] en else Some en) = Some en1\<rbrakk>
     \<Longrightarrow> load_engine_row pf cfg k ''entity'' blob en = (en1\<lparr>en_entities := AList.update k e (en_entities en1)\<rparr>, Load_ok ())"
  using admit_entity[of cfg k e en] by (auto simp: load_engine_row_def load_entity_row_def split: if_splits)

definition load_engine_checkpoint :: "(string \<Rightarrow> real option) \<Rightarrow> anomaly_config \<Rightarrow> checkpoint_row \<Rightarrow> metric_engine \<Rightarrow> metric_engine \<times> unit load" where
  "load_engine_checkpoint pf cfg = (\<lambda>(kind, key, w, b). load_engine_row pf cfg (kind, key) w (Some b))"

lemma engine_any_row:
  assumes saved: "engine_saved cfg en0" and r: "r \<in> set (engine_rows en0)" and W: "W \<subseteq> set (engine_rows en0)" and part: "engine_restored en0 W en"
  shows "\<exists>en1. load_engine_checkpoint pf cfg r en = (en1, Load_ok ()) \<and> engine_restored en0 (insert r W) en1"
proof -
  obtain kind key w b where rk: "r = (kind, key, w, b)" by (cases r)
  let ?k = "(kind, key)" and ?K = "{k. windows_in W k \<noteq> {}}"
  have known: "(kd, ky) \<in> set (keys (en_stats en0))" if "(kd, ky, v, c) \<in> set (engine_rows en0)" for kd ky v c
    using that by (cases rule: engine_row_cases) force+
  have K: "?K \<subseteq> set (keys (en_stats en0))" using W known by (force simp: windows_in_def)
  obtain en1 where en1: "(if ?k \<notin> set (keys (en_stats en)) then admit cfg ?k [] en else Some en) = Some en1" "engine_part en0 (insert ?k ?K) W en1"
    using part_room[OF saved part[unfolded engine_restored_def] K, of ?k] known r rk by auto
  have new: "{k. windows_in (insert r W) k \<noteq> {}} = insert ?k ?K" by (auto simp: rk windows_insert)
  have wf: "wf_table (en_stats en0)" using saved by (simp add: engine_saved_def engine_inv_def)
  from r have "(kind, key, w, b) \<in> set (engine_rows en0)" by (simp add: rk)
  then show ?thesis
  proof (cases rule: engine_row_cases)
    case (window ws)
    then have ws: "map_of (en_stats en0) ?k = Some ws" using wf by simp
    have "rings_ok ws" using saved window(1) by (force simp: engine_saved_def engine_inv_def)
    from load_core[OF window(2) this] have ld: "load_window pf w (Some b) (stats_core (windows_in W ?k) ws) = Load_ok (stats_core (insert w (windows_in W ?k)) ws)"
      by (simp add: window(3))
    have "map_of (en_stats en1) ?k = Some (stats_core (windows_in W ?k) ws)" using en1(2) ws by (simp add: engine_part_def)
    moreover have ne: "w \<noteq> ''entity''" using window(2) by (auto simp: window_names_def WINDOWS_def)
    ultimately have "load_engine_row pf cfg ?k w (Some b) en
        = (en1\<lparr>en_stats := AList.update ?k (stats_core (insert w (windows_in W ?k)) ws) (en_stats en1)\<rparr>, Load_ok ())"
      using en1(1) ld by (simp add: load_engine_row_def Let_def)
    then show ?thesis using part_window[OF en1(2) _ ne, of kind key b] ws new by (simp add: engine_restored_def rk load_engine_checkpoint_def)
  next
    case (entity ws)
    have "dict_values (entity_of en0 ?k)"
      using saved by (auto simp: engine_saved_def engine_shape_def entity_of_def dict_values_def split: option.split dest!: map_of_SomeD)
    then have "entity_blob (Some b) = Some (entity_of en0 ?k)" by (simp add: entity(3) entity_blob_def dict_values_def)
    from load_entity_after_admit[OF this en1(1)] part_entity[OF en1(2), of kind key b]
    show ?thesis using new by (simp add: engine_restored_def rk entity(2) load_engine_checkpoint_def)
  qed
qed

interpretation engine_store: restorable "load_engine_checkpoint pf cfg" "engine_saved cfg" "\<lambda>en. set (engine_rows en)" engine_restored for pf cfg
  by unfold_locales (rule engine_any_row)

section \<open>The beacon tracker\<close>

definition beacon_saved :: "anomaly_config \<Rightarrow> beacon_tracker \<Rightarrow> bool" where
  "beacon_saved cfg bt \<longleftrightarrow> wf_table (bt_keys bt) \<and> int (length (bt_keys bt)) \<le> max 0 (an_max_entities cfg)
     \<and> (\<forall>st\<in>snd ` set (bt_keys bt). length (ks_intervals st) \<le> RING_SIZE)"

definition keys_in :: "checkpoint_row set \<Rightarrow> string set" where
  "keys_in W = {k. \<exists>b. (''beacon'', k, ''beacon'', b) \<in> W}"

definition beacon_restored :: "beacon_tracker \<Rightarrow> checkpoint_row set \<Rightarrow> beacon_tracker \<Rightarrow> bool" where
  "beacon_restored bt0 W bt \<longleftrightarrow>
     wf_table (bt_keys bt) \<and> set (keys (bt_keys bt)) = keys_in W
     \<and> (\<forall>k\<in>keys_in W. map_of (bt_keys bt) k = Some \<lparr>ks_last_ts = None, ks_intervals = ks_intervals (state_of k bt0)\<rparr>
          \<and> map_of (bt_last_seen bt) k = Some (ks_last_ts (state_of k bt0)))"

lemma beacon_row_iff: "wf_table (bt_keys bt) \<Longrightarrow> r \<in> set (beacon_rows bt) \<longleftrightarrow>
    (\<exists>k. k \<in> set (keys (bt_keys bt)) \<and> r = (''beacon'', k, ''beacon'',
       PDict [(''last_ts'', case ks_last_ts (state_of k bt) of None \<Rightarrow> PNone | Some t \<Rightarrow> PFloat t), (''intervals'', PList (map PFloat (ks_intervals (state_of k bt))))]))"
  by (force simp: beacon_rows_def state_of_def)

lemma beacon_row_key: "(a, k, c, b) \<in> set (beacon_rows bt) \<Longrightarrow> k \<in> fst ` set (bt_keys bt)"
  by (force simp: beacon_rows_def)

lemma beacon_blob_roundtrip:
  "beacon_blob pf (Some (PDict [(''last_ts'', case l of None \<Rightarrow> PNone | Some t \<Rightarrow> PFloat t), (''intervals'', PList (map PFloat xs))])) = Load_ok (l, xs)"
  by (cases l) (simp_all add: beacon_blob_def load_last_ts_def)

lemma beacon_room:
  assumes "beacon_saved cfg bt0" "wf_table (bt_keys bt)" "set (keys (bt_keys bt)) \<subseteq> set (keys (bt_keys bt0))" "k \<in> set (keys (bt_keys bt0))"
  shows "admit_key cfg k bt = Some (if k \<in> set (keys (bt_keys bt)) then bt else bt\<lparr>bt_keys := AList.update k new_key (bt_keys bt)\<rparr>)"
proof (cases "k \<in> set (keys (bt_keys bt))")
  case False
  then have "set (keys (bt_keys bt)) \<subset> set (keys (bt_keys bt0))" using assms(3,4) by blast
  then have "card (set (keys (bt_keys bt))) < card (set (keys (bt_keys bt0)))" by (simp add: psubset_card_mono del: set_map)
  then have "length (bt_keys bt) < length (bt_keys bt0)"
    using distinct_card[OF assms(2)] card_length[of "keys (bt_keys bt0)"] by simp
  then show ?thesis using False assms(1) by (auto simp: admit_key_def beacon_saved_def Let_def)
qed (simp add: admit_key_def)

definition load_beacon_checkpoint :: "(string \<Rightarrow> real option) \<Rightarrow> anomaly_config \<Rightarrow> checkpoint_row \<Rightarrow> beacon_tracker \<Rightarrow> beacon_tracker \<times> unit load" where
  "load_beacon_checkpoint pf cfg = (\<lambda>(kind, key, w, b). load_beacon_row pf cfg key (Some b))"

lemma keys_in_insert: "keys_in (insert (''beacon'', k, ''beacon'', b) W) = insert k (keys_in W)"
  by (auto simp: keys_in_def)

lemma beacon_any_row:
  assumes saved: "beacon_saved cfg bt0" and r: "r \<in> set (beacon_rows bt0)" and W: "W \<subseteq> set (beacon_rows bt0)" and part: "beacon_restored bt0 W bt"
  shows "\<exists>bt1. load_beacon_checkpoint pf cfg r bt = (bt1, Load_ok ()) \<and> beacon_restored bt0 (insert r W) bt1"
proof -
  have wf: "wf_table (bt_keys bt0)" using saved by (simp add: beacon_saved_def)
  obtain k where k: "k \<in> set (keys (bt_keys bt0))" and rk: "r = (''beacon'', k, ''beacon'',
       PDict [(''last_ts'', case ks_last_ts (state_of k bt0) of None \<Rightarrow> PNone | Some t \<Rightarrow> PFloat t), (''intervals'', PList (map PFloat (ks_intervals (state_of k bt0))))])"
    using r beacon_row_iff[OF wf] by blast
  have "keys_in W \<subseteq> set (keys (bt_keys bt0))" using W beacon_row_key unfolding keys_in_def set_map by blast
  then have "admit_key cfg k bt = Some (if k \<in> set (keys (bt_keys bt)) then bt else bt\<lparr>bt_keys := AList.update k new_key (bt_keys bt)\<rparr>)"
    using beacon_room[OF saved, of bt k] part k by (simp add: beacon_restored_def)
  moreover have "length (ks_intervals (state_of k bt0)) \<le> RING_SIZE"
    using saved k by (auto simp: beacon_saved_def state_of_def split: option.split dest!: map_of_SomeD)
  then have "last_n RING_SIZE (ks_intervals (state_of k bt0)) = ks_intervals (state_of k bt0)" by (simp add: last_n_def)
  ultimately have "load_beacon_checkpoint pf cfg r bt = (bt\<lparr>bt_keys := AList.update k \<lparr>ks_last_ts = None, ks_intervals = ks_intervals (state_of k bt0)\<rparr> (bt_keys bt),
        bt_last_seen := AList.update k (ks_last_ts (state_of k bt0)) (bt_last_seen bt)\<rparr>, Load_ok ())"
    by (simp add: rk load_beacon_checkpoint_def load_beacon_row_def beacon_blob_roundtrip)
  then show ?thesis using part unfolding beacon_restored_def rk keys_in_insert by (auto simp: engine_keys update_conv')
qed

interpretation beacon_store: restorable "load_beacon_checkpoint pf cfg" "beacon_saved cfg" "\<lambda>bt. set (beacon_rows bt)" beacon_restored for pf cfg
  by unfold_locales (rule beacon_any_row)

section \<open>The resource sampler\<close>

definition sampler_saved :: "resource_sampler \<Rightarrow> bool" where
  "sampler_saved t \<longleftrightarrow> wf_table t \<and> (\<forall>st\<in>snd ` set t. \<forall>metric. rings_ok (eu_baselines st metric))"

definition ring_of :: "resource_sampler \<Rightarrow> string \<Rightarrow> string \<Rightarrow> real list" where
  "ring_of t key metric = (case map_of t key of None \<Rightarrow> [] | Some st \<Rightarrow> usage_ring st metric)"

definition metrics_in :: "checkpoint_row set \<Rightarrow> string \<Rightarrow> string set" where
  "metrics_in W key = {metric. \<exists>b. (''resource.'' @ metric, key, ''1h'', b) \<in> W}"

definition usage_core :: "resource_sampler \<Rightarrow> string \<Rightarrow> string set \<Rightarrow> entity_usage" where
  "usage_core t0 key M = new_usage\<lparr>eu_baselines := (\<lambda>m. if m \<in> M then new_stats\<lparr>ws_rings := (\<lambda>_. [])(''1h'' := ring_of t0 key m)\<rparr> else new_stats)\<rparr>"

definition sampler_restored :: "resource_sampler \<Rightarrow> checkpoint_row set \<Rightarrow> resource_sampler \<Rightarrow> bool" where
  "sampler_restored t0 W t \<longleftrightarrow> wf_table t
     \<and> (\<forall>key. map_of t key = (if metrics_in W key = {} then None else Some (usage_core t0 key (metrics_in W key))))"

lemma metrics_insert: "metrics_in (insert (''resource.'' @ m, k, ''1h'', b) W) key = (if key = k then insert m (metrics_in W key) else metrics_in W key)"
  by (auto simp: metrics_in_def)

lemma resource_row_cases:
  assumes "r \<in> set (resource_rows t)" "wf_table t"
  obtains key metric where "metric \<in> set METRICS" "r = (''resource.'' @ metric, key, ''1h'', PDict [(''ring'', PList (map PFloat (ring_of t key metric)))])"
    "ring_of t key metric \<noteq> []"
  using assms
  by (force simp: resource_rows_def serialize_window_def ACCUM_WINDOWS_def ring_of_def split: if_splits)

definition load_resource_checkpoint :: "(string \<Rightarrow> real option) \<Rightarrow> checkpoint_row \<Rightarrow> resource_sampler \<Rightarrow> resource_sampler \<times> unit load" where
  "load_resource_checkpoint pf = (\<lambda>(kind, key, w, b). load_resource_row pf kind key w (Some b))"

lemma load_ring:
  "length xs \<le> 60 \<Longrightarrow> load_window pf ''1h'' (Some (PDict [(''ring'', PList (map PFloat xs))])) ws = Load_ok (ws\<lparr>ws_rings := (ws_rings ws)(''1h'' := xs)\<rparr>)"
  by (simp add: load_window_def WINDOWS_def ACCUM_WINDOWS_def last_n_def Let_def)

lemma resource_any_row:
  assumes saved: "sampler_saved t0" and r: "r \<in> set (resource_rows t0)" and W: "W \<subseteq> set (resource_rows t0)" and part: "sampler_restored t0 W t"
  shows "\<exists>t1. load_resource_checkpoint pf r t = (t1, Load_ok ()) \<and> sampler_restored t0 (insert r W) t1"
proof -
  have wf: "wf_table t0" using saved by (simp add: sampler_saved_def)
  obtain key metric where m: "metric \<in> set METRICS" and rk: "r = (''resource.'' @ metric, key, ''1h'', PDict [(''ring'', PList (map PFloat (ring_of t0 key metric)))])"
    using resource_row_cases[OF r wf] by metis
  let ?M = "metrics_in W key"
  have len: "length (ring_of t0 key metric) \<le> 60"
    using saved by (force simp: sampler_saved_def ring_of_def rings_ok_def WINDOWS_def split: option.split dest!: map_of_SomeD)
  have st: "(case map_of t key of None \<Rightarrow> new_usage | Some st \<Rightarrow> st) = usage_core t0 key ?M"
    using part by (simp add: sampler_restored_def usage_core_def new_usage_def)
  have upd: "usage_core t0 key ?M\<lparr>eu_baselines := (eu_baselines (usage_core t0 key ?M))(metric := eu_baselines (usage_core t0 key ?M) metric
      \<lparr>ws_rings := (ws_rings (eu_baselines (usage_core t0 key ?M) metric))(''1h'' := ring_of t0 key metric)\<rparr>)\<rparr> = usage_core t0 key (insert metric ?M)"
    by (auto simp: usage_core_def new_usage_def new_stats_def fun_eq_iff)
  have "load_resource_checkpoint pf r t = (AList.update key (usage_core t0 key (insert metric ?M)) t, Load_ok ())"
    using m st load_ring[OF len, of pf "eu_baselines (usage_core t0 key ?M) metric"] upd
    by (simp add: rk load_resource_checkpoint_def load_resource_row_def Let_def)
  then show ?thesis using part unfolding sampler_restored_def rk metrics_insert by (auto simp: update_conv')
qed

interpretation resource_store: restorable "load_resource_checkpoint pf" sampler_saved "\<lambda>t. set (resource_rows t)" sampler_restored for pf
  by unfold_locales (rule resource_any_row)

end
