(* ===== verification/Anomaly_Restart.thy ===== *)
theory Anomaly_Restart
  imports Anomaly_Checkpoint
begin

text \<open>
  The invariant of the detector over every tick, resource round, restore and stop, and that a checkpoint restores every
  baseline.
\<close>

section \<open>The invariant of the engine's shape\<close>

definition sample_ok :: "metric_sample \<Rightarrow> bool" where
  "sample_ok sm \<longleftrightarrow> dict_values (sm_entity sm) \<and> \<not> startswith (sm_kind sm) ''resource.''"

lemma samples_ok: "sm \<in> set (extract_samples ostr e) \<Longrightarrow> sample_ok sm"
  by (auto simp: extract_samples_def connection_samples_def user_sample_def write_sample_def plain_sample_def sample_ok_def dict_values_def Let_def
      split: if_splits option.splits)

lemma values_update: "\<lbrakk>\<forall>x\<in>set t. P (snd x); P v\<rbrakk> \<Longrightarrow> \<forall>x\<in>set (AList.update k v t). P (snd x)"
  by (induction t) auto

lemma values_delete: "\<forall>x\<in>set t. P (snd x) \<Longrightarrow> \<forall>x\<in>set (AList.delete k t). P (snd x)"
  by (induction t) auto

lemma engine_shape_iff: "engine_shape en \<longleftrightarrow> (\<forall>x\<in>set (en_entities en). dict_values (snd x)) \<and> (\<forall>k\<in>fst ` set (en_stats en). \<not> startswith (fst k) ''resource.'')"
  by (simp add: engine_shape_def)

lemma shape_same: "\<lbrakk>engine_shape en; en_entities en' = en_entities en; fst ` set (en_stats en') = fst ` set (en_stats en)\<rbrakk> \<Longrightarrow> engine_shape en'"
  by (simp only: engine_shape_iff)

lemma entity_shape: "\<lbrakk>engine_shape en; dict_values e\<rbrakk> \<Longrightarrow> engine_shape (en\<lparr>en_entities := AList.update k e (en_entities en)\<rparr>)"
  using values_update[of "en_entities en" dict_values e k] by (simp add: engine_shape_iff)

lemma enter_shape: "\<lbrakk>engine_shape en; dict_values e; \<not> startswith (fst k) ''resource.''\<rbrakk> \<Longrightarrow> engine_shape (enter k e en)"
  using values_update[of "en_entities en" dict_values e k] unfolding engine_shape_iff enter_def by (simp add: keys_update del: bex_simps ball_simps) blast

lemma evict_shape: "engine_shape en \<Longrightarrow> engine_shape (evict v en)"
  using values_delete[of "en_entities en" dict_values v] unfolding engine_shape_iff evict_def by (simp add: keys_delete_set) auto

lemma admit_shape: "\<lbrakk>admit cfg k e en = Some en'; engine_shape en; dict_values e; \<not> startswith (fst k) ''resource.''\<rbrakk> \<Longrightarrow> engine_shape en'"
  by (auto simp: admit_def Let_def enter_shape evict_shape split: if_splits)

lemma ingest_saved:
  assumes "ingest cfg sm ts en = Some en'" "engine_saved cfg en" "sample_ok sm"
  shows "engine_saved cfg en'"
proof -
  let ?k = "(sm_kind sm, sm_key sm)"
  obtain en1 where en1: "en' = count_sample ?k (sm_value sm) (minute_of ts) en1"
    "(if ?k \<notin> set (keys (en_stats en)) then admit cfg ?k (sm_entity sm) en else Some (heal ?k (sm_entity sm) en)) = Some en1"
    using assms(1) by (auto simp: ingest_def Let_def)
  have "engine_shape en1" using en1(2) assms(2,3) admit_shape[of cfg ?k "sm_entity sm" en en1] entity_shape[of en "sm_entity sm" ?k]
    by (cases "?k \<in> set (keys (en_stats en))") (auto simp: heal_def engine_saved_def sample_ok_def split: if_splits)
  then have "engine_shape en'" unfolding en1(1) by (rule shape_same) (simp_all add: count_sample_def Let_def)
  then show ?thesis using ingest_inv[OF assms(1)] assms(2) by (simp add: engine_saved_def)
qed

lemma close_minutes_keeps: "en_entities (fst (close_minutes cfg n m en)) = en_entities en \<and> keys (en_stats (fst (close_minutes cfg n m en))) = keys (en_stats en)"
proof (induction n arbitrary: m en)
  case (Suc n)
  have "fst (close_minutes cfg (Suc n) m en) = fst (close_minutes cfg n (m + 1) (close_minute cfg m en))" by (simp split: prod.split)
  then show ?case using Suc[of "m + 1" "close_minute cfg m en"] by simp
qed simp

lemma engine_tick_saved: "engine_saved cfg en \<Longrightarrow> engine_saved cfg (fst (engine_tick cfg now en))"
proof -
  assume s: "engine_saved cfg en"
  have same: "en_entities (fst (engine_tick cfg now en)) = en_entities en" "keys (en_stats (fst (engine_tick cfg now en))) = keys (en_stats en)"
    by (simp_all add: engine_tick_def Let_def skip_downtime_def close_minutes_keeps)
  have "engine_shape (fst (engine_tick cfg now en))"
    by (rule shape_same[OF _ same(1)]) (use s in \<open>simp add: engine_saved_def\<close>, metis same(2) set_map)
  then show ?thesis using s engine_tick_effect[of cfg en now] by (cases "engine_tick cfg now en") (simp add: engine_saved_def)
qed

lemma load_engine_saved:
  assumes "engine_saved cfg en" "\<not> startswith (fst k) ''resource.''"
  shows "engine_saved cfg (fst (load_engine_row pf cfg k w blob en))"
proof -
  have ent: "dict_values e" if "entity_blob blob = Some e" for e
    using that by (auto simp: entity_blob_def dict_values_def split: option.splits pyval.splits if_splits)
  have nil: "dict_values []" by (simp add: dict_values_def)
  have "engine_shape (fst (load_engine_row pf cfg k w blob en))"
  proof (cases "w = ''entity''")
    case True
    then show ?thesis using assms ent
      by (auto simp: load_engine_row_def load_entity_row_def engine_saved_def intro: admit_shape entity_shape split: option.split load.splits if_splits)
  next
    case False
    have st: "engine_shape (en1\<lparr>en_stats := AList.update k ws (en_stats en1)\<rparr>)" if "engine_shape en1" for en1 ws
      using that assms(2) unfolding engine_shape_iff by (simp add: keys_update)
    have fg: "engine_shape (forget k en1)" if "engine_shape en1" for en1
      using that values_delete[of "en_entities en1" dict_values k] unfolding engine_shape_iff forget_def by (simp add: keys_delete_set) auto
    show ?thesis
    proof (cases "if k \<notin> set (keys (en_stats en)) then admit cfg k [] en else Some en")
      case None
      then show ?thesis using False assms(1) by (simp add: load_engine_row_def Let_def engine_saved_def)
    next
      case (Some en1)
      then have "engine_shape en1" using assms nil admit_shape[of cfg k "[]" en en1] by (auto simp: engine_saved_def split: if_splits)
      then show ?thesis using Some False st fg by (auto simp: load_engine_row_def Let_def split: load.split)
    qed
  qed
  then show ?thesis using assms load_engine_row_inv[of cfg en pf k w blob] by (simp add: engine_saved_def)
qed

section \<open>The invariants of the trackers\<close>

lemma admit_key_saved:
  assumes "admit_key cfg k bt = Some bt1" "beacon_saved cfg bt"
  shows "beacon_saved cfg bt1 \<and> k \<in> set (keys (bt_keys bt1))"
proof (cases "k \<in> set (keys (bt_keys bt))")
  case True
  then show ?thesis using assms by (simp add: admit_key_def)
next
  case new: False
  have grow: "beacon_saved cfg (b\<lparr>bt_keys := AList.update k new_key (bt_keys b)\<rparr>)"
    if "beacon_saved cfg b" "int (length (bt_keys b)) < an_max_entities cfg" "k \<notin> set (keys (bt_keys b))" for b
  proof -
    have "length (AList.update k new_key (bt_keys b)) = Suc (length (bt_keys b))"
      using tracked_update_new[OF that(3), of new_key] by (metis length_map length_append_singleton)
    then show ?thesis using that values_update[of "bt_keys b" "\<lambda>st. length (ks_intervals st) \<le> RING_SIZE" new_key k]
      by (simp add: beacon_saved_def new_key_def)
  qed
  show ?thesis
  proof (cases "int (length (bt_keys bt)) \<ge> an_max_entities cfg")
    case False
    then show ?thesis using assms new grow[of bt] by (auto simp: admit_key_def Let_def engine_keys)
  next
    case True
    let ?v = "arg_min_list (last_seen bt) (keys (bt_keys bt))"
    let ?b = "bt\<lparr>bt_keys := AList.delete ?v (bt_keys bt), bt_last_seen := AList.delete ?v (bt_last_seen bt)\<rparr>"
    have ne: "bt_keys bt \<noteq> []" and b1: "bt1 = ?b\<lparr>bt_keys := AList.update k new_key (bt_keys ?b)\<rparr>"
      using assms(1) new True by (auto simp: admit_key_def Let_def split: if_splits)
    have "?v \<in> set (keys (bt_keys bt))" using ne by (intro arg_min_list_mem) simp
    then have "length (filter (\<lambda>x. x \<noteq> ?v) (keys (bt_keys bt))) < length (keys (bt_keys bt))" by (rule length_filter_less) simp
    then have less: "length (AList.delete ?v (bt_keys bt)) < length (bt_keys bt)" by (metis keys_delete length_map)
    have "beacon_saved cfg ?b" "int (length (bt_keys ?b)) < an_max_entities cfg"
      using assms(2) less values_delete[of "bt_keys bt" "\<lambda>st. length (ks_intervals st) \<le> RING_SIZE" ?v] by (auto simp: beacon_saved_def)
    from grow[OF this] show ?thesis using new unfolding b1 by (auto simp: engine_keys)
  qed
qed

lemma put_key_saved:
  assumes "beacon_saved cfg bt" "k \<in> set (keys (bt_keys bt))" "length (ks_intervals st) \<le> RING_SIZE"
  shows "beacon_saved cfg (bt\<lparr>bt_keys := AList.update k st (bt_keys bt), bt_last_seen := ls\<rparr>)"
proof -
  have "length (AList.update k st (bt_keys bt)) = length (bt_keys bt)"
    using assms(2) update_keys_old[of k "bt_keys bt" st] by (metis length_map set_map)
  then show ?thesis using assms values_update[of "bt_keys bt" "\<lambda>st. length (ks_intervals st) \<le> RING_SIZE" st k] by (simp add: beacon_saved_def)
qed

lemma observe_beacon_saved: "\<lbrakk>observe_beacon cfg name ip port ts bt = Some (bt1, h); beacon_saved cfg bt\<rbrakk> \<Longrightarrow> beacon_saved cfg bt1"
proof -
  assume o: "observe_beacon cfg name ip port ts bt = Some (bt1, h)" and s: "beacon_saved cfg bt"
  let ?k = "beacon_key name ip port"
  obtain b where b: "admit_key cfg ?k bt = Some b" "bt1 = b\<lparr>bt_keys := AList.update ?k (see_connection (beacon_epoch ts) (state_of ?k b)) (bt_keys b),
      bt_last_seen := AList.update ?k (Some (beacon_epoch ts)) (bt_last_seen b)\<rparr>"
    using o by (auto simp: observe_beacon_def Let_def split: option.splits)
  note sb = admit_key_saved[OF b(1) s]
  have "length (ks_intervals (state_of ?k b)) \<le> RING_SIZE"
    using sb by (auto simp: beacon_saved_def state_of_def new_key_def split: option.split dest!: map_of_SomeD)
  then have "length (ks_intervals (see_connection (beacon_epoch ts) (state_of ?k b))) \<le> RING_SIZE"
    by (auto simp: see_connection_def split: option.split)
  then show ?thesis using sb put_key_saved unfolding b(2) by blast
qed

lemma load_beacon_saved: "beacon_saved cfg bt \<Longrightarrow> beacon_saved cfg (fst (load_beacon_row pf cfg k blob bt))"
  by (auto simp: load_beacon_row_def length_last_n dest!: admit_key_saved intro!: put_key_saved split: load.split option.split)

definition usage_ok :: "entity_usage \<Rightarrow> bool" where
  "usage_ok st \<longleftrightarrow> (\<forall>metric. rings_ok (eu_baselines st metric))"

lemma observe_usage_ok: "usage_ok st \<Longrightarrow> usage_ok (fst (observe_usage cfg key unit metric v st))"
  by (auto simp: usage_ok_def observe_usage_def Let_def push_minute_rings)

lemma observe_samples_ok: "usage_ok st \<Longrightarrow> usage_ok (fst (observe_samples cfg key unit xs st))"
proof (induction xs arbitrary: st)
  case (Cons x xs)
  obtain metric v where x: "x = (metric, v)" by (cases x)
  obtain st1 f where o: "observe_usage cfg key unit metric v st = (st1, f)" by (cases "observe_usage cfg key unit metric v st")
  then have "usage_ok st1" using observe_usage_ok[OF Cons.prems, of cfg key unit metric v] by simp
  from Cons.IH[OF this] show ?case by (simp add: x o split: prod.split) (metis fst_conv)
qed simp

lemma sampler_put: "\<lbrakk>sampler_saved t; usage_ok st\<rbrakk> \<Longrightarrow> sampler_saved (AList.update key st t)"
  using values_update[of t usage_ok st key] by (simp add: sampler_saved_def usage_ok_def)

lemma sampler_entry: "sampler_saved t \<Longrightarrow> usage_ok (case map_of t key of None \<Rightarrow> new_usage | Some st \<Rightarrow> st)"
  by (auto simp: sampler_saved_def usage_ok_def new_usage_def split: option.split dest!: map_of_SomeD)

lemma sample_one_saved: "sampler_saved t \<Longrightarrow> sampler_saved (fst (sample_one cfg clk proc now x t))"
proof -
  assume s: "sampler_saved t"
  obtain key unit pid where x: "x = (key, unit, pid)" by (cases x)
  let ?st = "case map_of t key of None \<Rightarrow> new_usage | Some st \<Rightarrow> st"
  have ok: "usage_ok ?st" by (rule sampler_entry[OF s])
  have upd: "usage_ok (?st\<lparr>eu_pid := a, eu_prev_ticks := b\<rparr>)" "usage_ok (?st\<lparr>eu_pid := a, eu_prev_ticks := b, eu_prev_t := c\<rparr>)" for a b c
    using ok by (simp_all add: usage_ok_def)
  have obs: "sampler_saved (AList.update key (fst (observe_samples cfg key unit xs st)) t)" if "usage_ok st" for xs st
    by (rule sampler_put[OF s observe_samples_ok[OF that]])
  show ?thesis
  proof (cases "proc pid")
    case None
    then show ?thesis using sampler_put[OF s upd(1)] by (simp add: sample_one_def x Let_def)
  next
    case (Some p)
    obtain stat status where p: "p = (stat, status)" by (cases p)
    have "usage_ok (case cpu_ticks stat of None \<Rightarrow> ?st | Some n \<Rightarrow> ?st\<lparr>eu_pid := Some pid, eu_prev_ticks := Some n, eu_prev_t := Some now\<rparr>)"
      using ok upd by (cases "cpu_ticks stat") simp_all
    from obs[OF this] show ?thesis using Some by (simp add: sample_one_def x p Let_def split: prod.split) (metis fst_conv)
  qed
qed

lemma sample_each_saved: "sampler_saved t \<Longrightarrow> sampler_saved (fst (sample_each cfg clk proc now xs t))"
proof (induction xs arbitrary: t)
  case (Cons x xs)
  obtain t1 g where o: "sample_one cfg clk proc now x t = (t1, g)" by (cases "sample_one cfg clk proc now x t")
  then have "sampler_saved t1" using sample_one_saved[OF Cons.prems, of cfg clk proc now x] by simp
  from Cons.IH[OF this] show ?case by (simp add: o split: prod.split) (metis fst_conv)
qed simp

lemma sample_resources_saved: "\<lbrakk>sample_resources cfg clk self_pid cgroup proc units now t = Some (t1, sigs); sampler_saved t\<rbrakk> \<Longrightarrow> sampler_saved t1"
proof -
  assume r: "sample_resources cfg clk self_pid cgroup proc units now t = Some (t1, sigs)" and s: "sampler_saved t"
  then obtain ts where "sample_each cfg clk proc now ((''self'', None, self_pid) # ts) t = (t1, sigs)"
    unfolding sample_resources_def by (auto simp del: sample_each.simps split: option.splits)
  then show ?thesis using sample_each_saved[OF s, of cfg clk proc now "(''self'', None, self_pid) # ts"] by (simp del: sample_each.simps)
qed

lemma load_resource_saved: "sampler_saved t \<Longrightarrow> sampler_saved (fst (load_resource_row pf kind key w blob t))"
proof -
  assume s: "sampler_saved t"
  let ?st = "case map_of t key of None \<Rightarrow> new_usage | Some st \<Rightarrow> st" and ?m = "drop (length ''resource.'') kind"
  have "usage_ok (?st\<lparr>eu_baselines := (eu_baselines ?st)(?m := ws)\<rparr>)" if "load_window pf ''1h'' blob (eu_baselines ?st ?m) = Load_ok ws" for ws
    using sampler_entry[OF s, of key] load_window_rings[OF that] by (simp add: usage_ok_def)
  then show ?thesis using s sampler_put[OF s] by (auto simp: load_resource_row_def Let_def split: load.split)
qed

section \<open>The invariant of the detector\<close>

definition detector_saved :: "anomaly_config \<Rightarrow> detector \<Rightarrow> bool" where
  "detector_saved cfg dt \<longleftrightarrow> engine_saved cfg (dt_engine dt) \<and> beacon_saved cfg (dt_beacon dt) \<and> sampler_saved (dt_sampler dt)"

lemma new_detector_saved: "detector_saved cfg (new_detector now)"
  by (simp add: detector_saved_def new_detector_def engine_saved_def engine_inv_def engine_shape_def new_engine_def tracked_def buckets_open_def
      beacon_saved_def new_beacon_tracker_def sampler_saved_def)

lemma ingest_all_saved: "\<lbrakk>list_all sample_ok xs; engine_saved cfg en\<rbrakk> \<Longrightarrow> engine_saved cfg (fst (ingest_all cfg ts xs en))"
proof (induction xs arbitrary: en)
  case (Cons x xs)
  then show ?case by (cases "ingest cfg x ts en") (auto intro: ingest_saved)
qed simp

lemma observe_connection_saved: "\<lbrakk>observe_connection ostr cfg e bt = Some (bt1, h); beacon_saved cfg bt\<rbrakk> \<Longrightarrow> beacon_saved cfg bt1"
  by (auto simp: observe_connection_def Let_def intro: observe_beacon_saved split: if_splits pyval.splits)

lemma drain_event_saved: "detector_saved cfg (fst x) \<Longrightarrow> detector_saved cfg (fst (fst (drain_event ostr cfg e x)))"
proof -
  assume s: "detector_saved cfg (fst x)"
  obtain dt hits where x: "x = (dt, hits)" by (cases x)
  obtain en ok where i: "ingest_all cfg (ev_ts e) (extract_samples ostr e) (dt_engine dt) = (en, ok)" by (cases "ingest_all cfg (ev_ts e) (extract_samples ostr e) (dt_engine dt)")
  have "list_all sample_ok (extract_samples ostr e)" using samples_ok by (auto simp: list_all_iff)
  then have en: "engine_saved cfg en" using ingest_all_saved[of "extract_samples ostr e" cfg "dt_engine dt" "ev_ts e"] s by (simp add: x i detector_saved_def)
  have "beacon_saved cfg bt" if "observe_connection ostr cfg e (dt_beacon dt) = Some (bt, h)" for bt h
    using observe_connection_saved[OF that] s by (simp add: x detector_saved_def)
  then show ?thesis using s en by (auto simp: drain_event_def x i detector_saved_def split: option.splits bool.splits)
qed

lemma drain_saved: "detector_saved cfg (fst x) \<Longrightarrow> detector_saved cfg (fst (fst (drain ostr cfg sub x)))"
proof (induction ostr cfg sub x rule: drain.induct)
  case (1 ostr cfg sub x)
  show ?case
  proof (cases "get_nowait sub")
    case None
    then show ?thesis using 1(2) by (simp add: drain.simps)
  next
    case (Some p)
    obtain e sub1 where p: "p = (e, sub1)" by (cases p)
    obtain x1 ok where d: "drain_event ostr cfg e x = (x1, ok)" by (cases "drain_event ostr cfg e x")
    have "detector_saved cfg (fst x1)" using drain_event_saved[OF 1(2), of ostr e] by (simp add: d)
    then show ?thesis using 1(1)[OF Some p[symmetric] d[symmetric]] Some d unfolding drain.simps[of ostr cfg sub x] by (cases ok) (simp_all add: p)
  qed
qed

lemma checkpoint_saved: "detector_saved cfg dt \<Longrightarrow> detector_saved cfg (fst (fst (checkpoint db_ok wall now (dt, t))))"
  by (auto simp: checkpoint_def Let_def detector_saved_def drain_evicted_def engine_saved_def engine_inv_def engine_shape_def tracked_def buckets_open_def)

lemma load_row_saved: "detector_saved cfg dt \<Longrightarrow> detector_saved cfg (fst (load_checkpoint_row pf cfg k blob dt))"
proof -
  assume s: "detector_saved cfg dt"
  obtain kind key w where k: "k = (kind, key, w)" by (cases k)
  show ?thesis using s load_resource_saved[of "dt_sampler dt" pf kind key w blob] load_beacon_saved[of cfg "dt_beacon dt" pf key blob]
      load_engine_saved[of cfg "dt_engine dt" "(kind, key)" pf w blob]
    by (auto simp: load_checkpoint_row_def k detector_saved_def split: prod.split)
qed

lemma load_rows_saved: "detector_saved cfg (fst x) \<Longrightarrow> detector_saved cfg (fst (fst (load_rows pf cfg del_ok now rows n x)))"
proof (induction pf cfg del_ok now rows n x rule: load_rows.induct)
  case (2 pf cfg del_ok now k blob updated_at rows n dt t)
  obtain dt1 r where l: "load_checkpoint_row pf cfg k blob dt = (dt1, r)" by (cases "load_checkpoint_row pf cfg k blob dt")
  have "detector_saved cfg dt1" using load_row_saved[of cfg dt pf k blob] 2(4) by (simp add: l)
  then show ?case using 2 l by (cases r) simp_all
qed simp

lemma load_checkpoints_saved: "detector_saved cfg dt \<Longrightarrow> detector_saved cfg (fst (fst (load_checkpoints pf cfg del_ok now rows (dt, t))))"
  using load_rows_saved[of cfg "(dt, t)"] by (auto simp: load_checkpoints_def split: option.split)

lemma checkpoint_now_saved: "detector_saved cfg (ds_detector s) \<Longrightarrow> detector_saved cfg (ds_detector (checkpoint_now db_ok wall now s))"
  using checkpoint_saved[of cfg "ds_detector s" db_ok wall now "ds_baseline s"] by (auto simp: checkpoint_now_def split: prod.split)

lemma flush_keeps [simp]: "ds_detector (flush_sightings ok s) = ds_detector s" "ds_baseline (flush_sightings ok s) = ds_baseline s" "ds_sub (flush_sightings ok s) = ds_sub s"
  by (simp_all add: flush_sightings_def split: prod.split)

lemma detector_tick_saved: "detector_saved cfg (ds_detector s) \<Longrightarrow> detector_saved cfg (ds_detector (fst (detector_tick ostr cfg env s)))"
proof -
  assume s: "detector_saved cfg (ds_detector s)"
  obtain dt hits sub ok where d: "drain ostr cfg (ds_sub s) (ds_detector s, []) = ((dt, hits), sub, ok)" by (metis prod.collapse)
  obtain en sigs where t: "engine_tick cfg (ti_now env) (dt_engine dt) = (en, sigs)" by (cases "engine_tick cfg (ti_now env) (dt_engine dt)")
  have dt: "detector_saved cfg dt" using drain_saved[of cfg "(ds_detector s, [])" ostr "ds_sub s"] s by (simp add: d)
  then have "detector_saved cfg (dt\<lparr>dt_engine := en\<rparr>)"
    using engine_tick_saved[of cfg "dt_engine dt" "ti_now env"] by (simp add: detector_saved_def t)
  then show ?thesis using dt by (auto simp: detector_tick_def Let_def d t intro: checkpoint_now_saved split: prod.split)
qed

lemma resource_round_saved:
  "detector_saved cfg (ds_detector s) \<Longrightarrow>
     detector_saved cfg (ds_detector (fst (resource_round env services (\<lambda>us. sample_resources cfg clk self_pid cgroup proc us now) s)))"
  by (auto simp: resource_round_def detector_saved_def intro: sample_resources_saved split: option.split)

text \<open>Everything the thread and its surroundings do: ticks, resource rounds, a restore, the final stop, and anything that leaves the
  detector and its checkpoints alone, such as events arriving in the queue.\<close>

inductive detector_reach :: "(pyval \<Rightarrow> string) \<Rightarrow> (string \<Rightarrow> real option) \<Rightarrow> anomaly_config \<Rightarrow> detector_state \<Rightarrow> bool" for ostr pf cfg where
  started: "ds_detector s = new_detector now \<Longrightarrow> detector_reach ostr pf cfg s"
| ticked: "detector_reach ostr pf cfg s \<Longrightarrow> detector_reach ostr pf cfg (fst (detector_tick ostr cfg env s))"
| sampled: "detector_reach ostr pf cfg s \<Longrightarrow>
    detector_reach ostr pf cfg (fst (resource_round env services (\<lambda>us. sample_resources cfg clk self_pid cgroup proc us now) s))"
| loaded: "\<lbrakk>detector_reach ostr pf cfg s; load_checkpoints pf cfg del_ok wall rows (ds_detector s, ds_baseline s) = ((dt, t), r)\<rbrakk> \<Longrightarrow>
    detector_reach ostr pf cfg (s\<lparr>ds_detector := dt, ds_baseline := t\<rparr>)"
| stopped: "detector_reach ostr pf cfg s \<Longrightarrow> detector_reach ostr pf cfg (stop_detector alive flush_ok db_ok wall now s)"
| elsewhere: "\<lbrakk>detector_reach ostr pf cfg s; ds_detector s' = ds_detector s; ds_baseline s' = ds_baseline s\<rbrakk> \<Longrightarrow> detector_reach ostr pf cfg s'"

lemma reach_saved: "detector_reach ostr pf cfg s \<Longrightarrow> detector_saved cfg (ds_detector s)"
proof (induction rule: detector_reach.induct)
  case (loaded s del_ok wall rows dt t r)
  then show ?case using load_checkpoints_saved[of cfg "ds_detector s" pf del_ok wall rows "ds_baseline s"] by simp
next
  case (stopped s alive flush_ok db_ok wall now)
  then show ?case by (simp add: stop_detector_def checkpoint_now_saved)
qed (simp_all add: new_detector_saved detector_tick_saved resource_round_saved)

section \<open>The rows of the detector\<close>

definition row_key :: "checkpoint_row \<Rightarrow> baseline_key" where "row_key = (\<lambda>(a, b, c, _). (a, b, c))"

lemma distinct_concat_map:
  assumes "distinct xs" "\<And>x. x \<in> set xs \<Longrightarrow> distinct (f x)" "\<And>x y z. \<lbrakk>x \<in> set xs; y \<in> set xs; z \<in> set (f x); z \<in> set (f y)\<rbrakk> \<Longrightarrow> x = y"
  shows "distinct (concat (map f xs))"
  using assms
proof (induction xs)
  case (Cons x xs)
  have "set (f x) \<inter> (\<Union>y\<in>set xs. set (f y)) = {}" using Cons.prems(1,3) by fastforce
  then show ?case using Cons by auto
qed simp

definition row_windows :: "metric_engine \<Rightarrow> metric_key \<Rightarrow> string list" where
  "row_windows en k = [''1h'', ''24h'', ''7d''] @ (if entity_of en k = [] then [] else [''entity''])"

lemma engine_row_keys: "map row_key (engine_rows en) = concat (map (\<lambda>k. map (\<lambda>w. (fst k, snd k, w)) (row_windows en k)) (keys (en_stats en)))"
proof -
  have one: "map row_key (map (\<lambda>(name, _). (kind, key, name, serialize_window name ws)) WINDOWS
        @ (if entity_of en (kind, key) = [] then [] else [(kind, key, ''entity'', PDict (entity_of en (kind, key)))]))
      = map (\<lambda>w. (kind, key, w)) (row_windows en (kind, key))" for kind key ws
    by (simp add: row_windows_def row_key_def WINDOWS_def)
  show ?thesis unfolding engine_rows_def map_concat map_map
  proof (intro arg_cong[where f = concat] map_cong refl)
    fix x :: "metric_key \<times> windowed_stats"
    obtain kind key ws where x: "x = ((kind, key), ws)" by (metis prod.collapse)
    show "(map row_key \<circ> (\<lambda>((kind, key), ws). map (\<lambda>(name, _). (kind, key, name, serialize_window name ws)) WINDOWS
        @ (if entity_of en (kind, key) = [] then [] else [(kind, key, ''entity'', PDict (entity_of en (kind, key)))]))) x
      = ((\<lambda>k. map (\<lambda>w. (fst k, snd k, w)) (row_windows en k)) \<circ> fst) x"
      using one[of kind key ws] by (simp only: x comp_def prod.case fst_conv snd_conv)
  qed
qed

lemma engine_rows_distinct: "wf_table (en_stats en) \<Longrightarrow> distinct (map row_key (engine_rows en))"
  unfolding engine_row_keys
proof (rule distinct_concat_map)
  fix k show "distinct (map (\<lambda>w. (fst k, snd k, w)) (row_windows en k))" by (simp add: row_windows_def)
  fix x y z assume "z \<in> set (map (\<lambda>w. (fst x, snd x, w)) (row_windows en x))" "z \<in> set (map (\<lambda>w. (fst y, snd y, w)) (row_windows en y))"
  then show "x = y" by (auto simp: prod_eq_iff)
qed

lemma beacon_rows_distinct: "wf_table (bt_keys bt) \<Longrightarrow> distinct (map row_key (beacon_rows bt))"
proof -
  assume "wf_table (bt_keys bt)"
  moreover have "map row_key (beacon_rows bt) = map (\<lambda>k. (''beacon'', k, ''beacon'')) (keys (bt_keys bt))"
    by (simp add: beacon_rows_def comp_def row_key_def case_prod_beta)
  ultimately show ?thesis by (simp add: distinct_map inj_on_def)
qed

lemma resource_row_keys: "map row_key (resource_rows t) = concat (map (\<lambda>x. map (\<lambda>m. (''resource.'' @ m, fst x, ''1h''))
    (filter (\<lambda>m. usage_ring (snd x) m \<noteq> []) METRICS)) t)"
  by (induction t) (auto simp: resource_rows_def row_key_def METRICS_def)

lemma resource_rows_distinct: "wf_table t \<Longrightarrow> distinct (map row_key (resource_rows t))"
  unfolding resource_row_keys
proof (rule distinct_concat_map)
  assume wf: "wf_table t"
  then show "distinct t" by (simp add: distinct_map)
  fix x y z assume "x \<in> set t" "y \<in> set t" "z \<in> set (map (\<lambda>m. (''resource.'' @ m, fst x, ''1h'')) (filter (\<lambda>m. usage_ring (snd x) m \<noteq> []) METRICS))"
    "z \<in> set (map (\<lambda>m. (''resource.'' @ m, fst y, ''1h'')) (filter (\<lambda>m. usage_ring (snd y) m \<noteq> []) METRICS))"
  then have "fst x = fst y" "(fst x, snd x) \<in> set t" "(fst y, snd y) \<in> set t" by auto
  then show "x = y" using wf eq_key_imp_eq_value[of t "fst x" "snd x" "snd y"] by (simp add: prod_eq_iff)
qed (auto simp: distinct_map inj_on_def METRICS_def)

section \<open>Restoring the detector\<close>

definition load_detector_row :: "(string \<Rightarrow> real option) \<Rightarrow> anomaly_config \<Rightarrow> checkpoint_row \<Rightarrow> detector \<Rightarrow> detector \<times> unit load" where
  "load_detector_row pf cfg = (\<lambda>(kind, key, w, b). load_checkpoint_row pf cfg (kind, key, w) (Some b))"

definition detector_restored :: "detector \<Rightarrow> checkpoint_row set \<Rightarrow> detector \<Rightarrow> bool" where
  "detector_restored dt0 W dt \<longleftrightarrow>
     engine_restored (dt_engine dt0) (W \<inter> set (engine_rows (dt_engine dt0))) (dt_engine dt)
     \<and> beacon_restored (dt_beacon dt0) (W \<inter> set (beacon_rows (dt_beacon dt0))) (dt_beacon dt)
     \<and> sampler_restored (dt_sampler dt0) (W \<inter> set (resource_rows (dt_sampler dt0))) (dt_sampler dt)"

text \<open>Which rows are whose: the three stores write disjoint rows and the restore hands each row to the store that wrote it.\<close>

lemma engine_row_kind: "\<lbrakk>engine_saved cfg en; (kind, key, w, b) \<in> set (engine_rows en)\<rbrakk> \<Longrightarrow> \<not> startswith kind ''resource.'' \<and> w \<noteq> ''beacon''"
proof -
  assume s: "engine_saved cfg en" and r: "(kind, key, w, b) \<in> set (engine_rows en)"
  have k: "\<not> startswith kind ''resource.''" if "((kind, key), ws) \<in> set (en_stats en)" for ws
    using s that by (force simp: engine_saved_def engine_shape_iff)
  from r show ?thesis by (cases rule: engine_row_cases) (auto simp: window_names_def WINDOWS_def dest: k)
qed

lemma beacon_row_kind: "(kind, key, w, b) \<in> set (beacon_rows bt) \<Longrightarrow> kind = ''beacon'' \<and> w = ''beacon''"
  by (auto simp: beacon_rows_def)

lemma resource_row_kind: "(kind, key, w, b) \<in> set (resource_rows t) \<Longrightarrow> startswith kind ''resource.''"
  by (auto simp: resource_rows_def split: if_splits)

lemma rows_disjoint:
  assumes "detector_saved cfg dt"
  shows "set (engine_rows (dt_engine dt)) \<inter> set (beacon_rows (dt_beacon dt)) = {}" "set (engine_rows (dt_engine dt)) \<inter> set (resource_rows (dt_sampler dt)) = {}"
    "set (beacon_rows (dt_beacon dt)) \<inter> set (resource_rows (dt_sampler dt)) = {}"
proof -
  have e: "engine_saved cfg (dt_engine dt)" using assms by (simp add: detector_saved_def)
  show "set (engine_rows (dt_engine dt)) \<inter> set (beacon_rows (dt_beacon dt)) = {}" using engine_row_kind[OF e] beacon_row_kind by fastforce
  show "set (engine_rows (dt_engine dt)) \<inter> set (resource_rows (dt_sampler dt)) = {}" using engine_row_kind[OF e] resource_row_kind by fastforce
  show "set (beacon_rows (dt_beacon dt)) \<inter> set (resource_rows (dt_sampler dt)) = {}" using beacon_row_kind resource_row_kind by fastforce
qed

lemma detector_any_row:
  assumes saved: "detector_saved cfg dt0" and r: "r \<in> set (all_rows dt0)" and W: "W \<subseteq> set (all_rows dt0)" and part: "detector_restored dt0 W dt"
  shows "\<exists>dt1. load_detector_row pf cfg r dt = (dt1, Load_ok ()) \<and> detector_restored dt0 (insert r W) dt1"
proof -
  let ?E = "set (engine_rows (dt_engine dt0))" and ?B = "set (beacon_rows (dt_beacon dt0))" and ?R = "set (resource_rows (dt_sampler dt0))"
  have s: "engine_saved cfg (dt_engine dt0)" "beacon_saved cfg (dt_beacon dt0)" "sampler_saved (dt_sampler dt0)" using saved by (simp_all add: detector_saved_def)
  have p: "engine_restored (dt_engine dt0) (W \<inter> ?E) (dt_engine dt)" "beacon_restored (dt_beacon dt0) (W \<inter> ?B) (dt_beacon dt)"
    "sampler_restored (dt_sampler dt0) (W \<inter> ?R) (dt_sampler dt)" using part by (simp_all add: detector_restored_def)
  note disj = rows_disjoint[OF saved]
  obtain kind key w b where rk: "r = (kind, key, w, b)" by (cases r)
  consider (engine) "r \<in> ?E" | (beacon) "r \<in> ?B" | (resource) "r \<in> ?R" using r by (auto simp: all_rows_def)
  then show ?thesis
  proof cases
    case engine
    then obtain en where en: "load_engine_checkpoint pf cfg r (dt_engine dt) = (en, Load_ok ())" "engine_restored (dt_engine dt0) (insert r (W \<inter> ?E)) en"
      using engine_store.any_row_next[OF s(1) _ _ p(1), of r pf] by auto
    have "load_detector_row pf cfg r dt = (dt\<lparr>dt_engine := en\<rparr>, Load_ok ())"
      using en(1) engine_row_kind[OF s(1), of kind key w b] engine by (simp add: rk load_detector_row_def load_checkpoint_row_def load_engine_checkpoint_def)
    moreover have "insert r W \<inter> ?E = insert r (W \<inter> ?E)" "insert r W \<inter> ?B = W \<inter> ?B" "insert r W \<inter> ?R = W \<inter> ?R" using engine disj by blast+
    ultimately show ?thesis using p en(2) by (simp add: detector_restored_def)
  next
    case beacon
    then obtain bt where bt: "load_beacon_checkpoint pf cfg r (dt_beacon dt) = (bt, Load_ok ())" "beacon_restored (dt_beacon dt0) (insert r (W \<inter> ?B)) bt"
      using beacon_store.any_row_next[OF s(2) _ _ p(2), of r pf] by auto
    have "load_detector_row pf cfg r dt = (dt\<lparr>dt_beacon := bt\<rparr>, Load_ok ())"
      using bt(1) beacon_row_kind[OF beacon[unfolded rk]] by (simp add: rk load_detector_row_def load_checkpoint_row_def load_beacon_checkpoint_def)
    moreover have "insert r W \<inter> ?E = W \<inter> ?E" "insert r W \<inter> ?B = insert r (W \<inter> ?B)" "insert r W \<inter> ?R = W \<inter> ?R" using beacon disj by blast+
    ultimately show ?thesis using p bt(2) by (simp add: detector_restored_def)
  next
    case resource
    then obtain t where t: "load_resource_checkpoint pf r (dt_sampler dt) = (t, Load_ok ())" "sampler_restored (dt_sampler dt0) (insert r (W \<inter> ?R)) t"
      using resource_store.any_row_next[OF s(3) _ _ p(3), of r pf] by auto
    have "load_detector_row pf cfg r dt = (dt\<lparr>dt_sampler := t\<rparr>, Load_ok ())"
      using t(1) resource_row_kind[OF resource[unfolded rk]] by (simp add: rk load_detector_row_def load_checkpoint_row_def load_resource_checkpoint_def)
    moreover have "insert r W \<inter> ?E = W \<inter> ?E" "insert r W \<inter> ?B = W \<inter> ?B" "insert r W \<inter> ?R = insert r (W \<inter> ?R)" using resource disj by blast+
    ultimately show ?thesis using p t(2) by (simp add: detector_restored_def)
  qed
qed

interpretation detector_store: restorable "load_detector_row pf cfg" "detector_saved cfg" "\<lambda>dt. set (all_rows dt)" detector_restored for pf cfg
  by unfold_locales (rule detector_any_row)

lemma nothing_restored: "detector_restored dt0 {} (new_detector now)"
  by (simp add: detector_restored_def new_detector_def engine_restored_def engine_part_def windows_in_def new_engine_def beacon_restored_def keys_in_def
      new_beacon_tracker_def sampler_restored_def metrics_in_def)

text \<open>The loop over stored rows is a run of the store, as long as no row is stale.\<close>

definition stored :: "datetime \<Rightarrow> checkpoint_row \<Rightarrow> baseline_key \<times> pyval option \<times> datetime" where
  "stored wall = (\<lambda>(a, b, c, blob). ((a, b, c), Some blob, wall))"

lemma load_rows_run:
  assumes "age_s now wall \<le> RESOURCE_CHECKPOINT_MAX_AGE_S" "load_run (load_detector_row pf cfg) rs dt = Some dt1"
  shows "load_rows pf cfg del_ok now (map (stored wall) rs) n (dt, t) = ((dt1, t), Some (n + length rs))"
  using assms(2)
proof (induction rs arbitrary: dt n)
  case (Cons r rs)
  obtain kind key w b where r: "r = (kind, key, w, b)" by (cases r)
  obtain dt2 where "load_detector_row pf cfg r dt = (dt2, Load_ok ())" "load_run (load_detector_row pf cfg) rs dt2 = Some dt1"
    using Cons.prems by (auto split: prod.splits load.splits)
  then show ?case using Cons.IH[of dt2 "Suc n"] assms(1) by (simp add: r stored_def load_detector_row_def stale_resource_def)
qed simp

section \<open>What a restart restores\<close>

text \<open>Two detectors with the same baselines: every window of every entity-metric, its open sums included, and its entity; the
  intervals of every connection, with no anchor for the next interval and the time of the last connection for the eviction order; and every
  resource ring, with no streak.\<close>

definition same_baselines :: "detector \<Rightarrow> detector \<Rightarrow> bool" where
  "same_baselines dt0 dt \<longleftrightarrow>
     (\<forall>k. map_of (en_stats (dt_engine dt)) k = map_option (stats_core UNIV) (map_of (en_stats (dt_engine dt0)) k))
     \<and> map (entity_of (dt_engine dt)) (keys (en_stats (dt_engine dt0))) = map (entity_of (dt_engine dt0)) (keys (en_stats (dt_engine dt0)))
     \<and> (\<forall>k. map_of (bt_keys (dt_beacon dt)) k = map_option (\<lambda>st. st\<lparr>ks_last_ts := None\<rparr>) (map_of (bt_keys (dt_beacon dt0)) k))
     \<and> map (last_seen (dt_beacon dt)) (keys (bt_keys (dt_beacon dt0))) = map (\<lambda>k. ks_last_ts (state_of k (dt_beacon dt0))) (keys (bt_keys (dt_beacon dt0)))
     \<and> (\<forall>key. map (ring_of (dt_sampler dt) key) METRICS = map (ring_of (dt_sampler dt0) key) METRICS)
     \<and> list_all (\<lambda>(_, st). eu_streaks st = (\<lambda>_. 0)) (dt_sampler dt)"

lemma tagged_windows: "{w. (fst k, snd k, w) \<in> set (concat (map (\<lambda>k. map (\<lambda>w. (fst k, snd k, w)) (f k)) ks))} = (if k \<in> set ks then set (f k) else {})"
  by (induction ks) (auto simp: prod_eq_iff)

lemma engine_windows: "windows_in (set (engine_rows en)) k = (if k \<in> set (keys (en_stats en)) then set (row_windows en k) else {})"
proof -
  have "windows_in (set (engine_rows en)) k = {w. (fst k, snd k, w) \<in> set (map row_key (engine_rows en))}"
    by (force simp: windows_in_def row_key_def)
  also have "\<dots> = (if k \<in> set (keys (en_stats en)) then set (row_windows en k) else {})"
    unfolding engine_row_keys by (rule tagged_windows)
  finally show ?thesis .
qed

lemma engine_all_restored:
  assumes "engine_restored en0 (set (engine_rows en0)) en"
  shows "(\<forall>k. map_of (en_stats en) k = map_option (stats_core UNIV) (map_of (en_stats en0) k))
    \<and> map (entity_of en) (keys (en_stats en0)) = map (entity_of en0) (keys (en_stats en0))"
proof -
  have K: "{k. windows_in (set (engine_rows en0)) k \<noteq> {}} = set (keys (en_stats en0))" by (auto simp: engine_windows row_windows_def)
  note p = assms[unfolded engine_restored_def K engine_part_def]
  have core: "stats_core (set (row_windows en0 k)) ws = stats_core UNIV ws" for k ws
    by (auto simp: stats_core_def row_windows_def window_names_def WINDOWS_def ACCUM_WINDOWS_def fun_eq_iff)
  have stats: "map_of (en_stats en) k = map_option (stats_core UNIV) (map_of (en_stats en0) k)" for k
  proof (cases "k \<in> set (keys (en_stats en0))")
    case True
    then obtain ws where ws: "map_of (en_stats en0) k = Some ws" by (metis domD dom_map_of_conv_image_fst set_map)
    from p True have "map_of (en_stats en) k = Some (stats_core (windows_in (set (engine_rows en0)) k) (the (map_of (en_stats en0) k)))" by blast
    then show ?thesis unfolding engine_windows using True ws core by simp
  next
    case False
    then show ?thesis using p by (metis map_of_eq_None_iff option.map_disc_iff set_map)
  qed
  have "entity_of en k = entity_of en0 k" if "k \<in> set (keys (en_stats en0))" for k
  proof -
    from p that have "map_of (en_entities en) k = Some (if ''entity'' \<in> windows_in (set (engine_rows en0)) k then entity_of en0 k else [])" by blast
    then show ?thesis unfolding engine_windows using that by (auto simp: entity_of_def[of en] row_windows_def split: if_splits)
  qed
  then have "map (entity_of en) (keys (en_stats en0)) = map (entity_of en0) (keys (en_stats en0))" by (rule map_cong[OF refl])
  then show ?thesis using stats by blast
qed

lemma beacon_all_restored:
  assumes "beacon_restored bt0 (set (beacon_rows bt0)) bt" "wf_table (bt_keys bt0)"
  shows "(\<forall>k. map_of (bt_keys bt) k = map_option (\<lambda>st. st\<lparr>ks_last_ts := None\<rparr>) (map_of (bt_keys bt0) k))
    \<and> map (last_seen bt) (keys (bt_keys bt0)) = map (\<lambda>k. ks_last_ts (state_of k bt0)) (keys (bt_keys bt0))"
proof -
  have K: "keys_in (set (beacon_rows bt0)) = set (keys (bt_keys bt0))" by (force simp: keys_in_def beacon_rows_def)
  note p = assms(1)[unfolded beacon_restored_def K]
  have "map_of (bt_keys bt) k = map_option (\<lambda>st. st\<lparr>ks_last_ts := None\<rparr>) (map_of (bt_keys bt0) k)" for k
  proof (cases "map_of (bt_keys bt0) k")
    case None
    then have "map_of (bt_keys bt) k = None" using p by (simp add: map_of_eq_None_iff)
    then show ?thesis unfolding None by simp
  next
    case (Some st)
    then have "k \<in> set (keys (bt_keys bt0))" by (metis map_of_eq_None_iff option.distinct(1) set_map)
    then show ?thesis using p Some by (simp add: state_of_def del: map_of_eq_Some_iff set_map)
  qed
  moreover have "last_seen bt k = ks_last_ts (state_of k bt0)" if "k \<in> set (keys (bt_keys bt0))" for k
    using p that by (simp add: last_seen_def del: map_of_eq_Some_iff set_map)
  then have "map (last_seen bt) (keys (bt_keys bt0)) = map (\<lambda>k. ks_last_ts (state_of k bt0)) (keys (bt_keys bt0))" by (rule map_cong[OF refl])
  ultimately show ?thesis by blast
qed

lemma resource_metrics: "wf_table t \<Longrightarrow> metrics_in (set (resource_rows t)) key = {m \<in> set METRICS. ring_of t key m \<noteq> []}"
proof -
  assume wf: "wf_table t"
  have "metrics_in (set (resource_rows t)) key = {m. (''resource.'' @ m, key, ''1h'') \<in> set (map row_key (resource_rows t))}"
    by (force simp: metrics_in_def row_key_def)
  also have "\<dots> = {m \<in> set METRICS. \<exists>st. (key, st) \<in> set t \<and> usage_ring st m \<noteq> []}" unfolding resource_row_keys by force
  also have "\<dots> = {m \<in> set METRICS. ring_of t key m \<noteq> []}"
  proof (cases "map_of t key")
    case None
    then have "(key, st) \<notin> set t" for st using map_of_is_SomeI[OF wf, of key st] by auto
    then show ?thesis unfolding ring_of_def None by simp
  next
    case (Some st0)
    then have "(key, st) \<in> set t \<longleftrightarrow> st = st0" for st using map_of_is_SomeI[OF wf, of key st] map_of_SomeD[OF Some] by auto
    then show ?thesis unfolding ring_of_def Some by simp
  qed
  finally show ?thesis .
qed

lemma sampler_all_restored:
  assumes "sampler_restored t0 (set (resource_rows t0)) t" "wf_table t0"
  shows "(\<forall>key. map (ring_of t key) METRICS = map (ring_of t0 key) METRICS) \<and> list_all (\<lambda>(_, st). eu_streaks st = (\<lambda>_. 0)) t"
proof -
  let ?M = "\<lambda>key. {m \<in> set METRICS. ring_of t0 key m \<noteq> []}"
  note p = assms(1)[unfolded sampler_restored_def resource_metrics[OF assms(2)]]
  have entry: "map_of t key = (if ?M key = {} then None else Some (usage_core t0 key (?M key)))" for key using p by blast
  have "ring_of t key m = ring_of t0 key m" if "m \<in> set METRICS" for key m
    using that unfolding ring_of_def[of t] entry by (auto simp: usage_core_def new_stats_def)
  moreover have "eu_streaks st = (\<lambda>_. 0)" if "(key, st) \<in> set t" for key st
  proof -
    have "map_of t key = Some st" using map_of_is_SomeI[OF conjunct1[OF p] that] .
    then show ?thesis unfolding entry by (auto simp: usage_core_def new_usage_def split: if_splits)
  qed
  ultimately show ?thesis by (auto simp: list_all_iff)
qed

lemma all_restored:
  assumes "detector_restored dt0 (set (all_rows dt0)) dt" "detector_saved cfg dt0"
  shows "same_baselines dt0 dt"
proof -
  have "set (all_rows dt0) \<inter> set (engine_rows (dt_engine dt0)) = set (engine_rows (dt_engine dt0))"
    "set (all_rows dt0) \<inter> set (beacon_rows (dt_beacon dt0)) = set (beacon_rows (dt_beacon dt0))"
    "set (all_rows dt0) \<inter> set (resource_rows (dt_sampler dt0)) = set (resource_rows (dt_sampler dt0))" by (auto simp: all_rows_def)
  note r = assms(1)[unfolded detector_restored_def this]
  have wf: "wf_table (bt_keys (dt_beacon dt0))" "wf_table (dt_sampler dt0)"
    using assms(2) by (simp_all add: detector_saved_def beacon_saved_def sampler_saved_def)
  show ?thesis unfolding same_baselines_def
    using r engine_all_restored beacon_all_restored[OF _ wf(1)] sampler_all_restored[OF _ wf(2)] by blast
qed

text \<open>A checkpoint never violates the primary key, so it is written whenever the database works.\<close>

lemma checkpoint_writes:
  assumes "detector_saved cfg (ds_detector s)"
  shows "ds_baseline (checkpoint_now True wall now s) = map (stored wall) (all_rows (ds_detector s))"
proof -
  let ?dt = "ds_detector s"
  have wf: "wf_table (en_stats (dt_engine ?dt))" "wf_table (bt_keys (dt_beacon ?dt))" "wf_table (dt_sampler ?dt)"
    using assms by (simp_all add: detector_saved_def engine_saved_def engine_inv_def beacon_saved_def sampler_saved_def)
  have e: "\<not> startswith (fst k) ''resource.'' \<and> snd (snd k) \<noteq> ''beacon''" if "k \<in> row_key ` set (engine_rows (dt_engine ?dt))" for k
    using that assms engine_row_kind by (auto simp: row_key_def detector_saved_def)
  have b: "fst k = ''beacon'' \<and> snd (snd k) = ''beacon''" if "k \<in> row_key ` set (beacon_rows (dt_beacon ?dt))" for k
    using that by (auto simp: row_key_def dest!: beacon_row_kind)
  have r: "startswith (fst k) ''resource.''" if "k \<in> row_key ` set (resource_rows (dt_sampler ?dt))" for k
    using that resource_row_kind by (auto simp: row_key_def)
  have disj: "row_key ` set (engine_rows (dt_engine ?dt)) \<inter> row_key ` set (beacon_rows (dt_beacon ?dt)) = {}"
    "row_key ` set (engine_rows (dt_engine ?dt)) \<inter> row_key ` set (resource_rows (dt_sampler ?dt)) = {}"
    using e b r by blast+
  have disj3: "row_key ` set (beacon_rows (dt_beacon ?dt)) \<inter> row_key ` set (resource_rows (dt_sampler ?dt)) = {}"
  proof (rule equals0I)
    fix k assume "k \<in> row_key ` set (beacon_rows (dt_beacon ?dt)) \<inter> row_key ` set (resource_rows (dt_sampler ?dt))"
    then have "fst k = ''beacon''" "startswith (fst k) ''resource.''" using b r by blast+
    then show False by simp
  qed
  have "distinct (map row_key (all_rows ?dt))"
    unfolding all_rows_def map_append distinct_append set_append set_map using disj disj3 engine_rows_distinct[OF wf(1)] beacon_rows_distinct[OF wf(2)] resource_rows_distinct[OF wf(3)]
    by blast
  then show ?thesis by (simp add: checkpoint_now_def checkpoint_def Let_def row_key_def stored_def)
qed

lemma restart_run:
  assumes "detector_saved cfg dt0" "age_s now wall \<le> RESOURCE_CHECKPOINT_MAX_AGE_S" "mset rows = mset (map (stored wall) (all_rows dt0))"
  shows "\<exists>dt. load_checkpoints pf cfg del_ok now (Some rows) (new_detector m, t) = ((dt, t), Some (length (all_rows dt0))) \<and> same_baselines dt0 dt"
proof -
  obtain rs where rs: "rows = map (stored wall) rs" "mset rs = mset (all_rows dt0)"
  proof
    let ?g = "\<lambda>(k :: baseline_key, b, _ :: datetime). (fst k, fst (snd k), snd (snd k), the b)"
    have "stored wall (?g y) = y" if "y \<in> set rows" for y
    proof -
      have "y \<in> set (map (stored wall) (all_rows dt0))" using that mset_eq_setD[OF assms(3)] by simp
      then show ?thesis by (auto simp: stored_def)
    qed
    then show "rows = map (stored wall) (map ?g rows)" by (simp add: map_idI)
    have "?g (stored wall r) = r" for r by (cases r) (simp add: stored_def)
    then show "mset (map ?g rows) = mset (all_rows dt0)" using arg_cong[OF assms(3), of "image_mset ?g"] by (simp add: multiset.map_comp comp_def)
  qed
  obtain dt where dt: "load_run (load_detector_row pf cfg) rs (new_detector m) = Some dt" "detector_restored dt0 (set (all_rows dt0)) dt"
    using detector_store.any_order[OF assms(1) mset_eq_setD[OF rs(2)] nothing_restored, of pf m] by blast
  have "length rs = length (all_rows dt0)" using rs(2) by (rule mset_eq_length)
  then show ?thesis using load_rows_run[OF assms(2) dt(1), of del_ok 0 t] all_restored[OF dt(2) assms(1)] by (simp add: load_checkpoints_def rs(1))
qed

text \<open>C22: A restart loses no baseline. From every state the detector can reach, a checkpoint that the database accepts, read back by a
  fresh detector within a day and in whatever order the query returns the rows, restores every row, deletes none, and yields the same
  baselines: all rings and open sums of the metric windows with their entities, the intervals of every tracked connection, and the
  resource rings. No entity is evicted on the way.\<close>

theorem restart_restores_baselines:
  assumes "detector_reach ostr pf cfg s" "age_s now wall \<le> RESOURCE_CHECKPOINT_MAX_AGE_S"
    "mset rows = mset (ds_baseline (checkpoint_now True wall m s))"
  shows "\<exists>dt. load_checkpoints pf cfg del_ok now (Some rows) (new_detector m', ds_baseline (checkpoint_now True wall m s))
      = ((dt, ds_baseline (checkpoint_now True wall m s)), Some (length (all_rows (ds_detector s)))) \<and> same_baselines (ds_detector s) dt"
  using restart_run[OF reach_saved[OF assms(1)] assms(2)] assms(3) by (simp add: checkpoint_writes[OF reach_saved[OF assms(1)]])

definition beaconing_state :: detector_state where
  "beaconing_state =
     \<lparr>ds_detector = (new_detector 0)\<lparr>dt_beacon := \<lparr>bt_keys = [(''curl->10.0.0.1:443'', \<lparr>ks_last_ts = None, ks_intervals = [60]\<rparr>)],
                                                    bt_last_seen = [(''curl->10.0.0.1:443'', Some 7)]\<rparr>\<rparr>,
      ds_tracker = tracker_init, ds_first_seen = [], ds_baseline = [], ds_sub = new_subscription ''anomaly'' 16 Block None\<rparr>"

lemma beaconing_reached: "detector_reach ostr pf default_anomaly_config beaconing_state"
proof -
  let ?s = "beaconing_state\<lparr>ds_detector := new_detector 0\<rparr>"
  let ?row = "((''beacon'', ''curl->10.0.0.1:443'', ''beacon''), Some (PDict [(''last_ts'', PFloat 7), (''intervals'', PList [PFloat 60])]), 0)"
  have "detector_reach ostr pf default_anomaly_config ?s" by (rule detector_reach.started[of _ 0]) simp
  moreover have "load_checkpoints pf default_anomaly_config (\<lambda>_. True) 0 (Some [?row]) (ds_detector ?s, ds_baseline ?s)
      = ((ds_detector beaconing_state, []), Some 1)"
    by (simp add: load_checkpoints_def stale_resource_def load_checkpoint_row_def load_beacon_row_def beacon_blob_def load_last_ts_def admit_key_def
        beaconing_state_def new_detector_def new_beacon_tracker_def default_anomaly_config_def last_n_def RING_SIZE_def new_key_def)
  ultimately have "detector_reach ostr pf default_anomaly_config (?s\<lparr>ds_detector := ds_detector beaconing_state, ds_baseline := []\<rparr>)"
    by (rule detector_reach.loaded)
  moreover have "?s\<lparr>ds_detector := ds_detector beaconing_state, ds_baseline := []\<rparr> = beaconing_state" by (simp add: beaconing_state_def)
  ultimately show ?thesis by simp
qed

theorem restart_restores_baselines_witness:
  "detector_reach (\<lambda>_. []) (\<lambda>_. None) default_anomaly_config beaconing_state \<and> length (all_rows (ds_detector beaconing_state)) = 1
   \<and> (\<exists>dt. load_checkpoints (\<lambda>_. None) default_anomaly_config (\<lambda>_. True) 5 (Some (ds_baseline (checkpoint_now True 0 0 beaconing_state)))
        (new_detector 1, ds_baseline (checkpoint_now True 0 0 beaconing_state))
      = ((dt, ds_baseline (checkpoint_now True 0 0 beaconing_state)), Some 1) \<and> same_baselines (ds_detector beaconing_state) dt)"
proof -
  have one: "length (all_rows (ds_detector beaconing_state)) = 1"
    by (simp add: all_rows_def beaconing_state_def new_detector_def new_engine_def engine_rows_def beacon_rows_def resource_rows_def)
  have "age_s 5 0 \<le> RESOURCE_CHECKPOINT_MAX_AGE_S" by (simp add: age_s_def RESOURCE_CHECKPOINT_MAX_AGE_S_def)
  from restart_restores_baselines[OF beaconing_reached this refl] show ?thesis unfolding one using beaconing_reached one by blast
qed

end
