(* ===== verification/Anomaly_Signals.thy ===== *)
theory Anomaly_Signals
  imports Anomaly_Restart
begin

text \<open>
  The signals of the anomaly detector come back to it through the router. This theory shows that they do not feed its own
  statistics, and records what a second restart forgets.
\<close>

definition own_signal :: "event \<Rightarrow> bool" where
  "own_signal e \<longleftrightarrow> ev_module e = ''anomaly_detector''
     \<and> ev_action e \<in> {''metric_anomaly'', ''beacon_signature'', ''monitor_health_anomaly'', ''resource_deviation''}"

lemma anomaly_event_own:
  "\<lbrakk>anomaly_event eid now action message b baseline = Some e; action \<in> {''metric_anomaly'', ''beacon_signature'', ''monitor_health_anomaly'', ''resource_deviation''}\<rbrakk>
     \<Longrightarrow> own_signal e"
  by (auto simp: anomaly_event_def build_event_def own_signal_def split: option.splits)

lemma events_own:
  "signal_event eid now g = Some e \<Longrightarrow> own_signal e" "beacon_event eid now h = Some e \<Longrightarrow> own_signal e" "resource_event eid now r = Some e \<Longrightarrow> own_signal e"
  by (auto simp: signal_event_def beacon_event_def resource_event_def Let_def elim!: anomaly_event_own split: if_splits)

lemma emit_all_subset: "list_all P es \<Longrightarrow> list_all P (fst (emit_all ok es))"
  by (induction es) (auto split: prod.splits)

lemma map_filter_all: "(\<And>x y. f x = Some y \<Longrightarrow> P y) \<Longrightarrow> list_all P (List.map_filter f xs)"
  by (induction xs) (auto simp: List.map_filter_simps split: option.split)

lemma tick_events_own: "list_all own_signal (tick_events env sigs hits)"
  unfolding tick_events_def list_all_append by (intro conjI map_filter_all) (auto dest: events_own)

lemma own_ignored: "own_signal e \<Longrightarrow> drain_event ostr cfg e x = (x, True)"
  by (cases x) (auto simp: drain_event_def own_signal_def extract_samples_def observe_connection_def)

lemma drain_cons: "drain ostr cfg (sub\<lparr>sub_q := e # q\<rparr>) x =
    (case drain_event ostr cfg e x of (x1, False) \<Rightarrow> (x1, sub\<lparr>sub_q := q\<rparr>, False) | (x1, True) \<Rightarrow> drain ostr cfg (sub\<lparr>sub_q := q\<rparr>) x1)"
  unfolding drain.simps[of ostr cfg "sub\<lparr>sub_q := e # q\<rparr>" x] by (cases "drain_event ostr cfg e x") (simp add: get_nowait_def split: bool.split)

lemma drain_emptied: "sub_q sub = [] \<Longrightarrow> drain ostr cfg sub x = (x, sub, True)"
  unfolding drain.simps[of ostr cfg sub x] by (simp add: get_nowait_def)

lemma drain_without_own:
  "fst (drain ostr cfg (sub\<lparr>sub_q := filter (\<lambda>e. \<not> own_signal e) q\<rparr>) x) = fst (drain ostr cfg (sub\<lparr>sub_q := q\<rparr>) x)
   \<and> snd (snd (drain ostr cfg (sub\<lparr>sub_q := filter (\<lambda>e. \<not> own_signal e) q\<rparr>) x)) = snd (snd (drain ostr cfg (sub\<lparr>sub_q := q\<rparr>) x))"
proof (induction q arbitrary: x)
  case (Cons e q)
  have full: "drain ostr cfg (sub\<lparr>sub_q := e # q\<rparr>) x = (case drain_event ostr cfg e x of (x1, False) \<Rightarrow> (x1, sub\<lparr>sub_q := q\<rparr>, False) | (x1, True) \<Rightarrow> drain ostr cfg (sub\<lparr>sub_q := q\<rparr>) x1)"
    by (simp add: drain_cons)
  show ?case
  proof (cases "own_signal e")
    case True
    then show ?thesis using Cons[of x] by (simp add: full own_ignored)
  next
    case False
    then have kept: "drain ostr cfg (sub\<lparr>sub_q := filter (\<lambda>e. \<not> own_signal e) (e # q)\<rparr>) x
        = (case drain_event ostr cfg e x of (x1, False) \<Rightarrow> (x1, sub\<lparr>sub_q := filter (\<lambda>e. \<not> own_signal e) q\<rparr>, False)
             | (x1, True) \<Rightarrow> drain ostr cfg (sub\<lparr>sub_q := filter (\<lambda>e. \<not> own_signal e) q\<rparr>) x1)"
      by (simp add: drain_cons)
    obtain x1 ok where d: "drain_event ostr cfg e x = (x1, ok)" by (cases "drain_event ostr cfg e x")
    show ?thesis unfolding kept full d using Cons[of x1] by (cases ok) simp_all
  qed
qed (simp add: drain_emptied)

text \<open>The detector does not feed on its own signals. Whatever a tick or a resource round emits is an event of the detector's own module
  and of one of its four actions, and removing all such events from the queue, wherever they stand, changes neither the statistics, nor the
  connections, nor the hits that a drain yields, nor whether it completes.\<close>

theorem signals_do_not_feed_back:
  "list_all own_signal (snd (detector_tick ostr cfg env s)) \<and> list_all own_signal (snd (resource_round env services sampled s))
   \<and> (case (drain ostr cfg sub x, drain ostr cfg (sub\<lparr>sub_q := filter (\<lambda>e. \<not> own_signal e) (sub_q sub)\<rparr>) x) of
        ((x1, _, ok1), (x2, _, ok2)) \<Rightarrow> x2 = x1 \<and> ok2 = ok1)"
proof -
  have "list_all own_signal (snd (detector_tick ostr cfg env s))"
    using emit_all_subset[OF tick_events_own] by (auto simp: detector_tick_def Let_def split: prod.split) (metis fst_conv)
  moreover have "list_all own_signal (snd (resource_round env services sampled s))"
    by (auto simp: resource_round_def intro!: emit_all_subset map_filter_all dest: events_own split: option.split)
  moreover have "fst (drain ostr cfg (sub\<lparr>sub_q := filter (\<lambda>e. \<not> own_signal e) (sub_q sub)\<rparr>) x) = fst (drain ostr cfg sub x)
      \<and> snd (snd (drain ostr cfg (sub\<lparr>sub_q := filter (\<lambda>e. \<not> own_signal e) (sub_q sub)\<rparr>) x)) = snd (snd (drain ostr cfg sub x))"
    using drain_without_own[where q = "sub_q sub" and sub = sub] by simp
  ultimately show ?thesis by (auto split: prod.split)
qed

text \<open>The times of last connections that order the eviction survive one restart only: a checkpoint writes the anchor of the next interval, which a
  restore clears, so a second restart before the next connection forgets the time.\<close>

lemma second_restart_forgets_recency:
  "last_seen (dt_beacon (ds_detector beaconing_state)) ''curl->10.0.0.1:443'' = Some 7
   \<and> (case load_checkpoints pf default_anomaly_config (\<lambda>_. True) 5 (Some (ds_baseline (checkpoint_now True 0 0 beaconing_state))) (new_detector 1, []) of
        ((dt, _), _) \<Rightarrow> last_seen (dt_beacon dt) ''curl->10.0.0.1:443'' = None)"
  by (simp add: load_checkpoints_def checkpoint_now_def checkpoint_def all_rows_def beacon_rows_def engine_rows_def resource_rows_def stale_resource_def
      load_checkpoint_row_def load_beacon_row_def beacon_blob_def load_last_ts_def admit_key_def beaconing_state_def new_detector_def new_engine_def
      new_beacon_tracker_def default_anomaly_config_def new_key_def last_seen_def Let_def drain_evicted_def)

end
