(* ===== verification/State_Panels.thy ===== *)
theory State_Panels
  imports Entity_State Audit_Log Anomaly_Stats
begin

text \<open>
  The handlers behind the entity-state panels, \<^verbatim>\<open>state/ipc_handlers.py\<close>: listings of the state tables, the diff against a captured
  baseline, the capture, and the scanner panels. A reply is the list of its item dictionaries; \<open>None\<close> is an exception, among
  them a limit that is no integer or a negative SQL limit. \<open>isof\<close> is \<^verbatim>\<open>datetime.isoformat\<close>, and \<open>eqv\<close> the engine's comparison of a
  text column with a bound value.
\<close>

section \<open>Parameters and rows\<close>

definition param_or :: "pydict \<Rightarrow> string \<Rightarrow> pyval \<Rightarrow> pyval" where
  "param_or params k d = (case map_of params k of None \<Rightarrow> d | Some v \<Rightarrow> v)"

definition sql_limit :: "int \<Rightarrow> pydict \<Rightarrow> nat option" where
  "sql_limit d params = (case int_of (param_or params ''limit'' (PInt d)) of None \<Rightarrow> None | Some n \<Rightarrow> if n < 0 then None else Some (nat n))"

definition iso_value :: "(datetime \<Rightarrow> string) \<Rightarrow> datetime option \<Rightarrow> pyval" where
  "iso_value isof t = (case t of None \<Rightarrow> PNone | Some x \<Rightarrow> PStr (isof x))"

section \<open>Services and their diff\<close>

definition INACTIVE :: "pyval list" where "INACTIVE = [PStr ''inactive'', PStr ''failed'', PNone]"

definition diff_status :: "pyval \<Rightarrow> pyval \<Rightarrow> (pyval, pydict) table \<Rightarrow> string" where
  "diff_status key current_active baseline =
     (case map_of baseline key of
        None \<Rightarrow> ''new''
      | Some attrs \<Rightarrow>
          if dget attrs ''active_state'' \<in> set INACTIVE \<and> current_active = PStr ''active'' then ''re-enabled'' else ''unchanged'')"

definition baseline_of :: "string \<Rightarrow> baselines \<Rightarrow> (pyval, pydict) table" where
  "baseline_of kind b = map (\<lambda>((_, key), r). (key, bl_attrs r)) (filter (\<lambda>((k, _), _). k = kind) b)"

definition service_key :: "(pyval \<Rightarrow> string) \<Rightarrow> pyval \<Rightarrow> pyval" where
  "service_key ostr u = PStr (''svc:'' @ py_str ostr u)"

definition service_item :: "(datetime \<Rightarrow> string) \<Rightarrow> pyval \<Rightarrow> service_row \<Rightarrow> pydict" where
  "service_item isof u r =
     [(''unit'', u), (''active_state'', sv_active r), (''sub_state'', sv_sub r), (''load_state'', sv_load r),
      (''first_seen'', PStr (isof (sv_first_seen r))), (''last_seen'', PStr (isof (sv_last_seen r)))]"

definition removed_service :: "(pyval \<Rightarrow> string) \<Rightarrow> pyval \<Rightarrow> pydict" where
  "removed_service ostr key =
     [(''unit'', PStr (removeprefix (py_str ostr key) ''svc:'')), (''active_state'', PNone), (''sub_state'', PNone), (''load_state'', PNone),
      (''first_seen'', PNone), (''last_seen'', PNone), (''diff_status'', PStr ''removed'')]"

text \<open>The baseline keys in order that are not among the listed ones.\<close>

definition removed_keys :: "(pyval \<Rightarrow> string) \<Rightarrow> pyval list \<Rightarrow> (pyval, pydict) table \<Rightarrow> pyval list" where
  "removed_keys ostr current baseline = filter (\<lambda>k. k \<notin> set current) (sort_key (py_str ostr) (keys baseline))"

definition handle_list_services ::
  "(pyval \<Rightarrow> string) \<Rightarrow> (datetime \<Rightarrow> string) \<Rightarrow> pydict \<Rightarrow> entity_state \<Rightarrow> baselines \<Rightarrow> pydict list option" where
  "handle_list_services ostr isof params st b =
     (case sql_limit 200 params of
        None \<Rightarrow> None
      | Some n \<Rightarrow>
          (let want_diff = truthy (param_or params ''diff'' (PBool False));
               rows = take n (sort_key (\<lambda>(u, _). py_str ostr u) (st_service st));
               baseline = (if want_diff then baseline_of ''service'' b else [])
           in Some (map (\<lambda>(u, r). service_item isof u r
                      @ (if want_diff then [(''diff_status'', PStr (diff_status (service_key ostr u) (sv_active r) baseline))] else [])) rows
                    @ (if want_diff then map (removed_service ostr) (removed_keys ostr (map (service_key ostr \<circ> fst) rows) baseline) else []))))"

section \<open>Persistence mechanisms\<close>

definition persistence_item :: "(datetime \<Rightarrow> string) \<Rightarrow> pyval \<Rightarrow> persistence_row \<Rightarrow> pydict" where
  "persistence_item isof k r =
     [(''persist_key'', k), (''kind'', ps_kind r), (''name'', ps_name r), (''source_path'', ps_source_path r), (''details'', ps_details r),
      (''first_seen'', PStr (isof (ps_first_seen r))), (''last_seen'', PStr (isof (ps_last_seen r)))]"

definition removed_mechanism :: "pyval \<Rightarrow> pydict" where
  "removed_mechanism key =
     [(''persist_key'', key), (''kind'', PNone), (''name'', PNone), (''source_path'', PNone), (''details'', PNone),
      (''first_seen'', PNone), (''last_seen'', PNone), (''diff_status'', PStr ''removed'')]"

definition handle_list_persistence ::
  "(pyval \<Rightarrow> string) \<Rightarrow> (datetime \<Rightarrow> string) \<Rightarrow> pydict \<Rightarrow> entity_state \<Rightarrow> baselines \<Rightarrow> pydict list option" where
  "handle_list_persistence ostr isof params st b =
     (case sql_limit 200 params of
        None \<Rightarrow> None
      | Some n \<Rightarrow>
          (let want_diff = truthy (param_or params ''diff'' (PBool False));
               rows = take n (sort_key (\<lambda>(_, r). py_str ostr (ps_kind r)) (sort_key (\<lambda>(_, r). py_str ostr (ps_name r)) (st_persistence st)));
               baseline = (if want_diff then baseline_of ''persistence'' b else [])
           in Some (map (\<lambda>(k, r). persistence_item isof k r
                      @ (if want_diff then [(''diff_status'', PStr (if map_of baseline k = None then ''new'' else ''unchanged''))] else [])) rows
                    @ (if want_diff then map removed_mechanism (removed_keys ostr (map fst rows) baseline) else []))))"

section \<open>The plain listings\<close>

definition handle_list_devices ::
  "(string \<Rightarrow> pyval \<Rightarrow> bool) \<Rightarrow> (pyval \<Rightarrow> string) \<Rightarrow> (datetime \<Rightarrow> string) \<Rightarrow> pydict \<Rightarrow> entity_state \<Rightarrow> pydict list option" where
  "handle_list_devices eqv ostr isof params st =
     (case sql_limit 200 params of
        None \<Rightarrow> None
      | Some n \<Rightarrow>
          (let status = dget params ''status''
           in Some (map (\<lambda>(k, r). [(''dev_key'', k), (''vendor'', dv_vendor r), (''product'', dv_product r), (''serial'', dv_serial r),
                        (''subsystem'', dv_subsystem r), (''devnode'', dv_devnode r), (''status'', PStr (dv_status r)),
                        (''first_seen'', PStr (isof (dv_first_seen r)))])
                (take n (sort_key (\<lambda>(k, _). py_str ostr k) (filter (\<lambda>(_, r). status = PNone \<or> eqv (dv_status r) status) (st_device st)))))))"

text \<open>The boot id is \<open>None\<close> when it cannot be read.\<close>

definition handle_list_processes ::
  "(string \<Rightarrow> pyval \<Rightarrow> bool) \<Rightarrow> (datetime \<Rightarrow> string) \<Rightarrow> string option \<Rightarrow> pydict \<Rightarrow> entity_state \<Rightarrow> (pydict list \<times> string option) option" where
  "handle_list_processes eqv isof boot_id params st =
     (case sql_limit 200 params of
        None \<Rightarrow> None
      | Some n \<Rightarrow>
          (let status = dget params ''status''
           in Some (map (\<lambda>((pid, _), r). [(''pid'', pid), (''comm'', pr_comm r), (''ppid'', pr_ppid r), (''uid'', pr_uid r),
                        (''status'', PStr (pr_status r)), (''cmdline'', pr_cmdline r), (''first_seen'', PStr (isof (pr_first_seen r)))])
                (take n (sort_key (\<lambda>(_, r). - pr_last_seen r) (filter (\<lambda>(_, r). status = PNone \<or> eqv (pr_status r) status) (st_process st)))),
                boot_id)))"

definition connection_item :: "(datetime \<Rightarrow> string) \<Rightarrow> datetime \<Rightarrow> int \<Rightarrow> string \<times> connection_row \<Rightarrow> pydict" where
  "connection_item isof now active_within_s = (\<lambda>(k, r).
     [(''conn_key'', PStr k), (''pid'', cn_pid r), (''comm'', cn_comm r), (''saddr'', cn_saddr r), (''sport'', cn_sport r), (''daddr'', cn_daddr r),
      (''dport'', cn_dport r), (''proto'', cn_proto r), (''family'', PStr (cn_family r)), (''status'', PStr (cn_status r)),
      (''first_seen'', PStr (isof (cn_first_seen r))), (''last_seen'', PStr (isof (cn_last_seen r))),
      (''active'', PBool (now - cn_last_seen r \<le> active_within_s * 1000000))])"

definition handle_list_connections ::
  "(datetime \<Rightarrow> string) \<Rightarrow> datetime \<Rightarrow> string option \<Rightarrow> pydict \<Rightarrow> entity_state \<Rightarrow> (pydict list \<times> string option) option" where
  "handle_list_connections isof now boot_id params st =
     (case int_of (param_or params ''active_within_s'' (PInt 300)) of
        None \<Rightarrow> None
      | Some w \<Rightarrow>
          (case sql_limit 200 params of
             None \<Rightarrow> None
           | Some n \<Rightarrow> Some (map (connection_item isof now w) (take n (sort_key (\<lambda>(_, r). - cn_last_seen r) (st_connection st))), boot_id)))"

text \<open>No projection writes the \<^verbatim>\<open>pid\<close> and \<^verbatim>\<open>comm\<close> of a listener. \<open>port_of\<close> is the number the engine keeps for a bound port.\<close>

definition handle_list_listeners ::
  "(pyval \<Rightarrow> string) \<Rightarrow> (pyval \<Rightarrow> int) \<Rightarrow> (datetime \<Rightarrow> string) \<Rightarrow> pydict \<Rightarrow> entity_state \<Rightarrow> pydict list option" where
  "handle_list_listeners ostr port_of isof params st =
     (case sql_limit 200 params of
        None \<Rightarrow> None
      | Some n \<Rightarrow>
          Some (map (\<lambda>((addr, port, proto), r). [(''addr'', addr), (''port'', port), (''proto'', proto), (''family'', PStr (ln_family r)),
                  (''pid'', PNone), (''comm'', PNone), (''first_seen'', PStr (isof (ln_first_seen r)))])
            (take n (sort_key (\<lambda>((addr, _, _), _). py_str ostr addr) (sort_key (\<lambda>((_, port, _), _). port_of port) (st_listener st))))))"

definition handle_list_file_changes :: "(datetime \<Rightarrow> string) \<Rightarrow> pydict \<Rightarrow> entity_state \<Rightarrow> pydict list option" where
  "handle_list_file_changes isof params st =
     (case sql_limit 200 params of
        None \<Rightarrow> None
      | Some n \<Rightarrow>
          Some (map (\<lambda>(p, r). [(''path'', p), (''change_type'', PStr (fl_change_type r)), (''first_seen'', PStr (isof (fl_first_seen r))),
                  (''last_seen'', PStr (isof (fl_last_seen r)))])
            (take n (sort_key (\<lambda>(_, r). - fl_last_seen r) (st_file st)))))"

section \<open>Capturing a baseline\<close>

definition captured_call :: "audit_call \<Rightarrow> string \<Rightarrow> nat \<Rightarrow> audit_call" where
  "captured_call env kind n =
     env\<lparr>ac_actor := ''user:local'', ac_action := ''baseline_captured'', ac_target := Some (''baseline:'' @ kind),
         ac_details := the (json_dumps (\<lambda>_. []) (\<lambda>_. None) (PDict [(''entries'', PInt (int n))]))\<rparr>"

text \<open>The reply is the number of entries; an unsupported kind is refused and leaves no audit row.\<close>

definition handle_capture_baseline ::
  "(string \<Rightarrow> string) \<Rightarrow> (pyval \<Rightarrow> string) \<Rightarrow> audit_call \<Rightarrow> datetime \<Rightarrow> pydict \<Rightarrow> entity_state \<Rightarrow> baselines \<times> audit_state
     \<Rightarrow> (baselines \<times> audit_state) \<times> (baseline_error + nat)" where
  "handle_capture_baseline sha ostr env now params st = (\<lambda>(b, au).
     let kind = py_str ostr (param_or params ''kind'' (PStr ''service''))
     in case capture_baseline ostr now kind st b of
          Inl err \<Rightarrow> ((b, au), Inl err)
        | Inr (b1, n) \<Rightarrow> ((b1, fst (append_audit sha (captured_call env kind n) au)), Inr n))"

section \<open>The scanner panels\<close>

definition INCOMPLETE_AFTER_S :: int where "INCOMPLETE_AFTER_S = 7200"
definition FINDINGS_SCAN_LIMIT :: int where "FINDINGS_SCAN_LIMIT = 1000"

text \<open>\<^verbatim>\<open>ROW_NUMBER() OVER (PARTITION BY scanner ORDER BY started_at DESC, run_id DESC) = 1\<close>: no row of the scanner is newer.\<close>

definition newer_run :: "string \<times> scan_row \<Rightarrow> string \<times> scan_row \<Rightarrow> bool" where
  "newer_run = (\<lambda>(i, r) (j, q). sr_started_at r > sr_started_at q \<or> sr_started_at r = sr_started_at q \<and> i > j)"

definition latest_runs :: "(string, scan_row) table \<Rightarrow> (string, scan_row) table" where
  "latest_runs t = sort_key (\<lambda>(_, r). sr_scanner r) (filter (\<lambda>x. \<not> list_ex (\<lambda>y. sr_scanner (snd y) = sr_scanner (snd x) \<and> newer_run y x) t) t)"

definition run_state :: "datetime \<Rightarrow> real \<Rightarrow> scan_row \<Rightarrow> string" where
  "run_state now incomplete_after_s r =
     (if sr_status r = ''running'' \<and> real_of_int (now - sr_started_at r) / 1000000 > incomplete_after_s then ''interrupted'' else sr_status r)"

definition scan_item :: "(datetime \<Rightarrow> string) \<Rightarrow> datetime \<Rightarrow> real \<Rightarrow> string \<times> scan_row \<Rightarrow> pydict" where
  "scan_item isof now incomplete_after_s = (\<lambda>(i, r).
     [(''run_id'', PStr i), (''scanner'', PStr (sr_scanner r)), (''state'', PStr (run_state now incomplete_after_s r)), (''reason'', sr_reason r),
      (''exit_code'', sr_exit_code r), (''duration_s'', sr_duration_s r), (''finding_count'', sr_finding_count r),
      (''findings_dropped'', sr_findings_dropped r), (''truncated'', PBool (sr_truncated r = Some True)),
      (''output_truncated'', PBool (sr_output_truncated r = Some True)), (''output_excerpt'', sr_output_excerpt r),
      (''started_at'', PStr (isof (sr_started_at r))), (''completed_at'', iso_value isof (sr_completed_at r))])"

definition handle_list_scan_runs ::
  "(string \<Rightarrow> real option) \<Rightarrow> (datetime \<Rightarrow> string) \<Rightarrow> datetime \<Rightarrow> pydict \<Rightarrow> entity_state \<Rightarrow> pydict list option" where
  "handle_list_scan_runs pf isof now params st =
     (case (int_of (param_or params ''limit'' (PInt 50)), py_float pf (param_or params ''incomplete_after_s'' (PInt INCOMPLETE_AFTER_S))) of
        (Some n, Load_ok x) \<Rightarrow> if n < 0 then None else Some (map (scan_item isof now (max 0 x)) (take (nat n) (latest_runs (st_scan st))))
      | _ \<Rightarrow> None)"

text \<open>\<^verbatim>\<open>(v or {}).get(k)\<close>: \<open>None\<close> is the \<^verbatim>\<open>AttributeError\<close> of a value that is neither falsy nor a dictionary.\<close>

definition field_of :: "pyval \<Rightarrow> string \<Rightarrow> pyval option" where
  "field_of v k = (if \<not> truthy v then Some PNone else case v of PDict d \<Rightarrow> Some (dget d k) | _ \<Rightarrow> None)"

text \<open>Membership in a set of strings: a list or a dictionary is not hashable.\<close>

definition in_strings :: "pyval \<Rightarrow> string list \<Rightarrow> bool option" where
  "in_strings v ss = (case v of PList _ \<Rightarrow> None | PDict _ \<Rightarrow> None | PStr s \<Rightarrow> Some (s \<in> set ss) | _ \<Rightarrow> Some False)"

definition finding_item ::
  "(datetime \<Rightarrow> string) \<Rightarrow> event_row \<Rightarrow> pydict \<Rightarrow> pyval \<Rightarrow> pyval \<Rightarrow> pydict option" where
  "finding_item isof row payload scanner run_id =
     Option.bind (field_of (dget payload ''threat'') ''indicator'') (\<lambda>ind.
     Option.bind (field_of (dget payload ''file'') ''path'') (\<lambda>path.
     Option.bind (field_of ind ''type'') (\<lambda>ty. Option.bind (field_of ind ''value'') (\<lambda>vl. Option.bind (field_of ind ''severity'') (\<lambda>sv.
       Some [(''event_id'', PStr (er_id row)), (''ts'', PStr (isof (er_ts row))), (''scanner'', scanner), (''run_id'', run_id), (''path'', path),
             (''indicator_type'', ty), (''indicator_value'', vl), (''scanner_severity'', sv), (''message'', dget payload ''message'')])))))"

text \<open>One row of the loop: \<open>Some None\<close> skips it, \<open>None\<close> ends the handler with an exception.\<close>

definition finding_of_row :: "(datetime \<Rightarrow> string) \<Rightarrow> string list option \<Rightarrow> event_row \<Rightarrow> pydict option option" where
  "finding_of_row isof run_ids row =
     (case json_loads (er_payload row) of
        Some (PDict payload) \<Rightarrow>
          Option.bind (field_of (dget payload ''raw'') ''run_id'') (\<lambda>run_id.
          Option.bind (field_of (dget payload ''raw'') ''scanner'') (\<lambda>scanner.
            (case run_ids of
               None \<Rightarrow> map_option Some (finding_item isof row payload scanner run_id)
             | Some ids \<Rightarrow>
                 Option.bind (in_strings run_id ids) (\<lambda>wanted.
                   if wanted then map_option Some (finding_item isof row payload scanner run_id) else Some None))))
      | _ \<Rightarrow> Some None)"

fun collect_findings :: "(datetime \<Rightarrow> string) \<Rightarrow> string list option \<Rightarrow> int \<Rightarrow> event_row list \<Rightarrow> pydict list \<Rightarrow> pydict list option" where
  "collect_findings isof run_ids limit [] acc = Some acc"
| "collect_findings isof run_ids limit (row # rows) acc =
     (if int (length acc) \<ge> limit then Some acc
      else case finding_of_row isof run_ids row of
             None \<Rightarrow> None
           | Some None \<Rightarrow> collect_findings isof run_ids limit rows acc
           | Some (Some x) \<Rightarrow> collect_findings isof run_ids limit rows (acc @ [x]))"

definition finding_rows :: "event_row list \<Rightarrow> event_row list" where
  "finding_rows rows = rev (sort_key er_ts (sort_key er_id (filter (\<lambda>r. er_module r = ''scanner_runner'' \<and> er_action r = ''scan_finding'') rows)))"

definition handle_list_scan_findings ::
  "(pyval \<Rightarrow> string) \<Rightarrow> (datetime \<Rightarrow> string) \<Rightarrow> pydict \<Rightarrow> event_row list \<Rightarrow> pydict list option" where
  "handle_list_scan_findings ostr isof params rows =
     (case (int_of (param_or params ''limit'' (PInt 50)), int_of (param_or params ''scan_limit'' (PInt FINDINGS_SCAN_LIMIT)),
            case dget params ''run_ids'' of PNone \<Rightarrow> Some None | v \<Rightarrow> map_option (\<lambda>xs. Some (map (py_str ostr) xs)) (iterate v)) of
        (Some n, Some k, Some run_ids) \<Rightarrow> if k < 0 then None else collect_findings isof run_ids n (take (nat k) (finding_rows rows)) []
      | _ \<Rightarrow> None)"

section \<open>What the diff says\<close>

lemma text_of_string [simp]: "py_str ostr (PStr s) = s"
  by (simp add: py_str_def)

lemma insort_map: "insort_key f (g x) (map g xs) = map g (insort_key (\<lambda>x. f (g x)) x xs)"
  by (induction xs) auto

lemma sort_map: "sort_key f (map g xs) = map g (sort_key (\<lambda>x. f (g x)) xs)"
  by (induction xs) (simp_all add: insort_map)

lemma sort_same_order: "(\<And>x y. f x \<le> f y \<longleftrightarrow> g x \<le> g y) \<Longrightarrow> sort_key f xs = sort_key g xs"
proof (induction xs)
  case (Cons x xs)
  have "insort_key f x ys = insort_key g x ys" for ys by (induction ys) (auto simp: Cons.prems)
  then show ?case using Cons by simp
qed simp

definition service_table :: "(string \<times> service_row) list \<Rightarrow> (pyval, service_row) table" where
  "service_table s = map (\<lambda>(u, r). (PStr u, r)) s"

text \<open>What became of a unit between two sets of services.\<close>

definition service_change :: "(string \<times> service_row) list \<Rightarrow> string \<times> service_row \<Rightarrow> string" where
  "service_change s0 = (\<lambda>(u, r).
     case map_of s0 u of
       None \<Rightarrow> ''new''
     | Some r0 \<Rightarrow> if sv_active r0 \<in> set INACTIVE \<and> sv_active r = PStr ''active'' then ''re-enabled'' else ''unchanged'')"

definition captured_attrs :: "service_row \<Rightarrow> pydict" where
  "captured_attrs r = [(''active_state'', sv_active r), (''sub_state'', sv_sub r), (''load_state'', sv_load r)]"

lemma captured_baseline:
  assumes "st_service st = service_table s"
  shows "baseline_of ''service'' (fst (fst (handle_capture_baseline sha ostr env now [] st (b, au))))
    = map (\<lambda>(u, r). (PStr (''svc:'' @ u), captured_attrs r)) s"
proof -
  have "filter (\<lambda>((k, _), _). k = ''service'') (delete_where (\<lambda>(k, _) _. k = ''service'') b) = []"
    by (auto simp: delete_where_def filter_empty_conv)
  moreover have "filter (\<lambda>((k, _), _). k = ''service'') (map (\<lambda>x. ((''service'', f x), g x)) xs) = map (\<lambda>x. ((''service'', f x), g x)) xs"
    for f :: "pyval \<times> service_row \<Rightarrow> pyval" and g xs by (induction xs) auto
  ultimately show ?thesis using assms
    by (simp add: handle_capture_baseline_def capture_baseline_def param_or_def Let_def baseline_of_def service_table_def captured_attrs_def case_prod_beta comp_def)
qed

lemma map_of_prefixed: "map_of (map (\<lambda>(u, r). (PStr (''svc:'' @ u), f r)) s) (PStr (''svc:'' @ u)) = map_option f (map_of s u)"
  by (induction s) auto

lemma listed_status: "diff_status (PStr (''svc:'' @ u)) (sv_active r) (map (\<lambda>(u, r). (PStr (''svc:'' @ u), captured_attrs r)) s0) = service_change s0 (u, r)"
  unfolding diff_status_def map_of_prefixed by (simp add: service_change_def captured_attrs_def dget_def split: option.split)

lemma removed_units:
  "removed_keys ostr (map (\<lambda>u. PStr (''svc:'' @ u)) us) (map (\<lambda>(u, r). (PStr (''svc:'' @ u), captured_attrs r)) s0)
   = map (\<lambda>u. PStr (''svc:'' @ u)) (filter (\<lambda>u. u \<notin> set us) (sort (map fst s0)))"
proof -
  have a: "sort_key (py_str ostr) (map (\<lambda>u. PStr (''svc:'' @ u)) vs) = map (\<lambda>u. PStr (''svc:'' @ u)) (sort vs)" for vs
    unfolding sort_map by (simp add: sort_same_order[of "\<lambda>u. ''svc:'' @ u" "\<lambda>u. u", simplified])
  have b: "keys (map (\<lambda>(u, r). (PStr (''svc:'' @ u), captured_attrs r)) s0) = map (\<lambda>u. PStr (''svc:'' @ u)) (map fst s0)"
    by (simp add: case_prod_beta comp_def)
  have c: "(\<lambda>k. k \<notin> set (map (\<lambda>u. PStr (''svc:'' @ u)) us)) \<circ> (\<lambda>u. PStr (''svc:'' @ u)) = (\<lambda>u. u \<notin> set us)" by (auto simp: fun_eq_iff)
  show ?thesis unfolding removed_keys_def b a filter_map c ..
qed

text \<open>The diff of the service panel is exact. A baseline is captured from one set of services, whatever baselines there were
  before; the panel is then asked, with a limit that covers all rows, for the diff over another set of services. It lists every current unit
  once, in order, as new when the baseline does not know it, as re-enabled when the baseline has it inactive, failed or without a state and it is
  active now, and as unchanged otherwise, and after them exactly the units of the baseline that are gone, as removed.\<close>

theorem services_diff_exact:
  assumes "st_service st0 = service_table s0" "st_service st1 = service_table s1"
    "sql_limit 200 params = Some n" "length s1 \<le> n" "truthy (param_or params ''diff'' (PBool False))"
  shows "\<exists>items. handle_list_services ostr isof params st1 (fst (fst (handle_capture_baseline sha ostr env now [] st0 (b, au)))) = Some items
    \<and> map (\<lambda>i. (dget i ''unit'', dget i ''diff_status'')) items
      = map (\<lambda>x. (PStr (fst x), PStr (service_change s0 x))) (sort_key fst s1)
        @ map (\<lambda>u. (PStr u, PStr ''removed'')) (filter (\<lambda>u. u \<notin> fst ` set s1) (sort (map fst s0)))"
proof -
  let ?b = "fst (fst (handle_capture_baseline sha ostr env now [] st0 (b, au)))"
  let ?base = "map (\<lambda>(u, r). (PStr (''svc:'' @ u), captured_attrs r)) s0"
  have base: "baseline_of ''service'' ?b = ?base" by (rule captured_baseline[OF assms(1)])
  have rows: "take n (sort_key (\<lambda>(u, _). py_str ostr u) (st_service st1)) = map (\<lambda>(u, r). (PStr u, r)) (sort_key fst s1)"
    using assms(4) by (simp add: assms(2) service_table_def sort_map case_prod_beta)
  have cur: "map (service_key ostr \<circ> fst) (map (\<lambda>(u, r). (PStr u, r)) (sort_key fst s1)) = map (\<lambda>u. PStr (''svc:'' @ u)) (map fst (sort_key fst s1))"
    by (simp add: service_key_def case_prod_beta comp_def)
  let ?A = "map (\<lambda>(u, r). service_item isof u r @ [(''diff_status'', PStr (diff_status (service_key ostr u) (sv_active r) ?base))])
      (map (\<lambda>(u, r). (PStr u, r)) (sort_key fst s1))"
  let ?B = "map (removed_service ostr) (removed_keys ostr (map (\<lambda>u. PStr (''svc:'' @ u)) (map fst (sort_key fst s1))) ?base)"
  have "handle_list_services ostr isof params st1 ?b = Some (?A @ ?B)"
    unfolding handle_list_services_def by (simp only: assms(3,5) option.case Let_def if_True base rows cur)
  moreover have "map (\<lambda>i. (dget i ''unit'', dget i ''diff_status'')) ?A = map (\<lambda>x. (PStr (fst x), PStr (service_change s0 x))) (sort_key fst s1)"
    by (simp add: service_item_def dget_def case_prod_beta comp_def service_key_def listed_status[simplified case_prod_beta append.simps])
  moreover have "map (\<lambda>i. (dget i ''unit'', dget i ''diff_status'')) ?B
      = map (\<lambda>u. (PStr u, PStr ''removed'')) (filter (\<lambda>u. u \<notin> fst ` set s1) (sort (map fst s0)))"
    unfolding removed_units by (simp add: removed_service_def dget_def comp_def removeprefix_def)
  ultimately show ?thesis by (intro exI[of _ "?A @ ?B"] conjI) (simp_all only: map_append)
qed

definition unit_row :: "string \<Rightarrow> service_row" where
  "unit_row active = \<lparr>sv_active = PStr active, sv_sub = PNone, sv_load = PNone, sv_first_seen = 0, sv_last_seen = 0, sv_event = ''e''\<rparr>"

theorem services_diff_exact_witness:
  "\<exists>items. handle_list_services (\<lambda>_. []) (\<lambda>_. []) [(''diff'', PBool True)] (empty_state\<lparr>st_service := service_table [(''c'', unit_row ''active''), (''a'', unit_row ''active'')]\<rparr>)
       (fst (fst (handle_capture_baseline (\<lambda>_. []) (\<lambda>_. []) (sample_call ''baseline_captured'') 0 []
         (empty_state\<lparr>st_service := service_table [(''a'', unit_row ''inactive''), (''b'', unit_row ''active'')]\<rparr>) ([], audit_init)))) = Some items
     \<and> map (\<lambda>i. (dget i ''unit'', dget i ''diff_status'')) items
       = [(PStr ''a'', PStr ''re-enabled''), (PStr ''c'', PStr ''new''), (PStr ''b'', PStr ''removed'')]"
proof -
  let ?s0 = "[(''a'', unit_row ''inactive''), (''b'', unit_row ''active'')]" and ?s1 = "[(''c'', unit_row ''active''), (''a'', unit_row ''active'')]"
  have spec: "map (\<lambda>x. (PStr (fst x), PStr (service_change ?s0 x))) (sort_key fst ?s1) @ map (\<lambda>u. (PStr u, PStr ''removed'')) (filter (\<lambda>u. u \<notin> fst ` set ?s1) (sort (map fst ?s0)))
      = [(PStr ''a'', PStr ''re-enabled''), (PStr ''c'', PStr ''new''), (PStr ''b'', PStr ''removed'')]"
    by (simp add: service_change_def unit_row_def INACTIVE_def)
  have "sql_limit 200 [(''diff'', PBool True)] = Some 200" "truthy (param_or [(''diff'', PBool True)] ''diff'' (PBool False))"
    by (simp_all add: sql_limit_def param_or_def)
  from services_diff_exact[OF _ _ this(1) _ this(2), where ?s0.0 = ?s0 and ?s1.0 = ?s1 and ?st0.0 = "empty_state\<lparr>st_service := service_table ?s0\<rparr>"
      and ?st1.0 = "empty_state\<lparr>st_service := service_table ?s1\<rparr>"]
  show ?thesis unfolding spec by simp
qed

text \<open>The limit cuts the rows before the diff: a unit beyond it is reported as removed although nothing has changed since the capture.\<close>

lemma limit_reports_removed:
  "let st = empty_state\<lparr>st_service := service_table [(''a'', unit_row ''active''), (''b'', unit_row ''active'')]\<rparr>
   in map_option (map (\<lambda>i. (dget i ''unit'', dget i ''diff_status''))) (handle_list_services ostr isof [(''diff'', PBool True), (''limit'', PInt 1)] st
        (fst (fst (handle_capture_baseline sha ostr env now [] st (b, au)))))
      = Some [(PStr ''a'', PStr ''unchanged''), (PStr ''b'', PStr ''removed'')]"
proof -
  let ?s = "[(''a'', unit_row ''active''), (''b'', unit_row ''active'')]"
  let ?st = "empty_state\<lparr>st_service := service_table ?s\<rparr>"
  have base: "baseline_of ''service'' (fst (fst (handle_capture_baseline sha ostr env now [] ?st (b, au))))
      = [(PStr ''svc:a'', captured_attrs (unit_row ''active'')), (PStr ''svc:b'', captured_attrs (unit_row ''active''))]"
    using captured_baseline[of ?st ?s sha ostr env now b au] by simp
  show ?thesis unfolding Let_def handle_list_services_def base
    by (simp add: base sql_limit_def param_or_def Let_def service_table_def service_item_def dget_def diff_status_def service_key_def captured_attrs_def
        unit_row_def INACTIVE_def removed_keys_def removed_service_def removeprefix_def)
qed

text \<open>One finding whose indicator is a text ends the whole listing.\<close>

lemma odd_finding_is_fatal:
  "json_loads p = Some (PDict [(''threat'', PDict [(''indicator'', PStr ''x'')])]) \<Longrightarrow>
     handle_list_scan_findings ostr isof [] [\<lparr>er_id = ''e'', er_ts = 0, er_kind = ''event'', er_module = ''scanner_runner'', er_action = ''scan_finding'',
       er_severity = ''info'', er_payload = p, er_seq = 0\<rparr>] = None"
  by (simp add: handle_list_scan_findings_def param_or_def finding_rows_def finding_of_row_def finding_item_def field_of_def dget_def FINDINGS_SCAN_LIMIT_def)

end
