(* ===== verification/Scanner_Runner.thy ===== *)
theory Scanner_Runner
  imports State_Panels Anomaly_Detector
begin

text \<open>
  The scanner runner, \<^verbatim>\<open>workers/scanner_runner/runner.py\<close> with the adapter interface of \<^verbatim>\<open>scanners/base.py\<close>: the bounded capture of
  output, the ways a job ends, and the worker that schedules one scan at a time. A scanner adapter is the record of its functions, where
  \<open>None\<close> is an exception. Processes and threads are seen through their outcomes, which are arguments: whether the job of the active run is done,
  with which result, whether a binary is found. Times are reals.
\<close>

section \<open>Bounded output\<close>

record bounded_sink =
  bk_limit :: nat
  bk_chunks :: "string list"
  bk_kept :: nat
  bk_dropped :: nat

definition new_sink :: "int \<Rightarrow> bounded_sink" where
  "new_sink limit = \<lparr>bk_limit = nat limit, bk_chunks = [], bk_kept = 0, bk_dropped = 0\<rparr>"

text \<open>A chunk is its bytes.\<close>

definition sink_write :: "string \<Rightarrow> bounded_sink \<Rightarrow> bounded_sink" where
  "sink_write data s =
     (let room = bk_limit s - bk_kept s
      in if room > 0
         then s\<lparr>bk_chunks := bk_chunks s @ [take room data], bk_kept := bk_kept s + length (take room data),
                bk_dropped := bk_dropped s + length (drop room data)\<rparr>
         else s\<lparr>bk_dropped := bk_dropped s + length data\<rparr>)"

definition snapshot :: "bounded_sink \<Rightarrow> string \<times> nat" where
  "snapshot s = (concat (bk_chunks s), bk_dropped s)"

text \<open>\<^verbatim>\<open>_drain_into\<close>: the chunks a pipe yields, up to its end or its failure.\<close>

fun drain_into :: "string list \<Rightarrow> bounded_sink \<Rightarrow> bounded_sink" where
  "drain_into [] s = s"
| "drain_into (c # cs) s = (if c = [] then s else drain_into cs (sink_write c s))"

section \<open>Killing a process group\<close>

datatype scan_signal = Sigterm | Sigkill

datatype kill_step = Group_signal scan_signal | Child_signal scan_signal | Wait_exit | Join_job

text \<open>\<open>pgid\<close> says whether the group is known and takes the signal; then the direct child is not signalled.\<close>

definition signal_process_group :: "bool \<Rightarrow> scan_signal \<Rightarrow> kill_step list" where
  "signal_process_group pgid sig = (if pgid then [Group_signal sig] else [Child_signal sig])"

definition kill_process_group :: "bool \<Rightarrow> bool \<Rightarrow> kill_step list" where
  "kill_process_group pgid exits =
     signal_process_group pgid Sigterm @ [Wait_exit] @ (if exits then [] else signal_process_group pgid Sigkill @ [Wait_exit])"

text \<open>\<^verbatim>\<open>_ScanJob.cancel\<close>: only signals and joins. \<open>early\<close> and \<open>late\<close> say whether the process is known before and after the first join, \<open>ends\<close> whether
  the thread has ended by then.\<close>

definition cancel_job :: "bool \<Rightarrow> bool \<Rightarrow> bool \<Rightarrow> bool \<Rightarrow> bool \<Rightarrow> kill_step list" where
  "cancel_job pgid early late started ends =
     (if early then signal_process_group pgid Sigterm else [])
     @ (if \<not> started then []
        else [Join_job] @ (if ends then [] else (if early \<or> late then signal_process_group pgid Sigkill else []) @ [Join_job]))"

section \<open>The job\<close>

text \<open>\<^verbatim>\<open>_await_exit\<close>: a scan is in time when both pipes end and the process exits before the deadline.\<close>

definition await_exit :: "bool list \<Rightarrow> bool \<Rightarrow> bool" where
  "await_exit readers_ended exits = (\<not> (list_all (\<lambda>x. x) readers_ended \<and> exits))"

record scan_result =
  rs_exit_code :: "int option"
  rs_stdout :: string
  rs_stderr :: string
  rs_timed_out :: bool
  rs_cancelled :: bool
  rs_error :: "string option"
  rs_unreported :: bool
  rs_dropped :: nat

definition plain_result :: scan_result where
  "plain_result = \<lparr>rs_exit_code = None, rs_stdout = [], rs_stderr = [], rs_timed_out = False, rs_cancelled = False, rs_error = None,
     rs_unreported = False, rs_dropped = 0\<rparr>"

definition UNREPORTED :: scan_result where
  "UNREPORTED = plain_result\<lparr>rs_error := Some ''the scan thread did not report before the shutdown grace expired'', rs_unreported := True\<rparr>"

text \<open>What the world does to one job: the spawn fails with a text or works; the job is cancelled before it is registered; the wait raises or says
  whether it timed out; the chunks of both pipes; the exit status, if any; and whether it was cancelled by the end.\<close>

record job_world =
  jw_spawn_error :: "string option"
  jw_cancelled_early :: bool
  jw_wait :: "string + bool"
  jw_out :: "string list"
  jw_err :: "string list"
  jw_returncode :: "int option"
  jw_cancelled :: bool

definition run_job :: "int \<Rightarrow> job_world \<Rightarrow> scan_result" where
  "run_job max_output_bytes w =
     (case jw_spawn_error w of
        Some e \<Rightarrow> plain_result\<lparr>rs_error := Some e\<rparr>
      | None \<Rightarrow>
          if jw_cancelled_early w then plain_result\<lparr>rs_exit_code := jw_returncode w, rs_cancelled := True\<rparr>
          else case jw_wait w of
                 Inl e \<Rightarrow> plain_result\<lparr>rs_exit_code := jw_returncode w, rs_error := Some e\<rparr>
               | Inr timed_out \<Rightarrow>
                   (let (out, d1) = snapshot (drain_into (jw_out w) (new_sink max_output_bytes));
                        (err, d2) = snapshot (drain_into (jw_err w) (new_sink max_output_bytes))
                    in \<lparr>rs_exit_code = jw_returncode w, rs_stdout = out, rs_stderr = err, rs_timed_out = timed_out, rs_cancelled = jw_cancelled w,
                        rs_error = None, rs_unreported = False, rs_dropped = d1 + d2\<rparr>))"

section \<open>Adapters\<close>

datatype scan_verdict = Clean | Findings | Scan_failure

fun outcome_name :: "scan_verdict \<Rightarrow> string" where
  "outcome_name Clean = ''clean''" | "outcome_name Findings = ''findings''" | "outcome_name Scan_failure = ''failure''"

record finding =
  fg_type :: string
  fg_value :: string
  fg_raw_line :: string
  fg_category :: string
  fg_path :: "string option"
  fg_hashes :: pydict
  fg_severity :: "string option"
  fg_message :: "string option"

record adapter =
  ad_binary :: string
  ad_argv :: "pydict \<Rightarrow> string list option"
  ad_preflight :: "pydict \<Rightarrow> string option option"
  ad_interpret :: "int \<Rightarrow> string \<Rightarrow> string \<Rightarrow> scan_verdict option"
  ad_parse :: "string \<Rightarrow> string \<Rightarrow> finding list option"

text \<open>Control characters below code point 256; the two line separators beyond it do not occur here.\<close>

definition sanitize_text :: "string \<Rightarrow> string" where
  "sanitize_text = filter (\<lambda>c. \<not> (char_code c \<le> 8 \<or> 10 \<le> char_code c \<and> char_code c \<le> 31 \<or> 127 \<le> char_code c \<and> char_code c \<le> 159))"

definition MAX_FAILURE_OUTPUT_CHARS :: nat where "MAX_FAILURE_OUTPUT_CHARS = 400"

definition excerpt_of :: "string \<Rightarrow> string" where
  "excerpt_of t = join_with '' '' (filter (\<lambda>p. p \<noteq> []) (map (\<lambda>l. strip (sanitize_text l)) (split_on (CHR 0x0A) t)))"

definition failure_excerpt :: "scan_result \<Rightarrow> string option" where
  "failure_excerpt r =
     map_option (\<lambda>x. if length x > MAX_FAILURE_OUTPUT_CHARS then take MAX_FAILURE_OUTPUT_CHARS x @ '' [truncated]'' else x)
       (find (\<lambda>x. x \<noteq> []) [excerpt_of (rs_stderr r), excerpt_of (rs_stdout r)])"

section \<open>The worker\<close>

record active_run =
  ar_scanner :: string
  ar_adapter :: adapter
  ar_run_id :: string
  ar_started_at :: real
  ar_argv :: "string list"
  ar_scheduled :: bool

record runner =
  ru_active :: "active_run option"
  ru_next_due :: "string \<Rightarrow> real"
  ru_retried :: "string \<Rightarrow> bool"
  ru_skip_notified :: "string set"
  ru_scheduled :: bool
  ru_run_next :: "string set"

definition new_runner :: runner where
  "new_runner = \<lparr>ru_active = None, ru_next_due = (\<lambda>_. 0), ru_retried = (\<lambda>_. False), ru_skip_notified = {}, ru_scheduled = False, ru_run_next = {}\<rparr>"

text \<open>\<^verbatim>\<open>_as_float\<close>; an integer beyond the doubles raises \<^verbatim>\<open>OverflowError\<close> there, and the configurations considered have none.\<close>

definition as_float :: "(string \<Rightarrow> real option) \<Rightarrow> pyval \<Rightarrow> real \<Rightarrow> real" where
  "as_float pf v d = (case py_float pf v of Load_ok x \<Rightarrow> x | _ \<Rightarrow> d)"

definition scanner_config :: "pydict \<Rightarrow> string \<Rightarrow> pydict" where
  "scanner_config config name = (case dget config ''scanners'' of PDict d \<Rightarrow> (case dget d name of PDict c \<Rightarrow> c | _ \<Rightarrow> []) | _ \<Rightarrow> [])"

definition scanner_enabled :: "pydict \<Rightarrow> string \<Rightarrow> bool" where
  "scanner_enabled config name = truthy (param_or (scanner_config config name) ''enabled'' (PBool False))"

definition scan_interval_s :: "(string \<Rightarrow> real option) \<Rightarrow> pydict \<Rightarrow> string \<Rightarrow> real" where
  "scan_interval_s pf config name = as_float pf (dget (scanner_config config name) ''interval_s'') 86400"

definition scan_timeout_s :: "(string \<Rightarrow> real option) \<Rightarrow> pydict \<Rightarrow> string \<Rightarrow> real" where
  "scan_timeout_s pf config name = as_float pf (dget (scanner_config config name) ''timeout_s'') 3600"

definition max_findings :: "pydict \<Rightarrow> int" where
  "max_findings config = (case int_of (param_or config ''max_findings_per_run'' (PInt 500)) of None \<Rightarrow> 500 | Some n \<Rightarrow> max 0 n)"

definition max_output_bytes :: "pydict \<Rightarrow> int" where
  "max_output_bytes config = (case int_of (param_or config ''max_output_bytes'' (PInt 8388608)) of None \<Rightarrow> 8388608 | Some n \<Rightarrow> max 0 n)"

definition retry_backoff_s :: "(string \<Rightarrow> real option) \<Rightarrow> pydict \<Rightarrow> real" where
  "retry_backoff_s pf config = as_float pf (dget config ''retry_backoff_s'') 60"

definition scanner_step_interval_s :: "(string \<Rightarrow> real option) \<Rightarrow> pydict \<Rightarrow> real" where
  "scanner_step_interval_s pf config = as_float pf (dget config ''interval_s'') 60"

text \<open>The command \<^verbatim>\<open>run_scanner\<close>: the state and the answer, a status and its detail.\<close>

definition run_scanner_command ::
  "(pyval \<Rightarrow> string) \<Rightarrow> pydict \<Rightarrow> (string, adapter) table \<Rightarrow> string \<Rightarrow> pydict \<Rightarrow> runner \<Rightarrow> runner \<times> string \<times> string" where
  "run_scanner_command ostr config ads command args w =
     (let name = py_str ostr (param_or args ''name'' (PStr []))
      in if command \<noteq> ''run_scanner'' then (w, ''rejected'', ''unknown command: '' @ command)
         else if name \<notin> set (keys ads) then (w, ''rejected'', ''unknown_scanner'')
         else if \<not> scanner_enabled config name then (w, ''rejected'', ''scanner_disabled'')
         else (w\<lparr>ru_run_next := insert name (ru_run_next w)\<rparr>, ''accepted'',
               if ru_active w \<noteq> None then ''queued behind current run'' else ''run scheduled for the next tick''))"

section \<open>Events\<close>

text \<open>What a tick sees: the clocks, the name of the host, the identifier of the run it may start, which binaries are found, whether an event can be
  written (a failed write raises), and the job of the active run: \<open>None\<close> while it runs, then the result it left, if any.\<close>

record scan_env_now =
  sn_pf :: "string \<Rightarrow> real option"
  sn_config :: pydict
  sn_adapters :: "(string, adapter) table"
  sn_now :: real
  sn_wall :: datetime
  sn_host :: string
  sn_eid :: "string \<Rightarrow> string"
  sn_run_id :: string
  sn_which :: "string \<Rightarrow> bool"
  sn_emit_ok :: "event \<Rightarrow> bool"
  sn_done :: "scan_result option option"

definition scanner_event :: "scan_env_now \<Rightarrow> string \<Rightarrow> string \<Rightarrow> string list \<Rightarrow> string list \<Rightarrow> string \<Rightarrow> string option \<Rightarrow> string option \<Rightarrow> event_blocks \<Rightarrow> pydict \<Rightarrow> event" where
  "scanner_event env scanner action category types sev outc message b raw =
     the (build_event (sn_wall env) (sn_eid env action) ''scanner_runner'' action category types sev ''event'' outc message
            (b\<lparr>eb_host := Some [(''name'', PStr (sn_host env))], eb_raw := Some raw\<rparr>) (Some [''scanner'', ''scanner:'' @ scanner]) None False)"

definition started_event :: "scan_env_now \<Rightarrow> string \<Rightarrow> string \<Rightarrow> string list \<Rightarrow> event" where
  "started_event env scanner run_id argv =
     scanner_event env scanner ''scan_started'' [''process''] [''start''] ''info'' None (Some (scanner @ '' scan started'')) no_blocks
       [(''scanner'', PStr scanner), (''run_id'', PStr run_id), (''argv'', PList (map PStr argv))]"

definition skipped_event :: "scan_env_now \<Rightarrow> string \<Rightarrow> string \<Rightarrow> string \<Rightarrow> event" where
  "skipped_event env scanner reason binary =
     scanner_event env scanner ''scan_skipped'' [''process''] [''info''] ''info'' None (Some (scanner @ '' scan skipped: '' @ reason)) no_blocks
       [(''scanner'', PStr scanner), (''reason'', PStr reason), (''binary'', PStr binary)]"

definition text_value :: "string option \<Rightarrow> pyval" where
  "text_value t = (case t of None \<Rightarrow> PNone | Some s \<Rightarrow> PStr s)"

definition prune :: "pydict \<Rightarrow> pydict" where
  "prune d = filter (\<lambda>(_, v). v \<noteq> PNone) d"

definition scan_completed_event :: "scan_env_now \<Rightarrow> active_run \<Rightarrow> scan_verdict \<Rightarrow> string option \<Rightarrow> scan_result \<Rightarrow> real \<Rightarrow> nat \<Rightarrow> nat \<Rightarrow> event" where
  "scan_completed_event env run outcome reason r duration_s finding_count findings_dropped =
     scanner_event env (ar_scanner run) ''scan_completed'' [''process''] [''end''] ''info'' (Some (if outcome = Scan_failure then ''failure'' else ''success''))
       (Some (ar_scanner run @ '' scan '' @ outcome_name outcome @ (case reason of None \<Rightarrow> [] | Some t \<Rightarrow> '' ('' @ t @ '')''))) no_blocks
       (prune [(''scanner'', PStr (ar_scanner run)), (''run_id'', PStr (ar_run_id run)), (''scan_outcome'', PStr (outcome_name outcome)),
          (''reason'', text_value reason), (''exit_code'', case rs_exit_code r of None \<Rightarrow> PNone | Some c \<Rightarrow> PInt c), (''error'', text_value (rs_error r)),
          (''duration_s'', PFloat (round_to 3 duration_s)), (''finding_count'', PInt (int finding_count)), (''findings_dropped'', PInt (int findings_dropped)),
          (''truncated'', PBool (findings_dropped > 0)), (''output_dropped_bytes'', PInt (int (rs_dropped r))), (''output_truncated'', PBool (rs_dropped r > 0)),
          (''output_excerpt'', if outcome = Scan_failure then text_value (failure_excerpt r) else PNone)])"

definition finding_event :: "scan_env_now \<Rightarrow> active_run \<Rightarrow> finding \<Rightarrow> event" where
  "finding_event env run f =
     scanner_event env (ar_scanner run) ''scan_finding'' [if fg_category f = [] then ''file'' else fg_category f] [''info''] ''low'' None (fg_message f)
       (no_blocks\<lparr>eb_file := (case fg_path f of None \<Rightarrow> None
                              | Some p \<Rightarrow> Some ([(''path'', PStr p)] @ (if fg_hashes f = [] then [] else [(''hash'', PDict (fg_hashes f))]))),
                  eb_threat := Some [(''indicator'', PDict ([(''type'', PStr (fg_type f)), (''value'', PStr (fg_value f)), (''source'', PStr (ar_scanner run))]
                                 @ (case fg_severity f of None \<Rightarrow> [] | Some s \<Rightarrow> [(''severity'', PStr s)])))]\<rparr>)
       [(''scanner'', PStr (ar_scanner run)), (''run_id'', PStr (ar_run_id run)), (''line'', PStr (fg_raw_line f))]"

section \<open>Finishing a run\<close>

definition SHUTDOWN_REASONS :: "string list" where "SHUTDOWN_REASONS = [''shutdown'', ''teardown_timeout'']"

definition pre_exit_failure_reason :: "scan_result \<Rightarrow> string option" where
  "pre_exit_failure_reason r =
     (if rs_unreported r then Some ''teardown_timeout'' else if rs_error r \<noteq> None then Some ''spawn_error''
      else if rs_timed_out r then Some ''timeout'' else if rs_cancelled r then Some ''shutdown'' else None)"

definition classify_scan :: "adapter \<Rightarrow> scan_result \<Rightarrow> scan_verdict \<times> string option" where
  "classify_scan ad r =
     (case (pre_exit_failure_reason r, rs_exit_code r) of
        (Some reason, _) \<Rightarrow> (Scan_failure, Some reason)
      | (None, None) \<Rightarrow> (Scan_failure, Some ''no_exit_status'')
      | (None, Some c) \<Rightarrow>
          (case ad_interpret ad c (rs_stdout r) (rs_stderr r) of
             None \<Rightarrow> (Scan_failure, Some ''exit_interpretation_error'')
           | Some outcome \<Rightarrow> (outcome, if outcome = Scan_failure then Some ''scanner_error'' else None)))"

text \<open>The verdict and the findings of a run: a run whose output the adapter cannot parse has failed.\<close>

definition judge_scan :: "adapter \<Rightarrow> scan_result \<Rightarrow> scan_verdict \<times> string option \<times> finding list" where
  "judge_scan ad r =
     (case classify_scan ad r of
        (outcome, reason) \<Rightarrow>
          if outcome = Scan_failure then (outcome, reason, [])
          else case ad_parse ad (rs_stdout r) (rs_stderr r) of
                 None \<Rightarrow> (Scan_failure, Some ''parse_error'', []) | Some fs \<Rightarrow> (outcome, reason, fs))"

definition consume_slot :: "scan_env_now \<Rightarrow> string \<Rightarrow> runner \<Rightarrow> runner" where
  "consume_slot env name w =
     w\<lparr>ru_next_due := (ru_next_due w)(name := sn_now env + scan_interval_s (sn_pf env) (sn_config env) name), ru_skip_notified := ru_skip_notified w - {name}\<rparr>"

definition reschedule :: "scan_env_now \<Rightarrow> string \<Rightarrow> scan_verdict \<Rightarrow> string option \<Rightarrow> runner \<Rightarrow> runner" where
  "reschedule env name outcome reason w =
     (if outcome = Scan_failure \<and> (case reason of None \<Rightarrow> True | Some t \<Rightarrow> t \<notin> set SHUTDOWN_REASONS) \<and> \<not> ru_retried w name
      then w\<lparr>ru_retried := (ru_retried w)(name := True), ru_next_due := (ru_next_due w)(name := sn_now env + retry_backoff_s (sn_pf env) (sn_config env)),
             ru_skip_notified := ru_skip_notified w - {name}\<rparr>
      else consume_slot env name (w\<lparr>ru_retried := (ru_retried w)(name := False)\<rparr>))"

text \<open>Emissions that raise are recorded on the heartbeat and do not stop the rest.\<close>

definition finish_scan :: "scan_env_now \<Rightarrow> active_run \<Rightarrow> scan_result option \<Rightarrow> runner \<Rightarrow> runner \<times> event list" where
  "finish_scan env run res w =
     (let r = (case res of None \<Rightarrow> UNREPORTED | Some x \<Rightarrow> x);
          (outcome, reason, findings) = judge_scan (ar_adapter run) r;
          emitted = take (nat (max_findings (sn_config env))) findings;
          completed = scan_completed_event env run outcome reason r (max 0 (sn_now env - ar_started_at run)) (length emitted) (length findings - length emitted)
      in (if ar_scheduled run then reschedule env (ar_scanner run) outcome reason w else w,
          fst (emit_all (sn_emit_ok env) (map (finding_event env run) emitted)) @ fst (emit_all (sn_emit_ok env) [completed])))"

section \<open>The tick\<close>

definition ensure_scheduled :: "scan_env_now \<Rightarrow> runner \<Rightarrow> runner" where
  "ensure_scheduled env w =
     (if ru_scheduled w then w
      else w\<lparr>ru_next_due := (\<lambda>n. if n \<in> set (keys (sn_adapters env)) then sn_now env + as_float (sn_pf env) (dget (sn_config env) ''startup_delay_s'') 120
                                else ru_next_due w n), ru_scheduled := True\<rparr>)"

text \<open>An operation yields the state, the events written and whether it went through; an event that cannot be written raises.\<close>

definition emit_one :: "scan_env_now \<Rightarrow> event \<Rightarrow> runner \<Rightarrow> runner \<Rightarrow> runner \<times> event list \<times> bool" where
  "emit_one env e failed w = (if sn_emit_ok env e then (w, [e], True) else (failed, [], False))"

definition notify_in_flight :: "scan_env_now \<Rightarrow> string \<Rightarrow> adapter \<Rightarrow> runner \<Rightarrow> runner \<times> event list \<times> bool" where
  "notify_in_flight env name ad w =
     (if name \<in> ru_skip_notified w then (w, [], True)
      else let w1 = w\<lparr>ru_skip_notified := insert name (ru_skip_notified w)\<rparr> in emit_one env (skipped_event env name ''run_in_flight'' (ad_binary ad)) w1 w1)"

definition skip_slot :: "scan_env_now \<Rightarrow> string \<Rightarrow> adapter \<Rightarrow> string \<Rightarrow> bool \<Rightarrow> runner \<Rightarrow> runner \<times> event list \<times> bool" where
  "skip_slot env name ad reason consume w =
     (let w1 = w\<lparr>ru_retried := (ru_retried w)(name := False)\<rparr>
      in emit_one env (skipped_event env name reason (ad_binary ad)) w (if consume then consume_slot env name w1 else w1))"

text \<open>Why a due scanner cannot run now, or its command line.\<close>

definition prepare_scan :: "scan_env_now \<Rightarrow> string \<Rightarrow> adapter \<Rightarrow> string + string list" where
  "prepare_scan env name ad =
     (let config = scanner_config (sn_config env) name
      in if \<not> sn_which env (ad_binary ad) then Inl ''binary_not_found''
         else case ad_preflight ad config of
                None \<Rightarrow> Inl ''preflight_error''
              | Some (Some reason) \<Rightarrow> Inl reason
              | Some None \<Rightarrow> (case ad_argv ad config of None \<Rightarrow> Inl ''argv_error'' | Some argv \<Rightarrow> Inr argv))"

definition start_scan :: "scan_env_now \<Rightarrow> string \<Rightarrow> adapter \<Rightarrow> bool \<Rightarrow> runner \<Rightarrow> runner \<times> event list \<times> bool" where
  "start_scan env name ad scheduled w =
     (let w1 = w\<lparr>ru_run_next := ru_run_next w - {name}\<rparr>
      in case prepare_scan env name ad of
           Inl reason \<Rightarrow> skip_slot env name ad reason scheduled w1
         | Inr argv \<Rightarrow>
             (let w2 = (if scheduled then consume_slot env name w1 else w1)
              in emit_one env (started_event env name (sn_run_id env) argv) w2
                   (w2\<lparr>ru_active := Some \<lparr>ar_scanner = name, ar_adapter = ad, ar_run_id = sn_run_id env, ar_started_at = sn_now env, ar_argv = argv,
                                         ar_scheduled = scheduled\<rparr>\<rparr>)))"

definition tick_scanner :: "scan_env_now \<Rightarrow> string \<times> adapter \<Rightarrow> runner \<Rightarrow> runner \<times> event list \<times> bool" where
  "tick_scanner env = (\<lambda>(name, ad) w.
     let triggered = (name \<in> ru_run_next w); scheduled_due = (ru_next_due w name \<le> sn_now env)
     in if \<not> scanner_enabled (sn_config env) name \<or> \<not> triggered \<and> \<not> scheduled_due then (w, [], True)
        else if ru_active w \<noteq> None then (if scheduled_due then notify_in_flight env name ad w else (w, [], True))
        else start_scan env name ad scheduled_due w)"

fun tick_scanners :: "scan_env_now \<Rightarrow> (string \<times> adapter) list \<Rightarrow> runner \<Rightarrow> runner \<times> event list \<times> bool" where
  "tick_scanners env [] w = (w, [], True)"
| "tick_scanners env (x # xs) w =
     (case tick_scanner env x w of
        (w1, out1, False) \<Rightarrow> (w1, out1, False)
      | (w1, out1, True) \<Rightarrow> (case tick_scanners env xs w1 of (w2, out2, ok) \<Rightarrow> (w2, out1 @ out2, ok)))"

definition poll_active :: "scan_env_now \<Rightarrow> runner \<Rightarrow> runner \<times> event list" where
  "poll_active env w =
     (case (ru_active w, sn_done env) of
        (Some run, Some res) \<Rightarrow> finish_scan env run res (w\<lparr>ru_active := None\<rparr>)
      | _ \<Rightarrow> (w, []))"

definition scanner_step :: "scan_env_now \<Rightarrow> runner \<Rightarrow> runner \<times> event list \<times> bool" where
  "scanner_step env w =
     (case poll_active env (ensure_scheduled env w) of
        (w1, out1) \<Rightarrow>
          (case tick_scanners env (sort_key fst (sn_adapters env)) w1 of (w2, out2, ok) \<Rightarrow> (w2, out1 @ out2, ok)))"

text \<open>The stop: the job is cancelled, and whatever it has left by then is reported.\<close>

definition scanner_teardown :: "scan_env_now \<Rightarrow> scan_result option \<Rightarrow> runner \<Rightarrow> runner \<times> event list" where
  "scanner_teardown env res w =
     (case ru_active w of None \<Rightarrow> (w, []) | Some run \<Rightarrow> finish_scan env run res (w\<lparr>ru_active := None\<rparr>))"

end
