(* ===== verification/Scanner_Laws.thy ===== *)
theory Scanner_Laws
  imports Scanner_Runner
begin

text \<open>
  What the scanner runner guarantees: every run that starts is reported exactly once and no two runs overlap, commands do not move
  the schedule, the captured output is a prefix, and a failed scan reads as failed on the panel.
\<close>

section \<open>The captured output\<close>

lemma sink_write_prefix:
  assumes "concat (bk_chunks s) = take (bk_limit s) t" "bk_kept s = min (bk_limit s) (length t)" "bk_dropped s = length t - bk_limit s"
  shows "concat (bk_chunks (sink_write c s)) = take (bk_limit s) (t @ c) \<and> bk_kept (sink_write c s) = min (bk_limit s) (length (t @ c))
    \<and> bk_dropped (sink_write c s) = length (t @ c) - bk_limit s \<and> bk_limit (sink_write c s) = bk_limit s"
  using assms by (auto simp: sink_write_def Let_def min_def)

lemma drain_prefix:
  assumes "concat (bk_chunks s) = take (bk_limit s) t" "bk_kept s = min (bk_limit s) (length t)" "bk_dropped s = length t - bk_limit s"
  shows "snapshot (drain_into cs s) = (let u = t @ concat (takeWhile (\<lambda>c. c \<noteq> []) cs) in (take (bk_limit s) u, length u - bk_limit s))"
  using assms
proof (induction cs arbitrary: s t)
  case (Cons c cs)
  show ?case using Cons.prems Cons.IH[of "sink_write c s" "t @ c"] sink_write_prefix[OF Cons.prems, of c] by (auto simp: snapshot_def Let_def)
qed (simp add: snapshot_def)

text \<open>What is kept of a stream is its prefix under the ceiling, and the rest is read and counted.\<close>

lemma sink_keeps_prefix:
  "snapshot (drain_into cs (new_sink limit)) = (let u = concat (takeWhile (\<lambda>c. c \<noteq> []) cs) in (take (nat limit) u, length u - nat limit))"
  using drain_prefix[of "new_sink limit" "[]" cs] by (simp add: new_sink_def)

section \<open>Runs and reports\<close>

definition run_ids_of :: "string \<Rightarrow> event list \<Rightarrow> pyval list" where
  "run_ids_of action evs = map (\<lambda>e. bget (ev_raw e) ''run_id'') (filter (\<lambda>e. ev_action e = action) evs)"

definition active_id :: "runner \<Rightarrow> pyval list" where
  "active_id w = (case ru_active w of None \<Rightarrow> [] | Some run \<Rightarrow> [PStr (ar_run_id run)])"

text \<open>The runs open before, followed by those started, are those completed followed by those open after.\<close>

definition balanced :: "runner \<Rightarrow> event list \<Rightarrow> runner \<Rightarrow> bool" where
  "balanced w out w' \<longleftrightarrow> active_id w @ run_ids_of ''scan_started'' out = run_ids_of ''scan_completed'' out @ active_id w'"

lemma run_ids_append [simp]: "run_ids_of a (xs @ ys) = run_ids_of a xs @ run_ids_of a ys"
  by (simp add: run_ids_of_def)

lemma balanced_trans: "\<lbrakk>balanced w o1 w1; balanced w1 o2 w2\<rbrakk> \<Longrightarrow> balanced w (o1 @ o2) w2"
  unfolding balanced_def run_ids_append by (metis append.assoc)

lemma balanced_quiet: "\<lbrakk>ru_active w' = ru_active w; run_ids_of ''scan_started'' out = []; run_ids_of ''scan_completed'' out = []\<rbrakk> \<Longrightarrow> balanced w out w'"
  by (simp add: balanced_def active_id_def)

lemma scanner_event_fields:
  assumes "sev \<in> {''info'', ''low''}" "outc \<in> {None, Some ''success'', Some ''failure''}"
  shows "ev_action (scanner_event env sc action cat ty sev outc msg b raw) = action \<and> ev_raw (scanner_event env sc action cat ty sev outc msg b raw) = Some raw"
proof -
  obtain v where v: "severity_of sev = Some v" using assms(1) by (auto simp: severity_of_def)
  have k: "event_kind_of ''event'' = Some Kind_event" by (simp add: event_kind_of_def)
  obtain oc where oc: "(case outc of None \<Rightarrow> Some None | Some s \<Rightarrow> map_option Some (outcome_of s)) = Some oc" using assms(2) by (auto simp: outcome_of_def)
  show ?thesis by (simp add: scanner_event_def build_event_def v k oc)
qed

lemma event_actions [simp]:
  "ev_action (started_event env sc i argv) = ''scan_started''" "ev_action (skipped_event env sc reason bin) = ''scan_skipped''"
  "ev_action (scan_completed_event env run oc rsn r d n k) = ''scan_completed''" "ev_action (finding_event env run f) = ''scan_finding''"
  by (simp_all add: started_event_def skipped_event_def scan_completed_event_def finding_event_def scanner_event_fields)

lemma event_runs [simp]:
  "bget (ev_raw (started_event env sc i argv)) ''run_id'' = PStr i" "bget (ev_raw (scan_completed_event env run oc rsn r d n k)) ''run_id'' = PStr (ar_run_id run)"
  by (simp_all add: started_event_def scan_completed_event_def scanner_event_fields bget_def dget_def prune_def)

lemma emit_all_accepts: "(\<And>e. ok e) \<Longrightarrow> emit_all ok es = (es, True)"
  by (induction es) auto

lemma consume_active [simp]: "ru_active (consume_slot env n w) = ru_active w"
  by (simp add: consume_slot_def)

lemma reschedule_active [simp]: "ru_active (reschedule env n oc rsn w) = ru_active w"
  by (simp add: reschedule_def)

lemma finish_balanced:
  assumes "\<And>e. sn_emit_ok env e" "ru_active w = Some run" "finish_scan env run res (w\<lparr>ru_active := None\<rparr>) = (w', out)"
  shows "balanced w out w'"
proof -
  obtain oc rsn fs where j: "judge_scan (ar_adapter run) (case res of None \<Rightarrow> UNREPORTED | Some x \<Rightarrow> x) = (oc, rsn, fs)" by (metis prod.collapse)
  have none: "run_ids_of a (map (finding_event env run) xs) = []" if "a \<noteq> ''scan_finding''" for a xs
    using that by (auto simp: run_ids_of_def filter_empty_conv)
  have act: "ru_active w' = None" using assms(3) by (auto simp: finish_scan_def j Let_def)
  have "out = map (finding_event env run) (take (nat (max_findings (sn_config env))) fs)
      @ [scan_completed_event env run oc rsn (case res of None \<Rightarrow> UNREPORTED | Some x \<Rightarrow> x) (max 0 (sn_now env - ar_started_at run))
           (length (take (nat (max_findings (sn_config env))) fs)) (length fs - length (take (nat (max_findings (sn_config env))) fs))]"
    using assms(3) by (simp add: finish_scan_def j Let_def emit_all_accepts[of "sn_emit_ok env", OF assms(1)] assms(1))
  then show ?thesis using assms(2) act by (simp add: balanced_def active_id_def none) (simp add: run_ids_of_def)
qed

lemma poll_balanced:
  assumes "\<And>e. sn_emit_ok env e" "poll_active env w = (w', out)"
  shows "balanced w out w'"
proof (cases "ru_active w")
  case None
  then show ?thesis using assms(2) by (auto simp: poll_active_def balanced_def run_ids_of_def)
next
  case (Some run)
  then show ?thesis using assms finish_balanced[of env w run] by (auto simp: poll_active_def balanced_def run_ids_of_def split: option.splits)
qed

lemma emit_one_balanced:
  assumes "emit_one env e failed w' = (w1, out, ok)" "ru_active failed = ru_active w" "balanced w [e] w'"
  shows "balanced w out w1"
  using assms by (auto simp: emit_one_def balanced_quiet run_ids_of_def split: if_splits)

lemma start_balanced:
  assumes "ru_active w = None" "start_scan env name ad scheduled w = (w1, out, ok)"
  shows "balanced w out w1"
proof (cases "prepare_scan env name ad")
  case (Inl reason)
  then have "skip_slot env name ad reason scheduled (w\<lparr>ru_run_next := ru_run_next w - {name}\<rparr>) = (w1, out, ok)" using assms(2) by (simp add: start_scan_def)
  then show ?thesis unfolding skip_slot_def Let_def by (rule emit_one_balanced) (auto intro!: balanced_quiet simp: run_ids_of_def)
next
  case (Inr argv)
  then show ?thesis using assms(2) unfolding start_scan_def Let_def
    by simp (erule emit_one_balanced, simp_all add: balanced_def active_id_def run_ids_of_def assms(1))
qed

lemma tick_scanner_balanced: "tick_scanner env x w = (w1, out, ok) \<Longrightarrow> balanced w out w1"
proof -
  assume t: "tick_scanner env x w = (w1, out, ok)"
  obtain name ad where x: "x = (name, ad)" by (cases x)
  have quiet: "balanced w [] w" by (simp add: balanced_quiet run_ids_of_def)
  have told: "balanced w out w1" if "notify_in_flight env name ad w = (w1, out, ok)"
  proof (cases "name \<in> ru_skip_notified w")
    case False
    then have "emit_one env (skipped_event env name ''run_in_flight'' (ad_binary ad)) (w\<lparr>ru_skip_notified := insert name (ru_skip_notified w)\<rparr>)
        (w\<lparr>ru_skip_notified := insert name (ru_skip_notified w)\<rparr>) = (w1, out, ok)" using that by (simp add: notify_in_flight_def Let_def)
    then show ?thesis by (rule emit_one_balanced) (auto intro!: balanced_quiet simp: run_ids_of_def)
  qed (use that quiet in \<open>simp add: notify_in_flight_def\<close>)
  show ?thesis using t quiet told start_balanced[of w env name ad _ w1 out ok] by (auto simp: tick_scanner_def x Let_def split: if_splits)
qed

lemma tick_scanners_balanced: "tick_scanners env xs w = (w1, out, ok) \<Longrightarrow> balanced w out w1"
proof (induction xs arbitrary: w w1 out ok)
  case Nil
  then show ?case by (auto simp: balanced_quiet run_ids_of_def)
next
  case (Cons x xs)
  obtain wa oa ka where a: "tick_scanner env x w = (wa, oa, ka)" by (metis prod.collapse)
  obtain wb ob kb where b: "tick_scanners env xs wa = (wb, ob, kb)" by (metis prod.collapse)
  show ?case using Cons.prems tick_scanner_balanced[OF a] balanced_trans[OF tick_scanner_balanced[OF a] Cons.IH[OF b]] by (cases ka) (auto simp: a b)
qed

section \<open>Histories\<close>

datatype runner_op = Tick scan_env_now | Command "pyval \<Rightarrow> string" pydict "(string, adapter) table" string pydict | Teardown scan_env_now "scan_result option"

fun op_emits :: "runner_op \<Rightarrow> bool" where
  "op_emits (Tick env) \<longleftrightarrow> sn_emit_ok env = (\<lambda>_. True)"
| "op_emits (Teardown env _) \<longleftrightarrow> sn_emit_ok env = (\<lambda>_. True)"
| "op_emits (Command _ _ _ _ _) \<longleftrightarrow> True"

fun runner_step :: "runner_op \<Rightarrow> runner \<Rightarrow> runner \<times> event list" where
  "runner_step (Tick env) w = (case scanner_step env w of (w1, out, _) \<Rightarrow> (w1, out))"
| "runner_step (Teardown env res) w = scanner_teardown env res w"
| "runner_step (Command ostr config ads command args) w = (fst (run_scanner_command ostr config ads command args w), [])"

fun runner_run :: "runner_op list \<Rightarrow> runner \<Rightarrow> runner \<times> event list" where
  "runner_run [] w = (w, [])"
| "runner_run (x # xs) w = (case runner_step x w of (w1, o1) \<Rightarrow> (case runner_run xs w1 of (w2, o2) \<Rightarrow> (w2, o1 @ o2)))"

lemma step_balanced: "\<lbrakk>op_emits x; runner_step x w = (w1, out)\<rbrakk> \<Longrightarrow> balanced w out w1"
proof (cases x)
  case (Tick env)
  assume e: "op_emits x" and r: "runner_step x w = (w1, out)"
  obtain wa oa where a: "poll_active env (ensure_scheduled env w) = (wa, oa)" by (metis prod.collapse)
  obtain wb ob k where b: "tick_scanners env (sort_key fst (sn_adapters env)) wa = (wb, ob, k)" by (metis prod.collapse)
  have "balanced (ensure_scheduled env w) oa wa" using poll_balanced[OF _ a] e Tick by simp
  moreover have "active_id (ensure_scheduled env w) = active_id w" by (simp add: ensure_scheduled_def active_id_def)
  ultimately have "balanced w oa wa" by (simp add: balanced_def)
  from balanced_trans[OF this tick_scanners_balanced[OF b]] show ?thesis using r by (auto simp: Tick scanner_step_def a b)
next
  case (Teardown env res)
  assume e: "op_emits x" and r: "runner_step x w = (w1, out)"
  then show ?thesis using Teardown finish_balanced[of env w] by (auto simp: scanner_teardown_def balanced_quiet run_ids_of_def split: option.splits)
qed (auto simp: run_scanner_command_def Let_def balanced_quiet run_ids_of_def split: if_splits)

lemma run_balanced: "\<lbrakk>list_all op_emits xs; runner_run xs w = (w1, out)\<rbrakk> \<Longrightarrow> balanced w out w1"
proof (induction xs arbitrary: w w1 out)
  case Nil
  then show ?case by (auto simp: balanced_quiet run_ids_of_def)
next
  case (Cons x xs)
  obtain wa oa where a: "runner_step x w = (wa, oa)" by (metis prod.collapse)
  obtain wb ob where b: "runner_run xs wa = (wb, ob)" by (metis prod.collapse)
  have "balanced w oa wa" "balanced wa ob wb" using Cons.prems(1) step_balanced[OF _ a] Cons.IH[OF _ b] by simp_all
  then show ?case using Cons.prems(2) balanced_trans by (auto simp: a b)
qed

text \<open>C26: Every scan that starts is reported exactly once, and scans never overlap. In every history of ticks, commands and stops whose
  events can be written, whatever the adapters and the processes do (missing binaries, exceptions, timeouts, cancellations and unparsable output
  included), the runs announced as started are, in order, the runs announced as completed followed by the one still in flight, if there is one.\<close>

theorem every_scan_is_reported_once:
  assumes "list_all op_emits ops"
  shows "case runner_run ops new_runner of (w, out) \<Rightarrow> run_ids_of ''scan_started'' out = run_ids_of ''scan_completed'' out @ active_id w"
proof (cases "runner_run ops new_runner")
  case (Pair w out)
  have "active_id new_runner = []" by (simp add: active_id_def new_runner_def)
  then show ?thesis using run_balanced[OF assms Pair] unfolding Pair prod.case balanced_def by simp
qed

definition idle_adapter :: adapter where
  "idle_adapter = \<lparr>ad_binary = ''yara'', ad_argv = (\<lambda>_. Some [''yara'']), ad_preflight = (\<lambda>_. Some None), ad_interpret = (\<lambda>_ _ _. Some Clean), ad_parse = (\<lambda>_ _. Some [])\<rparr>"

definition yara_env :: "string \<Rightarrow> scan_result option option \<Rightarrow> scan_env_now" where
  "yara_env run_id done =
     \<lparr>sn_pf = (\<lambda>_. None), sn_config = [(''startup_delay_s'', PInt 0), (''scanners'', PDict [(''yara'', PDict [(''enabled'', PBool True)])])],
      sn_adapters = [(''yara'', idle_adapter)], sn_now = 0, sn_wall = 0, sn_host = ''h'', sn_eid = (\<lambda>a. a), sn_run_id = run_id, sn_which = (\<lambda>_. True),
      sn_emit_ok = (\<lambda>_. True), sn_done = done\<rparr>"

lemma yara_starts: "ru_active (fst (scanner_step (yara_env ''r1'' None) new_runner)) \<noteq> None"
  by (simp add: scanner_step_def poll_active_def ensure_scheduled_def new_runner_def yara_env_def tick_scanner_def scanner_enabled_def scanner_config_def
      param_or_def dget_def as_float_def start_scan_def prepare_scan_def idle_adapter_def emit_one_def consume_slot_def Let_def)

theorem every_scan_is_reported_once_witness:
  "list_all op_emits [Tick (yara_env ''r1'' None), Tick (yara_env ''r2'' (Some None)), Teardown (yara_env ''r3'' None) None]
   \<and> ru_active (fst (scanner_step (yara_env ''r1'' None) new_runner)) \<noteq> None
   \<and> (case runner_run [Tick (yara_env ''r1'' None), Tick (yara_env ''r2'' (Some None)), Teardown (yara_env ''r3'' None) None] new_runner of
        (w, out) \<Rightarrow> run_ids_of ''scan_started'' out = run_ids_of ''scan_completed'' out @ active_id w)"
proof -
  have "list_all op_emits [Tick (yara_env ''r1'' None), Tick (yara_env ''r2'' (Some None)), Teardown (yara_env ''r3'' None) None]" by (simp add: yara_env_def)
  from every_scan_is_reported_once[OF this] this yara_starts show ?thesis by blast
qed

section \<open>The schedule\<close>

lemma consume_due: "ru_next_due (consume_slot env name w) n = ru_next_due w n \<or> n = name"
  by (simp add: consume_slot_def)

lemma emit_one_due: "emit_one env e failed w' = (w1, out, ok) \<Longrightarrow> w1 = failed \<or> w1 = w'"
  by (auto simp: emit_one_def split: if_splits)

lemma start_due: "start_scan env name ad scheduled w = (w1, out, ok) \<Longrightarrow> ru_next_due w1 n = ru_next_due w n \<or> n = name \<and> scheduled"
  by (cases "prepare_scan env name ad") (auto simp: start_scan_def skip_slot_def Let_def consume_slot_def dest!: emit_one_due split: if_splits)

lemma tick_scanner_due: "tick_scanner env x w = (w1, out, ok) \<Longrightarrow> ru_next_due w1 n = ru_next_due w n \<or> ru_next_due w n \<le> sn_now env"
proof -
  assume t: "tick_scanner env x w = (w1, out, ok)"
  obtain name ad where x: "x = (name, ad)" by (cases x)
  have told: "ru_next_due w1 = ru_next_due w" if "notify_in_flight env name ad w = (w1, out, ok)"
    using that by (auto simp: notify_in_flight_def Let_def dest!: emit_one_due split: if_splits)
  show ?thesis using t told start_due[of env name ad "ru_next_due w name \<le> sn_now env" w w1 out ok n] by (auto simp: tick_scanner_def x Let_def split: if_splits)
qed

lemma tick_scanners_due: "tick_scanners env xs w = (w1, out, ok) \<Longrightarrow> ru_next_due w1 n = ru_next_due w n \<or> ru_next_due w n \<le> sn_now env"
proof (induction xs arbitrary: w w1 out ok)
  case (Cons x xs)
  obtain wa oa ka where a: "tick_scanner env x w = (wa, oa, ka)" by (metis prod.collapse)
  obtain wb ob kb where b: "tick_scanners env xs wa = (wb, ob, kb)" by (metis prod.collapse)
  show ?case using Cons.prems tick_scanner_due[OF a, of n] Cons.IH[OF b] by (cases ka) (auto simp: a b)
qed simp

lemma poll_due:
  "ru_next_due (fst (poll_active env w)) n = ru_next_due w n \<or> (\<exists>run. ru_active w = Some run \<and> ar_scheduled run \<and> ar_scanner run = n \<and> sn_done env \<noteq> None)"
  by (auto simp: poll_active_def finish_scan_def Let_def reschedule_def consume_slot_def split: option.split prod.split)

text \<open>Commands never move the schedule. A \<^verbatim>\<open>run_scanner\<close> command changes neither the due times nor the retry flags, and a tick, in which
  queued triggers may run, moves the due time of a scanner only when that scanner's own slot has come or when a run that claimed the slot has just
  ended: a triggered run, even one that fails, cannot push the next scheduled scan away.\<close>

theorem triggers_keep_the_schedule:
  assumes "ru_scheduled w"
  shows "ru_next_due (fst (run_scanner_command ostr config ads command args w)) = ru_next_due w
    \<and> ru_retried (fst (run_scanner_command ostr config ads command args w)) = ru_retried w
    \<and> (ru_next_due (fst (scanner_step env w)) n = ru_next_due w n \<or> ru_next_due w n \<le> sn_now env
       \<or> (\<exists>run. ru_active w = Some run \<and> ar_scheduled run \<and> ar_scanner run = n \<and> sn_done env \<noteq> None))"
proof -
  have e: "ensure_scheduled env w = w" using assms by (simp add: ensure_scheduled_def)
  obtain wa oa where a: "poll_active env w = (wa, oa)" by (metis prod.collapse)
  obtain wb ob k where b: "tick_scanners env (sort_key fst (sn_adapters env)) wa = (wb, ob, k)" by (metis prod.collapse)
  have s: "fst (scanner_step env w) = wb" by (simp add: scanner_step_def e a b)
  have "ru_next_due wb n = ru_next_due wa n \<or> ru_next_due wa n \<le> sn_now env" by (rule tick_scanners_due[OF b])
  moreover have "ru_next_due wa n = ru_next_due w n \<or> (\<exists>run. ru_active w = Some run \<and> ar_scheduled run \<and> ar_scanner run = n \<and> sn_done env \<noteq> None)"
    using poll_due[of env w n] by (simp add: a)
  ultimately have "ru_next_due wb n = ru_next_due w n \<or> ru_next_due w n \<le> sn_now env
       \<or> (\<exists>run. ru_active w = Some run \<and> ar_scheduled run \<and> ar_scanner run = n \<and> sn_done env \<noteq> None)" by auto
  then show ?thesis unfolding s by (auto simp: run_scanner_command_def Let_def)
qed

definition queued_runner :: runner where
  "queued_runner = new_runner\<lparr>ru_scheduled := True, ru_next_due := (\<lambda>_. 100), ru_run_next := {''yara''}\<rparr>"

theorem triggers_keep_the_schedule_witness:
  "ru_scheduled queued_runner \<and> ru_active (fst (scanner_step (yara_env ''r1'' None) queued_runner)) \<noteq> None
   \<and> ru_next_due (fst (scanner_step (yara_env ''r1'' None) queued_runner)) ''yara'' = 100"
proof -
  have sch: "ru_scheduled queued_runner" by (simp add: queued_runner_def)
  have "ru_active (fst (scanner_step (yara_env ''r1'' None) queued_runner)) \<noteq> None"
    by (simp add: scanner_step_def poll_active_def ensure_scheduled_def new_runner_def queued_runner_def yara_env_def tick_scanner_def scanner_enabled_def
        scanner_config_def param_or_def dget_def as_float_def start_scan_def prepare_scan_def idle_adapter_def emit_one_def consume_slot_def Let_def)
  moreover have "ru_next_due (fst (scanner_step (yara_env ''r1'' None) queued_runner)) ''yara'' = 100"
    using triggers_keep_the_schedule[OF sch, where env = "yara_env ''r1'' None" and n = "''yara''"] by (simp add: queued_runner_def yara_env_def new_runner_def)
  ultimately show ?thesis using sch by simp
qed

text \<open>A skipped trigger does touch the retry flag: the one retry that a failed scheduled run has used up is granted again.\<close>

lemma skipped_trigger_rearms_retry:
  "ru_retried (queued_runner\<lparr>ru_retried := (\<lambda>_. True)\<rparr>) ''yara''
   \<and> \<not> ru_retried (fst (scanner_step ((yara_env ''r1'' None)\<lparr>sn_which := (\<lambda>_. False)\<rparr>) (queued_runner\<lparr>ru_retried := (\<lambda>_. True)\<rparr>))) ''yara''"
  by (simp add: scanner_step_def poll_active_def ensure_scheduled_def new_runner_def queued_runner_def yara_env_def tick_scanner_def scanner_enabled_def
      scanner_config_def param_or_def dget_def as_float_def start_scan_def prepare_scan_def skip_slot_def idle_adapter_def emit_one_def consume_slot_def Let_def)

section \<open>From the runner to the panel\<close>

text \<open>A run counts as successful exactly when it left an exit status, was neither stopped nor timed out nor in error, and its adapter both accepts and
  parses its output.\<close>

lemma judged_success:
  "fst (judge_scan ad r) \<noteq> Scan_failure \<longleftrightarrow> pre_exit_failure_reason r = None
     \<and> (\<exists>c oc fs. rs_exit_code r = Some c \<and> ad_interpret ad c (rs_stdout r) (rs_stderr r) = Some oc \<and> oc \<noteq> Scan_failure \<and> ad_parse ad (rs_stdout r) (rs_stderr r) = Some fs)"
  by (auto simp: judge_scan_def classify_scan_def split: option.split)

text \<open>The panel shows what the runner found: projected into the state table, the report of a run reads as a failure or a success, never as running or
  interrupted.\<close>

lemma reported_run_on_panel:
  assumes "ar_scanner run \<noteq> []" "ar_run_id run \<noteq> []"
  shows "\<exists>row. map_of (st_scan (project_scan_run ostr (scan_completed_event env run oc rsn r d n k) st)) (ar_run_id run) = Some row
    \<and> run_state now x row = (if oc = Scan_failure then ''failure'' else ''success'')"
proof -
  let ?e = "scan_completed_event env run oc rsn r d n k"
  have raw: "bget (ev_raw ?e) ''scanner'' = PStr (ar_scanner run)" "bget (ev_raw ?e) ''scan_outcome'' = PStr (outcome_name oc)"
    by (simp_all add: scan_completed_event_def scanner_event_fields bget_def dget_def prune_def)
  have "project_scan_run ostr ?e st = project_scan_completed ostr (ar_scanner run) ?e st" using assms(1) by (simp add: project_scan_run_def raw)
  moreover have "outcome_name oc = ''failure'' \<longleftrightarrow> oc = Scan_failure" by (cases oc) simp_all
  ultimately show ?thesis using assms(2)
    by (cases "map_of (st_scan st) (ar_run_id run)") (auto simp: project_scan_completed_def raw Let_def map_of_upsert run_state_def)
qed

end
