(* ===== verification/Pytext.thy ===== *)
theory Pytext
  imports Pystring
begin

text \<open>
  More of Python's text methods, for the components that parse headers and command output: case folding, partitioning, words, octal
  numbers and paths.
\<close>

section \<open>Case and partitions\<close>

text \<open>\<^verbatim>\<open>str.lower\<close> and \<^verbatim>\<open>str.isprintable\<close> on one character, and \<^verbatim>\<open>str.partition\<close>, whose middle part is a flag here.\<close>

definition py_lower_char :: "char \<Rightarrow> char" where
  "py_lower_char c = (let n = char_code c in if (65 \<le> n \<and> n \<le> 90) \<or> (192 \<le> n \<and> n \<le> 222 \<and> n \<noteq> 215) then char_of (n + 32) else c)"

definition py_lower :: "string \<Rightarrow> string" where
  "py_lower s = map py_lower_char s"

text \<open>\<^verbatim>\<open>str.upper\<close> on the letters of ASCII, which is all the code compares.\<close>

definition py_upper :: "string \<Rightarrow> string" where
  "py_upper s = map (\<lambda>c. if 97 \<le> char_code c \<and> char_code c \<le> 122 then char_of (char_code c - 32) else c) s"

definition py_printable :: "char \<Rightarrow> bool" where
  "py_printable c = (let n = char_code c in 32 \<le> n \<and> \<not> (127 \<le> n \<and> n \<le> 160) \<and> n \<noteq> 173)"

definition partition_at :: "char \<Rightarrow> string \<Rightarrow> string \<times> bool \<times> string" where
  "partition_at sep s = (takeWhile (\<lambda>c. c \<noteq> sep) s, sep \<in> set s, drop 1 (dropWhile (\<lambda>c. c \<noteq> sep) s))"

text \<open>\<^verbatim>\<open>s.rpartition(sep)[2]\<close>.\<close>

definition after_last :: "char \<Rightarrow> string \<Rightarrow> string" where
  "after_last sep s = rev (takeWhile (\<lambda>c. c \<noteq> sep) (rev s))"

text \<open>\<^verbatim>\<open>s.split()\<close>: the maximal runs without white space.\<close>

fun py_words :: "string \<Rightarrow> string \<Rightarrow> string list" where
  "py_words tok [] = (if tok = [] then [] else [tok])"
| "py_words tok (c # s) = (if py_space c then (if tok = [] then [] else [tok]) @ py_words [] s else py_words (tok @ [c]) s)"

definition split_words :: "string \<Rightarrow> string list" where
  "split_words s = py_words [] s"

text \<open>\<^verbatim>\<open>int(s, 8)\<close> and \<^verbatim>\<open>int(s, 16)\<close>: an optional sign, an optional prefix and digits of the base with single underscores between them.\<close>

definition base_digit :: "char \<Rightarrow> nat option" where
  "base_digit c =
     (let n = char_code c
      in if 48 \<le> n \<and> n \<le> 57 then Some (n - 48) else if 65 \<le> n \<and> n \<le> 70 then Some (n - 55) else if 97 \<le> n \<and> n \<le> 102 then Some (n - 87) else None)"

fun base_value :: "nat \<Rightarrow> nat \<Rightarrow> string \<Rightarrow> nat option" where
  "base_value b acc [] = None"
| "base_value b acc [c] = (case base_digit c of None \<Rightarrow> None | Some d \<Rightarrow> if d < b then Some (b * acc + d) else None)"
| "base_value b acc (c # x # s) =
     (case base_digit c of
        None \<Rightarrow> None
      | Some d \<Rightarrow> if d < b then base_value b (b * acc + d) (if x = CHR ''_'' then s else x # s) else None)"

definition py_int_base :: "nat \<Rightarrow> string list \<Rightarrow> string \<Rightarrow> int option" where
  "py_int_base b prefixes s0 =
     (let s = strip s0;
          body = (if startswith s ''-'' \<or> startswith s ''+'' then tl s else s);
          digits = (if list_ex (startswith body) prefixes then removeprefix (drop 2 body) ''_'' else body)
      in map_option (\<lambda>n. if startswith s ''-'' then - int n else int n) (base_value b 0 digits))"

definition py_octal :: "string \<Rightarrow> int option" where
  "py_octal s = py_int_base 8 [''0o'', ''0O''] s"

definition py_hex :: "string \<Rightarrow> int option" where
  "py_hex s = py_int_base 16 [''0x'', ''0X''] s"

text \<open>\<^verbatim>\<open>str(Path(s))\<close>, and \<^verbatim>\<open>str(Path(d) / f)\<close>: repeated slashes and dots go, two leading slashes stay, and an absolute second part wins.\<close>

definition pure_path :: "string \<Rightarrow> string" where
  "pure_path s =
     (let root = (if startswith s ''//'' \<and> \<not> startswith s ''///'' then ''//'' else if startswith s ''/'' then ''/'' else '''');
          p = root @ join_with ''/'' (filter (\<lambda>w. w \<noteq> '''' \<and> w \<noteq> ''.'') (split_on (CHR ''/'') s))
      in if p = '''' then ''.'' else p)"

definition path_join :: "string \<Rightarrow> string \<Rightarrow> string" where
  "path_join d f = pure_path (if startswith f ''/'' \<or> d = '''' then f else d @ ''/'' @ f)"

lemma py_words_append: "\<forall>c\<in>set w. \<not> py_space c \<Longrightarrow> py_words tok (w @ s) = py_words (tok @ w) s"
  by (induction w arbitrary: tok) auto

text \<open>Words joined by blanks split back into themselves.\<close>

lemma split_words_join:
  assumes "\<forall>w\<in>set ws. w \<noteq> [] \<and> (\<forall>c\<in>set w. \<not> py_space c)"
  shows "split_words (join_with '' '' ws) = ws"
  using assms
proof (induction ws rule: induct_list012)
  case (2 w)
  then show ?case using py_words_append[of w "[]" "[]"] by (simp add: split_words_def)
next
  case (3 v w ws)
  then show ?case using py_words_append[of v "[]"] by (simp add: split_words_def py_space_def)
qed (simp add: split_words_def)

end
