(* ===== verification/Web_Guard.thy ===== *)
theory Web_Guard
  imports Pytext
begin

text \<open>
  The two guards in front of the dashboard, \<^verbatim>\<open>inspectorctl/web/csrf.py\<close>, and their order in \<^verbatim>\<open>inspectorctl/web/app.py\<close>. Header values are
  decoded as Latin-1, so a string of code points below 256 is exactly what the guards see. \<^verbatim>\<open>urllib.parse.urlsplit\<close> is written
  out; \<open>brk\<close> is its check of a network location with square brackets, and \<open>ip\<close> is \<^verbatim>\<open>ipaddress.ip_address\<close> read as whether the address
  is a loopback one and its compressed spelling, \<open>None\<close> for a text that is no address.
\<close>

section \<open>Splitting a URL\<close>

record url_parts =
  up_scheme :: string
  up_netloc :: string
  up_path :: string
  up_query :: string
  up_fragment :: string

definition scheme_char :: "char \<Rightarrow> bool" where
  "scheme_char c = (ascii_letter c \<or> ascii_digit c \<or> c \<in> set ''+-.'')"

definition url_clean :: "string \<Rightarrow> string" where
  "url_clean url = filter (\<lambda>c. char_code c \<notin> {9, 10, 13}) (dropWhile (\<lambda>c. char_code c \<le> 32) url)"

definition split_scheme :: "string \<Rightarrow> string \<times> string" where
  "split_scheme url =
     (let s = takeWhile (\<lambda>c. c \<noteq> CHR '':'') url
      in if CHR '':'' \<in> set url \<and> s \<noteq> [] \<and> ascii_letter (hd s) \<and> list_all scheme_char s then (py_lower s, drop (length s + 1) url)
         else ('''', url))"

definition split_tail :: "string \<Rightarrow> string \<times> string \<times> string" where
  "split_tail url =
     (let (before, _, fragment) = partition_at (CHR ''#'') url;
          (path, _, query) = partition_at (CHR ''?'') before
      in (path, query, fragment))"

text \<open>What follows the scheme; \<open>None\<close> is the \<^verbatim>\<open>ValueError\<close>.\<close>

definition split_location :: "(string \<Rightarrow> bool) \<Rightarrow> string \<Rightarrow> url_parts option" where
  "split_location brk url =
     (let has_netloc = startswith url ''//'';
          netloc = (if has_netloc then takeWhile (\<lambda>c. c \<notin> set ''/?#'') (drop 2 url) else '''');
          rest = (if has_netloc then dropWhile (\<lambda>c. c \<notin> set ''/?#'') (drop 2 url) else url);
          opening = CHR ''['' \<in> set netloc; closing = CHR '']'' \<in> set netloc;
          (path, query, fragment) = split_tail rest
      in if opening \<noteq> closing \<or> (opening \<and> \<not> brk netloc) then None
         else Some \<lparr>up_scheme = '''', up_netloc = netloc, up_path = path, up_query = query, up_fragment = fragment\<rparr>)"

definition urlsplit :: "(string \<Rightarrow> bool) \<Rightarrow> string \<Rightarrow> url_parts option" where
  "urlsplit brk url0 =
     (let (scheme, url) = split_scheme (url_clean url0) in map_option (\<lambda>u. u\<lparr>up_scheme := scheme\<rparr>) (split_location brk url))"

text \<open>The properties of the result: the host and the port text, the user part, \<^verbatim>\<open>hostname\<close> and \<^verbatim>\<open>port\<close>, which may raise.\<close>

definition hostinfo :: "string \<Rightarrow> string \<times> string" where
  "hostinfo netloc =
     (let hi = after_last (CHR ''@'') netloc;
          (_, bracket, bracketed) = partition_at (CHR ''['') hi
      in if bracket then
           (let (hostname, _, after) = partition_at (CHR '']'') bracketed; (_, _, port) = partition_at (CHR '':'') after in (hostname, port))
         else (let (hostname, _, port) = partition_at (CHR '':'') hi in (hostname, port)))"

definition has_userinfo :: "url_parts \<Rightarrow> bool" where
  "has_userinfo u = (CHR ''@'' \<in> set (up_netloc u))"

definition url_hostname :: "url_parts \<Rightarrow> string option" where
  "url_hostname u =
     (let h = fst (hostinfo (up_netloc u)); (name, percent, zone) = partition_at (CHR ''%'') h
      in if h = '''' then None else Some (py_lower name @ (if percent then ''%'' else '''') @ zone))"

datatype port_value = Bad_port | No_port | Port nat

definition url_port :: "url_parts \<Rightarrow> port_value" where
  "url_port u =
     (let p = snd (hostinfo (up_netloc u))
      in if p = '''' then No_port
         else if list_all ascii_digit p \<and> length p \<le> 4300 \<and> digits_value p \<le> 65535 then Port (digits_value p) else Bad_port)"

section \<open>Hosts and origins\<close>

type_synonym ip_parse = "string \<Rightarrow> (bool \<times> string) option"

definition SAFE_METHODS :: "string list" where "SAFE_METHODS = [''GET'', ''HEAD'', ''OPTIONS'']"
definition LOOPBACK_HOST :: string where "LOOPBACK_HOST = ''<loopback>''"
definition DEFAULT_PORTS :: "(string \<times> nat) list" where
  "DEFAULT_PORTS = [(''http'', 80), (''https'', 443), (''ws'', 80), (''wss'', 443)]"
definition MAX_LOG_VALUE :: nat where "MAX_LOG_VALUE = 200"

definition FORBIDDEN_BODY :: string where
  "FORBIDDEN_BODY = ''Forbidden: cross-origin request blocked.'' @ [CHR 0x0A]
     @ ''This dashboard only accepts state-changing requests issued from the dashboard itself.'' @ [CHR 0x0A]"
definition BAD_HOST_BODY :: string where
  "BAD_HOST_BODY = ''Bad Request: unrecognised Host header.'' @ [CHR 0x0A]
     @ ''This dashboard only answers to the hosts it was configured for; by default that is loopback only.'' @ [CHR 0x0A]"

definition sanitise_for_log :: "string option \<Rightarrow> string" where
  "sanitise_for_log v =
     (case v of None \<Rightarrow> ''-''
      | Some t \<Rightarrow>
          (let cleaned = map (\<lambda>c. if py_printable c then c else CHR ''?'') t
           in if length cleaned > MAX_LOG_VALUE then take MAX_LOG_VALUE cleaned @ ''...'' else cleaned))"

definition canonical_host :: "ip_parse \<Rightarrow> string \<Rightarrow> string" where
  "canonical_host ip h0 =
     (let h1 = py_lower (strip h0);
          h = (if startswith h1 ''['' \<and> endswith h1 '']'' then inner h1 else h1)
      in if h = ''localhost'' \<or> endswith h ''.localhost'' then LOOPBACK_HOST
         else case ip h of None \<Rightarrow> h | Some (loopback, compressed) \<Rightarrow> if loopback then LOOPBACK_HOST else compressed)"

definition canonical_authority_host :: "(string \<Rightarrow> bool) \<Rightarrow> ip_parse \<Rightarrow> string \<Rightarrow> string option" where
  "canonical_authority_host brk ip a0 =
     (let a = strip a0
      in if a = '''' then None
         else if count_list a (CHR '':'') > 1 \<and> \<not> startswith a ''['' then Some (canonical_host ip a)
         else case urlsplit brk (''//'' @ a) of
                None \<Rightarrow> None
              | Some parts \<Rightarrow>
                  if url_port parts = Bad_port then None
                  else (case url_hostname parts of
                          None \<Rightarrow> None
                        | Some hostname \<Rightarrow>
                            if has_userinfo parts \<or> up_path parts \<noteq> '''' \<or> up_query parts \<noteq> '''' \<or> up_fragment parts \<noteq> '''' then None
                            else Some (canonical_host ip hostname)))"

fun build_allowed_hosts :: "(string \<Rightarrow> bool) \<Rightarrow> ip_parse \<Rightarrow> string list \<Rightarrow> string list" where
  "build_allowed_hosts brk ip [] = [LOOPBACK_HOST]"
| "build_allowed_hosts brk ip (raw # extra) =
     (case canonical_authority_host brk ip raw of
        None \<Rightarrow> build_allowed_hosts brk ip extra
      | Some h \<Rightarrow> if h = '''' then build_allowed_hosts brk ip extra else List.insert h (build_allowed_hosts brk ip extra))"

definition parse_origin :: "(string \<Rightarrow> bool) \<Rightarrow> ip_parse \<Rightarrow> string \<Rightarrow> (string \<times> string \<times> nat) option" where
  "parse_origin brk ip v =
     (case urlsplit brk v of
        None \<Rightarrow> None
      | Some parts \<Rightarrow>
          (case url_port parts of
             Bad_port \<Rightarrow> None
           | p \<Rightarrow>
               (case url_hostname parts of
                  None \<Rightarrow> None
                | Some hostname \<Rightarrow>
                    if up_scheme parts = '''' then None
                    else let scheme = py_lower (up_scheme parts)
                         in case (case p of Port n \<Rightarrow> Some n | _ \<Rightarrow> map_of DEFAULT_PORTS scheme) of
                              None \<Rightarrow> None
                            | Some port \<Rightarrow> Some (scheme, canonical_host ip hostname, port))))"

section \<open>The middleware\<close>

text \<open>The ASGI scope of a connection. Header names are lower-case, as the protocol server hands them over.\<close>

record http_scope =
  sc_type :: string
  sc_method :: "string option"
  sc_scheme :: "string option"
  sc_server :: "(string option \<times> nat option) option"
  sc_headers :: "(string \<times> string) list"

definition header_list :: "string \<Rightarrow> http_scope \<Rightarrow> string list" where
  "header_list name sc = map snd (filter (\<lambda>(k, _). k = name) (sc_headers sc))"

definition header_of :: "string \<Rightarrow> http_scope \<Rightarrow> string option" where
  "header_of name sc = map_of (sc_headers sc) name"

definition scope_server_host :: "http_scope \<Rightarrow> string option" where
  "scope_server_host sc = (case sc_server sc of Some (Some h, _) \<Rightarrow> if h = '''' then None else Some h | _ \<Rightarrow> None)"

definition scope_scheme :: "http_scope \<Rightarrow> string" where
  "scope_scheme sc = py_lower (case sc_scheme sc of None \<Rightarrow> ''http'' | Some s \<Rightarrow> if s = '''' then ''http'' else s)"

definition self_origin :: "(string \<Rightarrow> bool) \<Rightarrow> ip_parse \<Rightarrow> http_scope \<Rightarrow> (string \<times> string \<times> nat) option" where
  "self_origin brk ip sc =
     (let scheme = scope_scheme sc;
          from_server = (case scope_server_host sc of
             None \<Rightarrow> None
           | Some h \<Rightarrow>
               (let authority = (if CHR '':'' \<in> set h then ''['' @ h @ '']'' else h)
                in Some (case sc_server sc of
                           Some (_, Some p) \<Rightarrow> if p = 0 then authority else authority @ '':'' @ nat_str p
                         | _ \<Rightarrow> authority)));
          authority = (case header_of ''host'' sc of None \<Rightarrow> from_server | Some a \<Rightarrow> if a = '''' then from_server else Some a)
      in case authority of None \<Rightarrow> None | Some a \<Rightarrow> parse_origin brk ip (scheme @ ''://'' @ a))"

datatype 'r reply = Plain_text string nat | From_app 'r

definition request_host :: "(string \<Rightarrow> bool) \<Rightarrow> ip_parse \<Rightarrow> http_scope \<Rightarrow> string option" where
  "request_host brk ip sc =
     (case header_list ''host'' sc of
        [] \<Rightarrow> map_option (canonical_host ip) (scope_server_host sc)
      | [v] \<Rightarrow> canonical_authority_host brk ip v
      | _ \<Rightarrow> None)"

definition allowed_host_middleware ::
  "(string \<Rightarrow> bool) \<Rightarrow> ip_parse \<Rightarrow> string list \<Rightarrow> (http_scope \<Rightarrow> 'r reply) \<Rightarrow> http_scope \<Rightarrow> 'r reply" where
  "allowed_host_middleware brk ip extra app sc =
     (if sc_type sc \<noteq> ''http'' then app sc
      else case request_host brk ip sc of
             None \<Rightarrow> Plain_text BAD_HOST_BODY 400
           | Some h \<Rightarrow> if h \<in> set (build_allowed_hosts brk ip extra) then app sc else Plain_text BAD_HOST_BODY 400)"

definition claimed_origin :: "http_scope \<Rightarrow> string option" where
  "claimed_origin sc = (case header_of ''origin'' sc of Some v \<Rightarrow> Some v | None \<Rightarrow> header_of ''referer'' sc)"

definition same_origin_middleware ::
  "(string \<Rightarrow> bool) \<Rightarrow> ip_parse \<Rightarrow> (http_scope \<Rightarrow> 'r reply) \<Rightarrow> http_scope \<Rightarrow> 'r reply" where
  "same_origin_middleware brk ip app sc =
     (if sc_type sc \<noteq> ''http'' \<or> (case sc_method sc of None \<Rightarrow> '''' | Some m \<Rightarrow> m) \<in> set SAFE_METHODS then app sc
      else case (claimed_origin sc, self_origin brk ip sc) of
             (Some claimed, Some expected) \<Rightarrow> if parse_origin brk ip claimed = Some expected then app sc else Plain_text FORBIDDEN_BODY 403
           | _ \<Rightarrow> Plain_text FORBIDDEN_BODY 403)"

text \<open>\<^verbatim>\<open>create_app\<close>: the host guard is added last and so is the outermost layer.\<close>

definition create_app ::
  "(string \<Rightarrow> bool) \<Rightarrow> ip_parse \<Rightarrow> string list \<Rightarrow> (http_scope \<Rightarrow> 'r) \<Rightarrow> http_scope \<Rightarrow> 'r reply" where
  "create_app brk ip extra routes =
     allowed_host_middleware brk ip extra (same_origin_middleware brk ip (\<lambda>sc. From_app (routes sc)))"

section \<open>One network location, two readings\<close>

text \<open>The host guard reads \<^verbatim>\<open>//host\<close>, the origin guard \<^verbatim>\<open>scheme://host\<close>; both see the same location.\<close>

lemma url_clean_Cons:
  "char_code c > 32 \<Longrightarrow> url_clean (c # s) = c # filter (\<lambda>c. char_code c \<notin> {9, 10, 13}) s"
  by (auto simp: url_clean_def)

lemma split_scheme_http:
  assumes "s \<in> {''http'', ''https''}"
  shows "split_scheme (s @ CHR '':'' # t) = (s, t)"
  using assms by (auto simp: split_scheme_def Let_def ascii_letter_def scheme_char_def py_lower_def py_lower_char_def char_code_def)

lemma split_scheme_slash: "split_scheme (CHR ''/'' # t) = ('''', CHR ''/'' # t)"
  by (auto simp: split_scheme_def Let_def ascii_letter_def)

lemma url_clean_http:
  assumes "s \<in> {''http'', ''https''}"
  shows "url_clean (s @ ''://'' @ a) = s @ CHR '':'' # url_clean (''//'' @ a)"
  using assms by (auto simp: url_clean_Cons char_code_def)

lemma urlsplit_schemes:
  assumes "s \<in> {''http'', ''https''}"
  shows "urlsplit brk (s @ ''://'' @ a) = map_option (\<lambda>u. u\<lparr>up_scheme := s\<rparr>) (urlsplit brk (''//'' @ a))"
proof -
  have slash: "split_scheme (url_clean (''//'' @ a)) = ('''', url_clean (''//'' @ a))"
    by (simp add: url_clean_Cons char_code_def split_scheme_slash)
  show ?thesis
    unfolding urlsplit_def url_clean_http[OF assms] split_scheme_http[OF assms] slash
    by (simp add: option.map_comp comp_def)
qed

lemma hostname_scheme [simp]: "url_hostname (u\<lparr>up_scheme := s\<rparr>) = url_hostname u" "url_port (u\<lparr>up_scheme := s\<rparr>) = url_port u"
  by (simp_all add: url_hostname_def url_port_def)

text \<open>A host written as \<^verbatim>\<open>name\<close>, \<^verbatim>\<open>name:port\<close> or with a bracketed address, without white space around it.\<close>

definition plain_authority :: "string \<Rightarrow> bool" where
  "plain_authority a = (strip a = a \<and> (count_list a (CHR '':'') \<le> 1 \<or> startswith a ''[''))"

lemma self_origin_host:
  assumes plain: "plain_authority a" and scheme: "s \<in> {''http'', ''https''}"
    and allowed: "canonical_authority_host brk ip a = Some h" and origin: "parse_origin brk ip (s @ ''://'' @ a) = Some (s', h', p)"
  shows "h' = h \<and> s' = s"
proof -
  have lower: "py_lower s = s" using scheme by (auto simp: py_lower_def py_lower_char_def char_code_def)
  obtain u where u: "urlsplit brk (''//'' @ a) = Some u" and port: "url_port u \<noteq> Bad_port"
    and host: "\<exists>n. url_hostname u = Some n \<and> h = canonical_host ip n"
    using plain allowed by (auto simp: canonical_authority_host_def plain_authority_def Let_def split: if_splits option.splits)
  have "parse_origin brk ip (s @ ''://'' @ a) = Some (s', h', p) \<Longrightarrow> ?thesis"
    unfolding parse_origin_def urlsplit_schemes[OF scheme] u using host port lower
    by (auto split: option.splits port_value.splits if_splits simp: Let_def)
  with origin show ?thesis by simp
qed

section \<open>What the guards promise\<close>

lemma app_is_reached:
  assumes "create_app brk ip extra routes sc = From_app r" "sc_type sc = ''http''"
  obtains h where "request_host brk ip sc = Some h" "h \<in> set (build_allowed_hosts brk ip extra)"
    "same_origin_middleware brk ip (\<lambda>sc. From_app (routes sc)) sc = From_app r"
  using assms by (auto simp: create_app_def allowed_host_middleware_def split: option.splits if_splits)

lemma unsafe_is_claimed:
  assumes "same_origin_middleware brk ip (\<lambda>sc. From_app (routes sc)) sc = From_app r" "sc_type sc = ''http''"
    "sc_method sc = Some m" "m \<notin> set SAFE_METHODS"
  obtains v q where "claimed_origin sc = Some v" "self_origin brk ip sc = Some q" "parse_origin brk ip v = Some q" "r = routes sc"
  using assms by (auto simp: same_origin_middleware_def split: option.splits if_splits)

lemma first_header:
  assumes "header_list name sc = a # rest"
  shows "header_of name sc = Some a"
proof -
  have "map snd (filter (\<lambda>(k, _). k = name) hs) = a # rest \<Longrightarrow> map_of hs name = Some a" for hs :: "(string \<times> string) list"
    by (induction hs) (auto split: if_splits)
  with assms show ?thesis by (simp add: header_of_def header_list_def)
qed

lemma self_origin_of_host:
  assumes "header_of ''host'' sc = Some a" "a \<noteq> ''''"
  shows "self_origin brk ip sc = parse_origin brk ip (scope_scheme sc @ ''://'' @ a)"
  using assms by (simp add: self_origin_def Let_def)


definition sample_ip :: ip_parse where
  "sample_ip h = (if h = ''127.0.0.1'' then Some (True, h) else None)"

definition sample_post :: "string \<Rightarrow> string \<Rightarrow> http_scope" where
  "sample_post host origin =
     \<lparr>sc_type = ''http'', sc_method = Some ''POST'', sc_scheme = Some ''http'', sc_server = Some (Some ''127.0.0.1'', Some 8765),
      sc_headers = [(''host'', host), (''origin'', origin)]\<rparr>"

lemmas guard_defs = create_app_def allowed_host_middleware_def same_origin_middleware_def request_host_def claimed_origin_def self_origin_def
  header_of_def parse_origin_def canonical_authority_host_def canonical_host_def urlsplit_def split_location_def split_tail_def split_scheme_def
  url_clean_def partition_at_def url_hostname_def url_port_def hostinfo_def after_last_def has_userinfo_def scheme_char_def ascii_letter_def
  ascii_digit_def digits_value_def digit_val_def LOOPBACK_HOST_def DEFAULT_PORTS_def endswith_def inner_def sample_ip_def

lemmas guard_eval = sample_post_def header_list_def scope_scheme_def plain_authority_def SAFE_METHODS_def py_lower_def py_lower_char_def char_code_def
  strip_def lstrip_def rstrip_def py_space_def


text \<open>Such a request does reach the routes, and one that a foreign page sends does not.\<close>

lemma own_post_is_served:
  "create_app (\<lambda>_. True) sample_ip [] (\<lambda>_. ()) (sample_post ''127.0.0.1:8765'' ''http://localhost:8765'') = From_app ()"
  "create_app (\<lambda>_. True) sample_ip [] (\<lambda>_. ()) (sample_post ''127.0.0.1:8765'' ''http://evil.example:8765'') = Plain_text FORBIDDEN_BODY 403"
  "create_app (\<lambda>_. True) sample_ip [] (\<lambda>_. ()) (sample_post ''evil.example:8765'' ''http://evil.example:8765'') = Plain_text BAD_HOST_BODY 400"
  by (simp_all add: guard_defs guard_eval Let_def)

text \<open>A \<^verbatim>\<open>Host\<close> with two colons is taken for a bare IPv6 literal and only its end is looked at, so user part and path go unnoticed: the
  host guard takes it for loopback, and the origin guard reads a foreign host out of it.\<close>

lemma malformed_host_is_taken_for_loopback:
  "create_app (\<lambda>_. True) sample_ip [] (\<lambda>_. ()) (sample_post ''a:b:c@evil.example/.localhost'' ''http://evil.example'') = From_app ()"
  by (simp add: guard_defs guard_eval Let_def)

text \<open>The sentinel for loopback is also an ordinary host text, which the allowlist accepts.\<close>

lemma sentinel_is_an_accepted_host:
  "create_app (\<lambda>_. True) sample_ip [] (\<lambda>_. ()) (sample_post ''<loopback>'' ''http://<loopback>'') = From_app ()"
  by (simp add: guard_defs guard_eval Let_def)

text \<open>Nothing a client sends can break a log line.\<close>

lemma log_values_are_bounded_and_printable:
  "list_all py_printable (sanitise_for_log v)" "length (sanitise_for_log v) \<le> MAX_LOG_VALUE + 3"
proof -
  have "list_all py_printable (map (\<lambda>c. if py_printable c then c else CHR ''?'') t)" for t
    by (auto simp: list_all_iff py_printable_def char_code_def)
  moreover have "list_all py_printable (take n xs)" if "list_all py_printable xs" for n xs
    using that by (auto simp: list_all_iff dest: in_set_takeD)
  moreover have "list_all py_printable ''-''" "list_all py_printable ''...''" by (simp_all add: py_printable_def char_code_def)
  ultimately show "list_all py_printable (sanitise_for_log v)"
    by (cases v) (simp_all add: sanitise_for_log_def Let_def)
  show "length (sanitise_for_log v) \<le> MAX_LOG_VALUE + 3" by (auto simp: sanitise_for_log_def Let_def split: option.split)
qed

text \<open>Configured names only ever add to loopback.\<close>

lemma allowlist_exact:
  "set (build_allowed_hosts brk ip extra) = insert LOOPBACK_HOST {h. h \<noteq> '''' \<and> (\<exists>raw\<in>set extra. canonical_authority_host brk ip raw = Some h)}"
  by (induction extra) (auto split: option.split)

end
