(* ===== verification/Distro.thy ===== *)
theory Distro
  imports Storage Pytext
begin

text \<open>
  Which family of distributions the host belongs to, \<^verbatim>\<open>dependencies/distro.py\<close>: the reader of \<^verbatim>\<open>/etc/os-release\<close>, with the word splitting of
  \<^verbatim>\<open>shlex.split\<close> in its POSIX mode written out, and the two tables of names.
\<close>

section \<open>Shell words\<close>

text \<open>The states of the tokenizer: between words, in a word, inside a quotation by its quote, and after a backslash with the
  state to go back to.\<close>

datatype shlex_state = Between | In_word | Quoted char | Escaped shlex_state

definition shlex_space :: "char \<Rightarrow> bool" where
  "shlex_space c = (char_code c \<in> {32, 9, 13, 10})"

definition shlex_quote :: "char \<Rightarrow> bool" where
  "shlex_quote c = (char_code c \<in> {34, 39})"

definition backslash :: char where "backslash = CHR 0x5C"

text \<open>The characters left, the state, the token so far and whether it had a quotation; \<open>None\<close> is the \<^verbatim>\<open>ValueError\<close> of an open
  quotation or a trailing backslash.\<close>

fun shlex_words :: "shlex_state \<Rightarrow> string \<Rightarrow> bool \<Rightarrow> string \<Rightarrow> string list option" where
  "shlex_words Between tok q [] = Some []"
| "shlex_words In_word tok q [] = Some (if tok \<noteq> [] \<or> q then [tok] else [])"
| "shlex_words (Quoted k) tok q [] = None"
| "shlex_words (Escaped st) tok q [] = None"
| "shlex_words Between tok q (c # s) =
     (if shlex_space c then shlex_words Between [] False s
      else if c = backslash then shlex_words (Escaped In_word) [] False s
      else if shlex_quote c then shlex_words (Quoted c) [] False s
      else shlex_words In_word [c] False s)"
| "shlex_words In_word tok q (c # s) =
     (if shlex_space c then
        (if tok \<noteq> [] \<or> q then map_option ((#) tok) (shlex_words Between [] False s) else shlex_words Between [] False s)
      else if shlex_quote c then shlex_words (Quoted c) tok q s
      else if c = backslash then shlex_words (Escaped In_word) tok q s
      else shlex_words In_word (tok @ [c]) q s)"
| "shlex_words (Quoted k) tok q (c # s) =
     (if c = k then shlex_words In_word tok True s
      else if c = backslash \<and> k = CHR 0x22 then shlex_words (Escaped (Quoted k)) tok True s
      else shlex_words (Quoted k) (tok @ [c]) True s)"
| "shlex_words (Escaped st) tok q (c # s) =
     (let keep = (case st of Quoted k \<Rightarrow> c \<noteq> backslash \<and> c \<noteq> k | _ \<Rightarrow> False)
      in shlex_words st (tok @ (if keep then [backslash, c] else [c])) q s)"

definition shlex_split :: "string \<Rightarrow> string list option" where
  "shlex_split s = shlex_words Between [] False s"

section \<open>The os-release file\<close>

definition os_release_line :: "string \<Rightarrow> (string \<times> string) option" where
  "os_release_line raw =
     (let line = strip raw
      in if line = '''' \<or> startswith line ''#'' \<or> CHR ''='' \<notin> set line then None
         else let key = takeWhile (\<lambda>c. c \<noteq> CHR ''='') line;
                  val = drop 1 (dropWhile (\<lambda>c. c \<noteq> CHR ''='') line);
                  parsed = (case shlex_split val of None \<Rightarrow> [val] | Some ws \<Rightarrow> ws)
              in Some (strip key, case parsed of [] \<Rightarrow> '''' | w # _ \<Rightarrow> w))"

definition parse_os_release :: "string \<Rightarrow> (string, string) table" where
  "parse_os_release t = fold (\<lambda>raw out. case os_release_line raw of None \<Rightarrow> out | Some (k, v) \<Rightarrow> AList.update k v out) (splitlines t) []"

datatype distro = Arch | Debian | Fedora | Opensuse

definition distro_value :: "distro \<Rightarrow> string" where
  "distro_value d = (case d of Arch \<Rightarrow> ''arch'' | Debian \<Rightarrow> ''debian'' | Fedora \<Rightarrow> ''fedora'' | Opensuse \<Rightarrow> ''opensuse'')"

definition ID_TO_FAMILY :: "(string \<times> distro) list" where
  "ID_TO_FAMILY =
     [(''arch'', Arch), (''cachyos'', Arch), (''manjaro'', Arch), (''endeavouros'', Arch), (''garuda'', Arch), (''debian'', Debian),
      (''ubuntu'', Debian), (''linuxmint'', Debian), (''pop'', Debian), (''fedora'', Fedora), (''rhel'', Fedora), (''centos'', Fedora),
      (''rocky'', Fedora), (''almalinux'', Fedora), (''opensuse'', Opensuse), (''opensuse-leap'', Opensuse),
      (''opensuse-tumbleweed'', Opensuse), (''sles'', Opensuse)]"

definition LIKE_TO_FAMILY :: "(string \<times> distro) list" where
  "LIKE_TO_FAMILY =
     [(''arch'', Arch), (''debian'', Debian), (''ubuntu'', Debian), (''fedora'', Fedora), (''rhel'', Fedora), (''suse'', Opensuse),
      (''opensuse'', Opensuse)]"

text \<open>\<open>None\<close> is \<^verbatim>\<open>DistroDetectionError\<close>.\<close>

definition detect_distro_from_text :: "string \<Rightarrow> distro option" where
  "detect_distro_from_text t =
     (let fields = parse_os_release t;
          id_val = py_lower (case map_of fields ''ID'' of None \<Rightarrow> '''' | Some v \<Rightarrow> v);
          like_val = (case map_of fields ''ID_LIKE'' of None \<Rightarrow> '''' | Some v \<Rightarrow> v)
      in case map_of ID_TO_FAMILY id_val of
           Some d \<Rightarrow> Some d
         | None \<Rightarrow> (case filter (\<lambda>w. map_of LIKE_TO_FAMILY w \<noteq> None) (map py_lower (split_words like_val)) of
                     [] \<Rightarrow> None | w # _ \<Rightarrow> map_of LIKE_TO_FAMILY w))"

definition detect_distro :: "string option \<Rightarrow> distro option" where
  "detect_distro os_release = (case os_release of None \<Rightarrow> None | Some t \<Rightarrow> detect_distro_from_text t)"

section \<open>Lemmas\<close>

text \<open>A value in double quotes is read back whatever characters it has, once quote and backslash are escaped.\<close>

definition shell_quote :: "string \<Rightarrow> string" where
  "shell_quote s = CHR 0x22 # concat (map (\<lambda>c. if c = CHR 0x22 \<or> c = backslash then [backslash, c] else [c]) s) @ [CHR 0x22]"

lemma quoted_body:
  "shlex_words (Quoted (CHR 0x22)) tok q (concat (map (\<lambda>c. if c = CHR 0x22 \<or> c = backslash then [backslash, c] else [c]) s) @ CHR 0x22 # t)
     = shlex_words In_word (tok @ s) True t"
  by (induction s arbitrary: tok q) (auto simp: backslash_def)

lemma shlex_split_quoted: "shlex_split (shell_quote s) = Some [s]"
  using quoted_body[of "[]" False s "[]"]
  by (simp add: shlex_split_def shell_quote_def shlex_space_def shlex_quote_def backslash_def char_code_def)

lemma cachyos_is_arch:
  "detect_distro_from_text (''NAME='' @ shell_quote ''CachyOS Linux'' @ [CHR 0x0A] @ ''ID=cachyos'' @ [CHR 0x0A]) = Some Arch"
  by code_simp

end
