(* ===== verification/Dependencies.thy ===== *)
theory Dependencies
  imports Cases Distro
begin

text \<open>
  The dependency manager: the manifests and plans of \<^verbatim>\<open>dependencies/schemas.py\<close>, the planner, the pacman backend, the privileged helper,
  the drop-in writer, the health probes, the applier and the IPC handlers. An operation maps a world to its result, \<open>Inl\<close> for an
  exception, and the next world; the world holds the four tables, the audit log, the commands run with their exit codes, the
  drop-ins written and the probe's module-level samples. What lies outside is the environment: the answer of a child process, the clock,
  the file system and the template engine, each a function of the world at that moment. Database statements succeed.
\<close>

section \<open>Manifests and plans\<close>

datatype config_strategy = Sidecar | Edit_with_backup

datatype probe_kind = Binary_exists_and_runs | Service_active | File_exists | File_exists_and_growing | Command_exit_zero | Journal_pattern_recent

record when_condition =
  wc_profiles :: "string list"
  wc_flags :: "string list"

record service_spec =
  ss_unit :: string
  ss_enable :: bool
  ss_start :: bool

record dropin_spec =
  ds_filename :: string
  ds_template :: string
  ds_owner :: string
  ds_mode :: string

record config_spec =
  cg_strategy :: config_strategy
  cg_include_dir :: "string option"
  cg_target_path :: "string option"
  cg_dropin :: "dropin_spec option"
  cg_validate_cmd :: "string list option"
  cg_marker_begin :: "string option"
  cg_marker_end :: "string option"

record permissions_spec =
  pm_memberships :: "(string \<times> string) list"
  pm_readable :: "(string \<times> string) list"

record health_probe =
  hp_kind :: probe_kind
  hp_path :: "string option"
  hp_grow_window_s :: int
  hp_command :: "string list option"
  hp_pattern :: "string option"
  hp_window_s :: int
  hp_unit :: "string option"

record verify_spec =
  vs_binary_paths :: "string list"
  vs_version_cmd :: "string list option"
  vs_version_regex :: "string option"
  vs_probe :: health_probe

record install_hook =
  ih_command :: "string list"
  ih_optional :: bool

record rollback_spec =
  rk_remove_dropin :: bool
  rk_reload_service :: bool
  rk_remove_group :: bool

record manual_spec =
  ms_reason :: string
  ms_instructions :: string

record dep_manifest =
  mf_version :: string
  mf_name :: string
  mf_description :: string
  mf_required_when :: when_condition
  mf_optional_when :: when_condition
  mf_packages :: "(string, string list) table"
  mf_manual :: "manual_spec option"
  mf_minimum_version :: "string option"
  mf_service :: "service_spec option"
  mf_config :: "config_spec option"
  mf_permissions :: "permissions_spec option"
  mf_verify :: verify_spec
  mf_hooks :: "install_hook list"
  mf_rollback :: rollback_spec

type_synonym manifests = "(string, dep_manifest) table"

record plan_item =
  it_name :: string
  it_action :: string
  it_packages :: "string list"
  it_command :: "string option"
  it_dropin :: "string option"
  it_services :: "string list"
  it_permissions :: "string list"
  it_hooks :: "string list"
  it_manual_reason :: "string option"
  it_manual_instructions :: "string option"

record dep_plan =
  pl_id :: string
  pl_created_at :: datetime
  pl_created_by :: string
  pl_distro :: string
  pl_manager :: string
  pl_items :: "plan_item list"
  pl_disk_mb :: int
  pl_expires_at :: datetime

section \<open>Tables and the world\<close>

text \<open>The \<^verbatim>\<open>items_json\<close> column is \<open>None\<close> for a text that is no list of items.\<close>

record plan_row =
  pn_created_at :: datetime
  pn_created_by :: string
  pn_distro :: string
  pn_manager :: string
  pn_items :: "plan_item list option"
  pn_disk_mb :: int
  pn_expires_at :: datetime
  pn_status :: string

record dep_state_row =
  dt_installed :: bool
  dt_version :: "string option"
  dt_dropin :: bool
  dt_dropin_sha :: "string option"
  dt_verify_ts :: "datetime option"
  dt_verify_pass :: "bool option"
  dt_verify_detail :: "string option"
  dt_updated_at :: datetime

record dep_audit_row =
  da_ts :: datetime
  da_actor :: string
  da_action :: string
  da_target :: "string option"
  da_plan_id :: "string option"
  da_before :: "string option"
  da_after :: "string option"
  da_command :: "string option"
  da_exit_code :: "int option"
  da_stderr :: "string option"

record dropin_file =
  df_content :: string
  df_mode :: int
  df_owner :: "string option"

record dep_world =
  dw_plans :: "(string, plan_row) table"
  dw_state :: "(string, dep_state_row) table"
  dw_log :: "dep_audit_row list"
  dw_audit :: audit_state
  dw_runs :: "(string list \<times> int) list"
  dw_files :: "(string, dropin_file) table"
  dw_mtimes :: "(string, real) table"

text \<open>A finished child: its exit code and the decoded streams; \<open>cp_utf8\<close> says whether the output bytes are valid UTF-8.\<close>

record completed =
  cp_code :: int
  cp_out :: string
  cp_err :: string
  cp_utf8 :: bool

datatype chown_outcome = Chowned | Chown_refused | Chown_raises

record dep_env =
  de_run :: "dep_world \<Rightarrow> string list \<Rightarrow> completed option"
  de_clock :: "dep_world \<Rightarrow> datetime"
  de_locked :: "dep_world \<Rightarrow> bool"
  de_exists :: "dep_world \<Rightarrow> string \<Rightarrow> bool"
  de_executable :: "dep_world \<Rightarrow> string \<Rightarrow> bool"
  de_mtime :: "dep_world \<Rightarrow> string \<Rightarrow> real"
  de_time :: "dep_world \<Rightarrow> real"
  de_render :: "dep_manifest \<Rightarrow> string \<Rightarrow> string option"
  de_writable :: "dep_world \<Rightarrow> string \<Rightarrow> bool"
  de_chown :: "dep_world \<Rightarrow> string \<Rightarrow> string \<Rightarrow> chown_outcome"
  de_ftext :: "real \<Rightarrow> string"
  de_fround :: "real \<Rightarrow> string"
  de_iso :: "datetime \<Rightarrow> string"
  de_os_release :: "dep_world \<Rightarrow> string option"

datatype dep_error =
    Helper_error string
  | Sidecar_error string
  | Backend_locked
  | Backend_unavailable string
  | Plan_not_found
  | Param_missing
  | Invalid_items
  | Child_failed
  | Constraint_error
  | Other_error

type_synonym 'a dep_outcome = "(dep_error + 'a) \<times> dep_world"

text \<open>Sequencing: an exception ends the operation and keeps what was done.\<close>

definition andthen :: "'a dep_outcome \<Rightarrow> ('a \<Rightarrow> dep_world \<Rightarrow> 'b dep_outcome) \<Rightarrow> 'b dep_outcome" where
  "andthen p k = (case p of (Inl e, w) \<Rightarrow> (Inl e, w) | (Inr x, w) \<Rightarrow> k x w)"

lemma andthen_simps [simp]: "andthen (Inl e, w) k = (Inl e, w)" "andthen (Inr x, w) k = k x w"
  by (simp_all add: andthen_def)

definition run_command :: "dep_env \<Rightarrow> string list \<Rightarrow> dep_world \<Rightarrow> completed dep_outcome" where
  "run_command e argv w =
     (case de_run e w argv of
        None \<Rightarrow> (Inl Child_failed, w)
      | Some c \<Rightarrow> (Inr c, w\<lparr>dw_runs := dw_runs w @ [(argv, cp_code c)]\<rparr>))"

section \<open>The audit trail\<close>

definition dep_row :: "string \<Rightarrow> string \<Rightarrow> string option \<Rightarrow> string option \<Rightarrow> string option \<Rightarrow> int option \<Rightarrow> string option \<Rightarrow> dep_audit_row" where
  "dep_row actor action target plan_id command exit_code stderr =
     \<lparr>da_ts = 0, da_actor = actor, da_action = action, da_target = target, da_plan_id = plan_id, da_before = None, da_after = None,
      da_command = command, da_exit_code = exit_code, da_stderr = stderr\<rparr>"

definition log_dep_action :: "dep_env \<Rightarrow> dep_audit_row \<Rightarrow> dep_world \<Rightarrow> dep_world" where
  "log_dep_action e r w =
     (let truncated = (case da_stderr r of None \<Rightarrow> None | Some t \<Rightarrow> if t = '''' then None else Some (take 2000 t))
      in w\<lparr>dw_log := dw_log w @ [r\<lparr>da_ts := de_clock e w, da_stderr := truncated\<rparr>]\<rparr>)"

definition helper_audit ::
  "dep_env \<Rightarrow> string \<Rightarrow> string \<Rightarrow> string option \<Rightarrow> string option \<Rightarrow> int option \<Rightarrow> string option \<Rightarrow> dep_world \<Rightarrow> dep_world" where
  "helper_audit e action plan_id target command exit_code stderr w =
     w\<lparr>dw_log := dw_log w @ [(dep_row ''pkg-helper'' action target (Some plan_id) command exit_code
         (Some (take 2000 (case stderr of None \<Rightarrow> '''' | Some t \<Rightarrow> t))))\<lparr>da_ts := de_clock e w\<rparr>]\<rparr>"

section \<open>The privileged helper\<close>

record helper_result =
  hr_exit_code :: int
  hr_stdout :: string
  hr_stderr :: string

definition load_plan :: "dep_env \<Rightarrow> string \<Rightarrow> dep_world \<Rightarrow> dep_error + (string \<times> string \<times> plan_item list)" where
  "load_plan e plan_id w =
     (case map_of (dw_plans w) plan_id of
        None \<Rightarrow> Inl (Helper_error (''plan not found: '' @ plan_id))
      | Some r \<Rightarrow>
          if pn_status r \<noteq> ''pending'' then Inl (Helper_error (''plan status is '' @ repr_str (pn_status r) @ '', expected '' @ repr_str ''pending''))
          else if pn_expires_at r < de_clock e w
            then Inl (Helper_error (''plan '' @ plan_id @ '' expired at '' @ de_iso e (pn_expires_at r)))
          else (case pn_items r of None \<Rightarrow> Inl Invalid_items | Some items \<Rightarrow> Inr (pn_distro r, pn_manager r, items)))"

definition packages_of :: "dep_manifest \<Rightarrow> string \<Rightarrow> string list" where
  "packages_of m distro = (case map_of (mf_packages m) distro of None \<Rightarrow> [] | Some ps \<Rightarrow> ps)"

fun validate_against_manifest :: "manifests \<Rightarrow> string \<Rightarrow> plan_item list \<Rightarrow> dep_error option" where
  "validate_against_manifest packaged distro [] = None"
| "validate_against_manifest packaged distro (item # items) =
     (case map_of packaged (it_name item) of
        None \<Rightarrow> Some (Helper_error (''plan references unknown dep '' @ repr_str (it_name item) @ ''; not in static manifest''))
      | Some m \<Rightarrow>
          (case find (\<lambda>p. p \<notin> set (packages_of m distro)) (it_packages item) of
             Some p \<Rightarrow> Some (Helper_error (''package '' @ repr_str p @ '' for dep '' @ repr_str (it_name item) @ '' is not in the static manifest''))
           | None \<Rightarrow> validate_against_manifest packaged distro items))"

definition to_install :: "plan_item \<Rightarrow> bool" where
  "to_install item = (it_action item = ''install'' \<and> it_packages item \<noteq> [])"

definition install_argv :: "plan_item \<Rightarrow> string list" where
  "install_argv item = [''pacman'', ''-S'', ''--noconfirm'', ''--needed''] @ it_packages item"

text \<open>\<open>Inr (Inl r)\<close> is an early return; \<open>Inr (Inr (out, err))\<close> carries the last streams to the end of the loop.\<close>

fun install_loop :: "dep_env \<Rightarrow> string \<Rightarrow> plan_item list \<Rightarrow> string \<times> string \<Rightarrow> dep_world \<Rightarrow> (helper_result + string \<times> string) dep_outcome" where
  "install_loop e plan_id [] prev w = (Inr (Inr prev), w)"
| "install_loop e plan_id (item # items) prev w =
     (if \<not> to_install item then install_loop e plan_id items prev w
      else andthen (run_command e (install_argv item) w) (\<lambda>c w1.
        let w2 = helper_audit e (if cp_code c = 0 then ''install'' else ''install_failed'') plan_id (Some (it_name item))
                   (Some (join_with '' '' (install_argv item))) (Some (cp_code c)) (Some (cp_err c)) w1
        in if cp_code c \<noteq> 0 then (Inr (Inl \<lparr>hr_exit_code = cp_code c, hr_stdout = cp_out c, hr_stderr = cp_err c\<rparr>), w2)
           else install_loop e plan_id items (cp_out c, cp_err c) w2))"

definition mark_applied :: "string \<Rightarrow> dep_world \<Rightarrow> dep_world" where
  "mark_applied plan_id w = w\<lparr>dw_plans := update_where (\<lambda>k _. k = plan_id) (\<lambda>r. r\<lparr>pn_status := ''applied''\<rparr>) (dw_plans w)\<rparr>"

definition run_helper :: "dep_env \<Rightarrow> manifests \<Rightarrow> string \<Rightarrow> dep_world \<Rightarrow> helper_result dep_outcome" where
  "run_helper e packaged plan_id w =
     (case load_plan e plan_id w of
        Inl x \<Rightarrow> (Inl x, w)
      | Inr (distro, pm, items) \<Rightarrow>
          if pm \<noteq> ''pacman'' then (Inl (Helper_error (''helper only handles pacman, plan says '' @ repr_str pm)), w)
          else if distro \<noteq> ''arch'' then (Inl (Helper_error (''pacman backend requires arch family; got distro='' @ repr_str distro)), w)
          else case validate_against_manifest packaged distro items of
            Some x \<Rightarrow> (Inl x, w)
          | None \<Rightarrow>
              andthen (run_command e [''pacman'', ''-Sy''] w) (\<lambda>c w1.
                let w2 = helper_audit e ''metadata_refresh'' plan_id None (Some ''pacman -Sy'') (Some (cp_code c)) (Some (cp_err c)) w1
                in if cp_code c \<noteq> 0 then (Inr \<lparr>hr_exit_code = cp_code c, hr_stdout = cp_out c, hr_stderr = cp_err c\<rparr>, w2)
                   else andthen (install_loop e plan_id items ('''', '''') w2) (\<lambda>res w3.
                     case res of
                       Inl r \<Rightarrow> (Inr r, w3)
                     | Inr (out, err) \<Rightarrow>
                         (Inr \<lparr>hr_exit_code = 0, hr_stdout = out, hr_stderr = err\<rparr>,
                          helper_audit e ''plan_applied'' plan_id None None (Some 0) None (mark_applied plan_id w3)))))"

definition DEPS_HELPER_PROTOCOL_VERSION :: string where "DEPS_HELPER_PROTOCOL_VERSION = ''1.0.0''"

text \<open>The entry point after argument parsing: the exit status, or \<open>None\<close> when another exception ends the process.\<close>

definition helper_main :: "dep_env \<Rightarrow> manifests \<Rightarrow> string \<Rightarrow> string \<Rightarrow> dep_world \<Rightarrow> int option \<times> dep_world" where
  "helper_main e packaged plan_id version w =
     (if version \<noteq> DEPS_HELPER_PROTOCOL_VERSION then (Some 2, w)
      else case run_helper e packaged plan_id w of
             (Inl (Helper_error _), w1) \<Rightarrow> (Some 3, w1)
           | (Inl _, w1) \<Rightarrow> (None, w1)
           | (Inr r, w1) \<Rightarrow> (Some (hr_exit_code r), w1))"

section \<open>The pacman backend\<close>

text \<open>\<open>pb_has_db\<close>: a database path was given, needed only when the helper runs in this process.\<close>

record pacman_backend =
  pb_helper :: "string list option"
  pb_has_db :: bool

definition new_backend :: "string list option \<Rightarrow> bool \<Rightarrow> pacman_backend" where
  "new_backend helper has_db = \<lparr>pb_helper = (case helper of None \<Rightarrow> None | Some h \<Rightarrow> if h = [] then None else Some h), pb_has_db = has_db\<rparr>"

definition IN_PROCESS :: string where "IN_PROCESS = ''__in_process__''"

definition is_installed :: "dep_env \<Rightarrow> string \<Rightarrow> dep_world \<Rightarrow> bool dep_outcome" where
  "is_installed e pkg w = andthen (run_command e [''pacman'', ''-Qi'', pkg] w) (\<lambda>c w1. (Inr (cp_code c = 0), w1))"

text \<open>The pattern of \<^verbatim>\<open>_VERSION_RE\<close> tried at one position, and its multi-line search.\<close>

definition version_here :: "string \<Rightarrow> string option" where
  "version_here s =
     (let r = dropWhile py_space (drop 7 s); v = takeWhile (\<lambda>c. \<not> py_space c) (dropWhile py_space (drop 1 r))
      in if startswith s ''Version'' \<and> startswith r '':'' \<and> v \<noteq> '''' then Some v else None)"

fun version_search :: "bool \<Rightarrow> string \<Rightarrow> string option" where
  "version_search line_start [] = None"
| "version_search line_start (c # s) =
     (case (if line_start then version_here (c # s) else None) of Some v \<Rightarrow> Some v | None \<Rightarrow> version_search (c = CHR 0x0A) s)"

definition parse_version :: "dep_env \<Rightarrow> string list \<Rightarrow> dep_world \<Rightarrow> string option dep_outcome" where
  "parse_version e argv w =
     andthen (run_command e argv w) (\<lambda>c w1. (Inr (if cp_code c \<noteq> 0 then None else version_search True (cp_out c)), w1))"

definition installed_version :: "dep_env \<Rightarrow> string \<Rightarrow> dep_world \<Rightarrow> string option dep_outcome" where
  "installed_version e pkg w = parse_version e [''pacman'', ''-Qi'', pkg] w"

definition candidate_version :: "dep_env \<Rightarrow> string \<Rightarrow> dep_world \<Rightarrow> string option dep_outcome" where
  "candidate_version e pkg w = parse_version e [''pacman'', ''-Si'', pkg] w"

record install_result =
  ir_installed :: "string list"
  ir_command :: string
  ir_exit_code :: int
  ir_stdout :: string
  ir_stderr :: string

definition install_failed :: "install_result \<Rightarrow> bool" where
  "install_failed r = (ir_exit_code r \<noteq> 0)"

definition install_report :: "string list \<Rightarrow> string \<Rightarrow> int \<Rightarrow> string \<Rightarrow> string \<Rightarrow> install_result" where
  "install_report pkgs command code out err =
     \<lparr>ir_installed = (if code = 0 then pkgs else []), ir_command = command, ir_exit_code = code, ir_stdout = last_n 2000 out, ir_stderr = last_n 2000 err\<rparr>"

definition invoke_helper :: "dep_env \<Rightarrow> manifests \<Rightarrow> pacman_backend \<Rightarrow> string list \<Rightarrow> string list \<Rightarrow> string \<Rightarrow> dep_world \<Rightarrow> install_result dep_outcome" where
  "invoke_helper e packaged b helper pkgs plan_id w =
     (let command = ''helper plan='' @ plan_id @ '' pkgs='' @ join_with '','' pkgs
      in if helper = [IN_PROCESS] then
           (if \<not> pb_has_db b then (Inl (Backend_unavailable ''in-process helper requires db_path (test-only)''), w)
            else case run_helper e packaged plan_id w of
                   (Inl (Helper_error t), w1) \<Rightarrow>
                     (Inr \<lparr>ir_installed = [], ir_command = command, ir_exit_code = 3, ir_stdout = '''', ir_stderr = t\<rparr>, w1)
                 | (Inl x, w1) \<Rightarrow> (Inl x, w1)
                 | (Inr r, w1) \<Rightarrow> (Inr (install_report pkgs command (hr_exit_code r) (hr_stdout r) (hr_stderr r)), w1))
         else let argv = helper @ [''--plan-id'', plan_id]
              in andthen (run_command e argv w) (\<lambda>c w1. (Inr (install_report pkgs (join_with '' '' argv) (cp_code c) (cp_out c) (cp_err c)), w1)))"

definition backend_install ::
  "dep_env \<Rightarrow> manifests \<Rightarrow> pacman_backend \<Rightarrow> bool \<Rightarrow> string option \<Rightarrow> string list \<Rightarrow> dep_world \<Rightarrow> install_result dep_outcome" where
  "backend_install e packaged b dry_run plan_id pkgs w =
     (if de_locked e w then (Inl Backend_locked, w)
      else case pb_helper b of
        None \<Rightarrow> (Inl (Backend_unavailable ''install path not configured (pkg-helper command unset)''), w)
      | Some helper \<Rightarrow>
          (case plan_id of
             None \<Rightarrow> (Inl (Backend_unavailable ''PacmanBackend.install requires plan_id (use the applier)''), w)
           | Some p \<Rightarrow>
               if dry_run
               then (Inr \<lparr>ir_installed = pkgs, ir_command = ''(dry-run) helper plan '' @ p, ir_exit_code = 0, ir_stdout = '''', ir_stderr = ''''\<rparr>, w)
               else invoke_helper e packaged b helper pkgs p w))"

definition backend_remove :: "dep_env \<Rightarrow> dep_world \<Rightarrow> dep_error" where
  "backend_remove e w = (if de_locked e w then Backend_locked else Backend_unavailable ''remove not supported in Phase 1'')"

section \<open>The planner\<close>

definition PLAN_TTL :: timedelta where "PLAN_TTL = seconds 3600"

definition is_required :: "dep_manifest \<Rightarrow> string \<Rightarrow> string list \<Rightarrow> bool" where
  "is_required m profile flags =
     (let c = mf_required_when m
      in profile \<in> set (wc_profiles c) \<and> (wc_flags c = [] \<or> list_ex (\<lambda>f. f \<in> set flags) (wc_flags c)))"

text \<open>\<^verbatim>\<open>all(...)\<close> stops at the first package that is missing; the comprehension asks for every one.\<close>

fun all_installed :: "dep_env \<Rightarrow> string list \<Rightarrow> dep_world \<Rightarrow> bool dep_outcome" where
  "all_installed e [] w = (Inr True, w)"
| "all_installed e (p # ps) w = andthen (is_installed e p w) (\<lambda>ok w1. if ok then all_installed e ps w1 else (Inr False, w1))"

fun missing_packages :: "dep_env \<Rightarrow> string list \<Rightarrow> dep_world \<Rightarrow> string list dep_outcome" where
  "missing_packages e [] w = (Inr [], w)"
| "missing_packages e (p # ps) w =
     andthen (is_installed e p w) (\<lambda>ok w1. andthen (missing_packages e ps w1) (\<lambda>ms w2. (Inr (if ok then ms else p # ms), w2)))"

definition planned_dropin :: "dep_manifest \<Rightarrow> string option" where
  "planned_dropin m =
     (case mf_config m of
        None \<Rightarrow> None
      | Some c \<Rightarrow>
          (case (cg_dropin c, cg_include_dir c) of
             (Some d, Some dir) \<Rightarrow> if dir = '''' then None else Some (dir @ ds_filename d)
           | _ \<Rightarrow> None))"

definition planned_services :: "dep_manifest \<Rightarrow> string list" where
  "planned_services m =
     (case mf_service m of None \<Rightarrow> [] | Some s \<Rightarrow> if ss_enable s then [''systemctl enable --now '' @ ss_unit s] else [])"

definition manual_item :: "string \<Rightarrow> manual_spec \<Rightarrow> plan_item" where
  "manual_item name m =
     \<lparr>it_name = name, it_action = ''manual'', it_packages = [], it_command = None, it_dropin = None, it_services = [], it_permissions = [],
      it_hooks = [], it_manual_reason = Some (ms_reason m), it_manual_instructions = Some (ms_instructions m)\<rparr>"

definition install_item :: "string \<Rightarrow> dep_manifest \<Rightarrow> string list \<Rightarrow> plan_item" where
  "install_item name m missing =
     \<lparr>it_name = name, it_action = ''install'', it_packages = missing, it_command = Some (''pacman install '' @ join_with '' '' missing),
      it_dropin = planned_dropin m, it_services = planned_services m, it_permissions = [],
      it_hooks = map (\<lambda>h. join_with '' '' (ih_command h)) (mf_hooks m), it_manual_reason = None, it_manual_instructions = None\<rparr>"

definition plan_dependency :: "dep_env \<Rightarrow> string \<Rightarrow> string \<Rightarrow> string list \<Rightarrow> string \<Rightarrow> dep_manifest \<Rightarrow> dep_world \<Rightarrow> plan_item list dep_outcome" where
  "plan_dependency e distro profile flags name m w =
     (if \<not> is_required m profile flags then (Inr [], w)
      else let packages = packages_of m distro
           in case mf_manual m of
                Some manual \<Rightarrow>
                  if packages = [] then (Inr [manual_item name manual], w)
                  else andthen (all_installed e packages w) (\<lambda>ok w1. (Inr (if ok then [] else [manual_item name manual]), w1))
              | None \<Rightarrow>
                  if packages = [] then (Inr [], w)
                  else andthen (missing_packages e packages w) (\<lambda>missing w1. (Inr (if missing = [] then [] else [install_item name m missing]), w1)))"

fun plan_items :: "dep_env \<Rightarrow> string \<Rightarrow> string \<Rightarrow> string list \<Rightarrow> (string \<times> dep_manifest) list \<Rightarrow> dep_world \<Rightarrow> plan_item list dep_outcome" where
  "plan_items e distro profile flags [] w = (Inr [], w)"
| "plan_items e distro profile flags ((name, m) # ms) w =
     andthen (plan_dependency e distro profile flags name m w) (\<lambda>here w1.
       andthen (plan_items e distro profile flags ms w1) (\<lambda>rest w2. (Inr (here @ rest), w2)))"

definition build_plan :: "dep_env \<Rightarrow> manifests \<Rightarrow> string \<Rightarrow> string \<Rightarrow> string list \<Rightarrow> string \<Rightarrow> string \<Rightarrow> dep_world \<Rightarrow> dep_plan dep_outcome" where
  "build_plan e ms distro profile flags created_by plan_id w =
     andthen (plan_items e distro profile flags (sort_key fst ms) w) (\<lambda>items w1.
       let created_at = de_clock e w1
       in (Inr \<lparr>pl_id = plan_id, pl_created_at = created_at, pl_created_by = created_by, pl_distro = distro, pl_manager = ''pacman'',
                pl_items = items, pl_disk_mb = 0, pl_expires_at = created_at + PLAN_TTL\<rparr>, w1))"

definition persist_plan :: "dep_env \<Rightarrow> dep_plan \<Rightarrow> dep_world \<Rightarrow> unit dep_outcome" where
  "persist_plan e p w =
     (if map_of (dw_plans w) (pl_id p) \<noteq> None then (Inl Constraint_error, w)
      else let row = \<lparr>pn_created_at = pl_created_at p, pn_created_by = pl_created_by p, pn_distro = pl_distro p, pn_manager = pl_manager p,
                      pn_items = Some (pl_items p), pn_disk_mb = pl_disk_mb p, pn_expires_at = pl_expires_at p, pn_status = ''pending''\<rparr>
           in (Inr (), log_dep_action e (dep_row (pl_created_by p) ''plan_created'' None (Some (pl_id p)) None None None)
                         (w\<lparr>dw_plans := dw_plans w @ [(pl_id p, row)]\<rparr>)))"

end
