(* ===== verification/Dependency_Apply.thy ===== *)
theory Dependency_Apply
  imports Dependencies
begin

text \<open>
  The second half of the dependency manager: the drop-in writer of \<^verbatim>\<open>dependencies/sidecar.py\<close>, the health probes, the applier, the IPC handlers
  and the worker that verifies every dependency in turn. The worlds and environments are those of \<open>Dependencies\<close>.
\<close>

section \<open>Drop-in files\<close>

text \<open>A file that cannot be written leaves no temporary file behind; an owner that is unknown or not permitted is passed over.\<close>

definition write_sidecar :: "dep_env \<Rightarrow> dep_manifest \<Rightarrow> string \<Rightarrow> bool \<Rightarrow> dep_world \<Rightarrow> string dep_outcome" where
  "write_sidecar e m include_dir chown w =
     (case mf_config m of
        None \<Rightarrow> (Inl (Sidecar_error (mf_name m @ '': no sidecar config'')), w)
      | Some cfg \<Rightarrow>
          if cg_strategy cfg \<noteq> Sidecar then (Inl (Sidecar_error (mf_name m @ '': no sidecar config'')), w)
          else case cg_dropin cfg of
            None \<Rightarrow> (Inl (Sidecar_error (mf_name m @ '': config.dropin not set'')), w)
          | Some d \<Rightarrow>
              (case (de_render e m (ds_template d), py_octal (ds_mode d)) of
                 (Some content, Some mode) \<Rightarrow>
                   (let target = path_join include_dir (ds_filename d)
                    in if \<not> de_writable e w target then (Inl Other_error, w)
                       else let own = (if chown then de_chown e w target (ds_owner d) else Chown_refused);
                                w1 = w\<lparr>dw_files := AList.update target
                                         \<lparr>df_content = content, df_mode = mode, df_owner = (if own = Chowned then Some (ds_owner d) else None)\<rparr> (dw_files w)\<rparr>
                            in if own = Chown_raises then (Inl Other_error, w1) else (Inr target, w1))
               | _ \<Rightarrow> (Inl Other_error, w)))"

section \<open>Health probes\<close>

record probe_result =
  pv_ok :: bool
  pv_detail :: string

definition probed :: "bool \<Rightarrow> string \<Rightarrow> dep_world \<Rightarrow> probe_result dep_outcome" where
  "probed ok detail w = (Inr \<lparr>pv_ok = ok, pv_detail = detail\<rparr>, w)"

definition probe_binary :: "dep_env \<Rightarrow> string list \<Rightarrow> string list option \<Rightarrow> dep_world \<Rightarrow> probe_result dep_outcome" where
  "probe_binary e paths version_cmd w =
     (case filter (\<lambda>p. de_exists e w p \<and> de_executable e w p) paths of
        [] \<Rightarrow> probed False (''no executable binary in '' @ py_repr (\<lambda>_. '''') (PList (map PStr paths))) w
      | found # _ \<Rightarrow>
          (case version_cmd of
             Some (c # cs) \<Rightarrow>
               andthen (run_command e (c # cs) w) (\<lambda>r w1.
                 if cp_code r \<noteq> 0 then probed False (''version command exit '' @ int_str (cp_code r)) w1
                 else probed True (take 200 (strip (cp_out r))) w1)
           | _ \<Rightarrow> probed True (''binary found at '' @ found) w))"

definition probe_service :: "dep_env \<Rightarrow> string option \<Rightarrow> dep_world \<Rightarrow> probe_result dep_outcome" where
  "probe_service e u w =
     (case u of
        Some (c # cs) \<Rightarrow>
          andthen (run_command e [''systemctl'', ''is-active'', c # cs] w) (\<lambda>r w1.
            if cp_code r = 0 then probed True ((c # cs) @ '' active'') w1
            else if cp_utf8 r then probed False ((c # cs) @ '' returned '' @ strip (cp_out r)) w1
            else (Inl Other_error, w1))
      | _ \<Rightarrow> probed False ''service_active probe requires unit'' w)"

definition probe_file_exists :: "dep_env \<Rightarrow> string option \<Rightarrow> dep_world \<Rightarrow> probe_result dep_outcome" where
  "probe_file_exists e path w =
     (case path of
        None \<Rightarrow> probed False ''file_exists requires path'' w
      | Some p \<Rightarrow> probed (de_exists e w p) (p @ (if de_exists e w p then '' present'' else '' missing'')) w)"

definition probe_file_growing :: "dep_env \<Rightarrow> string option \<Rightarrow> int \<Rightarrow> dep_world \<Rightarrow> probe_result dep_outcome" where
  "probe_file_growing e path window_s w =
     (case path of
        None \<Rightarrow> probed False ''file_exists_and_growing requires path'' w
      | Some p \<Rightarrow>
          if \<not> de_exists e w p then probed False (p @ '' missing'') (w\<lparr>dw_mtimes := AList.delete p (dw_mtimes w)\<rparr>)
          else let now = de_mtime e w p; w1 = w\<lparr>dw_mtimes := AList.update p now (dw_mtimes w)\<rparr>
               in case map_of (dw_mtimes w) p of
                    None \<Rightarrow> probed False (p @ '' mtime sample captured (waiting for next probe)'') w1
                  | Some prev \<Rightarrow>
                      if now > prev then probed True (p @ '' mtime advanced from '' @ de_ftext e prev @ '' to '' @ de_ftext e now) w1
                      else let age = de_time e w1 - now
                           in if age > of_int window_s
                              then probed False (p @ '' has not grown in '' @ de_fround e age @ ''s (> '' @ int_str window_s @ ''s)'') w1
                              else probed False (p @ '' mtime unchanged ('' @ de_ftext e now @ '')'') w1)"

definition probe_command_zero :: "dep_env \<Rightarrow> string list option \<Rightarrow> dep_world \<Rightarrow> probe_result dep_outcome" where
  "probe_command_zero e command w =
     (case command of
        Some (c # cs) \<Rightarrow>
          andthen (run_command e (c # cs) w) (\<lambda>r w1.
            probed (cp_code r = 0) (join_with '' '' (c # cs) @ '' exit '' @ int_str (cp_code r)) w1)
      | _ \<Rightarrow> probed False ''command_exit_zero requires command'' w)"

definition probe_journal :: "dep_env \<Rightarrow> string option \<Rightarrow> int \<Rightarrow> dep_world \<Rightarrow> probe_result dep_outcome" where
  "probe_journal e pattern window_s w =
     (case pattern of
        Some (c # cs) \<Rightarrow>
          (let since = int_str (max 1 (window_s div 60)) @ '' minute ago''
           in andthen (run_command e [''journalctl'', ''--since'', since, ''--no-pager'', ''--quiet'', ''--grep'', c # cs] w) (\<lambda>r w1.
                if cp_code r \<noteq> 0 then probed False (''journalctl exit '' @ int_str (cp_code r)) w1
                else if strip (cp_out r) \<noteq> '''' then probed True (''matched in journal: '' @ take 200 (hd (splitlines (cp_out r)))) w1
                else probed False ''no matching journal lines'' w1))
      | _ \<Rightarrow> probed False ''journal_pattern_recent requires pattern'' w)"

definition run_probe :: "dep_env \<Rightarrow> verify_spec \<Rightarrow> dep_world \<Rightarrow> probe_result dep_outcome" where
  "run_probe e v w =
     (let p = vs_probe v
      in case hp_kind p of
           Binary_exists_and_runs \<Rightarrow> probe_binary e (vs_binary_paths v) (vs_version_cmd v) w
         | Service_active \<Rightarrow> probe_service e (hp_unit p) w
         | File_exists \<Rightarrow> probe_file_exists e (hp_path p) w
         | File_exists_and_growing \<Rightarrow> probe_file_growing e (hp_path p) (hp_grow_window_s p) w
         | Command_exit_zero \<Rightarrow> probe_command_zero e (hp_command p) w
         | Journal_pattern_recent \<Rightarrow> probe_journal e (hp_pattern p) (hp_window_s p) w)"

section \<open>The applier\<close>

record applier_result =
  ap_ok :: bool
  ap_failed :: "string option"
  ap_notes :: "string list"

definition load_items :: "string \<Rightarrow> dep_world \<Rightarrow> plan_item list dep_outcome" where
  "load_items plan_id w =
     (case map_of (dw_plans w) plan_id of
        None \<Rightarrow> (Inl Plan_not_found, w)
      | Some r \<Rightarrow> (case pn_items r of None \<Rightarrow> (Inl Invalid_items, w) | Some items \<Rightarrow> (Inr items, w)))"

text \<open>What the loops share: the manifests, the directories that stand in for the declared ones and whether to change the owner.\<close>

record apply_args =
  aa_manifests :: manifests
  aa_dirs :: "(string, string) table"
  aa_chown :: bool

definition declared_dropin :: "apply_args \<Rightarrow> plan_item \<Rightarrow> (dep_manifest \<times> config_spec) option" where
  "declared_dropin a item =
     (case map_of (aa_manifests a) (it_name item) of
        None \<Rightarrow> None
      | Some m \<Rightarrow> (case mf_config m of None \<Rightarrow> None | Some c \<Rightarrow> if cg_dropin c = None then None else Some (m, c)))"

definition dropin_dir :: "apply_args \<Rightarrow> plan_item \<Rightarrow> config_spec \<Rightarrow> string" where
  "dropin_dir a item c =
     (case map_of (aa_dirs a) (it_name item) of
        Some d \<Rightarrow> d
      | None \<Rightarrow> (case cg_include_dir c of None \<Rightarrow> ''/'' | Some d \<Rightarrow> if d = '''' then ''/'' else d))"

text \<open>\<open>Inr (Inl r)\<close> is the early return for a drop-in that cannot be written.\<close>

fun write_dropins ::
  "dep_env \<Rightarrow> apply_args \<Rightarrow> string \<Rightarrow> plan_item list \<Rightarrow> string list \<Rightarrow> dep_world \<Rightarrow> (applier_result + string list) dep_outcome" where
  "write_dropins e a plan_id [] notes w = (Inr (Inr notes), w)"
| "write_dropins e a plan_id (item # items) notes w =
     (case declared_dropin a item of
        None \<Rightarrow> write_dropins e a plan_id items notes w
      | Some (m, c) \<Rightarrow>
          (case write_sidecar e m (dropin_dir a item c) (aa_chown a) w of
             (Inl (Sidecar_error t), w1) \<Rightarrow>
               (Inr (Inl \<lparr>ap_ok = False, ap_failed = Some (it_name item), ap_notes = [t]\<rparr>),
                log_dep_action e (dep_row ''applier'' ''dropin_failed'' (Some (it_name item)) (Some plan_id) None None (Some t)) w1)
           | (Inl x, w1) \<Rightarrow> (Inl x, w1)
           | (Inr target, w1) \<Rightarrow>
               write_dropins e a plan_id items (notes @ [''wrote '' @ target])
                 (log_dep_action e (dep_row ''applier'' ''dropin_written'' (Some (it_name item)) (Some plan_id) (Some target) None None) w1)))"

fun run_services :: "dep_env \<Rightarrow> string \<Rightarrow> (string \<times> string) list \<Rightarrow> dep_world \<Rightarrow> unit dep_outcome" where
  "run_services e plan_id [] w = (Inr (), w)"
| "run_services e plan_id ((name, action) # rest) w =
     andthen (run_command e (split_words action) w) (\<lambda>c w1.
       run_services e plan_id rest
         (log_dep_action e (dep_row ''applier'' (if cp_code c = 0 then ''service_action'' else ''service_action_failed'') (Some name) (Some plan_id)
            (Some action) (Some (cp_code c)) (Some (cp_err c))) w1))"

definition record_state :: "datetime \<Rightarrow> plan_item \<Rightarrow> string option \<Rightarrow> probe_result \<Rightarrow> dep_world \<Rightarrow> dep_world" where
  "record_state now item version p w =
     w\<lparr>dw_state := upsert (it_name item)
         \<lparr>dt_installed = True, dt_version = version, dt_dropin = it_dropin item \<noteq> None, dt_dropin_sha = None, dt_verify_ts = Some now,
          dt_verify_pass = Some (pv_ok p), dt_verify_detail = Some (pv_detail p), dt_updated_at = now\<rparr>
         (\<lambda>r. r\<lparr>dt_installed := True, dt_version := version, dt_dropin := it_dropin item \<noteq> None, dt_verify_ts := Some now,
                dt_verify_pass := Some (pv_ok p), dt_verify_detail := Some (pv_detail p), dt_updated_at := now\<rparr>) (dw_state w)\<rparr>"

fun verify_items :: "dep_env \<Rightarrow> apply_args \<Rightarrow> string \<Rightarrow> plan_item list \<Rightarrow> dep_world \<Rightarrow> unit dep_outcome" where
  "verify_items e a plan_id [] w = (Inr (), w)"
| "verify_items e a plan_id (item # items) w =
     (case map_of (aa_manifests a) (it_name item) of
        None \<Rightarrow> verify_items e a plan_id items w
      | Some m \<Rightarrow>
          andthen (run_probe e (mf_verify m) w) (\<lambda>p w1.
            let w2 = log_dep_action e (dep_row ''applier'' (if pv_ok p then ''verify_pass'' else ''verify_fail'') (Some (it_name item)) (Some plan_id)
                       None None (Some (pv_detail p))) w1
            in andthen (case it_packages item of [] \<Rightarrow> (Inr None, w2) | pkg # _ \<Rightarrow> installed_version e pkg w2) (\<lambda>version w3.
                 verify_items e a plan_id items (record_state (de_clock e w3) item version p w3))))"

definition dep_audit_note :: "(string \<Rightarrow> string) \<Rightarrow> audit_call \<Rightarrow> string \<Rightarrow> string \<Rightarrow> plan_item list \<Rightarrow> dep_world \<Rightarrow> dep_world" where
  "dep_audit_note sha call action plan_id items w =
     (if items = [] then w
      else w\<lparr>dw_audit := fst (append_audit sha
             (call\<lparr>ac_actor := ''user:local'', ac_action := action, ac_target := Some (''dep:'' @ join_with '','' (map it_name items)),
                   ac_details := details_of [(''plan_id'', PStr plan_id)]\<rparr>) (dw_audit w))\<rparr>)"

definition configure_items ::
  "(string \<Rightarrow> string) \<Rightarrow> audit_call \<Rightarrow> dep_env \<Rightarrow> apply_args \<Rightarrow> string \<Rightarrow> plan_item list \<Rightarrow> dep_world \<Rightarrow> applier_result dep_outcome" where
  "configure_items sha call e a plan_id items w =
     andthen (write_dropins e a plan_id items [] w) (\<lambda>res w1.
       case res of
         Inl r \<Rightarrow> (Inr r, w1)
       | Inr notes \<Rightarrow>
           andthen (run_services e plan_id (concat (map (\<lambda>i. map (Pair (it_name i)) (it_services i)) items)) w1) (\<lambda>_ w2.
             andthen (verify_items e a plan_id items w2) (\<lambda>_ w3.
               (Inr \<lparr>ap_ok = True, ap_failed = None, ap_notes = notes\<rparr>, dep_audit_note sha call ''dep_plan_applied'' plan_id items w3))))"

definition apply_plan ::
  "(string \<Rightarrow> string) \<Rightarrow> audit_call \<Rightarrow> dep_env \<Rightarrow> manifests \<Rightarrow> pacman_backend \<Rightarrow> apply_args \<Rightarrow> string \<Rightarrow> dep_world \<Rightarrow> applier_result dep_outcome" where
  "apply_plan sha call e packaged b a plan_id w =
     andthen (load_items plan_id w) (\<lambda>all_items w0.
       let items = filter (\<lambda>i. it_action i \<noteq> ''manual'') all_items;
           install_items = filter to_install items
       in if install_items = [] then configure_items sha call e a plan_id items w0
          else andthen (backend_install e packaged b False (Some plan_id) (concat (map it_packages install_items)) w0) (\<lambda>r w1.
            let w2 = log_dep_action e (dep_row ''applier'' (if install_failed r then ''install_failed'' else ''install'') None (Some plan_id)
                       (Some (ir_command r)) (Some (ir_exit_code r)) (Some (ir_stderr r))) w1
            in if install_failed r then (Inr \<lparr>ap_ok = False, ap_failed = Some ''install'', ap_notes = [ir_stderr r]\<rparr>, w2)
               else configure_items sha call e a plan_id items w2))"

section \<open>IPC handlers\<close>

text \<open>\<^verbatim>\<open>set(params.get("flags", []) or [])\<close>: the texts in it, \<open>None\<close> when the value cannot be made a set.\<close>

fun hashable :: "pyval \<Rightarrow> bool" where
  "hashable (PList _) = False"
| "hashable (PDict _) = False"
| "hashable v = True"

definition flag_set :: "pydict \<Rightarrow> string list option" where
  "flag_set params =
     (let v = dget params ''flags''
      in if \<not> truthy v then Some []
         else case v of
           PList xs \<Rightarrow> if list_all hashable xs then Some (concat (map (\<lambda>x. case x of PStr s \<Rightarrow> [s] | _ \<Rightarrow> []) xs)) else None
         | PStr s \<Rightarrow> Some (map (\<lambda>c. [c]) s)
         | PDict d \<Rightarrow> Some (map fst d)
         | _ \<Rightarrow> None)"

definition text_or :: "(pyval \<Rightarrow> string) \<Rightarrow> pydict \<Rightarrow> string \<Rightarrow> string \<Rightarrow> string" where
  "text_or ostr params k d = (case map_of params k of None \<Rightarrow> d | Some v \<Rightarrow> py_str ostr v)"

definition handle_plan_dependency_install ::
  "(string \<Rightarrow> string) \<Rightarrow> audit_call \<Rightarrow> (pyval \<Rightarrow> string) \<Rightarrow> dep_env \<Rightarrow> manifests \<Rightarrow> string \<Rightarrow> pydict \<Rightarrow> dep_world \<Rightarrow> dep_plan dep_outcome" where
  "handle_plan_dependency_install sha call ostr e ms plan_id params w =
     (case flag_set params of
        None \<Rightarrow> (Inl Other_error, w)
      | Some flags \<Rightarrow>
          (case detect_distro (de_os_release e w) of
             None \<Rightarrow> (Inl Other_error, w)
           | Some d \<Rightarrow>
               andthen (build_plan e ms (distro_value d) (text_or ostr params ''profile'' ''standard'') flags (text_or ostr params ''actor'' ''ipc'') plan_id w)
                 (\<lambda>plan w1. andthen (persist_plan e plan w1) (\<lambda>_ w2.
                    (Inr plan, dep_audit_note sha call ''dep_plan_created'' (pl_id plan) (pl_items plan) w2)))))"

definition handle_apply_dependency_plan ::
  "(string \<Rightarrow> string) \<Rightarrow> audit_call \<Rightarrow> (pyval \<Rightarrow> string) \<Rightarrow> dep_env \<Rightarrow> manifests \<Rightarrow> pacman_backend \<Rightarrow> apply_args \<Rightarrow> pydict \<Rightarrow> dep_world
     \<Rightarrow> applier_result dep_outcome" where
  "handle_apply_dependency_plan sha call ostr e packaged b a params w =
     (let plan_id = text_or ostr params ''plan_id'' ''''
      in if plan_id = '''' then (Inl Param_missing, w) else apply_plan sha call e packaged b a plan_id w)"

record dep_listing =
  dl_name :: string
  dl_description :: string
  dl_profiles :: "string list"
  dl_packages :: "string list"
  dl_installed :: "bool option"
  dl_version :: "string option"
  dl_dropin :: bool
  dl_verify_ts :: "string option"
  dl_verify_pass :: "bool option"
  dl_verify_detail :: "string option"

definition list_dependency :: "dep_env \<Rightarrow> (string, dep_state_row) table \<Rightarrow> string \<Rightarrow> dep_manifest \<Rightarrow> dep_world \<Rightarrow> dep_listing dep_outcome" where
  "list_dependency e states name m w =
     (let pkgs = packages_of m ''arch''; prior = map_of states name
      in andthen (if pkgs = [] then (Inr None, w) else andthen (all_installed e pkgs w) (\<lambda>ok w1. (Inr (Some ok), w1))) (\<lambda>installed w1.
           andthen (if installed = Some True then installed_version e (hd pkgs) w1 else (Inr None, w1)) (\<lambda>version w2.
             (Inr \<lparr>dl_name = name, dl_description = mf_description m, dl_profiles = wc_profiles (mf_required_when m), dl_packages = pkgs,
                   dl_installed = installed, dl_version = version, dl_dropin = (case prior of None \<Rightarrow> False | Some r \<Rightarrow> dt_dropin r),
                   dl_verify_ts = (case prior of None \<Rightarrow> None | Some r \<Rightarrow> map_option (de_iso e) (dt_verify_ts r)),
                   dl_verify_pass = (case prior of None \<Rightarrow> None | Some r \<Rightarrow> dt_verify_pass r),
                   dl_verify_detail = (case prior of None \<Rightarrow> None | Some r \<Rightarrow> dt_verify_detail r)\<rparr>, w2))))"

fun list_dependencies :: "dep_env \<Rightarrow> (string, dep_state_row) table \<Rightarrow> (string \<times> dep_manifest) list \<Rightarrow> dep_world \<Rightarrow> dep_listing list dep_outcome" where
  "list_dependencies e states [] w = (Inr [], w)"
| "list_dependencies e states ((name, m) # ms) w =
     andthen (list_dependency e states name m w) (\<lambda>r w1. andthen (list_dependencies e states ms w1) (\<lambda>rs w2. (Inr (r # rs), w2)))"

definition handle_list_dependencies :: "dep_env \<Rightarrow> manifests \<Rightarrow> dep_world \<Rightarrow> dep_listing list dep_outcome" where
  "handle_list_dependencies e ms w = list_dependencies e (dw_state w) (sort_key fst ms) w"

text \<open>\<open>eqv\<close> is the engine's comparison of the target column with the bound value.\<close>

definition handle_get_dep_audit :: "(string \<Rightarrow> pyval \<Rightarrow> bool) \<Rightarrow> pydict \<Rightarrow> dep_world \<Rightarrow> dep_audit_row list" where
  "handle_get_dep_audit eqv params w =
     (let t = dget params ''target'';
          rows = (if truthy t then filter (\<lambda>r. case da_target r of None \<Rightarrow> False | Some x \<Rightarrow> eqv x t) (dw_log w) else dw_log w)
      in take 200 (sort_key (\<lambda>r. - da_ts r) rows))"

section \<open>The verifying worker\<close>

definition verify_event :: "string \<Rightarrow> string \<Rightarrow> string \<Rightarrow> string \<Rightarrow> dep_manifest \<Rightarrow> probe_result \<Rightarrow> pydict" where
  "verify_event ts event_id host name m p =
     [(''schema_version'', PStr ''1.0.0''), (''ts'', PStr ts), (''event_id'', PStr event_id), (''kind'', PStr ''state''), (''category'', PList [PStr ''host'']),
      (''type'', PList [PStr (if pv_ok p then ''info'' else ''change'')]),
      (''action'', PStr (if pv_ok p then ''dep_verified'' else ''dep_misconfigured'')),
      (''severity'', PStr (if pv_ok p then ''info'' else if wc_profiles (mf_required_when m) \<noteq> [] then ''high'' else ''low'')),
      (''module'', PStr ''dependency_manager''), (''host'', PDict [(''hostname'', PStr host), (''os'', PDict [(''family'', PStr ''linux'')])]),
      (''labels'', PList [PStr (''dep:'' @ name)]), (''message'', PStr (name @ '': '' @ pv_detail p))]"

text \<open>\<open>ids\<close> yields the next event id.\<close>

fun verify_step :: "dep_env \<Rightarrow> (dep_world \<Rightarrow> string) \<Rightarrow> string \<Rightarrow> (string \<times> dep_manifest) list \<Rightarrow> dep_world \<Rightarrow> pydict list \<times> unit dep_outcome" where
  "verify_step e ids host [] w = ([], (Inr (), w))"
| "verify_step e ids host ((name, m) # ms) w =
     (case run_probe e (mf_verify m) w of
        (Inl x, w1) \<Rightarrow> ([], (Inl x, w1))
      | (Inr p, w1) \<Rightarrow>
          (let (evs, r) = verify_step e ids host ms w1 in (verify_event (de_iso e (de_clock e w1)) (ids w1) host name m p # evs, r)))"

definition dependency_manager_step :: "dep_env \<Rightarrow> (dep_world \<Rightarrow> string) \<Rightarrow> string \<Rightarrow> manifests \<Rightarrow> dep_world \<Rightarrow> pydict list \<times> unit dep_outcome" where
  "dependency_manager_step e ids host ms w = verify_step e ids host (sort_key fst ms) w"

end
