(* ===== verification/Dependency_Laws.thy ===== *)
theory Dependency_Laws
  imports Dependency_Apply "HOL-Library.Sublist"
begin

text \<open>
  What the dependency manager guarantees: the privileged helper is contained by the static manifests and honest about what it ran, a
  plan of the planner passes the helper and installs exactly the missing packages, a failed installation stops the applier, and
  the daemon's own backend cannot install at all.
\<close>

section \<open>The helper\<close>

definition declared_item :: "manifests \<Rightarrow> string \<Rightarrow> plan_item \<Rightarrow> bool" where
  "declared_item packaged distro item =
     (case map_of packaged (it_name item) of None \<Rightarrow> False | Some m \<Rightarrow> set (it_packages item) \<subseteq> set (packages_of m distro))"

definition approved :: "dep_env \<Rightarrow> manifests \<Rightarrow> string \<Rightarrow> dep_world \<Rightarrow> plan_item list \<Rightarrow> bool" where
  "approved e packaged plan_id w items =
     (case map_of (dw_plans w) plan_id of
        None \<Rightarrow> False
      | Some r \<Rightarrow> pn_status r = ''pending'' \<and> de_clock e w \<le> pn_expires_at r \<and> pn_manager r = ''pacman'' \<and> pn_distro r = ''arch''
                  \<and> pn_items r = Some items \<and> list_all (declared_item packaged ''arch'') items)"

definition helper_script :: "plan_item list \<Rightarrow> string list list" where
  "helper_script items = [''pacman'', ''-Sy''] # map install_argv (filter to_install items)"

lemma validate_None: "validate_against_manifest packaged distro items = None \<longleftrightarrow> list_all (declared_item packaged distro) items"
  by (induction items) (auto simp: declared_item_def find_None_iff split: option.splits dest!: find_Some_iff[THEN iffD1] dest: nth_mem)

definition audited_runs :: "(string list \<times> int) list \<Rightarrow> (string option \<times> int option) list" where
  "audited_runs rs = map (\<lambda>(argv, c). (Some (join_with '' '' argv), Some c)) rs"

definition log_entries :: "dep_audit_row list \<Rightarrow> (string option \<times> int option) list" where
  "log_entries rows = map (\<lambda>r. (da_command r, da_exit_code r)) rows"

lemma helper_audit_fields [simp]:
  "dw_runs (helper_audit e act p t c x err w) = dw_runs w" "dw_plans (helper_audit e act p t c x err w) = dw_plans w"
  "log_entries (dw_log (helper_audit e act p t c x err w)) = log_entries (dw_log w) @ [(c, x)]"
  by (simp_all add: helper_audit_def log_entries_def dep_row_def)

text \<open>How one stretch of helper work relates two worlds: commands in order up to the first failure, each in the trail.\<close>

definition worked :: "dep_world \<Rightarrow> dep_world \<Rightarrow> string list list \<Rightarrow> bool \<Rightarrow> bool" where
  "worked w w' script all_done = (\<exists>added. dw_runs w' = dw_runs w @ added \<and> prefix (map fst added) script \<and> dw_plans w' = dw_plans w
     \<and> log_entries (dw_log w') = log_entries (dw_log w) @ audited_runs added \<and> (\<forall>x\<in>set (butlast added). snd x = 0)
     \<and> (all_done \<longrightarrow> map fst added = script \<and> (\<forall>x\<in>set added. snd x = 0)))"

lemma worked_nothing: "worked w w script False" "worked w w [] True"
  by (auto simp: worked_def audited_runs_def)

lemma worked_step:
  assumes "dw_runs w1 = dw_runs w @ [(argv, 0)]" "dw_plans w1 = dw_plans w"
    "log_entries (dw_log w1) = log_entries (dw_log w) @ [(Some (join_with '' '' argv), Some 0)]" "worked w1 w' script all_done"
  shows "worked w w' (argv # script) all_done"
proof -
  obtain added where added: "dw_runs w' = dw_runs w1 @ added" "prefix (map fst added) script" "dw_plans w' = dw_plans w1"
    "log_entries (dw_log w') = log_entries (dw_log w1) @ audited_runs added" "\<forall>x\<in>set (butlast added). snd x = 0"
    "all_done \<longrightarrow> map fst added = script \<and> (\<forall>x\<in>set added. snd x = 0)"
    using assms(4) by (auto simp: worked_def)
  show ?thesis unfolding worked_def
    by (rule exI[of _ "(argv, 0) # added"]) (use assms added in \<open>auto simp: audited_runs_def\<close>)
qed

lemma worked_fail:
  assumes "dw_runs w' = dw_runs w @ [(argv, c)]" "dw_plans w' = dw_plans w"
    "log_entries (dw_log w') = log_entries (dw_log w) @ [(Some (join_with '' '' argv), Some c)]"
  shows "worked w w' (argv # script) False"
  unfolding worked_def by (rule exI[of _ "[(argv, c)]"]) (use assms in \<open>auto simp: audited_runs_def\<close>)

lemma install_loop_works:
  assumes "install_loop e plan_id items prev w = (res, w')"
  shows "worked w w' (map install_argv (filter to_install items)) (\<exists>x. res = Inr (Inr x))
    \<and> (\<forall>r. res = Inr (Inl r) \<longrightarrow> hr_exit_code r \<noteq> 0)"
  using assms
proof (induction items arbitrary: prev w)
  case Nil
  then show ?case by (auto simp: worked_nothing)
next
  case (Cons item items)
  show ?case
  proof (cases "to_install item")
    case False
    then show ?thesis using Cons.IH[of prev w] Cons.prems by auto
  next
    case True
    show ?thesis
    proof (cases "de_run e w (install_argv item)")
      case None
      then show ?thesis using True Cons.prems by (auto simp: run_command_def worked_nothing)
    next
      case (Some c)
      let ?w1 = "w\<lparr>dw_runs := dw_runs w @ [(install_argv item, cp_code c)]\<rparr>"
      let ?w2 = "helper_audit e (if cp_code c = 0 then ''install'' else ''install_failed'') plan_id (Some (it_name item))
                   (Some (join_with '' '' (install_argv item))) (Some (cp_code c)) (Some (cp_err c)) ?w1"
      have w2: "dw_runs ?w2 = dw_runs w @ [(install_argv item, cp_code c)]" "dw_plans ?w2 = dw_plans w"
        "log_entries (dw_log ?w2) = log_entries (dw_log w) @ [(Some (join_with '' '' (install_argv item)), Some (cp_code c))]" by simp_all
      show ?thesis
      proof (cases "cp_code c = 0")
        case True
        have "install_loop e plan_id items (cp_out c, cp_err c) ?w2 = (res, w')"
          using Cons.prems \<open>to_install item\<close> Some True by (simp add: run_command_def Let_def)
        from Cons.IH[OF this] show ?thesis using worked_step[OF w2[unfolded True]] \<open>to_install item\<close> True by simp
      next
        case False
        then show ?thesis using Cons.prems \<open>to_install item\<close> Some worked_fail[OF w2] by (auto simp: run_command_def Let_def)
      qed
    qed
  qed
qed

text \<open>What the helper checks before it runs anything.\<close>

lemma helper_refuses:
  assumes "\<not> (\<exists>items. approved e packaged plan_id w items)"
  shows "\<exists>x. run_helper e packaged plan_id w = (Inl x, w)"
proof (cases "map_of (dw_plans w) plan_id")
  case (Some r)
  then show ?thesis using assms validate_None[of packaged "''arch''"]
    by (cases "pn_items r"; cases "validate_against_manifest packaged ''arch'' (the (pn_items r))")
       (auto simp: run_helper_def load_plan_def approved_def)
qed (simp add: run_helper_def load_plan_def)

lemma helper_runs:
  assumes "approved e packaged plan_id w items"
  shows "run_helper e packaged plan_id w =
     andthen (run_command e [''pacman'', ''-Sy''] w) (\<lambda>c w1.
       let w2 = helper_audit e ''metadata_refresh'' plan_id None (Some ''pacman -Sy'') (Some (cp_code c)) (Some (cp_err c)) w1
       in if cp_code c \<noteq> 0 then (Inr \<lparr>hr_exit_code = cp_code c, hr_stdout = cp_out c, hr_stderr = cp_err c\<rparr>, w2)
          else andthen (install_loop e plan_id items ('''', '''') w2) (\<lambda>res w3.
            case res of
              Inl r \<Rightarrow> (Inr r, w3)
            | Inr (out, err) \<Rightarrow>
                (Inr \<lparr>hr_exit_code = 0, hr_stdout = out, hr_stderr = err\<rparr>,
                 helper_audit e ''plan_applied'' plan_id None None (Some 0) None (mark_applied plan_id w3))))"
  using assms validate_None[of packaged "''arch''" items] by (auto simp: approved_def run_helper_def load_plan_def split: option.splits)

lemma mark_applied_fields [simp]:
  "dw_runs (mark_applied p w) = dw_runs w" "dw_log (mark_applied p w) = dw_log w"
  "dw_plans (mark_applied p w) = update_where (\<lambda>k _. k = p) (\<lambda>r. r\<lparr>pn_status := ''applied''\<rparr>) (dw_plans w)"
  by (simp_all add: mark_applied_def)

lemma applied_is_final:
  assumes "dw_plans w' = dw_plans (mark_applied plan_id w)"
  shows "\<not> approved e packaged plan_id w' items"
proof -
  have "map_of (update_where (\<lambda>k _. k = plan_id) (\<lambda>r. r\<lparr>pn_status := ''applied''\<rparr>) t) plan_id
      = map_option (\<lambda>r. r\<lparr>pn_status := ''applied''\<rparr>) (map_of t plan_id)" for t :: "(string, plan_row) table"
    by (induction t) (auto simp: update_where_def)
  then show ?thesis using assms by (auto simp: approved_def split: option.splits)
qed

lemma approved_helper:
  assumes approved: "approved e packaged plan_id w items" and run: "run_helper e packaged plan_id w = (res, w')"
  shows "\<exists>added. dw_runs w' = dw_runs w @ added \<and> prefix (map fst added) (helper_script items) \<and> (\<forall>x\<in>set (butlast added). snd x = 0)
    \<and> (if \<exists>r. res = Inr r \<and> hr_exit_code r = 0
       then map fst added = helper_script items \<and> (\<forall>x\<in>set added. snd x = 0) \<and> dw_plans w' = dw_plans (mark_applied plan_id w)
            \<and> log_entries (dw_log w') = log_entries (dw_log w) @ audited_runs added @ [(None, Some 0)]
       else dw_plans w' = dw_plans w \<and> log_entries (dw_log w') = log_entries (dw_log w) @ audited_runs added)"
    (is "\<exists>added. ?P added")
proof (cases "de_run e w [''pacman'', ''-Sy'']")
  case None
  then show ?thesis using run helper_runs[OF approved] by (auto simp: run_command_def audited_runs_def)
next
  case (Some c)
  let ?argv = "[''pacman'', ''-Sy'']"
  let ?w2 = "helper_audit e ''metadata_refresh'' plan_id None (Some ''pacman -Sy'') (Some (cp_code c)) (Some (cp_err c))
               (w\<lparr>dw_runs := dw_runs w @ [(?argv, cp_code c)]\<rparr>)"
  have w2: "dw_runs ?w2 = dw_runs w @ [(?argv, cp_code c)]" "dw_plans ?w2 = dw_plans w"
    "log_entries (dw_log ?w2) = log_entries (dw_log w) @ [(Some (join_with '' '' ?argv), Some (cp_code c))]" by simp_all
  show ?thesis
  proof (cases "cp_code c = 0")
    case False
    have "res = Inr \<lparr>hr_exit_code = cp_code c, hr_stdout = cp_out c, hr_stderr = cp_err c\<rparr>" "w' = ?w2"
      using run helper_runs[OF approved] Some False by (auto simp: run_command_def Let_def)
    with False w2 show ?thesis by (intro exI[of _ "[(?argv, cp_code c)]"]) (auto simp: audited_runs_def helper_script_def)
  next
    case True
    obtain lr w3 where loop: "install_loop e plan_id items ('''', '''') ?w2 = (lr, w3)" by (cases "install_loop e plan_id items ('''', '''') ?w2")
    have "worked w w3 (helper_script items) (\<exists>x. lr = Inr (Inr x))"
      using worked_step[OF w2[unfolded True]] install_loop_works[OF loop[unfolded True]] unfolding helper_script_def by blast
    then obtain added where added: "dw_runs w3 = dw_runs w @ added" "prefix (map fst added) (helper_script items)" "dw_plans w3 = dw_plans w"
      "log_entries (dw_log w3) = log_entries (dw_log w) @ audited_runs added" "\<forall>x\<in>set (butlast added). snd x = 0"
      "(\<exists>x. lr = Inr (Inr x)) \<longrightarrow> map fst added = helper_script items \<and> (\<forall>x\<in>set added. snd x = 0)"
      unfolding worked_def by blast
    have res: "(res, w') = (case lr of Inl x \<Rightarrow> (Inl x, w3) | Inr (Inl r) \<Rightarrow> (Inr r, w3)
        | Inr (Inr (out, err)) \<Rightarrow> (Inr \<lparr>hr_exit_code = 0, hr_stdout = out, hr_stderr = err\<rparr>,
            helper_audit e ''plan_applied'' plan_id None None (Some 0) None (mark_applied plan_id w3)))"
      using run helper_runs[OF approved] Some True loop by (auto simp: run_command_def Let_def split: sum.splits)
    have "?P added" using res added install_loop_works[OF loop]
      by (cases lr rule: sum.exhaust; (cases "projr lr" rule: sum.exhaust)?) (auto split: sum.splits)
    then show ?thesis by blast
  qed
qed

text \<open>C16: The privileged helper runs nothing and changes nothing unless the plan is a pending, unexpired pacman plan for Arch whose every item is a
  dependency of the static manifests with packages declared there for Arch, however the plan got into the table. For such a plan it runs
  the metadata refresh and the installations in order, stops at the first that fails, leaves one trail row with the exit code for
  each, and marks the plan applied exactly when all of them succeeded; an applied plan is refused from then on.\<close>

theorem helper_is_contained:
  assumes "run_helper e packaged plan_id w = (res, w')"
  shows "if \<exists>items. approved e packaged plan_id w items
    then \<exists>items added. approved e packaged plan_id w items \<and> dw_runs w' = dw_runs w @ added
      \<and> prefix (map fst added) (helper_script items) \<and> (\<forall>x\<in>set (butlast added). snd x = 0)
      \<and> (if \<exists>r. res = Inr r \<and> hr_exit_code r = 0
         then map fst added = helper_script items \<and> (\<forall>x\<in>set added. snd x = 0) \<and> dw_plans w' = dw_plans (mark_applied plan_id w)
              \<and> log_entries (dw_log w') = log_entries (dw_log w) @ audited_runs added @ [(None, Some 0)]
              \<and> (\<forall>e' packaged' items'. \<not> approved e' packaged' plan_id w' items')
         else dw_plans w' = dw_plans w \<and> log_entries (dw_log w') = log_entries (dw_log w) @ audited_runs added)
    else (\<exists>x. res = Inl x) \<and> w' = w"
proof (cases "\<exists>items. approved e packaged plan_id w items")
  case True
  then obtain items where items: "approved e packaged plan_id w items" by blast
  obtain added where added: "dw_runs w' = dw_runs w @ added \<and> prefix (map fst added) (helper_script items) \<and> (\<forall>x\<in>set (butlast added). snd x = 0)
    \<and> (if \<exists>r. res = Inr r \<and> hr_exit_code r = 0
       then map fst added = helper_script items \<and> (\<forall>x\<in>set added. snd x = 0) \<and> dw_plans w' = dw_plans (mark_applied plan_id w)
            \<and> log_entries (dw_log w') = log_entries (dw_log w) @ audited_runs added @ [(None, Some 0)]
       else dw_plans w' = dw_plans w \<and> log_entries (dw_log w') = log_entries (dw_log w) @ audited_runs added)"
    using approved_helper[OF items assms] by blast
  have final: "\<forall>e' packaged' items'. \<not> approved e' packaged' plan_id w' items'" if "\<exists>r. res = Inr r \<and> hr_exit_code r = 0"
    using added that applied_is_final by metis
  show ?thesis unfolding if_P[OF True] by (intro exI[of _ items] exI[of _ added]) (use items added final in argo)
next
  case False
  then show ?thesis using helper_refuses[OF False] assms by auto
qed

lemma install_loop_errors: "install_loop e plan_id items prev w = (Inl x, w') \<Longrightarrow> x = Child_failed"
  by (induction items arbitrary: prev w) (auto simp: run_command_def Let_def split: if_splits option.splits)

lemma helper_never_refuses:
  assumes "approved e packaged plan_id w items"
  shows "fst (run_helper e packaged plan_id w) \<noteq> Inl (Helper_error t)"
  using helper_runs[OF assms]
  by (auto dest: install_loop_errors simp: run_command_def Let_def andthen_def split: option.splits sum.splits prod.splits)

section \<open>From the plan to the packages\<close>

text \<open>The items a plan should have, from what is installed.\<close>

definition planned :: "(string \<Rightarrow> bool) \<Rightarrow> string \<Rightarrow> string \<Rightarrow> string list \<Rightarrow> string \<times> dep_manifest \<Rightarrow> plan_item list" where
  "planned inst distro profile flags = (\<lambda>(name, m).
     let packages = packages_of m distro
     in if \<not> is_required m profile flags then []
        else case mf_manual m of
          Some k \<Rightarrow> if packages \<noteq> [] \<and> list_all inst packages then [] else [manual_item name k]
        | None \<Rightarrow> if list_all inst packages then [] else [install_item name m (filter (Not \<circ> inst) packages)])"

text \<open>The package database answers for \<open>inst\<close>, whenever it is asked.\<close>

definition database_says :: "(string \<Rightarrow> bool) \<Rightarrow> dep_env \<Rightarrow> bool" where
  "database_says inst e = (\<forall>w pkg. case de_run e w [''pacman'', ''-Qi'', pkg] of None \<Rightarrow> False | Some c \<Rightarrow> (cp_code c = 0) = inst pkg)"

lemma is_installed_exact:
  assumes "database_says inst e"
  shows "\<exists>w'. is_installed e pkg w = (Inr (inst pkg), w') \<and> dw_plans w' = dw_plans w"
  using assms by (auto simp: database_says_def is_installed_def run_command_def split: option.splits)

lemma all_installed_exact:
  assumes "database_says inst e"
  shows "\<exists>w'. all_installed e ps w = (Inr (list_all inst ps), w') \<and> dw_plans w' = dw_plans w"
proof (induction ps arbitrary: w)
  case (Cons p ps)
  obtain w1 where w1: "is_installed e p w = (Inr (inst p), w1)" "dw_plans w1 = dw_plans w" using is_installed_exact[OF assms] by blast
  then show ?case using Cons.IH[of w1] by auto
qed simp

lemma missing_packages_exact:
  assumes "database_says inst e"
  shows "\<exists>w'. missing_packages e ps w = (Inr (filter (Not \<circ> inst) ps), w') \<and> dw_plans w' = dw_plans w"
proof (induction ps arbitrary: w)
  case (Cons p ps)
  obtain w1 where w1: "is_installed e p w = (Inr (inst p), w1)" "dw_plans w1 = dw_plans w" using is_installed_exact[OF assms] by blast
  then show ?case using Cons.IH[of w1] by auto
qed simp

lemma plan_dependency_exact:
  assumes "database_says inst e"
  shows "\<exists>w'. plan_dependency e distro profile flags name m w = (Inr (planned inst distro profile flags (name, m)), w') \<and> dw_plans w' = dw_plans w"
proof -
  obtain w1 w2 where "all_installed e (packages_of m distro) w = (Inr (list_all inst (packages_of m distro)), w1)" "dw_plans w1 = dw_plans w"
    "missing_packages e (packages_of m distro) w = (Inr (filter (Not \<circ> inst) (packages_of m distro)), w2)" "dw_plans w2 = dw_plans w"
    using all_installed_exact[OF assms] missing_packages_exact[OF assms] by metis
  then show ?thesis
    by (auto simp: plan_dependency_def planned_def Let_def filter_empty_conv list_all_iff split: option.splits)
qed

lemma plan_items_exact:
  assumes "database_says inst e"
  shows "\<exists>w'. plan_items e distro profile flags ms w = (Inr (concat (map (planned inst distro profile flags) ms)), w') \<and> dw_plans w' = dw_plans w"
proof (induction ms arbitrary: w)
  case (Cons nm ms)
  obtain name m where nm: "nm = (name, m)" by (cases nm)
  obtain w1 where w1: "plan_dependency e distro profile flags name m w = (Inr (planned inst distro profile flags (name, m)), w1)" "dw_plans w1 = dw_plans w"
    using plan_dependency_exact[OF assms] by blast
  then show ?case using Cons.IH[of w1] nm by auto
qed simp

lemma planned_declared:
  assumes "wf_table ms" "(name, m) \<in> set ms" "item \<in> set (planned inst ''arch'' profile flags (name, m))"
  shows "declared_item ms ''arch'' item"
proof -
  have m: "map_of ms name = Some m" using assms(1,2) by simp
  have "it_name item = name \<and> set (it_packages item) \<subseteq> set (packages_of m ''arch'')"
    using assms(3) by (auto simp: planned_def Let_def manual_item_def install_item_def split: if_splits option.splits)
  with m show ?thesis by (simp add: declared_item_def)
qed

definition wanted :: "(string \<Rightarrow> bool) \<Rightarrow> string \<Rightarrow> string list \<Rightarrow> string \<times> dep_manifest \<Rightarrow> bool" where
  "wanted inst profile flags = (\<lambda>(name, m). is_required m profile flags \<and> mf_manual m = None \<and> \<not> list_all inst (packages_of m ''arch''))"

definition install_missing :: "(string \<Rightarrow> bool) \<Rightarrow> string \<times> dep_manifest \<Rightarrow> string list" where
  "install_missing inst = (\<lambda>(name, m). [''pacman'', ''-S'', ''--noconfirm'', ''--needed''] @ filter (Not \<circ> inst) (packages_of m ''arch''))"

lemma planned_commands:
  "map install_argv (filter to_install (concat (map (planned inst ''arch'' profile flags) ms))) = map (install_missing inst) (filter (wanted inst profile flags) ms)"
proof (induction ms)
  case (Cons nm ms)
  have "map install_argv (filter to_install (planned inst ''arch'' profile flags nm)) = (if wanted inst profile flags nm then [install_missing inst nm] else [])"
  proof (cases nm)
    case (Pair name m)
    have "\<not> list_all inst ps \<Longrightarrow> filter (Not \<circ> inst) ps \<noteq> []" for ps by (auto simp: filter_empty_conv list_all_iff)
    then show ?thesis unfolding Pair
      by (cases "mf_manual m"; cases "is_required m profile flags"; cases "list_all inst (packages_of m ''arch'')")
         (simp_all add: planned_def wanted_def install_missing_def to_install_def install_argv_def Let_def manual_item_def install_item_def)
  qed
  then show ?case using Cons.IH by auto
qed simp


section \<open>Concrete runs\<close>

definition sample_dependency :: "string \<Rightarrow> string list \<Rightarrow> manual_spec option \<Rightarrow> dep_manifest" where
  "sample_dependency name pkgs manual =
     \<lparr>mf_version = ''1.0.0'', mf_name = name, mf_description = name, mf_required_when = \<lparr>wc_profiles = [''standard''], wc_flags = []\<rparr>,
      mf_optional_when = \<lparr>wc_profiles = [], wc_flags = []\<rparr>, mf_packages = [(''arch'', pkgs)], mf_manual = manual, mf_minimum_version = None,
      mf_service = None, mf_config = None, mf_permissions = None,
      mf_verify = \<lparr>vs_binary_paths = [], vs_version_cmd = None, vs_version_regex = None,
        vs_probe = \<lparr>hp_kind = File_exists, hp_path = None, hp_grow_window_s = 60, hp_command = None, hp_pattern = None, hp_window_s = 60, hp_unit = None\<rparr>\<rparr>,
      mf_hooks = [], mf_rollback = \<lparr>rk_remove_dropin = False, rk_reload_service = False, rk_remove_group = False\<rparr>\<rparr>"

text \<open>A host with the package \<^verbatim>\<open>yara\<close> only, on which every other command succeeds.\<close>

definition sample_host :: dep_env where
  "sample_host =
     \<lparr>de_run = (\<lambda>w argv. Some \<lparr>cp_code = (case argv of [a, b, p] \<Rightarrow> if b = ''-Qi'' \<and> p \<noteq> ''yara'' then 1 else 0 | _ \<Rightarrow> 0), cp_out = '''', cp_err = '''', cp_utf8 = True\<rparr>),
      de_clock = (\<lambda>_. 0), de_locked = (\<lambda>_. False), de_exists = (\<lambda>_ _. False), de_executable = (\<lambda>_ _. False), de_mtime = (\<lambda>_ _. 0), de_time = (\<lambda>_. 0),
      de_render = (\<lambda>_ _. None), de_writable = (\<lambda>_ _. False), de_chown = (\<lambda>_ _ _. Chown_refused), de_ftext = (\<lambda>_. ''''), de_fround = (\<lambda>_. ''''),
      de_iso = (\<lambda>_. ''''), de_os_release = (\<lambda>_. None)\<rparr>"

definition sample_manifests :: manifests where
  "sample_manifests =
     [(''auditd'', sample_dependency ''auditd'' [''audit''] None), (''yara'', sample_dependency ''yara'' [''yara''] None),
      (''aide'', sample_dependency ''aide'' [''aide''] (Some \<lparr>ms_reason = ''AUR'', ms_instructions = ''paru''\<rparr>))]"

definition empty_world :: dep_world where
  "empty_world = \<lparr>dw_plans = [], dw_state = [], dw_log = [], dw_audit = audit_init, dw_runs = [], dw_files = [], dw_mtimes = []\<rparr>"

definition sample_item :: "string \<Rightarrow> string \<Rightarrow> string list \<Rightarrow> string list \<Rightarrow> plan_item" where
  "sample_item name action pkgs services =
     \<lparr>it_name = name, it_action = action, it_packages = pkgs, it_command = None, it_dropin = None, it_services = services, it_permissions = [],
      it_hooks = [], it_manual_reason = None, it_manual_instructions = None\<rparr>"

definition sample_plan :: "plan_item list \<Rightarrow> datetime \<Rightarrow> string \<Rightarrow> dep_world" where
  "sample_plan items expires status =
     empty_world\<lparr>dw_plans := [(''p'', \<lparr>pn_created_at = 0, pn_created_by = ''ipc'', pn_distro = ''arch'', pn_manager = ''pacman'', pn_items = Some items,
       pn_disk_mb = 0, pn_expires_at = expires, pn_status = status\<rparr>)]\<rparr>"

lemmas dep_eval = sample_dependency_def sample_host_def sample_manifests_def empty_world_def sample_item_def sample_plan_def run_command_def

theorem helper_is_contained_witness:
  "\<exists>res w'. run_helper sample_host sample_manifests ''p'' (sample_plan [sample_item ''auditd'' ''install'' [''audit'']  []] 1 ''pending'') = (res, w')
     \<and> (\<exists>items added. approved sample_host sample_manifests ''p'' (sample_plan [sample_item ''auditd'' ''install'' [''audit'']  []] 1 ''pending'') items
        \<and> dw_runs w' = added \<and> prefix (map fst added) (helper_script items))"
proof -
  let ?w = "sample_plan [sample_item ''auditd'' ''install'' [''audit'']  []] 1 ''pending''"
  obtain res w' where run: "run_helper sample_host sample_manifests ''p'' ?w = (res, w')" by fastforce
  have "approved sample_host sample_manifests ''p'' ?w [sample_item ''auditd'' ''install'' [''audit'']  []]" and [simp]: "dw_runs ?w = []"
    by (simp_all add: approved_def declared_item_def packages_of_def dep_eval)
  then show ?thesis using helper_is_contained[OF run] run by (auto split: if_splits)
qed

lemma sample_answers: "database_says (\<lambda>p. p = ''yara'') sample_host"
  by (simp add: database_says_def sample_host_def)

lemma sample_build:
  "\<exists>plan w1 w2. build_plan sample_host sample_manifests ''arch'' ''standard'' [] ''ipc'' ''p'' empty_world = (Inr plan, w1)
     \<and> persist_plan sample_host plan w1 = (Inr (), w2) \<and> de_clock sample_host w2 \<le> de_clock sample_host w1 + PLAN_TTL"
proof -
  obtain w1 where w1: "plan_items sample_host ''arch'' ''standard'' [] (sort_key fst sample_manifests) empty_world
      = (Inr (concat (map (planned (\<lambda>p. p = ''yara'') ''arch'' ''standard'' []) (sort_key fst sample_manifests))), w1)" "dw_plans w1 = []"
    using plan_items_exact[OF sample_answers, of "''arch''" "''standard''" "[]" "sort_key fst sample_manifests" empty_world] by (auto simp: empty_world_def)
  then show ?thesis by (auto simp: build_plan_def persist_plan_def Let_def sample_host_def PLAN_TTL_def seconds_def)
qed


section \<open>The applier\<close>

text \<open>The daemon builds its backend without a helper command, so over IPC no plan with an installation can be applied: the request ends in
  an exception and nothing is run, written or audited.\<close>

lemma daemon_cannot_install:
  assumes "map_of (dw_plans w) plan_id = Some r" "pn_items r = Some items" "\<exists>i\<in>set items. to_install i"
  shows "\<exists>x. apply_plan sha call e packaged (new_backend None False) a plan_id w = (Inl x, w)"
proof -
  have "filter to_install (filter (\<lambda>i. it_action i \<noteq> ''manual'') items) \<noteq> []" using assms(3) by (auto simp: filter_empty_conv to_install_def)
  then show ?thesis using assms(1,2)
    by (simp add: apply_plan_def load_items_def backend_install_def new_backend_def Let_def)
qed

text \<open>The helper touches no drop-in, no recorded state and not the audit log.\<close>

lemma run_helper_keeps:
  assumes "run_helper e packaged plan_id w = (res, w')"
  shows "dw_files w' = dw_files w \<and> dw_state w' = dw_state w \<and> dw_audit w' = dw_audit w"
proof -
  have "install_loop e plan_id items prev w = (r, w') \<Longrightarrow> dw_files w' = dw_files w \<and> dw_state w' = dw_state w \<and> dw_audit w' = dw_audit w"
    for items prev w r w'
    by (induction items arbitrary: prev w) (auto simp: run_command_def helper_audit_def Let_def split: if_splits option.splits)
  then show ?thesis using assms
    by (auto simp: run_helper_def run_command_def helper_audit_def mark_applied_def Let_def andthen_def
        split: sum.splits prod.splits if_splits option.splits)
qed

lemma backend_install_keeps:
  assumes "backend_install e packaged b dry plan_id pkgs w = (res, w')"
  shows "dw_files w' = dw_files w \<and> dw_state w' = dw_state w \<and> dw_audit w' = dw_audit w"
  using assms run_helper_keeps
  by (auto simp: backend_install_def invoke_helper_def run_command_def Let_def split: if_splits option.splits prod.splits sum.splits dep_error.splits)

text \<open>A failed installation ends the application: no drop-in, no recorded state, no summary in the audit log.\<close>

lemma failed_install_stops:
  assumes "load_items plan_id w = (Inr items, w)" "filter to_install (filter (\<lambda>i. it_action i \<noteq> ''manual'') items) = is" "is \<noteq> []"
    and "backend_install e packaged b False (Some plan_id) (concat (map it_packages is)) w = (Inr r, w1)" "install_failed r"
    and "apply_plan sha call e packaged b a plan_id w = (res, w')"
  shows "res = Inr \<lparr>ap_ok = False, ap_failed = Some ''install'', ap_notes = [ir_stderr r]\<rparr>
    \<and> dw_files w' = dw_files w \<and> dw_state w' = dw_state w \<and> dw_audit w' = dw_audit w"
  using assms backend_install_keeps[OF assms(4)] by (auto simp: apply_plan_def log_dep_action_def Let_def)

text \<open>Expiry and status are looked at by the helper only: a plan without installations is applied, its service commands included, however
  old it is and however often it was applied.\<close>

lemma stale_configuration_is_applied:
  "dw_runs (snd (apply_plan sha call sample_host sample_manifests (new_backend None False) \<lparr>aa_manifests = [], aa_dirs = [], aa_chown = True\<rparr> ''p''
     (sample_plan [sample_item ''x'' ''configure'' [] [''systemctl enable --now x'']] (- 1) ''applied'')))
   = [([''systemctl'', ''enable'', ''--now'', ''x''], 0)]"
  by (simp add: apply_plan_def load_items_def configure_items_def to_install_def declared_dropin_def dep_audit_note_def Let_def dep_eval
      split_words_def py_space_def log_dep_action_def dep_row_def)

text \<open>The helper does not look at the manual flag: a row of the table that asks for the installation of such a dependency is obeyed.\<close>

lemma manual_dependency_is_installed:
  "(([''pacman'', ''-S'', ''--noconfirm'', ''--needed'', ''aide''], 0) \<in> set (dw_runs (snd (run_helper sample_host sample_manifests ''p''
     (sample_plan [sample_item ''aide'' ''install'' [''aide''] []] 1 ''pending'')))))"
  by (simp add: run_helper_def load_plan_def to_install_def install_argv_def packages_of_def helper_audit_def mark_applied_def Let_def dep_eval)

end
