(* ===== verification/Config_Backup.thy ===== *)
theory Config_Backup
  imports Storage Pytext
begin

text \<open>
  Editing a configuration file with a backup, \<^verbatim>\<open>dependencies/backup.py\<close>. The world is the text files by path and the table of backups.
  \<open>expand\<close> is the expansion of a replacement template by \<^verbatim>\<open>re.sub\<close>, in which a backslash begins an escape; \<open>None\<close> is its \<^verbatim>\<open>re.error\<close>.
\<close>

section \<open>The managed block\<close>

definition BEGIN_MARKER :: string where "BEGIN_MARKER = ''# >>> inspectord BEGIN''"
definition END_MARKER :: string where "END_MARKER = ''# <<< inspectord END''"
definition lf :: string where "lf = [CHR 0x0A]"

text \<open>A text split around the first occurrence of another.\<close>

fun split_first :: "string \<Rightarrow> string \<Rightarrow> (string \<times> string) option" where
  "split_first pat [] = (if pat = [] then Some ([], []) else None)"
| "split_first pat (c # s) =
     (if startswith (c # s) pat then Some ([], drop (length pat) (c # s)) else map_option (\<lambda>(a, b). (c # a, b)) (split_first pat s))"

text \<open>The leftmost match of \<^verbatim>\<open>_BLOCK_RE\<close>: what precedes and what follows it.\<close>

definition block_match :: "string \<Rightarrow> (string \<times> string) option" where
  "block_match s =
     (case split_first BEGIN_MARKER s of
        None \<Rightarrow> None
      | Some (before, r) \<Rightarrow> (case split_first END_MARKER r of None \<Rightarrow> None | Some (_, after) \<Rightarrow> Some (before, removeprefix after lf)))"

lemma startswith_split: "startswith s p \<Longrightarrow> s = p @ drop (length p) s"
  by (induction s p rule: startswith.induct) auto

lemma split_first_text: "split_first pat s = Some (a, b) \<Longrightarrow> s = a @ pat @ b"
  by (induction s arbitrary: a) (auto split: if_splits dest: startswith_split)

lemma block_match_shorter: "block_match s = Some (a, b) \<Longrightarrow> length b < length s"
  by (auto simp: block_match_def removeprefix_def BEGIN_MARKER_def split: option.splits if_splits dest!: split_first_text)

function sub_blocks :: "string \<Rightarrow> string \<Rightarrow> string" where
  "sub_blocks block s = (case block_match s of None \<Rightarrow> s | Some (before, after) \<Rightarrow> before @ block @ sub_blocks block after)"
  by pat_completeness auto
termination by (relation "measure (length \<circ> snd)") (auto simp: block_match_shorter)

declare sub_blocks.simps [simp del]

section \<open>Backups\<close>

record backup_row =
  bu_dep_name :: string
  bu_original_path :: string
  bu_backup_path :: string
  bu_sha :: string
  bu_created_at :: datetime

record backup_world =
  bw_files :: "(string, string) table"
  bw_backups :: "(string, backup_row) table"

text \<open>One call: the digest function, the directory for backups, the new id, and the clock as the text of its seconds and as the instant
  the database stamps.\<close>

record backup_call =
  bc_sha :: "string \<Rightarrow> string"
  bc_root :: "string option"
  bc_id :: string
  bc_stamp :: string
  bc_now :: datetime

definition default_backup_root :: "string \<Rightarrow> string" where
  "default_backup_root dep_name = path_join ''/var/lib/inspectord/dep_config_backups'' dep_name"

definition backup_path_of :: "backup_call \<Rightarrow> string \<Rightarrow> string \<Rightarrow> string" where
  "backup_path_of c dep_name target =
     (let root = (case bc_root c of None \<Rightarrow> default_backup_root dep_name | Some r \<Rightarrow> r);
          safe = dropWhile (\<lambda>x. x = CHR ''_'') (map (\<lambda>x. if x = CHR ''/'' then CHR ''_'' else x) target)
      in path_join root (safe @ ''.'' @ bc_stamp c @ ''.bak''))"

text \<open>\<open>None\<close> is an exception: here a second row with the same id.\<close>

definition record_backup :: "backup_call \<Rightarrow> string \<Rightarrow> string \<Rightarrow> string \<Rightarrow> backup_world \<Rightarrow> backup_world option" where
  "record_backup c dep_name target original w =
     (let path = backup_path_of c dep_name target;
          row = \<lparr>bu_dep_name = dep_name, bu_original_path = target, bu_backup_path = path, bu_sha = bc_sha c original, bu_created_at = bc_now c\<rparr>
      in if map_of (bw_backups w) (bc_id c) \<noteq> None then None
         else Some \<lparr>bw_files = AList.update path original (bw_files w), bw_backups = bw_backups w @ [(bc_id c, row)]\<rparr>)"

definition managed_text :: "(string \<Rightarrow> string option) \<Rightarrow> string \<Rightarrow> string \<Rightarrow> string option" where
  "managed_text expand managed_block t =
     (let block = BEGIN_MARKER @ lf @ managed_block @ END_MARKER @ lf
      in case block_match t of
           None \<Rightarrow> Some (t @ (if endswith t lf then '''' else lf) @ block)
         | Some _ \<Rightarrow> map_option (\<lambda>b. sub_blocks b t) (expand block))"

definition apply_edit_with_backup ::
  "(string \<Rightarrow> string option) \<Rightarrow> backup_call \<Rightarrow> string \<Rightarrow> string \<Rightarrow> string \<Rightarrow> backup_world \<Rightarrow> backup_world option" where
  "apply_edit_with_backup expand c dep_name target managed_block w =
     (case map_of (bw_files w) target of
        None \<Rightarrow> None
      | Some t \<Rightarrow>
          (case record_backup c dep_name target t w of
             None \<Rightarrow> None
           | Some w1 \<Rightarrow> (case managed_text expand managed_block t of
                           None \<Rightarrow> None
                         | Some t' \<Rightarrow> Some (w1\<lparr>bw_files := AList.update target t' (bw_files w1)\<rparr>))))"

definition list_backups :: "string \<Rightarrow> backup_world \<Rightarrow> (string \<times> backup_row) list" where
  "list_backups dep_name w = sort_key (\<lambda>(_, r). - bu_created_at r) (filter (\<lambda>(_, r). bu_dep_name r = dep_name) (bw_backups w))"

definition restore_backup :: "string \<Rightarrow> backup_world \<Rightarrow> backup_world option" where
  "restore_backup backup_id w =
     (case map_of (bw_backups w) backup_id of
        None \<Rightarrow> None
      | Some r \<Rightarrow>
          (case map_of (bw_files w) (bu_backup_path r) of
             None \<Rightarrow> None
           | Some t \<Rightarrow> Some (w\<lparr>bw_files := AList.update (bu_original_path r) t (bw_files w)\<rparr>)))"

section \<open>Lemmas\<close>

text \<open>Restoring the backup of an edit gives the file its old text, whatever the block was.\<close>

lemma edit_then_restore:
  assumes "map_of (bw_files w) target = Some t" "backup_path_of c dep target \<noteq> target"
    and "apply_edit_with_backup expand c dep target blk w = Some w1"
  shows "\<exists>w2. restore_backup (bc_id c) w1 = Some w2 \<and> map_of (bw_files w2) target = Some t"
proof -
  obtain t' where fresh: "map_of (bw_backups w) (bc_id c) = None" and "managed_text expand blk t = Some t'"
    using assms(1,3) by (auto simp: apply_edit_with_backup_def record_backup_def Let_def split: option.splits if_splits)
  with assms(1,3) have "w1 = \<lparr>bw_files = AList.update target t' (AList.update (backup_path_of c dep target) t (bw_files w)),
      bw_backups = bw_backups w @ [(bc_id c, \<lparr>bu_dep_name = dep, bu_original_path = target, bu_backup_path = backup_path_of c dep target,
         bu_sha = bc_sha c t, bu_created_at = bc_now c\<rparr>)]\<rparr>"
    by (simp add: apply_edit_with_backup_def record_backup_def Let_def)
  with fresh assms(2) show ?thesis by (simp add: restore_backup_def update_conv' map_of_append map_add_def)
qed

text \<open>The name of a backup has the second in it and nothing else that changes. Two edits within one second write the same backup file, and
  what the first backup then restores is the edited text.\<close>

definition sample_edit :: "string \<Rightarrow> backup_call" where
  "sample_edit i = \<lparr>bc_sha = id, bc_root = Some ''/b'', bc_id = i, bc_stamp = ''20260101T000000Z'', bc_now = 0\<rparr>"

definition twice_edited :: "backup_world option" where
  "twice_edited =
     Option.bind (apply_edit_with_backup Some (sample_edit ''1'') ''d'' ''/etc/c'' ''x'' \<lparr>bw_files = [(''/etc/c'', ''old'')], bw_backups = []\<rparr>)
       (apply_edit_with_backup Some (sample_edit ''2'') ''d'' ''/etc/c'' ''y'')"

lemma quick_second_edit_loses_the_original:
  "case Option.bind twice_edited (restore_backup ''1'') of None \<Rightarrow> False | Some w \<Rightarrow> ''old'' \<notin> snd ` set (bw_files w)"
  by code_simp

end
