(* ===== verification/Snapshots.thy ===== *)
theory Snapshots
  imports Enrichment Json Storage Pytext "HOL-Library.Multiset"
begin

text \<open>
  The collectors that compare successive snapshots of the host: loaded kernel modules (\<^verbatim>\<open>workers/kmod_watcher\<close>), systemd services
  (\<^verbatim>\<open>workers/services_monitor\<close>) and listening sockets (\<^verbatim>\<open>workers/listening_socket_snapshotter\<close>), each with its parser, its comparison, its
  polling source and the event it writes for a change. The contract they share, that the records of a comparison are exactly the
  changes, is the locale \<open>change_feed\<close>.
\<close>

section \<open>Change feeds\<close>

text \<open>Replaying records on a view of the world: each sets one key.\<close>

definition replay :: "('c \<Rightarrow> 'k) \<Rightarrow> ('c \<Rightarrow> 'w option) \<Rightarrow> 'c list \<Rightarrow> ('k \<Rightarrow> 'w option) \<Rightarrow> 'k \<Rightarrow> 'w option" where
  "replay key effect cs m = fold (\<lambda>c m. m(key c := effect c)) cs m"

definition view_of :: "('v \<Rightarrow> 'w) \<Rightarrow> ('k, 'v) table \<Rightarrow> 'k \<Rightarrow> 'w option" where
  "view_of view t k = map_option view (map_of t k)"

lemma replay_append: "replay key effect (cs @ ds) m = replay key effect ds (replay key effect cs m)"
  by (simp add: replay_def)

lemma replay_Nil [simp]: "replay key effect [] m = m"
  by (simp add: replay_def)

lemma replay_other: "k \<notin> key ` set cs \<Longrightarrow> replay key effect cs m k = m k"
  unfolding replay_def by (induction cs arbitrary: m) auto

lemma replay_hit:
  assumes "distinct (map key cs)" "c \<in> set cs"
  shows "replay key effect cs m (key c) = effect c"
  using assms
proof (induction cs arbitrary: m)
  case (Cons d cs)
  show ?case
  proof (cases "c = d")
    case True
    then show ?thesis using Cons.prems replay_other[of "key d" key cs effect "m(key d := effect d)"] by (simp add: replay_def)
  next
    case False
    then show ?thesis using Cons by (simp add: replay_def)
  qed
qed simp

locale change_feed =
  fixes diff :: "('k, 'v) table \<Rightarrow> ('k, 'v) table \<Rightarrow> 'c list"
    and key :: "'c \<Rightarrow> 'k"
    and effect :: "'c \<Rightarrow> 'w option"
    and view :: "'v \<Rightarrow> 'w"
  assumes one_record: "wf_table old \<Longrightarrow> wf_table new \<Longrightarrow> distinct (map key (diff old new))"
    and exact_changes: "wf_table old \<Longrightarrow> wf_table new \<Longrightarrow>
      (\<lambda>c. (key c, effect c)) ` set (diff old new) = {(k, w). w = view_of view new k \<and> w \<noteq> view_of view old k}"
begin

text \<open>Replaying the records of a comparison on the old snapshot gives the new one.\<close>

lemma replay_diff:
  assumes "wf_table old" "wf_table new"
  shows "replay key effect (diff old new) (view_of view old) = view_of view new"
proof
  fix k
  show "replay key effect (diff old new) (view_of view old) k = view_of view new k"
  proof (cases "k \<in> key ` set (diff old new)")
    case True
    then obtain c where c: "c \<in> set (diff old new)" "k = key c" by blast
    from c(1) have "(key c, effect c) \<in> (\<lambda>c. (key c, effect c)) ` set (diff old new)" by (rule imageI)
    then have "effect c = view_of view new (key c)" unfolding exact_changes[OF assms] by simp
    then show ?thesis unfolding c(2) using replay_hit[OF one_record[OF assms] c(1), of effect "view_of view old"] by (simp only:)
  next
    case False
    have "(k, view_of view new k) \<in> (\<lambda>c. (key c, effect c)) ` set (diff old new)" if "view_of view new k \<noteq> view_of view old k"
      unfolding exact_changes[OF assms] using that by simp
    then have "view_of view new k = view_of view old k" using False by blast
    then show ?thesis using replay_other[OF False] by simp
  qed
qed

text \<open>Nothing is reported when nothing changed.\<close>

lemma quiet: "wf_table old \<Longrightarrow> wf_table new \<Longrightarrow> view_of view new = view_of view old \<Longrightarrow> diff old new = []"
  using exact_changes[of old new] by auto

text \<open>A source that adopts every snapshot it compares: its records so far, replayed on the first snapshot, give the last.\<close>

fun feed :: "('k, 'v) table \<Rightarrow> ('k, 'v) table list \<Rightarrow> ('k, 'v) table \<times> 'c list" where
  "feed old [] = (old, [])"
| "feed old (new # rest) = (let (final, cs) = feed new rest in (final, diff old new @ cs))"

lemma feed_exact:
  assumes "wf_table old" "\<forall>t\<in>set ts. wf_table t"
  shows "replay key effect (snd (feed old ts)) (view_of view old) = view_of view (fst (feed old ts)) \<and> wf_table (fst (feed old ts))"
  using assms
proof (induction ts arbitrary: old)
  case (Cons t ts)
  have "wf_table t" using Cons.prems by simp
  with Cons.prems Cons.IH[of t] show ?case using replay_diff[of old t] by (auto simp: replay_append split: prod.split)
qed simp

end

text \<open>Additions and removals between two tables, and the law behind every comparison below. Sorting does not matter to it.\<close>

definition added_rows :: "('k, 'v) table \<Rightarrow> ('k, 'v) table \<Rightarrow> ('k \<times> 'v) list" where
  "added_rows old new = filter (\<lambda>(k, _). map_of old k = None) new"

lemma added_rows_set: "wf_table new \<Longrightarrow> set (added_rows old new) = {(k, v). map_of new k = Some v \<and> map_of old k = None}"
  by (auto simp: added_rows_def)

lemma added_rows_keys:
  assumes "wf_table new"
  shows "distinct (map fst (added_rows old new))" "set (map fst (added_rows old new)) = {k. map_of new k \<noteq> None \<and> map_of old k = None}"
  using assms by (auto simp: added_rows_def distinct_map_filter image_iff domIff[symmetric] dom_map_of_conv_image_fst map_of_eq_None_iff)

lemma distinct_map_sort_key: "distinct (map f (sort_key g xs)) = distinct (map f xs)"
  by (rule mset_eq_imp_distinct_iff) simp

section \<open>Kernel modules\<close>

record module_info =
  mi_size :: int
  mi_refcount :: int

definition module_line :: "string \<Rightarrow> (string \<times> module_info) option" where
  "module_line raw =
     (case split_words (strip raw) of
        name # a # b # _ \<Rightarrow> (case (py_int a, py_int b) of (Some x, Some y) \<Rightarrow> Some (name, \<lparr>mi_size = x, mi_refcount = y\<rparr>) | _ \<Rightarrow> None)
      | _ \<Rightarrow> None)"

definition put_all :: "('k \<times> 'v) list \<Rightarrow> ('k, 'v) table" where
  "put_all xs = fold (\<lambda>(k, v) t. AList.update k v t) xs []"

definition parse_proc_modules :: "string \<Rightarrow> (string, module_info) table" where
  "parse_proc_modules t = put_all (List.map_filter module_line (splitlines t))"

datatype module_change = Loaded string module_info | Unloaded string

fun kmod_name :: "module_change \<Rightarrow> string" where
  "kmod_name (Loaded n i) = n"
| "kmod_name (Unloaded n) = n"

fun kmod_action :: "module_change \<Rightarrow> string" where
  "kmod_action (Loaded n i) = ''loaded''"
| "kmod_action (Unloaded n) = ''unloaded''"

fun kmod_effect :: "module_change \<Rightarrow> unit option" where
  "kmod_effect (Loaded n i) = Some ()"
| "kmod_effect (Unloaded n) = None"

definition diff_modules :: "(string, module_info) table \<Rightarrow> (string, module_info) table \<Rightarrow> module_change list" where
  "diff_modules prev current =
     sort_key kmod_action (sort_key kmod_name
       (map (\<lambda>(n, i). Loaded n i) (added_rows prev current) @ map (\<lambda>(n, _). Unloaded n) (added_rows current prev)))"

lemma put_all_wf: "wf_table (put_all xs)"
proof -
  have "wf_table t \<Longrightarrow> wf_table (fold (\<lambda>(k, v) t. AList.update k v t) xs t)" for t :: "('a, 'b) table"
    by (induction xs arbitrary: t) (auto simp: distinct_update)
  then show ?thesis by (simp add: put_all_def)
qed

lemma unit_view: "view_of (\<lambda>_. ()) t k = (if map_of t k = None then None else Some ())"
  by (simp add: view_of_def split: option.split)

interpretation kmods: change_feed diff_modules kmod_name kmod_effect "\<lambda>_. ()"
proof
  fix old new :: "(string, module_info) table"
  assume wf: "wf_table old" "wf_table new"
  have names: "map kmod_name (map (\<lambda>(n, i). Loaded n i) xs) = map fst xs" "map kmod_name (map (\<lambda>(n, _). Unloaded n) xs) = map fst xs"
    for xs :: "(string, module_info) table" by auto
  show "distinct (map kmod_name (diff_modules old new))"
    using added_rows_keys[OF wf(2), of old] added_rows_keys[OF wf(1), of new]
    unfolding diff_modules_def distinct_map_sort_key map_append names by auto
  show "(\<lambda>c. (kmod_name c, kmod_effect c)) ` set (diff_modules old new)
      = {(k, w). w = view_of (\<lambda>_. ()) new k \<and> w \<noteq> view_of (\<lambda>_. ()) old k}"
    (is "?L = ?R")
  proof -
    have "?L = (\<lambda>(n, i). (n, Some ())) ` set (added_rows old new) \<union> (\<lambda>(n, i). (n, None)) ` set (added_rows new old)"
      by (auto simp: diff_modules_def image_Un image_image split_def)
    also have "\<dots> = ?R" unfolding added_rows_set[OF wf(2)] added_rows_set[OF wf(1)]
      by (auto simp: unit_view image_iff split_def split: if_splits)
    finally show ?thesis .
  qed
qed

text \<open>The source: \<open>None\<close> is the \<^verbatim>\<open>RuntimeError\<close> of a closed one. The text read is the argument of a poll.\<close>

record 't source =
  sr_snapshot :: 't
  sr_closed :: bool

definition open_modules :: "string \<Rightarrow> (string, module_info) table source" where
  "open_modules t = \<lparr>sr_snapshot = parse_proc_modules t, sr_closed = False\<rparr>"

definition poll_modules :: "string \<Rightarrow> (string, module_info) table source \<Rightarrow> ((string, module_info) table source \<times> module_change list) option" where
  "poll_modules t s =
     (if sr_closed s then None
      else let current = parse_proc_modules t in Some (s\<lparr>sr_snapshot := current\<rparr>, diff_modules (sr_snapshot s) current))"

definition close_source :: "'t source \<Rightarrow> 't source" where
  "close_source s = s\<lparr>sr_closed := True\<rparr>"

text \<open>The event of a change. \<open>now\<close> and \<open>eid\<close> are the clock and the fresh id, \<open>host\<close> the host name.\<close>

definition kmod_event :: "datetime \<Rightarrow> string \<Rightarrow> string \<Rightarrow> module_change \<Rightarrow> event option" where
  "kmod_event now eid host c =
     (case c of
        Loaded name i \<Rightarrow>
          build_event now eid ''kmod_watcher'' ''kmod_loaded'' [''driver''] [''installation''] ''info'' ''event'' None
            (Some (''kernel module '' @ name @ '' loaded''))
            (no_blocks\<lparr>eb_host := Some [(''name'', PStr host)],
               eb_raw := Some [(''source'', PStr ''/proc/modules''), (''module_name'', PStr name), (''module_size'', PInt (mi_size i)),
                               (''module_refcount'', PInt (mi_refcount i))]\<rparr>) (Some [''kmod'']) (Some now) False
      | Unloaded name \<Rightarrow>
          build_event now eid ''kmod_watcher'' ''kmod_unloaded'' [''driver''] [''deletion''] ''info'' ''event'' None
            (Some (''kernel module '' @ name @ '' unloaded''))
            (no_blocks\<lparr>eb_host := Some [(''name'', PStr host)],
               eb_raw := Some [(''source'', PStr ''/proc/modules''), (''module_name'', PStr name)]\<rparr>) (Some [''kmod'']) (Some now) False)"

section \<open>Services\<close>

text \<open>What one run of \<^verbatim>\<open>systemctl\<close> gives: it cannot be run or runs out of time, or it ends with an exit code and its output.\<close>

datatype service_run = Run_raises | Run_ends int string

definition capture_units :: "service_run \<Rightarrow> string" where
  "capture_units r = (case r of Run_raises \<Rightarrow> '''' | Run_ends code out \<Rightarrow> if code = 0 then out else '''')"

record unit_info =
  ui_active :: pyval
  ui_sub :: pyval
  ui_load :: pyval

definition default_get :: "pydict \<Rightarrow> string \<Rightarrow> pyval \<Rightarrow> pyval" where
  "default_get d k v = (case map_of d k of None \<Rightarrow> v | Some x \<Rightarrow> x)"

text \<open>One element of the array: \<open>Some None\<close> is skipped, \<open>None\<close> is a unit that is neither absent nor a text, which \<^verbatim>\<open>systemctl\<close> never prints.\<close>

definition unit_item :: "pyval \<Rightarrow> (string \<times> unit_info) option option" where
  "unit_item v =
     (case v of
        PDict d \<Rightarrow>
          (let u = dget d ''unit''
           in if \<not> truthy u then Some None
              else case u of
                     PStr name \<Rightarrow> Some (Some (name, \<lparr>ui_active = default_get d ''active'' (PStr ''''), ui_sub = default_get d ''sub'' (PStr ''''),
                                                  ui_load = default_get d ''load'' (PStr '''')\<rparr>))
                   | _ \<Rightarrow> None)
      | _ \<Rightarrow> Some None)"

text \<open>\<open>None\<close> is the exception for a top-level value that cannot be iterated over, or such a unit.\<close>

definition parse_units :: "string \<Rightarrow> (string, unit_info) table option" where
  "parse_units t =
     (if strip t = '''' then Some []
      else case json_loads t of
             None \<Rightarrow> Some []
           | Some (PList items) \<Rightarrow> map_option (\<lambda>xs. put_all (List.map_filter id xs)) (all_some (map unit_item items))
           | Some (PDict _) \<Rightarrow> Some []
           | Some (PStr _) \<Rightarrow> Some []
           | Some _ \<Rightarrow> None)"

datatype unit_change =
    Service_added string unit_info
  | Service_removed string unit_info
  | Service_state_changed string unit_info unit_info

fun service_unit :: "unit_change \<Rightarrow> string" where
  "service_unit (Service_added u i) = u"
| "service_unit (Service_removed u i) = u"
| "service_unit (Service_state_changed u i j) = u"

fun service_action :: "unit_change \<Rightarrow> string" where
  "service_action (Service_added u i) = ''service_added''"
| "service_action (Service_removed u i) = ''service_removed''"
| "service_action (Service_state_changed u i j) = ''service_state_changed''"

fun service_effect :: "unit_change \<Rightarrow> unit_info option" where
  "service_effect (Service_added u i) = Some i"
| "service_effect (Service_removed u i) = None"
| "service_effect (Service_state_changed u i j) = Some i"

definition changed_rows :: "(string, unit_info) table \<Rightarrow> (string, unit_info) table \<Rightarrow> (string \<times> unit_info) list" where
  "changed_rows prev current = filter (\<lambda>(u, i). case map_of prev u of None \<Rightarrow> False | Some j \<Rightarrow> i \<noteq> j) current"

definition diff_units :: "(string, unit_info) table \<Rightarrow> (string, unit_info) table \<Rightarrow> unit_change list" where
  "diff_units prev current =
     sort_key service_action (sort_key service_unit
       (map (\<lambda>(u, i). Service_added u i) (added_rows prev current) @ map (\<lambda>(u, i). Service_removed u i) (added_rows current prev)
        @ map (\<lambda>(u, i). Service_state_changed u i (the (map_of prev u))) (changed_rows prev current)))"

interpretation units: change_feed diff_units service_unit service_effect id
proof
  fix old new :: "(string, unit_info) table"
  assume wf: "wf_table old" "wf_table new"
  have names: "map service_unit (map (\<lambda>(u, i). Service_added u i) xs) = map fst xs"
    "map service_unit (map (\<lambda>(u, i). Service_removed u i) xs) = map fst xs"
    "map service_unit (map (\<lambda>(u, i). Service_state_changed u i (the (map_of old u))) xs) = map fst xs"
    for xs :: "(string, unit_info) table" by auto
  have changed: "distinct (map fst (changed_rows old new))"
    "set (changed_rows old new) = {(u, i). map_of new u = Some i \<and> (\<exists>j. map_of old u = Some j \<and> i \<noteq> j)}"
    using wf(2) by (auto simp: changed_rows_def distinct_map_filter split: option.splits)
  show "distinct (map service_unit (diff_units old new))"
    using added_rows_keys[OF wf(2), of old] added_rows_keys[OF wf(1), of new] changed
    unfolding diff_units_def distinct_map_sort_key map_append names distinct_append by auto
  show "(\<lambda>c. (service_unit c, service_effect c)) ` set (diff_units old new) = {(k, w). w = view_of id new k \<and> w \<noteq> view_of id old k}"
    (is "?L = ?R")
  proof -
    have "?L = (\<lambda>(u, i). (u, Some i)) ` set (added_rows old new) \<union> (\<lambda>(u, i). (u, None)) ` set (added_rows new old)
        \<union> (\<lambda>(u, i). (u, Some i)) ` set (changed_rows old new)"
      by (auto simp: diff_units_def image_Un image_image split_def)
    also have "\<dots> = ?R" unfolding added_rows_set[OF wf(2)] added_rows_set[OF wf(1)] changed(2)
      by (auto simp: view_of_def image_iff split_def option.map_id) (metis not_None_eq)
    finally show ?thesis .
  qed
qed

definition open_services :: "service_run \<Rightarrow> (string, unit_info) table source option" where
  "open_services r = map_option (\<lambda>t. \<lparr>sr_snapshot = t, sr_closed = False\<rparr>) (parse_units (capture_units r))"

text \<open>An empty capture or an empty parse keeps the baseline; an empty baseline is replaced without a report.\<close>

definition poll_services :: "service_run \<Rightarrow> (string, unit_info) table source \<Rightarrow> ((string, unit_info) table source \<times> unit_change list) option" where
  "poll_services r s =
     (if sr_closed s then None
      else if capture_units r = '''' then Some (s, [])
      else case parse_units (capture_units r) of
             None \<Rightarrow> None
           | Some current \<Rightarrow>
               if current = [] then Some (s, [])
               else if sr_snapshot s = [] then Some (s\<lparr>sr_snapshot := current\<rparr>, [])
               else Some (s\<lparr>sr_snapshot := current\<rparr>, diff_units (sr_snapshot s) current))"

definition service_event :: "(pyval \<Rightarrow> string) \<Rightarrow> datetime \<Rightarrow> string \<Rightarrow> string \<Rightarrow> unit_change \<Rightarrow> event option" where
  "service_event ostr now eid host c =
     (let event = (\<lambda>types unit_name state message raw.
        build_event now eid ''services_monitor'' (service_action c) [''configuration''] types ''info'' ''event'' None (Some message)
          (no_blocks\<lparr>eb_host := Some [(''name'', PStr host)], eb_service := Some [(''name'', PStr unit_name), (''state'', state)],
             eb_raw := Some ((''source'', PStr ''systemctl'') # raw)\<rparr>) (Some [''service'']) (Some now) False);
          now_in = (\<lambda>i. [(''active'', ui_active i), (''sub'', ui_sub i), (''load'', ui_load i)]);
          was_in = (\<lambda>i. [(''previous_active'', ui_active i), (''previous_sub'', ui_sub i), (''previous_load'', ui_load i)])
      in case c of
           Service_added u i \<Rightarrow>
             event [''installation''] u (ui_active i) (''service '' @ u @ '' appeared (active='' @ py_str ostr (ui_active i) @ '', sub='' @ py_str ostr (ui_sub i)
               @ '', load='' @ py_str ostr (ui_load i) @ '')'') (now_in i)
         | Service_removed u i \<Rightarrow>
             event [''deletion''] u (ui_active i) (''service '' @ u @ '' disappeared (was active='' @ py_str ostr (ui_active i) @ '', sub='' @ py_str ostr (ui_sub i) @ '')'')
               (was_in i)
         | Service_state_changed u i j \<Rightarrow>
             event [''change''] u (ui_active i) (''service '' @ u @ '' changed: '' @ py_str ostr (ui_active j) @ ''/'' @ py_str ostr (ui_sub j) @ '' -> ''
               @ py_str ostr (ui_active i) @ ''/'' @ py_str ostr (ui_sub i)) (now_in i @ was_in j))"

text \<open>A run of polls.\<close>

fun poll_all :: "service_run list \<Rightarrow> (string, unit_info) table source \<Rightarrow> ((string, unit_info) table source \<times> unit_change list) option" where
  "poll_all [] s = Some (s, [])"
| "poll_all (r # rs) s =
     (case poll_services r s of
        None \<Rightarrow> None
      | Some (s1, cs) \<Rightarrow> map_option (\<lambda>(s2, ds). (s2, cs @ ds)) (poll_all rs s1))"

definition units_in :: "service_run \<Rightarrow> (string, unit_info) table" where
  "units_in r = (case parse_units (capture_units r) of None \<Rightarrow> [] | Some t \<Rightarrow> t)"

definition adopted :: "(string, unit_info) table \<Rightarrow> service_run list \<Rightarrow> (string, unit_info) table list" where
  "adopted t rs = filter (\<lambda>t. t \<noteq> []) (t # map units_in rs)"

definition first_or_empty :: "'a list list \<Rightarrow> 'a list" where
  "first_or_empty ts = (case ts of [] \<Rightarrow> [] | t # _ \<Rightarrow> t)"

definition last_or_empty :: "'a list list \<Rightarrow> 'a list" where
  "last_or_empty ts = (if ts = [] then [] else last ts)"

lemma units_in_wf: "wf_table (units_in r)"
proof -
  have "parse_units t = Some u \<Longrightarrow> wf_table u" for t u
    by (auto simp: parse_units_def put_all_wf split: if_splits option.splits pyval.splits)
  then show ?thesis by (simp add: units_in_def split: option.split)
qed

lemma poll_services_cases:
  assumes "poll_services r s = Some (s1, cs)"
  shows "\<not> sr_closed s \<and> \<not> sr_closed s1 \<and> (if units_in r = [] then s1 = s \<and> cs = []
     else sr_snapshot s1 = units_in r \<and> cs = (if sr_snapshot s = [] then [] else diff_units (sr_snapshot s) (units_in r)))"
proof -
  have empty: "units_in r = []" if "capture_units r = ''''" using that by (simp add: units_in_def parse_units_def strip_def lstrip_def rstrip_def)
  show ?thesis using assms empty by (auto simp: poll_services_def units_in_def split: if_splits option.splits)
qed

lemma poll_all_exact:
  assumes "poll_all rs s = Some (s', cs)" "wf_table (sr_snapshot s)"
  shows "sr_snapshot s' = last_or_empty (adopted (sr_snapshot s) rs)
    \<and> replay service_unit service_effect cs (view_of id (first_or_empty (adopted (sr_snapshot s) rs))) = view_of id (sr_snapshot s')"
  using assms
proof (induction rs arbitrary: s cs)
  case (Cons r rs)
  obtain s1 cs1 ds where step: "poll_services r s = Some (s1, cs1)" and rest: "poll_all rs s1 = Some (s', ds)" and cs: "cs = cs1 @ ds"
    using Cons.prems(1) by (auto split: option.splits)
  note poll = poll_services_cases[OF step]
  have wf1: "wf_table (sr_snapshot s1)" using poll Cons.prems(2) units_in_wf[of r] by (auto split: if_splits)
  note IH = Cons.IH[OF rest wf1]
  show ?case
  proof (cases "units_in r = []")
    case True
    then have same: "s1 = s" "cs = ds" "adopted (sr_snapshot s) (r # rs) = adopted (sr_snapshot s) rs" using poll cs by (auto simp: adopted_def)
    show ?thesis using IH unfolding same .
  next
    case False
    then have now: "sr_snapshot s1 = units_in r" "cs1 = (if sr_snapshot s = [] then [] else diff_units (sr_snapshot s) (units_in r))" using poll by auto
    then have ad: "adopted (sr_snapshot s1) rs = units_in r # filter (\<lambda>t. t \<noteq> []) (map units_in rs)" using False by (simp add: adopted_def)
    have "adopted (sr_snapshot s) (r # rs) = (if sr_snapshot s = [] then [] else [sr_snapshot s]) @ adopted (sr_snapshot s1) rs"
      using False unfolding ad by (simp add: adopted_def)
    then show ?thesis using now IH cs units.replay_diff[OF Cons.prems(2) units_in_wf[of r]] unfolding ad
      by (cases "sr_snapshot s = []") (simp_all add: first_or_empty_def last_or_empty_def replay_append id_def)
  qed
qed (simp add: adopted_def first_or_empty_def last_or_empty_def)

text \<open>C36: Whatever sequence of captures a services source sees, failed, empty and unreadable ones included, its snapshot is the last one that
  named a service, and its change records, replayed in order on the first such snapshot, give exactly that last one: no change is lost or
  invented, and a capture that fails is never taken for the removal of services.\<close>

theorem service_changes_replay:
  assumes "open_services r = Some s" "poll_all rs s = Some (s', cs)"
  shows "let seen = filter (\<lambda>t. t \<noteq> []) (map units_in (r # rs))
    in sr_snapshot s' = last_or_empty seen
       \<and> replay service_unit service_effect cs (view_of id (first_or_empty seen)) = view_of id (sr_snapshot s')"
proof -
  have "sr_snapshot s = units_in r" using assms(1) by (auto simp: open_services_def units_in_def)
  then have "adopted (sr_snapshot s) rs = filter (\<lambda>t. t \<noteq> []) (map units_in (r # rs))" "wf_table (sr_snapshot s)"
    using units_in_wf[of r] by (simp_all add: adopted_def)
  then show ?thesis using poll_all_exact[OF assms(2)] by (simp only: Let_def)
qed

definition sample_units :: "(string \<times> string) list \<Rightarrow> service_run" where
  "sample_units us = Run_ends 0 (''['' @ join_with '','' (map (\<lambda>(u, a). ''{'' @ json_str ''unit'' @ '':'' @ json_str u @ '','' @ json_str ''active'' @ '':'' @ json_str a @ ''}'') us) @ '']'')"

theorem service_changes_replay_witness:
  "\<exists>s s' cs. open_services (sample_units [(''a.service'', ''active'')]) = Some s
     \<and> poll_all [Run_raises, sample_units [(''a.service'', ''failed''), (''b.service'', ''active'')]] s = Some (s', cs)
     \<and> replay service_unit service_effect cs (view_of id (units_in (sample_units [(''a.service'', ''active'')]))) = view_of id (sr_snapshot s')"
proof -
  let ?a = "sample_units [(''a.service'', ''active'')]" and ?b = "sample_units [(''a.service'', ''failed''), (''b.service'', ''active'')]"
  have reads: "parse_units (capture_units ?a) = Some [(''a.service'', \<lparr>ui_active = PStr ''active'', ui_sub = PStr '''', ui_load = PStr ''''\<rparr>)]"
    "parse_units (capture_units ?b) = Some [(''a.service'', \<lparr>ui_active = PStr ''failed'', ui_sub = PStr '''', ui_load = PStr ''''\<rparr>),
       (''b.service'', \<lparr>ui_active = PStr ''active'', ui_sub = PStr '''', ui_load = PStr ''''\<rparr>)]"
    by code_simp+
  obtain s where s: "open_services ?a = Some s" "sr_closed s = False" "sr_snapshot s \<noteq> []" using reads(1) by (auto simp: open_services_def)
  obtain s' cs where run: "poll_all [Run_raises, ?b] s = Some (s', cs)"
    using s reads(2) by (auto simp: poll_services_def capture_units_def sample_units_def)
  have "units_in ?a \<noteq> []" using reads(1) by (simp add: units_in_def)
  then show ?thesis using service_changes_replay[OF s(1) run] s(1) run by (auto simp: Let_def first_or_empty_def)
qed

section \<open>Listening sockets\<close>

definition PROTOS :: "string list" where "PROTOS = [''tcp'', ''tcp6'', ''udp'', ''udp6'']"

text \<open>The bytes of a hexadecimal text from a position, two characters each; \<open>None\<close> is a \<^verbatim>\<open>ValueError\<close>.\<close>

fun hex_pairs :: "nat \<Rightarrow> string \<Rightarrow> int list option" where
  "hex_pairs 0 s = Some []"
| "hex_pairs (Suc n) s = (case (py_hex (take 2 s), hex_pairs n (drop 2 s)) of (Some b, Some bs) \<Rightarrow> Some (b # bs) | _ \<Rightarrow> None)"

definition decode_ipv4 :: "string \<Rightarrow> string option" where
  "decode_ipv4 h = map_option (\<lambda>bs. join_with ''.'' (map int_str (rev bs))) (hex_pairs 4 h)"

text \<open>\<open>ipv6\<close> is the text of an IPv6 address of sixteen bytes; a byte outside its range is a \<^verbatim>\<open>ValueError\<close>.\<close>

definition decode_ipv6 :: "(int list \<Rightarrow> string) \<Rightarrow> string \<Rightarrow> string option" where
  "decode_ipv6 ipv6 h =
     (case all_some (map (\<lambda>i. hex_pairs 4 (take 8 (drop (8 * i) h))) [0, 1, 2, 3]) of
        None \<Rightarrow> None
      | Some chunks \<Rightarrow> if list_all (list_all (\<lambda>b. 0 \<le> b \<and> b < 256)) chunks then Some (ipv6 (concat (map rev chunks))) else None)"

definition decode_local_addr :: "(int list \<Rightarrow> string) \<Rightarrow> string \<Rightarrow> (string \<times> int) option" where
  "decode_local_addr ipv6 a =
     (case split_on (CHR '':'') a of
        [hex_ip, hex_port] \<Rightarrow>
          (case py_hex hex_port of
             None \<Rightarrow> None
           | Some port \<Rightarrow> map_option (\<lambda>ip. (ip, port)) (if length hex_ip = 8 then decode_ipv4 hex_ip else decode_ipv6 ipv6 hex_ip))
      | _ \<Rightarrow> None)"

type_synonym listener = "string \<times> string \<times> int"

definition socket_row :: "(int list \<Rightarrow> string) \<Rightarrow> string \<Rightarrow> string \<Rightarrow> (listener \<times> listener) option" where
  "socket_row ipv6 proto line =
     (case split_words line of
        _ # local_addr # rem_addr # state # _ \<Rightarrow>
          (let listening = (if proto \<in> {''udp'', ''udp6''} then (case decode_local_addr ipv6 rem_addr of None \<Rightarrow> False | Some (_, p) \<Rightarrow> p = 0)
                            else py_upper state = ''0A'')
           in if \<not> listening then None else map_option (\<lambda>(ip, port). ((proto, ip, port), (proto, ip, port))) (decode_local_addr ipv6 local_addr))
      | _ \<Rightarrow> None)"

definition parse_listeners :: "(int list \<Rightarrow> string) \<Rightarrow> string \<Rightarrow> string \<Rightarrow> (listener, listener) table" where
  "parse_listeners ipv6 t proto = put_all (List.map_filter (socket_row ipv6 proto) (drop 1 (filter (\<lambda>l. l \<noteq> '''') (map strip (splitlines t)))))"

definition snapshot_all :: "(int list \<Rightarrow> string) \<Rightarrow> (string \<Rightarrow> string) \<Rightarrow> (listener, listener) table" where
  "snapshot_all ipv6 reader = put_all (concat (map (\<lambda>p. parse_listeners ipv6 (reader p) p) PROTOS))"

datatype listener_change = Listener_added listener | Listener_removed listener

fun listener_key :: "listener_change \<Rightarrow> listener" where
  "listener_key (Listener_added l) = l"
| "listener_key (Listener_removed l) = l"

fun listener_effect :: "listener_change \<Rightarrow> unit option" where
  "listener_effect (Listener_added l) = Some ()"
| "listener_effect (Listener_removed l) = None"

fun listener_action :: "listener_change \<Rightarrow> string" where
  "listener_action (Listener_added l) = ''listener_added''"
| "listener_action (Listener_removed l) = ''listener_removed''"

text \<open>The records carry the proto, address and port of the key.\<close>

definition diff_listeners :: "(listener, listener) table \<Rightarrow> (listener, listener) table \<Rightarrow> listener_change list" where
  "diff_listeners prev current =
     sort_key listener_action (sort_key (\<lambda>c. fst (listener_key c)) (sort_key (\<lambda>c. fst (snd (listener_key c))) (sort_key (\<lambda>c. snd (snd (listener_key c)))
       (map (\<lambda>(l, _). Listener_added l) (added_rows prev current) @ map (\<lambda>(l, _). Listener_removed l) (added_rows current prev)))))"

interpretation sockets: change_feed diff_listeners listener_key listener_effect "\<lambda>_. ()"
proof
  fix old new :: "(listener, listener) table"
  assume wf: "wf_table old" "wf_table new"
  have names: "map listener_key (map (\<lambda>(l, _). Listener_added l) xs) = map fst xs" "map listener_key (map (\<lambda>(l, _). Listener_removed l) xs) = map fst xs"
    for xs :: "(listener, listener) table" by auto
  show "distinct (map listener_key (diff_listeners old new))"
    using added_rows_keys[OF wf(2), of old] added_rows_keys[OF wf(1), of new]
    unfolding diff_listeners_def distinct_map_sort_key map_append names by auto
  show "(\<lambda>c. (listener_key c, listener_effect c)) ` set (diff_listeners old new)
      = {(k, w). w = view_of (\<lambda>_. ()) new k \<and> w \<noteq> view_of (\<lambda>_. ()) old k}" (is "?L = ?R")
  proof -
    have "?L = (\<lambda>(n, i). (n, Some ())) ` set (added_rows old new) \<union> (\<lambda>(n, i). (n, None)) ` set (added_rows new old)"
      by (auto simp: diff_listeners_def image_Un image_image split_def)
    also have "\<dots> = ?R" unfolding added_rows_set[OF wf(2)] added_rows_set[OF wf(1)]
      by (auto simp: unit_view image_iff split_def split: if_splits)
    finally show ?thesis .
  qed
qed

definition poll_listeners ::
  "(int list \<Rightarrow> string) \<Rightarrow> (string \<Rightarrow> string) \<Rightarrow> (listener, listener) table source \<Rightarrow> ((listener, listener) table source \<times> listener_change list) option" where
  "poll_listeners ipv6 reader s =
     (if sr_closed s then None
      else let current = snapshot_all ipv6 reader in Some (s\<lparr>sr_snapshot := current\<rparr>, diff_listeners (sr_snapshot s) current))"

definition socket_event :: "datetime \<Rightarrow> string \<Rightarrow> string \<Rightarrow> listener_change \<Rightarrow> event option" where
  "socket_event now eid host c =
     (let (proto, ip, port) = listener_key c;
          transport = (if startswith proto ''tcp'' then ''tcp'' else ''udp'');
          opened = (case c of Listener_added _ \<Rightarrow> True | Listener_removed _ \<Rightarrow> False)
      in build_event now eid ''listening_socket_snapshotter'' (listener_action c) [''network''] [if opened then ''start'' else ''end''] ''info'' ''event'' None
           (Some (''listening socket '' @ ip @ '':'' @ int_str port @ ''/'' @ transport @ (if opened then '' opened'' else '' closed'')))
           (no_blocks\<lparr>eb_host := Some [(''name'', PStr host)], eb_source := Some [(''ip'', PStr ip), (''port'', PInt port)],
              eb_network := Some [(''transport'', PStr transport), (''direction'', PStr ''ingress'')],
              eb_raw := Some [(''source'', PStr (''/proc/net/'' @ proto))]\<rparr>) (Some [''listener'']) (Some now) False)"

text \<open>The documented decodings.\<close>

lemma decode_examples:
  "decode_ipv4 ''0100007F'' = Some ''127.0.0.1''" "decode_ipv4 ''00000000'' = Some ''0.0.0.0''"
  "decode_ipv6 (\<lambda>bs. if bs = [0, 0, 0, 0, 0, 0, 0, 0, 0, 0, 0, 0, 0, 0, 0, 1] then ''::1'' else ''?'') ''00000000000000000000000001000000'' = Some ''::1''"
  by code_simp+

end
