(* ===== verification/Persistence_Inventory.thy ===== *)
theory Persistence_Inventory
  imports Snapshots Entity_State
begin

text \<open>
  The inventory of what starts by itself on the host, \<^verbatim>\<open>workers/persistence_snapshotter\<close>: the four enumerators over cron, systemd timers,
  autostart entries and authorized keys, the snapshot that merges them, and the worker that reports what was added and removed. The
  file system and the library functions for digests and base 64 are the environment of a step.
\<close>

section \<open>The environment\<close>

text \<open>Reading a file and listing a directory may fail with an \<^verbatim>\<open>OSError\<close>, which is \<open>None\<close>. \<open>pf_ellipsis\<close> is the one-character text
  that marks a cut, \<open>pf_sha\<close> the hexadecimal digest, \<open>pf_b64\<close> the strict base 64 decoder and \<open>pf_fingerprint\<close> the base 64 of a digest.\<close>

record persist_fs =
  pf_read :: "string \<Rightarrow> string option"
  pf_list :: "string \<Rightarrow> string list option"
  pf_is_file :: "string \<Rightarrow> bool"
  pf_realpath :: "string \<Rightarrow> string option"
  pf_ellipsis :: string
  pf_sha :: "string \<Rightarrow> string"
  pf_b64 :: "string \<Rightarrow> string option"
  pf_fingerprint :: "string \<Rightarrow> string"

record persist_roots =
  rt_crontab :: string
  rt_cron_d :: string
  rt_run_parts :: "string list"
  rt_user_crontab :: string
  rt_timer_wants :: "(string \<times> string) list"
  rt_autostart :: "string list"
  rt_authorized_keys :: string

definition default_roots :: "string \<Rightarrow> string option \<Rightarrow> persist_roots" where
  "default_roots home user =
     \<lparr>rt_crontab = ''/etc/crontab'', rt_cron_d = ''/etc/cron.d'',
      rt_run_parts = [''/etc/cron.hourly'', ''/etc/cron.daily'', ''/etc/cron.weekly'', ''/etc/cron.monthly''],
      rt_user_crontab = path_join ''/var/spool/cron'' (case user of None \<Rightarrow> ''root'' | Some u \<Rightarrow> u),
      rt_timer_wants = [(''system'', ''/etc/systemd/system/timers.target.wants''), (''system'', ''/usr/lib/systemd/system/timers.target.wants''),
        (''user'', path_join home ''.config/systemd/user/timers.target.wants''), (''user'', ''/etc/systemd/user/timers.target.wants'')],
      rt_autostart = [path_join home ''.config/autostart'', ''/etc/xdg/autostart''], rt_authorized_keys = path_join home ''.ssh/authorized_keys''\<rparr>"

record persist_entry =
  pe_kind :: string
  pe_name :: string
  pe_source_path :: string
  pe_details :: string
  pe_key :: string

type_synonym inventory = "(string, persist_entry) table"

definition CRON :: string where "CRON = ''cron''"
definition TIMER :: string where "TIMER = ''timer''"
definition AUTOSTART :: string where "AUTOSTART = ''autostart''"
definition AUTHKEY :: string where "AUTHKEY = ''authorized_key''"
definition DETAILS_MAX :: nat where "DETAILS_MAX = 256"

definition bound_details :: "string \<Rightarrow> string \<Rightarrow> string" where
  "bound_details ell t = (if length t \<le> DETAILS_MAX then t else take DETAILS_MAX t @ ell)"

section \<open>Cron\<close>

text \<open>\<^verbatim>\<open>s.split(None, n)\<close>, and \<^verbatim>\<open>str.isidentifier\<close>.\<close>

fun split_max :: "nat \<Rightarrow> string \<Rightarrow> string list" where
  "split_max 0 s = (let r = lstrip s in if r = '''' then [] else [r])"
| "split_max (Suc n) s =
     (let r = lstrip s in if r = '''' then [] else takeWhile (\<lambda>c. \<not> py_space c) r # split_max n (dropWhile (\<lambda>c. \<not> py_space c) r))"

definition identifier_start :: "char \<Rightarrow> bool" where
  "identifier_start c = (ascii_letter c \<or> c = CHR ''_'' \<or> char_code c \<in> {170, 181, 186} \<or> (192 \<le> char_code c \<and> char_code c \<noteq> 215 \<and> char_code c \<noteq> 247))"

definition is_identifier :: "string \<Rightarrow> bool" where
  "is_identifier s =
     (case s of [] \<Rightarrow> False | c # cs \<Rightarrow> identifier_start c \<and> list_all (\<lambda>x. identifier_start x \<or> ascii_digit x \<or> char_code x = 183) cs)"

definition parse_cron_line :: "string \<Rightarrow> bool \<Rightarrow> (string \<times> string) option" where
  "parse_cron_line line has_user_field =
     (let stripped = strip line
      in if stripped = '''' \<or> startswith stripped ''#'' then None
         else let first_token = hd (split_max 1 stripped)
              in if CHR ''='' \<in> set first_token \<and> is_identifier (takeWhile (\<lambda>c. c \<noteq> CHR ''='') first_token) then None
                 else if startswith stripped ''@'' then
                   (let n_fields = (if has_user_field then 3 else 2); parts = split_max (n_fields - 1) stripped
                    in if length parts < n_fields then None else Some (hd parts, last parts))
                 else
                   (let n_lead = (if has_user_field then 6 else 5); parts = split_max n_lead stripped
                    in if length parts \<le> n_lead then None else Some (join_with '' '' (take 5 parts), parts ! n_lead)))"

definition cron_key :: "persist_fs \<Rightarrow> string \<Rightarrow> string \<Rightarrow> string \<Rightarrow> string" where
  "cron_key fs path schedule command = ''persist:cron:'' @ path @ '':'' @ take 12 (pf_sha fs (schedule @ '' '' @ command))"

text \<open>The entries of one crontab, \<open>None\<close> when it cannot be read.\<close>

definition parse_crontab :: "persist_fs \<Rightarrow> string \<Rightarrow> bool \<Rightarrow> persist_entry list option" where
  "parse_crontab fs path has_user_field =
     map_option (\<lambda>t. List.map_filter (\<lambda>raw.
         map_option (\<lambda>(schedule, command).
           \<lparr>pe_kind = CRON, pe_name = command, pe_source_path = path, pe_details = bound_details (pf_ellipsis fs) (strip raw),
            pe_key = cron_key fs path schedule command\<rparr>) (parse_cron_line raw has_user_field)) (splitlines t))
       (pf_read fs path)"

definition files_in :: "persist_fs \<Rightarrow> string \<Rightarrow> string list option" where
  "files_in fs dir = map_option (\<lambda>ns. filter (pf_is_file fs) (map (path_join dir) (sort ns))) (pf_list fs dir)"

definition opt_list :: "'a list option \<Rightarrow> 'a list" where
  "opt_list x = (case x of None \<Rightarrow> [] | Some xs \<Rightarrow> xs)"

definition path_name :: "string \<Rightarrow> string" where
  "path_name p = after_last (CHR ''/'') p"

definition run_parts_entries :: "persist_fs \<Rightarrow> string \<Rightarrow> persist_entry list" where
  "run_parts_entries fs dir =
     map (\<lambda>script. \<lparr>pe_kind = CRON, pe_name = path_name script, pe_source_path = script,
                     pe_details = bound_details (pf_ellipsis fs) (''run-parts '' @ dir), pe_key = ''persist:cron:'' @ script\<rparr>)
       (opt_list (files_in fs dir))"

text \<open>The entries and whether any source of the kind was readable.\<close>

definition enum_cron :: "persist_fs \<Rightarrow> persist_roots \<Rightarrow> persist_entry list \<times> bool" where
  "enum_cron fs roots =
     (opt_list (parse_crontab fs (rt_crontab roots) True)
      @ concat (map (\<lambda>p. opt_list (parse_crontab fs p True)) (opt_list (files_in fs (rt_cron_d roots))))
      @ opt_list (parse_crontab fs (rt_user_crontab roots) False)
      @ concat (map (run_parts_entries fs) (rt_run_parts roots)),
      parse_crontab fs (rt_crontab roots) True \<noteq> None \<or> files_in fs (rt_cron_d roots) \<noteq> None
      \<or> parse_crontab fs (rt_user_crontab roots) False \<noteq> None \<or> list_ex (\<lambda>d. files_in fs d \<noteq> None) (rt_run_parts roots))"

section \<open>Timers, autostart entries and keys\<close>

definition timer_entry :: "persist_fs \<Rightarrow> string \<Rightarrow> string \<Rightarrow> string \<Rightarrow> persist_entry option" where
  "timer_entry fs scope dir u =
     (if endswith u ''@.timer'' then None
      else case pf_realpath fs (path_join dir u) of
        None \<Rightarrow> None
      | Some target \<Rightarrow>
          if target = ''/dev/null'' then None
          else let lines = filter (\<lambda>l. startswith l ''OnCalendar='' \<or> startswith l ''OnBootSec='')
                             (map strip (splitlines (case pf_read fs target of None \<Rightarrow> '''' | Some t \<Rightarrow> t)))
               in Some \<lparr>pe_kind = TIMER, pe_name = u, pe_source_path = target, pe_details = bound_details (pf_ellipsis fs) (join_with '' '' lines),
                        pe_key = ''persist:timer:'' @ scope @ '':'' @ u\<rparr>)"

definition enum_timers :: "persist_fs \<Rightarrow> persist_roots \<Rightarrow> persist_entry list \<times> bool" where
  "enum_timers fs roots =
     (concat (map (\<lambda>(scope, dir). List.map_filter (timer_entry fs scope dir) (filter (\<lambda>n. endswith n ''.timer'') (sort (opt_list (pf_list fs dir)))))
        (rt_timer_wants roots)),
      list_ex (\<lambda>(scope, dir). pf_list fs dir \<noteq> None) (rt_timer_wants roots))"

definition first_after :: "string \<Rightarrow> string list \<Rightarrow> string option" where
  "first_after p ls = map_option (drop (length p)) (find (\<lambda>l. startswith l p) ls)"

definition autostart_entry :: "persist_fs \<Rightarrow> string \<Rightarrow> string \<Rightarrow> persist_entry option" where
  "autostart_entry fs dir n =
     (let dfile = path_join dir n
      in case pf_read fs dfile of
           None \<Rightarrow> None
         | Some t \<Rightarrow>
             (let lines = map strip (splitlines t)
              in case first_after ''Exec='' lines of
                   None \<Rightarrow> None
                 | Some exec_val \<Rightarrow>
                     Some \<lparr>pe_kind = AUTOSTART, pe_name = (case first_after ''Name='' lines of None \<Rightarrow> n | Some v \<Rightarrow> if v = '''' then n else v),
                           pe_source_path = dfile, pe_details = bound_details (pf_ellipsis fs) exec_val, pe_key = ''persist:autostart:'' @ dfile\<rparr>))"

definition enum_autostart :: "persist_fs \<Rightarrow> persist_roots \<Rightarrow> persist_entry list \<times> bool" where
  "enum_autostart fs roots =
     (concat (map (\<lambda>dir. List.map_filter (autostart_entry fs dir) (filter (\<lambda>n. endswith n ''.desktop'') (sort (opt_list (pf_list fs dir)))))
        (rt_autostart roots)),
      list_ex (\<lambda>dir. pf_list fs dir \<noteq> None) (rt_autostart roots))"

definition SSH_KEYTYPES :: "string list" where
  "SSH_KEYTYPES = [''ssh-rsa'', ''ssh-ed25519'', ''ssh-dss'', ''ecdsa-sha2-nistp256'', ''ecdsa-sha2-nistp384'', ''ecdsa-sha2-nistp521'',
     ''sk-ssh-ed25519@openssh.com'', ''sk-ecdsa-sha2-nistp256@openssh.com'']"

definition be32 :: "string \<Rightarrow> nat" where
  "be32 bs = foldl (\<lambda>n c. 256 * n + char_code c) 0 bs"

text \<open>The type named inside the key, \<open>None\<close> for a blob too short or not ASCII.\<close>

definition embedded_type :: "string \<Rightarrow> string option" where
  "embedded_type blob =
     (if length blob < 4 then None
      else let t = take (be32 (take 4 blob)) (drop 4 blob) in if list_all (\<lambda>c. char_code c < 128) t then Some t else None)"

definition parse_authorized_key_line :: "persist_fs \<Rightarrow> string \<Rightarrow> string \<Rightarrow> persist_entry option" where
  "parse_authorized_key_line fs path line =
     (let stripped = strip line
      in if stripped = '''' \<or> startswith stripped ''#'' then None
         else case dropWhile (\<lambda>w. w \<notin> set SSH_KEYTYPES) (split_words stripped) of
           keytype # field # comment_words \<Rightarrow>
             (case pf_b64 fs field of
                None \<Rightarrow> None
              | Some blob \<Rightarrow>
                  if embedded_type blob \<noteq> Some keytype then None
                  else let fingerprint = ''SHA256:'' @ pf_fingerprint fs blob; comment = join_with '' '' comment_words
                       in Some \<lparr>pe_kind = AUTHKEY, pe_name = (if comment = '''' then fingerprint else comment), pe_source_path = path,
                                pe_details = bound_details (pf_ellipsis fs) (keytype @ '' '' @ fingerprint), pe_key = ''persist:authkey:'' @ keytype @ '':'' @ fingerprint\<rparr>)
         | _ \<Rightarrow> None)"

definition enum_authorized_keys :: "persist_fs \<Rightarrow> persist_roots \<Rightarrow> persist_entry list \<times> bool" where
  "enum_authorized_keys fs roots =
     (case pf_read fs (rt_authorized_keys roots) of
        None \<Rightarrow> ([], False)
      | Some t \<Rightarrow> (List.map_filter (parse_authorized_key_line fs (rt_authorized_keys roots)) (splitlines t), True))"

section \<open>The snapshot\<close>

definition keyed :: "persist_fs \<Rightarrow> persist_entry list \<Rightarrow> inventory" where
  "keyed fs es = map (\<lambda>(k, x). (k, x\<lparr>pe_key := k, pe_details := bound_details (pf_ellipsis fs) (pe_details x)\<rparr>)) (put_all (map (\<lambda>x. (pe_key x, x)) es))"

definition persist_snapshot :: "persist_fs \<Rightarrow> persist_roots \<Rightarrow> inventory \<times> string list" where
  "persist_snapshot fs roots =
     (let results = [(CRON, enum_cron fs roots), (TIMER, enum_timers fs roots), (AUTOSTART, enum_autostart fs roots),
                     (AUTHKEY, enum_authorized_keys fs roots)]
      in (put_all (concat (map (\<lambda>(_, entries, _). keyed fs entries) results)), map fst (filter (\<lambda>(_, _, readable). \<not> readable) results)))"

section \<open>The worker\<close>

record persist_worker =
  pw_prev :: inventory
  pw_seeded :: bool

definition new_persist_worker :: persist_worker where
  "new_persist_worker = \<lparr>pw_prev = [], pw_seeded = False\<rparr>"

text \<open>\<open>at_event\<close> gives the clock and the fresh id of an emission.\<close>

definition inventory_event :: "(string \<Rightarrow> string \<Rightarrow> datetime \<times> string) \<Rightarrow> string \<Rightarrow> bool \<Rightarrow> string \<Rightarrow> persist_entry \<Rightarrow> event option" where
  "inventory_event at_event host first_seen action x =
     build_event (fst (at_event action (pe_key x))) (snd (at_event action (pe_key x))) ''persistence_snapshotter'' action [''host'']
       (if action = ''persistence_added'' then [''start''] else [''end'']) (if pe_kind x = AUTHKEY then ''medium'' else ''low'') ''event'' None
       (Some (action @ '' '' @ pe_kind x @ '' '' @ pe_name x))
       (no_blocks\<lparr>eb_host := Some [(''name'', PStr host)],
          eb_persistence := Some [(''kind'', PStr (pe_kind x)), (''name'', PStr (pe_name x)), (''source_path'', PStr (pe_source_path x)),
                                  (''details'', PStr (pe_details x)), (''key'', PStr (pe_key x))],
          eb_raw := Some [(''source'', PStr (pe_source_path x))]\<rparr>) (Some [''persistence'', ''persist:'' @ pe_kind x]) None first_seen"

definition effective :: "inventory \<Rightarrow> string list \<Rightarrow> inventory \<Rightarrow> inventory" where
  "effective current failed prev = current @ filter (\<lambda>(k, x). pe_kind x \<in> set failed \<and> map_of current k = None) prev"

text \<open>The differences are iterated as sets; \<open>order\<close> is the order in which the elements come out.\<close>

definition persist_step ::
  "(string list \<Rightarrow> string list) \<Rightarrow> (string \<Rightarrow> string \<Rightarrow> datetime \<times> string) \<Rightarrow> string \<Rightarrow> inventory \<times> string list \<Rightarrow> persist_worker
     \<Rightarrow> persist_worker \<times> event list" where
  "persist_step order at_event host snap w =
     (let (current, failed) = snap; eff = effective current failed (pw_prev w);
          added = order (map fst (added_rows (pw_prev w) eff)); removed = order (map fst (added_rows eff (pw_prev w)))
      in (\<lparr>pw_prev = eff, pw_seeded = True\<rparr>,
          List.map_filter (\<lambda>k. inventory_event at_event host (\<not> pw_seeded w) ''persistence_added'' (the (map_of eff k))) added
          @ List.map_filter (\<lambda>k. inventory_event at_event host False ''persistence_removed'' (the (map_of (pw_prev w) k))) removed))"

fun persist_run ::
  "(string list \<Rightarrow> string list) \<Rightarrow> (string \<Rightarrow> string \<Rightarrow> datetime \<times> string) \<Rightarrow> string \<Rightarrow> (inventory \<times> string list) list \<Rightarrow> persist_worker
     \<Rightarrow> persist_worker \<times> event list list" where
  "persist_run order at_event host [] w = (w, [])"
| "persist_run order at_event host (s # ss) w =
     (let (w1, es) = persist_step order at_event host s w; (w2, ess) = persist_run order at_event host ss w1 in (w2, es # ess))"

section \<open>Keys\<close>

definition good_inventory :: "inventory \<Rightarrow> bool" where
  "good_inventory t = (wf_table t \<and> (\<forall>(k, x)\<in>set t. pe_key x = k \<and> k \<noteq> ''''))"

lemma set_map_filter_iff: "y \<in> set (List.map_filter f xs) \<longleftrightarrow> (\<exists>x\<in>set xs. f x = Some y)"
  by (force simp: List.map_filter_def image_iff)

lemma put_all_set: "(k, v) \<in> set (put_all xs) \<Longrightarrow> (k, v) \<in> set xs"
proof -
  have "set (AList.update k v t) \<subseteq> insert (k, v) (set t)" for k :: 'a and v :: 'b and t by (induction t) auto
  then have "set (fold (\<lambda>(k, v) t. AList.update k v t) xs t) \<subseteq> set xs \<union> set t" for t :: "('a, 'b) table"
    by (induction xs arbitrary: t) (simp, fastforce)
  then show "(k, v) \<in> set (put_all xs) \<Longrightarrow> (k, v) \<in> set xs" unfolding put_all_def by (metis empty_set subsetD sup_bot_right)
qed

lemma entry_keys:
  "x \<in> set (fst (enum_cron fs roots)) \<Longrightarrow> pe_key x \<noteq> ''''" "x \<in> set (fst (enum_timers fs roots)) \<Longrightarrow> pe_key x \<noteq> ''''"
  "x \<in> set (fst (enum_autostart fs roots)) \<Longrightarrow> pe_key x \<noteq> ''''" "x \<in> set (fst (enum_authorized_keys fs roots)) \<Longrightarrow> pe_key x \<noteq> ''''"
proof -
  have cron: "parse_crontab fs p u = Some es \<Longrightarrow> x \<in> set es \<Longrightarrow> pe_key x \<noteq> ''''" for p u es x
    by (auto simp: parse_crontab_def set_map_filter_iff cron_key_def)
  have "x \<in> set (opt_list (parse_crontab fs p u)) \<Longrightarrow> pe_key x \<noteq> ''''" for p u x
    using cron[of p u] by (cases "parse_crontab fs p u") (auto simp: opt_list_def)
  then show "x \<in> set (fst (enum_cron fs roots)) \<Longrightarrow> pe_key x \<noteq> ''''" by (auto simp: enum_cron_def run_parts_entries_def)
  have "timer_entry fs s d u = Some x \<Longrightarrow> pe_key x \<noteq> ''''" for s d u x
    by (auto simp: timer_entry_def Let_def split: if_splits option.splits)
  then show "x \<in> set (fst (enum_timers fs roots)) \<Longrightarrow> pe_key x \<noteq> ''''" by (auto simp: enum_timers_def set_map_filter_iff)
  have "autostart_entry fs d n = Some x \<Longrightarrow> pe_key x \<noteq> ''''" for d n x
    by (auto simp: autostart_entry_def Let_def split: option.splits)
  then show "x \<in> set (fst (enum_autostart fs roots)) \<Longrightarrow> pe_key x \<noteq> ''''" by (auto simp: enum_autostart_def set_map_filter_iff)
  have "parse_authorized_key_line fs p l = Some x \<Longrightarrow> pe_key x \<noteq> ''''" for p l x
    by (auto simp: parse_authorized_key_line_def Let_def split: option.splits if_splits list.splits)
  then show "x \<in> set (fst (enum_authorized_keys fs roots)) \<Longrightarrow> pe_key x \<noteq> ''''"
    by (cases "pf_read fs (rt_authorized_keys roots)") (auto simp: enum_authorized_keys_def set_map_filter_iff)
qed

lemma keyed_good:
  assumes "\<forall>x\<in>set es. pe_key x \<noteq> ''''" "(k, x) \<in> set (keyed fs es)"
  shows "pe_key x = k \<and> k \<noteq> ''''"
  using assms(2) put_all_set[of _ _ "map (\<lambda>x. (pe_key x, x)) es"] assms(1) by (force simp: keyed_def)

lemma snapshot_good: "good_inventory (fst (persist_snapshot fs roots))"
proof -
  have "pe_key x = k \<and> k \<noteq> ''''" if "(k, x) \<in> set (fst (persist_snapshot fs roots))" for k x
  proof -
    have "(k, x) \<in> set (keyed fs (fst (enum_cron fs roots))) \<union> set (keyed fs (fst (enum_timers fs roots)))
        \<union> set (keyed fs (fst (enum_autostart fs roots))) \<union> set (keyed fs (fst (enum_authorized_keys fs roots)))"
      using put_all_set[OF that[unfolded persist_snapshot_def Let_def fst_conv]] by (simp add: split_def)
    then show ?thesis
      using entry_keys by (elim UnE) (rule keyed_good[rotated], assumption, blast)+
  qed
  then show ?thesis by (auto simp: good_inventory_def persist_snapshot_def Let_def put_all_wf)
qed

section \<open>One step\<close>

lemma effective_good: "good_inventory current \<Longrightarrow> good_inventory prev \<Longrightarrow> good_inventory (effective current failed prev)"
  by (force simp: good_inventory_def effective_def distinct_map_filter map_of_eq_None_iff)

text \<open>Entries of a kind that could not be read are carried forward.\<close>

lemma effective_lookup:
  assumes "good_inventory prev"
  shows "map_of (effective current failed prev) k =
    (case map_of current k of Some x \<Rightarrow> Some x
     | None \<Rightarrow> (case map_of prev k of None \<Rightarrow> None | Some x \<Rightarrow> if pe_kind x \<in> set failed then Some x else None))"
proof -
  have "wf_table prev" using assms by (simp add: good_inventory_def)
  then have "map_of (filter (\<lambda>(k, x). P k x) prev) k = (case map_of prev k of None \<Rightarrow> None | Some x \<Rightarrow> if P k x then Some x else None)" for P
    by (induction prev) (auto split: option.splits simp: map_of_eq_None_iff image_iff)
  then show ?thesis by (auto simp: effective_def map_add_def split: option.splits)
qed

lemma inventory_event_Some:
  "\<exists>e. inventory_event at_event host fs action x = Some e \<and> ev_module e = ''persistence_snapshotter'' \<and> ev_action e = action
     \<and> bget (ev_persistence e) ''key'' = PStr (pe_key x) \<and> bget (ev_persistence e) ''kind'' = PStr (pe_kind x) \<and> ev_first_seen e = fs"
  by (auto simp: inventory_event_def build_event_def severity_of_def event_kind_of_def)

section \<open>The table and the inventory\<close>

lemma observed_keys:
  "dom (map_of (persistence.observe t e)) =
     (case persistence_subject e of None \<Rightarrow> dom (map_of t)
      | Some (k, gone) \<Rightarrow> if gone then dom (map_of t) - {k} else insert k (dom (map_of t)))"
  by (auto simp: persistence.observe_def map_of_alist_delete map_of_upsert split: option.split if_splits)

definition named_keys :: "inventory \<Rightarrow> pyval set" where
  "named_keys t = PStr ` dom (map_of t)"

text \<open>Adding and then removing entries, in any order of each.\<close>

lemma observe_added:
  assumes "\<forall>k\<in>set ks. map_of t k \<noteq> None \<and> pe_key (the (map_of t k)) = k \<and> k \<noteq> ''''"
  shows "dom (map_of (foldl persistence.observe p (List.map_filter (\<lambda>k. inventory_event at_event host fs ''persistence_added'' (the (map_of t k))) ks)))
    = PStr ` set ks \<union> dom (map_of p)"
  using assms
proof (induction ks arbitrary: p)
  case (Cons k ks)
  obtain e where e: "inventory_event at_event host fs ''persistence_added'' (the (map_of t k)) = Some e" "ev_module e = ''persistence_snapshotter''"
    "ev_action e = ''persistence_added''" "bget (ev_persistence e) ''key'' = PStr (pe_key (the (map_of t k)))" "bget (ev_persistence e) ''kind'' = PStr (pe_kind (the (map_of t k)))"
    using inventory_event_Some by blast
  then have "persistence_subject e = Some (PStr k, False)" using Cons.prems by (simp add: persistence_subject_def Let_def)
  then show ?case using Cons e(1) by (auto simp: observed_keys)
qed simp

lemma observe_removed:
  assumes "\<forall>k\<in>set ks. map_of t k \<noteq> None \<and> pe_key (the (map_of t k)) = k \<and> k \<noteq> ''''"
  shows "dom (map_of (foldl persistence.observe p (List.map_filter (\<lambda>k. inventory_event at_event host fs ''persistence_removed'' (the (map_of t k))) ks)))
    = dom (map_of p) - PStr ` set ks"
  using assms
proof (induction ks arbitrary: p)
  case (Cons k ks)
  obtain e where e: "inventory_event at_event host fs ''persistence_removed'' (the (map_of t k)) = Some e" "ev_module e = ''persistence_snapshotter''"
    "ev_action e = ''persistence_removed''" "bget (ev_persistence e) ''key'' = PStr (pe_key (the (map_of t k)))"
    using inventory_event_Some by blast
  then have "persistence_subject e = Some (PStr k, True)" using Cons.prems by (simp add: persistence_subject_def Let_def)
  then show ?case using Cons e(1) by (auto simp: observed_keys)
qed simp

definition set_order :: "(string list \<Rightarrow> string list) \<Rightarrow> bool" where
  "set_order order = (\<forall>xs. set (order xs) = set xs)"

lemma good_lookup: "good_inventory t \<Longrightarrow> map_of t k \<noteq> None \<Longrightarrow> pe_key (the (map_of t k)) = k \<and> k \<noteq> ''''"
  by (auto simp: good_inventory_def dest!: map_of_SomeD)

lemma step_keys:
  assumes order: "set_order order" and good: "good_inventory (fst snap)" "good_inventory (pw_prev w)"
    and step: "persist_step order at_event host snap w = (w1, es)"
  shows "dom (map_of (foldl persistence.observe p es))
      = (PStr ` {k. map_of (pw_prev w1) k \<noteq> None \<and> map_of (pw_prev w) k = None} \<union> dom (map_of p))
        - PStr ` {k. map_of (pw_prev w) k \<noteq> None \<and> map_of (pw_prev w1) k = None}"
    and "good_inventory (pw_prev w1)"
proof -
  let ?eff = "effective (fst snap) (snd snap) (pw_prev w)"
  let ?a = "order (map fst (added_rows (pw_prev w) ?eff))" and ?r = "order (map fst (added_rows ?eff (pw_prev w)))"
  have eff: "good_inventory ?eff" using effective_good[OF good] by simp
  have sets: "set ?a = {k. map_of ?eff k \<noteq> None \<and> map_of (pw_prev w) k = None}" "set ?r = {k. map_of (pw_prev w) k \<noteq> None \<and> map_of ?eff k = None}"
    using order added_rows_keys(2)[of ?eff "pw_prev w"] added_rows_keys(2)[of "pw_prev w" ?eff] eff good(2)
    by (simp_all add: set_order_def good_inventory_def)
  have w1: "w1 = \<lparr>pw_prev = ?eff, pw_seeded = True\<rparr>"
    and es: "es = List.map_filter (\<lambda>k. inventory_event at_event host (\<not> pw_seeded w) ''persistence_added'' (the (map_of ?eff k))) ?a
       @ List.map_filter (\<lambda>k. inventory_event at_event host False ''persistence_removed'' (the (map_of (pw_prev w) k))) ?r"
    using step by (auto simp: persist_step_def Let_def split_def)
  have a: "\<forall>k\<in>set ?a. map_of ?eff k \<noteq> None \<and> pe_key (the (map_of ?eff k)) = k \<and> k \<noteq> ''''" using good_lookup[OF eff] unfolding sets by blast
  have r: "\<forall>k\<in>set ?r. map_of (pw_prev w) k \<noteq> None \<and> pe_key (the (map_of (pw_prev w) k)) = k \<and> k \<noteq> ''''" using good_lookup[OF good(2)] unfolding sets by blast
  have "dom (map_of (foldl persistence.observe p es)) = (PStr ` set ?a \<union> dom (map_of p)) - PStr ` set ?r"
    unfolding es foldl_append observe_removed[OF r] observe_added[OF a] ..
  then show "dom (map_of (foldl persistence.observe p es))
      = (PStr ` {k. map_of (pw_prev w1) k \<noteq> None \<and> map_of (pw_prev w) k = None} \<union> dom (map_of p))
        - PStr ` {k. map_of (pw_prev w) k \<noteq> None \<and> map_of (pw_prev w1) k = None}" unfolding sets w1 by simp
  show "good_inventory (pw_prev w1)" using eff w1 by simp
qed

lemma step_mirrors:
  assumes "set_order order" "good_inventory (fst snap)" "good_inventory (pw_prev w)"
    and table: "dom (map_of p) = named_keys (pw_prev w)" and step: "persist_step order at_event host snap w = (w1, es)"
  shows "dom (map_of (foldl persistence.observe p es)) = named_keys (pw_prev w1)"
  unfolding step_keys(1)[OF assms(1-3) step] table named_keys_def by (auto simp: dom_def image_iff)

lemma run_mirrors:
  assumes "set_order order" "\<forall>s\<in>set ss. good_inventory (fst s)" "good_inventory (pw_prev w)" "dom (map_of p) = named_keys (pw_prev w)"
    "persist_run order at_event host ss w = (w', ess)"
  shows "dom (map_of (foldl persistence.observe p (concat ess))) = named_keys (pw_prev w')"
  using assms(2-)
proof (induction ss arbitrary: w p ess)
  case (Cons s ss)
  obtain w1 es ess1 where step: "persist_step order at_event host s w = (w1, es)" and rest: "persist_run order at_event host ss w1 = (w', ess1)"
    and ess: "ess = es # ess1" using Cons.prems(4) by (auto split: prod.splits)
  have m: "dom (map_of (foldl persistence.observe p es)) = named_keys (pw_prev w1)" "good_inventory (pw_prev w1)"
    using step_mirrors[OF assms(1) _ Cons.prems(2,3) step] step_keys(2)[OF assms(1) _ Cons.prems(2) step] Cons.prems(1) by auto
  show ?case using Cons.IH[OF _ m(2,1) rest] Cons.prems(1) ess by simp
qed simp

lemma step_marks:
  assumes "persist_step order at_event host snap w = (w1, es)" "e \<in> set es" "pw_seeded w \<or> ev_action e = ''persistence_removed''"
  shows "\<not> ev_first_seen e"
proof -
  have mark: "inventory_event at_event host fs action x = Some e \<Longrightarrow> ev_first_seen e = fs \<and> ev_action e = action" for fs action x
    using inventory_event_Some[of at_event host fs action x] by auto
  show ?thesis using assms by (auto simp: persist_step_def Let_def split_def set_map_filter_iff dest!: mark)
qed

lemma seeded_marks:
  "persist_run order at_event host ss w = (w', ess) \<Longrightarrow> pw_seeded w \<Longrightarrow> \<forall>e\<in>set (concat ess). \<not> ev_first_seen e"
proof (induction ss arbitrary: w ess)
  case (Cons s ss)
  obtain w1 es ess1 where step: "persist_step order at_event host s w = (w1, es)" and rest: "persist_run order at_event host ss w1 = (w', ess1)"
    and ess: "ess = es # ess1" using Cons.prems(1) by (auto split: prod.splits)
  have "pw_seeded w1" using step by (auto simp: persist_step_def Let_def split_def)
  then show ?case using Cons.IH[OF rest] step_marks[OF step] Cons.prems(2) ess by auto
qed simp

lemma later_marks:
  assumes "persist_run order at_event host ss w = (w', ess)"
  shows "\<forall>e\<in>set (concat (drop 1 ess)). \<not> ev_first_seen e"
proof (cases ss)
  case (Cons s ss1)
  obtain w1 es ess1 where step: "persist_step order at_event host s w = (w1, es)" and rest: "persist_run order at_event host ss1 w1 = (w', ess1)"
    and ess: "ess = es # ess1" using assms Cons by (auto split: prod.splits)
  have "pw_seeded w1" using step by (auto simp: persist_step_def Let_def split_def)
  then show ?thesis using seeded_marks[OF rest] ess by simp
qed (use assms in simp)

text \<open>A fresh worker has nothing to remove, so its first events are all additions.\<close>

lemma first_step_marks:
  assumes "set_order order" "persist_run order at_event host ss new_persist_worker = (w', ess)"
  shows "\<forall>e\<in>set (concat (take 1 ess)). ev_first_seen e"
proof (cases ss)
  case (Cons s ss1)
  obtain w1 es where step: "persist_step order at_event host s new_persist_worker = (w1, es)" and ess: "take 1 ess = [es]"
    using assms(2) Cons by (auto split: prod.splits)
  have none: "order (map fst (added_rows t [])) = []" for t :: inventory
    using assms(1) by (simp add: added_rows_def set_order_def) (metis empty_set set_empty)
  have mark: "inventory_event at_event host True ''persistence_added'' x = Some e \<Longrightarrow> ev_first_seen e" for x e
    using inventory_event_Some[of at_event host True "''persistence_added''" x] by auto
  have "List.map_filter (\<lambda>k. inventory_event at_event host True ''persistence_added'' (the (map_of (effective (fst s) (snd s) []) k)))
      (order (map fst (added_rows [] (effective (fst s) (snd s) [])))) = es"
    using step none by (auto simp: persist_step_def Let_def split_def new_persist_worker_def List.map_filter_def)
  then show ?thesis using mark ess by (auto simp: set_map_filter_iff)
qed (use assms in simp)

lemma run_last:
  assumes "persist_run order at_event host ss w = (w', ess)" "ss \<noteq> []" "good_inventory (pw_prev w)" "\<forall>s\<in>set ss. good_inventory (fst s)"
  shows "\<exists>prev. good_inventory prev \<and> pw_prev w' = effective (fst (last ss)) (snd (last ss)) prev"
  using assms
proof (induction ss arbitrary: w ess)
  case (Cons s ss)
  obtain w1 es ess1 where step: "persist_step order at_event host s w = (w1, es)" and rest: "persist_run order at_event host ss w1 = (w', ess1)"
    using Cons.prems(1) by (auto split: prod.splits)
  have w1: "pw_prev w1 = effective (fst s) (snd s) (pw_prev w)" using step by (auto simp: persist_step_def Let_def split_def)
  show ?case
  proof (cases "ss = []")
    case True
    then show ?thesis using rest w1 Cons.prems(3) by auto
  next
    case False
    have "good_inventory (pw_prev w1)" using effective_good Cons.prems(3,4) w1 by simp
    then show ?thesis using Cons.IH[OF rest False] Cons.prems(4) False by simp
  qed
qed simp


definition sample_roots :: persist_roots where
  "sample_roots = \<lparr>rt_crontab = ''/c'', rt_cron_d = ''/d'', rt_run_parts = [], rt_user_crontab = ''/u'', rt_timer_wants = [], rt_autostart = [], rt_authorized_keys = ''/k''\<rparr>"

definition sample_host_fs :: "string option \<Rightarrow> string list option \<Rightarrow> persist_fs" where
  "sample_host_fs crontab cron_d =
     \<lparr>pf_read = (\<lambda>p. if p = ''/c'' then crontab else if p = ''/d/x'' then Some ''@daily root evil'' else None), pf_list = (\<lambda>p. if p = ''/d'' then cron_d else None),
      pf_is_file = (\<lambda>_. True), pf_realpath = (\<lambda>_. None), pf_ellipsis = ''.'', pf_sha = (\<lambda>_. ''0''), pf_b64 = (\<lambda>_. None), pf_fingerprint = (\<lambda>_. '''')\<rparr>"


text \<open>A kind counts as unreadable only when every one of its sources is. While the system crontab can be read, a \<^verbatim>\<open>cron.d\<close> that cannot be
  listed for one step looks like the removal of everything in it.\<close>

definition removals_of :: "event list \<Rightarrow> string list" where
  "removals_of es = map ev_action (filter (\<lambda>e. ev_action e = ''persistence_removed'') es)"

lemma partial_failure_looks_like_removal:
  "removals_of (concat (snd (persist_run id (\<lambda>_ _. (0, '''')) ''h''
     (map (\<lambda>fs. persist_snapshot fs sample_roots) [sample_host_fs (Some '''') (Some [''x'']), sample_host_fs (Some '''') None]) new_persist_worker))) = [''persistence_removed'']"
  "removals_of (concat (snd (persist_run id (\<lambda>_ _. (0, '''')) ''h''
     (map (\<lambda>fs. persist_snapshot fs sample_roots) [sample_host_fs (Some '''') (Some [''x'']), sample_host_fs None None]) new_persist_worker))) = []"
  by code_simp+

text \<open>A worker that starts again starts from nothing, so what disappeared while it was away is never reported and its row stays.\<close>

lemma restart_keeps_stale_rows:
  assumes "set_order order" "persist_run order at_event host ss w = (w', ess)" "good_inventory (pw_prev w)"
    "\<forall>s\<in>set ss. good_inventory (fst s) \<and> map_of (fst s) n = None" "map_of (pw_prev w) n = None" "map_of p (PStr n) \<noteq> None"
  shows "map_of (foldl persistence.observe p (concat ess)) (PStr n) \<noteq> None"
  using assms(2-)
proof (induction ss arbitrary: w p ess)
  case (Cons s ss)
  obtain w1 es ess1 where step: "persist_step order at_event host s w = (w1, es)" and rest: "persist_run order at_event host ss w1 = (w', ess1)"
    and ess: "ess = es # ess1" using Cons.prems(1) by (auto split: prod.splits)
  have good: "good_inventory (fst s)" using Cons.prems(3) by simp
  have "pw_prev w1 = effective (fst s) (snd s) (pw_prev w)" using step by (auto simp: persist_step_def Let_def split_def)
  then have "map_of (pw_prev w1) n = None" using effective_lookup[OF Cons.prems(2)] Cons.prems(3,4) by simp
  moreover have "PStr n \<in> dom (map_of (foldl persistence.observe p es))"
    unfolding step_keys(1)[OF assms(1) good Cons.prems(2) step] using Cons.prems(4,5) by auto
  ultimately show ?case using Cons.IH[OF rest step_keys(2)[OF assms(1) good Cons.prems(2) step]] Cons.prems(3) ess by auto
qed simp

end
