(* ===== verification/Host_Monitors.thy ===== *)
theory Host_Monitors
  imports Snapshots
begin

text \<open>
  Two more collectors: the firewall inspector, which compares digests of the ruleset (\<^verbatim>\<open>workers/firewall_inspector\<close>), and the device monitor,
  which frames the output of a long-lived \<^verbatim>\<open>udevadm monitor\<close> into blocks and reads their properties (\<^verbatim>\<open>workers/udev_monitor\<close>). The unified diff and
  the digest are parameters; a chunk of device output is its decoded text.
\<close>

section \<open>The firewall\<close>

definition capture_ruleset :: "service_run \<Rightarrow> service_run \<Rightarrow> string \<times> string" where
  "capture_ruleset nft iptables =
     (case nft of
        Run_ends code out \<Rightarrow> if code = 0 then (''nftables'', out) else (case iptables of Run_ends c o2 \<Rightarrow> if c = 0 then (''iptables'', o2) else (''none'', '''') | Run_raises \<Rightarrow> (''none'', ''''))
      | Run_raises \<Rightarrow> (case iptables of Run_ends c o2 \<Rightarrow> if c = 0 then (''iptables'', o2) else (''none'', '''') | Run_raises \<Rightarrow> (''none'', '''')))"

record ruleset_change =
  rc_backend :: string
  rc_previous :: string
  rc_digest :: string
  rc_added :: nat
  rc_removed :: nat
  rc_diff :: string

text \<open>\<open>udiff\<close> yields the lines of the unified diff and \<open>cut\<close> is the line put after a cut diff.\<close>

record firewall_env =
  fe_sha :: "string \<Rightarrow> string"
  fe_udiff :: "string list \<Rightarrow> string list \<Rightarrow> string list"
  fe_cut :: string

definition diff_summary :: "firewall_env \<Rightarrow> string \<Rightarrow> string \<Rightarrow> nat \<times> nat \<times> string" where
  "diff_summary e old new =
     (let lines = fe_udiff e (splitlines old) (splitlines new);
          added = length (filter (\<lambda>l. startswith l ''+'' \<and> \<not> startswith l ''+++'') lines);
          removed = length (filter (\<lambda>l. startswith l ''-'' \<and> \<not> startswith l ''---'') lines)
      in (added, removed, join_with [CHR 0x0A] (if length lines > 50 then take 50 lines @ [fe_cut e] else lines)))"

record firewall_source =
  fw_backend :: string
  fw_text :: string
  fw_digest :: string
  fw_closed :: bool

definition open_firewall :: "firewall_env \<Rightarrow> string \<times> string \<Rightarrow> firewall_source" where
  "open_firewall e c = \<lparr>fw_backend = fst c, fw_text = snd c, fw_digest = fe_sha e (snd c), fw_closed = False\<rparr>"

definition poll_firewall :: "firewall_env \<Rightarrow> string \<times> string \<Rightarrow> firewall_source \<Rightarrow> (firewall_source \<times> ruleset_change list) option" where
  "poll_firewall e c s =
     (let (backend, t) = c; digest = fe_sha e t; adopted = s\<lparr>fw_backend := backend, fw_text := t, fw_digest := digest\<rparr>
      in if fw_closed s then None
         else if digest = fw_digest s then Some (s\<lparr>fw_backend := backend\<rparr>, [])
         else if fw_backend s = ''none'' \<or> backend = ''none'' then Some (adopted, [])
         else let (added, removed, d) = diff_summary e (fw_text s) t
              in Some (adopted, [\<lparr>rc_backend = backend, rc_previous = fw_digest s, rc_digest = digest, rc_added = added, rc_removed = removed, rc_diff = d\<rparr>]))"

definition ruleset_event :: "datetime \<Rightarrow> string \<Rightarrow> string \<Rightarrow> ruleset_change \<Rightarrow> event option" where
  "ruleset_event now eid host r =
     build_event now eid ''firewall_inspector'' ''firewall_ruleset_changed'' [''configuration''] [''change''] ''medium'' ''state'' None
       (Some (''firewall ruleset changed ('' @ rc_backend r @ ''): +'' @ nat_str (rc_added r) @ '' -'' @ nat_str (rc_removed r) @ '' lines''))
       (no_blocks\<lparr>eb_host := Some [(''name'', PStr host)],
          eb_raw := Some [(''source'', PStr (rc_backend r)), (''digest'', PStr (rc_digest r)), (''previous_digest'', PStr (rc_previous r)),
                          (''added'', PInt (int (rc_added r))), (''removed'', PInt (int (rc_removed r))), (''diff'', PStr (rc_diff r))]\<rparr>)
       (Some [''firewall'']) (Some now) False"

text \<open>A poll reports exactly when two readable rulesets have different digests, and names both.\<close>

lemma firewall_reports:
  assumes "poll_firewall e c s = Some (s', rs)"
  shows "(rs \<noteq> [] \<longleftrightarrow> fe_sha e (snd c) \<noteq> fw_digest s \<and> fw_backend s \<noteq> ''none'' \<and> fst c \<noteq> ''none'')
    \<and> (\<forall>r\<in>set rs. rc_previous r = fw_digest s \<and> rc_digest r = fe_sha e (snd c)) \<and> fw_digest s' = fe_sha e (snd c) \<and> length rs \<le> 1"
  using assms by (auto simp: poll_firewall_def Let_def split: prod.splits if_splits)

section \<open>Device events\<close>

definition MAX_BLOCK_LINES :: nat where "MAX_BLOCK_LINES = 500"
definition MAX_LINEBUF_CHARS :: nat where "MAX_LINEBUF_CHARS = 1048576"

record device_record =
  dr_action :: string
  dr_subsystem :: string
  dr_devtype :: string
  dr_devpath :: string
  dr_vendor :: string
  dr_product :: string
  dr_serial :: string
  dr_name :: string
  dr_properties :: "(string, string) table"

definition property_line :: "string \<Rightarrow> (string \<times> string) option" where
  "property_line line =
     (let (k, found, v) = partition_at (CHR ''='') line in if strip line = '''' \<or> \<not> found \<or> k = '''' then None else Some (k, v))"

definition udev_prop :: "(string, string) table \<Rightarrow> string \<Rightarrow> string" where
  "udev_prop props k = (case map_of props k of None \<Rightarrow> '''' | Some v \<Rightarrow> v)"

text \<open>\<^verbatim>\<open>a or b or ""\<close>.\<close>

definition first_text :: "string list \<Rightarrow> string" where
  "first_text ts = (case find (\<lambda>t. t \<noteq> '''') ts of None \<Rightarrow> '''' | Some t \<Rightarrow> t)"

definition parse_event_block :: "string list \<Rightarrow> device_record option" where
  "parse_event_block lines =
     (let props = put_all (List.map_filter property_line lines); p = udev_prop props; devpath = p ''DEVPATH''
      in if p ''ACTION'' = '''' then None
         else Some \<lparr>dr_action = p ''ACTION'', dr_subsystem = p ''SUBSYSTEM'', dr_devtype = p ''DEVTYPE'', dr_devpath = devpath,
                    dr_vendor = first_text [p ''ID_VENDOR_ID'', p ''ID_VENDOR''], dr_product = first_text [p ''ID_MODEL_ID'', p ''ID_MODEL''],
                    dr_serial = first_text [p ''ID_SERIAL_SHORT'', p ''ID_SERIAL''],
                    dr_name = first_text [p ''ID_MODEL'', p ''ID_VENDOR'', after_last (CHR ''/'') devpath], dr_properties = props\<rparr>)"

fun udev_lines :: "string list \<Rightarrow> string list \<Rightarrow> string list \<times> device_record list" where
  "udev_lines block [] = (block, [])"
| "udev_lines block (line # lines) =
     (if line = '''' then
        (let (b, rs) = udev_lines [] lines in (b, (case parse_event_block block of None \<Rightarrow> rs | Some r \<Rightarrow> r # rs)))
      else udev_lines (if length (block @ [line]) > MAX_BLOCK_LINES then [] else block @ [line]) lines)"

record udev_source =
  us_block :: "string list"
  us_linebuf :: string
  us_closed :: bool

definition new_udev :: udev_source where
  "new_udev = \<lparr>us_block = [], us_linebuf = '''', us_closed = False\<rparr>"

text \<open>What a poll meets: nothing within the timeout or an interrupted read, the end of the child, or a chunk.\<close>

datatype udev_read = Nothing_read | Child_gone | Read_chunk string

definition poll_udev :: "udev_read \<Rightarrow> udev_source \<Rightarrow> (udev_source \<times> device_record list) option" where
  "poll_udev r s =
     (if us_closed s then None
      else case r of
        Nothing_read \<Rightarrow> Some (s, [])
      | Child_gone \<Rightarrow> None
      | Read_chunk t \<Rightarrow>
          (let buf = us_linebuf s @ t; parts = split_on (CHR 0x0A) buf; (block, rs) = udev_lines (us_block s) (butlast parts)
           in if CHR 0x0A \<notin> set buf \<and> length buf > MAX_LINEBUF_CHARS then Some (s\<lparr>us_linebuf := '''', us_block := []\<rparr>, [])
              else Some (s\<lparr>us_linebuf := last parts, us_block := block\<rparr>, rs)))"

definition udev_event :: "datetime \<Rightarrow> string \<Rightarrow> string \<Rightarrow> device_record \<Rightarrow> event option" where
  "udev_event now eid host r =
     (let (action, types, verb) = (if dr_action r = ''add'' then (''device_added'', [''installation''], '' device added: '')
             else if dr_action r = ''remove'' then (''device_removed'', [''deletion''], '' device removed: '')
             else (''device_changed'', [''change''], '' device changed ('' @ dr_action r @ ''): ''))
      in build_event now eid ''udev_monitor'' action [''host''] types ''info'' ''event'' None
           (Some (dr_subsystem r @ verb @ dr_name r @ '' '' @ dr_vendor r @ '':'' @ dr_product r @ '' at '' @ dr_devpath r))
           (no_blocks\<lparr>eb_host := Some [(''name'', PStr host)],
              eb_device := Some [(''name'', PStr (dr_name r)), (''kind'', PStr (first_text [dr_devtype r, dr_subsystem r])), (''vendor'', PStr (dr_vendor r)),
                                 (''product'', PStr (dr_product r)), (''serial'', PStr (dr_serial r))],
              eb_raw := Some (AList.update ''source'' (PStr ''udevadm'') (map (\<lambda>(k, v). (k, PStr v)) (dr_properties r)))\<rparr>)
           (Some [''device'']) (Some now) False)"

text \<open>A forged property cannot replace the marker of the source.\<close>

lemma udev_marker_stays: "udev_event now eid host r = Some e \<Longrightarrow> bget (ev_raw e) ''source'' = PStr ''udevadm''"
  by (auto simp: udev_event_def build_event_def dget_def update_conv' Let_def split: prod.splits option.splits if_splits)

section \<open>Framing\<close>

lemma split_on_nonempty [simp]: "split_on sep s \<noteq> []"
  by (induction s) (auto split: list.splits)

lemma split_on_Cons: "split_on sep (c # s) = (if c = sep then [] # split_on sep s else (c # hd (split_on sep s)) # tl (split_on sep s))"
  by (cases "split_on sep s") auto

lemma split_on_glue: "split_on sep (a @ b) = butlast (split_on sep a) @ split_on sep (last (split_on sep a) @ b)"
proof (induction a)
  case (Cons c a)
  then show ?case
    by (cases "split_on sep a") (auto simp: split_on_Cons simp del: split_on.simps(2))
qed simp

lemma last_split_on: "sep \<notin> set (last (split_on sep s))"
  by (induction s) (auto split: list.splits)

lemma split_on_plain: "sep \<notin> set s \<Longrightarrow> split_on sep s = [s]"
  by (induction s) auto

lemma udev_lines_append:
  "udev_lines b (xs @ ys) = (let (b1, r1) = udev_lines b xs; (b2, r2) = udev_lines b1 ys in (b2, r1 @ r2))"
  by (induction b xs rule: udev_lines.induct) (auto simp: Let_def split: prod.splits option.splits)

fun poll_chunks :: "string list \<Rightarrow> udev_source \<Rightarrow> (udev_source \<times> device_record list) option" where
  "poll_chunks [] s = Some (s, [])"
| "poll_chunks (t # ts) s =
     (case poll_udev (Read_chunk t) s of None \<Rightarrow> None | Some (s1, rs) \<Rightarrow> map_option (\<lambda>(s2, rs2). (s2, rs @ rs2)) (poll_chunks ts s1))"

lemma udev_block_bound: "length b \<le> MAX_BLOCK_LINES \<Longrightarrow> length (fst (udev_lines b ls)) \<le> MAX_BLOCK_LINES"
  by (induction b ls rule: udev_lines.induct) (auto simp: Let_def split: prod.splits)

lemma split_on_two: "sep \<in> set s \<Longrightarrow> tl (split_on sep s) \<noteq> []"
  by (induction s) (auto simp: split_on_Cons simp del: split_on.simps(2))

lemma last_split_on_append: "sep \<in> set b \<Longrightarrow> last (split_on sep (a @ b)) = last (split_on sep b)"
proof (induction a)
  case (Cons c a)
  then show ?case using split_on_two[of sep "a @ b"] by (cases "split_on sep (a @ b)") (auto simp: split_on_Cons simp del: split_on.simps(2))
qed simp

lemma last_split_on_length: "length (last (split_on sep s)) \<le> length s"
  by (induction s) (auto split: list.splits)

text \<open>Whatever the device sends, the two buffers stay bounded.\<close>

definition udev_bounded :: "udev_source \<Rightarrow> bool" where
  "udev_bounded s = (length (us_block s) \<le> MAX_BLOCK_LINES \<and> length (us_linebuf s) \<le> MAX_LINEBUF_CHARS \<and> CHR 0x0A \<notin> set (us_linebuf s))"

lemma udev_buffers_bounded:
  assumes "poll_udev r s = Some (s', rs)" "udev_bounded s" "\<forall>t. r = Read_chunk t \<longrightarrow> length t \<le> 65536"
  shows "udev_bounded s'"
proof (cases r)
  case (Read_chunk t)
  let ?buf = "us_linebuf s @ t"
  have "length (last (split_on (CHR 0x0A) ?buf)) \<le> MAX_LINEBUF_CHARS" if "CHR 0x0A \<in> set ?buf \<or> length ?buf \<le> MAX_LINEBUF_CHARS"
  proof (cases "CHR 0x0A \<in> set ?buf")
    case True
    then have "CHR 0x0A \<in> set t" using assms(2) by (auto simp: udev_bounded_def)
    then show ?thesis using last_split_on_append[of "CHR 0x0A" t] last_split_on_length[of "CHR 0x0A" t] assms(3) Read_chunk
      by (simp add: MAX_LINEBUF_CHARS_def)
  next
    case False
    then show ?thesis using that by (simp add: split_on_plain)
  qed
  then show ?thesis using assms Read_chunk udev_block_bound[of "us_block s"] last_split_on[of "CHR 0x0A" ?buf]
    by (auto simp: poll_udev_def udev_bounded_def Let_def split: prod.splits if_splits) (metis fst_conv)+
qed (use assms in \<open>auto simp: poll_udev_def split: if_splits\<close>)

text \<open>What a device stream means, read in one piece.\<close>

definition stream_records :: "string \<Rightarrow> string list \<times> device_record list" where
  "stream_records t = udev_lines [] (butlast (split_on (CHR 0x0A) t))"

lemma hd_split_on: "sep \<notin> set a \<Longrightarrow> \<exists>z. hd (split_on sep (a @ b)) = a @ z"
  by (induction a) (auto simp: split_on_Cons simp del: split_on.simps(2))

lemma line_in_progress:
  assumes "\<forall>l\<in>set (split_on sep (t @ c @ rest)). length l \<le> n" "sep \<notin> set (last (split_on sep t) @ c)"
  shows "length (last (split_on sep t) @ c) \<le> n"
proof -
  have "hd (split_on sep ((last (split_on sep t) @ c) @ rest)) \<in> set (split_on sep (t @ c @ rest))"
    by (subst split_on_glue) simp
  then show ?thesis using assms(1) hd_split_on[OF assms(2), of rest] by fastforce
qed

lemma stream_records_append:
  "stream_records (t @ c) = (let (b, rs) = udev_lines (fst (stream_records t)) (butlast (split_on (CHR 0x0A) (last (split_on (CHR 0x0A) t) @ c)))
     in (b, snd (stream_records t) @ rs))"
  unfolding stream_records_def by (subst split_on_glue) (simp add: butlast_append udev_lines_append split_def Let_def)

lemma poll_chunks_exact:
  assumes "poll_chunks ts s = Some (s', rs)" "\<forall>l\<in>set (split_on (CHR 0x0A) (t @ concat ts)). length l \<le> MAX_LINEBUF_CHARS"
    and "us_linebuf s = last (split_on (CHR 0x0A) t)" "us_block s = fst (stream_records t)"
  shows "snd (stream_records (t @ concat ts)) = snd (stream_records t) @ rs \<and> us_block s' = fst (stream_records (t @ concat ts))
    \<and> us_linebuf s' = last (split_on (CHR 0x0A) (t @ concat ts))"
  using assms
proof (induction ts arbitrary: s t rs)
  case (Cons c cs)
  let ?nl = "CHR 0x0A" and ?buf = "us_linebuf s @ c"
  obtain s1 rs1 rs2 where poll: "poll_udev (Read_chunk c) s = Some (s1, rs1)" and rest: "poll_chunks cs s1 = Some (s', rs2)" and rs: "rs = rs1 @ rs2"
    using Cons.prems(1) by (auto split: option.splits)
  have "\<not> (?nl \<notin> set ?buf \<and> length ?buf > MAX_LINEBUF_CHARS)"
    using line_in_progress[of ?nl t c "concat cs" MAX_LINEBUF_CHARS] Cons.prems(2,3) by auto
  then have s1: "us_linebuf s1 = last (split_on ?nl ?buf)" "udev_lines (us_block s) (butlast (split_on ?nl ?buf)) = (us_block s1, rs1)"
    using poll by (auto simp: poll_udev_def Let_def split: prod.splits if_splits)
  have "stream_records (t @ c) = (us_block s1, snd (stream_records t) @ rs1)"
    using s1(2) Cons.prems(3,4) by (simp add: stream_records_append)
  moreover have "us_linebuf s1 = last (split_on ?nl (t @ c))" using s1(1) Cons.prems(3) by (subst split_on_glue) simp
  ultimately show ?case using Cons.IH[OF rest, of "t @ c"] Cons.prems(2) rs by simp
qed simp

text \<open>As long as no line of the device stream is longer than the line cap, the records of the device monitor depend only on the stream and
  not on how it was cut into reads: they are those of the whole stream split into lines and blocks, with what is unfinished kept for the next
  read. Whatever is read, a read of at most 64 KiB leaves at most 500 lines and one MiB of text in the buffers.\<close>

theorem device_stream_is_framed:
  assumes "poll_chunks ts new_udev = Some (s, rs)" "\<forall>l\<in>set (split_on (CHR 0x0A) (concat ts)). length l \<le> MAX_LINEBUF_CHARS"
  shows "rs = snd (stream_records (concat ts)) \<and> us_block s = fst (stream_records (concat ts)) \<and> us_linebuf s = last (split_on (CHR 0x0A) (concat ts))
    \<and> (\<forall>q r q' ds. udev_bounded q \<and> poll_udev r q = Some (q', ds) \<and> (\<forall>t. r = Read_chunk t \<longrightarrow> length t \<le> 65536) \<longrightarrow> udev_bounded q')"
  using poll_chunks_exact[of ts new_udev s rs "[]"] assms udev_buffers_bounded by (auto simp: new_udev_def stream_records_def)

definition sample_block :: string where
  "sample_block = ''UDEV  [1.0] add'' @ [CHR 0x0A] @ ''ACTION=add'' @ [CHR 0x0A] @ ''ID_MODEL=Stick'' @ [CHR 0x0A, CHR 0x0A]"

theorem device_stream_is_framed_witness:
  "\<exists>s rs. poll_chunks [take 20 sample_block, drop 20 sample_block] new_udev = Some (s, rs) \<and> rs = snd (stream_records sample_block)"
proof -
  let ?ts = "[take 20 sample_block, drop 20 sample_block]"
  have open1: "us_closed q = False \<Longrightarrow> \<exists>q' ds. poll_udev (Read_chunk t) q = Some (q', ds) \<and> us_closed q' = False" for q t
    by (auto simp: poll_udev_def Let_def split: prod.splits)
  obtain q ds where q: "poll_udev (Read_chunk (take 20 sample_block)) new_udev = Some (q, ds)" "us_closed q = False"
    using open1[of new_udev "take 20 sample_block"] by (auto simp: new_udev_def)
  obtain q2 ds2 where "poll_udev (Read_chunk (drop 20 sample_block)) q = Some (q2, ds2)" using open1[OF q(2)] by blast
  then obtain s rs where run: "poll_chunks ?ts new_udev = Some (s, rs)" using q(1) by simp
  have "\<forall>l\<in>set (split_on (CHR 0x0A) (concat ?ts)). length l \<le> MAX_LINEBUF_CHARS"
    by (simp add: sample_block_def MAX_LINEBUF_CHARS_def)
  then show ?thesis using device_stream_is_framed[OF run] run by auto
qed

end
