(* ===== verification/Spec2Isabelle.thy ===== *)
theory Spec2Isabelle
  imports Rate_Limit Router Journal Rule_Engine Vuln_Scan Retention_Journal Custody_Steps Persistence Restart_Policy Command_Channel
    Supervisor_Laws Well_Formed Hunt_Injection Hunt_Consent
    Ipc_Refusals Ipc_Commands Worker_Loop Anomaly_Signals Scanner_Laws
    Web_Guard Dependency_Laws Config_Backup Persistence_Inventory Host_Monitors
begin

text \<open>
  A verification library for \<^verbatim>\<open>inspectord\<close>, a host intrusion detection daemon written in Python
  (\<^verbatim>\<open>src/inspectord\<close>), and the guards of its dashboard (\<^verbatim>\<open>src/inspectorctl/web\<close>).

  \<^bold>\<open>The program.\<close> The supervisor starts worker processes. A worker watches one part of the host and
  writes one JSON event per line; the supervisor's reader threads parse the lines and give each event to
  \<^verbatim>\<open>_dispatch\<close>, which enriches it, marks first sightings, runs the rule engine (rules, history, allowlist,
  deduplicated alerts), captures evidence for severe alerts, tells the alert listeners and publishes the
  event on the router. Three subscribers read the router: the storage thread (journal, then the event
  table), the state projector behind it (tables of processes, services, sockets, packages and so on), and
  the anomaly detector, whose signals are events again. The monitor thread restarts dead workers and has
  two daily duties, verifying and anchoring the audit chain and retention. Clients speak JSON-RPC over a
  local socket: the server gates dangerous methods through polkit and the handlers read and change alerts,
  cases, saved hunts, quarantine, baselines, vulnerabilities and dependencies, forward commands to workers,
  and leave rows in the hash-chained audit log. The scheduler thread runs saved hunts over stored events.
  A separate privileged helper installs packages from plans the daemon stored. The dashboard is a local
  web server in front of the same socket.

  \<^bold>\<open>Foundations.\<close>
  \<^item> \<^verbatim>\<open>Prelude\<close>: Python values, dictionaries and SQL tables as association lists, bounded deques, the
    collections of simplification rules and the generic lemmas about them.
  \<^item> \<^verbatim>\<open>Pystring\<close>, \<^verbatim>\<open>Pytext\<close>, \<^verbatim>\<open>Json\<close>: the string methods and the JSON reader and writer of Python's
    standard library, as far as the sources use them.
  \<^item> \<^verbatim>\<open>Events\<close>: the records of \<^verbatim>\<open>schemas/event.py\<close>, \<^verbatim>\<open>schemas/alert.py\<close>, \<^verbatim>\<open>schemas/allowlist.py\<close> and
    \<^verbatim>\<open>rules/base.py\<close>.

  \<^bold>\<open>Detection.\<close>
  \<^item> \<^verbatim>\<open>Rate_Limit\<close>: \<^verbatim>\<open>ratelimit.py\<close>; tokens granted and calls in a window are bounded.
  \<^item> \<^verbatim>\<open>Router\<close>: \<^verbatim>\<open>router.py\<close>; queues are bounded, order is kept, a critical event is never dropped silently
    (C27).
  \<^item> \<^verbatim>\<open>Expr\<close>: \<^verbatim>\<open>expr.py\<close>; the tokeniser and parser read back every printed expression (C31).
    \<^verbatim>\<open>Yaml_Rules\<close>: \<^verbatim>\<open>rules/yaml_loader.py\<close>, loading and evaluation, with its denotation.
  \<^item> \<^verbatim>\<open>Allowlist\<close>: \<^verbatim>\<open>allowlist/evaluator.py\<close> with Python's \<^verbatim>\<open>fnmatch\<close>.
  \<^item> \<^verbatim>\<open>Alerts\<close>: \<^verbatim>\<open>alerts/\<close>; the life cycle as a step relation (C6) and deduplication (C9).
  \<^item> \<^verbatim>\<open>Rule_Engine\<close>: \<^verbatim>\<open>rules/registry.py\<close>, \<^verbatim>\<open>rule_engine.py\<close>; every match of an event is suppressed, failed or
    persisted, and counted (C11).
  \<^item> \<^verbatim>\<open>Enrichment\<close>: \<^verbatim>\<open>parsers/base.py\<close>, \<^verbatim>\<open>enrichment/\<close>, \<^verbatim>\<open>anomaly/first_sighting.py\<close>.

  \<^bold>\<open>The record.\<close>
  \<^item> \<^verbatim>\<open>Hash_Chain\<close>: the locale \<open>hash_chain\<close>, interpreted on the audit log and on the journal. \<^verbatim>\<open>Audit_Log\<close>:
    \<^verbatim>\<open>audit/\<close>; the log always verifies (C3), and a log that verifies against an anchor either has the anchored
    prefix or exhibits two different inputs with one digest (C1). \<^verbatim>\<open>Journal\<close>: \<^verbatim>\<open>journal.py\<close>.
  \<^item> \<^verbatim>\<open>Storage\<close>: \<^verbatim>\<open>storage/events.py\<close>, \<^verbatim>\<open>storage/migrations.py\<close>.
  \<^item> \<^verbatim>\<open>Projector\<close>, \<^verbatim>\<open>Entity_State\<close>: \<^verbatim>\<open>state/projector.py\<close>, \<^verbatim>\<open>reconcile.py\<close>, \<^verbatim>\<open>baseline.py\<close>; the locale
    \<open>tracked_table\<close>, interpreted on five tables, and what the tables hold after any stream (C17).
    \<^verbatim>\<open>State_Panels\<close>: \<^verbatim>\<open>state/ipc_handlers.py\<close>.
  \<^item> \<^verbatim>\<open>Retention\<close>, \<^verbatim>\<open>Retention_Journal\<close>: \<^verbatim>\<open>retention/engine.py\<close>; which events go (C28), that the audit verdict
    stays (C24), the quota and the protected files.

  \<^bold>\<open>Evidence.\<close> \<^verbatim>\<open>Cases\<close> (\<^verbatim>\<open>cases/\<close>), \<^verbatim>\<open>Evidence\<close> (\<^verbatim>\<open>evidence/\<close>) and \<^verbatim>\<open>Quarantine\<close> (\<^verbatim>\<open>quarantine/\<close>);
  \<^verbatim>\<open>Custody\<close>: a quarantined file comes back as it was (C18), a row never claims more than the disk shows (C12);
  \<^verbatim>\<open>Custody_Steps\<close>: no interleaving of captures, quarantine and pruning loses referenced bytes (C4).

  \<^bold>\<open>The supervisor.\<close> All of \<^verbatim>\<open>supervisor.py\<close> but process creation and thread joining.
  \<^item> \<^verbatim>\<open>Pipeline\<close>: \<^verbatim>\<open>_dispatch\<close> and the storage thread; every event is published whatever fails before (C7),
    evidence is linked before anyone is notified (C20). \<^verbatim>\<open>Persistence\<close>: outages of the storage thread.
  \<^item> \<^verbatim>\<open>Workers\<close>: command channel and restart policy; \<^verbatim>\<open>Restart_Policy\<close>: the monitor refines an abstract retry
    machine (C32) and restarts are paced (C37); \<^verbatim>\<open>Command_Channel\<close>: under every interleaving of senders,
    readers, monitor and stop, a verdict is the one its worker wrote (C10).
  \<^item> \<^verbatim>\<open>Supervisor\<close>, \<^verbatim>\<open>Supervisor_Laws\<close>, \<^verbatim>\<open>Well_Formed\<close>: start, stop, duties and readers; only verified heads are
    anchored (C13), and the whole state stays well formed (C2).
  \<^item> \<^verbatim>\<open>Worker_Contract\<close>, \<^verbatim>\<open>Worker_Loop\<close>: the worker's side, \<^verbatim>\<open>workers/contract.py\<close>; every command is answered
    (C38), a stop request ends the loop after at most the pass under way (C33).

  \<^bold>\<open>Clients.\<close>
  \<^item> \<^verbatim>\<open>Authz\<close>, \<^verbatim>\<open>Ipc\<close>, \<^verbatim>\<open>Ipc_Laws\<close>, \<^verbatim>\<open>Ipc_Methods\<close>, \<^verbatim>\<open>Ipc_Refusals\<close>, \<^verbatim>\<open>Ipc_Commands\<close>: \<^verbatim>\<open>authz.py\<close>, \<^verbatim>\<open>ipc_server.py\<close>,
    \<^verbatim>\<open>ipc_errors.py\<close>, \<^verbatim>\<open>ipc_commands.py\<close> and the method table of \<^verbatim>\<open>__main__.py\<close>; gated calls are authorised
    (C5), the verdict of the gate (C25), the texts of failures stay inside (C30), worker commands are policed
    (C29).
  \<^item> \<^verbatim>\<open>Hunt_Compiler\<close>, \<^verbatim>\<open>Hunt_Fidelity\<close>, \<^verbatim>\<open>Hunt_Injection\<close>: \<^verbatim>\<open>hunt/compiler.py\<close>, \<^verbatim>\<open>hunt/execute.py\<close>; a hunt finds what
    the rule would match (C8) and no literal reaches the SQL text (C14). \<^verbatim>\<open>Hunt_Store\<close>, \<^verbatim>\<open>Hunt_Handlers\<close>,
    \<^verbatim>\<open>Hunt_Schedule\<close>, \<^verbatim>\<open>Hunt_Consent\<close>: saved hunts, their handlers and their scheduler (C21, C39).
  \<^item> \<^verbatim>\<open>Web_Guard\<close>: \<^verbatim>\<open>inspectorctl/web/csrf.py\<close> and the order of the guards in \<^verbatim>\<open>app.py\<close> (C15).

  \<^bold>\<open>Anomalies.\<close> \<^verbatim>\<open>Anomaly_Stats\<close> and \<^verbatim>\<open>Anomaly_Engine\<close> (\<^verbatim>\<open>anomaly/stats.py\<close>): windows aggregate exactly (C40),
  every minute is closed once (C34). \<^verbatim>\<open>Anomaly_Sources\<close>, \<^verbatim>\<open>Anomaly_Laws\<close> (\<^verbatim>\<open>metrics.py\<close>, \<^verbatim>\<open>beacon.py\<close>,
  \<^verbatim>\<open>entity_baseline.py\<close>), \<^verbatim>\<open>Anomaly_Detector\<close> (\<^verbatim>\<open>detector.py\<close>), \<^verbatim>\<open>Anomaly_Checkpoint\<close> (the locale \<open>restorable\<close>,
  interpreted on the stores that are checkpointed), \<^verbatim>\<open>Anomaly_Restart\<close> (C22) and \<^verbatim>\<open>Anomaly_Signals\<close>.

  \<^bold>\<open>Collectors and jobs.\<close>
  \<^item> \<^verbatim>\<open>Snapshots\<close>: kernel modules, services and listening sockets; the locale \<open>change_feed\<close>, interpreted on the
    three, and that the reported changes replay to the snapshots (C36). \<^verbatim>\<open>Persistence_Inventory\<close>: what starts
    by itself, and that the projected table mirrors it (C23). \<^verbatim>\<open>Host_Monitors\<close>: firewall and devices.
  \<^item> \<^verbatim>\<open>Scanner_Runner\<close>, \<^verbatim>\<open>Scanner_Laws\<close>: \<^verbatim>\<open>workers/scanner_runner\<close>; every scan is reported once (C26).
  \<^item> \<^verbatim>\<open>Vuln_Scan\<close>: \<^verbatim>\<open>vuln/\<close> and its worker (C19).
  \<^item> \<^verbatim>\<open>Distro\<close>, \<^verbatim>\<open>Dependencies\<close>, \<^verbatim>\<open>Dependency_Apply\<close>, \<^verbatim>\<open>Dependency_Laws\<close>, \<^verbatim>\<open>Config_Backup\<close>: \<^verbatim>\<open>dependencies/\<close>; the
    privileged helper is contained (C16) and plans install exactly what is missing (C35).

  \<^bold>\<open>Conventions.\<close> A class is a record, its methods are functions that return the next record; an
  exception is \<open>Inl\<close>, \<open>None\<close> or a constructor of an error datatype, and the state beside it is the one the
  exception leaves. What the code does not decide is an argument: clock readings, fresh identifiers, the
  outcome of a statement, of a system call or of a child process, and the order in which SQL yields rows it
  does not sort. Threads are cut at their critical sections and at the calls that wait; a theorem about
  concurrency quantifies over every sequence of such steps. Library functions whose text is not part of the
  repository are parameters about which a theorem assumes nothing beyond what it states: SHA-256 (\<open>sha\<close>), the
  text of floats and foreign objects, ISO dates, \<^verbatim>\<open>re\<close>, IP addresses, unified diffs, base 64, templates.
  Instants are integers (microseconds where the code subtracts them, ordinals for dates); floats are reals,
  so rounding is not modelled; strings are over the first 256 code points, and a dash outside ASCII in a
  message is a plain one. Python integers are unbounded integers, so there is no wrap-around.

  \<^bold>\<open>Bounds.\<close> No definition is cut off by fuel: every loop is a recursion over its data or has a measure,
  and a read loop runs over the chunks the environment delivers. Sizes, limits, windows and timeouts are the
  constants of the source.

  \<^bold>\<open>Not modelled.\<close> DuckDB itself (statements are functions on rows; casts of bound values are left out), PyYAML
  and Pydantic with the loaders that only call them, argument parsing and process entry points, the creation of
  sockets, processes and threads, gzip and zip containers, the command line and tray programs and the web routes
  (they format replies of the daemon), the collectors that forward records of the kernel tracing extension, and
  the three scanner adapters. The manifest lists each part with its reason.
\<close>

end
